(* ===== verification/Prelude.thy ===== *)
theory Prelude
  imports Main "HOL-Library.Char_ord" "HOL-Library.List_Lexorder" "HOL-Library.Product_Lexorder"
    "HOL-Library.AList" "HOL-Library.Multiset"
begin

text \<open>
  Shared vocabulary of the development: the exceptions of the Python code as values, Python
  dictionaries as association lists in insertion order, the text operations the code uses
  (decimal printing, \<open>", ".join\<close>), \<open>sorted(set)\<close>, and the generic lemmas on
  them that the component theories share.

  A Python \<open>str\<close> is modelled by the list of its UTF-8 bytes (type \<open>string\<close>). UTF-8
  preserves code point order, so \<open>sorted\<close> and \<open><\<close> on \<open>str\<close> are the
  lexicographic order on these byte lists.
\<close>

named_theorems dict_simps \<open>rewriting of dictionary operations\<close>
named_theorems sorted_simps \<open>sorted(set) and its membership\<close>
named_theorems status_simps \<open>reading evidence statuses off reports\<close>

section \<open>Exceptions and fallible results\<close>

text \<open>
  The exception classes the code raises, each with the constant part of its message
  (interpolated values are left out). pydantic's ValidationError, json.JSONDecodeError, binascii.Error and
  UnicodeDecodeError are ValueErrors, FileNotFoundError is an OSError;
  sqlite3.IntegrityError is raised by a violated UNIQUE or FOREIGN KEY constraint. IntegrityError and DataError also
  stand for the classes of psycopg with these names, ClientError for that of botocore.
\<close>

datatype py_error =
    ValueError string
  | KeyError string
  | PermissionError string
  | RuntimeError string
  | IndexError string
  | IntegrityError string
  | FileExistsError string
  | TypeError string
  | OSError string
  | InvalidSignature
  | CsvError string
  | DataError string
  | ClientError string
  | SourceNetworkError string
  | OverflowError string

type_synonym 'a result = "py_error + 'a"

abbreviation raise :: "py_error \<Rightarrow> 'a result" where
  "raise \<equiv> Inl"

abbreviation return :: "'a \<Rightarrow> 'a result" where
  "return \<equiv> Inr"

definition bind_result :: "'a result \<Rightarrow> ('a \<Rightarrow> 'b result) \<Rightarrow> 'b result" where
  "bind_result m f = (case m of Inl e \<Rightarrow> Inl e | Inr x \<Rightarrow> f x)"

lemma bind_result_simps [simp]:
  "bind_result (Inl e) f = Inl e"
  "bind_result (Inr x) f = f x"
  by (simp_all add: bind_result_def)

lemma bind_result_eq_Inr [simp]:
  "bind_result m f = Inr y \<longleftrightarrow> (\<exists>x. m = Inr x \<and> f x = Inr y)"
  by (cases m) auto

text \<open>A list comprehension whose element expression can raise.\<close>

fun map_result :: "('a \<Rightarrow> 'b result) \<Rightarrow> 'a list \<Rightarrow> 'b list result" where
  "map_result f [] = return []"
| "map_result f (x # xs) = bind_result (f x) (\<lambda>y. bind_result (map_result f xs) (\<lambda>ys. return (y # ys)))"

lemma map_result_Inr: "map_result f xs = Inr ys \<longleftrightarrow> list_all2 (\<lambda>x y. f x = Inr y) xs ys"
proof (induction xs arbitrary: ys)
  case Nil
  then show ?case by auto
next
  case (Cons x xs)
  then show ?case by (cases ys) auto
qed

lemma map_result_id: "list_all (\<lambda>x. f x = Inr x) xs \<Longrightarrow> map_result f xs = Inr xs"
  by (induction xs) auto

text \<open>The first exception of a sequence of checks, as consecutive \<open>if ...: raise\<close> lines.\<close>

fun first_error :: "(bool \<times> py_error) list \<Rightarrow> py_error option" where
  "first_error [] = None"
| "first_error ((c, e) # cs) = (if c then Some e else first_error cs)"

lemma first_error_None [simp]: "first_error cs = None \<longleftrightarrow> (\<forall>(c, e) \<in> set cs. \<not> c)"
  by (induction cs rule: first_error.induct) auto

definition guarded :: "(bool \<times> py_error) list \<Rightarrow> 'a \<Rightarrow> 'a result" where
  "guarded cs x = (case first_error cs of None \<Rightarrow> Inr x | Some e \<Rightarrow> Inl e)"

lemma guarded_Nil [simp]: "guarded [] x = Inr x"
  by (simp add: guarded_def)

lemma guarded_Cons [simp]: "guarded ((c, e) # cs) x = (if c then Inl e else guarded cs x)"
  by (simp add: guarded_def)

lemma guarded_eq_Inr: "guarded cs x = Inr y \<longleftrightarrow> y = x \<and> (\<forall>(c, e) \<in> set cs. \<not> c)"
proof (induction cs)
  case Nil
  then show ?case by auto
next
  case (Cons p cs)
  then show ?case by (cases p) (auto split: if_splits)
qed

section \<open>Dictionaries\<close>

text \<open>
  A dict with string keys, in insertion order; \<open>d[k] = v\<close> is \<open>AList.update\<close>, which
  replaces in place and appends a new key at the end, as Python does.
\<close>

type_synonym 'v dict = "(string \<times> 'v) list"

abbreviation dict_get :: "'v dict \<Rightarrow> string \<Rightarrow> 'v option" where
  "dict_get \<equiv> map_of"

abbreviation dict_set :: "string \<Rightarrow> 'v \<Rightarrow> 'v dict \<Rightarrow> 'v dict" where
  "dict_set \<equiv> AList.update"

definition dict_keys :: "'v dict \<Rightarrow> string set" where
  "dict_keys d = set (map fst d)"

definition dict_ok :: "'v dict \<Rightarrow> bool" where
  "dict_ok d = distinct (map fst d)"

definition dict_default :: "'v \<Rightarrow> 'v dict \<Rightarrow> string \<Rightarrow> 'v" where
  "dict_default x d k = (case dict_get d k of None \<Rightarrow> x | Some v \<Rightarrow> v)"

lemma finite_dict_keys [simp, intro]: "finite (dict_keys d)"
  by (simp add: dict_keys_def)

lemma dict_keys_Nil [dict_simps]: "dict_keys [] = {}"
  by (simp add: dict_keys_def)

lemma dict_keys_Cons [dict_simps]: "dict_keys (p # d) = insert (fst p) (dict_keys d)"
  by (simp add: dict_keys_def)

lemma dict_keys_set [dict_simps]: "dict_keys (dict_set k v d) = insert k (dict_keys d)"
  by (auto simp: dict_keys_def update_conv' dom_map_of_conv_image_fst [symmetric])

lemma dict_keys_dom: "dict_keys d = dom (dict_get d)"
  by (simp add: dict_keys_def dom_map_of_conv_image_fst)

lemma dict_get_None [dict_simps]: "dict_get d k = None \<longleftrightarrow> k \<notin> dict_keys d"
  by (simp add: dict_keys_dom domIff)

lemma dict_get_Some_key: "dict_get d k = Some v \<Longrightarrow> k \<in> dict_keys d"
  by (simp add: dict_keys_dom domI)

lemma dict_get_set [dict_simps]:
  "dict_get (dict_set k v d) k' = (if k' = k then Some v else dict_get d k')"
  by (simp add: update_conv')

lemma dict_ok_Nil [dict_simps]: "dict_ok []"
  by (simp add: dict_ok_def)

lemma dict_ok_set [intro]: "dict_ok d \<Longrightarrow> dict_ok (dict_set k v d)"
  by (simp add: dict_ok_def distinct_update)

text \<open>\<open>{k: v for k, v in ...}\<close> and \<open>dict(sorted(d.items()))\<close>.\<close>

definition dict_of :: "(string \<times> 'v) list \<Rightarrow> 'v dict" where
  "dict_of xs = foldl (\<lambda>d (k, v). dict_set k v d) [] xs"

definition dict_sorted :: "'v dict \<Rightarrow> 'v dict" where
  "dict_sorted d = sort_key fst d"

lemma dict_get_fold:
  "dict_get (foldl (\<lambda>d (k, v). dict_set k v d) d0 xs) k =
     (case map_of (rev xs) k of None \<Rightarrow> dict_get d0 k | Some v \<Rightarrow> Some v)"
  by (induction xs arbitrary: d0)
    (auto simp: dict_get_set map_add_def split: option.splits prod.splits)

lemma dict_get_of: "dict_get (dict_of xs) k = map_of (rev xs) k"
  by (simp add: dict_of_def dict_get_fold split: option.splits)

lemma dict_get_of_distinct: "distinct (map fst xs) \<Longrightarrow> dict_get (dict_of xs) = map_of xs"
proof -
  assume d: "distinct (map fst xs)"
  then have "distinct (map fst (rev xs))" by (metis distinct_rev rev_map)
  with d have "map_of (rev xs) = map_of xs" by (intro map_of_eqI) (auto simp: map_of_eq_Some_iff)
  then show ?thesis by (auto simp: dict_get_of)
qed

lemma dict_keys_of [dict_simps]: "dict_keys (dict_of xs) = set (map fst xs)"
  using dict_get_of [of xs] by (auto simp: dict_keys_dom dom_def map_of_eq_None_iff
      weak_map_of_SomeI simp flip: not_None_eq split: option.splits)

lemma dict_ok_fold: "dict_ok d0 \<Longrightarrow> dict_ok (foldl (\<lambda>d (k, v). dict_set k v d) d0 xs)"
  by (induction xs arbitrary: d0) (auto split: prod.splits)

lemma dict_ok_of [simp]: "dict_ok (dict_of xs)"
  by (simp add: dict_of_def dict_ok_fold dict_ok_Nil)

lemma dict_ok_sorted [simp]: "dict_ok (dict_sorted d) = dict_ok d"
  unfolding dict_ok_def dict_sorted_def
  by (metis mset_eq_imp_distinct_iff mset_map mset_sort)

lemma dict_keys_sorted [simp]: "dict_keys (dict_sorted d) = dict_keys d"
  by (simp add: dict_keys_def dict_sorted_def)

lemma dict_get_sorted: "dict_ok d \<Longrightarrow> dict_get (dict_sorted d) = dict_get d"
  using dict_ok_sorted [of d]
  by (intro map_of_eqI) (auto simp: dict_ok_def dict_sorted_def)

section \<open>Sorted sets of identifiers\<close>

definition sorted_set :: "'a::linorder set \<Rightarrow> 'a list" where
  "sorted_set A = sorted_list_of_set A"

lemma sorted_set_set [sorted_simps, simp]: "finite A \<Longrightarrow> set (sorted_set A) = A"
  by (simp add: sorted_set_def)

lemma sorted_set_Nil [sorted_simps, simp]: "finite A \<Longrightarrow> sorted_set A = [] \<longleftrightarrow> A = {}"
  by (simp add: sorted_set_def)

lemma sorted_set_empty [simp]: "sorted_set {} = []"
  by (simp add: sorted_set_def)

lemma distinct_sorted_set [simp, intro]: "distinct (sorted_set A)"
  by (simp add: sorted_set_def)

lemma sorted_sorted_set [simp, intro]: "sorted (sorted_set A)"
  by (simp add: sorted_set_def)

lemma length_sorted_set [simp]: "length (sorted_set A) = card A"
  by (simp add: sorted_set_def)

lemma sorted_set_inj: "finite A \<Longrightarrow> finite B \<Longrightarrow> sorted_set A = sorted_set B \<longleftrightarrow> A = B"
  by (metis sorted_set_set)

lemma sorted_distinct_set_unique_list:
  "sorted xs \<Longrightarrow> distinct xs \<Longrightarrow> sorted_set (set xs) = xs"
  by (simp add: sorted_set_def sorted_distinct_set_unique)

section \<open>Text\<close>

definition digit_char :: "nat \<Rightarrow> char" where
  "digit_char n = ''0123456789'' ! n"

fun nat_str :: "nat \<Rightarrow> string" where
  "nat_str n = (if n < 10 then [digit_char n] else nat_str (n div 10) @ [digit_char (n mod 10)])"

declare nat_str.simps [simp del]

text \<open>\<open>str(n)\<close> for an int.\<close>

definition int_str :: "int \<Rightarrow> string" where
  "int_str i = (if i < 0 then CHR ''-'' # nat_str (nat (- i)) else nat_str (nat i))"

fun join :: "string \<Rightarrow> string list \<Rightarrow> string" where
  "join sep [] = []"
| "join sep [x] = x"
| "join sep (x # y # xs) = x @ sep @ join sep (y # xs)"

definition rstrip_char :: "char \<Rightarrow> string \<Rightarrow> string" where
  "rstrip_char c s = rev (dropWhile (\<lambda>x. x = c) (rev s))"

text \<open>\<open>needle in s\<close> on texts.\<close>

fun has_infix :: "string \<Rightarrow> string \<Rightarrow> bool" where
  "has_infix needle [] = (needle = [])"
| "has_infix needle (c # s) = (take (length needle) (c # s) = needle \<or> has_infix needle s)"

definition is_digit :: "char \<Rightarrow> bool" where
  "is_digit c = (c \<in> set ''0123456789'')"

definition nat_of_str :: "string \<Rightarrow> nat" where
  "nat_of_str s = foldl (\<lambda>acc c. 10 * acc + (of_char c - 48)) 0 s"

lemma digit_char_is_digit: "n < 10 \<Longrightarrow> is_digit (digit_char n)"
  unfolding is_digit_def digit_char_def by (rule nth_mem) simp

lemma of_digit_char: "n < 10 \<Longrightarrow> of_char (digit_char n) = 48 + n"
proof -
  assume "n < 10"
  then have "n \<in> set [0..<10]" by simp
  then show ?thesis by (auto simp: digit_char_def upt_conv_Cons)
qed

lemma nat_str_digits: "c \<in> set (nat_str n) \<Longrightarrow> is_digit c"
proof (induction n rule: nat_str.induct)
  case (1 n)
  then show ?case
    by (subst (asm) (2) nat_str.simps) (auto simp: digit_char_is_digit split: if_splits)
qed

lemma nat_str_not_Nil [simp]: "nat_str n \<noteq> []"
  by (subst nat_str.simps) simp

lemma nat_of_nat_str [simp]: "nat_of_str (nat_str n) = n"
proof (induction n rule: nat_str.induct)
  case (1 n)
  show ?case
  proof (cases "n < 10")
    case True
    then show ?thesis by (subst nat_str.simps) (simp add: nat_of_str_def of_digit_char)
  next
    case False
    then have "nat_of_str (nat_str n) = 10 * nat_of_str (nat_str (n div 10)) + n mod 10"
      by (subst nat_str.simps) (simp add: nat_of_str_def of_digit_char)
    with False 1 show ?thesis by simp
  qed
qed

lemma nat_str_inj: "nat_str m = nat_str n \<longleftrightarrow> m = n"
  by (metis nat_of_nat_str)

lemma minus_not_digit: "\<not> is_digit (CHR ''-'')"
  by (simp add: is_digit_def)

lemma nat_str_no_minus: "nat_str n \<noteq> CHR ''-'' # s"
  using nat_str_digits [of "CHR ''-''" n] minus_not_digit by (metis list.set_intros(1))

lemma int_str_inj: "int_str i = int_str j \<longleftrightarrow> i = j"
proof
  assume eq: "int_str i = int_str j"
  consider "i < 0" "j < 0" | "i < 0" "0 \<le> j" | "0 \<le> i" "j < 0" | "0 \<le> i" "0 \<le> j"
    by linarith
  then show "i = j"
  proof cases
    case 2
    with eq have "nat_str (nat j) = CHR ''-'' # nat_str (nat (- i))"
      by (simp add: int_str_def)
    then show ?thesis by (simp add: nat_str_no_minus)
  next
    case 3
    with eq have "nat_str (nat i) = CHR ''-'' # nat_str (nat (- j))"
      by (simp add: int_str_def)
    then show ?thesis by (simp add: nat_str_no_minus)
  qed (use eq in \<open>simp_all add: int_str_def nat_str_inj\<close>)
qed simp

lemma int_str_chars: "c \<in> set (int_str i) \<Longrightarrow> is_digit c \<or> c = CHR ''-''"
  by (auto simp: int_str_def nat_str_digits split: if_splits)

lemma int_str_not_Nil [simp]: "int_str i \<noteq> []"
  by (simp add: int_str_def)

section \<open>Lists\<close>

text \<open>\<open>len(xs) != len(set(xs))\<close> is the code's test for duplicates.\<close>

lemma length_set_distinct: "length xs = card (set xs) \<longleftrightarrow> distinct xs"
  by (metis card_distinct distinct_card)

lemma sum_list_map_filter_if:
  "(\<Sum>x \<leftarrow> filter P xs. f x) = (\<Sum>x \<leftarrow> xs. if P x then f x else (0 :: 'a :: comm_monoid_add))"
  by (induction xs) auto

lemma map_of_mem_distinct:
  "distinct (map fst d) \<Longrightarrow> (k, v) \<in> set d \<Longrightarrow> map_of d k = Some v"
  by simp

lemma find_Some_in: "find P xs = Some x \<Longrightarrow> x \<in> set xs \<and> P x"
  by (auto simp: find_Some_iff)

lemma find_unique_iff:
  "distinct (map f xs) \<Longrightarrow> find (\<lambda>x. f x = a \<and> P x) xs = Some y \<longleftrightarrow> y \<in> set xs \<and> f y = a \<and> P y"
  by (induction xs) auto

text \<open>\<open>ORDER BY k\<close> after a row with the largest key was inserted.\<close>

lemma sort_key_snoc_max:
  assumes "\<And>x. x \<in> set xs \<Longrightarrow> f x \<le> f r"
  shows "sort_key f (xs @ [r]) = sort_key f xs @ [r]"
proof (rule properties_for_sort_key)
  show "mset (sort_key f xs @ [r]) = mset (xs @ [r])" by simp
  show "filter (\<lambda>x. f k = f x) (sort_key f xs @ [r]) = filter (\<lambda>x. f k = f x) (xs @ [r])" for k
    using sort_key_stable [of f "f k" xs] by (simp add: eq_commute)
  show "sorted (map f (sort_key f xs @ [r]))" using assms by (auto simp: sorted_append)
qed

lemma sorted_le_last: "sorted (map f xs) \<Longrightarrow> x \<in> set xs \<Longrightarrow> f x \<le> f (last xs)"
  by (induction xs) (auto split: if_splits)

end
