(* ===== verification/Canonical_Json.thy ===== *)
theory Canonical_Json
  imports Sha256
begin

text \<open>
  src/ballotproof/provenance.py: \<open>canonical_json_bytes\<close> is
  \<open>json.dumps(value, sort_keys=True, separators=(",", ":"), ensure_ascii=False)\<close> in UTF-8, and
  \<open>hash_record\<close> is the SHA-256 of it. A JSON document is a value of type \<open>json\<close>; a
  float is kept as the text its \<open>repr\<close> prints. The main result is that the canonical text
  determines the document up to the order of object keys.
\<close>

section \<open>Documents\<close>

datatype json =
    JNull
  | JBool bool
  | JInt int
  | JFloat string
  | JStr string
  | JArr "json list"
  | JObj "(string \<times> json) list"

definition json_opt :: "('a \<Rightarrow> json) \<Rightarrow> 'a option \<Rightarrow> json" where
  "json_opt f x = (case x of None \<Rightarrow> JNull | Some v \<Rightarrow> f v)"

definition num_char :: "char \<Rightarrow> bool" where
  "num_char c = (is_digit c \<or> c \<in> set ''-+.e'')"

text \<open>The texts \<open>float.__repr__\<close> prints for finite floats all look like this.\<close>

definition float_text_ok :: "string \<Rightarrow> bool" where
  "float_text_ok s = (s \<noteq> [] \<and> list_all num_char s \<and> (CHR ''.'' \<in> set s \<or> CHR ''e'' \<in> set s))"

fun json_ok :: "json \<Rightarrow> bool" where
  "json_ok (JFloat s) = float_text_ok s"
| "json_ok (JArr xs) = (\<forall>x \<in> set xs. json_ok x)"
| "json_ok (JObj kvs) = (distinct (map fst kvs) \<and> (\<forall>(k, v) \<in> set kvs. json_ok v))"
| "json_ok _ = True"

section \<open>The encoder of \<open>json.dumps\<close>\<close>

text \<open>\<open>ESCAPE_DCT\<close> of the json module, with \<open>ensure_ascii=False\<close>.\<close>

definition esc_char :: "char \<Rightarrow> string" where
  "esc_char c =
     (if c = CHR 0x22 then [CHR 0x5C, CHR 0x22]
      else if c = CHR 0x5C then [CHR 0x5C, CHR 0x5C]
      else if c = CHR 0x0A then [CHR 0x5C, CHR ''n'']
      else if c = CHR 0x0D then [CHR 0x5C, CHR ''r'']
      else if c = CHR 0x09 then [CHR 0x5C, CHR ''t'']
      else if c = CHR 0x0C then [CHR 0x5C, CHR ''f'']
      else if c = CHR 0x08 then [CHR 0x5C, CHR ''b'']
      else if (of_char c :: nat) < 32
      then [CHR 0x5C, CHR ''u'', CHR ''0'', CHR ''0'',
            hex_digit (of_char c div 16), hex_digit (of_char c mod 16)]
      else [c])"

fun esc_string :: "string \<Rightarrow> string" where
  "esc_string [] = [CHR 0x22]"
| "esc_string (c # s) = esc_char c @ esc_string s"

fun enc :: "json \<Rightarrow> string"
  and enc_items :: "json list \<Rightarrow> string"
  and enc_fields :: "(string \<times> json) list \<Rightarrow> string" where
  "enc JNull = ''null''"
| "enc (JBool b) = (if b then ''true'' else ''false'')"
| "enc (JInt i) = int_str i"
| "enc (JFloat s) = s"
| "enc (JStr s) = CHR 0x22 # esc_string s"
| "enc (JArr []) = ''[]''"
| "enc (JArr (x # xs)) = CHR ''['' # enc x @ enc_items xs"
| "enc (JObj []) = ''{}''"
| "enc (JObj ((k, v) # kvs)) = CHR ''{'' # CHR 0x22 # esc_string k @ CHR '':'' # enc v @ enc_fields kvs"
| "enc_items [] = '']''"
| "enc_items (x # xs) = CHR '','' # enc x @ enc_items xs"
| "enc_fields [] = ''}''"
| "enc_fields ((k, v) # kvs) =
     CHR '','' # CHR 0x22 # esc_string k @ CHR '':'' # enc v @ enc_fields kvs"

text \<open>\<open>sort_keys=True\<close> sorts the items of every object by key before they are printed.\<close>

fun sort_json :: "json \<Rightarrow> json" where
  "sort_json (JArr xs) = JArr (map sort_json xs)"
| "sort_json (JObj kvs) = JObj (sort_key fst (map (\<lambda>(k, v). (k, sort_json v)) kvs))"
| "sort_json j = j"

definition canonical_json_text :: "json \<Rightarrow> string" where
  "canonical_json_text v = enc (sort_json v)"

definition canonical_json_bytes :: "json \<Rightarrow> byte list" where
  "canonical_json_bytes v = utf8 (canonical_json_text v)"

definition hash_record :: "json \<Rightarrow> string" where
  "hash_record v = sha256_bytes (canonical_json_bytes v)"

text \<open>Equality of documents: objects are compared as dictionaries, whatever their key order.\<close>

fun json_eq :: "json \<Rightarrow> json \<Rightarrow> bool" where
  "json_eq (JArr xs) (JArr ys) = list_all2 json_eq xs ys"
| "json_eq (JObj kvs) (JObj lws) =
     (dict_keys kvs = dict_keys lws \<and>
      (\<forall>(k, v) \<in> set kvs. case dict_get lws k of None \<Rightarrow> False | Some w \<Rightarrow> json_eq v w))"
| "json_eq a b = (a = b)"

section \<open>The encoding can be read back\<close>

definition delimited :: "string \<Rightarrow> bool" where
  "delimited r = (r = [] \<or> hd r \<in> set '',]}'')"

lemma append_split_unique:
  assumes "list_all P t" "list_all P u" "r = [] \<or> \<not> P (hd r)" "s = [] \<or> \<not> P (hd s)"
    and "t @ r = u @ s"
  shows "t = u \<and> r = s"
proof -
  have *: "takeWhile P (w @ z) = w" if "list_all P w" "z = [] \<or> \<not> P (hd z)" for w z
    using that by (cases z) (auto simp: list_all_iff takeWhile_append2 takeWhile_tail)
  have "t = u" using * [of t r] * [of u s] assms by metis
  with assms show ?thesis by simp
qed

lemma delimited_not_num: "delimited r \<Longrightarrow> r = [] \<or> \<not> num_char (hd r)"
  by (auto simp: delimited_def num_char_def is_digit_def)

lemma int_str_num: "list_all num_char (int_str i)"
  using int_str_chars [of _ i] by (auto simp: list_all_iff num_char_def)

lemma int_str_no_float: "\<not> float_text_ok (int_str i)"
  using int_str_chars [of "CHR ''.''" i] int_str_chars [of "CHR ''e''" i]
  by (auto simp: float_text_ok_def is_digit_def)

lemma num_text_unique:
  assumes "list_all num_char t" "list_all num_char u" "delimited r" "delimited s" "t @ r = u @ s"
  shows "t = u \<and> r = s"
  using append_split_unique [OF assms(1,2) delimited_not_num delimited_not_num] assms by blast

lemma num_text_head:
  "list_all num_char t \<Longrightarrow> t \<noteq> [] \<Longrightarrow> t @ r = c # z \<Longrightarrow> num_char c"
  by (cases t) auto

lemma esc_char_not_Nil [simp]: "esc_char c \<noteq> []"
  by (simp add: esc_char_def)

lemma esc_char_not_quote: "esc_char c @ u \<noteq> CHR 0x22 # v"
  by (simp add: esc_char_def)

lemma hex_digit_inj: "m < 16 \<Longrightarrow> n < 16 \<Longrightarrow> hex_digit m = hex_digit n \<longleftrightarrow> m = n"
  using hex_value_digit by (metis option.inject)

lemma esc_control:
  "(of_char c :: nat) < 32 \<Longrightarrow> (of_char d :: nat) < 32 \<Longrightarrow>
   hex_digit (of_char c div 16) = hex_digit (of_char d div 16) \<Longrightarrow>
   hex_digit (of_char c mod 16) = hex_digit (of_char d mod 16) \<Longrightarrow> c = d"
proof -
  assume h: "(of_char c :: nat) < 32" "(of_char d :: nat) < 32"
    "hex_digit (of_char c div 16) = hex_digit (of_char d div 16)"
    "hex_digit (of_char c mod 16) = hex_digit (of_char d mod 16)"
  from h(1,2,3) have "(of_char c :: nat) div 16 = of_char d div 16"
    by (subst (asm) hex_digit_inj) auto
  moreover from h(4) have "(of_char c :: nat) mod 16 = of_char d mod 16"
    by (subst (asm) hex_digit_inj) auto
  ultimately have "(of_char c :: nat) = of_char d" by (metis div_mult_mod_eq)
  then show "c = d" by simp
qed

lemma esc_char_unique: "esc_char c @ u = esc_char d @ v \<Longrightarrow> c = d \<and> u = v"
  unfolding esc_char_def by (auto split: if_splits dest: esc_control)

lemma esc_string_unique: "esc_string s @ r = esc_string t @ z \<Longrightarrow> s = t \<and> r = z"
proof (induction s arbitrary: t)
  case Nil
  then show ?case
    by (cases t) (auto simp: esc_char_not_quote dest: sym [THEN esc_char_not_quote [THEN notE]])
next
  case (Cons c s)
  show ?case
  proof (cases t)
    case Nil
    with Cons.prems show ?thesis by (simp add: esc_char_not_quote)
  next
    case (Cons d t')
    with Cons.prems have "esc_char c @ (esc_string s @ r) = esc_char d @ (esc_string t' @ z)"
      by simp
    from esc_char_unique [OF this] Cons.IH Cons show ?thesis by blast
  qed
qed

lemma enc_num_head:
  "enc (JInt i) @ r = c # z \<Longrightarrow> num_char c"
  "float_text_ok t \<Longrightarrow> enc (JFloat t) @ r = c # z \<Longrightarrow> num_char c"
  using num_text_head [OF int_str_num, of i r c z] num_text_head [of t r c z]
  by (auto simp: float_text_ok_def)

text \<open>The first character of a text tells which constructor it encodes.\<close>

fun json_kind :: "json \<Rightarrow> nat" where
  "json_kind JNull = 0"
| "json_kind (JBool b) = 1"
| "json_kind (JInt i) = 2"
| "json_kind (JFloat s) = 2"
| "json_kind (JStr s) = 3"
| "json_kind (JArr xs) = 4"
| "json_kind (JObj kvs) = 5"

definition head_kind :: "char \<Rightarrow> nat" where
  "head_kind c =
     (if c = CHR ''n'' then 0 else if c \<in> set ''tf'' then 1 else if num_char c then 2
      else if c = CHR 0x22 then 3 else if c = CHR ''['' then 4
      else if c = CHR ''{'' then 5 else 6)"

lemma num_char_kind: "num_char c \<Longrightarrow> head_kind c = 2"
  by (auto simp: head_kind_def num_char_def is_digit_def)

lemma head_kind_simps [simp]:
  "head_kind (CHR ''n'') = 0" "head_kind (CHR ''t'') = 1" "head_kind (CHR ''f'') = 1"
  "head_kind (CHR 0x22) = 3" "head_kind (CHR ''['') = 4" "head_kind (CHR ''{'') = 5"
  "head_kind (CHR '']'') = 6"
  by (simp_all add: head_kind_def num_char_def is_digit_def)

lemma enc_kind: "json_ok a \<Longrightarrow> enc a @ r = c # z \<Longrightarrow> head_kind c = json_kind a"
proof (cases a)
  case (JInt i)
  assume "enc a @ r = c # z"
  with JInt enc_num_head(1) [of i r c z] show ?thesis by (simp add: num_char_kind)
next
  case (JFloat t)
  assume "json_ok a" "enc a @ r = c # z"
  with JFloat enc_num_head(2) [of t r c z] show ?thesis by (simp add: num_char_kind)
next
  case (JArr xs)
  assume "enc a @ r = c # z"
  with JArr show ?thesis by (cases xs) auto
next
  case (JObj kvs)
  assume "enc a @ r = c # z"
  with JObj show ?thesis by (cases kvs) auto
next
  case (JBool b)
  assume "enc a @ r = c # z"
  with JBool show ?thesis by (cases b) auto
qed auto

lemma enc_number:
  "json_kind a = 2 \<Longrightarrow> json_ok a \<Longrightarrow> list_all num_char (enc a)"
  by (cases a) (auto simp: int_str_num float_text_ok_def)

lemma enc_number_inj:
  "json_kind a = 2 \<Longrightarrow> json_kind b = 2 \<Longrightarrow> json_ok a \<Longrightarrow> json_ok b \<Longrightarrow> enc a = enc b \<Longrightarrow> a = b"
  using int_str_no_float by (cases a; cases b) (auto simp: int_str_inj)

lemma enc_number_unique:
  assumes "json_kind a = 2" "json_kind b = 2" "json_ok a" "json_ok b" "delimited r" "delimited s"
    and "enc a @ r = enc b @ s"
  shows "a = b \<and> r = s"
  using num_text_unique [OF enc_number enc_number] enc_number_inj assms by blast

lemma enc_not_Nil: "json_ok a \<Longrightarrow> enc a \<noteq> []"
  by (cases a rule: enc.cases) (auto simp: float_text_ok_def split: if_splits)

lemma enc_same_kind:
  assumes "json_ok a" "json_ok b" "enc a @ r = enc b @ s"
  shows "json_kind a = json_kind b"
proof -
  obtain c z where "enc a = c # z"
    using enc_not_Nil [OF assms(1)] by (cases "enc a") auto
  then have h: "enc a @ r = c # (z @ r)" by simp
  moreover from h assms(3) have "enc b @ s = c # (z @ r)" by simp
  ultimately show ?thesis using enc_kind assms(1,2) by metis
qed

lemma delimited_items: "delimited (enc_items xs @ r)"
  by (cases xs) (auto simp: delimited_def)

lemma delimited_fields: "delimited (enc_fields kvs @ r)"
  by (cases kvs) (auto simp: delimited_def)

definition fields_ok :: "(string \<times> json) list \<Rightarrow> bool" where
  "fields_ok kvs = (\<forall>(k, v) \<in> set kvs. json_ok v)"

lemma enc_kind_le: "json_kind a \<le> 5"
  by (cases a) auto

lemma enc_not_close: "json_ok y \<Longrightarrow> CHR '']'' # r \<noteq> enc y @ s"
proof
  assume "json_ok y" "CHR '']'' # r = enc y @ s"
  then have "head_kind (CHR '']'') = json_kind y" using enc_kind by metis
  with enc_kind_le [of y] show False by simp
qed

lemma fields_ok_Cons [simp]: "fields_ok ((k, v) # kvs) \<longleftrightarrow> json_ok v \<and> fields_ok kvs"
  by (simp add: fields_ok_def)

lemma field_unique_step:
  assumes IHv: "\<And>b r s. json_ok b \<Longrightarrow> delimited r \<Longrightarrow> delimited s \<Longrightarrow> enc v @ r = enc b @ s
      \<Longrightarrow> v = b \<and> r = s"
    and IHk: "\<And>lws r s. fields_ok lws \<Longrightarrow> enc_fields kvs @ r = enc_fields lws @ s
      \<Longrightarrow> kvs = lws \<and> r = s"
    and ok: "json_ok w" "fields_ok lws"
    and eq: "esc_string k @ CHR '':'' # enc v @ enc_fields kvs @ r =
      esc_string l @ CHR '':'' # enc w @ enc_fields lws @ s"
  shows "k = l \<and> v = w \<and> kvs = lws \<and> r = s"
proof -
  from esc_string_unique [OF eq] have "k = l"
    and "enc v @ (enc_fields kvs @ r) = enc w @ (enc_fields lws @ s)" by simp_all
  with IHv [OF ok(1) delimited_fields delimited_fields] have "v = w"
    and "enc_fields kvs @ r = enc_fields lws @ s" by blast+
  with IHk [OF ok(2)] \<open>k = l\<close> show ?thesis by blast
qed

lemma enc_unique:
  "json_ok a \<Longrightarrow> json_ok b \<Longrightarrow> delimited r \<Longrightarrow> delimited s \<Longrightarrow> enc a @ r = enc b @ s
     \<Longrightarrow> a = b \<and> r = s"
  and enc_items_unique:
  "list_all json_ok xs \<Longrightarrow> list_all json_ok ys \<Longrightarrow> enc_items xs @ r = enc_items ys @ s
     \<Longrightarrow> xs = ys \<and> r = s"
  and enc_fields_unique:
  "fields_ok kvs \<Longrightarrow> fields_ok lws \<Longrightarrow> enc_fields kvs @ r = enc_fields lws @ s
     \<Longrightarrow> kvs = lws \<and> r = s"
proof (induction a and xs and kvs arbitrary: b r s and ys r s and lws r s
    rule: enc_enc_items_enc_fields.induct)
  case 1
  from enc_same_kind [OF "1.prems"(1,2,5)] "1.prems" show ?case by (cases b) auto
next
  case (2 x)
  from enc_same_kind [OF "2.prems"(1,2,5)] "2.prems" show ?case
    by (cases b) (auto split: if_splits)
next
  case (3 i)
  from enc_same_kind [OF "3.prems"(1,2,5)] have "json_kind b = 2" by simp
  with "3.prems" show ?case by (intro enc_number_unique) simp_all
next
  case (4 t)
  from enc_same_kind [OF "4.prems"(1,2,5)] have "json_kind b = 2" by simp
  with "4.prems" show ?case by (intro enc_number_unique) simp_all
next
  case (5 t)
  from enc_same_kind [OF "5.prems"(1,2,5)] "5.prems" show ?case
    by (cases b) (auto dest: esc_string_unique)
next
  case 6
  from enc_same_kind [OF "6.prems"(1,2,5)] obtain ys where "b = JArr ys" by (cases b) auto
  with "6.prems" show ?case by (cases ys) (auto simp: enc_not_close)
next
  case (7 x xs)
  from enc_same_kind [OF "7.prems"(1,2,5)] obtain ys where b: "b = JArr ys" by (cases b) auto
  show ?case
  proof (cases ys)
    case Nil
    with b "7.prems" show ?thesis using enc_not_close [of x s "enc_items xs @ r"] by auto
  next
    case (Cons y ys')
    with b "7.prems" have "enc x @ (enc_items xs @ r) = enc y @ (enc_items ys' @ s)" by simp
    moreover have "json_ok x" "json_ok y" using b Cons "7.prems"(1,2) by simp_all
    ultimately have "x = y \<and> enc_items xs @ r = enc_items ys' @ s"
      using "7.IH"(1) delimited_items by blast
    moreover have "list_all json_ok xs" "list_all json_ok ys'"
      using b Cons "7.prems"(1,2) by (simp_all add: list_all_iff)
    ultimately show ?thesis using "7.IH"(2) b Cons by blast
  qed
next
  case 8
  from enc_same_kind [OF "8.prems"(1,2,5)] obtain lws where "b = JObj lws" by (cases b) auto
  with "8.prems" show ?case by (cases lws) auto
next
  case (9 k v kvs)
  from enc_same_kind [OF "9.prems"(1,2,5)] obtain lws where b: "b = JObj lws" by (cases b) auto
  have ok: "json_ok v" "fields_ok kvs" using "9.prems"(1) by (auto simp: fields_ok_def)
  from b "9.prems" show ?case
  proof (cases lws)
    case (Cons lw lws')
    obtain l w where lw: "lw = (l, w)" by (cases lw)
    have ok': "json_ok w" "fields_ok lws'" using "9.prems"(2) b Cons lw
      by (auto simp: fields_ok_def)
    have "esc_string k @ CHR '':'' # enc v @ enc_fields kvs @ r =
        esc_string l @ CHR '':'' # enc w @ enc_fields lws' @ s"
      using "9.prems"(5) b Cons lw by simp
    with field_unique_step [OF "9.IH"(1) [OF ok(1)] "9.IH"(2) [OF ok(2)] ok']
    have "k = l \<and> v = w \<and> kvs = lws' \<and> r = s" by blast
    then show ?thesis by (simp add: b Cons lw)
  qed auto
next
  case 10
  then show ?case by (cases ys) auto
next
  case (11 x xs)
  show ?case
  proof (cases ys)
    case (Cons y ys')
    with "11.prems" have "enc x @ (enc_items xs @ r) = enc y @ (enc_items ys' @ s)" by simp
    moreover have "json_ok x" "json_ok y" using Cons "11.prems"(1,2) by simp_all
    ultimately have "x = y \<and> enc_items xs @ r = enc_items ys' @ s"
      using "11.IH"(1) delimited_items by blast
    moreover have "list_all json_ok xs" "list_all json_ok ys'" using Cons "11.prems"(1,2) by simp_all
    ultimately show ?thesis using "11.IH"(2) Cons by blast
  qed (use "11.prems" in auto)
next
  case 12
  then show ?case by (cases lws) auto
next
  case (13 k v kvs)
  show ?case
  proof (cases lws)
    case (Cons lw lws')
    obtain l w where lw: "lw = (l, w)" by (cases lw)
    have ok: "json_ok v" "fields_ok kvs" "json_ok w" "fields_ok lws'"
      using "13.prems"(1,2) Cons lw by simp_all
    have "esc_string k @ CHR '':'' # enc v @ enc_fields kvs @ r =
        esc_string l @ CHR '':'' # enc w @ enc_fields lws' @ s"
      using "13.prems"(3) Cons lw by simp
    with field_unique_step [OF "13.IH"(1) [OF ok(1)] "13.IH"(2) [OF ok(2)] ok(3,4)]
    have "k = l \<and> v = w \<and> kvs = lws' \<and> r = s" by blast
    then show ?thesis by (simp add: Cons lw)
  qed (use "13.prems" in auto)
qed

section \<open>Sorting the keys\<close>

lemma sort_fields_keys:
  "set (map fst (sort_key fst (map (\<lambda>(k, v). (k, f v)) kvs))) = set (map fst kvs)"
  by (force simp: image_iff)

lemma distinct_fst_map: "map fst (map (\<lambda>(k, v). (k, f v)) kvs) = map fst kvs"
  by (simp add: o_def split_def)

lemma mset_fst_fields:
  "mset (map fst (sort_key fst (map (\<lambda>(k, v). (k, f v)) kvs))) = mset (map fst kvs)"
  by (metis distinct_fst_map mset_map mset_sort)

lemma json_ok_sort: "json_ok a \<Longrightarrow> json_ok (sort_json a)"
proof (induction a rule: sort_json.induct)
  case (2 kvs)
  have "distinct (map fst (sort_key fst (map (\<lambda>(k, v). (k, sort_json v)) kvs)))"
    using "2.prems" mset_fst_fields [of sort_json kvs] mset_eq_imp_distinct_iff by fastforce
  with 2 show ?case by fastforce
qed auto

lemma sort_key_fields_eq:
  assumes "distinct (map fst xs)" "distinct (map fst ys)"
  shows "sort_key fst xs = sort_key fst ys \<longleftrightarrow> set xs = set ys"
proof
  assume "set xs = set ys"
  then have "mset xs = mset ys"
    using assms by (simp add: set_eq_iff_mset_eq_distinct distinct_map)
  then show "sort_key fst xs = sort_key fst ys"
    using assms by (intro sort_key_inj_key_eq) (auto simp: distinct_map)
qed (metis set_sort)

lemma fields_sets_eq:
  assumes "distinct (map fst kvs)" "distinct (map fst lws)"
  shows "(\<lambda>(k, v). (k, f v)) ` set kvs = (\<lambda>(k, v). (k, f v)) ` set lws \<longleftrightarrow>
    dict_keys kvs = dict_keys lws \<and>
    (\<forall>(k, v) \<in> set kvs. case dict_get lws k of None \<Rightarrow> False | Some w \<Rightarrow> f v = f w)"
    (is "?L = ?R \<longleftrightarrow> ?K \<and> ?V")
proof
  assume eq: "?L = ?R"
  then have "fst ` ?L = fst ` ?R" by simp
  then have "?K" by (auto simp: dict_keys_def image_image split_def)
  moreover have "?V"
  proof (safe)
    fix k v assume "(k, v) \<in> set kvs"
    with eq have "(k, f v) \<in> ?R" by (metis (mono_tags, lifting) case_prod_conv image_eqI)
    then obtain w where "(k, w) \<in> set lws" "f v = f w" by auto
    with assms(2) show "case dict_get lws k of None \<Rightarrow> False | Some w \<Rightarrow> f v = f w" by simp
  qed
  ultimately show "?K \<and> ?V" ..
next
  assume r: "?K \<and> ?V"
  have sub: "(k, f v) \<in> ?R" if "(k, v) \<in> set kvs" for k v
  proof -
    from r that have "case dict_get lws k of None \<Rightarrow> False | Some w \<Rightarrow> f v = f w" by blast
    then obtain w where "dict_get lws k = Some w" "f v = f w" by (auto split: option.splits)
    then show ?thesis by (metis (mono_tags, lifting) case_prod_conv image_eqI map_of_SomeD)
  qed
  have sup: "(k, f w) \<in> ?L" if kw: "(k, w) \<in> set lws" for k w
  proof -
    from kw r have "k \<in> dict_keys kvs" by (force simp: dict_keys_def)
    then obtain v where kv: "(k, v) \<in> set kvs" by (auto simp: dict_keys_def)
    with r have "case dict_get lws k of None \<Rightarrow> False | Some w \<Rightarrow> f v = f w" by blast
    with kw assms(2) have "f v = f w" by simp
    with kv show ?thesis by (metis (mono_tags, lifting) case_prod_conv image_eqI)
  qed
  show "?L = ?R"
  proof (intro equalityI subsetI)
    fix p assume "p \<in> ?L"
    then obtain k v where "p = (k, f v)" "(k, v) \<in> set kvs" by auto
    with sub show "p \<in> ?R" by simp
  next
    fix p assume "p \<in> ?R"
    then obtain k w where "p = (k, f w)" "(k, w) \<in> set lws" by auto
    with sup show "p \<in> ?L" by simp
  qed
qed

lemma sort_json_atom:
  "sort_json a = JNull \<longleftrightarrow> a = JNull" "JNull = sort_json a \<longleftrightarrow> a = JNull"
  "sort_json a = JBool b \<longleftrightarrow> a = JBool b" "JBool b = sort_json a \<longleftrightarrow> a = JBool b"
  "sort_json a = JInt i \<longleftrightarrow> a = JInt i" "JInt i = sort_json a \<longleftrightarrow> a = JInt i"
  "sort_json a = JFloat t \<longleftrightarrow> a = JFloat t" "JFloat t = sort_json a \<longleftrightarrow> a = JFloat t"
  "sort_json a = JStr t \<longleftrightarrow> a = JStr t" "JStr t = sort_json a \<longleftrightarrow> a = JStr t"
  by (cases a; auto)+

lemma sort_json_eq: "json_ok a \<Longrightarrow> json_ok b \<Longrightarrow> sort_json a = sort_json b \<longleftrightarrow> json_eq a b"
proof (induction a b rule: json_eq.induct)
  case (1 xs ys)
  then show ?case
    by (auto simp: list_all2_conv_all_nth list_eq_iff_nth_eq)
next
  case (2 kvs lws)
  have d: "distinct (map fst kvs)" "distinct (map fst lws)" using "2.prems" by simp_all
  have "sort_json (JObj kvs) = sort_json (JObj lws) \<longleftrightarrow>
      (\<lambda>(k, v). (k, sort_json v)) ` set kvs = (\<lambda>(k, v). (k, sort_json v)) ` set lws"
    using d by (simp add: sort_key_fields_eq o_def split_def)
  also have "\<dots> \<longleftrightarrow> dict_keys kvs = dict_keys lws \<and> (\<forall>(k, v) \<in> set kvs.
      case dict_get lws k of None \<Rightarrow> False | Some w \<Rightarrow> sort_json v = sort_json w)"
    by (rule fields_sets_eq [OF d])
  also have "\<dots> \<longleftrightarrow> json_eq (JObj kvs) (JObj lws)"
  proof -
    have "(case dict_get lws k of None \<Rightarrow> False | Some w \<Rightarrow> sort_json v = sort_json w) \<longleftrightarrow>
        (case dict_get lws k of None \<Rightarrow> False | Some w \<Rightarrow> json_eq v w)"
      if "(k, v) \<in> set kvs" for k v
    proof (cases "dict_get lws k")
      case (Some w)
      then have "(k, w) \<in> set lws" by (rule map_of_SomeD)
      with that "2.prems" have "json_ok v" "json_ok w" by auto
      with "2.IH" [OF that refl Some] Some show ?thesis by simp
    qed simp
    then show ?thesis by auto
  qed
  finally show ?case .
qed (auto simp: sort_json_atom)

section \<open>What the canonical bytes and the record hash determine\<close>

lemma canonical_bytes_eq:
  assumes "json_ok a" "json_ok b"
  shows "canonical_json_bytes a = canonical_json_bytes b \<longleftrightarrow> json_eq a b"
proof -
  have "enc (sort_json a) = enc (sort_json b) \<longleftrightarrow> sort_json a = sort_json b"
    using enc_unique [OF json_ok_sort [OF assms(1)] json_ok_sort [OF assms(2)], of "[]" "[]"]
    by (auto simp: delimited_def)
  then show ?thesis
    by (simp add: canonical_json_bytes_def canonical_json_text_def utf8_inj sort_json_eq assms)
qed

lemma hash_record_eq:
  assumes "json_ok a" "json_ok b" "canonical_json_bytes a \<in> M" "canonical_json_bytes b \<in> M"
    "collision_free M"
  shows "hash_record a = hash_record b \<longleftrightarrow> json_eq a b"
  using assms collision_freeD [OF assms(5) _ assms(3,4)]
  by (auto simp: hash_record_def sha256_bytes_eq canonical_bytes_eq [symmetric])

lemma hash_record_is_hex [simp]: "is_sha256_hex (hash_record v)"
  by (simp add: hash_record_def sha256_bytes_is_hex)

lemma json_eq_refl [simp]: "json_ok a \<Longrightarrow> json_eq a a"
  using sort_json_eq by blast

end
