(* ===== verification/Datetime.thy ===== *)
theory Datetime
  imports Prelude
begin

text \<open>
  Python's \<open>datetime\<close> and \<open>timedelta\<close> as far as the stores use them: a datetime is
  its wall-clock time in microseconds since 0001-01-01T00:00 with its UTC offset (\<open>None\<close> for a
  naive value), arithmetic moves the wall clock, aware values are compared as instants, and
  \<open>isoformat\<close> prints the proleptic Gregorian date. The stores keep timestamps as
  \<open>isoformat\<close> text and let SQLite compare that text, so the theory relates the order of the
  texts to the order of the instants.
\<close>

section \<open>Values and arithmetic\<close>

record datetime =
  wall :: int
  utcoffset :: "int option"

definition us_per_second :: int where
  "us_per_second = 1000000"

definition us_per_day :: int where
  "us_per_day = 86400 * us_per_second"

text \<open>The last microsecond of year 9999, \<open>datetime.max\<close>.\<close>

definition max_wall :: int where
  "max_wall = 3652059 * us_per_day"

definition datetime_ok :: "datetime \<Rightarrow> bool" where
  "datetime_ok t = (0 \<le> wall t \<and> wall t < max_wall)"

definition instant :: "datetime \<Rightarrow> int" where
  "instant t = wall t - (case utcoffset t of None \<Rightarrow> 0 | Some s \<Rightarrow> s * us_per_second)"

definition is_utc :: "datetime \<Rightarrow> bool" where
  "is_utc t = (utcoffset t = Some 0)"

text \<open>\<open>t + timedelta(microseconds=us)\<close>.\<close>

definition add_us :: "datetime \<Rightarrow> int \<Rightarrow> datetime" where
  "add_us t us = t\<lparr>wall := wall t + us\<rparr>"

lemma instant_add [simp]: "instant (add_us t us) = instant t + us"
  by (simp add: instant_def add_us_def)

lemma utcoffset_add [simp]: "utcoffset (add_us t us) = utcoffset t"
  by (simp add: add_us_def)

lemma instant_utc: "is_utc t \<Longrightarrow> instant t = wall t"
  by (simp add: is_utc_def instant_def)

section \<open>The calendar\<close>

definition days_before_year :: "int \<Rightarrow> int" where
  "days_before_year y =
     (let k = y - 1 in k * 365 + k div 4 - k div 100 + k div 400)"

definition is_leap :: "int \<Rightarrow> bool" where
  "is_leap y = (y mod 4 = 0 \<and> (y mod 100 \<noteq> 0 \<or> y mod 400 = 0))"

definition month_lengths :: "int \<Rightarrow> int list" where
  "month_lengths y = [31, if is_leap y then 29 else 28, 31, 30, 31, 30, 31, 31, 30, 31, 30, 31]"

text \<open>The year of the day with ordinal \<open>n\<close> (1 is 0001-01-01).\<close>

definition year_of :: "int \<Rightarrow> int" where
  "year_of n =
     (let y = 400 * (n - 1) div 146097 + 1 in if n \<le> days_before_year (y + 1) then y else y + 1)"

fun month_scan :: "int \<Rightarrow> int \<Rightarrow> int list \<Rightarrow> int \<times> int" where
  "month_scan m d [] = (m, d)"
| "month_scan m d [l] = (m, d)"
| "month_scan m d (l # ls) = (if d \<le> l then (m, d) else month_scan (m + 1) (d - l) ls)"

definition civil :: "int \<Rightarrow> int \<times> int \<times> int" where
  "civil n =
     (let y = year_of n; (m, d) = month_scan 1 (n - days_before_year y) (month_lengths y)
      in (y, m, d))"

section \<open>Text\<close>

text \<open>\<open>f"{n:0kd}"\<close> for \<open>n\<close> of at most \<open>k\<close> digits.\<close>

fun pad :: "nat \<Rightarrow> int \<Rightarrow> string" where
  "pad 0 n = []"
| "pad (Suc k) n = pad k (n div 10) @ [digit_char (nat (n mod 10))]"

definition offset_text :: "int option \<Rightarrow> string" where
  "offset_text off =
     (case off of
        None \<Rightarrow> []
      | Some s \<Rightarrow>
          (let a = \<bar>s\<bar>
           in (if s < 0 then CHR ''-'' else CHR ''+'') # pad 2 (a div 3600) @ '':''
              @ pad 2 (a div 60 mod 60) @ (if a mod 60 = 0 then [] else '':'' @ pad 2 (a mod 60))))"

definition date_text :: "int \<times> int \<times> int \<Rightarrow> string" where
  "date_text = (\<lambda>(y, m, d). pad 4 y @ ''-'' @ pad 2 m @ ''-'' @ pad 2 d)"

definition isoformat :: "datetime \<Rightarrow> string" where
  "isoformat t =
     (let days = wall t div us_per_day; r = wall t mod us_per_day;
          us = r mod us_per_second; s = r div us_per_second
      in date_text (civil (days + 1)) @ ''T''
         @ pad 2 (s div 3600) @ '':'' @ pad 2 (s div 60 mod 60) @ '':'' @ pad 2 (s mod 60)
         @ (if us = 0 then [] else ''.'' @ pad 6 us) @ offset_text (utcoffset t))"

section \<open>Ordering of padded numbers\<close>

lemma length_pad [simp]: "length (pad k n) = k"
  by (induction k arbitrary: n) auto

lemma digit_char_less: "m < 10 \<Longrightarrow> n < 10 \<Longrightarrow> digit_char m < digit_char n \<longleftrightarrow> m < n"
  by (simp add: less_char_def of_digit_char)

lemma append_less_same_length:
  "length u = length v \<Longrightarrow> u @ r < v @ s \<longleftrightarrow> u < v \<or> u = v \<and> r < (s :: 'a :: linorder list)"
proof (induction u v rule: list_induct2)
  case (Cons x xs y ys)
  then show ?case by auto
qed simp

lemma lex_digits:
  "0 \<le> r \<Longrightarrow> r < 10 \<Longrightarrow> 0 \<le> s \<Longrightarrow> s < 10 \<Longrightarrow>
   a < b \<or> a = b \<and> r < s \<longleftrightarrow> 10 * a + r < 10 * b + (s :: int)"
  by linarith

lemma pad_less:
  "0 \<le> m \<Longrightarrow> 0 \<le> n \<Longrightarrow> m < 10 ^ k \<Longrightarrow> n < 10 ^ k \<Longrightarrow> pad k m < pad k n \<longleftrightarrow> m < n"
proof (induction k arbitrary: m n)
  case (Suc k)
  have b: "m div 10 < 10 ^ k" "n div 10 < 10 ^ k" using Suc.prems by auto
  have IH: "pad k (m div 10) < pad k (n div 10) \<longleftrightarrow> m div 10 < n div 10"
    "pad k (n div 10) < pad k (m div 10) \<longleftrightarrow> n div 10 < m div 10"
    using Suc.IH b Suc.prems by (auto simp: pos_imp_zdiv_nonneg_iff)
  have eq: "pad k (m div 10) = pad k (n div 10) \<longleftrightarrow> m div 10 = n div 10"
    using IH by (metis linorder_neq_iff)
  have dig: "digit_char (nat (m mod 10)) < digit_char (nat (n mod 10)) \<longleftrightarrow> m mod 10 < n mod 10"
  proof -
    have "nat (m mod 10) < 10" "nat (n mod 10) < 10" by auto
    then show ?thesis using pos_mod_sign [of 10 m] pos_mod_sign [of 10 n]
      by (simp add: digit_char_less) linarith
  qed
  have "pad (Suc k) m < pad (Suc k) n \<longleftrightarrow>
      m div 10 < n div 10 \<or> m div 10 = n div 10 \<and> m mod 10 < n mod 10"
    by (simp add: append_less_same_length IH(1) eq dig)
  also have "\<dots> \<longleftrightarrow> m < n"
    using lex_digits [of "m mod 10" "n mod 10" "m div 10" "n div 10"] by simp
  finally show ?case .
qed simp

lemma pad_eq:
  "0 \<le> m \<Longrightarrow> 0 \<le> n \<Longrightarrow> m < 10 ^ k \<Longrightarrow> n < 10 ^ k \<Longrightarrow> pad k m = pad k n \<longleftrightarrow> m = n"
  using pad_less [of m n k] pad_less [of n m k] by (metis linorder_neq_iff)

lemma pad_append_less:
  "0 \<le> m \<Longrightarrow> 0 \<le> n \<Longrightarrow> m < 10 ^ k \<Longrightarrow> n < 10 ^ k \<Longrightarrow>
   pad k m @ r < pad k n @ s \<longleftrightarrow> m < n \<or> m = n \<and> r < s"
  by (simp add: append_less_same_length pad_less pad_eq)

section \<open>The calendar is monotone\<close>

lemma div_between: "0 < (n :: int) \<Longrightarrow> n * (k div n) \<le> k \<and> k < n * (k div n) + n"
  by (metis add.commute mult_div_mod_eq pos_mod_bound pos_mod_sign add_less_cancel_left le_add_same_cancel1)

lemma leap_days_bounds:
  assumes "4 * a \<le> k" "k < 4 * a + 4" "100 * b \<le> k" "k < 100 * b + 100"
    "400 * c \<le> k" "k < 400 * c + (400 :: int)"
  shows "400 * (k * 365 + a - b + c) \<le> 146097 * k + 396"
    and "146097 * k - 699 \<le> 400 * (k * 365 + a - b + c)"
  using assms by (simp_all add: algebra_simps)

lemma days_before_year_bounds:
  "400 * days_before_year y \<le> 146097 * (y - 1) + 396"
  "146097 * (y - 1) - 699 \<le> 400 * days_before_year y"
  unfolding days_before_year_def Let_def
  using div_between [of 4 "y - 1"] div_between [of 100 "y - 1"] div_between [of 400 "y - 1"]
    leap_days_bounds [of "(y - 1) div 4" "y - 1" "(y - 1) div 100" "(y - 1) div 400"]
  by simp_all

lemma days_before_year_mono: "x \<le> y \<Longrightarrow> days_before_year x \<le> days_before_year y"
proof (cases "x = y")
  case False
  assume "x \<le> y"
  with False have "x + 1 \<le> y" by simp
  then show ?thesis
    using days_before_year_bounds(1) [of x] days_before_year_bounds(2) [of y]
    by (simp add: algebra_simps)
qed simp

lemma year_of_bounds:
  "days_before_year (year_of n) < n" "n \<le> days_before_year (year_of n + 1)"
proof -
  define y where "y = 400 * (n - 1) div 146097 + 1"
  have "146097 * (y - 1) \<le> 400 * (n - 1) \<and> 400 * (n - 1) < 146097 * (y - 1) + 146097"
    using div_between [of 146097 "400 * (n - 1)"] unfolding y_def by simp
  then have y: "146097 * (y - 1) \<le> 400 * (n - 1)" "400 * (n - 1) < 146097 * y"
    by (simp_all add: algebra_simps)
  have lo: "days_before_year y < n"
    using days_before_year_bounds(1) [of y] y(1) by (simp add: algebra_simps)
  have hi: "n \<le> days_before_year (y + 2)"
    using days_before_year_bounds(2) [of "y + 2"] y(2) by (simp add: algebra_simps)
  have yo: "year_of n = (if n \<le> days_before_year (y + 1) then y else y + 1)"
    by (simp add: year_of_def y_def Let_def)
  show "days_before_year (year_of n) < n" "n \<le> days_before_year (year_of n + 1)"
    using lo hi yo by (auto simp: add.assoc)
qed

lemma year_of_mono: "m \<le> n \<Longrightarrow> year_of m \<le> year_of n"
proof (rule ccontr)
  assume "m \<le> n" "\<not> year_of m \<le> year_of n"
  then have "days_before_year (year_of n + 1) \<le> days_before_year (year_of m)"
    by (intro days_before_year_mono) simp
  with year_of_bounds(2) [of n] year_of_bounds(1) [of m] \<open>m \<le> n\<close> show False by linarith
qed

text \<open>Within a year: the month scan is monotone and its results stay in range.\<close>

definition lex3 :: "int \<times> int \<times> int \<Rightarrow> int \<times> int \<times> int \<Rightarrow> bool" where
  "lex3 = (\<lambda>(a, b, c) (x, y, z). a < x \<or> a = x \<and> (b < y \<or> b = y \<and> c < z))"

lemma month_scan_ge: "ls \<noteq> [] \<Longrightarrow> month_scan m d ls = (m', d') \<Longrightarrow> m \<le> m'"
  by (induction m d ls rule: month_scan.induct) (auto split: if_splits)

lemma month_scan_le: "ls \<noteq> [] \<Longrightarrow> month_scan m d ls = (m', d') \<Longrightarrow> m' < m + int (length ls)"
  by (induction m d ls rule: month_scan.induct) (fastforce split: if_splits)+

lemma month_scan_day:
  "ls \<noteq> [] \<Longrightarrow> 1 \<le> d \<Longrightarrow> d \<le> sum_list ls \<Longrightarrow> \<forall>l \<in> set ls. l \<le> 31 \<Longrightarrow>
   month_scan m d ls = (m', d') \<Longrightarrow> 1 \<le> d' \<and> d' \<le> 31"
  by (induction m d ls rule: month_scan.induct) (auto split: if_splits)

lemma month_scan_mono:
  "ls \<noteq> [] \<Longrightarrow> d < e \<Longrightarrow> month_scan m d ls = (a, b) \<Longrightarrow> month_scan m e ls = (x, y) \<Longrightarrow>
   a < x \<or> a = x \<and> b < y"
proof (induction m d ls arbitrary: e rule: month_scan.induct)
  case (3 m d l k ks)
  show ?case
  proof (cases "d \<le> l")
    case True
    with "3.prems" month_scan_ge [of "k # ks" "m + 1" "e - l" x y] show ?thesis
      by (auto split: if_splits)
  next
    case False
    with "3.prems" have "d - l < e - l" "month_scan (m + 1) (d - l) (k # ks) = (a, b)"
      "month_scan (m + 1) (e - l) (k # ks) = (x, y)" by auto
    with "3.IH" [OF False, of "e - l"] show ?thesis by simp
  qed
qed auto

lemma div_pred: "0 < n \<Longrightarrow> y div n - (y - 1) div n = (if y mod n = 0 then 1 else (0 :: int))"
proof -
  assume n: "0 < n"
  define q r where "q = y div n" and "r = y mod n"
  have y: "y = q * n + r" "0 \<le> r" "r < n" using n by (simp_all add: q_def r_def)
  have "(y - 1) div n = (if r = 0 then q - 1 else q)"
  proof (cases "r = 0")
    case True
    then have "y - 1 = (n - 1) + (q - 1) * n" using y by (simp add: algebra_simps)
    then have "(y - 1) div n = (q - 1) + (n - 1) div n" using n by (metis div_mult_self1 less_irrefl)
    then show ?thesis using n True by simp
  next
    case False
    then have r: "y - 1 = (r - 1) + q * n" "0 \<le> r - 1" "r - 1 < n" using y by simp_all
    then have "(y - 1) div n = q + (r - 1) div n" using n by (metis div_mult_self1 less_irrefl)
    moreover have "(r - 1) div n = 0" using r(2,3) by (rule div_pos_pos_trivial)
    ultimately show ?thesis using False by (simp only: if_False add_0_right)
  qed
  then show ?thesis using q_def r_def by simp
qed

lemma num_400_100: "(100 :: int) dvd 400"
  by simp

lemma num_100_4: "(4 :: int) dvd 100"
  by simp

lemma year_length: "days_before_year (y + 1) - days_before_year y = sum_list (month_lengths y)"
proof -
  have "days_before_year (y + 1) - days_before_year y =
      365 + (y div 4 - (y - 1) div 4) - (y div 100 - (y - 1) div 100) + (y div 400 - (y - 1) div 400)"
    unfolding days_before_year_def Let_def by (simp only: add_diff_cancel_right' left_diff_distrib)
  also have "\<dots> = 365 + (if y mod 4 = 0 then 1 else 0) - (if y mod 100 = 0 then 1 else 0)
      + (if y mod 400 = 0 then 1 else 0)"
  proof -
    have d: "y div 4 - (y - 1) div 4 = (if y mod 4 = 0 then 1 else 0)"
      "y div 100 - (y - 1) div 100 = (if y mod 100 = 0 then 1 else 0)"
      "y div 400 - (y - 1) div 400 = (if y mod 400 = 0 then 1 else 0)"
      by (rule div_pred, simp)+
    show ?thesis by (simp only: d)
  qed
  also have "\<dots> = 365 + (if is_leap y then 1 else 0)"
  proof -
    have "y mod 400 = 0 \<Longrightarrow> y mod 100 = 0"
      by (metis dvd_imp_mod_0 dvd_trans mod_0_imp_dvd num_400_100)
    moreover have "y mod 100 = 0 \<Longrightarrow> y mod 4 = 0"
      by (metis dvd_imp_mod_0 dvd_trans mod_0_imp_dvd num_100_4)
    ultimately show ?thesis unfolding is_leap_def by (cases "y mod 400 = 0"; cases "y mod 100 = 0") simp_all
  qed
  finally show ?thesis unfolding month_lengths_def by simp
qed

lemma month_lengths_props:
  "month_lengths y \<noteq> []" "\<forall>l \<in> set (month_lengths y). l \<le> 31" "length (month_lengths y) = 12"
  by (simp_all add: month_lengths_def)

lemma civil_mono: "m < n \<Longrightarrow> lex3 (civil m) (civil n)"
proof -
  assume mn: "m < n"
  obtain a b where ab: "month_scan 1 (m - days_before_year (year_of m)) (month_lengths (year_of m)) = (a, b)"
    by fastforce
  obtain x y where xy: "month_scan 1 (n - days_before_year (year_of n)) (month_lengths (year_of n)) = (x, y)"
    by fastforce
  have "lex3 (year_of m, a, b) (year_of n, x, y)"
  proof (cases "year_of m = year_of n")
    case True
    with month_scan_mono [OF month_lengths_props(1) _ ab, of "n - days_before_year (year_of n)"]
      xy mn show ?thesis by (auto simp: lex3_def)
  next
    case False
    with year_of_mono [of m n] mn show ?thesis by (simp add: lex3_def)
  qed
  then show ?thesis by (simp add: civil_def Let_def ab xy)
qed

lemma civil_range:
  assumes "1 \<le> n" "n \<le> 3652059" "civil n = (y, m, d)"
  shows "1 \<le> y \<and> y \<le> 9999 \<and> 1 \<le> m \<and> m \<le> 12 \<and> 1 \<le> d \<and> d \<le> 31"
proof -
  have md: "y = year_of n" "month_scan 1 (n - days_before_year y) (month_lengths y) = (m, d)"
    using assms(3) by (auto simp: civil_def Let_def split: prod.splits)
  have d0: "days_before_year 1 = 0" "days_before_year 10000 = 3652059"
    by (simp_all add: days_before_year_def)
  have y1: "1 \<le> y"
  proof (rule ccontr)
    assume "\<not> 1 \<le> y"
    then have "days_before_year (y + 1) \<le> days_before_year 1" by (intro days_before_year_mono) simp
    with year_of_bounds(2) [of n] md(1) d0 assms(1) show False by simp
  qed
  have y2: "y \<le> 9999"
  proof (rule ccontr)
    assume "\<not> y \<le> 9999"
    then have "days_before_year 10000 \<le> days_before_year y" by (intro days_before_year_mono) simp
    with year_of_bounds(1) [of n] md(1) d0 assms(2) show False by simp
  qed
  have "n - days_before_year y \<le> sum_list (month_lengths y)"
    using year_of_bounds(2) [of n] year_length [of y] md(1) by simp
  with month_scan_day [OF month_lengths_props(1) _ _ month_lengths_props(2) md(2)]
    year_of_bounds(1) [of n] md(1)
  have "1 \<le> d \<and> d \<le> 31" by simp
  moreover have "1 \<le> m \<and> m \<le> 12"
    using month_scan_ge [OF month_lengths_props(1) md(2)]
      month_scan_le [OF month_lengths_props(1) md(2)] month_lengths_props(3) by simp
  ultimately show ?thesis using y1 y2 by simp
qed

section \<open>The order of UTC timestamps and of their texts\<close>

lemma date_text_mono:
  assumes "1 \<le> m" "m < n" "n \<le> 3652059"
  shows "date_text (civil m) < date_text (civil n)"
proof -
  obtain a b c x y z where c: "civil m = (a, b, c)" "civil n = (x, y, z)"
    by (metis prod_cases3)
  have "lex3 (a, b, c) (x, y, z)" using civil_mono [OF assms(2)] c by simp
  moreover have "1 \<le> a \<and> a \<le> 9999 \<and> 1 \<le> b \<and> b \<le> 12 \<and> 1 \<le> c \<and> c \<le> 31"
    by (rule civil_range [OF _ _ c(1)]) (use assms in linarith)+
  moreover have "1 \<le> x \<and> x \<le> 9999 \<and> 1 \<le> y \<and> y \<le> 12 \<and> 1 \<le> z \<and> z \<le> 31"
    by (rule civil_range [OF _ _ c(2)]) (use assms in linarith)+
  ultimately show ?thesis
    unfolding c date_text_def lex3_def prod.case
    by (elim disjE conjE) (simp_all add: pad_append_less pad_less)
qed

definition time_text :: "int \<Rightarrow> string" where
  "time_text r =
     (let us = r mod us_per_second; s = r div us_per_second
      in pad 2 (s div 3600) @ '':'' @ pad 2 (s div 60 mod 60) @ '':'' @ pad 2 (s mod 60)
         @ (if us = 0 then [] else ''.'' @ pad 6 us) @ ''+00:00'')"

lemma offset_text_utc: "offset_text (Some 0) = ''+00:00''"
  by code_simp

lemma isoformat_utc:
  "is_utc t \<Longrightarrow> isoformat t =
     date_text (civil (wall t div us_per_day + 1)) @ ''T'' @ time_text (wall t mod us_per_day)"
  by (simp add: isoformat_def time_text_def is_utc_def offset_text_utc Let_def)

lemma div_mod_less:
  assumes "0 < (n :: int)" "s < t"
  shows "s div n < t div n \<or> s div n = t div n \<and> s mod n < t mod n"
proof (cases "s div n = t div n")
  case True
  then have "n * (s div n) = n * (t div n)" by simp
  with assms(2) mult_div_mod_eq [of n s] mult_div_mod_eq [of n t] True show ?thesis by linarith
next
  case False
  with assms zdiv_mono1 [of s t n] show ?thesis by simp
qed

definition clock_text :: "int \<Rightarrow> int \<Rightarrow> int \<Rightarrow> string" where
  "clock_text h m s = pad 2 h @ '':'' @ pad 2 m @ '':'' @ pad 2 s"

lemma length_clock_text [simp]: "length (clock_text h m s) = 8"
  by (simp add: clock_text_def)

lemma clock_text_mono:
  assumes "0 \<le> h" "h < 100" "0 \<le> h'" "h' < 100" "0 \<le> m" "m < 100" "0 \<le> m'" "m' < 100"
    "0 \<le> s" "s < 100" "0 \<le> s'" "s' < 100" "lex3 (h, m, s) (h', m', s')"
  shows "clock_text h m s < clock_text h' m' s'"
  using assms unfolding clock_text_def lex3_def prod.case
  by (elim disjE conjE) (simp_all add: pad_append_less pad_less)

lemma seconds_text_mono:
  fixes s t :: int
  assumes "0 \<le> s" "s < t" "t < 86400"
  shows "clock_text (s div 3600) (s div 60 mod 60) (s mod 60)
    < clock_text (t div 3600) (t div 60 mod 60) (t mod 60)"
proof (rule clock_text_mono)
  have h: "s div 3600 = s div 60 div 60" "t div 3600 = t div 60 div 60"
    by (simp_all add: zdiv_zmult2_eq [symmetric])
  show "lex3 (s div 3600, s div 60 mod 60, s mod 60) (t div 3600, t div 60 mod 60, t mod 60)"
    using div_mod_less [of 60 s t] div_mod_less [of 60 "s div 60" "t div 60"] assms(2)
    unfolding lex3_def prod.case h by auto
  have "s div 3600 \<le> 86400 div 3600" "t div 3600 \<le> 86400 div 3600"
    using assms by (intro zdiv_mono1; linarith)+
  then show "s div 3600 < 100" "t div 3600 < 100" by simp_all
  show "s div 60 mod 60 < 100" "t div 60 mod 60 < 100" "s mod 60 < 100" "t mod 60 < 100"
    by (rule order.strict_trans [OF pos_mod_bound], simp, simp)+
qed (use assms in \<open>simp_all add: pos_imp_zdiv_nonneg_iff\<close>)

lemma time_text_clock:
  "time_text r =
     (let us = r mod us_per_second; s = r div us_per_second
      in clock_text (s div 3600) (s div 60 mod 60) (s mod 60)
         @ (if us = 0 then [] else ''.'' @ pad 6 us) @ ''+00:00'')"
  by (simp add: time_text_def clock_text_def Let_def)

lemma fraction_text_mono:
  assumes "0 \<le> u" "u < v" "v < us_per_second"
  shows "(if u = 0 then [] else ''.'' @ pad 6 u) @ ''+00:00''
    < (if v = 0 then [] else ''.'' @ pad 6 v) @ ''+00:00''"
proof (cases "u = 0")
  case True
  with assms show ?thesis by (simp add: less_char_def)
next
  case False
  with assms show ?thesis by (simp add: pad_append_less us_per_second_def)
qed

lemma time_text_mono:
  assumes "0 \<le> r" "r < q" "q < us_per_day"
  shows "time_text r < time_text q"
proof -
  have pos: "0 < us_per_second" by (simp add: us_per_second_def)
  have bound: "q div us_per_second < 86400"
    using assms(3) pos by (simp add: us_per_day_def us_per_second_def)
  from div_mod_less [OF pos assms(2)] show ?thesis
  proof (elim disjE conjE)
    assume lt: "r div us_per_second < q div us_per_second"
    have "0 \<le> r div us_per_second" using assms(1) pos by (simp add: pos_imp_zdiv_nonneg_iff)
    from seconds_text_mono [OF this lt bound] show ?thesis
      unfolding time_text_clock Let_def by (subst append_less_same_length) simp_all
  next
    assume eq: "r div us_per_second = q div us_per_second"
      and lt: "r mod us_per_second < q mod us_per_second"
    have "0 \<le> r mod us_per_second" "q mod us_per_second < us_per_second" using pos by simp_all
    from fraction_text_mono [OF this(1) lt this(2)] show ?thesis
      unfolding time_text_clock Let_def eq by (subst append_less_same_length) simp_all
  qed
qed

lemma length_date_text [simp]: "length (date_text c) = 10"
  by (simp add: date_text_def split: prod.splits)

lemma isoformat_mono:
  assumes "datetime_ok s" "datetime_ok t" "is_utc s" "is_utc t" "wall s < wall t"
  shows "isoformat s < isoformat t"
proof -
  have pos: "0 < us_per_day" by (simp add: us_per_day_def us_per_second_def)
  have "wall t div us_per_day \<le> (max_wall - 1) div us_per_day"
    using assms(2) pos by (intro zdiv_mono1) (simp_all add: datetime_ok_def)
  then have day: "0 \<le> wall s div us_per_day" "wall t div us_per_day < 3652059"
    using assms(1) pos
    by (simp_all add: datetime_ok_def max_wall_def pos_imp_zdiv_nonneg_iff us_per_day_def
        us_per_second_def)
  from div_mod_less [OF pos assms(5)] show ?thesis
  proof (elim disjE conjE)
    assume "wall s div us_per_day < wall t div us_per_day"
    then have "date_text (civil (wall s div us_per_day + 1)) < date_text (civil (wall t div us_per_day + 1))"
      using day by (intro date_text_mono) simp_all
    then show ?thesis
      unfolding isoformat_utc [OF assms(3)] isoformat_utc [OF assms(4)]
      by (subst append_less_same_length) simp_all
  next
    assume eq: "wall s div us_per_day = wall t div us_per_day"
      and lt: "wall s mod us_per_day < wall t mod us_per_day"
    have "time_text (wall s mod us_per_day) < time_text (wall t mod us_per_day)"
      using lt pos by (intro time_text_mono) simp_all
    then show ?thesis
      unfolding isoformat_utc [OF assms(3)] isoformat_utc [OF assms(4)] eq
      by (simp add: append_less_same_length)
  qed
qed

lemma isoformat_less:
  assumes "datetime_ok s" "datetime_ok t" "is_utc s" "is_utc t"
  shows "isoformat s < isoformat t \<longleftrightarrow> instant s < instant t"
    and "isoformat s \<le> isoformat t \<longleftrightarrow> instant s \<le> instant t"
    and "isoformat s = isoformat t \<longleftrightarrow> s = t"
proof -
  have i: "instant s = wall s" "instant t = wall t" using assms by (simp_all add: instant_utc)
  have eq: "wall s = wall t \<Longrightarrow> s = t"
    using assms(3,4) by (simp add: is_utc_def)
  have fwd: "wall s < wall t \<Longrightarrow> isoformat s < isoformat t"
    using isoformat_mono assms by blast
  have bwd: "wall t < wall s \<Longrightarrow> isoformat t < isoformat s"
    using isoformat_mono assms by blast
  show "isoformat s < isoformat t \<longleftrightarrow> instant s < instant t"
    using i eq fwd bwd by (metis less_asym linorder_neqE order_less_irrefl)
  show "isoformat s \<le> isoformat t \<longleftrightarrow> instant s \<le> instant t"
    using i eq fwd bwd by (metis less_asym linorder_not_less order.order_iff_strict)
  show "isoformat s = isoformat t \<longleftrightarrow> s = t"
    using i eq fwd bwd by (metis linorder_neqE order_less_irrefl)
qed

section \<open>The text determines the value\<close>

text \<open>Python requires \<open>-timedelta(days=1) < utcoffset < timedelta(days=1)\<close>.\<close>

definition offset_ok :: "datetime \<Rightarrow> bool" where
  "offset_ok t = (case utcoffset t of None \<Rightarrow> True | Some s \<Rightarrow> \<bar>s\<bar> < 86400)"

definition fraction_text :: "int \<Rightarrow> string" where
  "fraction_text us = (if us = 0 then [] else ''.'' @ pad 6 us)"

lemma seconds_text_inj:
  fixes s t :: int
  assumes "0 \<le> s" "s < 86400" "0 \<le> t" "t < 86400"
    "clock_text (s div 3600) (s div 60 mod 60) (s mod 60) = clock_text (t div 3600) (t div 60 mod 60) (t mod 60)"
  shows "s = t"
  using seconds_text_mono [of s t] seconds_text_mono [of t s] assms
  by (metis linorder_neqE order_less_irrefl)

lemma isoformat_parts:
  "isoformat t = date_text (civil (wall t div us_per_day + 1)) @ ''T'' @
     (let s = wall t mod us_per_day div us_per_second in clock_text (s div 3600) (s div 60 mod 60) (s mod 60))
     @ fraction_text (wall t mod us_per_day mod us_per_second) @ offset_text (utcoffset t)"
  by (simp add: isoformat_def clock_text_def fraction_text_def Let_def)

lemma offset_head: "offset_text off = c # cs \<Longrightarrow> c = CHR ''+'' \<or> c = CHR ''-''"
  by (auto simp: offset_text_def Let_def split: option.splits if_splits)

lemma fraction_offset_inj:
  assumes "0 \<le> u" "u < us_per_second" "0 \<le> v" "v < us_per_second"
    "fraction_text u @ offset_text a = fraction_text v @ offset_text b"
  shows "u = v \<and> offset_text a = offset_text b"
proof -
  have dot: "offset_text off \<noteq> CHR ''.'' # cs" for off cs using offset_head [of off "CHR ''.''" cs] by auto
  show ?thesis
  proof (cases "u = 0 \<or> v = 0")
    case True
    then show ?thesis using assms(5) dot dot [symmetric] by (auto simp: fraction_text_def split: if_splits)
  next
    case False
    then have "pad 6 u @ offset_text a = pad 6 v @ offset_text b" using assms(5) by (simp add: fraction_text_def)
    then have "pad 6 u = pad 6 v" "offset_text a = offset_text b" by simp_all
    then show ?thesis using pad_eq [of u v 6] assms(1-4) by (simp add: us_per_second_def)
  qed
qed

definition offset_tail :: "int \<Rightarrow> string" where
  "offset_tail a = pad 2 (a div 3600) @ '':'' @ pad 2 (a div 60 mod 60)
     @ (if a mod 60 = 0 then [] else '':'' @ pad 2 (a mod 60))"

lemma offset_tail_inj:
  assumes "0 \<le> a" "a < 86400" "0 \<le> b" "b < 86400" "offset_tail a = offset_tail b"
  shows "a = b"
proof -
  have len: "length (offset_tail x) = (if x mod 60 = 0 then 5 else 8)" for x by (simp add: offset_tail_def)
  then have z: "a mod 60 = 0 \<longleftrightarrow> b mod 60 = 0" using assms(5) by (metis numeral_eq_iff semiring_norm(89) semiring_norm(90))
  have "clock_text (x div 3600) (x div 60 mod 60) (x mod 60)
      = (if x mod 60 = 0 then offset_tail x @ '':00'' else offset_tail x)" for x
    by (simp add: offset_tail_def clock_text_def digit_char_def numeral_2_eq_2)
  then have "clock_text (a div 3600) (a div 60 mod 60) (a mod 60) = clock_text (b div 3600) (b div 60 mod 60) (b mod 60)"
    using z assms(5) by simp
  then show ?thesis using seconds_text_inj assms(1-4) by blast
qed

lemma offset_text_inj:
  assumes "offset_ok s" "offset_ok t" "offset_text (utcoffset s) = offset_text (utcoffset t)"
  shows "utcoffset s = utcoffset t"
proof -
  have some: "offset_text (Some x) = (if x < 0 then CHR ''-'' else CHR ''+'') # offset_tail \<bar>x\<bar>" for x
    by (simp add: offset_text_def offset_tail_def Let_def)
  show ?thesis
  proof (cases "utcoffset s"; cases "utcoffset t")
    fix x y assume xy: "utcoffset s = Some x" "utcoffset t = Some y"
    then have "(x < 0) = (y < 0)" "offset_tail \<bar>x\<bar> = offset_tail \<bar>y\<bar>"
      using assms(3) by (auto simp: some split: if_splits)
    moreover have "\<bar>x\<bar> < 86400" "\<bar>y\<bar> < 86400" using assms(1,2) xy by (simp_all add: offset_ok_def)
    ultimately have "\<bar>x\<bar> = \<bar>y\<bar>" "(x < 0) = (y < 0)" using offset_tail_inj by auto
    then show ?thesis using xy by auto
  qed (use assms(3) in \<open>auto simp: offset_text_def Let_def\<close>)
qed

lemma isoformat_inj:
  fixes s t :: datetime
  assumes "datetime_ok s" "datetime_ok t" "offset_ok s" "offset_ok t" "isoformat s = isoformat t"
  shows "s = t"
proof -
  have pos: "0 < us_per_day" "0 < us_per_second" by (simp_all add: us_per_day_def us_per_second_def)
  define d where "d = (\<lambda>t :: datetime. wall t div us_per_day)"
  define r where "r = (\<lambda>t :: datetime. wall t mod us_per_day div us_per_second)"
  define u where "u = (\<lambda>t :: datetime. wall t mod us_per_day mod us_per_second)"
  have parts: "date_text (civil (d s + 1)) = date_text (civil (d t + 1))"
    "clock_text (r s div 3600) (r s div 60 mod 60) (r s mod 60) = clock_text (r t div 3600) (r t div 60 mod 60) (r t mod 60)"
    "fraction_text (u s) @ offset_text (utcoffset s) = fraction_text (u t) @ offset_text (utcoffset t)"
    using assms(5) unfolding isoformat_parts Let_def d_def r_def u_def by simp_all
  have day: "0 \<le> d x \<and> d x < 3652059" if "datetime_ok x" for x
  proof -
    have "wall x div us_per_day \<le> (max_wall - 1) div us_per_day"
      using that pos by (intro zdiv_mono1) (simp_all add: datetime_ok_def)
    then show ?thesis using that pos
      by (simp add: datetime_ok_def max_wall_def pos_imp_zdiv_nonneg_iff us_per_day_def us_per_second_def d_def)
  qed
  have "d s = d t"
    using parts(1) date_text_mono [of "d s + 1" "d t + 1"] date_text_mono [of "d t + 1" "d s + 1"]
      day [OF assms(1)] day [OF assms(2)] by (cases "d s" "d t" rule: linorder_cases) auto
  moreover have rr: "0 \<le> r x \<and> r x < 86400" for x
  proof -
    have "wall x mod us_per_day < us_per_day" "0 \<le> wall x mod us_per_day" using pos by simp_all
    then show ?thesis using pos
      by (simp add: r_def us_per_day_def us_per_second_def pos_imp_zdiv_nonneg_iff)
  qed
  then have "r s = r t" using seconds_text_inj [of "r s" "r t"] parts(2) by blast
  moreover have "0 \<le> u x \<and> u x < us_per_second" for x using pos by (simp add: u_def)
  then have "u s = u t" and o: "offset_text (utcoffset s) = offset_text (utcoffset t)"
    using fraction_offset_inj [of "u s" "u t"] parts(3) by blast+
  ultimately have "wall s = wall t"
    unfolding d_def r_def u_def by (metis div_mult_mod_eq)
  with offset_text_inj [OF assms(3,4) o] show ?thesis by simp
qed

end
