(* ===== verification/Evidence_Models.thy ===== *)
theory Evidence_Models
  imports Canonical_Json Datetime
begin

text \<open>
  src/ballotproof/models.py: the data of the evidence workflow. A pydantic model is a record, its
  \<open>Field\<close> constraints are a predicate \<open>..._fields_ok\<close>, its \<open>model_validator\<close>
  keeps its name, and \<open>make_...\<close> is the constructor call: it raises where a constraint or the
  validator fails. URLs are kept as their text.
\<close>

section \<open>Field constraints\<close>

text \<open>\<open>len\<close> of a str counts code points: the bytes that do not continue a UTF-8 sequence.\<close>

definition py_len :: "string \<Rightarrow> nat" where
  "py_len s = length (filter (\<lambda>c. (of_char c :: nat) div 64 \<noteq> 2) s)"

definition len_between :: "nat \<Rightarrow> nat \<Rightarrow> string \<Rightarrow> bool" where
  "len_between lo hi s = (lo \<le> py_len s \<and> py_len s \<le> hi)"

definition opt_all :: "('a \<Rightarrow> bool) \<Rightarrow> 'a option \<Rightarrow> bool" where
  "opt_all P x = (case x of None \<Rightarrow> True | Some v \<Rightarrow> P v)"

lemma opt_all_simps [simp]: "opt_all P None" "opt_all P (Some v) = P v"
  by (simp_all add: opt_all_def)

abbreviation non_negative :: "int \<Rightarrow> bool" where
  "non_negative n \<equiv> 0 \<le> n"

definition field_error :: "py_error" where
  "field_error = ValueError ''field constraint''"

section \<open>Statuses\<close>

datatype severity = INFO | WARNING | ERROR

datatype evidence_status = VERIFIED | INCOMPLETE | FAILED

text \<open>\<open>status is EvidenceSufficiencyStatus.VERIFIED\<close>\<close>

definition is_verified :: "evidence_status \<Rightarrow> bool" where
  "is_verified s = (s = VERIFIED)"

lemma is_verified_simps [simp, status_simps]:
  "is_verified VERIFIED" "\<not> is_verified INCOMPLETE" "\<not> is_verified FAILED"
  by (simp_all add: is_verified_def)

section \<open>Result sheets\<close>

record candidate_vote =
  candidate_id :: string
  candidate_name :: "string option"
  votes :: int

datatype document_type = EC8A | OTHER

definition document_type_text :: "document_type \<Rightarrow> string" where
  "document_type_text d = (case d of EC8A \<Rightarrow> ''EC8A'' | OTHER \<Rightarrow> ''OTHER'')"

record result_sheet =
  polling_unit_code :: string
  document_type :: document_type
  registered_voters :: "int option"
  accredited_voters :: "int option"
  valid_votes :: "int option"
  rejected_votes :: "int option"
  votes_cast :: "int option"
  expected_candidate_ids :: "string list option"
  candidate_votes :: "candidate_vote list"

definition candidate_vote_ok :: "candidate_vote \<Rightarrow> bool" where
  "candidate_vote_ok v = (len_between 1 128 (candidate_id v)
     \<and> opt_all (\<lambda>n. py_len n \<le> 256) (candidate_name v) \<and> non_negative (votes v))"

definition result_sheet_fields_ok :: "result_sheet \<Rightarrow> bool" where
  "result_sheet_fields_ok s = (len_between 1 128 (polling_unit_code s)
     \<and> opt_all non_negative (registered_voters s) \<and> opt_all non_negative (accredited_voters s)
     \<and> opt_all non_negative (valid_votes s) \<and> opt_all non_negative (rejected_votes s)
     \<and> opt_all non_negative (votes_cast s)
     \<and> opt_all (\<lambda>ids. ids \<noteq> []) (expected_candidate_ids s)
     \<and> list_all candidate_vote_ok (candidate_votes s))"

definition candidate_ids_are_unique :: "result_sheet \<Rightarrow> result_sheet result" where
  "candidate_ids_are_unique s = guarded
     [(\<not> distinct (map candidate_id (candidate_votes s)),
       ValueError ''candidate_id values must be unique within a result sheet''),
      (\<not> opt_all distinct (expected_candidate_ids s),
       ValueError ''expected_candidate_ids must be unique'')] s"

definition make_result_sheet :: "result_sheet \<Rightarrow> result_sheet result" where
  "make_result_sheet s =
     (if result_sheet_fields_ok s then candidate_ids_are_unique s else raise field_error)"

text \<open>A finding's \<open>observed\<close> and \<open>expected\<close> are \<open>int | str | None\<close>.\<close>

datatype finding_value = FInt int | FStr string

record validation_finding =
  code :: string
  severity :: severity
  message :: string
  observed :: "finding_value option"
  expected :: "finding_value option"

record validation_report =
  report_polling_unit_code :: string
  report_status :: evidence_status
  report_passed :: bool
  report_candidate_vote_sum :: int
  report_findings :: "validation_finding list"

section \<open>Reconciliation\<close>

record reconciliation_request =
  rq_source_label :: string
  rq_comparison_label :: string
  rq_expected_candidate_ids :: "string list option"
  source_totals :: "int dict"
  comparison_totals :: "int dict"

definition reconciliation_fields_ok :: "reconciliation_request \<Rightarrow> bool" where
  "reconciliation_fields_ok r = (len_between 1 128 (rq_source_label r)
     \<and> len_between 1 128 (rq_comparison_label r)
     \<and> opt_all (\<lambda>ids. ids \<noteq> []) (rq_expected_candidate_ids r)
     \<and> dict_ok (source_totals r) \<and> dict_ok (comparison_totals r)
     \<and> list_all (\<lambda>(k, v). non_negative v) (source_totals r)
     \<and> list_all (\<lambda>(k, v). non_negative v) (comparison_totals r))"

definition candidate_universe_is_unique :: "reconciliation_request \<Rightarrow> reconciliation_request result" where
  "candidate_universe_is_unique r = guarded
     [(\<not> opt_all distinct (rq_expected_candidate_ids r),
       ValueError ''expected_candidate_ids must be unique'')] r"

definition make_reconciliation_request ::
    "reconciliation_request \<Rightarrow> reconciliation_request result" where
  "make_reconciliation_request r =
     (if reconciliation_fields_ok r then candidate_universe_is_unique r else raise field_error)"

record candidate_difference =
  cd_candidate_id :: string
  source_votes :: int
  comparison_votes :: int
  cd_delta :: int

record reconciliation_report =
  source_label :: string
  comparison_label :: string
  reconciliation_status :: evidence_status
  matched :: bool
  rr_expected_candidate_ids :: "string list option"
  missing_source_candidate_ids :: "string list"
  missing_comparison_candidate_ids :: "string list"
  unexpected_source_candidate_ids :: "string list"
  unexpected_comparison_candidate_ids :: "string list"
  differences :: "candidate_difference list"

section \<open>Evidence versions\<close>

datatype source_type =
    official_publication
  | observer_capture
  | party_agent_capture
  | newsroom_capture
  | other_source

record evidence_source =
  provider :: string
  source_type :: source_type
  source_url :: "string option"

record evidence_version =
  evidence_id :: string
  election_id :: string
  ev_polling_unit_code :: string
  ev_document_type :: string
  ev_source :: evidence_source
  version :: int
  artifact_sha256 :: string
  artifact_size_bytes :: int
  media_type :: "string option"
  filename :: "string option"
  observed_at :: datetime
  stored_at :: datetime
  previous_record_hash :: "string option"
  record_hash :: string

record chain_verification =
  cv_evidence_id :: string
  cv_valid :: bool
  versions_checked :: int
  failure_version :: "int option"

section \<open>Attestations, extractions and reviews\<close>

datatype attestation_statement = reviewed_source | matches_source | disputes_extraction

record attestation_payload =
  ap_evidence_id :: string
  ap_evidence_version :: int
  ap_record_hash :: string
  ap_actor_id :: string
  ap_statement :: attestation_statement
  ap_issued_at :: datetime
  ap_note :: "string option"

record signed_attestation =
  sa_payload :: attestation_payload
  sa_public_key_b64 :: string
  sa_signature_b64 :: string

datatype extraction_status = machine_extracted | needs_review | human_reviewed | rejected

text \<open>\<open>int | str | None\<close> values are finding values; confidence and boxes are floats, kept as
  the text they were given in.\<close>

record extracted_field =
  field_name :: string
  raw_value :: "string option"
  normalized_value :: "finding_value option"
  confidence :: string
  page :: "int option"
  bbox :: "string list option"

record extraction_provenance =
  engine :: string
  model_id :: string
  model_version :: "string option"
  ep_created_at :: datetime
  config_hash :: "string option"

record extraction_record =
  extraction_id :: string
  ex_evidence_id :: string
  ex_evidence_version :: int
  ex_record_hash :: string
  ex_status :: extraction_status
  ex_provenance :: extraction_provenance
  ex_fields :: "extracted_field list"
  supersedes_extraction_id :: "string option"
  ex_stored_at :: datetime

datatype review_decision = ACCEPT | CORRECT | REJECT

record field_review =
  fr_field_name :: string
  decision :: review_decision
  corrected_value :: "finding_value option"
  fr_note :: "string option"

definition correction_requires_value :: "field_review \<Rightarrow> field_review result" where
  "correction_requires_value r = guarded
     [(decision r = CORRECT \<and> corrected_value r = None,
       ValueError ''corrected_value is required when decision is correct''),
      (decision r \<noteq> CORRECT \<and> corrected_value r \<noteq> None,
       ValueError ''corrected_value is only allowed when decision is correct'')] r"

record extraction_review_submission =
  reviewer_id :: string
  rs_fields :: "field_review list"

record extraction_review =
  review_id :: string
  rv_extraction_id :: string
  rv_evidence_id :: string
  rv_evidence_version :: int
  rv_reviewer_id :: string
  rv_fields :: "field_review list"
  rv_stored_at :: datetime

record evidence_bundle_item =
  bi_evidence_id :: string
  latest :: evidence_version
  bi_history :: "evidence_version list"
  chain :: chain_verification
  bi_attestations :: "signed_attestation list"
  bi_extractions :: "extraction_record list"
  bi_reviews :: "extraction_review list"

record polling_unit_evidence_bundle =
  pb_election_id :: string
  pb_polling_unit_code :: string
  evidence :: "evidence_bundle_item list"

section \<open>What a constructed value satisfies\<close>

lemma make_result_sheet_Inr:
  "make_result_sheet s = Inr t \<longleftrightarrow> t = s \<and> result_sheet_fields_ok s
     \<and> distinct (map candidate_id (candidate_votes s)) \<and> opt_all distinct (expected_candidate_ids s)"
  by (auto simp: make_result_sheet_def candidate_ids_are_unique_def)

lemma make_reconciliation_request_Inr:
  "make_reconciliation_request r = Inr t \<longleftrightarrow> t = r \<and> reconciliation_fields_ok r
     \<and> opt_all distinct (rq_expected_candidate_ids r)"
  by (auto simp: make_reconciliation_request_def candidate_universe_is_unique_def)

lemma correction_requires_value_Inr:
  "correction_requires_value r = Inr t \<longleftrightarrow>
     t = r \<and> (decision r = CORRECT \<longleftrightarrow> corrected_value r \<noteq> None)"
  by (auto simp: correction_requires_value_def)

end
