(* ===== verification/Hash_Chain.thy ===== *)
theory Hash_Chain
  imports Canonical_Json
begin

text \<open>
  The interface of the append-only stores (evidence versions, registry snapshots, source policies):
  a history per key is a chain of records, each with the hash of its own body and of its
  predecessor. The locale \<open>hash_chain\<close> states what a store's \<open>verify_chain\<close> loop
  checks, \<open>chained_store\<close> what its append does; the lemmas are what every store gets from
  them, and each store interprets both.
\<close>

locale hash_chain =
  fixes record_ok :: "'r \<Rightarrow> bool"
    and body :: "'r \<Rightarrow> json"
    and previous :: "'r \<Rightarrow> string option"
    and stored :: "'r \<Rightarrow> string"
    and chain_failure :: "string option \<Rightarrow> 'r list \<Rightarrow> 'r option"
  assumes failure_Nil: "chain_failure p [] = None"
    and failure_Cons: "chain_failure p (x # xs) =
      (if previous x \<noteq> p \<or> stored x \<noteq> hash_record (body x) then Some x
       else chain_failure (Some (stored x)) xs)"
    and body_ok: "record_ok x \<Longrightarrow> json_ok (body x)"
    and body_inj: "record_ok x \<Longrightarrow> record_ok y \<Longrightarrow> json_eq (body x) (body y) \<Longrightarrow>
      stored x = stored y \<Longrightarrow> x = y"
begin

text \<open>The hash the next record has to point to.\<close>

definition head_after :: "string option \<Rightarrow> 'r list \<Rightarrow> string option" where
  "head_after p xs = (if xs = [] then p else Some (stored (last xs)))"

definition links_to :: "string option \<Rightarrow> 'r \<Rightarrow> bool" where
  "links_to p x \<longleftrightarrow> previous x = p \<and> stored x = hash_record (body x)"

lemma failure_snoc:
  "chain_failure p (xs @ [x]) = None \<longleftrightarrow> chain_failure p xs = None \<and> links_to (head_after p xs) x"
  by (induction xs arbitrary: p) (auto simp: failure_Nil failure_Cons head_after_def links_to_def)

text \<open>A verified history is determined by the hash of its last record.\<close>

lemma head_determines_history:
  assumes "collision_free (canonical_json_bytes ` body ` (set xs \<union> set ys))"
    and "chain_failure None xs = None" "chain_failure None ys = None"
    and "list_all record_ok xs" "list_all record_ok ys"
    and "head_after None xs = head_after None ys"
  shows "xs = ys"
  using assms
proof (induction xs arbitrary: ys rule: rev_induct)
  case Nil
  then show ?case by (auto simp: head_after_def split: if_splits)
next
  case (snoc x xs)
  obtain y ys' where ys: "ys = ys' @ [y]"
    using snoc.prems(6) by (cases ys rule: rev_cases) (auto simp: head_after_def)
  have lx: "links_to (head_after None xs) x" "chain_failure None xs = None"
    and ly: "links_to (head_after None ys') y" "chain_failure None ys' = None"
    using snoc.prems(2,3) by (auto simp: failure_snoc ys)
  have ok: "record_ok x" "record_ok y" using snoc.prems(4,5) by (auto simp: ys)
  have st: "stored x = stored y" using snoc.prems(6) by (simp add: head_after_def ys)
  then have "hash_record (body x) = hash_record (body y)" using lx(1) ly(1) by (simp add: links_to_def)
  then have "json_eq (body x) (body y)"
    using hash_record_eq [OF body_ok [OF ok(1)] body_ok [OF ok(2)] _ _ snoc.prems(1)] ys by auto
  then have xy: "x = y" using body_inj [OF ok] st by blast
  then have "head_after None xs = head_after None ys'" using lx(1) ly(1) by (simp add: links_to_def)
  moreover have "collision_free (canonical_json_bytes ` body ` (set xs \<union> set ys'))"
    using snoc.prems(1) by (rule collision_free_subset) (auto simp: ys)
  ultimately have "xs = ys'" using snoc.IH lx(2) ly(2) snoc.prems(4,5) ys by auto
  with xy ys show ?case by simp
qed

text \<open>Rewriting a verified history without changing its head hash is always detected.\<close>

lemma tampering_detected:
  assumes "collision_free (canonical_json_bytes ` body ` (set xs \<union> set ys))"
    and "chain_failure None xs = None" "list_all record_ok xs" "list_all record_ok ys"
    and "head_after None xs = head_after None ys" "xs \<noteq> ys"
  shows "chain_failure None ys \<noteq> None"
  using head_determines_history [OF assms(1,2) _ assms(3,4,5)] assms(6) by blast

end

text \<open>The store: one history per key, appended to by some operation.\<close>

locale chained_store = hash_chain record_ok body previous stored chain_failure
  for record_ok :: "'r \<Rightarrow> bool" and body :: "'r \<Rightarrow> json" and previous :: "'r \<Rightarrow> string option"
    and stored :: "'r \<Rightarrow> string" and chain_failure :: "string option \<Rightarrow> 'r list \<Rightarrow> 'r option" +
  fixes history :: "'s \<Rightarrow> string \<Rightarrow> 'r list"
    and record_key :: "'r \<Rightarrow> string"
    and record_version :: "'r \<Rightarrow> int"
    and appends :: "'s \<Rightarrow> 'r \<Rightarrow> 's \<Rightarrow> bool"
  assumes append_history: "appends s r s' \<Longrightarrow>
      history s' k = (if k = record_key r then history s k @ [r] else history s k)"
    and append_previous: "appends s r s' \<Longrightarrow> previous r =
      (if history s (record_key r) = [] then None else Some (stored (last (history s (record_key r)))))"
    and append_stored: "appends s r s' \<Longrightarrow> stored r = hash_record (body r)"
    and append_version: "appends s r s' \<Longrightarrow> record_version r =
      (if history s (record_key r) = [] then 1 else record_version (last (history s (record_key r))) + 1)"
    and append_ok: "appends s r s' \<Longrightarrow> record_ok r"
begin

definition sound :: "'s \<Rightarrow> bool" where
  "sound s \<longleftrightarrow> (\<forall>k. chain_failure None (history s k) = None \<and> list_all record_ok (history s k)
     \<and> map record_version (history s k) = [1..int (length (history s k))])"

lemma sound_history:
  "sound s \<Longrightarrow> chain_failure None (history s k) = None"
  "sound s \<Longrightarrow> list_all record_ok (history s k)"
  "sound s \<Longrightarrow> map record_version (history s k) = [1..int (length (history s k))]"
  by (simp_all add: sound_def)

lemma sound_append:
  assumes "sound s" "appends s r s'"
  shows "sound s'"
  unfolding sound_def
proof
  fix k
  let ?h = "history s (record_key r)"
  show "chain_failure None (history s' k) = None \<and> list_all record_ok (history s' k)
     \<and> map record_version (history s' k) = [1..int (length (history s' k))]"
  proof (cases "k = record_key r")
    case True
    have "links_to (head_after None ?h) r"
      using append_previous [OF assms(2)] append_stored [OF assms(2)]
      by (simp add: links_to_def head_after_def)
    moreover have "record_version r = int (length ?h) + 1"
    proof (cases "?h = []")
      case False
      then have one: "1 \<le> int (length ?h)" by (cases ?h) simp_all
      have "record_version (last ?h) = last (map record_version ?h)"
        using False by (simp add: last_map)
      also have "\<dots> = int (length ?h)"
        unfolding sound_history(3) [OF assms(1)] upto_rec2 [OF one] by simp
      finally show ?thesis using append_version [OF assms(2)] False by simp
    qed (use append_version [OF assms(2)] in simp)
    ultimately show ?thesis
      using sound_history [OF assms(1), of "record_key r"] append_ok [OF assms(2)]
      by (simp add: append_history [OF assms(2)] True failure_snoc upto_rec2)
  next
    case False
    then show ?thesis using sound_history [OF assms(1), of k] by (simp add: append_history [OF assms(2)])
  qed
qed

text \<open>Appending never rewrites: what a key's history was stays its prefix.\<close>

lemma append_prefix: "appends s r s' \<Longrightarrow> \<exists>new. history s' k = history s k @ new"
  by (auto simp: append_history)

end

text \<open>Documents with the same key list are compared value by value.\<close>

lemma json_eq_fields:
  assumes "map fst kvs = map fst lws" "distinct (map fst kvs)"
  shows "json_eq (JObj kvs) (JObj lws) \<longleftrightarrow> list_all2 json_eq (map snd kvs) (map snd lws)"
proof -
  have d: "distinct (map fst lws)" using assms by metis
  have len: "length kvs = length lws" using assms(1) by (metis length_map)
  have get: "dict_get lws (fst (kvs ! i)) = Some (snd (lws ! i))" if "i < length kvs" for i
  proof -
    have "fst (kvs ! i) = fst (lws ! i)" using assms(1) that len by (metis nth_map)
    then show ?thesis using d that len by (metis map_of_is_SomeI nth_mem surjective_pairing)
  qed
  have "json_eq (JObj kvs) (JObj lws) \<longleftrightarrow>
      (\<forall>p \<in> set kvs. case dict_get lws (fst p) of None \<Rightarrow> False | Some w \<Rightarrow> json_eq (snd p) w)"
    using assms(1) by (simp add: dict_keys_def case_prod_unfold)
  also have "\<dots> \<longleftrightarrow> (\<forall>i < length kvs. json_eq (snd (kvs ! i)) (snd (lws ! i)))"
    by (auto simp: all_set_conv_all_nth get)
  also have "\<dots> \<longleftrightarrow> list_all2 json_eq (map snd kvs) (map snd lws)"
    using len by (auto simp: list_all2_conv_all_nth)
  finally show ?thesis .
qed

lemma json_eq_str [simp]: "json_eq (JStr s) j \<longleftrightarrow> j = JStr s"
  by (cases j) auto

lemma json_eq_int [simp]: "json_eq (JInt n) j \<longleftrightarrow> j = JInt n"
  by (cases j) auto

lemma json_eq_opt_str [simp]: "json_eq (json_opt JStr a) (json_opt JStr b) \<longleftrightarrow> a = b"
  by (cases a; cases b) (auto simp: json_opt_def)

lemma json_ok_opt_str [simp]: "json_ok (json_opt JStr a)"
  by (cases a) (simp_all add: json_opt_def)

end
