(* ===== verification/Write_Barrier.thy ===== *)
theory Write_Barrier
  imports Prelude
begin

text \<open>
  src/ballotproof/write_barrier.py: the barrier is one row with a generation counter, held by an
  immediate transaction, so the bodies run one at a time. \<open>None\<close> is a missing row. An exception
  in the body rolls the counter back and is re-raised.
\<close>

type_synonym write_barrier = "int option"

definition new_barrier :: write_barrier where
  "new_barrier = Some 0"

definition hold :: "bool \<Rightarrow> write_barrier \<Rightarrow> (int \<Rightarrow> 'a result) \<Rightarrow> (write_barrier \<times> 'a) result" where
  "hold advance_generation barrier action =
     (case barrier of
        None \<Rightarrow> raise (RuntimeError ''release write barrier row is missing'')
      | Some g \<Rightarrow>
          (let generation = (if advance_generation then g + 1 else g)
           in bind_result (action generation) (\<lambda>x. return (Some generation, x))))"

lemma hold_Inr:
  "hold adv barrier action = Inr (barrier', x) \<longleftrightarrow>
     (\<exists>g. barrier = Some g \<and> action (if adv then g + 1 else g) = Inr x
        \<and> barrier' = Some (if adv then g + 1 else g))"
  by (auto simp: hold_def Let_def split: option.splits)

end
