(* ===== verification/Registry.thy ===== *)
theory Registry
  imports Evidence_Models Hash_Chain Write_Barrier
begin

text \<open>
  src/ballotproof/registry.py: the election registry. A payload is checked for referential
  integrity, snapshots of it are appended to one hash chain per election. \<open>dt\<close>
  is the text pydantic dumps for a datetime in JSON mode; it is a parameter, assumed injective
  where that matters.
\<close>

section \<open>The payload\<close>

record registry_source =
  rs_provider :: string
  rs_source_url :: "string option"
  retrieved_at :: datetime
  source_sha256 :: "string option"

record profile_binding =
  pb_profile_id :: string
  pb_profile_version :: int
  pb_profile_hash :: string

record registry_office =
  office_id :: string
  office_name :: string
  office_level :: string

record registry_candidate =
  rc_candidate_id :: string
  rc_office_id :: string
  rc_name :: string
  party_id :: string
  rc_ballot_label :: "string option"

record registry_contest =
  rg_contest_id :: string
  contest_name :: string
  scope :: string
  contest_type :: string
  choice_kind :: string

record registry_choice =
  rg_choice_id :: string
  ch_contest_id :: string
  rg_choice_name :: string
  affiliation_id :: "string option"
  ch_ballot_label :: "string option"

record registry_unit =
  ru_unit_id :: string
  unit_type :: string
  unit_name :: "string option"
  unit_parent :: "string option"

record topology_edge =
  edge_parent :: string
  edge_child :: string

record registry_payload =
  rp_election_id :: string
  election_name :: string
  country_code :: string
  election_date :: datetime
  rp_source :: registry_source
  offices :: "registry_office list"
  candidates :: "registry_candidate list"
  contests :: "registry_contest list"
  choices :: "registry_choice list"
  units :: "registry_unit list"
  topology :: "topology_edge list"
  jurisdiction_profile :: "profile_binding option"

abbreviation id128 :: "string \<Rightarrow> bool" where
  "id128 \<equiv> len_between 1 128"

abbreviation label256 :: "string option \<Rightarrow> bool" where
  "label256 \<equiv> opt_all (\<lambda>n. py_len n \<le> 256)"

definition registry_source_ok :: "registry_source \<Rightarrow> bool" where
  "registry_source_ok s = (id128 (rs_provider s) \<and> opt_all is_sha256_hex (source_sha256 s))"

definition profile_binding_ok :: "profile_binding \<Rightarrow> bool" where
  "profile_binding_ok b = (id128 (pb_profile_id b) \<and> 1 \<le> pb_profile_version b
     \<and> is_sha256_hex (pb_profile_hash b))"

definition registry_office_ok :: "registry_office \<Rightarrow> bool" where
  "registry_office_ok x = (id128 (office_id x) \<and> len_between 1 256 (office_name x) \<and> id128 (office_level x))"

definition registry_candidate_ok :: "registry_candidate \<Rightarrow> bool" where
  "registry_candidate_ok x = (id128 (rc_candidate_id x) \<and> id128 (rc_office_id x)
     \<and> len_between 1 256 (rc_name x) \<and> id128 (party_id x) \<and> label256 (rc_ballot_label x))"

definition registry_contest_ok :: "registry_contest \<Rightarrow> bool" where
  "registry_contest_ok x = (id128 (rg_contest_id x) \<and> len_between 1 256 (contest_name x)
     \<and> id128 (scope x) \<and> id128 (contest_type x) \<and> id128 (choice_kind x))"

definition registry_choice_ok :: "registry_choice \<Rightarrow> bool" where
  "registry_choice_ok x = (id128 (rg_choice_id x) \<and> id128 (ch_contest_id x)
     \<and> len_between 1 256 (rg_choice_name x) \<and> opt_all id128 (affiliation_id x)
     \<and> label256 (ch_ballot_label x))"

definition registry_unit_ok :: "registry_unit \<Rightarrow> bool" where
  "registry_unit_ok x = (id128 (ru_unit_id x) \<and> id128 (unit_type x) \<and> label256 (unit_name x)
     \<and> opt_all (\<lambda>p. py_len p \<le> 128) (unit_parent x))"

definition topology_edge_ok :: "topology_edge \<Rightarrow> bool" where
  "topology_edge_ok e = (id128 (edge_parent e) \<and> id128 (edge_child e))"

definition registry_fields_ok :: "registry_payload \<Rightarrow> bool" where
  "registry_fields_ok p = (id128 (rp_election_id p) \<and> len_between 1 256 (election_name p)
     \<and> len_between 2 3 (country_code p) \<and> registry_source_ok (rp_source p)
     \<and> list_all registry_office_ok (offices p) \<and> list_all registry_candidate_ok (candidates p)
     \<and> list_all registry_contest_ok (contests p) \<and> list_all registry_choice_ok (choices p)
     \<and> units p \<noteq> [] \<and> list_all registry_unit_ok (units p) \<and> list_all topology_edge_ok (topology p)
     \<and> opt_all profile_binding_ok (jurisdiction_profile p))"

fun check_edges :: "string set \<Rightarrow> topology_edge list \<Rightarrow> py_error option" where
  "check_edges known [] = None"
| "check_edges known (e # es) =
     (if edge_parent e \<notin> known \<or> edge_child e \<notin> known
      then Some (ValueError ''Topology edges must reference known units'')
      else if edge_parent e = edge_child e
      then Some (ValueError ''Topology edge cannot self-reference'')
      else check_edges known es)"

definition validate_references :: "registry_payload \<Rightarrow> registry_payload result" where
  "validate_references p =
     (let legacy_schema = (offices p \<noteq> [] \<or> candidates p \<noteq> []);
          neutral_schema = (contests p \<noteq> [] \<or> choices p \<noteq> []);
          known_offices = set (map office_id (offices p));
          known_contests = set (map rg_contest_id (contests p));
          known_units = set (map ru_unit_id (units p))
      in bind_result (guarded
        [(legacy_schema \<and> neutral_schema,
          ValueError ''Registry cannot mix legacy office/candidate and contest/choice schemas''),
         (\<not> legacy_schema \<and> \<not> neutral_schema,
          ValueError ''Registry must declare at least one office or contest''),
         (candidates p \<noteq> [] \<and> offices p = [], ValueError ''Candidates require legacy offices''),
         (choices p \<noteq> [] \<and> contests p = [], ValueError ''Choices require contests''),
         (\<not> distinct (map office_id (offices p)), ValueError ''office_id values must be unique''),
         (\<not> distinct (map rg_contest_id (contests p)), ValueError ''contest_id values must be unique''),
         (\<not> distinct (map ru_unit_id (units p)), ValueError ''unit_id values must be unique''),
         (\<not> distinct (map rc_candidate_id (candidates p)), ValueError ''candidate_id values must be unique''),
         (\<not> distinct (map rg_choice_id (choices p)), ValueError ''choice_id values must be unique''),
         (sorted_set (rc_office_id ` set (candidates p) - known_offices) \<noteq> [],
          ValueError ''Candidates reference unknown offices: ''),
         (sorted_set (ch_contest_id ` set (choices p) - known_contests) \<noteq> [],
          ValueError ''Choices reference unknown contests: ''),
         (list_ex (\<lambda>u. \<not> opt_all (\<lambda>parent. parent \<in> known_units) (unit_parent u)) (units p),
          ValueError ''Unit references unknown parent'')] p)
        (\<lambda>p. case check_edges known_units (topology p) of Some e \<Rightarrow> raise e | None \<Rightarrow> return p))"

definition make_registry_payload :: "registry_payload \<Rightarrow> registry_payload result" where
  "make_registry_payload p = (if registry_fields_ok p then validate_references p else raise field_error)"

lemma check_edges_None:
  "check_edges known es = None \<longleftrightarrow>
     (\<forall>e \<in> set es. edge_parent e \<in> known \<and> edge_child e \<in> known \<and> edge_parent e \<noteq> edge_child e)"
  by (induction known es rule: check_edges.induct) auto

lemma make_registry_payload_Inr:
  "make_registry_payload p = Inr q \<longleftrightarrow> q = p \<and> registry_fields_ok p
     \<and> (offices p = [] \<and> candidates p = [] \<and> contests p \<noteq> []
        \<or> contests p = [] \<and> choices p = [] \<and> offices p \<noteq> [])
     \<and> distinct (map office_id (offices p)) \<and> distinct (map rg_contest_id (contests p))
     \<and> distinct (map ru_unit_id (units p)) \<and> distinct (map rc_candidate_id (candidates p))
     \<and> distinct (map rg_choice_id (choices p))
     \<and> rc_office_id ` set (candidates p) \<subseteq> office_id ` set (offices p)
     \<and> ch_contest_id ` set (choices p) \<subseteq> rg_contest_id ` set (contests p)
     \<and> (\<forall>u \<in> set (units p). opt_all (\<lambda>parent. parent \<in> ru_unit_id ` set (units p)) (unit_parent u))
     \<and> (\<forall>e \<in> set (topology p). edge_parent e \<in> ru_unit_id ` set (units p)
          \<and> edge_child e \<in> ru_unit_id ` set (units p) \<and> edge_parent e \<noteq> edge_child e)"
  (is "_ \<longleftrightarrow> ?rhs")
proof (cases "check_edges (ru_unit_id ` set (units p)) (topology p)")
  case None
  then show ?thesis unfolding check_edges_None [symmetric] make_registry_payload_def validate_references_def
    by (auto simp: Let_def guarded_eq_Inr list_ex_iff)
next
  case (Some e)
  then have "\<not> ?rhs" unfolding check_edges_None [symmetric] by simp
  moreover have "make_registry_payload p \<noteq> Inr q"
    using Some by (auto simp: make_registry_payload_def validate_references_def Let_def)
  ultimately show ?thesis by blast
qed

section \<open>The hash document\<close>

definition registry_source_json :: "(datetime \<Rightarrow> string) \<Rightarrow> registry_source \<Rightarrow> json" where
  "registry_source_json dt s = JObj [(''provider'', JStr (rs_provider s)),
     (''source_url'', json_opt JStr (rs_source_url s)), (''retrieved_at'', JStr (dt (retrieved_at s))),
     (''source_sha256'', json_opt JStr (source_sha256 s))]"

definition profile_binding_json :: "profile_binding \<Rightarrow> json" where
  "profile_binding_json b = JObj [(''profile_id'', JStr (pb_profile_id b)),
     (''profile_version'', JInt (pb_profile_version b)), (''profile_hash'', JStr (pb_profile_hash b))]"

definition office_json :: "registry_office \<Rightarrow> json" where
  "office_json x = JObj [(''office_id'', JStr (office_id x)), (''name'', JStr (office_name x)),
     (''level'', JStr (office_level x))]"

definition candidate_json :: "registry_candidate \<Rightarrow> json" where
  "candidate_json x = JObj [(''candidate_id'', JStr (rc_candidate_id x)),
     (''office_id'', JStr (rc_office_id x)), (''name'', JStr (rc_name x)),
     (''party_id'', JStr (party_id x)), (''ballot_label'', json_opt JStr (rc_ballot_label x))]"

definition contest_json :: "registry_contest \<Rightarrow> json" where
  "contest_json x = JObj [(''contest_id'', JStr (rg_contest_id x)), (''name'', JStr (contest_name x)),
     (''scope'', JStr (scope x)), (''contest_type'', JStr (contest_type x)),
     (''choice_kind'', JStr (choice_kind x))]"

definition choice_json :: "registry_choice \<Rightarrow> json" where
  "choice_json x = JObj [(''choice_id'', JStr (rg_choice_id x)), (''contest_id'', JStr (ch_contest_id x)),
     (''name'', JStr (rg_choice_name x)), (''affiliation_id'', json_opt JStr (affiliation_id x)),
     (''ballot_label'', json_opt JStr (ch_ballot_label x))]"

definition unit_json :: "registry_unit \<Rightarrow> json" where
  "unit_json x = JObj [(''unit_id'', JStr (ru_unit_id x)), (''unit_type'', JStr (unit_type x)),
     (''name'', json_opt JStr (unit_name x)), (''parent_id'', json_opt JStr (unit_parent x))]"

definition edge_json :: "topology_edge \<Rightarrow> json" where
  "edge_json e = JObj [(''parent_id'', JStr (edge_parent e)), (''child_id'', JStr (edge_child e))]"

text \<open>\<open>model_dump(mode="json")\<close> less the keys that are popped.\<close>

definition payload_fields :: "(datetime \<Rightarrow> string) \<Rightarrow> registry_payload \<Rightarrow> (string \<times> json) list" where
  "payload_fields dt p =
     [(''election_id'', JStr (rp_election_id p)), (''election_name'', JStr (election_name p)),
      (''country_code'', JStr (country_code p)), (''election_date'', JStr (dt (election_date p))),
      (''source'', registry_source_json dt (rp_source p)),
      (''offices'', JArr (map office_json (offices p))),
      (''candidates'', JArr (map candidate_json (candidates p))),
      (''contests'', JArr (map contest_json (contests p))),
      (''choices'', JArr (map choice_json (choices p))),
      (''units'', JArr (map unit_json (units p))), (''topology'', JArr (map edge_json (topology p))),
      (''jurisdiction_profile'', json_opt profile_binding_json (jurisdiction_profile p))]"

definition popped_keys :: "registry_payload \<Rightarrow> string list" where
  "popped_keys p =
     (if jurisdiction_profile p = None then [''jurisdiction_profile''] else [])
     @ (if contests p = [] \<and> choices p = [] then [''contests'', ''choices''] else [])
     @ (if offices p = [] \<and> candidates p = [] then [''offices'', ''candidates''] else [])"

definition registry_payload_hash_document :: "(datetime \<Rightarrow> string) \<Rightarrow> registry_payload \<Rightarrow> json" where
  "registry_payload_hash_document dt p =
     JObj (filter (\<lambda>(k, v). k \<notin> set (popped_keys p)) (payload_fields dt p))"

lemma json_eq_arr:
  "(\<And>x y. json_eq (f x) (f y) \<longleftrightarrow> x = y) \<Longrightarrow> json_eq (JArr (map f xs)) (JArr (map f ys)) \<longleftrightarrow> xs = ys"
  by (simp add: list_all2_map1 list_all2_map2 list.rel_eq)

lemma json_eq_office: "json_eq (office_json a) (office_json b) \<longleftrightarrow> a = b"
  unfolding office_json_def by (subst json_eq_fields) (cases a; cases b; auto)+

lemma json_eq_candidate: "json_eq (candidate_json a) (candidate_json b) \<longleftrightarrow> a = b"
  unfolding candidate_json_def by (subst json_eq_fields) (cases a; cases b; auto)+

lemma json_eq_contest: "json_eq (contest_json a) (contest_json b) \<longleftrightarrow> a = b"
  unfolding contest_json_def by (subst json_eq_fields) (cases a; cases b; auto)+

lemma json_eq_choice: "json_eq (choice_json a) (choice_json b) \<longleftrightarrow> a = b"
  unfolding choice_json_def by (subst json_eq_fields) (cases a; cases b; auto)+

lemma json_eq_unit: "json_eq (unit_json a) (unit_json b) \<longleftrightarrow> a = b"
  unfolding unit_json_def by (subst json_eq_fields) (cases a; cases b; auto)+

lemma json_eq_edge: "json_eq (edge_json a) (edge_json b) \<longleftrightarrow> a = b"
  unfolding edge_json_def by (subst json_eq_fields) (cases a; cases b; auto)+

lemma json_eq_binding: "json_eq (profile_binding_json a) (profile_binding_json b) \<longleftrightarrow> a = b"
  unfolding profile_binding_json_def by (subst json_eq_fields) (cases a; cases b; auto)+

lemmas json_eq_records = json_eq_office json_eq_candidate json_eq_contest json_eq_choice json_eq_unit json_eq_edge json_eq_binding

lemma records_json_ok:
  "json_ok (office_json a)" "json_ok (candidate_json c)" "json_ok (contest_json e)"
  "json_ok (choice_json g)" "json_ok (unit_json i)" "json_ok (edge_json k)"
  "json_ok (profile_binding_json m)" "json_ok (registry_source_json dt s)"
  by (simp_all add: office_json_def candidate_json_def contest_json_def choice_json_def unit_json_def
      edge_json_def profile_binding_json_def registry_source_json_def)

lemma payload_fields_keys [simp]: "distinct (map fst (payload_fields dt p))"
  by (simp add: payload_fields_def)

lemma distinct_filter_keys: "distinct (map fst d) \<Longrightarrow> distinct (map fst (filter P d))"
  by (simp add: distinct_map_filter)

lemma registry_document_ok: "json_ok (registry_payload_hash_document dt p)"
proof -
  have "json_ok v" if "(k, v) \<in> set (payload_fields dt p)" for k v
    using that records_json_ok by (auto simp: payload_fields_def json_opt_def split: option.splits)
  then show ?thesis
    by (auto simp: registry_payload_hash_document_def distinct_filter_keys)
qed

lemma filter_keys_get:
  "dict_get (filter (\<lambda>(k, v). Q k) d) k = (if Q k then dict_get d k else None)"
  by (induction d) auto

text \<open>What the parameter \<open>dt\<close> is relied on for, and the datetimes it is applied to.\<close>

definition time_dump_ok :: "(datetime \<Rightarrow> string) \<Rightarrow> bool" where
  "time_dump_ok dt \<longleftrightarrow> (\<forall>s t. datetime_ok s \<longrightarrow> offset_ok s \<longrightarrow> datetime_ok t \<longrightarrow> offset_ok t \<longrightarrow>
     dt s = dt t \<longrightarrow> s = t)"

definition payload_times_ok :: "registry_payload \<Rightarrow> bool" where
  "payload_times_ok p \<longleftrightarrow> datetime_ok (election_date p) \<and> offset_ok (election_date p)
     \<and> datetime_ok (retrieved_at (rp_source p)) \<and> offset_ok (retrieved_at (rp_source p))"

lemma isoformat_dump_ok: "time_dump_ok isoformat"
  by (auto simp: time_dump_ok_def intro: isoformat_inj)

lemma json_eq_lookup:
  assumes "json_eq (JObj d) (JObj e)" "distinct (map fst d)"
  shows "rel_option json_eq (dict_get d k) (dict_get e k)"
proof (cases "dict_get d k")
  case None
  then have "k \<notin> dict_keys e" using assms(1) by (simp add: dict_get_None)
  with None show ?thesis by (simp add: dict_get_None [symmetric])
next
  case (Some v)
  then have "(k, v) \<in> set d" by (rule map_of_SomeD)
  with assms(1) Some show ?thesis by (auto split: option.splits)
qed

lemma popped_iff:
  "''offices'' \<in> set (popped_keys p) \<longleftrightarrow> offices p = [] \<and> candidates p = []"
  "''candidates'' \<in> set (popped_keys p) \<longleftrightarrow> offices p = [] \<and> candidates p = []"
  "''contests'' \<in> set (popped_keys p) \<longleftrightarrow> contests p = [] \<and> choices p = []"
  "''choices'' \<in> set (popped_keys p) \<longleftrightarrow> contests p = [] \<and> choices p = []"
  "''jurisdiction_profile'' \<in> set (popped_keys p) \<longleftrightarrow> jurisdiction_profile p = None"
  by (simp_all add: popped_keys_def)

lemma not_popped:
  "k \<in> {''election_id'', ''election_name'', ''country_code'', ''election_date'', ''source'', ''units'',
     ''topology''} \<Longrightarrow> k \<notin> set (popped_keys p)"
  by (auto simp: popped_keys_def)

lemma registry_document_lookup:
  assumes "json_eq (registry_payload_hash_document dt p) (registry_payload_hash_document dt q)"
  shows "rel_option json_eq
    (if k \<in> set (popped_keys p) then None else dict_get (payload_fields dt p) k)
    (if k \<in> set (popped_keys q) then None else dict_get (payload_fields dt q) k)"
  using json_eq_lookup [OF assms [unfolded registry_payload_hash_document_def], of k]
  by (simp add: distinct_filter_keys filter_keys_get split: if_splits)

lemma registry_source_inj:
  "json_eq (registry_source_json dt s) (registry_source_json dt t) \<longleftrightarrow>
      rs_provider s = rs_provider t \<and> rs_source_url s = rs_source_url t
      \<and> dt (retrieved_at s) = dt (retrieved_at t) \<and> source_sha256 s = source_sha256 t"
  unfolding registry_source_json_def by (subst json_eq_fields) auto

lemma registry_document_inj:
  assumes "time_dump_ok dt" "payload_times_ok p" "payload_times_ok q"
    and doc: "json_eq (registry_payload_hash_document dt p) (registry_payload_hash_document dt q)"
  shows "p = q"
proof -
  note look = registry_document_lookup [OF doc]
  have "rp_election_id p = rp_election_id q" "election_name p = election_name q"
    "country_code p = country_code q" "dt (election_date p) = dt (election_date q)"
    "json_eq (registry_source_json dt (rp_source p)) (registry_source_json dt (rp_source q))"
    using look [of "''election_id''"] look [of "''election_name''"] look [of "''country_code''"]
      look [of "''election_date''"] look [of "''source''"]
    by (simp_all add: not_popped payload_fields_def)
  moreover have "units p = units q" "topology p = topology q"
    using look [of "''units''"] look [of "''topology''"]
    by (simp_all add: not_popped payload_fields_def json_eq_arr json_eq_records del: json_eq.simps)
  moreover have "offices p = offices q" "candidates p = candidates q"
    using look [of "''offices''"] look [of "''candidates''"]
    by (simp_all add: popped_iff payload_fields_def json_eq_arr json_eq_records del: json_eq.simps
        split: if_splits)
  moreover have "contests p = contests q" "choices p = choices q"
    using look [of "''contests''"] look [of "''choices''"]
    by (simp_all add: popped_iff payload_fields_def json_eq_arr json_eq_records del: json_eq.simps
        split: if_splits)
  moreover have "jurisdiction_profile p = jurisdiction_profile q"
    using look [of "''jurisdiction_profile''"]
    by (cases "jurisdiction_profile p"; cases "jurisdiction_profile q")
      (simp_all add: popped_iff payload_fields_def json_opt_def json_eq_records)
  moreover from calculation have "election_date p = election_date q"
    "retrieved_at (rp_source p) = retrieved_at (rp_source q)"
    using assms(1-3) registry_source_inj unfolding time_dump_ok_def payload_times_ok_def by metis+
  ultimately show ?thesis
    by (intro registry_payload.equality registry_source.equality) (simp_all add: registry_source_inj)
qed

section \<open>The snapshot store\<close>

record registry_snapshot =
  snapshot_id :: string
  sn_election_id :: string
  sn_version :: int
  payload :: registry_payload
  sn_stored_at :: datetime
  previous_snapshot_hash :: "string option"
  snapshot_hash :: string

record registry_verification =
  rv_election_id :: string
  rv_valid :: bool
  snapshots_checked :: int
  rv_failure_version :: "int option"

record registry_store =
  snapshot_rows :: "registry_snapshot list"
  registry_barrier :: write_barrier

definition empty_registry :: registry_store where
  "empty_registry = \<lparr>snapshot_rows = [], registry_barrier = new_barrier\<rparr>"

definition snapshot_body :: "(datetime \<Rightarrow> string) \<Rightarrow> registry_snapshot \<Rightarrow> json" where
  "snapshot_body dt s = JObj
     [(''snapshot_id'', JStr (snapshot_id s)), (''election_id'', JStr (sn_election_id s)),
      (''version'', JInt (sn_version s)),
      (''payload'', registry_payload_hash_document dt (payload s)),
      (''stored_at'', JStr (isoformat (sn_stored_at s))),
      (''previous_snapshot_hash'', json_opt JStr (previous_snapshot_hash s))]"

definition registry_history :: "registry_store \<Rightarrow> string \<Rightarrow> registry_snapshot list" where
  "registry_history st el = sort_key sn_version (filter (\<lambda>s. sn_election_id s = el) (snapshot_rows st))"

definition insert_snapshot :: "registry_snapshot \<Rightarrow> registry_store \<Rightarrow> registry_store result" where
  "insert_snapshot s st = guarded
     [(list_ex (\<lambda>q. sn_election_id q = sn_election_id s \<and> sn_version q = sn_version s) (snapshot_rows st),
       IntegrityError ''registry_snapshots.election_id, registry_snapshots.version''),
      (list_ex (\<lambda>q. snapshot_id q = snapshot_id s) (snapshot_rows st),
       IntegrityError ''registry_snapshots.snapshot_id''),
      (list_ex (\<lambda>q. snapshot_hash q = snapshot_hash s) (snapshot_rows st),
       IntegrityError ''registry_snapshots.snapshot_hash'')]
     (st\<lparr>snapshot_rows := snapshot_rows st @ [s]\<rparr>)"

definition next_snapshot :: "(datetime \<Rightarrow> string) \<Rightarrow> registry_payload \<Rightarrow> datetime \<Rightarrow> string
    \<Rightarrow> registry_store \<Rightarrow> registry_snapshot" where
  "next_snapshot dt p now fresh st =
     (let h = registry_history st (rp_election_id p);
          s = \<lparr>snapshot_id = ''bp_reg_'' @ fresh, sn_election_id = rp_election_id p,
            sn_version = (if h = [] then 1 else sn_version (last h) + 1), payload = p,
            sn_stored_at = now,
            previous_snapshot_hash = (if h = [] then None else Some (snapshot_hash (last h))),
            snapshot_hash = []\<rparr>
      in s\<lparr>snapshot_hash := hash_record (snapshot_body dt s)\<rparr>)"

definition append_snapshot :: "(datetime \<Rightarrow> string) \<Rightarrow> registry_payload \<Rightarrow> datetime \<Rightarrow> string
    \<Rightarrow> registry_store \<Rightarrow> (registry_store \<times> registry_snapshot) result" where
  "append_snapshot dt p now fresh st =
     bind_result (hold True (registry_barrier st) (\<lambda>_.
       let s = next_snapshot dt p now fresh st
       in if 1 \<le> sn_version s \<and> opt_all is_sha256_hex (previous_snapshot_hash s)
          then bind_result (insert_snapshot s st) (\<lambda>st'. return (st', s))
          else raise field_error))
       (\<lambda>(b, st', s). return (st'\<lparr>registry_barrier := b\<rparr>, s))"

definition latest_snapshot :: "registry_store \<Rightarrow> string \<Rightarrow> registry_snapshot result" where
  "latest_snapshot st el =
     (if registry_history st el = [] then raise (KeyError ''Unknown election_id: '')
      else return (last (registry_history st el)))"

fun snapshot_failure :: "(datetime \<Rightarrow> string) \<Rightarrow> string option \<Rightarrow> registry_snapshot list
    \<Rightarrow> registry_snapshot option" where
  "snapshot_failure dt previous_hash [] = None"
| "snapshot_failure dt previous_hash (s # ss) =
     (let chain_broken = (previous_snapshot_hash s \<noteq> previous_hash);
          hash_broken = (snapshot_hash s \<noteq> hash_record (snapshot_body dt s))
      in if chain_broken \<or> hash_broken then Some s
         else snapshot_failure dt (Some (snapshot_hash s)) ss)"

definition verify_registry_chain :: "(datetime \<Rightarrow> string) \<Rightarrow> registry_store \<Rightarrow> string
    \<Rightarrow> registry_verification" where
  "verify_registry_chain dt st el =
     (let h = registry_history st el
      in case snapshot_failure dt None h of
           Some s \<Rightarrow> \<lparr>rv_election_id = el, rv_valid = False, snapshots_checked = sn_version s,
             rv_failure_version = Some (sn_version s)\<rparr>
         | None \<Rightarrow> \<lparr>rv_election_id = el, rv_valid = True, snapshots_checked = int (length h),
             rv_failure_version = None\<rparr>)"

section \<open>The registry is a chained store\<close>

definition snapshot_ok :: "(datetime \<Rightarrow> string) \<Rightarrow> registry_snapshot \<Rightarrow> bool" where
  "snapshot_ok dt s \<longleftrightarrow> time_dump_ok dt \<and> payload_times_ok (payload s)
     \<and> datetime_ok (sn_stored_at s) \<and> offset_ok (sn_stored_at s)"

lemma snapshot_body_inj:
  assumes "snapshot_ok dt a" "snapshot_ok dt b" "json_eq (snapshot_body dt a) (snapshot_body dt b)"
    "snapshot_hash a = snapshot_hash b"
  shows "a = b"
proof -
  have f: "snapshot_id a = snapshot_id b \<and> sn_election_id a = sn_election_id b \<and> sn_version a = sn_version b
    \<and> json_eq (registry_payload_hash_document dt (payload a)) (registry_payload_hash_document dt (payload b))
    \<and> isoformat (sn_stored_at a) = isoformat (sn_stored_at b)
    \<and> previous_snapshot_hash a = previous_snapshot_hash b"
    using assms(3) unfolding snapshot_body_def by (subst (asm) json_eq_fields) simp_all
  then have "sn_stored_at a = sn_stored_at b" "payload a = payload b"
    using assms(1,2) registry_document_inj isoformat_inj by (auto simp: snapshot_ok_def)
  with f assms(4) show ?thesis by simp
qed

interpretation registry_chain: hash_chain "snapshot_ok dt" "snapshot_body dt" previous_snapshot_hash
    snapshot_hash "snapshot_failure dt" for dt
  by unfold_locales
    (simp_all add: Let_def snapshot_body_inj, simp add: snapshot_body_def registry_document_ok)

definition registry_appends :: "(datetime \<Rightarrow> string) \<Rightarrow> registry_store \<Rightarrow> registry_snapshot
    \<Rightarrow> registry_store \<Rightarrow> bool" where
  "registry_appends dt st s st' \<longleftrightarrow> time_dump_ok dt \<and> (\<exists>p now fresh.
     append_snapshot dt p now fresh st = Inr (st', s) \<and> payload_times_ok p \<and> datetime_ok now \<and> is_utc now)"

lemma append_snapshot_Inr:
  assumes "append_snapshot dt p now fresh st = Inr (st', s)"
  shows "s = next_snapshot dt p now fresh st" "snapshot_rows st' = snapshot_rows st @ [s]"
    "snapshot_id s \<notin> snapshot_id ` set (snapshot_rows st)"
  using assms by (auto simp: append_snapshot_def hold_Inr Let_def insert_snapshot_def guarded_eq_Inr
      list_ex_iff split: if_splits)

lemma next_snapshot_simps [simp]:
  "sn_election_id (next_snapshot dt p now fresh st) = rp_election_id p"
  "payload (next_snapshot dt p now fresh st) = p"
  "sn_stored_at (next_snapshot dt p now fresh st) = now"
  "sn_version (next_snapshot dt p now fresh st) = (if registry_history st (rp_election_id p) = [] then 1
     else sn_version (last (registry_history st (rp_election_id p))) + 1)"
  "previous_snapshot_hash (next_snapshot dt p now fresh st) = (if registry_history st (rp_election_id p) = []
     then None else Some (snapshot_hash (last (registry_history st (rp_election_id p)))))"
  "snapshot_hash (next_snapshot dt p now fresh st) = hash_record (snapshot_body dt (next_snapshot dt p now fresh st))"
  by (simp_all add: next_snapshot_def Let_def snapshot_body_def)

interpretation registry_log: chained_store "snapshot_ok dt" "snapshot_body dt" previous_snapshot_hash
    snapshot_hash "snapshot_failure dt" registry_history sn_election_id sn_version "registry_appends dt" for dt
proof unfold_locales
  fix st s st' k
  assume "registry_appends dt st s st'"
  then obtain p now fresh where app: "append_snapshot dt p now fresh st = Inr (st', s)"
    and ok: "time_dump_ok dt" "payload_times_ok p" "datetime_ok now" "is_utc now"
    by (auto simp: registry_appends_def)
  note s = append_snapshot_Inr [OF app]
  have "sn_version q \<le> sn_version s" if q: "q \<in> set (registry_history st (sn_election_id s))" for q
  proof -
    have "registry_history st (sn_election_id s) \<noteq> []" using q by auto
    moreover have "sn_version q \<le> sn_version (last (registry_history st (sn_election_id s)))"
      by (rule sorted_le_last [OF _ q]) (simp add: registry_history_def)
    ultimately show ?thesis by (simp add: s(1))
  qed
  then show "registry_history st' k =
      (if k = sn_election_id s then registry_history st k @ [s] else registry_history st k)"
    by (auto simp: registry_history_def s(2) intro!: sort_key_snoc_max)
  show "snapshot_ok dt s"
    using ok by (simp add: snapshot_ok_def s(1) offset_ok_def is_utc_def)
  show "previous_snapshot_hash s = (if registry_history st (sn_election_id s) = [] then None
      else Some (snapshot_hash (last (registry_history st (sn_election_id s)))))"
    "snapshot_hash s = hash_record (snapshot_body dt s)"
    "sn_version s = (if registry_history st (sn_election_id s) = [] then 1
      else sn_version (last (registry_history st (sn_election_id s))) + 1)"
    by (simp_all add: s(1))
qed

inductive registry_reachable :: "(datetime \<Rightarrow> string) \<Rightarrow> registry_store \<Rightarrow> bool" for dt where
  init: "registry_reachable dt empty_registry"
| append: "registry_reachable dt st \<Longrightarrow> append_snapshot dt p now fresh st = Inr (st', s) \<Longrightarrow>
    payload_times_ok p \<Longrightarrow> datetime_ok now \<Longrightarrow> is_utc now \<Longrightarrow> registry_reachable dt st'"

lemma registry_reachable_sound:
  assumes "time_dump_ok dt" "registry_reachable dt st"
  shows "registry_log.sound dt st"
  using assms(2)
proof induction
  case init
  have "registry_history empty_registry k = []" for k
    by (simp add: registry_history_def empty_registry_def)
  then show ?case by (simp add: registry_log.sound_def)
next
  case (append st p now fresh st' s)
  have "registry_appends dt st s st'" using append(2-5) assms(1) by (auto simp: registry_appends_def)
  then show ?case by (rule registry_log.sound_append [OF append(6)])
qed

text \<open>The registry chain of every election verifies after any sequence of appends, with
  consecutive versions; an append makes its payload the latest snapshot and changes no other
  snapshot of any election.\<close>

theorem registry_chain_sound:
  assumes "time_dump_ok dt" "registry_reachable dt st" "append_snapshot dt p now fresh st = Inr (st', s)"
    "payload_times_ok p" "datetime_ok now" "is_utc now"
  shows "rv_valid (verify_registry_chain dt st' el)
    \<and> map sn_version (registry_history st' el) = [1..int (length (registry_history st' el))]
    \<and> latest_snapshot st' (rp_election_id p) = Inr s \<and> payload s = p
    \<and> registry_history st' el = registry_history st el @ (if el = rp_election_id p then [s] else [])"
proof -
  have app: "registry_appends dt st s st'" using assms by (auto simp: registry_appends_def)
  have sound: "registry_log.sound dt st'"
    using registry_log.sound_append [OF registry_reachable_sound [OF assms(1,2)] app] .
  have hist: "registry_history st' k = registry_history st k @ (if k = rp_election_id p then [s] else [])" for k
    using registry_log.append_history [OF app, of k] append_snapshot_Inr(1) [OF assms(3)] by auto
  then show ?thesis
    using registry_log.sound_history [OF sound, of el] append_snapshot_Inr(1) [OF assms(3)]
    by (simp add: verify_registry_chain_def Let_def latest_snapshot_def)
qed

text \<open>The hash of the latest snapshot commits to the whole registry history, every payload
  included: a chain that verifies and ends in the same snapshot hash is the same chain.\<close>

theorem registry_hash_commits:
  assumes "time_dump_ok dt" "registry_reachable dt st" "rv_valid (verify_registry_chain dt st' el)"
    "latest_snapshot st el = Inr s" "latest_snapshot st' el = Inr s'" "snapshot_hash s' = snapshot_hash s"
    "list_all (snapshot_ok dt) (registry_history st' el)"
    "collision_free (canonical_json_bytes ` snapshot_body dt `
       (set (registry_history st el) \<union> set (registry_history st' el)))"
  shows "registry_history st' el = registry_history st el"
proof -
  note sound = registry_log.sound_history [OF registry_reachable_sound [OF assms(1,2)], of el]
  have "snapshot_failure dt None (registry_history st' el) = None"
    using assms(3) by (simp add: verify_registry_chain_def Let_def split: option.splits)
  moreover have "registry_chain.head_after None (registry_history st el)
      = registry_chain.head_after None (registry_history st' el)"
    using assms(4-6) by (auto simp: latest_snapshot_def registry_chain.head_after_def split: if_splits)
  ultimately show ?thesis
    using registry_chain.head_determines_history [OF assms(8) sound(1) _ sound(2) assms(7)] by simp
qed

section \<open>A concrete registry\<close>

definition demo_payload :: registry_payload where
  "demo_payload = \<lparr>rp_election_id = ''E'', election_name = ''N'', country_code = ''ng'',
     election_date = \<lparr>wall = 9, utcoffset = None\<rparr>,
     rp_source = \<lparr>rs_provider = ''p'', rs_source_url = None, retrieved_at = \<lparr>wall = 8, utcoffset = None\<rparr>,
       source_sha256 = None\<rparr>,
     offices = [], candidates = [],
     contests = [\<lparr>rg_contest_id = ''C'', contest_name = ''C'', scope = ''s'', contest_type = ''t'',
       choice_kind = ''k''\<rparr>],
     choices = [\<lparr>rg_choice_id = ''a'', ch_contest_id = ''C'', rg_choice_name = ''A'', affiliation_id = None,
       ch_ballot_label = None\<rparr>],
     units = [\<lparr>ru_unit_id = ''W'', unit_type = ''ward'', unit_name = None, unit_parent = None\<rparr>,
       \<lparr>ru_unit_id = ''p1'', unit_type = ''pu'', unit_name = None, unit_parent = Some ''W''\<rparr>],
     topology = [\<lparr>edge_parent = ''W'', edge_child = ''p1''\<rparr>], jurisdiction_profile = None\<rparr>"

lemma demo_payload_ok: "make_registry_payload demo_payload = Inr demo_payload"
  by (simp add: make_registry_payload_Inr demo_payload_def registry_fields_ok_def registry_source_ok_def
      registry_contest_ok_def registry_choice_ok_def registry_unit_ok_def topology_edge_ok_def
      len_between_def py_len_def)

lemma demo_payload_times: "payload_times_ok demo_payload"
  by (simp add: payload_times_ok_def demo_payload_def datetime_ok_def offset_ok_def max_wall_def
      us_per_day_def us_per_second_def)

definition demo_time :: datetime where
  "demo_time = \<lparr>wall = 10, utcoffset = Some 0\<rparr>"

lemma demo_time_ok: "datetime_ok demo_time" "is_utc demo_time"
  by (simp_all add: demo_time_def datetime_ok_def is_utc_def max_wall_def us_per_day_def us_per_second_def)

definition demo_snapshot :: registry_snapshot where
  "demo_snapshot = next_snapshot isoformat demo_payload demo_time ''0'' empty_registry"

definition demo_registry :: registry_store where
  "demo_registry = \<lparr>snapshot_rows = [demo_snapshot], registry_barrier = Some 1\<rparr>"

lemma demo_registry_history: "registry_history demo_registry ''E'' = [demo_snapshot]"
  by (simp add: registry_history_def demo_registry_def demo_snapshot_def demo_payload_def)

lemma demo_registry_append:
  "append_snapshot isoformat demo_payload demo_time ''0'' empty_registry = Inr (demo_registry, demo_snapshot)"
proof -
  have "registry_history empty_registry el = []" for el
    by (simp add: registry_history_def empty_registry_def)
  then have "1 \<le> sn_version demo_snapshot" "previous_snapshot_hash demo_snapshot = None"
    by (simp_all add: demo_snapshot_def)
  moreover have "insert_snapshot demo_snapshot empty_registry = Inr (empty_registry\<lparr>snapshot_rows := [demo_snapshot]\<rparr>)"
    by (simp add: insert_snapshot_def empty_registry_def)
  ultimately show ?thesis
    by (simp add: append_snapshot_def hold_def new_barrier_def demo_registry_def Let_def
        flip: demo_snapshot_def) (simp add: empty_registry_def hold_def new_barrier_def)
qed

lemma demo_registry_reachable: "registry_reachable isoformat demo_registry"
  by (rule registry_reachable.append [OF registry_reachable.init demo_registry_append
        demo_payload_times demo_time_ok])

lemma registry_chain_sound_witness:
  "rv_valid (verify_registry_chain isoformat demo_registry ''E'')
   \<and> latest_snapshot demo_registry ''E'' = Inr demo_snapshot"
  using registry_chain_sound [OF isoformat_dump_ok registry_reachable.init demo_registry_append
      demo_payload_times demo_time_ok, of "''E''"]
  by (simp add: demo_payload_def)

lemma registry_hash_commits_witness:
  "registry_history (demo_registry\<lparr>registry_barrier := None\<rparr>) ''E'' = registry_history demo_registry ''E''"
proof -
  have el: "sn_election_id demo_snapshot = ''E''" by (simp add: demo_snapshot_def demo_payload_def)
  then have h: "registry_history demo_registry ''E'' = [demo_snapshot]"
    "registry_history (demo_registry\<lparr>registry_barrier := None\<rparr>) ''E'' = [demo_snapshot]"
    by (simp_all add: registry_history_def demo_registry_def)
  note sound = registry_log.sound_history [OF registry_reachable_sound [OF isoformat_dump_ok
      demo_registry_reachable], of "''E''", unfolded h]
  have v: "rv_valid (verify_registry_chain isoformat (demo_registry\<lparr>registry_barrier := None\<rparr>) ''E'')"
    using sound(1) by (simp add: verify_registry_chain_def Let_def h split: option.split)
  have l: "latest_snapshot demo_registry ''E'' = Inr demo_snapshot"
    "latest_snapshot (demo_registry\<lparr>registry_barrier := None\<rparr>) ''E'' = Inr demo_snapshot"
    by (simp_all add: latest_snapshot_def h)
  show ?thesis
    by (rule registry_hash_commits [OF isoformat_dump_ok demo_registry_reachable v l refl])
      (use sound(2) in \<open>simp_all add: h\<close>)
qed

end
