(* ===== verification/Source_Policy.thy ===== *)
theory Source_Policy
  imports Registry Complex_Main
begin

text \<open>
  src/ballotproof/source_policy.py and the policy part of source_ingestion.py: source policies with
  their validator, and the store that appends versions of them to one hash chain per source.
  The functions on hosts and URLs that come from idna, pydantic and the Unicode tables are fields of
  \<open>host_library\<close>; the texts that pydantic dumps for datetimes and \<open>float.__repr__\<close>
  are the parameters \<open>dt\<close> and \<open>fr\<close>. A float is kept as its exact value.
\<close>

section \<open>Policies\<close>

datatype access_status = APPROVED | REVIEW_REQUIRED | PROHIBITED

definition access_status_text :: "access_status \<Rightarrow> string" where
  "access_status_text s = (case s of APPROVED \<Rightarrow> ''approved'' | REVIEW_REQUIRED \<Rightarrow> ''review_required''
     | PROHIBITED \<Rightarrow> ''prohibited'')"

text \<open>\<open>fold_host\<close> is \<open>value.strip().lower()\<close>, \<open>idna_ascii\<close> is
  \<open>host.encode("idna").decode("ascii")\<close> (\<open>None\<close> for a UnicodeError), \<open>url_host\<close> is
  \<open>HttpUrl.host\<close>. A URL is its text.\<close>

record host_library =
  fold_host :: "string \<Rightarrow> string"
  idna_ascii :: "string \<Rightarrow> string option"
  url_host :: "string \<Rightarrow> string option"

record source_policy =
  sp_source_id :: string
  sp_provider :: string
  base_url :: "string option"
  allowed_hosts :: "string list"
  access_status :: access_status
  terms_reviewed_at :: "datetime option"
  terms_reference :: "string option"
  requests_per_minute :: int
  max_attempts :: int
  backoff_seconds :: rat
  request_timeout_seconds :: rat
  max_response_bytes :: int
  retry_status_codes :: "int list"
  capture_raw_response :: bool
  policy_notes :: "string option"

definition normalize_policy_host :: "host_library \<Rightarrow> string \<Rightarrow> string result" where
  "normalize_policy_host lib v =
     (let host = rstrip_char (CHR ''.'') (fold_host lib v) in
      if host = [] then raise (ValueError ''allowed_hosts cannot contain empty hostnames'')
      else if has_infix ''://'' host \<or> list_ex (\<lambda>c. c \<in> set host) ''/?#@:''
      then raise (ValueError ''allowed_hosts must contain hostnames only, without schemes or ports'')
      else (case idna_ascii lib host of
          None \<Rightarrow> raise (ValueError ''invalid source hostname: '')
        | Some ascii \<Rightarrow> return ascii))"

definition policy_fields_ok :: "source_policy \<Rightarrow> bool" where
  "policy_fields_ok p = (len_between 1 128 (sp_source_id p) \<and> len_between 1 128 (sp_provider p)
     \<and> length (allowed_hosts p) \<le> 32 \<and> opt_all (\<lambda>s. py_len s \<le> 1000) (terms_reference p)
     \<and> requests_per_minute p \<in> {1..600} \<and> max_attempts p \<in> {1..10} \<and> backoff_seconds p \<in> {0..300}
     \<and> request_timeout_seconds p \<in> {1..120} \<and> max_response_bytes p \<in> {1..250 * 1024 * 1024}
     \<and> opt_all (\<lambda>s. py_len s \<le> 4000) (policy_notes p))"

text \<open>\<open>list(dict.fromkeys(...))\<close> of hosts, in order of first occurrence.\<close>

definition normalized_hosts :: "host_library \<Rightarrow> string list \<Rightarrow> string list result" where
  "normalized_hosts lib hosts = bind_result (map_result (normalize_policy_host lib) hosts)
     (\<lambda>hs. return (map fst (dict_of (map (\<lambda>h. (h, ())) hs))))"

definition hosts_with_base :: "host_library \<Rightarrow> source_policy \<Rightarrow> string list \<Rightarrow> string list result" where
  "hosts_with_base lib p hosts = (case base_url p of
       None \<Rightarrow> return hosts
     | Some url \<Rightarrow> (case url_host lib url of
           None \<Rightarrow> raise (ValueError ''base_url must contain a hostname'')
         | Some h \<Rightarrow> bind_result (normalize_policy_host lib h) (\<lambda>base_host.
             if hosts = [] then return [base_host]
             else if base_host \<notin> set hosts
             then raise (ValueError ''allowed_hosts must include the base_url hostname'')
             else return hosts)))"

definition validate_policy :: "host_library \<Rightarrow> source_policy \<Rightarrow> source_policy result" where
  "validate_policy lib p =
     bind_result (guarded
       [(access_status p = APPROVED \<and> terms_reviewed_at p = None,
         ValueError ''approved sources require terms_reviewed_at''),
        (access_status p = APPROVED \<and> base_url p = None, ValueError ''approved sources require base_url'')] ())
     (\<lambda>_. bind_result (normalized_hosts lib (allowed_hosts p)) (\<lambda>normalized.
          bind_result (hosts_with_base lib p normalized) (\<lambda>hosts. guarded
       [(access_status p = APPROVED \<and> hosts = [],
         ValueError ''approved sources require at least one allowed host''),
        (\<not> distinct (retry_status_codes p), ValueError ''retry_status_codes must be unique''),
        (list_ex (\<lambda>code. code < 100 \<or> 599 < code) (retry_status_codes p),
         ValueError ''retry_status_codes must contain valid HTTP status codes'')]
       (p\<lparr>allowed_hosts := hosts\<rparr>))))"

definition make_source_policy :: "host_library \<Rightarrow> source_policy \<Rightarrow> source_policy result" where
  "make_source_policy lib p = (if policy_fields_ok p then validate_policy lib p else raise field_error)"

section \<open>The policy document\<close>

definition policy_json :: "(datetime \<Rightarrow> string) \<Rightarrow> (rat \<Rightarrow> string) \<Rightarrow> source_policy \<Rightarrow> json" where
  "policy_json dt fr p = JObj
     [(''source_id'', JStr (sp_source_id p)), (''provider'', JStr (sp_provider p)),
      (''base_url'', json_opt JStr (base_url p)),
      (''allowed_hosts'', JArr (map JStr (allowed_hosts p))),
      (''access_status'', JStr (access_status_text (access_status p))),
      (''terms_reviewed_at'', json_opt (\<lambda>t. JStr (dt t)) (terms_reviewed_at p)),
      (''terms_reference'', json_opt JStr (terms_reference p)),
      (''requests_per_minute'', JInt (requests_per_minute p)), (''max_attempts'', JInt (max_attempts p)),
      (''backoff_seconds'', JFloat (fr (backoff_seconds p))),
      (''request_timeout_seconds'', JFloat (fr (request_timeout_seconds p))),
      (''max_response_bytes'', JInt (max_response_bytes p)),
      (''retry_status_codes'', JArr (map JInt (retry_status_codes p))),
      (''capture_raw_response'', JBool (capture_raw_response p)),
      (''notes'', json_opt JStr (policy_notes p))]"

section \<open>The store\<close>

record policy_snapshot =
  ps_snapshot_id :: string
  ps_source_id :: string
  ps_version :: int
  ps_policy :: source_policy
  ps_stored_at :: datetime
  ps_previous_hash :: "string option"
  ps_hash :: string

record policy_verification =
  pv_source_id :: string
  pv_valid :: bool
  pv_snapshots_checked :: int
  pv_failure_version :: "int option"

text \<open>The rows of \<open>source_policy_snapshots\<close>, with the policy that \<open>policy_json\<close> prints.\<close>

type_synonym policy_store = "policy_snapshot list"

definition empty_policy_store :: policy_store where
  "empty_policy_store = []"

definition policy_body :: "(datetime \<Rightarrow> string) \<Rightarrow> (rat \<Rightarrow> string) \<Rightarrow> policy_snapshot \<Rightarrow> json" where
  "policy_body dt fr s = JObj
     [(''snapshot_id'', JStr (ps_snapshot_id s)), (''source_id'', JStr (ps_source_id s)),
      (''version'', JInt (ps_version s)), (''policy'', policy_json dt fr (ps_policy s)),
      (''stored_at'', JStr (isoformat (ps_stored_at s))),
      (''previous_snapshot_hash'', json_opt JStr (ps_previous_hash s))]"

definition policy_rows :: "policy_store \<Rightarrow> string \<Rightarrow> policy_snapshot list" where
  "policy_rows st src = sort_key ps_version (filter (\<lambda>s. ps_source_id s = src) st)"

definition insert_policy_row :: "policy_snapshot \<Rightarrow> policy_store \<Rightarrow> policy_store result" where
  "insert_policy_row s st = guarded
     [(list_ex (\<lambda>q. ps_source_id q = ps_source_id s \<and> ps_version q = ps_version s) st,
       IntegrityError ''source_policy_snapshots.source_id, source_policy_snapshots.version''),
      (list_ex (\<lambda>q. ps_snapshot_id q = ps_snapshot_id s) st,
       IntegrityError ''source_policy_snapshots.snapshot_id''),
      (list_ex (\<lambda>q. ps_hash q = ps_hash s) st, IntegrityError ''source_policy_snapshots.snapshot_hash'')]
     (st @ [s])"

definition next_policy_row :: "(datetime \<Rightarrow> string) \<Rightarrow> (rat \<Rightarrow> string) \<Rightarrow> source_policy \<Rightarrow> datetime
    \<Rightarrow> string \<Rightarrow> policy_store \<Rightarrow> policy_snapshot" where
  "next_policy_row dt fr p now fresh st =
     (let h = policy_rows st (sp_source_id p);
          s = \<lparr>ps_snapshot_id = ''bp_pol_'' @ fresh, ps_source_id = sp_source_id p,
            ps_version = (if h = [] then 1 else ps_version (last h) + 1), ps_policy = p,
            ps_stored_at = now, ps_previous_hash = (if h = [] then None else Some (ps_hash (last h))),
            ps_hash = []\<rparr>
      in s\<lparr>ps_hash := hash_record (policy_body dt fr s)\<rparr>)"

text \<open>Building a \<open>SourcePolicySnapshot\<close> validates the dumped policy again.\<close>

definition row_to_snapshot :: "host_library \<Rightarrow> policy_snapshot \<Rightarrow> policy_snapshot result" where
  "row_to_snapshot lib row =
     (if 1 \<le> ps_version row \<and> opt_all is_sha256_hex (ps_previous_hash row) \<and> is_sha256_hex (ps_hash row)
      then bind_result (make_source_policy lib (ps_policy row)) (\<lambda>p. return (row\<lparr>ps_policy := p\<rparr>))
      else raise field_error)"

definition append_policy :: "host_library \<Rightarrow> (datetime \<Rightarrow> string) \<Rightarrow> (rat \<Rightarrow> string) \<Rightarrow> source_policy
    \<Rightarrow> datetime \<Rightarrow> string \<Rightarrow> policy_store \<Rightarrow> (policy_store \<times> policy_snapshot) result" where
  "append_policy lib dt fr p now fresh st =
     (let row = next_policy_row dt fr p now fresh st in
      bind_result (row_to_snapshot lib row) (\<lambda>snapshot.
      bind_result (insert_policy_row row st) (\<lambda>st'. return (st', snapshot))))"

definition policy_history :: "host_library \<Rightarrow> policy_store \<Rightarrow> string \<Rightarrow> policy_snapshot list result" where
  "policy_history lib st src = map_result (row_to_snapshot lib) (policy_rows st src)"

definition latest_policy :: "host_library \<Rightarrow> policy_store \<Rightarrow> string \<Rightarrow> policy_snapshot result" where
  "latest_policy lib st src = bind_result (policy_history lib st src) (\<lambda>h.
     if h = [] then raise (KeyError ''Unknown source_id: '') else return (last h))"

definition get_policy :: "host_library \<Rightarrow> policy_store \<Rightarrow> string \<Rightarrow> int \<Rightarrow> policy_snapshot result" where
  "get_policy lib st src v = (case find (\<lambda>s. ps_source_id s = src \<and> ps_version s = v) st of
       None \<Rightarrow> raise (KeyError ''Unknown source policy snapshot: '')
     | Some row \<Rightarrow> row_to_snapshot lib row)"

fun policy_failure :: "(datetime \<Rightarrow> string) \<Rightarrow> (rat \<Rightarrow> string) \<Rightarrow> string option \<Rightarrow> policy_snapshot list
    \<Rightarrow> policy_snapshot option" where
  "policy_failure dt fr previous_hash [] = None"
| "policy_failure dt fr previous_hash (s # ss) =
     (let expd = hash_record (policy_body dt fr s)
      in if ps_previous_hash s \<noteq> previous_hash \<or> ps_hash s \<noteq> expd then Some s
         else policy_failure dt fr (Some (ps_hash s)) ss)"

definition verify_policy_chain :: "(datetime \<Rightarrow> string) \<Rightarrow> (rat \<Rightarrow> string) \<Rightarrow> policy_store \<Rightarrow> string
    \<Rightarrow> policy_verification" where
  "verify_policy_chain dt fr st src =
     (case policy_failure dt fr None (policy_rows st src) of
        Some s \<Rightarrow> \<lparr>pv_source_id = src, pv_valid = False, pv_snapshots_checked = ps_version s,
          pv_failure_version = Some (ps_version s)\<rparr>
      | None \<Rightarrow> \<lparr>pv_source_id = src, pv_valid = True,
          pv_snapshots_checked = int (length (policy_rows st src)), pv_failure_version = None\<rparr>)"


section \<open>What the validator accepts\<close>

lemma set_normalized_hosts:
  assumes "normalized_hosts lib hosts = Inr hs"
  shows "distinct hs" "set hs = {a. \<exists>h \<in> set hosts. normalize_policy_host lib h = Inr a}"
proof -
  obtain as where as: "map_result (normalize_policy_host lib) hosts = Inr as"
    and hs: "hs = map fst (dict_of (map (\<lambda>h. (h, ())) as))"
    using assms by (auto simp: normalized_hosts_def)
  show "distinct hs" using dict_ok_of unfolding hs dict_ok_def by blast
  have "set hs = set as" using dict_keys_of [of "map (\<lambda>h. (h, ())) as"] by (simp add: hs dict_keys_def o_def)
  also have "set as = {a. \<exists>h \<in> set hosts. normalize_policy_host lib h = Inr a}"
  proof -
    have len: "length hosts = length as"
      and nth: "\<And>i. i < length as \<Longrightarrow> normalize_policy_host lib (hosts ! i) = Inr (as ! i)"
      using as by (auto simp: map_result_Inr list_all2_conv_all_nth)
    show ?thesis
    proof (intro equalityI subsetI)
      fix a assume "a \<in> set as"
      then obtain i where i: "i < length as" "a = as ! i" by (auto simp: in_set_conv_nth)
      then have "hosts ! i \<in> set hosts" by (simp add: len)
      with nth i show "a \<in> {a. \<exists>h \<in> set hosts. normalize_policy_host lib h = Inr a}" by blast
    next
      fix a assume "a \<in> {a. \<exists>h \<in> set hosts. normalize_policy_host lib h = Inr a}"
      then obtain i where i: "i < length hosts" "normalize_policy_host lib (hosts ! i) = Inr a"
        by (auto simp: in_set_conv_nth)
      then have "a = as ! i" using nth [of i] len by simp
      with i len show "a \<in> set as" by simp
    qed
  qed
  finally show "set hs = {a. \<exists>h \<in> set hosts. normalize_policy_host lib h = Inr a}" .
qed

text \<open>The hosts a policy may name: its own and, when it has none, the host of its base URL.\<close>

definition policy_hosts :: "host_library \<Rightarrow> source_policy \<Rightarrow> string set" where
  "policy_hosts lib p = {a. \<exists>h \<in> set (allowed_hosts p). normalize_policy_host lib h = Inr a}"

definition base_hosts :: "host_library \<Rightarrow> source_policy \<Rightarrow> string set" where
  "base_hosts lib p = {a. \<exists>url h. base_url p = Some url \<and> url_host lib url = Some h
     \<and> normalize_policy_host lib h = Inr a}"

lemma make_source_policy_Inr:
  assumes "make_source_policy lib p = Inr q"
  shows "q = p\<lparr>allowed_hosts := allowed_hosts q\<rparr>" "policy_fields_ok p" "distinct (allowed_hosts q)"
    "access_status p = APPROVED \<Longrightarrow> terms_reviewed_at p \<noteq> None \<and> base_url p \<noteq> None"
    "distinct (retry_status_codes p)" "\<forall>c \<in> set (retry_status_codes p). 100 \<le> c \<and> c \<le> 599"
    "base_hosts lib p \<subseteq> set (allowed_hosts q)" "base_url p \<noteq> None \<Longrightarrow> base_hosts lib p \<noteq> {}"
    "set (allowed_hosts q) = (if policy_hosts lib p = {} then base_hosts lib p else policy_hosts lib p)"
proof -
  obtain hs as where hs: "normalized_hosts lib (allowed_hosts p) = Inr hs" "hosts_with_base lib p hs = Inr as"
    and q: "q = p\<lparr>allowed_hosts := as\<rparr>" and f: "policy_fields_ok p"
    "access_status p = APPROVED \<Longrightarrow> terms_reviewed_at p \<noteq> None \<and> base_url p \<noteq> None"
    "distinct (retry_status_codes p)" "\<forall>c \<in> set (retry_status_codes p). 100 \<le> c \<and> c \<le> 599"
    using assms by (auto simp: make_source_policy_def validate_policy_def list_ex_iff not_less split: if_splits)
  note set = set_normalized_hosts [OF hs(1), folded policy_hosts_def]
  show "q = p\<lparr>allowed_hosts := allowed_hosts q\<rparr>" "policy_fields_ok p"
    "access_status p = APPROVED \<Longrightarrow> terms_reviewed_at p \<noteq> None \<and> base_url p \<noteq> None"
    "distinct (retry_status_codes p)" "\<forall>c \<in> set (retry_status_codes p). 100 \<le> c \<and> c \<le> 599"
    using f q by simp_all
  show "distinct (allowed_hosts q)" using set(1) hs(2) q
    by (auto simp: hosts_with_base_def split: option.splits if_splits)
  show "base_hosts lib p \<subseteq> set (allowed_hosts q)" using hs(2) q
    by (auto simp: hosts_with_base_def base_hosts_def split: option.splits if_splits)
  show "base_hosts lib p \<noteq> {}" if "base_url p \<noteq> None" using hs(2) that
    by (auto simp: hosts_with_base_def base_hosts_def split: option.splits if_splits)
  have e: "hs = [] \<longleftrightarrow> policy_hosts lib p = {}" using set(2) by (simp add: policy_hosts_def set_empty [symmetric])
  show "set (allowed_hosts q) = (if policy_hosts lib p = {} then base_hosts lib p else policy_hosts lib p)"
    using hs(2) q e set(2)
    by (auto simp: hosts_with_base_def base_hosts_def policy_hosts_def split: option.splits if_splits)
qed

text \<open>C8. A source policy the validator accepts is the one given with its hosts in normal form, without
  repetition; the host of its base URL is always among them, and an approved policy has reviewed
  terms, a base URL and at least one allowed host; its limits are within the configured bounds.\<close>

theorem source_policy_validated:
  assumes "make_source_policy lib p = Inr q"
  shows "q = p\<lparr>allowed_hosts := allowed_hosts q\<rparr> \<and> distinct (allowed_hosts q)
    \<and> set (allowed_hosts q) = (if policy_hosts lib p = {} then base_hosts lib p else policy_hosts lib p)
    \<and> base_hosts lib q \<subseteq> set (allowed_hosts q)
    \<and> (access_status q \<noteq> APPROVED \<or> terms_reviewed_at q \<noteq> None \<and> base_url q \<noteq> None \<and> allowed_hosts q \<noteq> [])
    \<and> requests_per_minute q \<in> {1..600} \<and> max_attempts q \<in> {1..10}
    \<and> max_response_bytes q \<in> {1..250 * 1024 * 1024}
    \<and> list_all (\<lambda>c. 100 \<le> c \<and> c \<le> 599) (retry_status_codes q)"
proof -
  note facts = make_source_policy_Inr [OF assms]
  have fields: "requests_per_minute q = requests_per_minute p" "max_attempts q = max_attempts p"
    "max_response_bytes q = max_response_bytes p" "retry_status_codes q = retry_status_codes p"
    "access_status q = access_status p" "terms_reviewed_at q = terms_reviewed_at p" "base_url q = base_url p"
    by (subst facts(1), simp)+
  have "base_hosts lib q = base_hosts lib p" by (simp add: base_hosts_def fields)
  moreover have "allowed_hosts q \<noteq> []" if "access_status p = APPROVED"
    using facts(4) [OF that] facts(7,8) by auto
  ultimately show ?thesis
    using facts by (auto simp: fields policy_fields_ok_def list_all_iff)
qed

section \<open>The policy store is a chained store\<close>

text \<open>The doubles, and what is relied on of \<open>dt\<close> and \<open>fr\<close>: the printed text is a number with
  a point or an exponent, and determines the value.\<close>

definition double :: "rat \<Rightarrow> bool" where
  "double x \<longleftrightarrow> (\<exists>m k :: int. x = of_int m * 2 powi k \<and> \<bar>m\<bar> < 2 ^ 53)"

definition float_dump_ok :: "(rat \<Rightarrow> string) \<Rightarrow> bool" where
  "float_dump_ok fr \<longleftrightarrow> (\<forall>x. double x \<longrightarrow> float_text_ok (fr x))
     \<and> (\<forall>x y. double x \<longrightarrow> double y \<longrightarrow> fr x = fr y \<longrightarrow> x = y)"

definition policy_values_ok :: "source_policy \<Rightarrow> bool" where
  "policy_values_ok p \<longleftrightarrow> double (backoff_seconds p) \<and> double (request_timeout_seconds p)
     \<and> opt_all (\<lambda>t. datetime_ok t \<and> offset_ok t) (terms_reviewed_at p)"

lemma access_status_text_inj: "access_status_text a = access_status_text b \<longleftrightarrow> a = b"
  by (cases a; cases b) (simp_all add: access_status_text_def)

lemma json_eq_ints: "json_eq (JArr (map JInt xs)) (JArr (map JInt ys)) \<longleftrightarrow> xs = ys"
  by (rule json_eq_arr) simp

lemma json_eq_hosts: "json_eq (JArr (map JStr xs)) (JArr (map JStr ys)) \<longleftrightarrow> xs = ys"
  by (rule json_eq_arr) simp

lemma json_eq_float: "json_eq (JFloat s) j \<longleftrightarrow> j = JFloat s"
  by (cases j) auto

lemma json_eq_flag: "json_eq (JBool b) j \<longleftrightarrow> j = JBool b"
  by (cases j) auto

lemma json_eq_opt_time: "json_eq (json_opt (\<lambda>t. JStr (dt t)) a) (json_opt (\<lambda>t. JStr (dt t)) b) \<longleftrightarrow>
    map_option dt a = map_option dt b"
  by (cases a; cases b) (auto simp: json_opt_def)

lemma policy_json_eq:
  "json_eq (policy_json dt fr p) (policy_json dt fr q) \<longleftrightarrow>
    sp_source_id p = sp_source_id q \<and> sp_provider p = sp_provider q \<and> base_url p = base_url q
    \<and> allowed_hosts p = allowed_hosts q \<and> access_status p = access_status q
    \<and> map_option dt (terms_reviewed_at p) = map_option dt (terms_reviewed_at q)
    \<and> terms_reference p = terms_reference q \<and> requests_per_minute p = requests_per_minute q
    \<and> max_attempts p = max_attempts q \<and> fr (backoff_seconds p) = fr (backoff_seconds q)
    \<and> fr (request_timeout_seconds p) = fr (request_timeout_seconds q)
    \<and> max_response_bytes p = max_response_bytes q \<and> retry_status_codes p = retry_status_codes q
    \<and> capture_raw_response p = capture_raw_response q \<and> policy_notes p = policy_notes q"
  unfolding policy_json_def
  by (subst json_eq_fields) (auto simp: json_eq_ints json_eq_hosts json_eq_float json_eq_flag
        json_eq_opt_time access_status_text_inj option.map_ident simp del: json_eq.simps)

lemma policy_json_inj:
  assumes "time_dump_ok dt" "float_dump_ok fr" "policy_values_ok p" "policy_values_ok q"
    "json_eq (policy_json dt fr p) (policy_json dt fr q)"
  shows "p = q"
proof -
  note f = assms(5) [unfolded policy_json_eq]
  have "terms_reviewed_at p = terms_reviewed_at q"
    using f assms(1,3,4)
    by (cases "terms_reviewed_at p"; cases "terms_reviewed_at q")
      (auto simp: time_dump_ok_def policy_values_ok_def)
  moreover have "backoff_seconds p = backoff_seconds q" "request_timeout_seconds p = request_timeout_seconds q"
    using f assms(2-4) by (auto simp: float_dump_ok_def policy_values_ok_def)
  ultimately show ?thesis using f by (intro source_policy.equality) simp_all
qed

lemma policy_json_ok: "float_dump_ok fr \<Longrightarrow> policy_values_ok p \<Longrightarrow> json_ok (policy_json dt fr p)"
  by (auto simp: policy_json_def float_dump_ok_def policy_values_ok_def json_opt_def split: option.split)

definition policy_row_ok :: "(datetime \<Rightarrow> string) \<Rightarrow> (rat \<Rightarrow> string) \<Rightarrow> policy_snapshot \<Rightarrow> bool" where
  "policy_row_ok dt fr s \<longleftrightarrow> time_dump_ok dt \<and> float_dump_ok fr \<and> policy_values_ok (ps_policy s)
     \<and> datetime_ok (ps_stored_at s) \<and> offset_ok (ps_stored_at s)"

lemma policy_body_inj:
  assumes "policy_row_ok dt fr a" "policy_row_ok dt fr b" "json_eq (policy_body dt fr a) (policy_body dt fr b)"
    "ps_hash a = ps_hash b"
  shows "a = b"
proof -
  have f: "ps_snapshot_id a = ps_snapshot_id b \<and> ps_source_id a = ps_source_id b \<and> ps_version a = ps_version b
    \<and> json_eq (policy_json dt fr (ps_policy a)) (policy_json dt fr (ps_policy b))
    \<and> isoformat (ps_stored_at a) = isoformat (ps_stored_at b) \<and> ps_previous_hash a = ps_previous_hash b"
    using assms(3) unfolding policy_body_def by (subst (asm) json_eq_fields) simp_all
  then have "ps_stored_at a = ps_stored_at b" "ps_policy a = ps_policy b"
    using assms(1,2) policy_json_inj isoformat_inj by (auto simp: policy_row_ok_def)
  with f assms(4) show ?thesis by simp
qed

interpretation policy_chain: hash_chain "policy_row_ok dt fr" "policy_body dt fr" ps_previous_hash ps_hash
    "policy_failure dt fr" for dt fr
  by unfold_locales
    (simp_all add: Let_def policy_body_inj, simp add: policy_body_def policy_row_ok_def policy_json_ok)


definition policy_appends :: "host_library \<Rightarrow> (datetime \<Rightarrow> string) \<Rightarrow> (rat \<Rightarrow> string) \<Rightarrow> policy_store
    \<Rightarrow> policy_snapshot \<Rightarrow> policy_store \<Rightarrow> bool" where
  "policy_appends lib dt fr st row st' \<longleftrightarrow> time_dump_ok dt \<and> float_dump_ok fr \<and> (\<exists>p now fresh snapshot.
     append_policy lib dt fr p now fresh st = Inr (st', snapshot) \<and> row = next_policy_row dt fr p now fresh st
     \<and> policy_values_ok p \<and> datetime_ok now \<and> is_utc now)"

lemma append_policy_Inr:
  assumes "append_policy lib dt fr p now fresh st = Inr (st', snapshot)"
  shows "st' = st @ [next_policy_row dt fr p now fresh st]"
    "row_to_snapshot lib (next_policy_row dt fr p now fresh st) = Inr snapshot"
    "ps_snapshot_id (next_policy_row dt fr p now fresh st) \<notin> ps_snapshot_id ` set st"
  using assms by (auto simp: append_policy_def Let_def insert_policy_row_def list_ex_iff split: if_splits)

lemma next_policy_row_simps [simp]:
  "ps_source_id (next_policy_row dt fr p now fresh st) = sp_source_id p"
  "ps_policy (next_policy_row dt fr p now fresh st) = p"
  "ps_stored_at (next_policy_row dt fr p now fresh st) = now"
  "ps_version (next_policy_row dt fr p now fresh st) = (if policy_rows st (sp_source_id p) = [] then 1
     else ps_version (last (policy_rows st (sp_source_id p))) + 1)"
  "ps_previous_hash (next_policy_row dt fr p now fresh st) = (if policy_rows st (sp_source_id p) = [] then None
     else Some (ps_hash (last (policy_rows st (sp_source_id p)))))"
  "ps_hash (next_policy_row dt fr p now fresh st) = hash_record (policy_body dt fr (next_policy_row dt fr p now fresh st))"
  by (simp_all add: next_policy_row_def Let_def policy_body_def)

interpretation policy_log: chained_store "policy_row_ok dt fr" "policy_body dt fr" ps_previous_hash ps_hash
    "policy_failure dt fr" policy_rows ps_source_id ps_version "policy_appends lib dt fr" for lib dt fr
proof unfold_locales
  fix st row st' k
  assume "policy_appends lib dt fr st row st'"
  then obtain p now fresh snapshot where app: "append_policy lib dt fr p now fresh st = Inr (st', snapshot)"
    and row: "row = next_policy_row dt fr p now fresh st"
    and ok: "time_dump_ok dt" "float_dump_ok fr" "policy_values_ok p" "datetime_ok now" "is_utc now"
    by (auto simp: policy_appends_def)
  note s = append_policy_Inr [OF app, folded row]
  have "ps_version q \<le> ps_version row" if q: "q \<in> set (policy_rows st (ps_source_id row))" for q
  proof -
    have "policy_rows st (ps_source_id row) \<noteq> []" using q by auto
    moreover have "ps_version q \<le> ps_version (last (policy_rows st (ps_source_id row)))"
      by (rule sorted_le_last [OF _ q]) (simp add: policy_rows_def)
    ultimately show ?thesis by (simp add: row)
  qed
  then show "policy_rows st' k = (if k = ps_source_id row then policy_rows st k @ [row] else policy_rows st k)"
    by (auto simp: policy_rows_def s(1) intro!: sort_key_snoc_max)
  show "policy_row_ok dt fr row" using ok by (simp add: policy_row_ok_def row offset_ok_def is_utc_def)
  show "ps_previous_hash row = (if policy_rows st (ps_source_id row) = [] then None
      else Some (ps_hash (last (policy_rows st (ps_source_id row)))))"
    "ps_hash row = hash_record (policy_body dt fr row)"
    "ps_version row = (if policy_rows st (ps_source_id row) = [] then 1
      else ps_version (last (policy_rows st (ps_source_id row))) + 1)"
    by (simp_all add: row)
qed

inductive policy_reachable :: "host_library \<Rightarrow> (datetime \<Rightarrow> string) \<Rightarrow> (rat \<Rightarrow> string) \<Rightarrow> policy_store \<Rightarrow> bool"
  for lib dt fr where
  init: "policy_reachable lib dt fr empty_policy_store"
| append: "policy_reachable lib dt fr st \<Longrightarrow> append_policy lib dt fr p now fresh st = Inr (st', snapshot) \<Longrightarrow>
    policy_values_ok p \<Longrightarrow> datetime_ok now \<Longrightarrow> is_utc now \<Longrightarrow> policy_reachable lib dt fr st'"

lemma policy_reachable_sound:
  assumes "time_dump_ok dt" "float_dump_ok fr" "policy_reachable lib dt fr st"
  shows "policy_log.sound dt fr st"
  using assms(3)
proof induction
  case init
  have "policy_rows empty_policy_store k = []" for k
    by (simp add: policy_rows_def empty_policy_store_def)
  then show ?case by (simp add: policy_log.sound_def)
next
  case (append st p now fresh st' snapshot)
  have "policy_appends lib dt fr st (next_policy_row dt fr p now fresh st) st'"
    using append(2-5) assms(1,2) by (auto simp: policy_appends_def)
  then show ?case by (rule policy_log.sound_append [OF append(6)])
qed

text \<open>The row of a version, found through the sorted history.\<close>

lemma find_in_rows:
  assumes "map ps_version (policy_rows st src) = [1..int (length (policy_rows st src))]" "1 \<le> v"
    "v \<le> int (length (policy_rows st src))"
  shows "find (\<lambda>s. ps_source_id s = src \<and> ps_version s = v) st = Some (policy_rows st src ! nat (v - 1))"
proof -
  let ?h = "policy_rows st src"
  have i: "nat (v - 1) < length ?h" using assms(2,3) by linarith
  have ver: "ps_version (?h ! j) = int j + 1" if "j < length ?h" for j
  proof -
    have "ps_version (?h ! j) = map ps_version ?h ! j" using that by simp
    also have "\<dots> = int j + 1" unfolding assms(1) using that by (simp add: nth_upto)
    finally show ?thesis .
  qed
  have mem: "?h ! nat (v - 1) \<in> set st" "ps_source_id (?h ! nat (v - 1)) = src"
    using nth_mem [OF i] by (simp_all add: policy_rows_def)
  have only: "s = ?h ! nat (v - 1)" if "s \<in> set st" "ps_source_id s = src" "ps_version s = v" for s
  proof -
    have "s \<in> set ?h" using that by (simp add: policy_rows_def)
    then obtain j where "j < length ?h" "s = ?h ! j" by (auto simp: in_set_conv_nth)
    moreover from this that ver have "nat (v - 1) = j" by simp
    ultimately show ?thesis by simp
  qed
  show ?thesis
  proof (cases "find (\<lambda>s. ps_source_id s = src \<and> ps_version s = v) st")
    case None
    then show ?thesis using mem ver [OF i] assms(2) by (auto simp: find_None_iff)
  next
    case (Some s)
    then have "s \<in> set st" "ps_source_id s = src" "ps_version s = v" by (auto simp: find_Some_iff)
    with only Some show ?thesis by simp
  qed
qed

text \<open>Policies are versioned and never rewritten: after any appends the chain of every source verifies
  with consecutive versions, an append adds exactly the next version, which \<open>get\<close> then
  returns, and every version that could be read before is read unchanged.\<close>

theorem policy_versions_immutable:
  assumes "time_dump_ok dt" "float_dump_ok fr" "policy_reachable lib dt fr st"
    "append_policy lib dt fr p now fresh st = Inr (st', snapshot)"
    "policy_values_ok p" "datetime_ok now" "is_utc now"
  shows "pv_valid (verify_policy_chain dt fr st' src)
    \<and> map ps_version (policy_rows st' src) = [1..int (length (policy_rows st' src))]
    \<and> ps_version snapshot = int (length (policy_rows st (sp_source_id p))) + 1
    \<and> get_policy lib st' (sp_source_id p) (ps_version snapshot) = Inr snapshot
    \<and> (\<not> (1 \<le> v \<and> v \<le> int (length (policy_rows st src)))
       \<or> get_policy lib st' src v = get_policy lib st src v)"
proof -
  let ?row = "next_policy_row dt fr p now fresh st"
  have app: "policy_appends lib dt fr st ?row st'" using assms by (auto simp: policy_appends_def)
  have s0: "policy_log.sound dt fr st" by (rule policy_reachable_sound [OF assms(1-3)])
  have s1: "policy_log.sound dt fr st'" by (rule policy_log.sound_append [OF s0 app])
  note h0 = policy_log.sound_history [OF s0] and h1 = policy_log.sound_history [OF s1]
  have rows: "policy_rows st' k = policy_rows st k @ (if k = sp_source_id p then [?row] else [])" for k
    using policy_log.append_history [OF app, of k] by auto
  have ver: "ps_version ?row = int (length (policy_rows st (sp_source_id p))) + 1"
  proof -
    have "ps_version ?row = last (map ps_version (policy_rows st' (sp_source_id p)))" by (simp add: rows)
    then show ?thesis unfolding h1(3) by (simp add: rows upto_rec2)
  qed
  have snap: "row_to_snapshot lib ?row = Inr snapshot" by (rule append_policy_Inr(2) [OF assms(4)])
  then have v: "ps_version snapshot = ps_version ?row" by (auto simp: row_to_snapshot_def split: if_splits)
  have "get_policy lib st' (sp_source_id p) (ps_version snapshot) = Inr snapshot"
    unfolding get_policy_def v ver
    by (subst find_in_rows [OF h1(3)]) (simp_all add: rows nth_append snap del: next_policy_row_simps(4))
  moreover have "get_policy lib st' src v = get_policy lib st src v"
    if "1 \<le> v" "v \<le> int (length (policy_rows st src))"
    unfolding get_policy_def find_in_rows [OF h0(3) that]
    by (subst find_in_rows [OF h1(3)]) (use that in \<open>auto simp: rows nth_append\<close>)
  moreover have "pv_valid (verify_policy_chain dt fr st' src)"
    using h1(1) by (simp add: verify_policy_chain_def)
  ultimately show ?thesis using h1(3) ver v by auto
qed

section \<open>A concrete source\<close>

definition demo_lib :: host_library where
  "demo_lib = \<lparr>fold_host = (\<lambda>s. s), idna_ascii = Some, url_host = (\<lambda>u. Some (drop 8 u))\<rparr>"

definition demo_policy :: source_policy where
  "demo_policy = \<lparr>sp_source_id = ''src'', sp_provider = ''p'', base_url = Some ''https://a.org'',
     allowed_hosts = [''a.org.'', ''a.org''], access_status = APPROVED,
     terms_reviewed_at = Some \<lparr>wall = 5, utcoffset = Some 0\<rparr>, terms_reference = None,
     requests_per_minute = 2, max_attempts = 3, backoff_seconds = 1, request_timeout_seconds = 20,
     max_response_bytes = 100, retry_status_codes = [429, 503], capture_raw_response = True,
     policy_notes = None\<rparr>"

lemma demo_policy_ok: "make_source_policy demo_lib demo_policy = Inr (demo_policy\<lparr>allowed_hosts := [''a.org'']\<rparr>)"
  by (simp add: make_source_policy_def policy_fields_ok_def demo_policy_def demo_lib_def len_between_def
      py_len_def validate_policy_def normalized_hosts_def normalize_policy_host_def rstrip_char_def
      hosts_with_base_def dict_of_def)

lemma source_policy_validated_witness:
  "base_hosts demo_lib (demo_policy\<lparr>allowed_hosts := [''a.org'']\<rparr>)
     \<subseteq> set (allowed_hosts (demo_policy\<lparr>allowed_hosts := [''a.org'']\<rparr>))"
  using source_policy_validated [OF demo_policy_ok] by (elim conjE)

text \<open>Some printing of rationals that meets the assumption on \<open>float.__repr__\<close>.\<close>

definition demo_repr :: "rat \<Rightarrow> string" where
  "demo_repr x = int_str (fst (quotient_of x)) @ ''.'' @ int_str (snd (quotient_of x))"

lemma dot_split:
  assumes "a @ CHR ''.'' # b = c @ CHR ''.'' # d" "CHR ''.'' \<notin> set a" "CHR ''.'' \<notin> set c"
  shows "a = c \<and> b = d"
  using assms
proof (induction a arbitrary: c)
  case Nil
  then show ?case by (cases c) auto
next
  case (Cons x a)
  then show ?case by (cases c) auto
qed

lemma int_str_no_dot: "CHR ''.'' \<notin> set (int_str i)"
  using int_str_chars [of "CHR ''.''" i] by (auto simp: is_digit_def)

lemma demo_repr_ok: "float_dump_ok demo_repr"
proof -
  have "float_text_ok (demo_repr x)" for x
    using int_str_num [of "fst (quotient_of x)"] int_str_num [of "snd (quotient_of x)"]
    by (simp add: float_text_ok_def demo_repr_def num_char_def)
  moreover have "x = y" if "demo_repr x = demo_repr y" for x y
  proof -
    have "fst (quotient_of x) = fst (quotient_of y) \<and> snd (quotient_of x) = snd (quotient_of y)"
      using dot_split [OF that [unfolded demo_repr_def append_Cons append_Nil] int_str_no_dot int_str_no_dot]
      by (simp add: int_str_inj)
    then show ?thesis by (metis prod_eqI quotient_of_inject)
  qed
  ultimately show ?thesis by (auto simp: float_dump_ok_def)
qed

lemma demo_policy_values: "policy_values_ok demo_policy"
proof -
  have "double 1" unfolding double_def by (intro exI [of _ 1] exI [of _ 0]) simp
  moreover have "double 20" unfolding double_def by (intro exI [of _ 20] exI [of _ 0]) simp
  ultimately show ?thesis
    by (simp add: policy_values_ok_def demo_policy_def datetime_ok_def offset_ok_def max_wall_def
        us_per_day_def us_per_second_def)
qed

lemma demo_policy_append:
  "\<exists>st' snapshot. append_policy demo_lib isoformat demo_repr demo_policy demo_time ''0'' empty_policy_store
     = Inr (st', snapshot)"
proof -
  let ?row = "next_policy_row isoformat demo_repr demo_policy demo_time ''0'' empty_policy_store"
  have rows: "policy_rows empty_policy_store src = []" for src
    by (simp add: policy_rows_def empty_policy_store_def)
  have "row_to_snapshot demo_lib ?row = Inr (?row\<lparr>ps_policy := demo_policy\<lparr>allowed_hosts := [''a.org'']\<rparr>\<rparr>)"
    by (simp add: row_to_snapshot_def rows demo_policy_ok)
  moreover have "insert_policy_row ?row empty_policy_store = Inr [?row]"
    by (simp add: insert_policy_row_def empty_policy_store_def)
  ultimately show ?thesis by (simp add: append_policy_def Let_def)
qed

lemma policy_versions_immutable_witness:
  "\<exists>st' snapshot. append_policy demo_lib isoformat demo_repr demo_policy demo_time ''0'' empty_policy_store
     = Inr (st', snapshot) \<and> ps_version snapshot = 1
     \<and> get_policy demo_lib st' ''src'' 1 = Inr snapshot"
proof -
  obtain st' snapshot where app: "append_policy demo_lib isoformat demo_repr demo_policy demo_time ''0''
      empty_policy_store = Inr (st', snapshot)" using demo_policy_append by blast
  have src: "sp_source_id demo_policy = ''src''" by (simp add: demo_policy_def)
  have "ps_version snapshot = 1 \<and> get_policy demo_lib st' ''src'' 1 = Inr snapshot"
    using policy_versions_immutable [OF isoformat_dump_ok demo_repr_ok policy_reachable.init app
        demo_policy_values demo_time_ok, of "''src''" 1]
    by (auto simp: src policy_rows_def empty_policy_store_def)
  with app show ?thesis by blast
qed

end
