(* ===== verification/Source_Capture.thy ===== *)
theory Source_Capture
  imports Source_Policy
begin

text \<open>
  src/ballotproof/source_ingestion.py, \<open>SourceCaptureStore\<close>: a response is streamed under a byte
  limit into the content-addressed object directory and a provenance receipt is inserted. The
  object is kept even when the insertion of the receipt fails. \<open>upper\<close> is \<open>str.upper\<close>
  and \<open>policy_text\<close> is pydantic's \<open>model_dump_json\<close> of a policy.
\<close>

section \<open>Requests and receipts\<close>

record capture_request =
  cq_source_id :: string
  cq_request_url :: string
  cq_request_method :: string
  cq_retrieved_at :: datetime
  cq_status_code :: int
  cq_media_type :: "string option"
  cq_etag :: "string option"
  cq_last_modified :: "string option"
  cq_attempt :: int
  cq_request_key :: "string option"
  cq_reservation_id :: "string option"
  cq_transport_id :: "string option"
  cq_transport_version :: "string option"
  cq_transport_config_hash :: "string option"
  cq_transport_provenance_kind :: "string option"

record provenance_receipt =
  receipt_id :: string
  rc_source_id :: string
  rc_provider :: string
  rc_request_url :: string
  rc_request_method :: string
  rc_retrieved_at :: datetime
  rc_status_code :: int
  rc_media_type :: "string option"
  rc_etag :: "string option"
  rc_last_modified :: "string option"
  rc_attempt :: int
  rc_request_key :: "string option"
  rc_reservation_id :: "string option"
  rc_transport_id :: "string option"
  rc_transport_version :: "string option"
  rc_transport_config_hash :: "string option"
  rc_transport_provenance_kind :: "string option"
  raw_sha256 :: string
  raw_size_bytes :: nat
  rc_policy_status :: access_status
  rc_policy_snapshot_hash :: string
  rc_stored_at :: datetime

record captured_response =
  captured_receipt :: provenance_receipt
  object_path :: "string list"

definition capture_request_ok :: "capture_request \<Rightarrow> bool" where
  "capture_request_ok r = (id128 (cq_source_id r) \<and> len_between 1 16 (cq_request_method r)
     \<and> cq_status_code r \<in> {100..599} \<and> opt_all (\<lambda>s. py_len s \<le> 256) (cq_media_type r)
     \<and> opt_all (\<lambda>s. py_len s \<le> 1000) (cq_etag r) \<and> opt_all (\<lambda>s. py_len s \<le> 1000) (cq_last_modified r)
     \<and> cq_attempt r \<in> {1..10} \<and> opt_all (len_between 1 256) (cq_request_key r)
     \<and> opt_all id128 (cq_reservation_id r) \<and> opt_all (len_between 1 256) (cq_transport_id r)
     \<and> opt_all id128 (cq_transport_version r) \<and> opt_all is_sha256_hex (cq_transport_config_hash r)
     \<and> opt_all (len_between 1 32) (cq_transport_provenance_kind r))"

section \<open>The store\<close>

record capture_store =
  cs_objects :: "byte list dict"
  receipt_rows :: "provenance_receipt list"

definition empty_captures :: capture_store where
  "empty_captures = \<lparr>cs_objects = [], receipt_rows = []\<rparr>"

fun read_response :: "int \<Rightarrow> byte list list \<Rightarrow> byte list \<Rightarrow> byte list result" where
  "read_response limit [] content = return content"
| "read_response limit (chunk # rest) content =
     (if chunk = [] then return content
      else if limit < int (length (content @ chunk))
      then raise (ValueError ''source response exceeds the byte limit'')
      else read_response limit rest (content @ chunk))"

text \<open>Moving the temporary file to its content-addressed path, unless that path exists.\<close>

definition store_object :: "byte list \<Rightarrow> byte list dict \<Rightarrow> byte list dict" where
  "store_object content objs =
     (if sha256_bytes content \<in> dict_keys objs then objs
      else dict_set (sha256_bytes content) content objs)"

definition capture_guards :: "source_policy \<Rightarrow> capture_request \<Rightarrow> string option \<Rightarrow> (bool \<times> py_error) list" where
  "capture_guards policy request snap =
     [(sp_source_id policy \<noteq> cq_source_id request,
       ValueError ''request source_id does not match policy source_id''),
      (access_status policy = PROHIBITED, PermissionError ''source policy prohibits capture''),
      (max_attempts policy < cq_attempt request,
       ValueError ''request attempt exceeds source policy max_attempts''),
      (\<not> capture_raw_response policy,
       ValueError ''source policy requires raw-response capture to remain enabled''),
      (\<not> opt_all is_sha256_hex snap,
       ValueError ''policy_snapshot_hash must be a lowercase SHA-256 hex digest'')]"

definition policy_hash :: "(source_policy \<Rightarrow> string) \<Rightarrow> source_policy \<Rightarrow> string" where
  "policy_hash policy_text policy = sha256_bytes (utf8 (policy_text policy))"

definition receipt_for :: "(string \<Rightarrow> string) \<Rightarrow> (source_policy \<Rightarrow> string) \<Rightarrow> source_policy \<Rightarrow> capture_request
    \<Rightarrow> string option \<Rightarrow> byte list \<Rightarrow> datetime \<Rightarrow> string \<Rightarrow> provenance_receipt" where
  "receipt_for upper policy_text policy request snap content now fresh =
     \<lparr>receipt_id = ''bp_src_'' @ fresh, rc_source_id = sp_source_id policy, rc_provider = sp_provider policy,
      rc_request_url = cq_request_url request, rc_request_method = upper (cq_request_method request),
      rc_retrieved_at = cq_retrieved_at request, rc_status_code = cq_status_code request,
      rc_media_type = cq_media_type request, rc_etag = cq_etag request,
      rc_last_modified = cq_last_modified request, rc_attempt = cq_attempt request,
      rc_request_key = cq_request_key request, rc_reservation_id = cq_reservation_id request,
      rc_transport_id = cq_transport_id request, rc_transport_version = cq_transport_version request,
      rc_transport_config_hash = cq_transport_config_hash request,
      rc_transport_provenance_kind = cq_transport_provenance_kind request,
      raw_sha256 = sha256_bytes content, raw_size_bytes = length content,
      rc_policy_status = access_status policy,
      rc_policy_snapshot_hash = (case snap of Some h \<Rightarrow> h | None \<Rightarrow> policy_hash policy_text policy),
      rc_stored_at = now\<rparr>"

definition insert_receipt :: "provenance_receipt \<Rightarrow> capture_store \<Rightarrow> capture_store result" where
  "insert_receipt r st = guarded
     [(list_ex (\<lambda>q. receipt_id q = receipt_id r) (receipt_rows st), IntegrityError ''source_receipts.receipt_id'')]
     (st\<lparr>receipt_rows := receipt_rows st @ [r]\<rparr>)"

text \<open>\<open>capture\<close> returns the new state also when it raises.\<close>

definition capture :: "(string \<Rightarrow> string) \<Rightarrow> (source_policy \<Rightarrow> string) \<Rightarrow> byte list list \<Rightarrow> source_policy
    \<Rightarrow> capture_request \<Rightarrow> string option \<Rightarrow> int \<Rightarrow> datetime \<Rightarrow> string \<Rightarrow> capture_store
    \<Rightarrow> capture_store \<times> captured_response result" where
  "capture upper policy_text stream policy request snap max_bytes now fresh st =
     (case bind_result (guarded (capture_guards policy request snap) ())
        (\<lambda>_. read_response (min max_bytes (max_response_bytes policy)) stream []) of
        Inl e \<Rightarrow> (st, raise e)
      | Inr content \<Rightarrow>
          if content = [] then (st, raise (ValueError ''source response is empty''))
          else (let sha = sha256_bytes content;
                    stored = st\<lparr>cs_objects := store_object content (cs_objects st)\<rparr>;
                    r = receipt_for upper policy_text policy request snap content now fresh
                in case insert_receipt r stored of
                     Inl e \<Rightarrow> (stored, raise e)
                   | Inr st' \<Rightarrow> (st', return \<lparr>captured_receipt = r,
                       object_path = [take 2 sha, take 2 (drop 2 sha), sha]\<rparr>)))"

definition get_receipt :: "capture_store \<Rightarrow> string \<Rightarrow> provenance_receipt result" where
  "get_receipt st rid = (case find (\<lambda>r. receipt_id r = rid) (receipt_rows st) of
       None \<Rightarrow> raise (KeyError ''Unknown receipt_id: '') | Some r \<Rightarrow> return r)"

definition receipts :: "capture_store \<Rightarrow> string \<Rightarrow> provenance_receipt list" where
  "receipts st src = sort_key (\<lambda>r. (isoformat (rc_stored_at r), receipt_id r))
     (filter (\<lambda>r. rc_source_id r = src) (receipt_rows st))"

section \<open>Reachable stores\<close>

inductive capture_reachable :: "capture_store \<Rightarrow> bool" where
  init: "capture_reachable empty_captures"
| capture: "capture_reachable st \<Longrightarrow>
    capture upper policy_text stream policy request snap max_bytes now fresh st = (st', res) \<Longrightarrow>
    capture_reachable st'"

definition objects_named :: "byte list dict \<Rightarrow> bool" where
  "objects_named objs \<longleftrightarrow> (\<forall>k c. dict_get objs k = Some c \<longrightarrow> k = sha256_bytes c)"

text \<open>Every receipt has its object, of the recorded size, and no prohibited policy or excess attempt
  ever produced one.\<close>

definition receipt_backed :: "capture_store \<Rightarrow> provenance_receipt \<Rightarrow> bool" where
  "receipt_backed st r \<longleftrightarrow> raw_sha256 r \<in> dict_keys (cs_objects st)
     \<and> rc_policy_status r \<noteq> PROHIBITED \<and> 0 < raw_size_bytes r"

definition captures_ok :: "capture_store \<Rightarrow> bool" where
  "captures_ok st \<longleftrightarrow> objects_named (cs_objects st) \<and> distinct (map receipt_id (receipt_rows st))
     \<and> list_all (receipt_backed st) (receipt_rows st)"

lemma store_object_get:
  "dict_get (store_object content objs) k =
     (if k = sha256_bytes content \<and> k \<notin> dict_keys objs then Some content else dict_get objs k)"
  by (auto simp: store_object_def dict_get_set)

lemma store_object_keys [simp]:
  "dict_keys (store_object content objs) = insert (sha256_bytes content) (dict_keys objs)"
  by (auto simp: store_object_def dict_keys_set)

lemma store_object_named: "objects_named objs \<Longrightarrow> objects_named (store_object content objs)"
  by (auto simp: objects_named_def store_object_get split: if_splits)

lemma read_response_content:
  "read_response m blocks c = Inr d \<Longrightarrow> d = c @ concat (takeWhile (\<lambda>b. b \<noteq> []) blocks)
     \<and> (d \<noteq> c \<longrightarrow> int (length d) \<le> m)"
proof (induction m blocks c rule: read_response.induct)
  case (2 m block rest c)
  show ?case
  proof (cases "block = []")
    case False
    then have fits: "int (length (c @ block)) \<le> m" and r: "read_response m rest (c @ block) = Inr d"
      using "2.prems" by (auto split: if_splits)
    from "2.IH" [OF False _ r] fits False show ?thesis by (cases "d = c @ block") auto
  qed (use "2.prems" in simp)
qed simp

text \<open>The three ways a capture can end.\<close>

lemma capture_cases:
  assumes "capture upper policy_text stream policy request snap max_bytes now fresh st = (st', res)"
  obtains (refused) e where "st' = st" "res = Inl e"
  | (collided) content e where "st' = st\<lparr>cs_objects := store_object content (cs_objects st)\<rparr>" "res = Inl e"
  | (stored) content where "guarded (capture_guards policy request snap) () = Inr ()"
      "read_response (min max_bytes (max_response_bytes policy)) stream [] = Inr content" "content \<noteq> []"
      "''bp_src_'' @ fresh \<notin> receipt_id ` set (receipt_rows st)"
      "st' = st\<lparr>cs_objects := store_object content (cs_objects st),
         receipt_rows := receipt_rows st
           @ [receipt_for upper policy_text policy request snap content now fresh]\<rparr>"
      "res = Inr \<lparr>captured_receipt = receipt_for upper policy_text policy request snap content now fresh,
         object_path = [take 2 (sha256_bytes content), take 2 (drop 2 (sha256_bytes content)), sha256_bytes content]\<rparr>"
proof (cases "bind_result (guarded (capture_guards policy request snap) ())
    (\<lambda>_. read_response (min max_bytes (max_response_bytes policy)) stream [])")
  case (Inl e)
  then show ?thesis using assms refused by (auto simp: capture_def)
next
  case (Inr content)
  then have g: "guarded (capture_guards policy request snap) () = Inr ()"
    "read_response (min max_bytes (max_response_bytes policy)) stream [] = Inr content" by auto
  let ?r = "receipt_for upper policy_text policy request snap content now fresh"
  have id: "receipt_id ?r = ''bp_src_'' @ fresh" by (simp add: receipt_for_def)
  show ?thesis
  proof (cases "content = []")
    case True
    then show ?thesis using assms refused by (auto simp: capture_def Inr)
  next
    case False
    show ?thesis
    proof (cases "list_ex (\<lambda>q. receipt_id q = receipt_id ?r) (receipt_rows st)")
      case True
      then show ?thesis using assms False collided [of content]
        by (auto simp: capture_def Inr Let_def insert_receipt_def)
    next
      case fresh: False
      then show ?thesis using assms False g id
        by (intro stored [of content]) (auto simp: capture_def Inr Let_def insert_receipt_def list_ex_iff)
    qed
  qed
qed

lemma receipt_for_fields [simp]:
  "receipt_id (receipt_for upper policy_text policy request h content now fresh) = ''bp_src_'' @ fresh"
  "raw_sha256 (receipt_for upper policy_text policy request h content now fresh) = sha256_bytes content"
  "raw_size_bytes (receipt_for upper policy_text policy request h content now fresh) = length content"
  "rc_policy_status (receipt_for upper policy_text policy request h content now fresh) = access_status policy"
  "rc_attempt (receipt_for upper policy_text policy request h content now fresh) = cq_attempt request"
  "rc_source_id (receipt_for upper policy_text policy request h content now fresh) = sp_source_id policy"
  by (simp_all add: receipt_for_def)

lemma receipt_backed_mono:
  "receipt_backed st r \<Longrightarrow> dict_keys (cs_objects st) \<subseteq> dict_keys (cs_objects st') \<Longrightarrow> receipt_backed st' r"
  by (auto simp: receipt_backed_def)

lemma capture_keeps_ok:
  assumes "captures_ok st"
    "capture upper policy_text stream policy request snap max_bytes now fresh st = (st', res)"
  shows "captures_ok st'"
  using assms(2)
proof (cases rule: capture_cases)
  case (stored content)
  then show ?thesis using assms(1)
    by (auto simp: captures_ok_def store_object_named list_all_iff receipt_backed_def capture_guards_def
        split: if_splits)
qed (use assms(1) in \<open>auto simp: captures_ok_def store_object_named list_all_iff receipt_backed_def\<close>)

lemma capture_reachable_ok: "capture_reachable st \<Longrightarrow> captures_ok st"
proof (induction rule: capture_reachable.induct)
  case init
  show ?case by (simp add: captures_ok_def empty_captures_def objects_named_def)
qed (rule capture_keeps_ok)

lemma find_last: "\<not> list_ex P xs \<Longrightarrow> P x \<Longrightarrow> find P (xs @ [x]) = Some x"
  by (induction xs) auto

text \<open>C9. A captured response is stored byte for byte under the hash its receipt names: it is the streamed
  content, within both byte limits, the policy is the request's, does not prohibit capture and
  allows the attempt; the receipt can be read back, and all receipts and objects stored before
  are unchanged, also when the capture fails.\<close>

theorem capture_is_faithful:
  assumes "capture_reachable st"
    "capture upper policy_text stream policy request snap max_bytes now fresh st = (st', res)"
    "collision_free (insert (concat (takeWhile (\<lambda>b. b \<noteq> []) stream)) (ran (dict_get (cs_objects st))))"
  shows "dict_get (cs_objects st) \<subseteq>\<^sub>m dict_get (cs_objects st')
    \<and> take (length (receipt_rows st)) (receipt_rows st') = receipt_rows st
    \<and> (case res of
         Inl e \<Rightarrow> receipt_rows st' = receipt_rows st
       | Inr c \<Rightarrow> dict_get (cs_objects st') (raw_sha256 (captured_receipt c)) =
             Some (concat (takeWhile (\<lambda>b. b \<noteq> []) stream))
           \<and> 0 < raw_size_bytes (captured_receipt c)
           \<and> int (raw_size_bytes (captured_receipt c)) \<le> min max_bytes (max_response_bytes policy)
           \<and> rc_source_id (captured_receipt c) = cq_source_id request \<and> access_status policy \<noteq> PROHIBITED
           \<and> rc_attempt (captured_receipt c) \<le> max_attempts policy
           \<and> get_receipt st' (receipt_id (captured_receipt c)) = Inr (captured_receipt c))"
  using assms(2)
proof (cases rule: capture_cases)
  case (stored content)
  let ?c = "concat (takeWhile (\<lambda>b. b \<noteq> []) stream)"
  let ?r = "receipt_for upper policy_text policy request snap content now fresh"
  have c: "content = ?c" "int (length content) \<le> min max_bytes (max_response_bytes policy)"
    using read_response_content [OF stored(2)] stored(3) by auto
  have obj: "dict_get (cs_objects st') (sha256_bytes content) = Some content"
  proof (cases "dict_get (cs_objects st) (sha256_bytes content)")
    case None
    then show ?thesis by (simp add: stored(5) store_object_get flip: dict_get_None)
  next
    case (Some d)
    then have "sha256_bytes content = sha256_bytes d"
      using capture_reachable_ok [OF assms(1)] by (simp add: captures_ok_def objects_named_def)
    moreover have "d \<in> ran (dict_get (cs_objects st))" using Some by (rule ranI)
    ultimately have "content = d"
      using collision_freeD [OF assms(3)] c(1) by (simp add: sha256_bytes_eq)
    with Some show ?thesis by (simp add: stored(5) store_object_get dict_get_Some_key)
  qed
  have "find (\<lambda>r. receipt_id r = ''bp_src_'' @ fresh) (receipt_rows st @ [?r]) = Some ?r"
    using stored(4) by (intro find_last) (auto simp: list_ex_iff intro: rev_image_eqI)
  then have "get_receipt st' (receipt_id ?r) = Inr ?r" by (simp add: get_receipt_def stored(5))
  moreover have "dict_get (cs_objects st) \<subseteq>\<^sub>m dict_get (cs_objects st')"
    by (auto simp: map_le_def stored(5) store_object_get dict_keys_dom)
  ultimately show ?thesis
    using obj c stored(1,3) by (auto simp: stored(5,6) capture_guards_def split: if_splits)
qed (auto simp: map_le_def store_object_get dict_keys_dom)


section \<open>A concrete capture\<close>

definition demo_capture_request :: capture_request where
  "demo_capture_request = \<lparr>cq_source_id = ''src'', cq_request_url = ''https://a.org/x'', cq_request_method = ''GET'',
     cq_retrieved_at = demo_time, cq_status_code = 200, cq_media_type = None, cq_etag = None,
     cq_last_modified = None, cq_attempt = 1, cq_request_key = Some ''k'', cq_reservation_id = None,
     cq_transport_id = None, cq_transport_version = None, cq_transport_config_hash = None,
     cq_transport_provenance_kind = None\<rparr>"

lemma demo_capture_succeeds:
  "\<exists>st' c. capture (\<lambda>s. s) (\<lambda>p. []) [[1], [2, 3]] demo_policy demo_capture_request None 50 demo_time ''0''
     empty_captures = (st', Inr c)"
  by (simp add: capture_def capture_guards_def demo_policy_def demo_capture_request_def insert_receipt_def
      empty_captures_def Let_def)

lemma capture_is_faithful_witness:
  "\<exists>st' c. capture (\<lambda>s. s) (\<lambda>p. []) [[1], [2, 3]] demo_policy demo_capture_request None 50 demo_time ''0''
     empty_captures = (st', Inr c)
   \<and> dict_get (cs_objects st') (raw_sha256 (captured_receipt c)) = Some [1, 2, 3]
   \<and> get_receipt st' (receipt_id (captured_receipt c)) = Inr (captured_receipt c)"
proof -
  obtain st' c where run: "capture (\<lambda>s. s) (\<lambda>p. []) [[1], [2, 3]] demo_policy demo_capture_request None 50
      demo_time ''0'' empty_captures = (st', Inr c)" using demo_capture_succeeds by blast
  have "collision_free (insert (concat (takeWhile (\<lambda>b. b \<noteq> []) [[1], [2, 3]])) (ran (dict_get (cs_objects empty_captures))))"
    by (simp add: empty_captures_def)
  from capture_is_faithful [OF capture_reachable.init run this] run show ?thesis by auto
qed

end
