(* ===== verification/Source_Security.thy ===== *)
theory Source_Security
  imports Source_Policy
begin

text \<open>
  src/ballotproof/source_security.py: which request URLs a source policy permits, and the check of
  resolved addresses. The parser of URLs, the address registry of \<open>ipaddress\<close> and the Unicode
  case mapping are fields of \<open>net_library\<close>.
\<close>

datatype policy_violation =
    INSECURE_SCHEME | USERINFO_NOT_ALLOWED | HOST_NOT_ALLOWED | METHOD_NOT_ALLOWED
  | NONSTANDARD_PORT | UNSAFE_IP_LITERAL | FRAGMENT_NOT_ALLOWED | UNSAFE_RESOLVED_ADDRESS

text \<open>\<open>SourceRequestPolicyError\<close> with its reason, and any other exception.\<close>

datatype request_error = Violation policy_violation | OtherError py_error

text \<open>The parts of a \<open>SplitResult\<close>; \<open>port\<close> is \<open>None\<close> when reading it raises a
  ValueError.\<close>

record url_parts =
  url_scheme :: string
  url_username :: "string option"
  url_password :: "string option"
  url_fragment :: string
  url_port :: "nat option option"
  url_hostname :: "string option"

text \<open>\<open>upper_text\<close> is \<open>str.upper\<close>, \<open>lower_text\<close> is \<open>str.lower\<close>,
  \<open>urlsplit\<close> is \<open>urllib.parse.urlsplit\<close> and \<open>ip_is_global\<close> is
  \<open>ip_address(text).is_global\<close>, \<open>None\<close> when the text is no address.\<close>

record net_library =
  hosts_lib :: host_library
  upper_text :: "string \<Rightarrow> string"
  lower_text :: "string \<Rightarrow> string"
  urlsplit :: "string \<Rightarrow> url_parts result"
  ip_is_global :: "string \<Rightarrow> bool option"

definition normalize_source_host :: "host_library \<Rightarrow> string \<Rightarrow> string" where
  "normalize_source_host lib host =
     (let v = rstrip_char (CHR ''.'') (fold_host lib host) in
      if v = [] then v else (case idna_ascii lib v of None \<Rightarrow> v | Some ascii \<Rightarrow> ascii))"

fun first_violation :: "(bool \<times> policy_violation) list \<Rightarrow> policy_violation option" where
  "first_violation [] = None"
| "first_violation ((c, v) # cs) = (if c then Some v else first_violation cs)"

definition host_violation :: "net_library \<Rightarrow> source_policy \<Rightarrow> string option \<Rightarrow> policy_violation option" where
  "host_violation net policy hostname = (case hostname of
       None \<Rightarrow> Some HOST_NOT_ALLOWED
     | Some name \<Rightarrow>
         (let host = normalize_source_host (hosts_lib net) name in
          if host \<notin> set (map (normalize_source_host (hosts_lib net)) (allowed_hosts policy))
          then Some HOST_NOT_ALLOWED
          else (case ip_is_global net host of
              None \<Rightarrow> None | Some global \<Rightarrow> if global then None else Some UNSAFE_IP_LITERAL)))"

definition validate_source_request :: "net_library \<Rightarrow> source_policy \<Rightarrow> string \<Rightarrow> string
    \<Rightarrow> request_error + unit" where
  "validate_source_request net policy url request_method =
     (if upper_text net request_method \<noteq> ''GET'' then Inl (Violation METHOD_NOT_ALLOWED)
      else (case urlsplit net url of
          Inl e \<Rightarrow> Inl (OtherError e)
        | Inr parsed \<Rightarrow>
            (case first_violation
               [(lower_text net (url_scheme parsed) \<noteq> ''https'', INSECURE_SCHEME),
                (url_username parsed \<noteq> None \<or> url_password parsed \<noteq> None, USERINFO_NOT_ALLOWED),
                (url_fragment parsed \<noteq> [], FRAGMENT_NOT_ALLOWED),
                (url_port parsed = None, NONSTANDARD_PORT),
                (url_port parsed \<notin> {Some None, Some (Some 443)}, NONSTANDARD_PORT)] of
               Some v \<Rightarrow> Inl (Violation v)
             | None \<Rightarrow> (case host_violation net policy (url_hostname parsed) of
                   Some v \<Rightarrow> Inl (Violation v) | None \<Rightarrow> Inr ()))))"

fun check_addresses :: "net_library \<Rightarrow> string list \<Rightarrow> request_error + unit" where
  "check_addresses net [] = Inr ()"
| "check_addresses net (v # vs) =
     (if ip_is_global net v = Some True then check_addresses net vs else Inl (Violation UNSAFE_RESOLVED_ADDRESS))"

definition validate_resolved_addresses :: "net_library \<Rightarrow> string list \<Rightarrow> request_error + unit" where
  "validate_resolved_addresses net values =
     (if values = [] then Inl (Violation UNSAFE_RESOLVED_ADDRESS) else check_addresses net values)"

text \<open>What a permitted request looks like.\<close>

definition request_permitted :: "net_library \<Rightarrow> source_policy \<Rightarrow> string \<Rightarrow> bool" where
  "request_permitted net policy url \<longleftrightarrow> (\<exists>parsed name. urlsplit net url = Inr parsed
     \<and> lower_text net (url_scheme parsed) = ''https'' \<and> url_username parsed = None \<and> url_password parsed = None
     \<and> url_fragment parsed = [] \<and> url_port parsed \<in> {Some None, Some (Some 443)} \<and> url_hostname parsed = Some name
     \<and> normalize_source_host (hosts_lib net) name
         \<in> normalize_source_host (hosts_lib net) ` set (allowed_hosts policy)
     \<and> ip_is_global net (normalize_source_host (hosts_lib net) name) \<noteq> Some False)"

lemma host_violation_None:
  "host_violation net policy hostname = None \<longleftrightarrow> (\<exists>name. hostname = Some name
     \<and> normalize_source_host (hosts_lib net) name \<in> normalize_source_host (hosts_lib net) ` set (allowed_hosts policy)
     \<and> ip_is_global net (normalize_source_host (hosts_lib net) name) \<noteq> Some False)"
  by (cases hostname) (auto simp: host_violation_def Let_def split: option.splits)

lemma validate_source_request_ok:
  "validate_source_request net policy url m = Inr () \<longleftrightarrow>
     upper_text net m = ''GET'' \<and> request_permitted net policy url"
proof (cases "urlsplit net url")
  case (Inr parsed)
  have "request_permitted net policy url \<longleftrightarrow> lower_text net (url_scheme parsed) = ''https''
      \<and> url_username parsed = None \<and> url_password parsed = None \<and> url_fragment parsed = []
      \<and> url_port parsed \<in> {Some None, Some (Some 443)} \<and> host_violation net policy (url_hostname parsed) = None"
    unfolding host_violation_None request_permitted_def Inr by blast
  with Inr show ?thesis by (auto simp: validate_source_request_def split: option.splits)
qed (simp add: validate_source_request_def request_permitted_def)

lemma check_addresses_ok:
  "check_addresses net vs = Inr () \<longleftrightarrow> list_all (\<lambda>v. ip_is_global net v = Some True) vs"
  by (induction vs) auto

end
