(* ===== verification/Source_Scheduler.thy ===== *)
theory Source_Scheduler
  imports Source_Capture Source_Security
begin

text \<open>
  src/ballotproof/source_scheduler.py: reserving a request against a policy snapshot, with the retry
  sequence, exponential backoff and the sliding one-minute rate window. The store is the list of
  reservation rows; SQL compares the \<open>isoformat\<close> texts of the times. \<open>td\<close> is
  \<open>timedelta(seconds=x)\<close> in microseconds, with the rounding of the C implementation.
  \<open>retry_after_seconds\<close> is the exact quotient; the code's float is its nearest double.
  Dates before year 1 and after year 9999 (OverflowError) are left out.
\<close>

section \<open>Requests, reservations, decisions\<close>

datatype block_reason =
    POLICY_NOT_APPROVED | POLICY_SNAPSHOT_MISMATCH | ATTEMPTS_EXHAUSTED | RETRY_SEQUENCE_INVALID
  | DUPLICATE_RESERVATION | BACKOFF | RATE_LIMIT | REQUEST_VIOLATION policy_violation

record reservation_request =
  sq_policy_version :: int
  sq_policy_hash :: string
  sq_request_key :: string
  sq_request_url :: string
  sq_request_method :: string
  sq_attempt :: int

record reservation =
  reservation_id :: string
  re_source_id :: string
  re_policy_version :: int
  re_policy_hash :: string
  re_request_key :: string
  re_request_url :: string
  re_request_method :: string
  re_attempt :: int
  reserved_at :: datetime

record reservation_decision =
  allowed :: bool
  block_reason :: "block_reason option"
  next_allowed_at :: "datetime option"
  retry_after_seconds :: rat
  granted :: "reservation option"

type_synonym scheduler_store = "reservation list"

definition reservation_request_ok :: "reservation_request \<Rightarrow> bool" where
  "reservation_request_ok r = (1 \<le> sq_policy_version r \<and> is_sha256_hex (sq_policy_hash r)
     \<and> len_between 1 256 (sq_request_key r) \<and> len_between 1 16 (sq_request_method r)
     \<and> sq_attempt r \<in> {1..10})"

definition minute_us :: int where
  "minute_us = 60 * us_per_second"

text \<open>Comparing a naive with an aware datetime raises.\<close>

definition dt_le :: "datetime \<Rightarrow> datetime \<Rightarrow> bool result" where
  "dt_le a b = (if (utcoffset a = None) \<noteq> (utcoffset b = None)
     then raise (TypeError ''can't compare offset-naive and offset-aware datetimes'')
     else return (instant a \<le> instant b))"

definition dt_less :: "datetime \<Rightarrow> datetime \<Rightarrow> bool result" where
  "dt_less a b = (if (utcoffset a = None) \<noteq> (utcoffset b = None)
     then raise (TypeError ''can't compare offset-naive and offset-aware datetimes'')
     else return (instant a < instant b))"

section \<open>\<open>reserve\<close>\<close>

definition deny :: "block_reason \<Rightarrow> reservation_decision" where
  "deny r = \<lparr>allowed = False, block_reason = Some r, next_allowed_at = None, retry_after_seconds = 0,
     granted = None\<rparr>"

definition receipt_matches :: "source_policy \<Rightarrow> reservation_request \<Rightarrow> provenance_receipt \<Rightarrow> bool" where
  "receipt_matches policy q r = (rc_source_id r = sp_source_id policy
     \<and> rc_request_key r = Some (sq_request_key q) \<and> rc_request_url r = sq_request_url q)"

fun select_receipts :: "source_policy \<Rightarrow> reservation_request \<Rightarrow> datetime \<Rightarrow> provenance_receipt list
    \<Rightarrow> provenance_receipt list result" where
  "select_receipts policy q now [] = return []"
| "select_receipts policy q now (r # rs) =
     (if receipt_matches policy q r
      then bind_result (dt_le (rc_retrieved_at r) now) (\<lambda>le.
           bind_result (select_receipts policy q now rs) (\<lambda>rest. return (if le then r # rest else rest)))
      else select_receipts policy q now rs)"

definition matching_receipts :: "source_policy \<Rightarrow> reservation_request \<Rightarrow> datetime
    \<Rightarrow> provenance_receipt list \<Rightarrow> provenance_receipt list result" where
  "matching_receipts policy q now rs = bind_result (select_receipts policy q now rs) (\<lambda>ms.
     return (sort_key (\<lambda>r. (instant (rc_retrieved_at r), instant (rc_stored_at r), receipt_id r)) ms))"

text \<open>\<open>Inl\<close> when the retry sequence is broken, else the end of the backoff.\<close>

definition retry_backoff :: "(rat \<Rightarrow> int) \<Rightarrow> source_policy \<Rightarrow> reservation_request
    \<Rightarrow> provenance_receipt list \<Rightarrow> block_reason + datetime option" where
  "retry_backoff td policy q ms =
     (if sq_attempt q \<le> 1 then Inr None
      else if ms = [] then Inl RETRY_SEQUENCE_INVALID
      else (let latest = last ms in
            if \<not> (rc_attempt latest = sq_attempt q - 1 \<and> rc_status_code latest \<in> set (retry_status_codes policy))
            then Inl RETRY_SEQUENCE_INVALID
            else Inr (Some (add_us (rc_retrieved_at latest)
              (td (backoff_seconds policy * 2 ^ nat (max (rc_attempt latest - 1) 0)))))))"

definition window_rows :: "string \<Rightarrow> datetime \<Rightarrow> scheduler_store \<Rightarrow> reservation list" where
  "window_rows src now st = sort_key (\<lambda>r. isoformat (reserved_at r)) (filter (\<lambda>r. re_source_id r = src
     \<and> isoformat (add_us now (- minute_us)) < isoformat (reserved_at r)
     \<and> isoformat (reserved_at r) \<le> isoformat now) st)"

definition rate_limit_until :: "source_policy \<Rightarrow> reservation list \<Rightarrow> datetime option" where
  "rate_limit_until policy rows =
     (if requests_per_minute policy \<le> int (length rows)
      then Some (add_us (reserved_at (rows ! nat (int (length rows) - requests_per_minute policy))) minute_us)
      else None)"

fun blockers :: "datetime \<Rightarrow> datetime option list \<Rightarrow> datetime list result" where
  "blockers now [] = return []"
| "blockers now (None # vs) = blockers now vs"
| "blockers now (Some v # vs) = bind_result (dt_less now v) (\<lambda>later.
     bind_result (blockers now vs) (\<lambda>rest. return (if later then v # rest else rest)))"

fun latest_of :: "datetime \<Rightarrow> datetime list \<Rightarrow> datetime" where
  "latest_of a [] = a"
| "latest_of a (b # bs) = latest_of (if instant a < instant b then b else a) bs"

definition blocked_until :: "datetime option \<Rightarrow> datetime \<Rightarrow> datetime \<Rightarrow> reservation_decision" where
  "blocked_until backoff next_allowed now =
     \<lparr>allowed = False,
      block_reason = Some (if backoff \<noteq> None \<and> instant (the backoff) = instant next_allowed
        then BACKOFF else RATE_LIMIT),
      next_allowed_at = Some next_allowed,
      retry_after_seconds = max 0 (of_int (instant next_allowed - instant now) / of_int us_per_second),
      granted = None\<rparr>"

definition new_reservation :: "net_library \<Rightarrow> policy_snapshot \<Rightarrow> reservation_request \<Rightarrow> datetime
    \<Rightarrow> string \<Rightarrow> reservation" where
  "new_reservation net snapshot q now fresh =
     \<lparr>reservation_id = ''bp_req_'' @ fresh, re_source_id = sp_source_id (ps_policy snapshot),
      re_policy_version = ps_version snapshot, re_policy_hash = ps_hash snapshot,
      re_request_key = sq_request_key q, re_request_url = sq_request_url q,
      re_request_method = upper_text net (sq_request_method q), re_attempt = sq_attempt q,
      reserved_at = now\<rparr>"

definition insert_reservation :: "reservation \<Rightarrow> scheduler_store \<Rightarrow> scheduler_store result" where
  "insert_reservation r st = guarded
     [(list_ex (\<lambda>q. reservation_id q = reservation_id r) st,
       IntegrityError ''source_request_reservations.reservation_id''),
      (list_ex (\<lambda>q. re_source_id q = re_source_id r \<and> re_request_key q = re_request_key r
          \<and> re_attempt q = re_attempt r) st,
       IntegrityError ''source_request_reservations.source_id, request_key, attempt'')]
     (st @ [r])"

text \<open>The transaction: the duplicate check, the window, the blockers and the insertion.\<close>

definition reserve_slot :: "net_library \<Rightarrow> policy_snapshot \<Rightarrow> reservation_request \<Rightarrow> datetime option
    \<Rightarrow> datetime \<Rightarrow> string \<Rightarrow> scheduler_store \<Rightarrow> (scheduler_store \<times> reservation_decision) result" where
  "reserve_slot net snapshot q backoff now fresh st =
     (let policy = ps_policy snapshot in
      if list_ex (\<lambda>r. re_source_id r = sp_source_id policy \<and> re_request_key r = sq_request_key q
          \<and> re_attempt r = sq_attempt q) st
      then return (st, deny DUPLICATE_RESERVATION)
      else bind_result (blockers now [backoff,
          rate_limit_until policy (window_rows (sp_source_id policy) now st)]) (\<lambda>bs.
        case bs of
          b # rest \<Rightarrow> return (st, blocked_until backoff (latest_of b rest) now)
        | [] \<Rightarrow>
            (let r = new_reservation net snapshot q now fresh in
             bind_result (insert_reservation r st) (\<lambda>st'. return (st',
               \<lparr>allowed = True, block_reason = None, next_allowed_at = None, retry_after_seconds = 0,
                granted = Some r\<rparr>)))))"

definition reserve :: "net_library \<Rightarrow> (rat \<Rightarrow> int) \<Rightarrow> policy_snapshot \<Rightarrow> reservation_request
    \<Rightarrow> provenance_receipt list \<Rightarrow> datetime \<Rightarrow> string \<Rightarrow> scheduler_store
    \<Rightarrow> (scheduler_store \<times> reservation_decision) result" where
  "reserve net td snapshot q rcpts now fresh st =
     (let policy = ps_policy snapshot in
      if sq_policy_version q \<noteq> ps_version snapshot \<or> sq_policy_hash q \<noteq> ps_hash snapshot
      then return (st, deny POLICY_SNAPSHOT_MISMATCH)
      else if access_status policy \<noteq> APPROVED then return (st, deny POLICY_NOT_APPROVED)
      else (case validate_source_request net policy (sq_request_url q) (sq_request_method q) of
          Inl (Violation v) \<Rightarrow> return (st, deny (REQUEST_VIOLATION v))
        | Inl (OtherError e) \<Rightarrow> raise e
        | Inr _ \<Rightarrow>
            if max_attempts policy < sq_attempt q then return (st, deny ATTEMPTS_EXHAUSTED)
            else bind_result (matching_receipts policy q now rcpts) (\<lambda>ms.
              case retry_backoff td policy q ms of
                Inl reason \<Rightarrow> return (st, deny reason)
              | Inr backoff \<Rightarrow> reserve_slot net snapshot q backoff now fresh st)))"

definition reservations :: "scheduler_store \<Rightarrow> string \<Rightarrow> reservation list" where
  "reservations st src = sort_key (\<lambda>r. (isoformat (reserved_at r), reservation_id r))
     (filter (\<lambda>r. re_source_id r = src) st)"

section \<open>What a reservation was granted for\<close>

lemma select_receipts_in:
  "select_receipts policy q now rs = Inr ms \<Longrightarrow> set ms =
     {r \<in> set rs. receipt_matches policy q r \<and> instant (rc_retrieved_at r) \<le> instant now}"
proof (induction rs arbitrary: ms)
  case (Cons r rs)
  show ?case
  proof (cases "receipt_matches policy q r")
    case True
    then obtain rest where rest: "select_receipts policy q now rs = Inr rest"
      "ms = (if instant (rc_retrieved_at r) \<le> instant now then r # rest else rest)"
      using Cons.prems by (auto simp: dt_le_def split: if_splits)
    show ?thesis using Cons.IH [OF rest(1)] rest(2) True by auto
  qed (use Cons in auto)
qed simp

lemma matching_receipts_in:
  "matching_receipts policy q now rs = Inr ms \<Longrightarrow> set ms =
     {r \<in> set rs. receipt_matches policy q r \<and> instant (rc_retrieved_at r) \<le> instant now}"
  using select_receipts_in by (auto simp: matching_receipts_def)

lemma blockers_Nil:
  "blockers now vs = Inr [] \<Longrightarrow> list_all (\<lambda>v. opt_all (\<lambda>v. instant v \<le> instant now) v) vs"
  by (induction now vs rule: blockers.induct) (auto simp: dt_less_def split: if_splits)

lemma reserve_slot_Inr:
  assumes "reserve_slot net snapshot q backoff now fresh st = Inr (st', d)"
  shows "if allowed d
    then granted d = Some (new_reservation net snapshot q now fresh)
      \<and> st' = st @ [new_reservation net snapshot q now fresh]
      \<and> \<not> list_ex (\<lambda>r. re_source_id r = sp_source_id (ps_policy snapshot) \<and> re_request_key r = sq_request_key q
          \<and> re_attempt r = sq_attempt q) st
      \<and> opt_all (\<lambda>b. instant b \<le> instant now) backoff
      \<and> opt_all (\<lambda>b. instant b \<le> instant now) (rate_limit_until (ps_policy snapshot)
          (window_rows (sp_source_id (ps_policy snapshot)) now st))
    else st' = st \<and> granted d = None"
proof (cases "list_ex (\<lambda>r. re_source_id r = sp_source_id (ps_policy snapshot)
    \<and> re_request_key r = sq_request_key q \<and> re_attempt r = sq_attempt q) st")
  case True
  with assms show ?thesis by (auto simp: reserve_slot_def Let_def deny_def)
next
  case new: False
  let ?vs = "[backoff, rate_limit_until (ps_policy snapshot)
    (window_rows (sp_source_id (ps_policy snapshot)) now st)]"
  let ?r = "new_reservation net snapshot q now fresh"
  obtain bs where bs: "blockers now ?vs = Inr bs"
    using assms new by (auto simp: reserve_slot_def Let_def)
  show ?thesis
  proof (cases bs)
    case (Cons b rest)
    with assms new bs show ?thesis by (auto simp: reserve_slot_def Let_def blocked_until_def)
  next
    case Nil
    have "\<exists>st''. insert_reservation ?r st = Inr st'' \<and> (st', d) = (st'',
        \<lparr>allowed = True, block_reason = None, next_allowed_at = None, retry_after_seconds = 0, granted = Some ?r\<rparr>)"
      using assms new bs Nil by (auto simp: reserve_slot_def Let_def)
    moreover have "st'' = st @ [?r]" if "insert_reservation ?r st = Inr st''" for st''
      using that by (auto simp: insert_reservation_def split: if_splits)
    ultimately show ?thesis using new blockers_Nil [OF bs [unfolded Nil]] by auto
  qed
qed

text \<open>The backoff a retry had to wait for.\<close>

definition retry_after :: "(rat \<Rightarrow> int) \<Rightarrow> source_policy \<Rightarrow> reservation_request \<Rightarrow> provenance_receipt \<Rightarrow> int" where
  "retry_after td policy q r = instant (rc_retrieved_at r)
     + td (backoff_seconds policy * 2 ^ nat (max (sq_attempt q - 2) 0))"

definition retry_justified :: "(rat \<Rightarrow> int) \<Rightarrow> source_policy \<Rightarrow> reservation_request \<Rightarrow> datetime
    \<Rightarrow> provenance_receipt \<Rightarrow> bool" where
  "retry_justified td policy q now r \<longleftrightarrow> receipt_matches policy q r \<and> rc_attempt r = sq_attempt q - 1
     \<and> rc_status_code r \<in> set (retry_status_codes policy)
     \<and> instant (rc_retrieved_at r) \<le> instant now \<and> retry_after td policy q r \<le> instant now"

lemma retry_backoff_Inr:
  assumes "retry_backoff td policy q ms = Inr backoff" "\<not> sq_attempt q \<le> 1"
  obtains r where "r = last ms" "r \<in> set ms" "rc_attempt r = sq_attempt q - 1"
    "rc_status_code r \<in> set (retry_status_codes policy)" "opt_all (\<lambda>b. instant b = retry_after td policy q r) backoff"
    "backoff \<noteq> None"
  using assms by (auto simp: retry_backoff_def Let_def retry_after_def split: if_splits)

lemma reserve_Inr:
  assumes "reserve net td snapshot q rcpts now fresh st = Inr (st', d)"
  shows "if allowed d
    then access_status (ps_policy snapshot) = APPROVED
      \<and> sq_policy_version q = ps_version snapshot \<and> sq_policy_hash q = ps_hash snapshot
      \<and> request_permitted net (ps_policy snapshot) (sq_request_url q)
      \<and> sq_attempt q \<le> max_attempts (ps_policy snapshot)
      \<and> (\<exists>ms backoff. matching_receipts (ps_policy snapshot) q now rcpts = Inr ms
          \<and> retry_backoff td (ps_policy snapshot) q ms = Inr backoff
          \<and> reserve_slot net snapshot q backoff now fresh st = Inr (st', d))
    else st' = st \<and> granted d = None"
proof -
  let ?p = "ps_policy snapshot"
  show ?thesis
  proof (cases "sq_policy_version q \<noteq> ps_version snapshot \<or> sq_policy_hash q \<noteq> ps_hash snapshot
      \<or> access_status ?p \<noteq> APPROVED")
    case True
    with assms show ?thesis by (auto simp: reserve_def Let_def deny_def split: if_splits)
  next
    case False
    show ?thesis
    proof (cases "validate_source_request net ?p (sq_request_url q) (sq_request_method q)")
      case (Inl e)
      with False assms show ?thesis
        by (cases e) (auto simp: reserve_def Let_def deny_def)
    next
      case (Inr u)
      then have perm: "request_permitted net ?p (sq_request_url q)" using validate_source_request_ok by auto
      show ?thesis
      proof (cases "max_attempts ?p < sq_attempt q")
        case True
        with False Inr assms show ?thesis by (auto simp: reserve_def Let_def deny_def)
      next
        case att: False
        with False Inr assms obtain ms where ms: "matching_receipts ?p q now rcpts = Inr ms"
          "(case retry_backoff td ?p q ms of Inl reason \<Rightarrow> return (st, deny reason)
            | Inr backoff \<Rightarrow> reserve_slot net snapshot q backoff now fresh st) = Inr (st', d)"
          by (auto simp: reserve_def Let_def)
        show ?thesis
        proof (cases "retry_backoff td ?p q ms")
          case (Inl r)
          with ms show ?thesis by (auto simp: deny_def)
        next
          case (Inr b)
          with ms have "reserve_slot net snapshot q b now fresh st = Inr (st', d)" by simp
          with reserve_slot_Inr [OF this] Inr ms False att perm show ?thesis by auto
        qed
      qed
    qed
  qed
qed

text \<open>A reservation is only granted for a request that an approved policy snapshot of exactly the
  version and hash named permits, on an allowed host over HTTPS, once per source, key and attempt,
  within the attempts allowed; a retry only after a receipt of the previous attempt with a
  retryable status, when its exponential backoff has passed. Denied requests leave no trace.\<close>

theorem reservation_justified:
  assumes "reserve net td snapshot q rcpts now fresh st = Inr (st', d)"
    "distinct (map (\<lambda>r. (re_source_id r, re_request_key r, re_attempt r)) st)"
  shows "distinct (map (\<lambda>r. (re_source_id r, re_request_key r, re_attempt r)) st')
    \<and> (if allowed d
       then st' = st @ [new_reservation net snapshot q now fresh]
         \<and> access_status (ps_policy snapshot) = APPROVED
         \<and> sq_policy_version q = ps_version snapshot \<and> sq_policy_hash q = ps_hash snapshot
         \<and> request_permitted net (ps_policy snapshot) (sq_request_url q)
         \<and> sq_attempt q \<le> max_attempts (ps_policy snapshot)
         \<and> (sq_attempt q \<le> 1 \<or> list_ex (retry_justified td (ps_policy snapshot) q now) rcpts)
       else st' = st)"
proof (cases "allowed d")
  case True
  let ?p = "ps_policy snapshot" and ?r = "new_reservation net snapshot q now fresh"
  obtain ms backoff where ms: "matching_receipts ?p q now rcpts = Inr ms"
    and rb: "retry_backoff td ?p q ms = Inr backoff"
    and slot: "reserve_slot net snapshot q backoff now fresh st = Inr (st', d)"
    and perm: "access_status ?p = APPROVED" "sq_policy_version q = ps_version snapshot"
      "sq_policy_hash q = ps_hash snapshot" "request_permitted net ?p (sq_request_url q)"
      "sq_attempt q \<le> max_attempts ?p"
    using reserve_Inr [OF assms(1)] True by auto
  have s: "st' = st @ [?r]" "opt_all (\<lambda>b. instant b \<le> instant now) backoff"
    and fresh_key: "\<not> list_ex (\<lambda>r. re_source_id r = sp_source_id ?p \<and> re_request_key r = sq_request_key q
          \<and> re_attempt r = sq_attempt q) st"
    using reserve_slot_Inr [OF slot] True by auto
  have "distinct (map (\<lambda>r. (re_source_id r, re_request_key r, re_attempt r)) st')"
    using assms(2) fresh_key by (auto simp: s new_reservation_def list_ex_iff)
  moreover have "list_ex (retry_justified td ?p q now) rcpts" if a: "\<not> sq_attempt q \<le> 1"
  proof -
    obtain r where r: "r \<in> set ms" "rc_attempt r = sq_attempt q - 1"
      "rc_status_code r \<in> set (retry_status_codes ?p)" "opt_all (\<lambda>b. instant b = retry_after td ?p q r) backoff"
      "backoff \<noteq> None"
      using retry_backoff_Inr [OF rb a] by metis
    have "r \<in> set rcpts" "receipt_matches ?p q r" "instant (rc_retrieved_at r) \<le> instant now"
      using r(1) matching_receipts_in [OF ms] by auto
    moreover have "retry_after td ?p q r \<le> instant now"
      using r(4,5) s(2) by (cases backoff) auto
    ultimately show ?thesis using r(2,3) by (auto simp: list_ex_iff retry_justified_def)
  qed
  ultimately show ?thesis using True s perm by auto
qed (use reserve_Inr [OF assms(1)] assms(2) in auto)


section \<open>The rate window\<close>

text \<open>Clock values for which the comparison of texts in SQL is the comparison of times.\<close>

definition clock_ok :: "datetime \<Rightarrow> bool" where
  "clock_ok now \<longleftrightarrow> is_utc now \<and> datetime_ok now \<and> datetime_ok (add_us now (- minute_us))"

definition in_window :: "string \<Rightarrow> int \<Rightarrow> reservation \<Rightarrow> bool" where
  "in_window src w r \<longleftrightarrow> re_source_id r = src \<and> w - minute_us < instant (reserved_at r) \<and> instant (reserved_at r) \<le> w"

definition stored_before :: "int \<Rightarrow> scheduler_store \<Rightarrow> bool" where
  "stored_before t st \<longleftrightarrow> list_all (\<lambda>r. is_utc (reserved_at r) \<and> datetime_ok (reserved_at r)
     \<and> instant (reserved_at r) \<le> t) st"

inductive scheduler_run :: "net_library \<Rightarrow> (rat \<Rightarrow> int) \<Rightarrow> string \<Rightarrow> int \<Rightarrow> int \<Rightarrow> scheduler_store \<Rightarrow> bool"
  for net td src n where
  init: "scheduler_run net td src n t []"
| step: "scheduler_run net td src n t st \<Longrightarrow> reserve net td snapshot q rcpts now fresh st = Inr (st', d) \<Longrightarrow>
    (sp_source_id (ps_policy snapshot) = src \<Longrightarrow> requests_per_minute (ps_policy snapshot) \<in> {1..n}) \<Longrightarrow>
    clock_ok now \<Longrightarrow> t \<le> instant now \<Longrightarrow> scheduler_run net td src n (instant now) st'"

lemma minute_pos: "0 < minute_us"
  by (simp add: minute_us_def us_per_second_def)

lemma window_rows_instants:
  assumes "stored_before t st" "clock_ok now"
  shows "window_rows src now st =
    sort_key (\<lambda>r. isoformat (reserved_at r)) (filter (in_window src (instant now)) st)"
proof -
  have "is_utc (add_us now (- minute_us))" using assms(2) by (simp add: clock_ok_def is_utc_def)
  then have "filter (\<lambda>r. re_source_id r = src \<and> isoformat (add_us now (- minute_us)) < isoformat (reserved_at r)
      \<and> isoformat (reserved_at r) \<le> isoformat now) st = filter (in_window src (instant now)) st"
    using assms by (intro filter_cong refl)
      (auto simp: in_window_def stored_before_def list_all_iff clock_ok_def isoformat_less)
  then show ?thesis by (simp add: window_rows_def)
qed

lemma rate_limit_free:
  assumes "stored_before t st" "clock_ok now" "1 \<le> requests_per_minute policy"
    "opt_all (\<lambda>b. instant b \<le> instant now) (rate_limit_until policy (window_rows src now st))"
  shows "int (length (filter (in_window src (instant now)) st)) < requests_per_minute policy"
proof (rule ccontr)
  assume neg: "\<not> ?thesis"
  let ?rows = "window_rows src now st" and ?i = "nat (int (length (window_rows src now st)) - requests_per_minute policy)"
  note w = window_rows_instants [OF assms(1,2), of src]
  have full: "requests_per_minute policy \<le> int (length ?rows)" using neg by (simp add: w)
  then have "?i < length ?rows" using assms(3) by linarith
  then have "?rows ! ?i \<in> set ?rows" by (rule nth_mem)
  then have "in_window src (instant now) (?rows ! ?i)" by (simp add: w)
  then have "instant now < instant (reserved_at (?rows ! ?i)) + minute_us" by (simp add: in_window_def)
  with assms(4) full show False by (simp add: rate_limit_until_def)
qed

lemma scheduler_run_stored: "scheduler_run net td src n t st \<Longrightarrow> stored_before t st"
proof (induction rule: scheduler_run.induct)
  case (step t st snapshot q rcpts now fresh st' d)
  have old: "stored_before (instant now) st"
    using step.IH step.hyps(5) by (auto simp: stored_before_def list_all_iff)
  show ?case
  proof (cases "allowed d")
    case True
    then have "st' = st @ [new_reservation net snapshot q now fresh]"
      using reserve_Inr [OF step.hyps(2)] reserve_slot_Inr by metis
    then show ?thesis using old step.hyps(4) by (simp add: stored_before_def new_reservation_def clock_ok_def)
  qed (use old reserve_Inr [OF step.hyps(2)] in simp)
qed (simp add: stored_before_def)

lemma rate_window_bound:
  assumes "scheduler_run net td src n t st" "1 \<le> n"
  shows "int (length (filter (in_window src w) st)) \<le> n"
  using assms
proof (induction rule: scheduler_run.induct)
  case (step t st snapshot q rcpts now fresh st' d)
  let ?p = "ps_policy snapshot"
  note before = scheduler_run_stored [OF step.hyps(1)]
  show ?case
  proof (cases "allowed d \<and> in_window src w (new_reservation net snapshot q now fresh)")
    case True
    then obtain backoff where slot: "reserve_slot net snapshot q backoff now fresh st = Inr (st', d)"
      using reserve_Inr [OF step.hyps(2)] by auto
    have win: "sp_source_id ?p = src" "w - minute_us < instant now" "instant now \<le> w"
      using True by (simp_all add: in_window_def new_reservation_def)
    have s: "st' = st @ [new_reservation net snapshot q now fresh]"
      "opt_all (\<lambda>b. instant b \<le> instant now) (rate_limit_until ?p (window_rows src now st))"
      using reserve_slot_Inr [OF slot] True win(1) by auto
    have lim: "requests_per_minute ?p \<in> {1..n}" using step.hyps(3) win(1) by simp
    have "in_window src w r \<Longrightarrow> in_window src (instant now) r" if "r \<in> set st" for r
      using that before step.hyps(5) win by (auto simp: in_window_def stored_before_def list_all_iff)
    then have "length (filter (in_window src w) st) \<le> length (filter (in_window src (instant now)) st)"
      by (induction st) auto
    moreover have "int (length (filter (in_window src (instant now)) st)) < requests_per_minute ?p"
      using rate_limit_free [OF before step.hyps(4) _ s(2)] lim by simp
    ultimately have "int (length (filter (in_window src w) st)) < n" using lim by simp
    then show ?thesis using True by (simp add: s(1))
  next
    case False
    have "st' = st \<or> allowed d \<and> st' = st @ [new_reservation net snapshot q now fresh]"
      using reserve_Inr [OF step.hyps(2)] reserve_slot_Inr by metis
    with False step.IH step.prems show ?thesis by auto
  qed
qed simp

text \<open>C10. The rate limit holds for every sliding minute, not only for those in which requests are made: with UTC clocks,
  requests evaluated in the order of their times, and policies of the source that allow at most \<open>n\<close> requests per minute,
  the source never has more than \<open>n\<close> reservations within one minute. (A request evaluated with an earlier clock than a
  stored reservation does not count that reservation, so out of order the limit can be exceeded.)\<close>

theorem rate_limit_respected:
  assumes "scheduler_run net td src n t st" "1 \<le> n"
  shows "int (length (filter (in_window src w) st)) \<le> n"
  by (rule rate_window_bound [OF assms])

section \<open>When a blocked request is granted\<close>

lemma blockers_some:
  assumes "blockers now vs = Inr bs" "Some v \<in> set vs" "instant now < instant v"
  shows "v \<in> set bs"
  using assms by (induction now vs arbitrary: bs rule: blockers.induct)
    (auto simp: dt_less_def split: if_splits)

lemma latest_of_ge: "instant a \<le> instant (latest_of a bs) \<and> (\<forall>b \<in> set bs. instant b \<le> instant (latest_of a bs))"
  by (induction a bs rule: latest_of.induct) (auto split: if_splits)

lemma select_receipts_later:
  assumes "list_all (\<lambda>r. instant (rc_retrieved_at r) \<le> instant now) rs" "instant now \<le> instant later"
    "utcoffset now \<noteq> None" "utcoffset later \<noteq> None"
    "select_receipts policy q now rs = Inr ms"
  shows "select_receipts policy q later rs = Inr ms"
  using assms(1,5)
proof (induction rs arbitrary: ms)
  case (Cons r rs)
  show ?case
  proof (cases "receipt_matches policy q r")
    case True
    with Cons.prems obtain rest where r: "select_receipts policy q now rs = Inr rest" "ms = r # rest"
      "(utcoffset (rc_retrieved_at r) = None) = (utcoffset now = None)"
      by (auto simp: dt_le_def split: if_splits)
    moreover have "instant (rc_retrieved_at r) \<le> instant later" using Cons.prems(1) assms(2) by simp
    ultimately show ?thesis using True Cons.IH [of rest] Cons.prems(1) assms(3,4)
      by (auto simp: dt_le_def)
  qed (use Cons in simp)
qed simp

lemma blockers_free:
  "list_all (opt_all (\<lambda>v. utcoffset v \<noteq> None \<and> instant v \<le> instant now)) vs \<Longrightarrow> utcoffset now \<noteq> None \<Longrightarrow>
     blockers now vs = Inr []"
  by (induction now vs rule: blockers.induct) (auto simp: dt_less_def)

text \<open>Rows of the store that are still in the window at a later time, seen from the sorted window.\<close>

lemma sorted_suffix_count:
  assumes "sorted (map f xs)" "i < length xs" "\<And>x. P x \<Longrightarrow> f (xs ! i) < (f x :: 'a :: linorder)"
  shows "length (filter P xs) \<le> length xs - Suc i"
proof -
  have "filter P xs = filter P (take (Suc i) xs) @ filter P (drop (Suc i) xs)"
    by (metis append_take_drop_id filter_append)
  moreover have "filter P (take (Suc i) xs) = []"
  proof -
    have "\<not> P x" if x: "x \<in> set (take (Suc i) xs)" for x
    proof -
      obtain j where j: "j \<le> i" "x = xs ! j"
        using x assms(2) by (auto simp: in_set_conv_nth less_Suc_eq_le)
      then have "f x \<le> f (xs ! i)"
        using sorted_nth_mono [OF assms(1), of j i] assms(2) by simp
      then show ?thesis using assms(3) [of x] by auto
    qed
    then show ?thesis by (simp add: filter_empty_conv)
  qed
  moreover have "length (filter P (drop (Suc i) xs)) \<le> length xs - Suc i"
    by (metis length_drop length_filter_le)
  ultimately show ?thesis by simp
qed

lemma window_shrinks:
  assumes "stored_before (instant now) st" "clock_ok now" "clock_ok later" "instant now \<le> instant later"
    "1 \<le> requests_per_minute policy"
    "opt_all (\<lambda>b. instant b \<le> instant later) (rate_limit_until policy (window_rows src now st))"
  shows "int (length (window_rows src later st)) < requests_per_minute policy"
proof -
  let ?R = "window_rows src now st" and ?n = "requests_per_minute policy"
  note w = window_rows_instants [OF assms(1,2), of src]
  have before: "r \<in> set st \<Longrightarrow> is_utc (reserved_at r) \<and> datetime_ok (reserved_at r) \<and> instant (reserved_at r) \<le> instant now"
    for r using assms(1) by (simp add: stored_before_def list_all_iff)
  have sub: "in_window src (instant later) r \<longleftrightarrow> in_window src (instant now) r \<and> instant later - minute_us < instant (reserved_at r)"
    if "r \<in> set st" for r using before [OF that] assms(4) by (auto simp: in_window_def)
  have "length (window_rows src later st) = length (filter (in_window src (instant later)) st)"
    by (simp add: window_rows_instants [OF assms(1,3)])
  also have "\<dots> = length (filter (\<lambda>r. instant later - minute_us < instant (reserved_at r)) (filter (in_window src (instant now)) st))"
    using sub by (simp add: conj_commute cong: filter_cong)
  also have "\<dots> = size (mset (filter (\<lambda>r. instant later - minute_us < instant (reserved_at r)) ?R))"
    by (simp add: w filter_filter_mset flip: size_mset)
  finally have len: "length (window_rows src later st) =
      length (filter (\<lambda>r. instant later - minute_us < instant (reserved_at r)) ?R)" by (simp only: size_mset)
  show ?thesis
  proof (cases "?n \<le> int (length ?R)")
    case True
    let ?i = "nat (int (length ?R) - ?n)"
    have i: "?i < length ?R" "int (length ?R - Suc ?i) = ?n - 1" using True assms(5) by linarith+
    have mem: "r \<in> set ?R \<Longrightarrow> r \<in> set st" for r by (auto simp: w)
    have "instant (reserved_at (?R ! ?i)) \<le> instant later - minute_us"
      using assms(6) True by (simp add: rate_limit_until_def)
    moreover have "sorted (map (\<lambda>r. instant (reserved_at r)) ?R)"
    proof -
      have "sorted (map (\<lambda>r. isoformat (reserved_at r)) ?R)" by (simp add: w)
      then show ?thesis
        unfolding sorted_iff_nth_mono_less using before mem
        by (simp add: isoformat_less(2) nth_mem)
    qed
    ultimately have "length (filter (\<lambda>r. instant later - minute_us < instant (reserved_at r)) ?R) \<le> length ?R - Suc ?i"
      using sorted_suffix_count [of "\<lambda>r. instant (reserved_at r)" ?R ?i
          "\<lambda>r. instant later - minute_us < instant (reserved_at r)"] i(1) by fastforce
    then show ?thesis using len i(2) by linarith
  next
    case False
    then show ?thesis using len length_filter_le [of "\<lambda>r. instant later - minute_us < instant (reserved_at r)" ?R]
      by linarith
  qed
qed


text \<open>What a decision with a next allowed time says: every earlier guard passed, and the retry backoff or
  the rate limit blocked the slot.\<close>

lemma reserve_blocked:
  assumes "reserve net td snapshot q rcpts now fresh st = Inr (st', d)" "next_allowed_at d = Some next"
  obtains ms backoff b rest where
    "\<not> (sq_policy_version q \<noteq> ps_version snapshot \<or> sq_policy_hash q \<noteq> ps_hash snapshot)"
    "access_status (ps_policy snapshot) = APPROVED" "\<not> max_attempts (ps_policy snapshot) < sq_attempt q"
    "validate_source_request net (ps_policy snapshot) (sq_request_url q) (sq_request_method q) = Inr ()"
    "matching_receipts (ps_policy snapshot) q now rcpts = Inr ms"
    "retry_backoff td (ps_policy snapshot) q ms = Inr backoff"
    "\<not> list_ex (\<lambda>r. re_source_id r = sp_source_id (ps_policy snapshot) \<and> re_request_key r = sq_request_key q
      \<and> re_attempt r = sq_attempt q) st"
    "blockers now [backoff, rate_limit_until (ps_policy snapshot)
      (window_rows (sp_source_id (ps_policy snapshot)) now st)] = Inr (b # rest)"
    "next = latest_of b rest"
proof -
  let ?p = "ps_policy snapshot"
  let ?rl = "rate_limit_until ?p (window_rows (sp_source_id ?p) now st)"
  have pre: "\<not> (sq_policy_version q \<noteq> ps_version snapshot \<or> sq_policy_hash q \<noteq> ps_hash snapshot)"
    "access_status ?p = APPROVED" "\<not> max_attempts ?p < sq_attempt q"
    using assms by (auto simp: reserve_def Let_def deny_def split: if_splits sum.splits request_error.splits)
  have val: "validate_source_request net ?p (sq_request_url q) (sq_request_method q) = Inr ()"
    using assms pre by (auto simp: reserve_def Let_def deny_def split: sum.splits request_error.splits)
  obtain ms where ms: "matching_receipts ?p q now rcpts = Inr ms"
    "(case retry_backoff td ?p q ms of Inl reason \<Rightarrow> return (st, deny reason)
      | Inr backoff \<Rightarrow> reserve_slot net snapshot q backoff now fresh st) = Inr (st', d)"
    using assms(1) pre val by (auto simp: reserve_def Let_def)
  obtain backoff where rb: "retry_backoff td ?p q ms = Inr backoff"
    and slot: "reserve_slot net snapshot q backoff now fresh st = Inr (st', d)"
    using ms(2) assms(2) by (auto simp: deny_def split: sum.splits)
  have new: "\<not> list_ex (\<lambda>r. re_source_id r = sp_source_id ?p \<and> re_request_key r = sq_request_key q
      \<and> re_attempt r = sq_attempt q) st"
    using slot assms(2) by (auto simp: reserve_slot_def Let_def deny_def)
  obtain bs where bs: "blockers now [backoff, ?rl] = Inr bs"
    using slot new by (auto simp: reserve_slot_def Let_def)
  obtain b rest where br: "bs = b # rest"
    using slot new bs assms(2) by (cases bs) (auto simp: reserve_slot_def Let_def)
  have "next = latest_of b rest"
    using slot new bs br assms(2) by (auto simp: reserve_slot_def Let_def blocked_until_def)
  then show ?thesis using that pre val ms(1) rb new bs br by simp
qed


lemma reserve_blocked_later:
  assumes "reserve net td snapshot q rcpts now fresh st = Inr (st', d)" "next_allowed_at d = Some next"
  shows "instant now < instant next"
proof -
  obtain backoff b rest where
    bs: "blockers now [backoff, rate_limit_until (ps_policy snapshot)
      (window_rows (sp_source_id (ps_policy snapshot)) now st)] = Inr (b # rest)" and nx: "next = latest_of b rest"
    by (rule reserve_blocked [OF assms])
  have "instant now < instant b"
    using bs by (cases backoff; cases "rate_limit_until (ps_policy snapshot)
      (window_rows (sp_source_id (ps_policy snapshot)) now st)") (auto simp: dt_less_def split: if_splits)
  then show ?thesis using latest_of_ge [of b rest] nx by simp
qed

text \<open>C11. A request that is put off is not starved: when the decision says when it is next allowed, the same
  request is granted at any time from then on, if no other reservation and no newer receipt came
  in between.\<close>

theorem blocked_request_granted_later:
  assumes "scheduler_run net td src n t st" "t \<le> instant now" "clock_ok now"
    "reserve net td snapshot q rcpts now fresh st = Inr (st', d)" "next_allowed_at d = Some next"
    "requests_per_minute (ps_policy snapshot) \<in> {1..600}"
    "list_all (\<lambda>r. instant (rc_retrieved_at r) \<le> instant now) rcpts"
    "clock_ok later" "instant next \<le> instant later"
    "''bp_req_'' @ fresh' \<notin> set (map reservation_id st)"
  shows "instant now < instant next \<and> reserve net td snapshot q rcpts later fresh' st =
    Inr (st @ [new_reservation net snapshot q later fresh'],
      \<lparr>allowed = True, block_reason = None, next_allowed_at = None, retry_after_seconds = 0,
       granted = Some (new_reservation net snapshot q later fresh')\<rparr>)"
proof -
  let ?p = "ps_policy snapshot"
  have aware: "utcoffset now \<noteq> None" "utcoffset later \<noteq> None"
    using assms(3,8) by (simp_all add: clock_ok_def is_utc_def)
  have before: "stored_before (instant now) st"
    using scheduler_run_stored [OF assms(1)] assms(2) by (auto simp: stored_before_def list_all_iff)
  obtain ms backoff b rest where pre:
    "\<not> (sq_policy_version q \<noteq> ps_version snapshot \<or> sq_policy_hash q \<noteq> ps_hash snapshot)"
    "access_status ?p = APPROVED" "\<not> max_attempts ?p < sq_attempt q"
    "validate_source_request net ?p (sq_request_url q) (sq_request_method q) = Inr ()"
    and ms: "matching_receipts ?p q now rcpts = Inr ms" and rb: "retry_backoff td ?p q ms = Inr backoff"
    and new: "\<not> list_ex (\<lambda>r. re_source_id r = sp_source_id ?p \<and> re_request_key r = sq_request_key q
      \<and> re_attempt r = sq_attempt q) st"
    and bs: "blockers now [backoff, rate_limit_until ?p (window_rows (sp_source_id ?p) now st)] = Inr (b # rest)"
    and nx: "next = latest_of b rest"
    by (rule reserve_blocked [OF assms(4,5)])
  have first: "instant now < instant next" by (rule reserve_blocked_later [OF assms(4,5)])
  have free: "opt_all (\<lambda>v. instant v \<le> instant later) x" if "x \<in> set [backoff, rate_limit_until ?p (window_rows (sp_source_id ?p) now st)]" for x
  proof (cases x)
    case (Some v)
    show ?thesis
    proof (cases "instant now < instant v")
      case True
      then have "v \<in> set (b # rest)" using blockers_some [OF bs] that Some by blast
      then have "instant v \<le> instant next" using latest_of_ge [of b rest] nx by auto
      then show ?thesis using Some assms(9) by simp
    qed (use Some first assms(9) in simp)
  qed simp
  have lt: "instant now \<le> instant later" using first assms(9) by simp
  have sel: "matching_receipts ?p q later rcpts = Inr ms"
    using ms(1) select_receipts_later [OF assms(7) lt aware] by (auto simp: matching_receipts_def)
  have "int (length (window_rows (sp_source_id ?p) later st)) < requests_per_minute ?p"
    by (rule window_shrinks [OF before assms(3,8) lt]) (use assms(6) free in auto)
  then have rl: "rate_limit_until ?p (window_rows (sp_source_id ?p) later st) = None"
    by (simp add: rate_limit_until_def)
  have "opt_all (\<lambda>v. utcoffset v \<noteq> None) backoff"
    using bs aware by (cases backoff) (auto simp: dt_less_def split: if_splits)
  then have "blockers later [backoff, None] = Inr []"
    using free [of backoff] by (intro blockers_free aware) (cases backoff; simp)
  then have "reserve_slot net snapshot q backoff later fresh' st =
      Inr (st @ [new_reservation net snapshot q later fresh'],
        \<lparr>allowed = True, block_reason = None, next_allowed_at = None, retry_after_seconds = 0,
         granted = Some (new_reservation net snapshot q later fresh')\<rparr>)"
    using new assms(10) by (simp add: reserve_slot_def Let_def rl insert_reservation_def list_ex_iff)
      (auto simp: new_reservation_def intro: rev_image_eqI)
  then show ?thesis using first pre sel rb by (simp add: reserve_def)
qed


section \<open>A concrete scheduler\<close>

definition demo_net :: net_library where
  "demo_net = \<lparr>hosts_lib = demo_lib, upper_text = (\<lambda>s. s), lower_text = (\<lambda>s. s),
     urlsplit = (\<lambda>u. Inr \<lparr>url_scheme = ''https'', url_username = None, url_password = None, url_fragment = [],
       url_port = Some None, url_hostname = Some ''a.org''\<rparr>), ip_is_global = (\<lambda>_. None)\<rparr>"

definition demo_policy_snapshot :: policy_snapshot where
  "demo_policy_snapshot = \<lparr>ps_snapshot_id = ''s'', ps_source_id = ''src'', ps_version = 1,
     ps_policy = demo_policy\<lparr>requests_per_minute := 1\<rparr>, ps_stored_at = demo_time, ps_previous_hash = None,
     ps_hash = ''h''\<rparr>"

definition demo_reservation_request :: "string \<Rightarrow> reservation_request" where
  "demo_reservation_request key = \<lparr>sq_policy_version = 1, sq_policy_hash = ''h'', sq_request_key = key,
     sq_request_url = ''https://a.org/x'', sq_request_method = ''GET'', sq_attempt = 1\<rparr>"

definition demo_clock :: "int \<Rightarrow> datetime" where
  "demo_clock s = \<lparr>wall = (3600 + s) * us_per_second, utcoffset = Some 0\<rparr>"

lemma demo_clock_ok: "0 \<le> s \<Longrightarrow> s < 1000 \<Longrightarrow> clock_ok (demo_clock s)"
  by (simp add: clock_ok_def is_utc_def datetime_ok_def demo_clock_def add_us_def minute_us_def max_wall_def
      us_per_day_def us_per_second_def)

lemma demo_instant [simp]: "instant (demo_clock s) = (3600 + s) * us_per_second"
  by (simp add: demo_clock_def instant_def)

lemma demo_permitted: "validate_source_request demo_net (ps_policy demo_policy_snapshot) u ''GET'' = Inr ()"
  by (simp add: validate_source_request_def demo_net_def host_violation_def normalize_source_host_def
      demo_lib_def demo_policy_snapshot_def demo_policy_def rstrip_char_def)

definition demo_reservation :: reservation where
  "demo_reservation = new_reservation demo_net demo_policy_snapshot (demo_reservation_request ''k'') (demo_clock 0) ''0''"

lemma demo_policy_facts [simp]:
  "access_status (ps_policy demo_policy_snapshot) = APPROVED" "max_attempts (ps_policy demo_policy_snapshot) = 3"
  "requests_per_minute (ps_policy demo_policy_snapshot) = 1" "sp_source_id (ps_policy demo_policy_snapshot) = ''src''"
  "ps_version demo_policy_snapshot = 1" "ps_hash demo_policy_snapshot = ''h''"
  by (simp_all add: demo_policy_snapshot_def demo_policy_def)

lemma demo_request_fields [simp]:
  "sq_policy_version (demo_reservation_request key) = 1" "sq_policy_hash (demo_reservation_request key) = ''h''"
  "sq_request_key (demo_reservation_request key) = key" "sq_attempt (demo_reservation_request key) = 1"
  "sq_request_method (demo_reservation_request key) = ''GET''"
  by (simp_all add: demo_reservation_request_def)

lemma demo_reserved:
  "reserve demo_net (\<lambda>x. 0) demo_policy_snapshot (demo_reservation_request ''k'') [] (demo_clock 0) ''0'' [] =
     Inr ([demo_reservation], \<lparr>allowed = True, block_reason = None, next_allowed_at = None,
       retry_after_seconds = 0, granted = Some demo_reservation\<rparr>)"
  by (simp add: reserve_def demo_permitted matching_receipts_def retry_backoff_def reserve_slot_def Let_def
      window_rows_def rate_limit_until_def insert_reservation_def demo_reservation_def)

lemma demo_scheduler_run: "scheduler_run demo_net (\<lambda>x. 0) ''src'' 1 (instant (demo_clock 0)) [demo_reservation]"
  by (rule scheduler_run.step [OF scheduler_run.init [of _ _ _ _ 0] demo_reserved])
    (simp_all add: demo_clock_ok us_per_second_def)

lemma reservation_justified_witness:
  "request_permitted demo_net (ps_policy demo_policy_snapshot) (sq_request_url (demo_reservation_request ''k''))"
  using reservation_justified [OF demo_reserved] by simp

lemma rate_limit_respected_witness:
  "int (length (filter (in_window ''src'' (instant (demo_clock 0))) [demo_reservation])) \<le> 1"
  using rate_limit_respected [OF demo_scheduler_run] by simp

lemma demo_reservation_fields:
  "re_source_id demo_reservation = ''src''" "re_request_key demo_reservation = ''k''"
  "reserved_at demo_reservation = demo_clock 0" "reservation_id demo_reservation = ''bp_req_0''"
  by (simp_all add: demo_reservation_def new_reservation_def)

lemma demo_blocked:
  "reserve demo_net (\<lambda>x. 0) demo_policy_snapshot (demo_reservation_request ''l'') [] (demo_clock 10) ''1''
     [demo_reservation] = Inr ([demo_reservation], blocked_until None (demo_clock 60) (demo_clock 10))"
proof -
  have "window_rows ''src'' (demo_clock 10) [demo_reservation] = [demo_reservation]"
    using scheduler_run_stored [OF demo_scheduler_run] demo_clock_ok [of 10]
    by (subst window_rows_instants)
      (auto simp: in_window_def demo_reservation_fields minute_us_def us_per_second_def)
  moreover have "add_us (demo_clock 0) minute_us = demo_clock 60"
    by (simp add: demo_clock_def add_us_def minute_us_def us_per_second_def)
  moreover have "dt_less (demo_clock 10) (demo_clock 60) = Inr True"
    by (simp add: dt_less_def demo_clock_def instant_def us_per_second_def)
  ultimately show ?thesis
    by (simp add: reserve_def demo_permitted matching_receipts_def retry_backoff_def reserve_slot_def Let_def
        rate_limit_until_def demo_reservation_fields)
qed

lemma blocked_request_granted_later_witness:
  "\<exists>st' d. reserve demo_net (\<lambda>x. 0) demo_policy_snapshot (demo_reservation_request ''l'') [] (demo_clock 60) ''2''
     [demo_reservation] = Inr (st', d) \<and> allowed d"
proof -
  have "reserve demo_net (\<lambda>x. 0) demo_policy_snapshot (demo_reservation_request ''l'') [] (demo_clock 60) ''2''
      [demo_reservation] = Inr ([demo_reservation] @ [new_reservation demo_net demo_policy_snapshot
        (demo_reservation_request ''l'') (demo_clock 60) ''2''],
      \<lparr>allowed = True, block_reason = None, next_allowed_at = None, retry_after_seconds = 0,
       granted = Some (new_reservation demo_net demo_policy_snapshot
        (demo_reservation_request ''l'') (demo_clock 60) ''2'')\<rparr>)"
    by (rule conjunct2 [OF blocked_request_granted_later [OF demo_scheduler_run _ _ demo_blocked, of "demo_clock 60"]])
      (simp_all add: demo_clock_ok blocked_until_def demo_reservation_fields us_per_second_def)
  then show ?thesis by auto
qed

end
