(* ===== verification/Source_Transport.thy ===== *)
theory Source_Transport
  imports Source_Scheduler
begin

text \<open>
  src/ballotproof/source_transport.py: a reservation is checked against the current policy, claimed in the table of
  executions, handed to an injected transport, and its response captured. Transports are given by the record
  \<open>transport\<close>; what they are sent is the list \<open>te_sent\<close> of the state, an effect of the code that its
  tables do not hold. \<open>upper\<close> is \<open>str.upper\<close> and \<open>policy_text\<close> is pydantic's
  \<open>model_dump_json\<close> of a policy, as in \<open>Source_Capture\<close>.
\<close>

section \<open>Transports\<close>

record transport_request =
  tq_reservation_id :: string
  tq_source_id :: string
  tq_policy_hash :: string
  tq_request_url :: string
  tq_request_method :: string
  tq_request_key :: string
  tq_attempt :: int
  tq_allowed_hosts :: "string list"
  tq_timeout_seconds :: rat
  tq_max_bytes :: int

record response_head =
  rh_status_code :: int
  rh_received_at :: datetime
  rh_media_type :: "string option"
  rh_etag :: "string option"
  rh_last_modified :: "string option"

text \<open>A buffered body, or the blocks the reads of a stream return.\<close>

datatype transport_response =
    Buffered response_head "byte list"
  | Streaming response_head "byte list list"

fun response_head_of :: "transport_response \<Rightarrow> response_head" where
  "response_head_of (Buffered h body) = h"
| "response_head_of (Streaming h blocks) = h"

text \<open>The attributes are \<open>getattr(transport, name, None)\<close>, \<open>ts_identity\<close> the qualified name of its class.\<close>

record transport =
  ts_id :: "string option"
  ts_version :: "string option"
  ts_config_hash :: "string option"
  ts_identity :: string
  ts_send :: "transport_request \<Rightarrow> transport_response result"

datatype provenance_kind = Declared | Compatibility

definition provenance_kind_text :: "provenance_kind \<Rightarrow> string" where
  "provenance_kind_text k = (case k of Declared \<Rightarrow> ''declared'' | Compatibility \<Rightarrow> ''compatibility'')"

record transport_provenance =
  tp_id :: string
  tp_version :: string
  tp_config_hash :: string
  tp_kind :: provenance_kind

datatype execution_status = Claimed | Completed | Transport_Error | Capture_Error

record transport_execution =
  ex_reservation_id :: string
  ex_source_id :: string
  ex_request_key :: string
  ex_attempt :: int
  ex_policy_hash :: string
  ex_provenance :: "transport_provenance option"
  ex_status :: execution_status
  ex_started_at :: datetime
  ex_completed_at :: "datetime option"
  ex_receipt_id :: "string option"
  ex_error_code :: "string option"

definition transport_request_ok :: "transport_request \<Rightarrow> bool" where
  "transport_request_ok q = (is_sha256_hex (tq_policy_hash q) \<and> 1 \<le> tq_attempt q \<and> tq_timeout_seconds q \<in> {1..120}
     \<and> 1 \<le> tq_max_bytes q)"

text \<open>The check of \<open>StreamingTransportResponse.__post_init__\<close>.\<close>

definition streaming_response :: "response_head \<Rightarrow> byte list list \<Rightarrow> transport_response result" where
  "streaming_response h blocks = guarded
     [(\<not> (100 \<le> rh_status_code h \<and> rh_status_code h \<le> 599),
       ValueError ''streaming response status_code must be a valid HTTP status''),
      (\<not> opt_all (\<lambda>s. py_len s \<le> 256) (rh_media_type h), ValueError ''streaming response media_type exceeds 256 characters''),
      (\<not> opt_all (\<lambda>s. py_len s \<le> 1000) (rh_etag h), ValueError ''streaming response etag exceeds 1000 characters''),
      (\<not> opt_all (\<lambda>s. py_len s \<le> 1000) (rh_last_modified h),
       ValueError ''streaming response last_modified exceeds 1000 characters'')]
     (Streaming h blocks)"

text \<open>The reads of \<open>_BytesReader\<close>, \<open>n\<close> bytes each, up to the empty one.\<close>

function bytes_reader :: "nat \<Rightarrow> byte list \<Rightarrow> byte list list" where
  "bytes_reader n body = (if body = [] \<or> n = 0 then [] else take n body # bytes_reader n (drop n body))"
  by pat_completeness auto
termination by (relation "measure (\<lambda>(n, body). length body)") auto

declare bytes_reader.simps [simp del]

definition read_size :: nat where
  "read_size = 1024 * 1024"

definition response_stream :: "transport_response \<Rightarrow> byte list list" where
  "response_stream r = (case r of Buffered h body \<Rightarrow> bytes_reader read_size body | Streaming h blocks \<Rightarrow> blocks)"

definition transport_provenance_of :: "transport \<Rightarrow> transport_provenance result" where
  "transport_provenance_of t = (case (ts_id t, ts_version t, ts_config_hash t) of
       (Some i, Some v, Some h) \<Rightarrow>
         if len_between 1 256 i \<and> id128 v \<and> is_sha256_hex h
         then return \<lparr>tp_id = i, tp_version = v, tp_config_hash = h, tp_kind = Declared\<rparr> else raise field_error
     | (None, None, None) \<Rightarrow>
         if len_between 1 256 (ts_identity t)
         then return \<lparr>tp_id = ts_identity t, tp_version = ''unversioned'',
           tp_config_hash = sha256_bytes (utf8 (''compatibility:'' @ ts_identity t @ '':unversioned'')),
           tp_kind = Compatibility\<rparr>
         else raise field_error
     | _ \<Rightarrow> raise (ValueError ''transport provenance attributes must be supplied together''))"

section \<open>Claiming\<close>

definition find_execution :: "string \<Rightarrow> transport_execution list \<Rightarrow> transport_execution result" where
  "find_execution rid rows = (case find (\<lambda>x. ex_reservation_id x = rid) rows of
       None \<Rightarrow> raise (KeyError ''Unknown reservation_id: '') | Some x \<Rightarrow> return x)"

definition request_error_of :: "request_error \<Rightarrow> py_error" where
  "request_error_of e = (case e of Violation _ \<Rightarrow> ValueError ''source request violates policy'' | OtherError err \<Rightarrow> err)"

definition validate_binding :: "net_library \<Rightarrow> policy_store \<Rightarrow> policy_snapshot \<Rightarrow> reservation \<Rightarrow> policy_snapshot result" where
  "validate_binding net policies s r =
     (case latest_policy (hosts_lib net) policies (re_source_id r) of
        Inl (KeyError _) \<Rightarrow> raise (PermissionError ''source policy is missing at transport execution time'')
      | Inl e \<Rightarrow> raise e
      | Inr current \<Rightarrow> bind_result (guarded
          [(access_status (ps_policy current) \<noteq> APPROVED,
            PermissionError ''source policy is not approved for transport execution''),
           (ps_source_id s \<noteq> ps_source_id current \<or> ps_version s \<noteq> ps_version current \<or> ps_hash s \<noteq> ps_hash current,
            PermissionError ''source policy snapshot is no longer current''),
           (re_source_id r \<noteq> sp_source_id (ps_policy current),
            ValueError ''reservation source_id does not match current policy snapshot''),
           (re_policy_version r \<noteq> ps_version current,
            PermissionError ''reservation policy version is no longer current''),
           (re_policy_hash r \<noteq> ps_hash current, PermissionError ''reservation policy hash is no longer current''),
           (max_attempts (ps_policy current) < re_attempt r,
            ValueError ''reservation attempt exceeds source policy max_attempts'')] ())
          (\<lambda>_. case validate_source_request net (ps_policy current) (re_request_url r) (re_request_method r) of
             Inl e \<Rightarrow> raise (request_error_of e) | Inr _ \<Rightarrow> return current))"

definition claim :: "reservation \<Rightarrow> transport_provenance \<Rightarrow> datetime \<Rightarrow> transport_execution list
    \<Rightarrow> transport_execution list result" where
  "claim r prov started rows = guarded
     [(list_ex (\<lambda>x. ex_reservation_id x = reservation_id r) rows, ValueError ''reservation has already been consumed'')]
     (rows @ [\<lparr>ex_reservation_id = reservation_id r, ex_source_id = re_source_id r, ex_request_key = re_request_key r,
        ex_attempt = re_attempt r, ex_policy_hash = re_policy_hash r, ex_provenance = Some prov, ex_status = Claimed,
        ex_started_at = started, ex_completed_at = None, ex_receipt_id = None, ex_error_code = None\<rparr>])"

definition finish :: "string \<Rightarrow> execution_status \<Rightarrow> string option \<Rightarrow> string option \<Rightarrow> datetime
    \<Rightarrow> transport_execution list \<Rightarrow> transport_execution list" where
  "finish rid status receipt err now rows = map (\<lambda>x. if ex_reservation_id x = rid
     then x\<lparr>ex_status := status, ex_completed_at := Some now, ex_receipt_id := receipt, ex_error_code := err\<rparr> else x) rows"

section \<open>Executing\<close>

record transport_state =
  te_rows :: "transport_execution list"
  te_captures :: capture_store
  te_sent :: "transport_request list"

definition empty_transport :: transport_state where
  "empty_transport = \<lparr>te_rows = [], te_captures = empty_captures, te_sent = []\<rparr>"

text \<open>A claimed execution: what the rest of the call keeps.\<close>

record prepared =
  pe_reservation :: reservation
  pe_snapshot :: policy_snapshot
  pe_provenance :: transport_provenance
  pe_max_bytes :: int
  pe_request :: transport_request

definition transport_request_of :: "reservation \<Rightarrow> policy_snapshot \<Rightarrow> int \<Rightarrow> transport_request" where
  "transport_request_of r current limit =
     \<lparr>tq_reservation_id = reservation_id r, tq_source_id = re_source_id r, tq_policy_hash = ps_hash current,
      tq_request_url = re_request_url r, tq_request_method = re_request_method r, tq_request_key = re_request_key r,
      tq_attempt = re_attempt r, tq_allowed_hosts = allowed_hosts (ps_policy current),
      tq_timeout_seconds = request_timeout_seconds (ps_policy current), tq_max_bytes = limit\<rparr>"

text \<open>A request that its model refuses is noticed after the claim, which stays.\<close>

definition prepare :: "net_library \<Rightarrow> policy_store \<Rightarrow> policy_snapshot \<Rightarrow> reservation \<Rightarrow> transport \<Rightarrow> int option
    \<Rightarrow> datetime \<Rightarrow> transport_state \<Rightarrow> transport_state \<times> prepared result" where
  "prepare net policies s r t max_bytes started st =
     (case bind_result (validate_binding net policies s r) (\<lambda>current.
         bind_result (transport_provenance_of t) (\<lambda>prov.
         bind_result (claim r prov started (te_rows st)) (\<lambda>rows. return (current, prov, rows)))) of
        Inl e \<Rightarrow> (st, raise e)
      | Inr (current, prov, rows) \<Rightarrow>
          let bound = max_response_bytes (ps_policy current);
              limit = (case max_bytes of None \<Rightarrow> bound | Some m \<Rightarrow> min bound m);
              q = transport_request_of r current limit
          in (st\<lparr>te_rows := rows\<rparr>,
              if transport_request_ok q
              then return \<lparr>pe_reservation = r, pe_snapshot = current, pe_provenance = prov, pe_max_bytes = limit,
                pe_request = q\<rparr>
              else raise field_error))"

definition send_prepared :: "prepared \<Rightarrow> transport_state \<Rightarrow> transport_state" where
  "send_prepared p st = st\<lparr>te_sent := te_sent st @ [pe_request p]\<rparr>"

definition capture_request_of :: "prepared \<Rightarrow> response_head \<Rightarrow> capture_request" where
  "capture_request_of p h = (let r = pe_reservation p; prov = pe_provenance p in
     \<lparr>cq_source_id = re_source_id r, cq_request_url = re_request_url r, cq_request_method = re_request_method r,
      cq_retrieved_at = rh_received_at h, cq_status_code = rh_status_code h, cq_media_type = rh_media_type h,
      cq_etag = rh_etag h, cq_last_modified = rh_last_modified h, cq_attempt = re_attempt r,
      cq_request_key = Some (re_request_key r), cq_reservation_id = Some (reservation_id r),
      cq_transport_id = Some (tp_id prov), cq_transport_version = Some (tp_version prov),
      cq_transport_config_hash = Some (tp_config_hash prov),
      cq_transport_provenance_kind = Some (provenance_kind_text (tp_kind prov))\<rparr>)"

definition capture_response :: "(string \<Rightarrow> string) \<Rightarrow> (source_policy \<Rightarrow> string) \<Rightarrow> prepared \<Rightarrow> transport_response
    \<Rightarrow> datetime \<Rightarrow> string \<Rightarrow> capture_store \<Rightarrow> capture_store \<times> captured_response result" where
  "capture_response upper policy_text p response now fresh cs =
     (let q = capture_request_of p (response_head_of response) in
      if \<not> capture_request_ok q then (cs, raise field_error)
      else capture upper policy_text (response_stream response) (ps_policy (pe_snapshot p)) q
        (Some (ps_hash (pe_snapshot p))) (pe_max_bytes p) now fresh cs)"

text \<open>The transport has answered or raised: record the outcome.\<close>

definition conclude :: "(string \<Rightarrow> string) \<Rightarrow> (source_policy \<Rightarrow> string) \<Rightarrow> prepared \<Rightarrow> transport_response result
    \<Rightarrow> datetime \<Rightarrow> string \<Rightarrow> datetime \<Rightarrow> transport_state \<Rightarrow> transport_state \<times> captured_response result" where
  "conclude upper policy_text p answer stored fresh finished st =
     (let rid = reservation_id (pe_reservation p) in
      case answer of
        Inl e \<Rightarrow> (st\<lparr>te_rows := finish rid Transport_Error None (Some ''transport_exception'') finished (te_rows st)\<rparr>,
          raise e)
      | Inr response \<Rightarrow>
          (case capture_response upper policy_text p response stored fresh (te_captures st) of
             (cs, Inl e) \<Rightarrow> (st\<lparr>te_captures := cs,
               te_rows := finish rid Capture_Error None (Some ''capture_exception'') finished (te_rows st)\<rparr>, raise e)
           | (cs, Inr captured) \<Rightarrow> (st\<lparr>te_captures := cs,
               te_rows := finish rid Completed (Some (receipt_id (captured_receipt captured))) None finished (te_rows st)\<rparr>,
               return captured)))"

record execution_clock =
  ec_started :: datetime
  ec_stored :: datetime
  ec_fresh :: string
  ec_finished :: datetime

definition execute :: "net_library \<Rightarrow> (source_policy \<Rightarrow> string) \<Rightarrow> policy_store \<Rightarrow> policy_snapshot \<Rightarrow> reservation
    \<Rightarrow> transport \<Rightarrow> int option \<Rightarrow> execution_clock \<Rightarrow> transport_state \<Rightarrow> transport_state \<times> captured_response result" where
  "execute net policy_text policies s r t max_bytes clk st =
     (case prepare net policies s r t max_bytes (ec_started clk) st of
        (st1, Inl e) \<Rightarrow> (st1, raise e)
      | (st1, Inr p) \<Rightarrow> conclude (upper_text net) policy_text p (ts_send t (pe_request p)) (ec_stored clk)
          (ec_fresh clk) (ec_finished clk) (send_prepared p st1))"
section \<open>Interleaved executions\<close>

text \<open>Processes claim, send and conclude in any order and may stop anywhere; policies are appended in between. The
  lists are the claimed executions that have not sent yet, and those that wait for an answer.\<close>

inductive transport_run :: "net_library \<Rightarrow> (source_policy \<Rightarrow> string) \<Rightarrow> policy_store \<Rightarrow> transport_state
    \<Rightarrow> prepared list \<Rightarrow> prepared list \<Rightarrow> bool" for net policy_text where
  init: "transport_run net policy_text empty_policy_store empty_transport [] []"
| policy: "transport_run net policy_text policies st opened waiting \<Longrightarrow>
    append_policy (hosts_lib net) dt fr p now fresh policies = Inr (policies', s) \<Longrightarrow>
    transport_run net policy_text policies' st opened waiting"
| prepare: "transport_run net policy_text policies st opened waiting \<Longrightarrow>
    prepare net policies s r t max_bytes now st = (st', res) \<Longrightarrow>
    transport_run net policy_text policies st' (case res of Inl _ \<Rightarrow> opened | Inr p \<Rightarrow> p # opened) waiting"
| send: "transport_run net policy_text policies st opened waiting \<Longrightarrow> p \<in> set opened \<Longrightarrow>
    transport_run net policy_text policies (send_prepared p st) (remove1 p opened) (p # waiting)"
| conclude: "transport_run net policy_text policies st opened waiting \<Longrightarrow> p \<in> set waiting \<Longrightarrow>
    conclude (upper_text net) policy_text p answer stored fresh finished st = (st', res) \<Longrightarrow>
    transport_run net policy_text policies st' opened (remove1 p waiting)"

text \<open>What the current policy has to say for a request to be sent.\<close>

definition permits_request :: "net_library \<Rightarrow> policy_snapshot \<Rightarrow> transport_request \<Rightarrow> bool" where
  "permits_request net s q \<longleftrightarrow> tq_policy_hash q = ps_hash s \<and> tq_source_id q = ps_source_id s
     \<and> access_status (ps_policy s) = APPROVED \<and> request_permitted net (ps_policy s) (tq_request_url q)
     \<and> tq_attempt q \<in> {1..max_attempts (ps_policy s)} \<and> tq_max_bytes q \<in> {1..max_response_bytes (ps_policy s)}
     \<and> tq_allowed_hosts q = allowed_hosts (ps_policy s)"

definition request_allowed :: "net_library \<Rightarrow> policy_store \<Rightarrow> transport_request \<Rightarrow> bool" where
  "request_allowed net policies q \<longleftrightarrow> list_ex (\<lambda>row. case row_to_snapshot (hosts_lib net) row of
     Inl _ \<Rightarrow> False | Inr s \<Rightarrow> permits_request net s q) policies"

definition completion_backed :: "capture_store \<Rightarrow> transport_execution \<Rightarrow> bool" where
  "completion_backed cs x \<longleftrightarrow> (ex_status x \<noteq> Completed \<or> list_ex (\<lambda>r. ex_receipt_id x = Some (receipt_id r)
     \<and> rc_reservation_id r = Some (ex_reservation_id x)) (receipt_rows cs))"

definition prepared_ok :: "net_library \<Rightarrow> policy_store \<Rightarrow> prepared \<Rightarrow> bool" where
  "prepared_ok net policies p \<longleftrightarrow> request_allowed net policies (pe_request p)
     \<and> tq_reservation_id (pe_request p) = reservation_id (pe_reservation p)"

definition transport_sound :: "net_library \<Rightarrow> policy_store \<Rightarrow> transport_state \<Rightarrow> prepared list \<Rightarrow> prepared list \<Rightarrow> bool" where
  "transport_sound net policies st opened waiting \<longleftrightarrow>
     distinct (map ex_reservation_id (te_rows st))
     \<and> distinct (map (\<lambda>p. reservation_id (pe_reservation p)) opened @ map tq_reservation_id (te_sent st))
     \<and> set (map (\<lambda>p. reservation_id (pe_reservation p)) opened @ map tq_reservation_id (te_sent st))
         \<subseteq> set (map ex_reservation_id (te_rows st))
     \<and> list_all (prepared_ok net policies) (opened @ waiting)
     \<and> list_all (request_allowed net policies) (te_sent st)
     \<and> list_all (completion_backed (te_captures st)) (te_rows st)"

lemma request_allowed_append: "request_allowed net policies q \<Longrightarrow> request_allowed net (policies @ [row]) q"
  by (simp add: request_allowed_def)

lemma latest_policy_stored:
  assumes "latest_policy hosts policies src = Inr s"
  obtains row where "row \<in> set policies" "row_to_snapshot hosts row = Inr s" "ps_source_id s = src"
proof -
  obtain h where h: "map_result (row_to_snapshot hosts) (policy_rows policies src) = Inr h" "h \<noteq> []" "s = last h"
    using assms by (auto simp: latest_policy_def policy_history_def split: if_splits)
  have len: "length (policy_rows policies src) = length h"
    and nth: "\<And>i. i < length h \<Longrightarrow> row_to_snapshot hosts (policy_rows policies src ! i) = Inr (h ! i)"
    using h(1) by (auto simp: map_result_Inr list_all2_conv_all_nth)
  let ?row = "policy_rows policies src ! (length h - 1)"
  have i: "length h - 1 < length h" using h(2) by (cases h) auto
  then have "?row \<in> set (policy_rows policies src)" by (simp add: len)
  then have mem: "?row \<in> set policies" "ps_source_id ?row = src" by (auto simp: policy_rows_def)
  have "row_to_snapshot hosts ?row = Inr s" using nth [OF i] h(2,3) by (simp add: last_conv_nth)
  moreover from this have "ps_source_id s = src" using mem(2) by (auto simp: row_to_snapshot_def split: if_splits)
  ultimately show ?thesis using that mem(1) by blast
qed

lemma validate_binding_Inr:
  assumes "validate_binding net policies s r = Inr current"
  shows "latest_policy (hosts_lib net) policies (re_source_id r) = Inr current"
    "access_status (ps_policy current) = APPROVED" "re_policy_hash r = ps_hash current"
    "re_attempt r \<le> max_attempts (ps_policy current)" "request_permitted net (ps_policy current) (re_request_url r)"
    "ps_hash s = ps_hash current" "ps_version s = ps_version current"
  using assms by (auto simp: validate_binding_def validate_source_request_ok
      split: sum.splits py_error.splits if_splits)

lemma validate_binding_source:
  assumes "validate_binding net policies s r = Inr current"
  shows "ps_source_id s = re_source_id r"
proof -
  have "ps_source_id s = ps_source_id current"
    using assms by (auto simp: validate_binding_def split: sum.splits py_error.splits if_splits)
  then show ?thesis using latest_policy_stored [OF validate_binding_Inr(1) [OF assms]] by metis
qed

lemma prepare_cases:
  assumes "prepare net policies s r t max_bytes now st = (st', res)"
  obtains (refused) e where "st' = st" "res = Inl e"
  | (claimed) current prov rows limit where "validate_binding net policies s r = Inr current"
      "claim r prov now (te_rows st) = Inr rows" "st' = st\<lparr>te_rows := rows\<rparr>" "limit \<le> max_response_bytes (ps_policy current)"
      "res = (if transport_request_ok (transport_request_of r current limit)
         then Inr \<lparr>pe_reservation = r, pe_snapshot = current, pe_provenance = prov, pe_max_bytes = limit,
           pe_request = transport_request_of r current limit\<rparr> else Inl field_error)"
proof (cases "bind_result (validate_binding net policies s r) (\<lambda>current.
         bind_result (transport_provenance_of t) (\<lambda>prov.
         bind_result (claim r prov now (te_rows st)) (\<lambda>rows. return (current, prov, rows))))")
  case (Inl e)
  then show ?thesis using assms refused by (auto simp: prepare_def)
next
  case (Inr c)
  obtain current prov rows where c: "c = (current, prov, rows)" by (cases c)
  show ?thesis
    by (rule claimed [of current prov rows "case max_bytes of None \<Rightarrow> max_response_bytes (ps_policy current)
        | Some m \<Rightarrow> min (max_response_bytes (ps_policy current)) m"])
      (use assms Inr c in \<open>auto simp: prepare_def Let_def split: option.splits\<close>)
qed

lemma claim_Inr:
  assumes "claim r prov now rows = Inr rows'"
  obtains x where "rows' = rows @ [x]" "ex_reservation_id x = reservation_id r" "ex_status x = Claimed"
    "reservation_id r \<notin> ex_reservation_id ` set rows"
proof -
  have "reservation_id r \<notin> ex_reservation_id ` set rows"
    using assms by (force simp: claim_def list_ex_iff split: if_splits)
  then show ?thesis using assms that by (force simp: claim_def split: if_splits)
qed

lemma prepare_sound:
  assumes "transport_sound net policies st opened waiting" "prepare net policies s r t max_bytes now st = (st', res)"
  shows "transport_sound net policies st' (case res of Inl _ \<Rightarrow> opened | Inr p \<Rightarrow> p # opened) waiting"
  using assms(2)
proof (cases rule: prepare_cases)
  case (refused e)
  then show ?thesis using assms(1) by simp
next
  case (claimed current prov rows limit)
  obtain x where x: "rows = te_rows st @ [x]" "ex_reservation_id x = reservation_id r" "ex_status x = Claimed"
    "reservation_id r \<notin> ex_reservation_id ` set (te_rows st)" by (rule claim_Inr [OF claimed(2)])
  note b = validate_binding_Inr [OF claimed(1)]
  obtain row where row: "row \<in> set policies" "row_to_snapshot (hosts_lib net) row = Inr current"
    "ps_source_id current = re_source_id r" by (rule latest_policy_stored [OF b(1)])
  have "permits_request net current (transport_request_of r current limit)"
    if "transport_request_ok (transport_request_of r current limit)"
    using that b claimed(4) row(3)
    by (auto simp: permits_request_def transport_request_ok_def transport_request_of_def)
  then have "request_allowed net policies (transport_request_of r current limit)"
    if "transport_request_ok (transport_request_of r current limit)"
    using that row by (auto simp: request_allowed_def list_ex_iff intro!: bexI [of _ row])
  then show ?thesis
    using assms(1) x by (auto simp: claimed(3,5) transport_sound_def prepared_ok_def completion_backed_def
        transport_request_of_def)
qed

lemma remove1_parts:
  assumes "p \<in> set xs"
  obtains as bs where "xs = as @ p # bs" "remove1 p xs = as @ bs"
  using assms by (metis split_list_first remove1_append remove1.simps(2))

lemma send_sound:
  assumes "transport_sound net policies st opened waiting" "p \<in> set opened"
  shows "transport_sound net policies (send_prepared p st) (remove1 p opened) (p # waiting)"
proof -
  obtain as bs where "opened = as @ p # bs" "remove1 p opened = as @ bs" by (rule remove1_parts [OF assms(2)])
  then show ?thesis using assms(1) by (auto simp: transport_sound_def send_prepared_def prepared_ok_def)
qed

lemma finish_ids [simp]: "map ex_reservation_id (finish rid status receipt err now rows) = map ex_reservation_id rows"
  by (simp add: finish_def)

lemma finish_backed:
  assumes "list_all (completion_backed cs) rows"
    "status \<noteq> Completed \<or> list_ex (\<lambda>r. receipt = Some (receipt_id r) \<and> rc_reservation_id r = Some rid) (receipt_rows cs)"
  shows "list_all (completion_backed cs) (finish rid status receipt err now rows)"
  using assms by (auto simp: finish_def list_all_iff completion_backed_def)

lemma capture_rows:
  assumes "capture upper policy_text stream policy q snap limit now fresh cs = (cs', res)"
  shows "set (receipt_rows cs) \<subseteq> set (receipt_rows cs')"
    "res = Inr c \<Longrightarrow> captured_receipt c \<in> set (receipt_rows cs') \<and> rc_reservation_id (captured_receipt c) = cq_reservation_id q"
  using assms by (cases rule: capture_cases; auto simp: receipt_for_def)+

lemma completion_backed_mono:
  "set (receipt_rows cs) \<subseteq> set (receipt_rows cs') \<Longrightarrow> completion_backed cs x \<Longrightarrow> completion_backed cs' x"
  by (auto simp: completion_backed_def list_ex_iff)

lemma conclude_sound:
  assumes "transport_sound net policies st opened waiting"
    "conclude upper policy_text p answer stored fresh finished st = (st', res)"
  shows "transport_sound net policies st' opened (remove1 p waiting)"
proof -
  let ?rid = "reservation_id (pe_reservation p)"
  have rows: "map ex_reservation_id (te_rows st') = map ex_reservation_id (te_rows st)" "te_sent st' = te_sent st"
    using assms(2) by (auto simp: conclude_def Let_def split: sum.splits prod.splits)
  have "list_all (completion_backed (te_captures st')) (te_rows st')"
  proof (cases answer)
    case (Inl e)
    then show ?thesis using assms by (auto simp: conclude_def transport_sound_def intro!: finish_backed)
  next
    case (Inr response)
    obtain cs r where cap: "capture_response upper policy_text p response stored fresh (te_captures st) = (cs, r)" by fastforce
    have more: "set (receipt_rows (te_captures st)) \<subseteq> set (receipt_rows cs)"
      and new: "\<And>c. r = Inr c \<Longrightarrow> captured_receipt c \<in> set (receipt_rows cs) \<and> rc_reservation_id (captured_receipt c) = Some ?rid"
      using cap capture_rows by (auto simp: capture_response_def Let_def capture_request_of_def split: if_splits)
    have "list_all (completion_backed cs) (te_rows st)"
      using assms(1) completion_backed_mono [OF more] by (auto simp: transport_sound_def list_all_iff)
    then show ?thesis using assms(2) new Inr cap
      by (cases r) (auto simp: conclude_def Let_def list_ex_iff intro!: finish_backed)
  qed
  moreover have "set (opened @ remove1 p waiting) \<subseteq> set (opened @ waiting)" using set_remove1_subset by fastforce
  ultimately show ?thesis using assms(1) rows unfolding transport_sound_def by (auto simp: list_all_iff)
qed

lemma transport_run_sound:
  "transport_run net policy_text policies st opened waiting \<Longrightarrow> transport_sound net policies st opened waiting"
proof (induction rule: transport_run.induct)
  case init
  show ?case by (simp add: transport_sound_def empty_transport_def)
next
  case (policy policies st opened waiting dt fr p now fresh policies' s)
  have "policies' = policies @ [next_policy_row dt fr p now fresh policies]"
    by (rule append_policy_Inr(1) [OF policy(2)])
  then show ?case using policy(3) request_allowed_append
    by (auto simp: transport_sound_def list_all_iff prepared_ok_def)
qed (blast intro: prepare_sound send_sound conclude_sound)+

text \<open>C25. However executions interleave and wherever they stop, a transport is given each reservation at most once, and only
  requests that an approved stored policy version, named by its hash, permits: to an allowed host over HTTPS, within
  its attempts and byte limit. An execution that is recorded as completed has a stored receipt of its reservation.\<close>

theorem requests_sent_once_and_permitted:
  assumes "transport_run net policy_text policies st opened waiting"
  shows "distinct (map tq_reservation_id (te_sent st))
    \<and> list_all (request_allowed net policies) (te_sent st)
    \<and> set (map tq_reservation_id (te_sent st)) \<subseteq> set (map ex_reservation_id (te_rows st))
    \<and> list_all (completion_backed (te_captures st)) (te_rows st)"
  using transport_run_sound [OF assms] by (auto simp: transport_sound_def)

text \<open>\<open>execute\<close> is such a run: prepare, send and conclude.\<close>

lemma execute_run:
  assumes "transport_run net policy_text policies st opened waiting"
    "execute net policy_text policies s r t max_bytes clk st = (st', res)"
  shows "transport_run net policy_text policies st' opened waiting"
proof -
  obtain st1 r1 where p: "prepare net policies s r t max_bytes (ec_started clk) st = (st1, r1)" by fastforce
  note run = transport_run.prepare [OF assms(1) p]
  show ?thesis
  proof (cases r1)
    case (Inl e)
    then show ?thesis using run assms(2) p by (simp add: execute_def)
  next
    case (Inr q)
    have sent: "transport_run net policy_text policies (send_prepared q st1) opened (q # waiting)"
      using transport_run.send [OF run, of q] by (simp add: Inr)
    show ?thesis
      using transport_run.conclude [OF sent, of q] assms(2) p by (simp add: execute_def Inr)
  qed
qed

end
