(* ===== verification/Source_Automation.thy ===== *)
theory Source_Automation
  imports Source_Transport
begin

text \<open>
  src/ballotproof/source_automation.py: plans that fetch a URL of a source at an interval, and the worker that runs
  the plans that are due through the scheduler (\<open>Source_Scheduler\<close>) and the transport executor
  (\<open>Source_Transport\<close>). SQL compares the \<open>isoformat\<close> texts of the times. The clock readings
  and fresh identifiers of a run are a record; dates after year 9999 (OverflowError) are left out.
\<close>

section \<open>Plans and runs\<close>

record automation_request =
  aq_source_id :: string
  aq_policy_version :: int
  aq_policy_hash :: string
  aq_request_url :: string
  aq_request_method :: string
  aq_interval_seconds :: int
  aq_start_at :: "datetime option"

record automation_plan =
  al_plan_id :: string
  al_source_id :: string
  al_policy_version :: int
  al_policy_hash :: string
  al_request_url :: string
  al_request_method :: string
  al_interval_seconds :: int
  al_next_run_at :: datetime
  al_enabled :: bool
  al_created_at :: datetime
  al_updated_at :: datetime

datatype run_status =
    Run_Completed | Run_Deferred | Run_Failed | Run_Policy_Blocked | Run_No_Transport | Run_Ambiguous

record automation_run =
  au_run_id :: string
  au_plan_id :: string
  au_source_id :: string
  au_scheduled_for :: datetime
  au_status :: run_status
  au_started_at :: datetime
  au_completed_at :: datetime
  au_reservation_id :: "string option"
  au_receipt_id :: "string option"
  au_block_reason :: "block_reason option"
  au_error_code :: "string option"

record automation_store =
  as_plans :: "automation_plan list"
  as_runs :: "automation_run list"

definition automation_request_ok :: "(string \<Rightarrow> string) \<Rightarrow> automation_request \<Rightarrow> bool" where
  "automation_request_ok upper q = (id128 (aq_source_id q) \<and> 1 \<le> aq_policy_version q \<and> is_sha256_hex (aq_policy_hash q)
     \<and> len_between 1 16 (aq_request_method q) \<and> aq_interval_seconds q \<in> {60..604800}
     \<and> opt_all (\<lambda>t. utcoffset t \<noteq> None) (aq_start_at q) \<and> upper (aq_request_method q) = ''GET'')"

definition new_plan :: "(string \<Rightarrow> string) \<Rightarrow> automation_request \<Rightarrow> datetime \<Rightarrow> string \<Rightarrow> automation_plan" where
  "new_plan upper q now fresh =
     \<lparr>al_plan_id = ''bp_auto_'' @ fresh, al_source_id = aq_source_id q, al_policy_version = aq_policy_version q,
      al_policy_hash = aq_policy_hash q, al_request_url = aq_request_url q, al_request_method = upper (aq_request_method q),
      al_interval_seconds = aq_interval_seconds q,
      al_next_run_at = (case aq_start_at q of None \<Rightarrow> now | Some t \<Rightarrow> t), al_enabled = True, al_created_at = now,
      al_updated_at = now\<rparr>"

definition create_plan :: "(string \<Rightarrow> string) \<Rightarrow> policy_snapshot \<Rightarrow> automation_request \<Rightarrow> datetime \<Rightarrow> string
    \<Rightarrow> automation_store \<Rightarrow> (automation_store \<times> automation_plan) result" where
  "create_plan upper s q now fresh st = (let plan = new_plan upper q now fresh in guarded
     [(ps_source_id s \<noteq> aq_source_id q, ValueError ''automation source_id does not match policy snapshot''),
      (ps_version s \<noteq> aq_policy_version q, ValueError ''automation policy version does not match policy snapshot''),
      (ps_hash s \<noteq> aq_policy_hash q, ValueError ''automation policy hash does not match policy snapshot''),
      (access_status (ps_policy s) \<noteq> APPROVED,
       PermissionError ''automatic acquisition requires an approved source policy''),
      (list_ex (\<lambda>p. al_plan_id p = al_plan_id plan) (as_plans st), IntegrityError ''source_automation_plans.plan_id'')]
     (st\<lparr>as_plans := as_plans st @ [plan]\<rparr>, plan))"

definition plans :: "string option \<Rightarrow> automation_store \<Rightarrow> automation_plan list" where
  "plans src st = sort_key (\<lambda>p. (isoformat (al_created_at p), al_plan_id p))
     (case src of None \<Rightarrow> as_plans st | Some s \<Rightarrow> filter (\<lambda>p. al_source_id p = s) (as_plans st))"

definition get_plan :: "string \<Rightarrow> automation_store \<Rightarrow> automation_plan result" where
  "get_plan pid st = (case find (\<lambda>p. al_plan_id p = pid) (as_plans st) of
       None \<Rightarrow> raise (KeyError ''Unknown automation plan: '') | Some p \<Rightarrow> return p)"

text \<open>A negative limit of SQL is none.\<close>

definition due_plans :: "datetime \<Rightarrow> int \<Rightarrow> automation_store \<Rightarrow> automation_plan list" where
  "due_plans now limit st =
     (let rows = sort_key (\<lambda>p. (isoformat (al_next_run_at p), al_plan_id p))
        (filter (\<lambda>p. al_enabled p \<and> isoformat (al_next_run_at p) \<le> isoformat now) (as_plans st))
      in if limit < 0 then rows else take (nat limit) rows)"

definition update_plan :: "string \<Rightarrow> (automation_plan \<Rightarrow> automation_plan) \<Rightarrow> automation_store \<Rightarrow> automation_store" where
  "update_plan pid f st = st\<lparr>as_plans := map (\<lambda>p. if al_plan_id p = pid then f p else p) (as_plans st)\<rparr>"

definition set_enabled :: "string \<Rightarrow> bool \<Rightarrow> datetime \<Rightarrow> automation_store \<Rightarrow> (automation_store \<times> automation_plan) result" where
  "set_enabled pid enabled now st =
     (let st' = update_plan pid (\<lambda>p. p\<lparr>al_enabled := enabled, al_updated_at := now\<rparr>) st in
      if \<not> list_ex (\<lambda>p. al_plan_id p = pid) (as_plans st) then raise (KeyError ''Unknown automation plan: '')
      else bind_result (get_plan pid st') (\<lambda>p. return (st', p)))"

definition defer_plan :: "string \<Rightarrow> datetime \<Rightarrow> datetime \<Rightarrow> automation_store \<Rightarrow> (automation_store \<times> automation_plan) result" where
  "defer_plan pid next now st =
     (let st' = update_plan pid (\<lambda>p. p\<lparr>al_next_run_at := next, al_updated_at := now\<rparr>) st
      in bind_result (get_plan pid st') (\<lambda>p. return (st', p)))"

text \<open>The loop of \<open>advance\<close>; the interval of a plan is at least a minute.\<close>

function advance_to :: "int \<Rightarrow> datetime \<Rightarrow> datetime \<Rightarrow> datetime" where
  "advance_to step now t = (if instant t \<le> instant now \<and> 0 < step then advance_to step now (add_us t step) else t)"
  by pat_completeness auto
termination by (relation "measure (\<lambda>(step, now, t). nat (instant now + 1 - instant t))") auto

declare advance_to.simps [simp del]

definition advance :: "automation_plan \<Rightarrow> datetime \<Rightarrow> datetime \<Rightarrow> automation_store
    \<Rightarrow> (automation_store \<times> automation_plan) result" where
  "advance plan evaluated now st =
     bind_result (dt_le (al_next_run_at plan) evaluated) (\<lambda>_.
       defer_plan (al_plan_id plan)
         (advance_to (al_interval_seconds plan * us_per_second) evaluated (al_next_run_at plan)) now st)"

definition add_run :: "automation_run \<Rightarrow> automation_store \<Rightarrow> automation_store result" where
  "add_run run st = guarded
     [(list_ex (\<lambda>r. au_run_id r = au_run_id run) (as_runs st), IntegrityError ''source_automation_runs.run_id'')]
     (st\<lparr>as_runs := as_runs st @ [run]\<rparr>)"

definition runs :: "string \<Rightarrow> automation_store \<Rightarrow> automation_run list" where
  "runs pid st = sort_key (\<lambda>r. (isoformat (au_scheduled_for r), au_run_id r))
     (filter (\<lambda>r. au_plan_id r = pid) (as_runs st))"

section \<open>The worker\<close>

record worker_state =
  wk_reservations :: scheduler_store
  wk_transport :: transport_state
  wk_automation :: automation_store

record run_clock =
  rn_started :: datetime
  rn_updated :: datetime
  rn_completed :: datetime
  rn_run_fresh :: string
  rn_reservation_fresh :: string
  rn_execution :: execution_clock

definition new_run :: "automation_plan \<Rightarrow> run_clock \<Rightarrow> run_status \<Rightarrow> string option \<Rightarrow> string option
    \<Rightarrow> block_reason option \<Rightarrow> string option \<Rightarrow> automation_run" where
  "new_run plan clk status reservation receipt reason err =
     \<lparr>au_run_id = ''bp_autorun_'' @ rn_run_fresh clk, au_plan_id = al_plan_id plan, au_source_id = al_source_id plan,
      au_scheduled_for = al_next_run_at plan, au_status = status, au_started_at = rn_started clk,
      au_completed_at = rn_completed clk, au_reservation_id = reservation, au_receipt_id = receipt,
      au_block_reason = reason, au_error_code = err\<rparr>"

text \<open>The plan is updated, then the run is inserted; an update stays when the insertion fails.\<close>

definition record_run :: "(automation_store \<Rightarrow> (automation_store \<times> automation_plan) result) \<Rightarrow> automation_run
    \<Rightarrow> worker_state \<Rightarrow> worker_state \<times> automation_run result" where
  "record_run update run w = (case update (wk_automation w) of
       Inl e \<Rightarrow> (w, raise e)
     | Inr (st, _) \<Rightarrow> (case add_run run st of
         Inl e \<Rightarrow> (w\<lparr>wk_automation := st\<rparr>, raise e)
       | Inr st' \<Rightarrow> (w\<lparr>wk_automation := st'\<rparr>, return run)))"

definition blocked_plan :: "automation_plan \<Rightarrow> run_clock \<Rightarrow> run_status \<Rightarrow> string option \<Rightarrow> string
    \<Rightarrow> worker_state \<Rightarrow> worker_state \<times> automation_run result" where
  "blocked_plan plan clk status reservation err =
     record_run (set_enabled (al_plan_id plan) False (rn_updated clk)) (new_run plan clk status reservation None None (Some err))"

definition advanced_plan :: "automation_plan \<Rightarrow> datetime \<Rightarrow> run_clock \<Rightarrow> run_status \<Rightarrow> string option \<Rightarrow> string option
    \<Rightarrow> string option \<Rightarrow> worker_state \<Rightarrow> worker_state \<times> automation_run result" where
  "advanced_plan plan evaluated clk status reservation receipt err =
     record_run (advance plan evaluated (rn_updated clk)) (new_run plan clk status reservation receipt None err)"

definition deferred_plan :: "automation_plan \<Rightarrow> datetime \<Rightarrow> run_clock \<Rightarrow> reservation_decision
    \<Rightarrow> worker_state \<Rightarrow> worker_state \<times> automation_run result" where
  "deferred_plan plan evaluated clk d = record_run
     (case next_allowed_at d of
        Some t \<Rightarrow> defer_plan (al_plan_id plan) t (rn_updated clk) | None \<Rightarrow> advance plan evaluated (rn_updated clk))
     (new_run plan clk Run_Deferred None None (block_reason d) None)"

definition execution_status_text :: "execution_status \<Rightarrow> string" where
  "execution_status_text s = (case s of Claimed \<Rightarrow> ''claimed'' | Completed \<Rightarrow> ''completed''
     | Transport_Error \<Rightarrow> ''transport_error'' | Capture_Error \<Rightarrow> ''capture_error'')"

text \<open>\<open>a or b\<close> for an optional text.\<close>

definition or_text :: "string option \<Rightarrow> string \<Rightarrow> string" where
  "or_text a b = (case a of None \<Rightarrow> b | Some s \<Rightarrow> if s = [] then b else s)"

definition existing_reservation :: "string \<Rightarrow> string \<Rightarrow> scheduler_store \<Rightarrow> reservation option" where
  "existing_reservation src key st = find (\<lambda>r. re_request_key r = key \<and> re_attempt r = 1) (rev (reservations st src))"

text \<open>The part of a run that has a reservation.\<close>

definition run_reserved :: "net_library \<Rightarrow> (source_policy \<Rightarrow> string) \<Rightarrow> policy_store \<Rightarrow> policy_snapshot \<Rightarrow> transport
    \<Rightarrow> automation_plan \<Rightarrow> datetime \<Rightarrow> run_clock \<Rightarrow> reservation \<Rightarrow> worker_state \<Rightarrow> worker_state \<times> automation_run result" where
  "run_reserved net policy_text policies current t plan evaluated clk r w =
     (let rid = reservation_id r in
      case find_execution rid (te_rows (wk_transport w)) of
        Inr x \<Rightarrow> (case ex_status x of
            Completed \<Rightarrow> advanced_plan plan evaluated clk Run_Completed (Some rid) (ex_receipt_id x) None w
          | Claimed \<Rightarrow> blocked_plan plan clk Run_Ambiguous (Some rid) ''reservation_already_claimed'' w
          | _ \<Rightarrow> advanced_plan plan evaluated clk Run_Failed (Some rid) None
              (Some (or_text (ex_error_code x) (execution_status_text (ex_status x)))) w)
      | Inl _ \<Rightarrow>
          (case execute net policy_text policies current r t None (rn_execution clk) (wk_transport w) of
             (st, Inl e) \<Rightarrow> advanced_plan plan evaluated clk Run_Failed (Some rid) None (Some ''execution_failed'')
               (w\<lparr>wk_transport := st\<rparr>)
           | (st, Inr c) \<Rightarrow> advanced_plan plan evaluated clk Run_Completed (Some rid)
               (Some (receipt_id (captured_receipt c))) None (w\<lparr>wk_transport := st\<rparr>)))"

definition slot_key :: "automation_plan \<Rightarrow> string" where
  "slot_key plan = al_plan_id plan @ '':'' @ isoformat (al_next_run_at plan)"

definition slot_request :: "automation_plan \<Rightarrow> policy_snapshot \<Rightarrow> reservation_request" where
  "slot_request plan current = \<lparr>sq_policy_version = ps_version current, sq_policy_hash = ps_hash current,
     sq_request_key = slot_key plan, sq_request_url = al_request_url plan, sq_request_method = al_request_method plan,
     sq_attempt = 1\<rparr>"

definition run_slot :: "net_library \<Rightarrow> (rat \<Rightarrow> int) \<Rightarrow> (source_policy \<Rightarrow> string) \<Rightarrow> policy_store \<Rightarrow> policy_snapshot
    \<Rightarrow> transport \<Rightarrow> automation_plan \<Rightarrow> datetime \<Rightarrow> run_clock \<Rightarrow> worker_state \<Rightarrow> worker_state \<times> automation_run result" where
  "run_slot net td policy_text policies current t plan evaluated clk w =
     (case existing_reservation (al_source_id plan) (slot_key plan) (wk_reservations w) of
        Some r \<Rightarrow> run_reserved net policy_text policies current t plan evaluated clk r w
      | None \<Rightarrow>
          if \<not> reservation_request_ok (slot_request plan current) then (w, raise field_error)
          else (case reserve net td current (slot_request plan current)
              (receipts (te_captures (wk_transport w)) (al_source_id plan)) evaluated (rn_reservation_fresh clk)
              (wk_reservations w) of
             Inl e \<Rightarrow> (w, raise e)
           | Inr (st, d) \<Rightarrow> (let w' = w\<lparr>wk_reservations := st\<rparr> in
               case granted d of
                 Some r \<Rightarrow> if allowed d then run_reserved net policy_text policies current t plan evaluated clk r w'
                   else deferred_plan plan evaluated clk d w'
               | None \<Rightarrow> deferred_plan plan evaluated clk d w')))"

definition run_plan :: "net_library \<Rightarrow> (rat \<Rightarrow> int) \<Rightarrow> (source_policy \<Rightarrow> string) \<Rightarrow> policy_store
    \<Rightarrow> (string \<Rightarrow> transport option) \<Rightarrow> automation_plan \<Rightarrow> datetime \<Rightarrow> run_clock \<Rightarrow> worker_state
    \<Rightarrow> worker_state \<times> automation_run result" where
  "run_plan net td policy_text policies transports plan evaluated clk w =
     (case latest_policy (hosts_lib net) policies (al_source_id plan) of
        Inl (KeyError _) \<Rightarrow> blocked_plan plan clk Run_Policy_Blocked None ''policy_missing'' w
      | Inl e \<Rightarrow> (w, raise e)
      | Inr current \<Rightarrow>
          if ps_version current \<noteq> al_policy_version plan \<or> ps_hash current \<noteq> al_policy_hash plan
             \<or> access_status (ps_policy current) \<noteq> APPROVED
          then blocked_plan plan clk Run_Policy_Blocked None ''policy_changed_or_unapproved'' w
          else (case transports (al_source_id plan) of
              None \<Rightarrow> blocked_plan plan clk Run_No_Transport None ''transport_not_registered'' w
            | Some t \<Rightarrow> run_slot net td policy_text policies current t plan evaluated clk w))"

type_synonym plan_runner = "automation_plan \<Rightarrow> datetime \<Rightarrow> run_clock \<Rightarrow> worker_state
    \<Rightarrow> worker_state \<times> automation_run result"

text \<open>\<open>run_due\<close> over a method \<open>_run_plan\<close>; an exception ends the loop.\<close>

fun run_plans :: "plan_runner \<Rightarrow> datetime \<Rightarrow> (nat \<Rightarrow> run_clock) \<Rightarrow> automation_plan list \<Rightarrow> worker_state
    \<Rightarrow> worker_state \<times> automation_run list result" where
  "run_plans runner now clks [] w = (w, return [])"
| "run_plans runner now clks (p # ps) w = (case runner p now (clks 0) w of
       (w', Inl e) \<Rightarrow> (w', raise e)
     | (w', Inr r) \<Rightarrow> (case run_plans runner now (\<lambda>i. clks (Suc i)) ps w' of
         (w'', Inl e) \<Rightarrow> (w'', raise e) | (w'', Inr rs) \<Rightarrow> (w'', return (r # rs))))"

definition run_due :: "plan_runner \<Rightarrow> datetime \<Rightarrow> int \<Rightarrow> (nat \<Rightarrow> run_clock) \<Rightarrow> worker_state
    \<Rightarrow> worker_state \<times> automation_run list result" where
  "run_due runner now limit clks w = run_plans runner now clks (due_plans now limit (wk_automation w)) w"

text \<open>The iterations of \<open>run_forever\<close> until \<open>stop_when\<close> holds: their times and clock readings.\<close>

fun run_iterations :: "plan_runner \<Rightarrow> (datetime \<times> (nat \<Rightarrow> run_clock)) list \<Rightarrow> worker_state \<Rightarrow> worker_state \<times> unit result" where
  "run_iterations runner [] w = (w, return ())"
| "run_iterations runner ((now, clks) # polls) w = (case run_due runner now 20 clks w of
       (w', Inl e) \<Rightarrow> (w', raise e) | (w', Inr _) \<Rightarrow> run_iterations runner polls w')"

definition run_forever :: "plan_runner \<Rightarrow> rat \<Rightarrow> (datetime \<times> (nat \<Rightarrow> run_clock)) list \<Rightarrow> worker_state
    \<Rightarrow> worker_state \<times> unit result" where
  "run_forever runner poll_seconds polls w =
     (if poll_seconds < 1 then (w, raise (ValueError ''poll_seconds must be at least 1 second''))
      else run_iterations runner polls w)"

section \<open>A run takes the plan off the due list\<close>

lemma add_us_add [simp]: "add_us (add_us t a) b = add_us t (a + b)"
  by (simp add: add_us_def algebra_simps)

text \<open>The next slot of the plan's grid after the time given.\<close>

lemma advance_to_grid:
  assumes "0 < step"
  shows "\<exists>k \<ge> 0. advance_to step now t = add_us t (k * step) \<and> instant now < instant (advance_to step now t)
    \<and> (k = 0 \<or> instant (advance_to step now t) - step \<le> instant now)"
  using assms
proof (induction step now t rule: advance_to.induct)
  case (1 step now t)
  show ?case
  proof (cases "instant t \<le> instant now")
    case True
    obtain k where k: "0 \<le> k" "advance_to step now (add_us t step) = add_us (add_us t step) (k * step)"
      "instant now < instant (advance_to step now (add_us t step))"
      "k = 0 \<or> instant (advance_to step now (add_us t step)) - step \<le> instant now"
      using 1 True by blast
    have "advance_to step now t = advance_to step now (add_us t step)"
      using True 1(2) by (subst advance_to.simps) simp
    then show ?thesis using k True by (intro exI [of _ "k + 1"]) (auto simp: algebra_simps)
  next
    case False
    then have "advance_to step now t = t" by (subst advance_to.simps) simp
    then show ?thesis using False by (intro exI [of _ 0]) (simp add: add_us_def)
  qed
qed

definition not_due :: "string \<Rightarrow> datetime \<Rightarrow> automation_store \<Rightarrow> bool" where
  "not_due pid now st \<longleftrightarrow> list_all (\<lambda>p. al_plan_id p \<noteq> pid \<or> \<not> al_enabled p \<or> instant now < instant (al_next_run_at p))
     (as_plans st)"

lemma not_due_update:
  "(\<And>p. al_plan_id (f p) = al_plan_id p) \<Longrightarrow> (\<And>p. \<not> al_enabled (f p) \<or> instant now < instant (al_next_run_at (f p))) \<Longrightarrow>
     not_due pid now (update_plan pid f st) \<and> as_runs (update_plan pid f st) = as_runs st"
  by (auto simp: not_due_def update_plan_def list_all_iff)

lemma set_enabled_Inr:
  assumes "set_enabled pid False now st = Inr (st', p)"
  shows "not_due pid evaluated st' \<and> as_runs st' = as_runs st"
proof -
  have "st' = update_plan pid (\<lambda>p. p\<lparr>al_enabled := False, al_updated_at := now\<rparr>) st"
    using assms unfolding set_enabled_def Let_def by (simp split: if_splits)
  then show ?thesis by (simp only:) (rule not_due_update, simp_all)
qed

lemma defer_plan_Inr:
  assumes "defer_plan pid t now st = Inr (st', p)" "instant evaluated < instant t"
  shows "not_due pid evaluated st' \<and> as_runs st' = as_runs st"
proof -
  have "st' = update_plan pid (\<lambda>p. p\<lparr>al_next_run_at := t, al_updated_at := now\<rparr>) st"
    using assms(1) unfolding defer_plan_def Let_def by simp
  then show ?thesis using assms(2) by (simp only:) (rule not_due_update, simp_all)
qed

lemma advance_Inr:
  assumes "advance plan evaluated now st = Inr (st', p)" "0 < al_interval_seconds plan"
  shows "not_due (al_plan_id plan) evaluated st' \<and> as_runs st' = as_runs st"
proof -
  have "0 < al_interval_seconds plan * us_per_second" using assms(2) by (simp add: us_per_second_def)
  from advance_to_grid [OF this, of evaluated "al_next_run_at plan"]
  have "instant evaluated < instant (advance_to (al_interval_seconds plan * us_per_second) evaluated (al_next_run_at plan))"
    by blast
  moreover have "defer_plan (al_plan_id plan) (advance_to (al_interval_seconds plan * us_per_second) evaluated
      (al_next_run_at plan)) now st = Inr (st', p)" using assms(1) unfolding advance_def by auto
  ultimately show ?thesis by (rule defer_plan_Inr [rotated])
qed

lemma record_run_Inr:
  assumes "record_run update run w = (w', Inr r)"
  obtains st p where "update (wk_automation w) = Inr (st, p)" "r = run"
    "wk_automation w' = st\<lparr>as_runs := as_runs st @ [run]\<rparr>"
  using assms by (auto simp: record_run_def add_run_def split: sum.splits if_splits)

definition plan_handled :: "automation_plan \<Rightarrow> datetime \<Rightarrow> worker_state \<Rightarrow> worker_state \<Rightarrow> automation_run \<Rightarrow> bool" where
  "plan_handled plan evaluated w w' run \<longleftrightarrow> not_due (al_plan_id plan) evaluated (wk_automation w')
     \<and> as_runs (wk_automation w') = as_runs (wk_automation w) @ [run]
     \<and> au_plan_id run = al_plan_id plan \<and> au_scheduled_for run = al_next_run_at plan"

lemma new_run_fields [simp]:
  "au_plan_id (new_run plan clk status rid receipt reason err) = al_plan_id plan"
  "au_scheduled_for (new_run plan clk status rid receipt reason err) = al_next_run_at plan"
  by (simp_all add: new_run_def)

lemma not_due_runs [simp]: "not_due pid now (st\<lparr>as_runs := rs\<rparr>) = not_due pid now st"
  by (simp add: not_due_def)

lemma blocked_plan_handled:
  "blocked_plan plan clk status rid err w = (w', Inr run) \<Longrightarrow> plan_handled plan evaluated w w' run"
  unfolding blocked_plan_def by (erule record_run_Inr) (use set_enabled_Inr in \<open>auto simp: plan_handled_def\<close>)

lemma advanced_plan_handled:
  "advanced_plan plan evaluated clk status rid receipt err w = (w', Inr run) \<Longrightarrow> 0 < al_interval_seconds plan \<Longrightarrow>
     plan_handled plan evaluated w w' run"
  unfolding advanced_plan_def by (erule record_run_Inr) (use advance_Inr in \<open>auto simp: plan_handled_def\<close>)

lemma deferred_plan_handled:
  assumes "deferred_plan plan evaluated clk d w = (w', Inr run)" "0 < al_interval_seconds plan"
    "opt_all (\<lambda>t. instant evaluated < instant t) (next_allowed_at d)"
  shows "plan_handled plan evaluated w w' run"
  using assms(1) unfolding deferred_plan_def
  by (rule record_run_Inr) (use assms(2,3) defer_plan_Inr advance_Inr in \<open>auto simp: plan_handled_def split: option.splits\<close>)

lemma run_reserved_handled:
  assumes "run_reserved net policy_text policies current t plan evaluated clk r w = (w', Inr run)"
    "0 < al_interval_seconds plan"
  shows "plan_handled plan evaluated w w' run"
proof -
  have "plan_handled plan evaluated (w\<lparr>wk_transport := st\<rparr>) w' run = plan_handled plan evaluated w w' run" for st
    by (simp add: plan_handled_def)
  then show ?thesis
    using assms blocked_plan_handled advanced_plan_handled unfolding run_reserved_def Let_def
    by (auto split: sum.splits prod.splits execution_status.splits) metis+
qed

lemma run_slot_handled:
  assumes "run_slot net td policy_text policies current t plan evaluated clk w = (w', Inr run)"
    "0 < al_interval_seconds plan"
  shows "plan_handled plan evaluated w w' run"
proof (cases "existing_reservation (al_source_id plan) (slot_key plan) (wk_reservations w)")
  case (Some r)
  then show ?thesis using assms by (simp add: run_slot_def run_reserved_handled)
next
  case None
  obtain st d where d: "reserve net td current (slot_request plan current)
      (receipts (te_captures (wk_transport w)) (al_source_id plan)) evaluated (rn_reservation_fresh clk)
      (wk_reservations w) = Inr (st, d)"
    using assms(1) None by (auto simp: run_slot_def split: if_splits sum.splits)
  have "opt_all (\<lambda>t. instant evaluated < instant t) (next_allowed_at d)"
    using reserve_blocked_later [OF d] by (cases "next_allowed_at d") auto
  moreover have "plan_handled plan evaluated (w\<lparr>wk_reservations := st\<rparr>) w' run = plan_handled plan evaluated w w' run"
    by (simp add: plan_handled_def)
  ultimately show ?thesis
    using assms None d deferred_plan_handled [of plan evaluated clk d "w\<lparr>wk_reservations := st\<rparr>" w' run]
      run_reserved_handled [of net policy_text policies current t plan evaluated clk _ "w\<lparr>wk_reservations := st\<rparr>" w' run]
    by (auto simp: run_slot_def Let_def split: if_splits option.splits)
qed

text \<open>A run that is recorded takes its plan off the due list: it is disabled, or its next run lies after the time of
  evaluation, on the grid of its interval or when the scheduler allows the request. So no plan is run twice for one
  time, and a plan that cannot run is not retried in a loop.\<close>

theorem run_plan_not_due_again:
  assumes "run_plan net td policy_text policies transports plan evaluated clk w = (w', Inr run)"
    "60 \<le> al_interval_seconds plan"
  shows "plan_handled plan evaluated w w' run"
  using assms blocked_plan_handled run_slot_handled
  by (auto simp: run_plan_def split: sum.splits py_error.splits option.splits if_splits)

section \<open>Slots are fetched at most once\<close>

text \<open>Plans are made and switched, requests are reserved and executed by hand, and plans are run, in any order. A run
  that is blocked for another reason is \<open>blocked\<close>.\<close>

inductive worker_run :: "net_library \<Rightarrow> (rat \<Rightarrow> int) \<Rightarrow> (source_policy \<Rightarrow> string) \<Rightarrow> policy_store \<Rightarrow> worker_state \<Rightarrow> bool"
  for net td policy_text where
  init: "worker_run net td policy_text empty_policy_store
    \<lparr>wk_reservations = [], wk_transport = empty_transport, wk_automation = \<lparr>as_plans = [], as_runs = []\<rparr>\<rparr>"
| policy: "worker_run net td policy_text policies w \<Longrightarrow>
    append_policy (hosts_lib net) dt fr p now fresh policies = Inr (policies', s) \<Longrightarrow>
    worker_run net td policy_text policies' w"
| create: "worker_run net td policy_text policies w \<Longrightarrow> automation_request_ok (upper_text net) q \<Longrightarrow>
    create_plan (upper_text net) s q now fresh (wk_automation w) = Inr (st, plan) \<Longrightarrow>
    worker_run net td policy_text policies (w\<lparr>wk_automation := st\<rparr>)"
| switch: "worker_run net td policy_text policies w \<Longrightarrow> set_enabled pid flag now (wk_automation w) = Inr (st, plan) \<Longrightarrow>
    worker_run net td policy_text policies (w\<lparr>wk_automation := st\<rparr>)"
| reserve: "worker_run net td policy_text policies w \<Longrightarrow>
    reserve net td s q rcpts now fresh (wk_reservations w) = Inr (st, d) \<Longrightarrow>
    worker_run net td policy_text policies (w\<lparr>wk_reservations := st\<rparr>)"
| execute: "worker_run net td policy_text policies w \<Longrightarrow> r \<in> set (wk_reservations w) \<Longrightarrow>
    execute net policy_text policies s r t max_bytes clk (wk_transport w) = (st, res) \<Longrightarrow>
    worker_run net td policy_text policies (w\<lparr>wk_transport := st\<rparr>)"
| run: "worker_run net td policy_text policies w \<Longrightarrow>
    run_plan net td policy_text policies transports plan evaluated clk w = (w', out) \<Longrightarrow>
    worker_run net td policy_text policies w'"
| blocked: "worker_run net td policy_text policies w \<Longrightarrow> blocked_plan plan clk status rid err w = (w', out) \<Longrightarrow>
    worker_run net td policy_text policies w'"

definition reservation_slot :: "reservation \<Rightarrow> string \<times> string \<times> int" where
  "reservation_slot r = (re_source_id r, re_request_key r, re_attempt r)"

definition request_slot :: "transport_request \<Rightarrow> string \<times> string \<times> int" where
  "request_slot q = (tq_source_id q, tq_request_key q, tq_attempt q)"

definition reserved_for :: "scheduler_store \<Rightarrow> transport_request \<Rightarrow> bool" where
  "reserved_for st q \<longleftrightarrow> list_ex (\<lambda>r. reservation_id r = tq_reservation_id q \<and> reservation_slot r = request_slot q) st"

definition worker_sound :: "net_library \<Rightarrow> (source_policy \<Rightarrow> string) \<Rightarrow> policy_store \<Rightarrow> worker_state \<Rightarrow> bool" where
  "worker_sound net policy_text policies w \<longleftrightarrow> transport_run net policy_text policies (wk_transport w) [] []
     \<and> distinct (map reservation_id (wk_reservations w)) \<and> distinct (map reservation_slot (wk_reservations w))
     \<and> list_all (reserved_for (wk_reservations w)) (te_sent (wk_transport w))"

lemma conclude_sent:
  "te_sent (fst (conclude upper policy_text p answer stored fresh finished st)) = te_sent st"
  by (auto simp: conclude_def Let_def split: sum.splits prod.splits)

lemma execute_sent:
  assumes "execute net policy_text policies s r t max_bytes clk st = (st', res)"
  obtains (nothing) "te_sent st' = te_sent st"
  | (sent) current limit where "validate_binding net policies s r = Inr current"
      "te_sent st' = te_sent st @ [transport_request_of r current limit]"
      "limit \<le> max_response_bytes (ps_policy current)" "transport_request_ok (transport_request_of r current limit)"
proof -
  obtain st1 r1 where p: "prepare net policies s r t max_bytes (ec_started clk) st = (st1, r1)" by fastforce
  from p show ?thesis
  proof (cases rule: prepare_cases)
    case (refused e)
    then have "te_sent st' = te_sent st" using assms by (simp add: execute_def p)
    then show ?thesis by (rule nothing)
  next
    case (claimed current prov rows limit)
    show ?thesis
    proof (cases "transport_request_ok (transport_request_of r current limit)")
      case True
      let ?q = "\<lparr>pe_reservation = r, pe_snapshot = current, pe_provenance = prov, pe_max_bytes = limit,
           pe_request = transport_request_of r current limit\<rparr>"
      have "te_sent st' = te_sent (send_prepared ?q st1)"
        using assms conclude_sent by (simp add: execute_def p claimed(5) True) (metis fst_conv)
      then show ?thesis using sent [OF claimed(1) _ claimed(4) True] by (simp add: send_prepared_def claimed(3))
    next
      case False
      then have "te_sent st' = te_sent st" using assms by (simp add: execute_def p claimed(5)) (auto simp: claimed(3))
      then show ?thesis by (rule nothing)
    qed
  qed
qed

lemma request_of_reservation [simp]:
  "request_slot (transport_request_of r current limit) = reservation_slot r"
  "tq_reservation_id (transport_request_of r current limit) = reservation_id r"
  by (simp_all add: request_slot_def reservation_slot_def transport_request_of_def)

lemma worker_sound_execute:
  assumes "worker_sound net policy_text policies w" "r \<in> set (wk_reservations w)"
    "execute net policy_text policies s r t max_bytes clk (wk_transport w) = (st, res)"
  shows "worker_sound net policy_text policies (w\<lparr>wk_transport := st\<rparr>)"
proof -
  have "transport_run net policy_text policies st [] []"
    using execute_run [OF _ assms(3)] assms(1) by (simp add: worker_sound_def)
  moreover have "list_all (reserved_for (wk_reservations w)) (te_sent st)"
    using assms(3)
  proof (cases rule: execute_sent)
    case (sent current limit)
    then show ?thesis using assms(1,2) by (auto simp: worker_sound_def reserved_for_def list_ex_iff)
  qed (use assms(1) in \<open>simp add: worker_sound_def\<close>)
  ultimately show ?thesis using assms(1) by (simp add: worker_sound_def)
qed

lemma reserve_granted:
  assumes "reserve net td s q rcpts now fresh st = Inr (st', d)"
  obtains (denied) "st' = st" "granted d = None" "\<not> allowed d"
  | (new) r where "st' = st @ [r]" "granted d = Some r" "allowed d" "reservation_id r \<notin> reservation_id ` set st"
      "reservation_slot r \<notin> reservation_slot ` set st"
proof (cases "allowed d")
  case True
  obtain backoff where slot: "reserve_slot net s q backoff now fresh st = Inr (st', d)"
    using reserve_Inr [OF assms] True by auto
  note new = new [of "new_reservation net s q now fresh"]
  have fields: "re_source_id (new_reservation net s q now fresh) = sp_source_id (ps_policy s)"
    "re_request_key (new_reservation net s q now fresh) = sq_request_key q"
    "re_attempt (new_reservation net s q now fresh) = sq_attempt q" by (simp_all add: new_reservation_def)
  have "reservation_id (new_reservation net s q now fresh) \<notin> reservation_id ` set st"
  proof -
    have "insert_reservation (new_reservation net s q now fresh) st = Inr st'"
    proof -
      have key: "\<not> list_ex (\<lambda>r. re_source_id r = sp_source_id (ps_policy s) \<and> re_request_key r = sq_request_key q
          \<and> re_attempt r = sq_attempt q) st" using reserve_slot_Inr [OF slot] True by auto
      obtain bs where "blockers now [backoff, rate_limit_until (ps_policy s)
          (window_rows (sp_source_id (ps_policy s)) now st)] = Inr bs" using slot key by (auto simp: reserve_slot_def Let_def)
      then show ?thesis using slot key True by (cases bs) (auto simp: reserve_slot_def Let_def blocked_until_def)
    qed
    then show ?thesis by (force simp: insert_reservation_def list_ex_iff split: if_splits)
  qed
  then show ?thesis using reserve_slot_Inr [OF slot] True
    by (intro new) (auto simp: list_ex_iff reservation_slot_def fields)
qed (use reserve_Inr [OF assms] denied in auto)

lemma reserved_for_append: "reserved_for st q \<Longrightarrow> reserved_for (st @ [r]) q"
  by (simp add: reserved_for_def)

lemma worker_sound_reserve:
  assumes "worker_sound net policy_text policies w" "reserve net td s q rcpts now fresh (wk_reservations w) = Inr (st, d)"
  shows "worker_sound net policy_text policies (w\<lparr>wk_reservations := st\<rparr>)"
  using assms(2)
proof (cases rule: reserve_granted)
  case (new r)
  then show ?thesis using assms(1) by (auto simp: worker_sound_def list_all_iff intro: reserved_for_append)
qed (use assms(1) in simp)

lemma worker_sound_automation [simp]:
  "worker_sound net policy_text policies (w\<lparr>wk_automation := st\<rparr>) = worker_sound net policy_text policies w"
  by (simp add: worker_sound_def)

text \<open>A recorded run changes the automation store only.\<close>

lemma record_run_store: "\<exists>st. fst (record_run update run w) = w\<lparr>wk_automation := st\<rparr>"
  by (auto simp: record_run_def split: sum.splits) (metis worker_state.surjective worker_state.update_convs(3))+

lemma recorded_store:
  "\<exists>st. fst (blocked_plan plan clk status rid err w) = w\<lparr>wk_automation := st\<rparr>"
  "\<exists>st. fst (advanced_plan plan evaluated clk status rid receipt err' w) = w\<lparr>wk_automation := st\<rparr>"
  "\<exists>st. fst (deferred_plan plan evaluated clk d w) = w\<lparr>wk_automation := st\<rparr>"
  using record_run_store by (simp_all add: blocked_plan_def advanced_plan_def deferred_plan_def)

lemma worker_sound_recorded:
  assumes "worker_sound net policy_text policies w"
  shows "worker_sound net policy_text policies (fst (blocked_plan plan clk status rid err w))"
    "worker_sound net policy_text policies (fst (advanced_plan plan evaluated clk status rid receipt err' w))"
    "worker_sound net policy_text policies (fst (deferred_plan plan evaluated clk d w))"
  using recorded_store assms by (metis worker_sound_automation)+

lemma worker_sound_reserved:
  assumes "worker_sound net policy_text policies w" "r \<in> set (wk_reservations w)"
  shows "worker_sound net policy_text policies (fst (run_reserved net policy_text policies current t plan evaluated clk r w))"
proof -
  obtain st res where e: "execute net policy_text policies current r t None (rn_execution clk) (wk_transport w) = (st, res)"
    by fastforce
  note ok = worker_sound_execute [OF assms e]
  show ?thesis
    using worker_sound_recorded [OF assms(1)] worker_sound_recorded [OF ok]
    by (simp add: run_reserved_def Let_def e split: sum.split execution_status.split)
qed

lemma existing_reservation_stored:
  "existing_reservation src key st = Some r \<Longrightarrow> r \<in> set st \<and> re_source_id r = src \<and> re_request_key r = key \<and> re_attempt r = 1"
  unfolding existing_reservation_def by (drule find_Some_in) (simp add: reservations_def)

lemma worker_sound_slot:
  assumes "worker_sound net policy_text policies w"
  shows "worker_sound net policy_text policies (fst (run_slot net td policy_text policies current t plan evaluated clk w))"
proof (cases "existing_reservation (al_source_id plan) (slot_key plan) (wk_reservations w)")
  case (Some r)
  then show ?thesis using existing_reservation_stored [OF Some] assms by (simp add: run_slot_def worker_sound_reserved)
next
  case None
  show ?thesis
  proof (cases "reserve net td current (slot_request plan current)
      (receipts (te_captures (wk_transport w)) (al_source_id plan)) evaluated (rn_reservation_fresh clk) (wk_reservations w)")
    case (Inl e)
    then show ?thesis using assms None by (simp add: run_slot_def)
  next
    case (Inr c)
    obtain st d where c: "c = (st, d)" by (cases c)
    note ok = worker_sound_reserve [OF assms Inr [unfolded c]]
    from Inr [unfolded c] show ?thesis
    proof (cases rule: reserve_granted)
      case denied
      then show ?thesis using assms None Inr c worker_sound_recorded [OF ok] by (simp add: run_slot_def)
    next
      case (new r)
      then show ?thesis using assms None Inr c worker_sound_reserved [OF ok, of r] by (simp add: run_slot_def)
    qed
  qed
qed

lemma worker_sound_plan:
  assumes "worker_sound net policy_text policies w"
  shows "worker_sound net policy_text policies (fst (run_plan net td policy_text policies transports plan evaluated clk w))"
  using assms worker_sound_slot worker_sound_recorded
  by (simp add: run_plan_def split: sum.split py_error.split option.split)

lemma worker_run_sound: "worker_run net td policy_text policies w \<Longrightarrow> worker_sound net policy_text policies w"
proof (induction rule: worker_run.induct)
  case init
  show ?case by (simp add: worker_sound_def empty_transport_def transport_run.init [unfolded empty_transport_def])
next
  case (policy policies w dt fr p now fresh policies' s)
  then show ?case using transport_run.policy [OF _ policy(2)] unfolding worker_sound_def by blast
next
  case (run policies w transports plan evaluated clk w' out)
  then show ?case using worker_sound_plan by (metis fst_conv)
next
  case (blocked policies w plan clk status rid err w' out)
  then show ?case using worker_sound_recorded(1) by (metis fst_conv)
qed (simp_all add: worker_sound_execute worker_sound_reserve)

text \<open>Whatever the order of operations, each attempt of each slot (source, request key, attempt) is sent to a transport
  at most once, for a reservation that the scheduler granted, and only as an approved stored policy permits.\<close>

theorem slots_fetched_once:
  assumes "worker_run net td policy_text policies w"
  shows "distinct (map request_slot (te_sent (wk_transport w)))
    \<and> list_all (reserved_for (wk_reservations w)) (te_sent (wk_transport w))
    \<and> list_all (request_allowed net policies) (te_sent (wk_transport w))"
proof -
  note sound = worker_run_sound [OF assms, unfolded worker_sound_def]
  have t: "transport_sound net policies (wk_transport w) [] []"
    using sound transport_run_sound by blast
  have "inj_on request_slot (set (te_sent (wk_transport w)))"
  proof (rule inj_onI)
    fix a b
    assume "a \<in> set (te_sent (wk_transport w))" "b \<in> set (te_sent (wk_transport w))" "request_slot a = request_slot b"
    moreover have found: "\<exists>r \<in> set (wk_reservations w). reservation_id r = tq_reservation_id q
        \<and> reservation_slot r = request_slot q" if "q \<in> set (te_sent (wk_transport w))" for q
      using sound that by (simp add: list_all_iff reserved_for_def list_ex_iff)
    moreover obtain r where "r \<in> set (wk_reservations w)" "reservation_id r = tq_reservation_id a"
      "reservation_slot r = request_slot a" using calculation(1) found by blast
    moreover obtain r' where "r' \<in> set (wk_reservations w)" "reservation_id r' = tq_reservation_id b"
      "reservation_slot r' = request_slot b" using calculation(2) found by blast
    ultimately have "tq_reservation_id a = tq_reservation_id b"
      using sound by (metis distinct_map inj_onD)
    then show "a = b"
      using t \<open>a \<in> _\<close> \<open>b \<in> _\<close> by (auto simp: transport_sound_def distinct_map dest: inj_onD)
  qed
  then show ?thesis using sound t by (auto simp: transport_sound_def distinct_map)
qed

end
