(* ===== verification/Unicode_Text.thy ===== *)
theory Unicode_Text
  imports Prelude
begin

text \<open>
  The tests of \<open>str\<close> that the stores make on identifiers and headers, on UTF-8 bytes:
  \<open>not s.strip()\<close>, \<open>s.partition(c)\<close> for an ASCII character and \<open>s.lower()\<close> on ASCII letters.
\<close>

definition one_byte_spaces :: string where
  "one_byte_spaces = [CHR 0x09, CHR 0x0A, CHR 0x0B, CHR 0x0C, CHR 0x0D, CHR 0x1C, CHR 0x1D, CHR 0x1E,
     CHR 0x1F, CHR 0x20]"

text \<open>U+0085, U+00A0; U+1680, U+2000 to U+200A, U+2028, U+2029, U+202F, U+205F and U+3000.\<close>

definition two_byte_spaces :: "string list" where
  "two_byte_spaces = [[CHR 0xC2, CHR 0x85], [CHR 0xC2, CHR 0xA0]]"

definition three_byte_spaces :: "string list" where
  "three_byte_spaces = [CHR 0xE1, CHR 0x9A, CHR 0x80] # [CHR 0xE2, CHR 0x81, CHR 0x9F] # [CHR 0xE3, CHR 0x80, CHR 0x80]
     # map (\<lambda>c. [CHR 0xE2, CHR 0x80, c]) [CHR 0x80, CHR 0x81, CHR 0x82, CHR 0x83, CHR 0x84, CHR 0x85, CHR 0x86,
         CHR 0x87, CHR 0x88, CHR 0x89, CHR 0x8A, CHR 0xA8, CHR 0xA9, CHR 0xAF]"

fun is_blank :: "string \<Rightarrow> bool" where
  "is_blank [] = True"
| "is_blank [a] = (a \<in> set one_byte_spaces)"
| "is_blank [a, b] = (if a \<in> set one_byte_spaces then is_blank [b] else [a, b] \<in> set two_byte_spaces)"
| "is_blank (a # b # c # s) =
     (if a \<in> set one_byte_spaces then is_blank (b # c # s)
      else if [a, b] \<in> set two_byte_spaces then is_blank (c # s)
      else [a, b, c] \<in> set three_byte_spaces \<and> is_blank s)"

text \<open>\<open>head, separator, tail = s.partition(c)\<close>; the separator is empty when \<open>c\<close> does not occur.\<close>

definition partition_at :: "char \<Rightarrow> string \<Rightarrow> string \<times> bool \<times> string" where
  "partition_at c s = (takeWhile (\<lambda>x. x \<noteq> c) s, c \<in> set s, tl (dropWhile (\<lambda>x. x \<noteq> c) s))"

lemma partition_at_append:
  "c \<notin> set a \<Longrightarrow> partition_at c (a @ c # b) = (a, True, b)"
  by (simp add: partition_at_def takeWhile_append dropWhile_append)

definition ascii_lower :: "string \<Rightarrow> string" where
  "ascii_lower s = map (\<lambda>c. if 65 \<le> (of_char c :: nat) \<and> (of_char c :: nat) \<le> 90 then char_of (of_char c + 32 :: nat) else c) s"

definition ascii_upper :: "string \<Rightarrow> string" where
  "ascii_upper s = map (\<lambda>c. if 97 \<le> (of_char c :: nat) \<and> (of_char c :: nat) \<le> 122 then char_of (of_char c - 32 :: nat) else c) s"

text \<open>\<open>s.split(c)\<close>.\<close>

fun split_at_char :: "char \<Rightarrow> string \<Rightarrow> string list" where
  "split_at_char c [] = [[]]"
| "split_at_char c (x # s) = (if x = c then [] # split_at_char c s
     else case split_at_char c s of [] \<Rightarrow> [[x]] | w # ws \<Rightarrow> (x # w) # ws)"

lemma ascii_lower_bearer: "ascii_lower ''Bearer'' = ''bearer''"
  by code_simp

end
