(* ===== verification/Base64.thy ===== *)
theory Base64
  imports Sha256
begin

text \<open>
  \<open>base64.b64encode\<close> and \<open>base64.b64decode(..., validate=True)\<close> of the standard library: the
  encoder by groups of three bytes, and the decoder as the automaton of \<open>binascii.a2b_base64\<close> in strict
  mode (CPython 3.11), which accepts trailing padding and unused bits that the encoder never produces. Keys and
  signatures are stored in this form.
\<close>

definition b64_alphabet :: string where
  "b64_alphabet = ''ABCDEFGHIJKLMNOPQRSTUVWXYZabcdefghijklmnopqrstuvwxyz0123456789+/''"

definition b64_char :: "nat \<Rightarrow> char" where
  "b64_char n = b64_alphabet ! n"

definition b64_value :: "char \<Rightarrow> nat option" where
  "b64_value c = map_of (zip b64_alphabet [0..<64]) c"

fun b64encode :: "byte list \<Rightarrow> string" where
  "b64encode [] = []"
| "b64encode [a] = [b64_char (unat a div 4), b64_char (unat a mod 4 * 16), CHR ''='', CHR ''='']"
| "b64encode [a, b] = [b64_char (unat a div 4), b64_char (unat a mod 4 * 16 + unat b div 16),
     b64_char (unat b mod 16 * 4), CHR ''='']"
| "b64encode (a # b # c # rest) = b64_char (unat a div 4) # b64_char (unat a mod 4 * 16 + unat b div 16)
     # b64_char (unat b mod 16 * 4 + unat c div 64) # b64_char (unat c mod 64) # b64encode rest"

definition prepend_byte :: "nat \<Rightarrow> byte list result \<Rightarrow> byte list result" where
  "prepend_byte n res = bind_result res (\<lambda>bs. return (word_of_nat n # bs))"

text \<open>The position in the group of four, the bits left over, the padding characters counted and whether
  padding has started.\<close>

fun b64_scan :: "string \<Rightarrow> nat \<Rightarrow> nat \<Rightarrow> nat \<Rightarrow> bool \<Rightarrow> byte list result" where
  "b64_scan [] quad left pads padding =
     (if quad \<noteq> 0 then raise (ValueError ''Incorrect padding'') else return [])"
| "b64_scan (c # s) quad left pads padding =
     (if c = CHR ''='' then
        (if 2 \<le> quad \<and> 4 \<le> quad + (pads + 1)
         then (if s \<noteq> [] then raise (ValueError ''Excess data after padding'') else return [])
         else b64_scan s quad left (if 2 \<le> quad then pads + 1 else pads) True)
      else (case b64_value c of
          None \<Rightarrow> raise (ValueError ''Only base64 data is allowed'')
        | Some v \<Rightarrow>
            if padding then raise (ValueError ''Discontinuous padding not allowed'')
            else if quad = 0 then b64_scan s 1 v 0 False
            else if quad = 1 then prepend_byte (left * 4 + v div 16) (b64_scan s 2 (v mod 16) 0 False)
            else if quad = 2 then prepend_byte (left * 16 + v div 4) (b64_scan s 3 (v mod 4) 0 False)
            else prepend_byte (left * 64 + v) (b64_scan s 0 0 0 False)))"

definition b64decode :: "string \<Rightarrow> byte list result" where
  "b64decode s =
     (if list_ex (\<lambda>c. 128 \<le> (of_char c :: nat)) s
      then raise (ValueError ''string argument should contain only ASCII characters'')
      else if take 1 s = ''='' then raise (ValueError ''Leading padding not allowed'')
      else b64_scan s 0 0 0 False)"

section \<open>Decoding what was encoded\<close>

lemma b64_table: "list_all (\<lambda>n. b64_value (b64_char n) = Some n \<and> b64_char n \<noteq> CHR ''=''
    \<and> (of_char (b64_char n) :: nat) < 128) [0..<64]"
  by code_simp

lemma b64_char:
  assumes "n < 64"
  shows "b64_value (b64_char n) = Some n" "b64_char n \<noteq> CHR ''=''" "(of_char (b64_char n) :: nat) < 128"
proof -
  have "n \<in> set [0..<64]" using assms by simp
  then have "b64_value (b64_char n) = Some n \<and> b64_char n \<noteq> CHR ''='' \<and> (of_char (b64_char n) :: nat) < 128"
    using b64_table unfolding list_all_iff by blast
  then show "b64_value (b64_char n) = Some n" "b64_char n \<noteq> CHR ''=''" "(of_char (b64_char n) :: nat) < 128"
    by blast+
qed

lemma sextets:
  "unat (a :: byte) div 4 < 64" "unat a mod 4 * 16 + unat (b :: byte) div 16 < 64"
  "unat b mod 16 * 4 + unat (c :: byte) div 64 < 64" "unat c mod 64 < 64"
  "unat a mod 4 * 16 < 64" "unat b mod 16 * 4 < 64"
  using unat_byte_bound [of a] unat_byte_bound [of b] unat_byte_bound [of c] by (simp; presburger)+

lemma digit_split: "y < d \<Longrightarrow> (x * d + y) div d = x" "y < d \<Longrightarrow> (x * d + y) mod d = (y :: nat)"
  by simp_all

lemma sextet_sums:
  "unat (a :: byte) div 4 * 4 + (unat a mod 4 * 16 + unat (b :: byte) div 16) div 16 = unat a"
  "(unat a mod 4 * 16 + unat b div 16) mod 16 * 16 + (unat b mod 16 * 4 + unat (c :: byte) div 64) div 4 = unat b"
  "(unat b mod 16 * 4 + unat c div 64) mod 4 * 64 + unat c mod 64 = unat c"
  "unat a div 4 * 4 + (unat a mod 4 * 16) div 16 = unat a"
  "(unat a mod 4 * 16 + unat b div 16) mod 16 * 16 + (unat b mod 16 * 4) div 4 = unat b"
proof -
  have lt: "unat b div 16 < 16" "unat c div 64 < 4"
    using unat_byte_bound [of b] unat_byte_bound [of c] by simp_all
  show "unat (a :: byte) div 4 * 4 + (unat a mod 4 * 16 + unat (b :: byte) div 16) div 16 = unat a"
    "(unat a mod 4 * 16 + unat b div 16) mod 16 * 16 + (unat b mod 16 * 4 + unat (c :: byte) div 64) div 4 = unat b"
    "(unat b mod 16 * 4 + unat c div 64) mod 4 * 64 + unat c mod 64 = unat c"
    "unat a div 4 * 4 + (unat a mod 4 * 16) div 16 = unat a"
    "(unat a mod 4 * 16 + unat b div 16) mod 16 * 16 + (unat b mod 16 * 4) div 4 = unat b"
    unfolding digit_split [OF lt(1)] digit_split [OF lt(2)] by simp_all
qed

lemma b64_scan_char:
  assumes "v < 64"
  shows "b64_scan (b64_char v # s) 0 left pads False = b64_scan s 1 v 0 False"
    "b64_scan (b64_char v # s) 1 left pads False = prepend_byte (left * 4 + v div 16) (b64_scan s 2 (v mod 16) 0 False)"
    "b64_scan (b64_char v # s) 2 left pads False = prepend_byte (left * 16 + v div 4) (b64_scan s 3 (v mod 4) 0 False)"
    "b64_scan (b64_char v # s) 3 left pads False = prepend_byte (left * 64 + v) (b64_scan s 0 0 0 False)"
  using b64_char [OF assms] by simp_all

lemma b64_scan_pad:
  "b64_scan ''='' 3 left 0 padding = Inr []" "b64_scan ''=='' 2 left 0 padding = Inr []"
  by simp_all

text \<open>A group of four characters, and the two padded groups.\<close>

lemma b64_scan_group:
  assumes "s1 < 64" "s2 < 64"
  shows "s3 < 64 \<Longrightarrow> s4 < 64 \<Longrightarrow> b64_scan (b64_char s1 # b64_char s2 # b64_char s3 # b64_char s4 # s) 0 left pads False =
      prepend_byte (s1 * 4 + s2 div 16) (prepend_byte (s2 mod 16 * 16 + s3 div 4)
        (prepend_byte (s3 mod 4 * 64 + s4) (b64_scan s 0 0 0 False)))"
    "s3 < 64 \<Longrightarrow> b64_scan [b64_char s1, b64_char s2, b64_char s3, CHR ''=''] 0 left pads False =
      prepend_byte (s1 * 4 + s2 div 16) (prepend_byte (s2 mod 16 * 16 + s3 div 4) (Inr []))"
    "b64_scan [b64_char s1, b64_char s2, CHR ''='', CHR ''=''] 0 left pads False =
      prepend_byte (s1 * 4 + s2 div 16) (Inr [])"
  using assms by (simp_all add: b64_scan_char b64_scan_pad del: b64_scan.simps(2) One_nat_def)

lemma b64_scan_encode: "b64_scan (b64encode bs) 0 0 0 False = Inr bs"
proof (induction bs rule: b64encode.induct)
  case (2 a)
  show ?case unfolding b64encode.simps b64_scan_group(3) [OF sextets(1,5)] sextet_sums(4)
    by (simp add: prepend_byte_def)
next
  case (3 a b)
  show ?case unfolding b64encode.simps b64_scan_group(2) [OF sextets(1,2,6)] sextet_sums(1,5)
    by (simp add: prepend_byte_def)
next
  case (4 a b c rest)
  show ?case unfolding b64encode.simps b64_scan_group(1) [OF sextets(1,2,3,4)] sextet_sums(1,2,3) 4
    by (simp add: prepend_byte_def)
qed simp

lemma b64encode_ascii: "list_all (\<lambda>c. (of_char c :: nat) < 128) (b64encode bs)"
  by (induction bs rule: b64encode.induct) (simp_all add: b64_char sextets)

lemma b64decode_encode: "b64decode (b64encode bs) = Inr bs"
proof -
  have "take 1 (b64encode bs) \<noteq> ''=''"
    by (cases bs rule: b64encode.cases) (simp_all add: b64_char sextets)
  moreover have "\<not> list_ex (\<lambda>c. 128 \<le> (of_char c :: nat)) (b64encode bs)"
    using b64encode_ascii [of bs] by (auto simp: list_all_iff list_ex_iff not_le [symmetric])
  ultimately show ?thesis by (simp add: b64decode_def b64_scan_encode)
qed

end
