(* ===== verification/Auth.thy ===== *)
theory Auth
  imports Unicode_Text Hash_Chain Evidence_Models Datetime Base64
begin

text \<open>
  src/ballotproof/auth.py: identities with roles, API keys, approver keys, and the audit log that every
  change of them appends to. The key derivation (\<open>hashlib.scrypt\<close>) is the parameter \<open>derive\<close>, the
  clock and the random values (key ids, secrets, salts) are arguments. An operation returns the store it
  leaves and its result, since a few of them fail after their transaction has been committed.
\<close>

section \<open>Roles and permissions\<close>

datatype role = VIEWER | EVIDENCE_CONTRIBUTOR | SOURCE_OPERATOR | GOVERNANCE_REVIEWER | ADMIN

datatype permission = READ | WRITE_EVIDENCE | MANAGE_REGISTRY | MANAGE_POLICIES | MANAGE_APPROVALS
  | MANAGE_AUTOMATION | MANAGE_IDENTITIES | MANAGE_APPROVER_KEYS

definition role_text :: "role \<Rightarrow> string" where
  "role_text r = (case r of VIEWER \<Rightarrow> ''viewer'' | EVIDENCE_CONTRIBUTOR \<Rightarrow> ''evidence_contributor''
     | SOURCE_OPERATOR \<Rightarrow> ''source_operator'' | GOVERNANCE_REVIEWER \<Rightarrow> ''governance_reviewer''
     | ADMIN \<Rightarrow> ''admin'')"

definition permission_text :: "permission \<Rightarrow> string" where
  "permission_text p = (case p of READ \<Rightarrow> ''read'' | WRITE_EVIDENCE \<Rightarrow> ''write_evidence''
     | MANAGE_REGISTRY \<Rightarrow> ''manage_registry'' | MANAGE_POLICIES \<Rightarrow> ''manage_policies''
     | MANAGE_APPROVALS \<Rightarrow> ''manage_approvals'' | MANAGE_AUTOMATION \<Rightarrow> ''manage_automation''
     | MANAGE_IDENTITIES \<Rightarrow> ''manage_identities'' | MANAGE_APPROVER_KEYS \<Rightarrow> ''manage_approver_keys'')"

definition all_permissions :: "permission list" where
  "all_permissions = [READ, WRITE_EVIDENCE, MANAGE_REGISTRY, MANAGE_POLICIES, MANAGE_APPROVALS,
     MANAGE_AUTOMATION, MANAGE_IDENTITIES, MANAGE_APPROVER_KEYS]"

definition role_permissions :: "role \<Rightarrow> permission list" where
  "role_permissions r = (case r of VIEWER \<Rightarrow> [READ] | EVIDENCE_CONTRIBUTOR \<Rightarrow> [READ, WRITE_EVIDENCE]
     | SOURCE_OPERATOR \<Rightarrow> [READ, MANAGE_AUTOMATION] | GOVERNANCE_REVIEWER \<Rightarrow> [READ, MANAGE_APPROVALS]
     | ADMIN \<Rightarrow> all_permissions)"

text \<open>\<open>sorted({Role(role) for role in roles}, key=lambda item: item.value)\<close>, and the same for permissions.\<close>

definition normalized_roles :: "role list \<Rightarrow> role list" where
  "normalized_roles roles = sort_key role_text (remdups roles)"

definition granted_permissions :: "role list \<Rightarrow> permission list" where
  "granted_permissions roles = sort_key permission_text (remdups (concat (map role_permissions roles)))"

section \<open>The tables\<close>

record identity =
  id_actor_id :: string
  id_display_name :: "string option"
  id_roles :: "role list"
  id_created_at :: datetime
  id_disabled_at :: "datetime option"

record principal =
  pr_actor_id :: string
  pr_key_id :: string
  pr_roles :: "role list"
  pr_permissions :: "permission list"

record api_key_issued =
  ki_key_id :: string
  ki_actor_id :: string
  ki_token :: string
  ki_created_at :: datetime
  ki_expires_at :: "datetime option"

record api_key_metadata =
  km_key_id :: string
  km_actor_id :: string
  km_token_prefix :: string
  km_created_at :: datetime
  km_expires_at :: "datetime option"
  km_revoked_at :: "datetime option"

record api_key_row = api_key_metadata +
  salt_b64 :: string
  verifier_b64 :: string

record approver_key =
  apk_key_id :: string
  apk_actor_id :: string
  apk_public_key_b64 :: string
  apk_public_key_sha256 :: string
  apk_enrolled_at :: datetime
  apk_enrolled_by :: string
  apk_revoked_at :: "datetime option"
  apk_revoked_by :: "string option"

record audit_event =
  ae_sequence :: int
  ae_event_type :: string
  ae_actor_id :: string
  ae_target_id :: string
  ae_payload :: json
  ae_previous_hash :: "string option"
  ae_hash :: string
  ae_created_at :: datetime

text \<open>The four tables, in insertion order; a row of \<open>auth_audit_events\<close> keeps the document that
  \<open>json.loads\<close> reads from \<open>payload_json\<close>.\<close>

record auth_store =
  identity_table :: "identity list"
  api_key_table :: "api_key_row list"
  approver_table :: "approver_key list"
  audit_table :: "audit_event list"

definition empty_auth_store :: auth_store where
  "empty_auth_store = \<lparr>identity_table = [], api_key_table = [], approver_table = [], audit_table = []\<rparr>"

section \<open>The audit log\<close>

definition audit_body :: "audit_event \<Rightarrow> json" where
  "audit_body e = JObj
     [(''sequence'', JInt (ae_sequence e)), (''event_type'', JStr (ae_event_type e)),
      (''actor_id'', JStr (ae_actor_id e)), (''target_id'', JStr (ae_target_id e)),
      (''payload'', ae_payload e), (''previous_event_hash'', json_opt JStr (ae_previous_hash e)),
      (''created_at'', JStr (isoformat (ae_created_at e)))]"

definition audit_rows :: "audit_event list \<Rightarrow> audit_event list" where
  "audit_rows log = sort_key ae_sequence log"

text \<open>The event \<open>_append_audit\<close> hashes, and the row it inserts (\<open>json.dumps(..., sort_keys=True)\<close>).\<close>

definition next_audit_event :: "string \<Rightarrow> string \<Rightarrow> string \<Rightarrow> json \<Rightarrow> datetime \<Rightarrow> audit_event list \<Rightarrow> audit_event" where
  "next_audit_event etype actor target payload now log =
     (let rows = audit_rows log;
          e = \<lparr>ae_sequence = (if rows = [] then 1 else ae_sequence (last rows) + 1), ae_event_type = etype,
            ae_actor_id = actor, ae_target_id = target, ae_payload = payload,
            ae_previous_hash = (if rows = [] then None else Some (ae_hash (last rows))), ae_hash = [],
            ae_created_at = now\<rparr>
      in e\<lparr>ae_hash := hash_record (audit_body e), ae_payload := sort_json payload\<rparr>)"

definition append_audit :: "string \<Rightarrow> string \<Rightarrow> string \<Rightarrow> json \<Rightarrow> datetime \<Rightarrow> audit_event list
    \<Rightarrow> audit_event list result" where
  "append_audit etype actor target payload now log =
     (let e = next_audit_event etype actor target payload now log in guarded
       [(list_ex (\<lambda>q. ae_sequence q = ae_sequence e) log, IntegrityError ''auth_audit_events.sequence''),
        (list_ex (\<lambda>q. ae_hash q = ae_hash e) log, IntegrityError ''auth_audit_events.event_hash'')]
       (log @ [e]))"

text \<open>A transaction that has changed the tables appends its event and commits; if the insert fails the
  connection rolls everything back.\<close>

definition with_audit :: "string \<Rightarrow> string \<Rightarrow> string \<Rightarrow> json \<Rightarrow> datetime \<Rightarrow> auth_store \<Rightarrow> auth_store
    \<Rightarrow> (auth_store \<Rightarrow> 'a result) \<Rightarrow> auth_store \<times> 'a result" where
  "with_audit etype actor target payload now changed st k =
     (case append_audit etype actor target payload now (audit_table st) of
        Inl e \<Rightarrow> (st, raise e)
      | Inr log \<Rightarrow> (let st' = changed\<lparr>audit_table := log\<rparr> in (st', k st')))"

definition audit_event_ok :: "audit_event \<Rightarrow> bool" where
  "audit_event_ok e = (1 \<le> ae_sequence e \<and> is_sha256_hex (ae_hash e))"

definition audit_events :: "auth_store \<Rightarrow> audit_event list result" where
  "audit_events st = map_result (\<lambda>e. if audit_event_ok e then return e else raise field_error)
     (audit_rows (audit_table st))"

fun audit_failure :: "string option \<Rightarrow> audit_event list \<Rightarrow> audit_event option" where
  "audit_failure previous_hash [] = None"
| "audit_failure previous_hash (e # es) =
     (if ae_previous_hash e \<noteq> previous_hash \<or> hash_record (audit_body e) \<noteq> ae_hash e then Some e
      else audit_failure (Some (ae_hash e)) es)"

definition verify_audit_chain :: "auth_store \<Rightarrow> bool result" where
  "verify_audit_chain st = bind_result (audit_events st) (\<lambda>es. return (audit_failure None es = None))"

section \<open>Identities\<close>

definition roles_payload :: "role list \<Rightarrow> json" where
  "roles_payload roles = JObj [(''roles'', JArr (map (\<lambda>r. JStr (role_text r)) roles))]"

definition identity_from_row :: "identity \<Rightarrow> identity result" where
  "identity_from_row row =
     (if len_between 1 256 (id_actor_id row) \<and> opt_all (\<lambda>s. py_len s \<le> 256) (id_display_name row)
      then return row else raise field_error)"

definition find_identity :: "auth_store \<Rightarrow> string \<Rightarrow> identity option" where
  "find_identity st actor = find (\<lambda>i. id_actor_id i = actor) (identity_table st)"

definition get_identity :: "string \<Rightarrow> auth_store \<Rightarrow> identity result" where
  "get_identity actor st = (case find_identity st actor of
       None \<Rightarrow> raise (KeyError ''Unknown actor_id: '')
     | Some row \<Rightarrow> identity_from_row row)"

definition all_identities :: "auth_store \<Rightarrow> identity list result" where
  "all_identities st = map_result identity_from_row (sort_key id_actor_id (identity_table st))"

definition create_identity :: "string \<Rightarrow> role list \<Rightarrow> string option \<Rightarrow> string \<Rightarrow> datetime \<Rightarrow> auth_store
    \<Rightarrow> auth_store \<times> identity result" where
  "create_identity actor roles display performed_by now st =
     (if is_blank actor then (st, raise (ValueError ''actor_id is required''))
      else if roles = [] then (st, raise (ValueError ''at least one role is required''))
      else
        let row = \<lparr>id_actor_id = actor, id_display_name = display, id_roles = normalized_roles roles,
          id_created_at = now, id_disabled_at = None\<rparr> in
        if list_ex (\<lambda>i. id_actor_id i = actor) (identity_table st)
        then (st, raise (ValueError ''identity already exists''))
        else with_audit ''identity.created'' performed_by actor (roles_payload (normalized_roles roles)) now
          (st\<lparr>identity_table := identity_table st @ [row]\<rparr>) st (\<lambda>_. identity_from_row row))"

definition update_roles :: "string \<Rightarrow> role list \<Rightarrow> string \<Rightarrow> datetime \<Rightarrow> auth_store
    \<Rightarrow> auth_store \<times> identity result" where
  "update_roles actor roles performed_by now st =
     (if roles = [] then (st, raise (ValueError ''at least one role is required''))
      else case get_identity actor st of
        Inl e \<Rightarrow> (st, raise e)
      | Inr current \<Rightarrow>
          if id_disabled_at current \<noteq> None
          then (st, raise (PermissionError ''disabled identity roles cannot be changed''))
          else with_audit ''identity.roles_updated'' performed_by actor
            (roles_payload (normalized_roles roles)) now
            (st\<lparr>identity_table := map (\<lambda>i. if id_actor_id i = actor
               then i\<lparr>id_roles := normalized_roles roles\<rparr> else i) (identity_table st)\<rparr>)
            st (get_identity actor))"

section \<open>API keys\<close>

definition token_text :: "string \<Rightarrow> string \<Rightarrow> string" where
  "token_text key_id secret = ''bp_live_'' @ key_id @ ''_'' @ secret"

definition issue_payload :: "string \<Rightarrow> datetime option \<Rightarrow> json" where
  "issue_payload actor expires = JObj [(''subject_actor_id'', JStr actor),
     (''expires_at'', json_opt (\<lambda>t. JStr (isoformat t)) expires)]"

definition issue_api_key :: "(string \<Rightarrow> byte list \<Rightarrow> byte list) \<Rightarrow> string \<Rightarrow> string \<Rightarrow> datetime option
    \<Rightarrow> string \<Rightarrow> string \<Rightarrow> byte list \<Rightarrow> datetime \<Rightarrow> auth_store \<Rightarrow> auth_store \<times> api_key_issued result" where
  "issue_api_key derive actor performed_by expires key_id secret salt now st =
     (case get_identity actor st of
        Inl e \<Rightarrow> (st, raise e)
      | Inr identity \<Rightarrow>
          if id_disabled_at identity \<noteq> None
          then (st, raise (PermissionError ''cannot issue API key to disabled identity''))
          else if (case expires of None \<Rightarrow> False | Some t \<Rightarrow> utcoffset t = None)
          then (st, raise (ValueError ''expires_at must be timezone-aware''))
          else
            let token = token_text key_id secret;
                row = \<lparr>km_key_id = key_id, km_actor_id = actor, km_token_prefix = take 24 token,
                  km_created_at = now, km_expires_at = expires, km_revoked_at = None,
                  salt_b64 = b64encode salt, verifier_b64 = b64encode (derive secret salt)\<rparr> in
            if list_ex (\<lambda>k. km_key_id k = key_id) (api_key_table st)
            then (st, raise (IntegrityError ''api_keys.key_id''))
            else with_audit ''api_key.issued'' performed_by key_id (issue_payload actor expires) now
              (st\<lparr>api_key_table := api_key_table st @ [row]\<rparr>) st
              (\<lambda>_. return \<lparr>ki_key_id = key_id, ki_actor_id = actor, ki_token = token, ki_created_at = now,
                 ki_expires_at = expires\<rparr>))"

definition bootstrap_admin :: "(string \<Rightarrow> byte list \<Rightarrow> byte list) \<Rightarrow> string \<Rightarrow> string option \<Rightarrow> datetime
    \<Rightarrow> string \<Rightarrow> string \<Rightarrow> byte list \<Rightarrow> datetime \<Rightarrow> auth_store \<Rightarrow> auth_store \<times> api_key_issued result" where
  "bootstrap_admin derive actor display created key_id secret salt now st =
     (if identity_table st \<noteq> []
      then (st, raise (PermissionError ''bootstrap is allowed only before any identity exists''))
      else case create_identity actor [ADMIN] display ''bootstrap'' created st of
        (st1, Inl e) \<Rightarrow> (st1, raise e)
      | (st1, Inr _) \<Rightarrow> issue_api_key derive actor ''bootstrap'' None key_id secret salt now st1)"

definition api_keys :: "auth_store \<Rightarrow> api_key_metadata list" where
  "api_keys st = map api_key_metadata.truncate (sort_key (\<lambda>k. isoformat (km_created_at k)) (api_key_table st))"

definition parse_token :: "string \<Rightarrow> (string \<times> string) option" where
  "parse_token token =
     (if take 8 token \<noteq> ''bp_live_'' then None
      else case partition_at (CHR ''_'') (drop 8 token) of (key_id, separator, secret) \<Rightarrow>
        if \<not> separator \<or> py_len key_id \<noteq> 16 \<or> secret = [] then None else Some (key_id, secret))"

text \<open>\<open>expires_at <= datetime.now(UTC)\<close>, a TypeError for a naive value.\<close>

definition expired_at :: "datetime \<Rightarrow> datetime option \<Rightarrow> bool result" where
  "expired_at now expires = (case expires of
       None \<Rightarrow> return False
     | Some t \<Rightarrow> if utcoffset t = None then raise (TypeError ''can't compare offset-naive and offset-aware datetimes'')
         else return (instant t \<le> instant now))"

definition authenticate :: "(string \<Rightarrow> byte list \<Rightarrow> byte list) \<Rightarrow> datetime \<Rightarrow> string \<Rightarrow> auth_store
    \<Rightarrow> principal option result" where
  "authenticate derive now token st =
     (case parse_token token of
        None \<Rightarrow> return None
      | Some (key_id, secret) \<Rightarrow>
          (case find (\<lambda>k. km_key_id k = key_id) (api_key_table st) of
             None \<Rightarrow> return None
           | Some k \<Rightarrow>
               (case find_identity st (km_actor_id k) of
                  None \<Rightarrow> return None
                | Some i \<Rightarrow>
                    if km_revoked_at k \<noteq> None \<or> id_disabled_at i \<noteq> None then return None
                    else bind_result (expired_at now (km_expires_at k)) (\<lambda>expired.
                      if expired then return None
                      else bind_result (b64decode (salt_b64 k)) (\<lambda>salt.
                        bind_result (b64decode (verifier_b64 k)) (\<lambda>expd.
                          if expd \<noteq> derive secret salt then return None
                          else return (Some \<lparr>pr_actor_id = km_actor_id k, pr_key_id = km_key_id k,
                            pr_roles = id_roles i, pr_permissions = granted_permissions (id_roles i)\<rparr>)))))))"

definition revoke_api_key :: "string \<Rightarrow> string \<Rightarrow> datetime \<Rightarrow> auth_store \<Rightarrow> auth_store \<times> api_key_metadata result" where
  "revoke_api_key key_id performed_by now st =
     (case find (\<lambda>k. km_key_id k = key_id) (api_key_table st) of
        None \<Rightarrow> (st, raise (KeyError ''Unknown key_id: ''))
      | Some row \<Rightarrow>
          if km_revoked_at row \<noteq> None then (st, raise (ValueError ''API key is already revoked''))
          else with_audit ''api_key.revoked'' performed_by key_id (JObj []) now
            (st\<lparr>api_key_table := map (\<lambda>k. if km_key_id k = key_id then k\<lparr>km_revoked_at := Some now\<rparr> else k)
               (api_key_table st)\<rparr>) st
            (\<lambda>st'. case find (\<lambda>k. km_key_id k = key_id) (api_keys st') of
                None \<Rightarrow> raise (RuntimeError ''StopIteration'') | Some k \<Rightarrow> return k))"

section \<open>Approver keys\<close>

definition approver_key_from_row :: "approver_key \<Rightarrow> approver_key result" where
  "approver_key_from_row row = (if is_sha256_hex (apk_public_key_sha256 row) then return row else raise field_error)"

definition get_approver_key :: "string \<Rightarrow> auth_store \<Rightarrow> approver_key result" where
  "get_approver_key key_id st = (case find (\<lambda>k. apk_key_id k = key_id) (approver_table st) of
       None \<Rightarrow> raise (KeyError ''Unknown approver key_id: '')
     | Some row \<Rightarrow> approver_key_from_row row)"

definition approver_keys :: "auth_store \<Rightarrow> approver_key list result" where
  "approver_keys st = map_result approver_key_from_row
     (sort_key (\<lambda>k. isoformat (apk_enrolled_at k)) (approver_table st))"

definition enroll_payload :: "string \<Rightarrow> string \<Rightarrow> json" where
  "enroll_payload actor fingerprint = JObj [(''subject_actor_id'', JStr actor),
     (''public_key_sha256'', JStr fingerprint)]"

definition enroll_approver_key :: "string \<Rightarrow> string \<Rightarrow> string \<Rightarrow> string \<Rightarrow> datetime \<Rightarrow> auth_store
    \<Rightarrow> auth_store \<times> approver_key result" where
  "enroll_approver_key actor public_key_b64 performed_by key_id now st =
     (case get_identity actor st of
        Inl e \<Rightarrow> (st, raise e)
      | Inr identity \<Rightarrow>
          if id_disabled_at identity \<noteq> None \<or> GOVERNANCE_REVIEWER \<notin> set (id_roles identity)
          then (st, raise (PermissionError ''approver keys require an active governance_reviewer identity''))
          else case b64decode public_key_b64 of
            Inl _ \<Rightarrow> (st, raise (ValueError ''public_key_b64 is not valid base64''))
          | Inr raw \<Rightarrow>
              if length raw \<noteq> 32 then (st, raise (ValueError ''Ed25519 public key must be 32 raw bytes''))
              else
                let fingerprint = sha256_bytes raw;
                    row = \<lparr>apk_key_id = key_id, apk_actor_id = actor, apk_public_key_b64 = public_key_b64,
                      apk_public_key_sha256 = fingerprint, apk_enrolled_at = now,
                      apk_enrolled_by = performed_by, apk_revoked_at = None, apk_revoked_by = None\<rparr> in
                if list_ex (\<lambda>k. apk_key_id k = key_id \<or> apk_public_key_sha256 k = fingerprint) (approver_table st)
                then (st, raise (ValueError ''approver public key is already enrolled''))
                else with_audit ''approver_key.enrolled'' performed_by key_id
                  (enroll_payload actor fingerprint) now
                  (st\<lparr>approver_table := approver_table st @ [row]\<rparr>) st (get_approver_key key_id))"

definition revoke_approver_key :: "string \<Rightarrow> string \<Rightarrow> datetime \<Rightarrow> auth_store
    \<Rightarrow> auth_store \<times> approver_key result" where
  "revoke_approver_key key_id performed_by now st =
     (case find (\<lambda>k. apk_key_id k = key_id) (approver_table st) of
        None \<Rightarrow> (st, raise (KeyError ''Unknown approver key_id: ''))
      | Some row \<Rightarrow>
          if apk_revoked_at row \<noteq> None then (st, raise (ValueError ''approver key is already revoked''))
          else with_audit ''approver_key.revoked'' performed_by key_id (JObj []) now
            (st\<lparr>approver_table := map (\<lambda>k. if apk_key_id k = key_id
               then k\<lparr>apk_revoked_at := Some now, apk_revoked_by := Some performed_by\<rparr> else k)
               (approver_table st)\<rparr>) st (get_approver_key key_id))"

definition approver_key_is_active :: "string \<Rightarrow> string \<Rightarrow> auth_store \<Rightarrow> bool" where
  "approver_key_is_active fingerprint approver st =
     (case find (\<lambda>a. apk_public_key_sha256 a = fingerprint \<and> apk_actor_id a = approver
          \<and> find_identity st (apk_actor_id a) \<noteq> None) (approver_table st) of
        None \<Rightarrow> False
      | Some a \<Rightarrow> (case find_identity st (apk_actor_id a) of
            None \<Rightarrow> False
          | Some i \<Rightarrow> apk_revoked_at a = None \<and> id_disabled_at i = None
              \<and> GOVERNANCE_REVIEWER \<in> set (id_roles i)))"

end
