(* ===== verification/Merkle.thy ===== *)
theory Merkle
  imports Hash_Chain
begin

text \<open>
  src/ballotproof/releases.py, the Merkle tree over the records of a release: ordering with the
  duplicate check, \<open>merkle_root\<close>, \<open>build_inclusion_proof\<close> and
  \<open>verify_inclusion_proof\<close>. Leaf and node hashes are not domain separated in the code: a node
  input is always 64 bytes long, so the soundness of proofs needs that no record's canonical JSON has
  exactly 64 bytes.
\<close>

unbundle bit_operations_syntax

section \<open>Records\<close>

datatype release_record_type =
    registry_snapshot_record
  | evidence_version_record
  | attestation_record
  | extraction_record_type
  | extraction_review_record

definition record_type_text :: "release_record_type \<Rightarrow> string" where
  "record_type_text t = (case t of
       registry_snapshot_record \<Rightarrow> ''registry_snapshot''
     | evidence_version_record \<Rightarrow> ''evidence_version''
     | attestation_record \<Rightarrow> ''attestation''
     | extraction_record_type \<Rightarrow> ''extraction''
     | extraction_review_record \<Rightarrow> ''extraction_review'')"

record release_record =
  record_type :: release_record_type
  release_key :: string
  release_payload :: "(string \<times> json) list"

definition record_sort_key :: "release_record \<Rightarrow> string \<times> string" where
  "record_sort_key r = (record_type_text (record_type r), release_key r)"

fun duplicate_key :: "(string \<times> string) option \<Rightarrow> release_record list \<Rightarrow> bool" where
  "duplicate_key previous [] = False"
| "duplicate_key previous (r # rs) =
     (Some (record_sort_key r) = previous \<or> duplicate_key (Some (record_sort_key r)) rs)"

definition ordered_records :: "release_record list \<Rightarrow> release_record list result" where
  "ordered_records records =
     (let ordered = sort_key record_sort_key records
      in if duplicate_key None ordered then raise (ValueError ''duplicate release record key: '')
         else return ordered)"

definition release_record_json :: "release_record \<Rightarrow> json" where
  "release_record_json r = JObj [(''record_type'', JStr (record_type_text (record_type r))),
     (''record_key'', JStr (release_key r)), (''payload'', JObj (release_payload r))]"

definition record_dicts :: "release_record list \<Rightarrow> json list result" where
  "record_dicts records =
     bind_result (ordered_records records) (\<lambda>ordered. return (map release_record_json ordered))"

definition leaf_bytes :: "release_record \<Rightarrow> byte list" where
  "leaf_bytes r = canonical_json_bytes (release_record_json r)"

definition leaf_hash :: "release_record \<Rightarrow> byte list" where
  "leaf_hash r = sha256 (leaf_bytes r)"

section \<open>The tree\<close>

definition pad_level :: "byte list list \<Rightarrow> byte list list" where
  "pad_level level = (if length level mod 2 = 1 then level @ [last level] else level)"

fun pair_level :: "byte list list \<Rightarrow> byte list list" where
  "pair_level (a # b # rest) = sha256 (a @ b) # pair_level rest"
| "pair_level level = []"

lemma length_pair_level [simp]: "length (pair_level xs) = length xs div 2"
  by (induction xs rule: pair_level.induct) auto

lemma length_pad_level: "length (pad_level xs) = (length xs + 1) div 2 * 2"
  unfolding pad_level_def by (auto; presburger)

lemma next_level_shorter: "1 < length xs \<Longrightarrow> length (pair_level (pad_level xs)) < length xs"
  by (simp add: length_pad_level)

function tree_root :: "byte list list \<Rightarrow> byte list" where
  "tree_root level =
     (if length level \<le> 1 then hd level else tree_root (pair_level (pad_level level)))"
  by pat_completeness auto
termination
  by (relation "measure length") (use next_level_shorter in \<open>auto simp: not_le\<close>)

declare tree_root.simps [simp del]

lemma tree_root_single [simp]: "tree_root [a] = a"
  by (simp add: tree_root.simps)

definition merkle_root :: "release_record list \<Rightarrow> string result" where
  "merkle_root records = bind_result (ordered_records records) (\<lambda>ordered.
     if ordered = [] then raise (ValueError ''release requires at least one record'')
     else return (hex (tree_root (map leaf_hash ordered))))"

section \<open>Inclusion proofs\<close>

datatype proof_side = left_side | right_side

record proof_step =
  side :: proof_side
  step_sha256 :: string

record inclusion_proof =
  ip_release_id :: string
  ip_merkle_root :: string
  ip_record_type :: release_record_type
  ip_record_key :: string
  leaf_sha256 :: string
  steps :: "proof_step list"

record proof_bundle =
  bundle_record :: release_record
  bundle_proof :: inclusion_proof

function proof_steps :: "nat \<Rightarrow> byte list list \<Rightarrow> proof_step list" where
  "proof_steps index level =
     (if length level \<le> 1 then []
      else (let padded = pad_level level; sibling_index = index XOR 1
            in \<lparr>side = (if sibling_index < index then left_side else right_side),
                step_sha256 = hex (padded ! sibling_index)\<rparr>
               # proof_steps (index div 2) (pair_level padded)))"
  by pat_completeness auto
termination
  by (relation "measure (\<lambda>(index, level). length level)")
    (use next_level_shorter in \<open>auto simp: not_le\<close>)

declare proof_steps.simps [simp del]

text \<open>The matches of a type and key with their positions in the order.\<close>

definition record_matches :: "release_record_type \<Rightarrow> string \<Rightarrow> release_record list
    \<Rightarrow> (nat \<times> release_record) list" where
  "record_matches ty key ordered =
     filter (\<lambda>(index, r). record_type r = ty \<and> release_key r = key) (enumerate 0 ordered)"

definition build_inclusion_proof :: "release_record list \<Rightarrow> string \<Rightarrow> release_record_type \<Rightarrow> string
    \<Rightarrow> proof_bundle result" where
  "build_inclusion_proof records release_id ty key =
     bind_result (ordered_records records) (\<lambda>ordered.
       if ordered = [] then raise (ValueError ''release requires at least one record'')
       else (case record_matches ty key ordered of
           [] \<Rightarrow> raise (KeyError ''Unknown release record: '')
         | (index, r) # _ \<Rightarrow>
             bind_result (merkle_root ordered) (\<lambda>root_hash.
               return \<lparr>bundle_record = r, bundle_proof =
                 \<lparr>ip_release_id = release_id, ip_merkle_root = root_hash,
                  ip_record_type = record_type r, ip_record_key = release_key r,
                  leaf_sha256 = hex (leaf_hash r),
                  steps = proof_steps index (map leaf_hash ordered)\<rparr>\<rparr>)))"

fun climb :: "proof_step list \<Rightarrow> byte list \<Rightarrow> byte list result" where
  "climb [] current = return current"
| "climb (st # sts) current =
     (case unhex (step_sha256 st) of
        None \<Rightarrow> raise (ValueError ''non-hexadecimal number found in fromhex() arg'')
      | Some sibling \<Rightarrow> climb sts
          (if side st = left_side then sha256 (sibling @ current) else sha256 (current @ sibling)))"

definition verify_inclusion_proof :: "proof_bundle \<Rightarrow> bool result" where
  "verify_inclusion_proof b =
     (let r = bundle_record b; p = bundle_proof b; current = leaf_hash r in
      if record_type r \<noteq> ip_record_type p \<or> release_key r \<noteq> ip_record_key p then return False
      else if hex current \<noteq> leaf_sha256 p then return False
      else bind_result (climb (steps p) current) (\<lambda>current. return (hex current = ip_merkle_root p)))"

section \<open>Ordering\<close>

lemma record_type_text_inj: "record_type_text a = record_type_text b \<longleftrightarrow> a = b"
  by (cases a; cases b) (simp_all add: record_type_text_def)

lemma duplicate_key_sorted:
  "sorted (map record_sort_key rs) \<Longrightarrow> (\<forall>k. previous = Some k \<longrightarrow> (\<forall>r \<in> set rs. k \<le> record_sort_key r)) \<Longrightarrow>
   \<not> duplicate_key previous rs \<longleftrightarrow>
     distinct (map record_sort_key rs) \<and> (\<forall>r \<in> set rs. Some (record_sort_key r) \<noteq> previous)"
proof (induction rs arbitrary: previous)
  case (Cons r rs)
  have ih: "\<not> duplicate_key (Some (record_sort_key r)) rs \<longleftrightarrow> distinct (map record_sort_key rs)
      \<and> (\<forall>q \<in> set rs. record_sort_key q \<noteq> record_sort_key r)"
    using Cons.IH [of "Some (record_sort_key r)"] Cons.prems(1) by simp
  have "record_sort_key q \<noteq> k" if "previous = Some k" "k \<noteq> record_sort_key r" "q \<in> set rs" for k q
  proof -
    have "k < record_sort_key r" using Cons.prems(2) that by fastforce
    also have "\<dots> \<le> record_sort_key q" using Cons.prems(1) that(3) by simp
    finally show ?thesis by simp
  qed
  with ih show ?case by (cases previous) (auto simp: image_iff)
qed simp

lemma distinct_sort_key [simp]:
  "distinct (map record_sort_key (sort_key record_sort_key rs)) = distinct (map record_sort_key rs)"
  by (metis mset_eq_imp_distinct_iff mset_map mset_sort)

lemma ordered_records_Inr:
  "ordered_records rs = Inr os \<longleftrightarrow> distinct (map record_sort_key rs) \<and> os = sort_key record_sort_key rs"
  using duplicate_key_sorted [of "sort_key record_sort_key rs" None]
  by (auto simp: ordered_records_def Let_def)

lemma sort_key_same:
  assumes "mset xs = mset ys" "distinct (map record_sort_key xs)"
  shows "sort_key record_sort_key xs = sort_key record_sort_key ys"
proof (rule map_sorted_distinct_set_unique [of record_sort_key])
  have d: "distinct (map record_sort_key ys)" using assms by (metis mset_eq_imp_distinct_iff mset_map)
  have set: "set xs = set ys" using assms(1) by (rule mset_eq_setD)
  show "inj_on record_sort_key (set (sort_key record_sort_key xs) \<union> set (sort_key record_sort_key ys))"
    using assms(2) set by (simp add: distinct_map)
  show "distinct (map record_sort_key (sort_key record_sort_key xs))"
    "distinct (map record_sort_key (sort_key record_sort_key ys))"
    using assms(2) d by simp_all
  show "set (sort_key record_sort_key xs) = set (sort_key record_sort_key ys)" using set by simp
qed simp_all

section \<open>Proofs are complete\<close>

lemma pair_level_nth:
  "i < length xs div 2 \<Longrightarrow> pair_level xs ! i = sha256 (xs ! (2 * i) @ xs ! (2 * i + 1))"
proof (induction xs arbitrary: i rule: pair_level.induct)
  case (1 a b rest)
  then show ?case by (cases i) auto
qed auto

lemma pad_level_nth: "i < length xs \<Longrightarrow> pad_level xs ! i = xs ! i"
  by (simp add: pad_level_def nth_append)

lemma xor_one: "(i :: nat) XOR 1 = (if even i then i + 1 else i - 1)"
  by (simp add: xor_Suc_0_eq)

lemma climb_proof_steps:
  "i < length level \<Longrightarrow> climb (proof_steps i level) (level ! i) = Inr (tree_root level)"
proof (induction i level rule: proof_steps.induct)
  case (1 i level)
  show ?case
  proof (cases "length level \<le> 1")
    case True
    then have "level ! i = hd level" using "1.prems" by (cases level) auto
    with True show ?thesis by (simp add: proof_steps.simps [of i] tree_root.simps [of level])
  next
    case False
    let ?p = "pad_level level" and ?up = "pair_level (pad_level level)"
    have len: "length ?p div 2 = (length level + 1) div 2" by (simp add: length_pad_level)
    have half: "i div 2 < length ?p div 2" using "1.prems" len by linarith
    have ih: "climb (proof_steps (i div 2) ?up) (?up ! (i div 2)) = Inr (tree_root ?up)"
      using "1.IH" [OF False refl refl] half by simp
    have here: "?p ! i = level ! i" using "1.prems" by (rule pad_level_nth)
    have up: "?up ! (i div 2) = sha256 (?p ! (2 * (i div 2)) @ ?p ! (2 * (i div 2) + 1))"
      using half by (rule pair_level_nth)
    have step: "?up ! (i div 2) = (if i XOR 1 < i then sha256 (?p ! (i XOR 1) @ level ! i)
        else sha256 (level ! i @ ?p ! (i XOR 1)))"
    proof (cases "even i")
      case True
      then have "2 * (i div 2) = i" by simp
      then show ?thesis using True here up unfolding xor_one by simp
    next
      case odd: False
      then have "2 * (i div 2) = i - 1" "i - 1 + 1 = i" "i - 1 < i" by presburger+
      then show ?thesis using odd here up unfolding xor_one by simp
    qed
    then show ?thesis
      using ih False unfolding step
      by (cases "i XOR 1 < i")
        (simp_all add: proof_steps.simps [of i] tree_root.simps [of level] Let_def del: One_nat_def)
  qed
qed

lemma record_matches_Nil:
  "record_matches ty key ordered = [] \<longleftrightarrow>
     \<not> list_ex (\<lambda>r. record_type r = ty \<and> release_key r = key) ordered"
proof -
  have "set ordered = snd ` set (enumerate 0 ordered)" by (metis list.set_map map_snd_enumerate)
  then show ?thesis
    by (auto simp: record_matches_def filter_empty_conv list_ex_iff case_prod_unfold)
qed

lemma record_matches_Cons:
  assumes "record_matches ty key ordered = (index, r) # rest"
  shows "index < length ordered" "ordered ! index = r" "record_type r = ty" "release_key r = key"
proof -
  have "(index, r) \<in> set (record_matches ty key ordered)" by (simp add: assms)
  then show "index < length ordered" "ordered ! index = r" "record_type r = ty" "release_key r = key"
    by (auto simp: record_matches_def in_set_enumerate_eq)
qed

lemma sort_key_idem [simp]:
  "sort_key record_sort_key (sort_key record_sort_key rs) = sort_key record_sort_key rs"
  by (rule sort_key_id_if_sorted) simp

text \<open>C6. For records without duplicate keys an inclusion proof can be built for every record of
  the release and for no other key, and the proof that is built always verifies, is about the
  record asked for, and carries the Merkle root of the release.\<close>

theorem inclusion_proof_complete:
  assumes "distinct (map record_sort_key records)"
  shows "case build_inclusion_proof records rid ty key of
      Inl e \<Rightarrow> \<not> list_ex (\<lambda>r. record_type r = ty \<and> release_key r = key) records
    | Inr b \<Rightarrow> verify_inclusion_proof b = Inr True \<and> bundle_record b \<in> set records
        \<and> record_type (bundle_record b) = ty \<and> release_key (bundle_record b) = key
        \<and> merkle_root records = Inr (ip_merkle_root (bundle_proof b))
        \<and> ip_release_id (bundle_proof b) = rid"
proof -
  let ?os = "sort_key record_sort_key records"
  have ord: "ordered_records records = Inr ?os" "ordered_records ?os = Inr ?os"
    using assms by (simp_all add: ordered_records_Inr)
  show ?thesis
  proof (cases "record_matches ty key ?os")
    case Nil
    then have "\<not> list_ex (\<lambda>r. record_type r = ty \<and> release_key r = key) records"
      by (simp add: record_matches_Nil list_ex_iff)
    with Nil show ?thesis by (simp add: build_inclusion_proof_def ord split: if_splits)
  next
    case (Cons m rest)
    obtain index r where m: "m = (index, r)" by fastforce
    note r = record_matches_Cons [OF Cons [unfolded m]]
    have ne: "?os \<noteq> []" using r(1) by (cases ?os) auto
    have mem: "r \<in> set records" using nth_mem [OF r(1)] r(2) by simp
    have root: "merkle_root ?os = Inr (hex (tree_root (map leaf_hash ?os)))"
      "merkle_root records = Inr (hex (tree_root (map leaf_hash ?os)))"
      using ne by (simp_all add: merkle_root_def ord)
    have "climb (proof_steps index (map leaf_hash ?os)) (leaf_hash r) = Inr (tree_root (map leaf_hash ?os))"
      using climb_proof_steps [of index "map leaf_hash ?os"] r by simp
    then show ?thesis
      using ne r mem root
      by (simp add: build_inclusion_proof_def ord Cons m verify_inclusion_proof_def Let_def)
  qed
qed

section \<open>The root binds the records\<close>

text \<open>Everything that is hashed to compute a root, and the hashes above the leaves.\<close>

fun pair_inputs :: "byte list list \<Rightarrow> byte list list" where
  "pair_inputs (a # b # rest) = (a @ b) # pair_inputs rest"
| "pair_inputs level = []"

lemma pair_level_inputs: "pair_level xs = map sha256 (pair_inputs xs)"
  by (induction xs rule: pair_inputs.induct) auto

lemma length_pair_inputs [simp]: "length (pair_inputs xs) = length xs div 2"
  by (induction xs rule: pair_inputs.induct) auto

lemma pair_inputs_set: "x \<in> set (pair_inputs xs) \<Longrightarrow> \<exists>a b. x = a @ b \<and> a \<in> set xs \<and> b \<in> set xs"
  by (induction xs rule: pair_inputs.induct) auto

function node_inputs :: "byte list list \<Rightarrow> byte list set" where
  "node_inputs level = (if length level \<le> 1 then {}
     else set (pair_inputs (pad_level level)) \<union> node_inputs (pair_level (pad_level level)))"
  by pat_completeness auto
termination
  by (relation "measure length") (use next_level_shorter in \<open>auto simp: not_le\<close>)

declare node_inputs.simps [simp del]

definition digests :: "byte list list \<Rightarrow> bool" where
  "digests level \<longleftrightarrow> list_all (\<lambda>h. length h = 32) level"

lemma set_pad_level: "xs \<noteq> [] \<Longrightarrow> set (pad_level xs) = set xs"
  by (auto simp: pad_level_def)

lemma digests_pad: "xs \<noteq> [] \<Longrightarrow> digests xs \<Longrightarrow> digests (pad_level xs)"
  by (simp add: digests_def list_all_iff set_pad_level)

lemma digests_up [simp]: "digests (pair_level xs)"
  by (simp add: digests_def pair_level_inputs list_all_iff)

lemma pair_inputs_inj:
  assumes "digests xs" "digests ys" "even (length xs)" "length xs = length ys"
    "pair_inputs xs = pair_inputs ys"
  shows "xs = ys"
  using assms
proof (induction xs arbitrary: ys rule: pair_inputs.induct)
  case (1 a b rest)
  then obtain c d rest' where ys: "ys = c # d # rest'" by (metis length_Suc_conv)
  have "a @ b = c @ d" "pair_inputs rest = pair_inputs rest'" using "1.prems"(5) by (simp_all add: ys)
  moreover have "length a = length c" using "1.prems"(1,2) by (simp add: digests_def ys)
  moreover have "rest = rest'" using "1.IH" [of rest'] "1.prems" by (simp add: digests_def ys)
  ultimately show ?case by (simp add: ys)
qed simp_all

lemma pad_level_inj:
  assumes "length xs = length ys" "pad_level xs = pad_level ys"
  shows "xs = ys"
  using assms by (auto simp: pad_level_def split: if_splits)

lemma tree_root_inj:
  assumes "tree_root xs = tree_root ys" "length xs = length ys" "xs \<noteq> []" "digests xs" "digests ys"
    "collision_free (node_inputs xs \<union> node_inputs ys)"
  shows "xs = ys"
  using assms
proof (induction xs arbitrary: ys rule: tree_root.induct)
  case (1 xs)
  show ?case
  proof (cases "length xs \<le> 1")
    case True
    with "1.prems" show ?thesis
      by (cases xs; cases ys) auto
  next
    case False
    let ?px = "pad_level xs" and ?py = "pad_level ys"
    have F': "\<not> length ys \<le> 1" using False "1.prems"(2) by simp
    have ne: "xs \<noteq> []" "ys \<noteq> []" using False F' by auto
    have in_x: "node_inputs xs = set (pair_inputs ?px) \<union> node_inputs (pair_level ?px)"
      using False by (subst node_inputs.simps) simp
    have in_y: "node_inputs ys = set (pair_inputs ?py) \<union> node_inputs (pair_level ?py)"
      using F' by (subst node_inputs.simps) simp
    have len: "length ?px = length ?py" using "1.prems"(2) by (simp add: length_pad_level)
    have "0 < (length xs + 1) div 2" using False by (simp add: div_greater_zero_iff)
    moreover have "length (pair_level ?px) = (length xs + 1) div 2" by (simp add: length_pad_level)
    ultimately have upne: "pair_level ?px \<noteq> []" by (metis length_greater_0_conv)
    have "tree_root (pair_level ?px) = tree_root (pair_level ?py)"
      using "1.prems"(1) False F' by (simp add: tree_root.simps [of xs] tree_root.simps [of ys])
    moreover have "collision_free (node_inputs (pair_level ?px) \<union> node_inputs (pair_level ?py))"
      using "1.prems"(6) by (rule collision_free_subset) (auto simp: in_x in_y)
    ultimately have "pair_level ?px = pair_level ?py"
      using "1.IH" [OF False] upne len by simp
    then have eq: "map sha256 (pair_inputs ?px) = map sha256 (pair_inputs ?py)"
      by (simp only: pair_level_inputs)
    have "collision_free (set (pair_inputs ?px) \<union> set (pair_inputs ?py))"
      using "1.prems"(6) by (rule collision_free_subset) (auto simp: in_x in_y)
    then have "pair_inputs ?px = pair_inputs ?py"
      by (intro map_inj_on [OF eq]) (simp add: collision_free_def)
    then have "?px = ?py"
      using pair_inputs_inj [of ?px ?py] "1.prems"(4,5) ne len
      by (simp add: digests_pad length_pad_level)
    then show ?thesis using pad_level_inj "1.prems"(2) by blast
  qed
qed

text \<open>Equality of records, with the payloads compared as dictionaries, and what is hashed for them.\<close>

definition same_record :: "release_record \<Rightarrow> release_record \<Rightarrow> bool" where
  "same_record a b \<longleftrightarrow> record_type a = record_type b \<and> release_key a = release_key b
     \<and> json_eq (JObj (release_payload a)) (JObj (release_payload b))"

definition payload_ok :: "release_record \<Rightarrow> bool" where
  "payload_ok r = json_ok (JObj (release_payload r))"

definition leaf_level :: "release_record list \<Rightarrow> byte list list" where
  "leaf_level rs = map leaf_hash (sort_key record_sort_key rs)"

definition hashed_for :: "release_record list \<Rightarrow> byte list set" where
  "hashed_for rs = leaf_bytes ` set rs \<union> node_inputs (leaf_level rs)"

lemma leaf_level_digests [simp]: "digests (leaf_level rs)"
  by (simp add: leaf_level_def digests_def list_all_iff leaf_hash_def)

lemma release_record_json_eq:
  "json_eq (release_record_json a) (release_record_json b) \<longleftrightarrow> same_record a b"
  unfolding release_record_json_def same_record_def
  by (subst json_eq_fields) (auto simp: record_type_text_inj simp del: json_eq.simps(2))

lemma release_record_json_ok: "payload_ok r \<Longrightarrow> json_ok (release_record_json r)"
  by (simp add: release_record_json_def payload_ok_def)

lemma leaf_hash_eq:
  assumes "payload_ok a" "payload_ok b" "leaf_bytes a \<in> M" "leaf_bytes b \<in> M" "collision_free M"
  shows "leaf_hash a = leaf_hash b \<longleftrightarrow> same_record a b"
proof -
  have "leaf_hash a = leaf_hash b \<longleftrightarrow> leaf_bytes a = leaf_bytes b"
    using collision_freeD [OF assms(5) _ assms(3,4)] by (auto simp: leaf_hash_def)
  then show ?thesis
    by (simp add: leaf_bytes_def canonical_bytes_eq release_record_json_ok assms(1,2) release_record_json_eq)
qed

lemma merkle_root_Inr:
  "merkle_root rs = Inr h \<longleftrightarrow> distinct (map record_sort_key rs) \<and> rs \<noteq> [] \<and> h = hex (tree_root (leaf_level rs))"
proof -
  have "sort_key record_sort_key rs = [] \<longleftrightarrow> rs = []" by (metis length_0_conv length_sort)
  then show ?thesis by (auto simp: merkle_root_def ordered_records_Inr leaf_level_def)
qed

text \<open>Two releases with the same number of records (the count is part of the signed manifest) have
  the same Merkle root exactly when they have the same records, whatever the order in which the
  records were collected, unless SHA-256 collides on the inputs concerned.\<close>

theorem merkle_root_binds:
  assumes "merkle_root xs = Inr h" "merkle_root ys = Inr k" "length xs = length ys"
    "list_all payload_ok xs" "list_all payload_ok ys" "collision_free (hashed_for xs \<union> hashed_for ys)"
  shows "h = k \<longleftrightarrow> list_all2 same_record (sort_key record_sort_key xs) (sort_key record_sort_key ys)"
proof -
  let ?X = "sort_key record_sort_key xs" and ?Y = "sort_key record_sort_key ys"
  note x = assms(1) [unfolded merkle_root_Inr] and y = assms(2) [unfolded merkle_root_Inr]
  have ne: "leaf_level xs \<noteq> []" using x by (metis leaf_level_def length_map length_sort length_0_conv)
  have len: "length (leaf_level xs) = length (leaf_level ys)" using assms(3) by (simp add: leaf_level_def)
  have cf: "collision_free (node_inputs (leaf_level xs) \<union> node_inputs (leaf_level ys))"
    using assms(6) by (rule collision_free_subset) (auto simp: hashed_for_def)
  have "h = k \<longleftrightarrow> leaf_level xs = leaf_level ys"
    using x y tree_root_inj [OF _ len ne leaf_level_digests leaf_level_digests cf] by (auto simp: hex_inj)
  also have "\<dots> \<longleftrightarrow> list_all2 (\<lambda>a b. leaf_hash a = leaf_hash b) ?X ?Y"
    by (simp add: leaf_level_def list.rel_eq [symmetric] list_all2_map1 list_all2_map2)
  also have "\<dots> \<longleftrightarrow> list_all2 same_record ?X ?Y"
  proof -
    have "leaf_hash a = leaf_hash b \<longleftrightarrow> same_record a b" if "a \<in> set xs" "b \<in> set ys" for a b
      using that assms(4,5) by (intro leaf_hash_eq [OF _ _ _ _ assms(6)])
        (auto simp: list_all_iff hashed_for_def)
    then show ?thesis unfolding list_all2_conv_all_nth
      by (metis (no_types, lifting) length_sort nth_mem set_sort)
  qed
  finally show ?thesis .
qed

section \<open>Proofs are sound\<close>

text \<open>The inputs that checking a proof hashes above the leaf, and the fields' pattern
  \<open>^[a-f0-9]{64}$\<close>.\<close>

fun climb_inputs :: "proof_step list \<Rightarrow> byte list \<Rightarrow> byte list set" where
  "climb_inputs [] current = {}"
| "climb_inputs (st # sts) current =
     (case unhex (step_sha256 st) of None \<Rightarrow> {}
      | Some sibling \<Rightarrow> let x = (if side st = left_side then sibling @ current else current @ sibling)
          in insert x (climb_inputs sts (sha256 x)))"

definition step_ok :: "proof_step \<Rightarrow> bool" where
  "step_ok st = (case unhex (step_sha256 st) of None \<Rightarrow> False | Some sibling \<Rightarrow> length sibling = 32)"

lemma node_inputs_parts:
  "digests level \<Longrightarrow> x \<in> node_inputs level \<Longrightarrow> \<exists>a b. x = a @ b \<and> length a = 32 \<and> length b = 32
     \<and> a \<in> set level \<union> sha256 ` node_inputs level \<and> b \<in> set level \<union> sha256 ` node_inputs level"
proof (induction level rule: node_inputs.induct)
  case (1 level)
  let ?p = "pad_level level"
  have long: "\<not> length level \<le> 1" using "1.prems"(2) by (subst (asm) node_inputs.simps) (auto split: if_splits)
  then have ne: "level \<noteq> []" by auto
  have n: "node_inputs level = set (pair_inputs ?p) \<union> node_inputs (pair_level ?p)"
    using long by (subst node_inputs.simps) simp
  show ?case
  proof (cases "x \<in> set (pair_inputs ?p)")
    case True
    then obtain a b where "x = a @ b" "a \<in> set ?p" "b \<in> set ?p" using pair_inputs_set by blast
    then show ?thesis using "1.prems"(1) ne by (auto simp: set_pad_level digests_def list_all_iff)
  next
    case False
    then have "x \<in> node_inputs (pair_level ?p)" using "1.prems"(2) n by simp
    then obtain a b where ab: "x = a @ b" "length a = 32" "length b = 32"
      "a \<in> set (pair_level ?p) \<union> sha256 ` node_inputs (pair_level ?p)"
      "b \<in> set (pair_level ?p) \<union> sha256 ` node_inputs (pair_level ?p)"
      using "1.IH" [OF long digests_up] by blast
    have sub: "set (pair_level ?p) \<union> sha256 ` node_inputs (pair_level ?p) \<subseteq> sha256 ` node_inputs level"
      by (auto simp: n pair_level_inputs)
    show ?thesis
      by (rule exI [of _ a], rule exI [of _ b])
        (simp only: ab(1-3) subsetD [OF sub ab(4)] subsetD [OF sub ab(5)] Un_iff simp_thms)
  qed
qed

lemma node_inputs_length:
  assumes "digests level" "x \<in> node_inputs level"
  shows "length x = 64"
proof -
  obtain a b where "x = a @ b \<and> length a = 32 \<and> length b = 32 \<and> a \<in> set level \<union> sha256 ` node_inputs level
      \<and> b \<in> set level \<union> sha256 ` node_inputs level"
    using node_inputs_parts [OF assms] by (elim exE)
  then show ?thesis by (elim conjE) simp
qed

lemma tree_root_where: "level \<noteq> [] \<Longrightarrow> tree_root level \<in> set level \<union> sha256 ` node_inputs level"
proof (induction level rule: tree_root.induct)
  case (1 level)
  show ?case
  proof (cases "length level \<le> 1")
    case True
    then show ?thesis using "1.prems" by (simp add: tree_root.simps [of level])
  next
    case False
    let ?up = "pair_level (pad_level level)"
    have "0 < (length level + 1) div 2" using False by (simp add: div_greater_zero_iff)
    moreover have "length ?up = (length level + 1) div 2" by (simp add: length_pad_level)
    ultimately have "?up \<noteq> []" by (metis length_greater_0_conv)
    then have "tree_root ?up \<in> set ?up \<union> sha256 ` node_inputs ?up" using "1.IH" False by blast
    moreover have "node_inputs level = set (pair_inputs (pad_level level)) \<union> node_inputs ?up"
      using False by (subst node_inputs.simps) simp
    then have "set ?up \<union> sha256 ` node_inputs ?up \<subseteq> sha256 ` node_inputs level"
      by (auto simp: pair_level_inputs)
    ultimately show ?thesis using False by (auto simp: tree_root.simps [of level])
  qed
qed

text \<open>A path that climbs to the root starts at a leaf hash, at a node, or passes through a leaf hash.\<close>

lemma climb_start:
  assumes "climb sts c = Inr (tree_root level)" "level \<noteq> []" "digests level" "length c = 32"
    "list_all step_ok sts" "collision_free (node_inputs level \<union> climb_inputs sts c)"
  shows "c \<in> set level \<union> sha256 ` node_inputs level \<or> (\<exists>x \<in> climb_inputs sts c. sha256 x \<in> set level)"
  using assms
proof (induction sts arbitrary: c)
  case Nil
  then show ?case using tree_root_where [of level] by simp
next
  case (Cons st sts)
  obtain sib where sib: "unhex (step_sha256 st) = Some sib" "length sib = 32"
    using Cons.prems(5) by (auto simp: step_ok_def split: option.splits)
  let ?x = "if side st = left_side then sib @ c else c @ sib"
  have in_x: "climb_inputs (st # sts) c = insert ?x (climb_inputs sts (sha256 ?x))"
    by (simp add: sib Let_def)
  have up: "climb sts (sha256 ?x) = Inr (tree_root level)" using Cons.prems(1) by (simp add: sib split: if_splits)
  have cf: "collision_free (node_inputs level \<union> climb_inputs sts (sha256 ?x))"
    using Cons.prems(6) by (rule collision_free_subset) (simp only: in_x, blast)
  consider "sha256 ?x \<in> set level" | "sha256 ?x \<in> sha256 ` node_inputs level"
    | "\<exists>x \<in> climb_inputs sts (sha256 ?x). sha256 x \<in> set level"
    using Cons.IH [OF up Cons.prems(2,3) _ _ cf] Cons.prems(5) by auto
  then show ?case
  proof cases
    case 2
    then obtain y where y: "y \<in> node_inputs level" "sha256 ?x = sha256 y" by blast
    have "?x = y" by (rule collision_freeD [OF Cons.prems(6) y(2)]) (use y(1) in_x in auto)
    then obtain a b where ab: "?x = a @ b" "length a = 32" "length b = 32"
      "a \<in> set level \<union> sha256 ` node_inputs level" "b \<in> set level \<union> sha256 ` node_inputs level"
      using node_inputs_parts [OF Cons.prems(3) y(1)] by blast
    then have "c = a \<or> c = b" using Cons.prems(4) sib(2) by (auto split: if_splits)
    with ab show ?thesis by blast
  qed (unfold in_x, blast+)
qed

lemma climb_inputs_length:
  "list_all step_ok sts \<Longrightarrow> length c = 32 \<Longrightarrow> x \<in> climb_inputs sts c \<Longrightarrow> length x = 64"
proof (induction sts arbitrary: c)
  case (Cons st sts)
  obtain sib where sib: "unhex (step_sha256 st) = Some sib" "length sib = 32"
    using Cons.prems(1) by (auto simp: step_ok_def split: option.splits)
  let ?y = "if side st = left_side then sib @ c else c @ sib"
  have "x = ?y \<or> x \<in> climb_inputs sts (sha256 ?y)" using Cons.prems(3) by (simp add: sib Let_def)
  moreover have "length ?y = 64" using Cons.prems(2) sib(2) by simp
  ultimately show ?case using Cons.IH [of "sha256 ?y"] Cons.prems(1) by auto
qed simp

text \<open>C7. A proof that verifies against the Merkle root of a release is about a record of that release: no
  proof can be made up for a record that is not in it, unless SHA-256 collides on the inputs
  concerned or some record's document has the 64 bytes of a node (the code does not separate the
  domains of leaves and nodes).\<close>

theorem inclusion_proof_sound:
  assumes "verify_inclusion_proof b = Inr True"
    "merkle_root records = Inr (ip_merkle_root (bundle_proof b))"
    "list_all step_ok (steps (bundle_proof b))"
    "list_all payload_ok (bundle_record b # records)"
    "list_all (\<lambda>r. length (leaf_bytes r) \<noteq> 64) (bundle_record b # records)"
    "collision_free (insert (leaf_bytes (bundle_record b)) (hashed_for records
       \<union> climb_inputs (steps (bundle_proof b)) (leaf_hash (bundle_record b))))"
  shows "list_ex (same_record (bundle_record b)) records"
proof -
  let ?r = "bundle_record b" and ?sts = "steps (bundle_proof b)" and ?lv = "leaf_level records"
  let ?M = "insert (leaf_bytes ?r) (hashed_for records \<union> climb_inputs ?sts (leaf_hash ?r))"
  have root: "ip_merkle_root (bundle_proof b) = hex (tree_root ?lv)" "records \<noteq> []"
    using assms(2) by (simp_all add: merkle_root_Inr)
  obtain cur where cur: "climb ?sts (leaf_hash ?r) = Inr cur" "hex cur = ip_merkle_root (bundle_proof b)"
    using assms(1) by (auto simp: verify_inclusion_proof_def Let_def split: if_splits)
  then have climb: "climb ?sts (leaf_hash ?r) = Inr (tree_root ?lv)" using root by (simp add: hex_inj)
  have ne: "?lv \<noteq> []" using root(2) by (metis leaf_level_def length_map length_sort length_0_conv)
  have len: "length (leaf_hash ?r) = 32" by (simp add: leaf_hash_def)
  have cf: "collision_free (node_inputs ?lv \<union> climb_inputs ?sts (leaf_hash ?r))"
    using assms(6) by (rule collision_free_subset) (auto simp: hashed_for_def)
  have leaf: "\<exists>q \<in> set records. h = sha256 (leaf_bytes q)" if "h \<in> set ?lv" for h
    using that by (auto simp: leaf_level_def leaf_hash_def)
  have leaf_in: "leaf_bytes q \<in> ?M" "length (leaf_bytes q) \<noteq> 64" if "q \<in> set records" for q
    using that assms(5) by (auto simp: hashed_for_def list_all_iff)
  consider q where "q \<in> set records" "leaf_hash ?r = sha256 (leaf_bytes q)"
    | y where "y \<in> node_inputs ?lv" "leaf_hash ?r = sha256 y"
    | x q where "x \<in> climb_inputs ?sts (leaf_hash ?r)" "q \<in> set records" "sha256 x = sha256 (leaf_bytes q)"
    using climb_start [OF climb ne leaf_level_digests len assms(3) cf] leaf by blast
  then show ?thesis
  proof cases
    case 1
    then have "same_record ?r q"
      using leaf_hash_eq [OF _ _ _ leaf_in(1) [OF 1(1)] assms(6)] assms(4)
      by (auto simp: leaf_hash_def list_all_iff)
    with 1(1) show ?thesis by (auto simp: list_ex_iff)
  next
    case 2
    then have "leaf_bytes ?r = y"
      by (subst collision_freeD [OF assms(6), of _ y]) (simp_all add: leaf_hash_def hashed_for_def)
    with node_inputs_length [OF leaf_level_digests 2(1)] assms(5) show ?thesis by simp
  next
    case 3
    then have "x = leaf_bytes q" using leaf_in(1) [OF 3(2)] by (intro collision_freeD [OF assms(6) 3(3)]) simp_all
    then show ?thesis using climb_inputs_length [OF assms(3) len 3(1)] leaf_in(2) [OF 3(2)] by simp
  qed
qed

section \<open>Witnesses\<close>

definition demo_record :: "string \<Rightarrow> release_record" where
  "demo_record key = \<lparr>record_type = registry_snapshot_record, release_key = key,
     release_payload = [(''registry_id'', JStr key), (''version'', JInt 1)]\<rparr>"

lemma demo_record_ok [simp]: "payload_ok (demo_record key)"
  by (simp add: payload_ok_def demo_record_def)

lemma demo_sort_key: "record_sort_key (demo_record key) = (''registry_snapshot'', key)"
  by (simp add: record_sort_key_def demo_record_def record_type_text_def)

lemma inclusion_proof_complete_witness:
  "case build_inclusion_proof (map demo_record [''c'', ''a'', ''b'']) ''r1'' registry_snapshot_record ''b'' of
      Inl e \<Rightarrow> \<not> list_ex (\<lambda>r. record_type r = registry_snapshot_record \<and> release_key r = ''b'')
        (map demo_record [''c'', ''a'', ''b''])
    | Inr b \<Rightarrow> verify_inclusion_proof b = Inr True \<and> bundle_record b \<in> set (map demo_record [''c'', ''a'', ''b''])
        \<and> record_type (bundle_record b) = registry_snapshot_record \<and> release_key (bundle_record b) = ''b''
        \<and> merkle_root (map demo_record [''c'', ''a'', ''b'']) = Inr (ip_merkle_root (bundle_proof b))
        \<and> ip_release_id (bundle_proof b) = ''r1''"
  by (rule inclusion_proof_complete) (simp add: demo_sort_key)

lemma demo_single:
  "merkle_root [demo_record key] = Inr (hex (leaf_hash (demo_record key)))"
  "hashed_for [demo_record key] = {leaf_bytes (demo_record key)}"
  "sort_key record_sort_key [demo_record key] = [demo_record key]"
  by (simp_all add: merkle_root_Inr leaf_level_def hashed_for_def node_inputs.simps)

lemma merkle_root_binds_witness:
  "hex (leaf_hash (demo_record ''a'')) = hex (leaf_hash (demo_record ''a'')) \<longleftrightarrow>
     list_all2 same_record (sort_key record_sort_key [demo_record ''a''])
       (sort_key record_sort_key [demo_record ''a''])"
  by (rule merkle_root_binds) (simp_all add: demo_single)

definition demo_bundle :: proof_bundle where
  "demo_bundle = \<lparr>bundle_record = demo_record ''a'', bundle_proof =
     \<lparr>ip_release_id = ''r1'', ip_merkle_root = hex (leaf_hash (demo_record ''a'')),
      ip_record_type = registry_snapshot_record, ip_record_key = ''a'',
      leaf_sha256 = hex (leaf_hash (demo_record ''a'')), steps = []\<rparr>\<rparr>"

lemma demo_bundle_fields [simp]:
  "bundle_record demo_bundle = demo_record ''a''"
  "steps (bundle_proof demo_bundle) = []"
  "ip_merkle_root (bundle_proof demo_bundle) = hex (leaf_hash (demo_record ''a''))"
  by (simp_all add: demo_bundle_def)

lemma demo_bundle_verifies: "verify_inclusion_proof demo_bundle = Inr True"
  by (simp add: verify_inclusion_proof_def demo_bundle_def) (simp add: demo_record_def)

lemma demo_leaf_length: "length (leaf_bytes (demo_record ''a'')) \<noteq> 64"
  by code_simp

lemma inclusion_proof_sound_witness:
  "list_ex (same_record (bundle_record demo_bundle)) [demo_record ''a'']"
  by (rule inclusion_proof_sound)
    (simp_all add: demo_bundle_verifies demo_single demo_leaf_length)

end
