(* ===== verification/Json_Reader.thy ===== *)
theory Json_Reader
  imports Canonical_Json
begin

text \<open>
  \<open>bytes.decode("utf-8")\<close> and \<open>json.loads\<close> of the standard library, as the code uses them on
  stored documents and on release files: the strict UTF-8 decoder, and the scanner of the json module with its
  exceptions (every JSONDecodeError is a ValueError). \<open>float(text)\<close> is an argument: it gives the text
  that \<open>repr\<close> prints for the number read. The interpreter's recursion limit is not modelled.
\<close>

section \<open>UTF-8\<close>

text \<open>The number of continuation bytes after a lead byte and the range of the first of them.\<close>

definition lead_byte :: "nat \<Rightarrow> (nat \<times> nat \<times> nat) option" where
  "lead_byte n =
     (if n < 0x80 then Some (0, 0x80, 0xBF)
      else if 0xC2 \<le> n \<and> n \<le> 0xDF then Some (1, 0x80, 0xBF)
      else if n = 0xE0 then Some (2, 0xA0, 0xBF)
      else if n = 0xED then Some (2, 0x80, 0x9F)
      else if 0xE1 \<le> n \<and> n \<le> 0xEF then Some (2, 0x80, 0xBF)
      else if n = 0xF0 then Some (3, 0x90, 0xBF)
      else if 0xF1 \<le> n \<and> n \<le> 0xF3 then Some (3, 0x80, 0xBF)
      else if n = 0xF4 then Some (3, 0x80, 0x8F)
      else None)"

fun utf8_from :: "nat \<times> nat \<times> nat \<Rightarrow> string \<Rightarrow> bool" where
  "utf8_from (k, lo, hi) [] = (k = 0)"
| "utf8_from (0, lo, hi) (c # s) =
     (case lead_byte (of_char c) of None \<Rightarrow> False | Some st \<Rightarrow> utf8_from st s)"
| "utf8_from (Suc k, lo, hi) (c # s) =
     (lo \<le> of_char c \<and> of_char c \<le> hi \<and> utf8_from (k, 0x80, 0xBF) s)"

definition utf8_text :: "string \<Rightarrow> bool" where
  "utf8_text s = utf8_from (0, 0x80, 0xBF) s"

definition bytes_text :: "byte list \<Rightarrow> string" where
  "bytes_text bs = map (\<lambda>b. char_of (unat b)) bs"

definition decode_utf8 :: "byte list \<Rightarrow> string result" where
  "decode_utf8 bs = (if utf8_text (bytes_text bs) then return (bytes_text bs)
     else raise (ValueError ''UnicodeDecodeError''))"

lemma bytes_text_utf8 [simp]: "bytes_text (utf8 s) = s"
proof -
  have "unat (word_of_nat (of_char c) :: byte) = of_char c" for c
    by (simp add: unat_of_nat of_char_mod_256)
  then show ?thesis by (simp add: bytes_text_def utf8_def comp_def)
qed

lemma decode_utf8_utf8: "decode_utf8 (utf8 s) = (if utf8_text s then Inr s else Inl (ValueError ''UnicodeDecodeError''))"
  by (simp add: decode_utf8_def)

text \<open>The code points of one \<open>\\uXXXX\<close> escape; a lone surrogate keeps its three bytes.\<close>

definition utf8_of_code :: "nat \<Rightarrow> string" where
  "utf8_of_code n =
     (if n < 0x80 then [char_of n]
      else if n < 0x800 then [char_of (0xC0 + n div 64), char_of (0x80 + n mod 64)]
      else if n < 0x10000
      then [char_of (0xE0 + n div 4096), char_of (0x80 + n div 64 mod 64), char_of (0x80 + n mod 64)]
      else [char_of (0xF0 + n div 262144), char_of (0x80 + n div 4096 mod 64),
            char_of (0x80 + n div 64 mod 64), char_of (0x80 + n mod 64)])"

section \<open>Strings\<close>

fun hex4 :: "string \<Rightarrow> (nat \<times> string) option" where
  "hex4 (a # b # c # d # s) =
     (case (hex_value a, hex_value b, hex_value c, hex_value d) of
        (Some w, Some x, Some y, Some z) \<Rightarrow> Some (4096 * w + 256 * x + 16 * y + z, s)
      | _ \<Rightarrow> None)"
| "hex4 s = None"

definition high_surrogate :: "nat \<Rightarrow> bool" where
  "high_surrogate n = (0xD800 \<le> n \<and> n \<le> 0xDBFF)"

definition low_surrogate :: "nat \<Rightarrow> bool" where
  "low_surrogate n = (0xDC00 \<le> n \<and> n \<le> 0xDFFF)"

text \<open>After \<open>\\u\<close>: the code point and the rest, with a following low surrogate joined.\<close>

definition scan_unicode :: "string \<Rightarrow> (nat \<times> string) result" where
  "scan_unicode s = (case hex4 s of
       None \<Rightarrow> raise (ValueError ''Invalid uXXXX escape'')
     | Some (n, r) \<Rightarrow>
         if high_surrogate n \<and> take 2 r = [CHR 0x5C, CHR ''u'']
         then (case hex4 (drop 2 r) of
             None \<Rightarrow> raise (ValueError ''Invalid uXXXX escape'')
           | Some (m, r') \<Rightarrow>
               if low_surrogate m then return (0x10000 + (n - 0xD800) * 1024 + (m - 0xDC00), r')
               else return (n, r))
         else return (n, r))"

definition escaped_char :: "char \<Rightarrow> char option" where
  "escaped_char c = map_of [(CHR 0x22, CHR 0x22), (CHR 0x5C, CHR 0x5C), (CHR ''/'', CHR ''/''),
     (CHR ''b'', CHR 0x08), (CHR ''f'', CHR 0x0C), (CHR ''n'', CHR 0x0A), (CHR ''r'', CHR 0x0D),
     (CHR ''t'', CHR 0x09)] c"

lemma hex4_shorter: "hex4 s = Some (n, r) \<Longrightarrow> length r < length s"
  by (cases s rule: hex4.cases) (auto split: option.splits)

lemma scan_unicode_shorter: "scan_unicode s = Inr (n, r) \<Longrightarrow> length r < length s"
  by (fastforce simp: scan_unicode_def dest!: hex4_shorter split: option.splits if_splits prod.splits)

definition after_text :: "string \<Rightarrow> (string \<times> string) result \<Rightarrow> (string \<times> string) result" where
  "after_text t res = bind_result res (\<lambda>(u, rest). return (t @ u, rest))"

text \<open>The C function \<open>scanstring\<close> in strict mode, from after the opening quote.\<close>

function scan_string :: "string \<Rightarrow> (string \<times> string) result" where
  "scan_string [] = raise (ValueError ''Unterminated string starting at'')"
| "scan_string (c # s) =
     (if c = CHR 0x22 then return ([], s)
      else if c = CHR 0x5C then (case s of
          [] \<Rightarrow> raise (ValueError ''Unterminated string starting at'')
        | e # r \<Rightarrow>
            if e = CHR ''u'' then (case scan_unicode r of
                Inl x \<Rightarrow> raise x
              | Inr (n, r') \<Rightarrow> after_text (utf8_of_code n) (scan_string r'))
            else (case escaped_char e of
                None \<Rightarrow> raise (ValueError ''Invalid escape: '')
              | Some x \<Rightarrow> after_text [x] (scan_string r)))
      else if (of_char c :: nat) < 32 then raise (ValueError ''Invalid control character at'')
      else after_text [c] (scan_string s))"
  by pat_completeness auto
termination
  by (relation "measure length") (auto dest: scan_unicode_shorter)

lemma scan_string_shorter: "scan_string s = Inr (t, r) \<Longrightarrow> length r < length s"
proof (induction s arbitrary: t r rule: scan_string.induct)
  case (2 c s)
  then show ?case
    by (fastforce simp: after_text_def dest: scan_unicode_shorter
        split: if_splits list.splits option.splits sum.splits prod.splits)
qed simp

section \<open>Numbers\<close>

definition is_exponent_sign :: "char \<Rightarrow> bool" where
  "is_exponent_sign c = (c \<in> set ''+-'')"

text \<open>The fraction and the exponent of a number, each empty when it is not complete.\<close>

definition scan_fraction :: "string \<Rightarrow> string" where
  "scan_fraction s = (case s of
       c # d # r \<Rightarrow> if c = CHR ''.'' \<and> is_digit d then c # takeWhile is_digit (d # r) else []
     | _ \<Rightarrow> [])"

definition exponent_sign :: "string \<Rightarrow> string" where
  "exponent_sign s = (case s of [] \<Rightarrow> [] | c # _ \<Rightarrow> if is_exponent_sign c then [c] else [])"

definition scan_exponent :: "string \<Rightarrow> string" where
  "scan_exponent s = (case s of
       [] \<Rightarrow> []
     | e # r \<Rightarrow>
         if e \<in> set ''eE'' \<and> takeWhile is_digit (drop (length (exponent_sign r)) r) \<noteq> []
         then e # exponent_sign r @ takeWhile is_digit (drop (length (exponent_sign r)) r)
         else [])"

definition scan_integer :: "string \<Rightarrow> string" where
  "scan_integer s = (case s of
       [] \<Rightarrow> []
     | d # _ \<Rightarrow> if d = CHR ''0'' then [d] else takeWhile is_digit s)"

definition int_of_text :: "bool \<Rightarrow> string \<Rightarrow> int" where
  "int_of_text negative digits = (if negative then - int (nat_of_str digits) else int (nat_of_str digits))"

text \<open>\<open>_match_number\<close>: the sign, the digits, the fraction and the exponent, and the value with the
  limit of \<open>int()\<close> on the number of digits.\<close>

definition number_sign :: "string \<Rightarrow> string" where
  "number_sign s = (if take 1 s = ''-'' then ''-'' else [])"

definition number_parts :: "string \<Rightarrow> string \<times> string \<times> string \<times> string" where
  "number_parts s =
     (let sign = number_sign s; r = drop (length sign) s;
          digits = scan_integer r; r1 = drop (length digits) r;
          frac = scan_fraction r1
      in (sign, digits, frac, scan_exponent (drop (length frac) r1)))"

definition scan_number :: "(string \<Rightarrow> string) \<Rightarrow> string \<Rightarrow> (json \<times> string) result" where
  "scan_number fr s = (case number_parts s of (sign, digits, frac, expo) \<Rightarrow>
     let rest = drop (length (sign @ digits @ frac @ expo)) s in
     if digits = [] then raise (ValueError ''Expecting value'')
     else if frac \<noteq> [] \<or> expo \<noteq> [] then return (JFloat (fr (sign @ digits @ frac @ expo)), rest)
     else if 4300 < length digits
     then raise (ValueError ''Exceeds the limit (4300 digits) for integer string conversion'')
     else return (JInt (int_of_text (sign \<noteq> []) digits), rest))"

section \<open>Documents\<close>

definition skip_ws :: "string \<Rightarrow> string" where
  "skip_ws s = dropWhile (\<lambda>c. c \<in> set [CHR 0x20, CHR 0x09, CHR 0x0A, CHR 0x0D]) s"

definition json_constants :: "(string \<times> json) list" where
  "json_constants = [(''null'', JNull), (''true'', JBool True), (''false'', JBool False),
     (''NaN'', JFloat ''NaN''), (''Infinity'', JFloat ''Infinity''), (''-Infinity'', JFloat ''-Infinity'')]"

definition scan_constant :: "string \<Rightarrow> (json \<times> string) option" where
  "scan_constant s = (case filter (\<lambda>(t, _). take (length t) s = t) json_constants of
       [] \<Rightarrow> None
     | (t, v) # _ \<Rightarrow> Some (v, drop (length t) s))"

text \<open>
  \<open>scan_once\<close>, and the loops over the items of an array and of an object, from the first item on. The
  number bounds the nesting of the calls; twice the length of the text is enough (lemma \<open>scan_fuel\<close>).
  A repeated key keeps its first place and its last value, as in a dict.
\<close>

fun scan_value :: "(string \<Rightarrow> string) \<Rightarrow> nat \<Rightarrow> string \<Rightarrow> (json \<times> string) result"
  and scan_items :: "(string \<Rightarrow> string) \<Rightarrow> nat \<Rightarrow> string \<Rightarrow> (json list \<times> string) result"
  and scan_fields :: "(string \<Rightarrow> string) \<Rightarrow> nat \<Rightarrow> string \<Rightarrow> ((string \<times> json) list \<times> string) result" where
  "scan_value fr 0 s = raise (RuntimeError ''maximum recursion depth exceeded'')"
| "scan_value fr (Suc n) s = (case s of
       [] \<Rightarrow> raise (ValueError ''Expecting value'')
     | c # r \<Rightarrow>
         if c = CHR 0x22 then bind_result (scan_string r) (\<lambda>(t, rest). return (JStr t, rest))
         else if c = CHR ''{'' then
           (if take 1 (skip_ws r) = ''}'' then return (JObj [], drop 1 (skip_ws r))
            else bind_result (scan_fields fr n (skip_ws r)) (\<lambda>(kvs, rest). return (JObj (dict_of kvs), rest)))
         else if c = CHR ''['' then
           (if take 1 (skip_ws r) = '']'' then return (JArr [], drop 1 (skip_ws r))
            else bind_result (scan_items fr n (skip_ws r)) (\<lambda>(xs, rest). return (JArr xs, rest)))
         else (case scan_constant s of
             Some res \<Rightarrow> return res
           | None \<Rightarrow> scan_number fr s))"
| "scan_items fr 0 s = raise (RuntimeError ''maximum recursion depth exceeded'')"
| "scan_items fr (Suc n) s =
     bind_result (scan_value fr n s) (\<lambda>(x, rest).
       case skip_ws rest of
         [] \<Rightarrow> raise (ValueError ''Expecting , delimiter'')
       | c # r \<Rightarrow>
           if c = CHR '']'' then return ([x], r)
           else if c = CHR '','' then bind_result (scan_items fr n (skip_ws r)) (\<lambda>(xs, rest'). return (x # xs, rest'))
           else raise (ValueError ''Expecting , delimiter''))"
| "scan_fields fr 0 s = raise (RuntimeError ''maximum recursion depth exceeded'')"
| "scan_fields fr (Suc n) s =
     (if take 1 s \<noteq> [CHR 0x22] then raise (ValueError ''Expecting property name enclosed in double quotes'')
      else bind_result (scan_string (drop 1 s)) (\<lambda>(k, rest).
        if take 1 (skip_ws rest) \<noteq> '':'' then raise (ValueError ''Expecting : delimiter'')
        else bind_result (scan_value fr n (skip_ws (drop 1 (skip_ws rest)))) (\<lambda>(v, rest').
          case skip_ws rest' of
            [] \<Rightarrow> raise (ValueError ''Expecting , delimiter'')
          | c # r \<Rightarrow>
              if c = CHR ''}'' then return ([(k, v)], r)
              else if c = CHR '','' then
                bind_result (scan_fields fr n (skip_ws r)) (\<lambda>(kvs, rest''). return ((k, v) # kvs, rest''))
              else raise (ValueError ''Expecting , delimiter''))))"

definition scan_fuel :: "string \<Rightarrow> nat" where
  "scan_fuel s = Suc (Suc (2 * length s))"

definition json_loads :: "(string \<Rightarrow> string) \<Rightarrow> string \<Rightarrow> json result" where
  "json_loads fr s =
     (if take 3 s = [CHR 0xEF, CHR 0xBB, CHR 0xBF] then raise (ValueError ''Unexpected UTF-8 BOM (decode using utf-8-sig)'')
      else bind_result (scan_value fr (scan_fuel s) (skip_ws s)) (\<lambda>(v, rest).
        if skip_ws rest \<noteq> [] then raise (ValueError ''Extra data'') else return v))"


section \<open>The fuel is enough\<close>

lemma skip_ws_shorter: "length (skip_ws s) \<le> length s"
  by (simp add: skip_ws_def length_dropWhile_le)

lemma scan_constant_shorter: "scan_constant s = Some (v, r) \<Longrightarrow> length r < length s"
proof -
  assume "scan_constant s = Some (v, r)"
  then obtain t ps where f: "filter (\<lambda>(t, _). take (length t) s = t) json_constants = (t, v) # ps"
    and r: "r = drop (length t) s"
    by (auto simp: scan_constant_def split: list.splits)
  have "(t, v) \<in> set (filter (\<lambda>(t, _). take (length t) s = t) json_constants)" by (simp add: f)
  with r have t: "(t, v) \<in> set json_constants" "take (length t) s = t" "r = drop (length t) s" by auto
  then have "t \<noteq> []" by (auto simp: json_constants_def)
  with t show ?thesis by (cases s) auto
qed

lemma scan_integer_length: "length (scan_integer s) \<le> length s"
  by (auto simp: scan_integer_def length_takeWhile_le split: list.splits)

lemma number_sign_length: "length (number_sign s) \<le> length s"
  by (cases s) (auto simp: number_sign_def)

lemma scan_number_shorter:
  assumes "scan_number fr s = Inr (v, r)"
  shows "length r < length s"
proof -
  obtain sign digits frac expo where p: "number_parts s = (sign, digits, frac, expo)"
    by (cases "number_parts s")
  then have d: "digits = scan_integer (drop (length sign) s)"
    by (auto simp: number_parts_def Let_def)
  have ne: "digits \<noteq> []" using assms by (auto simp: scan_number_def p split: if_splits)
  then have "drop (length sign) s \<noteq> []" by (auto simp: d scan_integer_def)
  then have "0 < length s" by auto
  moreover have "r = drop (length (sign @ digits @ frac @ expo)) s"
    using assms by (auto simp: scan_number_def p Let_def split: if_splits)
  moreover have "0 < length (sign @ digits @ frac @ expo)" using ne by simp
  ultimately show ?thesis by (simp only: length_drop diff_less)
qed

text \<open>The branches of \<open>scan_once\<close>, by the first character.\<close>

lemma scan_value_simps:
  "scan_value fr (Suc n) [] = Inl (ValueError ''Expecting value'')"
  "scan_value fr (Suc n) (CHR 0x22 # r) = bind_result (scan_string r) (\<lambda>(t, rest). Inr (JStr t, rest))"
  "scan_value fr (Suc n) (CHR ''{'' # r) =
     (if take 1 (skip_ws r) = ''}'' then Inr (JObj [], drop 1 (skip_ws r))
      else bind_result (scan_fields fr n (skip_ws r)) (\<lambda>(kvs, rest). Inr (JObj (dict_of kvs), rest)))"
  "scan_value fr (Suc n) (CHR ''['' # r) =
     (if take 1 (skip_ws r) = '']'' then Inr (JArr [], drop 1 (skip_ws r))
      else bind_result (scan_items fr n (skip_ws r)) (\<lambda>(xs, rest). Inr (JArr xs, rest)))"
  "c \<notin> {CHR 0x22, CHR ''{'', CHR ''[''} \<Longrightarrow> scan_value fr (Suc n) (c # r) =
     (case scan_constant (c # r) of Some res \<Rightarrow> Inr res | None \<Rightarrow> scan_number fr (c # r))"
  by simp_all

declare scan_value.simps(2) [simp del]

lemma scan_value_cases:
  obtains (empty) "s = []" | (quote) r where "s = CHR 0x22 # r" | (obj) r where "s = CHR ''{'' # r"
  | (arr) r where "s = CHR ''['' # r"
  | (other) c r where "s = c # r" "c \<notin> {CHR 0x22, CHR ''{'', CHR ''[''}"
  by (cases s) auto

lemma scan_items_Inr:
  assumes "scan_items fr (Suc n) s = Inr (xs, r)"
  obtains x rest c r' where "scan_value fr n s = Inr (x, rest)" "skip_ws rest = c # r'"
    "c = CHR '']'' \<and> r = r' \<or> (\<exists>ys. scan_items fr n (skip_ws r') = Inr (ys, r))"
proof -
  obtain x rest where x: "scan_value fr n s = Inr (x, rest)"
    using assms by (cases "scan_value fr n s") auto
  obtain c r' where c: "skip_ws rest = c # r'"
    using assms by (cases "skip_ws rest") (auto simp: x)
  then have "c = CHR '']'' \<and> r = r' \<or> (\<exists>ys. scan_items fr n (skip_ws r') = Inr (ys, r))"
    using assms by (simp add: x split: if_splits) auto
  then show ?thesis using that x c by blast
qed

lemma scan_fields_Inr:
  assumes "scan_fields fr (Suc n) s = Inr (kvs, r)"
  obtains k rest v rest' c r' where "scan_string (drop 1 s) = Inr (k, rest)"
    "scan_value fr n (skip_ws (drop 1 (skip_ws rest))) = Inr (v, rest')" "skip_ws rest' = c # r'"
    "c = CHR ''}'' \<and> r = r' \<or> (\<exists>ys. scan_fields fr n (skip_ws r') = Inr (ys, r))"
proof -
  obtain k rest where k: "scan_string (drop 1 s) = Inr (k, rest)"
    using assms by (cases "scan_string (drop 1 s)") (auto split: if_splits)
  let ?v = "scan_value fr n (skip_ws (drop 1 (skip_ws rest)))"
  obtain v rest' where v: "?v = Inr (v, rest')"
    using assms by (cases ?v) (auto simp: k simp del: One_nat_def split: if_splits)
  obtain c r' where c: "skip_ws rest' = c # r'"
    using assms by (cases "skip_ws rest'") (auto simp: k v simp del: One_nat_def split: if_splits)
  then have "c = CHR ''}'' \<and> r = r' \<or> (\<exists>ys. scan_fields fr n (skip_ws r') = Inr (ys, r))"
    using assms by (simp add: k v del: One_nat_def split: if_splits) auto
  then show ?thesis using that k v c by blast
qed

lemma scan_shorter:
  "scan_value fr n s = Inr (v, r) \<Longrightarrow> length r < length s"
  "scan_items fr n s = Inr (xs, r) \<Longrightarrow> length r < length s"
  "scan_fields fr n s = Inr (kvs, r) \<Longrightarrow> length r < length s"
proof (induction n arbitrary: s v xs kvs r)
  case (Suc n)
  note ws = skip_ws_shorter
  { case 1
    show ?case
    proof (cases s rule: scan_value_cases)
      case (quote r')
      then show ?thesis using 1 by (auto simp: scan_value_simps dest: scan_string_shorter)
    next
      case (obj r')
      then show ?thesis using 1 Suc.IH(3) [of "skip_ws r'"] ws [of r']
        by (cases "skip_ws r'") (auto simp: scan_value_simps split: if_splits dest: less_le_trans)
    next
      case (arr r')
      then show ?thesis using 1 Suc.IH(2) [of "skip_ws r'"] ws [of r']
        by (cases "skip_ws r'") (auto simp: scan_value_simps split: if_splits dest: less_le_trans)
    next
      case (other c r')
      then show ?thesis using 1 scan_constant_shorter [of s v r] scan_number_shorter [of fr s v r]
        by (auto simp: scan_value_simps split: option.splits)
    qed (use 1 in \<open>simp add: scan_value_simps\<close>)
  next
    case 2
    obtain x rest c r' where h: "scan_value fr n s = Inr (x, rest)" "skip_ws rest = c # r'"
      "c = CHR '']'' \<and> r = r' \<or> (\<exists>ys. scan_items fr n (skip_ws r') = Inr (ys, r))"
      using 2 by (rule scan_items_Inr)
    have "length r < length (c # r')"
      using h(3) Suc.IH(2) [of "skip_ws r'"] ws [of r'] by fastforce
    also have "\<dots> < length s" using Suc.IH(1) [OF h(1)] ws [of rest] h(2) by simp
    finally show ?case .
  next
    case 3
    obtain k rest v rest' c r' where h: "scan_string (drop 1 s) = Inr (k, rest)"
      "scan_value fr n (skip_ws (drop 1 (skip_ws rest))) = Inr (v, rest')" "skip_ws rest' = c # r'"
      "c = CHR ''}'' \<and> r = r' \<or> (\<exists>ys. scan_fields fr n (skip_ws r') = Inr (ys, r))"
      using 3 by (rule scan_fields_Inr)
    have "length r < length (c # r')"
      using h(4) Suc.IH(3) [of "skip_ws r'"] ws [of r'] by fastforce
    also have "\<dots> \<le> length rest'" using ws [of rest'] h(3) by simp
    also have "\<dots> \<le> length rest"
      using Suc.IH(1) [OF h(2)] ws [of "drop 1 (skip_ws rest)"] ws [of rest] by simp
    also have "\<dots> < length s" using scan_string_shorter [OF h(1)] by simp
    finally show ?case .
  }
qed simp_all

definition fuel_error :: "'a result \<Rightarrow> bool" where
  "fuel_error res = (\<exists>m. res = Inl (RuntimeError m))"

lemma scan_unicode_errors: "scan_unicode s \<noteq> Inl (RuntimeError m)"
  by (simp add: scan_unicode_def split: option.splits prod.splits)

lemma after_text_errors: "after_text t res = Inl e \<longleftrightarrow> res = Inl e"
  by (cases res) (auto simp: after_text_def)

lemma scan_string_errors: "scan_string s \<noteq> Inl (RuntimeError m)"
proof (induction s rule: scan_string.induct)
  case (2 c s)
  then show ?case
    using scan_unicode_errors
    by (auto simp: after_text_errors split: list.splits option.splits sum.splits prod.splits)
qed simp

lemma bind_result_fuel: "bind_result m f = Inl e \<Longrightarrow> m = Inl e \<or> (\<exists>x. m = Inr x \<and> f x = Inl e)"
  by (cases m) auto

text \<open>Twice the length of the text is enough fuel.\<close>

lemma scan_number_errors: "scan_number fr s \<noteq> Inl (RuntimeError m)"
  by (simp add: scan_number_def Let_def split: prod.splits)

lemma scan_fuel:
  "2 * length s < n \<Longrightarrow> scan_value fr n s \<noteq> Inl (RuntimeError m)"
  "2 * length s + 1 < n \<Longrightarrow> scan_items fr n s \<noteq> Inl (RuntimeError m)"
  "2 * length s + 1 < n \<Longrightarrow> scan_fields fr n s \<noteq> Inl (RuntimeError m)"
proof (induction n arbitrary: s)
  case (Suc n)
  note ws = skip_ws_shorter
  { case 1
    have len: "2 * length (skip_ws r) + 1 < n" if "s = c # r" for c r
      using 1 that ws [of r] by simp
    show ?case
    proof (cases s rule: scan_value_cases)
      case (quote r)
      then show ?thesis by (auto simp: scan_value_simps scan_string_errors dest!: bind_result_fuel)
    next
      case (obj r)
      then show ?thesis using Suc.IH(3) [OF len [OF obj]]
        by (auto simp: scan_value_simps dest!: bind_result_fuel split: if_splits)
    next
      case (arr r)
      then show ?thesis using Suc.IH(2) [OF len [OF arr]]
        by (auto simp: scan_value_simps dest!: bind_result_fuel split: if_splits)
    next
      case (other c r)
      then show ?thesis by (auto simp: scan_value_simps scan_number_errors split: option.splits)
    qed (simp add: scan_value_simps)
  next
    case 2
    show ?case
    proof
      assume "scan_items fr (Suc n) s = Inl (RuntimeError m)"
      then obtain x rest c r where h: "scan_value fr n s = Inr (x, rest)" "skip_ws rest = c # r"
        "scan_items fr n (skip_ws r) = Inl (RuntimeError m)"
        using Suc.IH(1) [of s] 2 by (auto dest!: bind_result_fuel split: list.splits if_splits)
      have "length (skip_ws r) < length s"
        using scan_shorter(1) [OF h(1)] ws [of rest] ws [of r] h(2) by simp
      then show False using Suc.IH(2) [of "skip_ws r"] 2 h(3) by simp
    qed
  next
    case 3
    show ?case
    proof
      assume a: "scan_fields fr (Suc n) s = Inl (RuntimeError m)"
      then obtain k rest where k: "scan_string (drop 1 s) = Inr (k, rest)" "take 1 s = [CHR 0x22]"
        by (auto simp: scan_string_errors dest!: bind_result_fuel split: if_splits)
      have v: "length (skip_ws (drop 1 (skip_ws rest))) < length s"
        using scan_string_shorter [OF k(1)] ws [of "drop 1 (skip_ws rest)"] ws [of rest] by simp
      obtain x rest' c r where h: "scan_value fr n (skip_ws (drop 1 (skip_ws rest))) = Inr (x, rest')"
        "skip_ws rest' = c # r" "scan_fields fr n (skip_ws r) = Inl (RuntimeError m)"
        using a k Suc.IH(1) [of "skip_ws (drop 1 (skip_ws rest))"] 3 v
        by (auto dest!: bind_result_fuel split: list.splits if_splits)
      have "length (skip_ws r) < length s"
        using scan_shorter(1) [OF h(1)] ws [of rest'] ws [of r] h(2) v by simp
      then show False using Suc.IH(3) [of "skip_ws r"] 3 h(3) by simp
    qed
  }
qed simp_all

lemma json_loads_total: "json_loads fr s \<noteq> Inl (RuntimeError m)"
  using scan_fuel(1) [of "skip_ws s" "scan_fuel s" fr m] skip_ws_shorter [of s]
  by (auto simp: json_loads_def scan_fuel_def dest!: bind_result_fuel split: if_splits)

end
