(* ===== verification/Json_Roundtrip.thy ===== *)
theory Json_Roundtrip
  imports Json_Reader
begin

text \<open>
  The canonical text of a document is read back by \<open>json.loads\<close> as the document with sorted keys,
  for integers within the digit limit and floats that \<open>float\<close> reads as themselves, and its bytes
  are UTF-8 when every string of the document is.
\<close>

section \<open>Reading canonical text back\<close>

text \<open>Numbers end where a delimiter follows.\<close>

lemma takeWhile_delimited:
  "delimited r \<Longrightarrow> takeWhile is_digit (s @ r) = takeWhile is_digit s"
  by (induction s) (auto simp: delimited_def is_digit_def takeWhile_eq_Nil_iff)

lemma delimited_head: "delimited (c # r) \<Longrightarrow> c \<in> set '',]}''"
  by (simp add: delimited_def)

lemma scan_integer_delimited: "delimited r \<Longrightarrow> scan_integer (s @ r) = scan_integer s"
  using takeWhile_delimited [of r s]
  by (cases s; cases r) (auto simp: scan_integer_def is_digit_def dest!: delimited_head)

lemma scan_fraction_delimited: "delimited r \<Longrightarrow> scan_fraction (s @ r) = scan_fraction s"
proof (cases s)
  case Nil
  assume "delimited r"
  with Nil show ?thesis by (cases r) (auto simp: scan_fraction_def dest!: delimited_head split: list.splits)
next
  case (Cons c s')
  assume d: "delimited r"
  show ?thesis
  proof (cases s')
    case Nil
    with Cons d show ?thesis
      by (cases r) (auto simp: scan_fraction_def is_digit_def dest!: delimited_head)
  next
    case (Cons d' s'')
    with \<open>s = c # s'\<close> show ?thesis using takeWhile_delimited [OF d, of s'']
      by (auto simp: scan_fraction_def)
  qed
qed

lemma exponent_sign_delimited: "delimited r \<Longrightarrow> exponent_sign (s @ r) = exponent_sign s"
  by (cases s; cases r) (auto simp: exponent_sign_def is_exponent_sign_def dest!: delimited_head)

lemma exponent_sign_length: "length (exponent_sign s) \<le> length s"
  by (auto simp: exponent_sign_def split: list.splits)

lemma scan_exponent_length: "length (scan_exponent s) \<le> length s"
proof (cases s)
  case (Cons e r)
  let ?k = "length (exponent_sign r)"
  have "length (takeWhile is_digit (drop ?k r)) \<le> length r - ?k"
    using length_takeWhile_le [of is_digit "drop ?k r"] by simp
  then have "?k + length (takeWhile is_digit (drop ?k r)) \<le> length r"
    using exponent_sign_length [of r] by linarith
  then show ?thesis by (simp add: Cons scan_exponent_def)
qed (simp add: scan_exponent_def)

lemma scan_fraction_length: "length (scan_fraction s) \<le> length s"
  by (auto simp: scan_fraction_def length_takeWhile_le split: list.splits)

lemma scan_exponent_delimited: "delimited r \<Longrightarrow> scan_exponent (s @ r) = scan_exponent s"
proof (cases s)
  case Nil
  assume "delimited r"
  with Nil show ?thesis by (cases r) (auto simp: scan_exponent_def dest!: delimited_head)
next
  case (Cons e s')
  assume d: "delimited r"
  have "drop (length (exponent_sign s')) (s' @ r) = drop (length (exponent_sign s')) s' @ r"
    using exponent_sign_length [of s'] by simp
  then show ?thesis
    using Cons d by (simp add: scan_exponent_def exponent_sign_delimited takeWhile_delimited)
qed

lemma number_parts_delimited:
  assumes "s \<noteq> []" "delimited r" "number_parts s = (sign, digits, frac, expo)"
  shows "number_parts (s @ r) = (sign, digits, frac, expo)"
    and "length (sign @ digits @ frac @ expo) \<le> length s"
proof -
  have sg: "number_sign (s @ r) = number_sign s" using assms(1) by (cases s) (simp_all add: number_sign_def)
  define r0 where "r0 = drop (length (number_sign s)) s"
  define r1 where "r1 = drop (length (scan_integer r0)) r0"
  define r2 where "r2 = drop (length (scan_fraction r1)) r1"
  have l0: "length r0 = length s - length (number_sign s)" by (simp add: r0_def)
  have l1: "length r1 = length r0 - length (scan_integer r0)" by (simp add: r1_def)
  have l2: "length r2 = length r1 - length (scan_fraction r1)" by (simp add: r2_def)
  have app: "drop (length (number_sign s)) (s @ r) = r0 @ r" "drop (length (scan_integer r0)) (r0 @ r) = r1 @ r"
    "drop (length (scan_fraction r1)) (r1 @ r) = r2 @ r"
    using number_sign_length [of s] scan_integer_length [of r0] scan_fraction_length [of r1]
    by (simp_all add: r0_def r1_def r2_def)
  have parts: "number_parts s = (number_sign s, scan_integer r0, scan_fraction r1, scan_exponent r2)"
    unfolding number_parts_def Let_def r2_def r1_def r0_def ..
  have "number_parts (s @ r) = (number_sign s, scan_integer r0, scan_fraction r1, scan_exponent r2)"
    unfolding number_parts_def Let_def sg app scan_integer_delimited [OF assms(2)]
      scan_fraction_delimited [OF assms(2)] scan_exponent_delimited [OF assms(2)] ..
  then show "number_parts (s @ r) = (sign, digits, frac, expo)" using parts assms(3) by simp
  have "length (number_sign s) + (length (scan_integer r0) + (length (scan_fraction r1)
      + length (scan_exponent r2))) \<le> length s"
    using l0 l1 l2 number_sign_length [of s] scan_integer_length [of r0] scan_fraction_length [of r1]
      scan_exponent_length [of r2] by linarith
  then show "length (sign @ digits @ frac @ expo) \<le> length s" using parts assms(3) by simp
qed

lemma scan_number_delimited:
  assumes "scan_number fr s = Inr (v, [])" "delimited r"
  shows "scan_number fr (s @ r) = Inr (v, r)"
proof -
  have ne: "s \<noteq> []" using scan_number_shorter [OF assms(1)] by auto
  obtain sign digits frac expo where p: "number_parts s = (sign, digits, frac, expo)"
    by (cases "number_parts s")
  note q = number_parts_delimited [OF ne assms(2) p]
  have "drop (length (sign @ digits @ frac @ expo)) s = []"
    using assms(1) by (auto simp: scan_number_def p Let_def split: if_splits)
  then have "length (sign @ digits @ frac @ expo) = length s" using q(2) by simp
  then have "drop (length (sign @ digits @ frac @ expo)) (s @ r) = r" by simp
  then show ?thesis
    using assms(1) by (auto simp: scan_number_def p q(1) Let_def split: if_splits simp del: length_append)
qed


text \<open>The documents that can be read back: integers within the digit limit and floats that \<open>float\<close>
  reads as themselves. The text is UTF-8 when every string of the document is.\<close>

fun json_readable :: "(string \<Rightarrow> string) \<Rightarrow> json \<Rightarrow> bool" where
  "json_readable fr (JInt i) = (length (nat_str (nat \<bar>i\<bar>)) \<le> 4300)"
| "json_readable fr (JFloat s) = (scan_number fr s = Inr (JFloat s, []))"
| "json_readable fr (JArr xs) = (\<forall>x \<in> set xs. json_readable fr x)"
| "json_readable fr (JObj kvs) = (\<forall>(k, v) \<in> set kvs. json_readable fr v)"
| "json_readable fr _ = True"

fun json_strings_ok :: "json \<Rightarrow> bool" where
  "json_strings_ok (JStr s) = utf8_text s"
| "json_strings_ok (JArr xs) = (\<forall>x \<in> set xs. json_strings_ok x)"
| "json_strings_ok (JObj kvs) = (\<forall>(k, v) \<in> set kvs. utf8_text k \<and> json_strings_ok v)"
| "json_strings_ok _ = True"

text \<open>Strings.\<close>

lemma hex4_control:
  assumes "(of_char c :: nat) < 32"
  shows "hex4 (CHR ''0'' # CHR ''0'' # hex_digit (of_char c div 16) # hex_digit (of_char c mod 16) # s)
    = Some (of_char c, s)"
proof -
  have "(of_char c :: nat) div 16 < 16" "(of_char c :: nat) mod 16 < 16" using assms by simp_all
  moreover have "hex_value (CHR ''0'') = Some 0" by (simp add: hex_value_def)
  ultimately show ?thesis by (simp add: hex_value_digit)
qed

lemma scan_unicode_control:
  assumes "(of_char c :: nat) < 32"
  shows "scan_unicode (CHR ''0'' # CHR ''0'' # hex_digit (of_char c div 16) # hex_digit (of_char c mod 16) # s)
    = Inr (of_char c, s)"
  unfolding scan_unicode_def hex4_control [OF assms] using assms by (simp add: high_surrogate_def)

lemma scan_escape:
  assumes "escaped_char e = Some x" "e \<noteq> CHR ''u''"
  shows "scan_string (CHR 0x5C # e # s) = after_text [x] (scan_string s)"
  using assms by simp

lemma scan_control:
  assumes "(of_char c :: nat) < 32"
  shows "scan_string (CHR 0x5C # CHR ''u'' # CHR ''0'' # CHR ''0'' # hex_digit (of_char c div 16)
    # hex_digit (of_char c mod 16) # s) = after_text [c] (scan_string s)"
  using assms by (simp add: scan_unicode_control utf8_of_code_def del: hex4.simps)

lemma scan_esc_char:
  "scan_string (esc_char c @ s) = after_text [c] (scan_string s)"
proof (cases "c \<in> {CHR 0x22, CHR 0x5C, CHR 0x0A, CHR 0x0D, CHR 0x09, CHR 0x0C, CHR 0x08}")
  case True
  then show ?thesis
    by (elim insertE emptyE) (simp_all only: esc_char_def append.simps simp_thms if_True if_False
        char.inject, simp_all add: scan_escape escaped_char_def del: scan_string.simps)
next
  case False
  show ?thesis
  proof (cases "(of_char c :: nat) < 32")
    case True
    with False show ?thesis by (simp add: esc_char_def scan_control del: scan_string.simps)
  next
    case f: False
    with False show ?thesis by (simp add: esc_char_def)
  qed
qed

lemma scan_esc_string: "scan_string (esc_string s @ r) = Inr (s, r)"
  by (induction s) (auto simp: scan_esc_char after_text_def)

text \<open>Numbers.\<close>

lemma nat_str_head: "nat_str n = d # s \<Longrightarrow> d = CHR ''0'' \<Longrightarrow> n = 0"
proof (induction n arbitrary: d s rule: nat_str.induct)
  case (1 n)
  show ?case
  proof (cases "n < 10")
    case True
    then have "digit_char n = CHR ''0''" using 1 by (simp add: nat_str.simps [of n])
    then show ?thesis using of_digit_char [OF True] by simp
  next
    case False
    obtain e t where e: "nat_str (n div 10) = e # t" by (cases "nat_str (n div 10)") auto
    then have "e = CHR ''0''" using 1 False by (simp add: nat_str.simps [of n])
    then show ?thesis using "1.IH" [OF False e] False by simp
  qed
qed

lemma nat_str_0: "nat_str 0 = ''0''"
  by (simp add: nat_str.simps digit_char_def)

lemma takeWhile_all: "\<forall>c \<in> set s. P c \<Longrightarrow> takeWhile P s = s"
  by (simp add: takeWhile_eq_all_conv)

lemma scan_integer_nat_str: "scan_integer (nat_str n) = nat_str n"
proof (cases "n = 0")
  case False
  obtain d s where d: "nat_str n = d # s" by (cases "nat_str n") auto
  with False have "d \<noteq> CHR ''0''" using nat_str_head by blast
  then show ?thesis
    using takeWhile_all [of "nat_str n" is_digit] nat_str_digits [of _ n]
    by (simp add: d scan_integer_def)
qed (simp add: nat_str_0 scan_integer_def)

lemma scan_int_str:
  assumes "length (nat_str (nat \<bar>i\<bar>)) \<le> 4300"
  shows "scan_number fr (int_str i) = Inr (JInt i, [])"
proof (cases "i < 0")
  case True
  then have p: "number_parts (int_str i) = (''-'', nat_str (nat (- i)), [], [])"
    by (simp add: int_str_def number_parts_def number_sign_def Let_def scan_integer_nat_str
        scan_fraction_def scan_exponent_def)
  show ?thesis
    unfolding scan_number_def p using assms True by (simp add: Let_def int_str_def int_of_text_def)
next
  case False
  have "take 1 (nat_str (nat i)) \<noteq> ''-''"
    using nat_str_no_minus [of "nat i"] by (cases "nat_str (nat i)") auto
  then have p: "number_parts (int_str i) = ([], nat_str (nat i), [], [])"
    using False by (simp add: int_str_def number_parts_def number_sign_def Let_def scan_integer_nat_str
        scan_fraction_def scan_exponent_def)
  show ?thesis
    unfolding scan_number_def p using assms False by (simp add: Let_def int_str_def int_of_text_def)
qed


lemma scan_constant_number:
  assumes "scan_number fr s = Inr (v, r)"
  shows "scan_constant s = None" "\<exists>c z. s = c # z \<and> c \<notin> {CHR 0x22, CHR ''{'', CHR ''[''}"
proof -
  obtain sign digits frac expo where p: "number_parts s = (sign, digits, frac, expo)"
    by (cases "number_parts s")
  then have d: "sign = number_sign s" "digits = scan_integer (drop (length (number_sign s)) s)"
    by (auto simp: number_parts_def Let_def)
  have ne: "digits \<noteq> []" using assms by (auto simp: scan_number_def p split: if_splits)
  then obtain c z where z: "drop (length (number_sign s)) s = c # z" "is_digit c"
    by (auto simp: d scan_integer_def is_digit_def split: list.splits if_splits)
  have c: "c \<noteq> CHR ''n''" "c \<noteq> CHR ''t''" "c \<noteq> CHR ''f''" "c \<noteq> CHR ''N''" "c \<noteq> CHR ''I''" "c \<noteq> CHR ''-''"
    "c \<notin> {CHR 0x22, CHR ''{'', CHR ''[''}"
    using z(2) by (auto simp: is_digit_def)
  show "scan_constant s = None" "\<exists>c z. s = c # z \<and> c \<notin> {CHR 0x22, CHR ''{'', CHR ''[''}"
  proof (atomize (full), cases "number_sign s = []")
    case True
    then have "s = c # z" using z by simp
    then show "scan_constant s = None \<and> (\<exists>c z. s = c # z \<and> c \<notin> {CHR 0x22, CHR ''{'', CHR ''[''})"
      using c by (simp add: scan_constant_def json_constants_def)
  next
    case False
    then have "s = CHR ''-'' # c # z" using z by (cases s) (auto simp: number_sign_def split: if_splits)
    then show "scan_constant s = None \<and> (\<exists>c z. s = c # z \<and> c \<notin> {CHR 0x22, CHR ''{'', CHR ''[''})"
      using c by (simp add: scan_constant_def json_constants_def)
  qed
qed

lemma scan_number_value:
  assumes "scan_number fr t = Inr (v, [])" "delimited r"
  shows "scan_value fr (Suc n) (t @ r) = Inr (v, r)"
proof -
  have s: "scan_number fr (t @ r) = Inr (v, r)" using assms by (rule scan_number_delimited)
  obtain c z where "t @ r = c # z" "c \<notin> {CHR 0x22, CHR ''{'', CHR ''[''}" "scan_constant (t @ r) = None"
    using scan_constant_number [OF s] by blast
  then show ?thesis using s by (simp add: scan_value_simps(5))
qed

lemma skip_ws_head: "c \<notin> {CHR 0x20, CHR 0x09, CHR 0x0A, CHR 0x0D} \<Longrightarrow> skip_ws (c # s) = c # s"
  by (simp add: skip_ws_def)

lemma enc_head:
  assumes "json_ok v"
  obtains c z where "enc v = c # z" "c \<notin> {CHR 0x20, CHR 0x09, CHR 0x0A, CHR 0x0D}" "c \<notin> set '']}''"
proof -
  obtain c z where z: "enc v = c # z" using enc_not_Nil [OF assms] by (cases "enc v") auto
  then have "head_kind c \<le> 5" using enc_kind [OF assms, of "[]"] enc_kind_le [of v] by simp
  then have "c \<notin> {CHR 0x20, CHR 0x09, CHR 0x0A, CHR 0x0D}" "c \<notin> set '']}''"
    by (auto simp: head_kind_def num_char_def is_digit_def split: if_splits)
  with z show ?thesis using that by blast
qed

lemma skip_ws_enc: "json_ok v \<Longrightarrow> skip_ws (enc v @ r) = enc v @ r"
  by (metis enc_head append_Cons skip_ws_head)

lemma dict_of_distinct_snoc: "distinct (map fst (d @ xs)) \<Longrightarrow>
    foldl (\<lambda>d (k, v). dict_set k v d) d xs = d @ xs"
proof (induction xs arbitrary: d)
  case (Cons p xs)
  have "dict_set (fst p) (snd p) d = d @ [p]"
    using Cons.prems by (induction d) auto
  with Cons show ?case by (cases p) simp
qed simp

lemma dict_of_distinct: "distinct (map fst xs) \<Longrightarrow> dict_of xs = xs"
  using dict_of_distinct_snoc [of "[]" xs] by (simp add: dict_of_def)

lemma scan_enc:
  "2 * length (enc v) < n \<Longrightarrow> json_ok v \<Longrightarrow> json_readable fr v \<Longrightarrow> delimited r \<Longrightarrow>
     scan_value fr n (enc v @ r) = Inr (v, r)"
  "2 * length (enc x @ enc_items xs) + 1 < n \<Longrightarrow> \<forall>y \<in> set (x # xs). json_ok y \<and> json_readable fr y \<Longrightarrow>
     scan_items fr n (enc x @ enc_items xs @ r) = Inr (x # xs, r)"
  "2 * length (CHR 0x22 # esc_string k @ CHR '':'' # enc v @ enc_fields kvs) + 1 < n \<Longrightarrow>
   \<forall>(l, y) \<in> set ((k, v) # kvs). json_ok y \<and> json_readable fr y \<Longrightarrow>
     scan_fields fr n (CHR 0x22 # esc_string k @ CHR '':'' # enc v @ enc_fields kvs @ r) = Inr ((k, v) # kvs, r)"
proof (induction n arbitrary: v x xs k kvs r)
  case (Suc n)
  { case 1
    show ?case
    proof (cases v)
      case (JInt i)
      then show ?thesis using 1 scan_int_str [of i fr] by (simp add: scan_number_value)
    next
      case (JFloat s)
      then show ?thesis using 1 by (simp add: scan_number_value)
    next
      case (JStr s)
      then show ?thesis by (simp add: scan_value_simps scan_esc_string)
    next
      case (JBool b)
      then show ?thesis
        by (cases b) (simp_all add: scan_value_simps scan_constant_def json_constants_def)
    next
      case (JArr ys)
      show ?thesis
      proof (cases ys)
        case (Cons x xs)
        have "json_ok x" using 1 JArr Cons by simp
        then obtain c z where c: "enc x = c # z" "c \<notin> set '']}''" by (rule enc_head)
        have "scan_items fr n (enc x @ enc_items xs @ r) = Inr (x # xs, r)"
          using 1 JArr Cons by (intro Suc.IH(2)) auto
        then show ?thesis using 1 JArr Cons c skip_ws_enc [of x] by (simp add: scan_value_simps)
      qed (simp add: JArr scan_value_simps skip_ws_head)
    next
      case (JObj fs)
      show ?thesis
      proof (cases fs)
        case (Cons p kvs)
        obtain k w where p: "p = (k, w)" by fastforce
        have "scan_fields fr n (CHR 0x22 # esc_string k @ CHR '':'' # enc w @ enc_fields kvs @ r) =
            Inr ((k, w) # kvs, r)"
          using 1 JObj Cons p by (intro Suc.IH(3)) auto
        then show ?thesis using 1 JObj Cons p by (simp add: scan_value_simps skip_ws_head dict_of_distinct)
      qed (simp add: JObj scan_value_simps skip_ws_head)
    qed (simp add: scan_value_simps scan_constant_def json_constants_def)
  next
    case 2
    have x: "scan_value fr n (enc v @ enc_items xs @ r) = Inr (v, enc_items xs @ r)"
      using 2 by (intro Suc.IH(1)) (auto simp: delimited_items)
    show ?case
    proof (cases xs)
      case (Cons y ys)
      have "scan_items fr n (enc y @ enc_items ys @ r) = Inr (y # ys, r)"
        using 2 Cons by (intro Suc.IH(2)) auto
      then show ?thesis using x 2 Cons by (simp add: skip_ws_head skip_ws_enc)
    qed (use x in \<open>simp add: skip_ws_head\<close>)
  next
    case 3
    have v: "scan_value fr n (enc v @ enc_fields kvs @ r) = Inr (v, enc_fields kvs @ r)"
      using 3 by (intro Suc.IH(1)) (auto simp: delimited_fields)
    show ?case
    proof (cases kvs)
      case (Cons p ps)
      obtain l w where p: "p = (l, w)" by fastforce
      have "scan_fields fr n (CHR 0x22 # esc_string l @ CHR '':'' # enc w @ enc_fields ps @ r) = Inr ((l, w) # ps, r)"
        using 3 Cons p by (intro Suc.IH(3)) auto
      then show ?thesis using v 3 Cons p by (simp add: skip_ws_head skip_ws_enc scan_esc_string)
    qed (use v 3 in \<open>simp add: skip_ws_head skip_ws_enc scan_esc_string\<close>)
  }
qed simp_all


text \<open>After an array or an object anything may follow.\<close>

lemma scan_enc_compound:
  assumes "2 * length (enc v) < n" "json_ok v" "json_readable fr v" "4 \<le> json_kind v"
  shows "scan_value fr n (enc v @ r) = Inr (v, r)"
proof (cases n)
  case (Suc m)
  show ?thesis
  proof (cases v)
    case (JArr ys)
    show ?thesis
    proof (cases ys)
      case (Cons x xs)
      have "json_ok x" using assms JArr Cons by simp
      then obtain c z where c: "enc x = c # z" "c \<notin> set '']}''" by (rule enc_head)
      have "scan_items fr m (enc x @ enc_items xs @ r) = Inr (x # xs, r)"
        using assms JArr Cons Suc by (intro scan_enc(2)) auto
      then show ?thesis using assms JArr Cons Suc c skip_ws_enc [of x] by (simp add: scan_value_simps)
    qed (simp add: JArr Suc scan_value_simps skip_ws_head)
  next
    case (JObj fs)
    show ?thesis
    proof (cases fs)
      case (Cons p kvs)
      obtain k w where p: "p = (k, w)" by fastforce
      have "scan_fields fr m (CHR 0x22 # esc_string k @ CHR '':'' # enc w @ enc_fields kvs @ r) =
          Inr ((k, w) # kvs, r)"
        using assms JObj Cons p Suc by (intro scan_enc(3)) auto
      then show ?thesis using assms JObj Cons p Suc by (simp add: scan_value_simps skip_ws_head dict_of_distinct)
    qed (simp add: JObj Suc scan_value_simps skip_ws_head)
  qed (use assms in simp_all)
qed (use assms in simp)

lemma json_readable_sort [simp]: "json_readable fr (sort_json v) = json_readable fr v"
proof (induction v rule: sort_json.induct)
  case (2 kvs)
  then show ?case by (fastforce simp: image_iff)
qed simp_all

lemma json_strings_sort [simp]: "json_strings_ok (sort_json v) = json_strings_ok v"
proof (induction v rule: sort_json.induct)
  case (2 kvs)
  then show ?case by (fastforce simp: image_iff)
qed simp_all

lemma json_kind_sort [simp]: "json_kind (sort_json v) = json_kind v"
  by (cases v) simp_all

text \<open>Sorting the keys twice changes nothing.\<close>

lemma sort_json_idem: "json_ok v \<Longrightarrow> sort_json (sort_json v) = sort_json v"
proof (induction v rule: sort_json.induct)
  case (2 kvs)
  let ?f = "\<lambda>(k, v). (k, sort_json v)"
  have d: "distinct (map fst (map ?f kvs))" using 2 by (simp add: comp_def case_prod_unfold)
  have "sort_key fst (map ?f (sort_key fst (map ?f kvs))) = sort_key fst (map ?f kvs)"
  proof (subst sort_key_fields_eq)
    have "distinct (map fst (sort_key fst (map ?f kvs)))"
      using d by (metis mset_eq_imp_distinct_iff mset_map mset_sort)
    then show "distinct (map fst (map ?f (sort_key fst (map ?f kvs))))" by (simp add: comp_def case_prod_unfold)
    have "(k, sort_json (sort_json v)) = (k, sort_json v)" if "(k, v) \<in> set kvs" for k v
      using 2 that by auto
    then show "set (map ?f (sort_key fst (map ?f kvs))) = set (map ?f kvs)"
      by (force simp: image_image case_prod_unfold intro!: image_cong)
  qed (rule d)
  then show ?case by simp
qed auto

lemma no_bom: "json_ok v \<Longrightarrow> take 3 (enc v @ r) \<noteq> [CHR 0xEF, CHR 0xBB, CHR 0xBF]"
  using enc_kind [of v r "CHR 0xEF"] enc_kind_le [of v] by (cases "enc v @ r") (auto simp: head_kind_def num_char_def is_digit_def)

lemma json_loads_canonical:
  assumes "json_ok v" "json_readable fr v"
  shows "json_loads fr (canonical_json_text v) = Inr (sort_json v)"
proof -
  let ?t = "canonical_json_text v"
  have ok: "json_ok (sort_json v)" using assms(1) by (rule json_ok_sort)
  have ws: "skip_ws ?t = ?t" using skip_ws_enc [OF ok, of "[]"] by (simp add: canonical_json_text_def)
  have "scan_value fr (scan_fuel ?t) (?t @ []) = Inr (sort_json v, [])"
    unfolding canonical_json_text_def
    by (rule scan_enc(1)) (use assms(2) ok in \<open>simp_all add: scan_fuel_def delimited_def\<close>)
  then show ?thesis using no_bom [OF ok, of "[]"]
    by (simp add: json_loads_def ws) (simp add: canonical_json_text_def skip_ws_def)
qed

lemma json_loads_line:
  assumes "json_ok v" "json_readable fr v" "4 \<le> json_kind v"
  shows "json_loads fr (canonical_json_text v @ [CHR 0x0A]) = Inr (sort_json v)"
proof -
  let ?t = "canonical_json_text v" and ?nl = "[CHR 0x0A]"
  have ok: "json_ok (sort_json v)" using assms(1) by (rule json_ok_sort)
  have ws: "skip_ws (?t @ ?nl) = ?t @ ?nl" using skip_ws_enc [OF ok, of ?nl] by (simp add: canonical_json_text_def)
  have "scan_value fr (scan_fuel (?t @ ?nl)) (?t @ ?nl) = Inr (sort_json v, ?nl)"
    unfolding canonical_json_text_def
    by (rule scan_enc_compound) (use assms(2,3) ok in \<open>simp_all add: scan_fuel_def\<close>)
  then show ?thesis using no_bom [OF ok, of ?nl]
    by (simp add: json_loads_def ws) (simp add: canonical_json_text_def skip_ws_def)
qed

section \<open>The bytes are UTF-8\<close>

lemma utf8_from_start: "utf8_from (0, lo, hi) s = utf8_text s"
  by (cases s) (simp_all add: utf8_text_def)

lemma utf8_from_append: "utf8_from st a \<Longrightarrow> utf8_text b \<Longrightarrow> utf8_from st (a @ b)"
proof (induction st a rule: utf8_from.induct)
  case (1 k lo hi)
  then show ?case by (simp add: utf8_from_start)
next
  case (2 lo hi c s)
  then show ?case by (cases "lead_byte (of_char c)") auto
next
  case (3 k lo hi c s)
  then show ?case by simp
qed

lemma utf8_text_append: "utf8_text a \<Longrightarrow> utf8_text b \<Longrightarrow> utf8_text (a @ b)"
  unfolding utf8_text_def [of a] utf8_text_def [of "a @ b"] by (rule utf8_from_append)

lemma utf8_ascii_Cons: "(of_char c :: nat) < 128 \<Longrightarrow> utf8_text (c # s) = utf8_text s"
  by (simp add: utf8_text_def lead_byte_def)

lemma utf8_ascii: "list_all (\<lambda>c. (of_char c :: nat) < 128) s \<Longrightarrow> utf8_text s"
  by (induction s) (simp_all add: utf8_ascii_Cons, simp add: utf8_text_def)

lemma esc_char_ascii: "(of_char c :: nat) < 128 \<Longrightarrow> list_all (\<lambda>c. (of_char c :: nat) < 128) (esc_char c)"
proof -
  assume "(of_char c :: nat) < 128"
  moreover have "(of_char (hex_digit n) :: nat) < 128" if "n < 16" for n
    using hex_digit_lower [OF that] by auto
  ultimately show ?thesis by (simp add: esc_char_def)
qed

lemma esc_char_high:
  assumes "128 \<le> (of_char c :: nat)"
  shows "esc_char c = [c]"
proof -
  have "\<forall>d \<in> {CHR 0x22, CHR 0x5C, CHR 0x0A, CHR 0x0D, CHR 0x09, CHR 0x0C, CHR 0x08}. (of_char d :: nat) < 128"
    by simp
  then have "c \<notin> {CHR 0x22, CHR 0x5C, CHR 0x0A, CHR 0x0D, CHR 0x09, CHR 0x0C, CHR 0x08}"
    using assms by (meson not_le)
  then show ?thesis using assms by (simp add: esc_char_def)
qed

lemma lead_byte_range: "lead_byte n = Some (k, lo, hi) \<Longrightarrow> 128 \<le> lo"
  by (auto simp: lead_byte_def split: if_splits)

text \<open>Replacing ASCII characters by ASCII texts keeps a text UTF-8.\<close>

lemma utf8_concat_map:
  assumes "\<And>c. (of_char c :: nat) < 128 \<Longrightarrow> list_all (\<lambda>c. (of_char c :: nat) < 128) (f c)"
    and "\<And>c. 128 \<le> (of_char c :: nat) \<Longrightarrow> f c = [c]"
  shows "utf8_from (k, lo, hi) s \<Longrightarrow> 128 \<le> lo \<Longrightarrow> utf8_from (k, lo, hi) (concat (map f s))"
proof (induction "(k, lo, hi)" s arbitrary: k lo hi rule: utf8_from.induct)
  case (2 lo hi c s)
  then obtain k' lo' hi' where st: "lead_byte (of_char c) = Some (k', lo', hi')" "utf8_from (k', lo', hi') s"
    by (auto split: option.splits)
  have rest: "utf8_from (k', lo', hi') (concat (map f s))"
    using "2.hyps" [OF st(1)] st lead_byte_range by blast
  show ?case
  proof (cases "(of_char c :: nat) < 128")
    case True
    then have "utf8_text (concat (map f s))" using st(1) rest by (simp add: lead_byte_def utf8_from_start)
    then show ?thesis using utf8_ascii [OF assms(1) [OF True]]
      by (simp add: utf8_from_start utf8_text_append)
  next
    case False
    then show ?thesis using st(1) rest assms(2) by simp
  qed
next
  case (3 k lo hi c s)
  then show ?case using assms(2) by simp
qed simp

lemma utf8_text_concat_map:
  assumes "\<And>c. (of_char c :: nat) < 128 \<Longrightarrow> list_all (\<lambda>c. (of_char c :: nat) < 128) (f c)"
    and "\<And>c. 128 \<le> (of_char c :: nat) \<Longrightarrow> f c = [c]" and "utf8_text s"
  shows "utf8_text (concat (map f s))"
  using utf8_concat_map [where f = f and k = 0 and lo = "0x80" and hi = "0xBF" and s = s] assms
  by (simp add: utf8_text_def)

lemma esc_string_concat: "esc_string s = concat (map esc_char s) @ [CHR 0x22]"
  by (induction s) simp_all

lemma utf8_esc_string: "utf8_text s \<Longrightarrow> utf8_text (esc_string s)"
  using utf8_text_concat_map [of esc_char s, OF esc_char_ascii esc_char_high]
  by (simp add: esc_string_concat utf8_text_append utf8_ascii)

lemma utf8_numbers:
  "utf8_text (int_str i)" "float_text_ok s \<Longrightarrow> utf8_text s"
proof -
  have num: "(of_char c :: nat) < 128" if "num_char c" for c
    using that by (auto simp: num_char_def is_digit_def)
  then have *: "list_all num_char s \<Longrightarrow> utf8_text s" for s
    by (intro utf8_ascii) (simp add: list_all_iff)
  show "utf8_text (int_str i)" "float_text_ok s \<Longrightarrow> utf8_text s"
    using * int_str_num by (auto simp: float_text_ok_def)
qed

lemma utf8_enc:
  "json_ok v \<Longrightarrow> json_strings_ok v \<Longrightarrow> utf8_text (enc v)"
  "\<forall>x \<in> set xs. json_ok x \<and> json_strings_ok x \<Longrightarrow> utf8_text (enc_items xs)"
  "\<forall>(k, v) \<in> set kvs. json_ok v \<and> utf8_text k \<and> json_strings_ok v \<Longrightarrow> utf8_text (enc_fields kvs)"
  by (induction v and xs and kvs rule: enc_enc_items_enc_fields.induct)
    (auto simp: utf8_ascii_Cons utf8_text_append utf8_esc_string utf8_numbers utf8_ascii case_prod_unfold)

lemma utf8_canonical: "json_ok v \<Longrightarrow> json_strings_ok v \<Longrightarrow> utf8_text (canonical_json_text v)"
  unfolding canonical_json_text_def by (rule utf8_enc(1)) (simp_all add: json_ok_sort)

end
