(* ===== verification/Csv_Text.thy ===== *)
theory Csv_Text
  imports Json_Reader
begin

text \<open>
  The \<open>csv\<close> module of the standard library (CPython 3.11, default dialect with lineterminator
  \<open>"\\n"\<close>): the minimal quoting of \<open>csv.writer\<close>, the character automaton of
  \<open>csv.reader\<close> over the lines of an \<open>io.StringIO\<close>, and the rows of \<open>csv.DictReader\<close>.
  The reader is lazy, so the rows before an error are returned with it. The result is that written rows are read
  back, as long as no field is longer than the field size limit.
\<close>

section \<open>Writing\<close>

definition csv_special :: "char \<Rightarrow> bool" where
  "csv_special c = (c \<in> {CHR '','', CHR 0x22, CHR 0x0A, CHR 0x0D})"

definition csv_quoted :: "string \<Rightarrow> string" where
  "csv_quoted s = concat (map (\<lambda>c. if c = CHR 0x22 then [c, c] else [c]) s)"

definition csv_field :: "string \<Rightarrow> string" where
  "csv_field s = (if list_ex csv_special s then CHR 0x22 # csv_quoted s @ [CHR 0x22] else s)"

text \<open>A row of one empty field is written with quotes.\<close>

definition csv_row :: "string list \<Rightarrow> string" where
  "csv_row fields =
     (if fields = [[]] then [CHR 0x22, CHR 0x22] else join '','' (map csv_field fields)) @ [CHR 0x0A]"

section \<open>Reading\<close>

datatype csv_phase = Start_Record | Start_Field | In_Field | In_Quoted | Quote_In_Quoted | Eat_Crnl

record csv_parser =
  phase :: csv_phase
  field_text :: string
  row_fields :: "string list"

definition csv_start :: csv_parser where
  "csv_start = \<lparr>phase = Start_Record, field_text = [], row_fields = []\<rparr>"

text \<open>\<open>field_len\<close> counts characters, that is bytes that do not continue one; the limit is
  \<open>csv.field_size_limit()\<close>.\<close>

definition continuation_byte :: "char \<Rightarrow> bool" where
  "continuation_byte c = (0x80 \<le> (of_char c :: nat) \<and> (of_char c :: nat) < 0xC0)"

definition text_length :: "string \<Rightarrow> nat" where
  "text_length s = length (filter (\<lambda>c. \<not> continuation_byte c) s)"

definition csv_limit :: nat where
  "csv_limit = 131072"

definition add_char :: "csv_phase \<Rightarrow> char \<Rightarrow> csv_parser \<Rightarrow> csv_parser result" where
  "add_char ph c p =
     (if \<not> continuation_byte c \<and> csv_limit \<le> text_length (field_text p)
      then raise (CsvError ''field larger than field limit (131072)'')
      else return (p\<lparr>phase := ph, field_text := field_text p @ [c]\<rparr>))"

definition save_field :: "csv_phase \<Rightarrow> csv_parser \<Rightarrow> csv_parser result" where
  "save_field ph p = return \<lparr>phase = ph, field_text = [], row_fields = row_fields p @ [field_text p]\<rparr>"

definition is_newline :: "char option \<Rightarrow> bool" where
  "is_newline c = (c \<in> {Some (CHR 0x0A), Some (CHR 0x0D)})"

definition start_field :: "char option \<Rightarrow> csv_parser \<Rightarrow> csv_parser result" where
  "start_field c p = (case c of
       None \<Rightarrow> save_field Start_Record p
     | Some d \<Rightarrow>
         if is_newline c then save_field Eat_Crnl p
         else if d = CHR 0x22 then return (p\<lparr>phase := In_Quoted\<rparr>)
         else if d = CHR '','' then save_field Start_Field p
         else add_char In_Field d p)"

text \<open>\<open>parse_process_char\<close>; \<open>None\<close> is the end of a line.\<close>

definition process_char :: "char option \<Rightarrow> csv_parser \<Rightarrow> csv_parser result" where
  "process_char c p = (case phase p of
       Start_Record \<Rightarrow>
         if c = None then return p
         else if is_newline c then return (p\<lparr>phase := Eat_Crnl\<rparr>)
         else start_field c p
     | Start_Field \<Rightarrow> start_field c p
     | In_Field \<Rightarrow> (case c of
           None \<Rightarrow> save_field Start_Record p
         | Some d \<Rightarrow>
             if is_newline c then save_field Eat_Crnl p
             else if d = CHR '','' then save_field Start_Field p
             else add_char In_Field d p)
     | In_Quoted \<Rightarrow> (case c of
           None \<Rightarrow> return p
         | Some d \<Rightarrow>
             if d = CHR 0x22 then return (p\<lparr>phase := Quote_In_Quoted\<rparr>)
             else add_char In_Quoted d p)
     | Quote_In_Quoted \<Rightarrow> (case c of
           None \<Rightarrow> save_field Start_Record p
         | Some d \<Rightarrow>
             if d = CHR 0x22 then add_char In_Quoted d p
             else if d = CHR '','' then save_field Start_Field p
             else if is_newline c then save_field Eat_Crnl p
             else add_char In_Field d p)
     | Eat_Crnl \<Rightarrow>
         if is_newline c then return p
         else if c = None then return (p\<lparr>phase := Start_Record\<rparr>)
         else raise (CsvError ''new-line character seen in unquoted field''))"

fun process_chars :: "string \<Rightarrow> csv_parser \<Rightarrow> csv_parser result" where
  "process_chars [] p = process_char None p"
| "process_chars (c # s) p = bind_result (process_char (Some c) p) (process_chars s)"

text \<open>The lines of an \<open>io.StringIO\<close>, each with its line feed.\<close>

fun text_lines :: "string \<Rightarrow> string list" where
  "text_lines [] = []"
| "text_lines (c # s) =
     (if c = CHR 0x0A then [c] # text_lines s
      else (case text_lines s of [] \<Rightarrow> [[c]] | l # ls \<Rightarrow> (c # l) # ls))"

fun csv_rows :: "csv_parser \<Rightarrow> string list \<Rightarrow> string list list \<times> py_error option" where
  "csv_rows p [] =
     (if field_text p \<noteq> [] \<or> phase p = In_Quoted then ([row_fields p @ [field_text p]], None) else ([], None))"
| "csv_rows p (l # ls) = (case process_chars l p of
       Inl e \<Rightarrow> ([], Some e)
     | Inr q \<Rightarrow>
         if phase q = Start_Record
         then (case csv_rows csv_start ls of (rows, e) \<Rightarrow> (row_fields q # rows, e))
         else csv_rows q ls)"

definition csv_reader :: "string \<Rightarrow> string list list \<times> py_error option" where
  "csv_reader text = csv_rows csv_start (text_lines text)"

text \<open>A row of \<open>DictReader\<close>: fields beyond the header are not kept, missing ones are None.\<close>

definition csv_dict :: "string list \<Rightarrow> string list \<Rightarrow> string option dict" where
  "csv_dict header row =
     foldl (\<lambda>d k. dict_set k None d) (dict_of (zip header (map Some row))) (drop (length row) header)"

definition dict_reader :: "string \<Rightarrow> string option dict list \<times> py_error option" where
  "dict_reader text = (case csv_reader text of
       ([], e) \<Rightarrow> ([], e)
     | (header # rows, e) \<Rightarrow> (map (csv_dict header) (filter (\<lambda>r. r \<noteq> []) rows), e))"

section \<open>Written rows are read back\<close>

lemma text_length_snoc: "text_length (s @ t) = text_length s + text_length t"
  by (simp add: text_length_def)

lemma text_lines_not_Nil [simp]: "text_lines s = [] \<longleftrightarrow> s = []"
  by (cases s) (auto split: list.splits)

lemma keep_phase:
  "phase p = ph \<Longrightarrow> p\<lparr>phase := ph\<rparr> = p"
  "phase p = ph \<Longrightarrow> field_text p = f \<Longrightarrow> p\<lparr>phase := ph, field_text := f\<rparr> = p"
  "phase p = ph \<Longrightarrow> p\<lparr>phase := ph, field_text := f\<rparr> = p\<lparr>field_text := f\<rparr>"
  by (cases p; simp)+

text \<open>A character inside a line, a line feed inside quotes, and the line feed that ends a row.\<close>

lemma rows_char:
  assumes "process_char (Some c) p = Inr q" "c \<noteq> CHR 0x0A" "t \<noteq> []"
  shows "csv_rows p (text_lines (c # t)) = csv_rows q (text_lines t)"
proof -
  obtain l ls where "text_lines t = l # ls" using assms(3) by (cases "text_lines t") auto
  then show ?thesis using assms(1,2) by simp
qed

lemma add_char_ok:
  "text_length (field_text p @ [c]) \<le> csv_limit \<Longrightarrow>
   add_char ph c p = Inr (p\<lparr>phase := ph, field_text := field_text p @ [c]\<rparr>)"
  by (auto simp: add_char_def text_length_def)

lemma rows_quoted:
  assumes "phase p = In_Quoted" "text_length (field_text p @ s) \<le> csv_limit" "t \<noteq> []"
  shows "csv_rows p (text_lines (csv_quoted s @ CHR 0x22 # t)) =
    csv_rows (p\<lparr>phase := Quote_In_Quoted, field_text := field_text p @ s\<rparr>) (text_lines t)"
  using assms
proof (induction s arbitrary: p)
  case Nil
  then show ?case
    by (simp add: csv_quoted_def rows_char [where q = "p\<lparr>phase := Quote_In_Quoted\<rparr>"] process_char_def
        del: text_lines.simps)
next
  case (Cons c s)
  let ?q = "p\<lparr>phase := In_Quoted, field_text := field_text p @ [c]\<rparr>"
  let ?rest = "csv_quoted s @ CHR 0x22 # t"
  have add: "add_char In_Quoted c (p\<lparr>phase := ph\<rparr>) = Inr ?q" for ph
    using Cons.prems(2) by (subst add_char_ok) (auto simp: text_length_def split: if_splits)
  have step: "csv_rows p (text_lines (csv_quoted (c # s) @ CHR 0x22 # t)) = csv_rows ?q (text_lines ?rest)"
  proof (cases "c = CHR 0x22")
    case True
    have "csv_rows p (text_lines (c # c # ?rest)) =
        csv_rows (p\<lparr>phase := Quote_In_Quoted\<rparr>) (text_lines (c # ?rest))"
      using True Cons.prems(1) by (intro rows_char) (simp_all add: process_char_def)
    also have "\<dots> = csv_rows ?q (text_lines ?rest)"
      using True add [of Quote_In_Quoted] by (intro rows_char) (simp_all add: process_char_def)
    finally show ?thesis using True by (simp add: csv_quoted_def del: text_lines.simps)
  next
    case False
    have pc: "process_char (Some c) p = Inr ?q"
      using False Cons.prems(1) add [of In_Quoted] by (simp add: process_char_def keep_phase)
    show ?thesis
    proof (cases "c = CHR 0x0A")
      case True
      then show ?thesis using pc by (simp add: csv_quoted_def process_char_def)
    next
      case nl: False
      then show ?thesis using False pc rows_char [OF pc nl, of ?rest]
        by (simp add: csv_quoted_def del: text_lines.simps)
    qed
  qed
  show ?case unfolding step using Cons.IH [of ?q] Cons.prems by simp
qed

lemma rows_plain:
  assumes "phase p = In_Field" "text_length (field_text p @ s) \<le> csv_limit" "t \<noteq> []" "\<not> list_ex csv_special s"
  shows "csv_rows p (text_lines (s @ t)) = csv_rows (p\<lparr>field_text := field_text p @ s\<rparr>) (text_lines t)"
  using assms
proof (induction s arbitrary: p)
  case (Cons c s)
  let ?q = "p\<lparr>phase := In_Field, field_text := field_text p @ [c]\<rparr>"
  have add: "add_char In_Field c p = Inr ?q"
    using Cons.prems(2) by (intro add_char_ok) (auto simp: text_length_def split: if_splits)
  have pc: "process_char (Some c) p = Inr ?q" "c \<noteq> CHR 0x0A"
    using Cons.prems(1,4) add by (simp_all add: process_char_def is_newline_def csv_special_def)
  have "csv_rows p (text_lines (c # s @ t)) = csv_rows ?q (text_lines (s @ t))"
    using pc Cons.prems(3) by (intro rows_char) simp_all
  then show ?case using Cons.IH [of ?q] Cons.prems by (simp add: keep_phase del: text_lines.simps)
qed simp

text \<open>A whole field, from the start of a field or of a record; the phase after it accepts a separator.\<close>

lemma rows_field:
  assumes "phase p = Start_Field \<or> phase p = Start_Record \<and> s \<noteq> []" "field_text p = []"
    "text_length s \<le> csv_limit" "t \<noteq> []"
  obtains ph where "ph \<in> {Start_Field, In_Field, Quote_In_Quoted}"
    "csv_rows p (text_lines (csv_field s @ t)) = csv_rows (p\<lparr>phase := ph, field_text := s\<rparr>) (text_lines t)"
proof (cases "list_ex csv_special s")
  case True
  have "process_char (Some (CHR 0x22)) p = Inr (p\<lparr>phase := In_Quoted\<rparr>)"
    using assms(1) by (auto simp: process_char_def start_field_def is_newline_def)
  then have "csv_rows p (text_lines (CHR 0x22 # csv_quoted s @ CHR 0x22 # t)) =
      csv_rows (p\<lparr>phase := In_Quoted\<rparr>) (text_lines (csv_quoted s @ CHR 0x22 # t))"
    by (intro rows_char) simp_all
  also have "\<dots> = csv_rows (p\<lparr>phase := Quote_In_Quoted, field_text := s\<rparr>) (text_lines t)"
    using rows_quoted [of "p\<lparr>phase := In_Quoted\<rparr>" s t] assms by simp
  finally show ?thesis using that [of Quote_In_Quoted] True by (simp add: csv_field_def)
next
  case plain: False
  show ?thesis
  proof (cases s)
    case Nil
    then have "p\<lparr>phase := Start_Field, field_text := s\<rparr> = p" using assms(1,2) by (auto simp: keep_phase)
    then show ?thesis using that [of Start_Field] Nil by (simp add: csv_field_def)
  next
    case (Cons c s')
    let ?q = "p\<lparr>phase := In_Field, field_text := [c]\<rparr>"
    have "add_char In_Field c p = Inr ?q"
      using assms Cons by (subst add_char_ok) (auto simp: text_length_def split: if_splits)
    then have pc: "process_char (Some c) p = Inr ?q" "c \<noteq> CHR 0x0A"
      using assms(1) plain Cons by (auto simp: process_char_def start_field_def is_newline_def csv_special_def)
    have "csv_rows p (text_lines (c # s' @ t)) = csv_rows ?q (text_lines (s' @ t))"
      using pc assms(4) by (intro rows_char) simp_all
    also have "\<dots> = csv_rows (p\<lparr>phase := In_Field, field_text := s\<rparr>) (text_lines t)"
      using rows_plain [of ?q s' t] assms(3,4) plain Cons by simp
    finally show ?thesis using that [of In_Field] plain Cons by (simp add: csv_field_def)
  qed
qed

lemma rows_end:
  assumes "phase p \<in> {Start_Field, In_Field, Quote_In_Quoted}"
  shows "csv_rows p (text_lines (CHR 0x0A # t)) =
    (case csv_rows csv_start (text_lines t) of (rows, e) \<Rightarrow> ((row_fields p @ [field_text p]) # rows, e))"
  using assms by (auto simp: process_char_def start_field_def is_newline_def save_field_def)

lemma rows_row:
  assumes "phase p = Start_Field \<or> phase p = Start_Record \<and> hd row \<noteq> []" "field_text p = []" "row \<noteq> []"
    "\<forall>s \<in> set row. text_length s \<le> csv_limit"
  shows "csv_rows p (text_lines (join '','' (map csv_field row) @ CHR 0x0A # t)) =
    (case csv_rows csv_start (text_lines t) of (rows, e) \<Rightarrow> ((row_fields p @ row) # rows, e))"
  using assms
proof (induction row arbitrary: p)
  case (Cons s row)
  show ?case
  proof (cases row)
    case Nil
    obtain ph where ph: "ph \<in> {Start_Field, In_Field, Quote_In_Quoted}"
      "csv_rows p (text_lines (csv_field s @ CHR 0x0A # t)) =
        csv_rows (p\<lparr>phase := ph, field_text := s\<rparr>) (text_lines (CHR 0x0A # t))"
      using rows_field [of p s "CHR 0x0A # t"] Cons.prems by auto
    then show ?thesis using rows_end [of "p\<lparr>phase := ph, field_text := s\<rparr>" t] Nil
      by (simp del: text_lines.simps)
  next
    case (Cons s' row')
    let ?rest = "join '','' (map csv_field row) @ CHR 0x0A # t"
    obtain ph where ph: "ph \<in> {Start_Field, In_Field, Quote_In_Quoted}"
      "csv_rows p (text_lines (csv_field s @ CHR '','' # ?rest)) =
        csv_rows (p\<lparr>phase := ph, field_text := s\<rparr>) (text_lines (CHR '','' # ?rest))"
      using rows_field [of p s "CHR '','' # ?rest"] Cons.prems by auto
    let ?q = "\<lparr>phase = Start_Field, field_text = [], row_fields = row_fields p @ [s]\<rparr>"
    have "process_char (Some (CHR '','')) (p\<lparr>phase := ph, field_text := s\<rparr>) = Inr ?q"
      using ph(1) by (auto simp: process_char_def start_field_def is_newline_def save_field_def)
    then have "csv_rows (p\<lparr>phase := ph, field_text := s\<rparr>) (text_lines (CHR '','' # ?rest)) =
        csv_rows ?q (text_lines ?rest)"
      by (intro rows_char) simp_all
    then show ?thesis using ph(2) Cons.IH [of ?q] Cons.prems Cons by (simp del: text_lines.simps)
  qed
qed simp

lemma csv_reader_rows:
  assumes "\<forall>row \<in> set rows. row \<noteq> [] \<and> hd row \<noteq> [] \<and> (\<forall>s \<in> set row. text_length s \<le> csv_limit)"
  shows "csv_reader (concat (map csv_row rows)) = (rows, None)"
  unfolding csv_reader_def using assms
proof (induction rows)
  case (Cons row rows)
  then have "row \<noteq> [[]]" by auto
  then have "csv_row row = join '','' (map csv_field row) @ [CHR 0x0A]" by (simp add: csv_row_def)
  then show ?case
    using Cons rows_row [of csv_start row "concat (map csv_row rows)"]
    by (simp add: csv_start_def del: text_lines.simps)
qed (simp add: csv_start_def)

end
