(* ===== verification/Release_Files.thy ===== *)
theory Release_Files
  imports Merkle Evidence_Models Json_Roundtrip Csv_Text Base64
begin

text \<open>
  src/ballotproof/releases.py, the release files: \<open>build_release\<close> writes the records as JSON, CSV and
  Parquet with a signed manifest, \<open>verify_release\<close> checks a directory, \<open>publish_release\<close>
  copies it into an append-only mirror. A directory is a dict from file names to contents. Parquet, Ed25519 and
  pydantic's JSON reader are parameters; JSON, CSV, base64 and SHA-256 are the theories imported here.
  The records of an election are collected from the stores in \<open>Release_Records\<close>.
\<close>

section \<open>Records and files\<close>

definition release_record_type_of :: "string \<Rightarrow> release_record_type option" where
  "release_record_type_of t =
     map_of (map (\<lambda>ty. (record_type_text ty, ty)) [registry_snapshot_record, evidence_version_record,
       attestation_record, extraction_record_type, extraction_review_record]) t"

text \<open>The constructor of \<open>ReleaseRecord\<close> on values of any type.\<close>

definition make_release_record :: "json \<Rightarrow> json \<Rightarrow> json \<Rightarrow> release_record result" where
  "make_release_record ty key payload = (case (ty, key, payload) of
       (JStr t, JStr k, JObj kvs) \<Rightarrow>
         (case release_record_type_of t of
            None \<Rightarrow> raise field_error
          | Some rt \<Rightarrow>
              if utf8_text k then return \<lparr>record_type = rt, release_key = k, release_payload = kvs\<rparr>
              else raise field_error)
     | _ \<Rightarrow> raise field_error)"

text \<open>\<open>ReleaseRecord.model_validate\<close> of a parsed JSON value, where extra keys are forbidden.\<close>

definition validate_record :: "json \<Rightarrow> release_record result" where
  "validate_record item = (case item of
       JObj kvs \<Rightarrow>
         (case (dict_get kvs ''record_type'', dict_get kvs ''record_key'', dict_get kvs ''payload'') of
            (Some ty, Some key, Some payload) \<Rightarrow>
              if dict_keys kvs = {''record_type'', ''record_key'', ''payload''}
              then make_release_record ty key payload else raise field_error
          | _ \<Rightarrow> raise field_error)
     | _ \<Rightarrow> raise field_error)"

record release_file =
  rf_name :: string
  media_type :: string
  rf_sha256 :: string
  size_bytes :: int

record release_manifest =
  rm_release_id :: string
  rm_election_id :: string
  record_count :: int
  rm_merkle_root :: string
  rm_files :: "release_file list"

record release_signature =
  sg_manifest_sha256 :: string
  public_key_b64 :: string
  signer_key_sha256 :: string
  signature_b64 :: string

text \<open>What the code relies on outside this repository. A cell of a Parquet row is a text, a byte string or
  another value; \<open>float_text\<close> and the comparisons are those of Python floats by the text that
  \<open>json.dumps\<close> prints for them.\<close>

datatype cell = Cell_Text string | Cell_Bytes "byte list" | Cell_Other

record release_library =
  float_text :: "string \<Rightarrow> string"
  float_eq :: "string \<Rightarrow> string \<Rightarrow> bool"
  float_eq_int :: "string \<Rightarrow> int \<Rightarrow> bool"
  loads_bytes :: "byte list \<Rightarrow> json result"
  parquet_write :: "(string \<times> string \<times> string) list \<Rightarrow> byte list"
  parquet_read :: "byte list \<Rightarrow> cell dict list result"
  parse_manifest :: "byte list \<Rightarrow> release_manifest result"
  parse_signature :: "byte list \<Rightarrow> release_signature result"
  public_bytes :: "byte list \<Rightarrow> byte list"
  ed_sign :: "byte list \<Rightarrow> byte list \<Rightarrow> byte list"
  ed_verify :: "byte list \<Rightarrow> byte list \<Rightarrow> byte list \<Rightarrow> bool"

definition expected_release_files :: "(string \<times> string) list" where
  "expected_release_files = [(''records.json'', ''application/json''), (''records.csv'', ''text/csv''),
     (''records.parquet'', ''application/vnd.apache.parquet'')]"

definition newline_byte :: byte where
  "newline_byte = 0x0A"

definition canonical_payload :: "release_record \<Rightarrow> string" where
  "canonical_payload r = canonical_json_text (JObj (release_payload r))"

definition file_entry :: "string \<Rightarrow> string \<Rightarrow> byte list \<Rightarrow> release_file result" where
  "file_entry name media content =
     (if content = [] then raise field_error
      else return \<lparr>rf_name = name, media_type = media, rf_sha256 = sha256_bytes content,
        size_bytes = int (length content)\<rparr>)"

definition json_bytes :: "release_record list \<Rightarrow> byte list result" where
  "json_bytes records = bind_result (record_dicts records) (\<lambda>dicts.
     return (canonical_json_bytes (JArr dicts) @ [newline_byte]))"

definition csv_header :: "string list" where
  "csv_header = [''record_type'', ''record_key'', ''payload_json'']"

definition csv_fields :: "release_record \<Rightarrow> string list" where
  "csv_fields r = [record_type_text (record_type r), release_key r, canonical_payload r]"

definition csv_bytes :: "release_record list \<Rightarrow> byte list result" where
  "csv_bytes records = bind_result (ordered_records records) (\<lambda>ordered.
     return (utf8 (concat (map csv_row (csv_header # map csv_fields ordered)))))"

definition parquet_bytes :: "release_library \<Rightarrow> release_record list \<Rightarrow> byte list result" where
  "parquet_bytes lib records = bind_result (ordered_records records) (\<lambda>ordered.
     return (parquet_write lib
       (map (\<lambda>r. (record_type_text (record_type r), release_key r, canonical_payload r)) ordered)))"

text \<open>The Merkle root, which raises UnicodeEncodeError for a payload with a lone surrogate.\<close>

definition encoded_root :: "release_record list \<Rightarrow> string result" where
  "encoded_root records =
     (if list_all (\<lambda>r. json_strings_ok (JObj (release_payload r))) records then merkle_root records
      else raise (ValueError ''UnicodeEncodeError''))"

section \<open>Building\<close>

definition release_seed :: "string \<Rightarrow> string \<Rightarrow> json" where
  "release_seed election root = JObj [(''election_id'', JStr election), (''merkle_root'', JStr root),
     (''schema_version'', JStr ''1'')]"

definition release_id_of :: "string \<Rightarrow> string \<Rightarrow> string" where
  "release_id_of election root = ''bp_rel_'' @ take 32 (hash_record (release_seed election root))"

definition file_json :: "release_file \<Rightarrow> json" where
  "file_json f = JObj [(''name'', JStr (rf_name f)), (''media_type'', JStr (media_type f)),
     (''sha256'', JStr (rf_sha256 f)), (''size_bytes'', JInt (size_bytes f))]"

definition manifest_json :: "release_manifest \<Rightarrow> json" where
  "manifest_json m = JObj [(''schema_version'', JStr ''1''), (''release_id'', JStr (rm_release_id m)),
     (''election_id'', JStr (rm_election_id m)), (''record_count'', JInt (record_count m)),
     (''merkle_algorithm'', JStr ''sha256-canonical-json-v1''), (''merkle_root'', JStr (rm_merkle_root m)),
     (''files'', JArr (map file_json (rm_files m)))]"

definition signature_json :: "release_signature \<Rightarrow> json" where
  "signature_json s = JObj [(''algorithm'', JStr ''Ed25519''), (''manifest_sha256'', JStr (sg_manifest_sha256 s)),
     (''public_key_b64'', JStr (public_key_b64 s)), (''signer_key_sha256'', JStr (signer_key_sha256 s)),
     (''signature_b64'', JStr (signature_b64 s))]"

text \<open>\<open>bytes.rstrip(b"\\n")\<close>.\<close>

definition strip_newlines :: "byte list \<Rightarrow> byte list" where
  "strip_newlines bs = rev (dropWhile (\<lambda>b. b = newline_byte) (rev bs))"

definition signed_release :: "release_library \<Rightarrow> byte list \<Rightarrow> byte list \<Rightarrow> release_signature" where
  "signed_release lib private msg = \<lparr>sg_manifest_sha256 = sha256_bytes msg,
     public_key_b64 = b64encode (public_bytes lib private),
     signer_key_sha256 = sha256_bytes (public_bytes lib private),
     signature_b64 = b64encode (ed_sign lib private msg)\<rparr>"

text \<open>Every output replaces the file of its name; other files of the directory are left alone.\<close>

definition build_release :: "release_library \<Rightarrow> byte list \<Rightarrow> string \<Rightarrow> release_record list
    \<Rightarrow> byte list dict \<Rightarrow> (release_manifest \<times> byte list dict) result" where
  "build_release lib private election records dir =
     bind_result (encoded_root records) (\<lambda>root.
     bind_result (json_bytes records) (\<lambda>jb.
     bind_result (csv_bytes records) (\<lambda>cb.
     bind_result (parquet_bytes lib records) (\<lambda>pb.
     bind_result (file_entry ''records.json'' ''application/json'' jb) (\<lambda>jf.
     bind_result (file_entry ''records.csv'' ''text/csv'' cb) (\<lambda>cf.
     bind_result (file_entry ''records.parquet'' ''application/vnd.apache.parquet'' pb) (\<lambda>pf.
       let manifest = \<lparr>rm_release_id = release_id_of election root, rm_election_id = election,
             record_count = int (length records), rm_merkle_root = root, rm_files = [jf, cf, pf]\<rparr>;
           manifest_bytes = canonical_json_bytes (manifest_json manifest) @ [newline_byte];
           msg = strip_newlines manifest_bytes;
           signature_bytes = canonical_json_bytes (signature_json (signed_release lib private msg)) @ [newline_byte]
       in return (manifest,
            dict_set ''manifest.signature.json'' signature_bytes (dict_set ''manifest.json'' manifest_bytes
              (dict_set ''records.parquet'' pb (dict_set ''records.csv'' cb (dict_set ''records.json'' jb dir))))))))))))"

section \<open>Reading the exports\<close>

definition records_from_json :: "release_library \<Rightarrow> byte list \<Rightarrow> release_record list result" where
  "records_from_json lib content =
     bind_result (decode_utf8 content) (\<lambda>text.
     bind_result (json_loads (float_text lib) text) (\<lambda>v. case v of
         JArr items \<Rightarrow> map_result validate_record items
       | JObj kvs \<Rightarrow> map_result (\<lambda>(k, _). validate_record (JStr k)) kvs
       | JStr s \<Rightarrow> if s = [] then return [] else raise field_error
       | _ \<Rightarrow> raise (TypeError ''object is not iterable'')))"

definition row_value :: "'a dict \<Rightarrow> string \<Rightarrow> 'a result" where
  "row_value row key = (case dict_get row key of None \<Rightarrow> raise (KeyError key) | Some v \<Rightarrow> return v)"

definition opt_text :: "string option \<Rightarrow> json" where
  "opt_text v = json_opt JStr v"

definition record_of_csv :: "release_library \<Rightarrow> string option dict \<Rightarrow> release_record result" where
  "record_of_csv lib row =
     bind_result (row_value row ''record_type'') (\<lambda>ty.
     bind_result (row_value row ''record_key'') (\<lambda>key.
     bind_result (row_value row ''payload_json'') (\<lambda>text.
     bind_result (case text of None \<Rightarrow> raise (TypeError ''the JSON object must be str, bytes or bytearray'')
       | Some t \<Rightarrow> json_loads (float_text lib) t) (\<lambda>payload.
       make_release_record (opt_text ty) (opt_text key) payload))))"

definition records_from_csv :: "release_library \<Rightarrow> byte list \<Rightarrow> release_record list result" where
  "records_from_csv lib content =
     bind_result (decode_utf8 content) (\<lambda>text. case dict_reader text of (rows, e) \<Rightarrow>
       bind_result (map_result (record_of_csv lib) rows) (\<lambda>records.
         case e of None \<Rightarrow> return records | Some x \<Rightarrow> raise x))"

definition cell_json :: "cell \<Rightarrow> json" where
  "cell_json c = (case c of
       Cell_Text s \<Rightarrow> JStr s
     | Cell_Bytes bs \<Rightarrow> (case decode_utf8 bs of Inl _ \<Rightarrow> JNull | Inr s \<Rightarrow> JStr s)
     | Cell_Other \<Rightarrow> JNull)"

definition record_of_parquet :: "release_library \<Rightarrow> cell dict \<Rightarrow> release_record result" where
  "record_of_parquet lib row =
     bind_result (row_value row ''record_type'') (\<lambda>ty.
     bind_result (row_value row ''record_key'') (\<lambda>key.
     bind_result (row_value row ''payload_json'') (\<lambda>v.
     bind_result (case v of
         Cell_Text t \<Rightarrow> json_loads (float_text lib) t
       | Cell_Bytes bs \<Rightarrow> loads_bytes lib bs
       | Cell_Other \<Rightarrow> raise (TypeError ''the JSON object must be str, bytes or bytearray'')) (\<lambda>payload.
       make_release_record (case ty of Cell_Text t \<Rightarrow> JStr t | _ \<Rightarrow> JNull) (cell_json key) payload))))"

definition records_from_parquet :: "release_library \<Rightarrow> byte list \<Rightarrow> release_record list result" where
  "records_from_parquet lib content =
     bind_result (parquet_read lib content) (map_result (record_of_parquet lib))"


section \<open>Verifying\<close>

text \<open>Python's \<open>==\<close> on parsed documents, where booleans and integers compare as numbers.\<close>

definition int_value :: "json \<Rightarrow> int option" where
  "int_value v = (case v of JBool b \<Rightarrow> Some (if b then 1 else 0) | JInt i \<Rightarrow> Some i | _ \<Rightarrow> None)"

definition float_int_eq :: "release_library \<Rightarrow> string \<Rightarrow> json \<Rightarrow> bool" where
  "float_int_eq lib s v = (case int_value v of None \<Rightarrow> False | Some i \<Rightarrow> float_eq_int lib s i)"

definition atom_eq :: "release_library \<Rightarrow> json \<Rightarrow> json \<Rightarrow> bool" where
  "atom_eq lib a b = (case (a, b) of
       (JFloat s, JFloat t) \<Rightarrow> float_eq lib s t
     | (JFloat s, v) \<Rightarrow> float_int_eq lib s v
     | (v, JFloat s) \<Rightarrow> float_int_eq lib s v
     | (JNull, JNull) \<Rightarrow> True
     | (JStr s, JStr t) \<Rightarrow> s = t
     | _ \<Rightarrow> int_value a \<noteq> None \<and> int_value a = int_value b)"

fun py_eq :: "release_library \<Rightarrow> json \<Rightarrow> json \<Rightarrow> bool" where
  "py_eq lib (JArr xs) (JArr ys) = list_all2 (py_eq lib) xs ys"
| "py_eq lib (JObj kvs) (JObj lws) =
     (dict_keys kvs = dict_keys lws \<and>
      (\<forall>(k, v) \<in> set kvs. case dict_get lws k of None \<Rightarrow> False | Some w \<Rightarrow> py_eq lib v w))"
| "py_eq lib a b = atom_eq lib a b"

definition index_files :: "release_file list \<Rightarrow> release_file dict" where
  "index_files fs = dict_of (map (\<lambda>f. (rf_name f, f)) fs)"

definition validate_manifest_files :: "release_manifest \<Rightarrow> release_file dict result" where
  "validate_manifest_files m =
     (let files = index_files (rm_files m) in
      if \<not> distinct (map rf_name (rm_files m)) then raise (ValueError ''duplicate manifest file name: '')
      else if dict_keys files \<noteq> dict_keys expected_release_files
      then raise (ValueError ''release manifest must contain exactly the schema-v1 export files'')
      else if \<not> list_all (\<lambda>(name, expected). map_option media_type (dict_get files name) = Some expected)
        expected_release_files
      then raise (ValueError ''unexpected media type for '')
      else return files)"

definition lower_char :: "char \<Rightarrow> char" where
  "lower_char c = (if 65 \<le> (of_char c :: nat) \<and> (of_char c :: nat) \<le> 90 then char_of (of_char c + 32 :: nat) else c)"

text \<open>Trusted fingerprints; a character outside ASCII never lowers to a hexadecimal digit.\<close>

definition signer_trust_status :: "string \<Rightarrow> string list option \<Rightarrow> bool option result" where
  "signer_trust_status fingerprint trusted = (case trusted of
       None \<Rightarrow> return None
     | Some values \<Rightarrow>
         if list_all (\<lambda>v. is_sha256_hex (map lower_char v)) values
         then return (Some (fingerprint \<in> set (map (map lower_char) values)))
         else raise (ValueError ''trusted signer fingerprints must be 64 hexadecimal characters''))"

definition read_file :: "byte list dict \<Rightarrow> string \<Rightarrow> byte list result" where
  "read_file dir name = (case dict_get dir name of
       None \<Rightarrow> raise (OSError ''No such file or directory: '') | Some content \<Rightarrow> return content)"

text \<open>\<open>Ed25519PublicKey.from_public_bytes(key).verify(signature, message)\<close>.\<close>

definition check_signature :: "release_library \<Rightarrow> byte list \<Rightarrow> byte list \<Rightarrow> byte list \<Rightarrow> unit result" where
  "check_signature lib key signature msg =
     (if ed_verify lib key signature msg then return () else raise InvalidSignature)"

definition load_public_key :: "byte list \<Rightarrow> byte list result" where
  "load_public_key key =
     (if length key \<noteq> 32 then raise (ValueError ''An Ed25519 public key is 32 bytes long'') else return key)"

definition load_verified_manifest :: "release_library \<Rightarrow> byte list dict \<Rightarrow> string list option
    \<Rightarrow> (release_manifest \<times> release_signature \<times> bool \<times> bool option) result" where
  "load_verified_manifest lib dir trusted =
     bind_result (read_file dir ''manifest.json'') (\<lambda>content.
     let manifest_raw = strip_newlines content in
     bind_result (parse_manifest lib manifest_raw) (\<lambda>manifest.
     bind_result (validate_manifest_files manifest) (\<lambda>_.
     bind_result (read_file dir ''manifest.signature.json'') (\<lambda>signature_raw.
     bind_result (parse_signature lib signature_raw) (\<lambda>signature.
     let manifest_hash_valid = (sha256_bytes manifest_raw = sg_manifest_sha256 signature) in
     bind_result (b64decode (public_key_b64 signature)) (\<lambda>public_key_bytes.
     let key_hash_valid = (sha256_bytes public_key_bytes = signer_key_sha256 signature) in
     bind_result (load_public_key public_key_bytes) (\<lambda>public_key.
     bind_result (b64decode (signature_b64 signature)) (\<lambda>signed.
     bind_result (check_signature lib public_key signed manifest_raw) (\<lambda>_.
     bind_result (signer_trust_status (signer_key_sha256 signature) trusted) (\<lambda>signer_trusted.
       return (manifest, signature, manifest_hash_valid \<and> key_hash_valid, signer_trusted)))))))))))"

text \<open>The exceptions that both verification functions turn into a report.\<close>

fun caught :: "py_error \<Rightarrow> bool" where
  "caught (RuntimeError _) = False"
| "caught (IndexError _) = False"
| "caught (IntegrityError _) = False"
| "caught (CsvError _) = False"
| "caught _ = True"

definition report_errors :: "(py_error \<Rightarrow> 'a) \<Rightarrow> 'a result \<Rightarrow> 'a result" where
  "report_errors on_error res = (case res of
       Inl e \<Rightarrow> if caught e then return (on_error e) else raise e
     | Inr v \<Rightarrow> return v)"

record manifest_verification =
  mv_release_id :: "string option"
  mv_merkle_root :: "string option"
  mv_valid :: bool
  mv_signature_valid :: bool
  mv_signer_key_sha256 :: "string option"
  mv_signer_trusted :: "bool option"
  mv_error :: "py_error option"

definition verify_release_manifest :: "release_library \<Rightarrow> byte list dict \<Rightarrow> string list option
    \<Rightarrow> manifest_verification result" where
  "verify_release_manifest lib dir trusted = report_errors
     (\<lambda>e. \<lparr>mv_release_id = None, mv_merkle_root = None, mv_valid = False, mv_signature_valid = False,
        mv_signer_key_sha256 = None, mv_signer_trusted = None, mv_error = Some e\<rparr>)
     (bind_result (load_verified_manifest lib dir trusted) (\<lambda>(manifest, signature, signature_valid, signer_trusted).
        return \<lparr>mv_release_id = Some (rm_release_id manifest), mv_merkle_root = Some (rm_merkle_root manifest),
          mv_valid = (signature_valid \<and> signer_trusted \<noteq> Some False), mv_signature_valid = signature_valid,
          mv_signer_key_sha256 = Some (signer_key_sha256 signature), mv_signer_trusted = signer_trusted,
          mv_error = None\<rparr>))"

record release_verification =
  rv_release_id :: "string option"
  rv_valid :: bool
  rv_signature_valid :: bool
  file_hashes_valid :: bool
  formats_equivalent :: bool
  merkle_valid :: bool
  rv_signer_key_sha256 :: "string option"
  rv_signer_trusted :: "bool option"
  rv_error :: "py_error option"

definition file_matches :: "release_file dict \<Rightarrow> string \<Rightarrow> byte list \<Rightarrow> bool result" where
  "file_matches files name content = bind_result (row_value files name) (\<lambda>item.
     return (sha256_bytes content = rf_sha256 item \<and> int (length content) = size_bytes item))"

text \<open>The export files in order, each read and compared with its manifest entry.\<close>

fun check_files :: "release_file dict \<Rightarrow> byte list dict \<Rightarrow> string list \<Rightarrow> (bool \<times> byte list dict) result" where
  "check_files files dir [] = return (True, [])"
| "check_files files dir (name # names) =
     bind_result (read_file dir name) (\<lambda>content.
     bind_result (file_matches files name content) (\<lambda>match.
     bind_result (check_files files dir names) (\<lambda>(rest_valid, contents).
       return (match \<and> rest_valid, (name, content) # contents))))"

definition formats_agree :: "release_library \<Rightarrow> release_record list \<Rightarrow> release_record list \<Rightarrow> release_record list
    \<Rightarrow> bool result" where
  "formats_agree lib js cs ps =
     bind_result (record_dicts js) (\<lambda>canonical.
     bind_result (record_dicts cs) (\<lambda>csv_dicts.
       if \<not> py_eq lib (JArr canonical) (JArr csv_dicts) then return False
       else bind_result (record_dicts ps) (\<lambda>parquet_dicts. return (py_eq lib (JArr canonical) (JArr parquet_dicts)))))"

definition root_matches :: "release_manifest \<Rightarrow> release_record list \<Rightarrow> bool result" where
  "root_matches m js =
     (if int (length js) \<noteq> record_count m then return False
      else bind_result (encoded_root js) (\<lambda>root. return (root = rm_merkle_root m)))"

definition verify_contents :: "release_library \<Rightarrow> byte list dict \<Rightarrow> string list option
    \<Rightarrow> release_verification result" where
  "verify_contents lib dir trusted =
     bind_result (load_verified_manifest lib dir trusted) (\<lambda>(manifest, signature, signature_valid, signer_trusted).
     bind_result (validate_manifest_files manifest) (\<lambda>files.
     bind_result (check_files files dir (map fst expected_release_files)) (\<lambda>(hashes_valid, contents).
     bind_result (bind_result (row_value contents ''records.json'') (records_from_json lib)) (\<lambda>js.
     bind_result (bind_result (row_value contents ''records.csv'') (records_from_csv lib)) (\<lambda>cs.
     bind_result (bind_result (row_value contents ''records.parquet'') (records_from_parquet lib)) (\<lambda>ps.
     bind_result (formats_agree lib js cs ps) (\<lambda>equivalent.
     bind_result (root_matches manifest js) (\<lambda>root_valid.
       return \<lparr>rv_release_id = Some (rm_release_id manifest),
         rv_valid = (signature_valid \<and> signer_trusted \<noteq> Some False \<and> hashes_valid \<and> equivalent \<and> root_valid),
         rv_signature_valid = signature_valid, file_hashes_valid = hashes_valid, formats_equivalent = equivalent,
         merkle_valid = root_valid, rv_signer_key_sha256 = Some (signer_key_sha256 signature),
         rv_signer_trusted = signer_trusted, rv_error = None\<rparr>))))))))"

definition verify_release :: "release_library \<Rightarrow> byte list dict \<Rightarrow> string list option
    \<Rightarrow> release_verification result" where
  "verify_release lib dir trusted = report_errors
     (\<lambda>e. \<lparr>rv_release_id = None, rv_valid = False, rv_signature_valid = False, file_hashes_valid = False,
        formats_equivalent = False, merkle_valid = False, rv_signer_key_sha256 = None, rv_signer_trusted = None,
        rv_error = Some e\<rparr>)
     (verify_contents lib dir trusted)"

section \<open>Inclusion proofs of a release\<close>

definition require_verified :: "release_library \<Rightarrow> byte list dict \<Rightarrow> string list option \<Rightarrow> unit result" where
  "require_verified lib dir trusted = bind_result (verify_release lib dir trusted) (\<lambda>v.
     if rv_valid v then return () else raise (ValueError ''release verification failed''))"

definition create_release_inclusion_proof :: "release_library \<Rightarrow> byte list dict \<Rightarrow> release_record_type \<Rightarrow> string
    \<Rightarrow> string list option \<Rightarrow> proof_bundle result" where
  "create_release_inclusion_proof lib dir ty key trusted =
     bind_result (require_verified lib dir trusted) (\<lambda>_.
     bind_result (bind_result (read_file dir ''manifest.json'') (parse_manifest lib)) (\<lambda>manifest.
     bind_result (bind_result (read_file dir ''records.json'') (records_from_json lib)) (\<lambda>records.
     bind_result (build_inclusion_proof records (rm_release_id manifest) ty key) (\<lambda>bundle.
       if ip_merkle_root (bundle_proof bundle) \<noteq> rm_merkle_root manifest
       then raise (ValueError ''inclusion proof root does not match release manifest'')
       else return bundle))))"

definition verify_release_inclusion_proof :: "release_library \<Rightarrow> proof_bundle \<Rightarrow> byte list dict option
    \<Rightarrow> string list option \<Rightarrow> bool result" where
  "verify_release_inclusion_proof lib bundle dir trusted =
     bind_result (verify_inclusion_proof bundle) (\<lambda>ok.
       if \<not> ok then return False
       else (case dir of
           None \<Rightarrow> return True
         | Some d \<Rightarrow> bind_result (verify_release_manifest lib d trusted) (\<lambda>mv.
             return (mv_valid mv \<and> mv_release_id mv = Some (ip_release_id (bundle_proof bundle))
               \<and> mv_merkle_root mv = Some (ip_merkle_root (bundle_proof bundle))))))"


section \<open>Publishing\<close>

text \<open>The mirror: a directory per manifest hash under \<open>releases\<close>, and the checkpoint files. Both are
  made with the first file written there.\<close>

record mirror =
  releases :: "byte list dict dict"
  checkpoints :: "byte list dict"

definition immutable_write :: "string \<Rightarrow> byte list \<Rightarrow> byte list dict \<Rightarrow> byte list dict result" where
  "immutable_write name content dir = (case dict_get dir name of
       Some old \<Rightarrow> if old \<noteq> content then raise (FileExistsError ''immutable publication conflict: '') else return dir
     | None \<Rightarrow> return (dict_set name content dir))"

text \<open>Files are written in order; the ones before a conflict stay.\<close>

fun write_files :: "byte list dict \<Rightarrow> string list \<Rightarrow> byte list dict \<Rightarrow> byte list dict \<times> py_error option" where
  "write_files source [] dir = (dir, None)"
| "write_files source (name # names) dir =
     (case bind_result (read_file source name) (\<lambda>content. immutable_write name content dir) of
        Inl e \<Rightarrow> (dir, Some e)
      | Inr dir' \<Rightarrow> write_files source names dir')"

definition published_files :: "string list" where
  "published_files = map fst expected_release_files @ [''manifest.json'', ''manifest.signature.json'']"

definition checkpoint_json :: "release_manifest \<Rightarrow> string \<Rightarrow> string \<Rightarrow> json" where
  "checkpoint_json m manifest_sha256 signer = JObj [(''schema_version'', JStr ''1''),
     (''release_id'', JStr (rm_release_id m)), (''election_id'', JStr (rm_election_id m)),
     (''merkle_root'', JStr (rm_merkle_root m)), (''manifest_sha256'', JStr manifest_sha256),
     (''signer_key_sha256'', JStr signer)]"

record release_publication =
  pub_release_id :: string
  pub_manifest_sha256 :: string
  release_path :: string
  checkpoint_path :: string

definition write_release :: "byte list dict \<Rightarrow> string \<Rightarrow> mirror \<Rightarrow> mirror \<times> py_error option" where
  "write_release dir sha m =
     (let target = (case dict_get (releases m) sha of None \<Rightarrow> [] | Some d \<Rightarrow> d) in
      if \<not> dict_keys target \<subseteq> set published_files
      then (m, Some (FileExistsError ''unexpected files in immutable publication: ''))
      else (case write_files dir published_files target of (target', e) \<Rightarrow>
        (m\<lparr>releases := dict_set sha target' (releases m)\<rparr>, e)))"

definition write_checkpoint :: "release_manifest \<Rightarrow> string \<Rightarrow> string \<Rightarrow> mirror \<Rightarrow> mirror result" where
  "write_checkpoint manifest sha signer m =
     bind_result (immutable_write (sha @ ''.json'')
       (canonical_json_bytes (checkpoint_json manifest sha signer) @ [newline_byte]) (checkpoints m)) (\<lambda>cps.
     return (m\<lparr>checkpoints := cps\<rparr>))"

definition publication_of :: "release_manifest \<Rightarrow> string \<Rightarrow> release_publication" where
  "publication_of manifest sha = \<lparr>pub_release_id = rm_release_id manifest, pub_manifest_sha256 = sha,
     release_path = ''releases/'' @ sha, checkpoint_path = ''checkpoints/'' @ sha @ ''.json''\<rparr>"

text \<open>What \<open>publish_release\<close> reads before it writes: manifest hash, manifest and signature.\<close>

definition publication_inputs :: "release_library \<Rightarrow> byte list dict \<Rightarrow> string list option
    \<Rightarrow> (string \<times> release_manifest \<times> release_signature) result" where
  "publication_inputs lib dir trusted =
     bind_result (require_verified lib dir trusted) (\<lambda>_.
     bind_result (read_file dir ''manifest.json'') (\<lambda>content.
     bind_result (parse_manifest lib (strip_newlines content)) (\<lambda>manifest.
     bind_result (bind_result (read_file dir ''manifest.signature.json'') (parse_signature lib)) (\<lambda>signature.
       return (sha256_bytes (strip_newlines content), manifest, signature)))))"

definition publish_release :: "release_library \<Rightarrow> byte list dict \<Rightarrow> string list option \<Rightarrow> mirror
    \<Rightarrow> mirror \<times> release_publication result" where
  "publish_release lib dir trusted m = (case publication_inputs lib dir trusted of
       Inl e \<Rightarrow> (m, raise e)
     | Inr (sha, manifest, signature) \<Rightarrow> (case write_release dir sha m of
           (m', Some e) \<Rightarrow> (m', raise e)
         | (m', None) \<Rightarrow> (case write_checkpoint manifest sha (signer_key_sha256 signature) m' of
               Inl e \<Rightarrow> (m', raise e)
             | Inr m'' \<Rightarrow> (m'', return (publication_of manifest sha)))))"

end
