(* ===== verification/Release_Publish.thy ===== *)
theory Release_Publish
  imports Release_Files
begin

text \<open>
  Publishing releases (\<open>publish_release\<close>, \<open>_immutable_write\<close>): the mirror only grows, a
  published release is complete, and publishing it again changes nothing.
\<close>

definition published :: "mirror \<Rightarrow> string \<Rightarrow> string \<Rightarrow> byte list option" where
  "published m sha name = (case dict_get (releases m) sha of None \<Rightarrow> None | Some d \<Rightarrow> dict_get d name)"

lemma immutable_write_keeps:
  "immutable_write name content d = Inr d' \<Longrightarrow> dict_get d n = Some b \<Longrightarrow> dict_get d' n = Some b"
  "immutable_write name content d = Inr d' \<Longrightarrow> dict_get d' name = Some content"
  "immutable_write name content d = Inr d' \<Longrightarrow> dict_keys d' = insert name (dict_keys d)"
  by (auto simp: immutable_write_def dict_get_set dict_keys_set dict_get_Some_key split: option.splits if_splits)

lemma write_files_keeps:
  "write_files source names d = (d', e) \<Longrightarrow> dict_get d n = Some b \<Longrightarrow> dict_get d' n = Some b"
  by (induction source names d rule: write_files.induct)
    (auto dest: immutable_write_keeps(1) split: sum.splits)

lemma write_files_keys:
  "write_files source names d = (d', e) \<Longrightarrow> dict_keys d' \<subseteq> dict_keys d \<union> set names"
proof (induction source names d rule: write_files.induct)
  case (2 source name names d)
  show ?case
  proof (cases "bind_result (read_file source name) (\<lambda>content. immutable_write name content d)")
    case (Inr d1)
    then have "dict_keys d1 = insert name (dict_keys d)" by (auto dest: immutable_write_keeps(3))
    then show ?thesis using 2 Inr by auto
  qed (use 2 in auto)
qed simp

lemma write_files_done:
  "write_files source names d = (d', None) \<Longrightarrow> name \<in> set names \<Longrightarrow>
    dict_get d' name = dict_get source name \<and> dict_get source name \<noteq> None"
proof (induction source names d rule: write_files.induct)
  case (2 source n names d)
  obtain content d1 where d1: "dict_get source n = Some content" "immutable_write n content d = Inr d1"
    "write_files source names d1 = (d', None)"
    using "2.prems"(1) by (auto simp: read_file_def split: sum.splits option.splits)
  have "dict_get d' n = Some content"
    using write_files_keeps [OF d1(3)] immutable_write_keeps(2) [OF d1(2)] by blast
  then show ?case using "2.IH" [of d1] d1 "2.prems"(2) by (auto simp: read_file_def)
qed simp

text \<open>Files that are all there are not written again.\<close>

lemma write_files_again:
  "\<forall>name \<in> set names. dict_get d name = dict_get source name \<and> dict_get source name \<noteq> None \<Longrightarrow>
    write_files source names d = (d, None)"
  by (induction names) (auto simp: read_file_def immutable_write_def)

lemma write_release_published:
  assumes "write_release dir sha m = (m', e)"
  shows "published m s name = Some b \<Longrightarrow> published m' s name = Some b"
    "checkpoints m' = checkpoints m"
    "e = None \<Longrightarrow> name \<in> set published_files \<Longrightarrow> published m' sha name = dict_get dir name \<and> dict_get dir name \<noteq> None"
    "e = None \<Longrightarrow> published m' sha name \<noteq> None \<Longrightarrow> name \<in> set published_files"
proof -
  define target where "target = (case dict_get (releases m) sha of None \<Rightarrow> [] | Some d \<Rightarrow> d)"
  obtain target' e' where w: "write_files dir published_files target = (target', e')" by fastforce
  have m': "m' = m \<and> e \<noteq> None \<or>
      m' = m\<lparr>releases := dict_set sha target' (releases m)\<rparr> \<and> e = e' \<and> dict_keys target \<subseteq> set published_files"
    using assms w by (auto simp: write_release_def target_def [symmetric] Let_def split: if_splits)
  have target: "published m sha n = dict_get target n" for n
    by (auto simp: published_def target_def split: option.splits)
  have pub: "published (m\<lparr>releases := dict_set sha target' (releases m)\<rparr>) s n =
      (if s = sha then dict_get target' n else published m s n)" for s n
    by (simp add: published_def dict_get_set)
  show "published m s name = Some b \<Longrightarrow> published m' s name = Some b"
    using m' write_files_keeps [OF w] by (auto simp: pub target)
  show "checkpoints m' = checkpoints m" using m' by auto
  show "e = None \<Longrightarrow> name \<in> set published_files \<Longrightarrow> published m' sha name = dict_get dir name \<and> dict_get dir name \<noteq> None"
    using m' w write_files_done [of dir published_files target target' name] by (auto simp: pub)
  show "e = None \<Longrightarrow> published m' sha name \<noteq> None \<Longrightarrow> name \<in> set published_files"
    using m' write_files_keys [OF w] by (auto simp: pub dest!: dict_get_Some_key)
qed

text \<open>A publication that succeeded, in its steps.\<close>

lemma publish_release_Inr:
  assumes "publish_release lib dir trusted m = (m', Inr p)"
  obtains sha manifest signature m1 where
    "publication_inputs lib dir trusted = Inr (sha, manifest, signature)"
    "write_release dir sha m = (m1, None)"
    "write_checkpoint manifest sha (signer_key_sha256 signature) m1 = Inr m'"
    "p = publication_of manifest sha"
  using assms by (auto simp: publish_release_def split: sum.splits prod.splits option.splits)

lemma dict_set_same: "dict_get d k = Some v \<Longrightarrow> dict_set k v d = d"
  by (induction d) auto

lemma publish_again:
  assumes "publication_inputs lib dir trusted = Inr (sha, manifest, signature)"
    and "write_release dir sha m = (m1, None)"
    and "write_checkpoint manifest sha (signer_key_sha256 signature) m1 = Inr m'"
  shows "publish_release lib dir trusted m' = (m', Inr (publication_of manifest sha))"
proof -
  obtain cps where cps: "m' = m1\<lparr>checkpoints := cps\<rparr>"
    "immutable_write (sha @ ''.json'')
      (canonical_json_bytes (checkpoint_json manifest sha (signer_key_sha256 signature)) @ [newline_byte])
      (checkpoints m1) = Inr cps"
    using assms(3) by (auto simp: write_checkpoint_def)
  have all: "published m' sha name = dict_get dir name \<and> dict_get dir name \<noteq> None"
    if "name \<in> set published_files" for name
    using write_release_published(3) [OF assms(2) refl that] by (simp add: published_def cps(1))
  have only: "name \<in> set published_files" if "published m' sha name \<noteq> None" for name
    using write_release_published(4) [OF assms(2) refl, of name] that by (simp add: published_def cps(1))
  have "''records.json'' \<in> set published_files" by (simp add: published_files_def expected_release_files_def)
  from all [OF this] obtain d where d: "dict_get (releases m') sha = Some d"
    by (auto simp: published_def split: option.splits)
  have pub: "published m' sha name = dict_get d name" for name by (simp add: published_def d)
  have "write_files dir published_files d = (d, None)"
    using all by (intro write_files_again) (simp add: pub)
  moreover have "dict_keys d \<subseteq> set published_files" using only by (auto simp: pub dict_get_None)
  ultimately have "write_release dir sha m' = (m', None)"
    by (simp add: write_release_def d Let_def dict_set_same)
  moreover have "write_checkpoint manifest sha (signer_key_sha256 signature) m' = Inr m'"
    using immutable_write_keeps(2) [OF cps(2)] by (simp add: write_checkpoint_def immutable_write_def cps(1))
  ultimately show ?thesis using assms(1) by (simp add: publish_release_def)
qed

text \<open>C15. Publishing never changes or removes a file or a checkpoint that is already in the mirror, also when it
  fails. When it succeeds, the directory of the manifest hash holds exactly the five files of the release, byte for
  byte, and publishing the same release again succeeds with the same answer and changes nothing.\<close>

theorem publish_release_immutable:
  "case publish_release lib dir trusted m of (m', res) \<Rightarrow>
     (\<forall>sha name b. published m sha name = Some b \<longrightarrow> published m' sha name = Some b)
   \<and> (\<forall>name b. dict_get (checkpoints m) name = Some b \<longrightarrow> dict_get (checkpoints m') name = Some b)
   \<and> (case res of
        Inl e \<Rightarrow> True
      | Inr p \<Rightarrow>
          (\<forall>name. published m' (pub_manifest_sha256 p) name =
             (if name \<in> set published_files then dict_get dir name else None))
        \<and> list_all (\<lambda>name. dict_get dir name \<noteq> None) published_files
        \<and> publish_release lib dir trusted m' = (m', Inr p))"
proof -
  obtain m' res where p: "publish_release lib dir trusted m = (m', res)" by fastforce
  have keep: "(\<forall>sha name b. published m sha name = Some b \<longrightarrow> published m' sha name = Some b)
      \<and> (\<forall>name b. dict_get (checkpoints m) name = Some b \<longrightarrow> dict_get (checkpoints m') name = Some b)"
  proof (cases "publication_inputs lib dir trusted")
    case (Inr inputs)
    obtain sha manifest signature where i: "inputs = (sha, manifest, signature)" by (cases inputs)
    obtain m1 e where w: "write_release dir sha m = (m1, e)" by fastforce
    have "m' = m1 \<or> (\<exists>cps. m' = m1\<lparr>checkpoints := cps\<rparr> \<and> immutable_write (sha @ ''.json'')
        (canonical_json_bytes (checkpoint_json manifest sha (signer_key_sha256 signature)) @ [newline_byte])
        (checkpoints m1) = Inr cps)"
      using p by (auto simp: publish_release_def Inr i w write_checkpoint_def split: option.splits sum.splits)
    then show ?thesis using write_release_published(1,2) [OF w]
      by (auto simp: published_def dest: immutable_write_keeps(1))
  qed (use p in \<open>simp add: publish_release_def\<close>)
  have "(\<forall>name. published m' (pub_manifest_sha256 q) name =
        (if name \<in> set published_files then dict_get dir name else None))
      \<and> list_all (\<lambda>name. dict_get dir name \<noteq> None) published_files
      \<and> publish_release lib dir trusted m' = (m', Inr q)" if q: "res = Inr q" for q
  proof -
    obtain sha manifest signature m1 where h: "publication_inputs lib dir trusted = Inr (sha, manifest, signature)"
      "write_release dir sha m = (m1, None)"
      "write_checkpoint manifest sha (signer_key_sha256 signature) m1 = Inr m'" "q = publication_of manifest sha"
      using p q by (auto elim: publish_release_Inr)
    have m': "published m' sha name = published m1 sha name" for name
      using h(3) by (auto simp: write_checkpoint_def published_def)
    have sha: "pub_manifest_sha256 q = sha" by (simp add: h(4) publication_of_def)
    have there: "published m' sha name = dict_get dir name" "dict_get dir name \<noteq> None"
      if "name \<in> set published_files" for name
      using write_release_published(3) [OF h(2) refl that] by (simp_all add: m')
    have only: "published m' sha name = None" if "name \<notin> set published_files" for name
      using write_release_published(4) [OF h(2) refl, of name] that by (cases "published m1 sha name") (auto simp: m')
    show ?thesis using publish_again [OF h(1,2,3)] there only unfolding sha list_all_iff by (simp add: h(4))
  qed
  then show ?thesis using p keep by (auto split: sum.splits)
qed

end
