(* ===== verification/Governance.thy ===== *)
theory Governance
  imports Auth Release_Publish
begin

text \<open>
  src/ballotproof/release_governance.py: the release signing keys with their transparency log, and the
  chain of signed checkpoints per election. Rows keep the models that the JSON columns print; Ed25519, pydantic's
  JSON reader and Parquet are those of \<open>release_library\<close>, \<open>dt\<close> is what pydantic dumps for a datetime.
\<close>

section \<open>Models\<close>

record release_signing_key =
  rk_key_id :: string
  rk_actor_id :: string
  rk_public_key_b64 :: string
  rk_public_key_sha256 :: string
  rk_label :: "string option"
  rk_enrolled_at :: datetime
  rk_enrolled_by :: string
  rk_revoked_at :: "datetime option"
  rk_revoked_by :: "string option"

datatype key_event_type = Enroll | Revoke

record release_key_event =
  ke_sequence :: int
  ke_event_type :: key_event_type
  ke_key_id :: string
  ke_actor_id :: string
  ke_public_key_b64 :: string
  ke_public_key_sha256 :: string
  ke_label :: "string option"
  ke_performed_by :: string
  ke_previous_hash :: "string option"
  ke_hash :: string
  ke_created_at :: datetime

record checkpoint_payload =
  cp_sequence :: int
  cp_election_id :: string
  cp_release_id :: string
  cp_merkle_root :: string
  cp_manifest_sha256 :: string
  cp_signer_key_id :: string
  cp_signer_actor_id :: string
  cp_signer_key_sha256 :: string
  cp_enrollment_hash :: string
  cp_previous_hash :: "string option"
  cp_issued_at :: datetime

record signed_checkpoint =
  ck_payload :: checkpoint_payload
  ck_public_key_b64 :: string
  ck_signature_b64 :: string
  ck_hash :: string
  ck_stored_at :: datetime

record governance_store =
  signing_key_table :: "release_signing_key list"
  key_event_table :: "release_key_event list"
  checkpoint_table :: "signed_checkpoint list"

definition empty_governance :: governance_store where
  "empty_governance = \<lparr>signing_key_table = [], key_event_table = [], checkpoint_table = []\<rparr>"

definition signing_key_fields_ok :: "release_signing_key \<Rightarrow> bool" where
  "signing_key_fields_ok k = (is_sha256_hex (rk_public_key_sha256 k) \<and> opt_all (\<lambda>s. py_len s \<le> 256) (rk_label k))"

definition make_signing_key :: "release_signing_key \<Rightarrow> release_signing_key result" where
  "make_signing_key k = (if signing_key_fields_ok k then return k else raise field_error)"

definition checkpoint_payload_ok :: "checkpoint_payload \<Rightarrow> bool" where
  "checkpoint_payload_ok p = (1 \<le> cp_sequence p
     \<and> list_all is_sha256_hex [cp_merkle_root p, cp_manifest_sha256 p, cp_signer_key_sha256 p, cp_enrollment_hash p])"

section \<open>Documents\<close>

definition key_event_text :: "key_event_type \<Rightarrow> string" where
  "key_event_text t = (case t of Enroll \<Rightarrow> ''enroll'' | Revoke \<Rightarrow> ''revoke'')"

definition key_event_body :: "release_key_event \<Rightarrow> json" where
  "key_event_body e = JObj
     [(''sequence'', JInt (ke_sequence e)), (''event_type'', JStr (key_event_text (ke_event_type e))),
      (''key_id'', JStr (ke_key_id e)), (''actor_id'', JStr (ke_actor_id e)),
      (''public_key_b64'', JStr (ke_public_key_b64 e)), (''public_key_sha256'', JStr (ke_public_key_sha256 e)),
      (''label'', json_opt JStr (ke_label e)), (''performed_by_actor_id'', JStr (ke_performed_by e)),
      (''previous_event_hash'', json_opt JStr (ke_previous_hash e)),
      (''created_at'', JStr (isoformat (ke_created_at e)))]"

definition checkpoint_payload_json :: "(datetime \<Rightarrow> string) \<Rightarrow> checkpoint_payload \<Rightarrow> json" where
  "checkpoint_payload_json dt p = JObj
     [(''schema_version'', JStr ''1''), (''sequence'', JInt (cp_sequence p)), (''election_id'', JStr (cp_election_id p)),
      (''release_id'', JStr (cp_release_id p)), (''merkle_root'', JStr (cp_merkle_root p)),
      (''manifest_sha256'', JStr (cp_manifest_sha256 p)), (''release_signer_key_id'', JStr (cp_signer_key_id p)),
      (''release_signer_actor_id'', JStr (cp_signer_actor_id p)),
      (''release_signer_key_sha256'', JStr (cp_signer_key_sha256 p)),
      (''release_key_enrollment_event_hash'', JStr (cp_enrollment_hash p)),
      (''previous_checkpoint_hash'', json_opt JStr (cp_previous_hash p)), (''issued_at'', JStr (dt (cp_issued_at p)))]"

definition checkpoint_body :: "(datetime \<Rightarrow> string) \<Rightarrow> checkpoint_payload \<Rightarrow> string \<Rightarrow> string \<Rightarrow> json" where
  "checkpoint_body dt p key signature = JObj
     [(''payload'', checkpoint_payload_json dt p), (''algorithm'', JStr ''Ed25519''), (''public_key_b64'', JStr key),
      (''signature_b64'', JStr signature)]"

definition checkpoint_hash :: "(datetime \<Rightarrow> string) \<Rightarrow> checkpoint_payload \<Rightarrow> string \<Rightarrow> string \<Rightarrow> string" where
  "checkpoint_hash dt p key signature = sha256_bytes (canonical_json_bytes (checkpoint_body dt p key signature))"

section \<open>The key transparency log\<close>

definition key_events :: "governance_store \<Rightarrow> release_key_event list" where
  "key_events st = sort_key ke_sequence (key_event_table st)"

definition next_key_event :: "key_event_type \<Rightarrow> release_signing_key \<Rightarrow> string \<Rightarrow> datetime \<Rightarrow> governance_store
    \<Rightarrow> release_key_event" where
  "next_key_event t k performed_by now st =
     (let rows = key_events st;
          e = \<lparr>ke_sequence = (if rows = [] then 1 else ke_sequence (last rows) + 1), ke_event_type = t,
            ke_key_id = rk_key_id k, ke_actor_id = rk_actor_id k, ke_public_key_b64 = rk_public_key_b64 k,
            ke_public_key_sha256 = rk_public_key_sha256 k, ke_label = rk_label k, ke_performed_by = performed_by,
            ke_previous_hash = (if rows = [] then None else Some (ke_hash (last rows))), ke_hash = [],
            ke_created_at = now\<rparr>
      in e\<lparr>ke_hash := hash_record (key_event_body e)\<rparr>)"

text \<open>A transaction that has changed the keys appends its event and commits, or rolls back.\<close>

definition append_key_event :: "key_event_type \<Rightarrow> release_signing_key \<Rightarrow> string \<Rightarrow> datetime \<Rightarrow> governance_store
    \<Rightarrow> governance_store \<Rightarrow> (governance_store \<Rightarrow> 'a result) \<Rightarrow> governance_store \<times> 'a result" where
  "append_key_event t k performed_by now changed st cont =
     (let e = next_key_event t k performed_by now st in
      if list_ex (\<lambda>q. ke_sequence q = ke_sequence e) (key_event_table st)
      then (st, raise (IntegrityError ''release_key_events.sequence''))
      else if list_ex (\<lambda>q. ke_hash q = ke_hash e) (key_event_table st)
      then (st, raise (IntegrityError ''release_key_events.event_hash''))
      else (let st' = changed\<lparr>key_event_table := key_event_table st @ [e]\<rparr> in (st', cont st')))"

text \<open>The head hash of the events, or the first error.\<close>

fun check_key_events :: "string option \<Rightarrow> release_key_event list \<Rightarrow> string option result" where
  "check_key_events previous_hash [] = return previous_hash"
| "check_key_events previous_hash (e # es) =
     (if ke_previous_hash e \<noteq> previous_hash
         \<or> hash_record (key_event_body (e\<lparr>ke_previous_hash := previous_hash\<rparr>)) \<noteq> ke_hash e
      then raise (ValueError ''release key transparency hash chain is invalid'')
      else bind_result (b64decode (ke_public_key_b64 e)) (\<lambda>raw.
        if length raw \<noteq> 32 \<or> sha256_bytes raw \<noteq> ke_public_key_sha256 e
        then raise (ValueError ''release key transparency fingerprint is invalid'')
        else check_key_events (Some (ke_hash e)) es))"

record key_transparency =
  kt_valid :: bool
  kt_events_checked :: int
  kt_head_event_hash :: "string option"
  kt_error :: "py_error option"

text \<open>The loop raises ValueErrors only.\<close>

definition verify_release_key_transparency :: "governance_store \<Rightarrow> key_transparency" where
  "verify_release_key_transparency st = (case check_key_events None (key_events st) of
       Inl e \<Rightarrow> \<lparr>kt_valid = False, kt_events_checked = 0, kt_head_event_hash = None, kt_error = Some e\<rparr>
     | Inr head \<Rightarrow> \<lparr>kt_valid = True, kt_events_checked = int (length (key_events st)), kt_head_event_hash = head,
         kt_error = None\<rparr>)"

definition release_key_enrollment_event :: "release_key_event list \<Rightarrow> string \<Rightarrow> release_key_event result" where
  "release_key_enrollment_event events key_id =
     (case find (\<lambda>e. ke_key_id e = key_id \<and> ke_event_type e = Enroll) events of
        None \<Rightarrow> raise (KeyError ''Unknown release signing key enrollment event: '')
      | Some e \<Rightarrow> return e)"

section \<open>Signing keys\<close>

definition get_release_signing_key :: "string \<Rightarrow> governance_store \<Rightarrow> release_signing_key result" where
  "get_release_signing_key key_id st = (case find (\<lambda>k. rk_key_id k = key_id) (signing_key_table st) of
       None \<Rightarrow> raise (KeyError ''Unknown release signing key_id: '')
     | Some row \<Rightarrow> make_signing_key row)"

definition release_signing_keys :: "governance_store \<Rightarrow> release_signing_key list result" where
  "release_signing_keys st = map_result make_signing_key
     (sort_key (\<lambda>k. (isoformat (rk_enrolled_at k), rk_key_id k)) (signing_key_table st))"

definition signing_key_id :: "string \<Rightarrow> string \<Rightarrow> string" where
  "signing_key_id actor fingerprint = take 16 (sha256_bytes (canonical_json_bytes
     (JObj [(''actor_id'', JStr actor), (''public_key_sha256'', JStr fingerprint)])))"

definition enroll_release_signing_key :: "auth_store \<Rightarrow> string \<Rightarrow> string \<Rightarrow> string \<Rightarrow> string option \<Rightarrow> datetime
    \<Rightarrow> governance_store \<Rightarrow> governance_store \<times> release_signing_key result" where
  "enroll_release_signing_key auth actor key_text performed_by key_label now st =
     (case get_identity actor auth of
        Inl e \<Rightarrow> (st, raise e)
      | Inr identity \<Rightarrow>
          if id_disabled_at identity \<noteq> None
          then (st, raise (PermissionError ''release signing keys require an active identity''))
          else case b64decode key_text of
            Inl _ \<Rightarrow> (st, raise (ValueError ''public_key_b64 is not valid base64''))
          | Inr raw \<Rightarrow>
              if length raw \<noteq> 32 then (st, raise (ValueError ''Ed25519 public key must be 32 raw bytes''))
              else
                let fingerprint = sha256_bytes raw;
                    row = \<lparr>rk_key_id = signing_key_id actor fingerprint, rk_actor_id = actor,
                      rk_public_key_b64 = key_text, rk_public_key_sha256 = fingerprint, rk_label = key_label,
                      rk_enrolled_at = now, rk_enrolled_by = performed_by, rk_revoked_at = None,
                      rk_revoked_by = None\<rparr> in
                if \<not> signing_key_fields_ok row then (st, raise field_error)
                else if list_ex (\<lambda>k. rk_key_id k = rk_key_id row \<or> rk_public_key_sha256 k = fingerprint)
                  (signing_key_table st)
                then (st, raise (ValueError ''release signing public key is already enrolled''))
                else append_key_event Enroll row performed_by now
                  (st\<lparr>signing_key_table := signing_key_table st @ [row]\<rparr>) st
                  (get_release_signing_key (rk_key_id row)))"

definition revoke_release_signing_key :: "string \<Rightarrow> string \<Rightarrow> datetime \<Rightarrow> governance_store
    \<Rightarrow> governance_store \<times> release_signing_key result" where
  "revoke_release_signing_key key_id performed_by now st =
     (case get_release_signing_key key_id st of
        Inl e \<Rightarrow> (st, raise e)
      | Inr k \<Rightarrow>
          if rk_revoked_at k \<noteq> None then (st, raise (ValueError ''release signing key is already revoked''))
          else append_key_event Revoke k performed_by now
            (st\<lparr>signing_key_table := map (\<lambda>r. if rk_key_id r = key_id
               then r\<lparr>rk_revoked_at := Some now, rk_revoked_by := Some performed_by\<rparr> else r)
               (signing_key_table st)\<rparr>) st (get_release_signing_key key_id))"

definition active_release_signing_key :: "string \<Rightarrow> governance_store \<Rightarrow> release_signing_key option result" where
  "active_release_signing_key fingerprint st =
     (case find (\<lambda>k. rk_public_key_sha256 k = fingerprint \<and> rk_revoked_at k = None) (signing_key_table st) of
        None \<Rightarrow> return None
      | Some row \<Rightarrow> bind_result (make_signing_key row) (\<lambda>k. return (Some k)))"

definition release_signing_key_is_active :: "string \<Rightarrow> governance_store \<Rightarrow> bool result" where
  "release_signing_key_is_active fingerprint st =
     bind_result (active_release_signing_key fingerprint st) (\<lambda>k. return (k \<noteq> None))"

section \<open>Checkpoints\<close>

definition election_checkpoints :: "string \<Rightarrow> governance_store \<Rightarrow> signed_checkpoint list" where
  "election_checkpoints election st = sort_key (\<lambda>c. cp_sequence (ck_payload c))
     (filter (\<lambda>c. cp_election_id (ck_payload c) = election) (checkpoint_table st))"

definition all_checkpoints :: "governance_store \<Rightarrow> signed_checkpoint list" where
  "all_checkpoints st = sort_key (\<lambda>c. (cp_election_id (ck_payload c), cp_sequence (ck_payload c))) (checkpoint_table st)"

definition next_checkpoint :: "release_library \<Rightarrow> (datetime \<Rightarrow> string) \<Rightarrow> byte list \<Rightarrow> release_manifest \<Rightarrow> string
    \<Rightarrow> release_signing_key \<Rightarrow> release_key_event \<Rightarrow> datetime \<Rightarrow> datetime \<Rightarrow> governance_store \<Rightarrow> signed_checkpoint" where
  "next_checkpoint lib dt private manifest sha k enrollment issued stored st =
     (let rows = election_checkpoints (rm_election_id manifest) st;
          p = \<lparr>cp_sequence = (if rows = [] then 1 else cp_sequence (ck_payload (last rows)) + 1),
            cp_election_id = rm_election_id manifest, cp_release_id = rm_release_id manifest,
            cp_merkle_root = rm_merkle_root manifest, cp_manifest_sha256 = sha, cp_signer_key_id = rk_key_id k,
            cp_signer_actor_id = rk_actor_id k, cp_signer_key_sha256 = sha256_bytes (public_bytes lib private),
            cp_enrollment_hash = ke_hash enrollment,
            cp_previous_hash = (if rows = [] then None else Some (ck_hash (last rows))), cp_issued_at = issued\<rparr>;
          key = b64encode (public_bytes lib private);
          signature = b64encode (ed_sign lib private (canonical_json_bytes (checkpoint_payload_json dt p)))
      in \<lparr>ck_payload = p, ck_public_key_b64 = key, ck_signature_b64 = signature,
           ck_hash = checkpoint_hash dt p key signature, ck_stored_at = stored\<rparr>)"

definition insert_checkpoint :: "signed_checkpoint \<Rightarrow> governance_store \<Rightarrow> governance_store result" where
  "insert_checkpoint c st = guarded
     [(list_ex (\<lambda>q. cp_election_id (ck_payload q) = cp_election_id (ck_payload c)
         \<and> cp_sequence (ck_payload q) = cp_sequence (ck_payload c)) (checkpoint_table st),
       IntegrityError ''release_checkpoints.election_id, release_checkpoints.sequence''),
      (list_ex (\<lambda>q. cp_manifest_sha256 (ck_payload q) = cp_manifest_sha256 (ck_payload c)) (checkpoint_table st),
       IntegrityError ''release_checkpoints.manifest_sha256''),
      (list_ex (\<lambda>q. ck_hash q = ck_hash c) (checkpoint_table st),
       IntegrityError ''release_checkpoints.checkpoint_hash'')]
     (st\<lparr>checkpoint_table := checkpoint_table st @ [c]\<rparr>)"

text \<open>The signer that may issue a checkpoint for a release: its active key and enrollment event.\<close>

definition authorized_signer :: "release_library \<Rightarrow> byte list \<Rightarrow> release_signature \<Rightarrow> governance_store
    \<Rightarrow> (release_signing_key \<times> release_key_event) result" where
  "authorized_signer lib private signature st =
     (if sha256_bytes (public_bytes lib private) \<noteq> signer_key_sha256 signature
      then raise (PermissionError ''checkpoint signing key must match the release manifest signer'')
      else bind_result (active_release_signing_key (sha256_bytes (public_bytes lib private)) st) (\<lambda>active.
        case active of
          None \<Rightarrow> raise (PermissionError ''release signer is not a currently authorized release signing key'')
        | Some k \<Rightarrow> bind_result (release_key_enrollment_event (key_events st) (rk_key_id k)) (\<lambda>e. return (k, e))))"

definition append_checkpoint :: "release_library \<Rightarrow> (datetime \<Rightarrow> string) \<Rightarrow> byte list dict \<Rightarrow> byte list \<Rightarrow> datetime
    \<Rightarrow> datetime \<Rightarrow> governance_store \<Rightarrow> (governance_store \<times> signed_checkpoint) result" where
  "append_checkpoint lib dt dir private issued stored st =
     bind_result (publication_inputs lib dir None) (\<lambda>(sha, manifest, signature).
     bind_result (authorized_signer lib private signature st) (\<lambda>(k, enrollment).
       case find (\<lambda>c. cp_manifest_sha256 (ck_payload c) = sha) (checkpoint_table st) of
         Some c \<Rightarrow> return (st, c)
       | None \<Rightarrow>
           let c = next_checkpoint lib dt private manifest sha k enrollment issued stored st in
           if \<not> checkpoint_payload_ok (ck_payload c) then raise field_error
           else bind_result (insert_checkpoint c st) (\<lambda>st'. return (st', c))))"

section \<open>Verifying the chain\<close>

text \<open>\<open>a <= b\<close>, a TypeError when only one of them has an offset.\<close>

definition datetime_le :: "datetime \<Rightarrow> datetime \<Rightarrow> bool result" where
  "datetime_le a b = (if (utcoffset a = None) \<noteq> (utcoffset b = None)
     then raise (TypeError ''can't compare offset-naive and offset-aware datetimes'')
     else return (instant a \<le> instant b))"

text \<open>Has the key been revoked by the time? The events are scanned in order.\<close>

fun revoked_by_time :: "release_key_event list \<Rightarrow> string \<Rightarrow> datetime \<Rightarrow> bool result" where
  "revoked_by_time [] key_id issued = return False"
| "revoked_by_time (e # es) key_id issued =
     (if ke_key_id e = key_id \<and> ke_event_type e = Revoke
      then bind_result (datetime_le (ke_created_at e) issued) (\<lambda>le.
        if le then return True else revoked_by_time es key_id issued)
      else revoked_by_time es key_id issued)"

definition enrollment_matches :: "release_key_event \<Rightarrow> checkpoint_payload \<Rightarrow> bool" where
  "enrollment_matches e p = (ke_hash e = cp_enrollment_hash p \<and> ke_actor_id e = cp_signer_actor_id p
     \<and> ke_public_key_sha256 e = cp_signer_key_sha256 p)"

definition check_checkpoint_signature :: "release_library \<Rightarrow> (datetime \<Rightarrow> string) \<Rightarrow> signed_checkpoint \<Rightarrow> unit result" where
  "check_checkpoint_signature lib dt c =
     bind_result (b64decode (ck_public_key_b64 c)) (\<lambda>raw.
       if length raw \<noteq> 32 \<or> sha256_bytes raw \<noteq> cp_signer_key_sha256 (ck_payload c)
       then raise (ValueError ''checkpoint signer fingerprint is invalid'')
       else bind_result (load_public_key raw) (\<lambda>key.
         bind_result (b64decode (ck_signature_b64 c)) (\<lambda>signed.
           check_signature lib key signed (canonical_json_bytes (checkpoint_payload_json dt (ck_payload c))))))"

definition check_checkpoint :: "release_library \<Rightarrow> (datetime \<Rightarrow> string) \<Rightarrow> release_key_event list \<Rightarrow> string \<Rightarrow> int
    \<Rightarrow> string option \<Rightarrow> signed_checkpoint \<Rightarrow> unit result" where
  "check_checkpoint lib dt events election expd previous_hash c =
     (let p = ck_payload c in
      if cp_election_id p \<noteq> election \<or> cp_sequence p \<noteq> expd
      then raise (ValueError ''checkpoint sequence/election binding is invalid'')
      else if cp_previous_hash p \<noteq> previous_hash then raise (ValueError ''checkpoint hash chain is invalid'')
      else bind_result (release_key_enrollment_event events (cp_signer_key_id p)) (\<lambda>enrollment.
        if \<not> enrollment_matches enrollment p
        then raise (ValueError ''checkpoint release-key enrollment anchor is invalid'')
        else bind_result (revoked_by_time events (cp_signer_key_id p) (cp_issued_at p)) (\<lambda>revoked.
          if revoked then raise (ValueError ''checkpoint was issued after release-key revocation'')
          else bind_result (check_checkpoint_signature lib dt c) (\<lambda>_.
            if checkpoint_hash dt p (ck_public_key_b64 c) (ck_signature_b64 c) \<noteq> ck_hash c
            then raise (ValueError ''checkpoint event hash is invalid'') else return ()))))"

text \<open>The number of checkpoints passed, the head hash, and the error that stopped the loop.\<close>

fun check_checkpoints :: "release_library \<Rightarrow> (datetime \<Rightarrow> string) \<Rightarrow> release_key_event list \<Rightarrow> string \<Rightarrow> int
    \<Rightarrow> string option \<Rightarrow> signed_checkpoint list \<Rightarrow> int \<times> string option \<times> py_error option" where
  "check_checkpoints lib dt events election checked previous_hash [] = (checked, previous_hash, None)"
| "check_checkpoints lib dt events election checked previous_hash (c # cs) =
     (case check_checkpoint lib dt events election (checked + 1) previous_hash c of
        Inl e \<Rightarrow> (checked, previous_hash, Some e)
      | Inr _ \<Rightarrow> check_checkpoints lib dt events election (checked + 1) (Some (ck_hash c)) cs)"

record chain_report =
  cr_valid :: bool
  cr_checkpoints_checked :: int
  cr_head_checkpoint_hash :: "string option"
  cr_error :: "py_error option"

fun caught_chain_error :: "py_error \<Rightarrow> bool" where
  "caught_chain_error InvalidSignature = True"
| "caught_chain_error (TypeError _) = True"
| "caught_chain_error (ValueError _) = True"
| "caught_chain_error _ = False"

definition verify_checkpoint_chain :: "release_library \<Rightarrow> (datetime \<Rightarrow> string) \<Rightarrow> string \<Rightarrow> governance_store
    \<Rightarrow> chain_report result" where
  "verify_checkpoint_chain lib dt election st =
     (if \<not> kt_valid (verify_release_key_transparency st)
      then return \<lparr>cr_valid = False, cr_checkpoints_checked = 0, cr_head_checkpoint_hash = None,
        cr_error = Some (ValueError ''release key transparency ledger is invalid'')\<rparr>
      else case check_checkpoints lib dt (key_events st) election 0 None (election_checkpoints election st) of
        (checked, head, None) \<Rightarrow> return \<lparr>cr_valid = True, cr_checkpoints_checked = checked,
          cr_head_checkpoint_hash = head, cr_error = None\<rparr>
      | (checked, head, Some e) \<Rightarrow>
          if caught_chain_error e then return \<lparr>cr_valid = False, cr_checkpoints_checked = checked,
            cr_head_checkpoint_hash = head, cr_error = Some e\<rparr>
          else raise e)"

end
