(* ===== verification/Auth_Audit.thy ===== *)
theory Auth_Audit
  imports Auth Json_Roundtrip
begin

text \<open>
  The audit log of the auth store is a chained store, every operation changes the tables by at most one audited
  transaction (\<open>committed\<close>), and the access state is what replaying the log gives.
\<close>

section \<open>The audit log is a chained store\<close>

definition audit_record_ok :: "audit_event \<Rightarrow> bool" where
  "audit_record_ok e \<longleftrightarrow> datetime_ok (ae_created_at e) \<and> offset_ok (ae_created_at e)
     \<and> json_ok (ae_payload e) \<and> sort_json (ae_payload e) = ae_payload e"

lemma audit_body_inj:
  assumes "audit_record_ok a" "audit_record_ok b" "json_eq (audit_body a) (audit_body b)" "ae_hash a = ae_hash b"
  shows "a = b"
proof -
  have f: "ae_sequence a = ae_sequence b \<and> ae_event_type a = ae_event_type b \<and> ae_actor_id a = ae_actor_id b
    \<and> ae_target_id a = ae_target_id b \<and> json_eq (ae_payload a) (ae_payload b)
    \<and> ae_previous_hash a = ae_previous_hash b \<and> isoformat (ae_created_at a) = isoformat (ae_created_at b)"
    using assms(3) unfolding audit_body_def by (subst (asm) json_eq_fields) simp_all
  then have "ae_created_at a = ae_created_at b" "ae_payload a = ae_payload b"
    using assms(1,2) isoformat_inj sort_json_eq [of "ae_payload a" "ae_payload b"] by (auto simp: audit_record_ok_def)
  with f assms(4) show ?thesis by simp
qed

interpretation audit_chain: hash_chain audit_record_ok audit_body ae_previous_hash ae_hash audit_failure
  by unfold_locales (simp, force, simp add: audit_body_def audit_record_ok_def, rule audit_body_inj)

text \<open>The log has a single stream, with the empty key.\<close>

definition audit_stream :: "audit_event list \<Rightarrow> string \<Rightarrow> audit_event list" where
  "audit_stream log k = (if k = [] then audit_rows log else [])"

definition audit_appends :: "audit_event list \<Rightarrow> audit_event \<Rightarrow> audit_event list \<Rightarrow> bool" where
  "audit_appends log e log' \<longleftrightarrow> (\<exists>etype actor target payload now.
     append_audit etype actor target payload now log = Inr log' \<and> e = next_audit_event etype actor target payload now log
     \<and> json_ok payload \<and> datetime_ok now \<and> is_utc now)"

lemma hash_sorted_payload:
  assumes "json_ok payload"
  shows "hash_record (audit_body (e\<lparr>ae_payload := sort_json payload\<rparr>)) = hash_record (audit_body (e\<lparr>ae_payload := payload\<rparr>))"
  by (simp add: hash_record_def canonical_json_bytes_def canonical_json_text_def audit_body_def
      sort_json_idem [OF assms])

lemma next_audit_event_simps [simp]:
  "ae_event_type (next_audit_event etype actor target payload now log) = etype"
  "ae_actor_id (next_audit_event etype actor target payload now log) = actor"
  "ae_target_id (next_audit_event etype actor target payload now log) = target"
  "ae_payload (next_audit_event etype actor target payload now log) = sort_json payload"
  "ae_created_at (next_audit_event etype actor target payload now log) = now"
  "ae_sequence (next_audit_event etype actor target payload now log) =
    (if audit_rows log = [] then 1 else ae_sequence (last (audit_rows log)) + 1)"
  "ae_previous_hash (next_audit_event etype actor target payload now log) =
    (if audit_rows log = [] then None else Some (ae_hash (last (audit_rows log))))"
  by (simp_all add: next_audit_event_def Let_def)

lemma next_audit_event_hash:
  assumes "json_ok payload"
  shows "ae_hash (next_audit_event etype actor target payload now log)
    = hash_record (audit_body (next_audit_event etype actor target payload now log))"
  using sort_json_idem [OF assms]
  by (simp add: next_audit_event_def Let_def audit_body_def hash_record_def canonical_json_bytes_def
      canonical_json_text_def)

lemma append_audit_Inr:
  "append_audit etype actor target payload now log = Inr log' \<Longrightarrow>
    log' = log @ [next_audit_event etype actor target payload now log]"
  by (auto simp: append_audit_def Let_def split: if_splits)

lemma audit_rows_append:
  assumes "audit_appends log e log'"
  shows "audit_rows log' = audit_rows log @ [e]" "log' = log @ [e]"
proof -
  obtain etype actor target payload now where app: "append_audit etype actor target payload now log = Inr log'"
    and e: "e = next_audit_event etype actor target payload now log"
    using assms by (auto simp: audit_appends_def)
  show l: "log' = log @ [e]" using append_audit_Inr [OF app] e by simp
  have "ae_sequence q \<le> ae_sequence e" if "q \<in> set log" for q
  proof -
    have q: "q \<in> set (audit_rows log)" using that by (simp add: audit_rows_def)
    then have ne: "audit_rows log \<noteq> []" by auto
    from q have "ae_sequence q \<le> ae_sequence (last (audit_rows log))"
      by (intro sorted_le_last) (simp_all add: audit_rows_def)
    then show ?thesis using ne by (simp add: e)
  qed
  then show "audit_rows log' = audit_rows log @ [e]" unfolding audit_rows_def l by (rule sort_key_snoc_max)
qed

interpretation audit_log: chained_store audit_record_ok audit_body ae_previous_hash ae_hash audit_failure
    audit_stream "\<lambda>_. []" ae_sequence audit_appends
proof unfold_locales
  fix log e log' k
  assume app: "audit_appends log e log'"
  then obtain etype actor target payload now where e: "e = next_audit_event etype actor target payload now log"
    and ok: "json_ok payload" "datetime_ok now" "is_utc now"
    by (auto simp: audit_appends_def)
  show "audit_stream log' k = (if k = [] then audit_stream log k @ [e] else audit_stream log k)"
    by (simp add: audit_stream_def audit_rows_append(1) [OF app])
  show "ae_previous_hash e = (if audit_stream log [] = [] then None else Some (ae_hash (last (audit_stream log []))))"
    "ae_sequence e = (if audit_stream log [] = [] then 1 else ae_sequence (last (audit_stream log [])) + 1)"
    by (simp_all add: e audit_stream_def)
  show "ae_hash e = hash_record (audit_body e)" by (simp add: e next_audit_event_hash ok)
  show "audit_record_ok e" using ok by (simp add: e audit_record_ok_def offset_ok_def is_utc_def json_ok_sort sort_json_idem)
qed

section \<open>Committed transactions\<close>

definition clock_ok :: "datetime \<Rightarrow> bool" where
  "clock_ok now \<longleftrightarrow> datetime_ok now \<and> is_utc now"

text \<open>The six kinds of transactions: how each changes the tables, with the event it appends.\<close>

inductive committed :: "(string \<Rightarrow> byte list \<Rightarrow> byte list) \<Rightarrow> auth_store \<Rightarrow> auth_store \<Rightarrow> bool" for derive where
  created: "append_audit ''identity.created'' by actor (roles_payload (normalized_roles roles)) now (audit_table st) = Inr log \<Longrightarrow>
    clock_ok now \<Longrightarrow> actor \<notin> id_actor_id ` set (identity_table st) \<Longrightarrow>
    committed derive st (st\<lparr>identity_table := identity_table st @ [\<lparr>id_actor_id = actor, id_display_name = display,
      id_roles = normalized_roles roles, id_created_at = now, id_disabled_at = None\<rparr>], audit_table := log\<rparr>)"
| roles_updated: "append_audit ''identity.roles_updated'' by actor (roles_payload (normalized_roles roles)) now (audit_table st) = Inr log \<Longrightarrow>
    clock_ok now \<Longrightarrow> actor \<in> id_actor_id ` set (identity_table st) \<Longrightarrow>
    committed derive st (st\<lparr>identity_table := map (\<lambda>i. if id_actor_id i = actor
      then i\<lparr>id_roles := normalized_roles roles\<rparr> else i) (identity_table st), audit_table := log\<rparr>)"
| issued: "append_audit ''api_key.issued'' by key_id (issue_payload actor expires) now (audit_table st) = Inr log \<Longrightarrow>
    clock_ok now \<Longrightarrow> actor \<in> id_actor_id ` set (identity_table st) \<Longrightarrow>
    key_id \<notin> km_key_id ` set (api_key_table st) \<Longrightarrow> opt_all (\<lambda>t. utcoffset t \<noteq> None) expires \<Longrightarrow>
    committed derive st (st\<lparr>api_key_table := api_key_table st @ [\<lparr>km_key_id = key_id, km_actor_id = actor,
      km_token_prefix = take 24 (token_text key_id secret), km_created_at = now, km_expires_at = expires,
      km_revoked_at = None, salt_b64 = b64encode salt, verifier_b64 = b64encode (derive secret salt)\<rparr>],
      audit_table := log\<rparr>)"
| revoked: "append_audit ''api_key.revoked'' by key_id (JObj []) now (audit_table st) = Inr log \<Longrightarrow>
    clock_ok now \<Longrightarrow> key_id \<in> km_key_id ` set (api_key_table st) \<Longrightarrow>
    committed derive st (st\<lparr>api_key_table := map (\<lambda>k. if km_key_id k = key_id
      then k\<lparr>km_revoked_at := Some now\<rparr> else k) (api_key_table st), audit_table := log\<rparr>)"
| enrolled: "append_audit ''approver_key.enrolled'' by key_id (enroll_payload actor (sha256_bytes raw)) now (audit_table st) = Inr log \<Longrightarrow>
    clock_ok now \<Longrightarrow> actor \<in> id_actor_id ` set (identity_table st) \<Longrightarrow>
    key_id \<notin> apk_key_id ` set (approver_table st) \<Longrightarrow>
    sha256_bytes raw \<notin> apk_public_key_sha256 ` set (approver_table st) \<Longrightarrow>
    committed derive st (st\<lparr>approver_table := approver_table st @ [\<lparr>apk_key_id = key_id, apk_actor_id = actor,
      apk_public_key_b64 = key_text, apk_public_key_sha256 = sha256_bytes raw, apk_enrolled_at = now,
      apk_enrolled_by = by, apk_revoked_at = None, apk_revoked_by = None\<rparr>], audit_table := log\<rparr>)"
| approver_revoked: "append_audit ''approver_key.revoked'' by key_id (JObj []) now (audit_table st) = Inr log \<Longrightarrow>
    clock_ok now \<Longrightarrow> key_id \<in> apk_key_id ` set (approver_table st) \<Longrightarrow>
    committed derive st (st\<lparr>approver_table := map (\<lambda>k. if apk_key_id k = key_id
      then k\<lparr>apk_revoked_at := Some now, apk_revoked_by := Some by\<rparr> else k) (approver_table st),
      audit_table := log\<rparr>)"

lemma with_audit_cases:
  assumes "with_audit etype actor target payload now changed st k = (st', r)"
  obtains "st' = st" "\<exists>e. r = Inl e"
  | log where "append_audit etype actor target payload now (audit_table st) = Inr log"
      "st' = changed\<lparr>audit_table := log\<rparr>" "r = k st'"
  using assms by (auto simp: with_audit_def Let_def split: sum.splits)

lemma find_identity_in: "get_identity actor st = Inr i \<Longrightarrow> actor \<in> id_actor_id ` set (identity_table st)"
  by (auto simp: get_identity_def find_identity_def find_Some_iff split: option.splits)

lemma create_identity_commits:
  assumes "create_identity actor roles display performer now st = (st', r)" "clock_ok now"
  shows "st' = st \<and> (\<exists>e. r = Inl e) \<or> committed derive st st'"
proof (cases "is_blank actor \<or> roles = [] \<or> list_ex (\<lambda>i. id_actor_id i = actor) (identity_table st)")
  case True
  then show ?thesis using assms(1) by (auto simp: create_identity_def Let_def split: if_splits)
next
  case False
  then have new: "actor \<notin> id_actor_id ` set (identity_table st)" by (auto simp: list_ex_iff)
  have "with_audit ''identity.created'' performer actor (roles_payload (normalized_roles roles)) now
      (st\<lparr>identity_table := identity_table st @ [\<lparr>id_actor_id = actor, id_display_name = display,
      id_roles = normalized_roles roles, id_created_at = now, id_disabled_at = None\<rparr>]\<rparr>) st
      (\<lambda>_. identity_from_row \<lparr>id_actor_id = actor, id_display_name = display,
      id_roles = normalized_roles roles, id_created_at = now, id_disabled_at = None\<rparr>) = (st', r)"
    using assms(1) False by (simp add: create_identity_def Let_def)
  then show ?thesis
    by (cases rule: with_audit_cases) (auto intro: committed.created [OF _ assms(2) new])
qed

lemma update_roles_commits:
  assumes "update_roles actor roles performer now st = (st', r)" "clock_ok now"
  shows "st' = st \<or> committed derive st st'"
proof (cases "get_identity actor st")
  case (Inr current)
  note member = find_identity_in [OF Inr]
  show ?thesis
  proof (cases "roles = [] \<or> id_disabled_at current \<noteq> None")
    case False
    then have "with_audit ''identity.roles_updated'' performer actor (roles_payload (normalized_roles roles)) now
        (st\<lparr>identity_table := map (\<lambda>i. if id_actor_id i = actor
           then i\<lparr>id_roles := normalized_roles roles\<rparr> else i) (identity_table st)\<rparr>)
        st (get_identity actor) = (st', r)"
      using assms(1) Inr by (simp add: update_roles_def)
    then show ?thesis
      by (cases rule: with_audit_cases) (auto intro: committed.roles_updated [OF _ assms(2) member])
  qed (use assms(1) Inr in \<open>auto simp: update_roles_def split: if_splits\<close>)
qed (use assms(1) in \<open>auto simp: update_roles_def split: if_splits\<close>)

lemma issue_api_key_cases:
  assumes "issue_api_key derive actor performer expires key_id secret salt now st = (st', r)"
  obtains "st' = st" "\<exists>e. r = Inl e"
  | log where "append_audit ''api_key.issued'' performer key_id (issue_payload actor expires) now (audit_table st) = Inr log"
      "actor \<in> id_actor_id ` set (identity_table st)" "key_id \<notin> km_key_id ` set (api_key_table st)"
      "st' = st\<lparr>api_key_table := api_key_table st @ [\<lparr>km_key_id = key_id, km_actor_id = actor,
      km_token_prefix = take 24 (token_text key_id secret), km_created_at = now, km_expires_at = expires,
      km_revoked_at = None, salt_b64 = b64encode salt, verifier_b64 = b64encode (derive secret salt)\<rparr>],
      audit_table := log\<rparr>"
      "r = Inr \<lparr>ki_key_id = key_id, ki_actor_id = actor, ki_token = token_text key_id secret,
        ki_created_at = now, ki_expires_at = expires\<rparr>"
      "opt_all (\<lambda>t. utcoffset t \<noteq> None) expires"
proof (cases "get_identity actor st")
  case (Inl e)
  then show thesis using assms that(1) by (auto simp: issue_api_key_def)
next
  case (Inr i)
  note member = find_identity_in [OF Inr]
  show thesis
  proof (cases "id_disabled_at i \<noteq> None \<or> (case expires of None \<Rightarrow> False | Some t \<Rightarrow> utcoffset t = None)
      \<or> list_ex (\<lambda>k. km_key_id k = key_id) (api_key_table st)")
    case True
    then show thesis using assms Inr that(1) by (auto simp: issue_api_key_def Let_def split: if_splits)
  next
    case False
    then have fresh: "key_id \<notin> km_key_id ` set (api_key_table st)" by (auto simp: list_ex_iff)
    have aware: "opt_all (\<lambda>t. utcoffset t \<noteq> None) expires" using False by (auto split: option.splits)
    have "with_audit ''api_key.issued'' performer key_id (issue_payload actor expires) now
        (st\<lparr>api_key_table := api_key_table st @ [\<lparr>km_key_id = key_id, km_actor_id = actor,
        km_token_prefix = take 24 (token_text key_id secret), km_created_at = now, km_expires_at = expires,
        km_revoked_at = None, salt_b64 = b64encode salt, verifier_b64 = b64encode (derive secret salt)\<rparr>]\<rparr>) st
        (\<lambda>_. return \<lparr>ki_key_id = key_id, ki_actor_id = actor, ki_token = token_text key_id secret,
          ki_created_at = now, ki_expires_at = expires\<rparr>) = (st', r)"
      using assms False Inr by (simp add: issue_api_key_def Let_def)
    then show thesis by (cases rule: with_audit_cases) (use that(1) that(2) [OF _ member fresh _ _ aware] in auto)
  qed
qed

lemma issue_api_key_commits:
  assumes "issue_api_key derive actor performer expires key_id secret salt now st = (st', r)" "clock_ok now"
  shows "st' = st \<and> (\<exists>e. r = Inl e) \<or> committed derive st st'"
  using assms(1) by (cases rule: issue_api_key_cases) (auto intro: committed.issued [OF _ assms(2)])

lemma revoke_api_key_commits:
  assumes "revoke_api_key key_id performer now st = (st', r)" "clock_ok now"
  shows "st' = st \<or> committed derive st st'"
proof (cases "find (\<lambda>k. km_key_id k = key_id) (api_key_table st)")
  case (Some row)
  then have member: "key_id \<in> km_key_id ` set (api_key_table st)" by (auto simp: find_Some_iff)
  show ?thesis
  proof (cases "km_revoked_at row = None")
    case True
    then have "with_audit ''api_key.revoked'' performer key_id (JObj []) now
        (st\<lparr>api_key_table := map (\<lambda>k. if km_key_id k = key_id then k\<lparr>km_revoked_at := Some now\<rparr> else k)
           (api_key_table st)\<rparr>) st
        (\<lambda>st'. case find (\<lambda>k. km_key_id k = key_id) (api_keys st') of
            None \<Rightarrow> raise (RuntimeError ''StopIteration'') | Some k \<Rightarrow> return k) = (st', r)"
      using assms(1) Some by (simp add: revoke_api_key_def)
    then show ?thesis
      by (cases rule: with_audit_cases) (auto intro: committed.revoked [OF _ assms(2) member])
  qed (use assms(1) Some in \<open>auto simp: revoke_api_key_def\<close>)
qed (use assms(1) in \<open>auto simp: revoke_api_key_def\<close>)

lemma revoke_approver_key_commits:
  assumes "revoke_approver_key key_id performer now st = (st', r)" "clock_ok now"
  shows "st' = st \<or> committed derive st st'"
proof (cases "find (\<lambda>k. apk_key_id k = key_id) (approver_table st)")
  case (Some row)
  then have member: "key_id \<in> apk_key_id ` set (approver_table st)" by (auto simp: find_Some_iff)
  show ?thesis
  proof (cases "apk_revoked_at row = None")
    case True
    then have "with_audit ''approver_key.revoked'' performer key_id (JObj []) now
        (st\<lparr>approver_table := map (\<lambda>k. if apk_key_id k = key_id
           then k\<lparr>apk_revoked_at := Some now, apk_revoked_by := Some performer\<rparr> else k)
           (approver_table st)\<rparr>) st (get_approver_key key_id) = (st', r)"
      using assms(1) Some by (simp add: revoke_approver_key_def)
    then show ?thesis
      by (cases rule: with_audit_cases) (auto intro: committed.approver_revoked [OF _ assms(2) member])
  qed (use assms(1) Some in \<open>auto simp: revoke_approver_key_def\<close>)
qed (use assms(1) in \<open>auto simp: revoke_approver_key_def\<close>)

lemma enroll_approver_key_commits:
  assumes "enroll_approver_key actor key_text performer key_id now st = (st', r)" "clock_ok now"
  shows "st' = st \<or> committed derive st st'"
proof (cases "get_identity actor st")
  case (Inr i)
  note member = find_identity_in [OF Inr]
  show ?thesis
  proof (cases "b64decode key_text")
    case raw: (Inr raw)
    show ?thesis
    proof (cases "id_disabled_at i \<noteq> None \<or> GOVERNANCE_REVIEWER \<notin> set (id_roles i) \<or> length raw \<noteq> 32
        \<or> list_ex (\<lambda>k. apk_key_id k = key_id \<or> apk_public_key_sha256 k = sha256_bytes raw) (approver_table st)")
      case True
      then show ?thesis using assms(1) Inr raw by (auto simp: enroll_approver_key_def Let_def split: if_splits)
    next
      case False
      then have fresh: "key_id \<notin> apk_key_id ` set (approver_table st)"
        "sha256_bytes raw \<notin> apk_public_key_sha256 ` set (approver_table st)" by (auto simp: list_ex_iff)
      have "with_audit ''approver_key.enrolled'' performer key_id (enroll_payload actor (sha256_bytes raw)) now
          (st\<lparr>approver_table := approver_table st @ [\<lparr>apk_key_id = key_id, apk_actor_id = actor,
          apk_public_key_b64 = key_text, apk_public_key_sha256 = sha256_bytes raw, apk_enrolled_at = now,
          apk_enrolled_by = performer, apk_revoked_at = None, apk_revoked_by = None\<rparr>]\<rparr>) st
          (get_approver_key key_id) = (st', r)"
        using assms(1) False Inr raw by (simp add: enroll_approver_key_def Let_def)
      then show ?thesis
        by (cases rule: with_audit_cases) (auto intro: committed.enrolled [OF _ assms(2) member fresh])
    qed
  qed (use assms(1) Inr in \<open>auto simp: enroll_approver_key_def split: if_splits\<close>)
qed (use assms(1) in \<open>auto simp: enroll_approver_key_def\<close>)

section \<open>Steps of the store\<close>

text \<open>One call of an operation that writes, at a UTC clock.\<close>

inductive auth_step :: "(string \<Rightarrow> byte list \<Rightarrow> byte list) \<Rightarrow> auth_store \<Rightarrow> auth_store \<Rightarrow> bool" for derive where
  create: "create_identity actor roles display performer now st = (st', r1) \<Longrightarrow> clock_ok now \<Longrightarrow> auth_step derive st st'"
| bootstrap: "bootstrap_admin derive actor display created key_id secret salt now st = (st', r2) \<Longrightarrow>
    clock_ok created \<Longrightarrow> clock_ok now \<Longrightarrow> auth_step derive st st'"
| roles: "update_roles actor roles performer now st = (st', r1) \<Longrightarrow> clock_ok now \<Longrightarrow> auth_step derive st st'"
| issue: "issue_api_key derive actor performer expires key_id secret salt now st = (st', r2) \<Longrightarrow> clock_ok now \<Longrightarrow>
    auth_step derive st st'"
| revoke: "revoke_api_key key_id performer now st = (st', r3) \<Longrightarrow> clock_ok now \<Longrightarrow> auth_step derive st st'"
| enroll: "enroll_approver_key actor key_text performer key_id now st = (st', r4) \<Longrightarrow> clock_ok now \<Longrightarrow> auth_step derive st st'"
| revoke_approver: "revoke_approver_key key_id performer now st = (st', r4) \<Longrightarrow> clock_ok now \<Longrightarrow> auth_step derive st st'"

abbreviation auth_steps :: "(string \<Rightarrow> byte list \<Rightarrow> byte list) \<Rightarrow> auth_store \<Rightarrow> auth_store \<Rightarrow> bool" where
  "auth_steps derive \<equiv> (auth_step derive)\<^sup>*\<^sup>*"

lemma commit_step: "st' = st \<or> committed derive st st' \<Longrightarrow> (committed derive)\<^sup>*\<^sup>* st st'"
  by auto

lemma bootstrap_commits:
  assumes "bootstrap_admin derive actor display created key_id secret salt now st = (st', r)" "clock_ok created" "clock_ok now"
  shows "(committed derive)\<^sup>*\<^sup>* st st'"
proof (cases "identity_table st = []")
  case True
  obtain st1 r1 where c: "create_identity actor [ADMIN] display ''bootstrap'' created st = (st1, r1)"
    by (cases "create_identity actor [ADMIN] display ''bootstrap'' created st")
  have one: "(committed derive)\<^sup>*\<^sup>* st st1" using create_identity_commits [OF c assms(2)] by (intro commit_step) blast
  show ?thesis
  proof (cases r1)
    case (Inl e)
    then show ?thesis using assms(1) True c one by (simp add: bootstrap_admin_def)
  next
    case (Inr i)
    then have "issue_api_key derive actor ''bootstrap'' None key_id secret salt now st1 = (st', r)"
      using assms(1) True c by (simp add: bootstrap_admin_def)
    from issue_api_key_commits [OF this assms(3)] have "(committed derive)\<^sup>*\<^sup>* st1 st'" by (intro commit_step) blast
    with one show ?thesis by simp
  qed
qed (use assms(1) in \<open>simp add: bootstrap_admin_def\<close>)

text \<open>A state invariant of the committed transactions is one of the operations.\<close>

lemma auth_step_commits: "auth_step derive st st' \<Longrightarrow> (committed derive)\<^sup>*\<^sup>* st st'"
proof (induction rule: auth_step.induct)
  case (bootstrap actor display created key_id secret salt now st st' r2)
  then show ?case by (rule bootstrap_commits)
next
  case (create actor roles display performer now st st' r1)
  then show ?case using create_identity_commits by (intro commit_step) blast
next
  case (roles actor roles performer now st st' r1)
  then show ?case using update_roles_commits by (intro commit_step) blast
next
  case (issue actor performer expires key_id secret salt now st st' r2)
  then show ?case using issue_api_key_commits by (intro commit_step) blast
next
  case (revoke key_id performer now st st' r3)
  then show ?case using revoke_api_key_commits by (intro commit_step) blast
next
  case (enroll actor key_text performer key_id now st st' r4)
  then show ?case using enroll_approver_key_commits by (intro commit_step) blast
next
  case (revoke_approver key_id performer now st st' r4)
  then show ?case using revoke_approver_key_commits by (intro commit_step) blast
qed

lemma auth_steps_commits: "auth_steps derive st st' \<Longrightarrow> (committed derive)\<^sup>*\<^sup>* st st'"
  by (induction rule: rtranclp_induct) (auto dest: auth_step_commits intro: rtranclp_trans)

end
