(* ===== verification/Auth_Access.thy ===== *)
theory Auth_Access
  imports Auth_Audit
begin

text \<open>
  What the audit log says: replaying it gives the identities' roles and the state of every key, which is what
  the tables hold; and what it means for authentication.
\<close>

section \<open>Replaying the audit log\<close>

record key_grant =
  kg_actor :: "string option"
  kg_expires :: "string option"
  kg_revoked :: "datetime option"

record approver_grant =
  ag_actor :: "string option"
  ag_fingerprint :: "string option"
  ag_revoked :: "(datetime \<times> string) option"

record access =
  granted_roles :: "string \<Rightarrow> role list option"
  key_grants :: "string \<Rightarrow> key_grant option"
  approver_grants :: "string \<Rightarrow> approver_grant option"

definition payload_text :: "json \<Rightarrow> string \<Rightarrow> string option" where
  "payload_text j k = (case j of JObj d \<Rightarrow> (case dict_get d k of Some (JStr s) \<Rightarrow> Some s | _ \<Rightarrow> None) | _ \<Rightarrow> None)"

definition roles_named :: "string \<Rightarrow> role list" where
  "roles_named s = filter (\<lambda>r. role_text r = s) [VIEWER, EVIDENCE_CONTRIBUTOR, SOURCE_OPERATOR, GOVERNANCE_REVIEWER, ADMIN]"

definition payload_roles :: "json \<Rightarrow> role list" where
  "payload_roles j = (case j of JObj d \<Rightarrow> (case dict_get d ''roles'' of
       Some (JArr xs) \<Rightarrow> concat (map (\<lambda>x. case x of JStr s \<Rightarrow> roles_named s | _ \<Rightarrow> []) xs)
     | _ \<Rightarrow> []) | _ \<Rightarrow> [])"

definition replay_event :: "access \<Rightarrow> audit_event \<Rightarrow> access" where
  "replay_event a e =
     (let kind = ae_event_type e; target = ae_target_id e; p = ae_payload e in
      if kind = ''identity.created'' \<or> kind = ''identity.roles_updated''
      then a\<lparr>granted_roles := (granted_roles a)(target \<mapsto> payload_roles p)\<rparr>
      else if kind = ''api_key.issued''
      then a\<lparr>key_grants := (key_grants a)(target \<mapsto> \<lparr>kg_actor = payload_text p ''subject_actor_id'',
        kg_expires = payload_text p ''expires_at'', kg_revoked = None\<rparr>)\<rparr>
      else if kind = ''api_key.revoked''
      then a\<lparr>key_grants := (key_grants a)(target :=
        map_option (\<lambda>g. g\<lparr>kg_revoked := Some (ae_created_at e)\<rparr>) (key_grants a target))\<rparr>
      else if kind = ''approver_key.enrolled''
      then a\<lparr>approver_grants := (approver_grants a)(target \<mapsto> \<lparr>ag_actor = payload_text p ''subject_actor_id'',
        ag_fingerprint = payload_text p ''public_key_sha256'', ag_revoked = None\<rparr>)\<rparr>
      else if kind = ''approver_key.revoked''
      then a\<lparr>approver_grants := (approver_grants a)(target :=
        map_option (\<lambda>g. g\<lparr>ag_revoked := Some (ae_created_at e, ae_actor_id e)\<rparr>) (approver_grants a target))\<rparr>
      else a)"

definition replay_log :: "audit_event list \<Rightarrow> access" where
  "replay_log es = foldl replay_event \<lparr>granted_roles = (\<lambda>_. None), key_grants = (\<lambda>_. None), approver_grants = (\<lambda>_. None)\<rparr> es"

definition key_state :: "api_key_row \<Rightarrow> key_grant" where
  "key_state k = \<lparr>kg_actor = Some (km_actor_id k), kg_expires = map_option isoformat (km_expires_at k),
     kg_revoked = km_revoked_at k\<rparr>"

definition approver_state :: "approver_key \<Rightarrow> approver_grant" where
  "approver_state k = \<lparr>ag_actor = Some (apk_actor_id k), ag_fingerprint = Some (apk_public_key_sha256 k),
     ag_revoked = (case (apk_revoked_at k, apk_revoked_by k) of (Some t, Some by_actor) \<Rightarrow> Some (t, by_actor) | _ \<Rightarrow> None)\<rparr>"

text \<open>What the tables say.\<close>

definition access_of :: "auth_store \<Rightarrow> access" where
  "access_of st = \<lparr>granted_roles = map_of (map (\<lambda>i. (id_actor_id i, id_roles i)) (identity_table st)),
     key_grants = map_of (map (\<lambda>k. (km_key_id k, key_state k)) (api_key_table st)),
     approver_grants = map_of (map (\<lambda>k. (apk_key_id k, approver_state k)) (approver_table st))\<rparr>"

section \<open>Tables as maps\<close>

lemma map_of_snoc_fresh:
  assumes "f x \<notin> f ` set xs"
  shows "map_of (map (\<lambda>r. (f r, g r)) (xs @ [x])) = (map_of (map (\<lambda>r. (f r, g r)) xs))(f x \<mapsto> g x)"
proof -
  have "map_of (map (\<lambda>r. (f r, g r)) xs) (f x) = None"
    using assms by (auto simp: map_of_eq_None_iff)
  then show ?thesis by (auto simp: map_add_def split: option.splits)
qed

lemma map_of_update_where:
  assumes "\<And>r. f (u r) = f r" "\<And>r. f r = a \<Longrightarrow> g (u r) = h (g r)"
  shows "map_of (map (\<lambda>r. (f r, g r)) (map (\<lambda>r. if f r = a then u r else r) xs)) =
    (map_of (map (\<lambda>r. (f r, g r)) xs))(a := map_option h (map_of (map (\<lambda>r. (f r, g r)) xs) a))"
  by (induction xs) (auto simp: assms)

lemma find_map_of: "find (\<lambda>r. f r = a) xs = Some r \<Longrightarrow> map_of (map (\<lambda>r. (f r, g r)) xs) a = Some (g r)"
  by (induction xs) (auto split: if_splits)

lemma find_map_where:
  assumes "\<And>r. f (u r) = f r"
  shows "find (\<lambda>r. f r = a) (map (\<lambda>r. if f r = b then u r else r) xs) =
    map_option (\<lambda>r. if f r = b then u r else r) (find (\<lambda>r. f r = a) xs)"
  by (induction xs) (auto simp: assms)

lemma image_where:
  assumes "\<And>r. f (u r) = f r"
  shows "f ` (\<lambda>r. if f r = a then u r else r) ` A = f ` A"
proof -
  have "f (if f r = a then u r else r) = f r" for r by (simp add: assms)
  then show ?thesis by (simp add: image_image del: if_image_distrib)
qed

lemma map_where: "(\<And>r. f (u r) = f r) \<Longrightarrow> map f (map (\<lambda>r. if f r = a then u r else r) xs) = map f xs"
  by (induction xs) auto

lemma find_append: "find P (xs @ ys) = (case find P xs of None \<Rightarrow> find P ys | Some x \<Rightarrow> Some x)"
  by (induction xs) auto

lemma find_None_image: "a \<notin> f ` set xs \<Longrightarrow> find (\<lambda>r. f r = a) xs = None"
  by (auto simp: find_None_iff)

section \<open>Payloads\<close>

lemma role_text_inj: "role_text a = role_text b \<longleftrightarrow> a = b"
  by (cases a; cases b) (simp_all add: role_text_def)

lemma roles_named_text: "roles_named (role_text r) = [r]"
  by (cases r) (simp_all add: roles_named_def role_text_inj)

lemma payload_roles_of: "payload_roles (sort_json (roles_payload roles)) = roles"
proof -
  have "concat (map ((\<lambda>x. case x of JStr s \<Rightarrow> roles_named s | _ \<Rightarrow> []) \<circ> (sort_json \<circ> (\<lambda>r. JStr (role_text r)))) roles) = roles"
    by (induction roles) (simp_all add: roles_named_text)
  then show ?thesis by (simp add: payload_roles_def roles_payload_def)
qed

lemma issue_payload_sorted:
  "sort_json (issue_payload actor expires) = JObj [(''expires_at'', json_opt (\<lambda>t. JStr (isoformat t)) expires),
     (''subject_actor_id'', JStr actor)]"
  by (cases expires) (simp_all add: issue_payload_def json_opt_def)

lemma enroll_payload_sorted:
  "sort_json (enroll_payload actor fp) = JObj [(''public_key_sha256'', JStr fp), (''subject_actor_id'', JStr actor)]"
  by (simp add: enroll_payload_def)

lemma payload_facts:
  "json_ok (roles_payload roles)" "json_ok (issue_payload actor expires)" "json_ok (enroll_payload actor fp)"
  by (auto simp: roles_payload_def issue_payload_def enroll_payload_def json_opt_def split: option.split)

lemma payload_texts:
  "payload_text (sort_json (issue_payload actor expires)) ''subject_actor_id'' = Some actor"
  "payload_text (sort_json (issue_payload actor expires)) ''expires_at'' = map_option isoformat expires"
  "payload_text (sort_json (enroll_payload actor fp)) ''subject_actor_id'' = Some actor"
  "payload_text (sort_json (enroll_payload actor fp)) ''public_key_sha256'' = Some fp"
  unfolding issue_payload_sorted enroll_payload_sorted
  by (simp_all add: payload_text_def json_opt_def split: option.split)

section \<open>The invariant\<close>

definition revoked_targets :: "audit_event list \<Rightarrow> string list" where
  "revoked_targets log = map ae_target_id (filter (\<lambda>e. ae_event_type e = ''api_key.revoked'') log)"

definition revoked_keys :: "api_key_row list \<Rightarrow> string list" where
  "revoked_keys keys = map km_key_id (filter (\<lambda>k. km_revoked_at k \<noteq> None) keys)"

lemma revoked_targets_append: "revoked_targets (log @ [e]) =
    revoked_targets log @ (if ae_event_type e = ''api_key.revoked'' then [ae_target_id e] else [])"
  by (simp add: revoked_targets_def)

lemma revoked_targets_audit:
  "append_audit etype actor target payload now log = Inr log' \<Longrightarrow> revoked_targets log' =
    revoked_targets log @ (if etype = ''api_key.revoked'' then [target] else [])"
  by (drule append_audit_Inr) (simp add: revoked_targets_append)

lemma revoked_keys_append: "revoked_keys (keys @ [k]) = revoked_keys keys @ (if km_revoked_at k \<noteq> None then [km_key_id k] else [])"
  by (simp add: revoked_keys_def)

lemma revoked_keys_where: "key_id \<in> km_key_id ` set keys \<Longrightarrow>
    set (revoked_keys (map (\<lambda>k. if km_key_id k = key_id then k\<lparr>km_revoked_at := Some now\<rparr> else k) keys))
      = insert key_id (set (revoked_keys keys))"
  by (induction keys) (auto simp: revoked_keys_def)

definition auth_invariant :: "auth_store \<Rightarrow> bool" where
  "auth_invariant st \<longleftrightarrow> audit_log.sound (audit_table st)
     \<and> access_of st = replay_log (audit_rows (audit_table st))
     \<and> (\<forall>i \<in> set (identity_table st). id_disabled_at i = None) \<and> distinct (map km_key_id (api_key_table st))
     \<and> (\<forall>k \<in> set (api_key_table st). opt_all (\<lambda>t. utcoffset t \<noteq> None) (km_expires_at k)
        \<and> (\<exists>salt verifier. salt_b64 k = b64encode salt \<and> verifier_b64 k = b64encode verifier))
     \<and> (\<forall>k \<in> set (approver_table st). is_sha256_hex (apk_public_key_sha256 k))
     \<and> km_actor_id ` set (api_key_table st) \<union> apk_actor_id ` set (approver_table st) \<subseteq> id_actor_id ` set (identity_table st)
     \<and> set (revoked_targets (audit_table st)) = set (revoked_keys (api_key_table st))"

lemma commit_log:
  assumes "append_audit etype actor target payload now (audit_table st) = Inr log" "clock_ok now" "json_ok payload"
  shows "audit_appends (audit_table st) (next_audit_event etype actor target payload now (audit_table st)) log"
  unfolding audit_appends_def
  by (intro exI conjI) (use assms in \<open>auto simp: clock_ok_def\<close>)

lemma replay_snoc: "replay_log (es @ [e]) = replay_event (replay_log es) e"
  by (simp add: replay_log_def)

lemma access_simps [simp]:
  "granted_roles (access_of st) = map_of (map (\<lambda>i. (id_actor_id i, id_roles i)) (identity_table st))"
  "key_grants (access_of st) = map_of (map (\<lambda>k. (km_key_id k, key_state k)) (api_key_table st))"
  "approver_grants (access_of st) = map_of (map (\<lambda>k. (apk_key_id k, approver_state k)) (approver_table st))"
  by (simp_all add: access_of_def)

text \<open>Every transaction changes the tables as its event says.\<close>

lemma commit_event:
  assumes "committed derive st st'"
  shows "\<exists>e. audit_appends (audit_table st) e (audit_table st') \<and> access_of st' = replay_event (access_of st) e"
  using assms
proof cases
  case (created performer actor roles now log display)
  let ?e = "next_audit_event ''identity.created'' performer actor (roles_payload (normalized_roles roles)) now (audit_table st)"
  have "access_of st' = replay_event (access_of st) ?e"
    using map_of_snoc_fresh [of id_actor_id "\<lparr>id_actor_id = actor, id_display_name = display,
      id_roles = normalized_roles roles, id_created_at = now, id_disabled_at = None\<rparr>" "identity_table st" id_roles] created(4)
    by (simp add: replay_event_def payload_roles_of created(1) access_of_def)
  then show ?thesis using commit_log [OF created(2,3) payload_facts(1)] created(1) by auto
next
  case (roles_updated performer actor roles now log)
  let ?e = "next_audit_event ''identity.roles_updated'' performer actor (roles_payload (normalized_roles roles)) now (audit_table st)"
  have "map_of (map (\<lambda>i. (id_actor_id i, id_roles i)) (identity_table st)) actor \<noteq> None"
    using roles_updated(4) by (auto simp: map_of_eq_None_iff image_image)
  then have "access_of st' = replay_event (access_of st) ?e"
    using map_of_update_where [of id_actor_id "\<lambda>i. i\<lparr>id_roles := normalized_roles roles\<rparr>" actor id_roles
      "\<lambda>_. normalized_roles roles" "identity_table st"]
    by (auto simp: replay_event_def payload_roles_of roles_updated(1) access_of_def)
  then show ?thesis using commit_log [OF roles_updated(2,3) payload_facts(1)] roles_updated(1) by auto
next
  case (issued performer key_id actor expires now log secret salt)
  let ?e = "next_audit_event ''api_key.issued'' performer key_id (issue_payload actor expires) now (audit_table st)"
  have "access_of st' = replay_event (access_of st) ?e"
    using map_of_snoc_fresh [of km_key_id "\<lparr>km_key_id = key_id, km_actor_id = actor,
      km_token_prefix = take 24 (token_text key_id secret), km_created_at = now, km_expires_at = expires,
      km_revoked_at = None, salt_b64 = b64encode salt, verifier_b64 = b64encode (derive secret salt)\<rparr>"
      "api_key_table st" key_state] issued(5)
    by (simp add: replay_event_def payload_texts issued(1)) (simp add: access_of_def key_state_def)
  then show ?thesis using commit_log [OF issued(2,3) payload_facts(2)] issued(1) by auto
next
  case (revoked performer key_id now log)
  let ?e = "next_audit_event ''api_key.revoked'' performer key_id (JObj []) now (audit_table st)"
  have "access_of st' = replay_event (access_of st) ?e"
    using map_of_update_where [of km_key_id "\<lambda>k. k\<lparr>km_revoked_at := Some now\<rparr>" key_id key_state
      "\<lambda>g. g\<lparr>kg_revoked := Some now\<rparr>" "api_key_table st"]
    by (simp add: replay_event_def revoked(1) key_state_def access_of_def)
  then show ?thesis using commit_log [OF revoked(2,3)] revoked(1) by auto
next
  case (enrolled performer key_id actor raw now log key_text)
  let ?e = "next_audit_event ''approver_key.enrolled'' performer key_id (enroll_payload actor (sha256_bytes raw)) now (audit_table st)"
  have "access_of st' = replay_event (access_of st) ?e"
    using map_of_snoc_fresh [of apk_key_id "\<lparr>apk_key_id = key_id, apk_actor_id = actor,
      apk_public_key_b64 = key_text, apk_public_key_sha256 = sha256_bytes raw, apk_enrolled_at = now,
      apk_enrolled_by = performer, apk_revoked_at = None, apk_revoked_by = None\<rparr>" "approver_table st" approver_state]
      enrolled(5)
    by (simp add: replay_event_def payload_texts enrolled(1)) (simp add: access_of_def approver_state_def)
  then show ?thesis using commit_log [OF enrolled(2,3) payload_facts(3)] enrolled(1) by auto
next
  case (approver_revoked performer key_id now log)
  let ?e = "next_audit_event ''approver_key.revoked'' performer key_id (JObj []) now (audit_table st)"
  have "access_of st' = replay_event (access_of st) ?e"
    using map_of_update_where [of apk_key_id "\<lambda>k. k\<lparr>apk_revoked_at := Some now, apk_revoked_by := Some performer\<rparr>"
      key_id approver_state "\<lambda>g. g\<lparr>ag_revoked := Some (now, performer)\<rparr>" "approver_table st"]
    by (simp add: replay_event_def approver_revoked(1) approver_state_def access_of_def)
  then show ?thesis using commit_log [OF approver_revoked(2,3)] approver_revoked(1) by auto
qed

lemma commit_tables:
  assumes "committed derive st st'" "auth_invariant st"
  shows "\<forall>i \<in> set (identity_table st'). id_disabled_at i = None"
    "km_actor_id ` set (api_key_table st') \<union> apk_actor_id ` set (approver_table st') \<subseteq> id_actor_id ` set (identity_table st')"
    "set (revoked_targets (audit_table st')) = set (revoked_keys (api_key_table st'))"
    "distinct (map km_key_id (api_key_table st'))"
    "\<forall>k \<in> set (approver_table st'). is_sha256_hex (apk_public_key_sha256 k)"
    "\<forall>k \<in> set (api_key_table st'). opt_all (\<lambda>t. utcoffset t \<noteq> None) (km_expires_at k)
      \<and> (\<exists>salt verifier. salt_b64 k = b64encode salt \<and> verifier_b64 k = b64encode verifier)"
proof -
  note inv = assms(2) [unfolded auth_invariant_def]
  show "\<forall>i \<in> set (identity_table st'). id_disabled_at i = None"
    using assms(1) by cases (use inv in auto)
  show "km_actor_id ` set (api_key_table st') \<union> apk_actor_id ` set (approver_table st') \<subseteq> id_actor_id ` set (identity_table st')"
    using assms(1) by cases (use inv in \<open>auto simp: image_where simp del: if_image_distrib\<close>)
  show "set (revoked_targets (audit_table st')) = set (revoked_keys (api_key_table st'))"
    using assms(1) by cases
      (use inv in \<open>auto dest!: revoked_targets_audit simp: revoked_keys_append revoked_keys_where\<close>)
  show "distinct (map km_key_id (api_key_table st'))"
    using assms(1) by cases (use inv in \<open>simp_all add: map_where del: map_map\<close>)
  show "\<forall>k \<in> set (approver_table st'). is_sha256_hex (apk_public_key_sha256 k)"
    using assms(1) by cases (use inv in \<open>auto simp: sha256_bytes_is_hex\<close>)
  show "\<forall>k \<in> set (api_key_table st'). opt_all (\<lambda>t. utcoffset t \<noteq> None) (km_expires_at k)
      \<and> (\<exists>salt verifier. salt_b64 k = b64encode salt \<and> verifier_b64 k = b64encode verifier)"
    using assms(1) by cases (use inv in auto)
qed


lemma empty_auth_invariant: "auth_invariant empty_auth_store"
proof -
  have "audit_stream [] k = []" for k by (simp add: audit_stream_def audit_rows_def)
  then show ?thesis
    by (simp add: auth_invariant_def empty_auth_store_def audit_log.sound_def access_of_def replay_log_def
        audit_rows_def revoked_targets_def revoked_keys_def map_of_def)
qed

lemma committed_invariant:
  assumes "committed derive st st'" "auth_invariant st"
  shows "auth_invariant st'"
proof -
  obtain e where e: "audit_appends (audit_table st) e (audit_table st')" "access_of st' = replay_event (access_of st) e"
    using commit_event [OF assms(1)] by blast
  have "audit_log.sound (audit_table st')"
    using audit_log.sound_append [OF _ e(1)] assms(2) by (simp add: auth_invariant_def)
  moreover have "access_of st' = replay_log (audit_rows (audit_table st'))"
    using assms(2) by (simp add: e(2) audit_rows_append(1) [OF e(1)] replay_snoc auth_invariant_def)
  ultimately show ?thesis using commit_tables [OF assms] by (simp add: auth_invariant_def)
qed

lemma commits_invariant: "(committed derive)\<^sup>*\<^sup>* st st' \<Longrightarrow> auth_invariant st \<Longrightarrow> auth_invariant st'"
  by (induction rule: rtranclp_induct) (auto intro: committed_invariant)

lemma reachable_invariant: "auth_steps derive empty_auth_store st \<Longrightarrow> auth_invariant st"
  using commits_invariant auth_steps_commits empty_auth_invariant by blast

lemma verify_audit_sound:
  assumes "audit_log.sound (audit_table st)"
  shows "verify_audit_chain st = Inr True"
    "map ae_sequence (audit_rows (audit_table st)) = [1..int (length (audit_rows (audit_table st)))]"
    "audit_failure None (audit_rows (audit_table st)) = None" "list_all audit_record_ok (audit_rows (audit_table st))"
proof -
  let ?r = "audit_rows (audit_table st)"
  note s = audit_log.sound_history [OF assms, of "[]", unfolded audit_stream_def, simplified]
  show seq: "map ae_sequence ?r = [1..int (length ?r)]" and f: "audit_failure None ?r = None"
    and "list_all audit_record_ok ?r" using s by simp_all
  have "audit_failure p es = None \<Longrightarrow> e \<in> set es \<Longrightarrow> hash_record (audit_body e) = ae_hash e" for p es e
    by (induction p es rule: audit_failure.induct) (auto split: if_splits)
  then have hashed: "is_sha256_hex (ae_hash e)" if "e \<in> set ?r" for e
    using f that hash_record_is_hex by metis
  have "ae_sequence e \<in> set (map ae_sequence ?r)" if "e \<in> set ?r" for e using that by simp
  then have "audit_event_ok e" if "e \<in> set ?r" for e
    using that hashed [OF that] unfolding seq by (auto simp: audit_event_ok_def)
  then have "audit_events st = Inr ?r"
    unfolding audit_events_def by (intro map_result_id) (auto simp: list_all_iff)
  then show "verify_audit_chain st = Inr True" by (simp add: verify_audit_chain_def f)
qed

section \<open>Failed calls\<close>

lemma with_audit_failure:
  assumes "with_audit etype actor target payload now changed st k = (st', Inl e)"
  shows "st' = st \<or> k st' = Inl e \<and> (\<exists>log. st' = changed\<lparr>audit_table := log\<rparr>)"
  using assms by (cases rule: with_audit_cases) auto

lemma create_identity_failure:
  assumes "create_identity actor roles display performer now st = (st', Inl e)"
  shows "st' = st \<or> e = field_error \<and> find_identity st' actor \<noteq> None \<and> all_identities st' = Inl field_error"
proof (cases "is_blank actor \<or> roles = [] \<or> list_ex (\<lambda>i. id_actor_id i = actor) (identity_table st)")
  case False
  let ?row = "\<lparr>id_actor_id = actor, id_display_name = display, id_roles = normalized_roles roles,
    id_created_at = now, id_disabled_at = None\<rparr>"
  have "with_audit ''identity.created'' performer actor (roles_payload (normalized_roles roles)) now
      (st\<lparr>identity_table := identity_table st @ [?row]\<rparr>) st (\<lambda>_. identity_from_row ?row) = (st', Inl e)"
    using assms False by (simp add: create_identity_def Let_def)
  from with_audit_failure [OF this] show ?thesis
  proof (elim disjE conjE exE)
    fix log assume row: "identity_from_row ?row = Inl e"
      and st': "st' = st\<lparr>identity_table := identity_table st @ [?row]\<rparr>\<lparr>audit_table := log\<rparr>"
    have err: "map_result identity_from_row xs = Inl field_error" if "?row \<in> set xs" for xs
      using that row by (induction xs) (auto simp: identity_from_row_def split: if_splits)
    have "e = field_error" using row by (auto simp: identity_from_row_def split: if_splits)
    moreover have "find_identity st' actor \<noteq> None" by (auto simp: st' find_identity_def find_append split: option.split)
    moreover have "all_identities st' = Inl field_error" unfolding all_identities_def by (rule err) (simp add: st')
    ultimately show ?thesis by blast
  qed simp
qed (use assms in \<open>auto simp: create_identity_def Let_def split: if_splits\<close>)

lemma update_roles_failure:
  assumes "update_roles actor roles performer now st = (st', Inl e)"
  shows "st' = st"
proof (cases "get_identity actor st")
  case (Inr current)
  show ?thesis
  proof (cases "roles = [] \<or> id_disabled_at current \<noteq> None")
    case False
    then have "with_audit ''identity.roles_updated'' performer actor (roles_payload (normalized_roles roles)) now
        (st\<lparr>identity_table := map (\<lambda>i. if id_actor_id i = actor
           then i\<lparr>id_roles := normalized_roles roles\<rparr> else i) (identity_table st)\<rparr>)
        st (get_identity actor) = (st', Inl e)"
      using assms Inr by (simp add: update_roles_def)
    from with_audit_failure [OF this] show ?thesis using Inr
      find_map_where [of id_actor_id "\<lambda>i. i\<lparr>id_roles := normalized_roles roles\<rparr>" actor actor "identity_table st"]
      by (auto simp: get_identity_def find_identity_def identity_from_row_def split: option.splits if_splits)
  qed (use assms Inr in \<open>auto simp: update_roles_def split: if_splits\<close>)
qed (use assms in \<open>auto simp: update_roles_def split: if_splits\<close>)

lemma revoke_api_key_failure:
  assumes "revoke_api_key key_id performer now st = (st', Inl e)"
  shows "st' = st"
proof (cases "find (\<lambda>k. km_key_id k = key_id) (api_key_table st)")
  case (Some row)
  then have member: "row \<in> set (api_key_table st)" "km_key_id row = key_id" by (auto simp: find_Some_iff)
  show ?thesis
  proof (cases "km_revoked_at row = None")
    case True
    then have "with_audit ''api_key.revoked'' performer key_id (JObj []) now
        (st\<lparr>api_key_table := map (\<lambda>k. if km_key_id k = key_id then k\<lparr>km_revoked_at := Some now\<rparr> else k)
           (api_key_table st)\<rparr>) st
        (\<lambda>st'. case find (\<lambda>k. km_key_id k = key_id) (api_keys st') of
            None \<Rightarrow> raise (RuntimeError ''StopIteration'') | Some k \<Rightarrow> return k) = (st', Inl e)"
      using assms Some by (simp add: revoke_api_key_def)
    from with_audit_failure [OF this] show ?thesis
    proof (elim disjE conjE exE)
      fix log assume st': "st' = st\<lparr>api_key_table := map (\<lambda>k. if km_key_id k = key_id
          then k\<lparr>km_revoked_at := Some now\<rparr> else k) (api_key_table st)\<rparr>\<lparr>audit_table := log\<rparr>"
        and fail: "(case find (\<lambda>k. km_key_id k = key_id) (api_keys st') of
          None \<Rightarrow> raise (RuntimeError ''StopIteration'') | Some k \<Rightarrow> return k) = Inl e"
      have "find (\<lambda>k. km_key_id k = key_id) (api_keys st') = None"
        using fail by (auto split: option.splits)
      moreover have "api_key_metadata.truncate (row\<lparr>km_revoked_at := Some now\<rparr>) \<in> set (api_keys st')"
        using member by (force simp: api_keys_def st' image_iff)
      ultimately show ?thesis using member(2) by (auto simp: find_None_iff api_key_metadata.truncate_def)
    qed simp
  qed (use assms Some in \<open>auto simp: revoke_api_key_def\<close>)
qed (use assms in \<open>auto simp: revoke_api_key_def\<close>)

lemma enroll_approver_key_failure:
  assumes "enroll_approver_key actor key_text performer key_id now st = (st', Inl e)"
  shows "st' = st"
proof (cases "get_identity actor st")
  case (Inr i)
  show ?thesis
  proof (cases "b64decode key_text")
    case raw: (Inr raw)
    show ?thesis
    proof (cases "id_disabled_at i \<noteq> None \<or> GOVERNANCE_REVIEWER \<notin> set (id_roles i) \<or> length raw \<noteq> 32
        \<or> list_ex (\<lambda>k. apk_key_id k = key_id \<or> apk_public_key_sha256 k = sha256_bytes raw) (approver_table st)")
      case True
      then show ?thesis using assms Inr raw by (auto simp: enroll_approver_key_def Let_def split: if_splits)
    next
      case False
      then have fresh: "find (\<lambda>k. apk_key_id k = key_id) (approver_table st) = None"
        by (auto simp: list_ex_iff find_None_iff)
      have "with_audit ''approver_key.enrolled'' performer key_id (enroll_payload actor (sha256_bytes raw)) now
          (st\<lparr>approver_table := approver_table st @ [\<lparr>apk_key_id = key_id, apk_actor_id = actor,
          apk_public_key_b64 = key_text, apk_public_key_sha256 = sha256_bytes raw, apk_enrolled_at = now,
          apk_enrolled_by = performer, apk_revoked_at = None, apk_revoked_by = None\<rparr>]\<rparr>) st
          (get_approver_key key_id) = (st', Inl e)"
        using assms False Inr raw by (simp add: enroll_approver_key_def Let_def)
      from with_audit_failure [OF this] show ?thesis
        by (auto simp: get_approver_key_def find_append fresh approver_key_from_row_def sha256_bytes_is_hex)
    qed
  qed (use assms Inr in \<open>auto simp: enroll_approver_key_def split: if_splits\<close>)
qed (use assms in \<open>auto simp: enroll_approver_key_def\<close>)

lemma revoke_approver_key_failure:
  assumes "revoke_approver_key key_id performer now st = (st', Inl e)" "auth_invariant st"
  shows "st' = st"
proof (cases "find (\<lambda>k. apk_key_id k = key_id) (approver_table st)")
  case (Some row)
  then have hex: "is_sha256_hex (apk_public_key_sha256 row)" "apk_key_id row = key_id"
    using assms(2) by (auto simp: find_Some_iff auth_invariant_def)
  show ?thesis
  proof (cases "apk_revoked_at row = None")
    case True
    then have "with_audit ''approver_key.revoked'' performer key_id (JObj []) now
        (st\<lparr>approver_table := map (\<lambda>k. if apk_key_id k = key_id
           then k\<lparr>apk_revoked_at := Some now, apk_revoked_by := Some performer\<rparr> else k)
           (approver_table st)\<rparr>) st (get_approver_key key_id) = (st', Inl e)"
      using assms(1) Some by (simp add: revoke_approver_key_def)
    from with_audit_failure [OF this] show ?thesis using Some hex
      find_map_where [of apk_key_id "\<lambda>k. k\<lparr>apk_revoked_at := Some now, apk_revoked_by := Some performer\<rparr>" key_id key_id
        "approver_table st"]
      by (auto simp: get_approver_key_def approver_key_from_row_def)
  qed (use assms(1) Some in \<open>auto simp: revoke_approver_key_def\<close>)
qed (use assms(1) in \<open>auto simp: revoke_approver_key_def\<close>)

lemma issue_api_key_failure:
  "issue_api_key derive actor performer expires key_id secret salt now st = (st', Inl e) \<Longrightarrow> st' = st"
  by (erule issue_api_key_cases) auto

definition rolls_back :: "auth_store \<Rightarrow> auth_store \<times> 'a result \<Rightarrow> bool" where
  "rolls_back st outcome = (case outcome of (st', Inl e) \<Rightarrow> st' = st | (st', Inr x) \<Rightarrow> True)"

lemma rolls_backI: "(\<And>st' e. outcome = (st', Inl e) \<Longrightarrow> st' = st) \<Longrightarrow> rolls_back st outcome"
  by (simp add: rolls_back_def split: prod.split sum.split)

text \<open>C17. A call on the auth store that raises has changed nothing, with one exception: an identity whose actor id
  or display name is too long has been committed when the returned model is validated, and from then on
  listing the identities raises.\<close>

theorem auth_failure_rolls_back:
  assumes "auth_steps derive empty_auth_store st"
  shows "(rolls_back st (create_identity actor roles display performer now st)
      \<or> (\<exists>st'. create_identity actor roles display performer now st = (st', Inl field_error)
        \<and> find_identity st' actor \<noteq> None \<and> all_identities st' = Inl field_error))
    \<and> rolls_back st (update_roles actor roles performer now st)
    \<and> rolls_back st (issue_api_key derive actor performer expires key_id secret salt now st)
    \<and> rolls_back st (revoke_api_key key_id performer now st)
    \<and> rolls_back st (enroll_approver_key actor key_text performer key_id now st)
    \<and> rolls_back st (revoke_approver_key key_id performer now st)"
proof (intro conjI)
  show "rolls_back st (create_identity actor roles display performer now st)
      \<or> (\<exists>st'. create_identity actor roles display performer now st = (st', Inl field_error)
        \<and> find_identity st' actor \<noteq> None \<and> all_identities st' = Inl field_error)"
    using create_identity_failure [of actor roles display performer now st]
    by (cases "create_identity actor roles display performer now st"; cases "snd (create_identity actor roles display performer now st)")
      (auto simp: rolls_back_def)
qed (rule rolls_backI, erule update_roles_failure issue_api_key_failure revoke_api_key_failure
    enroll_approver_key_failure revoke_approver_key_failure [OF _ reachable_invariant [OF assms]])+

text \<open>C18. The audit log of the auth store accounts for it: after any operations it verifies with consecutive
  sequence numbers, replaying it gives exactly the roles of every identity and the owner, expiry and revocation of
  every API and approver key in the tables, and two stores whose logs end with the same event hash grant the
  same access (unless SHA-256 collides on the events).\<close>

theorem audit_log_determines_access:
  assumes "auth_steps derive empty_auth_store s" "auth_steps derive' empty_auth_store t"
    and "audit_table s \<noteq> []" "audit_table t \<noteq> []"
    and "ae_hash (last (audit_rows (audit_table s))) = ae_hash (last (audit_rows (audit_table t)))"
    and "collision_free (canonical_json_bytes ` audit_body ` (set (audit_table s) \<union> set (audit_table t)))"
  shows "verify_audit_chain s = Inr True
    \<and> map ae_sequence (audit_rows (audit_table s)) = [1..int (length (audit_table s))]
    \<and> access_of s = replay_log (audit_rows (audit_table s))
    \<and> access_of t = access_of s"
proof -
  have inv: "auth_invariant s" "auth_invariant t" using reachable_invariant assms(1,2) by blast+
  then have a: "access_of s = replay_log (audit_rows (audit_table s))"
    "access_of t = replay_log (audit_rows (audit_table t))" by (simp_all add: auth_invariant_def)
  have sound: "audit_log.sound (audit_table s)" "audit_log.sound (audit_table t)"
    using inv by (simp_all add: auth_invariant_def)
  note vs = verify_audit_sound [OF sound(1)] and vt = verify_audit_sound [OF sound(2)]
  have ne: "audit_rows (audit_table s) \<noteq> []" "audit_rows (audit_table t) \<noteq> []"
    using assms(3,4) by (simp_all add: audit_rows_def flip: set_empty)
  have "audit_rows (audit_table s) = audit_rows (audit_table t)"
    by (rule audit_chain.head_determines_history [OF _ vs(3) vt(3) vs(4) vt(4)])
      (use assms(5,6) ne in \<open>simp_all add: audit_chain.head_after_def audit_rows_def\<close>)
  then have "access_of t = access_of s" using a by simp
  moreover have "length (audit_rows (audit_table s)) = length (audit_table s)" by (simp add: audit_rows_def)
  ultimately show ?thesis using vs(1,2) a(1) by metis
qed

end
