(* ===== verification/Authentication.thy ===== *)
theory Authentication
  imports Auth_Access Json_Reader
begin

text \<open>
  Who gets in: an issued token against any later store, and the HTTP middleware of
  src/ballotproof/auth_middleware.py that demands a permission of every persistent write.
\<close>

section \<open>A token over its lifetime\<close>

lemma commit_key_row:
  assumes "committed derive st st'" "find (\<lambda>k. km_key_id k = x) (api_key_table st) = Some k"
  shows "\<exists>r. find (\<lambda>k. km_key_id k = x) (api_key_table st') = Some (k\<lparr>km_revoked_at := r\<rparr>)"
  using assms(1)
proof cases
  case (revoked performer key_id now log)
  then show ?thesis using assms(2)
    find_map_where [of km_key_id "\<lambda>k. k\<lparr>km_revoked_at := Some now\<rparr>" x key_id "api_key_table st"]
    by (cases "km_key_id k = key_id") (auto intro: exI [of _ "km_revoked_at k"])
qed (use assms(2) in \<open>auto simp: find_append intro: exI [of _ "km_revoked_at k"]\<close>)

lemma commits_key_row:
  assumes "(committed derive)\<^sup>*\<^sup>* st st'" "find (\<lambda>k. km_key_id k = x) (api_key_table st) = Some k"
  shows "\<exists>r. find (\<lambda>k. km_key_id k = x) (api_key_table st') = Some (k\<lparr>km_revoked_at := r\<rparr>)"
  using assms(1)
proof (induction rule: rtranclp_induct)
  case base
  show ?case by (rule exI [of _ "km_revoked_at k"]) (simp add: assms(2))
next
  case (step s t)
  then show ?case using commit_key_row [of derive s t x] by fastforce
qed

lemma revoked_key_row:
  assumes "auth_invariant st" "find (\<lambda>k. km_key_id k = x) (api_key_table st) = Some k"
  shows "km_revoked_at k \<noteq> None \<longleftrightarrow> x \<in> set (revoked_targets (audit_table st))"
proof -
  have k: "k \<in> set (api_key_table st)" "km_key_id k = x" using assms(2) by (auto simp: find_Some_iff)
  have inj: "inj_on km_key_id (set (api_key_table st))" and
    r: "set (revoked_targets (audit_table st)) = set (revoked_keys (api_key_table st))"
    using assms(1) by (simp_all add: auth_invariant_def distinct_map)
  show ?thesis unfolding r using k inj by (auto simp: revoked_keys_def inj_on_def)
qed

lemma identity_of_key:
  assumes "auth_invariant st" "k \<in> set (api_key_table st)"
  shows "\<exists>i. find_identity st (km_actor_id k) = Some i \<and> id_disabled_at i = None
    \<and> granted_roles (replay_log (audit_rows (audit_table st))) (km_actor_id k) = Some (id_roles i)"
proof -
  have "km_actor_id k \<in> id_actor_id ` set (identity_table st)" using assms by (auto simp: auth_invariant_def)
  then obtain i where i: "find_identity st (km_actor_id k) = Some i"
    by (cases "find_identity st (km_actor_id k)") (auto simp: find_identity_def find_None_iff)
  then have "i \<in> set (identity_table st)" by (auto simp: find_identity_def find_Some_iff)
  moreover have "granted_roles (access_of st) (km_actor_id k) = Some (id_roles i)"
    using find_map_of [OF i [unfolded find_identity_def], of id_roles] by simp
  moreover have "access_of st = replay_log (audit_rows (audit_table st))"
    "\<forall>i \<in> set (identity_table st). id_disabled_at i = None" using assms(1) by (simp_all add: auth_invariant_def)
  ultimately show ?thesis using i by metis
qed

definition hex_text :: "string \<Rightarrow> bool" where
  "hex_text s \<longleftrightarrow> list_all (\<lambda>c. c \<in> set ''0123456789abcdef'') s"

lemma hex_char: "c \<in> set ''0123456789abcdef'' \<Longrightarrow> c \<noteq> CHR ''_'' \<and> (of_char c :: nat) div 64 \<noteq> 2"
  by auto

lemma parse_issued_token:
  assumes "hex_text key_id" "length key_id = 16" "secret \<noteq> []"
  shows "parse_token (token_text key_id secret) = Some (key_id, secret)" "take 24 (token_text key_id secret) = ''bp_live_'' @ key_id"
proof -
  have "CHR ''_'' \<notin> set key_id" and len: "py_len key_id = length key_id"
    using assms(1) hex_char unfolding hex_text_def list_all_iff py_len_def by (blast, simp add: filter_id_conv)
  from this(1) have "partition_at (CHR ''_'') (key_id @ CHR ''_'' # secret) = (key_id, True, secret)"
    by (rule partition_at_append)
  then show "parse_token (token_text key_id secret) = Some (key_id, secret)"
    using assms(2,3) len by (simp add: parse_token_def token_text_def)
  show "take 24 (token_text key_id secret) = ''bp_live_'' @ key_id" using assms(2) by (simp add: token_text_def)
qed

text \<open>The store keeps of the secret only what the key derivation gives.\<close>

lemma store_hides_secret:
  assumes "derive s1 salt = derive s2 salt" "hex_text key_id" "length key_id = 16" "s1 \<noteq> []" "s2 \<noteq> []"
  shows "fst (issue_api_key derive actor performer expires key_id s1 salt now st)
    = fst (issue_api_key derive actor performer expires key_id s2 salt now st)"
  using assms parse_issued_token(2) [OF assms(2,3)]
  by (auto simp: issue_api_key_def with_audit_def Let_def split: sum.splits)

text \<open>C19. An API key answers for its owner exactly as long as the audit log has no revocation of it. Issuing a key either
  fails and changes nothing, or in every store reachable after the key was issued, a token with its key id is accepted if and only if its secret
  derives the stored verifier, the key is not expired and no \<open>api_key.revoked\<close> event names it; the
  principal is then its owner with the roles last recorded for the owner and exactly their permissions.
  The issued token parses to its key id and secret.\<close>

theorem token_accepted_until_revoked:
  assumes "auth_steps derive empty_auth_store st0"
    "issue_api_key derive actor performer expires key_id secret salt issued_at st0 = (st1, outcome)"
    "clock_ok issued_at" "auth_steps derive st1 st2"
    "hex_text key_id" "length key_id = 16" "secret \<noteq> []"
    "parse_token token = Some (key_id, secret')"
  shows "(\<exists>e. outcome = Inl e \<and> st1 = st0) \<or> (\<exists>issued roles. outcome = Inr issued
    \<and> parse_token (ki_token issued) = Some (key_id, secret)
    \<and> granted_roles (replay_log (audit_rows (audit_table st2))) actor = Some roles
    \<and> authenticate derive now token st2 = Inr
        (if key_id \<in> set (revoked_targets (audit_table st2))
            \<or> (case expires of None \<Rightarrow> False | Some t \<Rightarrow> instant t \<le> instant now)
            \<or> derive secret' salt \<noteq> derive secret salt
         then None
         else Some \<lparr>pr_actor_id = actor, pr_key_id = key_id, pr_roles = roles,
           pr_permissions = granted_permissions roles\<rparr>))"
proof (cases outcome)
  case (Inl e)
  then show ?thesis using issue_api_key_failure assms(2) by blast
next
  case (Inr issued)
  let ?row = "\<lparr>km_key_id = key_id, km_actor_id = actor, km_token_prefix = take 24 (token_text key_id secret),
    km_created_at = issued_at, km_expires_at = expires, km_revoked_at = None, salt_b64 = b64encode salt,
    verifier_b64 = b64encode (derive secret salt)\<rparr>"
  from assms(2) [unfolded Inr] have row1: "key_id \<notin> km_key_id ` set (api_key_table st0)"
      "api_key_table st1 = api_key_table st0 @ [?row]" "ki_token issued = token_text key_id secret"
      "opt_all (\<lambda>t. utcoffset t \<noteq> None) expires"
    by (cases rule: issue_api_key_cases; simp)+
  have "find (\<lambda>k. km_key_id k = key_id) (api_key_table st1) = Some ?row"
    using row1(1) by (simp add: row1(2) find_append find_None_image)
  from commits_key_row [OF auth_steps_commits [OF assms(4)] this] obtain r where
    row: "find (\<lambda>k. km_key_id k = key_id) (api_key_table st2) = Some (?row\<lparr>km_revoked_at := r\<rparr>)" by blast
  have "auth_steps derive st0 st1" using auth_step.issue [OF assms(2,3)] by auto
  then have "auth_steps derive empty_auth_store st2" using assms(1,4) by auto
  then have inv: "auth_invariant st2" by (rule reachable_invariant)
  have "?row\<lparr>km_revoked_at := r\<rparr> \<in> set (api_key_table st2)" using row by (auto simp: find_Some_iff)
  from identity_of_key [OF inv this] obtain i where
    i: "find_identity st2 actor = Some i" "id_disabled_at i = None"
      "granted_roles (replay_log (audit_rows (audit_table st2))) actor = Some (id_roles i)" by auto
  have "r \<noteq> None \<longleftrightarrow> key_id \<in> set (revoked_targets (audit_table st2))"
    using revoked_key_row [OF inv row] by simp
  then have "authenticate derive now token st2 = Inr
      (if key_id \<in> set (revoked_targets (audit_table st2))
          \<or> (case expires of None \<Rightarrow> False | Some t \<Rightarrow> instant t \<le> instant now)
          \<or> derive secret' salt \<noteq> derive secret salt
       then None
       else Some \<lparr>pr_actor_id = actor, pr_key_id = key_id, pr_roles = id_roles i,
         pr_permissions = granted_permissions (id_roles i)\<rparr>)"
    using row1(4) by (cases expires)
      (auto simp: authenticate_def assms(8) row i expired_at_def b64decode_encode)
  with i(3) show ?thesis using parse_issued_token(1) [OF assms(5-7)] row1(3) Inr by simp
qed

section \<open>Which requests need a permission\<close>

text \<open>The route patterns, segment by segment: \<open>None\<close> is \<open>[^/]+\<close>, otherwise the alternatives.\<close>

type_synonym route_pattern = "string list option list"

definition route_permissions :: "(string \<times> route_pattern \<times> permission) list" where
  "route_permissions = map (\<lambda>(pattern, permission). (''POST'', Some [[]] # Some [''v1''] # pattern, permission))
     [([Some [''registry''], Some [''snapshots'']], MANAGE_REGISTRY),
      ([Some [''evidence''], Some [''ingest'']], WRITE_EVIDENCE),
      ([Some [''extractions'']], WRITE_EVIDENCE),
      ([Some [''extractions''], None, Some [''reviews'']], WRITE_EVIDENCE),
      ([Some [''attestations'']], WRITE_EVIDENCE),
      ([Some [''source-policies'']], MANAGE_POLICIES),
      ([Some [''source-approvals'']], MANAGE_APPROVALS),
      ([Some [''sources''], None, Some [''reservations'']], MANAGE_AUTOMATION),
      ([Some [''source-automation''], Some [''plans'']], MANAGE_AUTOMATION),
      ([Some [''source-automation''], Some [''plans''], None, Some [''pause'', ''resume'']], MANAGE_AUTOMATION)]"

definition route_matches :: "route_pattern \<Rightarrow> string \<Rightarrow> bool" where
  "route_matches pattern path =
     list_all2 (\<lambda>p s. case p of None \<Rightarrow> s \<noteq> [] | Some words \<Rightarrow> s \<in> set words) pattern (split_at_char (CHR ''/'') path)"

definition required_permission :: "string \<Rightarrow> string \<Rightarrow> permission option" where
  "required_permission method path =
     map_option (\<lambda>(m, pattern, permission). permission)
       (find (\<lambda>(m, pattern, permission). method = m \<and> route_matches pattern path) route_permissions)"

section \<open>The middleware\<close>

text \<open>The request goes on to its handler with the principal (none on a route that needs no permission), or
  is answered with a status and a detail, or an exception leaves the middleware.\<close>

datatype decision = Forward "principal option" | Respond nat string | Failure py_error

text \<open>\<open>json_object[key]\<close>.\<close>

definition json_item :: "json \<Rightarrow> string \<Rightarrow> json result" where
  "json_item j k = (case j of
       JObj d \<Rightarrow> (case dict_get d k of None \<Rightarrow> raise (KeyError k) | Some v \<Rightarrow> return v)
     | _ \<Rightarrow> raise (TypeError ''not subscriptable by a string''))"

text \<open>The body as text; \<open>None\<close> stands for bytes that \<open>json.loads\<close> cannot decode.\<close>

definition body_approver :: "(string \<Rightarrow> string) \<Rightarrow> string option \<Rightarrow> json result" where
  "body_approver fr body =
     bind_result (case body of None \<Rightarrow> raise (ValueError ''UnicodeDecodeError'') | Some doc \<Rightarrow> json_loads fr doc)
       (\<lambda>payload. bind_result (json_item payload ''payload'') (\<lambda>inner. json_item inner ''approver_id''))"

text \<open>\<open>except (json.JSONDecodeError, KeyError, TypeError)\<close>.\<close>

definition caught_body_error :: "py_error \<Rightarrow> bool" where
  "caught_body_error e = (case e of
       ValueError m \<Rightarrow> m \<noteq> ''UnicodeDecodeError'' \<and> m \<noteq> ''Exceeds the limit (4300 digits) for integer string conversion''
     | KeyError _ \<Rightarrow> True | TypeError _ \<Rightarrow> True | _ \<Rightarrow> False)"

definition bearer_token :: "string \<Rightarrow> string option" where
  "bearer_token authorization = (case partition_at (CHR '' '') authorization of (scheme, separator, token) \<Rightarrow>
     if \<not> separator \<or> ascii_lower scheme \<noteq> ''bearer'' \<or> token = [] then None else Some token)"

definition approver_check :: "(string \<Rightarrow> string) \<Rightarrow> string option \<Rightarrow> principal \<Rightarrow> decision" where
  "approver_check fr body p = (case body_approver fr body of
       Inl e \<Rightarrow> if caught_body_error e then Respond 400 ''Invalid approval payload'' else Failure e
     | Inr approver \<Rightarrow> if approver \<noteq> JStr (pr_actor_id p)
         then Respond 403 ''approver_id must match the authenticated identity'' else Forward (Some p))"

definition authorize_persistent_writes :: "(string \<Rightarrow> byte list \<Rightarrow> byte list) \<Rightarrow> (string \<Rightarrow> string) \<Rightarrow> datetime
    \<Rightarrow> string \<Rightarrow> string \<Rightarrow> string \<Rightarrow> string option \<Rightarrow> auth_store \<Rightarrow> decision" where
  "authorize_persistent_writes derive fr now method path authorization body st =
     (case required_permission (ascii_upper method) path of
        None \<Rightarrow> Forward None
      | Some permission \<Rightarrow> (case bearer_token authorization of
            None \<Rightarrow> Respond 401 ''Bearer API key required''
          | Some token \<Rightarrow> (case authenticate derive now token st of
                Inl e \<Rightarrow> Failure e
              | Inr None \<Rightarrow> Respond 401 ''Invalid, expired, or revoked API key''
              | Inr (Some p) \<Rightarrow>
                  if permission \<notin> set (pr_permissions p)
                  then Respond 403 (''Permission required: '' @ permission_text permission)
                  else if ascii_upper method = ''POST'' \<and> path = ''/v1/source-approvals''
                  then approver_check fr body p else Forward (Some p))))"

section \<open>Denial\<close>

lemma set_granted [simp]: "set (granted_permissions roles) = (\<Union>r \<in> set roles. set (role_permissions r))"
  by (simp add: granted_permissions_def)

text \<open>On a reachable store authentication never raises, and what it accepts is granted by the log.\<close>

lemma authenticate_reachable:
  assumes "auth_invariant st"
  shows "\<exists>p. authenticate derive now token st = Inr p"
proof -
  have "\<exists>b. expired_at now (km_expires_at k) = Inr b" if "k \<in> set (api_key_table st)" for k
    using that assms by (cases "km_expires_at k") (auto simp: auth_invariant_def expired_at_def)
  moreover have "\<exists>s v. b64decode (salt_b64 k) = Inr s \<and> b64decode (verifier_b64 k) = Inr v" if "k \<in> set (api_key_table st)" for k
    using that assms unfolding auth_invariant_def by (metis b64decode_encode)
  ultimately have row: "\<exists>b s v. expired_at now (km_expires_at k) = Inr b \<and> b64decode (salt_b64 k) = Inr s
      \<and> b64decode (verifier_b64 k) = Inr v" if "k \<in> set (api_key_table st)" for k
    using that by metis
  show ?thesis
  proof (cases "parse_token token")
    case (Some ks)
    obtain key_id secret where ks: "ks = (key_id, secret)" by (cases ks)
    show ?thesis
    proof (cases "find (\<lambda>k. km_key_id k = key_id) (api_key_table st)")
      case k: (Some k)
      then have "k \<in> set (api_key_table st)" by (auto simp: find_Some_iff)
      from row [OF this] obtain b s v where r: "expired_at now (km_expires_at k) = Inr b"
        "b64decode (salt_b64 k) = Inr s" "b64decode (verifier_b64 k) = Inr v" by blast
      show ?thesis
        by (cases "find_identity st (km_actor_id k)"; cases b) (simp_all add: authenticate_def Some ks k r)
    qed (simp add: authenticate_def Some ks)
  qed (simp add: authenticate_def)
qed

lemma authenticate_granted:
  assumes "auth_invariant st" "authenticate derive now token st = Inr (Some p)"
  shows "\<exists>secret g roles. parse_token token = Some (pr_key_id p, secret)
    \<and> key_grants (replay_log (audit_rows (audit_table st))) (pr_key_id p) = Some g \<and> kg_revoked g = None
    \<and> kg_actor g = Some (pr_actor_id p)
    \<and> granted_roles (replay_log (audit_rows (audit_table st))) (pr_actor_id p) = Some roles
    \<and> pr_permissions p = granted_permissions roles"
proof -
  obtain key_id secret k i where t: "parse_token token = Some (key_id, secret)"
    "find (\<lambda>k. km_key_id k = key_id) (api_key_table st) = Some k" "find_identity st (km_actor_id k) = Some i"
    "km_revoked_at k = None" and p: "pr_actor_id p = km_actor_id k" "pr_key_id p = km_key_id k"
      "pr_permissions p = granted_permissions (id_roles i)"
    using assms(2) by (auto simp: authenticate_def split: option.splits prod.splits if_splits)
  have k: "km_key_id k = key_id" using t(2) by (auto simp: find_Some_iff)
  have a: "access_of st = replay_log (audit_rows (audit_table st))" using assms(1) by (simp add: auth_invariant_def)
  have "key_grants (access_of st) key_id = Some (key_state k)" using find_map_of [OF t(2)] by simp
  moreover have "granted_roles (access_of st) (km_actor_id k) = Some (id_roles i)"
    using find_map_of [OF t(3) [unfolded find_identity_def], of id_roles] by simp
  ultimately show ?thesis using t p k unfolding a by (auto simp: key_state_def)
qed

text \<open>C20. No write gets past the middleware without a grant on record: on a route that needs a permission, whenever
  the audit log holds no unrevoked key with the key id of the presented token whose owner's recorded roles
  include that permission, the request is answered with 401 or 403 and neither reaches its handler nor
  ends in an internal error.\<close>

theorem ungranted_write_denied:
  assumes "auth_steps derive empty_auth_store st" "required_permission (ascii_upper method) path = Some permission"
    and "bearer_token authorization = Some token" "parse_token token = Some (key_id, secret)"
    and "\<nexists>g actor roles role. key_grants (replay_log (audit_rows (audit_table st))) key_id = Some g
      \<and> kg_revoked g = None \<and> kg_actor g = Some actor
      \<and> granted_roles (replay_log (audit_rows (audit_table st))) actor = Some roles
      \<and> role \<in> set roles \<and> permission \<in> set (role_permissions role)"
  shows "\<exists>status detail. authorize_persistent_writes derive fr now method path authorization body st
    = Respond status detail \<and> status \<in> {401, 403}"
proof -
  have inv: "auth_invariant st" using reachable_invariant [OF assms(1)] .
  obtain p where p: "authenticate derive now token st = Inr p" using authenticate_reachable [OF inv] by blast
  show ?thesis
  proof (cases p)
    case None
    then show ?thesis using p assms(2,3) by (simp add: authorize_persistent_writes_def)
  next
    case (Some q)
    from authenticate_granted [OF inv p [unfolded Some]] assms(4,5) have "permission \<notin> set (pr_permissions q)"
      by auto
    then show ?thesis using p Some assms(2,3) by (simp add: authorize_persistent_writes_def)
  qed
qed

section \<open>A concrete store\<close>

definition auth_time :: datetime where
  "auth_time = \<lparr>wall = 63860000000000000, utcoffset = Some 0\<rparr>"

definition alice :: identity where
  "alice = \<lparr>id_actor_id = ''alice'', id_display_name = None, id_roles = [VIEWER], id_created_at = auth_time,
     id_disabled_at = None\<rparr>"

definition alice_event :: audit_event where
  "alice_event = next_audit_event ''identity.created'' ''root'' ''alice'' (roles_payload [VIEWER]) auth_time []"

definition alice_store :: auth_store where
  "alice_store = \<lparr>identity_table = [alice], api_key_table = [], approver_table = [], audit_table = [alice_event]\<rparr>"

lemma auth_clock: "clock_ok auth_time"
  by (simp add: clock_ok_def auth_time_def datetime_ok_def is_utc_def max_wall_def us_per_day_def us_per_second_def)

lemma alice_created: "create_identity ''alice'' [VIEWER] None ''root'' auth_time empty_auth_store = (alice_store, Inr alice)"
  by (simp add: create_identity_def empty_auth_store_def one_byte_spaces_def two_byte_spaces_def three_byte_spaces_def
      with_audit_def append_audit_def Let_def identity_from_row_def len_between_def py_len_def normalized_roles_def
      alice_store_def alice_def alice_event_def)

lemma alice_reachable: "auth_steps derive empty_auth_store alice_store"
  using auth_step.create [OF alice_created auth_clock] by blast

lemma alice_log [simp]: "audit_rows [alice_event] = [alice_event]"
  by (simp add: audit_rows_def)

lemma auth_failure_rolls_back_witness:
  "\<exists>st'. create_identity ''bob'' [ADMIN] (Some (replicate 257 (CHR ''b''))) ''root'' auth_time empty_auth_store
      = (st', Inl field_error) \<and> find_identity st' ''bob'' \<noteq> None \<and> all_identities st' = Inl field_error"
proof -
  have "\<not> rolls_back empty_auth_store
      (create_identity ''bob'' [ADMIN] (Some (replicate 257 (CHR ''b''))) ''root'' auth_time empty_auth_store)"
    by (simp add: create_identity_def one_byte_spaces_def two_byte_spaces_def three_byte_spaces_def
      with_audit_def append_audit_def Let_def identity_from_row_def normalized_roles_def rolls_back_def
      empty_auth_store_def py_len_def)
  then show ?thesis
    using auth_failure_rolls_back [OF rtranclp.rtrancl_refl [of "auth_step (\<lambda>s salt. utf8 s)" empty_auth_store],
      of "''bob''" "[ADMIN]" "Some (replicate 257 (CHR ''b''))" "''root''" auth_time] by blast
qed

lemma audit_log_determines_access_witness:
  "verify_audit_chain alice_store = Inr True \<and> access_of alice_store = replay_log [alice_event]"
  using audit_log_determines_access [OF alice_reachable [of "\<lambda>s salt. utf8 s"] alice_reachable [of "\<lambda>s salt. utf8 s"]]
  by (simp add: alice_store_def collision_free_def)

definition alice_key_event :: audit_event where
  "alice_key_event = next_audit_event ''api_key.issued'' ''root'' ''0123456789abcdef'' (issue_payload ''alice'' None)
     auth_time [alice_event]"

lemma alice_key_append: "append_audit ''api_key.issued'' ''root'' ''0123456789abcdef'' (issue_payload ''alice'' None) auth_time [alice_event]
    = (if ae_hash alice_key_event = ae_hash alice_event then Inl (IntegrityError ''auth_audit_events.event_hash'')
       else Inr [alice_event, alice_key_event])"
  by (auto simp: append_audit_def Let_def alice_key_event_def [symmetric])
    (simp_all add: alice_key_event_def alice_event_def audit_rows_def)

lemma alice_key_rows: "audit_rows [alice_event, alice_key_event] = [alice_event, alice_key_event]"
  by (simp add: audit_rows_def alice_key_event_def alice_event_def next_audit_event_def Let_def)

definition alice_key_store :: auth_store where
  "alice_key_store = alice_store\<lparr>api_key_table := [\<lparr>km_key_id = ''0123456789abcdef'', km_actor_id = ''alice'',
     km_token_prefix = ''bp_live_0123456789abcdef'', km_created_at = auth_time, km_expires_at = None, km_revoked_at = None,
     salt_b64 = b64encode [1, 2, 3], verifier_b64 = b64encode (utf8 ''s3cret'')\<rparr>],
     audit_table := [alice_event, alice_key_event]\<rparr>"

definition alice_issued :: api_key_issued where
  "alice_issued = \<lparr>ki_key_id = ''0123456789abcdef'', ki_actor_id = ''alice'', ki_token = ''bp_live_0123456789abcdef_s3cret'',
     ki_created_at = auth_time, ki_expires_at = None\<rparr>"

lemma alice_issue:
  assumes "ae_hash alice_key_event \<noteq> ae_hash alice_event"
  shows "issue_api_key (\<lambda>s salt. utf8 s) ''alice'' ''root'' None ''0123456789abcdef'' ''s3cret'' [1, 2, 3] auth_time alice_store
    = (alice_key_store, Inr alice_issued)"
  using assms
  by (simp add: issue_api_key_def get_identity_def find_identity_def alice_store_def alice_def identity_from_row_def
      len_between_def py_len_def with_audit_def alice_key_append Let_def token_text_def alice_key_store_def alice_issued_def)

text \<open>Unless the two events collide under SHA-256, the key is issued and its token lets alice read.\<close>

lemma token_accepted_until_revoked_witness:
  "ae_hash alice_key_event = ae_hash alice_event
   \<or> (\<exists>st issued. issue_api_key (\<lambda>s salt. utf8 s) ''alice'' ''root'' None ''0123456789abcdef'' ''s3cret'' [1, 2, 3]
        auth_time alice_store = (st, Inr issued)
     \<and> authenticate (\<lambda>s salt. utf8 s) auth_time (ki_token issued) st = Inr (Some \<lparr>pr_actor_id = ''alice'',
        pr_key_id = ''0123456789abcdef'', pr_roles = [VIEWER], pr_permissions = [READ]\<rparr>))"
proof (cases "ae_hash alice_key_event = ae_hash alice_event")
  case False
  have "parse_token (token_text ''0123456789abcdef'' ''s3cret'') = Some (''0123456789abcdef'', ''s3cret'')"
    by code_simp
  moreover have "hex_text ''0123456789abcdef''" by code_simp
  moreover have "granted_roles (replay_log [alice_event, alice_key_event]) ''alice'' = Some [VIEWER]"
    by (simp add: replay_log_def replay_event_def alice_event_def alice_key_event_def payload_roles_of Let_def)
  moreover have "revoked_targets [alice_event, alice_key_event] = []"
    by (simp add: revoked_targets_def alice_event_def alice_key_event_def)
  moreover have "granted_permissions [VIEWER] = [READ]" by (simp add: granted_permissions_def role_permissions_def)
  ultimately have "authenticate (\<lambda>s salt. utf8 s) auth_time (token_text ''0123456789abcdef'' ''s3cret'') alice_key_store
      = Inr (Some \<lparr>pr_actor_id = ''alice'', pr_key_id = ''0123456789abcdef'', pr_roles = [VIEWER], pr_permissions = [READ]\<rparr>)"
    using token_accepted_until_revoked [OF alice_reachable alice_issue [OF False] auth_clock rtranclp.rtrancl_refl,
      of "token_text ''0123456789abcdef'' ''s3cret''" "''s3cret''" auth_time]
    by (simp add: alice_key_store_def alice_key_rows)
  moreover have "ki_token alice_issued = token_text ''0123456789abcdef'' ''s3cret''" by (simp add: alice_issued_def token_text_def)
  ultimately show ?thesis using alice_issue [OF False] by auto
qed simp

lemma ungranted_write_denied_witness:
  "\<exists>status detail. authorize_persistent_writes (\<lambda>s salt. utf8 s) id auth_time ''post'' ''/v1/evidence/ingest''
      ''Bearer bp_live_0123456789abcdef_x'' None alice_store = Respond status detail \<and> status \<in> {401, 403}"
proof (rule ungranted_write_denied [OF alice_reachable])
  show "required_permission (ascii_upper ''post'') ''/v1/evidence/ingest'' = Some WRITE_EVIDENCE"
    by code_simp
  show "bearer_token ''Bearer bp_live_0123456789abcdef_x'' = Some ''bp_live_0123456789abcdef_x''"
    by code_simp
  show "parse_token ''bp_live_0123456789abcdef_x'' = Some (''0123456789abcdef'', ''x'')"
    by code_simp
  show "\<nexists>g actor roles role. key_grants (replay_log (audit_rows (audit_table alice_store))) ''0123456789abcdef'' = Some g
      \<and> kg_revoked g = None \<and> kg_actor g = Some actor
      \<and> granted_roles (replay_log (audit_rows (audit_table alice_store))) actor = Some roles
      \<and> role \<in> set roles \<and> WRITE_EVIDENCE \<in> set (role_permissions role)"
    by (simp add: alice_store_def replay_log_def replay_event_def alice_event_def audit_rows_def)
qed

end
