(* ===== verification/Release_Exports.thy ===== *)
theory Release_Exports
  imports Release_Files
begin

text \<open>
  The export files of a release (\<open>_json_bytes\<close>, \<open>_csv_bytes\<close>, \<open>_parquet_bytes\<close> and
  their readers) carry the records, and a release that was built verifies.
\<close>

section \<open>The exports carry the records\<close>

text \<open>A record that every format can carry: a JSON document that \<open>json.loads\<close> reads back, UTF-8
  texts, and CSV fields within the field limit. It is read back with sorted payload keys.\<close>

definition document_ok :: "release_library \<Rightarrow> release_record \<Rightarrow> bool" where
  "document_ok lib r = (json_ok (JObj (release_payload r)) \<and> json_readable (float_text lib) (JObj (release_payload r))
     \<and> json_strings_ok (JObj (release_payload r)) \<and> utf8_text (release_key r))"

definition exportable :: "release_library \<Rightarrow> release_record \<Rightarrow> bool" where
  "exportable lib r = (document_ok lib r \<and> text_length (release_key r) \<le> csv_limit \<and> text_length (canonical_payload r) \<le> csv_limit)"

definition canonical_fields :: "(string \<times> json) list \<Rightarrow> (string \<times> json) list" where
  "canonical_fields kvs = sort_key fst (map (\<lambda>(k, v). (k, sort_json v)) kvs)"

definition canonical_record :: "release_record \<Rightarrow> release_record" where
  "canonical_record r = r\<lparr>release_payload := canonical_fields (release_payload r)\<rparr>"

definition parquet_row :: "string \<times> string \<times> string \<Rightarrow> cell dict" where
  "parquet_row row = (case row of (ty, key, payload) \<Rightarrow> [(''record_type'', Cell_Text ty),
     (''record_key'', Cell_Text key), (''payload_json'', Cell_Text payload)])"

definition parquet_faithful :: "release_library \<Rightarrow> bool" where
  "parquet_faithful lib = (\<forall>rows. parquet_read lib (parquet_write lib rows) = Inr (map parquet_row rows))"

lemma record_type_of_text [simp]: "release_record_type_of (record_type_text ty) = Some ty"
  by (cases ty) (simp_all add: release_record_type_of_def record_type_text_def)

lemma canonical_record_simps [simp]:
  "record_type (canonical_record r) = record_type r" "release_key (canonical_record r) = release_key r"
  "release_payload (canonical_record r) = canonical_fields (release_payload r)"
  by (simp_all add: canonical_record_def)

lemma make_canonical_record:
  "exportable lib r \<Longrightarrow> make_release_record (JStr (record_type_text (record_type r))) (JStr (release_key r))
    (sort_json (JObj (release_payload r))) = Inr (canonical_record r)"
  by (simp add: make_release_record_def exportable_def document_ok_def canonical_record_def canonical_fields_def)

lemma line_bytes: "canonical_json_bytes v @ [newline_byte] = utf8 (canonical_json_text v @ [CHR 0x0A])"
  by (simp add: canonical_json_bytes_def utf8_def newline_byte_def)

lemma dict_get_sort_json:
  assumes "distinct (map fst kvs)"
  shows "dict_get (sort_key fst (map (\<lambda>(k, v). (k, sort_json v)) kvs)) k = map_option sort_json (dict_get kvs k)"
proof -
  have "dict_get (sort_key fst (map (\<lambda>(k, v). (k, sort_json v)) kvs)) = dict_get (map (\<lambda>(k, v). (k, sort_json v)) kvs)"
    using dict_get_sorted [of "map (\<lambda>(k, v). (k, sort_json v)) kvs"] assms
    by (simp add: dict_sorted_def dict_ok_def comp_def case_prod_unfold)
  then show ?thesis by (simp add: map_of_map)
qed

lemma short_text: "length s \<le> csv_limit \<Longrightarrow> text_length s \<le> csv_limit"
  using le_trans [OF length_filter_le] by (auto simp: text_length_def)

lemma record_type_ascii: "utf8_text (record_type_text ty)" "text_length (record_type_text ty) \<le> csv_limit"
  "record_type_text ty \<noteq> []"
proof -
  show "utf8_text (record_type_text ty)" by (rule utf8_ascii) (cases ty; simp add: record_type_text_def)
  show "text_length (record_type_text ty) \<le> csv_limit"
    by (rule short_text) (cases ty; simp add: record_type_text_def csv_limit_def)
  show "record_type_text ty \<noteq> []" by (cases ty) (simp_all add: record_type_text_def)
qed

text \<open>JSON.\<close>

lemma validate_sorted_record:
  assumes "exportable lib r"
  shows "validate_record (sort_json (release_record_json r)) = Inr (canonical_record r)"
proof -
  let ?kvs = "[(''record_type'', JStr (record_type_text (record_type r))), (''record_key'', JStr (release_key r)),
    (''payload'', JObj (release_payload r))]"
  have d: "distinct (map fst ?kvs)" by simp
  have keys: "dict_keys (sort_key fst (map (\<lambda>(k, v). (k, sort_json v)) ?kvs)) =
      {''record_type'', ''record_key'', ''payload''}"
    by (auto simp: dict_keys_def)
  show ?thesis
    unfolding release_record_json_def sort_json.simps validate_record_def json.case dict_get_sort_json [OF d] keys
    using make_canonical_record [OF assms] by simp
qed

lemma release_document_ok:
  assumes "list_all (document_ok lib) records"
  shows "json_ok (JArr (map release_record_json records))"
    "json_readable (float_text lib) (JArr (map release_record_json records))"
    "json_strings_ok (JArr (map release_record_json records))"
proof -
  have u: "utf8_text ''record_type''" "utf8_text ''record_key''" "utf8_text ''payload''"
    by (rule utf8_ascii, simp)+
  have "json_ok (release_record_json r) \<and> json_readable (float_text lib) (release_record_json r)
      \<and> json_strings_ok (release_record_json r)" if "document_ok lib r" for r
    using that u record_type_ascii by (auto simp: document_ok_def release_record_json_def)
  then show "json_ok (JArr (map release_record_json records))"
    "json_readable (float_text lib) (JArr (map release_record_json records))"
    "json_strings_ok (JArr (map release_record_json records))"
    using assms by (simp_all add: list_all_iff)
qed

lemma exportable_documents: "list_all (exportable lib) records \<Longrightarrow> list_all (document_ok lib) records"
  by (simp add: list_all_iff exportable_def)

lemma records_from_json_bytes:
  assumes "list_all (exportable lib) os"
  shows "records_from_json lib (canonical_json_bytes (JArr (map release_record_json os)) @ [newline_byte]) =
    Inr (map canonical_record os)"
proof -
  let ?v = "JArr (map release_record_json os)"
  note ok = release_document_ok [OF exportable_documents [OF assms]]
  have "utf8_text [CHR 0x0A]" by (rule utf8_ascii) simp
  then have "utf8_text (canonical_json_text ?v @ [CHR 0x0A])"
    using utf8_canonical [OF ok(1,3)] by (rule utf8_text_append [rotated])
  moreover have "json_loads (float_text lib) (canonical_json_text ?v @ [CHR 0x0A]) = Inr (sort_json ?v)"
    using ok(1,2) by (rule json_loads_line) simp
  moreover have "map_result validate_record (map (sort_json \<circ> release_record_json) os) = Inr (map canonical_record os)"
    using assms by (auto simp: map_result_Inr list_all2_conv_all_nth list_all_length validate_sorted_record)
  ultimately show ?thesis by (simp add: records_from_json_def line_bytes decode_utf8_utf8)
qed

text \<open>CSV.\<close>

lemma csv_quoted_utf8: "utf8_text s \<Longrightarrow> utf8_text (csv_quoted s)"
  unfolding csv_quoted_def by (rule utf8_text_concat_map) auto

lemma csv_field_utf8: "utf8_text s \<Longrightarrow> utf8_text (csv_field s)"
  unfolding csv_field_def by (simp add: utf8_ascii_Cons utf8_text_append csv_quoted_utf8 utf8_ascii)

lemma csv_row_utf8: "list_all utf8_text row \<Longrightarrow> utf8_text (csv_row row)"
proof -
  have "list_all utf8_text xs \<Longrightarrow> utf8_text (join '','' xs)" for xs
    by (induction "'','' :: string" xs rule: join.induct)
      (simp_all add: utf8_text_append utf8_ascii utf8_ascii_Cons)
  moreover assume "list_all utf8_text row"
  then have "list_all utf8_text (map csv_field row)" by (simp add: list_all_iff csv_field_utf8)
  ultimately show ?thesis by (simp add: csv_row_def utf8_text_append utf8_ascii)
qed

lemma utf8_concat: "list_all utf8_text xs \<Longrightarrow> utf8_text (concat xs)"
  by (induction xs) (simp_all add: utf8_text_append utf8_ascii)

lemma csv_dict_fields:
  "csv_dict csv_header [a, b, c] =
    [(''record_type'', Some a), (''record_key'', Some b), (''payload_json'', Some c)]"
  by (simp add: csv_dict_def csv_header_def dict_of_def)

lemma canonical_payload_loads:
  "exportable lib r \<Longrightarrow>
    json_loads (float_text lib) (canonical_payload r) = Inr (sort_json (JObj (release_payload r)))"
  unfolding canonical_payload_def by (rule json_loads_canonical) (simp_all add: exportable_def document_ok_def)

lemma record_of_csv_row:
  "exportable lib r \<Longrightarrow> record_of_csv lib (csv_dict csv_header (csv_fields r)) = Inr (canonical_record r)"
  using make_canonical_record [of lib r] canonical_payload_loads [of lib r]
  by (simp add: record_of_csv_def csv_fields_def csv_dict_fields row_value_def opt_text_def json_opt_def)

lemma csv_header_ok: "csv_header \<noteq> []" "hd csv_header \<noteq> []" "\<forall>s \<in> set csv_header. text_length s \<le> csv_limit"
  "list_all utf8_text csv_header"
proof -
  show "\<forall>s \<in> set csv_header. text_length s \<le> csv_limit"
    by (intro ballI short_text) (auto simp: csv_header_def csv_limit_def)
  show "list_all utf8_text csv_header" by (simp add: csv_header_def utf8_ascii)
qed (simp_all add: csv_header_def)

lemma csv_fields_ok:
  assumes "exportable lib r"
  shows "csv_fields r \<noteq> [] \<and> hd (csv_fields r) \<noteq> [] \<and> (\<forall>s \<in> set (csv_fields r). text_length s \<le> csv_limit)"
    "list_all utf8_text (csv_fields r)"
proof -
  have "utf8_text (canonical_payload r)"
    using assms unfolding canonical_payload_def
    by (intro utf8_canonical) (simp_all add: exportable_def document_ok_def)
  then show "list_all utf8_text (csv_fields r)"
    using assms by (simp add: csv_fields_def exportable_def document_ok_def record_type_ascii)
qed (use assms in \<open>simp add: csv_fields_def exportable_def record_type_ascii\<close>)

lemma records_from_csv_bytes:
  assumes "list_all (exportable lib) os"
  shows "records_from_csv lib (utf8 (concat (map csv_row (csv_header # map csv_fields os)))) =
    Inr (map canonical_record os)"
proof -
  let ?rows = "csv_header # map csv_fields os"
  have "list_all utf8_text (map csv_row ?rows)"
    using assms csv_header_ok(4) csv_fields_ok(2) by (auto simp: list_all_iff intro!: csv_row_utf8 [unfolded list_all_iff])
  then have utf8: "utf8_text (concat (map csv_row ?rows))" by (rule utf8_concat)
  have "\<forall>row \<in> set ?rows. row \<noteq> [] \<and> hd row \<noteq> [] \<and> (\<forall>s \<in> set row. text_length s \<le> csv_limit)"
    using assms csv_header_ok csv_fields_ok(1) by (auto simp: list_all_iff)
  then have "csv_reader (concat (map csv_row ?rows)) = (?rows, None)" by (rule csv_reader_rows)
  moreover have "filter (\<lambda>r. r \<noteq> []) (map csv_fields os) = map csv_fields os"
    by (simp add: filter_id_conv csv_fields_def)
  ultimately have "dict_reader (concat (map csv_row ?rows)) = (map (csv_dict csv_header) (map csv_fields os), None)"
    by (simp add: dict_reader_def)
  moreover have "map_result (record_of_csv lib) (map (csv_dict csv_header) (map csv_fields os)) =
      Inr (map canonical_record os)"
    using assms by (auto simp: map_result_Inr list_all2_conv_all_nth list_all_length record_of_csv_row)
  ultimately show ?thesis using utf8 by (simp add: records_from_csv_def decode_utf8_utf8)
qed

text \<open>Parquet.\<close>

lemma record_of_parquet_row:
  "exportable lib r \<Longrightarrow> record_of_parquet lib
    (parquet_row (record_type_text (record_type r), release_key r, canonical_payload r)) = Inr (canonical_record r)"
  using make_canonical_record [of lib r] canonical_payload_loads [of lib r]
  by (simp add: record_of_parquet_def parquet_row_def row_value_def cell_json_def)

lemma records_from_parquet_bytes:
  assumes "list_all (exportable lib) os" "parquet_faithful lib"
  shows "records_from_parquet lib (parquet_write lib
      (map (\<lambda>r. (record_type_text (record_type r), release_key r, canonical_payload r)) os)) =
    Inr (map canonical_record os)"
proof -
  have "map_result (record_of_parquet lib)
      (map parquet_row (map (\<lambda>r. (record_type_text (record_type r), release_key r, canonical_payload r)) os)) =
      Inr (map canonical_record os)"
    using assms(1) by (auto simp: map_result_Inr list_all2_conv_all_nth list_all_length record_of_parquet_row)
  then show ?thesis using assms(2) by (simp add: records_from_parquet_def parquet_faithful_def)
qed

lemma exportable_sort: "list_all (exportable lib) records \<Longrightarrow>
    list_all (exportable lib) (sort_key record_sort_key records)"
  by (simp add: list_all_iff)

lemma exports_read_back:
  assumes "distinct (map record_sort_key records)" "list_all (exportable lib) records"
  shows "bind_result (json_bytes records) (records_from_json lib) =
      Inr (map canonical_record (sort_key record_sort_key records))"
    "bind_result (csv_bytes records) (records_from_csv lib) =
      Inr (map canonical_record (sort_key record_sort_key records))"
    "parquet_faithful lib \<Longrightarrow> bind_result (parquet_bytes lib records) (records_from_parquet lib) =
      Inr (map canonical_record (sort_key record_sort_key records))"
proof -
  have ord: "ordered_records records = Inr (sort_key record_sort_key records)"
    using assms(1) by (simp add: ordered_records_Inr)
  note ok = exportable_sort [OF assms(2)]
  show "bind_result (json_bytes records) (records_from_json lib) =
      Inr (map canonical_record (sort_key record_sort_key records))"
    using records_from_json_bytes [OF ok] by (simp add: json_bytes_def record_dicts_def ord)
  show "bind_result (csv_bytes records) (records_from_csv lib) =
      Inr (map canonical_record (sort_key record_sort_key records))"
    using records_from_csv_bytes [OF ok] by (simp add: csv_bytes_def ord)
  show "parquet_faithful lib \<Longrightarrow> bind_result (parquet_bytes lib records) (records_from_parquet lib) =
      Inr (map canonical_record (sort_key record_sort_key records))"
    using records_from_parquet_bytes [OF ok] by (simp add: parquet_bytes_def ord)
qed

text \<open>C13. For records with distinct types and keys that every format can carry (\<open>exportable\<close>: payloads that
  \<open>json.loads\<close> reads back, UTF-8 texts, and keys and canonical payloads within the CSV field limit of 131072
  characters) the three export files carry the same records: reading back the JSON, the CSV or the Parquet file gives
  the records in order of type and key, with the payload keys sorted. Above the CSV limit the file is written but
  \<open>csv.reader\<close> raises on it.\<close>

theorem release_exports_roundtrip:
  assumes "distinct (map record_sort_key records)" "list_all (exportable lib) records" "parquet_faithful lib"
  shows "bind_result (json_bytes records) (records_from_json lib) =
      Inr (map canonical_record (sort_key record_sort_key records))
    \<and> bind_result (csv_bytes records) (records_from_csv lib) =
      Inr (map canonical_record (sort_key record_sort_key records))
    \<and> bind_result (parquet_bytes lib records) (records_from_parquet lib) =
      Inr (map canonical_record (sort_key record_sort_key records))"
  using exports_read_back [OF assms(1,2)] assms(3) by blast

section \<open>A release that was built verifies\<close>

text \<open>Documented behaviour of the libraries: Parquet keeps the rows, a signature verifies under the public key of
  its private key, a float equals itself, and pydantic reads the JSON of a valid model back.\<close>

definition file_fields_ok :: "release_file \<Rightarrow> bool" where
  "file_fields_ok f = (utf8_text (rf_name f) \<and> utf8_text (media_type f) \<and> is_sha256_hex (rf_sha256 f) \<and> 1 \<le> size_bytes f)"

definition manifest_fields_ok :: "release_manifest \<Rightarrow> bool" where
  "manifest_fields_ok m = (utf8_text (rm_release_id m) \<and> utf8_text (rm_election_id m) \<and> 1 \<le> record_count m
     \<and> is_sha256_hex (rm_merkle_root m) \<and> list_all file_fields_ok (rm_files m))"

definition signature_fields_ok :: "release_signature \<Rightarrow> bool" where
  "signature_fields_ok s = (is_sha256_hex (sg_manifest_sha256 s) \<and> utf8_text (public_key_b64 s)
     \<and> is_sha256_hex (signer_key_sha256 s) \<and> utf8_text (signature_b64 s))"

definition manifest_line :: "release_manifest \<Rightarrow> byte list" where
  "manifest_line m = canonical_json_bytes (manifest_json m)"

definition library_ok :: "release_library \<Rightarrow> bool" where
  "library_ok lib = (parquet_faithful lib
     \<and> (\<forall>k msg. length (public_bytes lib k) = 32 \<and> ed_verify lib (public_bytes lib k) (ed_sign lib k msg) msg)
     \<and> (\<forall>s. scan_number (float_text lib) s = Inr (JFloat s, []) \<longrightarrow> float_eq lib s s)
     \<and> (\<forall>m. manifest_fields_ok m \<and> json_readable (float_text lib) (manifest_json m)
          \<longrightarrow> parse_manifest lib (manifest_line m) = Inr m)
     \<and> (\<forall>s. signature_fields_ok s
          \<longrightarrow> parse_signature lib (canonical_json_bytes (signature_json s) @ [newline_byte]) = Inr s))"

lemma canonical_fields_sorted: "JObj (canonical_fields kvs) = sort_json (JObj kvs)"
  by (simp add: canonical_fields_def)

lemma canonical_document: "document_ok lib r \<Longrightarrow> document_ok lib (canonical_record r)"
  unfolding document_ok_def canonical_record_simps canonical_fields_sorted
  using json_ok_sort json_readable_sort json_strings_sort by blast

lemma leaf_hash_canonical:
  assumes "document_ok lib r"
  shows "leaf_hash (canonical_record r) = leaf_hash r"
proof -
  have "sort_json (sort_json (JObj (release_payload r))) = sort_json (JObj (release_payload r))"
    using assms sort_json_idem [of "JObj (release_payload r)"] unfolding document_ok_def by blast
  then have "sort_json (release_record_json (canonical_record r)) = sort_json (release_record_json r)"
    unfolding release_record_json_def canonical_record_simps canonical_fields_sorted
    by (simp only: sort_json.simps(2) [of "[(_, JStr _), _, _]"] list.map prod.case)
  then show ?thesis by (simp add: leaf_hash_def leaf_bytes_def canonical_json_bytes_def canonical_json_text_def)
qed

lemma record_sort_key_canonical [simp]: "record_sort_key (canonical_record r) = record_sort_key r"
  by (simp add: record_sort_key_def)

lemma ordered_canonical:
  assumes "distinct (map record_sort_key records)"
  shows "ordered_records (map canonical_record (sort_key record_sort_key records)) =
    Inr (map canonical_record (sort_key record_sort_key records))"
proof -
  let ?os = "sort_key record_sort_key records"
  have keys: "map record_sort_key (map canonical_record ?os) = map record_sort_key ?os" by simp
  then have "sorted (map record_sort_key (map canonical_record ?os))" by (simp only: sorted_sort_key)
  then have "sort_key record_sort_key (map canonical_record ?os) = map canonical_record ?os"
    by (rule sort_key_id_if_sorted)
  then show ?thesis using assms keys by (simp add: ordered_records_Inr comp_def)
qed

lemma root_canonical:
  assumes "list_all (document_ok lib) records" "merkle_root records = Inr root"
  shows "encoded_root (map canonical_record (sort_key record_sort_key records)) = Inr root"
proof -
  let ?os = "sort_key record_sort_key records"
  have d: "distinct (map record_sort_key records)"
    and root: "root = hex (tree_root (map leaf_hash ?os))" and ne: "?os \<noteq> []"
    using assms(2) by (auto simp: merkle_root_def ordered_records_Inr split: if_splits)
  have leaves: "map leaf_hash (map canonical_record ?os) = map leaf_hash ?os"
    using assms(1) leaf_hash_canonical by (auto simp: list_all_iff)
  have "merkle_root (map canonical_record ?os) = Inr root"
    unfolding merkle_root_def ordered_canonical [OF d] bind_result_simps leaves using root ne by simp
  moreover have "list_all (\<lambda>r. json_strings_ok (JObj (release_payload r))) (map canonical_record ?os)"
  proof -
    have "json_strings_ok (JObj (release_payload (canonical_record r)))" if "r \<in> set records" for r
      using canonical_document [of lib r] assms(1) that unfolding list_all_iff document_ok_def by blast
    then show ?thesis unfolding list_all_iff by (simp del: json_strings_ok.simps)
  qed
  ultimately show ?thesis unfolding encoded_root_def by (simp only: if_True)
qed

lemma py_eq_refl:
  assumes "library_ok lib"
  shows "json_ok v \<Longrightarrow> json_readable (float_text lib) v \<Longrightarrow> py_eq lib v v"
proof (induction v)
  case (JFloat s)
  then show ?case using assms by (simp add: atom_eq_def library_ok_def)
next
  case (JArr xs)
  then show ?case by (auto simp: list_all2_conv_all_nth)
next
  case (JObj kvs)
  have "py_eq lib v v" if "(k, v) \<in> set kvs" for k v
    using JObj.IH [OF that, of v] JObj.prems that by auto
  then show ?case using JObj.prems by auto
qed (simp_all add: atom_eq_def int_value_def)


text \<open>The manifest line ends with a brace, so stripping the line feed gives it back.\<close>

lemma enc_fields_last: "enc_fields kvs \<noteq> [] \<and> last (enc_fields kvs) = CHR ''}''"
proof (induction kvs)
  case (Cons p kvs)
  then show ?case by (cases p) simp
qed simp

lemma enc_object_last: "enc (JObj kvs) \<noteq> [] \<and> last (enc (JObj kvs)) = CHR ''}''"
proof (cases kvs)
  case (Cons p kvs')
  then show ?thesis using enc_fields_last [of kvs'] by (cases p) simp
qed simp

lemma strip_newlines_line: "strip_newlines (canonical_json_bytes (JObj kvs) @ [newline_byte]) = canonical_json_bytes (JObj kvs)"
proof -
  obtain lws where s: "sort_json (JObj kvs) = JObj lws" by simp
  have "canonical_json_bytes (JObj kvs) = utf8 (enc (JObj lws))"
    by (simp add: canonical_json_bytes_def canonical_json_text_def s [symmetric])
  moreover obtain t where "enc (JObj lws) = t @ ''}''" using enc_object_last [of lws] by (metis append_butlast_last_id)
  ultimately have "canonical_json_bytes (JObj kvs) = utf8 t @ utf8 ''}''" by (simp add: utf8_def)
  moreover have "utf8 ''}'' = [0x7D]" by (simp add: utf8_def)
  ultimately show ?thesis by (simp add: strip_newlines_def newline_byte_def)
qed

lemma manifest_json_object: "\<exists>kvs. manifest_json m = JObj kvs"
  by (simp add: manifest_json_def)

lemma strip_manifest: "strip_newlines (manifest_line m @ [newline_byte]) = manifest_line m"
  using strip_newlines_line manifest_json_object [of m] unfolding manifest_line_def by metis

text \<open>What a successful build wrote.\<close>

lemma build_release_Inr:
  assumes "build_release lib private election records dir = Inr (m, dir')"
  obtains root jb cb pb where
    "encoded_root records = Inr root" "json_bytes records = Inr jb" "csv_bytes records = Inr cb"
    "parquet_bytes lib records = Inr pb" "jb \<noteq> []" "cb \<noteq> []" "pb \<noteq> []"
    "m = \<lparr>rm_release_id = release_id_of election root, rm_election_id = election,
       record_count = int (length records), rm_merkle_root = root, rm_files =
        [\<lparr>rf_name = ''records.json'', media_type = ''application/json'', rf_sha256 = sha256_bytes jb, size_bytes = int (length jb)\<rparr>,
         \<lparr>rf_name = ''records.csv'', media_type = ''text/csv'', rf_sha256 = sha256_bytes cb, size_bytes = int (length cb)\<rparr>,
         \<lparr>rf_name = ''records.parquet'', media_type = ''application/vnd.apache.parquet'', rf_sha256 = sha256_bytes pb,
          size_bytes = int (length pb)\<rparr>]\<rparr>"
    "dict_get dir' ''records.json'' = Some jb" "dict_get dir' ''records.csv'' = Some cb"
    "dict_get dir' ''records.parquet'' = Some pb" "dict_get dir' ''manifest.json'' = Some (manifest_line m @ [newline_byte])"
    "dict_get dir' ''manifest.signature.json'' =
      Some (canonical_json_bytes (signature_json (signed_release lib private (manifest_line m))) @ [newline_byte])"
  using assms
  by (auto simp: build_release_def Let_def file_entry_def dict_get_set strip_manifest [unfolded manifest_line_def]
      manifest_line_def split: if_splits)

lemma json_bytes_Inr:
  "json_bytes records = Inr jb \<Longrightarrow> distinct (map record_sort_key records)"
  by (auto simp: json_bytes_def record_dicts_def ordered_records_Inr)

text \<open>The signature of the manifest is accepted.\<close>

lemma signed_release_ok: "signature_fields_ok (signed_release lib private msg)"
  using utf8_ascii [OF b64encode_ascii] by (simp add: signature_fields_ok_def signed_release_def sha256_bytes_is_hex)

lemma signed_release_simps:
  "sg_manifest_sha256 (signed_release lib private msg) = sha256_bytes msg"
  "public_key_b64 (signed_release lib private msg) = b64encode (public_bytes lib private)"
  "signer_key_sha256 (signed_release lib private msg) = sha256_bytes (public_bytes lib private)"
  "signature_b64 (signed_release lib private msg) = b64encode (ed_sign lib private msg)"
  by (simp_all add: signed_release_def)

lemma load_built_manifest:
  assumes "library_ok lib" "manifest_fields_ok m" "json_readable (float_text lib) (manifest_json m)"
    and "validate_manifest_files m = Inr files"
    and "dict_get dir ''manifest.json'' = Some (manifest_line m @ [newline_byte])"
    and "dict_get dir ''manifest.signature.json'' =
      Some (canonical_json_bytes (signature_json (signed_release lib private (manifest_line m))) @ [newline_byte])"
    and "signer_trust_status (sha256_bytes (public_bytes lib private)) trusted = Inr status"
  shows "load_verified_manifest lib dir trusted =
    Inr (m, signed_release lib private (manifest_line m), True, status)"
proof -
  let ?s = "signed_release lib private (manifest_line m)"
  have "parse_manifest lib (manifest_line m) = Inr m" using assms(1,2,3) by (simp add: library_ok_def)
  moreover have "parse_signature lib (canonical_json_bytes (signature_json ?s) @ [newline_byte]) = Inr ?s"
    using assms(1) signed_release_ok by (simp add: library_ok_def)
  moreover have "length (public_bytes lib private) = 32"
    "ed_verify lib (public_bytes lib private) (ed_sign lib private (manifest_line m)) (manifest_line m)"
    using assms(1) by (simp_all add: library_ok_def)
  ultimately show ?thesis
    using assms(4,5,6,7)
    by (simp add: load_verified_manifest_def read_file_def Let_def strip_manifest load_public_key_def
        check_signature_def b64decode_encode signed_release_simps del: bind_result_eq_Inr)
qed


lemma built_manifest_files:
  assumes "rm_files m = [jf, cf, pf]" "rf_name jf = ''records.json''" "media_type jf = ''application/json''"
    "rf_name cf = ''records.csv''" "media_type cf = ''text/csv''"
    "rf_name pf = ''records.parquet''" "media_type pf = ''application/vnd.apache.parquet''"
  shows "validate_manifest_files m =
    Inr [(''records.json'', jf), (''records.csv'', cf), (''records.parquet'', pf)]"
  using assms by (simp add: validate_manifest_files_def index_files_def dict_of_def Let_def
      expected_release_files_def dict_keys_def)

lemma verify_contents_valid:
  assumes "load_verified_manifest lib dir trusted = Inr (m, s, True, status)" "status \<noteq> Some False"
    and "validate_manifest_files m = Inr files"
    and "check_files files dir (map fst expected_release_files) =
      Inr (True, [(''records.json'', jb), (''records.csv'', cb), (''records.parquet'', pb)])"
    and "records_from_json lib jb = Inr rs" "records_from_csv lib cb = Inr rs" "records_from_parquet lib pb = Inr rs"
    and "formats_agree lib rs rs rs = Inr True" "root_matches m rs = Inr True"
  shows "verify_release lib dir trusted = Inr \<lparr>rv_release_id = Some (rm_release_id m), rv_valid = True,
    rv_signature_valid = True, file_hashes_valid = True, formats_equivalent = True, merkle_valid = True,
    rv_signer_key_sha256 = Some (signer_key_sha256 s), rv_signer_trusted = status, rv_error = None\<rparr>"
  using assms by (simp add: verify_release_def verify_contents_def row_value_def report_errors_def
      del: bind_result_eq_Inr)

lemma hex_utf8: "utf8_text (take n (hex bs))"
proof (rule utf8_ascii)
  have "list_all (\<lambda>c. (of_char c :: nat) < 128) ''0123456789abcdef''" by simp
  then show "list_all (\<lambda>c. (of_char c :: nat) < 128) (take n (hex bs))"
    using hex_lower [of bs] set_take_subset [of n "hex bs"] unfolding list_all_iff by blast
qed

lemma release_id_ascii: "utf8_text (release_id_of election root)"
  unfolding release_id_of_def hash_record_def sha256_bytes_def
  by (rule utf8_text_append [OF utf8_ascii hex_utf8]) simp

lemma merkle_root_facts:
  assumes "merkle_root records = Inr root"
  shows "is_sha256_hex root" "records \<noteq> []"
proof -
  have "is_sha256_hex (hex (tree_root (map leaf_hash os)))" if "os \<noteq> []" for os
  proof -
    have "length (tree_root (map leaf_hash os)) = 32"
      using tree_root_where [of "map leaf_hash os"] that by (auto simp: leaf_hash_def)
    then show ?thesis using hex_lower by (simp add: is_sha256_hex_def)
  qed
  then show "is_sha256_hex root" using assms by (auto simp: merkle_root_def ordered_records_Inr split: if_splits)
  show "records \<noteq> []" using assms by (auto simp: merkle_root_def ordered_records_Inr split: if_splits)
qed

lemma formats_agree_same:
  assumes "library_ok lib" "distinct (map record_sort_key records)" "list_all (document_ok lib) records"
  defines "rs \<equiv> map canonical_record (sort_key record_sort_key records)"
  shows "formats_agree lib rs rs rs = Inr True"
proof -
  have "list_all (document_ok lib) rs"
    using assms(3) canonical_document by (auto simp: rs_def list_all_iff)
  note doc = release_document_ok [OF this]
  have "record_dicts rs = Inr (map release_record_json rs)"
    using ordered_canonical [OF assms(2)] by (simp add: record_dicts_def rs_def)
  then show ?thesis using py_eq_refl [OF assms(1) doc(1,2)]
    by (simp add: formats_agree_def del: py_eq.simps bind_result_eq_Inr)
qed

lemma built_manifest_fields:
  assumes "build_release lib private election records dir = Inr (m, dir')" "list_all (exportable lib) records"
    and "utf8_text election"
  shows "manifest_fields_ok m" "is_sha256_hex (rm_merkle_root m)" "rm_election_id m = election"
proof -
  obtain root jb cb pb where b: "encoded_root records = Inr root" "jb \<noteq> []" "cb \<noteq> []" "pb \<noteq> []"
    and m: "m = \<lparr>rm_release_id = release_id_of election root, rm_election_id = election,
       record_count = int (length records), rm_merkle_root = root, rm_files =
        [\<lparr>rf_name = ''records.json'', media_type = ''application/json'', rf_sha256 = sha256_bytes jb, size_bytes = int (length jb)\<rparr>,
         \<lparr>rf_name = ''records.csv'', media_type = ''text/csv'', rf_sha256 = sha256_bytes cb, size_bytes = int (length cb)\<rparr>,
         \<lparr>rf_name = ''records.parquet'', media_type = ''application/vnd.apache.parquet'', rf_sha256 = sha256_bytes pb,
          size_bytes = int (length pb)\<rparr>]\<rparr>"
    using assms(1) by (rule build_release_Inr)
  have root: "merkle_root records = Inr root" using b(1) by (simp add: encoded_root_def split: if_splits)
  have "utf8_text (release_id_of election root)" by (rule release_id_ascii)
  then show "manifest_fields_ok m"
    using b root assms(3) by (simp add: m manifest_fields_ok_def file_fields_ok_def sha256_bytes_is_hex utf8_ascii
        merkle_root_facts Suc_le_eq)
  show "is_sha256_hex (rm_merkle_root m)" "rm_election_id m = election" using merkle_root_facts [OF root] by (simp_all add: m)
qed

lemma built_verifies:
  assumes "build_release lib private election records dir = Inr (m, dir')"
    and "list_all (exportable lib) records" "utf8_text election"
    and "library_ok lib" "json_readable (float_text lib) (manifest_json m)"
    and "signer_trust_status (sha256_bytes (public_bytes lib private)) trusted = Inr status" "status \<noteq> Some False"
  shows "verify_release lib dir' trusted = Inr \<lparr>rv_release_id = Some (rm_release_id m), rv_valid = True,
      rv_signature_valid = True, file_hashes_valid = True, formats_equivalent = True, merkle_valid = True,
      rv_signer_key_sha256 = Some (sha256_bytes (public_bytes lib private)), rv_signer_trusted = status, rv_error = None\<rparr>
    \<and> merkle_root records = Inr (rm_merkle_root m) \<and> record_count m = int (length records)"
proof -
  obtain root jb cb pb where b: "encoded_root records = Inr root" "json_bytes records = Inr jb"
    "csv_bytes records = Inr cb" "parquet_bytes lib records = Inr pb" "jb \<noteq> []" "cb \<noteq> []" "pb \<noteq> []"
    and m: "m = \<lparr>rm_release_id = release_id_of election root, rm_election_id = election,
       record_count = int (length records), rm_merkle_root = root, rm_files =
        [\<lparr>rf_name = ''records.json'', media_type = ''application/json'', rf_sha256 = sha256_bytes jb, size_bytes = int (length jb)\<rparr>,
         \<lparr>rf_name = ''records.csv'', media_type = ''text/csv'', rf_sha256 = sha256_bytes cb, size_bytes = int (length cb)\<rparr>,
         \<lparr>rf_name = ''records.parquet'', media_type = ''application/vnd.apache.parquet'', rf_sha256 = sha256_bytes pb,
          size_bytes = int (length pb)\<rparr>]\<rparr>"
    and files: "dict_get dir' ''records.json'' = Some jb" "dict_get dir' ''records.csv'' = Some cb"
    "dict_get dir' ''records.parquet'' = Some pb" "dict_get dir' ''manifest.json'' = Some (manifest_line m @ [newline_byte])"
    "dict_get dir' ''manifest.signature.json'' =
      Some (canonical_json_bytes (signature_json (signed_release lib private (manifest_line m))) @ [newline_byte])"
    using assms(1) by (rule build_release_Inr)
  let ?rs = "map canonical_record (sort_key record_sort_key records)"
  have d: "distinct (map record_sort_key records)" using b(2) by (rule json_bytes_Inr)
  have docs: "list_all (document_ok lib) records" using assms(2) by (rule exportable_documents)
  have root: "merkle_root records = Inr root" using b(1) by (simp add: encoded_root_def split: if_splits)
  have read: "records_from_json lib jb = Inr ?rs" "records_from_csv lib cb = Inr ?rs" "records_from_parquet lib pb = Inr ?rs"
    using exports_read_back [OF d assms(2)] b(2,3,4) assms(4) by (simp_all add: library_ok_def)
  have fields: "manifest_fields_ok m" by (rule built_manifest_fields [OF assms(1-3)])
  obtain mf where mf: "validate_manifest_files m = Inr mf" "mf = zip (map fst expected_release_files) (rm_files m)"
    using built_manifest_files [of m] by (simp add: m expected_release_files_def)
  have check: "check_files mf dir' (map fst expected_release_files) =
      Inr (True, [(''records.json'', jb), (''records.csv'', cb), (''records.parquet'', pb)])"
    by (simp add: mf(2) m expected_release_files_def read_file_def file_matches_def row_value_def files
        del: bind_result_eq_Inr)
  have formats: "formats_agree lib ?rs ?rs ?rs = Inr True"
    using formats_agree_same [OF assms(4) d docs] .
  have "root_matches m ?rs = Inr True"
    using root_canonical [OF docs root] by (simp add: root_matches_def m)
  from verify_contents_valid [OF load_built_manifest [OF assms(4) fields assms(5) mf(1) files(4,5) assms(6)]
      assms(7) mf(1) check read formats this]
  show ?thesis using root by (simp add: signed_release_simps m)
qed

text \<open>C14. A release that \<open>build_release\<close> wrote from records that every format can carry (\<open>exportable\<close>, as for the
  exports) is accepted by \<open>verify_release\<close>, with every single check passing, when no trusted signers are given or the
  signer is one of them; its manifest carries the Merkle root and the number of the records. The election id is UTF-8
  and the manifest a document that can be read back. A release with a longer payload is built too, but its
  verification raises in \<open>csv.reader\<close>.\<close>

theorem built_release_verifies:
  assumes "build_release lib private election records dir = Inr (m, dir')"
    and "list_all (exportable lib) records" "utf8_text election"
    and "library_ok lib" "json_readable (float_text lib) (manifest_json m)"
    and "signer_trust_status (sha256_bytes (public_bytes lib private)) trusted = Inr status" "status \<noteq> Some False"
  shows "verify_release lib dir' trusted = Inr \<lparr>rv_release_id = Some (rm_release_id m), rv_valid = True,
      rv_signature_valid = True, file_hashes_valid = True, formats_equivalent = True, merkle_valid = True,
      rv_signer_key_sha256 = Some (sha256_bytes (public_bytes lib private)), rv_signer_trusted = status, rv_error = None\<rparr>
    \<and> merkle_root records = Inr (rm_merkle_root m) \<and> record_count m = int (length records)"
  using assms by (rule built_verifies)

end
