(* ===== verification/Release_Demo.thy ===== *)
theory Release_Demo
  imports Release_Exports
begin

section \<open>A concrete library\<close>

text \<open>Parquet as terminated texts, three to a row; signatures as keyed hashes; the manifest and the signature
  read with \<open>json.loads\<close>.\<close>

definition frame_text :: "string \<Rightarrow> byte list" where
  "frame_text s = concat (map (\<lambda>b. [1, b]) (utf8 s)) @ [0]"

fun unframe :: "byte list \<Rightarrow> byte list \<Rightarrow> string list" where
  "unframe acc [] = []"
| "unframe acc (t # bs) =
     (if t = 0 then bytes_text acc # unframe [] bs
      else (case bs of [] \<Rightarrow> [] | b # rest \<Rightarrow> unframe (acc @ [b]) rest))"

fun text_rows :: "string list \<Rightarrow> (string \<times> string \<times> string) list" where
  "text_rows (a # b # c # rest) = (a, b, c) # text_rows rest"
| "text_rows _ = []"

definition demo_parquet_write :: "(string \<times> string \<times> string) list \<Rightarrow> byte list" where
  "demo_parquet_write rows = concat (map (\<lambda>(a, b, c). frame_text a @ frame_text b @ frame_text c) rows)"

definition demo_parquet_read :: "byte list \<Rightarrow> cell dict list result" where
  "demo_parquet_read bs = return (map parquet_row (text_rows (unframe [] bs)))"

definition doc_text :: "json dict \<Rightarrow> string \<Rightarrow> string result" where
  "doc_text kvs k = (case dict_get kvs k of Some (JStr s) \<Rightarrow> return s | _ \<Rightarrow> raise field_error)"

definition doc_int :: "json dict \<Rightarrow> string \<Rightarrow> int result" where
  "doc_int kvs k = (case dict_get kvs k of Some (JInt i) \<Rightarrow> return i | _ \<Rightarrow> raise field_error)"

definition read_file_json :: "json \<Rightarrow> release_file result" where
  "read_file_json v = (case v of
       JObj kvs \<Rightarrow> bind_result (doc_text kvs ''name'') (\<lambda>name. bind_result (doc_text kvs ''media_type'') (\<lambda>media.
         bind_result (doc_text kvs ''sha256'') (\<lambda>sha. bind_result (doc_int kvs ''size_bytes'') (\<lambda>size.
           return \<lparr>rf_name = name, media_type = media, rf_sha256 = sha, size_bytes = size\<rparr>))))
     | _ \<Rightarrow> raise field_error)"

definition read_manifest_json :: "json \<Rightarrow> release_manifest result" where
  "read_manifest_json v = (case v of
       JObj kvs \<Rightarrow> (case dict_get kvs ''files'' of
           Some (JArr fs) \<Rightarrow>
             bind_result (doc_text kvs ''release_id'') (\<lambda>rid. bind_result (doc_text kvs ''election_id'') (\<lambda>election.
             bind_result (doc_int kvs ''record_count'') (\<lambda>n. bind_result (doc_text kvs ''merkle_root'') (\<lambda>root.
             bind_result (map_result read_file_json fs) (\<lambda>files.
               return \<lparr>rm_release_id = rid, rm_election_id = election, record_count = n, rm_merkle_root = root,
                 rm_files = files\<rparr>)))))
         | _ \<Rightarrow> raise field_error)
     | _ \<Rightarrow> raise field_error)"

definition read_signature_json :: "json \<Rightarrow> release_signature result" where
  "read_signature_json v = (case v of
       JObj kvs \<Rightarrow> bind_result (doc_text kvs ''manifest_sha256'') (\<lambda>msha. bind_result (doc_text kvs ''public_key_b64'') (\<lambda>pk.
         bind_result (doc_text kvs ''signer_key_sha256'') (\<lambda>ksha. bind_result (doc_text kvs ''signature_b64'') (\<lambda>sig.
           return \<lparr>sg_manifest_sha256 = msha, public_key_b64 = pk, signer_key_sha256 = ksha, signature_b64 = sig\<rparr>))))
     | _ \<Rightarrow> raise field_error)"

definition demo_parse :: "(json \<Rightarrow> 'a result) \<Rightarrow> byte list \<Rightarrow> 'a result" where
  "demo_parse f bs = bind_result (decode_utf8 bs) (\<lambda>text. bind_result (json_loads (\<lambda>s. s) text) f)"

definition demo_release_library :: release_library where
  "demo_release_library = \<lparr>float_text = (\<lambda>s. s), float_eq = (=), float_eq_int = (\<lambda>_ _. False),
     loads_bytes = (\<lambda>_. raise (TypeError [])), parquet_write = demo_parquet_write, parquet_read = demo_parquet_read,
     parse_manifest = demo_parse read_manifest_json, parse_signature = demo_parse read_signature_json,
     public_bytes = sha256, ed_sign = (\<lambda>k msg. sha256 (sha256 k @ msg)),
     ed_verify = (\<lambda>pk sig msg. sig = sha256 (pk @ msg))\<rparr>"

lemma unframe_text: "unframe acc (frame_text s @ bs) = (bytes_text acc @ s) # unframe [] bs"
proof (induction s arbitrary: acc)
  case (Cons c s)
  have "bytes_text (acc @ [word_of_nat (of_char c)]) = bytes_text acc @ [c]"
    using bytes_text_utf8 [of "[c]"] by (simp add: bytes_text_def utf8_def)
  then show ?case using Cons [of "acc @ [word_of_nat (of_char c)]"] by (simp add: frame_text_def utf8_def)
qed (simp add: frame_text_def utf8_def)

lemma demo_parquet: "text_rows (unframe [] (demo_parquet_write rows)) = rows"
  by (induction rows) (auto simp: demo_parquet_write_def unframe_text bytes_text_def)

lemma demo_parse_canonical:
  assumes "json_ok v" "json_readable (\<lambda>s. s) v" "json_strings_ok v" "4 \<le> json_kind v"
  shows "demo_parse f (canonical_json_bytes v) = f (sort_json v)"
    "demo_parse f (canonical_json_bytes v @ [newline_byte]) = f (sort_json v)"
proof -
  have nl: "utf8_text (canonical_json_text v @ [CHR 0x0A])"
    using utf8_canonical [OF assms(1,3)] by (rule utf8_text_append) (simp add: utf8_ascii)
  show "demo_parse f (canonical_json_bytes v) = f (sort_json v)"
    using utf8_canonical [OF assms(1,3)] json_loads_canonical [OF assms(1,2)]
    by (simp add: demo_parse_def canonical_json_bytes_def decode_utf8_utf8)
  show "demo_parse f (canonical_json_bytes v @ [newline_byte]) = f (sort_json v)"
    using nl json_loads_line [OF assms(1,2,4)] by (simp add: demo_parse_def line_bytes decode_utf8_utf8)
qed

lemma hex_text_utf8: "is_sha256_hex s \<Longrightarrow> utf8_text s"
proof (rule utf8_ascii)
  assume "is_sha256_hex s"
  moreover have "list_all (\<lambda>c. (of_char c :: nat) < 128) ''0123456789abcdef''" by simp
  ultimately show "list_all (\<lambda>c. (of_char c :: nat) < 128) s" unfolding is_sha256_hex_def list_all_iff by blast
qed

lemma ascii_words:
  "utf8_text ''name''" "utf8_text ''media_type''" "utf8_text ''sha256''" "utf8_text ''size_bytes''"
  "utf8_text ''schema_version''" "utf8_text ''release_id''" "utf8_text ''election_id''" "utf8_text ''record_count''"
  "utf8_text ''merkle_algorithm''" "utf8_text ''merkle_root''" "utf8_text ''files''" "utf8_text ''1''"
  "utf8_text ''sha256-canonical-json-v1''" "utf8_text ''algorithm''" "utf8_text ''manifest_sha256''"
  "utf8_text ''public_key_b64''" "utf8_text ''signer_key_sha256''" "utf8_text ''signature_b64''" "utf8_text ''Ed25519''"
  by (rule utf8_ascii, simp)+

lemma read_sorted:
  assumes "distinct (map fst kvs)"
  shows "doc_text (sort_key fst (map (\<lambda>(k, v). (k, sort_json v)) kvs)) k = doc_text kvs k"
    "doc_int (sort_key fst (map (\<lambda>(k, v). (k, sort_json v)) kvs)) k = doc_int kvs k"
  by (auto simp: doc_text_def doc_int_def dict_get_sort_json [OF assms] split: option.splits json.splits
      elim: sort_json.elims)


lemma read_file_sorted: "read_file_json (sort_json (file_json f)) = Inr f"
proof -
  let ?kvs = "[(''name'', JStr (rf_name f)), (''media_type'', JStr (media_type f)),
     (''sha256'', JStr (rf_sha256 f)), (''size_bytes'', JInt (size_bytes f))]"
  have d: "distinct (map fst ?kvs)" by simp
  show ?thesis
    unfolding file_json_def sort_json.simps read_file_json_def json.case read_sorted [OF d]
    by (simp add: doc_text_def doc_int_def)
qed

lemma read_manifest_sorted: "read_manifest_json (sort_json (manifest_json m)) = Inr m"
proof -
  let ?kvs = "[(''schema_version'', JStr ''1''), (''release_id'', JStr (rm_release_id m)),
     (''election_id'', JStr (rm_election_id m)), (''record_count'', JInt (record_count m)),
     (''merkle_algorithm'', JStr ''sha256-canonical-json-v1''), (''merkle_root'', JStr (rm_merkle_root m)),
     (''files'', JArr (map file_json (rm_files m)))]"
  have d: "distinct (map fst ?kvs)" by simp
  have "map_result read_file_json (map (sort_json \<circ> file_json) (rm_files m)) = Inr (rm_files m)"
    by (simp add: map_result_Inr list_all2_conv_all_nth read_file_sorted)
  then show ?thesis
    unfolding manifest_json_def sort_json.simps(2) read_manifest_json_def json.case read_sorted [OF d]
      dict_get_sort_json [OF d]
    by (simp add: doc_text_def doc_int_def)
qed

lemma read_signature_sorted: "read_signature_json (sort_json (signature_json s)) = Inr s"
proof -
  let ?kvs = "[(''algorithm'', JStr ''Ed25519''), (''manifest_sha256'', JStr (sg_manifest_sha256 s)),
     (''public_key_b64'', JStr (public_key_b64 s)), (''signer_key_sha256'', JStr (signer_key_sha256 s)),
     (''signature_b64'', JStr (signature_b64 s))]"
  have d: "distinct (map fst ?kvs)" by simp
  show ?thesis
    unfolding signature_json_def sort_json.simps(2) read_signature_json_def json.case read_sorted [OF d]
    by (simp add: doc_text_def)
qed

lemma demo_library_ok: "library_ok demo_release_library"
proof -
  have "parquet_faithful demo_release_library"
    by (simp add: parquet_faithful_def demo_release_library_def demo_parquet_read_def demo_parquet)
  moreover have "parse_manifest demo_release_library (manifest_line m) = Inr m"
    if "manifest_fields_ok m" "json_readable (\<lambda>s. s) (manifest_json m)" for m
  proof -
    have "json_ok (manifest_json m)" "json_strings_ok (manifest_json m)" "4 \<le> json_kind (manifest_json m)"
      using that(1) by (auto simp: manifest_json_def manifest_fields_ok_def file_json_def file_fields_ok_def
          list_all_iff ascii_words hex_text_utf8)
    then show ?thesis using that(2)
      by (simp add: demo_release_library_def manifest_line_def demo_parse_canonical read_manifest_sorted)
  qed
  moreover have "parse_signature demo_release_library (canonical_json_bytes (signature_json s) @ [newline_byte]) = Inr s"
    if "signature_fields_ok s" for s
  proof -
    have "json_ok (signature_json s)" "json_strings_ok (signature_json s)" "4 \<le> json_kind (signature_json s)"
      "json_readable (\<lambda>s. s) (signature_json s)"
      using that by (auto simp: signature_json_def signature_fields_ok_def ascii_words hex_text_utf8)
    then show ?thesis by (simp add: demo_release_library_def demo_parse_canonical read_signature_sorted)
  qed
  ultimately show ?thesis by (simp add: library_ok_def demo_release_library_def)
qed

text \<open>One record whose payload needs quoting in the CSV.\<close>

definition demo_release_record :: release_record where
  "demo_release_record = \<lparr>record_type = evidence_version_record, release_key = ''bp:1'',
     release_payload = [(''b'', JInt 2), (''a'', JStr ''x,y'')]\<rparr>"

lemma demo_lengths:
  "length (canonical_payload demo_release_record) = 17"
  "length (canonical_json_text (JArr [release_record_json demo_release_record])) = 84"
  "length (concat (map csv_row [csv_header, csv_fields demo_release_record])) = 84"
  "length (demo_parquet_write [(record_type_text (record_type demo_release_record),
     release_key demo_release_record, canonical_payload demo_release_record)]) = 77"
  by code_simp+

lemma demo_exportable: "exportable demo_release_library demo_release_record"
proof -
  have "utf8_text ''a''" "utf8_text ''b''" "utf8_text ''x,y''" "utf8_text ''bp:1''" by (rule utf8_ascii, simp)+
  moreover have "length (nat_str 2) \<le> 4300" by (simp add: nat_str.simps)
  moreover have "text_length (canonical_payload demo_release_record) \<le> csv_limit"
    by (rule short_text) (simp add: demo_lengths csv_limit_def)
  moreover have "text_length ''bp:1'' \<le> csv_limit" by (rule short_text) (simp add: csv_limit_def)
  ultimately show ?thesis by (simp add: exportable_def document_ok_def demo_release_record_def)
qed

theorem release_exports_roundtrip_witness:
  "bind_result (csv_bytes [demo_release_record]) (records_from_csv demo_release_library) =
     Inr [canonical_record demo_release_record]"
  using release_exports_roundtrip [of "[demo_release_record]" demo_release_library] demo_exportable demo_library_ok
  by (simp add: library_ok_def)


lemma length_nat_str: "length (nat_str n) \<le> Suc n"
proof (induction n rule: nat_str.induct)
  case (1 n)
  show ?case
  proof (cases "n < 10")
    case False
    then have "length (nat_str (n div 10)) \<le> Suc (n div 10)" using 1 by simp
    with False show ?thesis by (subst nat_str.simps) simp
  qed (simp add: nat_str.simps)
qed

lemma lower_hex: "is_sha256_hex s \<Longrightarrow> map lower_char s = s"
proof (rule map_idI)
  fix c
  assume "is_sha256_hex s" "c \<in> set s"
  moreover have "\<forall>d \<in> set ''0123456789abcdef''. lower_char d = d" by (simp add: lower_char_def)
  ultimately show "lower_char c = c" unfolding is_sha256_hex_def list_all_iff by blast
qed

text \<open>The build of one record with small exports, for any private key.\<close>

lemma single_build:
  assumes "exportable demo_release_library r"
    and "length (canonical_json_text (JArr [release_record_json r])) \<le> 1000"
    and "length (concat (map csv_row [csv_header, csv_fields r])) \<in> {1..1000}"
    and "length (demo_parquet_write [(record_type_text (record_type r), release_key r, canonical_payload r)]) \<in> {1..1000}"
  shows "\<exists>m dir. build_release demo_release_library key ''E'' [r] [] = Inr (m, dir)
     \<and> json_readable (float_text demo_release_library) (manifest_json m)"
proof -
  have ord: "ordered_records [r] = Inr [r]" by (simp add: ordered_records_Inr)
  have root: "encoded_root [r] = merkle_root [r]"
    using assms(1) by (simp add: encoded_root_def exportable_def document_ok_def)
  have small: "length (nat_str n) \<le> 4300" if "n \<le> 1001" for n
    using length_nat_str [of n] that by linarith
  obtain root where r: "merkle_root [r] = Inr root" by (simp add: merkle_root_def ord)
  obtain jb where jb: "json_bytes [r] = Inr jb" "length jb \<in> {1..1001}"
    using assms(2) by (simp add: json_bytes_def record_dicts_def ord canonical_json_bytes_def)
  obtain cb where cb: "csv_bytes [r] = Inr cb" "length cb \<in> {1..1000}"
    using assms(3) by (simp add: csv_bytes_def ord)
  obtain pb where pb: "parquet_bytes demo_release_library [r] = Inr pb" "length pb \<in> {1..1000}"
    using assms(4) by (simp add: parquet_bytes_def ord demo_release_library_def)
  have "jb \<noteq> []" "cb \<noteq> []" "pb \<noteq> []" using jb(2) cb(2) pb(2) by auto
  moreover have "length (nat_str (length jb)) \<le> 4300" "length (nat_str (length cb)) \<le> 4300"
    "length (nat_str (length pb)) \<le> 4300" "length (nat_str 1) \<le> 4300"
    using jb(2) cb(2) pb(2) by (auto intro!: small)
  ultimately show ?thesis
    by (simp add: build_release_def root r jb(1) cb(1) pb(1) file_entry_def Let_def manifest_json_def file_json_def
        del: bind_result_eq_Inr)
qed

lemma demo_build:
  "\<exists>m dir. build_release demo_release_library key ''E'' [demo_release_record] [] = Inr (m, dir)
     \<and> json_readable (float_text demo_release_library) (manifest_json m)"
  by (rule single_build) (simp_all only: demo_exportable demo_lengths, simp_all)

theorem built_release_verifies_witness:
  "\<exists>m dir v. build_release demo_release_library [1, 2, 3] ''E'' [demo_release_record] [] = Inr (m, dir)
     \<and> verify_release demo_release_library dir (Some [sha256_bytes (public_bytes demo_release_library [1, 2, 3])]) = Inr v
     \<and> rv_valid v"
proof -
  obtain m dir where b: "build_release demo_release_library [1, 2, 3] ''E'' [demo_release_record] [] = Inr (m, dir)"
    "json_readable (float_text demo_release_library) (manifest_json m)"
    using demo_build by blast
  let ?t = "Some [sha256_bytes (public_bytes demo_release_library [1, 2, 3])]"
  have "signer_trust_status (sha256_bytes (public_bytes demo_release_library [1, 2, 3])) ?t = Inr (Some True)"
    by (simp add: signer_trust_status_def lower_hex sha256_bytes_is_hex)
  then show ?thesis
    using built_release_verifies [OF b(1) _ _ demo_library_ok b(2)] b(1) demo_exportable
    by (auto simp: utf8_ascii)
qed

end
