(* ===== verification/Release_Trust.thy ===== *)
theory Release_Trust
  imports Release_Demo Release_Publish
begin

text \<open>
  What an accepted verification of a release directory establishes: the manifest is signed by a trusted key, the
  export files are the ones it names, and the records have its Merkle root.
\<close>

lemma report_errors_Inr:
  "report_errors f res = Inr v \<longleftrightarrow> res = Inr v \<or> (\<exists>e. res = Inl e \<and> caught e \<and> v = f e)"
  by (cases res) (auto simp: report_errors_def)

lemma load_verified_manifest_Inr:
  assumes "load_verified_manifest lib dir trusted = Inr (m, s, sound, status)"
  obtains c files key signed where
    "dict_get dir ''manifest.json'' = Some c" "parse_manifest lib (strip_newlines c) = Inr m"
    "validate_manifest_files m = Inr files" "b64decode (public_key_b64 s) = Inr key"
    "sound \<longleftrightarrow> sha256_bytes (strip_newlines c) = sg_manifest_sha256 s \<and> sha256_bytes key = signer_key_sha256 s"
    "ed_verify lib key signed (strip_newlines c)" "signer_trust_status (signer_key_sha256 s) trusted = Inr status"
  using assms by (auto simp: load_verified_manifest_def Let_def read_file_def load_public_key_def check_signature_def
      split: option.splits if_splits)

lemma check_files_valid:
  "check_files files dir names = Inr (True, contents) \<Longrightarrow> name \<in> set names \<Longrightarrow>
     \<exists>content item. dict_get dir name = Some content \<and> dict_get files name = Some item
       \<and> sha256_bytes content = rf_sha256 item"
proof (induction names arbitrary: contents)
  case (Cons n names)
  then obtain content match rest_valid rest where h: "dict_get dir n = Some content"
    "file_matches files n content = Inr match" "check_files files dir names = Inr (rest_valid, rest)"
    "match" "rest_valid"
    by (auto simp: read_file_def split: option.splits)
  have "\<exists>item. dict_get files n = Some item \<and> sha256_bytes content = rf_sha256 item"
    using h(2,4) by (auto simp: file_matches_def row_value_def split: option.splits)
  then show ?case using h Cons by auto
qed simp

lemma check_files_contents:
  "check_files files dir names = Inr (ok, contents) \<Longrightarrow> name \<in> set names \<Longrightarrow> dict_get contents name = dict_get dir name"
  by (induction names arbitrary: ok contents) (auto simp: read_file_def split: option.splits)

lemma verify_release_valid:
  assumes "verify_release lib dir trusted = Inr v" "rv_valid v"
  obtains c m files key signed fingerprint status js where
    "dict_get dir ''manifest.json'' = Some c" "parse_manifest lib (strip_newlines c) = Inr m"
    "validate_manifest_files m = Inr files" "ed_verify lib key signed (strip_newlines c)"
    "signer_trust_status (sha256_bytes key) trusted = Inr status" "status \<noteq> Some False"
    "\<And>name. name \<in> set (map fst expected_release_files) \<Longrightarrow> \<exists>content item. dict_get dir name = Some content
      \<and> dict_get files name = Some item \<and> sha256_bytes content = rf_sha256 item"
    "bind_result (read_file dir ''records.json'') (records_from_json lib) = Inr js"
    "merkle_root js = Inr (rm_merkle_root m)" "record_count m = int (length js)"
proof -
  have "verify_contents lib dir trusted = Inr v"
    using assms by (auto simp: verify_release_def report_errors_Inr)
  then obtain m s sound status files contents js cs ps where
    l: "load_verified_manifest lib dir trusted = Inr (m, s, sound, status)" "sound" "status \<noteq> Some False"
    and f: "validate_manifest_files m = Inr files"
    and ch: "check_files files dir (map fst expected_release_files) = Inr (True, contents)"
    and js: "bind_result (row_value contents ''records.json'') (records_from_json lib) = Inr js"
    and root: "root_matches m js = Inr True"
    using assms(2) by (auto simp: verify_contents_def simp del: check_files.simps)
  obtain c key signed where c: "dict_get dir ''manifest.json'' = Some c" "parse_manifest lib (strip_newlines c) = Inr m"
    "sha256_bytes key = signer_key_sha256 s" "ed_verify lib key signed (strip_newlines c)"
    "signer_trust_status (signer_key_sha256 s) trusted = Inr status"
    using l(1,2) by (auto elim: load_verified_manifest_Inr)
  have "dict_get contents ''records.json'' = dict_get dir ''records.json''"
    using ch by (rule check_files_contents) (simp add: expected_release_files_def)
  then have js': "bind_result (read_file dir ''records.json'') (records_from_json lib) = Inr js"
    using js by (auto simp: read_file_def row_value_def split: option.splits)
  have r: "merkle_root js = Inr (rm_merkle_root m)" "record_count m = int (length js)"
    using root by (auto simp: root_matches_def encoded_root_def split: if_splits)
  from that [OF c(1,2) f c(4) _ l(3) check_files_valid [OF ch] js' r] c(3,5) show ?thesis by simp
qed

text \<open>C16. A directory that verifies against trusted signers has a manifest that carries a signature of a trusted
  key, and the records of its JSON export have the Merkle root and number that the manifest names. Any other
  directory that verifies with a manifest of the same hash has byte for byte the same export files, unless SHA-256
  collides: the manifest hash, under which releases are published, stands for all of the release.\<close>

theorem verified_release_is_bound:
  assumes "verify_release lib dir (Some fingerprints) = Inr v" "rv_valid v"
    and "verify_release lib dir' trusted' = Inr v'" "rv_valid v'"
    and "dict_get dir ''manifest.json'' = Some c" "dict_get dir' ''manifest.json'' = Some c'"
    and "sha256_bytes (strip_newlines c) = sha256_bytes (strip_newlines c')"
    and "collision_free {strip_newlines c, strip_newlines c'}"
    and "list_all (\<lambda>name. collision_free (set_option (dict_get dir name) \<union> set_option (dict_get dir' name)))
      (map fst expected_release_files)"
  shows "(\<exists>key signed. sha256_bytes key \<in> map lower_char ` set fingerprints \<and> ed_verify lib key signed (strip_newlines c))
    \<and> (\<exists>m js. parse_manifest lib (strip_newlines c) = Inr m
        \<and> bind_result (read_file dir ''records.json'') (records_from_json lib) = Inr js
        \<and> merkle_root js = Inr (rm_merkle_root m) \<and> int (length js) = record_count m)
    \<and> list_all (\<lambda>name. dict_get dir name \<noteq> None \<and> dict_get dir' name = dict_get dir name)
        (map fst expected_release_files)"
proof -
  obtain m files key signed status js where a: "parse_manifest lib (strip_newlines c) = Inr m"
    "validate_manifest_files m = Inr files" "ed_verify lib key signed (strip_newlines c)"
    "signer_trust_status (sha256_bytes key) (Some fingerprints) = Inr status" "status \<noteq> Some False"
    "\<And>name. name \<in> set (map fst expected_release_files) \<Longrightarrow> \<exists>content item. dict_get dir name = Some content
      \<and> dict_get files name = Some item \<and> sha256_bytes content = rf_sha256 item"
    "bind_result (read_file dir ''records.json'') (records_from_json lib) = Inr js"
    "merkle_root js = Inr (rm_merkle_root m)" "record_count m = int (length js)"
    by (rule verify_release_valid [OF assms(1,2)]) (use assms(5) in auto)
  obtain m' files' where b: "parse_manifest lib (strip_newlines c') = Inr m'" "validate_manifest_files m' = Inr files'"
    "\<And>name. name \<in> set (map fst expected_release_files) \<Longrightarrow> \<exists>content item. dict_get dir' name = Some content
      \<and> dict_get files' name = Some item \<and> sha256_bytes content = rf_sha256 item"
    by (rule verify_release_valid [OF assms(3,4)]) (use assms(6) in auto)
  have "strip_newlines c = strip_newlines c'"
    by (rule collision_freeD [OF assms(8)]) (use assms(7) in \<open>simp_all add: sha256_bytes_eq\<close>)
  then have "files' = files" using a(1,2) b(1,2) by simp
  have "dict_get dir name \<noteq> None \<and> dict_get dir' name = dict_get dir name"
    if n: "name \<in> set (map fst expected_release_files)" for name
  proof -
    obtain x y where xy: "dict_get dir name = Some x" "dict_get dir' name = Some y" "sha256_bytes x = sha256_bytes y"
      using a(6) [OF n] b(3) [OF n] \<open>files' = files\<close> by auto
    have "collision_free (set_option (dict_get dir name) \<union> set_option (dict_get dir' name))"
      using assms(9) n unfolding list_all_iff by blast
    then have "collision_free {x, y}" unfolding xy(1,2) by (simp add: insert_commute)
    then have "x = y" using xy(3) collision_freeD [of "{x, y}" x y] unfolding sha256_bytes_eq by blast
    then show ?thesis using xy by simp
  qed
  moreover have "sha256_bytes key \<in> map lower_char ` set fingerprints"
    using a(4,5) by (auto simp: signer_trust_status_def split: if_splits)
  ultimately show ?thesis using a(1,3,7,8,9) by (auto simp: list_all_iff)
qed


text \<open>The hypotheses hold for the release of the concrete library, verified by its signer and by nobody in
  particular.\<close>

theorem verified_release_is_bound_witness:
  "\<exists>dir v key signed c. verify_release demo_release_library dir
       (Some [sha256_bytes (public_bytes demo_release_library [1, 2, 3])]) = Inr v \<and> rv_valid v
     \<and> dict_get dir ''manifest.json'' = Some c
     \<and> sha256_bytes key = sha256_bytes (public_bytes demo_release_library [1, 2, 3])
     \<and> ed_verify demo_release_library key signed (strip_newlines c)"
proof -
  let ?fp = "sha256_bytes (public_bytes demo_release_library [1, 2, 3])"
  obtain m dir where b: "build_release demo_release_library [1, 2, 3] ''E'' [demo_release_record] [] = Inr (m, dir)"
    "json_readable (float_text demo_release_library) (manifest_json m)"
    using demo_build by blast
  have "signer_trust_status ?fp (Some [?fp]) = Inr (Some True)"
    by (simp add: signer_trust_status_def lower_hex sha256_bytes_is_hex)
  then obtain v where v: "verify_release demo_release_library dir (Some [?fp]) = Inr v" "rv_valid v"
    using built_verifies [OF b(1) _ _ demo_library_ok b(2)] demo_exportable by (auto simp: utf8_ascii)
  obtain c where c: "dict_get dir ''manifest.json'' = Some c" using b(1) by (auto elim: build_release_Inr)
  have "collision_free (set_option x \<union> set_option x)" for x :: "byte list option" by (cases x) (simp_all add: collision_free_def)
  then have free: "list_all (\<lambda>name. collision_free (set_option (dict_get dir name) \<union> set_option (dict_get dir name)))
      (map fst expected_release_files)" by (simp add: list_all_iff)
  have "\<exists>key signed. sha256_bytes key \<in> map lower_char ` set [?fp] \<and> ed_verify demo_release_library key signed (strip_newlines c)"
    using verified_release_is_bound [OF v v c c refl _ free] by simp
  then obtain key signed where k: "sha256_bytes key \<in> map lower_char ` set [?fp]"
    "ed_verify demo_release_library key signed (strip_newlines c)" by blast
  from k(1) have "sha256_bytes key = ?fp" by (simp add: lower_hex sha256_bytes_is_hex)
  then show ?thesis using v c k(2) by blast
qed


section \<open>Publishing the concrete release\<close>

lemma write_files_fresh:
  "distinct names \<Longrightarrow> \<forall>name \<in> set names. dict_get source name \<noteq> None \<and> dict_get d name = None \<Longrightarrow>
    \<exists>d'. write_files source names d = (d', None)"
proof (induction names arbitrary: d)
  case (Cons n names)
  then obtain content where c: "dict_get source n = Some content" by auto
  have "\<exists>d'. write_files source names (dict_set n content d) = (d', None)"
    using Cons by (intro Cons.IH) (auto simp: dict_get_set)
  then show ?case using Cons.prems(2) c by (auto simp: read_file_def immutable_write_def)
qed simp

lemma demo_publication:
  "\<exists>dir m p. publish_release demo_release_library dir None \<lparr>releases = [], checkpoints = []\<rparr> = (m, Inr p)"
proof -
  obtain m dir where b: "build_release demo_release_library [1, 2, 3] ''E'' [demo_release_record] [] = Inr (m, dir)"
    "json_readable (float_text demo_release_library) (manifest_json m)"
    using demo_build by blast
  have none: "signer_trust_status fp None = Inr None" for fp by (simp add: signer_trust_status_def)
  have req: "require_verified demo_release_library dir None = Inr ()"
    using built_verifies [OF b(1) _ _ demo_library_ok b(2) none] demo_exportable
    by (simp add: require_verified_def utf8_ascii)
  then obtain v where v: "verify_release demo_release_library dir None = Inr v" "rv_valid v"
    by (auto simp: require_verified_def split: if_splits)
  have files: "\<forall>name \<in> set published_files. dict_get dir name \<noteq> None"
    using b(1) by (rule build_release_Inr) (simp add: published_files_def expected_release_files_def)
  obtain sig where sig: "dict_get dir ''manifest.signature.json'' = Some sig"
    using files by (auto simp: published_files_def)
  from v obtain m' s sound status where l: "load_verified_manifest demo_release_library dir None = Inr (m', s, sound, status)"
    by (auto simp: verify_release_def report_errors_Inr verify_contents_def simp del: check_files.simps)
  then obtain inputs where i: "publication_inputs demo_release_library dir None = Inr inputs"
    by (auto simp: publication_inputs_def req load_verified_manifest_def read_file_def Let_def split: option.splits)
  obtain sha manifest signature where t: "inputs = (sha, manifest, signature)" by (cases inputs)
  obtain d where "write_files dir published_files [] = (d, None)"
    using write_files_fresh [of published_files dir "[]"] files
    by (auto simp: published_files_def expected_release_files_def)
  then have "write_release dir sha \<lparr>releases = [], checkpoints = []\<rparr> =
      (\<lparr>releases = dict_set sha d [], checkpoints = []\<rparr>, None)"
    by (simp add: write_release_def Let_def dict_keys_Nil)
  then show ?thesis
    by (intro exI [of _ dir]) (simp add: publish_release_def i t write_checkpoint_def immutable_write_def)
qed

theorem publish_release_immutable_witness:
  "\<exists>dir m p. publish_release demo_release_library dir None \<lparr>releases = [], checkpoints = []\<rparr> = (m, Inr p)
     \<and> published m (pub_manifest_sha256 p) ''manifest.json'' = dict_get dir ''manifest.json''
     \<and> publish_release demo_release_library dir None m = (m, Inr p)"
proof -
  obtain dir m p where p: "publish_release demo_release_library dir None \<lparr>releases = [], checkpoints = []\<rparr> = (m, Inr p)"
    using demo_publication by blast
  have "''manifest.json'' \<in> set published_files" by (simp add: published_files_def)
  then show ?thesis
    using publish_release_immutable [where lib = demo_release_library and dir = dir and trusted = None
        and m = "\<lparr>releases = [], checkpoints = []\<rparr>"] p
    by (intro exI [of _ dir] exI [of _ m] exI [of _ p]) simp
qed

end
