(* ===== verification/Governance_Chain.thy ===== *)
theory Governance_Chain
  imports Governance Authentication Release_Trust
begin

text \<open>
  The key transparency log is a chained store, and the checkpoint chains that the store writes pass their own
  verification, as long as the clock moves forward between its operations.
\<close>

section \<open>The key log is a chained store\<close>

definition key_event_ok :: "release_key_event \<Rightarrow> bool" where
  "key_event_ok e \<longleftrightarrow> datetime_ok (ke_created_at e) \<and> offset_ok (ke_created_at e)"

text \<open>The hash part of \<open>check_key_events\<close>, and its fingerprint part.\<close>

fun key_event_failure :: "string option \<Rightarrow> release_key_event list \<Rightarrow> release_key_event option" where
  "key_event_failure previous_hash [] = None"
| "key_event_failure previous_hash (e # es) =
     (if ke_previous_hash e \<noteq> previous_hash \<or> ke_hash e \<noteq> hash_record (key_event_body e) then Some e
      else key_event_failure (Some (ke_hash e)) es)"

definition key_bytes_ok :: "string \<Rightarrow> string \<Rightarrow> bool" where
  "key_bytes_ok key fingerprint \<longleftrightarrow> (\<exists>raw. b64decode key = Inr raw \<and> length raw = 32 \<and> sha256_bytes raw = fingerprint)"

lemma key_event_body_inj:
  assumes "key_event_ok a" "key_event_ok b" "json_eq (key_event_body a) (key_event_body b)" "ke_hash a = ke_hash b"
  shows "a = b"
proof -
  have f: "ke_sequence a = ke_sequence b \<and> key_event_text (ke_event_type a) = key_event_text (ke_event_type b)
    \<and> ke_key_id a = ke_key_id b \<and> ke_actor_id a = ke_actor_id b \<and> ke_public_key_b64 a = ke_public_key_b64 b
    \<and> ke_public_key_sha256 a = ke_public_key_sha256 b \<and> ke_label a = ke_label b
    \<and> ke_performed_by a = ke_performed_by b \<and> ke_previous_hash a = ke_previous_hash b
    \<and> isoformat (ke_created_at a) = isoformat (ke_created_at b)"
    using assms(3) unfolding key_event_body_def by (subst (asm) json_eq_fields) simp_all
  then have "ke_created_at a = ke_created_at b" using assms(1,2) isoformat_inj by (auto simp: key_event_ok_def)
  moreover have "ke_event_type a = ke_event_type b"
    using f by (cases "ke_event_type a"; cases "ke_event_type b") (simp_all add: key_event_text_def)
  ultimately show ?thesis using f assms(4) by simp
qed

interpretation key_chain: hash_chain key_event_ok key_event_body ke_previous_hash ke_hash key_event_failure
  by unfold_locales (simp, simp, simp add: key_event_body_def, rule key_event_body_inj)

lemma check_key_events_iff:
  "check_key_events p es = Inr h \<longleftrightarrow> key_event_failure p es = None
    \<and> (\<forall>e \<in> set es. key_bytes_ok (ke_public_key_b64 e) (ke_public_key_sha256 e)) \<and> h = key_chain.head_after p es"
proof (induction es arbitrary: p)
  case Nil
  then show ?case by (auto simp: key_chain.head_after_def)
next
  case (Cons e es)
  have upd: "ke_previous_hash e = p \<Longrightarrow> e\<lparr>ke_previous_hash := p\<rparr> = e" by simp
  show ?case
  proof (cases "ke_previous_hash e = p \<and> ke_hash e = hash_record (key_event_body e)")
    case True
    then show ?thesis using Cons.IH [of "Some (ke_hash e)"]
      by (cases "b64decode (ke_public_key_b64 e)") (auto simp: upd key_bytes_ok_def key_chain.head_after_def)
  next
    case False
    then show ?thesis by (auto simp: upd)
  qed
qed

definition key_stream :: "governance_store \<Rightarrow> string \<Rightarrow> release_key_event list" where
  "key_stream st k = (if k = [] then key_events st else [])"

definition key_appends :: "governance_store \<Rightarrow> release_key_event \<Rightarrow> governance_store \<Rightarrow> bool" where
  "key_appends st e st' \<longleftrightarrow> key_event_table st' = key_event_table st @ [e]
     \<and> (\<exists>t k performed_by now. e = next_key_event t k performed_by now st \<and> clock_ok now)"

lemma next_key_event_simps [simp]:
  "ke_event_type (next_key_event t k performed_by now st) = t"
  "ke_key_id (next_key_event t k performed_by now st) = rk_key_id k"
  "ke_actor_id (next_key_event t k performed_by now st) = rk_actor_id k"
  "ke_public_key_b64 (next_key_event t k performed_by now st) = rk_public_key_b64 k"
  "ke_public_key_sha256 (next_key_event t k performed_by now st) = rk_public_key_sha256 k"
  "ke_created_at (next_key_event t k performed_by now st) = now"
  "ke_sequence (next_key_event t k performed_by now st) =
    (if key_events st = [] then 1 else ke_sequence (last (key_events st)) + 1)"
  "ke_previous_hash (next_key_event t k performed_by now st) =
    (if key_events st = [] then None else Some (ke_hash (last (key_events st))))"
  "ke_hash (next_key_event t k performed_by now st) = hash_record (key_event_body (next_key_event t k performed_by now st))"
  by (simp_all add: next_key_event_def Let_def key_event_body_def)

text \<open>A row with the next sequence number goes to the end.\<close>

lemma sort_key_snoc_next:
  fixes f :: "'a \<Rightarrow> int"
  assumes "f r = (if filter P xs = [] then 1 else f (last (sort_key f (filter P xs))) + 1)"
  shows "sort_key f (filter P xs @ [r]) = sort_key f (filter P xs) @ [r]"
proof (rule sort_key_snoc_max)
  fix x assume x: "x \<in> set (filter P xs)"
  then have "filter P xs \<noteq> []" by (metis empty_iff list.set(1))
  moreover have "f x \<le> f (last (sort_key f (filter P xs)))" by (rule sorted_le_last) (use x in simp_all)
  ultimately show "f x \<le> f r" using assms by simp
qed

lemma sort_key_Nil_iff [simp]: "sort_key f xs = [] \<longleftrightarrow> xs = []"
  by (metis length_0_conv length_sort)

lemma key_events_append:
  assumes "key_appends st e st'"
  shows "key_events st' = key_events st @ [e]"
proof -
  from assms obtain t k performed_by now where e: "e = next_key_event t k performed_by now st"
    and st': "key_event_table st' = key_event_table st @ [e]" by (auto simp: key_appends_def)
  show ?thesis
    using sort_key_snoc_next [of ke_sequence e "\<lambda>_. True" "key_event_table st"]
    by (simp add: key_events_def st') (simp add: e key_events_def)
qed

interpretation key_log: chained_store key_event_ok key_event_body ke_previous_hash ke_hash key_event_failure
    key_stream "\<lambda>_. []" ke_sequence key_appends
proof unfold_locales
  fix st e st' k
  assume app: "key_appends st e st'"
  then obtain t key performed_by now where e: "e = next_key_event t key performed_by now st" and now: "clock_ok now"
    by (auto simp: key_appends_def)
  show "key_stream st' k = (if k = [] then key_stream st k @ [e] else key_stream st k)"
    by (simp add: key_stream_def key_events_append [OF app])
  show "key_event_ok e" using now by (simp add: e key_event_ok_def clock_ok_def offset_ok_def is_utc_def)
  show "ke_previous_hash e = (if key_stream st [] = [] then None else Some (ke_hash (last (key_stream st []))))"
    "ke_hash e = hash_record (key_event_body e)"
    "ke_sequence e = (if key_stream st [] = [] then 1 else ke_sequence (last (key_stream st [])) + 1)"
    by (simp_all add: e key_stream_def)
qed

section \<open>The loop over the checkpoints\<close>

definition anchor_ok :: "release_key_event list \<Rightarrow> checkpoint_payload \<Rightarrow> bool" where
  "anchor_ok events p \<longleftrightarrow> (\<exists>en. release_key_enrollment_event events (cp_signer_key_id p) = Inr en \<and> enrollment_matches en p)
     \<and> revoked_by_time events (cp_signer_key_id p) (cp_issued_at p) = Inr False"

lemma check_checkpoint_ok:
  "check_checkpoint lib dt events election n prev c = Inr () \<longleftrightarrow>
    cp_election_id (ck_payload c) = election \<and> cp_sequence (ck_payload c) = n \<and> cp_previous_hash (ck_payload c) = prev
    \<and> anchor_ok events (ck_payload c) \<and> check_checkpoint_signature lib dt c = Inr ()
    \<and> ck_hash c = checkpoint_hash dt (ck_payload c) (ck_public_key_b64 c) (ck_signature_b64 c)"
  by (auto simp: check_checkpoint_def anchor_ok_def Let_def)

lemma check_checkpoints_append:
  "check_checkpoints lib dt events election n prev (cs @ [c]) =
    (case check_checkpoints lib dt events election n prev cs of
       (m, h, None) \<Rightarrow> (case check_checkpoint lib dt events election (m + 1) h c of
           Inl e \<Rightarrow> (m, h, Some e) | Inr _ \<Rightarrow> (m + 1, Some (ck_hash c), None))
     | r \<Rightarrow> r)"
  by (induction cs arbitrary: n prev) (auto split: sum.split option.split prod.split)

lemma check_checkpoints_done:
  "check_checkpoints lib dt events election n prev cs = (m, h, None) \<Longrightarrow>
    m = n + int (length cs) \<and> h = (if cs = [] then prev else Some (ck_hash (last cs)))
    \<and> map (\<lambda>c. cp_sequence (ck_payload c)) cs = [n + 1..n + int (length cs)]
    \<and> (\<forall>c \<in> set cs. anchor_ok events (ck_payload c) \<and> check_checkpoint_signature lib dt c = Inr ())"
proof (induction cs arbitrary: n prev)
  case (Cons c cs)
  have ok: "check_checkpoint lib dt events election (n + 1) prev c = Inr ()"
    and rest: "check_checkpoints lib dt events election (n + 1) (Some (ck_hash c)) cs = (m, h, None)"
    using Cons.prems by (auto split: sum.splits)
  have "[n + 1..n + (1 + int (length cs))] = (n + 1) # [n + 1 + 1..n + 1 + int (length cs)]"
    by (subst upto.simps) (simp add: algebra_simps)
  then show ?case using Cons.IH [OF rest] ok by (auto simp: check_checkpoint_ok algebra_simps)
qed simp

lemma check_checkpoints_events:
  assumes "check_checkpoints lib dt events election n prev cs = (m, h, None)"
    "\<forall>c \<in> set cs. anchor_ok events' (ck_payload c)"
  shows "check_checkpoints lib dt events' election n prev cs = (m, h, None)"
  using assms
proof (induction cs arbitrary: n prev)
  case (Cons c cs)
  have ok: "check_checkpoint lib dt events election (n + 1) prev c = Inr ()"
    and rest: "check_checkpoints lib dt events election (n + 1) (Some (ck_hash c)) cs = (m, h, None)"
    using Cons.prems(1) by (auto split: sum.splits)
  have "check_checkpoint lib dt events' election (n + 1) prev c = Inr ()"
    using ok Cons.prems(2) by (simp add: check_checkpoint_ok)
  then show ?case using Cons.IH [OF rest] Cons.prems(2) by simp
qed simp

text \<open>A later event does not disturb the anchor of a checkpoint, unless it revokes its key before its time.\<close>

lemma revoked_by_time_snoc:
  "revoked_by_time es k t = Inr False \<Longrightarrow> revoked_by_time (es @ [e]) k t =
    (if ke_key_id e = k \<and> ke_event_type e = Revoke then datetime_le (ke_created_at e) t else Inr False)"
proof (induction es)
  case Nil
  show ?case by (cases "datetime_le (ke_created_at e) t") auto
next
  case (Cons x es)
  show ?case
  proof (cases "ke_key_id x = k \<and> ke_event_type x = Revoke")
    case True
    with Cons.prems have "datetime_le (ke_created_at x) t = Inr False" "revoked_by_time es k t = Inr False"
      by (auto split: if_splits)
    with True Cons.IH show ?thesis by simp
  qed (use Cons in auto)
qed

lemma anchor_ok_append:
  assumes "anchor_ok events p"
    "ke_key_id e = cp_signer_key_id p \<and> ke_event_type e = Revoke \<Longrightarrow> datetime_le (ke_created_at e) (cp_issued_at p) = Inr False"
  shows "anchor_ok (events @ [e]) p"
  using assms by (auto simp: anchor_ok_def revoked_by_time_snoc release_key_enrollment_event_def find_append split: option.splits)

section \<open>Runs of the store\<close>

text \<open>What is relied on of Ed25519: keys have 32 bytes and a signature verifies under the key that made it.\<close>

definition signatures_ok :: "release_library \<Rightarrow> bool" where
  "signatures_ok lib \<longleftrightarrow> (\<forall>k msg. length (public_bytes lib k) = 32 \<and> ed_verify lib (public_bytes lib k) (ed_sign lib k msg) msg)"

text \<open>The stores that operations at strictly later and later times lead to, with the last time.\<close>

inductive governance_run :: "release_library \<Rightarrow> (datetime \<Rightarrow> string) \<Rightarrow> int \<Rightarrow> governance_store \<Rightarrow> bool"
  for lib dt where
  init: "governance_run lib dt t empty_governance"
| enroll: "governance_run lib dt t st \<Longrightarrow> t < instant now \<Longrightarrow> clock_ok now \<Longrightarrow>
    enroll_release_signing_key auth actor key_text performer key_label now st = (st', r) \<Longrightarrow>
    governance_run lib dt (instant now) st'"
| revoke: "governance_run lib dt t st \<Longrightarrow> t < instant now \<Longrightarrow> clock_ok now \<Longrightarrow>
    revoke_release_signing_key key_id performer now st = (st', r) \<Longrightarrow> governance_run lib dt (instant now) st'"
| checkpoint: "governance_run lib dt t st \<Longrightarrow> t < instant issued \<Longrightarrow> clock_ok issued \<Longrightarrow>
    append_checkpoint lib dt dir private issued stored st = Inr (st', c) \<Longrightarrow>
    governance_run lib dt (instant issued) st'"

definition key_row_ok :: "governance_store \<Rightarrow> release_signing_key \<Rightarrow> bool" where
  "key_row_ok st k \<longleftrightarrow> key_bytes_ok (rk_public_key_b64 k) (rk_public_key_sha256 k)
     \<and> (\<exists>en. release_key_enrollment_event (key_events st) (rk_key_id k) = Inr en
        \<and> ke_actor_id en = rk_actor_id k \<and> ke_public_key_sha256 en = rk_public_key_sha256 k)
     \<and> (rk_revoked_at k = None \<longrightarrow> (\<forall>e \<in> set (key_events st). ke_key_id e = rk_key_id k \<longrightarrow> ke_event_type e = Enroll))"

definition governance_invariant :: "release_library \<Rightarrow> (datetime \<Rightarrow> string) \<Rightarrow> int \<Rightarrow> governance_store \<Rightarrow> bool" where
  "governance_invariant lib dt t st \<longleftrightarrow> key_log.sound st
     \<and> (\<forall>e \<in> set (key_events st). key_bytes_ok (ke_public_key_b64 e) (ke_public_key_sha256 e)
          \<and> is_utc (ke_created_at e) \<and> instant (ke_created_at e) \<le> t \<and> ke_key_id e \<in> rk_key_id ` set (signing_key_table st))
     \<and> (\<forall>k \<in> set (signing_key_table st). key_row_ok st k)
     \<and> (\<forall>c \<in> set (checkpoint_table st). is_utc (cp_issued_at (ck_payload c)) \<and> instant (cp_issued_at (ck_payload c)) \<le> t)
     \<and> (\<forall>election. snd (snd (check_checkpoints lib dt (key_events st) election 0 None (election_checkpoints election st))) = None)
     \<and> distinct (map (\<lambda>c. cp_manifest_sha256 (ck_payload c)) (checkpoint_table st))"

lemma governance_invariant_empty: "governance_invariant lib dt t empty_governance"
proof -
  have "key_events empty_governance = []" by (simp add: key_events_def empty_governance_def)
  then show ?thesis
    by (simp add: governance_invariant_def key_log.sound_def key_stream_def election_checkpoints_def)
      (simp add: empty_governance_def)
qed

text \<open>What a key operation leaves: the same store, or one event more.\<close>

lemma append_key_event_cases:
  assumes "append_key_event ty k performer now changed st cont = (st', r)"
  obtains "st' = st" | "st' = changed\<lparr>key_event_table := key_event_table st @ [next_key_event ty k performer now st]\<rparr>"
  using assms by (auto simp: append_key_event_def Let_def split: if_splits)

lemma enroll_cases:
  assumes "enroll_release_signing_key auth actor key_text performer key_label now st = (st', r)"
  obtains "st' = st"
  | row where "rk_key_id row \<notin> rk_key_id ` set (signing_key_table st)"
      "key_bytes_ok (rk_public_key_b64 row) (rk_public_key_sha256 row)" "rk_revoked_at row = None"
      "st' = st\<lparr>signing_key_table := signing_key_table st @ [row],
        key_event_table := key_event_table st @ [next_key_event Enroll row performer now st]\<rparr>"
proof (cases "get_identity actor auth")
  case (Inl e)
  then show thesis using assms that(1) by (simp add: enroll_release_signing_key_def)
next
  case (Inr i)
  show thesis
  proof (cases "b64decode key_text")
    case (Inl e)
    then show thesis using assms Inr that(1) by (auto simp: enroll_release_signing_key_def split: if_splits)
  next
    case raw: (Inr raw)
    let ?row = "\<lparr>rk_key_id = signing_key_id actor (sha256_bytes raw), rk_actor_id = actor, rk_public_key_b64 = key_text,
      rk_public_key_sha256 = sha256_bytes raw, rk_label = key_label, rk_enrolled_at = now, rk_enrolled_by = performer,
      rk_revoked_at = None, rk_revoked_by = None\<rparr>"
    show thesis
    proof (cases "id_disabled_at i \<noteq> None \<or> length raw \<noteq> 32 \<or> \<not> signing_key_fields_ok ?row
        \<or> list_ex (\<lambda>k. rk_key_id k = signing_key_id actor (sha256_bytes raw) \<or> rk_public_key_sha256 k = sha256_bytes raw)
          (signing_key_table st)")
      case True
      then show thesis using assms Inr raw that(1) by (auto simp: enroll_release_signing_key_def Let_def split: if_splits)
    next
      case False
      then have "append_key_event Enroll ?row performer now (st\<lparr>signing_key_table := signing_key_table st @ [?row]\<rparr>) st
          (get_release_signing_key (rk_key_id ?row)) = (st', r)"
        using assms Inr raw by (simp add: enroll_release_signing_key_def Let_def)
      moreover have "rk_key_id ?row \<notin> rk_key_id ` set (signing_key_table st)" using False by (auto simp: list_ex_iff)
      moreover have "key_bytes_ok (rk_public_key_b64 ?row) (rk_public_key_sha256 ?row)"
        using False raw by (simp add: key_bytes_ok_def)
      ultimately show thesis by (cases rule: append_key_event_cases) (use that(1) that(2) [of ?row] in simp_all)
    qed
  qed
qed

lemma revoke_cases:
  assumes "revoke_release_signing_key key_id performer now st = (st', r)"
  obtains "st' = st"
  | row where "row \<in> set (signing_key_table st)" "rk_key_id row = key_id"
      "st' = st\<lparr>signing_key_table := map (\<lambda>r. if rk_key_id r = key_id
          then r\<lparr>rk_revoked_at := Some now, rk_revoked_by := Some performer\<rparr> else r) (signing_key_table st),
        key_event_table := key_event_table st @ [next_key_event Revoke row performer now st]\<rparr>"
proof (cases "get_release_signing_key key_id st")
  case (Inl e)
  then show thesis using assms that(1) by (simp add: revoke_release_signing_key_def)
next
  case (Inr row)
  then have row: "row \<in> set (signing_key_table st)" "rk_key_id row = key_id"
    by (auto simp: get_release_signing_key_def make_signing_key_def find_Some_iff split: option.splits if_splits)
  show thesis
  proof (cases "rk_revoked_at row = None")
    case True
    then have "append_key_event Revoke row performer now (st\<lparr>signing_key_table := map (\<lambda>r. if rk_key_id r = key_id
          then r\<lparr>rk_revoked_at := Some now, rk_revoked_by := Some performer\<rparr> else r) (signing_key_table st)\<rparr>) st
        (get_release_signing_key key_id) = (st', r)"
      using assms Inr by (simp add: revoke_release_signing_key_def)
    then show thesis by (cases rule: append_key_event_cases) (use that row in auto)
  qed (use assms Inr that(1) in \<open>auto simp: revoke_release_signing_key_def\<close>)
qed


text \<open>A key event appended at a later time keeps the checkpoint chains.\<close>

lemma checkpoints_keep:
  assumes "governance_invariant lib dt t st" "t < instant now" "is_utc now" "ke_created_at e = now"
    "key_events st' = key_events st @ [e]" "checkpoint_table st' = checkpoint_table st"
  shows "snd (snd (check_checkpoints lib dt (key_events st') election 0 None (election_checkpoints election st'))) = None"
proof -
  let ?cs = "election_checkpoints election st"
  have same: "election_checkpoints election st' = ?cs" by (simp add: election_checkpoints_def assms(6))
  obtain m h where ok: "check_checkpoints lib dt (key_events st) election 0 None ?cs = (m, h, None)"
    using assms(1) by (metis governance_invariant_def prod.collapse)
  have "anchor_ok (key_events st @ [e]) (ck_payload c)" if c: "c \<in> set ?cs" for c
  proof -
    have "c \<in> set (checkpoint_table st)" using c by (simp add: election_checkpoints_def)
    then have utc: "is_utc (cp_issued_at (ck_payload c))" "instant (cp_issued_at (ck_payload c)) \<le> t"
      using assms(1) by (simp_all add: governance_invariant_def)
    have "datetime_le (ke_created_at e) (cp_issued_at (ck_payload c)) = Inr False"
      using utc assms(2-4) by (simp add: datetime_le_def is_utc_def)
    then show ?thesis using check_checkpoints_done [OF ok] c anchor_ok_append by blast
  qed
  then show ?thesis unfolding assms(5) same using check_checkpoints_events [OF ok] by fastforce
qed

lemma enrollment_found_append:
  "release_key_enrollment_event es k = Inr en \<Longrightarrow> release_key_enrollment_event (es @ [e]) k = Inr en"
  by (simp add: release_key_enrollment_event_def find_append split: option.splits)

lemma key_row_ok_append:
  assumes "key_row_ok st k" "key_events st' = key_events st @ [e]"
    and same: "rk_key_id k' = rk_key_id k" "rk_actor_id k' = rk_actor_id k" "rk_public_key_b64 k' = rk_public_key_b64 k"
      "rk_public_key_sha256 k' = rk_public_key_sha256 k"
    and active: "rk_revoked_at k' = None \<Longrightarrow> rk_revoked_at k = None \<and> (ke_key_id e = rk_key_id k \<longrightarrow> ke_event_type e = Enroll)"
  shows "key_row_ok st' k'"
proof -
  obtain en where en: "release_key_enrollment_event (key_events st) (rk_key_id k) = Inr en"
    "ke_actor_id en = rk_actor_id k" "ke_public_key_sha256 en = rk_public_key_sha256 k"
    using assms(1) by (auto simp: key_row_ok_def)
  have "\<forall>x \<in> set (key_events st'). ke_key_id x = rk_key_id k' \<longrightarrow> ke_event_type x = Enroll" if "rk_revoked_at k' = None"
    using assms(1) active [OF that] by (auto simp: assms(2) same key_row_ok_def)
  then show ?thesis using assms(1) en enrollment_found_append [OF en(1), of e]
    unfolding key_row_ok_def same assms(2) by blast
qed

lemma enroll_invariant:
  assumes "governance_invariant lib dt t st" "t < instant now" "clock_ok now"
    "enroll_release_signing_key auth actor key_text performer key_label now st = (st', r)"
  shows "governance_invariant lib dt (instant now) st'"
  using assms(4)
proof (cases rule: enroll_cases)
  case 1
  then show ?thesis using assms(1,2) by (fastforce simp: governance_invariant_def)
next
  case (2 row)
  let ?e = "next_key_event Enroll row performer now st"
  note inv = assms(1) [unfolded governance_invariant_def]
  have app: "key_appends st ?e st'" using assms(3) by (auto simp: key_appends_def 2(4))
  note ev = key_events_append [OF app]
  have chain: "snd (snd (check_checkpoints lib dt (key_events st') election 0 None (election_checkpoints election st'))) = None" for election
    by (rule checkpoints_keep [OF assms(1,2) _ _ ev]) (use assms(3) in \<open>simp_all add: clock_ok_def 2(4)\<close>)
  have absent: "ke_key_id e \<noteq> rk_key_id row" if "e \<in> set (key_events st)" for e
    using inv that 2(1) by metis
  have "key_row_ok st' k" if k: "k \<in> set (signing_key_table st)" for k
  proof -
    have "key_row_ok st k" using inv k by blast
    then show ?thesis by (rule key_row_ok_append [OF _ ev]) simp_all
  qed
  moreover have "find (\<lambda>e. ke_key_id e = rk_key_id row \<and> ke_event_type e = Enroll) (key_events st) = None"
    using absent by (auto simp: find_None_iff)
  then have "key_row_ok st' row"
    using 2(2,3) absent unfolding key_row_ok_def ev by (auto simp: release_key_enrollment_event_def find_append)
  ultimately have rows: "\<forall>k \<in> set (signing_key_table st'). key_row_ok st' k" by (simp add: 2(4))
  have "key_log.sound st'" using key_log.sound_append [OF _ app] inv by blast
  moreover have "\<forall>e \<in> set (key_events st'). key_bytes_ok (ke_public_key_b64 e) (ke_public_key_sha256 e)
      \<and> is_utc (ke_created_at e) \<and> instant (ke_created_at e) \<le> instant now \<and> ke_key_id e \<in> rk_key_id ` set (signing_key_table st')"
    unfolding ev using inv assms(2,3) 2(2) by (auto simp: 2(4) clock_ok_def)
  moreover have "\<forall>c \<in> set (checkpoint_table st'). is_utc (cp_issued_at (ck_payload c)) \<and> instant (cp_issued_at (ck_payload c)) \<le> instant now"
    using inv assms(2) by (fastforce simp: 2(4))
  moreover have "distinct (map (\<lambda>c. cp_manifest_sha256 (ck_payload c)) (checkpoint_table st'))" using inv by (simp add: 2(4))
  ultimately show ?thesis using rows chain by (simp add: governance_invariant_def)
qed

lemma revoke_invariant:
  assumes "governance_invariant lib dt t st" "t < instant now" "clock_ok now"
    "revoke_release_signing_key key_id performer now st = (st', r)"
  shows "governance_invariant lib dt (instant now) st'"
  using assms(4)
proof (cases rule: revoke_cases)
  case 1
  then show ?thesis using assms(1,2) by (fastforce simp: governance_invariant_def)
next
  case (2 row)
  let ?e = "next_key_event Revoke row performer now st"
  let ?upd = "\<lambda>r. if rk_key_id r = key_id then r\<lparr>rk_revoked_at := Some now, rk_revoked_by := Some performer\<rparr> else r"
  note inv = assms(1) [unfolded governance_invariant_def]
  have app: "key_appends st ?e st'" using assms(3) by (auto simp: key_appends_def 2(3))
  note ev = key_events_append [OF app]
  have chain: "snd (snd (check_checkpoints lib dt (key_events st') election 0 None (election_checkpoints election st'))) = None" for election
    by (rule checkpoints_keep [OF assms(1,2) _ _ ev]) (use assms(3) in \<open>simp_all add: clock_ok_def 2(3)\<close>)
  have tab: "signing_key_table st' = map ?upd (signing_key_table st)" by (simp add: 2(3))
  have "key_row_ok st' (?upd k)" if k: "k \<in> set (signing_key_table st)" for k
  proof -
    have "key_row_ok st k" using inv k by blast
    then show ?thesis by (rule key_row_ok_append [OF _ ev]) (use 2(2) in \<open>auto split: if_splits\<close>)
  qed
  then have rows: "\<forall>k \<in> set (signing_key_table st'). key_row_ok st' k" unfolding tab by (simp del: if_image_distrib)
  have ids: "rk_key_id ` set (signing_key_table st') = rk_key_id ` set (signing_key_table st)"
    unfolding tab by (simp add: image_where del: if_image_distrib)
  have "key_row_ok st row" using inv 2(1) by blast
  then have "key_bytes_ok (rk_public_key_b64 row) (rk_public_key_sha256 row)" by (simp add: key_row_ok_def)
  then have "\<forall>e \<in> set (key_events st'). key_bytes_ok (ke_public_key_b64 e) (ke_public_key_sha256 e)
      \<and> is_utc (ke_created_at e) \<and> instant (ke_created_at e) \<le> instant now \<and> ke_key_id e \<in> rk_key_id ` set (signing_key_table st')"
    unfolding ev ids using inv assms(2,3) 2(1,2) by (auto simp: clock_ok_def)
  moreover have "key_log.sound st'" using key_log.sound_append [OF _ app] inv by blast
  moreover have "\<forall>c \<in> set (checkpoint_table st'). is_utc (cp_issued_at (ck_payload c)) \<and> instant (cp_issued_at (ck_payload c)) \<le> instant now"
    using inv assms(2) by (fastforce simp: 2(3))
  moreover have "distinct (map (\<lambda>c. cp_manifest_sha256 (ck_payload c)) (checkpoint_table st'))" using inv by (simp add: 2(3))
  ultimately show ?thesis using rows chain by (simp add: governance_invariant_def)
qed


lemma append_checkpoint_cases:
  assumes "append_checkpoint lib dt dir private issued stored st = Inr (st', c)"
  obtains "st' = st"
  | manifest sha k en where "c = next_checkpoint lib dt private manifest sha k en issued stored st"
      "st' = st\<lparr>checkpoint_table := checkpoint_table st @ [c]\<rparr>"
      "k \<in> set (signing_key_table st)" "rk_public_key_sha256 k = sha256_bytes (public_bytes lib private)"
      "rk_revoked_at k = None" "release_key_enrollment_event (key_events st) (rk_key_id k) = Inr en"
      "sha \<notin> (\<lambda>c. cp_manifest_sha256 (ck_payload c)) ` set (checkpoint_table st)" "cp_manifest_sha256 (ck_payload c) = sha"
proof -
  obtain sha manifest signature k en where signer: "authorized_signer lib private signature st = Inr (k, en)"
    and rest: "(case find (\<lambda>c. cp_manifest_sha256 (ck_payload c) = sha) (checkpoint_table st) of
         Some c \<Rightarrow> return (st, c)
       | None \<Rightarrow>
           let c = next_checkpoint lib dt private manifest sha k en issued stored st in
           if \<not> checkpoint_payload_ok (ck_payload c) then raise field_error
           else bind_result (insert_checkpoint c st) (\<lambda>st'. return (st', c))) = Inr (st', c)"
    using assms unfolding append_checkpoint_def by auto
  have k: "k \<in> set (signing_key_table st)" "rk_public_key_sha256 k = sha256_bytes (public_bytes lib private)"
      "rk_revoked_at k = None" "release_key_enrollment_event (key_events st) (rk_key_id k) = Inr en"
    using signer by (auto simp: authorized_signer_def active_release_signing_key_def make_signing_key_def find_Some_iff
        split: if_splits option.splits)
  show thesis
  proof (cases "find (\<lambda>c. cp_manifest_sha256 (ck_payload c) = sha) (checkpoint_table st)")
    case None
    then have "sha \<notin> (\<lambda>c. cp_manifest_sha256 (ck_payload c)) ` set (checkpoint_table st)" by (auto simp: find_None_iff)
    moreover have c: "c = next_checkpoint lib dt private manifest sha k en issued stored st"
        "st' = st\<lparr>checkpoint_table := checkpoint_table st @ [c]\<rparr>"
      using rest None by (auto simp: Let_def insert_checkpoint_def split: if_splits)
    moreover from this(1) have "cp_manifest_sha256 (ck_payload c) = sha" by (simp add: next_checkpoint_def Let_def)
    ultimately show thesis using that(2) k by blast
  qed (use rest that(1) in auto)
qed

lemma revoked_by_time_none:
  "\<forall>e \<in> set es. ke_key_id e = k \<longrightarrow> ke_event_type e = Enroll \<Longrightarrow> revoked_by_time es k t = Inr False"
proof (induction es)
  case (Cons e es)
  then have "\<not> (ke_key_id e = k \<and> ke_event_type e = Revoke)" by (metis key_event_type.distinct(1) list.set_intros(1))
  then have "revoked_by_time (e # es) k t = revoked_by_time es k t" by (simp only: revoked_by_time.simps if_False)
  also have "\<dots> = Inr False" using Cons by simp
  finally show ?case .
qed simp

lemma check_checkpoints_extend:
  assumes "check_checkpoints lib dt events election 0 None cs = (m, h, None)"
    "check_checkpoint lib dt events election (m + 1) h c = Inr ()"
  shows "snd (snd (check_checkpoints lib dt events election 0 None (cs @ [c]))) = None"
  by (simp add: check_checkpoints_append assms)

lemma checkpoint_invariant:
  assumes "governance_invariant lib dt t st" "t < instant issued" "clock_ok issued" "signatures_ok lib"
    "append_checkpoint lib dt dir private issued stored st = Inr (st', c)"
  shows "governance_invariant lib dt (instant issued) st'"
  using assms(5)
proof (cases rule: append_checkpoint_cases)
  case 1
  then show ?thesis using assms(1,2) by (fastforce simp: governance_invariant_def)
next
  case (2 manifest sha k en)
  note inv = assms(1) [unfolded governance_invariant_def]
  let ?el = "rm_election_id manifest" and ?p = "ck_payload c"
  let ?cs = "election_checkpoints ?el st"
  obtain m h where ok: "check_checkpoints lib dt (key_events st) ?el 0 None ?cs = (m, h, None)"
    using inv by (metis prod.collapse)
  note walked = check_checkpoints_done [OF ok]
  have p: "cp_election_id ?p = ?el" "cp_signer_key_id ?p = rk_key_id k" "cp_signer_actor_id ?p = rk_actor_id k"
    "cp_signer_key_sha256 ?p = sha256_bytes (public_bytes lib private)" "cp_enrollment_hash ?p = ke_hash en"
    "cp_issued_at ?p = issued" "cp_previous_hash ?p = h"
    "ck_public_key_b64 c = b64encode (public_bytes lib private)"
    "ck_signature_b64 c = b64encode (ed_sign lib private (canonical_json_bytes (checkpoint_payload_json dt ?p)))"
    "ck_hash c = checkpoint_hash dt ?p (ck_public_key_b64 c) (ck_signature_b64 c)"
    and seq: "cp_sequence ?p = (if ?cs = [] then 1 else cp_sequence (ck_payload (last ?cs)) + 1)"
    using walked by (simp_all add: 2(1) next_checkpoint_def Let_def)
  have "cp_sequence ?p = m + 1"
  proof (cases "?cs = []")
    case False
    then have one: "0 + 1 \<le> 0 + int (length ?cs)" by (cases ?cs) simp_all
    have "cp_sequence (ck_payload (last ?cs)) = last (map (\<lambda>c. cp_sequence (ck_payload c)) ?cs)"
      using False by (simp add: last_map)
    also have "\<dots> = int (length ?cs)" using walked upto_rec2 [OF one] by simp
    finally show ?thesis using seq False walked by simp
  qed (use seq walked in simp)
  moreover have row: "key_row_ok st k" using inv 2(3) by blast
  have "anchor_ok (key_events st) ?p"
    using row 2(4-6) revoked_by_time_none [of "key_events st" "rk_key_id k" issued]
    by (auto simp: anchor_ok_def key_row_ok_def enrollment_matches_def p)
  moreover have "check_checkpoint_signature lib dt c = Inr ()"
    using assms(4) by (simp add: check_checkpoint_signature_def p(4,8,9) b64decode_encode signatures_ok_def
        load_public_key_def check_signature_def)
  ultimately have good: "check_checkpoint lib dt (key_events st) ?el (m + 1) h c = Inr ()"
    using p by (simp add: check_checkpoint_ok)
  have ev: "key_events st' = key_events st" by (simp add: key_events_def 2(2))
  have rows: "election_checkpoints election st' = election_checkpoints election st @ (if election = ?el then [c] else [])" for election
    using sort_key_snoc_next [of "\<lambda>c. cp_sequence (ck_payload c)" c "\<lambda>c. cp_election_id (ck_payload c) = ?el" "checkpoint_table st"] seq p(1)
    by (auto simp: election_checkpoints_def 2(2))
  have chain: "snd (snd (check_checkpoints lib dt (key_events st') election 0 None (election_checkpoints election st'))) = None" for election
    using inv check_checkpoints_extend [OF ok good] unfolding ev rows by (cases "election = ?el") simp_all
  have keys: "key_row_ok st' = key_row_ok st" by (simp add: fun_eq_iff key_row_ok_def ev)
  have "key_stream st' k = key_stream st k" for k by (simp add: key_stream_def ev)
  then have "key_log.sound st'" using inv by (simp add: key_log.sound_def)
  moreover have "\<forall>c \<in> set (checkpoint_table st'). is_utc (cp_issued_at (ck_payload c)) \<and> instant (cp_issued_at (ck_payload c)) \<le> instant issued"
    using inv assms(2,3) p(6) by (fastforce simp: 2(2) clock_ok_def)
  moreover have "\<forall>e \<in> set (key_events st'). key_bytes_ok (ke_public_key_b64 e) (ke_public_key_sha256 e)
      \<and> is_utc (ke_created_at e) \<and> instant (ke_created_at e) \<le> instant issued \<and> ke_key_id e \<in> rk_key_id ` set (signing_key_table st')"
    unfolding ev using inv assms(2) by (fastforce simp: 2(2))
  moreover have "\<forall>k \<in> set (signing_key_table st'). key_row_ok st' k" unfolding keys using inv by (simp add: 2(2))
  moreover have "distinct (map (\<lambda>c. cp_manifest_sha256 (ck_payload c)) (checkpoint_table st'))"
    using inv 2(7,8) by (simp add: 2(2))
  ultimately show ?thesis using chain unfolding governance_invariant_def by blast
qed

lemma governance_run_invariant:
  assumes "governance_run lib dt t st" "signatures_ok lib"
  shows "governance_invariant lib dt t st"
  using assms(1)
proof induction
  case (init t)
  show ?case by (rule governance_invariant_empty)
next
  case enroll
  then show ?case using enroll_invariant by blast
next
  case revoke
  then show ?case using revoke_invariant by blast
next
  case checkpoint
  then show ?case using checkpoint_invariant [OF _ _ _ assms(2)] by blast
qed

lemma transparency_valid:
  assumes "governance_invariant lib dt t st"
  shows "check_key_events None (key_events st) = Inr (key_chain.head_after None (key_events st))"
    "map ke_sequence (key_events st) = [1..int (length (key_events st))]"
proof -
  note inv = assms [unfolded governance_invariant_def]
  have "key_event_failure None (key_stream st []) = None"
    "map ke_sequence (key_stream st []) = [1..int (length (key_stream st []))]"
    using key_log.sound_history [of st "[]"] inv by blast+
  then show "check_key_events None (key_events st) = Inr (key_chain.head_after None (key_events st))"
    "map ke_sequence (key_events st) = [1..int (length (key_events st))]"
    using inv by (simp_all add: check_key_events_iff key_stream_def)
qed


lemma governance_run_verifies:
  assumes "governance_run lib dt t st" "signatures_ok lib"
  shows "kt_valid (verify_release_key_transparency st)"
    "verify_checkpoint_chain lib dt election st = Inr \<lparr>cr_valid = True,
        cr_checkpoints_checked = int (length (election_checkpoints election st)),
        cr_head_checkpoint_hash = (if election_checkpoints election st = [] then None
          else Some (ck_hash (last (election_checkpoints election st)))), cr_error = None\<rparr>"
    "map (\<lambda>c. cp_sequence (ck_payload c)) (election_checkpoints election st)
        = [1..int (length (election_checkpoints election st))]"
    "list_all (\<lambda>c. anchor_ok (key_events st) (ck_payload c)) (election_checkpoints election st)"
proof -
  have inv: "governance_invariant lib dt t st" by (rule governance_run_invariant [OF assms])
  note keys = transparency_valid [OF inv]
  obtain m h where ok: "check_checkpoints lib dt (key_events st) election 0 None (election_checkpoints election st) = (m, h, None)"
    using inv by (metis governance_invariant_def prod.collapse)
  show valid: "kt_valid (verify_release_key_transparency st)" by (simp add: verify_release_key_transparency_def keys(1))
  show "verify_checkpoint_chain lib dt election st = Inr \<lparr>cr_valid = True,
        cr_checkpoints_checked = int (length (election_checkpoints election st)),
        cr_head_checkpoint_hash = (if election_checkpoints election st = [] then None
          else Some (ck_hash (last (election_checkpoints election st)))), cr_error = None\<rparr>"
    "map (\<lambda>c. cp_sequence (ck_payload c)) (election_checkpoints election st)
        = [1..int (length (election_checkpoints election st))]"
    "list_all (\<lambda>c. anchor_ok (key_events st) (ck_payload c)) (election_checkpoints election st)"
    using check_checkpoints_done [OF ok] valid by (simp_all add: verify_checkpoint_chain_def ok list_all_iff)
qed

text \<open>C21. Governance holds by construction: after any enrollments, revocations and checkpoints at later and later
  times the key transparency log verifies with consecutive sequence numbers, the checkpoint chain of every
  election verifies in full with consecutive sequence numbers and the hash of its last checkpoint as head, every
  checkpoint was signed by a key enrolled for it and not revoked by its time, and no release has two checkpoints.\<close>

theorem governed_chain_verifies:
  assumes "governance_run lib dt t st" "signatures_ok lib"
  shows "kt_valid (verify_release_key_transparency st)
    \<and> map ke_sequence (key_events st) = [1..int (length (key_events st))]
    \<and> verify_checkpoint_chain lib dt election st = Inr \<lparr>cr_valid = True,
        cr_checkpoints_checked = int (length (election_checkpoints election st)),
        cr_head_checkpoint_hash = (if election_checkpoints election st = [] then None
          else Some (ck_hash (last (election_checkpoints election st)))), cr_error = None\<rparr>
    \<and> map (\<lambda>c. cp_sequence (ck_payload c)) (election_checkpoints election st)
        = [1..int (length (election_checkpoints election st))]
    \<and> list_all (\<lambda>c. anchor_ok (key_events st) (ck_payload c)) (election_checkpoints election st)
    \<and> distinct (map (\<lambda>c. cp_manifest_sha256 (ck_payload c)) (checkpoint_table st))"
proof -
  have inv: "governance_invariant lib dt t st" by (rule governance_run_invariant [OF assms])
  show ?thesis using governance_run_verifies [OF assms] transparency_valid [OF inv] inv
    by (simp add: governance_invariant_def)
qed

section \<open>A concrete chain\<close>

text \<open>Alice enrolls the key of the concrete release and issues a checkpoint for it a second later.\<close>

lemma built_inputs:
  assumes "build_release demo_release_library [1, 2, 3] ''E'' [r] [] = Inr (m, dir)"
    "json_readable (float_text demo_release_library) (manifest_json m)" "exportable demo_release_library r"
  shows "publication_inputs demo_release_library dir None =
      Inr (sha256_bytes (manifest_line m), m, signed_release demo_release_library [1, 2, 3] (manifest_line m))"
    "is_sha256_hex (rm_merkle_root m)" "rm_election_id m = ''E''"
proof -
  let ?lib = demo_release_library
  have none: "signer_trust_status fp None = Inr None" for fp by (simp add: signer_trust_status_def)
  have v: "verify_release ?lib dir None = Inr \<lparr>rv_release_id = Some (rm_release_id m), rv_valid = True,
      rv_signature_valid = True, file_hashes_valid = True, formats_equivalent = True, merkle_valid = True,
      rv_signer_key_sha256 = Some (sha256_bytes (public_bytes ?lib [1, 2, 3])), rv_signer_trusted = None, rv_error = None\<rparr>"
    using built_verifies [OF assms(1) _ _ demo_library_ok assms(2) none] assms(3) by (simp add: utf8_ascii)
  have files: "dict_get dir ''manifest.json'' = Some (manifest_line m @ [newline_byte])"
    "dict_get dir ''manifest.signature.json'' =
      Some (canonical_json_bytes (signature_json (signed_release ?lib [1, 2, 3] (manifest_line m))) @ [newline_byte])"
    using assms(1) by (auto elim!: build_release_Inr)
  have fields: "manifest_fields_ok m" "is_sha256_hex (rm_merkle_root m)" "rm_election_id m = ''E''"
    using built_manifest_fields [OF assms(1)] assms(3) by (simp_all add: utf8_ascii)
  show "publication_inputs ?lib dir None =
     Inr (sha256_bytes (manifest_line m), m, signed_release ?lib [1, 2, 3] (manifest_line m))"
    using demo_library_ok assms(2) fields(1)
    by (simp add: publication_inputs_def require_verified_def v read_file_def files strip_manifest library_ok_def
        signed_release_ok)
  show "is_sha256_hex (rm_merkle_root m)" "rm_election_id m = ''E''" using fields by simp_all
qed

lemma demo_signatures_ok: "signatures_ok demo_release_library"
  using demo_library_ok by (simp add: library_ok_def signatures_ok_def)

definition demo_key :: "byte list" where
  "demo_key = public_bytes demo_release_library [1, 2, 3]"

definition demo_signing_key :: release_signing_key where
  "demo_signing_key = \<lparr>rk_key_id = signing_key_id ''alice'' (sha256_bytes demo_key), rk_actor_id = ''alice'',
     rk_public_key_b64 = b64encode demo_key, rk_public_key_sha256 = sha256_bytes demo_key, rk_label = None,
     rk_enrolled_at = auth_time, rk_enrolled_by = ''root'', rk_revoked_at = None, rk_revoked_by = None\<rparr>"

definition demo_key_event :: release_key_event where
  "demo_key_event = next_key_event Enroll demo_signing_key ''root'' auth_time empty_governance"

definition demo_governance :: governance_store where
  "demo_governance = \<lparr>signing_key_table = [demo_signing_key], key_event_table = [demo_key_event], checkpoint_table = []\<rparr>"

definition checkpoint_time :: datetime where
  "checkpoint_time = auth_time\<lparr>wall := wall auth_time + 1000000\<rparr>"

lemma demo_enrolled:
  "enroll_release_signing_key alice_store ''alice'' (b64encode demo_key) ''root'' None auth_time empty_governance
    = (demo_governance, Inr demo_signing_key)"
proof -
  have "length demo_key = 32" using demo_signatures_ok by (simp add: demo_key_def signatures_ok_def)
  moreover have ok: "signing_key_fields_ok demo_signing_key"
    by (simp add: signing_key_fields_ok_def demo_signing_key_def sha256_bytes_is_hex)
  moreover have "get_identity ''alice'' alice_store = Inr alice"
    by (simp add: get_identity_def find_identity_def alice_store_def alice_def identity_from_row_def len_between_def py_len_def)
  moreover have "id_disabled_at alice = None" by (simp add: alice_def)
  ultimately show ?thesis
    by (simp add: enroll_release_signing_key_def b64decode_encode Let_def demo_signing_key_def [symmetric]
        append_key_event_def demo_key_event_def [symmetric])
      (simp add: empty_governance_def demo_governance_def get_release_signing_key_def make_signing_key_def)
qed

lemma demo_run: "governance_run demo_release_library dt (instant auth_time) demo_governance"
proof (rule governance_run.enroll [OF _ _ _ demo_enrolled])
  show "governance_run demo_release_library dt (instant auth_time - 1) empty_governance" by (rule governance_run.init)
qed (use auth_clock in simp_all)

lemma checkpoint_clock: "clock_ok checkpoint_time" "instant auth_time < instant checkpoint_time"
  by (simp_all add: checkpoint_time_def clock_ok_def auth_time_def datetime_ok_def is_utc_def max_wall_def us_per_day_def
      us_per_second_def instant_def)

lemma demo_signer:
  "authorized_signer demo_release_library [1, 2, 3] (signed_release demo_release_library [1, 2, 3] msg) demo_governance
    = Inr (demo_signing_key, demo_key_event)"
proof -
  have "signing_key_fields_ok demo_signing_key"
    by (simp add: signing_key_fields_ok_def demo_signing_key_def sha256_bytes_is_hex)
  then have "active_release_signing_key (sha256_bytes demo_key) demo_governance = Inr (Some demo_signing_key)"
    by (simp add: active_release_signing_key_def demo_governance_def make_signing_key_def)
      (simp add: demo_signing_key_def)
  moreover have "key_events demo_governance = [demo_key_event]" by (simp add: key_events_def demo_governance_def)
  moreover have "ke_key_id demo_key_event = rk_key_id demo_signing_key" "ke_event_type demo_key_event = Enroll"
    by (simp_all add: demo_key_event_def)
  ultimately show ?thesis
    by (simp add: authorized_signer_def signed_release_simps demo_key_def [symmetric] release_key_enrollment_event_def)
qed

definition demo_checkpoint_of :: "(datetime \<Rightarrow> string) \<Rightarrow> release_manifest \<Rightarrow> signed_checkpoint" where
  "demo_checkpoint_of dt m = next_checkpoint demo_release_library dt [1, 2, 3] m (sha256_bytes (manifest_line m))
     demo_signing_key demo_key_event checkpoint_time checkpoint_time demo_governance"

lemma demo_checkpoint:
  assumes "build_release demo_release_library [1, 2, 3] ''E'' [r] [] = Inr (m, dir)"
    "json_readable (float_text demo_release_library) (manifest_json m)" "exportable demo_release_library r"
  shows "append_checkpoint demo_release_library dt dir [1, 2, 3] checkpoint_time checkpoint_time demo_governance
      = Inr (demo_governance\<lparr>checkpoint_table := [demo_checkpoint_of dt m]\<rparr>, demo_checkpoint_of dt m)"
    "cp_election_id (ck_payload (demo_checkpoint_of dt m)) = ''E''"
proof -
  note i = built_inputs [OF assms]
  have none: "checkpoint_table demo_governance = []" by (simp add: demo_governance_def)
  then have rows: "election_checkpoints (rm_election_id m) demo_governance = []" by (simp add: election_checkpoints_def)
  have "checkpoint_payload_ok (ck_payload (demo_checkpoint_of dt m))"
    using rows i(2,3) by (simp add: checkpoint_payload_ok_def demo_checkpoint_of_def next_checkpoint_def Let_def sha256_bytes_is_hex)
      (simp add: demo_key_event_def)
  then show "append_checkpoint demo_release_library dt dir [1, 2, 3] checkpoint_time checkpoint_time demo_governance
      = Inr (demo_governance\<lparr>checkpoint_table := [demo_checkpoint_of dt m]\<rparr>, demo_checkpoint_of dt m)"
    by (simp add: append_checkpoint_def i demo_signer none Let_def insert_checkpoint_def demo_checkpoint_of_def [symmetric])
  show "cp_election_id (ck_payload (demo_checkpoint_of dt m)) = ''E''"
    using i(3) by (simp add: demo_checkpoint_of_def next_checkpoint_def Let_def)
qed

theorem governed_chain_verifies_witness:
  "\<exists>dir st c. append_checkpoint demo_release_library isoformat dir [1, 2, 3] checkpoint_time checkpoint_time demo_governance
      = Inr (st, c)
    \<and> kt_valid (verify_release_key_transparency st)
    \<and> verify_checkpoint_chain demo_release_library isoformat ''E'' st = Inr \<lparr>cr_valid = True,
        cr_checkpoints_checked = 1, cr_head_checkpoint_hash = Some (ck_hash c), cr_error = None\<rparr>"
proof -
  obtain m dir where b: "build_release demo_release_library [1, 2, 3] ''E'' [demo_release_record] [] = Inr (m, dir)"
    "json_readable (float_text demo_release_library) (manifest_json m)"
    using demo_build by blast
  note cp = demo_checkpoint [OF b demo_exportable, of isoformat]
  obtain st c where c: "append_checkpoint demo_release_library isoformat dir [1, 2, 3] checkpoint_time checkpoint_time
      demo_governance = Inr (st, c)" "election_checkpoints ''E'' st = [c]"
    using cp by (simp add: election_checkpoints_def)
  have "governance_run demo_release_library isoformat (instant checkpoint_time) st"
    by (rule governance_run.checkpoint [OF demo_run checkpoint_clock(2,1) c(1)])
  from governed_chain_verifies [OF this demo_signatures_ok, of "''E''"] c show ?thesis by auto
qed

end
