(* ===== verification/Source_Approval.thy ===== *)
theory Source_Approval
  imports Source_Policy Governance_Chain
begin

text \<open>
  src/ballotproof/source_approval.py: signed approvals and revocations of source policy snapshots, one chain of
  events for each source. The policies are those of \<open>Source_Policy\<close>; Ed25519 is a field of
  \<open>release_library\<close>, \<open>dt\<close> is what pydantic dumps for a datetime. A row keeps the event that
  \<open>event_json\<close> prints.
\<close>

section \<open>Events\<close>

datatype approval_decision = Approve | Revoke_Approval

definition decision_text :: "approval_decision \<Rightarrow> string" where
  "decision_text d = (case d of Approve \<Rightarrow> ''approve'' | Revoke_Approval \<Rightarrow> ''revoke'')"

record reviewed_evidence =
  rw_reference :: string
  rw_sha256 :: string
  rw_description :: "string option"

record approval_payload =
  ap_event_id :: string
  ap_source_id :: string
  ap_policy_version :: int
  ap_policy_hash :: string
  ap_decision :: approval_decision
  ap_approver_id :: string
  ap_reviewed :: "reviewed_evidence list"
  ap_rationale :: string
  ap_issued_at :: datetime
  ap_previous_hash :: "string option"

record signed_approval =
  se_payload :: approval_payload
  se_public_key_b64 :: string
  se_signer_sha256 :: string
  se_signature_b64 :: string
  se_hash :: string
  se_stored_at :: "datetime option"

record approval_authorization =
  aa_source_id :: string
  aa_policy_version :: int
  aa_policy_hash :: string
  aa_authorized :: bool
  aa_decision :: "approval_decision option"
  aa_event_id :: "string option"
  aa_event_hash :: "string option"
  aa_approver_id :: "string option"
  aa_signer_sha256 :: "string option"

record approval_chain_report =
  av_source_id :: string
  av_valid :: bool
  av_events_checked :: int
  av_failure_sequence :: "int option"

definition reviewed_ok :: "reviewed_evidence \<Rightarrow> bool" where
  "reviewed_ok r = (len_between 1 1000 (rw_reference r) \<and> is_sha256_hex (rw_sha256 r)
     \<and> opt_all (\<lambda>s. py_len s \<le> 2000) (rw_description r))"

definition approval_payload_ok :: "approval_payload \<Rightarrow> bool" where
  "approval_payload_ok p = (id128 (ap_event_id p) \<and> id128 (ap_source_id p) \<and> 1 \<le> ap_policy_version p
     \<and> is_sha256_hex (ap_policy_hash p) \<and> len_between 1 256 (ap_approver_id p)
     \<and> length (ap_reviewed p) \<in> {1..32} \<and> list_all reviewed_ok (ap_reviewed p)
     \<and> len_between 1 4000 (ap_rationale p) \<and> opt_all is_sha256_hex (ap_previous_hash p)
     \<and> utcoffset (ap_issued_at p) \<noteq> None)"

text \<open>The fingerprints in an environment variable; \<open>strip_lower\<close> is \<open>s.strip().lower()\<close>.\<close>

definition trusted_approver_keys :: "(string \<Rightarrow> string) \<Rightarrow> string \<Rightarrow> string list result" where
  "trusted_approver_keys strip_lower raw =
     (let keys = remdups (map strip_lower (filter (\<lambda>item. \<not> is_blank item) (split_at_char (CHR '','') raw))) in
      guarded [(\<not> list_all is_sha256_hex keys,
        ValueError ''BALLOTPROOF_SOURCE_APPROVER_KEYS_SHA256 contains an invalid SHA-256 fingerprint'')] keys)"

definition reviewed_json :: "reviewed_evidence \<Rightarrow> json" where
  "reviewed_json r = JObj [(''reference'', JStr (rw_reference r)), (''sha256'', JStr (rw_sha256 r)),
     (''description'', json_opt JStr (rw_description r))]"

definition approval_payload_json :: "(datetime \<Rightarrow> string) \<Rightarrow> approval_payload \<Rightarrow> json" where
  "approval_payload_json dt p = JObj
     [(''event_id'', JStr (ap_event_id p)), (''source_id'', JStr (ap_source_id p)),
      (''policy_version'', JInt (ap_policy_version p)), (''policy_snapshot_hash'', JStr (ap_policy_hash p)),
      (''decision'', JStr (decision_text (ap_decision p))), (''approver_id'', JStr (ap_approver_id p)),
      (''reviewed_evidence'', JArr (map reviewed_json (ap_reviewed p))), (''rationale'', JStr (ap_rationale p)),
      (''issued_at'', JStr (dt (ap_issued_at p))), (''previous_event_hash'', json_opt JStr (ap_previous_hash p))]"

definition approval_hash_body :: "(datetime \<Rightarrow> string) \<Rightarrow> signed_approval \<Rightarrow> json" where
  "approval_hash_body dt e = JObj
     [(''payload'', approval_payload_json dt (se_payload e)), (''algorithm'', JStr ''Ed25519''),
      (''public_key_b64'', JStr (se_public_key_b64 e)), (''signer_key_sha256'', JStr (se_signer_sha256 e)),
      (''signature_b64'', JStr (se_signature_b64 e))]"

definition approval_message :: "(datetime \<Rightarrow> string) \<Rightarrow> signed_approval \<Rightarrow> byte list" where
  "approval_message dt e = canonical_json_bytes (approval_payload_json dt (se_payload e))"

definition sign_source_approval :: "release_library \<Rightarrow> (datetime \<Rightarrow> string) \<Rightarrow> byte list \<Rightarrow> approval_payload
    \<Rightarrow> signed_approval" where
  "sign_source_approval lib dt private p =
     (let e = \<lparr>se_payload = p, se_public_key_b64 = b64encode (public_bytes lib private),
            se_signer_sha256 = sha256_bytes (public_bytes lib private),
            se_signature_b64 = b64encode (ed_sign lib private (canonical_json_bytes (approval_payload_json dt p))),
            se_hash = replicate 64 (CHR ''0''), se_stored_at = None\<rparr>
      in e\<lparr>se_hash := hash_record (approval_hash_body dt e)\<rparr>)"

definition check_source_approval :: "release_library \<Rightarrow> (datetime \<Rightarrow> string) \<Rightarrow> signed_approval \<Rightarrow> bool result" where
  "check_source_approval lib dt e =
     bind_result (b64decode (se_public_key_b64 e)) (\<lambda>raw.
     bind_result (b64decode (se_signature_b64 e)) (\<lambda>signature.
       if sha256_bytes raw \<noteq> se_signer_sha256 e then return False
       else if hash_record (approval_hash_body dt e) \<noteq> se_hash e then return False
       else bind_result (load_public_key raw) (\<lambda>key.
         bind_result (check_signature lib key signature (approval_message dt e)) (\<lambda>_. return True))))"

text \<open>Every exception of the checks is a ValueError or an InvalidSignature.\<close>

definition verify_source_approval :: "release_library \<Rightarrow> (datetime \<Rightarrow> string) \<Rightarrow> signed_approval \<Rightarrow> bool" where
  "verify_source_approval lib dt e = (case check_source_approval lib dt e of Inl _ \<Rightarrow> False | Inr ok \<Rightarrow> ok)"

section \<open>The store\<close>

record approval_row =
  ar_source_id :: string
  ar_sequence :: int
  ar_event_id :: string
  ar_policy_version :: int
  ar_policy_hash :: string
  ar_decision :: approval_decision
  ar_signer_sha256 :: string
  ar_event :: signed_approval
  ar_stored_at :: datetime
  ar_previous_hash :: "string option"
  ar_hash :: string

type_synonym approval_store = "approval_row list"

definition approval_rows :: "approval_store \<Rightarrow> string \<Rightarrow> approval_row list" where
  "approval_rows st src = sort_key ar_sequence (filter (\<lambda>r. ar_source_id r = src) st)"

definition snapshot_rows :: "approval_store \<Rightarrow> string \<Rightarrow> int \<Rightarrow> string \<Rightarrow> approval_row list" where
  "snapshot_rows st src v h = sort_key ar_sequence
     (filter (\<lambda>r. ar_source_id r = src \<and> ar_policy_version r = v \<and> ar_policy_hash r = h) st)"

definition bound_snapshot :: "host_library \<Rightarrow> policy_store \<Rightarrow> signed_approval \<Rightarrow> policy_snapshot result" where
  "bound_snapshot hosts policies e =
     bind_result (get_policy hosts policies (ap_source_id (se_payload e)) (ap_policy_version (se_payload e))) (\<lambda>s.
       if ps_hash s \<noteq> ap_policy_hash (se_payload e)
       then raise (ValueError ''source approval event policy hash does not match stored snapshot'')
       else return s)"

definition approval_row_of :: "signed_approval \<Rightarrow> int \<Rightarrow> datetime \<Rightarrow> approval_row" where
  "approval_row_of e n now = (let p = se_payload e in
     \<lparr>ar_source_id = ap_source_id p, ar_sequence = n, ar_event_id = ap_event_id p,
      ar_policy_version = ap_policy_version p, ar_policy_hash = ap_policy_hash p, ar_decision = ap_decision p,
      ar_signer_sha256 = se_signer_sha256 e, ar_event = e\<lparr>se_stored_at := Some now\<rparr>, ar_stored_at = now,
      ar_previous_hash = ap_previous_hash p, ar_hash = se_hash e\<rparr>)"

text \<open>A violated constraint is reported as a ValueError.\<close>

definition insert_approval :: "approval_row \<Rightarrow> approval_store \<Rightarrow> approval_store result" where
  "insert_approval row st = guarded
     [(list_ex (\<lambda>r. ar_event_id r = ar_event_id row \<or> ar_hash r = ar_hash row
          \<or> ar_source_id r = ar_source_id row \<and> ar_sequence r = ar_sequence row) st,
       ValueError ''source approval event has already been recorded'')]
     (st @ [row])"

definition extend_approvals :: "signed_approval \<Rightarrow> datetime \<Rightarrow> approval_store
    \<Rightarrow> (approval_store \<times> signed_approval) result" where
  "extend_approvals e now st =
     (let p = se_payload e; rows = approval_rows st (ap_source_id p);
          n = (if rows = [] then 1 else ar_sequence (last rows) + 1);
          previous_hash = (if rows = [] then None else Some (ar_hash (last rows)));
          recorded = snapshot_rows st (ap_source_id p) (ap_policy_version p) (ap_policy_hash p)
      in bind_result (guarded
        [(ap_previous_hash p \<noteq> previous_hash,
          ValueError ''source approval event does not extend the current approval chain head''),
         (ap_decision p = Revoke_Approval \<and> (recorded = [] \<or> ar_decision (last recorded) \<noteq> Approve),
          ValueError ''revocation requires a currently approved source snapshot'')] ())
        (\<lambda>_. bind_result (insert_approval (approval_row_of e n now) st)
          (\<lambda>st'. return (st', e\<lparr>se_stored_at := Some now\<rparr>))))"

definition signer_trusted :: "string list option \<Rightarrow> string \<Rightarrow> bool" where
  "signer_trusted trusted signer = (case trusted of
       None \<Rightarrow> True | Some keys \<Rightarrow> signer \<in> set (map (map lower_char) keys))"

definition append_approval :: "release_library \<Rightarrow> host_library \<Rightarrow> (datetime \<Rightarrow> string) \<Rightarrow> string list option
    \<Rightarrow> policy_store \<Rightarrow> signed_approval \<Rightarrow> datetime \<Rightarrow> approval_store \<Rightarrow> (approval_store \<times> signed_approval) result" where
  "append_approval lib hosts dt trusted policies e now st =
     bind_result (guarded
       [(se_stored_at e \<noteq> None, ValueError ''stored_at is assigned by SourceApprovalStore''),
        (\<not> verify_source_approval lib dt e, ValueError ''invalid source approval signature or event hash''),
        (\<not> signer_trusted trusted (se_signer_sha256 e),
         PermissionError ''source approval signer is not in the configured trust set'')] ())
     (\<lambda>_. bind_result (bound_snapshot hosts policies e) (\<lambda>s.
        if access_status (ps_policy s) \<noteq> APPROVED
        then raise (PermissionError ''source approval events may authorize approved policy snapshots only'')
        else extend_approvals e now st))"

definition approval_history :: "approval_store \<Rightarrow> string \<Rightarrow> signed_approval list" where
  "approval_history st src = map ar_event (approval_rows st src)"

definition latest_approval :: "approval_store \<Rightarrow> policy_snapshot \<Rightarrow> signed_approval option" where
  "latest_approval st s = (case snapshot_rows st (ps_source_id s) (ps_version s) (ps_hash s) of
       [] \<Rightarrow> None | rows \<Rightarrow> Some (ar_event (last rows)))"

section \<open>Verification and authorization\<close>

definition approval_row_valid :: "release_library \<Rightarrow> host_library \<Rightarrow> (datetime \<Rightarrow> string) \<Rightarrow> policy_store \<Rightarrow> string
    \<Rightarrow> string option \<Rightarrow> approval_row \<Rightarrow> bool" where
  "approval_row_valid lib hosts dt policies src previous_hash r =
     (let e = ar_event r in
      ar_previous_hash r = previous_hash \<and> ap_previous_hash (se_payload e) = previous_hash
      \<and> ar_hash r = se_hash e \<and> ap_source_id (se_payload e) = src \<and> verify_source_approval lib dt e
      \<and> (case bound_snapshot hosts policies e of Inl _ \<Rightarrow> False | Inr _ \<Rightarrow> True))"

fun approval_failure :: "release_library \<Rightarrow> host_library \<Rightarrow> (datetime \<Rightarrow> string) \<Rightarrow> policy_store \<Rightarrow> string
    \<Rightarrow> string option \<Rightarrow> approval_row list \<Rightarrow> int option" where
  "approval_failure lib hosts dt policies src previous_hash [] = None"
| "approval_failure lib hosts dt policies src previous_hash (r # rs) =
     (if approval_row_valid lib hosts dt policies src previous_hash r
      then approval_failure lib hosts dt policies src (Some (se_hash (ar_event r))) rs
      else Some (ar_sequence r))"

definition verify_approval_chain :: "release_library \<Rightarrow> host_library \<Rightarrow> (datetime \<Rightarrow> string) \<Rightarrow> policy_store
    \<Rightarrow> approval_store \<Rightarrow> string \<Rightarrow> approval_chain_report" where
  "verify_approval_chain lib hosts dt policies st src =
     (case approval_failure lib hosts dt policies src None (approval_rows st src) of
        Some n \<Rightarrow> \<lparr>av_source_id = src, av_valid = False, av_events_checked = n, av_failure_sequence = Some n\<rparr>
      | None \<Rightarrow> \<lparr>av_source_id = src, av_valid = True, av_events_checked = int (length (approval_rows st src)),
          av_failure_sequence = None\<rparr>)"

definition authorization :: "release_library \<Rightarrow> host_library \<Rightarrow> (datetime \<Rightarrow> string) \<Rightarrow> string list option
    \<Rightarrow> policy_store \<Rightarrow> approval_store \<Rightarrow> policy_snapshot \<Rightarrow> approval_authorization" where
  "authorization lib hosts dt trusted policies st s =
     (let latest = latest_approval st s in
      \<lparr>aa_source_id = ps_source_id s, aa_policy_version = ps_version s, aa_policy_hash = ps_hash s,
       aa_authorized = (access_status (ps_policy s) = APPROVED
         \<and> (case latest of None \<Rightarrow> False | Some e \<Rightarrow> ap_decision (se_payload e) = Approve
              \<and> signer_trusted trusted (se_signer_sha256 e) \<and> verify_source_approval lib dt e)
         \<and> av_valid (verify_approval_chain lib hosts dt policies st (ps_source_id s))),
       aa_decision = map_option (\<lambda>e. ap_decision (se_payload e)) latest,
       aa_event_id = map_option (\<lambda>e. ap_event_id (se_payload e)) latest, aa_event_hash = map_option se_hash latest,
       aa_approver_id = map_option (\<lambda>e. ap_approver_id (se_payload e)) latest,
       aa_signer_sha256 = map_option se_signer_sha256 latest\<rparr>)"

definition require_authorized :: "release_library \<Rightarrow> host_library \<Rightarrow> (datetime \<Rightarrow> string) \<Rightarrow> string list option
    \<Rightarrow> policy_store \<Rightarrow> approval_store \<Rightarrow> policy_snapshot \<Rightarrow> signed_approval result" where
  "require_authorized lib hosts dt trusted policies st s =
     (if \<not> aa_authorized (authorization lib hosts dt trusted policies st s)
      then raise (PermissionError ''source policy snapshot lacks a current trusted signed approval'')
      else case latest_approval st s of
          None \<Rightarrow> raise (PermissionError ''source approval event is missing'') | Some e \<Rightarrow> return e)"

text \<open>The exceptions that \<open>verify_chain\<close> catches are all that \<open>bound_snapshot\<close> raises.\<close>

lemma map_result_errors:
  "map_result f xs = Inl e \<Longrightarrow> \<exists>x \<in> set xs. f x = Inl e"
  by (induction xs) (auto simp: bind_result_def split: sum.splits)

lemma validate_policy_errors: "validate_policy hosts p = Inl e \<Longrightarrow> \<exists>s. e = ValueError s"
  by (auto simp: validate_policy_def hosts_with_base_def normalized_hosts_def normalize_policy_host_def Let_def
      bind_result_def split: sum.splits option.splits if_splits dest!: map_result_errors)

lemma bound_snapshot_errors:
  "bound_snapshot hosts policies e = Inl err \<Longrightarrow> \<exists>s. err = ValueError s \<or> err = KeyError s"
  by (auto simp: bound_snapshot_def get_policy_def row_to_snapshot_def make_source_policy_def field_error_def
      bind_result_def split: sum.splits option.splits if_splits dest!: validate_policy_errors)

section \<open>Reachable stores\<close>

text \<open>Policies and approvals are appended in any order; each writer has its own trust set.\<close>

inductive approvals_reachable :: "release_library \<Rightarrow> host_library \<Rightarrow> (datetime \<Rightarrow> string) \<Rightarrow> policy_store
    \<Rightarrow> approval_store \<Rightarrow> bool" for lib hosts dt where
  init: "approvals_reachable lib hosts dt empty_policy_store []"
| policy: "approvals_reachable lib hosts dt policies st \<Longrightarrow>
    append_policy hosts pdt fr p now fresh policies = Inr (policies', s) \<Longrightarrow>
    approvals_reachable lib hosts dt policies' st"
| approval: "approvals_reachable lib hosts dt policies st \<Longrightarrow>
    append_approval lib hosts dt trusted policies e now st = Inr (st', e') \<Longrightarrow>
    approvals_reachable lib hosts dt policies st'"

definition approvals_sound :: "release_library \<Rightarrow> host_library \<Rightarrow> (datetime \<Rightarrow> string) \<Rightarrow> policy_store
    \<Rightarrow> approval_store \<Rightarrow> bool" where
  "approvals_sound lib hosts dt policies st \<longleftrightarrow> (\<forall>src. let rows = filter (\<lambda>r. ar_source_id r = src) st in
     map ar_sequence rows = [1..int (length rows)]
     \<and> approval_failure lib hosts dt policies src None rows = None)
   \<and> list_all (\<lambda>r. ar_policy_version r = ap_policy_version (se_payload (ar_event r))
       \<and> ar_policy_hash r = ap_policy_hash (se_payload (ar_event r)) \<and> ar_source_id r = ap_source_id (se_payload (ar_event r))
       \<and> verify_source_approval lib dt (ar_event r)
       \<and> (\<exists>s. bound_snapshot hosts policies (ar_event r) = Inr s)) st"

lemma sequence_order:
  assumes "map ar_sequence (filter P st) = [1..n]"
  shows "sort_key ar_sequence (filter P st) = filter P st"
  using sort_key_id_if_sorted [of ar_sequence "filter P st"] by (simp add: assms)

lemma sound_rows:
  assumes "approvals_sound lib hosts dt policies st"
  shows "approval_rows st src = filter (\<lambda>r. ar_source_id r = src) st"
    "snapshot_rows st src v h = filter (\<lambda>r. ar_source_id r = src \<and> ar_policy_version r = v \<and> ar_policy_hash r = h) st"
proof -
  have seq: "map ar_sequence (filter (\<lambda>r. ar_source_id r = src) st)
      = [1..int (length (filter (\<lambda>r. ar_source_id r = src) st))]"
    using assms by (simp add: approvals_sound_def Let_def)
  show "approval_rows st src = filter (\<lambda>r. ar_source_id r = src) st"
    by (simp add: approval_rows_def sequence_order [OF seq])
  have "sorted (map ar_sequence (filter (\<lambda>r. ar_source_id r = src) st))" by (simp add: seq)
  then have "sorted (map ar_sequence (filter (\<lambda>r. ar_policy_version r = v \<and> ar_policy_hash r = h)
      (filter (\<lambda>r. ar_source_id r = src) st)))" by (rule sorted_filter)
  then have "sorted (map ar_sequence (filter (\<lambda>r. ar_source_id r = src \<and> ar_policy_version r = v \<and> ar_policy_hash r = h) st))"
    by (simp add: conj_ac)
  then show "snapshot_rows st src v h = filter (\<lambda>r. ar_source_id r = src \<and> ar_policy_version r = v \<and> ar_policy_hash r = h) st"
    unfolding snapshot_rows_def by (rule sort_key_id_if_sorted)
qed

lemma approval_failure_snoc:
  "approval_failure lib hosts dt policies src prev (rs @ [r]) = None \<longleftrightarrow>
     approval_failure lib hosts dt policies src prev rs = None
     \<and> approval_row_valid lib hosts dt policies src (if rs = [] then prev else Some (se_hash (ar_event (last rs)))) r"
  by (induction rs arbitrary: prev) auto

lemma approval_failure_valid:
  "approval_failure lib hosts dt policies src prev rs = None \<Longrightarrow> r \<in> set rs \<Longrightarrow>
     \<exists>prev'. approval_row_valid lib hosts dt policies src prev' r"
  by (induction rs arbitrary: prev) (auto split: if_splits)

text \<open>A policy that could be read is read unchanged after a policy was appended.\<close>

lemma get_policy_append: "get_policy hosts policies src v = Inr s \<Longrightarrow> get_policy hosts (policies @ [row]) src v = Inr s"
  by (auto simp: get_policy_def find_append split: option.splits)

lemma bound_snapshot_append:
  "bound_snapshot hosts policies e = Inr s \<Longrightarrow> bound_snapshot hosts (policies @ [row]) e = Inr s"
  using get_policy_append [of hosts policies _ _ _ row] by (auto simp: bound_snapshot_def split: if_splits)

lemma approval_failure_policies:
  "approval_failure lib hosts dt policies src prev rs = None \<Longrightarrow>
     approval_failure lib hosts dt (policies @ [row]) src prev rs = None"
  by (induction rs arbitrary: prev)
    (auto simp: approval_row_valid_def Let_def bound_snapshot_append split: if_splits sum.splits)

lemma body_stored [simp]:
  "approval_hash_body dt (e\<lparr>se_stored_at := t\<rparr>) = approval_hash_body dt e"
  "approval_message dt (e\<lparr>se_stored_at := t\<rparr>) = approval_message dt e"
  by (simp_all add: approval_hash_body_def approval_message_def)

lemma verify_stored [simp]: "verify_source_approval lib dt (e\<lparr>se_stored_at := t\<rparr>) = verify_source_approval lib dt e"
  by (simp add: verify_source_approval_def check_source_approval_def cong: if_cong)

lemma bound_snapshot_stored [simp]: "bound_snapshot hosts policies (e\<lparr>se_stored_at := t\<rparr>) = bound_snapshot hosts policies e"
  by (simp add: bound_snapshot_def)

lemma append_approval_Inr:
  assumes "append_approval lib hosts dt trusted policies e now st = Inr (st', e')"
  obtains s n where "verify_source_approval lib dt e" "bound_snapshot hosts policies e = Inr s"
    "signer_trusted trusted (se_signer_sha256 e)" "access_status (ps_policy s) = APPROVED"
    "n = (if approval_rows st (ap_source_id (se_payload e)) = [] then 1
       else ar_sequence (last (approval_rows st (ap_source_id (se_payload e)))) + 1)"
    "ap_previous_hash (se_payload e) = (if approval_rows st (ap_source_id (se_payload e)) = [] then None
       else Some (ar_hash (last (approval_rows st (ap_source_id (se_payload e))))))"
    "st' = st @ [approval_row_of e n now]" "e' = e\<lparr>se_stored_at := Some now\<rparr>"
  using assms unfolding append_approval_def extend_approvals_def insert_approval_def Let_def
  by (auto split: if_splits)

lemma approval_row_fields [simp]:
  "ar_source_id (approval_row_of e n now) = ap_source_id (se_payload e)" "ar_sequence (approval_row_of e n now) = n"
  "ar_policy_version (approval_row_of e n now) = ap_policy_version (se_payload e)"
  "ar_policy_hash (approval_row_of e n now) = ap_policy_hash (se_payload e)"
  "ar_event (approval_row_of e n now) = e\<lparr>se_stored_at := Some now\<rparr>" "ar_hash (approval_row_of e n now) = se_hash e"
  "ar_previous_hash (approval_row_of e n now) = ap_previous_hash (se_payload e)"
  by (simp_all add: approval_row_of_def Let_def)

lemma append_approval_sound:
  assumes "approvals_sound lib hosts dt policies st"
    "append_approval lib hosts dt trusted policies e now st = Inr (st', e')"
  shows "approvals_sound lib hosts dt policies st'"
proof -
  let ?src = "ap_source_id (se_payload e)"
  let ?rows = "filter (\<lambda>r. ar_source_id r = ?src) st"
  obtain s n where ok: "verify_source_approval lib dt e" "bound_snapshot hosts policies e = Inr s"
    and n: "n = (if approval_rows st ?src = [] then 1 else ar_sequence (last (approval_rows st ?src)) + 1)"
    and prev: "ap_previous_hash (se_payload e) = (if approval_rows st ?src = [] then None
       else Some (ar_hash (last (approval_rows st ?src))))"
    and st': "st' = st @ [approval_row_of e n now]"
    by (rule append_approval_Inr [OF assms(2)])
  have seq: "map ar_sequence ?rows = [1..int (length ?rows)]"
    and none: "approval_failure lib hosts dt policies ?src None ?rows = None"
    using assms(1) by (simp_all add: approvals_sound_def Let_def)
  have num: "n = int (length ?rows) + 1"
  proof (cases "?rows = []")
    case False
    then have "ar_sequence (last ?rows) = last [1..int (length ?rows)]" by (simp add: last_map flip: seq)
    also have "\<dots> = int (length ?rows)"
    proof -
      have "1 \<le> int (length ?rows)" using False by (cases ?rows) simp_all
      then show ?thesis by (simp only: upto_rec2 if_True last_snoc)
    qed
    finally show ?thesis using False by (simp add: n sound_rows [OF assms(1)])
  qed (simp add: n sound_rows [OF assms(1)])
  have last_hash: "ar_hash (last ?rows) = se_hash (ar_event (last ?rows))" if "?rows \<noteq> []"
    using approval_failure_valid [OF none last_in_set [OF that]] by (auto simp: approval_row_valid_def Let_def)
  have "approval_row_valid lib hosts dt policies ?src (if ?rows = [] then None else Some (se_hash (ar_event (last ?rows))))
      (approval_row_of e n now)"
    using prev last_hash ok by (auto simp: approval_row_valid_def Let_def sound_rows [OF assms(1)])
  moreover have "[1..int (length ?rows) + 1] = [1..int (length ?rows)] @ [int (length ?rows) + 1]"
    by (simp add: upto_rec2)
  ultimately show ?thesis
    using assms(1) ok seq none num unfolding approvals_sound_def Let_def st'
    by (auto simp: approval_failure_snoc)
qed

lemma approvals_reachable_sound:
  "approvals_reachable lib hosts dt policies st \<Longrightarrow> approvals_sound lib hosts dt policies st"
proof (induction rule: approvals_reachable.induct)
  case (policy policies st pdt fr p now fresh policies' s)
  have grown: "policies' = policies @ [next_policy_row pdt fr p now fresh policies]"
    by (rule append_policy_Inr(1) [OF policy(2)])
  show ?case
    using policy(3) bound_snapshot_append unfolding grown approvals_sound_def Let_def list_all_iff
    by (meson approval_failure_policies)
next
  case (approval policies st trusted e now st' e')
  then show ?case by (blast intro: append_approval_sound)
qed (simp add: approvals_sound_def)

text \<open>The last word on a snapshot, in the order in which events were accepted.\<close>

definition last_word :: "approval_store \<Rightarrow> policy_snapshot \<Rightarrow> signed_approval option" where
  "last_word st s = (case filter (\<lambda>e. ap_source_id (se_payload e) = ps_source_id s
       \<and> ap_policy_version (se_payload e) = ps_version s \<and> ap_policy_hash (se_payload e) = ps_hash s) (map ar_event st) of
     [] \<Rightarrow> None | es \<Rightarrow> Some (last es))"

lemma latest_is_last_word:
  assumes "approvals_sound lib hosts dt policies st"
  shows "latest_approval st s = last_word st s"
proof -
  let ?P = "\<lambda>e. ap_source_id (se_payload e) = ps_source_id s \<and> ap_policy_version (se_payload e) = ps_version s
    \<and> ap_policy_hash (se_payload e) = ps_hash s"
  have "filter (\<lambda>r. ar_source_id r = ps_source_id s \<and> ar_policy_version r = ps_version s \<and> ar_policy_hash r = ps_hash s) st
      = filter (\<lambda>r. ?P (ar_event r)) st"
    using assms by (intro filter_cong refl) (auto simp: approvals_sound_def list_all_iff)
  then have "snapshot_rows st (ps_source_id s) (ps_version s) (ps_hash s) = filter (\<lambda>r. ?P (ar_event r)) st"
    by (simp add: sound_rows [OF assms])
  then show ?thesis
    by (auto simp: latest_approval_def last_word_def filter_map o_def last_map split: list.split)
qed

lemma stored_event:
  assumes "approvals_reachable lib hosts dt policies st" "last_word st s = Some e"
  shows "verify_source_approval lib dt e"
    "\<exists>s'. get_policy hosts policies (ps_source_id s) (ps_version s) = Inr s' \<and> ps_hash s' = ps_hash s"
proof -
  have "e \<in> set (filter (\<lambda>e. ap_source_id (se_payload e) = ps_source_id s
     \<and> ap_policy_version (se_payload e) = ps_version s \<and> ap_policy_hash (se_payload e) = ps_hash s) (map ar_event st))"
    (is "e \<in> set ?es")
    using assms(2) last_in_set [of ?es] by (cases ?es) (simp_all add: last_word_def)
  then obtain r where r: "r \<in> set st" "e = ar_event r" "ap_source_id (se_payload e) = ps_source_id s"
    "ap_policy_version (se_payload e) = ps_version s" "ap_policy_hash (se_payload e) = ps_hash s" by auto
  then have "\<exists>s'. bound_snapshot hosts policies e = Inr s'" and valid: "verify_source_approval lib dt e"
    using approvals_reachable_sound [OF assms(1)] by (simp_all add: approvals_sound_def list_all_iff)
  then show "verify_source_approval lib dt e"
    "\<exists>s'. get_policy hosts policies (ps_source_id s) (ps_version s) = Inr s' \<and> ps_hash s' = ps_hash s"
    using r(3-5) by (auto simp: bound_snapshot_def split: if_splits)
qed

lemma authorized_last_word:
  assumes "approvals_reachable lib hosts dt policies st"
  shows "aa_authorized (authorization lib hosts dt trusted policies st s) \<longleftrightarrow>
    access_status (ps_policy s) = APPROVED \<and> (\<exists>e. last_word st s = Some e
      \<and> ap_decision (se_payload e) = Approve \<and> signer_trusted trusted (se_signer_sha256 e))"
proof -
  note sound = approvals_reachable_sound [OF assms]
  have "av_valid (verify_approval_chain lib hosts dt policies st (ps_source_id s))"
    using sound by (simp add: verify_approval_chain_def approvals_sound_def Let_def sound_rows [OF sound])
  then show ?thesis
    using stored_event(1) [OF assms, of s]
    by (cases "last_word st s") (simp_all add: authorization_def Let_def latest_is_last_word [OF sound])
qed

text \<open>A source policy snapshot is authorized exactly when it is approved in the policy itself and the last signed
  event accepted for exactly this version and hash is an approval by a trusted signer: a revocation ends the
  authorization at once and no other event does. An authorized snapshot is the stored one, with a valid signature.\<close>

theorem authorized_iff_last_word:
  assumes "approvals_reachable lib hosts dt policies st"
  shows "(aa_authorized (authorization lib hosts dt trusted policies st s) \<longleftrightarrow>
      access_status (ps_policy s) = APPROVED \<and> (\<exists>e. last_word st s = Some e
        \<and> ap_decision (se_payload e) = Approve \<and> signer_trusted trusted (se_signer_sha256 e)))
    \<and> (case require_authorized lib hosts dt trusted policies st s of
        Inl err \<Rightarrow> \<not> aa_authorized (authorization lib hosts dt trusted policies st s)
      | Inr e \<Rightarrow> last_word st s = Some e \<and> verify_source_approval lib dt e
          \<and> (\<exists>s'. get_policy hosts policies (ps_source_id s) (ps_version s) = Inr s' \<and> ps_hash s' = ps_hash s))"
  using authorized_last_word [OF assms, of trusted s] stored_event [OF assms, of s]
  by (cases "last_word st s")
    (auto simp: require_authorized_def latest_is_last_word [OF approvals_reachable_sound [OF assms]])

section \<open>Signing\<close>

text \<open>An approval that was signed verifies, when Ed25519 verifies what it signs.\<close>

lemma signed_approval_verifies:
  assumes "signatures_ok lib"
  shows "verify_source_approval lib dt (sign_source_approval lib dt private p)"
proof -
  have len: "length (public_bytes lib private) = 32"
    and ok: "ed_verify lib (public_bytes lib private) (ed_sign lib private msg) msg" for msg
    using assms by (simp_all add: signatures_ok_def)
  let ?e = "sign_source_approval lib dt private p"
  have "approval_hash_body dt ?e = approval_hash_body dt (?e\<lparr>se_hash := h\<rparr>)" for h
    by (simp add: approval_hash_body_def)
  then show ?thesis
    using len ok by (simp add: verify_source_approval_def check_source_approval_def sign_source_approval_def Let_def
        b64decode_encode load_public_key_def check_signature_def approval_message_def approval_hash_body_def)
qed

end
