(* ===== verification/Approved_Acquisition.thy ===== *)
theory Approved_Acquisition
  imports Source_Automation Source_Approval
begin

text \<open>
  src/ballotproof/source_approval.py, \<open>ApprovalEnforcingAcquisitionWorker\<close>: the automation worker that asks
  for a signed approval before a plan is run.
\<close>

definition run_plan_approved :: "release_library \<Rightarrow> (datetime \<Rightarrow> string) \<Rightarrow> string list option \<Rightarrow> approval_store
    \<Rightarrow> net_library \<Rightarrow> (rat \<Rightarrow> int) \<Rightarrow> (source_policy \<Rightarrow> string) \<Rightarrow> policy_store
    \<Rightarrow> (string \<Rightarrow> transport option) \<Rightarrow> plan_runner" where
  "run_plan_approved lib dt trusted approvals net td policy_text policies transports plan evaluated clk w =
     (case latest_policy (hosts_lib net) policies (al_source_id plan) of
        Inl (KeyError _) \<Rightarrow> run_plan net td policy_text policies transports plan evaluated clk w
      | Inl e \<Rightarrow> (w, raise e)
      | Inr current \<Rightarrow>
          if ps_version current = al_policy_version plan \<and> ps_hash current = al_policy_hash plan
             \<and> access_status (ps_policy current) = APPROVED
             \<and> \<not> aa_authorized (authorization lib (hosts_lib net) dt trusted policies approvals current)
          then blocked_plan plan clk Run_Policy_Blocked None ''source_approval_missing_or_revoked'' w
          else run_plan net td policy_text policies transports plan evaluated clk w)"

section \<open>What a run may send\<close>

definition slot_sent :: "net_library \<Rightarrow> policy_snapshot \<Rightarrow> automation_plan \<Rightarrow> worker_state \<Rightarrow> worker_state \<Rightarrow> bool" where
  "slot_sent net current plan w w' \<longleftrightarrow> te_sent (wk_transport w') = te_sent (wk_transport w)
     \<or> (\<exists>q. te_sent (wk_transport w') = te_sent (wk_transport w) @ [q] \<and> permits_request net current q
         \<and> request_slot q = (al_source_id plan, slot_key plan, 1))"

lemma recorded_sent:
  "te_sent (wk_transport (fst (blocked_plan plan clk status rid err w))) = te_sent (wk_transport w)"
  "te_sent (wk_transport (fst (advanced_plan plan evaluated clk status rid receipt err' w))) = te_sent (wk_transport w)"
  "te_sent (wk_transport (fst (deferred_plan plan evaluated clk d w))) = te_sent (wk_transport w)"
proof -
  have kept: "te_sent (wk_transport v) = te_sent (wk_transport w)" if "\<exists>st. v = w\<lparr>wk_automation := st\<rparr>" for v
    using that by auto
  show "te_sent (wk_transport (fst (blocked_plan plan clk status rid err w))) = te_sent (wk_transport w)"
    "te_sent (wk_transport (fst (advanced_plan plan evaluated clk status rid receipt err' w))) = te_sent (wk_transport w)"
    "te_sent (wk_transport (fst (deferred_plan plan evaluated clk d w))) = te_sent (wk_transport w)"
    by (rule kept, rule recorded_store)+
qed

lemma slot_sent_refl [simp]: "slot_sent net current plan w w"
  by (simp add: slot_sent_def)

lemma slot_sent_recorded [simp]:
  "slot_sent net current plan w (fst (blocked_plan plan' clk status rid err v)) = slot_sent net current plan w v"
  "slot_sent net current plan w (fst (advanced_plan plan' evaluated clk status rid receipt err' v)) = slot_sent net current plan w v"
  "slot_sent net current plan w (fst (deferred_plan plan' evaluated clk d v)) = slot_sent net current plan w v"
  by (simp_all add: slot_sent_def recorded_sent)

lemma run_reserved_sent:
  assumes "latest_policy (hosts_lib net) policies (al_source_id plan) = Inr current"
    "re_request_key r = slot_key plan" "re_attempt r = 1"
  shows "slot_sent net current plan w (fst (run_reserved net policy_text policies current t plan evaluated clk r w))"
proof -
  obtain st res where e: "execute net policy_text policies current r t None (rn_execution clk) (wk_transport w) = (st, res)"
    by fastforce
  have "slot_sent net current plan w (w\<lparr>wk_transport := st\<rparr>)"
    using e
  proof (cases rule: execute_sent)
    case (sent now_current limit)
    note b = validate_binding_Inr [OF sent(1)]
    obtain row where src: "ps_source_id current = al_source_id plan" by (rule latest_policy_stored [OF assms(1)])
    then have "re_source_id r = al_source_id plan" using validate_binding_source [OF sent(1)] by simp
    note src = this src
    have same: "now_current = current" using b(1) assms(1) src by simp
    have "permits_request net current (transport_request_of r current limit)"
      using b(2,4,5) sent(3,4) src
      by (simp add: same permits_request_def transport_request_of_def transport_request_ok_def)
    moreover have "request_slot (transport_request_of r current limit) = (al_source_id plan, slot_key plan, 1)"
      by (simp add: reservation_slot_def assms(2,3) src)
    ultimately show ?thesis using sent(2) by (simp add: slot_sent_def same)
  qed (simp add: slot_sent_def)
  then show ?thesis by (simp add: run_reserved_def Let_def e split: sum.split execution_status.split)
qed

lemma run_slot_sent:
  assumes "latest_policy (hosts_lib net) policies (al_source_id plan) = Inr current"
  shows "slot_sent net current plan w (fst (run_slot net td policy_text policies current t plan evaluated clk w))"
proof (cases "existing_reservation (al_source_id plan) (slot_key plan) (wk_reservations w)")
  case (Some r)
  then show ?thesis using existing_reservation_stored [OF Some] assms by (simp add: run_slot_def run_reserved_sent)
next
  case None
  show ?thesis
  proof (cases "reserve net td current (slot_request plan current)
      (receipts (te_captures (wk_transport w)) (al_source_id plan)) evaluated (rn_reservation_fresh clk) (wk_reservations w)")
    case (Inl e)
    then show ?thesis using None by (simp add: run_slot_def)
  next
    case (Inr c)
    obtain st d where c: "c = (st, d)" by (cases c)
    have store: "slot_sent net current plan (w\<lparr>wk_reservations := st\<rparr>) v = slot_sent net current plan w v" for v
      by (simp add: slot_sent_def)
    from Inr [unfolded c] show ?thesis
    proof (cases rule: reserve_granted)
      case denied
      have "slot_sent net current plan w (fst (deferred_plan plan evaluated clk d (w\<lparr>wk_reservations := st\<rparr>)))"
        by (simp only: slot_sent_recorded) (simp add: slot_sent_def)
      then show ?thesis using denied(2) None Inr c by (simp add: run_slot_def)
    next
      case (new r)
      have r: "re_request_key r = slot_key plan" "re_attempt r = 1"
        using new(2,3) reserve_Inr [OF Inr [unfolded c]] reserve_slot_Inr
        by (fastforce simp: new_reservation_def slot_request_def)+
      have "slot_sent net current plan w
          (fst (run_reserved net policy_text policies current t plan evaluated clk r (w\<lparr>wk_reservations := st\<rparr>)))"
        using run_reserved_sent [OF assms r, of "w\<lparr>wk_reservations := st\<rparr>"] by (simp only: store)
      then show ?thesis using None Inr c new(2,3) by (simp add: run_slot_def)
    qed
  qed
qed

lemma run_plan_sent:
  "te_sent (wk_transport (fst (run_plan net td policy_text policies transports plan evaluated clk w))) = te_sent (wk_transport w)
   \<or> (\<exists>current. latest_policy (hosts_lib net) policies (al_source_id plan) = Inr current
       \<and> ps_version current = al_policy_version plan \<and> ps_hash current = al_policy_hash plan
       \<and> access_status (ps_policy current) = APPROVED
       \<and> slot_sent net current plan w (fst (run_plan net td policy_text policies transports plan evaluated clk w)))"
proof (cases "latest_policy (hosts_lib net) policies (al_source_id plan)")
  case (Inl e)
  then show ?thesis by (cases e) (simp_all add: run_plan_def recorded_sent)
next
  case (Inr current)
  then show ?thesis using run_slot_sent [OF Inr]
    by (cases "transports (al_source_id plan)") (simp_all add: run_plan_def recorded_sent)
qed

text \<open>C26. With the approval worker a plan fetches only what was signed for: a run sends nothing, or exactly one request for
  its own slot, under the newest policy of the source, which is the version and hash the plan was made for, is
  approved, and whose last signed event is an approval by a trusted signer. Once an approval is revoked, or the policy
  changes, nothing is sent.\<close>

theorem only_approved_slots_sent:
  assumes "approvals_reachable lib (hosts_lib net) dt policies approvals"
    "run_plan_approved lib dt trusted approvals net td policy_text policies transports plan evaluated clk w = (w', res)"
    "te_sent (wk_transport w') \<noteq> te_sent (wk_transport w)"
  shows "\<exists>current e q. latest_policy (hosts_lib net) policies (al_source_id plan) = Inr current
    \<and> ps_version current = al_policy_version plan \<and> ps_hash current = al_policy_hash plan
    \<and> last_word approvals current = Some e \<and> ap_decision (se_payload e) = Approve
    \<and> signer_trusted trusted (se_signer_sha256 e) \<and> verify_source_approval lib dt e
    \<and> te_sent (wk_transport w') = te_sent (wk_transport w) @ [q] \<and> permits_request net current q
    \<and> request_slot q = (al_source_id plan, slot_key plan, 1)"
proof -
  have run: "run_plan net td policy_text policies transports plan evaluated clk w = (w', res)"
  proof (cases "latest_policy (hosts_lib net) policies (al_source_id plan)")
    case (Inl e)
    then show ?thesis using assms(2,3) by (cases e) (auto simp: run_plan_approved_def)
  next
    case (Inr c)
    then show ?thesis using assms(2,3) recorded_sent(1) by (auto simp: run_plan_approved_def split: if_splits) (metis fst_conv)
  qed
  from run_plan_sent [of net td policy_text policies transports plan evaluated clk w, unfolded run fst_conv] assms(3)
  obtain current where c: "latest_policy (hosts_lib net) policies (al_source_id plan) = Inr current"
    "ps_version current = al_policy_version plan" "ps_hash current = al_policy_hash plan"
    "access_status (ps_policy current) = APPROVED" "slot_sent net current plan w w'" by blast
  have auth: "aa_authorized (authorization lib (hosts_lib net) dt trusted policies approvals current)"
    using assms(2,3) c recorded_sent(1) by (auto simp: run_plan_approved_def split: if_splits) (metis fst_conv)
  obtain e where "last_word approvals current = Some e" "ap_decision (se_payload e) = Approve"
    "signer_trusted trusted (se_signer_sha256 e)" "verify_source_approval lib dt e"
    using auth stored_event(1) [OF assms(1)] by (auto simp: authorized_last_word [OF assms(1)])
  then show ?thesis using c assms(3) by (auto simp: slot_sent_def)
qed

end
