(* ===== verification/Acquisition_Demo.thy ===== *)
theory Acquisition_Demo
  imports Approved_Acquisition
begin

text \<open>
  A source with one policy, a signed approval of it, a plan and a transport: what the theorems on transports, plans
  and approvals say of them.
\<close>

section \<open>The policy and its approval\<close>

definition demo_row :: policy_snapshot where
  "demo_row = next_policy_row isoformat demo_repr demo_policy demo_time ''0'' empty_policy_store"

definition demo_current :: policy_snapshot where
  "demo_current = demo_row\<lparr>ps_policy := demo_policy\<lparr>allowed_hosts := [''a.org'']\<rparr>\<rparr>"

lemma demo_rows_empty [simp]: "policy_rows empty_policy_store src = []"
  by (simp add: policy_rows_def empty_policy_store_def)

lemma demo_row_fields [simp]:
  "ps_source_id demo_row = ''src''" "ps_version demo_row = 1" "ps_policy demo_row = demo_policy"
  "ps_previous_hash demo_row = None"
  by (simp_all add: demo_row_def) (simp add: demo_policy_def)

lemma demo_row_hash: "is_sha256_hex (ps_hash demo_row)"
  by (simp add: demo_row_def)

lemma demo_current_fields [simp]:
  "ps_source_id demo_current = ''src''" "ps_version demo_current = 1" "ps_hash demo_current = ps_hash demo_row"
  "sp_source_id (ps_policy demo_current) = ''src''" "access_status (ps_policy demo_current) = APPROVED"
  "max_attempts (ps_policy demo_current) = 3" "requests_per_minute (ps_policy demo_current) = 2"
  "max_response_bytes (ps_policy demo_current) = 100" "request_timeout_seconds (ps_policy demo_current) = 20"
  by (simp_all add: demo_current_def demo_policy_def)

lemma demo_snapshot_of: "row_to_snapshot demo_lib demo_row = Inr demo_current"
  using demo_row_hash by (simp add: row_to_snapshot_def demo_policy_ok demo_current_def)

lemma demo_policy_appended:
  "append_policy demo_lib isoformat demo_repr demo_policy demo_time ''0'' empty_policy_store = Inr ([demo_row], demo_current)"
  unfolding append_policy_def Let_def demo_row_def [symmetric]
  by (simp add: demo_snapshot_of insert_policy_row_def) (simp add: empty_policy_store_def)

lemma demo_latest: "latest_policy demo_lib [demo_row] ''src'' = Inr demo_current"
  by (simp add: latest_policy_def policy_history_def policy_rows_def demo_snapshot_of)

definition demo_approval :: signed_approval where
  "demo_approval = sign_source_approval demo_release_library isoformat [1, 2, 3]
     \<lparr>ap_event_id = ''e'', ap_source_id = ''src'', ap_policy_version = 1, ap_policy_hash = ps_hash demo_row,
      ap_decision = Approve, ap_approver_id = ''alice'',
      ap_reviewed = [\<lparr>rw_reference = ''terms'', rw_sha256 = ps_hash demo_row, rw_description = None\<rparr>],
      ap_rationale = ''reviewed'', ap_issued_at = demo_time, ap_previous_hash = None\<rparr>"

lemma demo_approval_payload [simp]:
  "ap_source_id (se_payload demo_approval) = ''src''" "ap_policy_version (se_payload demo_approval) = 1"
  "ap_policy_hash (se_payload demo_approval) = ps_hash demo_row" "ap_decision (se_payload demo_approval) = Approve"
  "ap_previous_hash (se_payload demo_approval) = None" "se_stored_at demo_approval = None"
  by (simp_all add: demo_approval_def sign_source_approval_def Let_def)

definition demo_approvals :: approval_store where
  "demo_approvals = [approval_row_of demo_approval 1 demo_time]"

lemma demo_approved:
  "append_approval demo_release_library demo_lib isoformat None [demo_row] demo_approval demo_time []
     = Inr (demo_approvals, demo_approval\<lparr>se_stored_at := Some demo_time\<rparr>)"
proof -
  have "verify_source_approval demo_release_library isoformat demo_approval"
    unfolding demo_approval_def by (rule signed_approval_verifies [OF demo_signatures_ok])
  moreover have "bound_snapshot demo_lib [demo_row] demo_approval = Inr demo_current"
    by (simp add: bound_snapshot_def get_policy_def demo_snapshot_of)
  ultimately show ?thesis
    by (simp add: append_approval_def signer_trusted_def extend_approvals_def Let_def approval_rows_def insert_approval_def
        demo_approvals_def)
qed

lemma demo_approvals_reachable: "approvals_reachable demo_release_library demo_lib isoformat [demo_row] demo_approvals"
  by (rule approvals_reachable.approval [OF approvals_reachable.policy [OF approvals_reachable.init demo_policy_appended]
        demo_approved])

lemma authorized_iff_last_word_witness:
  "aa_authorized (authorization demo_release_library demo_lib isoformat None [demo_row] demo_approvals demo_current)"
  using authorized_iff_last_word [OF demo_approvals_reachable, of None demo_current]
  by (simp add: last_word_def demo_approvals_def signer_trusted_def)

section \<open>A plan that is run\<close>

definition demo_plan :: automation_plan where
  "demo_plan = \<lparr>al_plan_id = ''bp_auto_0'', al_source_id = ''src'', al_policy_version = 1, al_policy_hash = ps_hash demo_row,
     al_request_url = ''https://a.org/x'', al_request_method = ''GET'', al_interval_seconds = 300,
     al_next_run_at = demo_clock 0, al_enabled = True, al_created_at = demo_clock 0, al_updated_at = demo_clock 0\<rparr>"

definition demo_transport :: transport where
  "demo_transport = \<lparr>ts_id = None, ts_version = None, ts_config_hash = None, ts_identity = ''demo.Transport'',
     ts_send = (\<lambda>q. Inr (Buffered \<lparr>rh_status_code = 200, rh_received_at = demo_clock 1, rh_media_type = None,
       rh_etag = None, rh_last_modified = None\<rparr> [1, 2, 3]))\<rparr>"

definition demo_execution_clock :: execution_clock where
  "demo_execution_clock = \<lparr>ec_started = demo_clock 1, ec_stored = demo_clock 1, ec_fresh = ''0'', ec_finished = demo_clock 2\<rparr>"

definition demo_run_clock :: run_clock where
  "demo_run_clock = \<lparr>rn_started = demo_clock 0, rn_updated = demo_clock 2, rn_completed = demo_clock 2, rn_run_fresh = ''0'',
     rn_reservation_fresh = ''0'', rn_execution = demo_execution_clock\<rparr>"

definition demo_worker :: worker_state where
  "demo_worker = \<lparr>wk_reservations = [], wk_transport = empty_transport,
     wk_automation = \<lparr>as_plans = [demo_plan], as_runs = []\<rparr>\<rparr>"

definition demo_slot :: reservation where
  "demo_slot = new_reservation demo_net demo_current (slot_request demo_plan demo_current) (demo_clock 0) ''0''"

lemma demo_slot_fields [simp]:
  "reservation_id demo_slot = ''bp_req_0''" "re_source_id demo_slot = ''src''" "re_policy_version demo_slot = 1"
  "re_policy_hash demo_slot = ps_hash demo_row" "re_attempt demo_slot = 1" "re_request_key demo_slot = slot_key demo_plan"
  "re_request_url demo_slot = ''https://a.org/x''" "re_request_method demo_slot = ''GET''"
  by (simp_all add: demo_slot_def new_reservation_def slot_request_def demo_plan_def demo_net_def)

lemma demo_net_hosts [simp]: "hosts_lib demo_net = demo_lib"
  by (simp add: demo_net_def)

lemma demo_permitted_current: "validate_source_request demo_net (ps_policy demo_current) u ''GET'' = Inr ()"
  by (simp add: validate_source_request_def demo_net_def host_violation_def normalize_source_host_def
      demo_lib_def demo_current_def rstrip_char_def)

lemma demo_slot_key: "slot_key demo_plan = ''bp_auto_0:0001-01-01T01:00:00+00:00''"
proof -
  have "isoformat (demo_clock 0) = ''0001-01-01T01:00:00+00:00''" by code_simp
  then show ?thesis by (simp add: slot_key_def demo_plan_def)
qed

lemma demo_slot_request_ok: "reservation_request_ok (slot_request demo_plan demo_current)"
  using demo_row_hash by (simp add: reservation_request_ok_def slot_request_def demo_slot_key)
    (simp add: demo_plan_def len_between_def py_len_def)

lemma demo_slot_granted:
  "reserve demo_net (\<lambda>x. 0) demo_current (slot_request demo_plan demo_current) [] (demo_clock 0) ''0'' [] =
     Inr ([demo_slot], \<lparr>allowed = True, block_reason = None, next_allowed_at = None,
       retry_after_seconds = 0, granted = Some demo_slot\<rparr>)"
proof -
  have q: "sq_policy_version (slot_request demo_plan demo_current) = 1"
    "sq_policy_hash (slot_request demo_plan demo_current) = ps_hash demo_row"
    "sq_request_method (slot_request demo_plan demo_current) = ''GET''"
    "sq_attempt (slot_request demo_plan demo_current) = 1"
    by (simp_all add: slot_request_def demo_plan_def)
  show ?thesis
    by (simp add: reserve_def q demo_permitted_current matching_receipts_def retry_backoff_def reserve_slot_def Let_def
        window_rows_def rate_limit_until_def insert_reservation_def demo_slot_def [symmetric])
qed

definition demo_transports :: "string \<Rightarrow> transport option" where
  "demo_transports src = (if src = ''src'' then Some demo_transport else None)"

lemma demo_prepared:
  "\<exists>st p. prepare demo_net [demo_row] demo_current demo_slot demo_transport None (demo_clock 1) empty_transport = (st, Inr p)
     \<and> te_sent st = []"
proof -
  have bind: "validate_binding demo_net [demo_row] demo_current demo_slot = Inr demo_current"
    by (simp add: validate_binding_def demo_latest demo_permitted_current)
  have prov: "\<exists>prov. transport_provenance_of demo_transport = Inr prov"
    by (simp add: transport_provenance_of_def demo_transport_def len_between_def py_len_def)
  have ok: "transport_request_ok (transport_request_of demo_slot demo_current 100)"
    using demo_row_hash by (simp add: transport_request_ok_def transport_request_of_def)
  from prov obtain prov where "transport_provenance_of demo_transport = Inr prov" by blast
  then show ?thesis by (simp add: prepare_def bind claim_def empty_transport_def ok)
qed

lemma demo_recorded:
  "\<exists>w' run. advanced_plan demo_plan (demo_clock 0) demo_run_clock status rid receipt err
     (demo_worker\<lparr>wk_reservations := rs, wk_transport := st\<rparr>) = (w', Inr run) \<and> wk_transport w' = st"
  by (simp add: advanced_plan_def record_run_def advance_def dt_le_def demo_worker_def defer_plan_def update_plan_def
      get_plan_def add_run_def Let_def) (simp add: demo_plan_def)

lemma demo_executed:
  "\<exists>st res. execute demo_net (\<lambda>p. []) [demo_row] demo_current demo_slot demo_transport None demo_execution_clock empty_transport
     = (st, res) \<and> te_sent st \<noteq> []"
proof -
  obtain st p where p: "prepare demo_net [demo_row] demo_current demo_slot demo_transport None (demo_clock 1) empty_transport
      = (st, Inr p)" using demo_prepared by blast
  have "te_sent (fst (conclude upper policy_text p answer stored fresh finished (send_prepared p st))) \<noteq> []"
    for upper policy_text answer stored fresh finished by (simp add: conclude_sent send_prepared_def)
  then show ?thesis
    by (simp add: execute_def demo_execution_clock_def p) (metis fst_conv surj_pair)
qed

lemma demo_plan_run:
  "\<exists>w' run. run_plan demo_net (\<lambda>x. 0) (\<lambda>p. []) [demo_row] demo_transports demo_plan (demo_clock 0) demo_run_clock
     demo_worker = (w', Inr run) \<and> te_sent (wk_transport w') \<noteq> []"
proof -
  obtain st res where e: "execute demo_net (\<lambda>p. []) [demo_row] demo_current demo_slot demo_transport None demo_execution_clock
      empty_transport = (st, res)" "te_sent st \<noteq> []" using demo_executed by blast
  let ?w = "demo_worker\<lparr>wk_reservations := [demo_slot]\<rparr>"
  have w: "wk_transport ?w = empty_transport" "find_execution rid (te_rows empty_transport) = Inl (KeyError ''Unknown reservation_id: '')" for rid
    by (simp_all add: demo_worker_def find_execution_def) (simp add: empty_transport_def)
  have v: "wk_transport demo_worker = empty_transport" "wk_reservations demo_worker = []"
    "rn_execution demo_run_clock = demo_execution_clock" "rn_reservation_fresh demo_run_clock = ''0''"
    by (simp_all add: demo_worker_def demo_run_clock_def)
  have plan: "al_source_id demo_plan = ''src''" "al_policy_version demo_plan = 1" "al_policy_hash demo_plan = ps_hash demo_row"
    by (simp_all add: demo_plan_def)
  have recorded: "\<exists>w' run. advanced_plan demo_plan (demo_clock 0) demo_run_clock status rid receipt err
      (?w\<lparr>wk_transport := st\<rparr>) = (w', Inr run) \<and> wk_transport w' = st" for status rid receipt err
    using demo_recorded by simp
  have "\<exists>w' run. run_reserved demo_net (\<lambda>p. []) [demo_row] demo_current demo_transport demo_plan (demo_clock 0) demo_run_clock
      demo_slot ?w = (w', Inr run) \<and> wk_transport w' = st"
    using recorded by (cases res) (simp_all add: run_reserved_def Let_def w v(3) e(1))
  moreover have "run_slot demo_net (\<lambda>x. 0) (\<lambda>p. []) [demo_row] demo_current demo_transport demo_plan (demo_clock 0) demo_run_clock
      demo_worker = run_reserved demo_net (\<lambda>p. []) [demo_row] demo_current demo_transport demo_plan (demo_clock 0) demo_run_clock
      demo_slot ?w"
    by (simp add: run_slot_def existing_reservation_def reservations_def v plan demo_slot_request_ok receipts_def empty_transport_def
        empty_captures_def demo_slot_granted)
  ultimately show ?thesis using e(2) by (auto simp: run_plan_def plan demo_latest demo_transports_def)
qed

section \<open>What the theorems say of it\<close>

lemma run_plan_not_due_again_witness:
  "\<exists>(w' :: worker_state) run. plan_handled demo_plan (demo_clock 0) demo_worker w' run"
proof -
  obtain w' run where r: "run_plan demo_net (\<lambda>x. 0) (\<lambda>p. []) [demo_row] demo_transports demo_plan (demo_clock 0)
    demo_run_clock demo_worker = (w', Inr run)" using demo_plan_run by blast
  have "60 \<le> al_interval_seconds demo_plan" by (simp add: demo_plan_def)
  from run_plan_not_due_again [OF r this] show ?thesis by blast
qed

lemma demo_plan_created:
  "\<exists>q. automation_request_ok (upper_text demo_net) q
     \<and> create_plan (upper_text demo_net) demo_current q (demo_clock 0) ''0'' \<lparr>as_plans = [], as_runs = []\<rparr>
       = Inr (\<lparr>as_plans = [demo_plan], as_runs = []\<rparr>, demo_plan)"
proof -
  let ?q = "\<lparr>aq_source_id = ''src'', aq_policy_version = 1, aq_policy_hash = ps_hash demo_row,
    aq_request_url = ''https://a.org/x'', aq_request_method = ''GET'', aq_interval_seconds = 300, aq_start_at = None\<rparr>"
  have "automation_request_ok (upper_text demo_net) ?q"
    using demo_row_hash by (simp add: automation_request_ok_def demo_net_def len_between_def py_len_def)
  moreover have "new_plan (upper_text demo_net) ?q (demo_clock 0) ''0'' = demo_plan"
    by (simp add: new_plan_def demo_plan_def demo_net_def)
  then have "create_plan (upper_text demo_net) demo_current ?q (demo_clock 0) ''0'' \<lparr>as_plans = [], as_runs = []\<rparr>
      = Inr (\<lparr>as_plans = [demo_plan], as_runs = []\<rparr>, demo_plan)"
    by (simp add: create_plan_def Let_def)
  ultimately show ?thesis by blast
qed

lemma demo_worker_run: "worker_run demo_net (\<lambda>x. 0) (\<lambda>p. []) [demo_row] demo_worker"
proof -
  have "append_policy (hosts_lib demo_net) isoformat demo_repr demo_policy demo_time ''0'' empty_policy_store
      = Inr ([demo_row], demo_current)" by (simp add: demo_policy_appended)
  note start = worker_run.policy [OF worker_run.init this]
  obtain q where q: "automation_request_ok (upper_text demo_net) q"
    "create_plan (upper_text demo_net) demo_current q (demo_clock 0) ''0'' \<lparr>as_plans = [], as_runs = []\<rparr>
       = Inr (\<lparr>as_plans = [demo_plan], as_runs = []\<rparr>, demo_plan)" using demo_plan_created by blast
  show ?thesis
    using worker_run.create [OF start q(1), of demo_current "demo_clock 0" "''0''" _ demo_plan] q(2)
    by (simp add: demo_worker_def)
qed

lemma demo_worker_sent:
  "\<exists>w'. worker_run demo_net (\<lambda>x. 0) (\<lambda>p. []) [demo_row] w' \<and> te_sent (wk_transport w') \<noteq> []"
proof -
  obtain w' run where "run_plan demo_net (\<lambda>x. 0) (\<lambda>p. []) [demo_row] demo_transports demo_plan (demo_clock 0)
    demo_run_clock demo_worker = (w', Inr run)" "te_sent (wk_transport w') \<noteq> []" using demo_plan_run by blast
  then show ?thesis using worker_run.run [OF demo_worker_run] by blast
qed

lemma slots_fetched_once_witness:
  "\<exists>w' :: worker_state. te_sent (wk_transport w') \<noteq> [] \<and> list_all (request_allowed demo_net [demo_row]) (te_sent (wk_transport w'))
     \<and> list_all (reserved_for (wk_reservations w')) (te_sent (wk_transport w'))"
  using demo_worker_sent slots_fetched_once by blast

lemma requests_sent_once_and_permitted_witness:
  "\<exists>st :: transport_state. te_sent st \<noteq> [] \<and> list_all (request_allowed demo_net [demo_row]) (te_sent st)
     \<and> set (map tq_reservation_id (te_sent st)) \<subseteq> set (map ex_reservation_id (te_rows st))"
proof -
  obtain w' where w: "worker_run demo_net (\<lambda>x. 0) (\<lambda>p. []) [demo_row] w'" "te_sent (wk_transport w') \<noteq> []"
    using demo_worker_sent by blast
  have "transport_run demo_net (\<lambda>p. []) [demo_row] (wk_transport w') [] []"
    using worker_run_sound [OF w(1)] by (simp add: worker_sound_def)
  from requests_sent_once_and_permitted [OF this] w(2) show ?thesis by blast
qed

lemma demo_authorized:
  "aa_authorized (authorization demo_release_library demo_lib isoformat None [demo_row] demo_approvals demo_current)"
  using authorized_last_word [OF demo_approvals_reachable, of None demo_current]
  by (simp add: last_word_def demo_approvals_def signer_trusted_def)

lemma only_approved_slots_sent_witness:
  "\<exists>(w' :: worker_state) current e q. last_word demo_approvals current = Some e \<and> ap_decision (se_payload e) = Approve
     \<and> te_sent (wk_transport w') = [q] \<and> permits_request demo_net current q
     \<and> request_slot q = (''src'', slot_key demo_plan, 1)"
proof -
  obtain w' run where r: "run_plan demo_net (\<lambda>x. 0) (\<lambda>p. []) [demo_row] demo_transports demo_plan (demo_clock 0)
    demo_run_clock demo_worker = (w', Inr run)" "te_sent (wk_transport w') \<noteq> []" using demo_plan_run by blast
  have plan: "al_source_id demo_plan = ''src''" "te_sent (wk_transport demo_worker) = []"
    by (simp_all add: demo_plan_def demo_worker_def empty_transport_def)
  have reach: "approvals_reachable demo_release_library (hosts_lib demo_net) isoformat [demo_row] demo_approvals"
    by (simp add: demo_approvals_reachable)
  have "run_plan_approved demo_release_library isoformat None demo_approvals demo_net (\<lambda>x. 0) (\<lambda>p. []) [demo_row]
      demo_transports demo_plan (demo_clock 0) demo_run_clock demo_worker = (w', Inr run)"
    using r(1) by (simp add: run_plan_approved_def plan demo_latest demo_authorized)
  from only_approved_slots_sent [OF reach this] r(2) show ?thesis by (simp add: plan) blast
qed

end
