(* ===== verification/Collation.thy ===== *)
theory Collation
  imports Evidence_Models Complex_Main
begin

text \<open>
  src/ballotproof/collation.py and src/ballotproof/aggregation_protocol.py: replaying one
  aggregation edge. The units' totals are added, compared with the declared totals, and the report
  says which units and candidates were missing or unexpected. \<open>coverage_fraction\<close> is the exact
  quotient; the code's float is its nearest double.
\<close>

section \<open>The collation request and report\<close>

record collation_input =
  unit_id :: string
  candidate_totals :: "int dict"

record candidate_delta =
  dl_candidate_id :: string
  computed_votes :: int
  declared_votes :: int
  delta :: int

record collation_request =
  cr_level :: string
  cr_node_id :: string
  cr_expected_unit_ids :: "string list"
  cr_expected_candidate_ids :: "string list option"
  inputs :: "collation_input list"
  cr_declared_totals :: "int dict option"

record collation_report =
  level :: string
  node_id :: string
  collation_status :: evidence_status
  expected_units :: nat
  received_expected_units :: nat
  coverage_fraction :: rat
  complete :: bool
  missing_unit_ids :: "string list"
  unexpected_unit_ids :: "string list"
  cl_expected_candidate_ids :: "string list option"
  missing_candidate_ids_by_unit :: "string list dict"
  unexpected_candidate_ids_by_unit :: "string list dict"
  computed_totals :: "int dict"
  declared_totals :: "int dict option"
  declared_missing_candidate_ids :: "string list"
  declared_unexpected_candidate_ids :: "string list"
  declared_match :: "bool option"
  declared_differences :: "candidate_delta list"

definition totals_negative :: "int dict \<Rightarrow> bool" where
  "totals_negative d = list_ex (\<lambda>(k, v). v < 0) d"

definition make_collation_input :: "collation_input \<Rightarrow> collation_input result" where
  "make_collation_input i = guarded
     [(\<not> (len_between 1 256 (unit_id i) \<and> dict_ok (candidate_totals i)), field_error),
      (totals_negative (candidate_totals i), ValueError ''candidate totals must be non-negative'')] i"

definition collation_fields_ok :: "collation_request \<Rightarrow> bool" where
  "collation_fields_ok r = (len_between 1 128 (cr_level r) \<and> len_between 1 256 (cr_node_id r)
     \<and> cr_expected_unit_ids r \<noteq> []
     \<and> opt_all (\<lambda>ids. ids \<noteq> []) (cr_expected_candidate_ids r)
     \<and> opt_all dict_ok (cr_declared_totals r)
     \<and> list_all (\<lambda>i. make_collation_input i = Inr i) (inputs r))"

definition identifiers_are_unique :: "collation_request \<Rightarrow> collation_request result" where
  "identifiers_are_unique r = guarded
     [(\<not> distinct (cr_expected_unit_ids r), ValueError ''expected_unit_ids must be unique''),
      (\<not> opt_all distinct (cr_expected_candidate_ids r),
       ValueError ''expected_candidate_ids must be unique''),
      (\<not> distinct (map unit_id (inputs r)),
       ValueError ''collation input unit_id values must be unique''),
      (\<not> opt_all (\<lambda>d. \<not> totals_negative d) (cr_declared_totals r),
       ValueError ''declared totals must be non-negative'')] r"

definition make_collation_request :: "collation_request \<Rightarrow> collation_request result" where
  "make_collation_request r =
     (if collation_fields_ok r then identifiers_are_unique r else raise field_error)"

section \<open>\<open>replay_collation\<close>\<close>

definition by_unit :: "collation_request \<Rightarrow> collation_input dict" where
  "by_unit r = dict_of (map (\<lambda>item. (unit_id item, item)) (inputs r))"

definition unit_totals :: "collation_request \<Rightarrow> string \<Rightarrow> int dict" where
  "unit_totals r u = candidate_totals (the (dict_get (by_unit r) u))"

definition included_ids :: "collation_request \<Rightarrow> string list" where
  "included_ids r = sorted_set (set (cr_expected_unit_ids r) \<inter> dict_keys (by_unit r))"

text \<open>The loop that files, unit by unit, the candidates that \<open>gap\<close> finds, when it finds any.\<close>

definition gaps_by_unit :: "(string \<Rightarrow> string list) \<Rightarrow> string list \<Rightarrow> string list dict" where
  "gaps_by_unit gap us = foldl (\<lambda>d u. if gap u = [] then d else dict_set u (gap u) d) [] us"

definition missing_by_unit :: "collation_request \<Rightarrow> string list dict" where
  "missing_by_unit r = (case cr_expected_candidate_ids r of
       None \<Rightarrow> []
     | Some es \<Rightarrow> gaps_by_unit (\<lambda>u. sorted_set (set es - dict_keys (unit_totals r u))) (included_ids r))"

definition unexpected_by_unit :: "collation_request \<Rightarrow> string list dict" where
  "unexpected_by_unit r = (case cr_expected_candidate_ids r of
       None \<Rightarrow> []
     | Some es \<Rightarrow> gaps_by_unit (\<lambda>u. sorted_set (dict_keys (unit_totals r u) - set es)) (included_ids r))"

definition add_totals :: "int dict \<Rightarrow> int dict \<Rightarrow> int dict" where
  "add_totals = foldl (\<lambda>computed (c, v). dict_set c (dict_default 0 computed c + v) computed)"

definition computed :: "collation_request \<Rightarrow> int dict" where
  "computed r = foldl (\<lambda>computed u. add_totals computed (unit_totals r u)) [] (included_ids r)"

definition comparable :: "collation_request \<Rightarrow> int dict \<Rightarrow> string set" where
  "comparable r declared = (case cr_expected_candidate_ids r of
       Some es \<Rightarrow> (set es \<inter> dict_keys declared) - \<Union> (set ` snd ` set (missing_by_unit r))
     | None \<Rightarrow> dict_keys (computed r) \<inter> dict_keys declared)"

definition delta_of :: "collation_request \<Rightarrow> int dict \<Rightarrow> string \<Rightarrow> candidate_delta list" where
  "delta_of r declared c =
     (case dict_get (computed r) c of
        None \<Rightarrow> []
      | Some mine \<Rightarrow>
          (let decl = the (dict_get declared c) in
           if mine = decl then []
           else [\<lparr>dl_candidate_id = c, computed_votes = mine, declared_votes = decl,
                  delta = decl - mine\<rparr>]))"

definition replay_collation :: "collation_request \<Rightarrow> collation_report" where
  "replay_collation r =
     (let expd_units = set (cr_expected_unit_ids r);
          provided_units = dict_keys (by_unit r);
          missing_units = sorted_set (expd_units - provided_units);
          unexpected_units = sorted_set (provided_units - expd_units);
          (declared_missing, declared_unexpected, declared_diffs) =
            (case cr_declared_totals r of
               None \<Rightarrow> ([], [], [])
             | Some declared \<Rightarrow>
                 (case cr_expected_candidate_ids r of
                    Some es \<Rightarrow> sorted_set (set es - dict_keys declared) | None \<Rightarrow> [],
                  case cr_expected_candidate_ids r of
                    Some es \<Rightarrow> sorted_set (dict_keys declared - set es) | None \<Rightarrow> [],
                  concat (map (delta_of r declared) (sorted_set (comparable r declared)))));
          has_failure = (unexpected_units \<noteq> [] \<or> unexpected_by_unit r \<noteq> []
            \<or> declared_unexpected \<noteq> [] \<or> declared_diffs \<noteq> []);
          has_incomplete_evidence = (missing_units \<noteq> [] \<or> cr_expected_candidate_ids r = None
            \<or> missing_by_unit r \<noteq> [] \<or> cr_declared_totals r \<noteq> None \<and> declared_missing \<noteq> []);
          status = (if has_failure then FAILED
            else if has_incomplete_evidence then INCOMPLETE else VERIFIED)
      in \<lparr>level = cr_level r, node_id = cr_node_id r, collation_status = status,
          expected_units = card expd_units, received_expected_units = length (included_ids r),
          coverage_fraction = of_nat (length (included_ids r)) / of_nat (card expd_units),
          complete = is_verified status,
          missing_unit_ids = missing_units, unexpected_unit_ids = unexpected_units,
          cl_expected_candidate_ids = cr_expected_candidate_ids r,
          missing_candidate_ids_by_unit = missing_by_unit r,
          unexpected_candidate_ids_by_unit = unexpected_by_unit r,
          computed_totals = dict_sorted (computed r), declared_totals = cr_declared_totals r,
          declared_missing_candidate_ids = declared_missing,
          declared_unexpected_candidate_ids = declared_unexpected,
          declared_match = map_option (\<lambda>_. is_verified status) (cr_declared_totals r),
          declared_differences = declared_diffs\<rparr>)"

section \<open>Lookup by unit\<close>

lemma make_collation_input_Inr:
  "make_collation_input i = Inr j \<longleftrightarrow> j = i \<and> len_between 1 256 (unit_id i)
     \<and> dict_ok (candidate_totals i) \<and> \<not> totals_negative (candidate_totals i)"
  by (auto simp: make_collation_input_def)

lemma make_collation_request_Inr:
  "make_collation_request r = Inr q \<longleftrightarrow> q = r \<and> collation_fields_ok r
     \<and> distinct (cr_expected_unit_ids r) \<and> opt_all distinct (cr_expected_candidate_ids r)
     \<and> distinct (map unit_id (inputs r))
     \<and> opt_all (\<lambda>d. \<not> totals_negative d) (cr_declared_totals r)"
  by (auto simp: make_collation_request_def identifiers_are_unique_def)

lemma by_unit_keys [simp]: "dict_keys (by_unit r) = unit_id ` set (inputs r)"
  by (simp add: by_unit_def dict_keys_of image_image)

lemma by_unit_get:
  assumes "distinct (map unit_id (inputs r))" "i \<in> set (inputs r)"
  shows "dict_get (by_unit r) (unit_id i) = Some i"
proof -
  have "distinct (map fst (map (\<lambda>item. (unit_id item, item)) (inputs r)))"
    using assms(1) by (simp add: o_def)
  then show ?thesis
    using assms(2) unfolding by_unit_def by (subst dict_get_of_distinct) auto
qed

lemma unit_totals_input:
  "distinct (map unit_id (inputs r)) \<Longrightarrow> i \<in> set (inputs r) \<Longrightarrow>
   unit_totals r (unit_id i) = candidate_totals i"
  by (simp add: unit_totals_def by_unit_get)

lemma set_included_ids [simp]:
  "set (included_ids r) = set (cr_expected_unit_ids r) \<inter> unit_id ` set (inputs r)"
  by (simp add: included_ids_def)

lemma distinct_included_ids [simp]: "distinct (included_ids r)"
  by (simp add: included_ids_def)

lemma gaps_by_unit_fold:
  "foldl (\<lambda>d u. if gap u = [] then d else dict_set u (gap u) d) d0 us = [] \<longleftrightarrow>
     d0 = [] \<and> (\<forall>u \<in> set us. gap u = [])"
proof -
  have "dict_set k v d \<noteq> []" for k :: string and v :: "string list" and d
    by (cases d) auto
  then show ?thesis by (induction us arbitrary: d0) auto
qed

lemma gaps_by_unit_Nil: "gaps_by_unit gap us = [] \<longleftrightarrow> (\<forall>u \<in> set us. gap u = [])"
  by (simp add: gaps_by_unit_def gaps_by_unit_fold)

section \<open>The computed totals\<close>

lemma dict_default_set [dict_simps]:
  "dict_default x (dict_set k v d) k' = (if k' = k then v else dict_default x d k')"
  by (simp add: dict_default_def dict_get_set)

lemma add_totals_default:
  "dict_ok t \<Longrightarrow> dict_default 0 (add_totals d t) c = dict_default 0 d c + dict_default 0 t c"
proof (induction t arbitrary: d)
  case Nil
  then show ?case by (simp add: add_totals_def dict_default_def)
next
  case (Cons p t)
  obtain k v where p: "p = (k, v)" by fastforce
  have step: "add_totals d (p # t) = add_totals (dict_set k (dict_default 0 d k + v) d) t"
    by (simp add: add_totals_def p)
  have ok: "dict_ok t" "k \<notin> dict_keys t"
    using Cons.prems by (auto simp: dict_ok_def dict_keys_def p)
  then have "dict_get t k = None" by (simp add: dict_get_None)
  then show ?case
    unfolding step Cons.IH [OF ok(1)] dict_default_set by (simp add: p dict_default_def)
qed

lemma add_totals_keys: "dict_keys (add_totals d t) = dict_keys d \<union> dict_keys t"
proof (induction t arbitrary: d)
  case (Cons p t)
  obtain k v where p: "p = (k, v)" by fastforce
  have "add_totals d (p # t) = add_totals (dict_set k (dict_default 0 d k + v) d) t"
    by (simp add: add_totals_def p)
  then show ?case by (auto simp: Cons.IH dict_keys_set dict_keys_Cons p)
qed (simp add: add_totals_def dict_keys_Nil)

lemma add_totals_ok: "dict_ok d \<Longrightarrow> dict_ok (add_totals d t)"
  unfolding add_totals_def by (induction t arbitrary: d) (auto split: prod.splits)

lemma computed_fold_default:
  "(\<And>u. u \<in> set us \<Longrightarrow> dict_ok (t u)) \<Longrightarrow>
   dict_default 0 (foldl (\<lambda>acc u. add_totals acc (t u)) d us) c
     = dict_default 0 d c + (\<Sum>u \<leftarrow> us. dict_default 0 (t u) c)"
  by (induction us arbitrary: d) (auto simp: add_totals_default)

lemma computed_fold_keys:
  "dict_keys (foldl (\<lambda>acc u. add_totals acc (t u)) d us) = dict_keys d \<union> (\<Union>u \<in> set us. dict_keys (t u))"
  by (induction us arbitrary: d) (auto simp: add_totals_keys)

lemma computed_fold_ok: "dict_ok d \<Longrightarrow> dict_ok (foldl (\<lambda>acc u. add_totals acc (t u)) d us)"
  by (induction us arbitrary: d) (auto simp: add_totals_ok)

lemma computed_ok [simp]: "dict_ok (computed r)"
  by (simp add: computed_def computed_fold_ok dict_ok_Nil)

text \<open>The inputs that count, and the total they give a candidate.\<close>

definition counted_inputs :: "collation_request \<Rightarrow> collation_input list" where
  "counted_inputs r = filter (\<lambda>i. unit_id i \<in> set (cr_expected_unit_ids r)) (inputs r)"

definition counted_total :: "collation_request \<Rightarrow> string \<Rightarrow> int" where
  "counted_total r c = (\<Sum>i \<leftarrow> counted_inputs r. dict_default 0 (candidate_totals i) c)"

lemma set_counted_units: "set (map unit_id (counted_inputs r)) = set (included_ids r)"
  by (auto simp: counted_inputs_def)

lemma sum_included:
  fixes f :: "string \<Rightarrow> int"
  assumes "distinct (map unit_id (inputs r))"
  shows "(\<Sum>u \<leftarrow> included_ids r. f u) = (\<Sum>i \<leftarrow> counted_inputs r. f (unit_id i))"
proof -
  have "distinct (map unit_id (counted_inputs r))"
    using assms by (simp add: counted_inputs_def distinct_map_filter)
  then have "mset (map unit_id (counted_inputs r)) = mset (included_ids r)"
    by (metis set_eq_iff_mset_eq_distinct distinct_included_ids set_counted_units)
  then have "sum_list (map f (map unit_id (counted_inputs r))) = sum_list (map f (included_ids r))"
    by (metis mset_map sum_mset_sum_list)
  then show ?thesis by (simp add: o_def)
qed

lemma computed_default:
  assumes "make_collation_request r = Inr r"
  shows "dict_default 0 (computed r) c = counted_total r c"
proof -
  have d: "distinct (map unit_id (inputs r))" and ok: "\<And>i. i \<in> set (inputs r) \<Longrightarrow> dict_ok (candidate_totals i)"
    using assms by (auto simp: make_collation_request_Inr collation_fields_ok_def list_all_iff
        make_collation_input_Inr)
  have "dict_ok (unit_totals r u)" if "u \<in> set (included_ids r)" for u
    using that ok d by (auto simp: unit_totals_input)
  then have "dict_default 0 (computed r) c
      = (\<Sum>u \<leftarrow> included_ids r. dict_default 0 (unit_totals r u) c)"
    unfolding computed_def by (subst computed_fold_default) (simp_all add: dict_default_def)
  also have "\<dots> = counted_total r c"
    unfolding sum_included [OF d] counted_total_def
    by (intro arg_cong [where f = sum_list] map_cong refl)
      (auto simp: counted_inputs_def unit_totals_input [OF d])
  finally show ?thesis .
qed

lemma computed_keys:
  assumes "distinct (map unit_id (inputs r))"
  shows "dict_keys (computed r) = (\<Union>i \<in> set (counted_inputs r). dict_keys (candidate_totals i))"
  unfolding computed_def computed_fold_keys
  by (auto simp: dict_keys_Nil counted_inputs_def unit_totals_input [OF assms])

lemma default_lookup: "k \<in> dict_keys d \<Longrightarrow> dict_get d k = Some (dict_default x d k)"
  by (auto simp: dict_default_def dict_keys_dom)

text \<open>For every accepted request the computed totals are exactly the candidate-wise sums over the
  inputs whose unit is expected: inputs of unexpected units never count, a candidate that no counted
  input names has no entry, and the entries are in candidate order.\<close>

theorem collation_computed_totals:
  assumes "make_collation_request q = Inr r"
  shows "dict_get (computed_totals (replay_collation r)) c =
      (if \<exists>i \<in> set (counted_inputs r). c \<in> dict_keys (candidate_totals i)
       then Some (counted_total r c) else None)
    \<and> sorted (map fst (computed_totals (replay_collation r)))
    \<and> distinct (map fst (computed_totals (replay_collation r)))"
proof -
  have r: "make_collation_request r = Inr r" and d: "distinct (map unit_id (inputs r))"
    using assms by (auto simp: make_collation_request_Inr)
  have t: "computed_totals (replay_collation r) = dict_sorted (computed r)"
    by (simp add: replay_collation_def Let_def split: prod.splits)
  have "dict_get (computed r) c = Some (counted_total r c)" if "c \<in> dict_keys (computed r)"
    using default_lookup [OF that, of 0] by (simp add: computed_default [OF r])
  then have "dict_get (computed r) c =
      (if c \<in> dict_keys (computed r) then Some (counted_total r c) else None)"
    by (simp add: dict_get_None)
  moreover have "distinct (map fst (dict_sorted (computed r)))"
    using dict_ok_sorted [of "computed r"] computed_ok [of r, unfolded dict_ok_def]
    by (simp add: dict_ok_def)
  moreover have "sorted (map fst (dict_sorted (computed r)))" by (simp add: dict_sorted_def)
  ultimately show ?thesis
    unfolding t by (simp add: dict_get_sorted computed_keys [OF d])
qed

section \<open>When a replay verifies\<close>

text \<open>Every expected unit, and no other, reported exactly the expected candidates.\<close>

definition fully_reported :: "collation_request \<Rightarrow> string list \<Rightarrow> bool" where
  "fully_reported r es \<longleftrightarrow> unit_id ` set (inputs r) = set (cr_expected_unit_ids r)
     \<and> (\<forall>i \<in> set (inputs r). dict_keys (candidate_totals i) = set es)"

definition declared_agrees :: "collation_request \<Rightarrow> string list \<Rightarrow> int dict \<Rightarrow> bool" where
  "declared_agrees r es d \<longleftrightarrow> dict_keys d = set es
     \<and> (\<forall>c \<in> set es. dict_get d c = Some (\<Sum>i \<leftarrow> inputs r. dict_default 0 (candidate_totals i) c))"

lemma delta_of_Nil:
  assumes "c \<in> dict_keys d"
  shows "delta_of r d c = [] \<longleftrightarrow> (\<forall>n. dict_get (computed r) c = Some n \<longrightarrow> dict_get d c = Some n)"
  using default_lookup [OF assms, of 0] by (auto simp: delta_of_def Let_def split: option.splits)

lemma ball_included:
  assumes "distinct (map unit_id (inputs r))"
  shows "(\<forall>u \<in> set (included_ids r). P (unit_totals r u)) \<longleftrightarrow>
    (\<forall>i \<in> set (counted_inputs r). P (candidate_totals i))"
  unfolding set_counted_units [symmetric] set_map ball_simps
  using unit_totals_input [OF assms] by (auto simp: counted_inputs_def)

lemma missing_by_unit_Nil:
  assumes "distinct (map unit_id (inputs r))" "cr_expected_candidate_ids r = Some es"
  shows "missing_by_unit r = [] \<longleftrightarrow>
    (\<forall>i \<in> set (counted_inputs r). set es \<subseteq> dict_keys (candidate_totals i))"
  using ball_included [OF assms(1), of "\<lambda>t. set es \<subseteq> dict_keys t"] assms(2)
  by (simp add: missing_by_unit_def gaps_by_unit_Nil del: set_included_ids)

lemma unexpected_by_unit_Nil:
  assumes "distinct (map unit_id (inputs r))" "cr_expected_candidate_ids r = Some es"
  shows "unexpected_by_unit r = [] \<longleftrightarrow>
    (\<forall>i \<in> set (counted_inputs r). dict_keys (candidate_totals i) \<subseteq> set es)"
  using ball_included [OF assms(1), of "\<lambda>t. dict_keys t \<subseteq> set es"] assms(2)
  by (simp add: unexpected_by_unit_def gaps_by_unit_Nil del: set_included_ids)

lemma counted_all:
  "unit_id ` set (inputs r) \<subseteq> set (cr_expected_unit_ids r) \<Longrightarrow> counted_inputs r = inputs r"
  by (auto simp: counted_inputs_def intro!: filter_True)

lemma declared_deltas_Nil:
  assumes r: "make_collation_request r = Inr r" and es: "cr_expected_candidate_ids r = Some es"
    and full: "fully_reported r es" and d: "dict_keys d = set es"
  shows "concat (map (delta_of r d) (sorted_set (comparable r d))) = [] \<longleftrightarrow> declared_agrees r es d"
proof -
  have u: "distinct (map unit_id (inputs r))" and ne: "cr_expected_unit_ids r \<noteq> []"
    using r by (auto simp: make_collation_request_Inr collation_fields_ok_def)
  have all: "counted_inputs r = inputs r"
    using full counted_all by (auto simp: fully_reported_def)
  have "inputs r \<noteq> []" using full ne by (auto simp: fully_reported_def)
  then have k: "dict_keys (computed r) = set es"
    using full by (auto simp: computed_keys [OF u] all fully_reported_def)
  have m: "missing_by_unit r = []"
    using full by (auto simp: missing_by_unit_Nil [OF u es] all fully_reported_def)
  have c: "comparable r d = set es" by (simp add: comparable_def es m d)
  have "delta_of r d c = [] \<longleftrightarrow> dict_get d c = Some (counted_total r c)" if "c \<in> set es" for c
    using that k default_lookup [of c "computed r" 0] by (simp add: delta_of_Nil d computed_default [OF r])
  then show ?thesis
    by (simp add: c d declared_agrees_def counted_total_def all)
qed

lemma collation_status_verified:
  assumes r: "make_collation_request r = Inr r"
  shows "collation_status (replay_collation r) = VERIFIED \<longleftrightarrow>
    (\<exists>es. cr_expected_candidate_ids r = Some es \<and> fully_reported r es
       \<and> (\<forall>d. cr_declared_totals r = Some d \<longrightarrow> declared_agrees r es d))"
proof (cases "cr_expected_candidate_ids r")
  case None
  then show ?thesis by (simp add: replay_collation_def Let_def split: prod.splits option.splits)
next
  case (Some es)
  have u: "distinct (map unit_id (inputs r))"
    using r by (auto simp: make_collation_request_Inr)
  have full: "fully_reported r es \<longleftrightarrow>
      sorted_set (set (cr_expected_unit_ids r) - dict_keys (by_unit r)) = []
      \<and> sorted_set (dict_keys (by_unit r) - set (cr_expected_unit_ids r)) = []
      \<and> missing_by_unit r = [] \<and> unexpected_by_unit r = []"
    unfolding missing_by_unit_Nil [OF u Some] unexpected_by_unit_Nil [OF u Some] fully_reported_def
    by (auto simp: counted_inputs_def)
  show ?thesis
  proof (cases "cr_declared_totals r")
    case None
    then show ?thesis using full Some by (auto simp: replay_collation_def Let_def)
  next
    case d: (Some d)
    have k: "sorted_set (set es - dict_keys d) = [] \<and> sorted_set (dict_keys d - set es) = []
        \<longleftrightarrow> dict_keys d = set es" by auto
    have "declared_agrees r es d \<Longrightarrow> dict_keys d = set es" by (simp add: declared_agrees_def)
    then have "collation_status (replay_collation r) = VERIFIED \<longleftrightarrow>
        fully_reported r es \<and> dict_keys d = set es
        \<and> concat (map (delta_of r d) (sorted_set (comparable r d))) = []"
      unfolding full k [symmetric] by (auto simp: replay_collation_def Let_def Some d)
    with declared_deltas_Nil [OF r Some] show ?thesis
      using Some d by (auto simp: declared_agrees_def)
  qed
qed

lemma replay_collation_flags:
  "complete (replay_collation r) = is_verified (collation_status (replay_collation r))"
  "declared_match (replay_collation r) =
     map_option (\<lambda>_. is_verified (collation_status (replay_collation r))) (cr_declared_totals r)"
  by (simp_all add: replay_collation_def Let_def case_prod_unfold)

text \<open>An accepted collation request replays as VERIFIED exactly when the candidate universe is given,
  the inputs are exactly the expected units, each reports exactly the expected candidates, and
  declared totals, when given, name exactly those candidates with exactly the summed votes.
  \<open>complete\<close> says the same, and so does \<open>declared_match\<close> whenever totals were declared.\<close>

theorem collation_verified_iff:
  assumes "make_collation_request q = Inr r"
  shows "(collation_status (replay_collation r) = VERIFIED \<longleftrightarrow>
      (\<exists>es. cr_expected_candidate_ids r = Some es \<and> fully_reported r es
         \<and> (\<forall>d. cr_declared_totals r = Some d \<longrightarrow> declared_agrees r es d)))
    \<and> complete (replay_collation r) = (collation_status (replay_collation r) = VERIFIED)
    \<and> declared_match (replay_collation r) = (case cr_declared_totals r of None \<Rightarrow> None
        | Some _ \<Rightarrow> Some (collation_status (replay_collation r) = VERIFIED))"
proof -
  have "make_collation_request r = Inr r" using assms by (auto simp: make_collation_request_Inr)
  then show ?thesis using collation_status_verified [of r]
    by (simp add: replay_collation_flags is_verified_def split: option.split)
qed

section \<open>The order of the inputs\<close>

lemma by_unit_permuted:
  assumes "distinct (map unit_id (inputs r))" "mset xs = mset (inputs r)"
  shows "dict_get (by_unit (r\<lparr>inputs := xs\<rparr>)) = dict_get (by_unit r)"
proof -
  let ?f = "\<lambda>item. (unit_id item, item)"
  have "mset (map unit_id xs) = mset (map unit_id (inputs r))" using assms(2) by simp
  then have "distinct (map unit_id xs)" using assms(1) mset_eq_imp_distinct_iff by blast
  then have d: "distinct (map fst (map ?f xs))" "distinct (map fst (map ?f (inputs r)))"
    using assms(1) by (simp_all add: o_def)
  have "set (map ?f xs) = set (map ?f (inputs r))"
    using mset_eq_setD [OF assms(2)] by simp
  then show ?thesis
    unfolding by_unit_def using d
    by (simp add: dict_get_of_distinct [OF d(1)] dict_get_of_distinct [OF d(2)] map_of_inject_set)
qed

text \<open>Replay does not depend on the order in which the inputs arrive.\<close>

theorem collation_order_independent:
  assumes "make_collation_request q = Inr r" "mset xs = mset (inputs r)"
  shows "replay_collation (r\<lparr>inputs := xs\<rparr>) = replay_collation r"
proof -
  have get: "dict_get (by_unit (r\<lparr>inputs := xs\<rparr>)) = dict_get (by_unit r)"
    using assms by (auto simp: make_collation_request_Inr intro!: by_unit_permuted)
  then have keys: "dict_keys (by_unit (r\<lparr>inputs := xs\<rparr>)) = dict_keys (by_unit r)"
    by (simp only: dict_keys_dom)
  have units: "unit_totals (r\<lparr>inputs := xs\<rparr>) = unit_totals r"
    "included_ids (r\<lparr>inputs := xs\<rparr>) = included_ids r"
    by (simp_all add: unit_totals_def included_ids_def get keys fun_eq_iff del: by_unit_keys)
  have gaps: "missing_by_unit (r\<lparr>inputs := xs\<rparr>) = missing_by_unit r"
    "unexpected_by_unit (r\<lparr>inputs := xs\<rparr>) = unexpected_by_unit r"
    by (simp_all add: missing_by_unit_def unexpected_by_unit_def units split: option.split)
  have sums: "computed (r\<lparr>inputs := xs\<rparr>) = computed r" by (simp add: computed_def units)
  have "delta_of (r\<lparr>inputs := xs\<rparr>) = delta_of r" "comparable (r\<lparr>inputs := xs\<rparr>) = comparable r"
    by (simp_all add: delta_of_def comparable_def fun_eq_iff sums gaps split: option.split)
  moreover have "cr_level (r\<lparr>inputs := xs\<rparr>) = cr_level r" "cr_node_id (r\<lparr>inputs := xs\<rparr>) = cr_node_id r"
    "cr_expected_unit_ids (r\<lparr>inputs := xs\<rparr>) = cr_expected_unit_ids r"
    "cr_expected_candidate_ids (r\<lparr>inputs := xs\<rparr>) = cr_expected_candidate_ids r"
    "cr_declared_totals (r\<lparr>inputs := xs\<rparr>) = cr_declared_totals r" by simp_all
  ultimately show ?thesis
    unfolding replay_collation_def units gaps sums keys by (simp only:)
qed

section \<open>A concrete edge\<close>

definition demo_collation :: collation_request where
  "demo_collation = \<lparr>cr_level = ''ward'', cr_node_id = ''W1'', cr_expected_unit_ids = [''u1'', ''u2''],
     cr_expected_candidate_ids = Some [''a'', ''b''],
     inputs = [\<lparr>unit_id = ''u2'', candidate_totals = [(''a'', 5), (''b'', 1)]\<rparr>,
       \<lparr>unit_id = ''u1'', candidate_totals = [(''b'', 7), (''a'', 3)]\<rparr>],
     cr_declared_totals = Some [(''a'', 8), (''b'', 8)]\<rparr>"

lemma demo_collation_ok: "make_collation_request demo_collation = Inr demo_collation"
  by (simp add: make_collation_request_Inr demo_collation_def collation_fields_ok_def
      make_collation_input_Inr len_between_def py_len_def dict_ok_def totals_negative_def)

lemma collation_computed_totals_witness:
  "dict_get (computed_totals (replay_collation demo_collation)) ''a'' = Some 8"
  using collation_computed_totals [OF demo_collation_ok, of "''a''"]
  by (simp add: demo_collation_def counted_inputs_def counted_total_def dict_default_def dict_keys_def)

lemma collation_verified_iff_witness:
  "collation_status (replay_collation demo_collation) = VERIFIED
   \<and> declared_match (replay_collation demo_collation) = Some True"
proof -
  have "\<exists>es. cr_expected_candidate_ids demo_collation = Some es \<and> fully_reported demo_collation es
      \<and> (\<forall>d. cr_declared_totals demo_collation = Some d \<longrightarrow> declared_agrees demo_collation es d)"
    by (auto simp: demo_collation_def fully_reported_def declared_agrees_def dict_keys_def
        dict_default_def)
  then show ?thesis using collation_verified_iff [OF demo_collation_ok]
    by (simp add: demo_collation_def)
qed

lemma collation_order_independent_witness:
  "replay_collation (demo_collation\<lparr>inputs := rev (inputs demo_collation)\<rparr>)
     = replay_collation demo_collation"
  by (rule collation_order_independent [OF demo_collation_ok]) simp

end
