(* ===== verification/Aggregation.thy ===== *)
theory Aggregation
  imports Collation
begin

text \<open>
  src/ballotproof/aggregation_protocol.py: the jurisdiction-neutral aggregation edge, replayed by
  translating it to a collation request and back. The request is built through pydantic, so
  \<open>replay_aggregation\<close> could raise; it does not (C8).
\<close>

record aggregation_input =
  ai_result_unit_id :: string
  ai_choice_totals :: "int dict"

record choice_delta =
  ch_choice_id :: string
  ch_computed_votes :: int
  ch_declared_votes :: int
  ch_delta :: int

record aggregation_request =
  ar_aggregation_level :: string
  ar_result_unit_id :: string
  ar_expected_child_unit_ids :: "string list"
  ar_expected_choice_ids :: "string list option"
  ar_inputs :: "aggregation_input list"
  ar_declared_totals :: "int dict option"

record aggregation_report =
  ag_aggregation_level :: string
  ag_result_unit_id :: string
  ag_status :: evidence_status
  ag_expected_child_units :: nat
  ag_received_expected_child_units :: nat
  ag_coverage_fraction :: rat
  ag_complete :: bool
  ag_missing_child_unit_ids :: "string list"
  ag_unexpected_child_unit_ids :: "string list"
  ag_expected_choice_ids :: "string list option"
  ag_missing_choice_ids_by_unit :: "string list dict"
  ag_unexpected_choice_ids_by_unit :: "string list dict"
  ag_computed_totals :: "int dict"
  ag_declared_totals :: "int dict option"
  ag_declared_missing_choice_ids :: "string list"
  ag_declared_unexpected_choice_ids :: "string list"
  ag_declared_match :: "bool option"
  ag_declared_differences :: "choice_delta list"

definition make_aggregation_input :: "aggregation_input \<Rightarrow> aggregation_input result" where
  "make_aggregation_input i = guarded
     [(\<not> (len_between 1 256 (ai_result_unit_id i) \<and> dict_ok (ai_choice_totals i)), field_error),
      (totals_negative (ai_choice_totals i), ValueError ''choice totals must be non-negative'')] i"

definition aggregation_fields_ok :: "aggregation_request \<Rightarrow> bool" where
  "aggregation_fields_ok r = (len_between 1 128 (ar_aggregation_level r)
     \<and> len_between 1 256 (ar_result_unit_id r) \<and> ar_expected_child_unit_ids r \<noteq> []
     \<and> opt_all (\<lambda>ids. ids \<noteq> []) (ar_expected_choice_ids r)
     \<and> opt_all dict_ok (ar_declared_totals r)
     \<and> list_all (\<lambda>i. make_aggregation_input i = Inr i) (ar_inputs r))"

definition aggregation_identifiers_are_unique ::
    "aggregation_request \<Rightarrow> aggregation_request result" where
  "aggregation_identifiers_are_unique r = guarded
     [(\<not> distinct (ar_expected_child_unit_ids r),
       ValueError ''expected_child_unit_ids must be unique''),
      (\<not> opt_all distinct (ar_expected_choice_ids r),
       ValueError ''expected_choice_ids must be unique''),
      (\<not> distinct (map ai_result_unit_id (ar_inputs r)),
       ValueError ''aggregation input result_unit_id values must be unique''),
      (\<not> opt_all (\<lambda>d. \<not> totals_negative d) (ar_declared_totals r),
       ValueError ''declared totals must be non-negative'')] r"

definition make_aggregation_request :: "aggregation_request \<Rightarrow> aggregation_request result" where
  "make_aggregation_request r =
     (if aggregation_fields_ok r then aggregation_identifiers_are_unique r else raise field_error)"

definition choice_delta :: "candidate_delta \<Rightarrow> choice_delta" where
  "choice_delta d = \<lparr>ch_choice_id = dl_candidate_id d, ch_computed_votes = computed_votes d,
     ch_declared_votes = declared_votes d, ch_delta = delta d\<rparr>"

definition collation_of :: "aggregation_request \<Rightarrow> collation_request" where
  "collation_of r = \<lparr>cr_level = ar_aggregation_level r, cr_node_id = ar_result_unit_id r,
     cr_expected_unit_ids = ar_expected_child_unit_ids r,
     cr_expected_candidate_ids = ar_expected_choice_ids r,
     inputs = map (\<lambda>i. \<lparr>unit_id = ai_result_unit_id i, candidate_totals = ai_choice_totals i\<rparr>)
       (ar_inputs r),
     cr_declared_totals = ar_declared_totals r\<rparr>"

definition aggregation_report_of :: "collation_report \<Rightarrow> aggregation_report" where
  "aggregation_report_of p =
     \<lparr>ag_aggregation_level = level p, ag_result_unit_id = node_id p, ag_status = collation_status p,
      ag_expected_child_units = expected_units p,
      ag_received_expected_child_units = received_expected_units p,
      ag_coverage_fraction = coverage_fraction p, ag_complete = complete p,
      ag_missing_child_unit_ids = missing_unit_ids p,
      ag_unexpected_child_unit_ids = unexpected_unit_ids p,
      ag_expected_choice_ids = cl_expected_candidate_ids p,
      ag_missing_choice_ids_by_unit = missing_candidate_ids_by_unit p,
      ag_unexpected_choice_ids_by_unit = unexpected_candidate_ids_by_unit p,
      ag_computed_totals = computed_totals p, ag_declared_totals = declared_totals p,
      ag_declared_missing_choice_ids = declared_missing_candidate_ids p,
      ag_declared_unexpected_choice_ids = declared_unexpected_candidate_ids p,
      ag_declared_match = declared_match p,
      ag_declared_differences = map choice_delta (declared_differences p)\<rparr>"

definition replay_aggregation :: "aggregation_request \<Rightarrow> aggregation_report result" where
  "replay_aggregation r = bind_result (make_collation_request (collation_of r))
     (\<lambda>c. return (aggregation_report_of (replay_collation c)))"

lemma make_aggregation_request_Inr:
  "make_aggregation_request r = Inr q \<longleftrightarrow> q = r \<and> aggregation_fields_ok r
     \<and> distinct (ar_expected_child_unit_ids r) \<and> opt_all distinct (ar_expected_choice_ids r)
     \<and> distinct (map ai_result_unit_id (ar_inputs r))
     \<and> opt_all (\<lambda>d. \<not> totals_negative d) (ar_declared_totals r)"
  by (auto simp: make_aggregation_request_def aggregation_identifiers_are_unique_def)

lemma collation_of_ok:
  assumes "make_aggregation_request q = Inr r"
  shows "make_collation_request (collation_of r) = Inr (collation_of r)"
  using assms
  by (auto simp: make_collation_request_Inr make_aggregation_request_Inr collation_of_def
      aggregation_fields_ok_def collation_fields_ok_def list_all_iff make_collation_input_Inr
      make_aggregation_input_def o_def split: if_splits)

text \<open>Replaying an accepted aggregation request never raises, and it is VERIFIED exactly when the
  children are the expected ones, all report exactly the expected choices, and the declared totals,
  when given, are the sums.\<close>

theorem replay_aggregation_verified:
  assumes "make_aggregation_request q = Inr r"
  shows "\<exists>p. replay_aggregation r = Inr p
    \<and> (ag_status p = VERIFIED \<longleftrightarrow>
        (\<exists>es. ar_expected_choice_ids r = Some es
           \<and> ai_result_unit_id ` set (ar_inputs r) = set (ar_expected_child_unit_ids r)
           \<and> (\<forall>i \<in> set (ar_inputs r). dict_keys (ai_choice_totals i) = set es)
           \<and> (\<forall>d. ar_declared_totals r = Some d \<longrightarrow> dict_keys d = set es
               \<and> (\<forall>c \<in> set es. dict_get d c =
                    Some (\<Sum>i \<leftarrow> ar_inputs r. dict_default 0 (ai_choice_totals i) c)))))
    \<and> ag_complete p = (ag_status p = VERIFIED)"
  using collation_of_ok [OF assms] collation_status_verified [OF collation_of_ok [OF assms]]
  by (simp add: replay_aggregation_def aggregation_report_of_def replay_collation_flags
      is_verified_def fully_reported_def declared_agrees_def collation_of_def image_image o_def)

definition demo_aggregation :: aggregation_request where
  "demo_aggregation = \<lparr>ar_aggregation_level = ''district'', ar_result_unit_id = ''D'',
     ar_expected_child_unit_ids = [''u1''], ar_expected_choice_ids = Some [''a''],
     ar_inputs = [\<lparr>ai_result_unit_id = ''u1'', ai_choice_totals = [(''a'', 4)]\<rparr>],
     ar_declared_totals = Some [(''a'', 4)]\<rparr>"

lemma demo_aggregation_ok: "make_aggregation_request demo_aggregation = Inr demo_aggregation"
  by (simp add: make_aggregation_request_Inr demo_aggregation_def aggregation_fields_ok_def
      make_aggregation_input_def len_between_def py_len_def dict_ok_def totals_negative_def)

lemma replay_aggregation_verified_witness:
  "\<exists>p. replay_aggregation demo_aggregation = Inr p \<and> ag_status p = VERIFIED \<and> ag_complete p"
  using replay_aggregation_verified [OF demo_aggregation_ok]
  by (auto simp: demo_aggregation_def dict_keys_def dict_default_def)

end
