(* ===== verification/Evidence_Store.thy ===== *)
theory Evidence_Store
  imports Evidence_Models Hash_Chain Write_Barrier
begin

text \<open>
  src/ballotproof/storage.py: \<open>EvidenceStore\<close>. The content-addressed object directory and the
  four SQLite tables are the fields of the state; a table is the list of its rows in insertion
  order, \<open>ORDER BY\<close> a stable sort, a violated key an IntegrityError. Each operation is one
  transaction inside the write barrier: it returns the new state and its result, or an error, and
  then nothing was written. The clock and \<open>uuid4().hex\<close> are arguments.
\<close>

section \<open>State and record hashes\<close>

record stored_artifact =
  sa_sha256 :: string
  sa_size_bytes :: nat
  sa_path :: "string list"

text \<open>\<open>attestation_ids\<close> are the values of the AUTOINCREMENT column \<open>id\<close> of the attestation rows, row by row, and
  \<open>attestation_seq\<close> the last value that SQLite handed out for it.\<close>

record evidence_store =
  objects :: "byte list dict"
  version_rows :: "evidence_version list"
  attestation_rows :: "signed_attestation list"
  attestation_ids :: "nat list"
  attestation_seq :: nat
  extraction_rows :: "extraction_record list"
  review_rows :: "extraction_review list"
  barrier :: write_barrier

definition empty_store :: evidence_store where
  "empty_store = \<lparr>objects = [], version_rows = [], attestation_rows = [], attestation_ids = [], attestation_seq = 0,
     extraction_rows = [], review_rows = [], barrier = new_barrier\<rparr>"

definition source_type_text :: "source_type \<Rightarrow> string" where
  "source_type_text t = (case t of official_publication \<Rightarrow> ''official_publication''
     | observer_capture \<Rightarrow> ''observer_capture'' | party_agent_capture \<Rightarrow> ''party_agent_capture''
     | newsroom_capture \<Rightarrow> ''newsroom_capture'' | other_source \<Rightarrow> ''other'')"

definition source_json :: "evidence_source \<Rightarrow> json" where
  "source_json s = JObj [(''provider'', JStr (provider s)),
     (''source_type'', JStr (source_type_text (source_type s))),
     (''source_url'', json_opt JStr (source_url s))]"

definition record_hash_body :: "evidence_version \<Rightarrow> json" where
  "record_hash_body r = JObj
     [(''evidence_id'', JStr (evidence_id r)),
      (''election_id'', JStr (election_id r)),
      (''polling_unit_code'', JStr (ev_polling_unit_code r)),
      (''document_type'', JStr (ev_document_type r)),
      (''source'', source_json (ev_source r)),
      (''version'', JInt (version r)),
      (''artifact_sha256'', JStr (artifact_sha256 r)),
      (''artifact_size_bytes'', JInt (artifact_size_bytes r)),
      (''media_type'', json_opt JStr (media_type r)),
      (''filename'', json_opt JStr (filename r)),
      (''observed_at'', JStr (isoformat (observed_at r))),
      (''stored_at'', JStr (isoformat (stored_at r))),
      (''previous_record_hash'', json_opt JStr (previous_record_hash r))]"

definition evidence_version_fields_ok :: "evidence_version \<Rightarrow> bool" where
  "evidence_version_fields_ok r = (1 \<le> version r \<and> is_sha256_hex (artifact_sha256 r)
     \<and> non_negative (artifact_size_bytes r) \<and> opt_all is_sha256_hex (previous_record_hash r)
     \<and> is_sha256_hex (record_hash r))"

section \<open>\<open>put_artifact\<close>\<close>

text \<open>The chunks the stream returns, read until the first empty one.\<close>

fun read_stream :: "nat option \<Rightarrow> byte list list \<Rightarrow> byte list \<Rightarrow> byte list result" where
  "read_stream max_bytes [] content = return content"
| "read_stream max_bytes (chunk # rest) content =
     (if chunk = [] then return content
      else if (case max_bytes of None \<Rightarrow> False | Some m \<Rightarrow> m < length (content @ chunk))
      then raise (ValueError ''Evidence artifact exceeds the byte limit'')
      else read_stream max_bytes rest (content @ chunk))"

definition put_artifact :: "byte list list \<Rightarrow> nat option \<Rightarrow> evidence_store
    \<Rightarrow> (evidence_store \<times> stored_artifact) result" where
  "put_artifact stream max_bytes s =
     bind_result (read_stream max_bytes stream []) (\<lambda>content.
       if content = [] then raise (ValueError ''Evidence artifact is empty'')
       else (let sha = sha256_bytes content
             in return (if sha \<in> dict_keys (objects s) then s
                        else s\<lparr>objects := dict_set sha content (objects s)\<rparr>,
                  \<lparr>sa_sha256 = sha, sa_size_bytes = length content,
                   sa_path = [take 2 sha, take 2 (drop 2 sha), sha]\<rparr>)))"

section \<open>Versions\<close>

definition history :: "evidence_store \<Rightarrow> string \<Rightarrow> evidence_version list" where
  "history s eid = sort_key version (filter (\<lambda>r. evidence_id r = eid) (version_rows s))"

definition previous_row :: "evidence_store \<Rightarrow> string \<Rightarrow> evidence_version option" where
  "previous_row s eid = (if history s eid = [] then None else Some (last (history s eid)))"

text \<open>\<open>INSERT INTO evidence_versions\<close>: the primary key and the unique record hash.\<close>

definition insert_version :: "evidence_version \<Rightarrow> evidence_store \<Rightarrow> evidence_store result" where
  "insert_version r s = guarded
     [(list_ex (\<lambda>q. evidence_id q = evidence_id r \<and> version q = version r) (version_rows s),
       IntegrityError ''evidence_versions.evidence_id, evidence_versions.version''),
      (list_ex (\<lambda>q. record_hash q = record_hash r) (version_rows s),
       IntegrityError ''evidence_versions.record_hash'')]
     (s\<lparr>version_rows := version_rows s @ [r]\<rparr>)"

record version_args =
  va_artifact :: stored_artifact
  va_election_id :: string
  va_polling_unit_code :: string
  va_document_type :: string
  va_source :: evidence_source
  va_observed_at :: datetime
  va_media_type :: "string option"
  va_filename :: "string option"
  va_evidence_id :: "string option"

definition version_record :: "version_args \<Rightarrow> datetime \<Rightarrow> string \<Rightarrow> int \<Rightarrow> string option
    \<Rightarrow> evidence_version" where
  "version_record a now eid v prev =
     (let r = \<lparr>evidence_id = eid, election_id = va_election_id a,
        ev_polling_unit_code = va_polling_unit_code a, ev_document_type = va_document_type a,
        ev_source = va_source a, version = v, artifact_sha256 = sa_sha256 (va_artifact a),
        artifact_size_bytes = int (sa_size_bytes (va_artifact a)), media_type = va_media_type a,
        filename = va_filename a, observed_at = va_observed_at a, stored_at = now,
        previous_record_hash = prev, record_hash = []\<rparr>
      in r\<lparr>record_hash := hash_record (record_hash_body r)\<rparr>)"

definition append_version :: "version_args \<Rightarrow> datetime \<Rightarrow> string \<Rightarrow> evidence_store
    \<Rightarrow> (evidence_store \<times> evidence_version) result" where
  "append_version a now fresh s =
     bind_result (hold True (barrier s) (\<lambda>_.
       bind_result
         (case va_evidence_id a of
            None \<Rightarrow> return (''bp_ev_'' @ fresh, 1, None)
          | Some eid \<Rightarrow>
              (case previous_row s eid of
                 None \<Rightarrow> raise (KeyError ''Unknown evidence_id: '')
               | Some p \<Rightarrow> return (eid, version p + 1, Some (record_hash p))))
         (\<lambda>(eid, v, prev).
            (let r = version_record a now eid v prev
             in if evidence_version_fields_ok r
                then bind_result (insert_version r s) (\<lambda>s'. return (s', r))
                else raise field_error))))
       (\<lambda>(b, s', r). return (s'\<lparr>barrier := b\<rparr>, r))"

definition get_version :: "evidence_store \<Rightarrow> string \<Rightarrow> int \<Rightarrow> evidence_version result" where
  "get_version s eid v =
     (case find (\<lambda>r. evidence_id r = eid \<and> version r = v) (version_rows s) of
        None \<Rightarrow> raise (KeyError ''Unknown evidence version: '')
      | Some r \<Rightarrow> return r)"

text \<open>The loop of \<open>verify_chain\<close>: the first record that does not link or does not hash.\<close>

fun chain_failure :: "string option \<Rightarrow> evidence_version list \<Rightarrow> evidence_version option" where
  "chain_failure previous_hash [] = None"
| "chain_failure previous_hash (r # rs) =
     (if previous_record_hash r \<noteq> previous_hash \<or> record_hash r \<noteq> hash_record (record_hash_body r)
      then Some r else chain_failure (Some (record_hash r)) rs)"

definition verify_chain :: "evidence_store \<Rightarrow> string \<Rightarrow> chain_verification" where
  "verify_chain s eid =
     (let versions = history s eid
      in case chain_failure None versions of
           Some r \<Rightarrow> \<lparr>cv_evidence_id = eid, cv_valid = False, versions_checked = version r,
             failure_version = Some (version r)\<rparr>
         | None \<Rightarrow> \<lparr>cv_evidence_id = eid, cv_valid = True, versions_checked = int (length versions),
             failure_version = None\<rparr>)"

section \<open>Attestations, extractions and reviews\<close>

text \<open>\<open>INSERT OR IGNORE\<close>: SQLite takes the next id before it finds the row to be a duplicate, so an ignored insertion
  uses up an id.\<close>

definition insert_attestation :: "signed_attestation \<Rightarrow> evidence_store \<Rightarrow> evidence_store" where
  "insert_attestation a s =
     (let n = attestation_seq s + 1 in
      if a \<in> set (attestation_rows s) then s\<lparr>attestation_seq := n\<rparr>
      else s\<lparr>attestation_rows := attestation_rows s @ [a], attestation_ids := attestation_ids s @ [n], attestation_seq := n\<rparr>)"

definition add_attestation :: "signed_attestation \<Rightarrow> evidence_store \<Rightarrow> evidence_store result" where
  "add_attestation a s =
     bind_result (hold True (barrier s) (\<lambda>_.
       (case find (\<lambda>r. evidence_id r = ap_evidence_id (sa_payload a)
               \<and> version r = ap_evidence_version (sa_payload a)) (version_rows s) of
          None \<Rightarrow> raise (KeyError ''Attestation references an unknown evidence version'')
        | Some r \<Rightarrow>
            if record_hash r \<noteq> ap_record_hash (sa_payload a)
            then raise (ValueError ''Attestation record_hash does not match stored evidence'')
            else return (insert_attestation a s))))
       (\<lambda>(b, s'). return (s'\<lparr>barrier := b\<rparr>))"

definition attestations :: "evidence_store \<Rightarrow> string \<Rightarrow> int \<Rightarrow> signed_attestation list" where
  "attestations s eid v = filter (\<lambda>a. ap_evidence_id (sa_payload a) = eid
     \<and> ap_evidence_version (sa_payload a) = v) (attestation_rows s)"

definition get_extraction :: "evidence_store \<Rightarrow> string \<Rightarrow> extraction_record result" where
  "get_extraction s xid =
     (case find (\<lambda>x. extraction_id x = xid) (extraction_rows s) of
        None \<Rightarrow> raise (KeyError ''Unknown extraction_id: '') | Some x \<Rightarrow> return x)"

text \<open>The arguments of \<open>add_extraction\<close> are the fields of the record it stores; its id and
  \<open>stored_at\<close> are set here.\<close>

definition check_superseded :: "evidence_store \<Rightarrow> extraction_record \<Rightarrow> unit result" where
  "check_superseded s args = (case supersedes_extraction_id args of
       None \<Rightarrow> return ()
     | Some xid \<Rightarrow> bind_result (get_extraction s xid) (\<lambda>superseded.
         if ex_evidence_id superseded \<noteq> ex_evidence_id args
           \<or> ex_evidence_version superseded \<noteq> ex_evidence_version args
         then raise (ValueError ''Superseded extraction must reference the same evidence version'')
         else return ()))"

definition insert_extraction :: "extraction_record \<Rightarrow> evidence_store \<Rightarrow> evidence_store result" where
  "insert_extraction x s = guarded
     [(ex_evidence_version x < 1 \<or> \<not> is_sha256_hex (ex_record_hash x) \<or> ex_fields x = [], field_error),
      (list_ex (\<lambda>y. extraction_id y = extraction_id x) (extraction_rows s),
       IntegrityError ''extractions.extraction_id'')]
     (s\<lparr>extraction_rows := extraction_rows s @ [x]\<rparr>)"

definition add_extraction :: "extraction_record \<Rightarrow> datetime \<Rightarrow> string \<Rightarrow> evidence_store
    \<Rightarrow> (evidence_store \<times> extraction_record) result" where
  "add_extraction args now fresh s =
     bind_result (hold True (barrier s) (\<lambda>_.
       bind_result (get_version s (ex_evidence_id args) (ex_evidence_version args)) (\<lambda>ev.
         if record_hash ev \<noteq> ex_record_hash args
         then raise (ValueError ''Extraction record_hash does not match stored evidence'')
         else bind_result (check_superseded s args) (\<lambda>_.
           let x = args\<lparr>extraction_id := ''bp_ex_'' @ fresh, ex_stored_at := now\<rparr>
           in bind_result (insert_extraction x s) (\<lambda>s'. return (s', x))))))
       (\<lambda>(b, s', x). return (s'\<lparr>barrier := b\<rparr>, x))"

definition extractions :: "evidence_store \<Rightarrow> string \<Rightarrow> int \<Rightarrow> extraction_record list" where
  "extractions s eid v = sort_key (\<lambda>x. (isoformat (ex_stored_at x), extraction_id x))
     (filter (\<lambda>x. ex_evidence_id x = eid \<and> ex_evidence_version x = v) (extraction_rows s))"

definition review_record :: "extraction_record \<Rightarrow> extraction_review_submission \<Rightarrow> datetime \<Rightarrow> string
    \<Rightarrow> extraction_review" where
  "review_record x sub now fresh = \<lparr>review_id = ''bp_rv_'' @ fresh, rv_extraction_id = extraction_id x,
     rv_evidence_id = ex_evidence_id x, rv_evidence_version = ex_evidence_version x,
     rv_reviewer_id = reviewer_id sub, rv_fields = rs_fields sub, rv_stored_at = now\<rparr>"

definition insert_review :: "extraction_review \<Rightarrow> evidence_store \<Rightarrow> evidence_store result" where
  "insert_review v s = guarded
     [(list_ex (\<lambda>y. review_id y = review_id v) (review_rows s),
       IntegrityError ''extraction_reviews.review_id'')]
     (s\<lparr>review_rows := review_rows s @ [v]\<rparr>)"

definition add_extraction_review :: "string \<Rightarrow> extraction_review_submission \<Rightarrow> datetime \<Rightarrow> string
    \<Rightarrow> evidence_store \<Rightarrow> (evidence_store \<times> extraction_review) result" where
  "add_extraction_review xid sub now fresh s =
     bind_result (hold True (barrier s) (\<lambda>_.
       bind_result (get_extraction s xid) (\<lambda>x.
         let known_fields = set (map field_name (ex_fields x));
             reviewed_fields = set (map fr_field_name (rs_fields sub));
             v = review_record x sub now fresh
         in if sorted_set (reviewed_fields - known_fields) \<noteq> []
            then raise (ValueError ''Review references unknown extracted fields: '')
            else bind_result (insert_review v s) (\<lambda>s'. return (s', v)))))
       (\<lambda>(b, s', v). return (s'\<lparr>barrier := b\<rparr>, v))"

definition extraction_reviews :: "evidence_store \<Rightarrow> string \<Rightarrow> extraction_review list" where
  "extraction_reviews s xid = sort_key (\<lambda>x. (isoformat (rv_stored_at x), review_id x))
     (filter (\<lambda>x. rv_extraction_id x = xid) (review_rows s))"

definition bundle_item :: "evidence_store \<Rightarrow> string \<Rightarrow> evidence_bundle_item" where
  "bundle_item s eid =
     (let h = history s eid; l = last h; xs = extractions s eid (version l)
      in \<lparr>bi_evidence_id = eid, latest = l, bi_history = h, chain = verify_chain s eid,
          bi_attestations = attestations s eid (version l), bi_extractions = xs,
          bi_reviews = concat (map (\<lambda>x. extraction_reviews s (extraction_id x)) xs)\<rparr>)"

definition polling_unit_bundle :: "evidence_store \<Rightarrow> string \<Rightarrow> string
    \<Rightarrow> polling_unit_evidence_bundle" where
  "polling_unit_bundle s el pu =
     \<lparr>pb_election_id = el, pb_polling_unit_code = pu,
      evidence = map (bundle_item s) (sorted_set (evidence_id `
        {r \<in> set (version_rows s). election_id r = el \<and> ev_polling_unit_code r = pu}))\<rparr>"

section \<open>The chain of a record's versions\<close>

definition evidence_record_ok :: "evidence_version \<Rightarrow> bool" where
  "evidence_record_ok r \<longleftrightarrow> datetime_ok (observed_at r) \<and> offset_ok (observed_at r)
     \<and> datetime_ok (stored_at r) \<and> offset_ok (stored_at r)"

lemma source_type_text_inj: "source_type_text a = source_type_text b \<longleftrightarrow> a = b"
  by (cases a; cases b) (simp_all add: source_type_text_def)

lemma source_json_eq: "json_eq (source_json a) (source_json b) \<longleftrightarrow> a = b"
proof -
  have "json_eq (source_json a) (source_json b) \<longleftrightarrow> provider a = provider b
      \<and> source_type a = source_type b \<and> source_url a = source_url b"
    unfolding source_json_def by (subst json_eq_fields) (auto simp: source_type_text_inj)
  then show ?thesis by (cases a; cases b) simp
qed

lemma source_json_ok: "json_ok (source_json a)"
  by (simp add: source_json_def)

lemma record_hash_body_ok: "json_ok (record_hash_body r)"
  by (simp add: record_hash_body_def source_json_ok)

lemma record_hash_body_inj:
  assumes "evidence_record_ok a" "evidence_record_ok b" "json_eq (record_hash_body a) (record_hash_body b)"
    "record_hash a = record_hash b"
  shows "a = b"
proof -
  have "evidence_id a = evidence_id b \<and> election_id a = election_id b
    \<and> ev_polling_unit_code a = ev_polling_unit_code b \<and> ev_document_type a = ev_document_type b
    \<and> ev_source a = ev_source b \<and> version a = version b \<and> artifact_sha256 a = artifact_sha256 b
    \<and> artifact_size_bytes a = artifact_size_bytes b \<and> media_type a = media_type b
    \<and> filename a = filename b \<and> isoformat (observed_at a) = isoformat (observed_at b)
    \<and> isoformat (stored_at a) = isoformat (stored_at b)
    \<and> previous_record_hash a = previous_record_hash b"
    using assms(3) unfolding record_hash_body_def
    by (subst (asm) json_eq_fields) (simp_all add: source_json_eq)
  moreover from this have "observed_at a = observed_at b" "stored_at a = stored_at b"
    using assms(1,2) by (auto simp: evidence_record_ok_def intro: isoformat_inj)
  ultimately show ?thesis using assms(4) by simp
qed

interpretation evidence_chain: hash_chain evidence_record_ok record_hash_body previous_record_hash
    record_hash chain_failure
  by unfold_locales (simp_all add: record_hash_body_ok record_hash_body_inj)

section \<open>What the operations do when they succeed\<close>

lemma insert_version_Inr:
  "insert_version r s = Inr s' \<longleftrightarrow> s' = s\<lparr>version_rows := version_rows s @ [r]\<rparr>
     \<and> (\<forall>q \<in> set (version_rows s). (evidence_id q, version q) \<noteq> (evidence_id r, version r))
     \<and> (\<forall>q \<in> set (version_rows s). record_hash q \<noteq> record_hash r)"
  by (auto simp: insert_version_def guarded_eq_Inr list_ex_iff)

lemma append_version_Inr:
  assumes "append_version a now fresh s = Inr (s', r)"
  obtains g eid v prev where "barrier s = Some g" "r = version_record a now eid v prev"
    "s' = s\<lparr>version_rows := version_rows s @ [r], barrier := Some (g + 1)\<rparr>"
    "\<forall>q \<in> set (version_rows s). (evidence_id q, version q) \<noteq> (evidence_id r, version r)"
    "va_evidence_id a = None \<and> eid = ''bp_ev_'' @ fresh \<and> v = 1 \<and> prev = None
     \<or> va_evidence_id a = Some eid \<and> (\<exists>p. previous_row s eid = Some p \<and> v = version p + 1
         \<and> prev = Some (record_hash p))"
proof (cases "va_evidence_id a")
  case None
  then show ?thesis
    using assms that by (auto simp: append_version_def hold_Inr insert_version_Inr Let_def split: if_splits)
next
  case (Some eid)
  then obtain p where "previous_row s eid = Some p"
    using assms by (auto simp: append_version_def hold_Inr split: option.splits)
  with Some show ?thesis
    using assms that by (auto simp: append_version_def hold_Inr insert_version_Inr Let_def split: if_splits)
qed

definition evidence_appends :: "evidence_store \<Rightarrow> evidence_version \<Rightarrow> evidence_store \<Rightarrow> bool" where
  "evidence_appends s r s' \<longleftrightarrow> (\<exists>a now fresh. append_version a now fresh s = Inr (s', r)
     \<and> datetime_ok (va_observed_at a) \<and> offset_ok (va_observed_at a) \<and> datetime_ok now \<and> is_utc now
     \<and> (va_evidence_id a = None \<longrightarrow> history s (''bp_ev_'' @ fresh) = []))"

lemma version_record_simps [simp]:
  "evidence_id (version_record a now eid v prev) = eid"
  "version (version_record a now eid v prev) = v"
  "previous_record_hash (version_record a now eid v prev) = prev"
  "observed_at (version_record a now eid v prev) = va_observed_at a"
  "stored_at (version_record a now eid v prev) = now"
  by (simp_all add: version_record_def Let_def)

lemma version_record_hash:
  "record_hash (version_record a now eid v prev) = hash_record (record_hash_body (version_record a now eid v prev))"
  by (simp add: version_record_def Let_def record_hash_body_def)

lemma version_le_last: "r \<in> set (history s eid) \<Longrightarrow> version r \<le> version (last (history s eid))"
  by (rule sorted_le_last) (simp add: history_def)

lemma history_insert:
  assumes "\<forall>q \<in> set (history s (evidence_id r)). version q \<le> version r"
    "version_rows s' = version_rows s @ [r]"
  shows "history s' k = (if k = evidence_id r then history s k @ [r] else history s k)"
  using assms by (auto simp: history_def intro!: sort_key_snoc_max)

lemma evidence_appends_links:
  assumes "evidence_appends s r s'"
  shows "version_rows s' = version_rows s @ [r]" "evidence_record_ok r"
    "record_hash r = hash_record (record_hash_body r)"
    "previous_record_hash r = (if history s (evidence_id r) = [] then None
      else Some (record_hash (last (history s (evidence_id r)))))"
    "version r = (if history s (evidence_id r) = [] then 1 else version (last (history s (evidence_id r))) + 1)"
proof -
  obtain a now fresh where app: "append_version a now fresh s = Inr (s', r)"
    and ok: "datetime_ok (va_observed_at a)" "offset_ok (va_observed_at a)" "datetime_ok now" "is_utc now"
    and fr: "va_evidence_id a = None \<longrightarrow> history s (''bp_ev_'' @ fresh) = []"
    using assms by (auto simp: evidence_appends_def)
  from app obtain g eid v prev where r: "r = version_record a now eid v prev"
    and s': "s' = s\<lparr>version_rows := version_rows s @ [r], barrier := Some (g + 1)\<rparr>"
    and case_id: "va_evidence_id a = None \<and> eid = ''bp_ev_'' @ fresh \<and> v = 1 \<and> prev = None
     \<or> va_evidence_id a = Some eid \<and> (\<exists>p. previous_row s eid = Some p \<and> v = version p + 1
         \<and> prev = Some (record_hash p))"
    by (rule append_version_Inr) blast
  show "version_rows s' = version_rows s @ [r]" by (simp add: s')
  have "offset_ok now" using ok(4) by (simp add: offset_ok_def is_utc_def)
  then show "evidence_record_ok r" using ok by (simp add: evidence_record_ok_def r)
  show "record_hash r = hash_record (record_hash_body r)" by (simp add: r version_record_hash)
  show "previous_record_hash r = (if history s (evidence_id r) = [] then None
      else Some (record_hash (last (history s (evidence_id r)))))"
    using case_id fr by (auto simp: r previous_row_def split: if_splits)
  show "version r = (if history s (evidence_id r) = [] then 1 else version (last (history s (evidence_id r))) + 1)"
    using case_id fr by (auto simp: r previous_row_def split: if_splits)
qed

interpretation evidence_log: chained_store evidence_record_ok record_hash_body previous_record_hash
    record_hash chain_failure history evidence_id version evidence_appends
proof unfold_locales
  fix s r s' k assume a: "evidence_appends s r s'"
  have "version q \<le> version r" if q: "q \<in> set (history s (evidence_id r))" for q
    using version_le_last [OF q] evidence_appends_links(5) [OF a] q by (auto split: if_splits)
  then show "history s' k = (if k = evidence_id r then history s k @ [r] else history s k)"
    using evidence_appends_links(1) [OF a] by (intro history_insert) auto
qed (simp_all add: evidence_appends_links)

section \<open>Reachable stores\<close>

text \<open>One committed operation. The clock is UTC and in range, as \<open>datetime.now(UTC)\<close> is.\<close>

inductive evidence_step :: "evidence_store \<Rightarrow> evidence_store \<Rightarrow> bool" where
  put: "put_artifact stream max_bytes s = Inr (s', art) \<Longrightarrow> evidence_step s s'"
| append: "append_version a now fresh s = Inr (s', r) \<Longrightarrow> datetime_ok (va_observed_at a) \<Longrightarrow>
    offset_ok (va_observed_at a) \<Longrightarrow> datetime_ok now \<Longrightarrow> is_utc now \<Longrightarrow> evidence_step s s'"
| attest: "add_attestation a s = Inr s' \<Longrightarrow> evidence_step s s'"
| add_ex: "add_extraction args now fresh s = Inr (s', x) \<Longrightarrow> evidence_step s s'"
| review: "add_extraction_review xid sub now fresh s = Inr (s', v) \<Longrightarrow> evidence_step s s'"

inductive evidence_reachable :: "evidence_store \<Rightarrow> bool" where
  init: "evidence_reachable empty_store"
| step: "evidence_reachable s \<Longrightarrow> evidence_step s s' \<Longrightarrow> evidence_reachable s'"

text \<open>Every attestation, extraction and review points to stored evidence with the hash it names.\<close>

definition bound_to :: "evidence_store \<Rightarrow> string \<Rightarrow> int \<Rightarrow> string \<Rightarrow> bool" where
  "bound_to s eid v h \<longleftrightarrow> (\<exists>r \<in> set (version_rows s). evidence_id r = eid \<and> version r = v \<and> record_hash r = h)"

definition extraction_ok :: "evidence_store \<Rightarrow> extraction_record \<Rightarrow> bool" where
  "extraction_ok s x \<longleftrightarrow> bound_to s (ex_evidence_id x) (ex_evidence_version x) (ex_record_hash x)
     \<and> ex_fields x \<noteq> []
     \<and> (\<forall>xid. supersedes_extraction_id x = Some xid \<longrightarrow> (\<exists>y \<in> set (extraction_rows s).
          extraction_id y = xid \<and> ex_evidence_id y = ex_evidence_id x
          \<and> ex_evidence_version y = ex_evidence_version x))"

definition review_ok :: "evidence_store \<Rightarrow> extraction_review \<Rightarrow> bool" where
  "review_ok s v \<longleftrightarrow> (\<exists>x \<in> set (extraction_rows s). extraction_id x = rv_extraction_id v
     \<and> ex_evidence_id x = rv_evidence_id v \<and> ex_evidence_version x = rv_evidence_version v
     \<and> fr_field_name ` set (rv_fields v) \<subseteq> field_name ` set (ex_fields x))"

definition attestation_ok :: "evidence_store \<Rightarrow> signed_attestation \<Rightarrow> bool" where
  "attestation_ok s a \<longleftrightarrow> bound_to s (ap_evidence_id (sa_payload a)) (ap_evidence_version (sa_payload a))
     (ap_record_hash (sa_payload a))"

definition references_ok :: "evidence_store \<Rightarrow> bool" where
  "references_ok s \<longleftrightarrow> list_all (attestation_ok s) (attestation_rows s)
     \<and> list_all (extraction_ok s) (extraction_rows s) \<and> list_all (review_ok s) (review_rows s)
     \<and> distinct (map extraction_id (extraction_rows s))
     \<and> distinct (map review_id (review_rows s)) \<and> distinct (attestation_rows s)"

definition content_addressed :: "evidence_store \<Rightarrow> bool" where
  "content_addressed s \<longleftrightarrow> (\<forall>k c. dict_get (objects s) k = Some c \<longrightarrow> k = sha256_bytes c)"

definition store_ok :: "evidence_store \<Rightarrow> bool" where
  "store_ok s \<longleftrightarrow> evidence_log.sound s \<and> references_ok s \<and> content_addressed s"

text \<open>What one operation may change: rows and objects are only added.\<close>

definition grows :: "evidence_store \<Rightarrow> evidence_store \<Rightarrow> bool" where
  "grows s s' \<longleftrightarrow> (\<exists>vs as xs rs. version_rows s' = version_rows s @ vs
     \<and> attestation_rows s' = attestation_rows s @ as \<and> extraction_rows s' = extraction_rows s @ xs
     \<and> review_rows s' = review_rows s @ rs \<and> dict_get (objects s) \<subseteq>\<^sub>m dict_get (objects s'))"

lemma bound_to_grows: "grows s s' \<Longrightarrow> bound_to s eid v h \<Longrightarrow> bound_to s' eid v h"
  by (auto simp: grows_def bound_to_def)

lemma references_grow:
  assumes "grows s s'"
  shows "attestation_ok s a \<Longrightarrow> attestation_ok s' a" "extraction_ok s x \<Longrightarrow> extraction_ok s' x"
    "review_ok s v \<Longrightarrow> review_ok s' v"
proof -
  have ext: "set (extraction_rows s) \<subseteq> set (extraction_rows s')" using assms by (auto simp: grows_def)
  show "attestation_ok s a \<Longrightarrow> attestation_ok s' a"
    using bound_to_grows [OF assms] by (simp add: attestation_ok_def)
  show "extraction_ok s x \<Longrightarrow> extraction_ok s' x"
    using bound_to_grows [OF assms] ext unfolding extraction_ok_def by blast
  show "review_ok s v \<Longrightarrow> review_ok s' v"
    using ext unfolding review_ok_def by blast
qed

lemma references_ok_add:
  assumes "references_ok s" "grows s s'"
    "attestation_rows s' = attestation_rows s @ as" "extraction_rows s' = extraction_rows s @ xs"
    "review_rows s' = review_rows s @ rs"
    "list_all (attestation_ok s') as" "list_all (extraction_ok s') xs" "list_all (review_ok s') rs"
    "distinct (attestation_rows s')" "distinct (map extraction_id (extraction_rows s'))"
    "distinct (map review_id (review_rows s'))"
  shows "references_ok s'"
  using assms references_grow [OF assms(2)] unfolding references_ok_def
  by (auto simp: list_all_iff)

lemma read_stream_Inr: "read_stream m blocks c = Inr d \<Longrightarrow> \<exists>t. d = c @ t \<and> opt_all (\<lambda>m. length d \<le> m \<or> t = []) m"
proof (induction m blocks c rule: read_stream.induct)
  case (2 m block rest c)
  then show ?case by (cases m) (fastforce split: if_splits)+
qed (auto simp: opt_all_def split: option.split)

lemma put_artifact_Inr:
  assumes "put_artifact stream m s = Inr (s', art)"
  obtains content where "read_stream m stream [] = Inr content" "content \<noteq> []"
    "art = \<lparr>sa_sha256 = sha256_bytes content, sa_size_bytes = length content,
       sa_path = [take 2 (sha256_bytes content), take 2 (drop 2 (sha256_bytes content)), sha256_bytes content]\<rparr>"
    "s' = (if sha256_bytes content \<in> dict_keys (objects s) then s
       else s\<lparr>objects := dict_set (sha256_bytes content) content (objects s)\<rparr>)"
  using assms by (auto simp: put_artifact_def Let_def split: if_splits)

lemma get_version_Inr: "get_version s eid v = Inr r \<Longrightarrow>
    r \<in> set (version_rows s) \<and> evidence_id r = eid \<and> version r = v"
  by (auto simp: get_version_def dest: find_Some_in split: option.splits)

lemma get_extraction_Inr: "get_extraction s xid = Inr x \<Longrightarrow>
    x \<in> set (extraction_rows s) \<and> extraction_id x = xid"
  by (auto simp: get_extraction_def dest: find_Some_in split: option.splits)

lemma insert_attestation_fields [simp]:
  "attestation_rows (insert_attestation a s) = (if a \<in> set (attestation_rows s) then attestation_rows s else attestation_rows s @ [a])"
  "objects (insert_attestation a s) = objects s" "version_rows (insert_attestation a s) = version_rows s"
  "extraction_rows (insert_attestation a s) = extraction_rows s" "review_rows (insert_attestation a s) = review_rows s"
  by (simp_all add: insert_attestation_def Let_def)

lemma add_attestation_Inr:
  assumes "add_attestation a s = Inr s'"
  obtains b where "bound_to s (ap_evidence_id (sa_payload a)) (ap_evidence_version (sa_payload a))
      (ap_record_hash (sa_payload a))"
    "s' = (insert_attestation a s)\<lparr>barrier := b\<rparr>"
  using assms
  by (auto simp: add_attestation_def hold_Inr bound_to_def split: option.splits if_splits dest!: find_Some_in)

lemma check_superseded_ok:
  "check_superseded s args = Inr () \<Longrightarrow> supersedes_extraction_id args = Some xid \<Longrightarrow>
   \<exists>y \<in> set (extraction_rows s). extraction_id y = xid \<and> ex_evidence_id y = ex_evidence_id args
     \<and> ex_evidence_version y = ex_evidence_version args"
  by (auto simp: check_superseded_def dest!: get_extraction_Inr split: if_splits)

lemma insert_extraction_Inr:
  "insert_extraction x s = Inr s' \<longleftrightarrow> s' = s\<lparr>extraction_rows := extraction_rows s @ [x]\<rparr>
     \<and> 1 \<le> ex_evidence_version x \<and> is_sha256_hex (ex_record_hash x) \<and> ex_fields x \<noteq> []
     \<and> extraction_id x \<notin> extraction_id ` set (extraction_rows s)"
  by (auto simp: insert_extraction_def guarded_eq_Inr list_ex_iff) (metis image_eqI)

lemma insert_review_Inr:
  "insert_review v s = Inr s' \<longleftrightarrow> s' = s\<lparr>review_rows := review_rows s @ [v]\<rparr>
     \<and> review_id v \<notin> review_id ` set (review_rows s)"
  by (auto simp: insert_review_def guarded_eq_Inr list_ex_iff) (metis image_eqI)

lemma add_extraction_Inr:
  assumes "add_extraction args now fresh s = Inr (s', x)"
  obtains b where "s' = s\<lparr>extraction_rows := extraction_rows s @ [x], barrier := b\<rparr>"
    "extraction_ok s x" "extraction_id x \<notin> extraction_id ` set (extraction_rows s)"
proof -
  obtain g ev s1 where ev: "get_version s (ex_evidence_id args) (ex_evidence_version args) = Inr ev"
    "record_hash ev = ex_record_hash args" "check_superseded s args = Inr ()"
    and x: "x = args\<lparr>extraction_id := ''bp_ex_'' @ fresh, ex_stored_at := now\<rparr>"
    and ins: "insert_extraction x s = Inr s1" and s': "s' = s1\<lparr>barrier := Some (g + 1)\<rparr>"
    using assms by (auto simp: add_extraction_def hold_Inr Let_def split: if_splits)
  have "extraction_ok s x"
    using get_version_Inr [OF ev(1)] ev(2) check_superseded_ok [OF ev(3)] ins
    by (auto simp: extraction_ok_def bound_to_def insert_extraction_Inr x)
  with ins s' that [of "Some (g + 1)"] show thesis by (simp add: insert_extraction_Inr)
qed

lemma add_extraction_review_Inr:
  assumes "add_extraction_review xid sub now fresh s = Inr (s', v)"
  obtains b where "s' = s\<lparr>review_rows := review_rows s @ [v], barrier := b\<rparr>"
    "review_ok s v" "review_id v \<notin> review_id ` set (review_rows s)"
proof -
  obtain g x s1 where x: "get_extraction s xid = Inr x"
    and f: "sorted_set (set (map fr_field_name (rs_fields sub)) - set (map field_name (ex_fields x))) = []"
    and v: "v = review_record x sub now fresh"
    and ins: "insert_review v s = Inr s1" and s': "s' = s1\<lparr>barrier := Some (g + 1)\<rparr>"
    using assms by (auto simp: add_extraction_review_def hold_Inr Let_def split: if_splits)
  have "fr_field_name ` set (rs_fields sub) \<subseteq> field_name ` set (ex_fields x)" using f by auto
  then have "review_ok s v"
    using get_extraction_Inr [OF x] by (auto simp: review_ok_def review_record_def v)
  with ins s' that [of "Some (g + 1)"] show thesis by (simp add: insert_review_Inr)
qed

section \<open>Every operation keeps the store sound\<close>

lemma append_is_append:
  assumes "evidence_log.sound s" "append_version a now fresh s = Inr (s', r)"
    "datetime_ok (va_observed_at a)" "offset_ok (va_observed_at a)" "datetime_ok now" "is_utc now"
  shows "evidence_appends s r s'"
proof -
  have "history s (''bp_ev_'' @ fresh) = []" if new: "va_evidence_id a = None"
  proof (rule ccontr)
    let ?h = "history s (''bp_ev_'' @ fresh)"
    assume "?h \<noteq> []"
    then have "1 \<le> int (length ?h)" by (cases ?h) simp_all
    then have "1 \<in> set (map version ?h)"
      unfolding evidence_log.sound_history(3) [OF assms(1)] by simp
    then obtain q where "q \<in> set (version_rows s)" "evidence_id q = ''bp_ev_'' @ fresh" "version q = 1"
      by (auto simp: history_def)
    moreover obtain g eid v prev where "r = version_record a now eid v prev" "eid = ''bp_ev_'' @ fresh" "v = 1"
      "\<forall>q \<in> set (version_rows s). (evidence_id q, version q) \<noteq> (evidence_id r, version r)"
      by (rule append_version_Inr [OF assms(2)]) (use new in auto)
    ultimately show False by auto
  qed
  then show ?thesis unfolding evidence_appends_def
    by (intro exI [of _ a] exI [of _ now] exI [of _ fresh] conjI impI assms)
qed

lemma sound_same_rows: "version_rows s' = version_rows s \<Longrightarrow> evidence_log.sound s' = evidence_log.sound s"
  by (simp add: evidence_log.sound_def history_def)

lemma step_grows: "evidence_step s s' \<Longrightarrow> grows s s'"
proof (induction rule: evidence_step.induct)
  case (put stream max_bytes s s' art)
  then show ?case
    by (rule put_artifact_Inr) (auto simp: grows_def map_le_def dict_simps dict_keys_dom)
next
  case (append a now fresh s s' r)
  from append(1) show ?case by (rule append_version_Inr) (auto simp: grows_def)
next
  case (attest a s s')
  then show ?case by (rule add_attestation_Inr) (auto simp: grows_def)
next
  case (add_ex args now fresh s s' x)
  then show ?case by (rule add_extraction_Inr) (auto simp: grows_def)
next
  case (review xid sub now fresh s s' v)
  then show ?case by (rule add_extraction_review_Inr) (auto simp: grows_def)
qed

lemma step_keeps_rows_sound:
  assumes "evidence_log.sound s" "evidence_step s s'"
  shows "evidence_log.sound s'"
  using assms(2,1)
proof (induction rule: evidence_step.induct)
  case (put stream max_bytes s s' art)
  from put(1) have "version_rows s' = version_rows s" by (rule put_artifact_Inr) simp
  with put(2) show ?case using sound_same_rows by metis
next
  case (append a now fresh s s' r)
  then show ?case
    using evidence_log.sound_append [OF append(6) append_is_append [OF append(6) append(1-5)]] by simp
next
  case (attest a s s')
  from attest(1) have "version_rows s' = version_rows s" by (rule add_attestation_Inr) simp
  with attest(2) show ?case using sound_same_rows by metis
next
  case (add_ex args now fresh s s' x)
  from add_ex(1) have "version_rows s' = version_rows s" by (rule add_extraction_Inr) simp
  with add_ex(2) show ?case using sound_same_rows by metis
next
  case (review xid sub now fresh s s' v)
  from review(1) have "version_rows s' = version_rows s" by (rule add_extraction_review_Inr) simp
  with review(2) show ?case using sound_same_rows by metis
qed

lemma references_ok_unique:
  "references_ok s \<Longrightarrow> distinct (attestation_rows s) \<and> distinct (map extraction_id (extraction_rows s))
     \<and> distinct (map review_id (review_rows s))"
  by (simp add: references_ok_def)

lemma step_keeps_references:
  assumes "references_ok s" "evidence_step s s'"
  shows "references_ok s'"
proof -
  note g = step_grows [OF assms(2)] and u = references_ok_unique [OF assms(1)]
  from assms(2) show ?thesis
  proof cases
    case (put stream max_bytes art)
    from put have "attestation_rows s' = attestation_rows s @ []" "extraction_rows s' = extraction_rows s @ []"
      "review_rows s' = review_rows s @ []" by (rule put_artifact_Inr; simp)+
    with u show ?thesis by (intro references_ok_add [OF assms(1) g]) auto
  next
    case (append a now fresh r)
    from append(1) have "attestation_rows s' = attestation_rows s @ []" "extraction_rows s' = extraction_rows s @ []"
      "review_rows s' = review_rows s @ []" by (rule append_version_Inr; simp)+
    with u show ?thesis by (intro references_ok_add [OF assms(1) g]) auto
  next
    case (attest a)
    then obtain b where ok: "attestation_ok s a"
      and s': "s' = (insert_attestation a s)\<lparr>barrier := b\<rparr>"
      unfolding attestation_ok_def by (rule add_attestation_Inr) blast
    then have "attestation_ok s' a" using references_grow(1) [OF g] by blast
    then show ?thesis using u s'
      by (intro references_ok_add [OF assms(1) g, where as = "if a \<in> set (attestation_rows s) then [] else [a]"])
        auto
  next
    case (add_ex args now fresh x)
    then obtain b where s': "s' = s\<lparr>extraction_rows := extraction_rows s @ [x], barrier := b\<rparr>"
      and ok: "extraction_ok s x" "extraction_id x \<notin> extraction_id ` set (extraction_rows s)"
      by (rule add_extraction_Inr) blast
    have "extraction_ok s' x" using references_grow(2) [OF g ok(1)] .
    then show ?thesis using u s' ok(2)
      by (intro references_ok_add [OF assms(1) g, where xs = "[x]"]) auto
  next
    case (review xid sub now fresh v)
    then obtain b where s': "s' = s\<lparr>review_rows := review_rows s @ [v], barrier := b\<rparr>"
      and ok: "review_ok s v" "review_id v \<notin> review_id ` set (review_rows s)"
      by (rule add_extraction_review_Inr) blast
    have "review_ok s' v" using references_grow(3) [OF g ok(1)] .
    then show ?thesis using u s' ok(2)
      by (intro references_ok_add [OF assms(1) g, where rs = "[v]"]) auto
  qed
qed

lemma step_keeps_content:
  assumes "content_addressed s" "evidence_step s s'"
  shows "content_addressed s'"
  using assms(2)
proof cases
  case (put stream max_bytes art)
  then show ?thesis
    by (rule put_artifact_Inr) (use assms(1) in \<open>auto simp: content_addressed_def dict_get_set\<close>)
next
  case (append a now fresh r)
  from append(1) have "objects s' = objects s" by (rule append_version_Inr) simp
  with assms(1) show ?thesis by (simp add: content_addressed_def)
next
  case (attest a)
  then have "objects s' = objects s" by (rule add_attestation_Inr) simp
  with assms(1) show ?thesis by (simp add: content_addressed_def)
next
  case (add_ex args now fresh x)
  then have "objects s' = objects s" by (rule add_extraction_Inr) simp
  with assms(1) show ?thesis by (simp add: content_addressed_def)
next
  case (review xid sub now fresh v)
  then have "objects s' = objects s" by (rule add_extraction_review_Inr) simp
  with assms(1) show ?thesis by (simp add: content_addressed_def)
qed

lemma reachable_ok:
  "evidence_reachable s \<Longrightarrow> evidence_log.sound s \<and> references_ok s \<and> content_addressed s"
proof (induction rule: evidence_reachable.induct)
  case init
  have "history empty_store k = []" for k by (simp add: history_def empty_store_def)
  then have "evidence_log.sound empty_store" by (simp add: evidence_log.sound_def)
  then show ?case by (simp add: empty_store_def references_ok_def content_addressed_def)
next
  case (step s s')
  then show ?case using step_keeps_rows_sound step_keeps_references step_keeps_content by blast
qed

section \<open>Ids of the attestation rows\<close>

text \<open>Every row has an id, ids increase row by row, and none is above the sequence.\<close>

definition attestation_ids_ok :: "evidence_store \<Rightarrow> bool" where
  "attestation_ids_ok s \<longleftrightarrow> length (attestation_ids s) = length (attestation_rows s)
     \<and> sorted_wrt (<) (attestation_ids s) \<and> (\<forall>n \<in> set (attestation_ids s). 1 \<le> n \<and> n \<le> attestation_seq s)"

lemma insert_attestation_ids:
  assumes "attestation_ids_ok s"
  shows "attestation_ids_ok (insert_attestation a s)"
  using assms by (fastforce simp: attestation_ids_ok_def insert_attestation_def Let_def sorted_wrt_append)

lemma same_attestation_ids:
  "attestation_ids_ok s \<Longrightarrow> attestation_rows s' = attestation_rows s \<Longrightarrow> attestation_ids s' = attestation_ids s \<Longrightarrow>
    attestation_seq s' = attestation_seq s \<Longrightarrow> attestation_ids_ok s'"
  by (simp add: attestation_ids_ok_def)

lemma step_keeps_attestation_ids:
  assumes "attestation_ids_ok s" "evidence_step s s'"
  shows "attestation_ids_ok s'"
  using assms(2)
proof cases
  case (put stream max_bytes art)
  then show ?thesis by (rule put_artifact_Inr) (use assms(1) in \<open>auto intro: same_attestation_ids\<close>)
next
  case (append a now fresh r)
  from append(1) show ?thesis by (rule append_version_Inr) (use assms(1) in \<open>auto intro: same_attestation_ids\<close>)
next
  case (attest a)
  then obtain b where s': "s' = (insert_attestation a s)\<lparr>barrier := b\<rparr>" by (rule add_attestation_Inr)
  show ?thesis unfolding s' by (rule same_attestation_ids [OF insert_attestation_ids [OF assms(1)]]) simp_all
next
  case (add_ex args now fresh x)
  then show ?thesis by (rule add_extraction_Inr) (use assms(1) in \<open>auto intro: same_attestation_ids\<close>)
next
  case (review xid sub now fresh v)
  then show ?thesis by (rule add_extraction_review_Inr) (use assms(1) in \<open>auto intro: same_attestation_ids\<close>)
qed

lemma reachable_attestation_ids: "evidence_reachable s \<Longrightarrow> attestation_ids_ok s"
  by (induction rule: evidence_reachable.induct)
    (simp add: empty_store_def attestation_ids_ok_def, blast intro: step_keeps_attestation_ids)

section \<open>What the store promises\<close>

lemma verify_chain_valid:
  "cv_valid (verify_chain s eid) \<longleftrightarrow> chain_failure None (history s eid) = None"
  by (simp add: verify_chain_def Let_def split: option.split)

text \<open>C3. Whatever operations a store has committed, every chain verifies, with every version checked,
  and the versions of a record are numbered 1, 2, 3, ... without gaps.\<close>

theorem evidence_chain_valid:
  assumes "evidence_reachable s"
  shows "verify_chain s eid = \<lparr>cv_evidence_id = eid, cv_valid = True,
      versions_checked = int (length (history s eid)), failure_version = None\<rparr>
    \<and> map version (history s eid) = [1..int (length (history s eid))]"
  using reachable_ok [OF assms] evidence_log.sound_history [of s eid]
  by (simp add: verify_chain_def Let_def)

text \<open>C4. Verification is tamper evident: if the records somebody presents for an id (rewritten rows
  included) verify and end with the record hash that the store's own history ends with, then they
  are the store's history, unless SHA-256 collides on the records concerned.\<close>

theorem evidence_tamper_evident:
  assumes "evidence_reachable s" "cv_valid (verify_chain t eid)"
    "history s eid \<noteq> []" "history t eid \<noteq> []"
    "record_hash (last (history t eid)) = record_hash (last (history s eid))"
    "list_all evidence_record_ok (history t eid)"
    "collision_free (canonical_json_bytes ` record_hash_body ` (set (history s eid) \<union> set (history t eid)))"
  shows "history t eid = history s eid"
proof -
  have "evidence_log.sound s" using reachable_ok [OF assms(1)] by blast
  then have s: "chain_failure None (history s eid) = None" "list_all evidence_record_ok (history s eid)"
    by (rule evidence_log.sound_history)+
  have "evidence_chain.head_after None (history s eid) = evidence_chain.head_after None (history t eid)"
    using assms(3-5) by (simp add: evidence_chain.head_after_def)
  from evidence_chain.head_determines_history [OF assms(7) s(1) _ s(2) assms(6) this]
  show ?thesis using assms(2) by (simp add: verify_chain_valid)
qed

text \<open>Every stored attestation and extraction names an existing evidence version together with
  that version's record hash, superseded extractions belong to the same evidence version, and
  every review covers only fields of the extraction it reviews; ids never repeat.\<close>

theorem evidence_references_bound:
  assumes "evidence_reachable s"
  shows "list_all (attestation_ok s) (attestation_rows s) \<and> list_all (extraction_ok s) (extraction_rows s)
    \<and> list_all (review_ok s) (review_rows s) \<and> distinct (map extraction_id (extraction_rows s))
    \<and> distinct (map review_id (review_rows s)) \<and> distinct (attestation_rows s)"
  using reachable_ok [OF assms] by (simp add: references_ok_def)

text \<open>Operations only add: rows and objects are kept as they are, and what a record's history was
  stays a prefix of its history.\<close>

theorem evidence_append_only:
  assumes "evidence_reachable s" "evidence_step s s'"
  shows "grows s s' \<and> (\<exists>new. history s' eid = history s eid @ new)"
proof -
  have sound: "evidence_log.sound s" using reachable_ok [OF assms(1)] by blast
  have same: "\<exists>new. history s' eid = history s eid @ new" if "version_rows s' = version_rows s"
    using that by (simp add: history_def)
  from assms(2) have "\<exists>new. history s' eid = history s eid @ new"
  proof cases
    case (put stream max_bytes art)
    then have "version_rows s' = version_rows s" by (rule put_artifact_Inr) simp
    then show ?thesis by (rule same)
  next
    case (append a now fresh r)
    then show ?thesis using evidence_log.append_prefix [OF append_is_append [OF sound append]] by blast
  next
    case (attest a)
    then have "version_rows s' = version_rows s" by (rule add_attestation_Inr) simp
    then show ?thesis by (rule same)
  next
    case (add_ex args now fresh x)
    then have "version_rows s' = version_rows s" by (rule add_extraction_Inr) simp
    then show ?thesis by (rule same)
  next
    case (review xid sub now fresh v)
    then have "version_rows s' = version_rows s" by (rule add_extraction_review_Inr) simp
    then show ?thesis by (rule same)
  qed
  with step_grows [OF assms(2)] show ?thesis by blast
qed

lemma read_stream_content:
  "read_stream m blocks c = Inr d \<Longrightarrow> d = c @ concat (takeWhile (\<lambda>b. b \<noteq> []) blocks)
     \<and> (d \<noteq> c \<longrightarrow> opt_all (\<lambda>n. length d \<le> n) m)"
proof (induction m blocks c rule: read_stream.induct)
  case (2 m block rest c)
  show ?case
  proof (cases "block = []")
    case False
    with "2.prems" have fits: "opt_all (\<lambda>n. length (c @ block) \<le> n) m"
      and r: "read_stream m rest (c @ block) = Inr d"
      by (auto simp: opt_all_def split: option.splits if_splits)
    have "\<not> (case m of None \<Rightarrow> False | Some n \<Rightarrow> n < length (c @ block))"
      using fits by (auto simp: opt_all_def split: option.splits)
    from "2.IH" [OF False this r] fits False show ?thesis by (cases "d = c @ block") auto
  qed (use "2.prems" in simp)
qed simp

text \<open>A stored artifact is found under its own SHA-256: after \<open>put_artifact\<close> the object
  with the returned hash is exactly the streamed content, which respects the byte limit, unless
  SHA-256 collides with an object already stored.\<close>

theorem put_artifact_content_addressed:
  assumes "evidence_reachable s" "put_artifact stream max_bytes s = Inr (s', art)"
    "collision_free (insert (concat (takeWhile (\<lambda>b. b \<noteq> []) stream)) (ran (dict_get (objects s))))"
  shows "dict_get (objects s') (sa_sha256 art) = Some (concat (takeWhile (\<lambda>b. b \<noteq> []) stream))
    \<and> sa_sha256 art = sha256_bytes (concat (takeWhile (\<lambda>b. b \<noteq> []) stream))
    \<and> sa_size_bytes art = length (concat (takeWhile (\<lambda>b. b \<noteq> []) stream))
    \<and> 0 < sa_size_bytes art \<and> opt_all (\<lambda>n. sa_size_bytes art \<le> n) max_bytes"
proof -
  let ?c = "concat (takeWhile (\<lambda>b. b \<noteq> []) stream)"
  obtain content where content: "read_stream max_bytes stream [] = Inr content" "content \<noteq> []"
    and art: "sa_sha256 art = sha256_bytes content" "sa_size_bytes art = length content"
    and s': "s' = (if sha256_bytes content \<in> dict_keys (objects s) then s
       else s\<lparr>objects := dict_set (sha256_bytes content) content (objects s)\<rparr>)"
    by (rule put_artifact_Inr [OF assms(2)]) simp
  have c: "content = ?c" "opt_all (\<lambda>n. length content \<le> n) max_bytes"
    using read_stream_content [OF content(1)] content(2) by auto
  have "dict_get (objects s') (sha256_bytes content) = Some content"
  proof (cases "dict_get (objects s) (sha256_bytes content)")
    case None
    then show ?thesis by (simp add: s' dict_simps flip: dict_get_None)
  next
    case (Some d)
    then have "sha256_bytes content = sha256_bytes d"
      using reachable_ok [OF assms(1)] by (simp add: content_addressed_def)
    moreover have "d \<in> ran (dict_get (objects s))" using Some by (rule ranI)
    ultimately have "content = d"
      using collision_freeD [OF assms(3)] c(1) by (simp add: sha256_bytes_eq)
    with Some show ?thesis by (simp add: s' dict_get_Some_key)
  qed
  with art c content(2) show ?thesis by simp
qed

section \<open>A concrete store\<close>

definition demo_args :: version_args where
  "demo_args = \<lparr>va_artifact = \<lparr>sa_sha256 = sha256_bytes [1], sa_size_bytes = 1, sa_path = []\<rparr>,
     va_election_id = ''E'', va_polling_unit_code = ''PU'', va_document_type = ''EC8A'',
     va_source = \<lparr>provider = ''p'', source_type = official_publication, source_url = None\<rparr>,
     va_observed_at = \<lparr>wall = 0, utcoffset = Some 3600\<rparr>, va_media_type = None, va_filename = None,
     va_evidence_id = None\<rparr>"

definition demo_now :: datetime where
  "demo_now = \<lparr>wall = 5, utcoffset = Some 0\<rparr>"

definition demo_version :: evidence_version where
  "demo_version = version_record demo_args demo_now ''bp_ev_0'' 1 None"

definition demo_store :: evidence_store where
  "demo_store = empty_store\<lparr>version_rows := [demo_version], barrier := Some 1\<rparr>"

lemma demo_append: "append_version demo_args demo_now ''0'' empty_store = Inr (demo_store, demo_version)"
  by (simp add: append_version_def hold_def empty_store_def new_barrier_def demo_args_def demo_store_def
      demo_version_def Let_def evidence_version_fields_ok_def insert_version_def version_record_def
      sha256_bytes_is_hex)

lemma demo_step: "evidence_step empty_store demo_store"
  by (rule evidence_step.append [OF demo_append])
    (simp_all add: demo_args_def demo_now_def datetime_ok_def offset_ok_def is_utc_def max_wall_def
      us_per_day_def us_per_second_def)

lemma demo_reachable: "evidence_reachable demo_store"
  using evidence_reachable.step [OF evidence_reachable.init demo_step] .

lemma demo_history: "history demo_store ''bp_ev_0'' = [demo_version]"
  by (simp add: history_def demo_store_def demo_version_def)

lemma evidence_chain_valid_witness:
  "cv_valid (verify_chain demo_store ''bp_ev_0'') \<and> versions_checked (verify_chain demo_store ''bp_ev_0'') = 1"
  using evidence_chain_valid [OF demo_reachable, of "''bp_ev_0''"] by (simp add: demo_history)

lemma evidence_tamper_evident_witness:
  "history demo_store ''bp_ev_0'' = history (demo_store\<lparr>barrier := None\<rparr>) ''bp_ev_0''"
proof -
  have h: "history (demo_store\<lparr>barrier := None\<rparr>) ''bp_ev_0'' = [demo_version]"
    using demo_history by (simp add: history_def)
  have "cv_valid (verify_chain demo_store ''bp_ev_0'')"
    using reachable_ok [OF demo_reachable] evidence_log.sound_history(1) [of demo_store "''bp_ev_0''"]
    by (simp add: verify_chain_valid)
  then have v: "cv_valid (verify_chain (demo_store\<lparr>barrier := None\<rparr>) ''bp_ev_0'')"
    by (simp add: verify_chain_valid h demo_history)
  have ok: "evidence_record_ok demo_version"
    by (simp add: evidence_record_ok_def demo_version_def demo_args_def demo_now_def datetime_ok_def
        offset_ok_def max_wall_def us_per_day_def us_per_second_def)
  show ?thesis
    by (rule sym, rule evidence_tamper_evident [OF demo_reachable v])
      (simp_all add: h demo_history ok)
qed

lemma evidence_references_bound_witness:
  "list_all (attestation_ok demo_store) (attestation_rows demo_store)"
  using evidence_references_bound [OF demo_reachable] by blast

lemma evidence_append_only_witness: "grows empty_store demo_store"
  using evidence_append_only [OF evidence_reachable.init demo_step] by blast

lemma put_artifact_content_addressed_witness:
  "\<exists>s' art. put_artifact [[1], [2, 3]] (Some 3) empty_store = Inr (s', art)
    \<and> dict_get (objects s') (sa_sha256 art) = Some [1, 2, 3] \<and> sa_size_bytes art = 3"
proof -
  obtain s' art where p: "put_artifact [[1], [2, 3]] (Some 3) empty_store = Inr (s', art)"
    by (simp add: put_artifact_def Let_def empty_store_def)
  have "dict_get (objects s') (sa_sha256 art) = Some [1, 2, 3] \<and> sa_size_bytes art = 3"
    using put_artifact_content_addressed [OF evidence_reachable.init p]
    by (auto simp: empty_store_def ran_def numeral_3_eq_3)
  with p show ?thesis by blast
qed

end
