(* ===== verification/Attestations.thy ===== *)
theory Attestations
  imports Evidence_Models Governance_Chain Source_Policy
begin

text \<open>
  src/ballotproof/attestations.py and src/ballotproof/extraction_adapters.py: signing and verifying attestations, and
  binding the output of an extraction adapter to its manifest. Ed25519 is \<open>release_library\<close>.
\<close>

section \<open>Attestations\<close>

definition statement_text :: "attestation_statement \<Rightarrow> string" where
  "statement_text s = (case s of reviewed_source \<Rightarrow> ''reviewed_source'' | matches_source \<Rightarrow> ''matches_source''
     | disputes_extraction \<Rightarrow> ''disputes_extraction'')"

definition attestation_json :: "(datetime \<Rightarrow> string) \<Rightarrow> attestation_payload \<Rightarrow> json" where
  "attestation_json dt p = JObj
     [(''evidence_id'', JStr (ap_evidence_id p)), (''evidence_version'', JInt (ap_evidence_version p)),
      (''record_hash'', JStr (ap_record_hash p)), (''actor_id'', JStr (ap_actor_id p)),
      (''statement'', JStr (statement_text (ap_statement p))), (''issued_at'', JStr (dt (ap_issued_at p))),
      (''note'', json_opt JStr (ap_note p))]"

definition sign_attestation :: "release_library \<Rightarrow> (datetime \<Rightarrow> string) \<Rightarrow> attestation_payload \<Rightarrow> byte list \<Rightarrow> signed_attestation" where
  "sign_attestation lib dt p private = \<lparr>sa_payload = p, sa_public_key_b64 = b64encode (public_bytes lib private),
     sa_signature_b64 = b64encode (ed_sign lib private (canonical_json_bytes (attestation_json dt p)))\<rparr>"

definition check_attestation :: "release_library \<Rightarrow> (datetime \<Rightarrow> string) \<Rightarrow> signed_attestation \<Rightarrow> unit result" where
  "check_attestation lib dt a =
     bind_result (b64decode (sa_public_key_b64 a)) (\<lambda>raw. bind_result (load_public_key raw) (\<lambda>key.
     bind_result (b64decode (sa_signature_b64 a)) (\<lambda>signature.
       check_signature lib key signature (canonical_json_bytes (attestation_json dt (sa_payload a))))))"

text \<open>Every exception of the checks is a ValueError or an InvalidSignature.\<close>

definition verify_attestation :: "release_library \<Rightarrow> (datetime \<Rightarrow> string) \<Rightarrow> signed_attestation \<Rightarrow> bool" where
  "verify_attestation lib dt a = (case check_attestation lib dt a of Inl _ \<Rightarrow> False | Inr _ \<Rightarrow> True)"

lemma statement_text_inj: "statement_text s = statement_text t \<longleftrightarrow> s = t"
  by (cases s; cases t) (simp_all add: statement_text_def)

lemma attestation_json_ok: "json_ok (attestation_json dt p)"
  by (simp add: attestation_json_def json_opt_def split: option.split)

lemma attestation_json_inj:
  assumes "inj_on dt {t. clock_ok t}" "clock_ok (ap_issued_at p)" "clock_ok (ap_issued_at q)"
  shows "json_eq (attestation_json dt p) (attestation_json dt q) \<longleftrightarrow> p = q"
proof
  assume "json_eq (attestation_json dt p) (attestation_json dt q)"
  then show "p = q"
    using inj_onD [OF assms(1)] assms(2,3) by (cases p; cases q)
      (auto simp: attestation_json_def statement_text_inj json_opt_def split: option.splits)
qed (simp add: attestation_json_ok)

lemma verify_attestation_iff:
  "verify_attestation lib dt a \<longleftrightarrow> (\<exists>key signature. b64decode (sa_public_key_b64 a) = Inr key \<and> length key = 32
     \<and> b64decode (sa_signature_b64 a) = Inr signature
     \<and> ed_verify lib key signature (canonical_json_bytes (attestation_json dt (sa_payload a))))"
  by (auto simp: verify_attestation_def check_attestation_def load_public_key_def check_signature_def bind_result_def
      split: sum.splits)

text \<open>A signed attestation verifies. Two attestations with the same key and signature that both verify either attest
  the same thing, or the signature verifies for two different messages under one key. Times are in UTC, and their dump tells them
  apart.\<close>

theorem attestation_signature_binds:
  assumes "signatures_ok lib" "inj_on dt {t. clock_ok t}"
  shows "verify_attestation lib dt (sign_attestation lib dt p private)
    \<and> (\<forall>a b. verify_attestation lib dt a \<and> verify_attestation lib dt b \<and> sa_public_key_b64 a = sa_public_key_b64 b
         \<and> sa_signature_b64 a = sa_signature_b64 b \<and> clock_ok (ap_issued_at (sa_payload a)) \<and> clock_ok (ap_issued_at (sa_payload b))
         \<and> sa_payload a \<noteq> sa_payload b \<longrightarrow>
         (\<exists>key signature m n. m \<noteq> n \<and> ed_verify lib key signature m \<and> ed_verify lib key signature n))"
proof (intro conjI allI impI)
  show "verify_attestation lib dt (sign_attestation lib dt p private)"
    using assms(1) by (simp add: verify_attestation_iff sign_attestation_def b64decode_encode signatures_ok_def)
  fix a b :: signed_attestation
  assume ab: "verify_attestation lib dt a \<and> verify_attestation lib dt b \<and> sa_public_key_b64 a = sa_public_key_b64 b
         \<and> sa_signature_b64 a = sa_signature_b64 b \<and> clock_ok (ap_issued_at (sa_payload a)) \<and> clock_ok (ap_issued_at (sa_payload b))
         \<and> sa_payload a \<noteq> sa_payload b"
  then have "canonical_json_bytes (attestation_json dt (sa_payload a)) \<noteq> canonical_json_bytes (attestation_json dt (sa_payload b))"
    by (simp add: canonical_bytes_eq attestation_json_ok attestation_json_inj [OF assms(2)])
  with ab show "\<exists>key signature m n. m \<noteq> n \<and> ed_verify lib key signature m \<and> ed_verify lib key signature n"
    unfolding verify_attestation_iff by (metis sum.inject(2))
qed

section \<open>Extraction adapters\<close>

text \<open>The configuration is a dictionary of JSON values, dumped as it is.\<close>

record adapter_manifest =
  am_engine :: string
  am_model_id :: string
  am_model_version :: "string option"
  am_adapter_version :: string
  am_schema_version :: string
  am_configuration :: "json dict"

record adapter_field =
  af_field_name :: string
  af_raw_value :: "string option"
  af_normalized_value :: json
  af_confidence :: rat
  af_page :: "int option"
  af_bbox :: "rat list option"

record adapter_output =
  ao_manifest :: adapter_manifest
  ao_created_at :: datetime
  ao_fields :: "adapter_field list"

definition adapter_manifest_ok :: "adapter_manifest \<Rightarrow> bool" where
  "adapter_manifest_ok m = (len_between 1 128 (am_engine m) \<and> len_between 1 256 (am_model_id m)
     \<and> opt_all (\<lambda>s. py_len s \<le> 128) (am_model_version m) \<and> len_between 1 64 (am_adapter_version m)
     \<and> len_between 1 64 (am_schema_version m) \<and> json_ok (JObj (am_configuration m)))"

definition adapter_field_ok :: "adapter_field \<Rightarrow> bool" where
  "adapter_field_ok f = (len_between 1 256 (af_field_name f) \<and> opt_all (\<lambda>s. py_len s \<le> 2000) (af_raw_value f)
     \<and> 0 \<le> af_confidence f \<and> af_confidence f \<le> 1 \<and> opt_all (\<lambda>n. 1 \<le> n) (af_page f)
     \<and> opt_all (\<lambda>b. length b = 4) (af_bbox f))"

definition adapter_output_ok :: "adapter_output \<Rightarrow> bool" where
  "adapter_output_ok out = (adapter_manifest_ok (ao_manifest out) \<and> ao_fields out \<noteq> [] \<and> list_all adapter_field_ok (ao_fields out))"

definition adapter_manifest_json :: "adapter_manifest \<Rightarrow> json" where
  "adapter_manifest_json m = JObj
     [(''engine'', JStr (am_engine m)), (''model_id'', JStr (am_model_id m)),
      (''model_version'', json_opt JStr (am_model_version m)), (''adapter_version'', JStr (am_adapter_version m)),
      (''schema_version'', JStr (am_schema_version m)), (''configuration'', JObj (am_configuration m))]"

definition config_hash :: "adapter_manifest \<Rightarrow> string" where
  "config_hash m = hash_record (adapter_manifest_json m)"

definition verify_adapter_output :: "adapter_output \<Rightarrow> adapter_manifest \<Rightarrow> bool" where
  "verify_adapter_output out m = (config_hash (ao_manifest out) = config_hash m)"

lemma adapter_manifest_json_ok: "adapter_manifest_ok m \<Longrightarrow> json_ok (adapter_manifest_json m)"
  by (simp add: adapter_manifest_json_def adapter_manifest_ok_def json_opt_def split: option.split)

lemma manifest_fields_eq:
  "json_eq (JObj [(''engine'', a1), (''model_id'', a2), (''model_version'', a3), (''adapter_version'', a4),
       (''schema_version'', a5), (''configuration'', a6)])
     (JObj [(''engine'', b1), (''model_id'', b2), (''model_version'', b3), (''adapter_version'', b4),
       (''schema_version'', b5), (''configuration'', b6)])
   \<longleftrightarrow> json_eq a1 b1 \<and> json_eq a2 b2 \<and> json_eq a3 b3 \<and> json_eq a4 b4 \<and> json_eq a5 b5 \<and> json_eq a6 b6"
  by (auto simp: dict_keys_def)

text \<open>Unless SHA-256 collides on the two documents, an output verifies against a manifest exactly when it records this
  manifest, up to the key order of the configuration.\<close>

lemma adapter_output_bound:
  assumes "adapter_manifest_ok m" "adapter_output_ok out" "canonical_json_bytes (adapter_manifest_json m) \<in> M"
    "canonical_json_bytes (adapter_manifest_json (ao_manifest out)) \<in> M" "collision_free M"
  shows "verify_adapter_output out m \<longleftrightarrow> json_eq (JObj (am_configuration (ao_manifest out))) (JObj (am_configuration m))
    \<and> ao_manifest out = m\<lparr>am_configuration := am_configuration (ao_manifest out)\<rparr>"
proof -
  have ok: "json_ok (adapter_manifest_json m)" "json_ok (adapter_manifest_json (ao_manifest out))"
    using assms(1,2) adapter_manifest_json_ok by (simp_all add: adapter_output_ok_def)
  have "verify_adapter_output out m \<longleftrightarrow> json_eq (adapter_manifest_json (ao_manifest out)) (adapter_manifest_json m)"
    using hash_record_eq [OF ok(2,1) assms(4,3,5)] by (simp add: verify_adapter_output_def config_hash_def)
  also have "\<dots> \<longleftrightarrow> json_eq (JObj (am_configuration (ao_manifest out))) (JObj (am_configuration m))
      \<and> ao_manifest out = m\<lparr>am_configuration := am_configuration (ao_manifest out)\<rparr>"
    unfolding adapter_manifest_json_def manifest_fields_eq
    by (cases m; cases "ao_manifest out") (auto simp: json_opt_def simp del: json_eq.simps(2) split: option.splits)
  finally show ?thesis .
qed

section \<open>A signed attestation\<close>

lemma attestation_signature_binds_witness:
  "verify_attestation demo_release_library isoformat (sign_attestation demo_release_library isoformat
     \<lparr>ap_evidence_id = ''bp'', ap_evidence_version = 1, ap_record_hash = hash_record JNull, ap_actor_id = ''a'',
      ap_statement = matches_source, ap_issued_at = demo_time, ap_note = None\<rparr> [1])"
proof -
  have "inj_on isoformat {t. clock_ok t}" by (auto intro!: inj_onI isoformat_inj simp: clock_ok_def offset_ok_def is_utc_def)
  from attestation_signature_binds [OF demo_signatures_ok this] show ?thesis by blast
qed

end
