(* ===== verification/Release_Records.thy ===== *)
theory Release_Records
  imports Evidence_Store Registry Attestations
begin

text \<open>
  src/ballotproof/releases.py: \<open>collect_release_records\<close>, which reads the tables of the registry and of the evidence store
  of an election. A JSON column holds the pydantic dump of its value: \<open>dt\<close> prints the times in it, \<open>fl\<close> is the text that
  \<open>json.dumps\<close> prints for a float field. The rows are read between two writes.
\<close>

section \<open>The documents of the JSON columns\<close>

definition value_json :: "finding_value \<Rightarrow> json" where
  "value_json v = (case v of FInt i \<Rightarrow> JInt i | FStr s \<Rightarrow> JStr s)"

definition extraction_status_text :: "extraction_status \<Rightarrow> string" where
  "extraction_status_text t = (case t of machine_extracted \<Rightarrow> ''machine_extracted'' | needs_review \<Rightarrow> ''needs_review''
     | human_reviewed \<Rightarrow> ''human_reviewed'' | rejected \<Rightarrow> ''rejected'')"

definition review_decision_text :: "review_decision \<Rightarrow> string" where
  "review_decision_text d = (case d of ACCEPT \<Rightarrow> ''accept'' | CORRECT \<Rightarrow> ''correct'' | REJECT \<Rightarrow> ''reject'')"

definition extracted_field_json :: "(string \<Rightarrow> string) \<Rightarrow> extracted_field \<Rightarrow> json" where
  "extracted_field_json fl f = JObj [(''field_name'', JStr (field_name f)), (''raw_value'', json_opt JStr (raw_value f)),
     (''normalized_value'', json_opt value_json (normalized_value f)), (''confidence'', JFloat (fl (confidence f))),
     (''page'', json_opt JInt (page f)), (''bbox'', json_opt (\<lambda>b. JArr (map (\<lambda>x. JFloat (fl x)) b)) (bbox f))]"

definition extraction_provenance_json :: "(datetime \<Rightarrow> string) \<Rightarrow> extraction_provenance \<Rightarrow> json" where
  "extraction_provenance_json dt p = JObj [(''engine'', JStr (engine p)), (''model_id'', JStr (model_id p)),
     (''model_version'', json_opt JStr (model_version p)), (''created_at'', JStr (dt (ep_created_at p))),
     (''config_hash'', json_opt JStr (extraction_provenance.config_hash p))]"

definition signed_attestation_fields :: "(datetime \<Rightarrow> string) \<Rightarrow> signed_attestation \<Rightarrow> (string \<times> json) list" where
  "signed_attestation_fields dt a = [(''payload'', attestation_json dt (sa_payload a)), (''algorithm'', JStr ''Ed25519''),
     (''public_key_b64'', JStr (sa_public_key_b64 a)), (''signature_b64'', JStr (sa_signature_b64 a))]"

definition extraction_fields :: "(datetime \<Rightarrow> string) \<Rightarrow> (string \<Rightarrow> string) \<Rightarrow> extraction_record \<Rightarrow> (string \<times> json) list" where
  "extraction_fields dt fl x =
     [(''evidence_id'', JStr (ex_evidence_id x)), (''evidence_version'', JInt (ex_evidence_version x)),
      (''record_hash'', JStr (ex_record_hash x)), (''status'', JStr (extraction_status_text (ex_status x))),
      (''provenance'', extraction_provenance_json dt (ex_provenance x)),
      (''fields'', JArr (map (extracted_field_json fl) (ex_fields x))),
      (''supersedes_extraction_id'', json_opt JStr (supersedes_extraction_id x)),
      (''extraction_id'', JStr (extraction_id x)), (''stored_at'', JStr (dt (ex_stored_at x)))]"

definition field_review_json :: "field_review \<Rightarrow> json" where
  "field_review_json r = JObj [(''field_name'', JStr (fr_field_name r)), (''decision'', JStr (review_decision_text (decision r))),
     (''corrected_value'', json_opt value_json (corrected_value r)), (''note'', json_opt JStr (fr_note r))]"

definition review_fields :: "(datetime \<Rightarrow> string) \<Rightarrow> extraction_review \<Rightarrow> (string \<times> json) list" where
  "review_fields dt v =
     [(''reviewer_id'', JStr (rv_reviewer_id v)), (''fields'', JArr (map field_review_json (rv_fields v))),
      (''review_id'', JStr (review_id v)), (''extraction_id'', JStr (rv_extraction_id v)),
      (''evidence_id'', JStr (rv_evidence_id v)), (''evidence_version'', JInt (rv_evidence_version v)),
      (''stored_at'', JStr (dt (rv_stored_at v)))]"

section \<open>Rows\<close>

text \<open>\<open>SELECT *\<close>: the columns of the tables, with the JSON column replaced by its document.\<close>

definition snapshot_row_fields :: "(datetime \<Rightarrow> string) \<Rightarrow> registry_snapshot \<Rightarrow> (string \<times> json) list" where
  "snapshot_row_fields dt s =
     [(''election_id'', JStr (sn_election_id s)), (''version'', JInt (sn_version s)), (''snapshot_id'', JStr (snapshot_id s)),
      (''stored_at'', JStr (isoformat (sn_stored_at s))),
      (''previous_snapshot_hash'', json_opt JStr (previous_snapshot_hash s)), (''snapshot_hash'', JStr (snapshot_hash s)),
      (''payload'', JObj (payload_fields dt (payload s)))]"

definition version_row_fields :: "evidence_version \<Rightarrow> (string \<times> json) list" where
  "version_row_fields r =
     [(''evidence_id'', JStr (evidence_id r)), (''version'', JInt (version r)), (''election_id'', JStr (election_id r)),
      (''polling_unit_code'', JStr (ev_polling_unit_code r)), (''document_type'', JStr (ev_document_type r)),
      (''artifact_sha256'', JStr (artifact_sha256 r)), (''artifact_size_bytes'', JInt (artifact_size_bytes r)),
      (''media_type'', json_opt JStr (evidence_version.media_type r)), (''filename'', json_opt JStr (filename r)),
      (''observed_at'', JStr (isoformat (observed_at r))), (''stored_at'', JStr (isoformat (stored_at r))),
      (''previous_record_hash'', json_opt JStr (previous_record_hash r)), (''record_hash'', JStr (record_hash r)),
      (''source'', source_json (ev_source r))]"

definition version_key :: "string \<Rightarrow> int \<Rightarrow> string" where
  "version_key eid v = eid @ '':'' @ int_str v"

definition snapshot_release_record :: "(datetime \<Rightarrow> string) \<Rightarrow> registry_snapshot \<Rightarrow> release_record" where
  "snapshot_release_record dt s = \<lparr>record_type = registry_snapshot_record, release_key = version_key (sn_election_id s) (sn_version s),
     release_payload = snapshot_row_fields dt s\<rparr>"

definition version_release_record :: "evidence_version \<Rightarrow> release_record" where
  "version_release_record r = \<lparr>record_type = evidence_version_record, release_key = version_key (evidence_id r) (version r),
     release_payload = version_row_fields r\<rparr>"

text \<open>The key of an attestation ends with the id of its row.\<close>

definition attestation_release_record :: "(datetime \<Rightarrow> string) \<Rightarrow> nat \<times> signed_attestation \<Rightarrow> release_record" where
  "attestation_release_record dt row = (case row of (n, a) \<Rightarrow>
     \<lparr>record_type = attestation_record,
      release_key = version_key (ap_evidence_id (sa_payload a)) (ap_evidence_version (sa_payload a)) @ '':'' @ nat_str n,
      release_payload = signed_attestation_fields dt a\<rparr>)"

definition extraction_release_record :: "(datetime \<Rightarrow> string) \<Rightarrow> (string \<Rightarrow> string) \<Rightarrow> extraction_record \<Rightarrow> release_record" where
  "extraction_release_record dt fl x = \<lparr>record_type = extraction_record_type, release_key = extraction_id x,
     release_payload = extraction_fields dt fl x\<rparr>"

definition review_release_record :: "(datetime \<Rightarrow> string) \<Rightarrow> extraction_review \<Rightarrow> release_record" where
  "review_release_record dt v = \<lparr>record_type = extraction_review_record, release_key = review_id v,
     release_payload = review_fields dt v\<rparr>"

section \<open>Collecting\<close>

definition attestation_entries :: "evidence_store \<Rightarrow> (nat \<times> signed_attestation) list" where
  "attestation_entries s = zip (attestation_ids s) (attestation_rows s)"

definition attestation_table :: "evidence_store \<Rightarrow> string \<Rightarrow> int \<Rightarrow> (nat \<times> signed_attestation) list" where
  "attestation_table s eid v = filter (\<lambda>(n, a). ap_evidence_id (sa_payload a) = eid \<and> ap_evidence_version (sa_payload a) = v)
     (attestation_entries s)"

definition version_rows_of :: "evidence_store \<Rightarrow> string \<Rightarrow> evidence_version list" where
  "version_rows_of s el = sort_key (\<lambda>r. (evidence_id r, version r)) (filter (\<lambda>r. election_id r = el) (version_rows s))"

definition dependent_records :: "(datetime \<Rightarrow> string) \<Rightarrow> (string \<Rightarrow> string) \<Rightarrow> evidence_store \<Rightarrow> evidence_version \<Rightarrow> release_record list" where
  "dependent_records dt fl s r =
     map (attestation_release_record dt) (attestation_table s (evidence_id r) (version r))
     @ concat (map (\<lambda>x. extraction_release_record dt fl x
         # map (review_release_record dt) (extraction_reviews s (extraction_id x))) (extractions s (evidence_id r) (version r)))"

text \<open>\<open>None\<close> is a database file that does not exist.\<close>

definition collect_release_records :: "(datetime \<Rightarrow> string) \<Rightarrow> (string \<Rightarrow> string) \<Rightarrow> registry_store option \<Rightarrow> evidence_store option
    \<Rightarrow> string \<Rightarrow> release_record list result" where
  "collect_release_records dt fl registry store el =
     (case registry of
        None \<Rightarrow> raise (KeyError ''Unknown election_id: '')
      | Some reg \<Rightarrow> if registry_history reg el = [] then raise (KeyError ''Unknown election_id: '')
          else (let snapshots = map (snapshot_release_record dt) (registry_history reg el) in
            case store of
              None \<Rightarrow> ordered_records snapshots
            | Some s \<Rightarrow> ordered_records (snapshots @ map version_release_record (version_rows_of s el)
                @ concat (map (dependent_records dt fl s) (version_rows_of s el)))))"

section \<open>Keys\<close>

lemma text_before_colon:
  assumes "x @ CHR '':'' # a = y @ CHR '':'' # b" "CHR '':'' \<notin> set a" "CHR '':'' \<notin> set b"
  shows "x = y \<and> a = b"
proof -
  have "takeWhile (\<lambda>c. c \<noteq> CHR '':'') (rev (x @ CHR '':'' # a)) = rev a"
    "takeWhile (\<lambda>c. c \<noteq> CHR '':'') (rev (y @ CHR '':'' # b)) = rev b"
    using assms(2,3) by (simp_all add: takeWhile_append)
  then have "a = b" using assms(1) by (metis rev_rev_ident)
  with assms(1) show ?thesis by simp
qed

lemma no_colon: "CHR '':'' \<notin> set (int_str i)" "CHR '':'' \<notin> set (nat_str n)"
proof -
  have "\<not> is_digit (CHR '':'')" by (simp add: is_digit_def)
  then show "CHR '':'' \<notin> set (int_str i)" "CHR '':'' \<notin> set (nat_str n)"
    using int_str_chars [of "CHR '':''" i] nat_str_digits [of "CHR '':''" n] by auto
qed

lemma version_key_inj: "version_key x a = version_key y b \<longleftrightarrow> x = y \<and> a = b"
  using text_before_colon [of x "int_str a" y "int_str b"] no_colon by (auto simp: version_key_def int_str_inj)

lemma distinct_by_type:
  assumes "\<And>t. distinct (map release_key (filter (\<lambda>r. record_type r = t) rs))"
  shows "distinct (map record_sort_key rs)"
  using assms
proof (induction rs)
  case (Cons r rs)
  have "distinct (map release_key (filter (\<lambda>q. record_type q = t) rs))" for t
    using Cons.prems [of t] by (simp split: if_splits)
  moreover have "record_sort_key q \<noteq> record_sort_key r" if "q \<in> set rs" for q
    using Cons.prems [of "record_type r"] that by (auto simp: record_sort_key_def record_type_text_inj image_iff)
  then have "record_sort_key r \<notin> record_sort_key ` set rs" by (auto dest: sym)
  moreover have "distinct (map record_sort_key rs)" using Cons.IH calculation by blast
  ultimately show ?case by simp
qed simp

lemma distinct_pairs:
  "(\<And>k. distinct (map g (filter (\<lambda>r. f r = k) rs))) \<Longrightarrow> distinct (map (\<lambda>r. (f r, g r)) rs)"
proof (induction rs)
  case (Cons r rs)
  have "distinct (map g (filter (\<lambda>q. f q = k) rs))" for k
    using Cons.prems [of k] by (simp split: if_splits)
  moreover have "(f q, g q) \<noteq> (f r, g r)" if "q \<in> set rs" for q
    using Cons.prems [of "f r"] that by (auto simp: image_iff)
  then have "(f r, g r) \<notin> (\<lambda>r. (f r, g r)) ` set rs" by (metis (no_types, lifting) imageE)
  moreover have "distinct (map (\<lambda>r. (f r, g r)) rs)" using Cons.IH calculation by blast
  ultimately show ?case by simp
qed simp

text \<open>Parts that belong to different rows have nothing in common.\<close>

lemma distinct_parts:
  assumes "distinct (map k rows)" "\<And>r. r \<in> set rows \<Longrightarrow> distinct (map f (part r))"
    "\<And>r x. r \<in> set rows \<Longrightarrow> x \<in> set (part r) \<Longrightarrow> x \<in> S \<and> p x = k r"
    "\<And>x y. x \<in> S \<Longrightarrow> y \<in> S \<Longrightarrow> f x = f y \<Longrightarrow> p x = p y"
  shows "distinct (map f (concat (map part rows)))"
  using assms(1-3)
proof (induction rows)
  case (Cons r rows)
  have "f x \<noteq> f y" if "x \<in> set (part r)" "q \<in> set rows" "y \<in> set (part q)" for x q y
  proof
    assume e: "f x = f y"
    have "x \<in> S \<and> p x = k r" using Cons.prems(3) [of r x] that by simp
    moreover have "y \<in> S \<and> p y = k q" using Cons.prems(3) [of q y] that by simp
    ultimately have "x \<in> S \<and> p x = k r" "y \<in> S \<and> p y = k q" .
    then have "k r = k q" using assms(4) e by metis
    with Cons.prems(1) that(2) show False by (auto simp: image_iff)
  qed
  moreover have "distinct (map f (concat (map part rows)))"
    by (rule Cons.IH) (use Cons.prems in \<open>auto\<close>)
  ultimately show ?case using Cons.prems(2) [of r] by (auto simp: image_iff)
qed simp

lemma distinct_map_sort: "distinct (map f (sort_key g xs)) \<longleftrightarrow> distinct (map f xs)"
  by (metis mset_eq_imp_distinct_iff mset_map mset_sort)

section \<open>What is collected\<close>

text \<open>The evidence version belongs to the election.\<close>

definition of_election :: "evidence_store \<Rightarrow> string \<Rightarrow> string \<Rightarrow> int \<Rightarrow> bool" where
  "of_election s el eid v \<longleftrightarrow> (\<exists>r \<in> set (version_rows s). evidence_id r = eid \<and> version r = v \<and> election_id r = el)"

lemma version_rows_distinct:
  assumes "evidence_reachable s"
  shows "distinct (map (\<lambda>r. (evidence_id r, version r)) (version_rows s))"
proof (rule distinct_pairs)
  fix k
  have "map version (history s k) = [1..int (length (history s k))]"
    using evidence_log.sound_history(3) reachable_ok [OF assms] by blast
  then have "distinct (map version (history s k))" by simp
  then show "distinct (map version (filter (\<lambda>r. evidence_id r = k) (version_rows s)))"
    by (simp add: history_def distinct_map_sort)
qed

lemma version_rows_of_distinct:
  "evidence_reachable s \<Longrightarrow> distinct (map (\<lambda>r. (evidence_id r, version r)) (version_rows_of s el))"
  using version_rows_distinct by (simp add: version_rows_of_def distinct_map_sort distinct_map_filter)

lemma extractions_distinct:
  assumes "evidence_reachable s"
  shows "distinct (map extraction_id (concat (map (\<lambda>r. extractions s (evidence_id r) (version r)) (version_rows_of s el))))"
proof (rule distinct_parts [where k = "\<lambda>r. (evidence_id r, version r)" and S = "set (extraction_rows s)"
      and p = "\<lambda>x. (ex_evidence_id x, ex_evidence_version x)"])
  have d: "distinct (map extraction_id (extraction_rows s))" using reachable_ok [OF assms] by (simp add: references_ok_def)
  show "distinct (map extraction_id (extractions s (evidence_id r) (version r)))" for r
    using d by (simp add: extractions_def distinct_map_sort distinct_map_filter)
  show "extraction_id x = extraction_id y \<Longrightarrow> (ex_evidence_id x, ex_evidence_version x) = (ex_evidence_id y, ex_evidence_version y)"
    if "x \<in> set (extraction_rows s)" "y \<in> set (extraction_rows s)" for x y
    using d that by (metis distinct_map inj_onD)
qed (use assms version_rows_of_distinct in \<open>auto simp: extractions_def\<close>)

lemma reviews_distinct:
  assumes "evidence_reachable s" "distinct (map extraction_id xs)"
  shows "distinct (map review_id (concat (map (\<lambda>x. extraction_reviews s (extraction_id x)) xs)))"
proof (rule distinct_parts [where k = extraction_id and S = "set (review_rows s)" and p = rv_extraction_id, OF assms(2)])
  have d: "distinct (map review_id (review_rows s))" using reachable_ok [OF assms(1)] by (simp add: references_ok_def)
  show "distinct (map review_id (extraction_reviews s (extraction_id x)))" for x
    using d by (simp add: extraction_reviews_def distinct_map_sort distinct_map_filter)
  show "review_id x = review_id y \<Longrightarrow> rv_extraction_id x = rv_extraction_id y"
    if "x \<in> set (review_rows s)" "y \<in> set (review_rows s)" for x y
    using d that by (metis distinct_map inj_onD)
qed (auto simp: extraction_reviews_def)

lemma attestation_entries_rows:
  assumes "evidence_reachable s"
  shows "map snd (attestation_entries s) = attestation_rows s" "distinct (map fst (attestation_entries s))"
  using reachable_attestation_ids [OF assms]
  by (simp_all add: attestation_entries_def attestation_ids_ok_def strict_sorted_iff)

lemma attestations_distinct:
  assumes "evidence_reachable s"
  shows "distinct (map release_key (concat (map (\<lambda>r. map (attestation_release_record dt)
    (attestation_table s (evidence_id r) (version r))) (version_rows_of s el))))"
proof -
  let ?rows = "concat (map (\<lambda>r. attestation_table s (evidence_id r) (version r)) (version_rows_of s el))"
  have rows: "distinct (map fst ?rows)"
  proof (rule distinct_parts [where k = "\<lambda>r. (evidence_id r, version r)" and S = "set (attestation_entries s)"
        and p = "\<lambda>x. (ap_evidence_id (sa_payload (snd x)), ap_evidence_version (sa_payload (snd x)))"])
    have d: "distinct (map fst (attestation_entries s))" by (rule attestation_entries_rows(2) [OF assms])
    show "distinct (map fst (attestation_table s (evidence_id r) (version r)))" for r
      using d by (simp only: attestation_table_def distinct_map_filter)
    have inj: "inj_on fst (set (attestation_entries s))" using d by (simp only: distinct_map)
    show "(ap_evidence_id (sa_payload (snd x)), ap_evidence_version (sa_payload (snd x)))
        = (ap_evidence_id (sa_payload (snd y)), ap_evidence_version (sa_payload (snd y)))"
      if "x \<in> set (attestation_entries s)" "y \<in> set (attestation_entries s)" "fst x = fst y" for x y
      using inj_onD [OF inj that(3,1,2)] by simp
  qed (use assms version_rows_of_distinct in \<open>auto simp: attestation_table_def\<close>)
  have key: "fst p = fst q"
    if "release_key (attestation_release_record dt p) = release_key (attestation_release_record dt q)" for p q
  proof -
    obtain x y where "release_key (attestation_release_record dt p) = x @ CHR '':'' # nat_str (fst p)"
      "release_key (attestation_release_record dt q) = y @ CHR '':'' # nat_str (fst q)"
      by (cases p, cases q) (simp add: attestation_release_record_def)
    then have "x @ CHR '':'' # nat_str (fst p) = y @ CHR '':'' # nat_str (fst q)" using that by simp
    from text_before_colon [OF this no_colon(2) no_colon(2)] have "nat_str (fst p) = nat_str (fst q)" ..
    then show ?thesis by (rule iffD1 [OF nat_str_inj])
  qed
  have inj: "inj_on fst (set ?rows)" and d: "distinct ?rows" using rows by (simp_all only: distinct_map)
  have "inj_on (release_key \<circ> attestation_release_record dt) (set ?rows)"
  proof (rule inj_onI)
    fix p q assume p: "p \<in> set ?rows" and q: "q \<in> set ?rows"
      and e: "(release_key \<circ> attestation_release_record dt) p = (release_key \<circ> attestation_release_record dt) q"
    show "p = q" by (rule inj_onD [OF inj key p q]) (use e in simp)
  qed
  with d have "distinct (map (release_key \<circ> attestation_release_record dt) ?rows)" by (simp only: distinct_map)
  then show ?thesis by (simp add: map_concat comp_def)
qed

lemma record_types [simp]:
  "record_type (snapshot_release_record dt x) = registry_snapshot_record"
  "record_type (version_release_record r) = evidence_version_record"
  "record_type (attestation_release_record dt p) = attestation_record"
  "record_type (extraction_release_record dt fl e) = extraction_record_type"
  "record_type (review_release_record dt v) = extraction_review_record"
  by (simp_all add: snapshot_release_record_def version_release_record_def attestation_release_record_def
      extraction_release_record_def review_release_record_def split: prod.split)

definition all_records :: "(datetime \<Rightarrow> string) \<Rightarrow> (string \<Rightarrow> string) \<Rightarrow> registry_store \<Rightarrow> evidence_store \<Rightarrow> string \<Rightarrow> release_record list" where
  "all_records dt fl reg s el = map (snapshot_release_record dt) (registry_history reg el)
     @ map version_release_record (version_rows_of s el) @ concat (map (dependent_records dt fl s) (version_rows_of s el))"

lemma filter_dependents:
  "filter (\<lambda>q. record_type q = registry_snapshot_record) (dependent_records dt fl s r) = []"
  "filter (\<lambda>q. record_type q = evidence_version_record) (dependent_records dt fl s r) = []"
  "filter (\<lambda>q. record_type q = attestation_record) (dependent_records dt fl s r) =
     map (attestation_release_record dt) (attestation_table s (evidence_id r) (version r))"
  "filter (\<lambda>q. record_type q = extraction_record_type) (dependent_records dt fl s r) =
     map (extraction_release_record dt fl) (extractions s (evidence_id r) (version r))"
  "filter (\<lambda>q. record_type q = extraction_review_record) (dependent_records dt fl s r) =
     concat (map (\<lambda>x. map (review_release_record dt) (extraction_reviews s (extraction_id x))) (extractions s (evidence_id r) (version r)))"
proof -
  have one: "concat (map (\<lambda>x. [f x]) xs) = map f xs" for f :: "extraction_record \<Rightarrow> release_record" and xs by (induction xs) simp_all
  show "filter (\<lambda>q. record_type q = registry_snapshot_record) (dependent_records dt fl s r) = []"
    "filter (\<lambda>q. record_type q = evidence_version_record) (dependent_records dt fl s r) = []"
    "filter (\<lambda>q. record_type q = attestation_record) (dependent_records dt fl s r) =
       map (attestation_release_record dt) (attestation_table s (evidence_id r) (version r))"
    "filter (\<lambda>q. record_type q = extraction_record_type) (dependent_records dt fl s r) =
       map (extraction_release_record dt fl) (extractions s (evidence_id r) (version r))"
    "filter (\<lambda>q. record_type q = extraction_review_record) (dependent_records dt fl s r) =
       concat (map (\<lambda>x. map (review_release_record dt) (extraction_reviews s (extraction_id x))) (extractions s (evidence_id r) (version r)))"
    by (simp_all add: dependent_records_def filter_concat filter_map comp_def one)
qed

lemma concat_Nils: "concat (map (\<lambda>x. []) xs) = []"
  by (induction xs) simp_all

lemma concat_twice: "concat (concat xss) = concat (map concat xss)"
  by (induction xss) simp_all

lemma all_records_distinct:
  assumes "time_dump_ok dt" "registry_reachable dt reg" "evidence_reachable s"
  shows "distinct (map record_sort_key (all_records dt fl reg s el))"
proof (rule distinct_by_type)
  fix t
  have h: "map sn_version (registry_history reg el) = [1..int (length (registry_history reg el))]"
    using registry_log.sound_history(3) [OF registry_reachable_sound [OF assms(1,2)]] .
  have keys: "map release_key (map (snapshot_release_record dt) (registry_history reg el)) =
      map (version_key el) (map sn_version (registry_history reg el))"
    by (simp add: snapshot_release_record_def registry_history_def)
  show "distinct (map release_key (filter (\<lambda>r. record_type r = t) (all_records dt fl reg s el)))"
  proof (cases t)
    case registry_snapshot_record
    have "distinct (map (version_key el) (map sn_version (registry_history reg el)))"
      unfolding h by (simp add: distinct_map inj_on_def version_key_inj)
    then have "distinct (map release_key (map (snapshot_release_record dt) (registry_history reg el)))" by (simp only: keys)
    then show ?thesis
      by (simp add: registry_snapshot_record all_records_def filter_concat filter_map comp_def filter_dependents concat_Nils)
  next
    case evidence_version_record
    have "distinct (map release_key (map version_release_record (version_rows_of s el)))"
      using version_rows_of_distinct [OF assms(3), of el]
      by (simp add: distinct_map inj_on_def version_release_record_def version_key_inj)
    then show ?thesis
      by (simp add: evidence_version_record all_records_def filter_concat filter_map comp_def filter_dependents concat_Nils)
  next
    case attestation_record
    show ?thesis using attestations_distinct [OF assms(3), of dt el]
      by (simp add: attestation_record all_records_def filter_concat filter_map comp_def filter_dependents concat_Nils)
  next
    case extraction_record_type
    show ?thesis using extractions_distinct [OF assms(3), of el]
      by (simp add: extraction_record_type all_records_def filter_concat filter_map comp_def filter_dependents map_concat
          extraction_release_record_def)
  next
    case extraction_review_record
    let ?xs = "concat (map (\<lambda>r. extractions s (evidence_id r) (version r)) (version_rows_of s el))"
    have "distinct (map review_id (concat (map (\<lambda>x. extraction_reviews s (extraction_id x)) ?xs)))"
      by (rule reviews_distinct [OF assms(3) extractions_distinct [OF assms(3)]])
    then show ?thesis
      by (simp add: extraction_review_record all_records_def filter_concat filter_map comp_def filter_dependents map_concat
          review_release_record_def concat_twice)
  qed
qed

lemma dependents_of_election:
  assumes "evidence_reachable s"
  shows "(\<Union>r \<in> set (version_rows_of s el). set (dependent_records dt fl s r)) =
      attestation_release_record dt ` {(n, a) \<in> set (attestation_entries s).
         of_election s el (ap_evidence_id (sa_payload a)) (ap_evidence_version (sa_payload a))}
    \<union> extraction_release_record dt fl ` {x \<in> set (extraction_rows s). of_election s el (ex_evidence_id x) (ex_evidence_version x)}
    \<union> review_release_record dt ` {v \<in> set (review_rows s). of_election s el (rv_evidence_id v) (rv_evidence_version v)}"
proof -
  have refs: "list_all (review_ok s) (review_rows s)" "inj_on extraction_id (set (extraction_rows s))"
    using reachable_ok [OF assms] by (simp_all add: references_ok_def distinct_map)
  let ?vs = "set (version_rows_of s el)"
  have deps: "set (dependent_records dt fl s r) = attestation_release_record dt ` set (attestation_table s (evidence_id r) (version r))
      \<union> extraction_release_record dt fl ` set (extractions s (evidence_id r) (version r))
      \<union> review_release_record dt ` (\<Union>x \<in> set (extractions s (evidence_id r) (version r)). set (extraction_reviews s (extraction_id x)))" for r
    by (auto simp: dependent_records_def)
  have a: "(\<Union>r \<in> ?vs. set (attestation_table s (evidence_id r) (version r))) = {(n, a) \<in> set (attestation_entries s).
         of_election s el (ap_evidence_id (sa_payload a)) (ap_evidence_version (sa_payload a))}"
    by (auto simp: attestation_table_def of_election_def version_rows_of_def)
  have x: "(\<Union>r \<in> ?vs. set (extractions s (evidence_id r) (version r))) =
      {x \<in> set (extraction_rows s). of_election s el (ex_evidence_id x) (ex_evidence_version x)}"
    by (auto simp: extractions_def of_election_def version_rows_of_def)
  have "(\<Union>x \<in> {x \<in> set (extraction_rows s). of_election s el (ex_evidence_id x) (ex_evidence_version x)}.
      set (extraction_reviews s (extraction_id x)))
    = {v \<in> set (review_rows s). of_election s el (rv_evidence_id v) (rv_evidence_version v)}"
  proof (intro equalityI subsetI)
    fix v assume "v \<in> (\<Union>x \<in> {x \<in> set (extraction_rows s). of_election s el (ex_evidence_id x) (ex_evidence_version x)}.
      set (extraction_reviews s (extraction_id x)))"
    then obtain x where x: "x \<in> set (extraction_rows s)" "of_election s el (ex_evidence_id x) (ex_evidence_version x)"
      "v \<in> set (review_rows s)" "rv_extraction_id v = extraction_id x" by (auto simp: extraction_reviews_def)
    moreover obtain y where y: "y \<in> set (extraction_rows s)" "extraction_id y = rv_extraction_id v"
      "ex_evidence_id y = rv_evidence_id v" "ex_evidence_version y = rv_evidence_version v"
      using refs(1) x(3) by (auto simp: list_all_iff review_ok_def)
    moreover have "y = x" using inj_onD [OF refs(2) _ y(1) x(1)] x(4) y(2) by simp
    ultimately show "v \<in> {v \<in> set (review_rows s). of_election s el (rv_evidence_id v) (rv_evidence_version v)}" by simp
  next
    fix v assume "v \<in> {v \<in> set (review_rows s). of_election s el (rv_evidence_id v) (rv_evidence_version v)}"
    moreover from this obtain y where "y \<in> set (extraction_rows s)" "extraction_id y = rv_extraction_id v"
      "ex_evidence_id y = rv_evidence_id v" "ex_evidence_version y = rv_evidence_version v"
      using refs(1) by (auto simp: list_all_iff review_ok_def)
    ultimately show "v \<in> (\<Union>x \<in> {x \<in> set (extraction_rows s). of_election s el (ex_evidence_id x) (ex_evidence_version x)}.
      set (extraction_reviews s (extraction_id x)))"
      by (intro UN_I [of y]) (simp_all add: extraction_reviews_def)
  qed
  then have r: "(\<Union>r \<in> ?vs. \<Union>x \<in> set (extractions s (evidence_id r) (version r)). set (extraction_reviews s (extraction_id x)))
    = {v \<in> set (review_rows s). of_election s el (rv_evidence_id v) (rv_evidence_version v)}"
    by (simp flip: x)
  show ?thesis unfolding deps UN_Un_distrib image_UN [symmetric] a x r by (rule refl)
qed

lemma all_records_set:
  assumes "evidence_reachable s"
  shows "set (all_records dt fl reg s el) = snapshot_release_record dt ` {x \<in> set (snapshot_rows reg). sn_election_id x = el}
      \<union> version_release_record ` {r \<in> set (version_rows s). election_id r = el}
      \<union> attestation_release_record dt ` {(n, a) \<in> set (attestation_entries s).
           of_election s el (ap_evidence_id (sa_payload a)) (ap_evidence_version (sa_payload a))}
      \<union> extraction_release_record dt fl ` {x \<in> set (extraction_rows s). of_election s el (ex_evidence_id x) (ex_evidence_version x)}
      \<union> review_release_record dt ` {v \<in> set (review_rows s). of_election s el (rv_evidence_id v) (rv_evidence_version v)}"
    (is "_ = ?s \<union> ?e \<union> ?a \<union> ?x \<union> ?r")
proof -
  have set: "set (all_records dt fl reg s el) = ?s \<union> ?e \<union> (\<Union>r \<in> set (version_rows_of s el). set (dependent_records dt fl s r))"
    by (simp add: all_records_def registry_history_def version_rows_of_def Un_assoc)
  show ?thesis unfolding set dependents_of_election [OF assms] by (simp only: Un_assoc)
qed

lemma collected_records_sorted:
  assumes "collect_release_records dt fl (Some reg) (Some s) el = Inr records"
  shows "registry_history reg el \<noteq> []" "set records = set (all_records dt fl reg s el)"
  using assms by (auto simp: collect_release_records_def all_records_def ordered_records_Inr split: if_splits)

text \<open>An ignored duplicate uses up an id, so ids are not positions.\<close>

lemma duplicate_uses_an_id:
  "a \<noteq> b \<Longrightarrow> attestation_entries (insert_attestation b (insert_attestation a (insert_attestation a empty_store))) = [(1, a), (3, b)]"
  by (simp add: attestation_entries_def insert_attestation_def empty_store_def)

text \<open>C12. For every state that the registry and the evidence store can reach the records of an election with a snapshot are
  collected without an error: exactly one record for each of its snapshots, each evidence version filed under it, and
  each attestation, extraction and review of such a version, in the order of their keys, and nothing of any other
  election. The key of an attestation ends with the id of its row, which need not be its position: an ignored duplicate
  uses up an id.\<close>

theorem collected_records_complete:
  assumes "time_dump_ok dt" "registry_reachable dt reg" "evidence_reachable s" "registry_history reg el \<noteq> []"
  shows "map snd (attestation_entries s) = attestation_rows s
    \<and> (\<exists>records. collect_release_records dt fl (Some reg) (Some s) el = Inr records
    \<and> sorted (map record_sort_key records) \<and> distinct (map record_sort_key records)
    \<and> set records = snapshot_release_record dt ` {x \<in> set (snapshot_rows reg). sn_election_id x = el}
      \<union> version_release_record ` {r \<in> set (version_rows s). election_id r = el}
      \<union> attestation_release_record dt ` {(n, a) \<in> set (attestation_entries s).
           of_election s el (ap_evidence_id (sa_payload a)) (ap_evidence_version (sa_payload a))}
      \<union> extraction_release_record dt fl ` {x \<in> set (extraction_rows s). of_election s el (ex_evidence_id x) (ex_evidence_version x)}
      \<union> review_release_record dt ` {v \<in> set (review_rows s). of_election s el (rv_evidence_id v) (rv_evidence_version v)})"
proof -
  have "collect_release_records dt fl (Some reg) (Some s) el = Inr (sort_key record_sort_key (all_records dt fl reg s el))"
    using all_records_distinct [OF assms(1-3)] assms(4)
    by (simp add: collect_release_records_def all_records_def ordered_records_Inr)
  then show ?thesis using all_records_set [OF assms(3), of dt fl reg el] all_records_distinct [OF assms(1-3)]
    by (intro conjI attestation_entries_rows(1) [OF assms(3)] exI [of _ "sort_key record_sort_key (all_records dt fl reg s el)"]) simp_all
qed

lemma collected_records_complete_witness:
  "\<exists>records. collect_release_records isoformat (\<lambda>t. t) (Some demo_registry) (Some demo_store) ''E'' = Inr records
    \<and> version_release_record demo_version \<in> set records"
proof -
  have h: "registry_history demo_registry ''E'' \<noteq> []"
    by (simp add: registry_history_def demo_registry_def demo_snapshot_def demo_payload_def)
  show ?thesis
    using collected_records_complete [OF isoformat_dump_ok demo_registry_reachable demo_reachable h, of "\<lambda>t. t"]
    by (auto simp: demo_store_def demo_version_def version_record_def Let_def demo_args_def)
qed

end
