(* ===== verification/Semantics.thy ===== *)
theory Semantics
  imports Release_Files
begin

text \<open>
  src/ballotproof/release_semantics.py: release records are reduced to content-derived records, without local
  identifiers, times of storage and chain hashes, and hashed into a Merkle root. \<open>py_str\<close> is Python's
  \<open>str\<close> of a JSON value, where the text of floats and containers is the parameter \<open>rp\<close>.
\<close>

section \<open>Models\<close>

record semantic_record =
  sr_type :: release_record_type
  semantic_key_of :: string
  sr_payload :: "json dict"

record semantic_summary =
  ss_release_id :: string
  ss_election_id :: string
  ledger_merkle_root :: string
  semantic_record_count :: int
  semantic_root :: string
  normalization_sha256 :: string

record semantic_signature =
  semantic_summary_sha256 :: string
  ssg_public_key_b64 :: string
  ssg_signer_key_sha256 :: string
  ssg_signature_b64 :: string

record semantic_verification =
  sv_release_id :: "string option"
  sv_valid :: bool
  sv_signature_valid :: bool
  signer_matches_release :: bool
  semantic_root_valid :: bool
  sv_semantic_root :: "string option"
  sv_semantic_record_count :: "int option"
  sv_error :: "py_error option"

definition normalization_rules :: json where
  "normalization_rules = JObj
     [(''registry_snapshot'', JObj
        [(''exclude'', JArr (map JStr [''snapshot_id'', ''stored_at'', ''previous_snapshot_hash'', ''snapshot_hash'',
           ''payload.source.retrieved_at'']))]),
      (''evidence_version'', JObj
        [(''exclude'', JArr (map JStr [''evidence_id'', ''version'', ''filename'', ''stored_at'', ''previous_record_hash'',
           ''record_hash''])),
         (''reference'', JStr ''content-derived evidence_ref'')]),
      (''attestation'', JObj
        [(''exclude'', JArr (map JStr [''payload.evidence_id'', ''payload.evidence_version'', ''payload.record_hash'',
           ''signature_b64''])),
         (''reference'', JStr ''content-derived evidence_ref'')]),
      (''extraction'', JObj
        [(''exclude'', JArr (map JStr [''extraction_id'', ''evidence_id'', ''evidence_version'', ''record_hash'', ''stored_at'',
           ''supersedes_extraction_id'', ''provenance.created_at''])),
         (''reference'', JStr ''content-derived evidence_ref and supersedes_semantic_ref'')]),
      (''extraction_review'', JObj
        [(''exclude'', JArr (map JStr [''review_id'', ''extraction_id'', ''evidence_id'', ''evidence_version'', ''stored_at''])),
         (''reference'', JStr ''content-derived extraction_ref'')]),
      (''duplicates'', JStr ''identical normalized records collapse to one semantic record'')]"

definition semantic_normalization_sha256 :: string where
  "semantic_normalization_sha256 = sha256_bytes (canonical_json_bytes normalization_rules)"

section \<open>Values\<close>

definition py_str :: "(json \<Rightarrow> string) \<Rightarrow> json \<Rightarrow> string" where
  "py_str rp v = (case v of
       JStr s \<Rightarrow> s
     | JInt i \<Rightarrow> int_str i
     | JBool b \<Rightarrow> (if b then ''True'' else ''False'')
     | JNull \<Rightarrow> ''None''
     | _ \<Rightarrow> rp v)"

text \<open>\<open>canonical_json_bytes\<close>, which cannot encode a lone surrogate.\<close>

definition encode_document :: "json \<Rightarrow> byte list result" where
  "encode_document v = (if json_strings_ok v then return (canonical_json_bytes v)
     else raise (ValueError ''UnicodeEncodeError''))"

definition require_dict :: "json option \<Rightarrow> json dict result" where
  "require_dict v = (case v of Some (JObj kvs) \<Rightarrow> return kvs | _ \<Rightarrow> raise (ValueError '' must be an object''))"

text \<open>\<open>payload[key]\<close>, \<open>payload.get(key)\<close> as a document, and \<open>pop(key, None)\<close>.\<close>

definition item :: "json dict \<Rightarrow> string \<Rightarrow> json result" where
  "item kvs k = (case dict_get kvs k of None \<Rightarrow> raise (KeyError k) | Some v \<Rightarrow> return v)"

definition item_or_null :: "json dict \<Rightarrow> string \<Rightarrow> json" where
  "item_or_null kvs k = dict_default JNull kvs k"

definition dict_pop :: "string \<Rightarrow> 'v dict \<Rightarrow> 'v dict" where
  "dict_pop k kvs = filter (\<lambda>(k', _). k' \<noteq> k) kvs"

definition sorted_objects :: "json \<Rightarrow> json list result" where
  "sorted_objects v = (case v of
       JArr vs \<Rightarrow> if list_all json_strings_ok vs then return (sort_key canonical_json_text vs)
         else raise (ValueError ''UnicodeEncodeError'')
     | _ \<Rightarrow> raise (ValueError '' must be an array''))"

definition semantic_key :: "release_record_type \<Rightarrow> json dict \<Rightarrow> string result" where
  "semantic_key ty payload = bind_result (encode_document
     (JObj [(''record_type'', JStr (record_type_text ty)), (''payload'', JObj payload)])) (\<lambda>bs. return (sha256_bytes bs))"

section \<open>Normal forms\<close>

text \<open>A list under the key is replaced by its sorted form.\<close>

definition sort_field :: "string \<Rightarrow> json dict \<Rightarrow> json dict result" where
  "sort_field k payload = (case dict_get payload k of
       Some (JArr vs) \<Rightarrow> bind_result (sorted_objects (JArr vs)) (\<lambda>ws. return (dict_set k (JArr ws) payload))
     | _ \<Rightarrow> return payload)"

definition drop_retrieved_at :: "json dict \<Rightarrow> json dict result" where
  "drop_retrieved_at payload =
     (if item_or_null payload ''source'' = JNull then return payload
      else bind_result (require_dict (dict_get payload ''source'')) (\<lambda>src.
        return (dict_set ''source'' (JObj (dict_pop ''retrieved_at'' src)) payload)))"

definition registry_payload_of :: "json dict \<Rightarrow> json dict result" where
  "registry_payload_of kvs =
     bind_result (require_dict (dict_get kvs ''payload'')) (\<lambda>payload.
     bind_result (drop_retrieved_at payload) (\<lambda>payload.
     bind_result (sort_field ''offices'' payload) (sort_field ''units'')))"

definition evidence_payload_of :: "json dict \<Rightarrow> json dict result" where
  "evidence_payload_of kvs =
     bind_result (item kvs ''election_id'') (\<lambda>election.
     bind_result (item kvs ''polling_unit_code'') (\<lambda>unit_code.
     bind_result (item kvs ''document_type'') (\<lambda>document.
     bind_result (item kvs ''source'') (\<lambda>src.
     bind_result (item kvs ''artifact_sha256'') (\<lambda>sha.
     bind_result (item kvs ''artifact_size_bytes'') (\<lambda>size.
     bind_result (item kvs ''observed_at'') (\<lambda>observed.
       return [(''election_id'', election), (''polling_unit_code'', unit_code), (''document_type'', document),
         (''source'', src), (''artifact_sha256'', sha), (''artifact_size_bytes'', size),
         (''media_type'', item_or_null kvs ''media_type''), (''observed_at'', observed)])))))))"

text \<open>\<open>f"{payload['a']}:{payload['b']}"\<close>, and the evidence it refers to.\<close>

definition local_reference :: "(json \<Rightarrow> string) \<Rightarrow> json dict \<Rightarrow> string \<Rightarrow> string \<Rightarrow> string result" where
  "local_reference rp kvs a b = bind_result (item kvs a) (\<lambda>x. bind_result (item kvs b) (\<lambda>y.
     return (py_str rp x @ '':'' @ py_str rp y)))"

definition evidence_reference :: "(json \<Rightarrow> string) \<Rightarrow> string dict \<Rightarrow> json dict \<Rightarrow> string result" where
  "evidence_reference rp refs kvs =
     bind_result (local_reference rp kvs ''evidence_id'' ''evidence_version'') (\<lambda>k.
       case dict_get refs k of None \<Rightarrow> raise (ValueError ''semantic evidence reference is missing: '') | Some r \<Rightarrow> return r)"

type_synonym normal_record = "release_record_type \<times> json dict"

text \<open>The first loop: references by record key and by local reference, extractions by key, normal records.\<close>

fun collect_sources :: "(json \<Rightarrow> string) \<Rightarrow> release_record list \<Rightarrow> string dict \<Rightarrow> json dict dict \<Rightarrow> normal_record list
    \<Rightarrow> (string dict \<times> json dict dict \<times> normal_record list) result" where
  "collect_sources rp [] refs extractions normalized = return (refs, extractions, normalized)"
| "collect_sources rp (r # rs) refs extractions normalized = (case record_type r of
       registry_snapshot_record \<Rightarrow> bind_result (registry_payload_of (release_payload r)) (\<lambda>payload.
         collect_sources rp rs refs extractions (normalized @ [(registry_snapshot_record, payload)]))
     | evidence_version_record \<Rightarrow>
         bind_result (evidence_payload_of (release_payload r)) (\<lambda>payload.
         bind_result (semantic_key evidence_version_record payload) (\<lambda>key.
         bind_result (local_reference rp (release_payload r) ''evidence_id'' ''version'') (\<lambda>k.
           collect_sources rp rs (dict_set k key (dict_set (release_key r) key refs)) extractions
             (normalized @ [(evidence_version_record, payload)]))))
     | extraction_record_type \<Rightarrow>
         collect_sources rp rs refs (dict_set (release_key r) (release_payload r) extractions) normalized
     | _ \<Rightarrow> collect_sources rp rs refs extractions normalized)"

definition extraction_payload_of :: "(json \<Rightarrow> string) \<Rightarrow> string dict \<Rightarrow> json dict \<Rightarrow> json dict result" where
  "extraction_payload_of rp refs kvs =
     bind_result (evidence_reference rp refs kvs) (\<lambda>evidence_ref.
     bind_result (item kvs ''provenance'') (\<lambda>prov.
     bind_result (require_dict (Some prov)) (\<lambda>provenance.
     bind_result (item kvs ''status'') (\<lambda>status.
     bind_result (item kvs ''fields'') (\<lambda>fs.
     bind_result (sorted_objects fs) (\<lambda>fields.
       return [(''evidence_ref'', JStr evidence_ref), (''status'', status),
         (''provenance'', JObj (dict_pop ''created_at'' provenance)), (''fields'', JArr fields)]))))))"

type_synonym extraction_cache = "(string \<times> json dict) dict"

text \<open>The supersession chain is followed with a stack of the extractions on the way; the cache keeps results.\<close>

function normalize_extraction :: "(json \<Rightarrow> string) \<Rightarrow> string dict \<Rightarrow> json dict dict \<Rightarrow> string list \<Rightarrow> extraction_cache
    \<Rightarrow> string \<Rightarrow> (extraction_cache \<times> string \<times> json dict) result" where
  "normalize_extraction rp refs extractions stack cache i = (case dict_get cache i of
       Some r \<Rightarrow> return (cache, r)
     | None \<Rightarrow>
         if i \<in> set stack then raise (ValueError ''semantic extraction supersession graph contains a cycle'')
         else (case dict_get extractions i of
             None \<Rightarrow> raise (ValueError ''semantic extraction reference is missing: '')
           | Some kvs \<Rightarrow>
               bind_result (extraction_payload_of rp refs kvs) (\<lambda>payload.
               bind_result
                 (if item_or_null kvs ''supersedes_extraction_id'' = JNull then return (cache, payload)
                  else bind_result (normalize_extraction rp refs extractions (i # stack) cache
                      (py_str rp (item_or_null kvs ''supersedes_extraction_id''))) (\<lambda>(cache', key, _).
                    return (cache', payload @ [(''supersedes_semantic_ref'', JStr key)]))) (\<lambda>(cache', payload').
               bind_result (semantic_key extraction_record_type payload') (\<lambda>key.
                 return (dict_set i (key, payload') cache', key, payload'))))))"
  by pat_completeness auto
termination
proof (relation "measure (\<lambda>(rp, refs, extractions, stack, cache, i). card (dict_keys extractions - set stack))")
  fix rp :: "json \<Rightarrow> string" and refs :: "string dict" and extractions :: "json dict dict" and stack cache i kvs
  assume "i \<notin> set stack" "dict_get extractions i = Some kvs"
  then have "dict_keys extractions - set (i # stack) \<subset> dict_keys extractions - set stack"
    by (auto dest: dict_get_Some_key)
  then have "card (dict_keys extractions - set (i # stack)) < card (dict_keys extractions - set stack)"
    by (rule psubset_card_mono [rotated]) simp
  then show "((rp, refs, extractions, i # stack, cache, py_str rp (item_or_null kvs ''supersedes_extraction_id'')),
      rp, refs, extractions, stack, cache, i)
    \<in> measure (\<lambda>(rp, refs, extractions, stack, cache, i). card (dict_keys extractions - set stack))" by simp
qed simp

declare normalize_extraction.simps [simp del]

fun normalize_all :: "(json \<Rightarrow> string) \<Rightarrow> string dict \<Rightarrow> json dict dict \<Rightarrow> string list \<Rightarrow> extraction_cache
    \<Rightarrow> normal_record list \<Rightarrow> (extraction_cache \<times> normal_record list) result" where
  "normalize_all rp refs extractions [] cache normalized = return (cache, normalized)"
| "normalize_all rp refs extractions (i # ids) cache normalized =
     bind_result (normalize_extraction rp refs extractions [] cache i) (\<lambda>(cache', _, payload).
       normalize_all rp refs extractions ids cache' (normalized @ [(extraction_record_type, payload)]))"

definition attestation_payload_of :: "(json \<Rightarrow> string) \<Rightarrow> string dict \<Rightarrow> json dict \<Rightarrow> json dict result" where
  "attestation_payload_of rp refs doc =
     bind_result (item doc ''payload'') (\<lambda>p.
     bind_result (require_dict (Some p)) (\<lambda>payload.
     bind_result (evidence_reference rp refs payload) (\<lambda>evidence_ref.
     bind_result (item payload ''actor_id'') (\<lambda>actor.
     bind_result (item payload ''statement'') (\<lambda>statement.
     bind_result (item payload ''issued_at'') (\<lambda>issued.
     bind_result (item doc ''algorithm'') (\<lambda>algorithm.
     bind_result (item doc ''public_key_b64'') (\<lambda>key.
       return [(''evidence_ref'', JStr evidence_ref), (''actor_id'', actor), (''statement'', statement),
         (''issued_at'', issued), (''note'', item_or_null payload ''note''), (''algorithm'', algorithm),
         (''public_key_b64'', key)]))))))))"

text \<open>The last loop: attestations and reviews.\<close>

fun collect_statements :: "(json \<Rightarrow> string) \<Rightarrow> string dict \<Rightarrow> json dict dict \<Rightarrow> release_record list \<Rightarrow> extraction_cache
    \<Rightarrow> normal_record list \<Rightarrow> normal_record list result" where
  "collect_statements rp refs extractions [] cache normalized = return normalized"
| "collect_statements rp refs extractions (r # rs) cache normalized = (case record_type r of
       attestation_record \<Rightarrow> bind_result (attestation_payload_of rp refs (release_payload r)) (\<lambda>payload.
         collect_statements rp refs extractions rs cache (normalized @ [(attestation_record, payload)]))
     | extraction_review_record \<Rightarrow>
         bind_result (item (release_payload r) ''extraction_id'') (\<lambda>i.
         bind_result (normalize_extraction rp refs extractions [] cache (py_str rp i)) (\<lambda>(cache', key, _).
         bind_result (item (release_payload r) ''reviewer_id'') (\<lambda>reviewer.
         bind_result (item (release_payload r) ''fields'') (\<lambda>fs.
         bind_result (sorted_objects fs) (\<lambda>fields.
           collect_statements rp refs extractions rs cache' (normalized @ [(extraction_review_record,
             [(''extraction_ref'', JStr key), (''reviewer_id'', reviewer), (''fields'', JArr fields)])]))))))
     | _ \<Rightarrow> collect_statements rp refs extractions rs cache normalized)"

text \<open>Normal records by type and key; two records with one key must be equal.\<close>

fun unique_records :: "release_library \<Rightarrow> normal_record list \<Rightarrow> semantic_record list \<Rightarrow> semantic_record list result" where
  "unique_records lib [] unique = return unique"
| "unique_records lib ((ty, payload) # rest) unique =
     bind_result (semantic_key ty payload) (\<lambda>key.
       case find (\<lambda>s. sr_type s = ty \<and> semantic_key_of s = key) unique of
         Some s \<Rightarrow>
           if \<not> py_eq lib (JObj (sr_payload s)) (JObj payload)
           then raise (ValueError ''semantic SHA-256 collision detected'')
           else unique_records lib rest (map (\<lambda>s. if sr_type s = ty \<and> semantic_key_of s = key
             then \<lparr>sr_type = ty, semantic_key_of = key, sr_payload = payload\<rparr> else s) unique)
       | None \<Rightarrow> unique_records lib rest (unique @ [\<lparr>sr_type = ty, semantic_key_of = key, sr_payload = payload\<rparr>]))"

definition normal_records :: "(json \<Rightarrow> string) \<Rightarrow> release_record list \<Rightarrow> normal_record list result" where
  "normal_records rp records =
     bind_result (collect_sources rp records [] [] []) (\<lambda>(refs, extractions, normalized).
     bind_result (normalize_all rp refs extractions (sorted_set (dict_keys extractions)) [] normalized)
       (\<lambda>(cache, normalized'). collect_statements rp refs extractions records cache normalized'))"

definition semantic_records :: "release_library \<Rightarrow> (json \<Rightarrow> string) \<Rightarrow> release_record list \<Rightarrow> semantic_record list result" where
  "semantic_records lib rp records =
     bind_result (normal_records rp records) (\<lambda>normalized.
     bind_result (unique_records lib normalized []) (\<lambda>unique.
       return (sort_key (\<lambda>s. (record_type_text (sr_type s), semantic_key_of s)) unique)))"

section \<open>The root\<close>

definition semantic_record_json :: "semantic_record \<Rightarrow> json" where
  "semantic_record_json s = JObj [(''record_type'', JStr (record_type_text (sr_type s))),
     (''semantic_key'', JStr (semantic_key_of s)), (''payload'', JObj (sr_payload s))]"

text \<open>The levels are those of \<open>tree_root\<close>. Every payload was already encoded for its key.\<close>

definition semantic_merkle_root :: "release_library \<Rightarrow> (json \<Rightarrow> string) \<Rightarrow> release_record list \<Rightarrow> (string \<times> int) result" where
  "semantic_merkle_root lib rp records =
     bind_result (semantic_records lib rp records) (\<lambda>normalized.
       if normalized = [] then raise (ValueError ''semantic release requires at least one record'')
       else return (hex (tree_root (map (\<lambda>s. sha256 (canonical_json_bytes (semantic_record_json s))) normalized)),
         int (length normalized)))"

end
