(* ===== verification/Application_Ledger.thy ===== *)
theory Application_Ledger
  imports Release_Records Semantics Release_Demo
begin

text \<open>
  src/ballotproof/postgres_application_shared.py, postgres_application_db.py and postgres_cutover.py: the table of
  application records of all elections, the cutovers, the migration of a SQLite election and the view that a release is
  built from. A payload column is JSONB: \<open>jb\<close> is the document that the server returns for one that was stored, None when it
  refuses it. A transaction is one step: it changes the ledger, or raises and changes nothing; the stream locks order
  the transactions.
\<close>

section \<open>Records and digests\<close>

datatype cutover_mode = Migrated_Cutover | Native_Cutover

record cutover =
  co_election_id :: string
  co_mode :: cutover_mode
  co_source_sha256 :: "string option"
  co_activated_at :: datetime

record ledger_row =
  lg_election_id :: string
  lg_record :: release_record
  lg_sha256 :: string

record ledger =
  lg_rows :: "ledger_row list"
  lg_cutovers :: "cutover list"

record equivalence_report =
  eq_election_id :: string
  eq_equivalent :: bool
  eq_source_count :: nat
  eq_target_count :: nat
  eq_source_sha256 :: string
  eq_target_sha256 :: string
  eq_cutover :: "cutover option"

record application_view =
  aw_election_id :: string
  aw_records_sha256 :: string
  aw_record_count :: nat
  aw_cutover :: cutover
  aw_records :: "release_record list"

type_synonym jsonb = "(string \<times> json) list \<Rightarrow> (string \<times> json) list option"

definition record_digest :: "release_record \<Rightarrow> string result" where
  "record_digest r = bind_result (encode_document (release_record_json r)) (\<lambda>b. return (sha256_bytes b))"

definition ordered_application_records :: "release_record list \<Rightarrow> release_record list result" where
  "ordered_application_records records =
     (let ordered = sort_key record_sort_key records in
      if duplicate_key None ordered then raise (ValueError ''duplicate application record key: '') else return ordered)"

definition application_records_sha256 :: "release_record list \<Rightarrow> string result" where
  "application_records_sha256 records = bind_result (ordered_application_records records) (\<lambda>ordered.
     bind_result (encode_document (JArr (map release_record_json ordered))) (\<lambda>b. return (sha256_bytes b)))"

section \<open>Rows\<close>

definition row_to_record :: "ledger_row \<Rightarrow> release_record result" where
  "row_to_record row = bind_result (record_digest (lg_record row)) (\<lambda>d.
     if d \<noteq> lg_sha256 row then raise (ValueError ''PostgreSQL application record digest mismatch'')
     else return (lg_record row))"

definition find_row :: "string \<Rightarrow> release_record \<Rightarrow> ledger \<Rightarrow> ledger_row option" where
  "find_row el r st = find (\<lambda>q. lg_election_id q = el \<and> record_sort_key (lg_record q) = record_sort_key r) (lg_rows st)"

text \<open>The type of a record is one of the five, so the guard on it never fires. The last error is that of the index
  on type and key over all elections.\<close>

definition insert_record :: "jsonb \<Rightarrow> string \<Rightarrow> release_record \<Rightarrow> ledger \<Rightarrow> ledger result" where
  "insert_record jb el r st = bind_result (record_digest r) (\<lambda>digest.
     case jb (release_payload r) of
       None \<Rightarrow> raise (DataError ''payload_json'')
     | Some stored \<Rightarrow> (case find_row el r st of
         Some q \<Rightarrow>
           if lg_sha256 q \<noteq> digest then raise (ValueError ''PostgreSQL application record conflict: '')
           else bind_result (record_digest (lg_record q)) (\<lambda>d.
             if d \<noteq> digest then raise (ValueError ''PostgreSQL application record payload does not match its digest'')
             else return st)
       | None \<Rightarrow>
           if list_ex (\<lambda>q. record_sort_key (lg_record q) = record_sort_key r) (lg_rows st)
           then raise (IntegrityError ''application_records_global_key'')
           else return (st\<lparr>lg_rows := lg_rows st @
             [\<lparr>lg_election_id = el, lg_record = r\<lparr>release_payload := stored\<rparr>, lg_sha256 = digest\<rparr>]\<rparr>)))"

fun insert_records :: "jsonb \<Rightarrow> string \<Rightarrow> release_record list \<Rightarrow> ledger \<Rightarrow> ledger result" where
  "insert_records jb el [] st = return st"
| "insert_records jb el (r # rs) st = bind_result (insert_record jb el r st) (insert_records jb el rs)"

definition records_in :: "string \<Rightarrow> ledger \<Rightarrow> release_record list result" where
  "records_in el st = bind_result (map_result row_to_record (filter (\<lambda>q. lg_election_id q = el) (lg_rows st)))
     ordered_application_records"

section \<open>Cutovers\<close>

definition cutover_of :: "string \<Rightarrow> ledger \<Rightarrow> cutover option" where
  "cutover_of el st = find (\<lambda>c. co_election_id c = el) (lg_cutovers st)"

definition assert_write_enabled :: "bool \<Rightarrow> string \<Rightarrow> ledger \<Rightarrow> cutover option result" where
  "assert_write_enabled required el st =
     (if \<not> required then return (cutover_of el st)
      else case cutover_of el st of
          None \<Rightarrow> raise (PermissionError ''PostgreSQL election writes require an explicit migrated or native cutover'')
        | Some c \<Rightarrow> return (Some c))"

definition activate_native :: "string \<Rightarrow> datetime \<Rightarrow> ledger \<Rightarrow> (ledger \<times> cutover) result" where
  "activate_native el now st =
     (if list_ex (\<lambda>q. lg_election_id q = el) (lg_rows st)
      then raise (ValueError ''native cutover requires an empty PostgreSQL election ledger'')
      else case cutover_of el st of
          Some c \<Rightarrow> if co_mode c \<noteq> Native_Cutover then raise (ValueError ''election is already activated as a migrated cutover'')
            else return (st, c)
        | None \<Rightarrow> (let c = \<lparr>co_election_id = el, co_mode = Native_Cutover, co_source_sha256 = None, co_activated_at = now\<rparr>
            in return (st\<lparr>lg_cutovers := lg_cutovers st @ [c]\<rparr>, c)))"

definition release_view :: "string \<Rightarrow> ledger \<Rightarrow> application_view result" where
  "release_view el st = (case cutover_of el st of
       None \<Rightarrow> raise (PermissionError ''PostgreSQL election has not passed the cutover gate'')
     | Some c \<Rightarrow> bind_result (records_in el st) (\<lambda>records.
         if records = [] then raise (KeyError ''Unknown PostgreSQL election: '')
         else bind_result (application_records_sha256 records) (\<lambda>digest. return
           \<lparr>aw_election_id = el, aw_records_sha256 = digest, aw_record_count = length records, aw_cutover = c,
            aw_records = records\<rparr>)))"

definition check_migration :: "string \<Rightarrow> string \<Rightarrow> ledger \<Rightarrow> unit result" where
  "check_migration el digest st = (case cutover_of el st of
       None \<Rightarrow> return ()
     | Some c \<Rightarrow>
         if co_mode c = Native_Cutover then raise (ValueError ''cannot migrate SQLite over a native PostgreSQL cutover'')
         else if co_source_sha256 c \<noteq> Some digest
         then raise (ValueError ''SQLite source changed after the migrated PostgreSQL cutover'')
         else return ())"

text \<open>The cutover after a migration. With one it has been checked before to have the same digest.\<close>

definition record_cutover :: "string \<Rightarrow> bool \<Rightarrow> string \<Rightarrow> datetime \<Rightarrow> ledger \<Rightarrow> ledger \<times> cutover option" where
  "record_cutover el activate digest now st = (case cutover_of el st of
       Some c \<Rightarrow> (st, Some c)
     | None \<Rightarrow> if \<not> activate then (st, None)
         else (let c = \<lparr>co_election_id = el, co_mode = Migrated_Cutover, co_source_sha256 = Some digest, co_activated_at = now\<rparr>
               in (st\<lparr>lg_cutovers := lg_cutovers st @ [c]\<rparr>, Some c)))"

definition migrate_records :: "jsonb \<Rightarrow> string \<Rightarrow> bool \<Rightarrow> datetime \<Rightarrow> release_record list \<Rightarrow> ledger
    \<Rightarrow> (ledger \<times> equivalence_report) result" where
  "migrate_records jb el activate now source st =
     bind_result (application_records_sha256 source) (\<lambda>digest.
     bind_result (check_migration el digest st) (\<lambda>_.
     bind_result (insert_records jb el source st) (\<lambda>st1.
     bind_result (records_in el st1) (\<lambda>target.
     bind_result (application_records_sha256 target) (\<lambda>target_digest.
       if \<not> (length source = length target \<and> digest = target_digest)
       then raise (ValueError ''PostgreSQL migration does not exactly match the SQLite source'')
       else (case record_cutover el activate digest now st1 of (st2, c) \<Rightarrow> return (st2,
         \<lparr>eq_election_id = el, eq_equivalent = True, eq_source_count = length source, eq_target_count = length target,
          eq_source_sha256 = digest, eq_target_sha256 = target_digest, eq_cutover = c\<rparr>)))))))"

definition migrate_sqlite_election :: "(datetime \<Rightarrow> string) \<Rightarrow> (string \<Rightarrow> string) \<Rightarrow> jsonb \<Rightarrow> registry_store option
    \<Rightarrow> evidence_store option \<Rightarrow> write_barrier \<Rightarrow> string \<Rightarrow> bool \<Rightarrow> datetime \<Rightarrow> ledger
    \<Rightarrow> (write_barrier \<times> ledger \<times> equivalence_report) result" where
  "migrate_sqlite_election dt fl jb registry store bar el activate now st =
     hold False bar (\<lambda>_. bind_result (collect_release_records dt fl registry store el) (\<lambda>source.
       migrate_records jb el activate now source st))"

definition equivalence :: "(datetime \<Rightarrow> string) \<Rightarrow> (string \<Rightarrow> string) \<Rightarrow> registry_store option \<Rightarrow> evidence_store option
    \<Rightarrow> write_barrier \<Rightarrow> string \<Rightarrow> ledger \<Rightarrow> (write_barrier \<times> equivalence_report) result" where
  "equivalence dt fl registry store bar el st =
     hold False bar (\<lambda>_. bind_result (collect_release_records dt fl registry store el) (\<lambda>source.
       bind_result (application_records_sha256 source) (\<lambda>digest.
       bind_result (records_in el st) (\<lambda>target.
       bind_result (application_records_sha256 target) (\<lambda>target_digest. return
         \<lparr>eq_election_id = el, eq_equivalent = (length source = length target \<and> digest = target_digest),
          eq_source_count = length source, eq_target_count = length target, eq_source_sha256 = digest,
          eq_target_sha256 = target_digest, eq_cutover = cutover_of el st\<rparr>)))))"

section \<open>Digests identify records\<close>

definition application_bytes :: "release_record list \<Rightarrow> byte list" where
  "application_bytes rs = canonical_json_bytes (JArr (map release_record_json (sort_key record_sort_key rs)))"

lemma encode_document_Inr: "encode_document v = Inr b \<longleftrightarrow> json_strings_ok v \<and> b = canonical_json_bytes v"
  by (auto simp: encode_document_def)

lemma record_digest_Inr:
  "record_digest r = Inr d \<longleftrightarrow> json_strings_ok (release_record_json r) \<and> d = sha256_bytes (leaf_bytes r)"
  by (auto simp: record_digest_def encode_document_Inr leaf_bytes_def encode_document_def)

lemma ordered_application_Inr:
  "ordered_application_records rs = Inr os \<longleftrightarrow> distinct (map record_sort_key rs) \<and> os = sort_key record_sort_key rs"
  using ordered_records_Inr [of rs os] by (simp add: ordered_application_records_def ordered_records_def Let_def split: if_splits)

lemma application_sha_Inr:
  "application_records_sha256 rs = Inr d \<longleftrightarrow> distinct (map record_sort_key rs)
     \<and> list_all (\<lambda>r. json_strings_ok (release_record_json r)) rs \<and> d = sha256_bytes (application_bytes rs)"
  (is "?l \<longleftrightarrow> ?r")
proof -
  have "json_strings_ok (JArr (map release_record_json (sort_key record_sort_key rs)))
      \<longleftrightarrow> list_all (\<lambda>r. json_strings_ok (release_record_json r)) rs" by (simp add: list_all_iff)
  note strings = this
  show ?thesis
  proof (cases "distinct (map record_sort_key rs)")
    case True
    then have "ordered_application_records rs = Inr (sort_key record_sort_key rs)" by (simp add: ordered_application_Inr)
    then show ?thesis using True strings by (auto simp: application_records_sha256_def application_bytes_def encode_document_def)
  next
    case False
    then obtain e where "ordered_application_records rs = Inl e"
      by (cases "ordered_application_records rs") (auto simp: ordered_application_Inr)
    then show ?thesis using False by (simp add: application_records_sha256_def)
  qed
qed

lemma ledger_records_json_ok: "list_all payload_ok rs \<Longrightarrow> json_ok (JArr (map release_record_json rs))"
  by (auto simp: list_all_iff intro: release_record_json_ok)

lemma records_json_eq: "json_eq (JArr (map release_record_json xs)) (JArr (map release_record_json ys)) \<longleftrightarrow> list_all2 same_record xs ys"
  by (simp add: list_all2_map1 list_all2_map2 release_record_json_eq)

lemma same_digest_same_records:
  assumes "application_records_sha256 xs = Inr d" "application_records_sha256 ys = Inr d"
    "list_all payload_ok xs" "list_all payload_ok ys" "collision_free {application_bytes xs, application_bytes ys}"
  shows "list_all2 same_record (sort_key record_sort_key xs) (sort_key record_sort_key ys)"
proof -
  have "sha256_bytes (application_bytes xs) = sha256_bytes (application_bytes ys)" using assms(1,2) by (simp add: application_sha_Inr)
  then have "application_bytes xs = application_bytes ys"
    by - (rule collision_freeD [OF assms(5)], simp_all only: sha256_bytes_eq insert_iff simp_thms)
  moreover have "list_all payload_ok (sort_key record_sort_key xs)" "list_all payload_ok (sort_key record_sort_key ys)"
    using assms(3,4) by (simp_all add: list_all_iff)
  ultimately show ?thesis
    unfolding application_bytes_def records_json_eq [symmetric] by (simp only: canonical_bytes_eq ledger_records_json_ok)
qed

lemma same_digest_same_record:
  assumes "record_digest a = Inr d" "record_digest b = Inr d" "payload_ok a" "payload_ok b" "collision_free {leaf_bytes a, leaf_bytes b}"
  shows "same_record a b"
proof -
  have "sha256_bytes (leaf_bytes a) = sha256_bytes (leaf_bytes b)" using assms(1,2) by (simp add: record_digest_Inr)
  then have "leaf_bytes a = leaf_bytes b"
    by - (rule collision_freeD [OF assms(5)], simp_all only: sha256_bytes_eq insert_iff simp_thms)
  then show ?thesis
    using assms(3,4) by (simp add: leaf_bytes_def canonical_bytes_eq release_record_json_ok release_record_json_eq)
qed

section \<open>Rows and cutovers are only added\<close>

inductive ledger_step :: "jsonb \<Rightarrow> ledger \<Rightarrow> ledger \<Rightarrow> bool" for jb where
  insert: "insert_record jb el r st = Inr st' \<Longrightarrow> payload_ok r \<Longrightarrow> ledger_step jb st st'"
| native: "activate_native el now st = Inr (st', c) \<Longrightarrow> ledger_step jb st st'"
| migrate: "migrate_records jb el activate now source st = Inr (st', report) \<Longrightarrow> list_all payload_ok source \<Longrightarrow>
    ledger_step jb st st'"

inductive ledger_run :: "jsonb \<Rightarrow> ledger \<Rightarrow> ledger \<Rightarrow> bool" for jb st where
  stay: "ledger_run jb st st"
| step: "ledger_run jb st st' \<Longrightarrow> ledger_step jb st' st'' \<Longrightarrow> ledger_run jb st st''"

definition empty_ledger :: ledger where
  "empty_ledger = \<lparr>lg_rows = [], lg_cutovers = []\<rparr>"

text \<open>What PostgreSQL documents of a JSONB column: an object comes back as an object with one value per key.\<close>

definition jsonb_objects :: "jsonb \<Rightarrow> bool" where
  "jsonb_objects jb \<longleftrightarrow> (\<forall>p q. jb p = Some q \<longrightarrow> json_ok (JObj p) \<longrightarrow> json_ok (JObj q))"

definition ledger_ok :: "ledger \<Rightarrow> bool" where
  "ledger_ok st \<longleftrightarrow> list_all (\<lambda>q. payload_ok (lg_record q)) (lg_rows st)
     \<and> distinct (map (\<lambda>q. record_sort_key (lg_record q)) (lg_rows st)) \<and> distinct (map co_election_id (lg_cutovers st))"

definition ledger_grows :: "ledger \<Rightarrow> ledger \<Rightarrow> bool" where
  "ledger_grows st st' \<longleftrightarrow> (\<exists>rows cuts. lg_rows st' = lg_rows st @ rows \<and> lg_cutovers st' = lg_cutovers st @ cuts)"

lemma ledger_grows_refl: "ledger_grows st st"
  by (simp add: ledger_grows_def)

lemma ledger_grows_trans: "ledger_grows a b \<Longrightarrow> ledger_grows b c \<Longrightarrow> ledger_grows a c"
  by (auto simp: ledger_grows_def)

lemma sort_key_payload [simp]: "record_sort_key (r\<lparr>release_payload := p\<rparr>) = record_sort_key r"
  by (simp add: record_sort_key_def)

lemma insert_record_effect:
  assumes "insert_record jb el r st = Inr st'"
  obtains "st' = st" | stored d where "jb (release_payload r) = Some stored" "record_digest r = Inr d"
    "st' = st\<lparr>lg_rows := lg_rows st @ [\<lparr>lg_election_id = el, lg_record = r\<lparr>release_payload := stored\<rparr>, lg_sha256 = d\<rparr>]\<rparr>"
    "\<forall>q \<in> set (lg_rows st). record_sort_key (lg_record q) \<noteq> record_sort_key r"
  using assms by (auto simp: insert_record_def bind_result_def list_ex_iff split: sum.splits option.splits if_splits)

lemma insert_record_ok:
  assumes "insert_record jb el r st = Inr st'" "ledger_ok st" "payload_ok r" "jsonb_objects jb"
  shows "ledger_ok st' \<and> ledger_grows st st'"
proof (rule insert_record_effect [OF assms(1)])
  fix stored d
  assume a: "jb (release_payload r) = Some stored"
    and s: "st' = st\<lparr>lg_rows := lg_rows st @ [\<lparr>lg_election_id = el, lg_record = r\<lparr>release_payload := stored\<rparr>, lg_sha256 = d\<rparr>]\<rparr>"
    and u: "\<forall>q \<in> set (lg_rows st). record_sort_key (lg_record q) \<noteq> record_sort_key r"
  have "payload_ok (r\<lparr>release_payload := stored\<rparr>)" using assms(3,4) a by (auto simp: payload_ok_def jsonb_objects_def)
  then show ?thesis using assms(2) u by (auto simp: s ledger_ok_def ledger_grows_def)
qed (use assms(2) ledger_grows_refl in simp)

lemma insert_records_ok:
  "insert_records jb el rs st = Inr st' \<Longrightarrow> ledger_ok st \<Longrightarrow> list_all payload_ok rs \<Longrightarrow> jsonb_objects jb \<Longrightarrow>
    ledger_ok st' \<and> ledger_grows st st'"
proof (induction rs arbitrary: st)
  case (Cons r rs)
  then obtain s where "insert_record jb el r st = Inr s" "insert_records jb el rs s = Inr st'" by (auto simp: bind_result_eq_Inr)
  then show ?case using Cons insert_record_ok [of jb el r st s] ledger_grows_trans by auto
qed (simp add: ledger_grows_refl)

lemma insert_records_cutovers: "insert_records jb el rs st = Inr st' \<Longrightarrow> cutover_of e st' = cutover_of e st"
proof (induction rs arbitrary: st)
  case (Cons r rs)
  then obtain s where s: "insert_record jb el r st = Inr s" "cutover_of e st' = cutover_of e s" by (auto simp: bind_result_eq_Inr)
  from s(1) have "cutover_of e s = cutover_of e st" by (rule insert_record_effect) (simp_all add: cutover_of_def)
  with s(2) show ?case by simp
qed simp

lemma cutover_of_distinct: "cutover_of el st = None \<Longrightarrow> el \<notin> co_election_id ` set (lg_cutovers st)"
  by (auto simp: cutover_of_def find_None_iff)

lemma record_cutover_ok:
  assumes "record_cutover el activate d now st = (st', c)" "ledger_ok st"
  shows "ledger_ok st'" "ledger_grows st st'" "lg_rows st' = lg_rows st" "cutover_of el st' = c"
    "activate \<Longrightarrow> c \<noteq> None"
proof -
  have n: "find (\<lambda>c. co_election_id c = el) (lg_cutovers st) = None \<longleftrightarrow> el \<notin> co_election_id ` set (lg_cutovers st)"
    by (auto simp: find_None_iff)
  show "ledger_ok st'" "ledger_grows st st'" "lg_rows st' = lg_rows st"
    using assms by (cases "cutover_of el st"; simp add: record_cutover_def Let_def split: if_splits;
        force simp: ledger_ok_def ledger_grows_def cutover_of_def n)+
  show "cutover_of el st' = c" using assms(1)
    by (cases "cutover_of el st") (auto simp: record_cutover_def Let_def cutover_of_def find_append split: if_splits)
  show "c \<noteq> None" if activate using assms(1) that
    by (cases "cutover_of el st") (auto simp: record_cutover_def Let_def dest: sym [of "Some _"])
qed

lemma activate_native_ok:
  assumes "activate_native el now st = Inr (st', c)" "ledger_ok st"
  shows "ledger_ok st' \<and> ledger_grows st st'"
  using assms by (auto simp: activate_native_def ledger_ok_def ledger_grows_def Let_def dest: cutover_of_distinct
      split: option.splits if_splits)

lemma migrate_records_Inr:
  assumes "migrate_records jb el activate now source st = Inr (st', report)"
  obtains digest st1 target c where "application_records_sha256 source = Inr digest" "check_migration el digest st = Inr ()"
    "insert_records jb el source st = Inr st1" "records_in el st1 = Inr target" "application_records_sha256 target = Inr digest"
    "length source = length target" "record_cutover el activate digest now st1 = (st', c)"
    "report = \<lparr>eq_election_id = el, eq_equivalent = True, eq_source_count = length source, eq_target_count = length target,
       eq_source_sha256 = digest, eq_target_sha256 = digest, eq_cutover = c\<rparr>"
  using assms by (auto simp: migrate_records_def bind_result_eq_Inr split: if_splits prod.splits)

lemma ledger_step_ok:
  assumes "ledger_step jb st st'" "ledger_ok st" "jsonb_objects jb"
  shows "ledger_ok st' \<and> ledger_grows st st'"
  using assms(1)
proof cases
  case (insert el r)
  then show ?thesis using insert_record_ok assms(2,3) by blast
next
  case (native el now c)
  then show ?thesis using activate_native_ok assms(2) by blast
next
  case (migrate el activate now source report)
  from migrate(1) obtain digest st1 c where "insert_records jb el source st = Inr st1" "record_cutover el activate digest now st1 = (st', c)"
    by (rule migrate_records_Inr)
  then show ?thesis using insert_records_ok [OF _ assms(2) migrate(2) assms(3)] record_cutover_ok(1,2) ledger_grows_trans by blast
qed

lemma ledger_run_ok:
  "ledger_run jb st st' \<Longrightarrow> ledger_ok st \<Longrightarrow> jsonb_objects jb \<Longrightarrow> ledger_ok st' \<and> ledger_grows st st'"
proof (induction rule: ledger_run.induct)
  case (step st' st'')
  then show ?case using ledger_step_ok [of jb st' st''] ledger_grows_trans by blast
qed (simp add: ledger_grows_refl)

lemma empty_ledger_ok: "ledger_ok empty_ledger"
  by (simp add: ledger_ok_def empty_ledger_def)

section \<open>Reading the ledger\<close>

lemma records_in_Inr:
  "records_in el st = Inr rs \<longleftrightarrow> list_all (\<lambda>q. row_to_record q = Inr (lg_record q)) (filter (\<lambda>q. lg_election_id q = el) (lg_rows st))
     \<and> distinct (map record_sort_key (map lg_record (filter (\<lambda>q. lg_election_id q = el) (lg_rows st))))
     \<and> rs = sort_key record_sort_key (map lg_record (filter (\<lambda>q. lg_election_id q = el) (lg_rows st)))"
  (is "_ \<longleftrightarrow> list_all ?ok ?rows \<and> _ \<and> _")
proof -
  have "map_result row_to_record ?rows = Inr xs \<longleftrightarrow> list_all ?ok ?rows \<and> xs = map lg_record ?rows" for xs
  proof -
    have one: "row_to_record q = Inr r \<longleftrightarrow> ?ok q \<and> r = lg_record q" for q r
      by (auto simp: row_to_record_def bind_result_eq_Inr split: if_splits)
    show ?thesis unfolding map_result_Inr
      by (subst one) (auto simp: list_all2_conv_all_nth list_all_length intro: nth_equalityI)
  qed
  then show ?thesis by (auto simp: records_in_def bind_result_eq_Inr ordered_application_Inr)
qed

lemma records_in_payloads: "records_in el st = Inr rs \<Longrightarrow> ledger_ok st \<Longrightarrow> list_all payload_ok rs"
  by (auto simp: records_in_Inr ledger_ok_def list_all_iff)

lemma release_view_Inr:
  "release_view el st = Inr view \<longleftrightarrow> (\<exists>c rs d. cutover_of el st = Some c \<and> records_in el st = Inr rs \<and> rs \<noteq> []
     \<and> application_records_sha256 rs = Inr d \<and> view = \<lparr>aw_election_id = el, aw_records_sha256 = d, aw_record_count = length rs,
       aw_cutover = c, aw_records = rs\<rparr>)"
  by (auto simp: release_view_def bind_result_eq_Inr split: option.splits if_splits)

lemma cutover_of_grows: "ledger_grows st st' \<Longrightarrow> cutover_of el st = Some c \<Longrightarrow> cutover_of el st' = Some c"
  by (auto simp: ledger_grows_def cutover_of_def find_append)

text \<open>A record that was accepted stays.\<close>

lemma find_row_Some:
  "find_row el r st = Some q \<Longrightarrow> q \<in> set (lg_rows st) \<and> lg_election_id q = el \<and> record_sort_key (lg_record q) = record_sort_key r"
  by (auto simp: find_row_def find_Some_iff)

lemma inserted_row:
  assumes "insert_record jb el r st = Inr st'" "record_digest r = Inr d"
  shows "\<exists>q \<in> set (lg_rows st'). lg_election_id q = el \<and> lg_sha256 q = d \<and> record_sort_key (lg_record q) = record_sort_key r"
proof -
  obtain stored where "jb (release_payload r) = Some stored"
    using assms by (auto simp: insert_record_def split: option.splits)
  then show ?thesis
    using assms find_row_Some [of el r st] by (cases "find_row el r st")
      (auto simp: insert_record_def bind_result_eq_Inr split: if_splits)
qed

lemma accepted_digest: "insert_record jb el r st = Inr st' \<Longrightarrow> \<exists>d. record_digest r = Inr d"
  by (auto simp: insert_record_def bind_result_eq_Inr)

lemma read_row_same:
  assumes "records_in el st = Inr rs" "ledger_ok st" "q \<in> set (lg_rows st)" "lg_election_id q = el" "record_digest r = Inr (lg_sha256 q)"
    "payload_ok r" "collision_free (leaf_bytes ` insert r (set rs))"
  shows "lg_record q \<in> set rs \<and> same_record r (lg_record q)"
proof -
  have mem: "lg_record q \<in> set rs" and row: "row_to_record q = Inr (lg_record q)"
    using assms(1,3,4) by (auto simp: records_in_Inr list_all_iff)
  have "record_digest (lg_record q) = Inr (lg_sha256 q)"
    using row by (auto simp: row_to_record_def bind_result_eq_Inr split: if_splits)
  moreover have "payload_ok (lg_record q)" using assms(2,3) by (simp add: ledger_ok_def list_all_iff)
  moreover have "collision_free {leaf_bytes r, leaf_bytes (lg_record q)}"
    using assms(7) by (rule collision_free_subset) (use mem in auto)
  ultimately show ?thesis using mem same_digest_same_record [OF assms(5) _ assms(6)] by blast
qed

text \<open>C36. A record that the ledger accepted is in every later view of its election, with the same type, key and payload, and
  the cutover that the election had then is still the one of the view: whatever is appended, activated or migrated in
  between.\<close>

theorem ledger_keeps_records:
  assumes "ledger_run jb empty_ledger st" "insert_record jb el r st = Inr st1" "ledger_run jb st1 later"
    "release_view el later = Inr view" "payload_ok r" "jsonb_objects jb"
    "collision_free (leaf_bytes ` insert r (set (aw_records view)))"
  shows "(\<exists>q \<in> set (aw_records view). same_record r q) \<and> (\<forall>c. cutover_of el st = Some c \<longrightarrow> aw_cutover view = c)"
proof -
  have ok: "ledger_ok st" using ledger_run_ok [OF assms(1) empty_ledger_ok assms(6)] by blast
  then have one: "ledger_ok st1" "ledger_grows st st1" using insert_record_ok [OF assms(2) _ assms(5,6)] by blast+
  then have grown: "ledger_ok later" "ledger_grows st1 later" using ledger_run_ok [OF assms(3) _ assms(6)] by blast+
  obtain c rs d where v: "cutover_of el later = Some c" "records_in el later = Inr rs" "aw_records view = rs" "aw_cutover view = c"
    using assms(4) by (auto simp: release_view_Inr)
  obtain d where d: "record_digest r = Inr d" using accepted_digest [OF assms(2)] by blast
  obtain q where q: "q \<in> set (lg_rows st1)" "lg_election_id q = el" "lg_sha256 q = d" using inserted_row [OF assms(2) d] by blast
  have "q \<in> set (lg_rows later)" using q(1) grown(2) by (auto simp: ledger_grows_def)
  from read_row_same [OF v(2) grown(1) this q(2) _ assms(5)] have "\<exists>q \<in> set rs. same_record r q"
    using d q(3) assms(7) v(3) by auto
  moreover have "c' = c" if "cutover_of el st = Some c'" for c'
    using cutover_of_grows [OF grown(2) cutover_of_grows [OF one(2) that]] v(1) by simp
  ultimately show ?thesis using v(3,4) by simp
qed

section \<open>Migration\<close>

lemma not_native: "m \<noteq> Native_Cutover \<longleftrightarrow> m = Migrated_Cutover"
  by (cases m) simp_all

lemma collected_sorted:
  assumes "collect_release_records dt fl registry store el = Inr source"
  shows "source \<noteq> []" "sort_key record_sort_key source = source" "distinct (map record_sort_key source)"
proof -
  obtain rs where rs: "rs \<noteq> []" "ordered_records rs = Inr source"
    using assms by (auto simp: collect_release_records_def Let_def split: option.splits if_splits)
      (metis Nil_is_append_conv Nil_is_map_conv)+
  then show "distinct (map record_sort_key source)" by (simp add: ordered_records_Inr)
  have "source = sort_key record_sort_key rs" using rs(2) by (simp add: ordered_records_Inr)
  then show "source \<noteq> []" "sort_key record_sort_key source = source"
    using rs(1) by (simp_all add: sort_key_id_if_sorted)
qed

lemma finite_values: "json_ok (json_opt value_json v)" "json_ok (json_opt JInt i)"
  by (cases v; simp add: json_opt_def value_json_def split: finding_value.split) (cases i; simp add: json_opt_def)

lemma record_payloads:
  "payload_ok (snapshot_release_record dt y)" "payload_ok (version_release_record r)" "payload_ok (attestation_release_record dt p)"
  "payload_ok (review_release_record dt v)" "(\<And>x. float_text_ok (fl x)) \<Longrightarrow> payload_ok (extraction_release_record dt fl e)"
proof -
  show "payload_ok (snapshot_release_record dt y)"
    by (simp add: payload_ok_def snapshot_release_record_def snapshot_row_fields_def payload_fields_def registry_source_json_def
        office_json_def candidate_json_def contest_json_def choice_json_def unit_json_def edge_json_def profile_binding_json_def
        json_opt_def split: option.split)
  show "payload_ok (version_release_record r)"
    by (simp add: payload_ok_def version_release_record_def version_row_fields_def source_json_def)
  show "payload_ok (attestation_release_record dt p)"
    by (cases p) (simp add: payload_ok_def attestation_release_record_def signed_attestation_fields_def attestation_json_ok)
  show "payload_ok (review_release_record dt v)"
    using finite_values by (simp add: payload_ok_def review_release_record_def review_fields_def field_review_json_def)
  assume fl: "\<And>x. float_text_ok (fl x)"
  have "json_ok (json_opt (\<lambda>b. JArr (map (\<lambda>x. JFloat (fl x)) b)) bb)" for bb
    using fl by (cases bb) (simp_all add: json_opt_def)
  then have "json_ok (extracted_field_json fl f)" for f using fl finite_values by (simp add: extracted_field_json_def)
  moreover have "json_ok (extraction_provenance_json dt p)" for p by (simp add: extraction_provenance_json_def)
  ultimately show "payload_ok (extraction_release_record dt fl e)"
    by (simp add: payload_ok_def extraction_release_record_def extraction_fields_def)
qed

lemma collected_payloads:
  assumes "collect_release_records dt fl registry store el = Inr source" "\<And>x. float_text_ok (fl x)"
  shows "list_all payload_ok source"
  using assms(1) record_payloads assms(2)
  by (auto simp: collect_release_records_def ordered_records_Inr list_all_iff dependent_records_def Let_def
      split: option.splits if_splits)

text \<open>C35. A migration with activation that returns has put the election of the SQLite stores into the ledger exactly: the view of
  the ledger exists, has the same records in the same order (type, key and payload, up to collisions), and its digest
  is the one recorded with the migrated cutover. From then on the election cannot be activated as a native one.\<close>

theorem migrated_election_identical:
  assumes "migrate_sqlite_election dt fl jb registry store bar el True now st = Inr (bar', st', report)"
    "ledger_run jb empty_ledger st" "jsonb_objects jb" "\<And>x. float_text_ok (fl x)"
  shows "\<exists>source view. collect_release_records dt fl registry store el = Inr source \<and> release_view el st' = Inr view
    \<and> eq_equivalent report \<and> eq_source_count report = length (aw_records view)
    \<and> co_mode (aw_cutover view) = Migrated_Cutover \<and> co_source_sha256 (aw_cutover view) = Some (aw_records_sha256 view)
    \<and> (collision_free {application_bytes source, application_bytes (aw_records view)} \<longrightarrow>
        list_all2 same_record source (aw_records view))
    \<and> (\<forall>later. \<exists>e. activate_native el later st' = Inl e)"
proof -
  obtain source where source: "collect_release_records dt fl registry store el = Inr source"
    and mig: "migrate_records jb el True now source st = Inr (st', report)"
    using assms(1) by (auto simp: migrate_sqlite_election_def hold_Inr bind_result_eq_Inr)
  note src = collected_sorted [OF source] and pay = collected_payloads [OF source assms(4)]
  have ok: "ledger_ok st" using ledger_run_ok [OF assms(2) empty_ledger_ok assms(3)] by blast
  from mig show ?thesis
  proof (rule migrate_records_Inr)
    fix digest st1 target c
    assume m: "application_records_sha256 source = Inr digest" "check_migration el digest st = Inr ()"
      "insert_records jb el source st = Inr st1" "records_in el st1 = Inr target" "application_records_sha256 target = Inr digest"
      "length source = length target" "record_cutover el True digest now st1 = (st', c)"
      "report = \<lparr>eq_election_id = el, eq_equivalent = True, eq_source_count = length source, eq_target_count = length target,
         eq_source_sha256 = digest, eq_target_sha256 = digest, eq_cutover = c\<rparr>"
    have st1: "ledger_ok st1" "ledger_grows st st1" using insert_records_ok [OF m(3) ok pay assms(3)] by blast+
    note cut = record_cutover_ok [OF m(7) st1(1)]
    obtain k where k: "c = Some k" "co_mode k = Migrated_Cutover" "co_source_sha256 k = Some digest"
      using m(2,7) by (cases "cutover_of el st") (auto simp: record_cutover_def check_migration_def Let_def
          insert_records_cutovers [OF m(3)] not_native split: if_splits dest: sym [of "Some _"])
    have rs: "records_in el st' = Inr target" using m(4) cut(3) by (simp add: records_in_def)
    have ne: "target \<noteq> []" using m(6) src(1) by auto
    let ?view = "\<lparr>aw_election_id = el, aw_records_sha256 = digest, aw_record_count = length target, aw_cutover = k, aw_records = target\<rparr>"
    have view: "release_view el st' = Inr ?view" using rs ne m(5) cut(4) k(1) by (simp add: release_view_Inr)
    have "list_all2 same_record source target" if "collision_free {application_bytes source, application_bytes target}"
      using same_digest_same_records [OF m(1,5) pay records_in_payloads [OF m(4) st1(1)] that] src(2)
        m(4) by (auto simp: records_in_Inr sort_key_id_if_sorted)
    moreover have "\<exists>e. activate_native el later st' = Inl e" for later
      using rs ne by (auto simp: activate_native_def records_in_Inr list_ex_iff filter_empty_conv)
    ultimately show ?thesis using source view k m(6,8) by (intro exI [of _ source] exI [of _ ?view]) simp
  qed
qed

section \<open>A first migration\<close>

text \<open>The server returns every document as it was stored.\<close>

definition new_row :: "string \<Rightarrow> release_record \<Rightarrow> ledger_row" where
  "new_row el r = \<lparr>lg_election_id = el, lg_record = r, lg_sha256 = sha256_bytes (leaf_bytes r)\<rparr>"

lemma new_row_simps [simp]: "lg_election_id (new_row el r) = el" "lg_record (new_row el r) = r"
  "lg_sha256 (new_row el r) = sha256_bytes (leaf_bytes r)"
  by (simp_all add: new_row_def)

lemma insert_new_record:
  assumes "json_strings_ok (release_record_json r)"
    "\<forall>q \<in> set (lg_rows st). record_sort_key (lg_record q) \<noteq> record_sort_key r"
  shows "insert_record Some el r st = Inr (st\<lparr>lg_rows := lg_rows st @ [new_row el r]\<rparr>)"
proof -
  have "record_digest r = Inr (sha256_bytes (leaf_bytes r))" using assms(1) by (simp add: record_digest_Inr)
  moreover have "find_row el r st = None" using assms(2) by (auto simp: find_row_def find_None_iff)
  moreover have "\<not> list_ex (\<lambda>q. record_sort_key (lg_record q) = record_sort_key r) (lg_rows st)"
    using assms(2) by (auto simp: list_ex_iff)
  ultimately show ?thesis by (simp add: insert_record_def new_row_def)
qed

lemma insert_new_records:
  "list_all (\<lambda>r. json_strings_ok (release_record_json r)) rs \<Longrightarrow> distinct (map record_sort_key rs) \<Longrightarrow>
    \<forall>q \<in> set (lg_rows st). record_sort_key (lg_record q) \<notin> record_sort_key ` set rs \<Longrightarrow>
    insert_records Some el rs st = Inr (st\<lparr>lg_rows := lg_rows st @ map (new_row el) rs\<rparr>)"
proof (induction rs arbitrary: st)
  case (Cons r rs)
  have one: "insert_record Some el r st = Inr (st\<lparr>lg_rows := lg_rows st @ [new_row el r]\<rparr>)"
    by (rule insert_new_record) (use Cons.prems in auto)
  have "insert_records Some el rs (st\<lparr>lg_rows := lg_rows st @ [new_row el r]\<rparr>) =
      Inr (st\<lparr>lg_rows := (lg_rows st @ [new_row el r]) @ map (new_row el) rs\<rparr>)"
    using Cons.IH [of "st\<lparr>lg_rows := lg_rows st @ [new_row el r]\<rparr>"] Cons.prems by auto
  then show ?case using one by simp
qed simp

lemma read_new_rows:
  assumes "list_all (\<lambda>r. json_strings_ok (release_record_json r)) rs" "distinct (map record_sort_key rs)"
  shows "records_in el \<lparr>lg_rows = map (new_row el) rs, lg_cutovers = cuts\<rparr> = Inr (sort_key record_sort_key rs)"
proof -
  have "row_to_record (new_row el r) = Inr r" if "json_strings_ok (release_record_json r)" for r
    using that by (simp add: row_to_record_def record_digest_def encode_document_def leaf_bytes_def)
  moreover have "filter (\<lambda>q. lg_election_id q = el) (map (new_row el) rs) = map (new_row el) rs" by (simp add: filter_map comp_def)
  moreover have "map lg_record (map (new_row el) rs) = rs" by (simp add: comp_def)
  ultimately show ?thesis using assms by (simp add: records_in_Inr list_all_iff comp_def)
qed

lemma first_migration:
  assumes "list_all (\<lambda>r. json_strings_ok (release_record_json r)) source" "distinct (map record_sort_key source)"
    "sort_key record_sort_key source = source"
  shows "\<exists>st report. migrate_records Some el True now source empty_ledger = Inr (st, report) \<and> records_in el st = Inr source"
proof -
  have "insert_records Some el source empty_ledger = Inr \<lparr>lg_rows = map (new_row el) source, lg_cutovers = []\<rparr>"
    using insert_new_records [OF assms(1,2), of empty_ledger el] by (simp add: empty_ledger_def)
  moreover have "application_records_sha256 source = Inr (sha256_bytes (application_bytes source))"
    using assms(1,2) by (simp add: application_sha_Inr)
  ultimately show ?thesis using read_new_rows [OF assms(1,2), of el]
    by (simp add: migrate_records_def check_migration_def cutover_of_def empty_ledger_def assms(3) record_cutover_def Let_def)
qed

section \<open>Examples\<close>

definition sample_record :: release_record where
  "sample_record = \<lparr>record_type = evidence_version_record, release_key = ''k'', release_payload = [(''n'', JInt 1)]\<rparr>"

lemma sample_record_ok: "payload_ok sample_record" "json_strings_ok (release_record_json sample_record)"
  by code_simp+

lemma faithful_server: "jsonb_objects Some"
  by (simp add: jsonb_objects_def)

lemma ledger_keeps_records_witness:
  "\<exists>st view. release_view ''E'' st = Inr view \<and> (\<exists>q \<in> set (aw_records view). same_record sample_record q)
     \<and> co_mode (aw_cutover view) = Native_Cutover"
proof -
  let ?c = "\<lparr>co_election_id = ''E'', co_mode = Native_Cutover, co_source_sha256 = None, co_activated_at = demo_time\<rparr>"
  let ?st = "empty_ledger\<lparr>lg_cutovers := [?c]\<rparr>"
  let ?st1 = "\<lparr>lg_rows = [new_row ''E'' sample_record], lg_cutovers = [?c]\<rparr>"
  have "activate_native ''E'' demo_time empty_ledger = Inr (?st, ?c)"
    by (simp add: activate_native_def cutover_of_def empty_ledger_def Let_def)
  then have run: "ledger_run Some empty_ledger ?st" by (blast intro: ledger_run.intros ledger_step.native)
  have cut: "cutover_of ''E'' ?st = Some ?c" by (simp add: cutover_of_def)
  have ins: "insert_record Some ''E'' sample_record ?st = Inr ?st1"
    using insert_new_record [OF sample_record_ok(2), of ?st "''E''"] by (simp add: empty_ledger_def)
  have rs: "records_in ''E'' ?st1 = Inr [sample_record]"
    using read_new_rows [of "[sample_record]" "''E''" "[?c]"] sample_record_ok(2) by simp
  then obtain view where view: "release_view ''E'' ?st1 = Inr view" "aw_records view = [sample_record]"
    using sample_record_ok(2) by (auto simp: release_view_Inr cutover_of_def application_sha_Inr)
  have "collision_free (leaf_bytes ` insert sample_record (set (aw_records view)))" by (simp add: view(2) collision_free_def)
  from ledger_keeps_records [OF run ins ledger_run.stay view(1) sample_record_ok(1) faithful_server this] cut
  have "\<exists>q \<in> set (aw_records view). same_record sample_record q" "co_mode (aw_cutover view) = Native_Cutover" by auto
  with view(1) show ?thesis by blast
qed

lemma demo_snapshot_strings: "json_strings_ok (release_record_json (snapshot_release_record isoformat demo_snapshot))"
proof -
  have hash: "utf8_text (snapshot_hash demo_snapshot)"
    by (simp add: demo_snapshot_def hash_record_def hex_text_utf8 sha256_bytes_is_hex)
  have fields: "sn_election_id demo_snapshot = ''E''" "sn_version demo_snapshot = 1" "snapshot_id demo_snapshot = ''bp_reg_0''"
    "previous_snapshot_hash demo_snapshot = None" "payload demo_snapshot = demo_payload" "sn_stored_at demo_snapshot = demo_time"
    by (simp_all add: demo_snapshot_def next_snapshot_def Let_def registry_history_def empty_registry_def demo_payload_def)
  have int: "utf8_text (int_str 1)" by code_simp
  have times: "utf8_text (isoformat demo_time)" "utf8_text (isoformat \<lparr>wall = 9, utcoffset = None\<rparr>)"
    "utf8_text (isoformat \<lparr>wall = 8, utcoffset = None\<rparr>)" "utf8_text (isoformat \<lparr>wall = 10, utcoffset = Some 0\<rparr>)" by code_simp+
  show ?thesis
    using hash times fields int record_type_ascii by (simp add: release_record_json_def snapshot_release_record_def
        snapshot_row_fields_def version_key_def json_opt_def payload_fields_def registry_source_json_def contest_json_def
        choice_json_def unit_json_def edge_json_def demo_payload_def utf8_ascii utf8_ascii_Cons)
qed

lemma demo_migration:
  "\<exists>st report. migrate_sqlite_election isoformat (\<lambda>x. ''0.5'') Some (Some demo_registry) None (Some 0) ''E'' True demo_time empty_ledger
     = Inr (Some 0, st, report)"
proof -
  let ?source = "[snapshot_release_record isoformat demo_snapshot]"
  have collect: "collect_release_records isoformat (\<lambda>x. ''0.5'') (Some demo_registry) None ''E'' = Inr ?source"
    by (simp add: collect_release_records_def ordered_records_def demo_registry_history)
  obtain st report where "migrate_records Some ''E'' True demo_time ?source empty_ledger = Inr (st, report)"
    using first_migration [of ?source "''E''" demo_time] demo_snapshot_strings by auto
  with collect show ?thesis by (auto simp: migrate_sqlite_election_def hold_def)
qed

lemma migrated_election_identical_witness:
  "\<exists>st report view. migrate_sqlite_election isoformat (\<lambda>x. ''0.5'') Some (Some demo_registry) None (Some 0) ''E'' True demo_time
       empty_ledger = Inr (Some 0, st, report)
     \<and> release_view ''E'' st = Inr view \<and> co_mode (aw_cutover view) = Migrated_Cutover"
proof -
  obtain st report where m: "migrate_sqlite_election isoformat (\<lambda>x. ''0.5'') Some (Some demo_registry) None (Some 0) ''E'' True
      demo_time empty_ledger = Inr (Some 0, st, report)" using demo_migration by blast
  have "float_text_ok ''0.5''" by code_simp
  from migrated_election_identical [OF m ledger_run.stay faithful_server this] m show ?thesis by blast
qed

end
