(* ===== verification/Collation_Graph.thy ===== *)
theory Collation_Graph
  imports Collation
begin

text \<open>
  src/ballotproof/collation_graph.py: replaying a whole aggregation graph. The validator rejects
  cycles by a depth-first search; the replay resolves nodes in rounds, children first, and passes
  a child's totals on only when the child itself verified.
\<close>

section \<open>Nodes and requests\<close>

record collation_node_spec =
  ns_level :: string
  ns_node_id :: string
  expected_child_ids :: "string list"
  ns_declared_totals :: "int dict option"

record graph_request =
  nodes :: "collation_node_spec list"
  gr_expected_candidate_ids :: "string list option"
  leaf_totals :: "int dict dict"

record graph_node_report =
  node :: collation_node_spec
  replay :: collation_report
  incomplete_child_node_ids :: "string list"

record graph_report =
  graph_status :: evidence_status
  graph_complete :: bool
  root_node_ids :: "string list"
  unreferenced_leaf_ids :: "string list"
  node_reports :: "graph_node_report list"

definition child_ids_are_unique :: "collation_node_spec \<Rightarrow> collation_node_spec result" where
  "child_ids_are_unique n = guarded
     [(\<not> distinct (expected_child_ids n),
       ValueError ''expected_child_ids must be unique within a collation node''),
      (ns_node_id n \<in> set (expected_child_ids n),
       ValueError ''a collation node cannot be its own child'')] n"

definition make_collation_node :: "collation_node_spec \<Rightarrow> collation_node_spec result" where
  "make_collation_node n =
     (if len_between 1 128 (ns_level n) \<and> len_between 1 256 (ns_node_id n)
        \<and> expected_child_ids n \<noteq> [] \<and> opt_all dict_ok (ns_declared_totals n)
      then child_ids_are_unique n else raise field_error)"

section \<open>\<open>_assert_acyclic\<close>\<close>

text \<open>
  \<open>for child in children: visit(child)\<close>. The set \<open>visiting\<close> is entered before and left
  after a node's own children, so it is constant over the children of one node; the set
  \<open>visited\<close> is threaded through. A node without an entry in \<open>dependencies\<close> would be a
  KeyError.
\<close>

function visit_each :: "string list dict \<Rightarrow> string set \<Rightarrow> string list \<Rightarrow> string set
    \<Rightarrow> string set result" where
  "visit_each dependencies visiting [] visited = return visited"
| "visit_each dependencies visiting (n # ns) visited =
     (if n \<in> visiting then raise (ValueError ''collation graph contains a cycle at '')
      else if n \<in> visited then visit_each dependencies visiting ns visited
      else (case dict_get dependencies n of
          None \<Rightarrow> raise (KeyError n)
        | Some children \<Rightarrow>
            (case visit_each dependencies (insert n visiting) children visited of
               Inl e \<Rightarrow> raise e
             | Inr visited' \<Rightarrow> visit_each dependencies visiting ns (insert n visited'))))"
  by pat_completeness auto
termination
proof (relation "measures [\<lambda>(deps, visiting, ns, visited). card (dict_keys deps - visiting),
    \<lambda>(deps, visiting, ns, visited). length ns]")
  fix deps :: "string list dict" and visiting n ns visited children
  assume "n \<notin> visiting" "dict_get deps n = Some children"
  then have "n \<in> dict_keys deps - visiting" by (simp add: dict_get_Some_key)
  then have "card (dict_keys deps - insert n visiting) < card (dict_keys deps - visiting)"
    by (intro psubset_card_mono) auto
  then show "((deps, insert n visiting, children, visited), deps, visiting, n # ns, visited) \<in> measures
      [\<lambda>(deps, visiting, ns, visited). card (dict_keys deps - visiting),
       \<lambda>(deps, visiting, ns, visited). length ns]" by simp
qed auto

definition dependencies :: "collation_node_spec list \<Rightarrow> string list dict" where
  "dependencies ns = dict_of (map (\<lambda>n. (ns_node_id n,
     filter (\<lambda>c. c \<in> set (map ns_node_id ns)) (expected_child_ids n))) ns)"

definition assert_acyclic :: "collation_node_spec list \<Rightarrow> unit result" where
  "assert_acyclic ns =
     (case visit_each (dependencies ns) {} (sorted_set (set (map ns_node_id ns))) {} of
        Inl e \<Rightarrow> raise e | Inr _ \<Rightarrow> return ())"

definition graph_is_well_formed :: "graph_request \<Rightarrow> graph_request result" where
  "graph_is_well_formed r =
     (let node_ids = map ns_node_id (nodes r) in
      bind_result (guarded
        [(\<not> distinct node_ids, ValueError ''collation node_id values must be unique''),
         (\<not> opt_all distinct (gr_expected_candidate_ids r),
          ValueError ''expected_candidate_ids must be unique''),
         (set node_ids \<inter> dict_keys (leaf_totals r) \<noteq> {},
          ValueError ''node IDs cannot also be leaf IDs: ''),
         (list_ex (\<lambda>(leaf, totals). totals_negative totals) (leaf_totals r),
          ValueError ''leaf totals must be non-negative: '')] ())
        (\<lambda>_. bind_result (assert_acyclic (nodes r)) (\<lambda>_. return r)))"

definition graph_fields_ok :: "graph_request \<Rightarrow> bool" where
  "graph_fields_ok r = (nodes r \<noteq> [] \<and> list_all (\<lambda>n. make_collation_node n = Inr n) (nodes r)
     \<and> opt_all (\<lambda>ids. ids \<noteq> []) (gr_expected_candidate_ids r)
     \<and> dict_ok (leaf_totals r) \<and> list_all (\<lambda>(leaf, totals). dict_ok totals) (leaf_totals r))"

definition make_graph_request :: "graph_request \<Rightarrow> graph_request result" where
  "make_graph_request r = (if graph_fields_ok r then graph_is_well_formed r else raise field_error)"

section \<open>\<open>replay_collation_graph\<close>\<close>

text \<open>The inputs of a node and its children that did not verify. Building a
  \<open>CollationInput\<close> can raise.\<close>

definition add_input :: "string \<Rightarrow> int dict \<Rightarrow> (collation_input list \<times> string list) result
    \<Rightarrow> (collation_input list \<times> string list) result" where
  "add_input c totals rest =
     bind_result (make_collation_input \<lparr>unit_id = c, candidate_totals = totals\<rparr>)
       (\<lambda>i. bind_result rest (\<lambda>(is, incomplete). return (i # is, incomplete)))"

fun gather_inputs :: "graph_request \<Rightarrow> graph_node_report dict \<Rightarrow> string list
    \<Rightarrow> (collation_input list \<times> string list) result" where
  "gather_inputs r reports [] = return ([], [])"
| "gather_inputs r reports (c # cs) =
     (case dict_get (leaf_totals r) c of
        Some totals \<Rightarrow> add_input c totals (gather_inputs r reports cs)
      | None \<Rightarrow>
          (case dict_get reports c of
             None \<Rightarrow> gather_inputs r reports cs
           | Some p \<Rightarrow>
               if is_verified (collation_status (replay p))
               then add_input c (computed_totals (replay p)) (gather_inputs r reports cs)
               else bind_result (gather_inputs r reports cs)
                 (\<lambda>(is, incomplete). return (is, c # incomplete))))"

definition node_request :: "graph_request \<Rightarrow> collation_node_spec \<Rightarrow> collation_input list
    \<Rightarrow> collation_request" where
  "node_request r spec is = \<lparr>cr_level = ns_level spec, cr_node_id = ns_node_id spec,
     cr_expected_unit_ids = expected_child_ids spec,
     cr_expected_candidate_ids = gr_expected_candidate_ids r, inputs = is,
     cr_declared_totals = ns_declared_totals spec\<rparr>"

definition node_report :: "graph_request \<Rightarrow> graph_node_report dict \<Rightarrow> collation_node_spec
    \<Rightarrow> graph_node_report result" where
  "node_report r reports spec =
     bind_result (gather_inputs r reports (expected_child_ids spec)) (\<lambda>(is, incomplete).
       bind_result (make_collation_request (node_request r spec is)) (\<lambda>q.
         return \<lparr>node = spec, replay = replay_collation q,
           incomplete_child_node_ids = sort incomplete\<rparr>))"

definition specs :: "graph_request \<Rightarrow> collation_node_spec dict" where
  "specs r = dict_of (map (\<lambda>n. (ns_node_id n, n)) (nodes r))"

text \<open>One round, over the ids that were unresolved when it began: the reports, the ids that
  remain, and whether the round progressed. A set of ids is kept as its sorted list.\<close>

fun replay_round :: "graph_request \<Rightarrow> string list \<Rightarrow> graph_node_report dict \<times> string list \<times> bool
    \<Rightarrow> (graph_node_report dict \<times> string list \<times> bool) result" where
  "replay_round r [] state = return state"
| "replay_round r (n # ns) (reports, remaining, progressed) =
     (let spec = the (dict_get (specs r) n);
          child_node_ids = filter (\<lambda>c. c \<in> dict_keys (specs r)) (expected_child_ids spec)
      in if list_ex (\<lambda>c. c \<notin> dict_keys reports) child_node_ids
         then replay_round r ns (reports, remaining, progressed)
         else (case node_report r reports spec of
             Inl e \<Rightarrow> raise e
           | Inr p \<Rightarrow> replay_round r ns (dict_set n p reports, remove1 n remaining, True)))"

lemma replay_round_shorter:
  assumes "replay_round r ns (reports, remaining, p) = Inr (reports', remaining', p')"
  shows "length remaining' \<le> length remaining
    \<and> (set ns \<subseteq> set remaining \<longrightarrow> \<not> p \<longrightarrow> p' \<longrightarrow> length remaining' < length remaining)"
  using assms
proof (induction ns arbitrary: reports remaining p)
  case (Cons n ns)
  show ?case
  proof (cases "list_ex (\<lambda>c. c \<notin> dict_keys reports)
      (filter (\<lambda>c. c \<in> dict_keys (specs r)) (expected_child_ids (the (dict_get (specs r) n))))")
    case True
    then have "replay_round r ns (reports, remaining, p) = Inr (reports', remaining', p')"
      using Cons.prems by (simp add: Let_def)
    with Cons.IH show ?thesis by fastforce
  next
    case False
    then obtain q where "replay_round r ns (dict_set n q reports, remove1 n remaining, True)
        = Inr (reports', remaining', p')"
      using Cons.prems by (auto simp: Let_def split: sum.splits)
    with Cons.IH have "length remaining' \<le> length (remove1 n remaining)" by blast
    moreover have "length (remove1 n remaining) < length remaining" if "n \<in> set remaining"
      using that length_pos_if_in_set [OF that] unfolding length_remove1 if_P [OF that] by linarith
    moreover have "length (remove1 n remaining) \<le> length remaining"
      by (simp add: length_remove1)
    ultimately show ?thesis by fastforce
  qed
qed auto

function replay_rounds :: "graph_request \<Rightarrow> graph_node_report dict \<Rightarrow> string list
    \<Rightarrow> graph_node_report dict result" where
  "replay_rounds r reports remaining =
     (if remaining = [] then return reports
      else (case replay_round r remaining (reports, remaining, False) of
          Inl e \<Rightarrow> raise e
        | Inr (reports', remaining', progressed) \<Rightarrow>
            if progressed then replay_rounds r reports' remaining'
            else raise (ValueError ''collation graph could not be resolved'')))"
  by pat_completeness auto
termination
  by (relation "measure (\<lambda>(r, reports, remaining). length remaining)")
    (auto dest: replay_round_shorter)

declare replay_rounds.simps [simp del]

definition referenced_children :: "graph_request \<Rightarrow> string set" where
  "referenced_children r = (\<Union>n \<in> set (nodes r). set (expected_child_ids n))"

definition graph_report_of :: "graph_request \<Rightarrow> graph_node_report list \<Rightarrow> graph_report" where
  "graph_report_of r ordered_reports =
     (let unreferenced = sorted_set (dict_keys (leaf_totals r) - referenced_children r);
          statuses = map (\<lambda>p. collation_status (replay p)) ordered_reports;
          status = (if unreferenced \<noteq> [] \<or> FAILED \<in> set statuses then FAILED
            else if INCOMPLETE \<in> set statuses then INCOMPLETE else VERIFIED)
      in \<lparr>graph_status = status, graph_complete = is_verified status,
          root_node_ids = sorted_set (dict_keys (specs r) - (referenced_children r \<inter> dict_keys (specs r))),
          unreferenced_leaf_ids = unreferenced, node_reports = ordered_reports\<rparr>)"

definition replay_collation_graph :: "graph_request \<Rightarrow> graph_report result" where
  "replay_collation_graph r =
     bind_result (replay_rounds r [] (sorted_set (dict_keys (specs r)))) (\<lambda>reports.
       return (graph_report_of r (map (\<lambda>n. the (dict_get reports (ns_node_id n))) (nodes r))))"

section \<open>The depth-first search finds exactly the cycles\<close>

definition dep_edges :: "string list dict \<Rightarrow> (string \<times> string) set" where
  "dep_edges deps = {(n, c). \<exists>cs. dict_get deps n = Some cs \<and> c \<in> set cs}"

definition graph_edges :: "collation_node_spec list \<Rightarrow> (string \<times> string) set" where
  "graph_edges ns = {(ns_node_id n, c) | n c. n \<in> set ns \<and> c \<in> set (expected_child_ids n)
     \<and> c \<in> ns_node_id ` set ns}"

text \<open>What holds of the visited nodes: they are closed under edges and lie on no cycle.\<close>

definition settled :: "string list dict \<Rightarrow> string set \<Rightarrow> bool" where
  "settled deps V \<longleftrightarrow> dep_edges deps `` V \<subseteq> V \<and> (\<forall>n \<in> V. (n, n) \<notin> (dep_edges deps)\<^sup>+)"

lemma settled_trancl:
  assumes "settled deps V" "n \<in> V" "(n, m) \<in> (dep_edges deps)\<^sup>+"
  shows "m \<in> V"
  using assms(3,2) by induction (use assms(1) in \<open>auto simp: settled_def\<close>)

lemma settled_insert:
  assumes "settled deps V" "n \<notin> V" "dep_edges deps `` {n} \<subseteq> V"
  shows "settled deps (insert n V)"
proof -
  have "(n, n) \<notin> (dep_edges deps)\<^sup>+"
  proof
    assume "(n, n) \<in> (dep_edges deps)\<^sup>+"
    then obtain c where c: "(n, c) \<in> dep_edges deps" "c = n \<or> (c, n) \<in> (dep_edges deps)\<^sup>+"
      by (meson tranclD rtranclD)
    then have "c \<in> V" using assms(3) by auto
    with c(2) assms(2) settled_trancl [OF assms(1)] show False by blast
  qed
  with assms show ?thesis by (auto simp: settled_def)
qed

lemma visit_each_ok:
  assumes "visit_each deps visiting ns visited = Inr visited'" "settled deps visited"
    "visited \<inter> visiting = {}"
  shows "settled deps visited' \<and> visited \<union> set ns \<subseteq> visited' \<and> visited' \<inter> visiting = {}"
  using assms
proof (induction deps visiting ns visited arbitrary: visited' rule: visit_each.induct)
  case (2 deps visiting n ns visited)
  have n: "n \<notin> visiting" using "2.prems"(1) by (auto split: if_splits)
  show ?case
  proof (cases "n \<in> visited")
    case True
    then show ?thesis using "2.IH"(1) [OF n True] "2.prems" n by auto
  next
    case False
    then obtain cs w where cs: "dict_get deps n = Some cs"
      and w: "visit_each deps (insert n visiting) cs visited = Inr w"
      and v: "visit_each deps visiting ns (insert n w) = Inr visited'"
      using "2.prems"(1) n by (auto split: option.splits sum.splits)
    have iw: "settled deps w" "visited \<union> set cs \<subseteq> w" "w \<inter> insert n visiting = {}"
      using "2.IH"(2) [OF n False cs w "2.prems"(2)] "2.prems"(3) False by auto
    then have "settled deps (insert n w)"
      by (intro settled_insert) (auto simp: dep_edges_def cs)
    then have "settled deps visited' \<and> insert n w \<union> set ns \<subseteq> visited' \<and> visited' \<inter> visiting = {}"
      using "2.IH"(3) [OF n False cs w v] iw(3) n by blast
    with iw(2) show ?thesis by auto
  qed
qed auto

lemma visit_each_error:
  assumes "visit_each deps visiting ns visited = Inl e"
    "\<forall>v \<in> visiting. \<forall>n \<in> set ns. (v, n) \<in> (dep_edges deps)\<^sup>+"
    "set ns \<subseteq> dict_keys deps" "snd ` dep_edges deps \<subseteq> dict_keys deps"
  shows "\<exists>n. (n, n) \<in> (dep_edges deps)\<^sup>+"
  using assms
proof (induction deps visiting ns visited arbitrary: e rule: visit_each.induct)
  case (2 deps visiting n ns visited)
  show ?case
  proof (cases "n \<in> visiting \<or> n \<in> visited")
    case True
    show ?thesis
    proof (cases "n \<in> visiting")
      case True
      then show ?thesis using "2.prems"(2) by auto
    next
      case False
      with True "2.IH"(1) [OF False] "2.prems" show ?thesis by auto
    qed
  next
    case False
    then have n: "n \<notin> visiting" "n \<notin> visited" by auto
    obtain cs where cs: "dict_get deps n = Some cs"
      using "2.prems"(3) by (auto simp: dict_keys_dom)
    have edge: "(n, c) \<in> dep_edges deps" if "c \<in> set cs" for c
      using that cs by (auto simp: dep_edges_def)
    show ?thesis
    proof (cases "visit_each deps (insert n visiting) cs visited")
      case (Inl e')
      have "\<forall>v \<in> insert n visiting. \<forall>c \<in> set cs. (v, c) \<in> (dep_edges deps)\<^sup>+"
        using "2.prems"(2) edge by (auto intro: trancl_into_trancl)
      moreover have "set cs \<subseteq> dict_keys deps" using edge "2.prems"(4) by force
      ultimately show ?thesis using "2.IH"(2) [OF n cs Inl] "2.prems"(4) by blast
    next
      case (Inr w)
      then have "visit_each deps visiting ns (insert n w) = Inl e" using "2.prems"(1) n cs by simp
      then show ?thesis using "2.IH"(3) [OF n cs Inr] "2.prems"(2-4) by auto
    qed
  qed
qed auto

lemma dependencies_get:
  assumes "distinct (map ns_node_id ns)" "n \<in> set ns"
  shows "dict_get (dependencies ns) (ns_node_id n) =
    Some (filter (\<lambda>c. c \<in> set (map ns_node_id ns)) (expected_child_ids n))"
proof -
  let ?f = "\<lambda>n. (ns_node_id n, filter (\<lambda>c. c \<in> set (map ns_node_id ns)) (expected_child_ids n))"
  have "distinct (map fst (map ?f ns))" using assms(1) by (simp add: o_def)
  then show ?thesis
    unfolding dependencies_def by (subst dict_get_of_distinct) (use assms(2) in auto)
qed

lemma dep_edges_dependencies:
  assumes "distinct (map ns_node_id ns)"
  shows "dep_edges (dependencies ns) = graph_edges ns"
proof -
  have "dict_get (dependencies ns) m = Some cs \<Longrightarrow> m \<in> ns_node_id ` set ns" for m cs
    using dict_get_Some_key [of "dependencies ns" m cs]
    by (simp add: dependencies_def dict_keys_of image_image)
  then show ?thesis
    using dependencies_get [OF assms] by (fastforce simp: dep_edges_def graph_edges_def)
qed

lemma assert_acyclic_iff:
  assumes "distinct (map ns_node_id ns)"
  shows "assert_acyclic ns = Inr () \<longleftrightarrow> acyclic (graph_edges ns)"
proof -
  let ?d = "dependencies ns" and ?ids = "sorted_set (set (map ns_node_id ns))"
  have keys: "dict_keys ?d = set (map ns_node_id ns)"
    by (simp add: dependencies_def dict_keys_of image_image)
  show ?thesis
  proof (cases "visit_each ?d {} ?ids {}")
    case (Inl e)
    have "snd ` dep_edges ?d \<subseteq> dict_keys ?d"
      by (auto simp: dep_edges_dependencies [OF assms] graph_edges_def keys)
    then have "\<exists>n. (n, n) \<in> (graph_edges ns)\<^sup>+"
      using visit_each_error [OF Inl] by (simp add: keys dep_edges_dependencies [OF assms])
    with Inl show ?thesis by (simp add: assert_acyclic_def acyclic_def)
  next
    case (Inr V)
    have V: "settled ?d V" "set ?ids \<subseteq> V"
      using visit_each_ok [OF Inr] by (auto simp: settled_def)
    have "(n, n) \<notin> (graph_edges ns)\<^sup>+" for n
    proof
      assume c: "(n, n) \<in> (graph_edges ns)\<^sup>+"
      then have "n \<in> ns_node_id ` set ns"
        by (auto simp: graph_edges_def dest!: tranclD)
      with V c show False by (auto simp: settled_def dep_edges_dependencies [OF assms])
    qed
    with Inr show ?thesis by (simp add: assert_acyclic_def acyclic_def)
  qed
qed

lemma graph_request_facts:
  "make_graph_request r = Inr q \<longleftrightarrow> q = r \<and> graph_fields_ok r \<and> distinct (map ns_node_id (nodes r))
     \<and> opt_all distinct (gr_expected_candidate_ids r)
     \<and> ns_node_id ` set (nodes r) \<inter> dict_keys (leaf_totals r) = {}
     \<and> \<not> list_ex (\<lambda>(leaf, totals). totals_negative totals) (leaf_totals r)
     \<and> acyclic (graph_edges (nodes r))"
  using assert_acyclic_iff [of "nodes r"]
  by (auto simp: make_graph_request_def graph_is_well_formed_def Let_def guarded_eq_Inr
      list_ex_iff case_prod_unfold)

text \<open>A graph request is accepted exactly when its node ids are unique and no leaf ids, the
  candidate universe is unique, the leaf totals are non-negative, and no node is its own
  descendant: the depth-first search of \<open>_assert_acyclic\<close> rejects every cycle and nothing else.\<close>

theorem graph_request_accepted_iff:
  "make_graph_request r = Inr q \<longleftrightarrow> q = r \<and> graph_fields_ok r \<and> distinct (map ns_node_id (nodes r))
     \<and> opt_all distinct (gr_expected_candidate_ids r)
     \<and> ns_node_id ` set (nodes r) \<inter> dict_keys (leaf_totals r) = {}
     \<and> \<not> list_ex (\<lambda>(leaf, totals). totals_negative totals) (leaf_totals r)
     \<and> acyclic (graph_edges (nodes r))"
  by (rule graph_request_facts)

section \<open>Every accepted graph is resolved\<close>

text \<open>
  The validator leaves two things to the constructors of the replay: declared totals may be
  negative, and a leaf id may be empty or longer than 256 characters. Both raise when the node is
  replayed.
\<close>

definition replayable :: "graph_request \<Rightarrow> bool" where
  "replayable r = list_all (\<lambda>n. opt_all (\<lambda>d. \<not> totals_negative d) (ns_declared_totals n)
     \<and> list_all (\<lambda>c. c \<in> dict_keys (leaf_totals r) \<longrightarrow> len_between 1 256 c) (expected_child_ids n))
     (nodes r)"

text \<open>What a child contributes: a leaf its totals, a verified node its computed totals.\<close>

definition child_totals :: "graph_request \<Rightarrow> graph_node_report dict \<Rightarrow> string \<Rightarrow> int dict option" where
  "child_totals r reports c = (case dict_get (leaf_totals r) c of
       Some t \<Rightarrow> Some t
     | None \<Rightarrow> (case dict_get reports c of
         None \<Rightarrow> None
       | Some p \<Rightarrow> if is_verified (collation_status (replay p))
           then Some (computed_totals (replay p)) else None))"

definition child_inputs :: "graph_request \<Rightarrow> graph_node_report dict \<Rightarrow> string list \<Rightarrow> collation_input list" where
  "child_inputs r reports cs = map (\<lambda>c. \<lparr>unit_id = c, candidate_totals = the (child_totals r reports c)\<rparr>)
     (filter (\<lambda>c. child_totals r reports c \<noteq> None) cs)"

definition final_request :: "graph_request \<Rightarrow> graph_node_report dict \<Rightarrow> collation_node_spec \<Rightarrow> collation_request" where
  "final_request r reports n = node_request r n (child_inputs r reports (expected_child_ids n))"

definition input_ok :: "string \<Rightarrow> int dict \<Rightarrow> bool" where
  "input_ok c t = (len_between 1 256 c \<and> dict_ok t \<and> \<not> totals_negative t)"

lemma make_input_ok: "input_ok c t \<Longrightarrow>
    make_collation_input \<lparr>unit_id = c, candidate_totals = t\<rparr> = Inr \<lparr>unit_id = c, candidate_totals = t\<rparr>"
  by (simp add: input_ok_def make_collation_input_Inr)

lemma gather_inputs_ok:
  assumes "\<forall>c \<in> set cs. \<forall>t. child_totals r reports c = Some t \<longrightarrow> input_ok c t"
  shows "\<exists>incomplete. gather_inputs r reports cs = Inr (child_inputs r reports cs, incomplete)"
  using assms
proof (induction cs)
  case (Cons c cs)
  then obtain inc where "gather_inputs r reports cs = Inr (child_inputs r reports cs, inc)" by auto
  with Cons.prems make_input_ok [of c] show ?case
    by (auto simp: add_input_def child_inputs_def child_totals_def split: option.split)
qed (simp add: child_inputs_def)

lemma gather_inputs_cong:
  "\<forall>c \<in> set cs. c \<notin> dict_keys (leaf_totals r) \<longrightarrow> dict_get reports' c = dict_get reports c \<Longrightarrow>
   gather_inputs r reports' cs = gather_inputs r reports cs"
  by (induction cs) (auto simp: dict_keys_dom split: option.split)

lemma child_totals_cong:
  "c \<notin> dict_keys (leaf_totals r) \<longrightarrow> dict_get reports' c = dict_get reports c \<Longrightarrow>
   child_totals r reports' c = child_totals r reports c"
  by (auto simp: child_totals_def dict_keys_dom split: option.split)

lemma totals_negative_get:
  "dict_ok d \<Longrightarrow> totals_negative d \<longleftrightarrow> (\<exists>k v. dict_get d k = Some v \<and> v < 0)"
  by (auto simp: totals_negative_def list_ex_iff dict_ok_def dest: map_of_SomeD)

lemma replay_totals_ok:
  assumes "make_collation_request q = Inr q"
  shows "dict_ok (computed_totals (replay_collation q))"
    "\<not> totals_negative (computed_totals (replay_collation q))"
proof -
  have t: "computed_totals (replay_collation q) = dict_sorted (computed q)"
    by (simp add: replay_collation_def Let_def case_prod_unfold)
  then show ok: "dict_ok (computed_totals (replay_collation q))" by simp
  have in_ok: "\<And>i. i \<in> set (inputs q) \<Longrightarrow> dict_ok (candidate_totals i) \<and> \<not> totals_negative (candidate_totals i)"
    using assms by (auto simp: make_collation_request_Inr collation_fields_ok_def list_all_iff
        make_collation_input_Inr)
  have "0 \<le> dict_default 0 (candidate_totals i) c" if "i \<in> set (inputs q)" for i c
    using in_ok [OF that] by (auto simp: totals_negative_get dict_default_def not_less split: option.split)
  then have "0 \<le> counted_total q c" for c
    unfolding counted_total_def by (intro sum_list_nonneg) (auto simp: counted_inputs_def)
  then have "0 \<le> v" if "dict_get (computed q) k = Some v" for k v
    using that computed_default [OF assms, of k] by (simp add: dict_default_def)
  then show "\<not> totals_negative (computed_totals (replay_collation q))"
    unfolding totals_negative_get [OF ok] by (auto simp: t dict_get_sorted not_less)
qed

lemma specs_get:
  assumes "distinct (map ns_node_id (nodes r))" "n \<in> set (nodes r)"
  shows "dict_get (specs r) (ns_node_id n) = Some n"
proof -
  have "distinct (map fst (map (\<lambda>n. (ns_node_id n, n)) (nodes r)))" using assms(1) by (simp add: o_def)
  then show ?thesis unfolding specs_def by (subst dict_get_of_distinct) (use assms(2) in auto)
qed

lemma specs_keys [simp]: "dict_keys (specs r) = ns_node_id ` set (nodes r)"
  by (simp add: specs_def dict_keys_of image_image)

text \<open>The facts that acceptance gives to the replay.\<close>

lemma accepted_facts:
  assumes "make_graph_request q = Inr r"
  shows "distinct (map ns_node_id (nodes r))" "acyclic (graph_edges (nodes r))"
    "dict_keys (leaf_totals r) \<inter> ns_node_id ` set (nodes r) = {}"
    "opt_all distinct (gr_expected_candidate_ids r)" "opt_all (\<lambda>ids. ids \<noteq> []) (gr_expected_candidate_ids r)"
    "\<And>c t. dict_get (leaf_totals r) c = Some t \<Longrightarrow> dict_ok t \<and> \<not> totals_negative t"
    "\<And>n. n \<in> set (nodes r) \<Longrightarrow> make_collation_node n = Inr n"
  using assms
  by (auto simp: graph_request_facts graph_fields_ok_def list_all_iff list_ex_iff
      dest!: map_of_SomeD)

lemma make_collation_node_Inr:
  "make_collation_node n = Inr m \<longleftrightarrow> m = n \<and> len_between 1 128 (ns_level n)
     \<and> len_between 1 256 (ns_node_id n) \<and> expected_child_ids n \<noteq> []
     \<and> opt_all dict_ok (ns_declared_totals n) \<and> distinct (expected_child_ids n)
     \<and> ns_node_id n \<notin> set (expected_child_ids n)"
  by (auto simp: make_collation_node_def child_ids_are_unique_def)

text \<open>The report a dictionary holds for a node is the replay of its final request.\<close>

definition reported :: "graph_request \<Rightarrow> graph_node_report dict \<Rightarrow> collation_node_spec \<Rightarrow> bool" where
  "reported r reports n \<longleftrightarrow> (\<exists>p. dict_get reports (ns_node_id n) = Some p \<and> node p = n
     \<and> replay p = replay_collation (final_request r reports n)
     \<and> make_collation_request (final_request r reports n) = Inr (final_request r reports n)
     \<and> node_report r reports n = Inr p)"

definition node_children :: "graph_request \<Rightarrow> collation_node_spec \<Rightarrow> string set" where
  "node_children r n = set (expected_child_ids n) \<inter> ns_node_id ` set (nodes r)"

definition rounds_inv :: "graph_request \<Rightarrow> graph_node_report dict \<Rightarrow> string list \<Rightarrow> bool" where
  "rounds_inv r reports remaining \<longleftrightarrow> distinct remaining
     \<and> dict_keys reports \<inter> set remaining = {}
     \<and> dict_keys reports \<union> set remaining = ns_node_id ` set (nodes r)
     \<and> (\<forall>n \<in> set (nodes r). ns_node_id n \<in> dict_keys reports \<longrightarrow>
          node_children r n \<subseteq> dict_keys reports \<and> reported r reports n)"

lemma child_inputs_units: "map unit_id (child_inputs r reports cs) = filter (\<lambda>c. child_totals r reports c \<noteq> None) cs"
  by (simp add: child_inputs_def o_def)

lemma child_inputs_cong:
  "\<forall>c \<in> set cs. child_totals r reports' c = child_totals r reports c \<Longrightarrow>
   child_inputs r reports' cs = child_inputs r reports cs"
  by (induction cs) (auto simp: child_inputs_def)

lemma node_report_ok:
  assumes a: "make_graph_request r = Inr r" and re: "replayable r" and n: "n \<in> set (nodes r)"
    and good: "\<And>c p. dict_get reports c = Some p \<Longrightarrow> c \<in> ns_node_id ` set (nodes r)
      \<and> dict_ok (computed_totals (replay p)) \<and> \<not> totals_negative (computed_totals (replay p))"
  shows "\<exists>p. node_report r reports n = Inr p \<and> node p = n
     \<and> replay p = replay_collation (final_request r reports n)
     \<and> make_collation_request (final_request r reports n) = Inr (final_request r reports n)"
proof -
  note acc = accepted_facts [OF a]
  have nn: "len_between 1 128 (ns_level n)" "len_between 1 256 (ns_node_id n)"
    "expected_child_ids n \<noteq> []" "opt_all dict_ok (ns_declared_totals n)" "distinct (expected_child_ids n)"
    using acc(7) [OF n] by (auto simp: make_collation_node_Inr)
  have rn: "opt_all (\<lambda>d. \<not> totals_negative d) (ns_declared_totals n)"
    "\<And>c. c \<in> set (expected_child_ids n) \<Longrightarrow> c \<in> dict_keys (leaf_totals r) \<Longrightarrow> len_between 1 256 c"
    using re n by (auto simp: replayable_def list_all_iff)
  have ok: "input_ok c t" if c: "c \<in> set (expected_child_ids n)" and ct: "child_totals r reports c = Some t"
    for c t
  proof (cases "dict_get (leaf_totals r) c")
    case (Some u)
    then show ?thesis using ct acc(6) [OF Some] rn(2) [OF c] dict_get_Some_key [OF Some]
      by (simp add: input_ok_def child_totals_def)
  next
    case None
    then obtain p where p: "dict_get reports c = Some p" "t = computed_totals (replay p)"
      using ct by (auto simp: child_totals_def split: option.splits if_splits)
    then obtain m where "m \<in> set (nodes r)" "c = ns_node_id m" using good by blast
    then have "len_between 1 256 c" using acc(7) by (auto simp: make_collation_node_Inr)
    with good [OF p(1)] p(2) show ?thesis by (simp add: input_ok_def)
  qed
  then obtain inc where g: "gather_inputs r reports (expected_child_ids n)
      = Inr (child_inputs r reports (expected_child_ids n), inc)"
    using gather_inputs_ok by blast
  have "list_all (\<lambda>i. make_collation_input i = Inr i) (child_inputs r reports (expected_child_ids n))"
    using ok by (auto simp: child_inputs_def list_all_iff intro!: make_input_ok)
  then have q: "make_collation_request (final_request r reports n) = Inr (final_request r reports n)"
    using nn rn acc(4,5)
    by (simp add: make_collation_request_Inr collation_fields_ok_def final_request_def node_request_def
        child_inputs_units)
  then show ?thesis using g by (simp add: node_report_def final_request_def)
qed

lemma rounds_inv_good:
  assumes "rounds_inv r reports remaining" "dict_get reports c = Some p"
  shows "c \<in> ns_node_id ` set (nodes r)" "dict_ok (computed_totals (replay p))"
    "\<not> totals_negative (computed_totals (replay p))"
proof -
  have c: "c \<in> dict_keys reports" using assms(2) by (rule dict_get_Some_key)
  then show "c \<in> ns_node_id ` set (nodes r)" using assms(1) by (auto simp: rounds_inv_def)
  then obtain n where "n \<in> set (nodes r)" "c = ns_node_id n" by blast
  then have "reported r reports n" using assms(1) c by (auto simp: rounds_inv_def)
  then show "dict_ok (computed_totals (replay p))" "\<not> totals_negative (computed_totals (replay p))"
    using assms(2) replay_totals_ok by (auto simp: reported_def \<open>c = ns_node_id n\<close>)
qed

lemma reported_stable:
  assumes "reported r reports n" "node_children r n \<subseteq> dict_keys reports"
    "dict_keys reports \<subseteq> ns_node_id ` set (nodes r)" "k \<in> ns_node_id ` set (nodes r)"
    "k \<notin> dict_keys reports" "ns_node_id n \<in> dict_keys reports"
  shows "reported r (dict_set k q reports) n"
proof -
  have same: "dict_get (dict_set k q reports) c = dict_get reports c" if "c \<in> set (expected_child_ids n)" for c
    using that assms(2,4,5) by (auto simp: dict_get_set node_children_def)
  then have "child_totals r (dict_set k q reports) c = child_totals r reports c"
    if "c \<in> set (expected_child_ids n)" for c using that by (intro child_totals_cong) simp
  then have f: "final_request r (dict_set k q reports) n = final_request r reports n"
    unfolding final_request_def by (subst child_inputs_cong) auto
  have "node_report r (dict_set k q reports) n = node_report r reports n"
    unfolding node_report_def using same by (subst gather_inputs_cong) auto
  moreover have "dict_get (dict_set k q reports) (ns_node_id n) = dict_get reports (ns_node_id n)"
    using assms(5,6) by (auto simp: dict_get_set)
  ultimately show ?thesis using assms(1) by (simp add: reported_def f)
qed

lemma rounds_inv_step:
  assumes a: "make_graph_request r = Inr r" and re: "replayable r"
    and inv: "rounds_inv r reports remaining" and k: "k \<in> set remaining"
    and n: "n = the (dict_get (specs r) k)" and ready: "node_children r n \<subseteq> dict_keys reports"
  shows "\<exists>p. node_report r reports n = Inr p \<and> rounds_inv r (dict_set k p reports) (remove1 k remaining)"
proof -
  have parts: "distinct remaining" "dict_keys reports \<inter> set remaining = {}"
    "dict_keys reports \<union> set remaining = ns_node_id ` set (nodes r)"
    "\<And>m. m \<in> set (nodes r) \<Longrightarrow> ns_node_id m \<in> dict_keys reports \<Longrightarrow>
      node_children r m \<subseteq> dict_keys reports \<and> reported r reports m"
    using inv by (auto simp: rounds_inv_def)
  note d = accepted_facts(1) [OF a]
  have "k \<in> ns_node_id ` set (nodes r)" using parts(3) k by blast
  then have nr: "n \<in> set (nodes r)" and kn: "k = ns_node_id n" using specs_get [OF d] n by auto
  have knew: "k \<notin> dict_keys reports" using parts(2) k by auto
  obtain p where p: "node_report r reports n = Inr p" "node p = n"
    "replay p = replay_collation (final_request r reports n)"
    "make_collation_request (final_request r reports n) = Inr (final_request r reports n)"
    using node_report_ok [OF a re nr, of reports] rounds_inv_good [OF inv] by blast
  have nself: "k \<notin> node_children r n"
    using ready knew by auto
  have same: "dict_get (dict_set k p reports) c = dict_get reports c" if "c \<in> set (expected_child_ids n)" for c
    using that nself kn nr by (auto simp: dict_get_set node_children_def)
  then have f: "final_request r (dict_set k p reports) n = final_request r reports n"
    unfolding final_request_def by (subst child_inputs_cong) (auto intro!: child_totals_cong)
  have "node_report r (dict_set k p reports) n = node_report r reports n"
    unfolding node_report_def using same by (subst gather_inputs_cong) auto
  then have new: "reported r (dict_set k p reports) n"
    using p by (simp add: reported_def f kn [symmetric] dict_get_set)
  have old: "reported r (dict_set k p reports) m"
    if "m \<in> set (nodes r)" "ns_node_id m \<in> dict_keys reports" for m
    using reported_stable [of r reports m k p] parts that kn nr knew by auto
  have only: "m = n" if "m \<in> set (nodes r)" "ns_node_id m = k" for m
    using specs_get [OF d that(1)] n that(2) by simp
  have "rounds_inv r (dict_set k p reports) (remove1 k remaining)"
    unfolding rounds_inv_def
  proof (intro conjI ballI impI)
    show "distinct (remove1 k remaining)" using parts(1) by simp
    show "dict_keys (dict_set k p reports) \<inter> set (remove1 k remaining) = {}"
      "dict_keys (dict_set k p reports) \<union> set (remove1 k remaining) = ns_node_id ` set (nodes r)"
      using parts(1-3) k by (auto simp: dict_keys_set)
  next
    fix m assume m: "m \<in> set (nodes r)" "ns_node_id m \<in> dict_keys (dict_set k p reports)"
    show "node_children r m \<subseteq> dict_keys (dict_set k p reports)"
      using m parts(4) ready only [of m] by (auto simp: dict_keys_set)
    show "reported r (dict_set k p reports) m"
      using m only [of m] new old by (auto simp: dict_keys_set)
  qed
  with p(1) show ?thesis by blast
qed

lemma round_guard:
  assumes "make_graph_request r = Inr r" "k \<in> ns_node_id ` set (nodes r)"
  shows "\<not> list_ex (\<lambda>c. c \<notin> dict_keys reports)
      (filter (\<lambda>c. c \<in> dict_keys (specs r)) (expected_child_ids (the (dict_get (specs r) k))))
    \<longleftrightarrow> node_children r (the (dict_get (specs r) k)) \<subseteq> dict_keys reports"
  by (auto simp: node_children_def list_ex_iff)

lemma replay_round_inv:
  assumes "make_graph_request r = Inr r" "replayable r" "rounds_inv r reports remaining"
    "set ns \<subseteq> set remaining" "distinct ns"
  shows "\<exists>reports' remaining' p'. replay_round r ns (reports, remaining, p) = Inr (reports', remaining', p')
    \<and> rounds_inv r reports' remaining' \<and> (p \<longrightarrow> p')
    \<and> ((\<exists>k \<in> set ns. node_children r (the (dict_get (specs r) k)) \<subseteq> dict_keys reports) \<longrightarrow> p')"
  using assms(3-5)
proof (induction ns arbitrary: reports remaining p)
  case (Cons k ns)
  let ?n = "the (dict_get (specs r) k)"
  have "k \<in> ns_node_id ` set (nodes r)" using Cons.prems by (auto simp: rounds_inv_def)
  note guard = round_guard [OF assms(1) this, of reports]
  show ?case
  proof (cases "node_children r ?n \<subseteq> dict_keys reports")
    case False
    have "replay_round r (k # ns) (reports, remaining, p) = replay_round r ns (reports, remaining, p)"
      using guard False by (simp only: replay_round.simps Let_def) simp
    with False Cons.IH [of reports remaining p] Cons.prems show ?thesis by auto
  next
    case True
    then obtain q where q: "node_report r reports ?n = Inr q"
      and inv: "rounds_inv r (dict_set k q reports) (remove1 k remaining)"
      using rounds_inv_step [OF assms(1,2) Cons.prems(1) _ refl True] Cons.prems(2) by auto
    have "set ns \<subseteq> set (remove1 k remaining)" "distinct ns"
      using Cons.prems by (auto simp: rounds_inv_def)
    note ih = Cons.IH [OF inv this, of True]
    have "replay_round r (k # ns) (reports, remaining, p)
        = replay_round r ns (dict_set k q reports, remove1 k remaining, True)"
      using guard True q by (simp only: replay_round.simps Let_def) simp
    with ih show ?thesis by auto
  qed
qed auto

lemma some_node_ready:
  assumes a: "make_graph_request r = Inr r" and inv: "rounds_inv r reports remaining"
    and ne: "remaining \<noteq> []"
  shows "\<exists>k \<in> set remaining. node_children r (the (dict_get (specs r) k)) \<subseteq> dict_keys reports"
proof -
  note acc = accepted_facts [OF a]
  let ?E = "graph_edges (nodes r)"
  have "?E \<subseteq> (ns_node_id ` set (nodes r)) \<times> (ns_node_id ` set (nodes r))"
    by (auto simp: graph_edges_def)
  then have "finite ?E" by (rule finite_subset) simp
  then have "wf (?E\<inverse>)" using acc(2) by (rule finite_acyclic_wf_converse)
  then obtain k where k: "k \<in> set remaining" "\<And>c. (c, k) \<in> ?E\<inverse> \<Longrightarrow> c \<notin> set remaining"
    using ne by (metis wfE_min list.set_sel(1))
  have "k \<in> ns_node_id ` set (nodes r)" using inv k(1) by (auto simp: rounds_inv_def)
  then obtain n where n: "n \<in> set (nodes r)" "k = ns_node_id n" by blast
  have "node_children r n \<subseteq> dict_keys reports"
  proof
    fix c assume c: "c \<in> node_children r n"
    then have "(k, c) \<in> ?E" using n by (auto simp: graph_edges_def node_children_def)
    with k(2) have "c \<notin> set remaining" by blast
    with c inv show "c \<in> dict_keys reports" by (auto simp: rounds_inv_def node_children_def)
  qed
  with k(1) n show ?thesis using specs_get [OF acc(1) n(1)] by force
qed

lemma replay_rounds_inv:
  assumes "make_graph_request r = Inr r" "replayable r" "rounds_inv r reports remaining"
  shows "\<exists>final. replay_rounds r reports remaining = Inr final \<and> rounds_inv r final []"
  using assms
proof (induction r reports remaining rule: replay_rounds.induct)
  case (1 r reports remaining)
  show ?case
  proof (cases "remaining = []")
    case True
    then show ?thesis using "1.prems"(3) by (subst replay_rounds.simps) simp
  next
    case False
    have d: "distinct remaining" using "1.prems"(3) by (simp add: rounds_inv_def)
    obtain reports' remaining' where rr: "replay_round r remaining (reports, remaining, False)
        = Inr (reports', remaining', True)" "rounds_inv r reports' remaining'"
      using replay_round_inv [OF "1.prems" subset_refl d, of False]
        some_node_ready [OF "1.prems"(1,3) False] by auto
    then obtain final where "replay_rounds r reports' remaining' = Inr final" "rounds_inv r final []"
      using "1.IH" [OF False rr(1) refl refl TrueI] "1.prems"(1,2) by blast
    with False rr(1) show ?thesis by (subst replay_rounds.simps) simp
  qed
qed

text \<open>The dictionary of reports a replay ends with.\<close>

lemma replay_graph_final:
  assumes a: "make_graph_request r = Inr r" and re: "replayable r"
  shows "\<exists>final. replay_collation_graph r
      = Inr (graph_report_of r (map (\<lambda>n. the (dict_get final (ns_node_id n))) (nodes r)))
    \<and> (\<forall>n \<in> set (nodes r). reported r final n) \<and> dict_keys final = ns_node_id ` set (nodes r)"
proof -
  have "rounds_inv r [] (sorted_set (dict_keys (specs r)))"
    by (simp add: rounds_inv_def dict_keys_Nil)
  then obtain final where "replay_rounds r [] (sorted_set (dict_keys (specs r))) = Inr final"
    and inv: "rounds_inv r final []"
    using replay_rounds_inv [OF a re] by blast
  then show ?thesis by (auto simp: replay_collation_graph_def rounds_inv_def)
qed

text \<open>C2. Replaying an accepted graph whose declared totals are not negative and whose nodes name leaves by ids of 1 to
  256 characters (\<open>replayable\<close>; on other graphs a node's collation request is refused and the replay raises) always
  resolves: every node gets exactly one report, in the order of the request, and each report is the replay of the node
  over what its children contribute in the same graph report, where a leaf contributes its totals, a child node its
  computed totals if it verified, and nothing otherwise.\<close>

theorem graph_replay_resolves:
  assumes "make_graph_request q = Inr r" "replayable r"
  shows "\<exists>p final. replay_collation_graph r = Inr p \<and> map node (node_reports p) = nodes r
    \<and> node_reports p = map (\<lambda>n. the (dict_get final (ns_node_id n))) (nodes r)
    \<and> dict_keys final = ns_node_id ` set (nodes r)
    \<and> list_all (\<lambda>np. replay np = replay_collation (final_request r final (node np))) (node_reports p)"
proof -
  have a: "make_graph_request r = Inr r" using assms(1) by (auto simp: graph_request_facts)
  obtain final where f: "replay_collation_graph r
      = Inr (graph_report_of r (map (\<lambda>n. the (dict_get final (ns_node_id n))) (nodes r)))"
    "\<forall>n \<in> set (nodes r). reported r final n" "dict_keys final = ns_node_id ` set (nodes r)"
    using replay_graph_final [OF a assms(2)] by blast
  have "node (the (dict_get final (ns_node_id n))) = n
      \<and> replay (the (dict_get final (ns_node_id n))) = replay_collation (final_request r final n)"
    if "n \<in> set (nodes r)" for n using f(2) that by (auto simp: reported_def)
  then show ?thesis using f(1,3)
    by (auto simp: graph_report_of_def Let_def list_all_iff intro!: map_idI exI [of _ final])
qed

section \<open>When a whole graph verifies\<close>

text \<open>The votes for candidate \<open>c\<close> below unit \<open>u\<close>: those of a leaf, or the sum over the
  children. The number bounds the depth; the number of nodes is always enough.\<close>

fun leaf_sum :: "graph_request \<Rightarrow> nat \<Rightarrow> string \<Rightarrow> string \<Rightarrow> int" where
  "leaf_sum r 0 u c = dict_default 0 (dict_default [] (leaf_totals r) u) c"
| "leaf_sum r (Suc k) u c = (case dict_get (leaf_totals r) u of
       Some t \<Rightarrow> dict_default 0 t c
     | None \<Rightarrow> (case dict_get (specs r) u of
         None \<Rightarrow> 0
       | Some n \<Rightarrow> (\<Sum>child \<leftarrow> expected_child_ids n. leaf_sum r k child c)))"

text \<open>Every child is a leaf or a node; every leaf is someone's child and names exactly the
  expected candidates; every declared total is the sum of the leaves below the node.\<close>

definition audited :: "graph_request \<Rightarrow> string list \<Rightarrow> bool" where
  "audited r es \<longleftrightarrow>
     (\<forall>n \<in> set (nodes r). set (expected_child_ids n) \<subseteq> dict_keys (leaf_totals r) \<union> ns_node_id ` set (nodes r))
     \<and> dict_keys (leaf_totals r) \<subseteq> referenced_children r
     \<and> (\<forall>l t. dict_get (leaf_totals r) l = Some t \<longrightarrow> dict_keys t = set es)
     \<and> (\<forall>n \<in> set (nodes r). \<forall>d. ns_declared_totals n = Some d \<longrightarrow> dict_keys d = set es
          \<and> (\<forall>c \<in> set es. dict_get d c = Some (leaf_sum r (length (nodes r)) (ns_node_id n) c)))"

definition node_verified :: "graph_node_report dict \<Rightarrow> string \<Rightarrow> bool" where
  "node_verified final k \<longleftrightarrow> collation_status (replay (the (dict_get final k))) = VERIFIED"

definition depth :: "graph_request \<Rightarrow> string \<Rightarrow> nat" where
  "depth r u = card {m. (u, m) \<in> (graph_edges (nodes r))\<^sup>+}"

lemma graph_edges_nodes: "graph_edges (nodes r) \<subseteq> (ns_node_id ` set (nodes r)) \<times> (ns_node_id ` set (nodes r))"
  by (auto simp: graph_edges_def)

lemma descendants: "{m. (u, m) \<in> (graph_edges (nodes r))\<^sup>+} \<subseteq> ns_node_id ` set (nodes r)"
  using trancl_subset_Sigma [OF graph_edges_nodes [of r]] by auto

lemma depth_less_child:
  assumes "acyclic (graph_edges (nodes r))" "(u, c) \<in> graph_edges (nodes r)"
  shows "depth r c < depth r u"
  unfolding depth_def
proof (rule psubset_card_mono)
  show "finite {m. (u, m) \<in> (graph_edges (nodes r))\<^sup>+}"
    using descendants by (rule finite_subset) simp
  have "(c, c) \<notin> (graph_edges (nodes r))\<^sup>+" using assms(1) by (simp add: acyclic_def)
  moreover have "(u, c) \<in> (graph_edges (nodes r))\<^sup>+" using assms(2) by blast
  ultimately show "{m. (c, m) \<in> (graph_edges (nodes r))\<^sup>+} \<subset> {m. (u, m) \<in> (graph_edges (nodes r))\<^sup>+}"
    using assms(2) by (auto intro: trancl_into_trancl2)
qed

lemma depth_less_nodes:
  assumes "acyclic (graph_edges (nodes r))" "n \<in> set (nodes r)"
  shows "depth r (ns_node_id n) < length (nodes r)"
proof -
  have "(ns_node_id n, ns_node_id n) \<notin> (graph_edges (nodes r))\<^sup>+"
    using assms(1) by (simp add: acyclic_def)
  then have "{m. (ns_node_id n, m) \<in> (graph_edges (nodes r))\<^sup>+} \<subset> ns_node_id ` set (nodes r)"
    using descendants [of "ns_node_id n" r] assms(2) by blast
  then have "depth r (ns_node_id n) < card (ns_node_id ` set (nodes r))"
    unfolding depth_def by (intro psubset_card_mono) auto
  also have "\<dots> \<le> length (nodes r)" by (metis card_image_le card_length finite_set le_trans)
  finally show ?thesis .
qed

text \<open>The status of one node, once its children have reported.\<close>

lemma node_status:
  assumes a: "make_graph_request r = Inr r" and n: "n \<in> set (nodes r)" and re: "reported r final n"
    and keys: "dict_keys final = ns_node_id ` set (nodes r)"
  defines "ct \<equiv> child_totals r final"
  shows "node_verified final (ns_node_id n) \<longleftrightarrow>
    (\<exists>es. gr_expected_candidate_ids r = Some es
      \<and> (\<forall>c \<in> set (expected_child_ids n). \<exists>t. ct c = Some t \<and> dict_keys t = set es)
      \<and> (\<forall>d. ns_declared_totals n = Some d \<longrightarrow> dict_keys d = set es \<and> (\<forall>c \<in> set es. dict_get d c =
            Some (\<Sum>u \<leftarrow> expected_child_ids n. dict_default 0 (the (ct u)) c))))" (is ?status)
    and "node_verified final (ns_node_id n) \<Longrightarrow>
      dict_default 0 (computed_totals (replay (the (dict_get final (ns_node_id n))))) c =
        (\<Sum>u \<leftarrow> expected_child_ids n. dict_default 0 (the (ct u)) c)"
    and "node_verified final (ns_node_id n) \<Longrightarrow> gr_expected_candidate_ids r = Some es \<Longrightarrow>
      dict_keys (computed_totals (replay (the (dict_get final (ns_node_id n))))) = set es"
proof -
  let ?q = "final_request r final n"
  let ?cs = "expected_child_ids n"
  have q: "make_collation_request ?q = Inr ?q"
    and rep: "replay (the (dict_get final (ns_node_id n))) = replay_collation ?q"
    using re by (auto simp: reported_def)
  have ne: "?cs \<noteq> []" using accepted_facts(7) [OF a n] by (simp add: make_collation_node_Inr)
  have fields: "cr_expected_candidate_ids ?q = gr_expected_candidate_ids r"
    "cr_declared_totals ?q = ns_declared_totals n" "cr_expected_unit_ids ?q = ?cs"
    "inputs ?q = child_inputs r final ?cs"
    by (simp_all add: final_request_def node_request_def)
  have units: "unit_id ` set (child_inputs r final ?cs) = {c \<in> set ?cs. ct c \<noteq> None}"
    using child_inputs_units [of r final ?cs] by (metis ct_def list.set_map set_filter)
  have full: "fully_reported ?q es \<longleftrightarrow> (\<forall>c \<in> set ?cs. \<exists>t. ct c = Some t \<and> dict_keys t = set es)" for es
    unfolding fully_reported_def fields units
    by (auto simp: child_inputs_def ct_def) force+
  have all: "child_inputs r final ?cs = map (\<lambda>c. \<lparr>unit_id = c, candidate_totals = the (ct c)\<rparr>) ?cs"
    if "\<forall>c \<in> set ?cs. ct c \<noteq> None" using that by (simp add: child_inputs_def ct_def)
  have sum: "(\<Sum>i \<leftarrow> inputs ?q. dict_default 0 (candidate_totals i) c) =
      (\<Sum>u \<leftarrow> ?cs. dict_default 0 (the (ct u)) c)" if "fully_reported ?q es" for es c
  proof -
    have "\<forall>c \<in> set ?cs. ct c \<noteq> None" using that by (auto simp: full)
    from all [OF this] show ?thesis by (simp add: fields o_def)
  qed
  have "node_verified final (ns_node_id n) \<longleftrightarrow> collation_status (replay_collation ?q) = VERIFIED"
    by (simp add: node_verified_def rep)
  note status = this [unfolded collation_status_verified [OF q] declared_agrees_def fields(1,2)]
  have eq: "fully_reported ?q es \<and> (\<forall>d. ns_declared_totals n = Some d \<longrightarrow> dict_keys d = set es \<and> (\<forall>c \<in> set es.
        dict_get d c = Some (\<Sum>i \<leftarrow> inputs ?q. dict_default 0 (candidate_totals i) c))) \<longleftrightarrow>
      fully_reported ?q es \<and> (\<forall>d. ns_declared_totals n = Some d \<longrightarrow> dict_keys d = set es \<and> (\<forall>c \<in> set es.
        dict_get d c = Some (\<Sum>u \<leftarrow> ?cs. dict_default 0 (the (ct u)) c)))" for es
    by (rule conj_cong [OF refl]) (simp add: sum [of es])
  show ?status unfolding status unfolding eq unfolding full ..
  assume v: "node_verified final (ns_node_id n)"
  then obtain es' where es': "gr_expected_candidate_ids r = Some es'" "fully_reported ?q es'"
    using status by blast
  have tot: "computed_totals (replay_collation ?q) = dict_sorted (computed ?q)"
    by (simp add: replay_collation_def Let_def case_prod_unfold)
  have cnt: "counted_inputs ?q = inputs ?q"
    using es'(2) by (intro counted_all) (simp add: fully_reported_def)
  show "dict_default 0 (computed_totals (replay (the (dict_get final (ns_node_id n))))) c =
      (\<Sum>u \<leftarrow> ?cs. dict_default 0 (the (ct u)) c)"
    using computed_default [OF q, of c] sum [OF es'(2)]
    by (simp add: rep tot dict_default_def dict_get_sorted counted_total_def cnt)
  assume "gr_expected_candidate_ids r = Some es"
  then have e: "es = es'" using es' by simp
  have "distinct (map unit_id (inputs ?q))" using q by (simp add: make_collation_request_Inr)
  moreover have "inputs ?q \<noteq> []" using es'(2) ne by (auto simp: fully_reported_def fields)
  ultimately show "dict_keys (computed_totals (replay (the (dict_get final (ns_node_id n))))) = set es"
    using es'(2) by (auto simp: rep tot computed_keys cnt e fully_reported_def)
qed

text \<open>A node whose totals are the leaf sums, with any depth bound that is enough.\<close>

definition good_node :: "graph_request \<Rightarrow> graph_node_report dict \<Rightarrow> string \<Rightarrow> bool" where
  "good_node r final u \<longleftrightarrow> node_verified final u
     \<and> (\<forall>k c. depth r u < k \<longrightarrow>
          dict_default 0 (computed_totals (replay (the (dict_get final u)))) c = leaf_sum r k u c)"

lemma child_sums:
  assumes a: "make_graph_request r = Inr r" and n: "n \<in> set (nodes r)"
    and keys: "dict_keys final = ns_node_id ` set (nodes r)"
    and good: "\<forall>u \<in> node_children r n. good_node r final u"
    and u: "u \<in> set (expected_child_ids n)" "u \<in> dict_keys (leaf_totals r) \<union> ns_node_id ` set (nodes r)"
    and k: "depth r (ns_node_id n) \<le> k"
  shows "\<exists>t. child_totals r final u = Some t \<and> dict_default 0 t c = leaf_sum r k u c
    \<and> (dict_get (leaf_totals r) u = Some t \<or> u \<in> node_children r n
        \<and> t = computed_totals (replay (the (dict_get final u))))"
proof (cases "dict_get (leaf_totals r) u")
  case (Some t)
  then show ?thesis by (cases k) (auto simp: child_totals_def dict_default_def)
next
  case None
  with u have un: "u \<in> node_children r n" by (auto simp: node_children_def dict_keys_dom)
  then have g: "good_node r final u" using good by blast
  obtain p where p: "dict_get final u = Some p"
    using un keys by (auto simp: node_children_def dict_keys_dom)
  have "(ns_node_id n, u) \<in> graph_edges (nodes r)"
    using un n by (auto simp: node_children_def graph_edges_def)
  then have "depth r u < k" using depth_less_child [OF accepted_facts(2) [OF a]] k by fastforce
  with g have "dict_default 0 (computed_totals (replay p)) c = leaf_sum r k u c"
    by (simp add: good_node_def p)
  with g None p un show ?thesis by (simp add: child_totals_def good_node_def node_verified_def)
qed

lemma good_node_intro:
  assumes a: "make_graph_request r = Inr r" and n: "n \<in> set (nodes r)" and re: "reported r final n"
    and keys: "dict_keys final = ns_node_id ` set (nodes r)"
    and good: "\<forall>u \<in> node_children r n. good_node r final u"
    and cover: "set (expected_child_ids n) \<subseteq> dict_keys (leaf_totals r) \<union> ns_node_id ` set (nodes r)"
    and v: "node_verified final (ns_node_id n)"
  shows "good_node r final (ns_node_id n)"
  unfolding good_node_def
proof (intro conjI allI impI v)
  fix k c assume "depth r (ns_node_id n) < k"
  then obtain k' where k: "k = Suc k'" "depth r (ns_node_id n) \<le> k'" by (cases k) auto
  note acc = accepted_facts [OF a]
  have "ns_node_id n \<notin> dict_keys (leaf_totals r)" using acc(3) n by auto
  then have "dict_get (leaf_totals r) (ns_node_id n) = None" by (simp add: dict_get_None)
  then have "leaf_sum r k (ns_node_id n) c = (\<Sum>u \<leftarrow> expected_child_ids n. leaf_sum r k' u c)"
    by (simp add: k specs_get [OF acc(1) n])
  also have "\<dots> = (\<Sum>u \<leftarrow> expected_child_ids n. dict_default 0 (the (child_totals r final u)) c)"
    using child_sums [OF a n keys good _ _ k(2), of _ c] cover
    by (intro arg_cong [where f = sum_list] map_cong refl) (metis option.sel subsetD)
  finally show "dict_default 0 (computed_totals (replay (the (dict_get final (ns_node_id n))))) c
      = leaf_sum r k (ns_node_id n) c"
    using node_status(2) [OF a n re keys v] by simp
qed

text \<open>Induction over the graph, children first.\<close>

lemma graph_induct:
  assumes "acyclic (graph_edges (nodes r))"
    and "\<And>n. n \<in> set (nodes r) \<Longrightarrow> \<forall>u \<in> node_children r n. P u \<Longrightarrow> P (ns_node_id n)"
  shows "n \<in> set (nodes r) \<Longrightarrow> P (ns_node_id n)"
proof (induction "depth r (ns_node_id n)" arbitrary: n rule: less_induct)
  case less
  have "P u" if u: "u \<in> node_children r n" for u
  proof -
    obtain m where m: "m \<in> set (nodes r)" "u = ns_node_id m" using u by (auto simp: node_children_def)
    have "(ns_node_id n, u) \<in> graph_edges (nodes r)"
      using u less.prems by (auto simp: node_children_def graph_edges_def)
    then show ?thesis using less.hyps [OF _ m(1)] depth_less_child [OF assms(1)] m(2) by auto
  qed
  then show ?case using assms(2) [OF less.prems] by blast
qed

lemma declared_sums:
  assumes a: "make_graph_request r = Inr r" and n: "n \<in> set (nodes r)"
    and keys: "dict_keys final = ns_node_id ` set (nodes r)"
    and good: "\<forall>u \<in> node_children r n. good_node r final u"
    and cover: "set (expected_child_ids n) \<subseteq> dict_keys (leaf_totals r) \<union> ns_node_id ` set (nodes r)"
  shows "(\<Sum>u \<leftarrow> expected_child_ids n. dict_default 0 (the (child_totals r final u)) c)
    = leaf_sum r (length (nodes r)) (ns_node_id n) c"
proof -
  note acc = accepted_facts [OF a]
  have "depth r (ns_node_id n) < length (nodes r)" using depth_less_nodes [OF acc(2) n] .
  then obtain k where k: "length (nodes r) = Suc k" "depth r (ns_node_id n) \<le> k"
    by (cases "length (nodes r)") auto
  have "dict_get (leaf_totals r) (ns_node_id n) = None" using acc(3) n by (auto simp: dict_get_None)
  then have "leaf_sum r (length (nodes r)) (ns_node_id n) c = (\<Sum>u \<leftarrow> expected_child_ids n. leaf_sum r k u c)"
    by (simp add: k specs_get [OF acc(1) n])
  also have "\<dots> = (\<Sum>u \<leftarrow> expected_child_ids n. dict_default 0 (the (child_totals r final u)) c)"
    using child_sums [OF a n keys good _ _ k(2), of _ c] cover
    by (intro arg_cong [where f = sum_list] map_cong refl) (metis option.sel subsetD)
  finally show ?thesis by simp
qed

lemma audited_verified:
  assumes a: "make_graph_request r = Inr r" and re: "\<forall>n \<in> set (nodes r). reported r final n"
    and keys: "dict_keys final = ns_node_id ` set (nodes r)"
    and es: "gr_expected_candidate_ids r = Some es" and aud: "audited r es" and n: "n \<in> set (nodes r)"
  shows "good_node r final (ns_node_id n)"
proof (rule graph_induct [OF accepted_facts(2) [OF a] _ n])
  fix n assume n: "n \<in> set (nodes r)" and good: "\<forall>u \<in> node_children r n. good_node r final u"
  have cover: "set (expected_child_ids n) \<subseteq> dict_keys (leaf_totals r) \<union> ns_node_id ` set (nodes r)"
    using aud n by (simp add: audited_def)
  have "\<exists>t. child_totals r final u = Some t \<and> dict_keys t = set es" if u: "u \<in> set (expected_child_ids n)" for u
  proof -
    obtain t where t: "child_totals r final u = Some t"
      "dict_get (leaf_totals r) u = Some t \<or> u \<in> node_children r n
        \<and> t = computed_totals (replay (the (dict_get final u)))"
      using child_sums [OF a n keys good u _ order.refl] cover u by blast
    have "dict_keys t = set es" if un: "u \<in> node_children r n"
      and tu: "t = computed_totals (replay (the (dict_get final u)))"
    proof -
      obtain m where m: "m \<in> set (nodes r)" "u = ns_node_id m" using un by (auto simp: node_children_def)
      have "node_verified final u" using good un by (simp add: good_node_def)
      then show ?thesis using node_status(3) [OF a m(1) _ keys _ es] re m tu by blast
    qed
    with t aud show ?thesis by (auto simp: audited_def)
  qed
  then have "node_verified final (ns_node_id n)"
    unfolding node_status(1) [OF a n re [rule_format, OF n] keys] declared_sums [OF a n keys good cover]
    using es aud n by (auto simp: audited_def)
  then show "good_node r final (ns_node_id n)"
    using good_node_intro [OF a n re [rule_format, OF n] keys good cover] by blast
qed

lemma verified_audited:
  assumes a: "make_graph_request r = Inr r" and re: "\<forall>n \<in> set (nodes r). reported r final n"
    and keys: "dict_keys final = ns_node_id ` set (nodes r)"
    and v: "\<forall>n \<in> set (nodes r). node_verified final (ns_node_id n)"
    and leaves: "dict_keys (leaf_totals r) \<subseteq> referenced_children r"
  shows "\<exists>es. gr_expected_candidate_ids r = Some es \<and> audited r es"
proof -
  have status: "\<exists>es. gr_expected_candidate_ids r = Some es
      \<and> (\<forall>c \<in> set (expected_child_ids n). \<exists>t. child_totals r final c = Some t \<and> dict_keys t = set es)
      \<and> (\<forall>d. ns_declared_totals n = Some d \<longrightarrow> dict_keys d = set es \<and> (\<forall>c \<in> set es. dict_get d c =
            Some (\<Sum>u \<leftarrow> expected_child_ids n. dict_default 0 (the (child_totals r final u)) c)))"
    if "n \<in> set (nodes r)" for n
    using that v node_status(1) [OF a that re [rule_format, OF that] keys] by blast
  have "nodes r \<noteq> []" using a by (auto simp: graph_request_facts graph_fields_ok_def)
  then obtain es where es: "gr_expected_candidate_ids r = Some es" using status by (meson last_in_set)
  have cover: "set (expected_child_ids n) \<subseteq> dict_keys (leaf_totals r) \<union> ns_node_id ` set (nodes r)"
    if n: "n \<in> set (nodes r)" for n
  proof
    fix c assume "c \<in> set (expected_child_ids n)"
    then obtain t where "child_totals r final c = Some t" using status [OF n] by blast
    then show "c \<in> dict_keys (leaf_totals r) \<union> ns_node_id ` set (nodes r)"
      using keys by (auto simp: child_totals_def dict_keys_dom split: option.splits)
  qed
  have good: "good_node r final (ns_node_id n)" if n: "n \<in> set (nodes r)" for n
    by (rule graph_induct [OF accepted_facts(2) [OF a] _ n])
      (use good_node_intro [OF a _ _ keys] re cover v in blast)
  then have kids: "\<forall>u \<in> node_children r n. good_node r final u" for n
    by (auto simp: node_children_def)
  have "dict_keys t = set es" if l: "dict_get (leaf_totals r) l = Some t" for l t
  proof -
    obtain n where n: "n \<in> set (nodes r)" "l \<in> set (expected_child_ids n)"
      using leaves dict_get_Some_key [OF l] by (auto simp: referenced_children_def)
    with status [OF n(1)] es l show ?thesis by (auto simp: child_totals_def)
  qed
  moreover have "dict_keys d = set es \<and> (\<forall>c \<in> set es. dict_get d c =
      Some (leaf_sum r (length (nodes r)) (ns_node_id n) c))"
    if n: "n \<in> set (nodes r)" and d: "ns_declared_totals n = Some d" for n d
    using status [OF n] es d declared_sums [OF a n keys kids cover [OF n]] by auto
  ultimately have "audited r es" using cover leaves by (simp add: audited_def)
  with es show ?thesis by blast
qed

lemma graph_status_verified:
  "graph_status (graph_report_of r ps) = VERIFIED \<longleftrightarrow>
     dict_keys (leaf_totals r) \<subseteq> referenced_children r
     \<and> (\<forall>p \<in> set ps. collation_status (replay p) = VERIFIED)"
proof -
  have "finite (dict_keys (leaf_totals r) - referenced_children r)" by simp
  moreover have "s = VERIFIED \<longleftrightarrow> s \<noteq> FAILED \<and> s \<noteq> INCOMPLETE" for s by (cases s) auto
  ultimately show ?thesis by (auto simp: graph_report_of_def Let_def image_iff) metis+
qed

text \<open>C5. A graph whose replay gives a report (\<open>replayable\<close>, as above) replays as VERIFIED exactly when it is audited end to
  end: a candidate universe is given, every child of a node is a leaf or a node, every leaf is used and names exactly the
  universe, and every declared total at every level equals the sum of all leaves below that node.\<close>

theorem graph_verified_iff_audited:
  assumes "make_graph_request q = Inr r" "replayable r"
  shows "\<exists>p. replay_collation_graph r = Inr p
    \<and> (graph_status p = VERIFIED \<longleftrightarrow> (\<exists>es. gr_expected_candidate_ids r = Some es \<and> audited r es))
    \<and> graph_complete p = (graph_status p = VERIFIED)"
proof -
  have a: "make_graph_request r = Inr r" using assms(1) by (auto simp: graph_request_facts)
  obtain final where f: "replay_collation_graph r
      = Inr (graph_report_of r (map (\<lambda>n. the (dict_get final (ns_node_id n))) (nodes r)))"
    and re: "\<forall>n \<in> set (nodes r). reported r final n" and keys: "dict_keys final = ns_node_id ` set (nodes r)"
    using replay_graph_final [OF a assms(2)] by blast
  let ?p = "graph_report_of r (map (\<lambda>n. the (dict_get final (ns_node_id n))) (nodes r))"
  have "graph_status ?p = VERIFIED \<longleftrightarrow> dict_keys (leaf_totals r) \<subseteq> referenced_children r
      \<and> (\<forall>n \<in> set (nodes r). node_verified final (ns_node_id n))"
    by (simp add: graph_status_verified node_verified_def)
  moreover have "graph_complete ?p = (graph_status ?p = VERIFIED)"
    by (simp add: graph_report_of_def Let_def is_verified_def)
  moreover have "(dict_keys (leaf_totals r) \<subseteq> referenced_children r
      \<and> (\<forall>n \<in> set (nodes r). node_verified final (ns_node_id n))) \<longleftrightarrow>
      (\<exists>es. gr_expected_candidate_ids r = Some es \<and> audited r es)"
    using verified_audited [OF a re keys] audited_verified [OF a re keys]
    by (metis good_node_def audited_def)
  ultimately show ?thesis using f by simp
qed

section \<open>A concrete graph\<close>

definition demo_graph :: graph_request where
  "demo_graph = \<lparr>nodes = [
       \<lparr>ns_level = ''state'', ns_node_id = ''S'', expected_child_ids = [''W'', ''p3''],
         ns_declared_totals = Some [(''a'', 6)]\<rparr>,
       \<lparr>ns_level = ''ward'', ns_node_id = ''W'', expected_child_ids = [''p1'', ''p2''],
         ns_declared_totals = Some [(''a'', 3)]\<rparr>],
     gr_expected_candidate_ids = Some [''a''],
     leaf_totals = [(''p1'', [(''a'', 1)]), (''p2'', [(''a'', 2)]), (''p3'', [(''a'', 3)])]\<rparr>"

lemma demo_graph_edges: "graph_edges (nodes demo_graph) = {(''S'', ''W'')}"
proof -
  have "\<exists>n. ''S'' = ns_node_id n \<and> n \<in> set (nodes demo_graph) \<and> ''W'' \<in> set (expected_child_ids n)"
    by (intro exI [of _ "nodes demo_graph ! 0"]) (simp add: demo_graph_def)
  moreover have "ns_node_id ` set (nodes demo_graph) = {''S'', ''W''}" by (simp add: demo_graph_def)
  ultimately show ?thesis unfolding graph_edges_def by (auto simp: demo_graph_def)
qed

lemma demo_graph_ok: "make_graph_request demo_graph = Inr demo_graph"
proof -
  have "acyclic (graph_edges (nodes demo_graph))"
    unfolding demo_graph_edges by (auto simp: acyclic_def elim: tranclE)
  then show ?thesis unfolding graph_request_facts
    by (simp add: demo_graph_def graph_fields_ok_def make_collation_node_Inr len_between_def py_len_def
        dict_ok_def totals_negative_def dict_keys_def)
qed

lemma demo_graph_replayable: "replayable demo_graph"
  by (simp add: replayable_def demo_graph_def totals_negative_def dict_keys_def len_between_def py_len_def)

lemma graph_replay_resolves_witness:
  "\<exists>p. replay_collation_graph demo_graph = Inr p \<and> map node (node_reports p) = nodes demo_graph"
  using graph_replay_resolves [OF demo_graph_ok demo_graph_replayable] by blast

lemma graph_verified_iff_audited_witness:
  "\<exists>p. replay_collation_graph demo_graph = Inr p \<and> graph_status p = VERIFIED"
proof -
  have sp: "specs demo_graph = [(''S'', nodes demo_graph ! 0), (''W'', nodes demo_graph ! 1)]"
    by (simp add: specs_def dict_of_def demo_graph_def)
  have "audited demo_graph [''a'']"
    unfolding audited_def
    by (auto simp: demo_graph_def referenced_children_def dict_keys_def numeral_2_eq_2
        sp [unfolded demo_graph_def] dict_default_def split: if_splits)
  then have "\<exists>es. gr_expected_candidate_ids demo_graph = Some es \<and> audited demo_graph es"
    by (auto simp: demo_graph_def)
  then show ?thesis using graph_verified_iff_audited [OF demo_graph_ok demo_graph_replayable] by blast
qed

end
