(* ===== verification/Postgres_Time.thy ===== *)
theory Postgres_Time
  imports Datetime
begin

text \<open>
  TIMESTAMPTZ columns as the PostgreSQL stores use them (src/ballotproof/postgres_source_control.py and the driver,
  postgres_db.py): a column holds an instant, kept here as the UTC datetime of that instant; reading it gives the
  datetime in the time zone of the session, and a naive parameter is taken as local time of the session. Columns are
  compared as instants. The datetime that psycopg reads carries the zone itself (a ZoneInfo), so Python's
  \<open>+ timedelta\<close> on it moves the wall clock and looks the offset up again: that is \<open>zoned_add\<close>, where the other
  datetimes of the program, in UTC or read from text with a fixed offset, use \<open>add_us\<close>.
\<close>

section \<open>The session time zone\<close>

text \<open>\<open>zone_offset\<close> is the offset in seconds in force at an instant, \<open>local_instant\<close> the instant that the server takes a
  naive wall-clock time to mean, \<open>wall_offset\<close> the offset that ZoneInfo gives a wall-clock time with fold 0 (of a repeated
  time the first). All three are time zone data of the server and of Python.\<close>

record pg_session =
  zone_offset :: "int \<Rightarrow> int"
  local_instant :: "int \<Rightarrow> int"
  wall_offset :: "int \<Rightarrow> int"

definition utc_of :: "int \<Rightarrow> datetime" where
  "utc_of i = \<lparr>wall = i, utcoffset = Some 0\<rparr>"

definition to_column :: "pg_session \<Rightarrow> datetime \<Rightarrow> datetime" where
  "to_column ses t = utc_of (case utcoffset t of None \<Rightarrow> local_instant ses (wall t) | Some _ \<Rightarrow> instant t)"

definition from_column :: "pg_session \<Rightarrow> datetime \<Rightarrow> datetime" where
  "from_column ses c = (let i = instant c; s = zone_offset ses i in \<lparr>wall = i + s * us_per_second, utcoffset = Some s\<rparr>)"

text \<open>\<open>t + timedelta(microseconds=us)\<close> of a datetime that was read in the session: the result has fold 0.\<close>

definition zoned_add :: "pg_session \<Rightarrow> datetime \<Rightarrow> int \<Rightarrow> datetime" where
  "zoned_add ses t us = (let w = wall t + us in \<lparr>wall = w, utcoffset = Some (wall_offset ses w)\<rparr>)"

text \<open>The clock of the zone is not changed from the time of the column on, for \<open>us\<close> microseconds of wall clock.\<close>

definition keeps_offset :: "pg_session \<Rightarrow> datetime \<Rightarrow> int \<Rightarrow> bool" where
  "keeps_offset ses c us \<longleftrightarrow> (\<forall>w. wall (from_column ses c) \<le> w \<and> w \<le> wall (from_column ses c) + us \<longrightarrow>
     wall_offset ses w = zone_offset ses (instant c))"

text \<open>A session whose time zone is UTC.\<close>

definition utc_session :: pg_session where
  "utc_session = \<lparr>zone_offset = (\<lambda>_. 0), local_instant = (\<lambda>w. w), wall_offset = (\<lambda>_. 0)\<rparr>"

section \<open>Columns and datetimes\<close>

lemma instant_utc_of [simp]: "instant (utc_of i) = i"
  by (simp add: utc_of_def instant_def)

lemma is_utc_utc_of [simp]: "is_utc (utc_of i)"
  by (simp add: utc_of_def is_utc_def)

lemma utc_of_instant: "is_utc t \<Longrightarrow> utc_of (instant t) = t"
  by (simp add: utc_of_def is_utc_def instant_def)

lemma to_column_aware [simp]: "utcoffset t \<noteq> None \<Longrightarrow> to_column ses t = utc_of (instant t)"
  by (auto simp: to_column_def)

lemma to_column_utc: "is_utc t \<Longrightarrow> to_column ses t = t"
  by (simp add: utc_of_instant is_utc_def)

lemma instant_from_column [simp]: "instant (from_column ses c) = instant c"
  by (simp add: from_column_def Let_def instant_def)

lemma aware_from_column [simp]: "utcoffset (from_column ses c) = Some (zone_offset ses (instant c))"
  by (simp add: from_column_def Let_def)

text \<open>Within an unchanged offset the arithmetic of the zone is that of a fixed offset.\<close>

lemma zoned_add_kept:
  "keeps_offset ses c us \<Longrightarrow> 0 \<le> us \<Longrightarrow> zoned_add ses (from_column ses c) us = add_us (from_column ses c) us"
  by (simp add: zoned_add_def keeps_offset_def Let_def add_us_def from_column_def)

lemma utcoffset_zoned_add [simp]: "utcoffset (zoned_add ses t us) = Some (wall_offset ses (wall t + us))"
  by (simp add: zoned_add_def Let_def)

lemma wall_zoned_add [simp]: "wall (zoned_add ses t us) = wall t + us"
  by (simp add: zoned_add_def Let_def)

lemma keeps_offset_utc: "keeps_offset utc_session c us"
  by (simp add: keeps_offset_def utc_session_def)

text \<open>Reading gives back the datetime that was written exactly when the session is in UTC at that instant.\<close>

lemma from_column_eq_iff: "is_utc c \<Longrightarrow> from_column ses c = c \<longleftrightarrow> zone_offset ses (instant c) = 0"
  by (cases c) (auto simp: from_column_def Let_def instant_def is_utc_def us_per_second_def)

text \<open>The order of UTC datetimes, their texts and their instants agree, so sorting by one is sorting by the other.\<close>

lemma sort_key_order_cong:
  assumes "\<And>x y. x \<in> set xs \<Longrightarrow> y \<in> set xs \<Longrightarrow> f x \<le> f y \<longleftrightarrow> g x \<le> g y"
  shows "sort_key f xs = sort_key g xs"
  using assms
proof (induction xs)
  case (Cons x xs)
  have ins: "insort_key f x ys = insort_key g x ys" if "set ys \<subseteq> set xs" for ys
    using that by (induction ys) (use Cons.prems in auto)
  have "sort_key f xs = sort_key g xs" using Cons by simp
  moreover have "insort_key f x (sort_key g xs) = insort_key g x (sort_key g xs)" by (rule ins) simp
  ultimately show ?case by simp
qed simp

end
