(* ===== verification/Postgres_Policy.thy ===== *)
theory Postgres_Policy
  imports Postgres_Time Source_Policy
begin

text \<open>
  The class PostgresSourcePolicyStore of src/ballotproof/postgres_source_control.py over the table of
  \<open>Source_Policy\<close>: the hash of a snapshot is made with the UTC clock of the process, while \<open>stored_at\<close> is a TIMESTAMPTZ
  column that is read back in the time zone of the session.
\<close>

section \<open>The store\<close>

definition pg_append_policy :: "host_library \<Rightarrow> (datetime \<Rightarrow> string) \<Rightarrow> (rat \<Rightarrow> string) \<Rightarrow> pg_session \<Rightarrow> source_policy
    \<Rightarrow> datetime \<Rightarrow> string \<Rightarrow> policy_store \<Rightarrow> (policy_store \<times> policy_snapshot) result" where
  "pg_append_policy lib dt fr ses p now fresh st =
     (let row = next_policy_row dt fr p now fresh st in
      bind_result (row_to_snapshot lib row) (\<lambda>snapshot.
      bind_result (insert_policy_row (row\<lparr>ps_stored_at := to_column ses now\<rparr>) st) (\<lambda>st'. return (st', snapshot))))"

definition loaded_policy :: "pg_session \<Rightarrow> policy_snapshot \<Rightarrow> policy_snapshot" where
  "loaded_policy ses row = row\<lparr>ps_stored_at := from_column ses (ps_stored_at row)\<rparr>"

definition pg_row_to_snapshot :: "host_library \<Rightarrow> pg_session \<Rightarrow> policy_snapshot \<Rightarrow> policy_snapshot result" where
  "pg_row_to_snapshot lib ses row = row_to_snapshot lib (loaded_policy ses row)"

definition pg_policy_history :: "host_library \<Rightarrow> pg_session \<Rightarrow> policy_store \<Rightarrow> string \<Rightarrow> policy_snapshot list result" where
  "pg_policy_history lib ses st src = map_result (pg_row_to_snapshot lib ses) (policy_rows st src)"

definition pg_latest_policy :: "host_library \<Rightarrow> pg_session \<Rightarrow> policy_store \<Rightarrow> string \<Rightarrow> policy_snapshot result" where
  "pg_latest_policy lib ses st src =
     (if policy_rows st src = [] then raise (KeyError ''Unknown source_id: '')
      else pg_row_to_snapshot lib ses (last (policy_rows st src)))"

definition pg_get_policy :: "host_library \<Rightarrow> pg_session \<Rightarrow> policy_store \<Rightarrow> string \<Rightarrow> int \<Rightarrow> policy_snapshot result" where
  "pg_get_policy lib ses st src v = (case find (\<lambda>s. ps_source_id s = src \<and> ps_version s = v) st of
       None \<Rightarrow> raise (KeyError ''Unknown source policy snapshot: '')
     | Some row \<Rightarrow> pg_row_to_snapshot lib ses row)"

text \<open>The loop hashes the snapshots as they were read.\<close>

definition pg_verify_policy_chain :: "host_library \<Rightarrow> (datetime \<Rightarrow> string) \<Rightarrow> (rat \<Rightarrow> string) \<Rightarrow> pg_session
    \<Rightarrow> policy_store \<Rightarrow> string \<Rightarrow> policy_verification result" where
  "pg_verify_policy_chain lib dt fr ses st src =
     bind_result (pg_policy_history lib ses st src) (\<lambda>rows. return
       (case policy_failure dt fr None rows of
          Some s \<Rightarrow> \<lparr>pv_source_id = src, pv_valid = False, pv_snapshots_checked = ps_version s,
            pv_failure_version = Some (ps_version s)\<rparr>
        | None \<Rightarrow> \<lparr>pv_source_id = src, pv_valid = True, pv_snapshots_checked = int (length rows),
            pv_failure_version = None\<rparr>))"

section \<open>Appending writes the rows of the file store\<close>

lemma pg_append_policy_utc:
  assumes "is_utc now"
  shows "pg_append_policy lib dt fr ses p now fresh st = append_policy lib dt fr p now fresh st"
proof -
  have "(next_policy_row dt fr p now fresh st)\<lparr>ps_stored_at := to_column ses now\<rparr> = next_policy_row dt fr p now fresh st"
    using assms by (simp add: to_column_utc next_policy_row_def Let_def)
  then show ?thesis by (simp add: pg_append_policy_def append_policy_def)
qed

text \<open>The stores of validated policies; validating a policy again must not change it.\<close>

inductive pg_policies :: "host_library \<Rightarrow> (datetime \<Rightarrow> string) \<Rightarrow> (rat \<Rightarrow> string) \<Rightarrow> policy_store \<Rightarrow> bool"
  for lib dt fr where
  init: "pg_policies lib dt fr empty_policy_store"
| append: "pg_policies lib dt fr st \<Longrightarrow> pg_append_policy lib dt fr ses p now fresh st = Inr (st', snapshot) \<Longrightarrow>
    make_source_policy lib p = Inr p \<Longrightarrow> policy_values_ok p \<Longrightarrow> datetime_ok now \<Longrightarrow> is_utc now \<Longrightarrow>
    pg_policies lib dt fr st'"

lemma pg_policies_reachable: "pg_policies lib dt fr st \<Longrightarrow> policy_reachable lib dt fr st"
proof (induction rule: pg_policies.induct)
  case (append st ses p now fresh st' snapshot)
  then show ?case using policy_reachable.append by (metis pg_append_policy_utc)
qed (rule policy_reachable.init)

definition pg_policy_row :: "host_library \<Rightarrow> policy_snapshot \<Rightarrow> bool" where
  "pg_policy_row lib row \<longleftrightarrow> row_to_snapshot lib row = Inr row \<and> is_utc (ps_stored_at row)"

lemma pg_policies_rows: "pg_policies lib dt fr st \<Longrightarrow> list_all (pg_policy_row lib) st"
proof (induction rule: pg_policies.induct)
  case (append st ses p now fresh st' snapshot)
  let ?row = "next_policy_row dt fr p now fresh st"
  have app: "append_policy lib dt fr p now fresh st = Inr (st', snapshot)"
    using append.hyps(2,6) by (simp add: pg_append_policy_utc)
  note a = append_policy_Inr [OF app]
  have "row_to_snapshot lib ?row = Inr ?row"
    using a(2) append.hyps(3) by (auto simp: row_to_snapshot_def split: if_splits)
  then show ?case using append.IH append.hyps(6) a(1) by (simp add: pg_policy_row_def)
qed (simp add: empty_policy_store_def)

section \<open>The chain verifies exactly in UTC\<close>

lemma pg_row_loaded:
  assumes "pg_policy_row lib row"
  shows "pg_row_to_snapshot lib ses row = Inr (loaded_policy ses row)"
  using assms by (cases row) (auto simp: pg_policy_row_def pg_row_to_snapshot_def loaded_policy_def row_to_snapshot_def split: if_splits)

lemma loaded_policy_simps [simp]:
  "ps_hash (loaded_policy ses row) = ps_hash row" "ps_previous_hash (loaded_policy ses row) = ps_previous_hash row"
  "ps_version (loaded_policy ses row) = ps_version row" "ps_policy (loaded_policy ses row) = ps_policy row"
  by (simp_all add: loaded_policy_def)

lemma loaded_policy_same: "is_utc (ps_stored_at row) \<Longrightarrow>
    loaded_policy ses row = row \<longleftrightarrow> zone_offset ses (instant (ps_stored_at row)) = 0"
  using from_column_eq_iff [of "ps_stored_at row" ses] by (cases row) (simp add: loaded_policy_def)

lemma policy_failure_loaded:
  assumes "policy_failure dt fr p xs = None"
  shows "policy_failure dt fr p (map (loaded_policy ses) xs) = None \<longleftrightarrow>
    (\<forall>x \<in> set xs. hash_record (policy_body dt fr (loaded_policy ses x)) = ps_hash x)"
  using assms by (induction xs arbitrary: p) (auto simp: Let_def split: if_splits)

lemma policy_failure_hashes:
  "policy_failure dt fr p xs = None \<Longrightarrow> x \<in> set xs \<Longrightarrow> ps_hash x = hash_record (policy_body dt fr x)"
  by (induction xs arbitrary: p) (auto simp: Let_def split: if_splits)

text \<open>C27. For policies that a second validation leaves unchanged, appended with a UTC clock, the policy chain of the PostgreSQL store verifies exactly when every
  snapshot of the source was stored at a time at which the session is in UTC, for the hash covers the text of
  \<open>stored_at\<close> in UTC and the verification recomputes it in the time zone of the session (up to SHA-256 collisions).
  Reading never fails, and nothing else makes the verification fail. A policy that validation changes when it is read
  back, for example one with the host \<open>a.\<close>, fails in UTC too.\<close>

theorem pg_policy_chain_valid_iff_utc:
  assumes "time_dump_ok dt" "float_dump_ok fr" "pg_policies lib dt fr st"
    "list_all (\<lambda>row. datetime_ok (from_column ses (ps_stored_at row)) \<and> offset_ok (from_column ses (ps_stored_at row))) st"
    "collision_free (canonical_json_bytes ` policy_body dt fr ` (set st \<union> loaded_policy ses ` set st))"
  shows "\<exists>v. pg_verify_policy_chain lib dt fr ses st src = Inr v
    \<and> (pv_valid v \<longleftrightarrow> list_all (\<lambda>row. zone_offset ses (instant (ps_stored_at row)) = 0) (policy_rows st src))"
proof -
  let ?h = "policy_rows st src"
  note sound = policy_log.sound_history [OF policy_reachable_sound [OF assms(1,2) pg_policies_reachable [OF assms(3)]], of src]
  have sub: "x \<in> set st" if "x \<in> set ?h" for x using that by (simp add: policy_rows_def)
  have rows: "pg_policy_row lib x" if "x \<in> set ?h" for x
    using pg_policies_rows [OF assms(3)] sub [OF that] by (simp add: list_all_iff)
  have hist: "pg_policy_history lib ses st src = Inr (map (loaded_policy ses) ?h)"
    unfolding pg_policy_history_def map_result_Inr using rows pg_row_loaded
    by (simp add: list.rel_map list_all2_same)
  have same: "hash_record (policy_body dt fr (loaded_policy ses x)) = ps_hash x \<longleftrightarrow>
      zone_offset ses (instant (ps_stored_at x)) = 0" if x: "x \<in> set ?h" for x
  proof
    assume h: "hash_record (policy_body dt fr (loaded_policy ses x)) = ps_hash x"
    have ok: "policy_row_ok dt fr x" using sound(2) x by (simp add: list_all_iff)
    then have ok': "policy_row_ok dt fr (loaded_policy ses x)"
      using assms(4) sub [OF x] by (simp add: policy_row_ok_def list_all_iff loaded_policy_def)
    have "json_eq (policy_body dt fr (loaded_policy ses x)) (policy_body dt fr x)"
      using h policy_failure_hashes [OF sound(1) x] sub [OF x]
      by (subst hash_record_eq [OF policy_chain.body_ok [OF ok'] policy_chain.body_ok [OF ok] _ _ assms(5), symmetric]) auto
    then have "loaded_policy ses x = x" by (rule policy_body_inj [OF ok' ok]) simp
    then show "zone_offset ses (instant (ps_stored_at x)) = 0"
      using rows [OF x] by (simp add: loaded_policy_same pg_policy_row_def)
  next
    assume "zone_offset ses (instant (ps_stored_at x)) = 0"
    then show "hash_record (policy_body dt fr (loaded_policy ses x)) = ps_hash x"
      using rows [OF x] policy_failure_hashes [OF sound(1) x] loaded_policy_same [of x ses] by (simp add: pg_policy_row_def)
  qed
  have "policy_failure dt fr None (map (loaded_policy ses) ?h) = None \<longleftrightarrow>
      list_all (\<lambda>row. zone_offset ses (instant (ps_stored_at row)) = 0) ?h"
    using policy_failure_loaded [OF sound(1)] same by (simp add: list_all_iff)
  then show ?thesis by (auto simp: pg_verify_policy_chain_def hist split: option.split)
qed

definition stable_policy :: source_policy where
  "stable_policy = demo_policy\<lparr>allowed_hosts := [''a.org'']\<rparr>"

lemma stable_policy_ok: "make_source_policy demo_lib stable_policy = Inr stable_policy"
  using demo_policy_ok by (simp add: make_source_policy_def policy_fields_ok_def stable_policy_def demo_policy_def
      demo_lib_def len_between_def py_len_def validate_policy_def normalized_hosts_def normalize_policy_host_def
      rstrip_char_def hosts_with_base_def dict_of_def)

lemma stable_policy_values: "policy_values_ok stable_policy"
  using demo_policy_values by (simp add: policy_values_ok_def stable_policy_def)

definition stable_row :: policy_snapshot where
  "stable_row = next_policy_row isoformat demo_repr stable_policy demo_time ''0'' empty_policy_store"

lemma stable_policies: "pg_policies demo_lib isoformat demo_repr [stable_row]"
proof -
  have rows: "policy_rows empty_policy_store src = []" for src
    by (simp add: policy_rows_def empty_policy_store_def)
  have "row_to_snapshot demo_lib stable_row = Inr stable_row"
    by (simp add: row_to_snapshot_def stable_row_def rows stable_policy_ok)
  moreover have "insert_policy_row stable_row empty_policy_store = Inr [stable_row]"
    by (simp add: insert_policy_row_def empty_policy_store_def)
  ultimately have "pg_append_policy demo_lib isoformat demo_repr utc_session stable_policy demo_time ''0'' empty_policy_store
      = Inr ([stable_row], stable_row)"
    using demo_time_ok by (simp add: pg_append_policy_utc append_policy_def Let_def stable_row_def)
  then show ?thesis
    by (rule pg_policies.append [OF pg_policies.init _ stable_policy_ok stable_policy_values demo_time_ok])
qed

lemma pg_policy_chain_valid_iff_utc_witness:
  "\<exists>v. pg_verify_policy_chain demo_lib isoformat demo_repr utc_session [stable_row] ''src'' = Inr v \<and> pv_valid v"
proof -
  have utc: "is_utc (ps_stored_at stable_row)" "datetime_ok (ps_stored_at stable_row)"
    using demo_time_ok by (simp_all add: stable_row_def)
  have l: "from_column utc_session (ps_stored_at stable_row) = ps_stored_at stable_row"
    using utc(1) by (simp add: from_column_eq_iff utc_session_def)
  then have "loaded_policy utc_session stable_row = stable_row" by (simp add: loaded_policy_def)
  then show ?thesis
    using pg_policy_chain_valid_iff_utc [OF isoformat_dump_ok demo_repr_ok stable_policies, of utc_session "''src''"] utc l
    by (simp add: collision_free_def offset_ok_def is_utc_def list_all_iff utc_session_def)
qed

end
