(* ===== verification/Enrolled_Approval.thy ===== *)
theory Enrolled_Approval
  imports Postgres_Policy Acquisition_Demo Authentication
begin

text \<open>
  src/ballotproof/source_approval_auth.py and the class PostgresEnrolledSourceApprovalStore of
  src/ballotproof/postgres_source_control.py: approval stores in which the trust in a signer is looked up in the auth
  store at every append and every authorization.
\<close>

section \<open>The file store\<close>

definition enrolled_append :: "release_library \<Rightarrow> host_library \<Rightarrow> (datetime \<Rightarrow> string) \<Rightarrow> auth_store \<Rightarrow> policy_store
    \<Rightarrow> signed_approval \<Rightarrow> datetime \<Rightarrow> approval_store \<Rightarrow> (approval_store \<times> signed_approval) result" where
  "enrolled_append lib hosts dt auth policies e now st =
     (if \<not> approver_key_is_active (se_signer_sha256 e) (ap_approver_id (se_payload e)) auth
      then raise (PermissionError ''source approval signer is not an active enrolled key for approver_id'')
      else append_approval lib hosts dt None policies e now st)"

definition enrolled_authorization :: "release_library \<Rightarrow> host_library \<Rightarrow> (datetime \<Rightarrow> string) \<Rightarrow> auth_store
    \<Rightarrow> policy_store \<Rightarrow> approval_store \<Rightarrow> policy_snapshot \<Rightarrow> approval_authorization" where
  "enrolled_authorization lib hosts dt auth policies st s =
     (let status = authorization lib hosts dt None policies st s in
      if \<not> aa_authorized status then status
      else (case latest_approval st s of
          None \<Rightarrow> status\<lparr>aa_authorized := False\<rparr>
        | Some e \<Rightarrow> if \<not> approver_key_is_active (se_signer_sha256 e) (ap_approver_id (se_payload e)) auth
            then status\<lparr>aa_authorized := False\<rparr> else status))"

section \<open>The PostgreSQL store\<close>

text \<open>The time of storing is read in UTC, so its TIMESTAMPTZ column holds it as it is. \<open>None\<close> is a store without an
  auth store.\<close>

definition pg_bound_snapshot :: "host_library \<Rightarrow> pg_session \<Rightarrow> policy_store \<Rightarrow> signed_approval \<Rightarrow> policy_snapshot result" where
  "pg_bound_snapshot hosts ses policies e =
     bind_result (pg_get_policy hosts ses policies (ap_source_id (se_payload e)) (ap_policy_version (se_payload e))) (\<lambda>s.
       if ps_hash s \<noteq> ap_policy_hash (se_payload e)
       then raise (ValueError ''source approval event policy hash does not match stored snapshot'')
       else return s)"

definition require_auth_store :: "auth_store option \<Rightarrow> auth_store result" where
  "require_auth_store auth = (case auth of
       None \<Rightarrow> raise (RuntimeError ''PostgreSQL source approvals require an AuthStore'') | Some a \<Rightarrow> return a)"

definition pg_append_approval :: "release_library \<Rightarrow> host_library \<Rightarrow> (datetime \<Rightarrow> string) \<Rightarrow> pg_session \<Rightarrow> auth_store option
    \<Rightarrow> policy_store \<Rightarrow> signed_approval \<Rightarrow> datetime \<Rightarrow> approval_store \<Rightarrow> (approval_store \<times> signed_approval) result" where
  "pg_append_approval lib hosts dt ses auth policies e now st =
     bind_result (guarded
       [(se_stored_at e \<noteq> None, ValueError ''stored_at is assigned by PostgresEnrolledSourceApprovalStore''),
        (\<not> verify_source_approval lib dt e, ValueError ''invalid source approval signature or event hash'')] ())
     (\<lambda>_. bind_result (require_auth_store auth) (\<lambda>a.
        if \<not> approver_key_is_active (se_signer_sha256 e) (ap_approver_id (se_payload e)) a
        then raise (PermissionError ''source approval signer is not an active enrolled key for approver_id'')
        else bind_result (pg_bound_snapshot hosts ses policies e) (\<lambda>s.
          if access_status (ps_policy s) \<noteq> APPROVED
          then raise (PermissionError ''source approval events may authorize approved policy snapshots only'')
          else extend_approvals e now st)))"

definition pg_approval_row_valid :: "release_library \<Rightarrow> host_library \<Rightarrow> (datetime \<Rightarrow> string) \<Rightarrow> pg_session \<Rightarrow> policy_store
    \<Rightarrow> string \<Rightarrow> string option \<Rightarrow> approval_row \<Rightarrow> bool" where
  "pg_approval_row_valid lib hosts dt ses policies src previous_hash r =
     (let e = ar_event r in
      ar_previous_hash r = previous_hash \<and> ap_previous_hash (se_payload e) = previous_hash
      \<and> ar_hash r = se_hash e \<and> ap_source_id (se_payload e) = src \<and> verify_source_approval lib dt e
      \<and> (case pg_bound_snapshot hosts ses policies e of Inl _ \<Rightarrow> False | Inr _ \<Rightarrow> True))"

fun pg_approval_failure :: "release_library \<Rightarrow> host_library \<Rightarrow> (datetime \<Rightarrow> string) \<Rightarrow> pg_session \<Rightarrow> policy_store
    \<Rightarrow> string \<Rightarrow> string option \<Rightarrow> approval_row list \<Rightarrow> int option" where
  "pg_approval_failure lib hosts dt ses policies src previous_hash [] = None"
| "pg_approval_failure lib hosts dt ses policies src previous_hash (r # rs) =
     (if pg_approval_row_valid lib hosts dt ses policies src previous_hash r
      then pg_approval_failure lib hosts dt ses policies src (Some (se_hash (ar_event r))) rs
      else Some (ar_sequence r))"

definition pg_verify_approval_chain :: "release_library \<Rightarrow> host_library \<Rightarrow> (datetime \<Rightarrow> string) \<Rightarrow> pg_session
    \<Rightarrow> policy_store \<Rightarrow> approval_store \<Rightarrow> string \<Rightarrow> approval_chain_report" where
  "pg_verify_approval_chain lib hosts dt ses policies st src =
     (case pg_approval_failure lib hosts dt ses policies src None (approval_rows st src) of
        Some n \<Rightarrow> \<lparr>av_source_id = src, av_valid = False, av_events_checked = n, av_failure_sequence = Some n\<rparr>
      | None \<Rightarrow> \<lparr>av_source_id = src, av_valid = True, av_events_checked = int (length (approval_rows st src)),
          av_failure_sequence = None\<rparr>)"

definition pg_authorization :: "release_library \<Rightarrow> host_library \<Rightarrow> (datetime \<Rightarrow> string) \<Rightarrow> pg_session \<Rightarrow> auth_store option
    \<Rightarrow> policy_store \<Rightarrow> approval_store \<Rightarrow> policy_snapshot \<Rightarrow> approval_authorization result" where
  "pg_authorization lib hosts dt ses auth policies st s =
     (let latest = latest_approval st s in
      bind_result (require_auth_store auth) (\<lambda>a. return
      \<lparr>aa_source_id = ps_source_id s, aa_policy_version = ps_version s, aa_policy_hash = ps_hash s,
       aa_authorized = (access_status (ps_policy s) = APPROVED
         \<and> (case latest of None \<Rightarrow> False | Some e \<Rightarrow> ap_decision (se_payload e) = Approve
              \<and> approver_key_is_active (se_signer_sha256 e) (ap_approver_id (se_payload e)) a
              \<and> verify_source_approval lib dt e)
         \<and> av_valid (pg_verify_approval_chain lib hosts dt ses policies st (ps_source_id s))),
       aa_decision = map_option (\<lambda>e. ap_decision (se_payload e)) latest,
       aa_event_id = map_option (\<lambda>e. ap_event_id (se_payload e)) latest, aa_event_hash = map_option se_hash latest,
       aa_approver_id = map_option (\<lambda>e. ap_approver_id (se_payload e)) latest,
       aa_signer_sha256 = map_option se_signer_sha256 latest\<rparr>))"

definition pg_require_authorized :: "release_library \<Rightarrow> host_library \<Rightarrow> (datetime \<Rightarrow> string) \<Rightarrow> pg_session
    \<Rightarrow> auth_store option \<Rightarrow> policy_store \<Rightarrow> approval_store \<Rightarrow> policy_snapshot \<Rightarrow> signed_approval result" where
  "pg_require_authorized lib hosts dt ses auth policies st s =
     bind_result (pg_authorization lib hosts dt ses auth policies st s) (\<lambda>status.
       if \<not> aa_authorized status
       then raise (PermissionError ''source policy snapshot lacks a current trusted signed approval'')
       else case latest_approval st s of
           None \<Rightarrow> raise (PermissionError ''source approval event is missing'') | Some e \<Rightarrow> return e)"

section \<open>Keys in the auth store\<close>

definition approvers_unique :: "auth_store \<Rightarrow> bool" where
  "approvers_unique st \<longleftrightarrow> distinct (map apk_public_key_sha256 (approver_table st))
     \<and> distinct (map apk_key_id (approver_table st)) \<and> distinct (map id_actor_id (identity_table st))"

text \<open>The fingerprints of the revoked approver keys.\<close>

definition revoked_approvers :: "auth_store \<Rightarrow> string set" where
  "revoked_approvers st = {apk_public_key_sha256 k | k. k \<in> set (approver_table st) \<and> apk_revoked_at k \<noteq> None}"

lemma map_updated: "(\<And>x. h (g x) = h x) \<Longrightarrow> map h (map (\<lambda>x. if P x then g x else x) xs) = map h xs"
  by (induction xs) auto

lemma fingerprints_kept:
  assumes "\<And>k. f (g k) = f k" "\<And>k. P k \<Longrightarrow> P (g k)"
  shows "{f k | k. k \<in> set xs \<and> P k} \<subseteq> {f k | k. k \<in> set (map g xs) \<and> P k}"
  using assms by (auto simp: image_iff) metis

lemma committed_approvers:
  assumes "committed derive st st'" "approvers_unique st"
  shows "approvers_unique st' \<and> revoked_approvers st \<subseteq> revoked_approvers st'"
  using assms
proof cases
  case (approver_revoked actor key tm log)
  then have tab: "approver_table st' = map (\<lambda>k. if apk_key_id k = key
      then k\<lparr>apk_revoked_at := Some tm, apk_revoked_by := Some actor\<rparr> else k) (approver_table st)" by simp
  have "revoked_approvers st \<subseteq> revoked_approvers st'"
    unfolding revoked_approvers_def tab by (rule fingerprints_kept) auto
  then show ?thesis using approver_revoked assms(2) by (simp add: approvers_unique_def map_updated del: map_map)
qed (auto simp: approvers_unique_def revoked_approvers_def map_updated simp del: map_map)

lemma steps_approvers:
  assumes "auth_steps derive st st'" "approvers_unique st"
  shows "approvers_unique st' \<and> revoked_approvers st \<subseteq> revoked_approvers st'"
proof -
  have "(committed derive)\<^sup>*\<^sup>* st st'" using assms(1) auth_steps_commits by blast
  then show ?thesis using assms(2) by (induction rule: rtranclp_induct) (use committed_approvers in blast)+
qed

lemma approvers_unique_empty: "approvers_unique empty_auth_store"
  by (simp add: approvers_unique_def empty_auth_store_def)

text \<open>A key that is enrolled for the approver and not revoked, of an identity that is a reviewer now.\<close>

definition reviewer_key :: "auth_store \<Rightarrow> string \<Rightarrow> string \<Rightarrow> bool" where
  "reviewer_key st fingerprint approver \<longleftrightarrow>
     (\<exists>k \<in> set (approver_table st). apk_public_key_sha256 k = fingerprint \<and> apk_actor_id k = approver \<and> apk_revoked_at k = None)
     \<and> (\<exists>i \<in> set (identity_table st). id_actor_id i = approver \<and> GOVERNANCE_REVIEWER \<in> set (id_roles i))"

lemma distinct_map_eq: "distinct (map f xs) \<Longrightarrow> x \<in> set xs \<Longrightarrow> y \<in> set xs \<Longrightarrow> f x = f y \<Longrightarrow> x = y"
  by (simp add: distinct_map inj_on_def)

lemma active_is_reviewer_key:
  assumes "approvers_unique st" "\<forall>i \<in> set (identity_table st). id_disabled_at i = None"
  shows "approver_key_is_active fingerprint approver st \<longleftrightarrow> reviewer_key st fingerprint approver"
proof -
  have id: "find_identity st a = Some i \<longleftrightarrow> i \<in> set (identity_table st) \<and> id_actor_id i = a" for a i
    using assms(1) find_unique_iff [of id_actor_id "identity_table st" a "\<lambda>_. True"]
    by (simp add: find_identity_def approvers_unique_def)
  have key: "find (\<lambda>a. apk_public_key_sha256 a = fingerprint \<and> apk_actor_id a = approver \<and> P a) (approver_table st) = Some k
      \<longleftrightarrow> k \<in> set (approver_table st) \<and> apk_public_key_sha256 k = fingerprint \<and> apk_actor_id k = approver \<and> P k" for P k
    using assms(1) find_unique_iff [of apk_public_key_sha256 "approver_table st"] by (simp add: approvers_unique_def)
  let ?find = "find (\<lambda>a. apk_public_key_sha256 a = fingerprint \<and> apk_actor_id a = approver
      \<and> find_identity st (apk_actor_id a) \<noteq> None) (approver_table st)"
  have enabled: "find_identity st a = Some i \<Longrightarrow> id_disabled_at i = None" for a i using id assms(2) by blast
  have none: "?find = None \<longleftrightarrow> (\<forall>k \<in> set (approver_table st). apk_public_key_sha256 k = fingerprint \<and> apk_actor_id k = approver
      \<longrightarrow> find_identity st approver = None)" by (auto simp: find_None_iff)
  show ?thesis
  proof (cases ?find)
    case None
    then show ?thesis using none id [of approver]
      by (simp add: approver_key_is_active_def reviewer_key_def) (metis not_None_eq)
  next
    case (Some k)
    then have k: "k \<in> set (approver_table st)" "apk_public_key_sha256 k = fingerprint" "apk_actor_id k = approver"
      "find_identity st approver \<noteq> None" by (auto dest: find_Some_in)
    then obtain i where i: "find_identity st approver = Some i" by blast
    have only: "k' = k" if "k' \<in> set (approver_table st)" "apk_public_key_sha256 k' = fingerprint" for k'
      using that k(1,2) assms(1) distinct_map_eq unfolding approvers_unique_def by metis
    have one: "i' = i" if "i' \<in> set (identity_table st)" "id_actor_id i' = approver" for i'
      using that i id [of approver i'] by simp
    have "approver_key_is_active fingerprint approver st \<longleftrightarrow> apk_revoked_at k = None \<and> GOVERNANCE_REVIEWER \<in> set (id_roles i)"
      unfolding approver_key_is_active_def Some using i enabled k(3) by simp
    then show ?thesis unfolding reviewer_key_def using k i id [of approver i] only one by metis
  qed
qed

section \<open>Who is trusted\<close>

lemma pg_get_policy_hash:
  "(case pg_get_policy hosts ses policies src v of Inl _ \<Rightarrow> None | Inr s \<Rightarrow> Some (ps_hash s, ps_policy s)) =
    (case get_policy hosts policies src v of Inl _ \<Rightarrow> None | Inr s \<Rightarrow> Some (ps_hash s, ps_policy s))"
  by (auto simp: pg_get_policy_def get_policy_def pg_row_to_snapshot_def row_to_snapshot_def loaded_policy_def bind_result_def
      split: option.split sum.split)

lemma pg_bound_snapshot_iff:
  "(\<exists>s. pg_bound_snapshot hosts ses policies e = Inr s) \<longleftrightarrow> (\<exists>s. bound_snapshot hosts policies e = Inr s)"
  using pg_get_policy_hash [of hosts ses policies "ap_source_id (se_payload e)" "ap_policy_version (se_payload e)"]
  by (auto simp: pg_bound_snapshot_def bound_snapshot_def bind_result_def split: sum.splits if_splits)

lemma pg_verify_approval_chain_eq:
  "pg_verify_approval_chain lib hosts dt ses policies st src = verify_approval_chain lib hosts dt policies st src"
proof -
  have "pg_approval_row_valid lib hosts dt ses policies src h r = approval_row_valid lib hosts dt policies src h r" for h r
    using pg_bound_snapshot_iff [of hosts ses policies "ar_event r"]
    by (auto simp: pg_approval_row_valid_def approval_row_valid_def Let_def split: sum.splits)
  then have "pg_approval_failure lib hosts dt ses policies src h rs = approval_failure lib hosts dt policies src h rs" for h rs
    by (induction rs arbitrary: h) auto
  then show ?thesis by (simp add: pg_verify_approval_chain_def verify_approval_chain_def)
qed

lemma pg_authorization_eq:
  "pg_authorization lib hosts dt ses (Some auth) policies st s = return (enrolled_authorization lib hosts dt auth policies st s)"
  by (auto simp: pg_authorization_def require_auth_store_def enrolled_authorization_def authorization_def Let_def
      signer_trusted_def pg_verify_approval_chain_eq split: option.split)

text \<open>C33. The stores with enrolled approvers, on files and on PostgreSQL, authorize a snapshot exactly when it is approved and
  the last accepted event for it is an approval signed with a key that is enrolled for its approver and not revoked, by
  an identity that is a governance reviewer at the time of asking. A key that was ever revoked never authorizes
  again, whatever is recorded later, and no event signed with it is accepted.\<close>

theorem enrolled_approvals_follow_auth:
  assumes "approvals_reachable lib hosts dt policies st" "auth_steps derive empty_auth_store auth"
  shows "(aa_authorized (enrolled_authorization lib hosts dt auth policies st s) \<longleftrightarrow>
      access_status (ps_policy s) = APPROVED \<and> (\<exists>e. last_word st s = Some e \<and> ap_decision (se_payload e) = Approve
        \<and> reviewer_key auth (se_signer_sha256 e) (ap_approver_id (se_payload e))))
    \<and> pg_authorization lib hosts dt ses (Some auth) policies st s = return (enrolled_authorization lib hosts dt auth policies st s)
    \<and> (\<forall>later e. auth_steps derive auth later \<and> se_signer_sha256 e \<in> revoked_approvers auth \<longrightarrow>
        \<not> reviewer_key later (se_signer_sha256 e) (ap_approver_id (se_payload e))
        \<and> (\<exists>err. enrolled_append lib hosts dt later policies e now st = Inl err))"
proof (intro conjI allI impI)
  note inv = reachable_invariant [OF assms(2), unfolded auth_invariant_def]
  note uniq = steps_approvers [OF assms(2) approvers_unique_empty]
  note active = active_is_reviewer_key [OF conjunct1 [OF uniq]]
  show "aa_authorized (enrolled_authorization lib hosts dt auth policies st s) \<longleftrightarrow>
      access_status (ps_policy s) = APPROVED \<and> (\<exists>e. last_word st s = Some e \<and> ap_decision (se_payload e) = Approve
        \<and> reviewer_key auth (se_signer_sha256 e) (ap_approver_id (se_payload e)))"
    using authorized_last_word [OF assms(1), of None s] active inv
    by (cases "last_word st s")
      (auto simp: enrolled_authorization_def Let_def signer_trusted_def latest_is_last_word [OF approvals_reachable_sound [OF assms(1)]])
  show "pg_authorization lib hosts dt ses (Some auth) policies st s = return (enrolled_authorization lib hosts dt auth policies st s)"
    by (rule pg_authorization_eq)
  fix later and e :: signed_approval
  assume l: "auth_steps derive auth later \<and> se_signer_sha256 e \<in> revoked_approvers auth"
  have uniq': "approvers_unique later" and rev: "se_signer_sha256 e \<in> revoked_approvers later"
    using steps_approvers [of derive auth later] uniq l by blast+
  have inv': "auth_invariant later"
    using l assms(2) by (intro reachable_invariant [where derive = derive]) (meson rtranclp_trans)
  show not: "\<not> reviewer_key later (se_signer_sha256 e) (ap_approver_id (se_payload e))"
    using rev distinct_map_eq [OF conjunct1 [OF uniq' [unfolded approvers_unique_def]]]
    unfolding reviewer_key_def revoked_approvers_def by (smt (verit) mem_Collect_eq)
  then show "\<exists>err. enrolled_append lib hosts dt later policies e now st = Inl err"
    using active_is_reviewer_key [OF uniq'] inv' by (simp add: enrolled_append_def auth_invariant_def)
qed

section \<open>An enrolled reviewer\<close>

definition reviewer :: identity where
  "reviewer = \<lparr>id_actor_id = ''alice'', id_display_name = None, id_roles = [GOVERNANCE_REVIEWER], id_created_at = auth_time,
     id_disabled_at = None\<rparr>"

definition reviewer_event :: audit_event where
  "reviewer_event = next_audit_event ''identity.created'' ''root'' ''alice'' (roles_payload [GOVERNANCE_REVIEWER]) auth_time []"

definition reviewer_store :: auth_store where
  "reviewer_store = \<lparr>identity_table = [reviewer], api_key_table = [], approver_table = [], audit_table = [reviewer_event]\<rparr>"

definition enrolled_event :: audit_event where
  "enrolled_event = next_audit_event ''approver_key.enrolled'' ''root'' ''k''
     (enroll_payload ''alice'' (sha256_bytes (sha256 [1, 2, 3]))) auth_time [reviewer_event]"

definition enrolled_store :: auth_store where
  "enrolled_store = reviewer_store\<lparr>approver_table := [\<lparr>apk_key_id = ''k'', apk_actor_id = ''alice'',
     apk_public_key_b64 = b64encode (sha256 [1, 2, 3]), apk_public_key_sha256 = sha256_bytes (sha256 [1, 2, 3]),
     apk_enrolled_at = auth_time, apk_enrolled_by = ''root'', apk_revoked_at = None, apk_revoked_by = None\<rparr>],
     audit_table := [reviewer_event, enrolled_event]\<rparr>"

lemma reviewer_created:
  "create_identity ''alice'' [GOVERNANCE_REVIEWER] None ''root'' auth_time empty_auth_store = (reviewer_store, Inr reviewer)"
  by (simp add: create_identity_def empty_auth_store_def one_byte_spaces_def two_byte_spaces_def three_byte_spaces_def
      with_audit_def append_audit_def Let_def identity_from_row_def len_between_def py_len_def normalized_roles_def
      reviewer_store_def reviewer_def reviewer_event_def)

lemma enrolled_append_audit: "append_audit ''approver_key.enrolled'' ''root'' ''k''
    (enroll_payload ''alice'' (sha256_bytes (sha256 [1, 2, 3]))) auth_time [reviewer_event]
  = (if ae_hash enrolled_event = ae_hash reviewer_event then Inl (IntegrityError ''auth_audit_events.event_hash'')
     else Inr [reviewer_event, enrolled_event])"
  by (auto simp: append_audit_def Let_def enrolled_event_def [symmetric])
    (simp_all add: enrolled_event_def reviewer_event_def audit_rows_def)

lemma reviewer_enrolled:
  assumes "ae_hash enrolled_event \<noteq> ae_hash reviewer_event"
  shows "\<exists>r. enroll_approver_key ''alice'' (b64encode (sha256 [1, 2, 3])) ''root'' ''k'' auth_time reviewer_store = (enrolled_store, r)"
  using assms
  by (simp add: enroll_approver_key_def get_identity_def find_identity_def reviewer_store_def reviewer_def identity_from_row_def
      len_between_def py_len_def with_audit_def enrolled_append_audit Let_def enrolled_store_def b64decode_encode)

text \<open>Unless the two events collide under SHA-256, the enrolled reviewer's approval authorizes.\<close>

lemma enrolled_approvals_follow_auth_witness:
  "ae_hash enrolled_event = ae_hash reviewer_event
   \<or> aa_authorized (enrolled_authorization demo_release_library demo_lib isoformat enrolled_store [demo_row] demo_approvals demo_current)"
proof (cases "ae_hash enrolled_event = ae_hash reviewer_event")
  case False
  have "auth_steps (\<lambda>s salt. utf8 s) empty_auth_store enrolled_store"
    using auth_step.create [OF reviewer_created auth_clock] reviewer_enrolled [OF False] auth_step.enroll [OF _ auth_clock]
    by (meson rtranclp.rtrancl_into_rtrancl rtranclp.rtrancl_refl)
  from enrolled_approvals_follow_auth [OF demo_approvals_reachable this, of demo_current]
  show ?thesis
    by (simp add: last_word_def demo_approvals_def reviewer_key_def enrolled_store_def reviewer_store_def reviewer_def
        demo_approval_def sign_source_approval_def Let_def demo_release_library_def)
qed simp

end
