(* ===== verification/Jurisdiction.thy ===== *)
theory Jurisdiction
  imports Registry
begin

text \<open>
  src/ballotproof/jurisdiction.py and jurisdiction_profiles.py: versioned jurisdiction profiles, the
  validation of a registry payload against one, and binding the payload to the exact profile by its
  fingerprint. \<open>upper\<close>, an argument of the validation, is \<open>str.upper\<close>, whose
  Unicode tables are not modelled.
\<close>

section \<open>Profiles\<close>

datatype unit_role = LEAF_ROLE | AGGREGATION_ROLE | EITHER_ROLE

definition unit_role_text :: "unit_role \<Rightarrow> string" where
  "unit_role_text r = (case r of LEAF_ROLE \<Rightarrow> ''leaf'' | AGGREGATION_ROLE \<Rightarrow> ''aggregation''
     | EITHER_ROLE \<Rightarrow> ''either'')"

datatype jurisdiction_choice_kind = CANDIDATE_KIND | OPTION_KIND | PARTY_LIST_KIND | MIXED_KIND

definition choice_kind_text :: "jurisdiction_choice_kind \<Rightarrow> string" where
  "choice_kind_text k = (case k of CANDIDATE_KIND \<Rightarrow> ''candidate'' | OPTION_KIND \<Rightarrow> ''option''
     | PARTY_LIST_KIND \<Rightarrow> ''party_list'' | MIXED_KIND \<Rightarrow> ''mixed'')"

datatype evidence_role = REGISTRY_ROLE | PRIMARY_RESULT_ROLE | AGGREGATION_RESULT_ROLE
  | DECLARATION_ROLE | AUDIT_ROLE | OTHER_EVIDENCE_ROLE

definition evidence_role_text :: "evidence_role \<Rightarrow> string" where
  "evidence_role_text r = (case r of REGISTRY_ROLE \<Rightarrow> ''registry'' | PRIMARY_RESULT_ROLE \<Rightarrow> ''primary_result''
     | AGGREGATION_RESULT_ROLE \<Rightarrow> ''aggregation_result'' | DECLARATION_ROLE \<Rightarrow> ''declaration''
     | AUDIT_ROLE \<Rightarrow> ''audit'' | OTHER_EVIDENCE_ROLE \<Rightarrow> ''other'')"

datatype publication_status = PROVISIONAL | CERTIFIED | FINAL | REFERENCE | MIXED_STATUS

definition publication_status_text :: "publication_status \<Rightarrow> string" where
  "publication_status_text s = (case s of PROVISIONAL \<Rightarrow> ''provisional'' | CERTIFIED \<Rightarrow> ''certified''
     | FINAL \<Rightarrow> ''final'' | REFERENCE \<Rightarrow> ''reference'' | MIXED_STATUS \<Rightarrow> ''mixed'')"

datatype authority_role = ELECTION_AUTHORITY | COURT | OBSERVER | MEDIA | PARTY | OTHER_AUTHORITY

definition authority_role_text :: "authority_role \<Rightarrow> string" where
  "authority_role_text r = (case r of ELECTION_AUTHORITY \<Rightarrow> ''election_authority'' | COURT \<Rightarrow> ''court''
     | OBSERVER \<Rightarrow> ''observer'' | MEDIA \<Rightarrow> ''media'' | PARTY \<Rightarrow> ''party'' | OTHER_AUTHORITY \<Rightarrow> ''other'')"

record jurisdiction_unit_type =
  ju_unit_type :: string
  ju_display_name :: string
  ju_role :: unit_role

record jurisdiction_contest_type =
  jc_contest_type :: string
  jc_display_name :: string
  jc_choice_kind :: jurisdiction_choice_kind
  result_unit_types :: "string list"

record jurisdiction_evidence_type =
  je_evidence_type :: string
  je_display_name :: string
  je_role :: evidence_role

record jurisdiction_source =
  js_source_id :: string
  js_provider :: string
  authority_role :: authority_role
  js_evidence_types :: "string list"
  publication_status :: publication_status
  final_declaration_authority :: bool
  js_notes :: "string option"

record jurisdiction_profile_doc =
  profile_id :: string
  profile_version :: int
  jp_country_code :: string
  jurisdiction_code :: string
  jp_display_name :: string
  election_authority :: string
  contest_scopes :: "string list"
  unit_types :: "jurisdiction_unit_type list"
  contest_types :: "jurisdiction_contest_type list"
  evidence_types :: "jurisdiction_evidence_type list"
  sources :: "jurisdiction_source list"
  local_terms :: "string dict"

text \<open>The pattern \<open>^[a-z0-9][a-z0-9._-]*$\<close> with 1 to 128 characters.\<close>

definition lower_alnum :: "char \<Rightarrow> bool" where
  "lower_alnum c = (c \<in> set ''abcdefghijklmnopqrstuvwxyz0123456789'')"

definition identifier_ok :: "string \<Rightarrow> bool" where
  "identifier_ok s = (len_between 1 128 s \<and> lower_alnum (hd s)
     \<and> list_all (\<lambda>c. lower_alnum c \<or> c \<in> set ''._-'') s)"

definition unit_type_ok :: "jurisdiction_unit_type \<Rightarrow> bool" where
  "unit_type_ok u = (identifier_ok (ju_unit_type u) \<and> id128 (ju_display_name u))"

definition contest_type_ok :: "jurisdiction_contest_type \<Rightarrow> bool" where
  "contest_type_ok c = (identifier_ok (jc_contest_type c) \<and> id128 (jc_display_name c)
     \<and> result_unit_types c \<noteq> [] \<and> list_all identifier_ok (result_unit_types c))"

definition result_unit_types_are_unique :: "jurisdiction_contest_type \<Rightarrow> jurisdiction_contest_type result" where
  "result_unit_types_are_unique c = guarded
     [(\<not> contest_type_ok c, field_error),
      (\<not> distinct (result_unit_types c), ValueError ''result_unit_types must be unique'')] c"

definition evidence_type_ok :: "jurisdiction_evidence_type \<Rightarrow> bool" where
  "evidence_type_ok e = (identifier_ok (je_evidence_type e) \<and> id128 (je_display_name e))"

definition evidence_types_are_unique :: "jurisdiction_source \<Rightarrow> jurisdiction_source result" where
  "evidence_types_are_unique s = guarded
     [(\<not> (identifier_ok (js_source_id s) \<and> len_between 1 256 (js_provider s) \<and> js_evidence_types s \<noteq> []
          \<and> list_all identifier_ok (js_evidence_types s) \<and> opt_all (\<lambda>n. py_len n \<le> 2000) (js_notes s)),
       field_error),
      (\<not> distinct (js_evidence_types s), ValueError ''source evidence_types must be unique'')] s"

definition profile_fields_ok :: "jurisdiction_profile_doc \<Rightarrow> bool" where
  "profile_fields_ok p = (identifier_ok (profile_id p) \<and> 1 \<le> profile_version p
     \<and> length (jp_country_code p) \<in> {2, 3}
     \<and> list_all (\<lambda>c. c \<in> set ''ABCDEFGHIJKLMNOPQRSTUVWXYZ'') (jp_country_code p)
     \<and> len_between 2 64 (jurisdiction_code p) \<and> len_between 1 256 (jp_display_name p)
     \<and> len_between 1 256 (election_authority p)
     \<and> contest_scopes p \<noteq> [] \<and> list_all identifier_ok (contest_scopes p)
     \<and> unit_types p \<noteq> [] \<and> list_all unit_type_ok (unit_types p)
     \<and> list_all (\<lambda>c. result_unit_types_are_unique c = Inr c) (contest_types p)
     \<and> evidence_types p \<noteq> [] \<and> list_all evidence_type_ok (evidence_types p)
     \<and> list_all (\<lambda>s. evidence_types_are_unique s = Inr s) (sources p) \<and> dict_ok (local_terms p))"

definition require_unique :: "string list \<Rightarrow> bool \<times> py_error" where
  "require_unique values = (\<not> distinct values, ValueError '' values must be unique'')"

definition references_are_well_formed :: "jurisdiction_profile_doc \<Rightarrow> jurisdiction_profile_doc result" where
  "references_are_well_formed p =
     (let known_unit_types = set (map ju_unit_type (unit_types p));
          known_evidence_types = set (map je_evidence_type (evidence_types p))
      in guarded
       ([require_unique (contest_scopes p), require_unique (map ju_unit_type (unit_types p)),
         require_unique (map jc_contest_type (contest_types p)),
         require_unique (map je_evidence_type (evidence_types p)),
         require_unique (map js_source_id (sources p))]
        @ map (\<lambda>contest. (sorted_set (set (result_unit_types contest) - known_unit_types) \<noteq> [],
            ValueError ''Contest references unknown unit types: '')) (contest_types p)
        @ map (\<lambda>src. (sorted_set (set (js_evidence_types src) - known_evidence_types) \<noteq> [],
            ValueError ''Source references unknown evidence types: '')) (sources p)) p)"

definition make_profile :: "jurisdiction_profile_doc \<Rightarrow> jurisdiction_profile_doc result" where
  "make_profile p = (if profile_fields_ok p then references_are_well_formed p else raise field_error)"

definition profile_source :: "jurisdiction_profile_doc \<Rightarrow> string \<Rightarrow> jurisdiction_source result" where
  "profile_source p sid = (case find (\<lambda>s. js_source_id s = sid) (sources p) of
       Some s \<Rightarrow> return s | None \<Rightarrow> raise (KeyError ''Unknown jurisdiction source_id: ''))"

section \<open>The fingerprint\<close>

definition unit_type_json :: "jurisdiction_unit_type \<Rightarrow> json" where
  "unit_type_json u = JObj [(''unit_type'', JStr (ju_unit_type u)),
     (''display_name'', JStr (ju_display_name u)), (''role'', JStr (unit_role_text (ju_role u)))]"

definition contest_type_json :: "jurisdiction_contest_type \<Rightarrow> json" where
  "contest_type_json c = JObj [(''contest_type'', JStr (jc_contest_type c)),
     (''display_name'', JStr (jc_display_name c)),
     (''choice_kind'', JStr (choice_kind_text (jc_choice_kind c))),
     (''result_unit_types'', JArr (map JStr (result_unit_types c)))]"

definition evidence_type_json :: "jurisdiction_evidence_type \<Rightarrow> json" where
  "evidence_type_json e = JObj [(''evidence_type'', JStr (je_evidence_type e)),
     (''display_name'', JStr (je_display_name e)), (''role'', JStr (evidence_role_text (je_role e)))]"

definition jurisdiction_source_json :: "jurisdiction_source \<Rightarrow> json" where
  "jurisdiction_source_json s = JObj [(''source_id'', JStr (js_source_id s)),
     (''provider'', JStr (js_provider s)),
     (''authority_role'', JStr (authority_role_text (authority_role s))),
     (''evidence_types'', JArr (map JStr (js_evidence_types s))),
     (''publication_status'', JStr (publication_status_text (publication_status s))),
     (''final_declaration_authority'', JBool (final_declaration_authority s)),
     (''notes'', json_opt JStr (js_notes s))]"

definition profile_json :: "jurisdiction_profile_doc \<Rightarrow> json" where
  "profile_json p = JObj [(''profile_id'', JStr (profile_id p)), (''profile_version'', JInt (profile_version p)),
     (''country_code'', JStr (jp_country_code p)), (''jurisdiction_code'', JStr (jurisdiction_code p)),
     (''display_name'', JStr (jp_display_name p)), (''election_authority'', JStr (election_authority p)),
     (''contest_scopes'', JArr (map JStr (contest_scopes p))),
     (''unit_types'', JArr (map unit_type_json (unit_types p))),
     (''contest_types'', JArr (map contest_type_json (contest_types p))),
     (''evidence_types'', JArr (map evidence_type_json (evidence_types p))),
     (''sources'', JArr (map jurisdiction_source_json (sources p))),
     (''local_terms'', JObj (map (\<lambda>(k, v). (k, JStr v)) (local_terms p)))]"

definition profile_fingerprint :: "jurisdiction_profile_doc \<Rightarrow> string" where
  "profile_fingerprint p = hash_record (profile_json p)"

section \<open>Validation of a registry against a profile\<close>

definition registry_scopes :: "registry_payload \<Rightarrow> string set" where
  "registry_scopes p = (if contests p \<noteq> [] then set (map scope (contests p))
     else set (map office_level (offices p)))"

definition profile_contest_types :: "jurisdiction_profile_doc \<Rightarrow> jurisdiction_contest_type dict" where
  "profile_contest_types profile = dict_of (map (\<lambda>i. (jc_contest_type i, i)) (contest_types profile))"

fun check_contests :: "jurisdiction_contest_type dict \<Rightarrow> registry_contest list \<Rightarrow> py_error option" where
  "check_contests types [] = None"
| "check_contests types (c # cs) =
     (case dict_get types (contest_type c) of
        None \<Rightarrow> Some (ValueError ''Registry contest uses type not declared by profile: '')
      | Some declared \<Rightarrow>
          if choice_kind c \<noteq> choice_kind_text (jc_choice_kind declared)
          then Some (ValueError ''Registry contest choice_kind does not match profile'')
          else check_contests types cs)"

definition unit_roles :: "jurisdiction_profile_doc \<Rightarrow> unit_role dict" where
  "unit_roles profile = dict_of (map (\<lambda>i. (ju_unit_type i, ju_role i)) (unit_types profile))"

definition payload_units :: "registry_payload \<Rightarrow> registry_unit dict" where
  "payload_units p = dict_of (map (\<lambda>u. (ru_unit_id u, u)) (units p))"

text \<open>\<open>unit_roles[units[unit_id].unit_type]\<close>, with the KeyErrors of both lookups.\<close>

definition parent_role :: "registry_payload \<Rightarrow> jurisdiction_profile_doc \<Rightarrow> string \<Rightarrow> unit_role result" where
  "parent_role p profile u = (case dict_get (payload_units p) u of
       None \<Rightarrow> raise (KeyError u)
     | Some unit \<Rightarrow> (case dict_get (unit_roles profile) (unit_type unit) of
           None \<Rightarrow> raise (KeyError (unit_type unit)) | Some role \<Rightarrow> return role))"

fun leaf_parents :: "registry_payload \<Rightarrow> jurisdiction_profile_doc \<Rightarrow> string list \<Rightarrow> string list result" where
  "leaf_parents p profile [] = return []"
| "leaf_parents p profile (u # us) =
     bind_result (parent_role p profile u) (\<lambda>role.
     bind_result (leaf_parents p profile us) (\<lambda>rest.
       return (if role = LEAF_ROLE then u # rest else rest)))"

definition validate_registry_against_profile :: "(string \<Rightarrow> string) \<Rightarrow> registry_payload
    \<Rightarrow> jurisdiction_profile_doc \<Rightarrow> registry_payload result" where
  "validate_registry_against_profile upper p profile =
     bind_result (guarded
       [(upper (country_code p) \<noteq> jp_country_code profile,
         ValueError ''Registry country_code does not match profile ''),
        (sorted_set (registry_scopes p - set (contest_scopes profile)) \<noteq> [],
         ValueError ''Registry uses contest scopes not declared by profile: '')] ()) (\<lambda>_.
     case check_contests (profile_contest_types profile) (contests p) of
       Some e \<Rightarrow> raise e
     | None \<Rightarrow>
         if sorted_set (set (map unit_type (units p)) - dict_keys (unit_roles profile)) \<noteq> []
         then raise (ValueError ''Registry uses unit types not declared by profile: '')
         else bind_result (leaf_parents p profile (sorted_set (set (map edge_parent (topology p)))))
           (\<lambda>invalid_leaf_parents. if invalid_leaf_parents \<noteq> []
              then raise (ValueError ''Profile marks topology parent units as leaf-only: '')
              else return p))"

definition profile_binding_of :: "jurisdiction_profile_doc \<Rightarrow> profile_binding" where
  "profile_binding_of profile = \<lparr>pb_profile_id = profile_id profile,
     pb_profile_version = profile_version profile, pb_profile_hash = profile_fingerprint profile\<rparr>"

definition bind_registry_to_profile :: "(string \<Rightarrow> string) \<Rightarrow> registry_payload
    \<Rightarrow> jurisdiction_profile_doc \<Rightarrow> registry_payload result" where
  "bind_registry_to_profile upper p profile =
     bind_result (validate_registry_against_profile upper p profile) (\<lambda>_.
       if jurisdiction_profile p \<noteq> None \<and> jurisdiction_profile p \<noteq> Some (profile_binding_of profile)
       then raise (ValueError ''Registry payload is already bound to a different jurisdiction profile'')
       else return (p\<lparr>jurisdiction_profile := Some (profile_binding_of profile)\<rparr>))"


section \<open>What the fingerprint determines\<close>

lemma unit_role_text_inj: "unit_role_text a = unit_role_text b \<longleftrightarrow> a = b"
  by (cases a; cases b) (simp_all add: unit_role_text_def)

lemma choice_kind_text_inj: "choice_kind_text a = choice_kind_text b \<longleftrightarrow> a = b"
  by (cases a; cases b) (simp_all add: choice_kind_text_def)

lemma evidence_role_text_inj: "evidence_role_text a = evidence_role_text b \<longleftrightarrow> a = b"
  by (cases a; cases b) (simp_all add: evidence_role_text_def)

lemma publication_status_text_inj: "publication_status_text a = publication_status_text b \<longleftrightarrow> a = b"
  by (cases a; cases b) (simp_all add: publication_status_text_def)

lemma authority_role_text_inj: "authority_role_text a = authority_role_text b \<longleftrightarrow> a = b"
  by (cases a; cases b) (simp_all add: authority_role_text_def)

lemmas role_texts_inj = unit_role_text_inj choice_kind_text_inj evidence_role_text_inj
  publication_status_text_inj authority_role_text_inj

lemma json_eq_strs [simp]: "json_eq (JArr (map JStr xs)) (JArr (map JStr ys)) \<longleftrightarrow> xs = ys"
  by (rule json_eq_arr) simp

lemma json_eq_bool [simp]: "json_eq (JBool b) j \<longleftrightarrow> j = JBool b"
  by (cases j) auto

lemma json_eq_unit_type: "json_eq (unit_type_json a) (unit_type_json b) \<longleftrightarrow> a = b"
  unfolding unit_type_json_def by (subst json_eq_fields) (cases a; cases b; auto simp: role_texts_inj)+

lemma json_eq_contest_type: "json_eq (contest_type_json a) (contest_type_json b) \<longleftrightarrow> a = b"
  unfolding contest_type_json_def
  by (subst json_eq_fields) (cases a; cases b; auto simp: role_texts_inj simp del: json_eq.simps)+

lemma json_eq_evidence_type: "json_eq (evidence_type_json a) (evidence_type_json b) \<longleftrightarrow> a = b"
  unfolding evidence_type_json_def by (subst json_eq_fields) (cases a; cases b; auto simp: role_texts_inj)+

lemma json_eq_jurisdiction_source: "json_eq (jurisdiction_source_json a) (jurisdiction_source_json b) \<longleftrightarrow> a = b"
  unfolding jurisdiction_source_json_def
  by (subst json_eq_fields) (cases a; cases b; auto simp: role_texts_inj simp del: json_eq.simps)+

lemma json_eq_terms:
  assumes "dict_ok d" "dict_ok e"
  shows "json_eq (JObj (map (\<lambda>(k, v). (k, JStr v)) d)) (JObj (map (\<lambda>(k, v). (k, JStr v)) e))
    \<longleftrightarrow> dict_get d = dict_get e"
proof -
  let ?f = "map (\<lambda>(k, v). (k, JStr v))"
  have get: "dict_get (?f x) k = map_option JStr (dict_get x k)" for x k
    by (induction x) auto
  have keys: "dict_keys (?f x) = dict_keys x" for x by (simp add: dict_keys_def image_image case_prod_unfold)
  have "json_eq (JObj (?f d)) (JObj (?f e)) \<longleftrightarrow> dict_keys d = dict_keys e
      \<and> (\<forall>(k, v) \<in> set d. dict_get e k = Some v)"
    unfolding json_eq.simps keys set_map ball_simps by (auto simp: get split: option.splits)
  also have "\<dots> \<longleftrightarrow> dict_get d = dict_get e"
  proof
    assume r: "dict_keys d = dict_keys e \<and> (\<forall>(k, v) \<in> set d. dict_get e k = Some v)"
    show "dict_get d = dict_get e"
    proof
      fix k
      show "dict_get d k = dict_get e k"
      proof (cases "dict_get d k")
        case None
        then show ?thesis using r by (metis dict_get_None)
      next
        case (Some v)
        then show ?thesis using r map_of_SomeD [OF Some] by fastforce
      qed
    qed
  next
    assume eq: "dict_get d = dict_get e"
    show "dict_keys d = dict_keys e \<and> (\<forall>(k, v) \<in> set d. dict_get e k = Some v)"
      using assms(1) by (auto simp: dict_keys_dom dict_ok_def eq [symmetric])
  qed
  finally show ?thesis .
qed

text \<open>The same profile: all fields, with the local terms compared as a dictionary.\<close>

definition same_profile :: "jurisdiction_profile_doc \<Rightarrow> jurisdiction_profile_doc \<Rightarrow> bool" where
  "same_profile a b \<longleftrightarrow> a\<lparr>local_terms := []\<rparr> = b\<lparr>local_terms := []\<rparr>
     \<and> dict_get (local_terms a) = dict_get (local_terms b)"

lemma profile_less_terms_eq:
  fixes a b :: jurisdiction_profile_doc
  shows "a\<lparr>local_terms := []\<rparr> = b\<lparr>local_terms := []\<rparr> \<longleftrightarrow> profile_id a = profile_id b
     \<and> profile_version a = profile_version b \<and> jp_country_code a = jp_country_code b
     \<and> jurisdiction_code a = jurisdiction_code b \<and> jp_display_name a = jp_display_name b
     \<and> election_authority a = election_authority b \<and> contest_scopes a = contest_scopes b
     \<and> unit_types a = unit_types b \<and> contest_types a = contest_types b
     \<and> evidence_types a = evidence_types b \<and> sources a = sources b"
  by (cases a; cases b) simp

lemma json_eq_profile:
  assumes "dict_ok (local_terms a)" "dict_ok (local_terms b)"
  shows "json_eq (profile_json a) (profile_json b) \<longleftrightarrow> same_profile a b"
proof -
  have arr: "json_eq (JArr (map unit_type_json xs)) (JArr (map unit_type_json ys)) \<longleftrightarrow> xs = ys"
    "json_eq (JArr (map contest_type_json cs)) (JArr (map contest_type_json ds)) \<longleftrightarrow> cs = ds"
    "json_eq (JArr (map evidence_type_json es)) (JArr (map evidence_type_json fs)) \<longleftrightarrow> es = fs"
    "json_eq (JArr (map jurisdiction_source_json gs)) (JArr (map jurisdiction_source_json hs)) \<longleftrightarrow> gs = hs"
    for xs ys cs ds es fs gs hs
    by (rule json_eq_arr, rule json_eq_unit_type json_eq_contest_type json_eq_evidence_type
        json_eq_jurisdiction_source)+
  show ?thesis
    unfolding profile_json_def
    by (subst json_eq_fields)
      (auto simp: arr json_eq_terms [OF assms] same_profile_def profile_less_terms_eq simp del: json_eq.simps)
qed

lemma profile_parts_json_ok:
  "json_ok (unit_type_json u)" "json_ok (contest_type_json c)" "json_ok (evidence_type_json e)"
  "json_ok (jurisdiction_source_json s)"
  by (auto simp: unit_type_json_def contest_type_json_def evidence_type_json_def jurisdiction_source_json_def)

lemma profile_json_ok: "dict_ok (local_terms p) \<Longrightarrow> json_ok (profile_json p)"
  by (auto simp: profile_json_def profile_parts_json_ok dict_ok_def o_def case_prod_unfold)

lemma profile_fingerprint_eq:
  assumes "dict_ok (local_terms a)" "dict_ok (local_terms b)"
    "collision_free {canonical_json_bytes (profile_json a), canonical_json_bytes (profile_json b)}"
  shows "profile_fingerprint a = profile_fingerprint b \<longleftrightarrow> same_profile a b"
  unfolding profile_fingerprint_def
  by (simp add: hash_record_eq [OF profile_json_ok profile_json_ok _ _ assms(3)] assms(1,2) json_eq_profile)


section \<open>When a registry conforms to a profile\<close>

definition conforms :: "(string \<Rightarrow> string) \<Rightarrow> registry_payload \<Rightarrow> jurisdiction_profile_doc \<Rightarrow> bool" where
  "conforms upper p profile \<longleftrightarrow> upper (country_code p) = jp_country_code profile
     \<and> registry_scopes p \<subseteq> set (contest_scopes profile)
     \<and> (\<forall>c \<in> set (contests p). \<exists>d \<in> set (contest_types profile). jc_contest_type d = contest_type c
          \<and> choice_kind c = choice_kind_text (jc_choice_kind d))
     \<and> unit_type ` set (units p) \<subseteq> ju_unit_type ` set (unit_types profile)
     \<and> (\<forall>e \<in> set (topology p). \<forall>u \<in> set (units p). \<forall>t \<in> set (unit_types profile).
          ru_unit_id u = edge_parent e \<longrightarrow> ju_unit_type t = unit_type u \<longrightarrow> ju_role t \<noteq> LEAF_ROLE)"

lemma make_profile_Inr:
  "make_profile p = Inr q \<longleftrightarrow> q = p \<and> profile_fields_ok p \<and> distinct (contest_scopes p)
     \<and> distinct (map ju_unit_type (unit_types p)) \<and> distinct (map jc_contest_type (contest_types p))
     \<and> distinct (map je_evidence_type (evidence_types p)) \<and> distinct (map js_source_id (sources p))
     \<and> (\<forall>c \<in> set (contest_types p). set (result_unit_types c) \<subseteq> ju_unit_type ` set (unit_types p))
     \<and> (\<forall>s \<in> set (sources p). set (js_evidence_types s) \<subseteq> je_evidence_type ` set (evidence_types p))"
  by (auto simp: make_profile_def references_are_well_formed_def guarded_eq_Inr require_unique_def Let_def ball_Un)

lemma dict_of_key_get:
  "distinct (map key xs) \<Longrightarrow> dict_get (dict_of (map (\<lambda>x. (key x, f x)) xs)) k = Some v \<longleftrightarrow>
     (\<exists>x \<in> set xs. key x = k \<and> f x = v)"
  by (subst dict_get_of_distinct) (auto simp: o_def)

lemma check_contests_None:
  "check_contests types cs = None \<longleftrightarrow> (\<forall>c \<in> set cs. \<exists>d. dict_get types (contest_type c) = Some d
     \<and> choice_kind c = choice_kind_text (jc_choice_kind d))"
  by (induction cs) (auto split: option.splits)

lemma leaf_parents_ok:
  "\<forall>u \<in> set us. parent_role p profile u = Inr (role u) \<Longrightarrow>
     leaf_parents p profile us = Inr (filter (\<lambda>u. role u = LEAF_ROLE) us)"
  by (induction us) auto

lemma check_contests_profile:
  assumes "make_profile profile = Inr profile"
  shows "check_contests (profile_contest_types profile) (contests p) = None \<longleftrightarrow>
    (\<forall>c \<in> set (contests p). \<exists>d \<in> set (contest_types profile). jc_contest_type d = contest_type c
       \<and> choice_kind c = choice_kind_text (jc_choice_kind d))"
proof -
  have "distinct (map jc_contest_type (contest_types profile))" using assms by (simp add: make_profile_Inr)
  note get = dict_of_key_get [OF this, of "\<lambda>i. i"]
  show ?thesis unfolding check_contests_None profile_contest_types_def get by blast
qed

text \<open>On accepted payloads and profiles that agree on unit types, the lookups of the last check succeed.\<close>

lemma leaf_parents_profile:
  assumes "make_registry_payload p = Inr p" "make_profile profile = Inr profile"
    "unit_type ` set (units p) \<subseteq> ju_unit_type ` set (unit_types profile)"
  shows "\<exists>bad. leaf_parents p profile (sorted_set (set (map edge_parent (topology p)))) = Inr bad
    \<and> (bad = [] \<longleftrightarrow> (\<forall>e \<in> set (topology p). \<forall>u \<in> set (units p). \<forall>t \<in> set (unit_types profile).
          ru_unit_id u = edge_parent e \<longrightarrow> ju_unit_type t = unit_type u \<longrightarrow> ju_role t \<noteq> LEAF_ROLE))"
proof -
  have d: "distinct (map ru_unit_id (units p))" "distinct (map ju_unit_type (unit_types profile))"
    and par: "edge_parent ` set (topology p) \<subseteq> ru_unit_id ` set (units p)"
    using assms(1,2) by (auto simp: make_registry_payload_Inr make_profile_Inr)
  note getu = dict_of_key_get [OF d(1), of "\<lambda>u. u", folded payload_units_def]
  note getr = dict_of_key_get [OF d(2), of ju_role, folded unit_roles_def]
  have role: "\<exists>u t. u \<in> set (units p) \<and> t \<in> set (unit_types profile) \<and> ru_unit_id u = n
      \<and> ju_unit_type t = unit_type u \<and> parent_role p profile n = Inr (ju_role t)"
    if n: "n \<in> edge_parent ` set (topology p)" for n
  proof -
    obtain u where u: "u \<in> set (units p)" "ru_unit_id u = n"
      using subsetD [OF par n] by (elim imageE) simp
    obtain t where t: "t \<in> set (unit_types profile)" "ju_unit_type t = unit_type u"
      using subsetD [OF assms(3) imageI [OF u(1)]] by (elim imageE) simp
    have "dict_get (payload_units p) n = Some u" "dict_get (unit_roles profile) (unit_type u) = Some (ju_role t)"
      using u t getu getr by blast+
    then have "parent_role p profile n = Inr (ju_role t)" by (simp add: parent_role_def)
    with u t show ?thesis by blast
  qed
  define rl where "rl n = (case parent_role p profile n of Inr r \<Rightarrow> r | Inl _ \<Rightarrow> LEAF_ROLE)" for n
  have rl: "parent_role p profile n = Inr (rl n)" if "n \<in> edge_parent ` set (topology p)" for n
    using role [OF that] by (auto simp: rl_def)
  have L: "leaf_parents p profile (sorted_set (set (map edge_parent (topology p)))) =
      Inr (filter (\<lambda>n. rl n = LEAF_ROLE) (sorted_set (set (map edge_parent (topology p)))))"
    by (rule leaf_parents_ok) (simp add: rl)
  have val: "rl n = ju_role t" if "n \<in> edge_parent ` set (topology p)" "u \<in> set (units p)"
    "t \<in> set (unit_types profile)" "ru_unit_id u = n" "ju_unit_type t = unit_type u" for n u t
  proof -
    have "dict_get (payload_units p) n = Some u" "dict_get (unit_roles profile) (unit_type u) = Some (ju_role t)"
      using that getu getr by blast+
    then show ?thesis by (simp add: rl_def parent_role_def)
  qed
  have "filter (\<lambda>n. rl n = LEAF_ROLE) (sorted_set (set (map edge_parent (topology p)))) = [] \<longleftrightarrow>
      (\<forall>e \<in> set (topology p). rl (edge_parent e) \<noteq> LEAF_ROLE)"
    by (simp add: filter_empty_conv)
  also have "\<dots> \<longleftrightarrow> (\<forall>e \<in> set (topology p). \<forall>u \<in> set (units p). \<forall>t \<in> set (unit_types profile).
          ru_unit_id u = edge_parent e \<longrightarrow> ju_unit_type t = unit_type u \<longrightarrow> ju_role t \<noteq> LEAF_ROLE)"
  proof (rule ball_cong [OF refl])
    fix e assume "e \<in> set (topology p)"
    then have n: "edge_parent e \<in> edge_parent ` set (topology p)" by simp
    obtain u t where ut: "u \<in> set (units p)" "t \<in> set (unit_types profile)" "ru_unit_id u = edge_parent e"
      "ju_unit_type t = unit_type u" using role [OF n] by blast
    show "rl (edge_parent e) \<noteq> LEAF_ROLE \<longleftrightarrow> (\<forall>u \<in> set (units p). \<forall>t \<in> set (unit_types profile).
          ru_unit_id u = edge_parent e \<longrightarrow> ju_unit_type t = unit_type u \<longrightarrow> ju_role t \<noteq> LEAF_ROLE)"
    proof
      assume "rl (edge_parent e) \<noteq> LEAF_ROLE"
      then show "\<forall>u \<in> set (units p). \<forall>t \<in> set (unit_types profile).
          ru_unit_id u = edge_parent e \<longrightarrow> ju_unit_type t = unit_type u \<longrightarrow> ju_role t \<noteq> LEAF_ROLE"
        using val [OF n] by (intro ballI impI) simp
    next
      assume "\<forall>u \<in> set (units p). \<forall>t \<in> set (unit_types profile).
          ru_unit_id u = edge_parent e \<longrightarrow> ju_unit_type t = unit_type u \<longrightarrow> ju_role t \<noteq> LEAF_ROLE"
      then show "rl (edge_parent e) \<noteq> LEAF_ROLE" using ut val [OF n ut] by simp
    qed
  qed
  finally have "filter (\<lambda>n. rl n = LEAF_ROLE) (sorted_set (set (map edge_parent (topology p)))) = [] \<longleftrightarrow>
      (\<forall>e \<in> set (topology p). \<forall>u \<in> set (units p). \<forall>t \<in> set (unit_types profile).
          ru_unit_id u = edge_parent e \<longrightarrow> ju_unit_type t = unit_type u \<longrightarrow> ju_role t \<noteq> LEAF_ROLE)" .
  with L show ?thesis by blast
qed

lemma unit_roles_keys [simp]: "dict_keys (unit_roles profile) = ju_unit_type ` set (unit_types profile)"
  by (simp add: unit_roles_def dict_keys_of image_image)

lemma finite_registry_scopes [simp]: "finite (registry_scopes p)"
  by (simp add: registry_scopes_def)

lemma validate_registry_iff:
  assumes "make_registry_payload p = Inr p" "make_profile profile = Inr profile"
  shows "validate_registry_against_profile upper p profile = Inr q \<longleftrightarrow> conforms upper p profile \<and> q = p"
proof (cases "unit_type ` set (units p) \<subseteq> ju_unit_type ` set (unit_types profile)")
  case True
  obtain bad where "leaf_parents p profile (sorted_set (set (map edge_parent (topology p)))) = Inr bad"
    "bad = [] \<longleftrightarrow> (\<forall>e \<in> set (topology p). \<forall>u \<in> set (units p). \<forall>t \<in> set (unit_types profile).
          ru_unit_id u = edge_parent e \<longrightarrow> ju_unit_type t = unit_type u \<longrightarrow> ju_role t \<noteq> LEAF_ROLE)"
    using leaf_parents_profile [OF assms True] by blast
  then show ?thesis
    using True check_contests_profile [OF assms(2), of p]
    by (auto simp: validate_registry_against_profile_def conforms_def guarded_eq_Inr split: option.split)
next
  case False
  then show ?thesis
    by (auto simp: validate_registry_against_profile_def conforms_def split: option.splits if_splits)
qed

text \<open>Binding a registry to a profile succeeds exactly when the registry conforms to it (country, contest
  scopes, contest types with their choice kind, unit types, and no leaf-only unit above another)
  and is not already bound to another profile; the result is the same registry with the binding,
  and the registry's own validation still accepts it.\<close>

theorem bind_registry_iff:
  assumes "make_registry_payload p = Inr p" "make_profile profile = Inr profile"
  shows "(bind_registry_to_profile upper p profile = Inr q \<longleftrightarrow> conforms upper p profile
      \<and> jurisdiction_profile p \<in> {None, Some (profile_binding_of profile)}
      \<and> q = p\<lparr>jurisdiction_profile := Some (profile_binding_of profile)\<rparr>)
    \<and> make_registry_payload (p\<lparr>jurisdiction_profile := Some (profile_binding_of profile)\<rparr>) =
        Inr (p\<lparr>jurisdiction_profile := Some (profile_binding_of profile)\<rparr>)"
proof -
  have "profile_binding_ok (profile_binding_of profile)"
    using assms(2) by (simp add: make_profile_Inr profile_fields_ok_def identifier_ok_def profile_binding_ok_def
        profile_binding_of_def profile_fingerprint_def)
  then have "make_registry_payload (p\<lparr>jurisdiction_profile := Some (profile_binding_of profile)\<rparr>) =
        Inr (p\<lparr>jurisdiction_profile := Some (profile_binding_of profile)\<rparr>)"
    using assms(1) by (simp add: make_registry_payload_Inr registry_fields_ok_def)
  moreover have "bind_registry_to_profile upper p profile = Inr q \<longleftrightarrow> conforms upper p profile
      \<and> jurisdiction_profile p \<in> {None, Some (profile_binding_of profile)}
      \<and> q = p\<lparr>jurisdiction_profile := Some (profile_binding_of profile)\<rparr>"
    using validate_registry_iff [OF assms, of upper]
    by (auto simp: bind_registry_to_profile_def split: if_splits)
  ultimately show ?thesis by blast
qed

lemma bind_registry_Inr:
  "bind_registry_to_profile upper p profile = Inr q \<Longrightarrow>
     q = p\<lparr>jurisdiction_profile := Some (profile_binding_of profile)\<rparr>
     \<and> jurisdiction_profile p \<in> {None, Some (profile_binding_of profile)}"
  by (auto simp: bind_registry_to_profile_def split: if_splits)

text \<open>A registry bound to one profile can never be bound again to a different one: a second binding
  only succeeds for the same profile, down to the last field, and changes nothing, unless SHA-256
  collides on the two profile documents.\<close>

theorem bound_profile_is_exact:
  assumes "bind_registry_to_profile upper p a = Inr q" "bind_registry_to_profile upper q b = Inr r"
    "make_profile a = Inr a" "make_profile b = Inr b"
    "collision_free {canonical_json_bytes (profile_json a), canonical_json_bytes (profile_json b)}"
  shows "same_profile a b \<and> r = q"
proof -
  have q: "jurisdiction_profile q = Some (profile_binding_of a)"
    using bind_registry_Inr [OF assms(1)] by simp
  then have eq: "profile_binding_of a = profile_binding_of b" using bind_registry_Inr [OF assms(2)] by simp
  then have "profile_fingerprint a = profile_fingerprint b" by (simp add: profile_binding_of_def)
  then have "same_profile a b"
    using profile_fingerprint_eq [OF _ _ assms(5)] assms(3,4) by (simp add: make_profile_Inr profile_fields_ok_def)
  moreover have "r = q" using bind_registry_Inr [OF assms(2)] q eq by (cases q) auto
  ultimately show ?thesis by blast
qed


section \<open>The reference profiles\<close>

definition nigeria_reference_profile :: jurisdiction_profile_doc where
  "nigeria_reference_profile = \<lparr>profile_id = ''ng.inec.reference'', profile_version = 1,
     jp_country_code = ''NG'', jurisdiction_code = ''NG'',
     jp_display_name = ''Nigeria INEC reference profile'',
     election_authority = ''Independent National Electoral Commission'',
     contest_scopes = [''national'', ''state'', ''constituency'', ''local''],
     unit_types =
       [\<lparr>ju_unit_type = ''polling_unit'', ju_display_name = ''Polling Unit'', ju_role = LEAF_ROLE\<rparr>,
        \<lparr>ju_unit_type = ''ward'', ju_display_name = ''Ward'', ju_role = EITHER_ROLE\<rparr>,
        \<lparr>ju_unit_type = ''lga'', ju_display_name = ''Local Government Area'', ju_role = EITHER_ROLE\<rparr>,
        \<lparr>ju_unit_type = ''state'', ju_display_name = ''State'', ju_role = EITHER_ROLE\<rparr>,
        \<lparr>ju_unit_type = ''constituency'', ju_display_name = ''Constituency'', ju_role = EITHER_ROLE\<rparr>,
        \<lparr>ju_unit_type = ''national'', ju_display_name = ''National'', ju_role = AGGREGATION_ROLE\<rparr>],
     contest_types =
       [\<lparr>jc_contest_type = ''candidate_election'', jc_display_name = ''Candidate election'',
         jc_choice_kind = CANDIDATE_KIND,
         result_unit_types = [''polling_unit'', ''ward'', ''lga'', ''state'', ''constituency'', ''national'']\<rparr>],
     evidence_types =
       [\<lparr>je_evidence_type = ''polling_unit_result_record'',
         je_display_name = ''Polling-unit result record'', je_role = PRIMARY_RESULT_ROLE\<rparr>,
        \<lparr>je_evidence_type = ''final_declaration'', je_display_name = ''Final declaration'',
         je_role = DECLARATION_ROLE\<rparr>],
     sources =
       [\<lparr>js_source_id = ''inec.irev'', js_provider = ''Independent National Electoral Commission'',
         authority_role = ELECTION_AUTHORITY, js_evidence_types = [''polling_unit_result_record''],
         publication_status = PROVISIONAL, final_declaration_authority = False,
         js_notes = Some (''IReV publications are treated as source evidence, not as the final legal ''
           @ ''declaration of a contest. Source transport remains separately governed.'')\<rparr>],
     local_terms = [(''primary_result_form'', ''EC8A''), (''result_viewing_portal'', ''IReV''),
       (''local_government_area'', ''LGA'')]\<rparr>"

definition synthetic_federated_profile :: jurisdiction_profile_doc where
  "synthetic_federated_profile = \<lparr>profile_id = ''zz.federated.conformance'', profile_version = 1,
     jp_country_code = ''ZZ'', jurisdiction_code = ''ZZ-FED'',
     jp_display_name = ''Synthetic federated conformance jurisdiction'',
     election_authority = ''Synthetic Electoral Office'',
     contest_scopes = [''federal'', ''regional'', ''municipal''],
     unit_types =
       [\<lparr>ju_unit_type = ''precinct'', ju_display_name = ''Precinct'', ju_role = LEAF_ROLE\<rparr>,
        \<lparr>ju_unit_type = ''county'', ju_display_name = ''County'', ju_role = AGGREGATION_ROLE\<rparr>,
        \<lparr>ju_unit_type = ''region'', ju_display_name = ''Region'', ju_role = AGGREGATION_ROLE\<rparr>],
     contest_types =
       [\<lparr>jc_contest_type = ''referendum'', jc_display_name = ''Referendum'', jc_choice_kind = OPTION_KIND,
         result_unit_types = [''precinct'', ''county'', ''region'']\<rparr>],
     evidence_types =
       [\<lparr>je_evidence_type = ''precinct_statement'', je_display_name = ''Precinct statement'',
         je_role = PRIMARY_RESULT_ROLE\<rparr>,
        \<lparr>je_evidence_type = ''certified_canvass'', je_display_name = ''Certified canvass'',
         je_role = DECLARATION_ROLE\<rparr>],
     sources =
       [\<lparr>js_source_id = ''zz.publication'', js_provider = ''Synthetic Electoral Office'',
         authority_role = ELECTION_AUTHORITY,
         js_evidence_types = [''precinct_statement'', ''certified_canvass''],
         publication_status = MIXED_STATUS, final_declaration_authority = True, js_notes = None\<rparr>],
     local_terms = []\<rparr>"

lemmas profile_checks = profile_fields_ok_def identifier_ok_def lower_alnum_def unit_type_ok_def
  contest_type_ok_def result_unit_types_are_unique_def evidence_type_ok_def evidence_types_are_unique_def
  len_between_def py_len_def dict_ok_def

text \<open>Building the reference profiles never raises.\<close>

lemma nigeria_profile_ok: "make_profile nigeria_reference_profile = Inr nigeria_reference_profile"
  by (simp add: make_profile_Inr nigeria_reference_profile_def profile_checks)

lemma synthetic_profile_ok: "make_profile synthetic_federated_profile = Inr synthetic_federated_profile"
  by (simp add: make_profile_Inr synthetic_federated_profile_def profile_checks)

definition demo_referendum :: registry_payload where
  "demo_referendum = demo_payload\<lparr>country_code := ''ZZ'',
     contests := [\<lparr>rg_contest_id = ''C'', contest_name = ''C'', scope = ''federal'',
       contest_type = ''referendum'', choice_kind = ''option''\<rparr>],
     units := [\<lparr>ru_unit_id = ''W'', unit_type = ''county'', unit_name = None, unit_parent = None\<rparr>,
       \<lparr>ru_unit_id = ''p1'', unit_type = ''precinct'', unit_name = None, unit_parent = Some ''W''\<rparr>]\<rparr>"

lemma demo_referendum_ok: "make_registry_payload demo_referendum = Inr demo_referendum"
  by (simp add: make_registry_payload_Inr demo_referendum_def demo_payload_def registry_fields_ok_def
      registry_source_ok_def registry_contest_ok_def registry_choice_ok_def registry_unit_ok_def
      topology_edge_ok_def len_between_def py_len_def)

lemma demo_referendum_conforms: "conforms (\<lambda>s. s) demo_referendum synthetic_federated_profile"
  by (simp add: conforms_def demo_referendum_def demo_payload_def synthetic_federated_profile_def
      registry_scopes_def choice_kind_text_def)

definition demo_bound :: registry_payload where
  "demo_bound = demo_referendum\<lparr>jurisdiction_profile := Some (profile_binding_of synthetic_federated_profile)\<rparr>"

lemma bind_registry_iff_witness:
  "bind_registry_to_profile (\<lambda>s. s) demo_referendum synthetic_federated_profile = Inr demo_bound
   \<and> make_registry_payload demo_bound = Inr demo_bound"
  using bind_registry_iff [OF demo_referendum_ok synthetic_profile_ok, of "\<lambda>s. s" demo_bound]
    demo_referendum_conforms
  by (simp add: demo_bound_def) (simp add: demo_referendum_def demo_payload_def)

lemma demo_binding:
  "bind_registry_to_profile (\<lambda>s. s) demo_referendum synthetic_federated_profile = Inr demo_bound"
  "bind_registry_to_profile (\<lambda>s. s) demo_bound synthetic_federated_profile = Inr demo_bound"
proof -
  have v: "validate_registry_against_profile (\<lambda>s. s) demo_referendum synthetic_federated_profile = Inr demo_referendum"
    using validate_registry_iff [OF demo_referendum_ok synthetic_profile_ok] demo_referendum_conforms by blast
  have "validate_registry_against_profile (\<lambda>s. s) (p\<lparr>jurisdiction_profile := b\<rparr>) profile =
      map_sum id (\<lambda>q. q\<lparr>jurisdiction_profile := b\<rparr>) (validate_registry_against_profile (\<lambda>s. s) p profile)"
    for p b profile
  proof -
    have "leaf_parents (p\<lparr>jurisdiction_profile := b\<rparr>) profile us = leaf_parents p profile us" for us
      by (induction us) (simp_all add: parent_role_def payload_units_def)
    then show ?thesis
      by (simp add: validate_registry_against_profile_def registry_scopes_def guarded_def
          bind_result_def split: option.split sum.split)
  qed
  with v show "bind_registry_to_profile (\<lambda>s. s) demo_referendum synthetic_federated_profile = Inr demo_bound"
    "bind_registry_to_profile (\<lambda>s. s) demo_bound synthetic_federated_profile = Inr demo_bound"
    by (simp_all add: bind_registry_to_profile_def demo_bound_def)
      (simp add: demo_referendum_def demo_payload_def)
qed

lemma bound_profile_is_exact_witness:
  "same_profile synthetic_federated_profile synthetic_federated_profile \<and> demo_bound = demo_bound"
  by (rule bound_profile_is_exact [OF demo_binding synthetic_profile_ok synthetic_profile_ok]) simp

end
