(* ===== verification/Leases.thy ===== *)
theory Leases
  imports Evidence_Models Complex_Main
begin

text \<open>
  src/ballotproof/postgres_leases.py: the fenced worker lease, one row in PostgreSQL, with the tokens
  each process remembers. Times are readings of \<open>clock_timestamp()\<close> in microseconds;
  every reading in a statement is a value of its own. \<open>iv\<close> is
  \<open>seconds * interval '1 second'\<close> in microseconds. The conflicting INSERT and the locked
  SELECT/UPDATE are separate atomic steps, between which other sessions may act.
\<close>

section \<open>State\<close>

record fenced_lease =
  worker_id :: string
  fencing_token :: int
  acquired_at :: int
  expires_at :: int

record lease_state =
  lease_row :: "fenced_lease option"
  held_tokens :: "nat \<Rightarrow> int dict"

record clock_readings =
  insert_acquired :: int
  insert_expires :: int
  database_now :: int
  update_check :: int
  update_acquired :: int
  update_expires :: int

definition lease_ok :: "fenced_lease \<Rightarrow> bool" where
  "lease_ok l = (len_between 1 128 (worker_id l) \<and> 1 \<le> fencing_token l)"

definition no_lease :: lease_state where
  "no_lease = \<lparr>lease_row = None, held_tokens = (\<lambda>_. [])\<rparr>"

definition remember :: "nat \<Rightarrow> fenced_lease \<Rightarrow> lease_state \<Rightarrow> lease_state" where
  "remember process l st = st\<lparr>lease_row := Some l,
     held_tokens := (held_tokens st)(process := dict_set (worker_id l) (fencing_token l) (held_tokens st process))\<rparr>"

section \<open>Operations\<close>

text \<open>\<open>INSERT ... ON CONFLICT DO NOTHING RETURNING\<close>; \<open>None\<close> is a conflict.\<close>

definition insert_lease :: "(rat \<Rightarrow> int) \<Rightarrow> nat \<Rightarrow> string \<Rightarrow> rat \<Rightarrow> clock_readings \<Rightarrow> lease_state
    \<Rightarrow> (lease_state \<times> fenced_lease) option result" where
  "insert_lease iv process worker secs clk st = (case lease_row st of
       Some _ \<Rightarrow> return None
     | None \<Rightarrow>
         (let l = \<lparr>worker_id = worker, fencing_token = 1, acquired_at = insert_acquired clk,
            expires_at = insert_expires clk + iv secs\<rparr>
          in if lease_ok l then return (Some (remember process l st, l)) else raise field_error))"

text \<open>The locked SELECT and the UPDATE; \<open>None\<close> when another worker's lease is active.\<close>

definition renew_lease :: "(rat \<Rightarrow> int) \<Rightarrow> nat \<Rightarrow> string \<Rightarrow> rat \<Rightarrow> clock_readings \<Rightarrow> lease_state
    \<Rightarrow> (lease_state \<times> fenced_lease option) result" where
  "renew_lease iv process worker secs clk st = (case lease_row st of
       None \<Rightarrow> raise (RuntimeError ''PostgreSQL lease conflict resolved without a row'')
     | Some row \<Rightarrow>
         (let active = database_now clk < expires_at row in
          if active \<and> worker_id row \<noteq> worker then return (st, None)
          else (let same_active_holder = active \<and> worker_id row = worker;
                    l = \<lparr>worker_id = worker,
                      fencing_token = (if same_active_holder then fencing_token row else fencing_token row + 1),
                      acquired_at = (if worker_id row = worker \<and> update_check clk < expires_at row
                        then acquired_at row else update_acquired clk),
                      expires_at = update_expires clk + iv secs\<rparr>
                in if lease_ok l then return (remember process l st, Some l) else raise field_error)))"

definition try_acquire :: "(rat \<Rightarrow> int) \<Rightarrow> nat \<Rightarrow> string \<Rightarrow> rat \<Rightarrow> clock_readings \<Rightarrow> lease_state
    \<Rightarrow> (lease_state \<times> fenced_lease option) result" where
  "try_acquire iv process worker secs clk st =
     (if secs \<le> 0 then raise (ValueError ''lease_seconds must be positive'')
      else bind_result (insert_lease iv process worker secs clk st) (\<lambda>inserted.
        case inserted of
          Some (st', l) \<Rightarrow> return (st', Some l)
        | None \<Rightarrow> renew_lease iv process worker secs clk st))"

definition assert_current :: "fenced_lease \<Rightarrow> int \<Rightarrow> lease_state \<Rightarrow> unit result" where
  "assert_current l now st = (case lease_row st of
       None \<Rightarrow> raise (PermissionError ''worker lease is no longer present'')
     | Some row \<Rightarrow>
         if worker_id row \<noteq> worker_id l \<or> fencing_token row \<noteq> fencing_token l \<or> expires_at row \<le> now
         then raise (PermissionError ''worker lease fencing token is stale'') else return ())"

definition release_lease :: "nat \<Rightarrow> string \<Rightarrow> lease_state \<Rightarrow> lease_state \<times> bool" where
  "release_lease process worker st = (case dict_get (held_tokens st process) worker of
       None \<Rightarrow> (st, False)
     | Some token \<Rightarrow>
         (let st' = st\<lparr>held_tokens := (held_tokens st)(process := AList.delete worker (held_tokens st process))\<rparr> in
          case lease_row st of
            None \<Rightarrow> (st', False)
          | Some row \<Rightarrow>
              if worker_id row = worker \<and> fencing_token row = token then (st'\<lparr>lease_row := None\<rparr>, True)
              else (st', False)))"

definition active_lease :: "int \<Rightarrow> lease_state \<Rightarrow> fenced_lease option" where
  "active_lease now st = (case lease_row st of
       None \<Rightarrow> None | Some row \<Rightarrow> if expires_at row \<le> now then None else Some row)"

section \<open>Mutual exclusion\<close>

text \<open>All readings of an operation lie between two times.\<close>

definition readings_in :: "int \<Rightarrow> int \<Rightarrow> clock_readings \<Rightarrow> bool" where
  "readings_in t t' clk \<longleftrightarrow> list_all (\<lambda>c. t \<le> c \<and> c \<le> t')
     [insert_acquired clk, insert_expires clk, database_now clk, update_check clk, update_acquired clk, update_expires clk]"

text \<open>What the other workers can do between two times, in any processes and any interleaving of the
  statements of their operations.\<close>

inductive others_run :: "(rat \<Rightarrow> int) \<Rightarrow> string \<Rightarrow> int \<Rightarrow> lease_state \<Rightarrow> int \<Rightarrow> lease_state \<Rightarrow> bool"
  for iv worker where
  idle: "t \<le> t' \<Longrightarrow> others_run iv worker t st t' st"
| insert: "others_run iv worker t st t1 st1 \<Longrightarrow> readings_in t1 t2 clk \<Longrightarrow> other \<noteq> worker \<Longrightarrow>
    insert_lease iv process other secs clk st1 = Inr (Some (st2, l)) \<Longrightarrow> others_run iv worker t st t2 st2"
| renew: "others_run iv worker t st t1 st1 \<Longrightarrow> readings_in t1 t2 clk \<Longrightarrow> other \<noteq> worker \<Longrightarrow>
    renew_lease iv process other secs clk st1 = Inr (st2, res) \<Longrightarrow> others_run iv worker t st t2 st2"
| release: "others_run iv worker t st t1 st1 \<Longrightarrow> t1 \<le> t2 \<Longrightarrow> other \<noteq> worker \<Longrightarrow>
    release_lease process other st1 = (st2, gone) \<Longrightarrow> others_run iv worker t st t2 st2"

lemma readings_in_le: "readings_in t t' clk \<Longrightarrow> t \<le> t'"
  by (simp add: readings_in_def)

lemma others_run_time: "others_run iv worker t st t' st' \<Longrightarrow> t \<le> t'"
  by (induction rule: others_run.induct) (use readings_in_le in fastforce)+

lemma try_acquire_row:
  assumes "try_acquire iv process worker secs clk st = Inr (st', Some l)"
  shows "lease_row st' = Some l" "worker_id l = worker" "lease_ok l"
  using assms by (auto simp: try_acquire_def insert_lease_def renew_lease_def remember_def Let_def
      split: option.splits if_splits)

lemma renew_blocked:
  assumes "lease_row st = Some l" "worker_id l \<noteq> other" "database_now clk < expires_at l"
  shows "renew_lease iv process other secs clk st = Inr (st, None)"
  using assms by (simp add: renew_lease_def)

lemma release_other:
  assumes "lease_row st = Some l" "worker_id l \<noteq> other" "release_lease process other st = (st', gone)"
  shows "lease_row st' = Some l"
  using assms by (auto simp: release_lease_def Let_def split: option.splits if_splits)

lemma others_keep_lease:
  assumes "others_run iv worker t st t' st'" "lease_row st = Some l" "worker_id l = worker" "t' < expires_at l"
  shows "lease_row st' = Some l"
  using assms
proof (induction rule: others_run.induct)
  case (insert t st t1 st1 t2 clk other process secs st2 l')
  then have "lease_row st1 = Some l" using readings_in_le by fastforce
  with insert.hyps show ?case by (simp add: insert_lease_def)
next
  case (renew t st t1 st1 t2 clk other process secs st2 res)
  have le: "t1 \<le> t2" "database_now clk \<le> t2" using renew.hyps(2) by (auto simp: readings_in_def)
  then have "lease_row st1 = Some l" using renew by fastforce
  with renew_blocked [OF this] renew.hyps(3,4) renew.prems le show ?case by auto
next
  case (release t st t1 st1 t2 other process st2 gone)
  then have "lease_row st1 = Some l" by fastforce
  with release_other [OF this _ release.hyps(4)] release.hyps(3) release.prems(2) show ?case by simp
qed auto

text \<open>The lease excludes all other workers until it expires: whatever they do in any interleaving, the
  holder's fencing token stays current, it is the active lease, and every attempt of another
  worker to acquire is turned down and changes nothing.\<close>

theorem lease_excludes_others:
  assumes "try_acquire iv process worker secs clk st = Inr (st1, Some l)"
    "others_run iv worker t1 st1 t2 st2" "t2 < expires_at l"
    "other \<noteq> worker" "readings_in t2 t3 clk'" "t3 < expires_at l" "0 < secs'"
  shows "assert_current l t2 st2 = Inr () \<and> active_lease t2 st2 = Some l
    \<and> try_acquire iv process' other secs' clk' st2 = Inr (st2, None)"
proof -
  note l = try_acquire_row [OF assms(1)]
  have row: "lease_row st2 = Some l" by (rule others_keep_lease [OF assms(2) l(1,2) assms(3)])
  have "database_now clk' < expires_at l" using assms(5,6) by (simp add: readings_in_def)
  then have "renew_lease iv process' other secs' clk' st2 = Inr (st2, None)"
    using assms(4) l(2) by (intro renew_blocked [OF row]) simp_all
  then show ?thesis
    using row assms(3,7) by (simp add: assert_current_def active_lease_def try_acquire_def insert_lease_def)
qed

section \<open>Fencing tokens\<close>

text \<open>Runs of all workers without a release: acquisitions only, and time passing.\<close>

inductive acquiring_run :: "(rat \<Rightarrow> int) \<Rightarrow> lease_state \<Rightarrow> lease_state \<Rightarrow> bool" for iv where
  start: "acquiring_run iv st st"
| acquire: "acquiring_run iv st st1 \<Longrightarrow> try_acquire iv process worker secs clk st1 = Inr (st2, res) \<Longrightarrow>
    acquiring_run iv st st2"

definition newer :: "fenced_lease \<Rightarrow> fenced_lease \<Rightarrow> bool" where
  "newer l row \<longleftrightarrow> fencing_token l < fencing_token row \<or> fencing_token l = fencing_token row \<and> worker_id l = worker_id row"

lemma try_acquire_newer:
  assumes "try_acquire iv process worker secs clk st = Inr (st', res)" "lease_row st = Some row"
  shows "\<exists>row'. lease_row st' = Some row' \<and> newer row row'"
  using assms by (auto simp: try_acquire_def insert_lease_def renew_lease_def remember_def Let_def newer_def
      split: if_splits)

lemma superseded_stale:
  assumes "try_acquire iv process worker secs clk st = Inr (st1, Some l)" "acquiring_run iv st1 st2"
    "lease_row st2 = Some row" "worker_id row \<noteq> worker" "acquiring_run iv st2 st3"
  shows "fencing_token l < fencing_token row \<and> assert_current l now st3 \<noteq> Inr ()"
proof -
  have run: "\<exists>row'. lease_row s' = Some row' \<and> newer r row'" if "acquiring_run iv s s'" "lease_row s = Some r" for s s' r
    using that
  proof (induction rule: acquiring_run.induct)
    case (acquire st st1 process worker secs clk st2 res)
    then obtain row1 where "lease_row st1 = Some row1" "newer r row1" by blast
    moreover from try_acquire_newer [OF acquire.hyps(2) this(1)]
    obtain row2 where "lease_row st2 = Some row2" "newer row1 row2" by blast
    ultimately show ?case by (auto simp: newer_def)
  qed (simp add: newer_def)
  note l = try_acquire_row [OF assms(1)]
  have "newer l row" using run [OF assms(2) l(1)] assms(3) by auto
  then have lt: "fencing_token l < fencing_token row" using assms(4) l(2) by (auto simp: newer_def)
  obtain row3 where "lease_row st3 = Some row3" "newer row row3" using run [OF assms(5,3)] by blast
  then have "assert_current l now st3 \<noteq> Inr ()" using lt by (auto simp: assert_current_def newer_def)
  with lt show ?thesis ..
qed

text \<open>Fencing works as long as leases are left to expire: once another worker has got the lease, its token is
  larger, so the lease of the former holder is never current again, whoever acquires later.\<close>

theorem superseded_lease_is_stale:
  assumes "try_acquire iv process worker secs clk st = Inr (st1, Some l)" "acquiring_run iv st1 st2"
    "lease_row st2 = Some row" "worker_id row \<noteq> worker" "acquiring_run iv st2 st3"
  shows "fencing_token l < fencing_token row \<and> assert_current l now st3 \<noteq> Inr ()"
  by (rule superseded_stale [OF assms])

section \<open>Concrete leases\<close>

definition demo_readings :: "int \<Rightarrow> clock_readings" where
  "demo_readings t = \<lparr>insert_acquired = t, insert_expires = t, database_now = t, update_check = t,
     update_acquired = t, update_expires = t\<rparr>"

definition demo_lease :: "string \<Rightarrow> int \<Rightarrow> int \<Rightarrow> fenced_lease" where
  "demo_lease w token t = \<lparr>worker_id = w, fencing_token = token, acquired_at = t, expires_at = t + 10\<rparr>"

lemma demo_lease_ok: "w \<in> {''A'', ''B''} \<Longrightarrow> 1 \<le> token \<Longrightarrow> lease_ok (demo_lease w token t)"
  by (auto simp: lease_ok_def demo_lease_def len_between_def py_len_def)

lemma demo_acquire_first:
  "try_acquire (\<lambda>_. 10) 0 ''A'' 10 (demo_readings 0) no_lease =
     Inr (remember 0 (demo_lease ''A'' 1 0) no_lease, Some (demo_lease ''A'' 1 0))"
  using demo_lease_ok [of "''A''" 1 0]
  by (simp add: try_acquire_def insert_lease_def no_lease_def demo_readings_def demo_lease_def Let_def)

lemma lease_excludes_others_witness:
  "assert_current (demo_lease ''A'' 1 0) 5 (remember 0 (demo_lease ''A'' 1 0) no_lease) = Inr ()"
proof -
  have "others_run (\<lambda>_. 10) ''A'' 0 (remember 0 (demo_lease ''A'' 1 0) no_lease) 5
      (remember 0 (demo_lease ''A'' 1 0) no_lease)" by (rule others_run.idle) simp
  from lease_excludes_others [OF demo_acquire_first this, of "''B''" 5 "demo_readings 5" 1]
  show ?thesis by (simp add: demo_lease_def demo_readings_def readings_in_def)
qed

lemma demo_takeover:
  "try_acquire (\<lambda>_. 10) 1 ''B'' 10 (demo_readings 20) (remember 0 (demo_lease ''A'' 1 0) no_lease) =
     Inr (remember 1 (demo_lease ''B'' 2 20) (remember 0 (demo_lease ''A'' 1 0) no_lease), Some (demo_lease ''B'' 2 20))"
  using demo_lease_ok [of "''B''" 2 20]
  by (simp add: try_acquire_def insert_lease_def renew_lease_def remember_def no_lease_def demo_readings_def
      demo_lease_def Let_def)

lemma superseded_lease_is_stale_witness:
  "assert_current (demo_lease ''A'' 1 0) 25
     (remember 1 (demo_lease ''B'' 2 20) (remember 0 (demo_lease ''A'' 1 0) no_lease)) \<noteq> Inr ()"
  using superseded_lease_is_stale [OF demo_acquire_first
      acquiring_run.acquire [OF acquiring_run.start demo_takeover] _ _ acquiring_run.start, of "demo_lease ''B'' 2 20" 25]
  by (simp add: remember_def demo_lease_def)

text \<open>A release deletes the row, and the next lease starts with token 1 again: the lease that worker A lost
  to B (token 2) is current once more after B released and another process of A acquired.\<close>

lemma released_token_reused:
  "\<exists>st1 st2 st3 st4 la lb la'.
     try_acquire (\<lambda>_. 10) 0 ''A'' 10 (demo_readings 0) no_lease = Inr (st1, Some la)
     \<and> try_acquire (\<lambda>_. 10) 1 ''B'' 10 (demo_readings 20) st1 = Inr (st2, Some lb)
     \<and> assert_current la 20 st2 \<noteq> Inr ()
     \<and> release_lease 1 ''B'' st2 = (st3, True)
     \<and> try_acquire (\<lambda>_. 10) 2 ''A'' 10 (demo_readings 30) st3 = Inr (st4, Some la')
     \<and> fencing_token la' < fencing_token lb \<and> assert_current la 30 st4 = Inr ()"
proof -
  let ?s1 = "remember 0 (demo_lease ''A'' 1 0) no_lease"
  let ?s2 = "remember 1 (demo_lease ''B'' 2 20) ?s1"
  let ?s3 = "?s2\<lparr>held_tokens := (held_tokens ?s2)(1 := []), lease_row := None\<rparr>"
  have rel: "release_lease 1 ''B'' ?s2 = (?s3, True)"
    by (simp add: release_lease_def remember_def demo_lease_def no_lease_def)
  have again: "try_acquire (\<lambda>_. 10) 2 ''A'' 10 (demo_readings 30) ?s3 =
      Inr (remember 2 (demo_lease ''A'' 1 30) ?s3, Some (demo_lease ''A'' 1 30))"
    using demo_lease_ok [of "''A''" 1 30]
    by (simp add: try_acquire_def insert_lease_def demo_readings_def demo_lease_def Let_def)
  have stale: "assert_current (demo_lease ''A'' 1 0) 20 ?s2 \<noteq> Inr ()"
    "fencing_token (demo_lease ''A'' 1 30) < fencing_token (demo_lease ''B'' 2 20)"
    "assert_current (demo_lease ''A'' 1 0) 30 (remember 2 (demo_lease ''A'' 1 30) ?s3) = Inr ()"
    by (simp_all add: assert_current_def remember_def demo_lease_def)
  show ?thesis using demo_acquire_first demo_takeover rel again stale by blast
qed

end
