(* ===== verification/Semantic_Release.thy ===== *)
theory Semantic_Release
  imports Semantics Release_Exports
begin

text \<open>
  src/ballotproof/release_v023.py: a release with a signed semantic summary beside its manifest, and its
  verification. The write barrier around the build is that of \<open>Write_Barrier\<close>; pydantic's reader of the
  summary and its signature is \<open>semantic_reader\<close>.
\<close>

record semantic_reader =
  parse_summary :: "byte list \<Rightarrow> semantic_summary result"
  parse_semantic_signature :: "byte list \<Rightarrow> semantic_signature result"

definition semantic_summary_name :: string where
  "semantic_summary_name = ''semantic.summary.json''"

definition semantic_signature_name :: string where
  "semantic_signature_name = ''semantic.summary.signature.json''"

definition summary_json :: "semantic_summary \<Rightarrow> json" where
  "summary_json s = JObj [(''schema_version'', JStr ''1''), (''release_id'', JStr (ss_release_id s)),
     (''election_id'', JStr (ss_election_id s)), (''ledger_merkle_root'', JStr (ledger_merkle_root s)),
     (''semantic_algorithm'', JStr ''sha256-semantic-record-set-v1''),
     (''semantic_record_count'', JInt (semantic_record_count s)), (''semantic_root'', JStr (semantic_root s)),
     (''normalization_sha256'', JStr (normalization_sha256 s)),
     (''snapshot_strategy'', JStr ''ballotproof-write-barrier-v1'')]"

definition semantic_signature_json :: "semantic_signature \<Rightarrow> json" where
  "semantic_signature_json s = JObj [(''algorithm'', JStr ''Ed25519''),
     (''semantic_summary_sha256'', JStr (semantic_summary_sha256 s)), (''public_key_b64'', JStr (ssg_public_key_b64 s)),
     (''signer_key_sha256'', JStr (ssg_signer_key_sha256 s)), (''signature_b64'', JStr (ssg_signature_b64 s))]"

definition signed_summary :: "release_library \<Rightarrow> byte list \<Rightarrow> byte list \<Rightarrow> semantic_signature" where
  "signed_summary lib private msg = \<lparr>semantic_summary_sha256 = sha256_bytes msg,
     ssg_public_key_b64 = b64encode (public_bytes lib private),
     ssg_signer_key_sha256 = sha256_bytes (public_bytes lib private),
     ssg_signature_b64 = b64encode (ed_sign lib private msg)\<rparr>"

definition summary_of :: "release_manifest \<Rightarrow> string \<Rightarrow> int \<Rightarrow> semantic_summary" where
  "summary_of m root n = \<lparr>ss_release_id = rm_release_id m, ss_election_id = rm_election_id m,
     ledger_merkle_root = rm_merkle_root m, semantic_record_count = n, semantic_root = root,
     normalization_sha256 = semantic_normalization_sha256\<rparr>"

text \<open>The directory after the call: the base release stays when the semantic part fails.\<close>

definition build_atomic_release :: "release_library \<Rightarrow> (json \<Rightarrow> string) \<Rightarrow> byte list \<Rightarrow> string \<Rightarrow> release_record list
    \<Rightarrow> byte list dict \<Rightarrow> byte list dict \<times> semantic_summary result" where
  "build_atomic_release lib rp private election records dir =
     (case build_release lib private election records dir of
        Inl e \<Rightarrow> (dir, raise e)
      | Inr (manifest, dir') \<Rightarrow>
          (case bind_result (bind_result (read_file dir' ''records.json'') (records_from_json lib))
              (semantic_merkle_root lib rp) of
             Inl e \<Rightarrow> (dir', raise e)
           | Inr (root, n) \<Rightarrow>
               let summary = summary_of manifest root n;
                   msg = canonical_json_bytes (summary_json summary);
                   signature = signed_summary lib private msg
               in (dict_set semantic_signature_name
                     (canonical_json_bytes (semantic_signature_json signature) @ [newline_byte])
                     (dict_set semantic_summary_name (msg @ [newline_byte]) dir'), return summary)))"

definition failed_semantics :: "string option \<Rightarrow> py_error \<Rightarrow> semantic_verification" where
  "failed_semantics release e = \<lparr>sv_release_id = release, sv_valid = False, sv_signature_valid = False,
     signer_matches_release = False, semantic_root_valid = False, sv_semantic_root = None,
     sv_semantic_record_count = None, sv_error = Some e\<rparr>"

definition semantic_signature_checks :: "release_library \<Rightarrow> byte list \<Rightarrow> semantic_signature \<Rightarrow> bool result" where
  "semantic_signature_checks lib summary_raw signature =
     bind_result (b64decode (ssg_public_key_b64 signature)) (\<lambda>raw.
     bind_result (load_public_key raw) (\<lambda>key.
     bind_result (b64decode (ssg_signature_b64 signature)) (\<lambda>sig_bytes.
     bind_result (check_signature lib key sig_bytes summary_raw) (\<lambda>_.
       return (sha256_bytes summary_raw = semantic_summary_sha256 signature
         \<and> sha256_bytes raw = ssg_signer_key_sha256 signature)))))"

definition summary_matches :: "semantic_summary \<Rightarrow> release_manifest \<Rightarrow> string \<Rightarrow> int \<Rightarrow> bool" where
  "summary_matches s m root n = (ss_release_id s = rm_release_id m \<and> ss_election_id s = rm_election_id m
     \<and> ledger_merkle_root s = rm_merkle_root m \<and> normalization_sha256 s = semantic_normalization_sha256
     \<and> semantic_record_count s = n \<and> semantic_root s = root)"

definition check_semantics :: "release_library \<Rightarrow> semantic_reader \<Rightarrow> (json \<Rightarrow> string) \<Rightarrow> byte list dict
    \<Rightarrow> semantic_verification result" where
  "check_semantics lib rd rp dir =
     bind_result (bind_result (read_file dir ''manifest.json'') (parse_manifest lib)) (\<lambda>manifest.
     bind_result (bind_result (read_file dir ''manifest.signature.json'') (parse_signature lib)) (\<lambda>release_signature.
     bind_result (read_file dir semantic_summary_name) (\<lambda>content.
     let summary_raw = strip_newlines content in
     bind_result (parse_summary rd summary_raw) (\<lambda>summary.
     bind_result (bind_result (read_file dir semantic_signature_name) (parse_semantic_signature rd)) (\<lambda>signature.
     bind_result (semantic_signature_checks lib summary_raw signature) (\<lambda>sig_ok.
     let matches = (ssg_signer_key_sha256 signature = signer_key_sha256 release_signature) in
     bind_result (bind_result (read_file dir ''records.json'') (records_from_json lib)) (\<lambda>records.
     bind_result (semantic_merkle_root lib rp records) (\<lambda>(root, n).
     let root_valid = summary_matches summary manifest root n in
       return \<lparr>sv_release_id = Some (ss_release_id summary), sv_valid = (sig_ok \<and> matches \<and> root_valid),
         sv_signature_valid = sig_ok, signer_matches_release = matches, semantic_root_valid = root_valid,
         sv_semantic_root = Some (semantic_root summary),
         sv_semantic_record_count = Some (semantic_record_count summary), sv_error = None\<rparr>))))))))"

definition verify_semantic_release :: "release_library \<Rightarrow> semantic_reader \<Rightarrow> (json \<Rightarrow> string) \<Rightarrow> byte list dict
    \<Rightarrow> string list option \<Rightarrow> semantic_verification result" where
  "verify_semantic_release lib rd rp dir trusted =
     bind_result (verify_release lib dir trusted) (\<lambda>base.
       if \<not> rv_valid base
       then return (failed_semantics None (case rv_error base of
           None \<Rightarrow> ValueError ''base release verification failed'' | Some e \<Rightarrow> e))
       else report_errors (failed_semantics (rv_release_id base)) (check_semantics lib rd rp dir))"

end
