(* ===== verification/Publication.thy ===== *)
theory Publication
  imports Semantic_Release Governance Unicode_Text
begin

text \<open>
  src/ballotproof/release_publication.py: the immutable publication backend, the snapshots of the key log and of
  a checkpoint chain that verify on their own, publications and their verification, and witness statements.
  The governance store does not change while a call reads it. \<open>publication_reader\<close> is pydantic's JSON
  reader of the models, \<open>dt\<close> what it dumps for a datetime.
\<close>

section \<open>Models\<close>

record object_ref =
  or_path :: string
  or_sha256 :: string
  or_size_bytes :: int

record key_snapshot =
  ks_events_checked :: int
  ks_head_event_hash :: string
  ks_events :: "release_key_event list"

record chain_snapshot =
  cs_election_id :: string
  cs_checkpoints_checked :: int
  cs_head_checkpoint_hash :: string
  cs_checkpoints :: "signed_checkpoint list"

record publication_record =
  pr_release_id :: string
  pr_election_id :: string
  pr_manifest_sha256 :: string
  pr_ledger_merkle_root :: string
  pr_semantic_summary_sha256 :: string
  pr_semantic_root :: string
  pr_checkpoint_hash :: string
  pr_checkpoint_sequence :: int
  pr_key_head_hash :: string
  pr_chain_head_hash :: string
  pr_release_files :: "object_ref list"
  pr_semantic_files :: "object_ref list"
  pr_checkpoint :: object_ref
  pr_key_snapshot :: object_ref
  pr_chain_snapshot :: object_ref

record governed_publication =
  gp_sha256 :: string
  gp_path :: string
  gp_record :: publication_record

record publication_verification =
  pv_publication_sha256 :: "string option"
  pv_release_id :: "string option"
  pv_valid :: bool
  pv_objects_valid :: bool
  pv_release_valid :: bool
  pv_key_snapshot_valid :: bool
  pv_chain_valid :: bool
  pv_error :: "py_error option"

record publication_reader =
  parse_publication :: "byte list \<Rightarrow> publication_record result"
  parse_key_snapshot :: "byte list \<Rightarrow> key_snapshot result"
  parse_chain_snapshot :: "byte list \<Rightarrow> chain_snapshot result"
  parse_checkpoint :: "byte list \<Rightarrow> signed_checkpoint result"

definition publication_record_ok :: "publication_record \<Rightarrow> bool" where
  "publication_record_ok r = (list_all is_sha256_hex [pr_manifest_sha256 r, pr_ledger_merkle_root r,
       pr_semantic_summary_sha256 r, pr_semantic_root r, pr_checkpoint_hash r, pr_key_head_hash r, pr_chain_head_hash r]
     \<and> 1 \<le> pr_checkpoint_sequence r)"

section \<open>Documents\<close>

definition object_ref_json :: "object_ref \<Rightarrow> json" where
  "object_ref_json r = JObj [(''path'', JStr (or_path r)), (''sha256'', JStr (or_sha256 r)),
     (''size_bytes'', JInt (or_size_bytes r))]"

definition key_event_json :: "(datetime \<Rightarrow> string) \<Rightarrow> release_key_event \<Rightarrow> json" where
  "key_event_json dt e = JObj
     [(''sequence'', JInt (ke_sequence e)), (''event_type'', JStr (key_event_text (ke_event_type e))),
      (''key_id'', JStr (ke_key_id e)), (''actor_id'', JStr (ke_actor_id e)),
      (''public_key_b64'', JStr (ke_public_key_b64 e)), (''public_key_sha256'', JStr (ke_public_key_sha256 e)),
      (''label'', json_opt JStr (ke_label e)), (''performed_by_actor_id'', JStr (ke_performed_by e)),
      (''previous_event_hash'', json_opt JStr (ke_previous_hash e)), (''event_hash'', JStr (ke_hash e)),
      (''created_at'', JStr (dt (ke_created_at e)))]"

definition key_snapshot_json :: "(datetime \<Rightarrow> string) \<Rightarrow> key_snapshot \<Rightarrow> json" where
  "key_snapshot_json dt s = JObj
     [(''schema_version'', JStr ''1''), (''events_checked'', JInt (ks_events_checked s)),
      (''head_event_hash'', JStr (ks_head_event_hash s)), (''events'', JArr (map (key_event_json dt) (ks_events s)))]"

definition checkpoint_json :: "(datetime \<Rightarrow> string) \<Rightarrow> signed_checkpoint \<Rightarrow> json" where
  "checkpoint_json dt c = JObj
     [(''payload'', checkpoint_payload_json dt (ck_payload c)), (''algorithm'', JStr ''Ed25519''),
      (''public_key_b64'', JStr (ck_public_key_b64 c)), (''signature_b64'', JStr (ck_signature_b64 c)),
      (''checkpoint_hash'', JStr (ck_hash c)), (''stored_at'', JStr (dt (ck_stored_at c)))]"

definition chain_snapshot_json :: "(datetime \<Rightarrow> string) \<Rightarrow> chain_snapshot \<Rightarrow> json" where
  "chain_snapshot_json dt s = JObj
     [(''schema_version'', JStr ''1''), (''election_id'', JStr (cs_election_id s)),
      (''checkpoints_checked'', JInt (cs_checkpoints_checked s)),
      (''head_checkpoint_hash'', JStr (cs_head_checkpoint_hash s)),
      (''checkpoints'', JArr (map (checkpoint_json dt) (cs_checkpoints s)))]"

definition publication_json :: "publication_record \<Rightarrow> json" where
  "publication_json r = JObj
     [(''schema_version'', JStr ''1''), (''release_id'', JStr (pr_release_id r)),
      (''election_id'', JStr (pr_election_id r)), (''manifest_sha256'', JStr (pr_manifest_sha256 r)),
      (''ledger_merkle_root'', JStr (pr_ledger_merkle_root r)),
      (''semantic_summary_sha256'', JStr (pr_semantic_summary_sha256 r)), (''semantic_root'', JStr (pr_semantic_root r)),
      (''checkpoint_hash'', JStr (pr_checkpoint_hash r)), (''checkpoint_sequence'', JInt (pr_checkpoint_sequence r)),
      (''release_key_transparency_head_event_hash'', JStr (pr_key_head_hash r)),
      (''checkpoint_chain_head_hash'', JStr (pr_chain_head_hash r)),
      (''release_files'', JArr (map object_ref_json (pr_release_files r))),
      (''semantic_files'', JArr (map object_ref_json (pr_semantic_files r))),
      (''checkpoint'', object_ref_json (pr_checkpoint r)),
      (''release_key_snapshot'', object_ref_json (pr_key_snapshot r)),
      (''checkpoint_chain_snapshot'', object_ref_json (pr_chain_snapshot r))]"

section \<open>The filesystem backend\<close>

text \<open>The files under the root, by their path. A directory is a path with files below it; symbolic links
  and names the operating system refuses are not modelled.\<close>

type_synonym backend = "byte list dict"

definition path_parts :: "string \<Rightarrow> string list" where
  "path_parts value = filter (\<lambda>p. p \<noteq> [] \<and> p \<noteq> ''.'') (split_at_char (CHR ''/'') value)"

text \<open>\<open>PurePosixPath(value)\<close> with its tests: the parts never are empty or a dot.\<close>

definition relative_path :: "string \<Rightarrow> string list result" where
  "relative_path value =
     (let parts = path_parts value in
      if take 1 value = ''/'' \<or> ''..'' \<in> set parts
      then raise (ValueError ''publication paths must be normalized relative POSIX paths'')
      else if CHR 0x5C \<in> set value \<or> (if parts = [] then ''.'' else join ''/'' parts) \<noteq> value
      then raise (ValueError ''publication paths must be normalized relative POSIX paths'')
      else return parts)"

definition is_directory :: "backend \<Rightarrow> string list \<Rightarrow> bool" where
  "is_directory b parts = (parts = [] \<or> list_ex (\<lambda>(path, _). length parts < length (path_parts path)
     \<and> take (length parts) (path_parts path) = parts) b)"

text \<open>\<open>mkdir(parents=True)\<close> fails at a file on the way.\<close>

definition blocked_parent :: "backend \<Rightarrow> string list \<Rightarrow> bool" where
  "blocked_parent b parts = list_ex (\<lambda>n. dict_get b (join ''/'' (take n parts)) \<noteq> None) [1..<length parts]"

definition object_ref_of :: "string \<Rightarrow> byte list \<Rightarrow> object_ref" where
  "object_ref_of path content = \<lparr>or_path = path, or_sha256 = sha256_bytes content, or_size_bytes = int (length content)\<rparr>"

definition put_bytes :: "string \<Rightarrow> byte list \<Rightarrow> backend \<Rightarrow> (backend \<times> object_ref) result" where
  "put_bytes path content b =
     (if content = [] then raise (ValueError ''immutable publication objects must not be empty'')
      else bind_result (relative_path path) (\<lambda>parts.
        if blocked_parent b parts then raise (OSError ''not a directory'')
        else if is_directory b parts then raise (FileExistsError ''immutable publication conflict: '')
        else case dict_get b path of
            Some old \<Rightarrow> if old \<noteq> content then raise (FileExistsError ''immutable publication conflict: '')
              else return (b, object_ref_of path content)
          | None \<Rightarrow> return (dict_set path content b, object_ref_of path content)))"

definition read_bytes :: "string \<Rightarrow> backend \<Rightarrow> byte list result" where
  "read_bytes path b = bind_result (relative_path path) (\<lambda>parts.
     case dict_get b path of None \<Rightarrow> raise (OSError ''No such file or directory: '') | Some content \<Rightarrow> return content)"

section \<open>Snapshots\<close>

text \<open>The head of the events, or None where the function returns False or catches an error.\<close>

fun check_snapshot_events :: "int \<Rightarrow> string option \<Rightarrow> release_key_event list \<Rightarrow> string option option" where
  "check_snapshot_events n previous_hash [] = Some previous_hash"
| "check_snapshot_events n previous_hash (e # es) =
     (if ke_sequence e \<noteq> n \<or> ke_previous_hash e \<noteq> previous_hash then None
      else case b64decode (ke_public_key_b64 e) of
          Inl _ \<Rightarrow> None
        | Inr raw \<Rightarrow>
            if length raw \<noteq> 32 \<or> sha256_bytes raw \<noteq> ke_public_key_sha256 e then None
            else if hash_record (key_event_body (e\<lparr>ke_previous_hash := previous_hash\<rparr>)) \<noteq> ke_hash e then None
            else check_snapshot_events (n + 1) (Some (ke_hash e)) es)"

definition verify_release_key_snapshot :: "key_snapshot \<Rightarrow> bool" where
  "verify_release_key_snapshot s = (ks_events_checked s = int (length (ks_events s)) \<and> ks_events s \<noteq> []
     \<and> check_snapshot_events 1 None (ks_events s) = Some (Some (ks_head_event_hash s)))"

text \<open>The loop makes the checks of \<open>verify_checkpoint_chain\<close>; any failure makes it return False.\<close>

definition verify_checkpoint_chain_snapshot :: "release_library \<Rightarrow> (datetime \<Rightarrow> string) \<Rightarrow> chain_snapshot
    \<Rightarrow> key_snapshot \<Rightarrow> bool" where
  "verify_checkpoint_chain_snapshot lib dt s keys = (verify_release_key_snapshot keys
     \<and> cs_checkpoints_checked s = int (length (cs_checkpoints s)) \<and> cs_checkpoints s \<noteq> []
     \<and> (case check_checkpoints lib dt (ks_events keys) (cs_election_id s) 0 None (cs_checkpoints s) of
          (_, head, None) \<Rightarrow> head = Some (cs_head_checkpoint_hash s) | _ \<Rightarrow> False))"

definition matching_checkpoint :: "governance_store \<Rightarrow> string \<Rightarrow> string
    \<Rightarrow> (signed_checkpoint \<times> signed_checkpoint list) result" where
  "matching_checkpoint st election manifest_sha256 =
     (let cps = election_checkpoints election st in
      case filter (\<lambda>c. cp_manifest_sha256 (ck_payload c) = manifest_sha256) cps of
        [c] \<Rightarrow>
          let prefix = take (nat (cp_sequence (ck_payload c))) cps in
          if prefix = [] \<or> ck_hash (last prefix) \<noteq> ck_hash c
          then raise (ValueError ''governed checkpoint sequence is inconsistent'')
          else return (c, prefix)
      | _ \<Rightarrow> raise (KeyError ''release requires exactly one governed checkpoint''))"

section \<open>Publishing\<close>

text \<open>What is read and checked before anything is written.\<close>

record governed_inputs =
  gi_manifest :: release_manifest
  gi_manifest_sha256 :: string
  gi_semantic :: semantic_summary
  gi_semantic_sha256 :: string
  gi_checkpoint :: signed_checkpoint
  gi_keys :: key_snapshot
  gi_chain :: chain_snapshot

definition checkpoint_binds :: "checkpoint_payload \<Rightarrow> release_manifest \<Rightarrow> string \<Rightarrow> bool" where
  "checkpoint_binds p m sha = (cp_release_id p = rm_release_id m \<and> cp_election_id p = rm_election_id m
     \<and> cp_merkle_root p = rm_merkle_root m \<and> cp_manifest_sha256 p = sha)"

definition key_snapshot_of :: "governance_store \<Rightarrow> key_snapshot result" where
  "key_snapshot_of st =
     (let report = verify_release_key_transparency st in
      case kt_head_event_hash report of
        Some head \<Rightarrow> if kt_valid report
          then return \<lparr>ks_events_checked = int (length (key_events st)), ks_head_event_hash = head, ks_events = key_events st\<rparr>
          else raise (ValueError ''release-key transparency ledger is invalid'')
      | None \<Rightarrow> raise (ValueError ''release-key transparency ledger is invalid''))"

definition governance_inputs :: "release_library \<Rightarrow> (datetime \<Rightarrow> string) \<Rightarrow> governance_store \<Rightarrow> release_manifest \<Rightarrow> string
    \<Rightarrow> string \<Rightarrow> (signed_checkpoint \<times> key_snapshot \<times> chain_snapshot) result" where
  "governance_inputs lib dt st m sha signer =
     bind_result (matching_checkpoint st (rm_election_id m) sha) (\<lambda>(c, prefix).
     bind_result (verify_checkpoint_chain lib dt (rm_election_id m) st) (\<lambda>report.
       if \<not> cr_valid report then raise (ValueError ''governed checkpoint chain is invalid'')
       else if cp_signer_key_sha256 (ck_payload c) \<noteq> signer
       then raise (ValueError ''governed checkpoint signer does not match release signer'')
       else if \<not> checkpoint_binds (ck_payload c) m sha
       then raise (ValueError ''governed checkpoint does not bind the verified release'')
       else bind_result (key_snapshot_of st) (\<lambda>keys.
         let links = \<lparr>cs_election_id = rm_election_id m, cs_checkpoints_checked = int (length prefix),
               cs_head_checkpoint_hash = ck_hash c, cs_checkpoints = prefix\<rparr> in
         if \<not> verify_checkpoint_chain_snapshot lib dt links keys
         then raise (ValueError ''self-contained governed checkpoint snapshot verification failed'')
         else return (c, keys, links))))"

definition governed_inputs :: "release_library \<Rightarrow> semantic_reader \<Rightarrow> (json \<Rightarrow> string) \<Rightarrow> (datetime \<Rightarrow> string)
    \<Rightarrow> byte list dict \<Rightarrow> governance_store \<Rightarrow> string list option \<Rightarrow> governed_inputs result" where
  "governed_inputs lib rd rp dt dir st trusted =
     bind_result (verify_semantic_release lib rd rp dir trusted) (\<lambda>v.
       if \<not> sv_valid v then raise (ValueError ''semantic release verification failed'')
       else bind_result (read_file dir ''manifest.json'') (\<lambda>content.
       bind_result (parse_manifest lib (strip_newlines content)) (\<lambda>m.
       bind_result (bind_result (read_file dir ''manifest.signature.json'') (parse_signature lib)) (\<lambda>signature.
       bind_result (read_file dir semantic_summary_name) (\<lambda>summary_content.
       bind_result (parse_summary rd (strip_newlines summary_content)) (\<lambda>semantic.
       let sha = sha256_bytes (strip_newlines content) in
       bind_result (governance_inputs lib dt st m sha (signer_key_sha256 signature)) (\<lambda>(c, keys, links).
         return \<lparr>gi_manifest = m, gi_manifest_sha256 = sha, gi_semantic = semantic,
           gi_semantic_sha256 = sha256_bytes (strip_newlines summary_content), gi_checkpoint = c, gi_keys = keys,
           gi_chain = links\<rparr>)))))))"

text \<open>Objects are written in order; those before a failure stay.\<close>

fun put_objects :: "(string \<times> byte list result) list \<Rightarrow> backend \<Rightarrow> backend \<times> object_ref list result" where
  "put_objects [] b = (b, return [])"
| "put_objects ((path, content) # rest) b =
     (case bind_result content (\<lambda>bs. put_bytes path bs b) of
        Inl e \<Rightarrow> (b, raise e)
      | Inr (b', ref) \<Rightarrow> (case put_objects rest b' of (b'', refs) \<Rightarrow>
          (b'', bind_result refs (\<lambda>rs. return (ref # rs)))))"

definition release_names :: "string list" where
  "release_names = map fst expected_release_files @ [''manifest.json'', ''manifest.signature.json'']"

definition release_path_of :: "string \<Rightarrow> string \<Rightarrow> string" where
  "release_path_of sha name = ''releases/'' @ sha @ ''/'' @ name"

definition semantic_path_of :: "string \<Rightarrow> string \<Rightarrow> string" where
  "semantic_path_of sha name = ''semantic/'' @ sha @ ''/'' @ name"

definition checkpoint_path_of :: "string \<Rightarrow> string" where
  "checkpoint_path_of sha = ''governance/checkpoints/'' @ sha @ ''.json''"

definition publication_path_of :: "string \<Rightarrow> string" where
  "publication_path_of sha = ''publications/'' @ sha @ ''.json''"

definition release_objects :: "governed_inputs \<Rightarrow> byte list dict \<Rightarrow> (string \<times> byte list result) list" where
  "release_objects i dir = map (\<lambda>name. (release_path_of (gi_manifest_sha256 i) name, read_file dir name)) release_names"

definition governance_objects :: "(datetime \<Rightarrow> string) \<Rightarrow> governed_inputs \<Rightarrow> byte list \<Rightarrow> byte list
    \<Rightarrow> (string \<times> byte list result) list" where
  "governance_objects dt i summary signature =
     (let keys = canonical_json_bytes (key_snapshot_json dt (gi_keys i));
          links = canonical_json_bytes (chain_snapshot_json dt (gi_chain i))
      in [(semantic_path_of (gi_semantic_sha256 i) semantic_summary_name, return summary),
          (semantic_path_of (gi_semantic_sha256 i) semantic_signature_name, return signature),
          (checkpoint_path_of (ck_hash (gi_checkpoint i)), return (canonical_json_bytes (checkpoint_json dt (gi_checkpoint i)))),
          (''governance/release-key-snapshots/'' @ sha256_bytes keys @ ''.json'', return keys),
          (''governance/checkpoint-snapshots/'' @ sha256_bytes links @ ''.json'', return links)])"

definition publication_record_of :: "governed_inputs \<Rightarrow> object_ref list \<Rightarrow> object_ref list \<Rightarrow> publication_record" where
  "publication_record_of i release_refs refs = \<lparr>pr_release_id = rm_release_id (gi_manifest i),
     pr_election_id = rm_election_id (gi_manifest i), pr_manifest_sha256 = gi_manifest_sha256 i,
     pr_ledger_merkle_root = rm_merkle_root (gi_manifest i), pr_semantic_summary_sha256 = gi_semantic_sha256 i,
     pr_semantic_root = semantic_root (gi_semantic i), pr_checkpoint_hash = ck_hash (gi_checkpoint i),
     pr_checkpoint_sequence = cp_sequence (ck_payload (gi_checkpoint i)),
     pr_key_head_hash = ks_head_event_hash (gi_keys i), pr_chain_head_hash = cs_head_checkpoint_hash (gi_chain i),
     pr_release_files = release_refs, pr_semantic_files = take 2 refs, pr_checkpoint = refs ! 2,
     pr_key_snapshot = refs ! 3, pr_chain_snapshot = refs ! 4\<rparr>"

definition put_record :: "publication_record \<Rightarrow> backend \<Rightarrow> backend \<times> governed_publication result" where
  "put_record r b =
     (let content = canonical_json_bytes (publication_json r); sha = sha256_bytes content in
      if \<not> publication_record_ok r then (b, raise field_error)
      else case put_bytes (publication_path_of sha) content b of
          Inl e \<Rightarrow> (b, raise e)
        | Inr (b', _) \<Rightarrow> (b', return \<lparr>gp_sha256 = sha, gp_path = publication_path_of sha, gp_record = r\<rparr>))"

definition publish_governed_release :: "release_library \<Rightarrow> semantic_reader \<Rightarrow> (json \<Rightarrow> string) \<Rightarrow> (datetime \<Rightarrow> string)
    \<Rightarrow> byte list dict \<Rightarrow> governance_store \<Rightarrow> string list option \<Rightarrow> backend \<Rightarrow> backend \<times> governed_publication result" where
  "publish_governed_release lib rd rp dt dir st trusted b =
     (case governed_inputs lib rd rp dt dir st trusted of
        Inl e \<Rightarrow> (b, raise e)
      | Inr i \<Rightarrow> (case put_objects (release_objects i dir) b of
          (b1, Inl e) \<Rightarrow> (b1, raise e)
        | (b1, Inr release_refs) \<Rightarrow>
            (case bind_result (read_file dir semantic_summary_name) (\<lambda>summary.
                bind_result (read_file dir semantic_signature_name) (\<lambda>signature. return (summary, signature))) of
               Inl e \<Rightarrow> (b1, raise e)
             | Inr (summary, signature) \<Rightarrow> (case put_objects (governance_objects dt i summary signature) b1 of
                 (b2, Inl e) \<Rightarrow> (b2, raise e)
               | (b2, Inr refs) \<Rightarrow> put_record (publication_record_of i release_refs refs) b2))))"

section \<open>Verifying a publication\<close>

definition verify_ref :: "backend \<Rightarrow> object_ref \<Rightarrow> byte list result" where
  "verify_ref b r = bind_result (read_bytes (or_path r) b) (\<lambda>content.
     if int (length content) \<noteq> or_size_bytes r \<or> sha256_bytes content \<noteq> or_sha256 r
     then raise (ValueError ''immutable object digest mismatch: '') else return content)"

definition validate_publication_paths :: "publication_record \<Rightarrow> unit result" where
  "validate_publication_paths r =
     (let release_paths = map or_path (pr_release_files r); semantic_paths = map or_path (pr_semantic_files r) in
      guarded
        [(\<not> distinct release_paths, ValueError ''publication record contains duplicate release paths''),
         (set release_paths \<noteq> release_path_of (pr_manifest_sha256 r) ` set release_names,
          ValueError ''publication record must use canonical base release paths''),
         (\<not> distinct semantic_paths, ValueError ''publication record contains duplicate semantic paths''),
         (set semantic_paths \<noteq> semantic_path_of (pr_semantic_summary_sha256 r) `
            {semantic_summary_name, semantic_signature_name},
          ValueError ''publication record must use canonical semantic sidecar paths''),
         (or_path (pr_checkpoint r) \<noteq> checkpoint_path_of (pr_checkpoint_hash r),
          ValueError ''publication record checkpoint path is not content-addressed'')] ())"

text \<open>\<open>path.rsplit("/", 1)[-1]\<close>.\<close>

definition file_name :: "string \<Rightarrow> string" where
  "file_name path = last (split_at_char (CHR ''/'') path)"

definition read_refs :: "backend \<Rightarrow> object_ref list \<Rightarrow> byte list dict result" where
  "read_refs b refs = bind_result (map_result (\<lambda>r. bind_result (verify_ref b r) (\<lambda>content.
     return (file_name (or_path r), content))) refs) (\<lambda>pairs. return (dict_of pairs))"

record publication_objects =
  po_record :: publication_record
  po_release :: "byte list dict"
  po_semantic :: "byte list dict"
  po_checkpoint :: "byte list"
  po_keys :: "byte list"
  po_chain :: "byte list"

definition read_publication :: "publication_reader \<Rightarrow> string \<Rightarrow> backend \<Rightarrow> publication_record result" where
  "read_publication pr sha b =
     bind_result (read_bytes (publication_path_of sha) b) (\<lambda>content.
       if sha256_bytes content \<noteq> sha then raise (ValueError ''publication record hash mismatch'')
       else parse_publication pr content)"

definition publication_objects :: "publication_reader \<Rightarrow> string \<Rightarrow> backend \<Rightarrow> publication_objects result" where
  "publication_objects pr sha b =
     (if \<not> is_sha256_hex sha then raise (ValueError ''publication SHA-256 must be lowercase hexadecimal'')
      else bind_result (read_publication pr sha b) (\<lambda>r.
      bind_result (validate_publication_paths r) (\<lambda>_.
      bind_result (read_refs b (pr_release_files r)) (\<lambda>release.
      bind_result (read_refs b (pr_semantic_files r)) (\<lambda>semantic.
      bind_result (verify_ref b (pr_checkpoint r)) (\<lambda>checkpoint.
      bind_result (verify_ref b (pr_key_snapshot r)) (\<lambda>keys.
      bind_result (verify_ref b (pr_chain_snapshot r)) (\<lambda>links.
        return \<lparr>po_record = r, po_release = release, po_semantic = semantic, po_checkpoint = checkpoint, po_keys = keys,
          po_chain = links\<rparr>))))))))"

text \<open>\<open>==\<close> of checkpoints, where times are compared as instants.\<close>

definition datetime_eq :: "datetime \<Rightarrow> datetime \<Rightarrow> bool" where
  "datetime_eq a b = ((utcoffset a = None) = (utcoffset b = None) \<and> instant a = instant b)"

definition checkpoint_eq :: "signed_checkpoint \<Rightarrow> signed_checkpoint \<Rightarrow> bool" where
  "checkpoint_eq a b =
     (datetime_eq (ck_stored_at a) (ck_stored_at b)
      \<and> datetime_eq (cp_issued_at (ck_payload a)) (cp_issued_at (ck_payload b))
      \<and> a\<lparr>ck_stored_at := ck_stored_at b, ck_payload := (ck_payload a)\<lparr>cp_issued_at := cp_issued_at (ck_payload b)\<rparr>\<rparr> = b)"

definition bindings_hold :: "publication_objects \<Rightarrow> release_manifest \<Rightarrow> release_signature \<Rightarrow> semantic_summary
    \<Rightarrow> byte list \<Rightarrow> byte list \<Rightarrow> key_snapshot \<Rightarrow> chain_snapshot \<Rightarrow> signed_checkpoint \<Rightarrow> bool" where
  "bindings_hold obj m signature semantic manifest_raw summary_raw keys links c =
     (let r = po_record obj in
      pr_release_id r = rm_release_id m \<and> pr_election_id r = rm_election_id m
      \<and> pr_manifest_sha256 r = sha256_bytes (strip_newlines manifest_raw)
      \<and> pr_ledger_merkle_root r = rm_merkle_root m
      \<and> pr_semantic_summary_sha256 r = sha256_bytes (strip_newlines summary_raw)
      \<and> pr_semantic_root r = semantic_root semantic \<and> pr_checkpoint_hash r = ck_hash c
      \<and> pr_checkpoint_sequence r = cp_sequence (ck_payload c)
      \<and> checkpoint_binds (ck_payload c) m (pr_manifest_sha256 r)
      \<and> cp_signer_key_sha256 (ck_payload c) = signer_key_sha256 signature
      \<and> pr_key_head_hash r = ks_head_event_hash keys \<and> pr_chain_head_hash r = cs_head_checkpoint_hash links)"

definition check_bindings :: "release_library \<Rightarrow> semantic_reader \<Rightarrow> publication_objects \<Rightarrow> key_snapshot \<Rightarrow> chain_snapshot
    \<Rightarrow> signed_checkpoint \<Rightarrow> bool \<Rightarrow> bool \<Rightarrow> unit result" where
  "check_bindings lib rd obj keys links c key_valid chain_valid =
     (if \<not> key_valid \<or> \<not> chain_valid then raise (ValueError ''published governance snapshots are invalid'')
      else if \<not> checkpoint_eq (last (cs_checkpoints links)) c
      then raise (ValueError ''published checkpoint is not the checkpoint-chain head'')
      else bind_result (row_value (po_release obj) ''manifest.json'') (\<lambda>manifest_raw.
      bind_result (parse_manifest lib manifest_raw) (\<lambda>m.
      bind_result (bind_result (row_value (po_release obj) ''manifest.signature.json'') (parse_signature lib)) (\<lambda>signature.
      bind_result (row_value (po_semantic obj) semantic_summary_name) (\<lambda>summary_raw.
      bind_result (parse_summary rd summary_raw) (\<lambda>semantic.
        if bindings_hold obj m signature semantic manifest_raw summary_raw keys links c then return ()
        else raise (ValueError ''publication record bindings are invalid'')))))))"

text \<open>A caught error ends the function with the flags set so far.\<close>

definition staged :: "(py_error \<Rightarrow> 'b) \<Rightarrow> 'a result \<Rightarrow> ('a \<Rightarrow> 'b result) \<Rightarrow> 'b result" where
  "staged on_error res cont = (case res of
       Inl e \<Rightarrow> if caught e then return (on_error e) else raise e | Inr v \<Rightarrow> cont v)"

definition failed_publication :: "string \<Rightarrow> bool \<Rightarrow> bool \<Rightarrow> bool \<Rightarrow> bool \<Rightarrow> py_error \<Rightarrow> publication_verification" where
  "failed_publication sha objects release keys links e = \<lparr>pv_publication_sha256 = Some sha, pv_release_id = None,
     pv_valid = False, pv_objects_valid = objects, pv_release_valid = release, pv_key_snapshot_valid = keys,
     pv_chain_valid = links, pv_error = Some e\<rparr>"

definition governance_documents :: "publication_reader \<Rightarrow> publication_objects
    \<Rightarrow> (key_snapshot \<times> chain_snapshot \<times> signed_checkpoint) result" where
  "governance_documents pr obj =
     bind_result (parse_key_snapshot pr (po_keys obj)) (\<lambda>keys.
     bind_result (parse_chain_snapshot pr (po_chain obj)) (\<lambda>links.
     bind_result (parse_checkpoint pr (po_checkpoint obj)) (\<lambda>c. return (keys, links, c))))"

definition published_directory :: "publication_objects \<Rightarrow> byte list dict" where
  "published_directory obj = foldl (\<lambda>d (k, v). dict_set k v d) (po_release obj) (po_semantic obj)"

definition verify_governed_publication :: "release_library \<Rightarrow> semantic_reader \<Rightarrow> publication_reader \<Rightarrow> (json \<Rightarrow> string)
    \<Rightarrow> (datetime \<Rightarrow> string) \<Rightarrow> string \<Rightarrow> backend \<Rightarrow> string list option \<Rightarrow> publication_verification result" where
  "verify_governed_publication lib rd pr rp dt sha b trusted =
     staged (failed_publication sha False False False False) (publication_objects pr sha b) (\<lambda>obj.
     staged (failed_publication sha True False False False)
       (bind_result (verify_semantic_release lib rd rp (published_directory obj) trusted) (\<lambda>v.
          if sv_valid v then return () else raise (ValueError ''published semantic release is invalid''))) (\<lambda>_.
     staged (failed_publication sha True True False False) (governance_documents pr obj) (\<lambda>(keys, links, c).
     let key_valid = verify_release_key_snapshot keys;
         chain_valid = verify_checkpoint_chain_snapshot lib dt links keys
     in staged (failed_publication sha True True key_valid chain_valid)
       (check_bindings lib rd obj keys links c key_valid chain_valid) (\<lambda>_.
       return \<lparr>pv_publication_sha256 = Some sha, pv_release_id = Some (pr_release_id (po_record obj)), pv_valid = True,
         pv_objects_valid = True, pv_release_valid = True, pv_key_snapshot_valid = True, pv_chain_valid = True,
         pv_error = None\<rparr>))))"

definition load_governed_publication :: "publication_reader \<Rightarrow> string \<Rightarrow> backend \<Rightarrow> governed_publication result" where
  "load_governed_publication pr sha b = bind_result (read_publication pr sha b) (\<lambda>r.
     return \<lparr>gp_sha256 = sha, gp_path = publication_path_of sha, gp_record = r\<rparr>)"

end
