(* ===== verification/Publication_Verify.thy ===== *)
theory Publication_Verify
  imports Publication Governance_Chain
begin

text \<open>
  Publications verify: what \<open>publish_governed_release\<close> wrote passes \<open>verify_governed_publication\<close>
  on every later state of the backend.
\<close>

section \<open>Objects of the backend\<close>

definition extends :: "backend \<Rightarrow> backend \<Rightarrow> bool" where
  "extends b b' \<longleftrightarrow> (\<forall>path content. dict_get b path = Some content \<longrightarrow> dict_get b' path = Some content)"

lemma extends_refl [simp]: "extends b b" by (simp add: extends_def)

lemma extends_trans: "extends a b \<Longrightarrow> extends b c \<Longrightarrow> extends a c" by (simp add: extends_def)

definition holds_object :: "backend \<Rightarrow> string \<Rightarrow> byte list \<Rightarrow> bool" where
  "holds_object b path content \<longleftrightarrow> dict_get b path = Some content \<and> (\<exists>parts. relative_path path = Inr parts)"

lemma holds_object_extends: "holds_object b path content \<Longrightarrow> extends b b' \<Longrightarrow> holds_object b' path content"
  by (auto simp: holds_object_def extends_def)

lemma put_bytes_Inr:
  assumes "put_bytes path content b = Inr (b', r)"
  shows "extends b b'" "holds_object b' path content" "r = object_ref_of path content"
  using assms by (auto simp: put_bytes_def extends_def holds_object_def dict_get_set split: option.splits if_splits)

lemma or_path_of [simp]: "or_path (object_ref_of path content) = path"
  by (simp add: object_ref_of_def)

lemma verify_ref_stored: "holds_object b path content \<Longrightarrow> verify_ref b (object_ref_of path content) = Inr content"
  by (auto simp: verify_ref_def read_bytes_def holds_object_def object_ref_of_def)

lemma verify_ref_extends: "verify_ref b r = Inr content \<Longrightarrow> extends b b' \<Longrightarrow> verify_ref b' r = Inr content"
  by (auto simp: verify_ref_def read_bytes_def extends_def split: option.splits if_splits)

lemma read_bytes_stored: "holds_object b path content \<Longrightarrow> read_bytes path b = Inr content"
  by (auto simp: read_bytes_def holds_object_def)

lemma put_objects_Inr:
  "put_objects objs b = (b', Inr refs) \<Longrightarrow> extends b b'
    \<and> list_all2 (\<lambda>(path, c) r. \<exists>content. c = Inr content \<and> r = object_ref_of path content \<and> holds_object b' path content) objs refs"
proof (induction objs b arbitrary: refs rule: put_objects.induct)
  case (2 path c rest b)
  obtain content b1 r where c: "c = Inr content" and p: "put_bytes path content b = Inr (b1, r)"
    using "2.prems" by (auto split: sum.splits)
  obtain rs where rest: "put_objects rest b1 = (b', Inr rs)" "refs = r # rs"
    using "2.prems" by (auto simp: c p split: prod.splits)
  note ih = "2.IH" [of "(b1, r)" b1 r rs, unfolded c, simplified, OF p rest(1)]
  note put = put_bytes_Inr [OF p]
  show ?case using ih put holds_object_extends [OF put(2)] extends_trans [OF put(1)] by (auto simp: c rest(2))
qed simp

lemma split_at_last:
  "CHR ''/'' \<notin> set n \<Longrightarrow> last (split_at_char (CHR ''/'') (p @ CHR ''/'' # n)) = n"
proof (induction p)
  case Nil
  have "split_at_char (CHR ''/'') n = [n]" using Nil by (induction n) auto
  then show ?case by simp
next
  case (Cons c p)
  moreover have "split_at_char (CHR ''/'') (p @ CHR ''/'' # n) \<noteq> []" by (cases p) (auto split: list.split)
  moreover have "length (split_at_char (CHR ''/'') (p @ CHR ''/'' # n)) \<ge> 2"
  proof (induction p)
    case Nil
    have "split_at_char (CHR ''/'') n \<noteq> []" by (cases n) (auto split: list.split)
    then show ?case by (cases "split_at_char (CHR ''/'') n") auto
  next
    case (Cons x p)
    then show ?case by (cases "split_at_char (CHR ''/'') (p @ CHR ''/'' # n)") auto
  qed
  ultimately show ?case by (cases "split_at_char (CHR ''/'') (p @ CHR ''/'' # n)") auto
qed

lemma file_name_of:
  assumes "CHR ''/'' \<notin> set name"
  shows "file_name (release_path_of sha name) = name" "file_name (semantic_path_of sha name) = name"
  using split_at_last [OF assms, of "''releases/'' @ sha"] split_at_last [OF assms, of "''semantic/'' @ sha"]
  by (simp_all add: file_name_def release_path_of_def semantic_path_of_def)

lemma release_names_plain:
  "distinct release_names" "name \<in> set release_names \<Longrightarrow> CHR ''/'' \<notin> set name"
  "CHR ''/'' \<notin> set semantic_summary_name" "CHR ''/'' \<notin> set semantic_signature_name"
  "semantic_summary_name \<notin> set release_names" "semantic_signature_name \<notin> set release_names"
  "semantic_summary_name \<noteq> semantic_signature_name"
  by (auto simp: release_names_def expected_release_files_def semantic_summary_name_def semantic_signature_name_def)

section \<open>Verification depends on the files only\<close>

lemma read_file_cong: "dict_get d n = dict_get d' n \<Longrightarrow> read_file d n = read_file d' n"
  by (simp add: read_file_def)

lemma check_files_cong:
  "\<forall>name \<in> set names. dict_get d name = dict_get d' name \<Longrightarrow> check_files files d names = check_files files d' names"
  by (induction names) (auto simp: read_file_def)

lemma verify_release_cong:
  assumes "\<forall>name \<in> set release_names. dict_get d name = dict_get d' name"
  shows "verify_release lib d trusted = verify_release lib d' trusted"
proof -
  have r: "read_file d name = read_file d' name" if "name \<in> set release_names" for name
    using assms that by (intro read_file_cong) blast
  have "load_verified_manifest lib d trusted = load_verified_manifest lib d' trusted"
    by (simp add: load_verified_manifest_def r release_names_def)
  moreover have "check_files files d (map fst expected_release_files) = check_files files d' (map fst expected_release_files)" for files
    by (rule check_files_cong) (use assms in \<open>simp add: release_names_def\<close>)
  ultimately show ?thesis by (simp add: verify_release_def verify_contents_def)
qed

lemma verify_semantic_release_cong:
  assumes "\<forall>name \<in> set release_names \<union> {semantic_summary_name, semantic_signature_name}. dict_get d name = dict_get d' name"
  shows "verify_semantic_release lib rd rp d trusted = verify_semantic_release lib rd rp d' trusted"
proof -
  have r: "read_file d name = read_file d' name"
    if "name \<in> set release_names \<union> {semantic_summary_name, semantic_signature_name}" for name
    using assms that by (intro read_file_cong) blast
  have "check_semantics lib rd rp d = check_semantics lib rd rp d'"
    by (simp add: check_semantics_def r release_names_def expected_release_files_def)
  moreover have "verify_release lib d trusted = verify_release lib d' trusted"
    by (rule verify_release_cong) (use assms in blast)
  ultimately show ?thesis by (simp add: verify_semantic_release_def cong: if_cong)
qed

section \<open>Atomic releases verify\<close>

lemma build_atomic_Inr:
  assumes "build_atomic_release lib rp private election records dir = (dir', Inr s)"
  obtains m dir0 root n where "build_release lib private election records dir = Inr (m, dir0)"
    "bind_result (bind_result (read_file dir0 ''records.json'') (records_from_json lib)) (semantic_merkle_root lib rp)
      = Inr (root, n)"
    "s = summary_of m root n"
    "dir' = dict_set semantic_signature_name (canonical_json_bytes (semantic_signature_json
        (signed_summary lib private (canonical_json_bytes (summary_json s)))) @ [newline_byte])
      (dict_set semantic_summary_name (canonical_json_bytes (summary_json s) @ [newline_byte]) dir0)"
  using assms by (auto simp: build_atomic_release_def Let_def split: sum.splits)

lemma strip_summary: "strip_newlines (canonical_json_bytes (summary_json s) @ [newline_byte]) = canonical_json_bytes (summary_json s)"
  by (simp add: summary_json_def strip_newlines_line)

lemma atomic_release_verifies:
  assumes "build_atomic_release lib rp private election records dir = (dir', Inr s)"
    and "build_release lib private election records dir = Inr (m, dir0)"
    and "list_all (exportable lib) records" "utf8_text election" "library_ok lib"
    and "json_readable (float_text lib) (manifest_json m)" "parse_manifest lib (manifest_line m @ [newline_byte]) = Inr m"
    and "parse_summary rd (canonical_json_bytes (summary_json s)) = Inr s"
    and "parse_semantic_signature rd (canonical_json_bytes (semantic_signature_json
        (signed_summary lib private (canonical_json_bytes (summary_json s)))) @ [newline_byte])
      = Inr (signed_summary lib private (canonical_json_bytes (summary_json s)))"
    and "signer_trust_status (sha256_bytes (public_bytes lib private)) trusted = Inr status" "status \<noteq> Some False"
  shows "verify_semantic_release lib rd rp dir' trusted = Inr \<lparr>sv_release_id = Some (rm_release_id m), sv_valid = True,
      sv_signature_valid = True, signer_matches_release = True, semantic_root_valid = True,
      sv_semantic_root = Some (semantic_root s), sv_semantic_record_count = Some (semantic_record_count s), sv_error = None\<rparr>"
proof -
  let ?msg = "canonical_json_bytes (summary_json s)"
  let ?sig = "signed_summary lib private ?msg"
  from build_atomic_Inr [OF assms(1)] assms(2) obtain root n where
    root: "bind_result (bind_result (read_file dir0 ''records.json'') (records_from_json lib)) (semantic_merkle_root lib rp)
      = Inr (root, n)"
    and s: "s = summary_of m root n"
    and dir': "dir' = dict_set semantic_signature_name (canonical_json_bytes (semantic_signature_json ?sig) @ [newline_byte])
      (dict_set semantic_summary_name (?msg @ [newline_byte]) dir0)"
    by (metis Pair_inject sum.inject(2))
  have get: "dict_get dir' name = dict_get dir0 name" if "name \<in> set release_names" for name
    using that by (auto simp: dir' dict_get_set release_names_def expected_release_files_def semantic_summary_name_def
        semantic_signature_name_def)
  have base: "verify_release lib dir' trusted = verify_release lib dir0 trusted"
    by (rule verify_release_cong) (simp add: get)
  note built = built_verifies [OF assms(2-6,10,11)]
  have files: "dict_get dir0 ''manifest.json'' = Some (manifest_line m @ [newline_byte])"
    "dict_get dir0 ''manifest.signature.json'' =
      Some (canonical_json_bytes (signature_json (signed_release lib private (manifest_line m))) @ [newline_byte])"
    using assms(2) by (auto elim!: build_release_Inr)
  have sig: "parse_signature lib (canonical_json_bytes (signature_json (signed_release lib private (manifest_line m))) @ [newline_byte])
      = Inr (signed_release lib private (manifest_line m))"
    using assms(5) signed_release_ok by (simp add: library_ok_def)
  have names: "''manifest.json'' \<in> set release_names" "''manifest.signature.json'' \<in> set release_names"
    "''records.json'' \<in> set release_names" by (simp_all add: release_names_def expected_release_files_def)
  obtain rs where rs: "bind_result (read_file dir0 ''records.json'') (records_from_json lib) = Inr rs"
    "semantic_merkle_root lib rp rs = Inr (root, n)" using root by auto
  have side: "dict_get dir' semantic_summary_name = Some (?msg @ [newline_byte])"
    "dict_get dir' semantic_signature_name = Some (canonical_json_bytes (semantic_signature_json ?sig) @ [newline_byte])"
    using release_names_plain(7) by (simp_all add: dir' dict_get_set)
  have "semantic_signature_checks lib ?msg ?sig = Inr True"
    using assms(5) by (simp add: semantic_signature_checks_def signed_summary_def b64decode_encode load_public_key_def
        check_signature_def library_ok_def)
  moreover have "read_file dir' ''records.json'' = read_file dir0 ''records.json''"
    using get [OF names(3)] by (rule read_file_cong)
  moreover have "ssg_signer_key_sha256 ?sig = signer_key_sha256 (signed_release lib private (manifest_line m))"
    by (simp add: signed_summary_def signed_release_simps)
  moreover have "summary_matches s m root n" by (simp add: summary_matches_def s summary_of_def)
  ultimately have "check_semantics lib rd rp dir' = Inr \<lparr>sv_release_id = Some (ss_release_id s), sv_valid = True,
      sv_signature_valid = True, signer_matches_release = True, semantic_root_valid = True,
      sv_semantic_root = Some (semantic_root s), sv_semantic_record_count = Some (semantic_record_count s), sv_error = None\<rparr>"
    using get [OF names(1)] get [OF names(2)] side assms(7-9) sig rs
    by (simp add: check_semantics_def read_file_def [of dir' "''manifest.json''"] read_file_def [of dir' "''manifest.signature.json''"]
        read_file_def [of dir' semantic_summary_name] read_file_def [of dir' semantic_signature_name] files strip_summary Let_def
        del: bind_result_eq_Inr)
  then show ?thesis using built by (simp add: verify_semantic_release_def base report_errors_def s summary_of_def)
qed

section \<open>What is published\<close>

lemma verified_sequences:
  assumes "verify_checkpoint_chain lib dt election st = Inr report" "cr_valid report"
  shows "map (\<lambda>c. cp_sequence (ck_payload c)) (election_checkpoints election st) = [1..int (length (election_checkpoints election st))]"
proof -
  obtain m h where "check_checkpoints lib dt (key_events st) election 0 None (election_checkpoints election st) = (m, h, None)"
    using assms by (auto simp: verify_checkpoint_chain_def split: if_splits prod.splits option.splits)
  then show ?thesis using check_checkpoints_done by fastforce
qed

lemma matching_checkpoint_Inr:
  assumes "matching_checkpoint st election sha = Inr (c, prefix)"
    "map (\<lambda>c. cp_sequence (ck_payload c)) (election_checkpoints election st) = [1..int (length (election_checkpoints election st))]"
  shows "prefix \<noteq> []" "last prefix = c"
proof -
  let ?cps = "election_checkpoints election st"
  have c: "filter (\<lambda>c. cp_manifest_sha256 (ck_payload c) = sha) ?cps = [c]"
    and p: "prefix = take (nat (cp_sequence (ck_payload c))) ?cps" "prefix \<noteq> []"
    using assms(1) by (auto simp: matching_checkpoint_def Let_def split: list.splits if_splits)
  have "c \<in> set ?cps" using arg_cong [OF c, of set] by auto
  then obtain i where i: "i < length ?cps" "?cps ! i = c" by (auto simp: in_set_conv_nth)
  have "cp_sequence (ck_payload c) = map (\<lambda>c. cp_sequence (ck_payload c)) ?cps ! i" using i by simp
  also have "\<dots> = int i + 1" using i(1) by (simp add: assms(2) nth_upto)
  finally have "prefix = take (Suc i) ?cps" by (simp add: p(1) nat_add_distrib)
  then show "prefix \<noteq> []" "last prefix = c" using p(2) i by (simp_all add: take_Suc_conv_app_nth)
qed

lemma governance_inputs_Inr:
  assumes "governance_inputs lib dt st m sha signer = Inr (c, keys, links)"
  shows "checkpoint_binds (ck_payload c) m sha" "cp_signer_key_sha256 (ck_payload c) = signer"
    "verify_checkpoint_chain_snapshot lib dt links keys" "last (cs_checkpoints links) = c"
proof -
  obtain prefix report where p: "matching_checkpoint st (rm_election_id m) sha = Inr (c, prefix)"
    "verify_checkpoint_chain lib dt (rm_election_id m) st = Inr report" "cr_valid report"
    and l: "cs_checkpoints links = prefix"
    and ok: "checkpoint_binds (ck_payload c) m sha" "cp_signer_key_sha256 (ck_payload c) = signer"
      "verify_checkpoint_chain_snapshot lib dt links keys"
    using assms by (auto simp: governance_inputs_def Let_def split: if_splits)
  show "checkpoint_binds (ck_payload c) m sha" "cp_signer_key_sha256 (ck_payload c) = signer"
    "verify_checkpoint_chain_snapshot lib dt links keys" by (fact ok)+
  show "last (cs_checkpoints links) = c"
    using matching_checkpoint_Inr(2) [OF p(1) verified_sequences [OF p(2,3)]] l by simp
qed

lemma governed_inputs_Inr:
  assumes "governed_inputs lib rd rp dt dir st trusted = Inr i"
  obtains v content signature summary where
    "verify_semantic_release lib rd rp dir trusted = Inr v" "sv_valid v"
    "dict_get dir ''manifest.json'' = Some content" "parse_manifest lib (strip_newlines content) = Inr (gi_manifest i)"
    "bind_result (read_file dir ''manifest.signature.json'') (parse_signature lib) = Inr signature"
    "dict_get dir semantic_summary_name = Some summary" "parse_summary rd (strip_newlines summary) = Inr (gi_semantic i)"
    "gi_manifest_sha256 i = sha256_bytes (strip_newlines content)"
    "gi_semantic_sha256 i = sha256_bytes (strip_newlines summary)"
    "governance_inputs lib dt st (gi_manifest i) (gi_manifest_sha256 i) (signer_key_sha256 signature)
      = Inr (gi_checkpoint i, gi_keys i, gi_chain i)"
  using assms by (auto simp: governed_inputs_def Let_def read_file_def split: if_splits option.splits)

lemma publish_governed_Inr:
  assumes "publish_governed_release lib rd rp dt dir st trusted b = (b', Inr g)"
  obtains i b1 b2 release_refs refs summary signature where
    "governed_inputs lib rd rp dt dir st trusted = Inr i"
    "put_objects (release_objects i dir) b = (b1, Inr release_refs)"
    "dict_get dir semantic_summary_name = Some summary" "dict_get dir semantic_signature_name = Some signature"
    "put_objects (governance_objects dt i summary signature) b1 = (b2, Inr refs)"
    "put_record (publication_record_of i release_refs refs) b2 = (b', Inr g)"
proof -
  obtain i where i: "governed_inputs lib rd rp dt dir st trusted = Inr i"
    using assms by (auto simp: publish_governed_release_def split: sum.splits)
  obtain b1 r1 where p1: "put_objects (release_objects i dir) b = (b1, r1)" by fastforce
  obtain release_refs where r1: "r1 = Inr release_refs"
    using assms by (cases r1) (simp_all add: publish_governed_release_def i p1)
  let ?files = "bind_result (read_file dir semantic_summary_name) (\<lambda>summary.
      bind_result (read_file dir semantic_signature_name) (\<lambda>signature. return (summary, signature)))"
  obtain summary signature where f: "?files = Inr (summary, signature)"
    using assms by (cases ?files) (auto simp: publish_governed_release_def i p1 r1)
  obtain b2 r2 where p2: "put_objects (governance_objects dt i summary signature) b1 = (b2, r2)" by fastforce
  obtain refs where r2: "r2 = Inr refs"
    using assms by (cases r2) (simp_all add: publish_governed_release_def i p1 r1 f p2)
  have "put_record (publication_record_of i release_refs refs) b2 = (b', Inr g)"
    using assms by (simp add: publish_governed_release_def i p1 r1 f p2 r2)
  moreover have "dict_get dir semantic_summary_name = Some summary" "dict_get dir semantic_signature_name = Some signature"
    using f by (auto simp: read_file_def split: option.splits)
  ultimately show thesis using that i p1 p2 r1 r2 by blast
qed

lemma put_record_Inr:
  assumes "put_record r b = (b', Inr g)"
  shows "gp_record g = r" "gp_sha256 g = sha256_bytes (canonical_json_bytes (publication_json r))"
    "gp_path g = publication_path_of (gp_sha256 g)" "extends b b'"
    "holds_object b' (publication_path_of (gp_sha256 g)) (canonical_json_bytes (publication_json r))"
proof -
  let ?c = "canonical_json_bytes (publication_json r)"
  obtain ref where p: "put_bytes (publication_path_of (sha256_bytes ?c)) ?c b = Inr (b', ref)"
    and g: "g = \<lparr>gp_sha256 = sha256_bytes ?c, gp_path = publication_path_of (sha256_bytes ?c), gp_record = r\<rparr>"
    using assms by (auto simp: put_record_def Let_def split: if_splits sum.splits)
  show "gp_record g = r" "gp_sha256 g = sha256_bytes ?c" "gp_path g = publication_path_of (gp_sha256 g)" by (simp_all add: g)
  show "extends b b'" "holds_object b' (publication_path_of (gp_sha256 g)) ?c" using put_bytes_Inr [OF p] by (simp_all add: g)
qed

text \<open>References to named contents are read back as a directory.\<close>

definition refs_of :: "(string \<Rightarrow> string) \<Rightarrow> (string \<times> byte list) list \<Rightarrow> object_ref list" where
  "refs_of path files = map (\<lambda>(name, content). object_ref_of (path name) content) files"

lemma read_refs_of:
  assumes "\<forall>(name, content) \<in> set files. holds_object b (path name) content \<and> file_name (path name) = name"
  shows "read_refs b (refs_of path files) = Inr (dict_of files)"
proof -
  have "map_result (\<lambda>r. bind_result (verify_ref b r) (\<lambda>content. return (file_name (or_path r), content))) (refs_of path files)
      = Inr files"
    using assms by (induction files) (auto simp: refs_of_def verify_ref_stored)
  then show ?thesis by (simp add: read_refs_def)
qed

definition release_files_of :: "byte list dict \<Rightarrow> (string \<times> byte list) list" where
  "release_files_of dir = map (\<lambda>name. (name, the (dict_get dir name))) release_names"

lemma release_refs_stored:
  assumes "put_objects (release_objects i dir) b = (b', Inr refs)"
  shows "extends b b'" "refs = refs_of (release_path_of (gi_manifest_sha256 i)) (release_files_of dir)"
    "\<forall>(name, content) \<in> set (release_files_of dir). holds_object b' (release_path_of (gi_manifest_sha256 i) name) content
      \<and> dict_get dir name = Some content"
proof -
  have l: "list_all2 (\<lambda>name r. \<exists>content. dict_get dir name = Some content
      \<and> r = object_ref_of (release_path_of (gi_manifest_sha256 i) name) content
      \<and> holds_object b' (release_path_of (gi_manifest_sha256 i) name) content) release_names refs"
    using put_objects_Inr [OF assms] unfolding release_objects_def list_all2_map1
    by (auto simp: read_file_def split: option.splits elim!: list_all2_mono)
  show "extends b b'" using put_objects_Inr [OF assms] by simp
  show "refs = refs_of (release_path_of (gi_manifest_sha256 i)) (release_files_of dir)"
    using l by (auto simp: refs_of_def release_files_of_def list_all2_conv_all_nth intro!: nth_equalityI)
  show "\<forall>(name, content) \<in> set (release_files_of dir). holds_object b' (release_path_of (gi_manifest_sha256 i) name) content
      \<and> dict_get dir name = Some content"
    using l by (fastforce simp: release_files_of_def list_all2_conv_all_nth in_set_conv_nth)
qed

definition semantic_files_of :: "byte list \<Rightarrow> byte list \<Rightarrow> (string \<times> byte list) list" where
  "semantic_files_of summary signature = [(semantic_summary_name, summary), (semantic_signature_name, signature)]"

lemma governance_refs_stored:
  assumes "put_objects (governance_objects dt i summary signature) b = (b', Inr refs)"
  shows "extends b b'" "take 2 refs = refs_of (semantic_path_of (gi_semantic_sha256 i)) (semantic_files_of summary signature)"
    "\<forall>(name, content) \<in> set (semantic_files_of summary signature). holds_object b' (semantic_path_of (gi_semantic_sha256 i) name) content"
    "verify_ref b' (refs ! 2) = Inr (canonical_json_bytes (checkpoint_json dt (gi_checkpoint i)))"
    "or_path (refs ! 2) = checkpoint_path_of (ck_hash (gi_checkpoint i))"
    "verify_ref b' (refs ! 3) = Inr (canonical_json_bytes (key_snapshot_json dt (gi_keys i)))"
    "verify_ref b' (refs ! 4) = Inr (canonical_json_bytes (chain_snapshot_json dt (gi_chain i)))"
proof -
  let ?k = "canonical_json_bytes (key_snapshot_json dt (gi_keys i))"
  let ?c = "canonical_json_bytes (chain_snapshot_json dt (gi_chain i))"
  let ?p = "canonical_json_bytes (checkpoint_json dt (gi_checkpoint i))"
  let ?sp = "semantic_path_of (gi_semantic_sha256 i)"
  note put = put_objects_Inr [OF assms, unfolded governance_objects_def Let_def]
  have refs: "refs = [object_ref_of (?sp semantic_summary_name) summary, object_ref_of (?sp semantic_signature_name) signature,
      object_ref_of (checkpoint_path_of (ck_hash (gi_checkpoint i))) ?p,
      object_ref_of (''governance/release-key-snapshots/'' @ sha256_bytes ?k @ ''.json'') ?k,
      object_ref_of (''governance/checkpoint-snapshots/'' @ sha256_bytes ?c @ ''.json'') ?c]"
    and h: "holds_object b' (?sp semantic_summary_name) summary" "holds_object b' (?sp semantic_signature_name) signature"
      "holds_object b' (checkpoint_path_of (ck_hash (gi_checkpoint i))) ?p"
      "holds_object b' (''governance/release-key-snapshots/'' @ sha256_bytes ?k @ ''.json'') ?k"
      "holds_object b' (''governance/checkpoint-snapshots/'' @ sha256_bytes ?c @ ''.json'') ?c"
    using put by (simp_all add: list_all2_Cons1)
  show "extends b b'" using put by simp
  show "take 2 refs = refs_of ?sp (semantic_files_of summary signature)"
    by (simp add: refs refs_of_def semantic_files_of_def)
  show "\<forall>(name, content) \<in> set (semantic_files_of summary signature). holds_object b' (?sp name) content"
    using h by (simp add: semantic_files_of_def)
  show "verify_ref b' (refs ! 2) = Inr ?p" "verify_ref b' (refs ! 3) = Inr ?k" "verify_ref b' (refs ! 4) = Inr ?c"
    "or_path (refs ! 2) = checkpoint_path_of (ck_hash (gi_checkpoint i))"
    using h by (simp_all add: refs verify_ref_stored)
qed

section \<open>Publications verify\<close>

text \<open>pydantic reads back what it dumped for the documents of the publication, and does not mind a final newline.\<close>

definition reads_back :: "release_library \<Rightarrow> semantic_reader \<Rightarrow> publication_reader \<Rightarrow> (datetime \<Rightarrow> string)
    \<Rightarrow> byte list dict \<Rightarrow> governed_inputs \<Rightarrow> publication_record \<Rightarrow> bool" where
  "reads_back lib rd pr dt dir i r \<longleftrightarrow>
     parse_publication pr (canonical_json_bytes (publication_json r)) = Inr r
     \<and> parse_key_snapshot pr (canonical_json_bytes (key_snapshot_json dt (gi_keys i))) = Inr (gi_keys i)
     \<and> parse_chain_snapshot pr (canonical_json_bytes (chain_snapshot_json dt (gi_chain i))) = Inr (gi_chain i)
     \<and> parse_checkpoint pr (canonical_json_bytes (checkpoint_json dt (gi_checkpoint i))) = Inr (gi_checkpoint i)
     \<and> (\<forall>content. dict_get dir ''manifest.json'' = Some content
          \<longrightarrow> parse_manifest lib content = parse_manifest lib (strip_newlines content))
     \<and> (\<forall>content. dict_get dir semantic_summary_name = Some content
          \<longrightarrow> parse_summary rd content = parse_summary rd (strip_newlines content))"

lemma published_paths_valid:
  assumes "pr_release_files r = refs_of (release_path_of (pr_manifest_sha256 r)) (release_files_of dir)"
    "pr_semantic_files r = refs_of (semantic_path_of (pr_semantic_summary_sha256 r)) (semantic_files_of summary signature)"
    "or_path (pr_checkpoint r) = checkpoint_path_of (pr_checkpoint_hash r)"
  shows "validate_publication_paths r = Inr ()"
proof -
  have paths: "map or_path (pr_release_files r) = map (release_path_of (pr_manifest_sha256 r)) release_names"
    "map or_path (pr_semantic_files r) =
      map (semantic_path_of (pr_semantic_summary_sha256 r)) [semantic_summary_name, semantic_signature_name]"
    by (simp_all add: assms refs_of_def release_files_of_def semantic_files_of_def)
  have inj: "inj_on (release_path_of s) A" for s A by (simp add: inj_on_def release_path_of_def)
  have "distinct (map (release_path_of (pr_manifest_sha256 r)) release_names)"
    using release_names_plain(1) inj by (simp add: distinct_map)
  moreover have "distinct (map (semantic_path_of (pr_semantic_summary_sha256 r)) [semantic_summary_name, semantic_signature_name])"
    using release_names_plain(7) by (simp add: semantic_path_of_def)
  ultimately show ?thesis unfolding validate_publication_paths_def Let_def paths using assms(3) by simp
qed

lemma published_directory_get:
  assumes "po_release obj = dict_of (release_files_of dir)" "po_semantic obj = dict_of (semantic_files_of summary signature)"
    "\<forall>(name, content) \<in> set (release_files_of dir). dict_get dir name = Some content"
    "dict_get dir semantic_summary_name = Some summary" "dict_get dir semantic_signature_name = Some signature"
    "name \<in> set release_names \<union> {semantic_summary_name, semantic_signature_name}"
  shows "dict_get (published_directory obj) name = dict_get dir name"
    "name \<in> set release_names \<Longrightarrow> dict_get (po_release obj) name = dict_get dir name"
    "dict_get (po_semantic obj) semantic_summary_name = Some summary"
proof -
  have d: "distinct (map fst (release_files_of dir))" "distinct (map fst (semantic_files_of summary signature))"
    using release_names_plain(1,7) by (simp_all add: release_files_of_def semantic_files_of_def comp_def)
  have rel: "dict_get (po_release obj) n = (if n \<in> set release_names then dict_get dir n else None)" for n
  proof -
    have "map_of (release_files_of dir) n = (if n \<in> set release_names then Some (the (dict_get dir n)) else None)"
      by (auto simp: release_files_of_def map_of_map_restrict [unfolded restrict_map_def comp_def])
    moreover have "n \<in> set release_names \<Longrightarrow> \<exists>content. dict_get dir n = Some content"
      using assms(3) by (auto simp: release_files_of_def)
    ultimately show ?thesis by (auto simp: assms(1) dict_get_of_distinct [OF d(1)])
  qed
  then show "name \<in> set release_names \<Longrightarrow> dict_get (po_release obj) name = dict_get dir name" by simp
  have sem: "dict_get (po_semantic obj) n = map_of (semantic_files_of summary signature) n" for n
    by (simp add: assms(2) dict_get_of_distinct [OF d(2)])
  then show "dict_get (po_semantic obj) semantic_summary_name = Some summary" by (simp add: semantic_files_of_def)
  have "dict_ok (po_semantic obj)" by (simp add: assms(2))
  then have "map_of (rev (po_semantic obj)) n = map_of (semantic_files_of summary signature) n" for n
    using sem dict_get_of_distinct [of "po_semantic obj"] by (simp add: dict_ok_def dict_get_of [symmetric])
  then show "dict_get (published_directory obj) name = dict_get dir name"
    using rel assms(4-6) release_names_plain(5-7)
    by (auto simp: published_directory_def dict_get_fold semantic_files_of_def split: option.splits)
qed

text \<open>C22. What was published verifies. Whenever \<open>publish_governed_release\<close> returns, verifying the publication
  it names succeeds with every single check passing, on the backend it left and on every later one that still has its
  objects, and loading it returns the same publication. (What is relied on of pydantic: it reads back the documents
  of the publication.)\<close>

theorem published_release_verifies:
  assumes "publish_governed_release lib rd rp dt dir st trusted b = (b', Inr g)"
    and "governed_inputs lib rd rp dt dir st trusted = Inr i"
    and "reads_back lib rd pr dt dir i (gp_record g)" and "extends b' b''"
  shows "verify_governed_publication lib rd pr rp dt (gp_sha256 g) b'' trusted =
      Inr \<lparr>pv_publication_sha256 = Some (gp_sha256 g), pv_release_id = Some (rm_release_id (gi_manifest i)),
        pv_valid = True, pv_objects_valid = True, pv_release_valid = True, pv_key_snapshot_valid = True,
        pv_chain_valid = True, pv_error = None\<rparr>
    \<and> load_governed_publication pr (gp_sha256 g) b'' = Inr g
    \<and> extends b b'"
proof -
  from publish_governed_Inr [OF assms(1)] assms(2)
  obtain b1 b2 release_refs refs summary signature where
    p: "put_objects (release_objects i dir) b = (b1, Inr release_refs)"
      "put_objects (governance_objects dt i summary signature) b1 = (b2, Inr refs)"
      "put_record (publication_record_of i release_refs refs) b2 = (b', Inr g)"
    and side: "dict_get dir semantic_summary_name = Some summary" "dict_get dir semantic_signature_name = Some signature"
    by (metis sum.inject(2))
  from governed_inputs_Inr [OF assms(2)] obtain v content rsig summary' where
    v: "verify_semantic_release lib rd rp dir trusted = Inr v" "sv_valid v"
    and m: "dict_get dir ''manifest.json'' = Some content" "parse_manifest lib (strip_newlines content) = Inr (gi_manifest i)"
      "gi_manifest_sha256 i = sha256_bytes (strip_newlines content)"
    and rsig: "bind_result (read_file dir ''manifest.signature.json'') (parse_signature lib) = Inr rsig"
    and sm: "dict_get dir semantic_summary_name = Some summary'" "parse_summary rd (strip_newlines summary') = Inr (gi_semantic i)"
      "gi_semantic_sha256 i = sha256_bytes (strip_newlines summary')"
    and gov: "governance_inputs lib dt st (gi_manifest i) (gi_manifest_sha256 i) (signer_key_sha256 rsig)
      = Inr (gi_checkpoint i, gi_keys i, gi_chain i)" .
  have [simp]: "summary' = summary" using sm(1) side(1) by simp
  let ?r = "publication_record_of i release_refs refs"
  note rec = put_record_Inr [OF p(3)] and rel = release_refs_stored [OF p(1)] and sem = governance_refs_stored [OF p(2)]
  have ext: "extends b1 b''" "extends b2 b''"
    using extends_trans [OF sem(1)] extends_trans [OF rec(4)] assms(4) by blast+
  have r: "pr_release_files ?r = release_refs" "pr_semantic_files ?r = take 2 refs" "pr_checkpoint ?r = refs ! 2"
    "pr_key_snapshot ?r = refs ! 3" "pr_chain_snapshot ?r = refs ! 4" "pr_manifest_sha256 ?r = gi_manifest_sha256 i"
    "pr_semantic_summary_sha256 ?r = gi_semantic_sha256 i" "pr_checkpoint_hash ?r = ck_hash (gi_checkpoint i)"
    by (simp_all add: publication_record_of_def)
  note reads = assms(3) [unfolded reads_back_def rec(1)]
  have loaded: "read_publication pr (gp_sha256 g) b'' = Inr ?r"
    using holds_object_extends [OF rec(5) assms(4)] rec(2) reads by (simp add: read_publication_def read_bytes_stored)
  let ?obj = "\<lparr>po_record = ?r, po_release = dict_of (release_files_of dir),
    po_semantic = dict_of (semantic_files_of summary signature),
    po_checkpoint = canonical_json_bytes (checkpoint_json dt (gi_checkpoint i)),
    po_keys = canonical_json_bytes (key_snapshot_json dt (gi_keys i)),
    po_chain = canonical_json_bytes (chain_snapshot_json dt (gi_chain i))\<rparr>"
  have "read_refs b'' release_refs = Inr (dict_of (release_files_of dir))"
    unfolding rel(2) by (rule read_refs_of)
      (use rel(3) ext(1) release_names_plain(2) in \<open>auto simp: release_files_of_def file_name_of intro: holds_object_extends\<close>)
  moreover have "read_refs b'' (take 2 refs) = Inr (dict_of (semantic_files_of summary signature))"
    unfolding sem(2) by (rule read_refs_of)
      (use sem(3) ext(2) release_names_plain(3,4) in \<open>auto simp: semantic_files_of_def file_name_of intro: holds_object_extends\<close>)
  moreover have "validate_publication_paths ?r = Inr ()"
    by (rule published_paths_valid [of _ dir summary signature]; unfold r; fact rel(2) sem(2,5))
  moreover have "is_sha256_hex (gp_sha256 g)" by (simp add: rec(2) sha256_bytes_is_hex)
  ultimately have objects: "publication_objects pr (gp_sha256 g) b'' = Inr ?obj"
    using sem(4,6,7) [THEN verify_ref_extends, OF ext(2)] by (simp add: publication_objects_def loaded r)
  have dir_get: "dict_get (published_directory ?obj) name = dict_get dir name"
      "name \<in> set release_names \<Longrightarrow> dict_get (po_release ?obj) name = dict_get dir name"
      "dict_get (po_semantic ?obj) semantic_summary_name = Some summary"
    if "name \<in> set release_names \<union> {semantic_summary_name, semantic_signature_name}" for name
    using published_directory_get [of ?obj dir summary signature name] rel(3) side that by auto
  have "verify_semantic_release lib rd rp (published_directory ?obj) trusted = Inr v"
    unfolding v(1) [symmetric] by (rule verify_semantic_release_cong) (use dir_get(1) in blast)
  moreover have docs: "governance_documents pr ?obj = Inr (gi_keys i, gi_chain i, gi_checkpoint i)"
    using reads by (simp add: governance_documents_def)
  moreover note ok = governance_inputs_Inr [OF gov]
  moreover have keys: "verify_release_key_snapshot (gi_keys i)" using ok(3) by (simp add: verify_checkpoint_chain_snapshot_def)
  moreover have "check_bindings lib rd ?obj (gi_keys i) (gi_chain i) (gi_checkpoint i) True True = Inr ()"
  proof -
    have n: "''manifest.json'' \<in> set release_names" "''manifest.signature.json'' \<in> set release_names"
      by (simp_all add: release_names_def)
    have "row_value (po_release ?obj) ''manifest.json'' = Inr content"
      using dir_get(2) [OF _ n(1)] n m(1) by (simp add: row_value_def)
    moreover have "bind_result (row_value (po_release ?obj) ''manifest.signature.json'') (parse_signature lib) =
        bind_result (read_file dir ''manifest.signature.json'') (parse_signature lib)"
      using dir_get(2) [OF _ n(2)] n rsig by (auto simp: row_value_def read_file_def split: option.splits)
    moreover have "row_value (po_semantic ?obj) semantic_summary_name = Inr summary"
      using dir_get(3) [of semantic_summary_name] by (simp add: row_value_def)
    moreover have "bindings_hold ?obj (gi_manifest i) rsig (gi_semantic i) content summary (gi_keys i) (gi_chain i) (gi_checkpoint i)"
      using ok m(3) sm(3) by (simp add: bindings_hold_def Let_def publication_record_of_def)
    ultimately show ?thesis using reads m(1,2) sm ok(4)
      by (simp add: check_bindings_def checkpoint_eq_def datetime_eq_def rsig del: bind_result_eq_Inr)
  qed
  ultimately have "verify_governed_publication lib rd pr rp dt (gp_sha256 g) b'' trusted =
      Inr \<lparr>pv_publication_sha256 = Some (gp_sha256 g), pv_release_id = Some (rm_release_id (gi_manifest i)),
        pv_valid = True, pv_objects_valid = True, pv_release_valid = True, pv_key_snapshot_valid = True,
        pv_chain_valid = True, pv_error = None\<rparr>"
    using v(2) by (simp add: verify_governed_publication_def staged_def objects Let_def) (simp add: publication_record_of_def)
  moreover have "load_governed_publication pr (gp_sha256 g) b'' = Inr g"
    using rec(1,3) by (simp add: load_governed_publication_def loaded)
  moreover have "extends b b'" using extends_trans rel(1) sem(1) rec(4) by blast
  ultimately show ?thesis by simp
qed

end
