(* ===== verification/Publication_Demo.thy ===== *)
theory Publication_Demo
  imports Publication_Verify
begin

text \<open>
  The paths of publications never get in each other's way, and a concrete release, checkpoint and publication that go
  through all the stages.
\<close>

section \<open>The layout of the backend\<close>

lemma split_plain: "c \<notin> set a \<Longrightarrow> split_at_char c a = [a]"
  by (induction a) auto

lemma split_cons: "c \<notin> set a \<Longrightarrow> split_at_char c (a @ c # b) = a # split_at_char c b"
  by (induction a) auto

lemma split_parts: "p \<in> set (split_at_char c s) \<Longrightarrow> c \<notin> set p"
proof (induction s arbitrary: p)
  case (Cons x s)
  then show ?case by (cases "split_at_char c s") (auto split: if_splits)
qed simp

definition plain_part :: "string \<Rightarrow> bool" where
  "plain_part p \<longleftrightarrow> p \<noteq> [] \<and> p \<noteq> ''.'' \<and> p \<noteq> ''..'' \<and> CHR ''/'' \<notin> set p \<and> CHR 0x5C \<notin> set p"

lemma path_parts_join: "list_all (\<lambda>p. p \<noteq> [] \<and> p \<noteq> ''.'' \<and> CHR ''/'' \<notin> set p) parts \<Longrightarrow> path_parts (join ''/'' parts) = parts"
  by (induction "''/''" parts rule: join.induct) (auto simp: path_parts_def split_plain split_cons)

lemma relative_path_parts: "relative_path p = Inr parts \<Longrightarrow> parts = path_parts p"
  by (auto simp: relative_path_def Let_def split: if_splits)

lemma set_join: "set (join sep parts) \<subseteq> set sep \<union> \<Union> (set ` set parts)"
  by (induction sep parts rule: join.induct) auto

lemma relative_path_join:
  assumes "list_all plain_part parts" "parts \<noteq> []"
  shows "relative_path (join ''/'' parts) = Inr parts"
proof -
  have p: "path_parts (join ''/'' parts) = parts"
    by (rule path_parts_join) (use assms in \<open>auto simp: list_all_iff plain_part_def\<close>)
  obtain q qs where q: "parts = q # qs" using assms(2) by (cases parts) auto
  have "take 1 (join ''/'' parts) \<noteq> ''/''"
    using assms(1) by (cases qs; cases q) (auto simp: q plain_part_def)
  moreover have "CHR 0x5C \<notin> set (join ''/'' parts)"
    using set_join [of "''/''" parts] assms(1) by (auto simp: list_all_iff plain_part_def)
  moreover have "''..'' \<notin> set parts" using assms(1) by (auto simp: list_all_iff plain_part_def)
  ultimately show ?thesis using assms(2) by (simp add: relative_path_def Let_def p)
qed

text \<open>Publications are two levels deep, everything else three.\<close>

definition layout :: "string list \<Rightarrow> bool" where
  "layout parts \<longleftrightarrow> length parts = (if parts = [] then 1 else if hd parts = ''publications'' then 2 else 3)"

definition laid_out :: "backend \<Rightarrow> bool" where
  "laid_out b \<longleftrightarrow> (\<forall>path \<in> dict_keys b. layout (path_parts path))"

lemma put_bytes_laid_out:
  assumes "laid_out b" "list_all plain_part parts" "layout parts" "content \<noteq> []"
    "dict_get b (join ''/'' parts) = None"
  shows "put_bytes (join ''/'' parts) content b =
      Inr (dict_set (join ''/'' parts) content b, object_ref_of (join ''/'' parts) content)"
    "laid_out (dict_set (join ''/'' parts) content b)"
proof -
  have ne: "parts \<noteq> []" using assms(3) by (auto simp: layout_def)
  have parts: "path_parts (join ''/'' ps) = ps" if "set ps \<subseteq> set parts" for ps
    by (rule path_parts_join) (use assms(2) that in \<open>auto simp: list_all_iff plain_part_def\<close>)
  have "\<not> blocked_parent b parts"
  proof
    assume "blocked_parent b parts"
    then obtain n content where n: "1 \<le> n" "n < length parts" "dict_get b (join ''/'' (take n parts)) = Some content"
      by (auto simp: blocked_parent_def list_ex_iff)
    note n(3) [THEN dict_get_Some_key]
    then have "layout (take n parts)" using assms(1) parts [of "take n parts"] set_take_subset [of n parts] by (auto simp: laid_out_def)
    then show False using n(1,2) assms(3) ne by (auto simp: layout_def hd_take split: if_splits)
  qed
  moreover have "\<not> is_directory b parts"
  proof
    assume "is_directory b parts"
    then obtain x where "x \<in> set b" "length parts < length (path_parts (fst x))"
      "take (length parts) (path_parts (fst x)) = parts"
      using ne by (auto simp: is_directory_def list_ex_iff split_beta)
    then obtain path where p: "path \<in> dict_keys b" "length parts < length (path_parts path)"
      "take (length parts) (path_parts path) = parts" by (auto simp: dict_keys_def)
    then have "layout (path_parts path)" "hd (path_parts path) = hd parts"
      using assms(1) ne by (auto simp: laid_out_def) (metis hd_take length_greater_0_conv)
    then show False using p(2) assms(3) ne by (auto simp: layout_def split: if_splits)
  qed
  ultimately show "put_bytes (join ''/'' parts) content b =
      Inr (dict_set (join ''/'' parts) content b, object_ref_of (join ''/'' parts) content)"
    using assms(4,5) relative_path_join [OF assms(2) ne] by (simp add: put_bytes_def)
  show "laid_out (dict_set (join ''/'' parts) content b)"
    using assms(1,3) parts [of parts] by (auto simp: laid_out_def dict_keys_set)
qed

lemma put_objects_laid_out:
  assumes "laid_out b" "distinct (map fst objs)" "\<forall>path \<in> fst ` set objs. dict_get b path = None"
    "\<forall>(path, c) \<in> set objs. (\<exists>parts. path = join ''/'' parts \<and> list_all plain_part parts \<and> layout parts)
      \<and> (\<exists>content. c = Inr content \<and> content \<noteq> [])"
  shows "\<exists>b' refs. put_objects objs b = (b', Inr refs) \<and> laid_out b' \<and> dict_keys b' = dict_keys b \<union> fst ` set objs"
  using assms
proof (induction objs arbitrary: b)
  case (Cons x objs)
  obtain path c where x: "x = (path, c)" by (cases x)
  obtain parts content where p: "path = join ''/'' parts" "list_all plain_part parts" "layout parts" "c = Inr content" "content \<noteq> []"
    using Cons.prems(4) x by auto
  have put: "put_bytes path content b = Inr (dict_set path content b, object_ref_of path content)" "laid_out (dict_set path content b)"
    using put_bytes_laid_out [OF Cons.prems(1) p(2,3,5)] Cons.prems(3) x p(1) by simp_all
  have "path \<notin> fst ` set objs" using Cons.prems(2) x by simp
  then have "\<forall>q \<in> fst ` set objs. dict_get (dict_set path content b) q = None"
    using Cons.prems(3) by (metis dict_get_set image_insert insertCI list.set(2))
  then have "\<exists>b' refs. put_objects objs (dict_set path content b) = (b', Inr refs) \<and> laid_out b'
      \<and> dict_keys b' = dict_keys (dict_set path content b) \<union> fst ` set objs"
    using Cons.IH [OF put(2)] Cons.prems(2,4) x by simp
  then show ?case using put(1) by (auto simp: x p(4) dict_keys_set)
qed simp

section \<open>A concrete release with a semantic summary\<close>

definition demo_snapshot_record :: release_record where
  "demo_snapshot_record = \<lparr>record_type = registry_snapshot_record, release_key = ''E:1'',
     release_payload = [(''payload'', JObj [])]\<rparr>"

lemma demo_snapshot_lengths:
  "length (canonical_json_text (JArr [release_record_json demo_snapshot_record])) = 81"
  "length (concat (map csv_row [csv_header, csv_fields demo_snapshot_record])) = 77"
  "length (demo_parquet_write [(record_type_text (record_type demo_snapshot_record),
     release_key demo_snapshot_record, canonical_payload demo_snapshot_record)]) = 71"
  "length (canonical_payload demo_snapshot_record) = 14"
  by code_simp+

lemma demo_snapshot_exportable: "exportable demo_release_library demo_snapshot_record"
proof -
  have "utf8_text ''payload''" "utf8_text ''E:1''" by (rule utf8_ascii, simp)+
  moreover have "text_length (canonical_payload demo_snapshot_record) \<le> csv_limit"
    by (rule short_text) (simp add: demo_snapshot_lengths csv_limit_def)
  moreover have "text_length ''E:1'' \<le> csv_limit" by (rule short_text) (simp add: csv_limit_def)
  ultimately show ?thesis by (simp add: exportable_def document_ok_def demo_snapshot_record_def)
qed

lemma demo_snapshot_build:
  "\<exists>m dir. build_release demo_release_library key ''E'' [demo_snapshot_record] [] = Inr (m, dir)
     \<and> json_readable (float_text demo_release_library) (manifest_json m)"
  by (rule single_build) (simp_all only: demo_snapshot_exportable demo_snapshot_lengths, simp_all)

lemma demo_semantic_root:
  "\<exists>root. semantic_merkle_root demo_release_library rp [demo_snapshot_record] = Inr (root, 1) \<and> is_sha256_hex root"
proof -
  have r: "registry_payload_of [(''payload'', JObj [])] = Inr []"
    by (simp add: registry_payload_of_def require_dict_def drop_retrieved_at_def item_or_null_def dict_default_def sort_field_def)
  have n: "normal_records rp [demo_snapshot_record] = Inr [(registry_snapshot_record, [])]"
    by (simp add: normal_records_def demo_snapshot_record_def r dict_keys_Nil)
  have "utf8_text ''registry_snapshot''" "utf8_text ''record_type''" "utf8_text ''payload''" by (rule utf8_ascii, simp)+
  then obtain key where k: "semantic_key registry_snapshot_record [] = Inr key"
    by (simp add: semantic_key_def encode_document_def record_type_text_def)
  let ?s = "\<lparr>sr_type = registry_snapshot_record, semantic_key_of = key, sr_payload = []\<rparr>"
  have "semantic_records demo_release_library rp [demo_snapshot_record] = Inr [?s]"
    by (simp add: semantic_records_def n k)
  then have "semantic_merkle_root demo_release_library rp [demo_snapshot_record] =
      Inr (hex (tree_root [sha256 (canonical_json_bytes (semantic_record_json ?s))]), 1)"
    by (simp add: semantic_merkle_root_def)
  moreover have "tree_root [x] = x" for x by (simp add: tree_root.simps)
  ultimately show ?thesis using sha256_bytes_is_hex by (simp add: sha256_bytes_def)
qed

text \<open>Readers that know one document, with or without its final newline.\<close>

definition reads_line :: "byte list \<Rightarrow> 'a \<Rightarrow> byte list \<Rightarrow> 'a result" where
  "reads_line doc v bs = (if strip_newlines bs = doc then return v else raise field_error)"

lemma strip_object: "strip_newlines (canonical_json_bytes (JObj kvs)) = canonical_json_bytes (JObj kvs)"
proof -
  have "strip_newlines (strip_newlines bs) = strip_newlines bs" for bs
    by (simp add: strip_newlines_def dropWhile_idem)
  then show ?thesis using strip_newlines_line [of kvs] by metis
qed

lemma reads_line_object:
  "reads_line (canonical_json_bytes (JObj kvs)) v (canonical_json_bytes (JObj kvs)) = Inr v"
  "reads_line (canonical_json_bytes (JObj kvs)) v (canonical_json_bytes (JObj kvs) @ [newline_byte]) = Inr v"
  by (simp_all add: reads_line_def strip_object strip_newlines_line)

definition demo_reader :: "semantic_summary \<Rightarrow> semantic_reader" where
  "demo_reader s = (let msg = canonical_json_bytes (summary_json s); sg = signed_summary demo_release_library [1, 2, 3] msg in
     \<lparr>parse_summary = reads_line msg s,
      parse_semantic_signature = reads_line (canonical_json_bytes (semantic_signature_json sg)) sg\<rparr>)"

lemma demo_manifest_line:
  assumes "manifest_fields_ok m" "json_readable (\<lambda>s. s) (manifest_json m)"
  shows "parse_manifest demo_release_library (manifest_line m @ [newline_byte]) = Inr m"
proof -
  have "json_ok (manifest_json m)" "json_strings_ok (manifest_json m)" "4 \<le> json_kind (manifest_json m)"
    using assms(1) by (auto simp: manifest_json_def manifest_fields_ok_def file_json_def file_fields_ok_def
        list_all_iff ascii_words hex_text_utf8)
  then show ?thesis using assms(2)
    by (simp add: demo_release_library_def manifest_line_def demo_parse_canonical read_manifest_sorted)
qed

lemma demo_records_read:
  assumes "build_release demo_release_library [1, 2, 3] ''E'' [demo_snapshot_record] [] = Inr (m, dir)"
  shows "bind_result (read_file dir ''records.json'') (records_from_json demo_release_library) = Inr [demo_snapshot_record]"
proof -
  obtain jb where "json_bytes [demo_snapshot_record] = Inr jb" "dict_get dir ''records.json'' = Some jb"
    using assms by (auto elim!: build_release_Inr)
  moreover have "canonical_record demo_snapshot_record = demo_snapshot_record"
    by (simp add: canonical_record_def canonical_fields_def demo_snapshot_record_def)
  ultimately show ?thesis
    using exports_read_back(1) [of "[demo_snapshot_record]" demo_release_library] demo_snapshot_exportable
    by (simp add: read_file_def)
qed

lemma demo_atomic:
  "\<exists>m dir0 dir s. build_release demo_release_library [1, 2, 3] ''E'' [demo_snapshot_record] [] = Inr (m, dir0)
     \<and> json_readable (\<lambda>s. s) (manifest_json m) \<and> manifest_fields_ok m
     \<and> build_atomic_release demo_release_library rp [1, 2, 3] ''E'' [demo_snapshot_record] [] = (dir, Inr s)
     \<and> is_sha256_hex (semantic_root s)"
proof -
  obtain m dir0 where b: "build_release demo_release_library [1, 2, 3] ''E'' [demo_snapshot_record] [] = Inr (m, dir0)"
    "json_readable (float_text demo_release_library) (manifest_json m)"
    using demo_snapshot_build by blast
  obtain root where root: "semantic_merkle_root demo_release_library rp [demo_snapshot_record] = Inr (root, 1)" "is_sha256_hex root"
    using demo_semantic_root by blast
  have "\<exists>dir. build_atomic_release demo_release_library rp [1, 2, 3] ''E'' [demo_snapshot_record] [] = (dir, Inr (summary_of m root 1))"
    by (simp add: build_atomic_release_def b(1) demo_records_read [OF b(1)] root(1) Let_def)
  moreover have "manifest_fields_ok m"
    using built_manifest_fields [OF b(1)] demo_snapshot_exportable by (simp add: utf8_ascii)
  moreover have "semantic_root (summary_of m root 1) = root" by (simp add: summary_of_def)
  ultimately show ?thesis using b root(2) by (auto simp: demo_release_library_def)
qed

section \<open>Its checkpoint and its publication\<close>

lemma demo_checkpoint_fields:
  "cp_sequence (ck_payload (demo_checkpoint_of dt m)) = 1"
  "cp_release_id (ck_payload (demo_checkpoint_of dt m)) = rm_release_id m"
  "cp_election_id (ck_payload (demo_checkpoint_of dt m)) = rm_election_id m"
  "cp_merkle_root (ck_payload (demo_checkpoint_of dt m)) = rm_merkle_root m"
  "cp_manifest_sha256 (ck_payload (demo_checkpoint_of dt m)) = sha256_bytes (manifest_line m)"
  "cp_signer_key_sha256 (ck_payload (demo_checkpoint_of dt m)) = sha256_bytes demo_key"
  "is_sha256_hex (ck_hash (demo_checkpoint_of dt m))"
proof -
  have "election_checkpoints (rm_election_id m) demo_governance = []"
    by (simp add: election_checkpoints_def demo_governance_def)
  then show "cp_sequence (ck_payload (demo_checkpoint_of dt m)) = 1"
    by (simp add: demo_checkpoint_of_def next_checkpoint_def Let_def)
qed (simp_all add: demo_checkpoint_of_def next_checkpoint_def Let_def demo_key_def checkpoint_hash_def sha256_bytes_is_hex)

definition demo_checked :: "(datetime \<Rightarrow> string) \<Rightarrow> release_manifest \<Rightarrow> governance_store" where
  "demo_checked dt m = demo_governance\<lparr>checkpoint_table := [demo_checkpoint_of dt m]\<rparr>"

definition demo_keys :: key_snapshot where
  "demo_keys = \<lparr>ks_events_checked = 1, ks_head_event_hash = ke_hash demo_key_event, ks_events = [demo_key_event]\<rparr>"

definition demo_links :: "(datetime \<Rightarrow> string) \<Rightarrow> release_manifest \<Rightarrow> chain_snapshot" where
  "demo_links dt m = \<lparr>cs_election_id = ''E'', cs_checkpoints_checked = 1,
     cs_head_checkpoint_hash = ck_hash (demo_checkpoint_of dt m), cs_checkpoints = [demo_checkpoint_of dt m]\<rparr>"

lemma demo_governance_inputs:
  assumes "build_release demo_release_library [1, 2, 3] ''E'' [r] [] = Inr (m, dir)"
    "json_readable (float_text demo_release_library) (manifest_json m)" "exportable demo_release_library r"
  shows "governance_inputs demo_release_library dt (demo_checked dt m) m (sha256_bytes (manifest_line m)) (sha256_bytes demo_key)
    = Inr (demo_checkpoint_of dt m, demo_keys, demo_links dt m)"
proof -
  let ?lib = demo_release_library and ?st = "demo_checked dt m" and ?c = "demo_checkpoint_of dt m"
  note cp = demo_checkpoint [OF assms, of dt] and f = demo_checkpoint_fields [of dt m]
  have e: "rm_election_id m = ''E''" using built_inputs(3) [OF assms] .
  have run: "governance_run ?lib dt (instant checkpoint_time) ?st"
    unfolding demo_checked_def by (rule governance_run.checkpoint [OF demo_run checkpoint_clock(2,1) cp(1)])
  note inv = governance_run_invariant [OF run demo_signatures_ok]
  note verifies = governance_run_verifies [OF run demo_signatures_ok]
  have cps: "election_checkpoints ''E'' ?st = [?c]" using cp(2) by (simp add: election_checkpoints_def demo_checked_def)
  have ev: "key_events ?st = [demo_key_event]" by (simp add: key_events_def demo_checked_def demo_governance_def)
  have "matching_checkpoint ?st ''E'' (sha256_bytes (manifest_line m)) = Inr (?c, [?c])"
    using f by (simp add: matching_checkpoint_def cps)
  moreover have "key_snapshot_of ?st = Inr demo_keys"
    using transparency_valid(1) [OF inv]
    by (simp add: key_snapshot_of_def verify_release_key_transparency_def ev key_chain.head_after_def demo_keys_def)
  moreover have keys: "verify_release_key_snapshot demo_keys"
  proof -
    have "length demo_key = 32" using demo_signatures_ok by (simp add: demo_key_def signatures_ok_def)
    moreover have none: "ke_previous_hash demo_key_event = None" and "ke_sequence demo_key_event = 1"
      "ke_public_key_b64 demo_key_event = b64encode demo_key" "ke_public_key_sha256 demo_key_event = sha256_bytes demo_key"
      "ke_hash demo_key_event = hash_record (key_event_body demo_key_event)"
      by (simp_all add: demo_key_event_def key_events_def empty_governance_def demo_signing_key_def)
    moreover have upd: "demo_key_event\<lparr>ke_previous_hash := None\<rparr> = demo_key_event"
    proof -
      have "demo_key_event\<lparr>ke_previous_hash := ke_previous_hash demo_key_event\<rparr> = demo_key_event" by simp
      then show ?thesis using none by simp
    qed
    ultimately show ?thesis by (simp add: verify_release_key_snapshot_def demo_keys_def b64decode_encode upd)
  qed
  moreover have "verify_checkpoint_chain_snapshot ?lib dt (demo_links dt m) demo_keys"
  proof -
    obtain n h where ok: "check_checkpoints ?lib dt (key_events ?st) ''E'' 0 None (election_checkpoints ''E'' ?st) = (n, h, None)"
      using inv by (metis governance_invariant_def prod.collapse)
    then show ?thesis using check_checkpoints_done [OF ok] keys unfolding ev cps
      by (simp add: verify_checkpoint_chain_snapshot_def demo_links_def demo_keys_def)
  qed
  moreover have "checkpoint_binds (ck_payload ?c) m (sha256_bytes (manifest_line m))" using f by (simp add: checkpoint_binds_def)
  ultimately show ?thesis using verifies(2) [of "''E''"] f(6)
    by (simp add: governance_inputs_def e cps Let_def demo_links_def)
qed

text \<open>The files of the directory.\<close>

lemma demo_directory:
  assumes "build_release demo_release_library [1, 2, 3] ''E'' [demo_snapshot_record] [] = Inr (m, dir0)"
    "build_atomic_release demo_release_library rp [1, 2, 3] ''E'' [demo_snapshot_record] [] = (dir, Inr s)"
  shows "dict_get dir ''manifest.json'' = Some (manifest_line m @ [newline_byte])"
    "dict_get dir ''manifest.signature.json'' = Some (canonical_json_bytes (signature_json
        (signed_release demo_release_library [1, 2, 3] (manifest_line m))) @ [newline_byte])"
    "dict_get dir semantic_summary_name = Some (canonical_json_bytes (summary_json s) @ [newline_byte])"
    "dict_get dir semantic_signature_name = Some (canonical_json_bytes (semantic_signature_json
        (signed_summary demo_release_library [1, 2, 3] (canonical_json_bytes (summary_json s)))) @ [newline_byte])"
    "\<forall>name \<in> set release_names. \<exists>content. dict_get dir name = Some content \<and> content \<noteq> []"
proof -
  from build_atomic_Inr [OF assms(2)] assms(1) have
    dir: "dir = dict_set semantic_signature_name (canonical_json_bytes (semantic_signature_json
        (signed_summary demo_release_library [1, 2, 3] (canonical_json_bytes (summary_json s)))) @ [newline_byte])
      (dict_set semantic_summary_name (canonical_json_bytes (summary_json s) @ [newline_byte]) dir0)"
    by (metis Pair_inject sum.inject(2))
  have get: "dict_get dir name = dict_get dir0 name" if "name \<in> set release_names" for name
    using that by (auto simp: dir dict_get_set release_names_def expected_release_files_def semantic_summary_name_def
        semantic_signature_name_def)
  have "\<forall>name \<in> set release_names. \<exists>content. dict_get dir0 name = Some content \<and> content \<noteq> []"
    using assms(1) by (auto elim!: build_release_Inr simp: release_names_def expected_release_files_def)
  then show "\<forall>name \<in> set release_names. \<exists>content. dict_get dir name = Some content \<and> content \<noteq> []" by (simp add: get)
  have names: "''manifest.json'' \<in> set release_names" "''manifest.signature.json'' \<in> set release_names"
    by (simp_all add: release_names_def)
  show "dict_get dir ''manifest.json'' = Some (manifest_line m @ [newline_byte])"
    "dict_get dir ''manifest.signature.json'' = Some (canonical_json_bytes (signature_json
        (signed_release demo_release_library [1, 2, 3] (manifest_line m))) @ [newline_byte])"
    using assms(1) get [OF names(1)] get [OF names(2)] by (auto elim!: build_release_Inr)
  show "dict_get dir semantic_summary_name = Some (canonical_json_bytes (summary_json s) @ [newline_byte])"
    "dict_get dir semantic_signature_name = Some (canonical_json_bytes (semantic_signature_json
        (signed_summary demo_release_library [1, 2, 3] (canonical_json_bytes (summary_json s)))) @ [newline_byte])"
    using release_names_plain(7) by (simp_all add: dir dict_get_set)
qed

lemma document_objects: "\<exists>kvs. semantic_signature_json x = JObj kvs" "\<exists>kvs. summary_json y = JObj kvs"
  by (simp_all add: semantic_signature_json_def summary_json_def)

lemma demo_summary_read:
  "parse_summary (demo_reader s) (canonical_json_bytes (summary_json s)) = Inr s"
  "parse_summary (demo_reader s) (canonical_json_bytes (summary_json s) @ [newline_byte]) = Inr s"
  "parse_semantic_signature (demo_reader s) (canonical_json_bytes (semantic_signature_json
      (signed_summary demo_release_library [1, 2, 3] (canonical_json_bytes (summary_json s)))) @ [newline_byte])
    = Inr (signed_summary demo_release_library [1, 2, 3] (canonical_json_bytes (summary_json s)))"
  using document_objects reads_line_object by (metis (no_types, lifting) demo_reader_def semantic_reader.select_convs)+

lemma demo_governed_inputs:
  assumes "build_release demo_release_library [1, 2, 3] ''E'' [demo_snapshot_record] [] = Inr (m, dir0)"
    "json_readable (\<lambda>s. s) (manifest_json m)" "manifest_fields_ok m"
    "build_atomic_release demo_release_library rp [1, 2, 3] ''E'' [demo_snapshot_record] [] = (dir, Inr s)"
  shows "governed_inputs demo_release_library (demo_reader s) rp dt dir (demo_checked dt m) None =
    Inr \<lparr>gi_manifest = m, gi_manifest_sha256 = sha256_bytes (manifest_line m), gi_semantic = s,
      gi_semantic_sha256 = sha256_bytes (canonical_json_bytes (summary_json s)), gi_checkpoint = demo_checkpoint_of dt m,
      gi_keys = demo_keys, gi_chain = demo_links dt m\<rparr>"
proof -
  let ?lib = demo_release_library
  have ok: "exportable ?lib demo_snapshot_record" "json_readable (float_text ?lib) (manifest_json m)"
    using demo_snapshot_exportable assms(2) by (simp_all add: demo_release_library_def)
  have none: "signer_trust_status fp None = Inr None" for fp by (simp add: signer_trust_status_def)
  note verified = atomic_release_verifies [OF assms(4,1) _ _ demo_library_ok ok(2) demo_manifest_line [OF assms(3,2)]
      demo_summary_read(1,3) none]
  have parsed: "parse_manifest ?lib (manifest_line m) = Inr m"
    "parse_signature ?lib (canonical_json_bytes (signature_json (signed_release ?lib [1, 2, 3] (manifest_line m))) @ [newline_byte])
      = Inr (signed_release ?lib [1, 2, 3] (manifest_line m))"
    using demo_library_ok ok(2) assms(3) signed_release_ok by (simp_all add: library_ok_def)
  note gov = demo_governance_inputs [OF assms(1) ok(2,1), of dt]
  show ?thesis
    using verified ok(1) demo_directory [OF assms(1,4)] parsed demo_summary_read(1) gov
    by (simp add: governed_inputs_def read_file_def utf8_ascii strip_manifest strip_summary Let_def signed_release_simps
        demo_key_def [symmetric] del: bind_result_eq_Inr)
qed

lemma hex_plain:
  assumes "is_sha256_hex s"
  shows "plain_part s" "plain_part (s @ ''.json'')"
proof -
  have c: "\<forall>c \<in> set s. c \<in> set ''0123456789abcdef''" and l: "length s = 64"
    using assms by (simp_all add: is_sha256_hex_def list_all_iff)
  have "\<forall>d \<in> set ''0123456789abcdef''. d \<noteq> CHR ''/'' \<and> d \<noteq> CHR 0x5C \<and> d \<noteq> CHR ''.''" by simp
  with c have free: "CHR ''/'' \<notin> set s" "CHR 0x5C \<notin> set s" "CHR ''.'' \<notin> set s" by blast+
  have "s \<noteq> []" using l by auto
  then show "plain_part s" using free by (auto simp: plain_part_def)
  have "length (s @ ''.json'') \<noteq> length ''.''" "length (s @ ''.json'') \<noteq> length ''..''" using l by simp_all
  then have "s @ ''.json'' \<noteq> ''.''" "s @ ''.json'' \<noteq> ''..''" by metis+
  then show "plain_part (s @ ''.json'')" using free by (simp add: plain_part_def)
qed

lemma publication_paths:
  "release_path_of sha name = join ''/'' [''releases'', sha, name]" "semantic_path_of sha name = join ''/'' [''semantic'', sha, name]"
  "checkpoint_path_of sha = join ''/'' [''governance'', ''checkpoints'', sha @ ''.json'']"
  "''governance/release-key-snapshots/'' @ sha @ ''.json'' = join ''/'' [''governance'', ''release-key-snapshots'', sha @ ''.json'']"
  "''governance/checkpoint-snapshots/'' @ sha @ ''.json'' = join ''/'' [''governance'', ''checkpoint-snapshots'', sha @ ''.json'']"
  "publication_path_of sha = join ''/'' [''publications'', sha @ ''.json'']"
  by (simp_all add: release_path_of_def semantic_path_of_def checkpoint_path_of_def publication_path_of_def)

lemma object_paths_laid_out:
  assumes "is_sha256_hex sha" "plain_part name"
  shows "\<exists>parts. release_path_of sha name = join ''/'' parts \<and> list_all plain_part parts \<and> layout parts"
    "\<exists>parts. semantic_path_of sha name = join ''/'' parts \<and> list_all plain_part parts \<and> layout parts"
    "\<exists>parts. checkpoint_path_of sha = join ''/'' parts \<and> list_all plain_part parts \<and> layout parts"
    "\<exists>parts. ''governance/release-key-snapshots/'' @ sha @ ''.json'' = join ''/'' parts \<and> list_all plain_part parts \<and> layout parts"
    "\<exists>parts. ''governance/checkpoint-snapshots/'' @ sha @ ''.json'' = join ''/'' parts \<and> list_all plain_part parts \<and> layout parts"
proof -
  note h = hex_plain [OF assms(1)]
  have dirs: "plain_part ''releases''" "plain_part ''semantic''" "plain_part ''governance''" "plain_part ''checkpoints''"
    "plain_part ''release-key-snapshots''" "plain_part ''checkpoint-snapshots''"
    by (simp_all add: plain_part_def)
  show "\<exists>parts. release_path_of sha name = join ''/'' parts \<and> list_all plain_part parts \<and> layout parts"
    unfolding publication_paths by (rule exI [of _ "[''releases'', sha, name]"]) (use h dirs assms(2) in \<open>simp add: layout_def\<close>)
  show "\<exists>parts. semantic_path_of sha name = join ''/'' parts \<and> list_all plain_part parts \<and> layout parts"
    unfolding publication_paths by (rule exI [of _ "[''semantic'', sha, name]"]) (use h dirs assms(2) in \<open>simp add: layout_def\<close>)
  show "\<exists>parts. checkpoint_path_of sha = join ''/'' parts \<and> list_all plain_part parts \<and> layout parts"
    unfolding publication_paths
    by (rule exI [of _ "[''governance'', ''checkpoints'', sha @ ''.json'']"]) (use h dirs in \<open>simp add: layout_def\<close>)
  show "\<exists>parts. ''governance/release-key-snapshots/'' @ sha @ ''.json'' = join ''/'' parts \<and> list_all plain_part parts \<and> layout parts"
    unfolding publication_paths
    by (rule exI [of _ "[''governance'', ''release-key-snapshots'', sha @ ''.json'']"]) (use h dirs in \<open>simp add: layout_def\<close>)
  show "\<exists>parts. ''governance/checkpoint-snapshots/'' @ sha @ ''.json'' = join ''/'' parts \<and> list_all plain_part parts \<and> layout parts"
    unfolding publication_paths
    by (rule exI [of _ "[''governance'', ''checkpoint-snapshots'', sha @ ''.json'']"]) (use h dirs in \<open>simp add: layout_def\<close>)
qed

lemma names_plain: "name \<in> set release_names \<Longrightarrow> plain_part name" "plain_part semantic_summary_name" "plain_part semantic_signature_name"
  by (auto simp: release_names_def expected_release_files_def plain_part_def semantic_summary_name_def semantic_signature_name_def)

text \<open>A publication whose files are there goes into an empty backend.\<close>

lemma canonical_not_Nil:
  "canonical_json_bytes (JObj kvs) \<noteq> []" "canonical_json_bytes (publication_json r) \<noteq> []"
  "canonical_json_bytes (key_snapshot_json dt ks) \<noteq> []" "canonical_json_bytes (chain_snapshot_json dt cs) \<noteq> []"
  "canonical_json_bytes (Publication.checkpoint_json dt c) \<noteq> []"
proof -
  show "canonical_json_bytes (JObj kvs) \<noteq> []" for kvs
    using enc_object_last [of "sort_key fst (map (\<lambda>(k, v). (k, sort_json v)) kvs)"]
    by (simp add: canonical_json_bytes_def canonical_json_text_def utf8_def)
  then show "canonical_json_bytes (publication_json r) \<noteq> []"
    "canonical_json_bytes (key_snapshot_json dt ks) \<noteq> []" "canonical_json_bytes (chain_snapshot_json dt cs) \<noteq> []"
    "canonical_json_bytes (Publication.checkpoint_json dt c) \<noteq> []"
    unfolding publication_json_def key_snapshot_json_def chain_snapshot_json_def Publication.checkpoint_json_def by blast+
qed

lemma fresh_publication:
  assumes i: "governed_inputs lib rd rp dt dir st trusted = Inr i"
    and files: "\<forall>name \<in> set release_names. \<exists>content. dict_get dir name = Some content \<and> content \<noteq> []"
    and side: "dict_get dir semantic_summary_name = Some summary" "dict_get dir semantic_signature_name = Some signature"
      "summary \<noteq> []" "signature \<noteq> []"
    and hexes: "is_sha256_hex (gi_manifest_sha256 i)" "is_sha256_hex (gi_semantic_sha256 i)" "is_sha256_hex (ck_hash (gi_checkpoint i))"
    and ok: "\<And>release_refs refs. publication_record_ok (publication_record_of i release_refs refs)"
  shows "\<exists>b g. publish_governed_release lib rd rp dt dir st trusted [] = (b, Inr g)"
proof -
  have inj: "inj_on (release_path_of s) A" for s A by (simp add: inj_on_def release_path_of_def)
  have r: "\<forall>p \<in> fst ` set (release_objects i dir). take 1 p = ''r''"
    by (auto simp: release_objects_def release_path_of_def)
  have "\<exists>b1 refs. put_objects (release_objects i dir) [] = (b1, Inr refs) \<and> laid_out b1
      \<and> dict_keys b1 = dict_keys ([] :: backend) \<union> fst ` set (release_objects i dir)"
  proof (rule put_objects_laid_out)
    show "laid_out []" by (simp add: laid_out_def dict_keys_Nil)
    show "distinct (map fst (release_objects i dir))"
      using release_names_plain(1) inj by (simp add: release_objects_def comp_def distinct_map)
    show "\<forall>(path, c) \<in> set (release_objects i dir).
        (\<exists>parts. path = join ''/'' parts \<and> list_all plain_part parts \<and> layout parts) \<and> (\<exists>content. c = Inr content \<and> content \<noteq> [])"
      using files object_paths_laid_out(1) [OF hexes(1)] names_plain(1) by (fastforce simp: release_objects_def read_file_def)
  qed simp
  then obtain b1 release_refs where p1: "put_objects (release_objects i dir) [] = (b1, Inr release_refs)" "laid_out b1"
    and k1: "dict_keys b1 = fst ` set (release_objects i dir)" by (auto simp: dict_keys_Nil)
  let ?gov = "governance_objects dt i summary signature"
  have g: "\<forall>p \<in> fst ` set ?gov. take 1 p \<in> {''s'', ''g''}"
    by (simp add: governance_objects_def Let_def semantic_path_of_def checkpoint_path_of_def)
  have "\<exists>b2 refs. put_objects ?gov b1 = (b2, Inr refs) \<and> laid_out b2 \<and> dict_keys b2 = dict_keys b1 \<union> fst ` set ?gov"
  proof (rule put_objects_laid_out [OF p1(2)])
    show "distinct (map fst ?gov)"
      using release_names_plain(7)
      by (simp add: governance_objects_def Let_def semantic_path_of_def checkpoint_path_of_def)
    show "\<forall>path \<in> fst ` set ?gov. dict_get b1 path = None" using g r k1 by (fastforce simp: dict_get_None)
    show "\<forall>(path, c) \<in> set ?gov.
        (\<exists>parts. path = join ''/'' parts \<and> list_all plain_part parts \<and> layout parts) \<and> (\<exists>content. c = Inr content \<and> content \<noteq> [])"
      using object_paths_laid_out(2) [OF hexes(2) names_plain(2)] object_paths_laid_out(2) [OF hexes(2) names_plain(3)]
        object_paths_laid_out(3) [OF hexes(3) names_plain(2)] side(3,4)
        object_paths_laid_out(4,5) [OF sha256_bytes_is_hex names_plain(2)]
      by (simp add: governance_objects_def Let_def canonical_not_Nil del: join.simps)
  qed
  then obtain b2 refs where p2: "put_objects ?gov b1 = (b2, Inr refs)" "laid_out b2"
    and k2: "dict_keys b2 = dict_keys b1 \<union> fst ` set ?gov" by blast
  let ?r = "publication_record_of i release_refs refs"
  let ?c = "canonical_json_bytes (publication_json ?r)"
  let ?parts = "[''publications'', sha256_bytes ?c @ ''.json'']"
  have "take 1 (publication_path_of (sha256_bytes ?c)) = ''p''" by (simp add: publication_path_of_def)
  then have "publication_path_of (sha256_bytes ?c) \<notin> dict_keys b2" using r g k1 k2 by force
  then have "dict_get b2 (join ''/'' ?parts) = None" unfolding publication_paths(6) [symmetric] by (simp add: dict_get_None)
  moreover have "list_all plain_part ?parts" using hex_plain [OF sha256_bytes_is_hex] by (simp add: plain_part_def [of "''publications''"])
  moreover have "layout ?parts" by (simp add: layout_def)
  ultimately have "put_bytes (join ''/'' ?parts) ?c b2 = Inr (dict_set (join ''/'' ?parts) ?c b2, object_ref_of (join ''/'' ?parts) ?c)"
    by (intro put_bytes_laid_out(1) [OF p2(2)]) (simp_all add: canonical_not_Nil)
  then have "\<exists>b g. put_record ?r b2 = (b, Inr g)"
    unfolding put_record_def Let_def publication_paths(6) using ok by (simp del: join.simps)
  then show ?thesis by (simp add: publish_governed_release_def i p1(1) p2(1) side(1,2) read_file_def)
qed

definition demo_publication_reader :: "(datetime \<Rightarrow> string) \<Rightarrow> governed_inputs \<Rightarrow> publication_record \<Rightarrow> publication_reader" where
  "demo_publication_reader dt i r = \<lparr>parse_publication = reads_line (canonical_json_bytes (publication_json r)) r,
     parse_key_snapshot = reads_line (canonical_json_bytes (key_snapshot_json dt (gi_keys i))) (gi_keys i),
     parse_chain_snapshot = reads_line (canonical_json_bytes (chain_snapshot_json dt (gi_chain i))) (gi_chain i),
     parse_checkpoint = reads_line (canonical_json_bytes (Publication.checkpoint_json dt (gi_checkpoint i))) (gi_checkpoint i)\<rparr>"

text \<open>The release with its one snapshot record, the checkpoint of alice's key, and their publication.\<close>

theorem published_release_verifies_witness:
  "\<exists>m dir s b g pr. build_atomic_release demo_release_library (\<lambda>_. []) [1, 2, 3] ''E'' [demo_snapshot_record] [] = (dir, Inr s)
     \<and> publish_governed_release demo_release_library (demo_reader s) (\<lambda>_. []) isoformat dir (demo_checked isoformat m) None []
         = (b, Inr g)
     \<and> verify_governed_publication demo_release_library (demo_reader s) pr (\<lambda>_. []) isoformat (gp_sha256 g) b None =
         Inr \<lparr>pv_publication_sha256 = Some (gp_sha256 g), pv_release_id = Some (rm_release_id m), pv_valid = True,
           pv_objects_valid = True, pv_release_valid = True, pv_key_snapshot_valid = True, pv_chain_valid = True,
           pv_error = None\<rparr>"
proof -
  let ?lib = demo_release_library
  obtain m dir0 dir s where a: "build_release ?lib [1, 2, 3] ''E'' [demo_snapshot_record] [] = Inr (m, dir0)"
    "json_readable (\<lambda>s. s) (manifest_json m)" "manifest_fields_ok m"
    "build_atomic_release ?lib (\<lambda>_. []) [1, 2, 3] ''E'' [demo_snapshot_record] [] = (dir, Inr s)"
    "is_sha256_hex (semantic_root s)"
    using demo_atomic by blast
  let ?i = "\<lparr>gi_manifest = m, gi_manifest_sha256 = sha256_bytes (manifest_line m), gi_semantic = s,
      gi_semantic_sha256 = sha256_bytes (canonical_json_bytes (summary_json s)), gi_checkpoint = demo_checkpoint_of isoformat m,
      gi_keys = demo_keys, gi_chain = demo_links isoformat m\<rparr>"
  note i = demo_governed_inputs [OF a(1-4), of isoformat] and files = demo_directory [OF a(1,4)]
    and c = demo_checkpoint_fields [of isoformat m]
  have root: "is_sha256_hex (rm_merkle_root m)"
    using built_manifest_fields(2) [OF a(1)] demo_snapshot_exportable by (simp add: utf8_ascii)
  have "is_sha256_hex (ke_hash demo_key_event)" by (simp add: demo_key_event_def)
  then have "publication_record_ok (publication_record_of ?i release_refs refs)" for release_refs refs
    using root a(5) c by (simp add: publication_record_ok_def publication_record_of_def sha256_bytes_is_hex demo_keys_def demo_links_def)
  then obtain b g where p: "publish_governed_release ?lib (demo_reader s) (\<lambda>_. []) isoformat dir (demo_checked isoformat m) None [] = (b, Inr g)"
    using fresh_publication [OF i files(5,3,4)] c(7) sha256_bytes_is_hex by auto
  let ?pr = "demo_publication_reader isoformat ?i (gp_record g)"
  have "parse_manifest ?lib (manifest_line m) = Inr m"
    using demo_library_ok a(2,3) by (simp add: library_ok_def demo_release_library_def)
  then have "reads_back ?lib (demo_reader s) ?pr isoformat dir ?i (gp_record g)"
    using files(1,3) demo_manifest_line [OF a(3,2)] demo_summary_read(1,2)
    by (simp add: reads_back_def demo_publication_reader_def strip_manifest strip_summary reads_line_object
        publication_json_def key_snapshot_json_def chain_snapshot_json_def Publication.checkpoint_json_def)
  then have "verify_governed_publication ?lib (demo_reader s) ?pr (\<lambda>_. []) isoformat (gp_sha256 g) b None =
      Inr \<lparr>pv_publication_sha256 = Some (gp_sha256 g), pv_release_id = Some (rm_release_id m), pv_valid = True,
        pv_objects_valid = True, pv_release_valid = True, pv_key_snapshot_valid = True, pv_chain_valid = True, pv_error = None\<rparr>"
    using published_release_verifies [OF p i _ extends_refl] by simp
  then show ?thesis using a(4) p by blast
qed

end
