(* ===== verification/Raw_Objects.thy ===== *)
theory Raw_Objects
  imports Publication_Demo Source_Transport
begin

text \<open>
  src/ballotproof/raw_object_storage.py and src/ballotproof/legacy_object_migration.py: raw objects, content-addressed
  over an immutable publication backend, and the migration of the old object directories into them. The backend is the
  locale \<open>immutable_backend\<close>; the filesystem backend of \<open>Publication\<close> interprets it here, the replicated one in
  \<open>Object_Storage\<close>. A backend operation that raises may have changed the backend, so it returns a state and a result.
\<close>

section \<open>Immutable backends\<close>

locale immutable_backend =
  fixes put_object :: "string \<Rightarrow> byte list \<Rightarrow> 's \<Rightarrow> 's \<times> object_ref result"
    and read_object :: "string \<Rightarrow> 's \<Rightarrow> byte list result"
  assumes put_returns: "put_object path content s = (s', Inr r) \<Longrightarrow>
      r = object_ref_of path content \<and> read_object path s' = Inr content"
    and put_keeps: "read_object p s = Inr d \<Longrightarrow> put_object path content s = (s', res) \<Longrightarrow> read_object p s' = Inr d"

definition fs_put :: "string \<Rightarrow> byte list \<Rightarrow> backend \<Rightarrow> backend \<times> object_ref result" where
  "fs_put path content b = (case put_bytes path content b of Inl e \<Rightarrow> (b, raise e) | Inr (b', r) \<Rightarrow> (b', return r))"

section \<open>Raw objects\<close>

datatype raw_kind = Evidence_Object | Source_Object

definition raw_kind_text :: "raw_kind \<Rightarrow> string" where
  "raw_kind_text k = (case k of Evidence_Object \<Rightarrow> ''evidence'' | Source_Object \<Rightarrow> ''source'')"

record raw_ref =
  ro_sha256 :: string
  ro_size_bytes :: int
  ro_path :: string

definition content_path :: "raw_kind \<Rightarrow> string \<Rightarrow> string" where
  "content_path kind sha = ''raw/'' @ raw_kind_text kind @ ''/'' @ take 2 sha @ ''/'' @ take 2 (drop 2 sha) @ ''/'' @ sha"

text \<open>The blocks of the stream, read until the first empty one.\<close>

fun gather_blocks :: "int option \<Rightarrow> byte list list \<Rightarrow> byte list \<Rightarrow> byte list result" where
  "gather_blocks max_bytes [] content = return content"
| "gather_blocks max_bytes (chunk # rest) content =
     (if chunk = [] then return content
      else if (case max_bytes of None \<Rightarrow> False | Some m \<Rightarrow> m < int (length (content @ chunk)))
      then raise (ValueError ''Raw object exceeds the byte limit'')
      else gather_blocks max_bytes rest (content @ chunk))"

text \<open>The digest of the joined blocks is that of the blocks one after the other, so the RuntimeError cannot be raised.\<close>

definition read_bounded :: "int option \<Rightarrow> byte list list \<Rightarrow> byte list result" where
  "read_bounded max_bytes stream = bind_result (gather_blocks max_bytes stream []) (\<lambda>content.
     if content = [] then raise (ValueError ''Raw object is empty'') else return content)"

definition raw_put_stream :: "(string \<Rightarrow> byte list \<Rightarrow> 's \<Rightarrow> 's \<times> object_ref result) \<Rightarrow> (string \<Rightarrow> 's \<Rightarrow> byte list result)
    \<Rightarrow> raw_kind \<Rightarrow> byte list list \<Rightarrow> int option \<Rightarrow> 's \<Rightarrow> 's \<times> raw_ref result" where
  "raw_put_stream put read kind stream max_bytes s =
     (case read_bounded max_bytes stream of
        Inl e \<Rightarrow> (s, raise e)
      | Inr content \<Rightarrow>
          let digest = sha256_bytes content; path = content_path kind digest in
          case put path content s of
            (s', Inl e) \<Rightarrow> (s', raise e)
          | (s', Inr stored) \<Rightarrow> (s',
              if or_sha256 stored \<noteq> digest \<or> or_size_bytes stored \<noteq> int (length content)
              then raise (ValueError ''Raw-object backend returned an inconsistent immutable reference'')
              else bind_result (read path s') (\<lambda>verified.
                if verified \<noteq> content
                then raise (ValueError ''Raw-object backend read-after-write verification failed'')
                else return \<lparr>ro_sha256 = digest, ro_size_bytes = int (length content), ro_path = path\<rparr>)))"

definition raw_read :: "(string \<Rightarrow> 's \<Rightarrow> byte list result) \<Rightarrow> raw_ref \<Rightarrow> 's \<Rightarrow> byte list result" where
  "raw_read read ref s = bind_result (read (ro_path ref) s) (\<lambda>content.
     if int (length content) \<noteq> ro_size_bytes ref \<or> sha256_bytes content \<noteq> ro_sha256 ref
     then raise (ValueError ''Raw-object content does not match its pinned digest and size'')
     else return content)"

section \<open>Migration of legacy objects\<close>

record legacy_file =
  lf_path :: string
  lf_name :: string
  lf_content :: "byte list"

datatype migration_status = Planned | Migrated | Corrupt | Skipped

record legacy_result =
  lr_kind :: raw_kind
  lr_legacy_path :: string
  lr_sha256 :: string
  lr_size_bytes :: int
  lr_status :: migration_status
  lr_target_path :: "string option"
  lr_error :: "string option"

record migration_report =
  mr_dry_run :: bool
  mr_results :: "legacy_result list"

definition target_ref :: "raw_kind \<Rightarrow> string \<Rightarrow> int \<Rightarrow> raw_ref" where
  "target_ref kind digest n = \<lparr>ro_sha256 = digest, ro_size_bytes = n, ro_path = content_path kind digest\<rparr>"

definition legacy_result_of :: "raw_kind \<Rightarrow> legacy_file \<Rightarrow> migration_status \<Rightarrow> string option \<Rightarrow> string option \<Rightarrow> legacy_result" where
  "legacy_result_of kind f status target err =
     \<lparr>lr_kind = kind, lr_legacy_path = lf_path f, lr_sha256 = sha256_bytes (lf_content f),
      lr_size_bytes = int (length (lf_content f)), lr_status = status, lr_target_path = target, lr_error = err\<rparr>"

text \<open>One legacy file. Only ASCII letters can become hexadecimal digits by \<open>lower()\<close>. An exception of the store ends the
  migration.\<close>

definition migrate_file :: "(string \<Rightarrow> byte list \<Rightarrow> 's \<Rightarrow> 's \<times> object_ref result) \<Rightarrow> (string \<Rightarrow> 's \<Rightarrow> byte list result)
    \<Rightarrow> bool \<Rightarrow> raw_kind \<Rightarrow> legacy_file \<Rightarrow> 's \<Rightarrow> 's \<times> legacy_result result" where
  "migrate_file put read dry_run kind f s =
     (let content = lf_content f; digest = sha256_bytes content; n = int (length content);
          ref = target_ref kind digest n in
      if n = 0 then (s, return (legacy_result_of kind f Corrupt None (Some ''legacy raw object is empty'')))
      else if ascii_lower (lf_name f) \<noteq> digest
      then (s, return (legacy_result_of kind f Corrupt None (Some ''legacy filename does not match computed SHA-256'')))
      else if dry_run then (s, return (legacy_result_of kind f Planned (Some (ro_path ref)) None))
      else case raw_put_stream put read kind (bytes_reader read_size content) (Some n) s of
          (s', Inl e) \<Rightarrow> (s', raise e)
        | (s', Inr stored) \<Rightarrow> (s',
            if ro_sha256 stored \<noteq> digest \<or> ro_size_bytes stored \<noteq> n
            then return (legacy_result_of kind f Corrupt (Some (ro_path stored))
              (Some ''target reference does not match legacy digest and size''))
            else bind_result (raw_read read stored s') (\<lambda>target.
              if int (length target) \<noteq> n \<or> sha256_bytes target \<noteq> digest
              then return (legacy_result_of kind f Corrupt (Some (ro_path stored))
                (Some ''target bytes are not equivalent to legacy object''))
              else return (legacy_result_of kind f Migrated (Some (ro_path stored)) None))))"

fun migrate_files :: "(string \<Rightarrow> byte list \<Rightarrow> 's \<Rightarrow> 's \<times> object_ref result) \<Rightarrow> (string \<Rightarrow> 's \<Rightarrow> byte list result)
    \<Rightarrow> bool \<Rightarrow> (raw_kind \<times> legacy_file) list \<Rightarrow> 's \<Rightarrow> 's \<times> legacy_result list result" where
  "migrate_files put read dry_run [] s = (s, return [])"
| "migrate_files put read dry_run ((kind, f) # fs) s = (case migrate_file put read dry_run kind f s of
       (s', Inl e) \<Rightarrow> (s', raise e)
     | (s', Inr r) \<Rightarrow> (case migrate_files put read dry_run fs s' of
         (s'', Inl e) \<Rightarrow> (s'', raise e) | (s'', Inr rs) \<Rightarrow> (s'', return (r # rs))))"

text \<open>\<open>files\<close> gives the files below the old directory of a kind, in the order of their paths.\<close>

definition migrate_legacy_objects :: "(string \<Rightarrow> byte list \<Rightarrow> 's \<Rightarrow> 's \<times> object_ref result)
    \<Rightarrow> (string \<Rightarrow> 's \<Rightarrow> byte list result) \<Rightarrow> bool \<Rightarrow> raw_kind list \<Rightarrow> (raw_kind \<Rightarrow> legacy_file list) \<Rightarrow> 's
    \<Rightarrow> 's \<times> migration_report result" where
  "migrate_legacy_objects put read dry_run kinds files s =
     (case migrate_files put read dry_run (concat (map (\<lambda>k. map (Pair k) (files k)) kinds)) s of
        (s', Inl e) \<Rightarrow> (s', raise e)
      | (s', Inr rs) \<Rightarrow> (s', return \<lparr>mr_dry_run = dry_run, mr_results = rs\<rparr>))"

definition migration_count :: "migration_status \<Rightarrow> migration_report \<Rightarrow> nat" where
  "migration_count status r = length (filter (\<lambda>x. lr_status x = status) (mr_results r))"

definition migration_ok :: "migration_report \<Rightarrow> bool" where
  "migration_ok r = list_all (\<lambda>x. lr_status x \<in> {Planned, Migrated, Skipped}) (mr_results r)"

section \<open>What every immutable backend gives\<close>

lemma gather_bytes_reader:
  "0 < n \<Longrightarrow> int (length (acc @ body)) \<le> m \<Longrightarrow> gather_blocks (Some m) (bytes_reader n body) acc = Inr (acc @ body)"
proof (induction n body arbitrary: acc rule: bytes_reader.induct)
  case (1 n body)
  show ?case
  proof (cases "body = []")
    case False
    have "int (length (acc @ take n body)) \<le> m" using "1.prems"(2) by simp
    moreover have "gather_blocks (Some m) (bytes_reader n (drop n body)) (acc @ take n body) = Inr ((acc @ take n body) @ drop n body)"
      using "1.IH" "1.prems" False by simp
    ultimately show ?thesis using False "1.prems"(1) by (subst bytes_reader.simps) simp
  qed (simp add: bytes_reader.simps)
qed

lemma bounded_reader:
  "content \<noteq> [] \<Longrightarrow> read_bounded (Some (int (length content))) (bytes_reader read_size content) = Inr content"
  using gather_bytes_reader [of read_size "[]" content] by (simp add: read_bounded_def read_size_def)

text \<open>A legacy file that is not eligible.\<close>

definition bad_legacy :: "legacy_file \<Rightarrow> bool" where
  "bad_legacy f \<longleftrightarrow> lf_content f = [] \<or> ascii_lower (lf_name f) \<noteq> sha256_bytes (lf_content f)"

definition legacy_target :: "raw_kind \<Rightarrow> legacy_file \<Rightarrow> raw_ref" where
  "legacy_target kind f = target_ref kind (sha256_bytes (lf_content f)) (int (length (lf_content f)))"

definition migrated_right :: "(string \<Rightarrow> 's \<Rightarrow> byte list result) \<Rightarrow> bool \<Rightarrow> 's \<Rightarrow> raw_kind \<times> legacy_file \<Rightarrow> legacy_result \<Rightarrow> bool" where
  "migrated_right read dry_run s x r \<longleftrightarrow> lr_kind r = fst x \<and> lr_legacy_path r = lf_path (snd x)
     \<and> lr_status r = (if bad_legacy (snd x) then Corrupt else if dry_run then Planned else Migrated)
     \<and> (bad_legacy (snd x) \<or> dry_run \<or> raw_read read (legacy_target (fst x) (snd x)) s = Inr (lf_content (snd x)))"

context immutable_backend
begin

lemma raw_put_Inr:
  assumes "raw_put_stream put_object read_object kind stream m s = (s', Inr ref)"
  obtains content where "read_bounded m stream = Inr content"
    "ref = target_ref kind (sha256_bytes content) (int (length content))" "raw_read read_object ref s' = Inr content"
proof -
  obtain content where c: "read_bounded m stream = Inr content"
    using assms by (auto simp: raw_put_stream_def split: sum.splits)
  obtain r where p: "put_object (content_path kind (sha256_bytes content)) content s = (s', Inr r)"
    using assms by (auto simp: raw_put_stream_def c Let_def split: prod.splits sum.splits)
  note r = put_returns [OF p]
  have "ref = target_ref kind (sha256_bytes content) (int (length content))"
    using assms r by (auto simp: raw_put_stream_def c Let_def p object_ref_of_def target_ref_def)
  with c r that show thesis by (simp add: raw_read_def target_ref_def)
qed

lemma raw_put_Inl:
  assumes "raw_put_stream put_object read_object kind stream m s = (s', Inl e)"
  shows "read_bounded m stream = Inl e \<and> s' = s
    \<or> (\<exists>content. read_bounded m stream = Inr content \<and> put_object (content_path kind (sha256_bytes content)) content s = (s', Inl e))"
proof (cases "read_bounded m stream")
  case (Inr content)
  obtain s1 r where p: "put_object (content_path kind (sha256_bytes content)) content s = (s1, r)" by fastforce
  then show ?thesis
  proof (cases r)
    case (Inr r1)
    from put_returns [OF p [unfolded Inr]] show ?thesis
      using assms \<open>read_bounded m stream = Inr content\<close> p Inr
      by (auto simp: raw_put_stream_def Let_def object_ref_of_def)
  qed (use assms Inr p in \<open>auto simp: raw_put_stream_def Let_def\<close>)
qed (use assms in \<open>auto simp: raw_put_stream_def\<close>)

lemma raw_put_keeps:
  assumes "read_object p s = Inr d" "raw_put_stream put_object read_object kind stream m s = (s', res)"
  shows "read_object p s' = Inr d"
proof (cases "read_bounded m stream")
  case (Inr content)
  obtain r where "put_object (content_path kind (sha256_bytes content)) content s = (s', r)"
    using assms(2) Inr by (auto simp: raw_put_stream_def Let_def split: prod.splits sum.splits)
  with put_keeps assms(1) show ?thesis by blast
qed (use assms in \<open>auto simp: raw_put_stream_def\<close>)

lemma raw_read_keeps:
  assumes "raw_read read_object ref s = Inr d" "\<And>p c. read_object p s = Inr c \<Longrightarrow> read_object p s' = Inr c"
  shows "raw_read read_object ref s' = Inr d"
  using assms by (auto simp: raw_read_def split: if_splits)

lemma migrate_file_right:
  assumes "migrate_file put_object read_object dry_run kind f s = (s', Inr r)"
  shows "migrated_right read_object dry_run s' (kind, f) r" "dry_run \<or> bad_legacy f \<Longrightarrow> s' = s"
    "read_object p s = Inr d \<Longrightarrow> read_object p s' = Inr d"
proof -
  let ?stream = "bytes_reader read_size (lf_content f)"
  let ?put = "raw_put_stream put_object read_object kind ?stream (Some (int (length (lf_content f)))) s"
  show "migrated_right read_object dry_run s' (kind, f) r" "dry_run \<or> bad_legacy f \<Longrightarrow> s' = s"
    "read_object p s = Inr d \<Longrightarrow> read_object p s' = Inr d"
  proof (atomize (full), cases "dry_run \<or> bad_legacy f")
    case True
    then show "migrated_right read_object dry_run s' (kind, f) r \<and> (dry_run \<or> bad_legacy f \<longrightarrow> s' = s)
        \<and> (read_object p s = Inr d \<longrightarrow> read_object p s' = Inr d)"
      using assms by (auto simp: migrate_file_def Let_def bad_legacy_def migrated_right_def legacy_result_of_def split: if_splits)
  next
    case False
    obtain stored where st: "?put = (s', Inr stored)"
      using assms False by (auto simp: migrate_file_def Let_def bad_legacy_def split: prod.splits sum.splits)
    obtain content where c: "read_bounded (Some (int (length (lf_content f)))) ?stream = Inr content"
      "stored = target_ref kind (sha256_bytes content) (int (length content))" "raw_read read_object stored s' = Inr content"
      by (rule raw_put_Inr [OF st])
    have "content = lf_content f" using c(1) bounded_reader False by (simp add: bad_legacy_def)
    then show "migrated_right read_object dry_run s' (kind, f) r \<and> (dry_run \<or> bad_legacy f \<longrightarrow> s' = s)
        \<and> (read_object p s = Inr d \<longrightarrow> read_object p s' = Inr d)"
      using assms False st c(2,3) raw_put_keeps [OF _ st]
      by (auto simp: migrate_file_def Let_def bad_legacy_def migrated_right_def legacy_result_of_def legacy_target_def
          target_ref_def)
  qed
qed

lemma migrate_files_right:
  assumes "migrate_files put_object read_object dry_run fs s = (s', Inr rs)"
  shows "list_all2 (migrated_right read_object dry_run s') fs rs" "dry_run \<Longrightarrow> s' = s"
    "read_object p s = Inr d \<Longrightarrow> read_object p s' = Inr d"
proof -
  have "list_all2 (migrated_right read_object dry_run s') fs rs \<and> (dry_run \<longrightarrow> s' = s)
    \<and> (\<forall>p d. read_object p s = Inr d \<longrightarrow> read_object p s' = Inr d)"
    using assms
  proof (induction fs arbitrary: s rs)
    case (Cons x fs)
    obtain kind f where x: "x = (kind, f)" by fastforce
    obtain s1 r where f: "migrate_file put_object read_object dry_run kind f s = (s1, Inr r)"
      using Cons.prems by (auto simp: x split: prod.splits sum.splits)
    obtain rs1 where fs: "migrate_files put_object read_object dry_run fs s1 = (s', Inr rs1)" and rs: "rs = r # rs1"
      using Cons.prems f by (auto simp: x split: prod.splits sum.splits)
    note head = migrate_file_right [OF f] and rest = Cons.IH [OF fs]
    have "migrated_right read_object dry_run s' x r"
      using head(1) raw_read_keeps [of _ s1 _ s'] rest by (auto simp: migrated_right_def x)
    then show ?case using rest head(2,3) by (auto simp: rs)
  qed simp
  then show "list_all2 (migrated_right read_object dry_run s') fs rs" "dry_run \<Longrightarrow> s' = s"
    "read_object p s = Inr d \<Longrightarrow> read_object p s' = Inr d" by blast+
qed

end

section \<open>The filesystem backend\<close>

interpretation filesystem: immutable_backend fs_put read_bytes
proof unfold_locales
  fix path p :: string and content d :: "byte list" and s s' :: backend and r res
  show "r = object_ref_of path content \<and> read_bytes path s' = Inr content" if "fs_put path content s = (s', Inr r)"
    using that put_bytes_Inr [of path content s] read_bytes_stored by (auto simp: fs_put_def split: sum.splits)
  show "read_bytes p s' = Inr d" if "read_bytes p s = Inr d" "fs_put path content s = (s', res)"
    using that put_bytes_Inr(1) [of path content s]
    by (fastforce simp: fs_put_def read_bytes_def extends_def split: sum.splits option.splits)
qed

text \<open>A raw object that was stored on the filesystem backend is read back byte for byte under the reference returned, now
  and on every later state of the backend; the reference names the SHA-256, the size and the content-addressed path of
  exactly the bytes of the stream, which are within the limit.\<close>

theorem raw_object_roundtrip:
  assumes "raw_put_stream fs_put read_bytes kind stream max_bytes b = (b', Inr ref)" "extends b' later"
  shows "\<exists>content. read_bounded max_bytes stream = Inr content \<and> raw_read read_bytes ref later = Inr content
    \<and> ref = \<lparr>ro_sha256 = sha256_bytes content, ro_size_bytes = int (length content),
        ro_path = content_path kind (sha256_bytes content)\<rparr>"
proof -
  obtain content where c: "read_bounded max_bytes stream = Inr content"
    "ref = target_ref kind (sha256_bytes content) (int (length content))" "raw_read read_bytes ref b' = Inr content"
    by (rule filesystem.raw_put_Inr [OF assms(1)])
  have "read_bytes p later = Inr d" if "read_bytes p b' = Inr d" for p d
    using that assms(2) by (auto simp: read_bytes_def extends_def split: option.splits)
  then have "raw_read read_bytes ref later = Inr content" using c(3) by (rule filesystem.raw_read_keeps [rotated])
  with c show ?thesis by (simp add: target_ref_def)
qed

text \<open>A migration that returns reports on every legacy file in order: as corrupt exactly when the file is empty or its
  name is not its SHA-256, and otherwise as planned in a dry run, which changes nothing, or as migrated, and then the
  store holds exactly the bytes of the file under its content-addressed reference. Nothing that could be read before
  is lost.\<close>

theorem legacy_migration_faithful:
  assumes "migrate_legacy_objects fs_put read_bytes dry_run kinds files b = (b', Inr report)"
  shows "list_all2 (migrated_right read_bytes dry_run b') (concat (map (\<lambda>k. map (Pair k) (files k)) kinds)) (mr_results report)
    \<and> (dry_run \<longrightarrow> b' = b) \<and> (migration_ok report \<longleftrightarrow> \<not> list_ex (\<lambda>k. list_ex bad_legacy (files k)) kinds)
    \<and> (\<forall>p d. read_bytes p b = Inr d \<longrightarrow> read_bytes p b' = Inr d)"
proof -
  let ?fs = "concat (map (\<lambda>k. map (Pair k) (files k)) kinds)"
  obtain rs where m: "migrate_files fs_put read_bytes dry_run ?fs b = (b', Inr rs)" and rep: "mr_results report = rs"
    using assms by (auto simp: migrate_legacy_objects_def split: prod.splits sum.splits)
  note right = filesystem.migrate_files_right [OF m]
  have "list_all (\<lambda>x. lr_status x \<in> {Planned, Migrated, Skipped}) rs \<longleftrightarrow> \<not> list_ex (\<lambda>x. bad_legacy (snd x)) ?fs"
    using right(1) by (induction rule: list_all2_induct) (auto simp: migrated_right_def)
  moreover have "list_ex (\<lambda>x. bad_legacy (snd x)) ?fs = list_ex (\<lambda>k. list_ex bad_legacy (files k)) kinds"
    by (auto simp: list_ex_iff)
  ultimately show ?thesis using right by (auto simp: rep migration_ok_def)
qed

section \<open>A stored and a migrated object\<close>

lemma raw_path_plain:
  assumes "is_sha256_hex d"
  shows "list_all plain_part [''raw'', raw_kind_text k, take 2 d, take 2 (drop 2 d), d]"
proof -
  have c: "\<forall>c \<in> set d. c \<in> set ''0123456789abcdef''"
    using assms by (simp_all add: is_sha256_hex_def list_all_iff)
  have "\<forall>d \<in> set ''0123456789abcdef''. d \<noteq> CHR ''/'' \<and> d \<noteq> CHR 0x5C \<and> d \<noteq> CHR ''.''" by simp
  with c have free: "CHR ''/'' \<notin> set d" "CHR 0x5C \<notin> set d" "CHR ''.'' \<notin> set d" by blast+
  have "plain_part p" if "p \<noteq> []" "set p \<subseteq> set d" for p using that free by (auto simp: plain_part_def)
  moreover have "set (take 2 d) \<subseteq> set d" "set (take 2 (drop 2 d)) \<subseteq> set d" "take 2 d \<noteq> []" "take 2 (drop 2 d) \<noteq> []" "d \<noteq> []"
    using assms by (auto simp: is_sha256_hex_def dest: in_set_takeD in_set_dropD)
  moreover have "plain_part ''raw''" "plain_part (raw_kind_text k)"
    by (cases k; simp add: plain_part_def raw_kind_text_def)+
  ultimately show ?thesis by simp
qed

lemma first_put: "content \<noteq> [] \<Longrightarrow> fs_put (content_path k (sha256_bytes content)) content []
    = ([(content_path k (sha256_bytes content), content)], Inr (object_ref_of (content_path k (sha256_bytes content)) content))"
  using relative_path_join [OF raw_path_plain [OF sha256_bytes_is_hex [of content], of k]]
  by (simp add: fs_put_def put_bytes_def content_path_def blocked_parent_def is_directory_def list_ex_iff)

lemma raw_object_roundtrip_witness:
  "\<exists>b ref. raw_put_stream fs_put read_bytes Source_Object [[65], [66]] (Some 2) [] = (b, Inr ref)
     \<and> raw_read read_bytes ref b = Inr [65, 66]"
proof -
  have "\<exists>b ref. raw_put_stream fs_put read_bytes Source_Object [[65], [66]] (Some 2) [] = (b, Inr ref)"
    using filesystem.put_returns [OF first_put [of "[65, 66]" Source_Object]]
    by (simp add: raw_put_stream_def read_bounded_def Let_def first_put object_ref_of_def)
  then obtain b ref where put: "raw_put_stream fs_put read_bytes Source_Object [[65], [66]] (Some 2) [] = (b, Inr ref)" by blast
  with raw_object_roundtrip [OF put, of b] show ?thesis by (auto simp: read_bounded_def extends_def)
qed

definition demo_legacy :: "raw_kind \<Rightarrow> legacy_file list" where
  "demo_legacy k = [\<lparr>lf_path = ''source_objects/x'', lf_name = ''x'', lf_content = [65]\<rparr>,
     \<lparr>lf_path = ''source_objects/y'', lf_name = sha256_bytes [65], lf_content = [65]\<rparr>]"

lemma hex_digits_lower: "\<forall>c \<in> set ''0123456789abcdef''.
    (if 65 \<le> (of_char c :: nat) \<and> (of_char c :: nat) \<le> 90 then char_of (of_char c + 32 :: nat) else c) = c"
  by simp

lemma digest_name_lower: "is_sha256_hex d \<Longrightarrow> ascii_lower d = d"
  unfolding ascii_lower_def is_sha256_hex_def list_all_iff
  by (rule map_idI) (use hex_digits_lower in blast)

lemma demo_bad_legacy: "map bad_legacy (demo_legacy k) = [True, False]"
proof -
  have "ascii_lower ''x'' \<noteq> sha256_bytes [65]"
    using sha256_bytes_is_hex [of "[65]"] by (auto simp: is_sha256_hex_def ascii_lower_def dest: arg_cong [of _ _ length])
  then show ?thesis by (simp add: demo_legacy_def bad_legacy_def digest_name_lower sha256_bytes_is_hex)
qed

lemma legacy_migration_faithful_witness:
  "\<exists>b report. migrate_legacy_objects fs_put read_bytes False [Source_Object] demo_legacy [] = (b, Inr report)
     \<and> map lr_status (mr_results report) = [Corrupt, Migrated] \<and> \<not> migration_ok report"
proof -
  let ?b = "[(content_path Source_Object (sha256_bytes [65]), [65])]"
  have reader: "read_bounded (Some 1) (bytes_reader read_size [65]) = Inr [65]" using bounded_reader [of "[65]"] by simp
  have "raw_put_stream fs_put read_bytes Source_Object (bytes_reader read_size [65]) (Some 1) []
      = (?b, Inr (target_ref Source_Object (sha256_bytes [65]) 1))"
    using filesystem.put_returns [OF first_put [of "[65]" Source_Object]]
    by (simp add: raw_put_stream_def reader Let_def first_put object_ref_of_def target_ref_def)
  moreover have "raw_read read_bytes (target_ref Source_Object (sha256_bytes [65]) 1) ?b = Inr [65]"
    using filesystem.put_returns [OF first_put [of "[65]" Source_Object]] by (simp add: raw_read_def target_ref_def)
  ultimately have "\<exists>b report. migrate_legacy_objects fs_put read_bytes False [Source_Object] demo_legacy [] = (b, Inr report)"
    using demo_bad_legacy by (simp add: migrate_legacy_objects_def demo_legacy_def migrate_file_def Let_def bad_legacy_def
        target_ref_def)
  then obtain b report where m: "migrate_legacy_objects fs_put read_bytes False [Source_Object] demo_legacy [] = (b, Inr report)"
    by blast
  from legacy_migration_faithful [OF m] m demo_bad_legacy [of Source_Object] show ?thesis
    by (auto simp: demo_legacy_def list_all2_Cons1 migrated_right_def)
qed

end
