(* ===== verification/Object_Storage.thy ===== *)
theory Object_Storage
  imports Raw_Objects Postgres_Time
begin

text \<open>
  src/ballotproof/object_storage.py: the S3 backend with COMPLIANCE object lock and the replicated backend. The S3
  client is a parameter; what the code relies on of S3 is the hypothesis \<open>s3_faithful\<close>. A replicated backend with all
  replicas required is an \<open>immutable_backend\<close> when its replicas are.
\<close>

section \<open>The S3 client\<close>

text \<open>What the code reads of an exception (the error code of the response, its HTTP status) and of the answers. A
  missing content length is \<open>-1\<close>.\<close>

record s3_error =
  xe_code :: "string option"
  xe_status :: "int option"

record s3_head =
  hd_version :: "string option"
  hd_length :: int
  hd_mode :: "string option"
  hd_retain :: "datetime option"
  hd_digest :: "string option"

record 's s3_client =
  sc_versioning :: "'s \<Rightarrow> s3_error + string option"
  sc_object_lock :: "'s \<Rightarrow> s3_error + string option"
  sc_head :: "string \<Rightarrow> string option \<Rightarrow> 's \<Rightarrow> s3_error + s3_head"
  sc_get :: "string \<Rightarrow> 's \<Rightarrow> s3_error + byte list"
  sc_put :: "string \<Rightarrow> byte list \<Rightarrow> string \<Rightarrow> datetime \<Rightarrow> 's \<Rightarrow> 's \<times> (s3_error + string option)"
  sc_retention :: "string \<Rightarrow> string \<Rightarrow> datetime \<Rightarrow> 's \<Rightarrow> 's \<times> (s3_error + unit)"

definition error_code :: "s3_error \<Rightarrow> string option" where
  "error_code x = (case xe_code x of Some c \<Rightarrow> Some c
     | None \<Rightarrow> if xe_status x = Some 412 then Some ''PreconditionFailed'' else None)"

definition client_error :: "s3_error \<Rightarrow> py_error" where
  "client_error x = ClientError (case xe_code x of Some c \<Rightarrow> c | None \<Rightarrow> [])"

definition lift_client :: "s3_error + 'a \<Rightarrow> 'a result" where
  "lift_client r = (case r of Inl x \<Rightarrow> raise (client_error x) | Inr v \<Rightarrow> return v)"

section \<open>The backend\<close>

text \<open>\<open>bk_local\<close> is the instant of a naive datetime in the time zone of the system.\<close>

record s3_backend =
  bk_bucket :: string
  bk_prefix :: string
  bk_days :: int
  bk_local :: "int \<Rightarrow> int"

definition s3_path :: "string \<Rightarrow> string result" where
  "s3_path v = (case relative_path v of
       Inl _ \<Rightarrow> raise (ValueError ''object-storage paths must be normalized relative POSIX paths'') | Inr _ \<Rightarrow> return v)"

definition strip_slashes :: "string \<Rightarrow> string" where
  "strip_slashes s = rev (dropWhile (\<lambda>c. c = CHR ''/'') (rev (dropWhile (\<lambda>c. c = CHR ''/'') s)))"

definition validate_bucket :: "'s s3_client \<Rightarrow> 's \<Rightarrow> unit result" where
  "validate_bucket c s = bind_result (lift_client (sc_versioning c s)) (\<lambda>status.
     if status \<noteq> Some ''Enabled'' then raise (ValueError ''S3 publication bucket must have Versioning enabled'')
     else bind_result (lift_client (sc_object_lock c s)) (\<lambda>enabled.
       if enabled \<noteq> Some ''Enabled'' then raise (ValueError ''S3 publication bucket must have Object Lock enabled'')
       else return ()))"

definition open_backend :: "'s s3_client \<Rightarrow> (int \<Rightarrow> int) \<Rightarrow> string \<Rightarrow> string \<Rightarrow> int \<Rightarrow> 's \<Rightarrow> s3_backend result" where
  "open_backend c zone bucket prefix days s = bind_result (guarded
       [(is_blank bucket, ValueError ''S3 bucket is required''),
        (days < 1, ValueError ''S3 Object Lock retention_days must be at least 1'')] ())
     (\<lambda>_. let p = strip_slashes prefix in
       bind_result (if p = [] then return p else s3_path p) (\<lambda>_.
       bind_result (validate_bucket c s) (\<lambda>_. return \<lparr>bk_bucket = bucket, bk_prefix = p, bk_days = days, bk_local = zone\<rparr>)))"

definition object_key :: "s3_backend \<Rightarrow> string \<Rightarrow> string result" where
  "object_key bk path = bind_result (s3_path path) (\<lambda>p. return (if bk_prefix bk \<noteq> [] then bk_prefix bk @ ''/'' @ p else p))"

definition in_range :: "datetime \<Rightarrow> datetime result" where
  "in_range t = (if datetime_ok t then return t else raise (OverflowError ''date value out of range''))"

text \<open>\<open>t.astimezone(UTC)\<close>.\<close>

definition as_utc :: "s3_backend \<Rightarrow> datetime \<Rightarrow> datetime result" where
  "as_utc bk t = in_range (utc_of (case utcoffset t of None \<Rightarrow> bk_local bk (wall t) | Some _ \<Rightarrow> instant t))"

definition aware_clock :: "datetime \<Rightarrow> unit result" where
  "aware_clock now = (if utcoffset now = None
     then raise (ValueError ''S3 publication clock must return a timezone-aware datetime'') else return ())"

definition retention_deadline :: "s3_backend \<Rightarrow> datetime \<Rightarrow> datetime result" where
  "retention_deadline bk now = bind_result (aware_clock now) (\<lambda>_. bind_result (as_utc bk now) (\<lambda>t.
     bind_result (in_range (add_us t (bk_days bk * us_per_day))) (\<lambda>u.
     return (u\<lparr>wall := wall u - wall u mod us_per_second\<rparr>))))"

definition compliance_deadline :: "s3_backend \<Rightarrow> s3_head \<Rightarrow> datetime result" where
  "compliance_deadline bk h = (case hd_retain h of
       None \<Rightarrow> raise (ValueError ''S3 publication object is not protected by COMPLIANCE Object Lock'')
     | Some t \<Rightarrow> if hd_mode h \<noteq> Some ''COMPLIANCE''
         then raise (ValueError ''S3 publication object is not protected by COMPLIANCE Object Lock'')
         else if utcoffset t = None then raise (ValueError ''S3 Object Lock retention timestamp must be timezone-aware'')
         else as_utc bk t)"

definition ensure_retention :: "'s s3_client \<Rightarrow> s3_backend \<Rightarrow> string \<Rightarrow> s3_head \<Rightarrow> datetime \<Rightarrow> 's \<Rightarrow> 's \<times> s3_head result" where
  "ensure_retention c bk key h until s =
     (case compliance_deadline bk h of
        Inl e \<Rightarrow> (s, raise e)
      | Inr t \<Rightarrow> if instant until \<le> instant t then (s, return h)
          else (case hd_version h of
              None \<Rightarrow> (s, raise (ValueError ''S3 locked object is missing a VersionId''))
            | Some v \<Rightarrow> if v = [] then (s, raise (ValueError ''S3 locked object is missing a VersionId''))
                else (case sc_retention c key v until s of
                    (s', Inl x) \<Rightarrow> (s', raise (client_error x))
                  | (s', Inr _) \<Rightarrow> (s', bind_result (lift_client (sc_head c key (Some v) s')) (\<lambda>h'.
                      case hd_retain h' of
                        None \<Rightarrow> raise (ValueError ''S3 Object Lock retention extension was not confirmed'')
                      | Some t' \<Rightarrow> if hd_mode h' \<noteq> Some ''COMPLIANCE''
                          then raise (ValueError ''S3 Object Lock retention extension was not confirmed'')
                          else bind_result (as_utc bk t') (\<lambda>u.
                            if instant u < instant until
                            then raise (ValueError ''S3 Object Lock retention extension was not confirmed'')
                            else return h'))))))"

definition existing_object :: "'s s3_client \<Rightarrow> s3_backend \<Rightarrow> string \<Rightarrow> string \<Rightarrow> byte list \<Rightarrow> datetime \<Rightarrow> 's
    \<Rightarrow> 's \<times> object_ref result" where
  "existing_object c bk path key content until s =
     (case bind_result (lift_client (sc_head c key None s)) (\<lambda>h. bind_result (compliance_deadline bk h) (\<lambda>_.
         bind_result (lift_client (sc_get c key s)) (\<lambda>existing.
         if existing \<noteq> content then raise (FileExistsError ''immutable S3 publication conflict: s3://'')
         else return h))) of
        Inl e \<Rightarrow> (s, raise e)
      | Inr h \<Rightarrow> (case ensure_retention c bk key h until s of
            (s', Inl e) \<Rightarrow> (s', raise e) | (s', Inr _) \<Rightarrow> (s', return (object_ref_of path content))))"

text \<open>One \<open>put_object\<close> of the loop, with the attempts that are left after it. The loop never ends without an answer,
  so its RuntimeError is not a case.\<close>

datatype put_outcome = Answered "string option" | Already_There | Not_Stored s3_error

fun put_attempts :: "'s s3_client \<Rightarrow> string \<Rightarrow> byte list \<Rightarrow> string \<Rightarrow> datetime \<Rightarrow> nat \<Rightarrow> 's \<Rightarrow> 's \<times> put_outcome" where
  "put_attempts c key content digest until n s = (case sc_put c key content digest until s of
       (s', Inr v) \<Rightarrow> (s', Answered v)
     | (s', Inl x) \<Rightarrow>
         if error_code x \<in> {Some ''PreconditionFailed'', Some ''412''} then (s', Already_There)
         else if error_code x \<in> {Some ''ConditionalRequestConflict'', Some ''409''}
         then (case n of 0 \<Rightarrow> (s', Not_Stored x) | Suc k \<Rightarrow> put_attempts c key content digest until k s')
         else (s', Not_Stored x))"

declare put_attempts.simps [simp del]

definition confirm_put :: "'s s3_client \<Rightarrow> s3_backend \<Rightarrow> string \<Rightarrow> string \<Rightarrow> byte list \<Rightarrow> string \<Rightarrow> datetime \<Rightarrow> string option
    \<Rightarrow> 's \<Rightarrow> 's \<times> object_ref result" where
  "confirm_put c bk path key content digest until vid s =
     (case lift_client (sc_head c key (if vid = Some [] then None else vid) s) of
        Inl e \<Rightarrow> (s, raise e)
      | Inr h \<Rightarrow> (case ensure_retention c bk key h until s of
            (s', Inl e) \<Rightarrow> (s', raise e)
          | (s', Inr _) \<Rightarrow> (s',
              if hd_length h \<noteq> int (length content)
              then raise (ValueError ''S3 publication object size was not confirmed after write'')
              else if hd_digest h \<noteq> Some digest
              then raise (ValueError ''S3 publication object digest metadata was not confirmed after write'')
              else return (object_ref_of path content))))"

definition s3_put :: "'s s3_client \<Rightarrow> s3_backend \<Rightarrow> datetime \<Rightarrow> string \<Rightarrow> byte list \<Rightarrow> 's \<Rightarrow> 's \<times> object_ref result" where
  "s3_put c bk now path content s =
     (if content = [] then (s, raise (ValueError ''immutable publication objects must not be empty''))
      else case bind_result (object_key bk path) (\<lambda>key. bind_result (retention_deadline bk now) (\<lambda>u. return (key, u))) of
        Inl e \<Rightarrow> (s, raise e)
      | Inr (key, until) \<Rightarrow> (let digest = sha256_bytes content in
          case put_attempts c key content digest until 1 s of
            (s', Already_There) \<Rightarrow> existing_object c bk path key content until s'
          | (s', Not_Stored x) \<Rightarrow> (s', raise (client_error x))
          | (s', Answered v) \<Rightarrow> confirm_put c bk path key content digest until v s'))"

definition s3_read :: "'s s3_client \<Rightarrow> s3_backend \<Rightarrow> datetime \<Rightarrow> string \<Rightarrow> 's \<Rightarrow> byte list result" where
  "s3_read c bk now path s = bind_result (object_key bk path) (\<lambda>key.
     bind_result (lift_client (sc_head c key None s)) (\<lambda>h. bind_result (aware_clock now) (\<lambda>_.
     bind_result (compliance_deadline bk h) (\<lambda>until. bind_result (as_utc bk now) (\<lambda>t.
     if instant until \<le> instant t then raise (ValueError ''S3 publication object no longer has active COMPLIANCE retention'')
     else bind_result (lift_client (sc_get c key s)) (\<lambda>content.
       if hd_digest h \<noteq> None \<and> hd_digest h \<noteq> Some (sha256_bytes content)
       then raise (ValueError ''S3 publication object digest metadata does not match content'')
       else return content))))))"

section \<open>What the code relies on of S3\<close>

record s3_object =
  so_content :: "byte list"
  so_version :: string
  so_mode :: "string option"
  so_retain :: "datetime option"
  so_digest :: "string option"

definition head_of :: "s3_object \<Rightarrow> s3_head" where
  "head_of ob = \<lparr>hd_version = Some (so_version ob), hd_length = int (length (so_content ob)), hd_mode = so_mode ob,
     hd_retain = so_retain ob, hd_digest = so_digest ob\<rparr>"

definition written :: "byte list \<Rightarrow> string \<Rightarrow> datetime \<Rightarrow> string \<Rightarrow> s3_object" where
  "written content digest until vid = \<lparr>so_content = content, so_version = vid, so_mode = Some ''COMPLIANCE'',
     so_retain = Some until, so_digest = Some digest\<rparr>"

text \<open>\<open>view s key\<close> is the current object of a key. Any call may fail, and a write that fails may have been carried out.
  HEAD and GET answer for the current object; a conditional PUT writes only where nothing is; a COMPLIANCE retention
  can only be extended.\<close>

definition s3_faithful :: "'s s3_client \<Rightarrow> ('s \<Rightarrow> string \<Rightarrow> s3_object option) \<Rightarrow> bool" where
  "s3_faithful c view \<longleftrightarrow>
     (\<forall>k s h. sc_head c k None s = Inr h \<longrightarrow> (\<exists>ob. view s k = Some ob \<and> h = head_of ob))
   \<and> (\<forall>k v s h ob. sc_head c k (Some v) s = Inr h \<longrightarrow> view s k = Some ob \<longrightarrow> so_version ob = v \<longrightarrow> h = head_of ob)
   \<and> (\<forall>k s d. sc_get c k s = Inr d \<longrightarrow> (\<exists>ob. view s k = Some ob \<and> d = so_content ob))
   \<and> (\<forall>k d g u s s' r. sc_put c k d g u s = (s', r) \<longrightarrow>
        (case r of Inl _ \<Rightarrow> view s' = view s | Inr _ \<Rightarrow> False)
        \<or> view s k = None \<and> (\<exists>v. view s' = (view s)(k \<mapsto> written d g u v)))
   \<and> (\<forall>k v u s s' r. sc_retention c k v u s = (s', r) \<longrightarrow> view s' = view s
        \<or> (\<exists>ob t. view s k = Some ob \<and> so_version ob = v \<and> so_retain ob = Some t \<and> instant t \<le> instant u
              \<and> view s' = (view s)(k \<mapsto> ob\<lparr>so_retain := Some u\<rparr>)))"

text \<open>Any number of writes by backends on the bucket.\<close>

inductive s3_run :: "'s s3_client \<Rightarrow> 's \<Rightarrow> 's \<Rightarrow> bool" for c s where
  refl: "s3_run c s s"
| put: "s3_run c s s1 \<Longrightarrow> s3_put c bk now path content s1 = (s2, r) \<Longrightarrow> s3_run c s s2"

section \<open>Objects keep their content and their lock\<close>

definition fine_time :: "datetime \<Rightarrow> bool" where
  "fine_time t \<longleftrightarrow> utcoffset t \<noteq> None \<and> datetime_ok (utc_of (instant t))"

definition object_kept :: "s3_object \<Rightarrow> s3_object \<Rightarrow> bool" where
  "object_kept ob ob' \<longleftrightarrow> ob' = ob \<or> (\<exists>t u. so_retain ob = Some t \<and> ob' = ob\<lparr>so_retain := Some u\<rparr>
     \<and> instant t \<le> instant u \<and> fine_time u)"

definition objects_kept :: "(string \<Rightarrow> s3_object option) \<Rightarrow> (string \<Rightarrow> s3_object option) \<Rightarrow> bool" where
  "objects_kept f g \<longleftrightarrow> (\<forall>k ob. f k = Some ob \<longrightarrow> (\<exists>ob'. g k = Some ob' \<and> object_kept ob ob'))"

lemma object_kept_refl [simp]: "object_kept ob ob"
  by (simp add: object_kept_def)

lemma object_kept_fields:
  assumes "object_kept ob ob'"
  shows "so_content ob' = so_content ob" "so_version ob' = so_version ob" "so_mode ob' = so_mode ob" "so_digest ob' = so_digest ob"
    "so_retain ob = Some t \<Longrightarrow> fine_time t \<Longrightarrow> \<exists>u. so_retain ob' = Some u \<and> fine_time u \<and> instant t \<le> instant u"
  using assms by (auto simp: object_kept_def)

lemma object_kept_trans: "object_kept a b \<Longrightarrow> object_kept b c \<Longrightarrow> object_kept a c"
  by (auto simp: object_kept_def)

lemma objects_kept_refl [simp]: "objects_kept f f"
  by (simp add: objects_kept_def)

lemma objects_kept_trans: "objects_kept f g \<Longrightarrow> objects_kept g h \<Longrightarrow> objects_kept f h"
  unfolding objects_kept_def using object_kept_trans by blast

lemma deadline_fine:
  assumes "retention_deadline bk now = Inr u"
  shows "fine_time u" "is_utc u" "instant now + bk_days bk * us_per_day - us_per_second < instant u"
proof -
  let ?w = "instant now + bk_days bk * us_per_day"
  have u: "u = utc_of (?w - ?w mod us_per_second)" and ok: "datetime_ok (utc_of ?w)"
    using assms by (auto simp: retention_deadline_def aware_clock_def as_utc_def in_range_def utc_of_def add_us_def
        split: if_splits option.splits)
  have m: "0 \<le> ?w mod us_per_second" "?w mod us_per_second < us_per_second" by (simp_all add: us_per_second_def)
  have "?w mod us_per_second \<le> ?w" using ok by (simp add: datetime_ok_def utc_of_def zmod_le_nonneg_dividend)
  then show "fine_time u" "is_utc u" "?w - us_per_second < instant u"
    using ok m by (simp_all add: u fine_time_def) (simp_all add: datetime_ok_def utc_of_def)
qed

lemma faithful_head: "s3_faithful c view \<Longrightarrow> sc_head c k None s = Inr h \<Longrightarrow> \<exists>ob. view s k = Some ob \<and> h = head_of ob"
  unfolding s3_faithful_def by (elim conjE) blast

lemma faithful_get: "s3_faithful c view \<Longrightarrow> sc_get c k s = Inr d \<Longrightarrow> \<exists>ob. view s k = Some ob \<and> d = so_content ob"
  unfolding s3_faithful_def by (elim conjE) blast

lemma faithful_put:
  assumes "s3_faithful c view" "sc_put c k d g u s = (s', r)"
  shows "objects_kept (view s) (view s')" "r = Inr v \<Longrightarrow> \<exists>v. view s' k = Some (written d g u v)"
    "\<forall>k ob. view s' k = Some ob \<longrightarrow> view s k = Some ob \<or> (\<exists>v. ob = written d g u v)"
proof -
  have p: "(case r of Inl _ \<Rightarrow> view s' = view s | Inr _ \<Rightarrow> False)
        \<or> view s k = None \<and> (\<exists>v. view s' = (view s)(k \<mapsto> written d g u v))"
    using assms unfolding s3_faithful_def by blast
  then show "objects_kept (view s) (view s')"
    by (auto simp: objects_kept_def split: sum.splits)
  show "r = Inr v \<Longrightarrow> \<exists>v. view s' k = Some (written d g u v)" using p by auto
  show "\<forall>k ob. view s' k = Some ob \<longrightarrow> view s k = Some ob \<or> (\<exists>v. ob = written d g u v)"
    using p by (auto split: sum.splits if_splits)
qed

lemma faithful_retention:
  assumes "s3_faithful c view" "sc_retention c k v u s = (s', r)" "fine_time u"
  shows "objects_kept (view s) (view s')"
    "view s' k' = Some ob \<Longrightarrow> \<exists>old. view s k' = Some old \<and> (ob = old \<or> ob = old\<lparr>so_retain := Some u\<rparr>)"
proof -
  have p: "view s' = view s \<or> (\<exists>ob t. view s k = Some ob \<and> so_version ob = v \<and> so_retain ob = Some t
      \<and> instant t \<le> instant u \<and> view s' = (view s)(k \<mapsto> ob\<lparr>so_retain := Some u\<rparr>))"
    using assms(1,2) unfolding s3_faithful_def by blast
  then show "objects_kept (view s) (view s')"
  proof
    assume "\<exists>ob t. view s k = Some ob \<and> so_version ob = v \<and> so_retain ob = Some t
      \<and> instant t \<le> instant u \<and> view s' = (view s)(k \<mapsto> ob\<lparr>so_retain := Some u\<rparr>)"
    then show ?thesis using assms(3) by (auto simp: objects_kept_def object_kept_def)
  qed simp
  show "view s' k' = Some ob \<Longrightarrow> \<exists>old. view s k' = Some old \<and> (ob = old \<or> ob = old\<lparr>so_retain := Some u\<rparr>)"
    using p by (auto split: if_splits)
qed

text \<open>What a step of the backend may change: objects stay, locks are extended, and new objects carry their own digest.\<close>

definition digest_sound :: "s3_object \<Rightarrow> bool" where
  "digest_sound ob \<longleftrightarrow> so_digest ob = None \<or> so_digest ob = Some (sha256_bytes (so_content ob))"

definition step_ok :: "(string \<Rightarrow> s3_object option) \<Rightarrow> (string \<Rightarrow> s3_object option) \<Rightarrow> bool" where
  "step_ok f g \<longleftrightarrow> objects_kept f g \<and> ((\<forall>k ob. f k = Some ob \<longrightarrow> digest_sound ob) \<longrightarrow> (\<forall>k ob. g k = Some ob \<longrightarrow> digest_sound ob))"

lemma step_ok_refl [simp]: "step_ok f f"
  by (simp add: step_ok_def)

lemma step_ok_trans: "step_ok f g \<Longrightarrow> step_ok g h \<Longrightarrow> step_ok f h"
  unfolding step_ok_def using objects_kept_trans by blast

lemma step_put:
  assumes "s3_faithful c view" "sc_put c k d (sha256_bytes d) u s = (s', r)"
  shows "step_ok (view s) (view s')"
proof -
  have "digest_sound (written d (sha256_bytes d) u v)" for v by (simp add: digest_sound_def written_def)
  then show ?thesis using faithful_put(1,3) [OF assms] unfolding step_ok_def by blast
qed

lemma step_retention:
  assumes "s3_faithful c view" "sc_retention c k v u s = (s', r)" "fine_time u"
  shows "step_ok (view s) (view s')"
proof -
  have "digest_sound (ob\<lparr>so_retain := t\<rparr>) = digest_sound ob" for ob t by (simp add: digest_sound_def)
  then show ?thesis using faithful_retention [OF assms] unfolding step_ok_def by metis
qed

lemma put_attempts_ok:
  "s3_faithful c view \<Longrightarrow> put_attempts c k d (sha256_bytes d) u n s = (s', out) \<Longrightarrow>
    step_ok (view s) (view s') \<and> (\<forall>v. out = Answered v \<longrightarrow> (\<exists>w. view s' k = Some (written d (sha256_bytes d) u w)))"
proof (induction n arbitrary: s)
  case 0
  obtain s1 r where p: "sc_put c k d (sha256_bytes d) u s = (s1, r)" by fastforce
  note eq = 0(2) [unfolded put_attempts.simps [of c k d "sha256_bytes d" u 0] p prod.case nat.case]
  show ?case using eq step_put [OF 0(1) p] faithful_put(2) [OF 0(1) p] by (cases r) (auto split: if_splits)
next
  case (Suc n)
  obtain s1 r where p: "sc_put c k d (sha256_bytes d) u s = (s1, r)" by fastforce
  note step = step_put [OF Suc.prems(1) p]
    and eq = Suc.prems(2) [unfolded put_attempts.simps [of c k d "sha256_bytes d" u "Suc n"] p prod.case nat.case]
  show ?case
  proof (cases "put_attempts c k d (sha256_bytes d) u n s1 = (s', out)")
    case True
    show ?thesis using Suc.IH [OF Suc.prems(1) True] step_ok_trans [OF step] by blast
  next
    case False
    then show ?thesis using eq step faithful_put(2) [OF Suc.prems(1) p] by (cases r) (auto split: if_splits)
  qed
qed

lemma ensure_step:
  assumes "s3_faithful c view" "ensure_retention c bk key h until s = (s', r)" "fine_time until"
  shows "step_ok (view s) (view s')"
  using assms(2) step_retention [OF assms(1) _ assms(3)]
  by (auto simp: ensure_retention_def split: sum.splits option.splits if_splits prod.splits)

text \<open>An existing object of which the head was read is locked until the deadline when the call returns.\<close>

lemma ensure_locked:
  assumes "s3_faithful c view" "ensure_retention c bk key (head_of ob) until s = (s', Inr h')" "fine_time until"
    "view s key = Some ob"
  shows "\<exists>ob' t. view s' key = Some ob' \<and> object_kept ob ob' \<and> so_mode ob' = Some ''COMPLIANCE''
    \<and> so_retain ob' = Some t \<and> fine_time t \<and> instant until \<le> instant t"
proof -
  obtain t where t: "so_retain ob = Some t" "so_mode ob = Some ''COMPLIANCE''" "fine_time t"
      "compliance_deadline bk (head_of ob) = Inr (utc_of (instant t))"
    using assms(2) by (auto simp: ensure_retention_def compliance_deadline_def head_of_def fine_time_def as_utc_def in_range_def
        split: sum.splits option.splits if_splits)
  show ?thesis
  proof (cases "instant until \<le> instant t")
    case True
    then show ?thesis using assms(2,4) t by (auto simp: ensure_retention_def intro!: exI [of _ ob])
  next
    case False
    obtain r1 where r: "sc_retention c key (so_version ob) until s = (s', Inr r1)"
        "sc_head c key (Some (so_version ob)) s' = Inr h'"
      and t': "\<exists>t'. hd_retain h' = Some t' \<and> (\<exists>u. as_utc bk t' = Inr u \<and> \<not> instant u < instant until)"
      using assms(2) False t(4) by (auto simp: ensure_retention_def head_of_def lift_client_def
          split: sum.splits option.splits if_splits prod.splits)
    obtain ob' where kept: "view s' key = Some ob'" "object_kept ob ob'"
      using faithful_retention(1) [OF assms(1) r(1) assms(3)] assms(4) by (auto simp: objects_kept_def)
    have "h' = head_of ob'"
      using assms(1) r(2) kept(1) object_kept_fields(2) [OF kept(2)] unfolding s3_faithful_def by metis
    moreover have "ob' = ob \<or> ob' = ob\<lparr>so_retain := Some until\<rparr>"
      using faithful_retention(2) [OF assms(1) r(1) assms(3) kept(1)] assms(4) by auto
    ultimately show ?thesis using t' kept t assms(3,4) False
      by (auto simp: head_of_def as_utc_def in_range_def fine_time_def split: if_splits option.splits)
  qed
qed

lemma s3_put_step:
  assumes "s3_faithful c view" "s3_put c bk now path content s = (s', r)"
  shows "step_ok (view s) (view s')"
    "r = Inr ref \<Longrightarrow> ref = object_ref_of path content \<and> (\<exists>key until ob t. object_key bk path = Inr key
      \<and> retention_deadline bk now = Inr until \<and> view s' key = Some ob \<and> so_content ob = content
      \<and> so_mode ob = Some ''COMPLIANCE'' \<and> so_retain ob = Some t \<and> fine_time t \<and> instant until \<le> instant t)"
proof (atomize (full), goal_cases)
  case 1
  show ?case
  proof (cases "content = [] \<or> (\<exists>e. object_key bk path = Inl e) \<or> (\<exists>e. retention_deadline bk now = Inl e)")
    case True
    then show ?thesis using assms(2)
      by (auto simp: s3_put_def bind_result_def split: sum.splits if_splits prod.splits)
  next
    case False
    then obtain key until where k: "content \<noteq> []" "object_key bk path = Inr key" "retention_deadline bk now = Inr until"
      by (metis old.sum.exhaust)
    note fine = deadline_fine(1) [OF k(3)]
    obtain s1 out where att: "put_attempts c key content (sha256_bytes content) until 1 s = (s1, out)" by fastforce
    note first = put_attempts_ok [OF assms(1) att]
    show ?thesis
    proof (cases out)
      case (Answered v)
      then obtain w where w: "view s1 key = Some (written content (sha256_bytes content) until w)" using first by blast
      have c: "confirm_put c bk path key content (sha256_bytes content) until v s1 = (s', r)"
        using assms(2) k att Answered by (simp add: s3_put_def Let_def)
      have step: "step_ok (view s1) (view s')" and ref: "r = Inr ref \<Longrightarrow> ref = object_ref_of path content"
        using c ensure_step [OF assms(1) _ fine]
        by (auto simp: confirm_put_def split: sum.splits prod.splits if_splits)
      obtain ob where ob: "view s' key = Some ob" "object_kept (written content (sha256_bytes content) until w) ob"
        using step w unfolding step_ok_def objects_kept_def by blast
      have "so_content ob = content" "so_mode ob = Some ''COMPLIANCE''"
          "\<exists>t. so_retain ob = Some t \<and> fine_time t \<and> instant until \<le> instant t"
        using object_kept_fields [OF ob(2)] fine by (simp_all add: written_def)
      then show ?thesis using step_ok_trans [OF conjunct1 [OF first] step] ref k(2,3) ob(1) by blast
    next
      case Already_There
      then have e: "existing_object c bk path key content until s1 = (s', r)"
        using assms(2) k att by (simp add: s3_put_def Let_def)
      have step: "step_ok (view s1) (view s')"
        using e ensure_step [OF assms(1) _ fine] by (auto simp: existing_object_def split: sum.splits prod.splits)
      have "ref = object_ref_of path content \<and> (\<exists>ob t. view s' key = Some ob \<and> so_content ob = content
          \<and> so_mode ob = Some ''COMPLIANCE'' \<and> so_retain ob = Some t \<and> fine_time t \<and> instant until \<le> instant t)" if r: "r = Inr ref"
      proof -
        obtain h h' where h: "sc_head c key None s1 = Inr h" "sc_get c key s1 = Inr content"
            "ensure_retention c bk key h until s1 = (s', Inr h')" "ref = object_ref_of path content"
          using e unfolding r by (auto simp: existing_object_def lift_client_def bind_result_def split: sum.splits prod.splits if_splits)
        obtain ob where ob: "view s1 key = Some ob" "h = head_of ob" using faithful_head [OF assms(1) h(1)] by blast
        have "so_content ob = content" using faithful_get [OF assms(1) h(2)] ob(1) by force
        with ensure_locked [OF assms(1) h(3) [unfolded ob(2)] fine ob(1)] h(4) show ?thesis
          using object_kept_fields(1) by metis
      qed
      with step_ok_trans [OF conjunct1 [OF first] step] k show ?thesis by blast
    next
      case (Not_Stored x)
      then have "s' = s1 \<and> r = Inl (client_error x)" using assms(2) k att by (simp add: s3_put_def Let_def)
      with first show ?thesis by auto
    qed
  qed
qed

lemma s3_run_step: "s3_run c s s' \<Longrightarrow> s3_faithful c view \<Longrightarrow> step_ok (view s) (view s')"
  by (induction rule: s3_run.induct) (auto intro: step_ok_trans s3_put_step(1))

lemma s3_read_stored:
  assumes "s3_faithful c view" "object_key bk path = Inr key"
  shows "s3_read c bk now path s = Inr d \<Longrightarrow> \<exists>ob. view s key = Some ob \<and> d = so_content ob"
    "s3_read c bk now path s = Inl e \<Longrightarrow> view s key = Some ob \<Longrightarrow> digest_sound ob \<Longrightarrow> so_mode ob = Some ''COMPLIANCE'' \<Longrightarrow>
      so_retain ob = Some t \<Longrightarrow> fine_time t \<Longrightarrow> fine_time now \<Longrightarrow> instant now < instant t \<Longrightarrow>
      \<exists>x. e = client_error x \<and> (sc_head c key None s = Inl x \<or> sc_get c key s = Inl x)"
proof -
  have get: "\<exists>ob. view s key = Some ob \<and> d = so_content ob" if "sc_get c key s = Inr d" for d
    using faithful_get [OF assms(1) that] .
  show "s3_read c bk now path s = Inr d \<Longrightarrow> \<exists>ob. view s key = Some ob \<and> d = so_content ob"
    using get by (auto simp: s3_read_def assms(2) lift_client_def split: sum.splits if_splits)
  assume r: "s3_read c bk now path s = Inl e" and ob: "view s key = Some ob" "digest_sound ob" "so_mode ob = Some ''COMPLIANCE''"
    "so_retain ob = Some t" "fine_time t" "fine_time now" "instant now < instant t"
  show "\<exists>x. e = client_error x \<and> (sc_head c key None s = Inl x \<or> sc_get c key s = Inl x)"
  proof (cases "sc_head c key None s")
    case (Inr h)
    then have h: "h = head_of ob" using faithful_head [OF assms(1) Inr] ob(1) by force
    show ?thesis
    proof (cases "sc_get c key s")
      case (Inr d)
      then have "d = so_content ob" using get ob(1) by fastforce
      then show ?thesis using r ob \<open>sc_head c key None s = Inr h\<close> Inr
        by (auto simp: s3_read_def assms(2) h lift_client_def head_of_def aware_clock_def as_utc_def in_range_def fine_time_def
            compliance_deadline_def digest_sound_def split: if_splits option.splits)
    next
      case (Inl x)
      then show ?thesis using r ob \<open>sc_head c key None s = Inr h\<close>
        by (auto simp: s3_read_def assms(2) h lift_client_def head_of_def aware_clock_def as_utc_def in_range_def fine_time_def
            compliance_deadline_def digest_sound_def split: if_splits option.splits)
    qed
  qed (use r in \<open>auto simp: s3_read_def assms(2) lift_client_def\<close>)
qed

text \<open>C34. On an S3 bucket that behaves as documented and in which every object that is already there has no digest in its
  metadata or the right one, an object that \<open>put_bytes\<close> has accepted keeps its content whatever backends write to the
  bucket later: every later read that returns gives exactly these bytes, and until the retention deadline of the write,
  which lies the retention days ahead less the fraction of a second, a read fails only when the client fails. (An
  object with a wrong digest in its metadata is accepted by \<open>put_bytes\<close> and then refused by every read.)\<close>

theorem s3_publication_locked:
  assumes "s3_faithful c view" "s3_put c bk now path content s = (s', Inr ref)" "s3_run c s' later"
    "\<forall>k ob. view s k = Some ob \<longrightarrow> digest_sound ob"
  shows "ref = object_ref_of path content \<and> (\<forall>now' d. s3_read c bk now' path later = Inr d \<longrightarrow> d = content)
    \<and> (\<exists>key until. object_key bk path = Inr key \<and> retention_deadline bk now = Inr until
        \<and> instant now + bk_days bk * us_per_day - us_per_second < instant until
        \<and> (\<forall>now' e. fine_time now' \<and> instant now' < instant until \<and> s3_read c bk now' path later = Inl e \<longrightarrow>
            (\<exists>x. e = client_error x \<and> (sc_head c key None later = Inl x \<or> sc_get c key later = Inl x))))"
proof -
  obtain key until ob t where o: "object_key bk path = Inr key" "retention_deadline bk now = Inr until"
      "view s' key = Some ob" "so_content ob = content" "so_mode ob = Some ''COMPLIANCE''" "so_retain ob = Some t"
      "fine_time t" "instant until \<le> instant t" and ref: "ref = object_ref_of path content"
    using s3_put_step(2) [OF assms(1,2) HOL.refl] by blast
  have step: "step_ok (view s) (view s')" "step_ok (view s') (view later)"
    using s3_put_step(1) [OF assms(1,2)] s3_run_step [OF assms(3,1)] .
  obtain ob' where o': "view later key = Some ob'" "object_kept ob ob'"
    using step(2) o(3) unfolding step_ok_def objects_kept_def by blast
  note fields = object_kept_fields [OF o'(2)]
  have sound: "digest_sound ob'" using step assms(4) o'(1) unfolding step_ok_def by blast
  obtain w where w: "so_retain ob' = Some w" "fine_time w" "instant until \<le> instant w"
    using fields(5) [OF o(6,7)] o(8) by force
  have "d = content" if "s3_read c bk now' path later = Inr d" for now' d
    using s3_read_stored(1) [OF assms(1) o(1) that] o'(1) fields(1) o(4) by auto
  moreover have "\<exists>x. e = client_error x \<and> (sc_head c key None later = Inl x \<or> sc_get c key later = Inl x)"
    if "fine_time now'" "instant now' < instant until" "s3_read c bk now' path later = Inl e" for now' e
    using s3_read_stored(2) [OF assms(1) o(1) that(3) o'(1) sound, of w] fields(3) o(5) w that(1,2) by simp
  ultimately show ?thesis using ref o(1,2) deadline_fine(3) [OF o(2)] by blast
qed

section \<open>Replicas\<close>

record 's replica =
  rp_name :: string
  rp_put :: "string \<Rightarrow> byte list \<Rightarrow> 's \<Rightarrow> 's \<times> object_ref result"
  rp_read :: "string \<Rightarrow> 's \<Rightarrow> byte list result"

definition open_replicated :: "'s replica list \<Rightarrow> int option \<Rightarrow> ('s replica list \<times> int) result" where
  "open_replicated rs minimum =
     (let n = int (length rs); m = (case minimum of None \<Rightarrow> n | Some k \<Rightarrow> k) in
      guarded [(n < 2, ValueError ''replicated publication requires at least two backends''),
       (list_ex (\<lambda>r. is_blank (rp_name r)) rs, ValueError ''replica names must not be empty''),
       (\<not> (1 \<le> m \<and> m \<le> n), ValueError ''minimum_replicas must be between 1 and the replica count'')] (rs, m))"

text \<open>Every replica is written, in the order of the dict; the states are those of the replicas. A failure is kept for the
  message only.\<close>

fun put_replicas :: "'s replica list \<Rightarrow> string \<Rightarrow> byte list \<Rightarrow> 's list \<Rightarrow> 's list \<times> object_ref result list" where
  "put_replicas (r # rs) path content (s # ss) =
     (let (s', res) = rp_put r path content s; (ss', ress) = put_replicas rs path content ss in (s' # ss', res # ress))"
| "put_replicas _ path content ss = (ss, [])"

definition successes :: "'a result list \<Rightarrow> 'a list" where
  "successes rs = concat (map (case_sum (\<lambda>_. []) (\<lambda>x. [x])) rs)"

definition replicated_put :: "'s replica list \<Rightarrow> int \<Rightarrow> string \<Rightarrow> byte list \<Rightarrow> 's list \<Rightarrow> 's list \<times> object_ref result" where
  "replicated_put rs minimum path content ss =
     (case put_replicas rs path content ss of (ss', ress) \<Rightarrow> (ss',
        if int (length (successes ress)) < minimum then raise (RuntimeError ''immutable publication reached '')
        else bind_result (s3_path path) (\<lambda>p. let expected = object_ref_of p content in
          if list_ex (\<lambda>ref. ref \<noteq> expected) (successes ress)
          then raise (ValueError ''publication replicas returned inconsistent immutable references'')
          else return expected)))"

fun read_replicas :: "'s replica list \<Rightarrow> string \<Rightarrow> 's list \<Rightarrow> byte list result list" where
  "read_replicas (r # rs) path (s # ss) = rp_read r path s # read_replicas rs path ss"
| "read_replicas _ path ss = []"

definition replicated_read :: "'s replica list \<Rightarrow> int \<Rightarrow> string \<Rightarrow> 's list \<Rightarrow> byte list result" where
  "replicated_read rs minimum path ss =
     (let contents = successes (read_replicas rs path ss) in
      if int (length contents) < minimum then raise (RuntimeError ''immutable publication readable from '')
      else if length (remdups (map sha256_bytes contents)) \<noteq> 1 then raise (ValueError ''immutable publication replicas diverged'')
      else return (hd contents))"

text \<open>A replica on a filesystem.\<close>

definition fs_replica :: "string \<Rightarrow> backend replica" where
  "fs_replica name = \<lparr>rp_name = name, rp_put = fs_put, rp_read = read_bytes\<rparr>"

section \<open>All replicas required\<close>

lemma successes_simps [simp]:
  "successes [] = []" "successes (Inl e # rs) = successes rs" "successes (Inr x # rs) = x # successes rs"
  by (simp_all add: successes_def)

lemma successes_length: "length (successes rs) \<le> length rs"
  by (induction rs) (auto simp: successes_def split: sum.splits)

lemma successes_all: "length (successes rs) = length rs \<Longrightarrow> rs = map Inr (successes rs)"
proof (induction rs)
  case (Cons r rs)
  then show ?case using successes_length [of rs] by (cases r) auto
qed simp

lemma put_replicas_length: "length (snd (put_replicas rs path content ss)) = min (length rs) (length ss)"
  by (induction rs path content ss rule: put_replicas.induct) (auto split: prod.splits)

lemma read_replicas_length: "length (read_replicas rs path ss) = min (length rs) (length ss)"
  by (induction rs path ss rule: read_replicas.induct) auto

abbreviation immutable_replicas :: "'s replica list \<Rightarrow> bool" where
  "immutable_replicas rs \<equiv> \<forall>r \<in> set rs. immutable_backend (rp_put r) (rp_read r)"

lemma put_replicas_keep:
  "immutable_replicas rs \<Longrightarrow> put_replicas rs path content ss = (ss', ress) \<Longrightarrow>
    list_all2 (\<lambda>a b. \<forall>d. a = Inr d \<longrightarrow> b = Inr d) (read_replicas rs p ss) (read_replicas rs p ss')"
proof (induction rs path content ss arbitrary: ss' ress rule: put_replicas.induct)
  case (1 r rs path content s ss)
  then show ?case by (auto split: prod.splits dest: immutable_backend.put_keeps)
qed (auto simp: list_all2_refl)

lemma put_replicas_read:
  "immutable_replicas rs \<Longrightarrow> put_replicas rs path content ss = (ss', ress) \<Longrightarrow>
    list_all2 (\<lambda>a b. \<forall>ref. a = Inr ref \<longrightarrow> ref = object_ref_of path content \<and> b = Inr content) ress (read_replicas rs path ss')"
proof (induction rs path content ss arbitrary: ss' ress rule: put_replicas.induct)
  case (1 r rs path content s ss)
  then show ?case by (auto split: prod.splits dest: immutable_backend.put_returns)
qed auto

lemma all_read:
  assumes "length rs \<le> length (successes xs)" "length xs \<le> length rs"
  shows "xs = map Inr (successes xs)" "length xs = length rs"
  using assms successes_length [of xs] successes_all [of xs] by auto

lemma all_kept: "list_all2 (\<lambda>a b. \<forall>d. a = Inr d \<longrightarrow> b = Inr d) (map Inr ds) bs \<Longrightarrow> bs = map Inr ds"
  by (induction ds arbitrary: bs) (auto simp: list_all2_Cons1)

lemma all_accepted:
  "list_all2 (\<lambda>a b. \<forall>ref. a = Inr ref \<longrightarrow> ref = f \<and> b = Inr content) (map Inr refs) bs \<Longrightarrow> bs = replicate (length refs) (Inr content)"
  by (induction refs arbitrary: bs) (auto simp: list_all2_Cons1)

lemma successes_replicate [simp]: "successes (replicate n (Inr d)) = replicate n d"
  by (induction n) auto

lemma replicated_put_all:
  assumes "immutable_replicas rs" "replicated_put rs (int (length rs)) path content ss = (ss', Inr ref)"
  shows "ref = object_ref_of path content" "read_replicas rs path ss' = replicate (length rs) (Inr content)"
proof -
  obtain ress where p: "put_replicas rs path content ss = (ss', ress)" and enough: "length rs \<le> length (successes ress)"
    using assms(2) by (auto simp: replicated_put_def split: prod.splits if_splits)
  have "length ress \<le> length rs" using put_replicas_length [of rs path content ss] p by simp
  note all = all_read [OF enough this]
  define refs where "refs = successes ress"
  have "ress = map Inr refs" using all(1) by (simp only: refs_def)
  then have accepted: "list_all2 (\<lambda>a b. \<forall>ref. a = Inr ref \<longrightarrow> ref = object_ref_of path content \<and> b = Inr content)
      (map Inr refs :: object_ref result list) (read_replicas rs path ss')" using put_replicas_read [OF assms(1) p] by (simp only:)
  have "length refs = length rs" unfolding refs_def using enough all(2) successes_length [of ress] by simp
  with all_accepted [OF accepted]
  show "read_replicas rs path ss' = replicate (length rs) (Inr content)" by simp
  show "ref = object_ref_of path content"
    using assms(2) p by (auto simp: replicated_put_def s3_path_def Let_def split: if_splits sum.splits)
qed

lemma replicated_immutable:
  assumes "immutable_replicas rs" "rs \<noteq> []"
  shows "immutable_backend (replicated_put rs (int (length rs))) (replicated_read rs (int (length rs)))"
proof
  fix path content ss ss' ref
  assume put: "replicated_put rs (int (length rs)) path content ss = (ss', Inr ref)"
  have "replicated_read rs (int (length rs)) path ss' = Inr content"
    using replicated_put_all(2) [OF assms(1) put] assms(2)
    by (cases rs) (simp_all add: replicated_read_def length_remdups_card_conv)
  with replicated_put_all(1) [OF assms(1) put]
  show "ref = object_ref_of path content \<and> replicated_read rs (int (length rs)) path ss' = Inr content" by blast
next
  fix p ss d path content ss' res
  assume read: "replicated_read rs (int (length rs)) p ss = Inr d"
    and put: "replicated_put rs (int (length rs)) path content ss = (ss', res)"
  obtain ress where r: "put_replicas rs path content ss = (ss', ress)"
    using put by (auto simp: replicated_put_def split: prod.splits)
  have "length rs \<le> length (successes (read_replicas rs p ss))"
    using read by (auto simp: replicated_read_def Let_def split: if_splits)
  from all_read(1) [OF this] obtain ds where ds: "read_replicas rs p ss = map Inr ds"
    by (auto simp: read_replicas_length)
  have "read_replicas rs p ss' = read_replicas rs p ss"
    using all_kept [OF put_replicas_keep [OF assms(1) r, of p, unfolded ds]] ds by simp
  with read show "replicated_read rs (int (length rs)) p ss' = Inr d" by (simp add: replicated_read_def)
qed

lemma fs_replicas_immutable: "immutable_replicas (map fs_replica names)"
  using filesystem.immutable_backend_axioms by (simp add: fs_replica_def)

interpretation mirrored: immutable_backend
  "replicated_put (map fs_replica (n # ns)) (int (length (map fs_replica (n # ns))))"
  "replicated_read (map fs_replica (n # ns)) (int (length (map fs_replica (n # ns))))" for n ns
  by (rule replicated_immutable [OF fs_replicas_immutable]) simp

lemma read_fs_replicas: "read_replicas (map fs_replica names) path ss = map (read_bytes path) (take (length names) ss)"
proof (induction names arbitrary: ss)
  case (Cons n names)
  then show ?case by (cases ss) (auto simp: fs_replica_def)
qed simp

text \<open>When all replicas are required, a raw object that was accepted is on every replica, byte for byte, and is read
  back by its reference now and after any further write to the mirrored backend, whether that write succeeds or not.\<close>

theorem mirrored_object_on_all:
  assumes "raw_put_stream (replicated_put (map fs_replica (n # ns)) (int (Suc (length ns))))
      (replicated_read (map fs_replica (n # ns)) (int (Suc (length ns)))) kind stream max_bytes ss = (ss', Inr ref)"
    "replicated_put (map fs_replica (n # ns)) (int (Suc (length ns))) path other ss' = (later, res)"
  shows "\<exists>content. read_bounded max_bytes stream = Inr content
    \<and> list_all (\<lambda>b. read_bytes (ro_path ref) b = Inr content) (take (Suc (length ns)) ss') \<and> Suc (length ns) \<le> length ss'
    \<and> raw_read (replicated_read (map fs_replica (n # ns)) (int (Suc (length ns)))) ref ss' = Inr content
    \<and> raw_read (replicated_read (map fs_replica (n # ns)) (int (Suc (length ns)))) ref later = Inr content"
proof -
  let ?rs = "map fs_replica (n # ns)" and ?k = "int (length (map fs_replica (n # ns)))"
  have put: "raw_put_stream (replicated_put ?rs ?k) (replicated_read ?rs ?k) kind stream max_bytes ss = (ss', Inr ref)"
    using assms(1) by simp
  have later: "replicated_put ?rs ?k path other ss' = (later, res)" using assms(2) by simp
  obtain content where c: "read_bounded max_bytes stream = Inr content"
    "ref = target_ref kind (sha256_bytes content) (int (length content))"
    "raw_read (replicated_read ?rs ?k) ref ss' = Inr content"
    by (rule mirrored.raw_put_Inr [OF put])
  obtain r where "replicated_put ?rs ?k (ro_path ref) content ss = (ss', Inr r)"
    using put by (auto simp: raw_put_stream_def c(1,2) target_ref_def Let_def split: prod.splits sum.splits)
  from replicated_put_all(2) [OF fs_replicas_immutable this]
  have all: "map (read_bytes (ro_path ref)) (take (Suc (length ns)) ss') = replicate (Suc (length ns)) (Inr content)"
    by (simp only: read_fs_replicas length_map list.size) simp
  from arg_cong [OF this, of length] have "Suc (length ns) \<le> length ss'" by simp
  moreover have "list_all (\<lambda>b. read_bytes (ro_path ref) b = Inr content) (take (Suc (length ns)) ss')"
    using arg_cong [OF all, of set] by (auto simp: list_all_iff)
  moreover have "raw_read (replicated_read ?rs ?k) ref later = Inr content"
    by (rule mirrored.raw_read_keeps [OF c(3)]) (rule mirrored.put_keeps [OF _ later])
  ultimately show ?thesis using c by simp
qed

section \<open>A quorum\<close>

lemma in_successes [simp]: "x \<in> set (successes rs) \<longleftrightarrow> Inr x \<in> set rs"
  by (induction rs) (auto simp: successes_def split: sum.splits)

lemma successes_mono: "list_all2 (\<lambda>a b. \<forall>x. a = Inr x \<longrightarrow> (\<exists>y. b = Inr y)) xs ys \<Longrightarrow> length (successes xs) \<le> length (successes ys)"
proof (induction rule: list_all2_induct)
  case (Cons x xs y ys)
  then show ?case by (cases x; cases y) auto
qed simp

lemma list_all2_in: "list_all2 P xs ys \<Longrightarrow> x \<in> set xs \<Longrightarrow> \<exists>y \<in> set ys. P x y"
  by (induction rule: list_all2_induct) auto

text \<open>With fewer replicas required than there are, a write can be accepted although a replica holds other bytes at the
  path: every read of the path that follows raises, although enough replicas hold the bytes that were accepted.\<close>

theorem quorum_write_unreadable:
  assumes "replicated_put (map fs_replica names) minimum path content ss = (ss', Inr ref)" "0 < minimum"
    "length ss = length names" "b \<in> set ss" "read_bytes path b = Inr old" "sha256_bytes old \<noteq> sha256_bytes content"
  shows "replicated_read (map fs_replica names) minimum path ss' = Inl (ValueError ''immutable publication replicas diverged'')"
proof -
  let ?reads = "read_replicas (map fs_replica names) path ss'"
  obtain ress where p: "put_replicas (map fs_replica names) path content ss = (ss', ress)"
      and enough: "minimum \<le> int (length (successes ress))"
    using assms(1) by (auto simp: replicated_put_def split: prod.splits if_splits)
  note read = put_replicas_read [OF fs_replicas_immutable p] and keep = put_replicas_keep [OF fs_replicas_immutable p, of path]
  have "list_all2 (\<lambda>a b. \<forall>x. a = Inr x \<longrightarrow> (\<exists>y. b = Inr y)) ress ?reads"
    using read by (rule list_all2_mono) blast
  then have many: "minimum \<le> int (length (successes ?reads))" using successes_mono enough by fastforce
  have "successes ress \<noteq> []" using enough assms(2) by auto
  then obtain x where "Inr x \<in> set ress" using in_successes by (metis last_in_set)
  then have new: "content \<in> set (successes ?reads)" using list_all2_in [OF read] by fastforce
  have "Inr old \<in> set (read_replicas (map fs_replica names) path ss)"
    using assms(3-5) by (force simp: read_fs_replicas)
  then have "old \<in> set (successes ?reads)" using list_all2_in [OF keep] by fastforce
  with new have both: "sha256_bytes old \<in> sha256_bytes ` set (successes ?reads)"
      "sha256_bytes content \<in> sha256_bytes ` set (successes ?reads)" by (simp_all only: imageI)
  have "card (sha256_bytes ` set (successes ?reads)) \<noteq> 1"
  proof
    assume "card (sha256_bytes ` set (successes ?reads)) = 1"
    then obtain z where "sha256_bytes ` set (successes ?reads) = {z}" by (rule card_1_singletonE)
    with both assms(6) show False by (simp only: singleton_iff)
  qed
  then show ?thesis using many by (simp add: replicated_read_def Let_def length_remdups_card_conv)
qed

section \<open>A client in memory\<close>

definition no_such_key :: s3_error where
  "no_such_key = \<lparr>xe_code = Some ''NoSuchKey'', xe_status = Some 404\<rparr>"

definition memory_client :: "s3_object dict s3_client" where
  "memory_client = \<lparr>sc_versioning = (\<lambda>s. Inr (Some ''Enabled'')), sc_object_lock = (\<lambda>s. Inr (Some ''Enabled'')),
     sc_head = (\<lambda>k v s. case dict_get s k of None \<Rightarrow> Inl no_such_key
       | Some ob \<Rightarrow> if v = None \<or> v = Some (so_version ob) then Inr (head_of ob) else Inl no_such_key),
     sc_get = (\<lambda>k s. case dict_get s k of None \<Rightarrow> Inl no_such_key | Some ob \<Rightarrow> Inr (so_content ob)),
     sc_put = (\<lambda>k d g u s. case dict_get s k of
         Some _ \<Rightarrow> (s, Inl \<lparr>xe_code = None, xe_status = Some 412\<rparr>)
       | None \<Rightarrow> (dict_set k (written d g u ''1'') s, Inr (Some ''1''))),
     sc_retention = (\<lambda>k v u s. case dict_get s k of None \<Rightarrow> (s, Inl no_such_key)
       | Some ob \<Rightarrow> (case so_retain ob of None \<Rightarrow> (s, Inl no_such_key)
           | Some t \<Rightarrow> if so_version ob = v \<and> instant t \<le> instant u
               then (dict_set k (ob\<lparr>so_retain := Some u\<rparr>) s, Inr ()) else (s, Inl no_such_key)))\<rparr>"

lemma memory_faithful: "s3_faithful memory_client dict_get"
  unfolding s3_faithful_def memory_client_def s3_client.simps
  by (intro conjI allI impI; auto split: option.splits if_splits simp: update_conv')

definition demo_bucket :: s3_backend where
  "demo_bucket = \<lparr>bk_bucket = ''b'', bk_prefix = ''ballotproof'', bk_days = 365, bk_local = (\<lambda>w. w)\<rparr>"

definition demo_clock_at :: "int \<Rightarrow> datetime" where
  "demo_clock_at s = utc_of (s * us_per_second)"

lemma demo_deadline: "retention_deadline demo_bucket (demo_clock_at 0) = Inr (demo_clock_at (365 * 86400))"
  by (simp add: retention_deadline_def aware_clock_def as_utc_def in_range_def demo_bucket_def demo_clock_at_def utc_of_def
      instant_def add_us_def datetime_ok_def max_wall_def us_per_day_def us_per_second_def)

lemma demo_object_key: "object_key demo_bucket ''a'' = Inr ''ballotproof/a''"
  by (simp add: object_key_def s3_path_def relative_path_def Let_def path_parts_def demo_bucket_def)

lemma demo_s3_put: "\<exists>s ref. s3_put memory_client demo_bucket (demo_clock_at 0) ''a'' [65] [] = (s, Inr ref)"
  by (simp add: s3_put_def demo_deadline demo_object_key Let_def put_attempts.simps memory_client_def)
    (simp add: confirm_put_def lift_client_def ensure_retention_def compliance_deadline_def head_of_def written_def demo_clock_at_def utc_of_def
      as_utc_def in_range_def instant_def datetime_ok_def max_wall_def us_per_day_def us_per_second_def)

lemma s3_publication_locked_witness:
  "\<exists>s ref. s3_put memory_client demo_bucket (demo_clock_at 0) ''a'' [65] [] = (s, Inr ref) \<and> or_size_bytes ref = 1
     \<and> s3_read memory_client demo_bucket (demo_clock_at 1) ''a'' s \<noteq> Inr [66]"
proof -
  obtain s ref where put: "s3_put memory_client demo_bucket (demo_clock_at 0) ''a'' [65] [] = (s, Inr ref)" using demo_s3_put by blast
  have "ref = object_ref_of ''a'' [65]" "s3_read memory_client demo_bucket (demo_clock_at 1) ''a'' s = Inr d \<Longrightarrow> d = [65]" for d
    using s3_publication_locked [OF memory_faithful put s3_run.refl] by simp_all
  with put show ?thesis by (fastforce simp: object_ref_of_def)
qed

lemma raw_relative: "relative_path (content_path k (sha256_bytes content)) = Inr
    [''raw'', raw_kind_text k, take 2 (sha256_bytes content), take 2 (drop 2 (sha256_bytes content)), sha256_bytes content]"
  using relative_path_join [OF raw_path_plain [OF sha256_bytes_is_hex [of content], of k]] by (simp add: content_path_def)

lemma mirror_put: "content \<noteq> [] \<Longrightarrow> replicated_put (map fs_replica [''a'', ''b'']) 2 (content_path k (sha256_bytes content)) content [[], []]
    = ([[(content_path k (sha256_bytes content), content)], [(content_path k (sha256_bytes content), content)]],
       Inr (object_ref_of (content_path k (sha256_bytes content)) content))"
  by (simp add: replicated_put_def fs_replica_def first_put s3_path_def raw_relative)

lemma mirrored_object_on_all_witness:
  "\<exists>ss ref. raw_put_stream (replicated_put (map fs_replica [''a'', ''b'']) 2) (replicated_read (map fs_replica [''a'', ''b'']) 2)
      Evidence_Object [[65]] None [[], []] = (ss, Inr ref)
    \<and> list_all (\<lambda>b. read_bytes (ro_path ref) b = Inr [65]) (take 2 ss)"
proof -
  have "\<exists>ss ref. raw_put_stream (replicated_put (map fs_replica [''a'', ''b'']) 2) (replicated_read (map fs_replica [''a'', ''b'']) 2)
      Evidence_Object [[65]] None [[], []] = (ss, Inr ref)"
    using mirrored.put_returns [of "''a''" "[''b'']" "content_path Evidence_Object (sha256_bytes [65])" "[65]" "[[], []]"]
      mirror_put [of "[65]" Evidence_Object]
    by (simp add: raw_put_stream_def read_bounded_def Let_def object_ref_of_def)
  then obtain ss ref where put: "raw_put_stream (replicated_put (map fs_replica [''a'', ''b'']) 2)
      (replicated_read (map fs_replica [''a'', ''b'']) 2) Evidence_Object [[65]] None [[], []] = (ss, Inr ref)" by blast
  obtain later res where "replicated_put (map fs_replica [''a'', ''b'']) 2 [] [] ss = (later, res)" by fastforce
  then have later: "replicated_put (map fs_replica [''a'', ''b'']) (int (Suc (length [''b'']))) [] [] ss = (later, res)" by simp
  have "raw_put_stream (replicated_put (map fs_replica [''a'', ''b'']) (int (Suc (length [''b'']))))
      (replicated_read (map fs_replica [''a'', ''b'']) (int (Suc (length [''b''])))) Evidence_Object [[65]] None [[], []] = (ss, Inr ref)"
    using put by simp
  from mirrored_object_on_all [OF this later] put show ?thesis by (auto simp: read_bounded_def numeral_2_eq_2)
qed

lemma quorum_write_unreadable_witness:
  "replicated_read (map fs_replica [''a'', ''b'']) 1 ''x'' [[(''x'', [65])], [(''x'', [66])]]
     = Inl (ValueError ''immutable publication replicas diverged'')
   \<or> sha256_bytes [66] = sha256_bytes [65]"
proof (cases "sha256_bytes [66] = sha256_bytes [65]")
  case False
  have "replicated_put (map fs_replica [''a'', ''b'']) 1 ''x'' [65] [[], [(''x'', [66])]]
      = ([[(''x'', [65])], [(''x'', [66])]], Inr (object_ref_of ''x'' [65]))"
    by (simp add: replicated_put_def fs_replica_def fs_put_def put_bytes_def relative_path_def path_parts_def Let_def
        blocked_parent_def is_directory_def s3_path_def)
  from quorum_write_unreadable [OF this, of "[(''x'', [66])]" "[66]"] False show ?thesis
    by (simp add: read_bytes_def relative_path_def path_parts_def Let_def)
qed simp

end
