(* ===== verification/Witness.thy ===== *)
theory Witness
  imports Publication
begin

text \<open>
  src/ballotproof/release_publication.py, the witness statements: independent observers sign the publication they
  saw, statements are verified and published, and two statements of one witness for one checkpoint that do not agree are
  found.
\<close>

section \<open>Statements\<close>

record witness_payload =
  wp_witness_id :: string
  wp_publication_sha256 :: string
  wp_release_id :: string
  wp_election_id :: string
  wp_manifest_sha256 :: string
  wp_checkpoint_hash :: string
  wp_checkpoint_sequence :: int
  wp_key_head_hash :: string
  wp_observed_at :: datetime

record witness_statement =
  ws_payload :: witness_payload
  ws_public_key_b64 :: string
  ws_key_sha256 :: string
  ws_signature_b64 :: string
  ws_sha256 :: string

record witness_verification =
  wv_valid :: bool
  wv_signature_valid :: bool
  wv_statement_hash_valid :: bool
  wv_key_sha256 :: "string option"
  wv_trusted :: "bool option"
  wv_publication_sha256 :: "string option"
  wv_error :: "py_error option"

record witness_equivocation =
  we_key_sha256 :: string
  we_election_id :: string
  we_checkpoint_sequence :: int
  we_statement_sha256 :: "string list"
  we_publication_sha256 :: "string list"
  we_checkpoint_hashes :: "string list"

definition witness_payload_ok :: "witness_payload \<Rightarrow> bool" where
  "witness_payload_ok p = (len_between 1 256 (wp_witness_id p) \<and> 1 \<le> wp_checkpoint_sequence p
     \<and> list_all is_sha256_hex [wp_publication_sha256 p, wp_manifest_sha256 p, wp_checkpoint_hash p, wp_key_head_hash p])"

definition witness_payload_json :: "(datetime \<Rightarrow> string) \<Rightarrow> witness_payload \<Rightarrow> json" where
  "witness_payload_json dt p = JObj
     [(''schema_version'', JStr ''1''), (''witness_id'', JStr (wp_witness_id p)),
      (''publication_sha256'', JStr (wp_publication_sha256 p)), (''release_id'', JStr (wp_release_id p)),
      (''election_id'', JStr (wp_election_id p)), (''manifest_sha256'', JStr (wp_manifest_sha256 p)),
      (''checkpoint_hash'', JStr (wp_checkpoint_hash p)), (''checkpoint_sequence'', JInt (wp_checkpoint_sequence p)),
      (''release_key_transparency_head_event_hash'', JStr (wp_key_head_hash p)),
      (''observed_at'', JStr (dt (wp_observed_at p)))]"

definition statement_fields :: "(datetime \<Rightarrow> string) \<Rightarrow> witness_statement \<Rightarrow> json dict" where
  "statement_fields dt s = [(''payload'', witness_payload_json dt (ws_payload s)), (''algorithm'', JStr ''Ed25519''),
     (''public_key_b64'', JStr (ws_public_key_b64 s)), (''witness_key_sha256'', JStr (ws_key_sha256 s)),
     (''signature_b64'', JStr (ws_signature_b64 s))]"

definition statement_hash :: "(datetime \<Rightarrow> string) \<Rightarrow> witness_statement \<Rightarrow> string" where
  "statement_hash dt s = sha256_bytes (canonical_json_bytes (JObj (statement_fields dt s)))"

definition statement_json :: "(datetime \<Rightarrow> string) \<Rightarrow> witness_statement \<Rightarrow> json" where
  "statement_json dt s = JObj (statement_fields dt s @ [(''statement_sha256'', JStr (ws_sha256 s))])"

definition witness_payload_of :: "governed_publication \<Rightarrow> string \<Rightarrow> datetime \<Rightarrow> witness_payload" where
  "witness_payload_of g witness moment =
     (let r = gp_record g in \<lparr>wp_witness_id = witness, wp_publication_sha256 = gp_sha256 g, wp_release_id = pr_release_id r,
       wp_election_id = pr_election_id r, wp_manifest_sha256 = pr_manifest_sha256 r,
       wp_checkpoint_hash = pr_checkpoint_hash r, wp_checkpoint_sequence = pr_checkpoint_sequence r,
       wp_key_head_hash = pr_key_head_hash r, wp_observed_at = moment\<rparr>)"

definition signed_statement :: "release_library \<Rightarrow> (datetime \<Rightarrow> string) \<Rightarrow> byte list \<Rightarrow> witness_payload
    \<Rightarrow> witness_statement" where
  "signed_statement lib dt private p =
     (let s = \<lparr>ws_payload = p, ws_public_key_b64 = b64encode (public_bytes lib private),
            ws_key_sha256 = sha256_bytes (public_bytes lib private),
            ws_signature_b64 = b64encode (ed_sign lib private (canonical_json_bytes (witness_payload_json dt p))),
            ws_sha256 = []\<rparr>
      in s\<lparr>ws_sha256 := statement_hash dt s\<rparr>)"

definition create_witness_statement :: "release_library \<Rightarrow> (datetime \<Rightarrow> string) \<Rightarrow> governed_publication \<Rightarrow> string
    \<Rightarrow> byte list \<Rightarrow> datetime option \<Rightarrow> datetime \<Rightarrow> witness_statement result" where
  "create_witness_statement lib dt g witness private seen_at now =
     (let sha = sha256_bytes (canonical_json_bytes (publication_json (gp_record g)));
          moment = (case seen_at of None \<Rightarrow> now | Some t \<Rightarrow> t);
          p = witness_payload_of g witness moment in
      guarded
        [(gp_sha256 g \<noteq> sha \<or> gp_path g \<noteq> publication_path_of sha,
          ValueError ''witness statements require a self-consistent publication record''),
         (is_blank witness, ValueError ''witness_id must contain non-whitespace characters''),
         (utcoffset moment = None, ValueError ''witness observed_at must be timezone-aware''),
         (\<not> witness_payload_ok p, field_error)]
        (signed_statement lib dt private p))"

section \<open>Verification\<close>

definition witness_trust :: "string \<Rightarrow> string list option \<Rightarrow> bool option result" where
  "witness_trust fingerprint trusted = (case trusted of
       None \<Rightarrow> return None
     | Some values \<Rightarrow>
         if list_all (\<lambda>v. is_sha256_hex (map lower_char v)) values
         then return (Some (fingerprint \<in> set (map (map lower_char) values)))
         else raise (ValueError ''trusted witness fingerprints must be 64 hexadecimal characters''))"

definition check_statement_signature :: "release_library \<Rightarrow> (datetime \<Rightarrow> string) \<Rightarrow> witness_statement \<Rightarrow> unit result" where
  "check_statement_signature lib dt s =
     bind_result (b64decode (ws_public_key_b64 s)) (\<lambda>raw.
       if length raw \<noteq> 32 \<or> sha256_bytes raw \<noteq> ws_key_sha256 s
       then raise (ValueError ''witness public-key fingerprint is invalid'')
       else bind_result (load_public_key raw) (\<lambda>key.
         bind_result (b64decode (ws_signature_b64 s)) (\<lambda>sig_bytes.
           check_signature lib key sig_bytes (canonical_json_bytes (witness_payload_json dt (ws_payload s))))))"

definition failed_statement :: "witness_statement \<Rightarrow> bool \<Rightarrow> bool \<Rightarrow> py_error \<Rightarrow> witness_verification" where
  "failed_statement s signature_ok hash_ok e = \<lparr>wv_valid = False, wv_signature_valid = signature_ok,
     wv_statement_hash_valid = hash_ok, wv_key_sha256 = Some (ws_key_sha256 s), wv_trusted = None,
     wv_publication_sha256 = Some (wp_publication_sha256 (ws_payload s)), wv_error = Some e\<rparr>"

text \<open>All errors in here are caught: they are InvalidSignature or ValueErrors.\<close>

definition verify_witness_statement :: "release_library \<Rightarrow> (datetime \<Rightarrow> string) \<Rightarrow> witness_statement \<Rightarrow> string list option
    \<Rightarrow> witness_verification" where
  "verify_witness_statement lib dt s trusted = (case check_statement_signature lib dt s of
       Inl e \<Rightarrow> failed_statement s False False e
     | Inr _ \<Rightarrow>
         let hash_ok = (statement_hash dt s = ws_sha256 s) in
         case witness_trust (ws_key_sha256 s) trusted of
           Inl e \<Rightarrow> failed_statement s True hash_ok e
         | Inr t \<Rightarrow> \<lparr>wv_valid = (hash_ok \<and> t \<noteq> Some False), wv_signature_valid = True,
             wv_statement_hash_valid = hash_ok, wv_key_sha256 = Some (ws_key_sha256 s), wv_trusted = t,
             wv_publication_sha256 = Some (wp_publication_sha256 (ws_payload s)), wv_error = None\<rparr>)"

definition publish_witness_statement :: "release_library \<Rightarrow> (datetime \<Rightarrow> string) \<Rightarrow> witness_statement \<Rightarrow> backend
    \<Rightarrow> (backend \<times> object_ref) result" where
  "publish_witness_statement lib dt s b =
     (if \<not> wv_valid (verify_witness_statement lib dt s None)
      then raise (ValueError ''witness statement verification failed'')
      else put_bytes (''witnesses/'' @ ws_key_sha256 s @ ''/'' @ ws_sha256 s @ ''.json'')
        (canonical_json_bytes (statement_json dt s)) b)"

section \<open>Equivocations\<close>

type_synonym stream_key = "string \<times> string \<times> int"

definition statement_key :: "witness_statement \<Rightarrow> stream_key" where
  "statement_key s = (ws_key_sha256 s, wp_election_id (ws_payload s), wp_checkpoint_sequence (ws_payload s))"

definition statement_view :: "witness_statement \<Rightarrow> string \<times> string" where
  "statement_view s = (wp_publication_sha256 (ws_payload s), wp_checkpoint_hash (ws_payload s))"

text \<open>\<open>groups.setdefault(key, []).append(statement)\<close>.\<close>

definition add_to_group :: "witness_statement \<Rightarrow> (stream_key \<times> witness_statement list) list
    \<Rightarrow> (stream_key \<times> witness_statement list) list" where
  "add_to_group s groups = AList.map_default (statement_key s) [s] (\<lambda>g. g @ [s]) groups"

fun group_statements :: "release_library \<Rightarrow> (datetime \<Rightarrow> string) \<Rightarrow> witness_statement list
    \<Rightarrow> (stream_key \<times> witness_statement list) list \<Rightarrow> (stream_key \<times> witness_statement list) list result" where
  "group_statements lib dt [] groups = return groups"
| "group_statements lib dt (s # ss) groups =
     (if \<not> wv_valid (verify_witness_statement lib dt s None)
      then raise (ValueError ''equivocation detection requires valid witness statements'')
      else group_statements lib dt ss (add_to_group s groups))"

definition equivocation_of :: "stream_key \<times> witness_statement list \<Rightarrow> witness_equivocation" where
  "equivocation_of g = (case g of ((fingerprint, election, sequence), ss) \<Rightarrow>
     \<lparr>we_key_sha256 = fingerprint, we_election_id = election, we_checkpoint_sequence = sequence,
       we_statement_sha256 = sort (map ws_sha256 ss),
       we_publication_sha256 = sorted_set (set (map (\<lambda>s. wp_publication_sha256 (ws_payload s)) ss)),
       we_checkpoint_hashes = sorted_set (set (map (\<lambda>s. wp_checkpoint_hash (ws_payload s)) ss))\<rparr>)"

definition detect_witness_equivocations :: "release_library \<Rightarrow> (datetime \<Rightarrow> string) \<Rightarrow> witness_statement list
    \<Rightarrow> witness_equivocation list result" where
  "detect_witness_equivocations lib dt statements =
     bind_result (group_statements lib dt statements []) (\<lambda>groups.
       return (map equivocation_of (filter (\<lambda>(_, ss). 1 < card (set (map statement_view ss)))
         (sort_key fst groups))))"

section \<open>What detection finds\<close>

definition group_of :: "(stream_key \<times> witness_statement list) list \<Rightarrow> stream_key \<Rightarrow> witness_statement list" where
  "group_of groups k = (case map_of groups k of None \<Rightarrow> [] | Some g \<Rightarrow> g)"

lemma add_to_group_facts:
  "group_of (add_to_group s groups) k = group_of groups k @ (if statement_key s = k then [s] else [])"
  "fst ` set (add_to_group s groups) = insert (statement_key s) (fst ` set groups)"
  "distinct (map fst groups) \<Longrightarrow> distinct (map fst (add_to_group s groups))"
proof -
  show "group_of (add_to_group s groups) k = group_of groups k @ (if statement_key s = k then [s] else [])"
    by (induction groups) (auto simp: add_to_group_def group_of_def)
  show keys: "fst ` set (add_to_group s groups) = insert (statement_key s) (fst ` set groups)"
    unfolding add_to_group_def by (induction groups) (auto split: prod.split)
  show "distinct (map fst groups) \<Longrightarrow> distinct (map fst (add_to_group s groups))"
    unfolding add_to_group_def
  proof (induction groups)
    case (Cons g groups)
    have "fst ` set (AList.map_default (statement_key s) [s] (\<lambda>g. g @ [s]) groups)
        \<subseteq> insert (statement_key s) (fst ` set groups)"
      by (induction groups) auto
    with Cons show ?case by (cases g) (force simp: image_iff)
  qed simp
qed

lemma group_statements_Inr:
  "group_statements lib dt ss groups = Inr groups' \<Longrightarrow> distinct (map fst groups) \<Longrightarrow>
    distinct (map fst groups') \<and> fst ` set groups' = fst ` set groups \<union> statement_key ` set ss
    \<and> group_of groups' k = group_of groups k @ filter (\<lambda>s. statement_key s = k) ss"
  by (induction ss arbitrary: groups) (auto simp: add_to_group_facts split: if_splits)

lemma group_statements_total:
  "(\<exists>groups'. group_statements lib dt ss groups = Inr groups') \<longleftrightarrow>
    list_all (\<lambda>s. wv_valid (verify_witness_statement lib dt s None)) ss"
  by (induction ss arbitrary: groups) auto

lemma card_image_less_2:
  assumes "finite A"
  shows "1 < card (f ` A) \<longleftrightarrow> (\<exists>x \<in> A. \<exists>y \<in> A. f x \<noteq> f y)"
proof -
  have "card (f ` A) \<le> Suc 0 \<longleftrightarrow> (\<forall>a \<in> f ` A. \<forall>b \<in> f ` A. a = b)"
    by (rule card_le_Suc0_iff_eq) (simp add: assms)
  then show ?thesis by (simp add: not_le [symmetric] del: not_le)
qed

text \<open>C23. Detection reports exactly the witnesses that contradict themselves: given valid statements it returns one
  report, in order, for each witness key, election and checkpoint number under which two of them name different
  publications or checkpoints, with all the publications named there; if one statement is invalid it raises.\<close>

theorem equivocations_detected:
  "case detect_witness_equivocations lib dt statements of
     Inl e \<Rightarrow> \<not> list_all (\<lambda>s. wv_valid (verify_witness_statement lib dt s None)) statements
   | Inr conflicts \<Rightarrow> list_all (\<lambda>s. wv_valid (verify_witness_statement lib dt s None)) statements
       \<and> sorted_wrt (<) (map (\<lambda>c. (we_key_sha256 c, we_election_id c, we_checkpoint_sequence c)) conflicts)
       \<and> set (map (\<lambda>c. (we_key_sha256 c, we_election_id c, we_checkpoint_sequence c)) conflicts) =
           {statement_key s | s t. s \<in> set statements \<and> t \<in> set statements \<and> statement_key s = statement_key t
              \<and> statement_view s \<noteq> statement_view t}
       \<and> list_all (\<lambda>c. set (we_publication_sha256 c) = {wp_publication_sha256 (ws_payload s) | s.
            s \<in> set statements \<and> statement_key s = (we_key_sha256 c, we_election_id c, we_checkpoint_sequence c)}) conflicts"
proof (cases "group_statements lib dt statements []")
  case (Inl e)
  then show ?thesis
    using group_statements_total [of lib dt statements "[]"] by (simp add: detect_witness_equivocations_def)
next
  case (Inr groups)
  let ?valid = "\<lambda>s. wv_valid (verify_witness_statement lib dt s None)"
  let ?ck = "\<lambda>c. (we_key_sha256 c, we_election_id c, we_checkpoint_sequence c)"
  define gs where "gs = filter (\<lambda>(_, ss). 1 < card (set (map statement_view ss))) (sort_key fst groups)"
  have d: "distinct (map fst groups)" "fst ` set groups = statement_key ` set statements"
    "group_of groups k = filter (\<lambda>s. statement_key s = k) statements" for k
    using group_statements_Inr [OF Inr] by (simp_all add: group_of_def)
  have g: "ss = filter (\<lambda>s. statement_key s = k) statements" if "(k, ss) \<in> set groups" for k ss
    using map_of_is_SomeI [OF d(1) that] d(3) [of k] by (simp add: group_of_def)
  have res: "detect_witness_equivocations lib dt statements = Inr (map equivocation_of gs)"
    by (simp add: detect_witness_equivocations_def Inr gs_def)
  have ck: "?ck (equivocation_of x) = fst x" for x by (cases x) (auto simp: equivocation_of_def)
  have keys: "map ?ck (map equivocation_of gs) = map fst gs" by (simp add: ck)
  have "sorted (map fst (sort_key fst groups))" "distinct (map fst (sort_key fst groups))"
    using d(1) by (simp_all add: distinct_map)
  then have "sorted_wrt (<) (map fst gs)"
    unfolding gs_def by (simp add: strict_sorted_iff sorted_filter distinct_map_filter)
  moreover have "set (map fst gs) = {statement_key s | s t. s \<in> set statements \<and> t \<in> set statements
      \<and> statement_key s = statement_key t \<and> statement_view s \<noteq> statement_view t}" (is "_ = ?R")
  proof (intro equalityI subsetI)
    fix k assume "k \<in> set (map fst gs)"
    then obtain ss where ss: "(k, ss) \<in> set groups" "1 < card (statement_view ` set ss)" by (auto simp: gs_def)
    have f: "finite (set ss)" by simp
    obtain s t where st: "s \<in> set ss" "t \<in> set ss" "statement_view s \<noteq> statement_view t"
      using ss(2) card_image_less_2 [OF f] by blast
    then have "s \<in> set statements" "t \<in> set statements" "statement_key s = k" "statement_key t = k"
      using g [OF ss(1)] by auto
    then show "k \<in> ?R" using st(3) by (intro CollectI exI [of _ s] exI [of _ t]) simp
  next
    fix k assume "k \<in> ?R"
    then obtain s t where st: "s \<in> set statements" "t \<in> set statements" "statement_key s = k" "statement_key t = k"
      "statement_view s \<noteq> statement_view t" by auto
    then obtain ss where ss: "(k, ss) \<in> set groups" using d(2) by (metis (no_types, lifting) fst_conv image_iff prod.exhaust_sel)
    have f: "finite (set ss)" by simp
    have "s \<in> set ss" "t \<in> set ss" using st g [OF ss] by auto
    then have "1 < card (statement_view ` set ss)" using st(5) card_image_less_2 [OF f] by blast
    with ss have "(k, ss) \<in> set gs" by (simp add: gs_def)
    then show "k \<in> set (map fst gs)" by force
  qed
  moreover have "set (we_publication_sha256 c) = {wp_publication_sha256 (ws_payload s) | s.
      s \<in> set statements \<and> statement_key s = ?ck c}" if c: "c \<in> set (map equivocation_of gs)" for c
  proof -
    obtain k ss where x: "(k, ss) \<in> set groups" "c = equivocation_of (k, ss)" using c by (auto simp: gs_def)
    have "set (we_publication_sha256 c) = (\<lambda>s. wp_publication_sha256 (ws_payload s)) ` set ss"
      by (cases k) (simp add: x(2) equivocation_of_def)
    moreover have "?ck c = k" using ck [of "(k, ss)"] by (simp add: x(2))
    ultimately show ?thesis using g [OF x(1)] by auto
  qed
  moreover have "list_all ?valid statements" using group_statements_total Inr by blast
  ultimately show ?thesis by (simp only: res sum.case keys list_all_iff) blast
qed

end
