(* ===== verification/Observer_Pins.thy ===== *)
theory Observer_Pins
  imports Witness Governance_Chain
begin

text \<open>
  src/ballotproof/observer_pins.py: an observer pins the witness statements it trusts in a local hash chain,
  one for each witness, election and checkpoint number, with growing numbers.
\<close>

section \<open>The store\<close>

record observer_pin =
  op_sequence :: int
  op_observer_id :: string
  op_key_sha256 :: string
  op_election_id :: string
  op_checkpoint_sequence :: int
  op_publication_sha256 :: string
  op_checkpoint_hash :: string
  op_statement_sha256 :: string
  op_statement :: witness_statement
  op_pinned_at :: datetime
  op_previous_hash :: "string option"
  op_hash :: string

record pin_chain_report =
  pc_valid :: bool
  pc_pins_checked :: int
  pc_head_pin_hash :: "string option"
  pc_error :: "py_error option"

definition pin_body :: "observer_pin \<Rightarrow> json" where
  "pin_body p = JObj
     [(''sequence'', JInt (op_sequence p)), (''observer_id'', JStr (op_observer_id p)),
      (''witness_key_sha256'', JStr (op_key_sha256 p)), (''election_id'', JStr (op_election_id p)),
      (''checkpoint_sequence'', JInt (op_checkpoint_sequence p)),
      (''publication_sha256'', JStr (op_publication_sha256 p)), (''checkpoint_hash'', JStr (op_checkpoint_hash p)),
      (''statement_sha256'', JStr (op_statement_sha256 p)), (''pinned_at'', JStr (isoformat (op_pinned_at p))),
      (''previous_pin_hash'', json_opt JStr (op_previous_hash p))]"

definition all_pins :: "observer_pin list \<Rightarrow> observer_pin list" where
  "all_pins rows = sort_key op_sequence rows"

definition observer_pins :: "string \<Rightarrow> observer_pin list \<Rightarrow> observer_pin list" where
  "observer_pins observer rows = sort_key op_sequence (filter (\<lambda>p. op_observer_id p = observer) rows)"

type_synonym pin_stream = "string \<times> string \<times> string"

definition pin_stream :: "observer_pin \<Rightarrow> pin_stream" where
  "pin_stream p = (op_observer_id p, op_key_sha256 p, op_election_id p)"

definition statement_stream :: "string \<Rightarrow> witness_statement \<Rightarrow> pin_stream" where
  "statement_stream observer s = (observer, ws_key_sha256 s, wp_election_id (ws_payload s))"

text \<open>The highest checkpoint number pinned in a stream.\<close>

definition stream_head :: "pin_stream \<Rightarrow> observer_pin list \<Rightarrow> int option" where
  "stream_head k rows = (case map op_checkpoint_sequence (filter (\<lambda>p. pin_stream p = k) rows) of
       [] \<Rightarrow> None | n # ns \<Rightarrow> Some (foldl max n ns))"

definition next_pin :: "string \<Rightarrow> witness_statement \<Rightarrow> datetime \<Rightarrow> observer_pin list \<Rightarrow> observer_pin" where
  "next_pin observer s now rows =
     (let earlier = all_pins rows;
          p = \<lparr>op_sequence = (if earlier = [] then 1 else op_sequence (last earlier) + 1), op_observer_id = observer,
            op_key_sha256 = ws_key_sha256 s, op_election_id = wp_election_id (ws_payload s),
            op_checkpoint_sequence = wp_checkpoint_sequence (ws_payload s),
            op_publication_sha256 = wp_publication_sha256 (ws_payload s),
            op_checkpoint_hash = wp_checkpoint_hash (ws_payload s), op_statement_sha256 = ws_sha256 s,
            op_statement = s, op_pinned_at = now,
            op_previous_hash = (if earlier = [] then None else Some (op_hash (last earlier))), op_hash = []\<rparr>
      in p\<lparr>op_hash := hash_record (pin_body p)\<rparr>)"

definition same_view :: "observer_pin \<Rightarrow> witness_statement \<Rightarrow> bool" where
  "same_view p s = (op_statement_sha256 p = ws_sha256 s
     \<and> op_publication_sha256 p = wp_publication_sha256 (ws_payload s)
     \<and> op_checkpoint_hash p = wp_checkpoint_hash (ws_payload s))"

definition insert_pin :: "observer_pin \<Rightarrow> observer_pin list \<Rightarrow> observer_pin list result" where
  "insert_pin p rows = guarded
     [(list_ex (\<lambda>q. op_sequence q = op_sequence p) rows, IntegrityError ''observer_pins.sequence''),
      (list_ex (\<lambda>q. op_hash q = op_hash p) rows, IntegrityError ''observer_pins.pin_hash''),
      (list_ex (\<lambda>q. pin_stream q = pin_stream p \<and> op_checkpoint_sequence q = op_checkpoint_sequence p) rows,
       IntegrityError ''observer_pins.checkpoint_sequence'')]
     (rows @ [p])"

definition pin_trusted :: "string \<Rightarrow> witness_statement \<Rightarrow> datetime \<Rightarrow> observer_pin list
    \<Rightarrow> (observer_pin list \<times> observer_pin) result" where
  "pin_trusted observer s now rows =
     (let k = statement_stream observer s; n = wp_checkpoint_sequence (ws_payload s) in
      case find (\<lambda>p. pin_stream p = k \<and> op_checkpoint_sequence p = n) rows of
        Some p \<Rightarrow> if same_view p s then return (rows, p)
          else raise (ValueError ''observer already pinned a conflicting view for this witness/election/sequence'')
      | None \<Rightarrow>
          if (case stream_head k rows of None \<Rightarrow> False | Some h \<Rightarrow> n \<le> h)
          then raise (ValueError ''observer pins must advance checkpoint sequence monotonically'')
          else let p = next_pin observer s now rows in bind_result (insert_pin p rows) (\<lambda>rows'. return (rows', p)))"

definition pin :: "release_library \<Rightarrow> (datetime \<Rightarrow> string) \<Rightarrow> witness_statement \<Rightarrow> string \<Rightarrow> string \<Rightarrow> datetime
    \<Rightarrow> observer_pin list \<Rightarrow> (observer_pin list \<times> observer_pin) result" where
  "pin lib dt s observer trusted now rows =
     (let v = verify_witness_statement lib dt s (Some [map lower_char trusted]) in
      if is_blank observer then raise (ValueError ''observer_id is required'')
      else if \<not> wv_valid v
      then raise (if wv_trusted v = Some False then PermissionError ''witness statement does not match the pinned trusted key''
        else ValueError ''witness statement verification failed'')
      else pin_trusted observer s now rows)"

section \<open>Verification\<close>

definition pin_matches :: "observer_pin \<Rightarrow> bool" where
  "pin_matches p = (let s = op_statement p in
     op_key_sha256 p = ws_key_sha256 s \<and> op_election_id p = wp_election_id (ws_payload s)
     \<and> op_checkpoint_sequence p = wp_checkpoint_sequence (ws_payload s)
     \<and> op_publication_sha256 p = wp_publication_sha256 (ws_payload s)
     \<and> op_checkpoint_hash p = wp_checkpoint_hash (ws_payload s) \<and> op_statement_sha256 p = ws_sha256 s)"

definition check_pin :: "release_library \<Rightarrow> (datetime \<Rightarrow> string) \<Rightarrow> int \<Rightarrow> string option \<Rightarrow> (pin_stream \<rightharpoonup> int)
    \<Rightarrow> observer_pin \<Rightarrow> unit result" where
  "check_pin lib dt n previous_hash heads p = guarded
     [(op_sequence p \<noteq> n, ValueError ''observer pin sequence is invalid''),
      (op_previous_hash p \<noteq> previous_hash, ValueError ''observer pin predecessor hash is invalid''),
      (\<not> wv_valid (verify_witness_statement lib dt (op_statement p) (Some [op_key_sha256 p])),
       ValueError ''observer pin contains an invalid witness statement''),
      (\<not> pin_matches p, ValueError ''observer pin fields do not match the witness statement''),
      (case heads (pin_stream p) of None \<Rightarrow> False | Some h \<Rightarrow> op_checkpoint_sequence p \<le> h,
       ValueError ''observer pin checkpoint sequence is not monotonic''),
      (hash_record (pin_body (p\<lparr>op_previous_hash := previous_hash\<rparr>)) \<noteq> op_hash p,
       ValueError ''observer pin hash is invalid'')] ()"

fun check_pins :: "release_library \<Rightarrow> (datetime \<Rightarrow> string) \<Rightarrow> int \<Rightarrow> string option \<Rightarrow> (pin_stream \<rightharpoonup> int)
    \<Rightarrow> observer_pin list \<Rightarrow> int \<times> string option \<times> py_error option" where
  "check_pins lib dt checked previous_hash heads [] = (checked, previous_hash, None)"
| "check_pins lib dt checked previous_hash heads (p # ps) =
     (case check_pin lib dt (checked + 1) previous_hash heads p of
        Inl e \<Rightarrow> (checked, previous_hash, Some e)
      | Inr _ \<Rightarrow> check_pins lib dt (checked + 1) (Some (op_hash p))
          (heads(pin_stream p \<mapsto> op_checkpoint_sequence p)) ps)"

definition verify_pin_chain :: "release_library \<Rightarrow> (datetime \<Rightarrow> string) \<Rightarrow> observer_pin list \<Rightarrow> pin_chain_report" where
  "verify_pin_chain lib dt rows = (case check_pins lib dt 0 None Map.empty (all_pins rows) of
       (checked, head, e) \<Rightarrow> \<lparr>pc_valid = (e = None), pc_pins_checked = checked, pc_head_pin_hash = head, pc_error = e\<rparr>)"

section \<open>Histories\<close>

inductive pin_run :: "release_library \<Rightarrow> (datetime \<Rightarrow> string) \<Rightarrow> observer_pin list \<Rightarrow> bool" for lib dt where
  init: "pin_run lib dt []"
| step: "pin_run lib dt rows \<Longrightarrow> pin lib dt s observer trusted now rows = Inr (rows', p) \<Longrightarrow> pin_run lib dt rows'"

definition heads_after :: "(pin_stream \<rightharpoonup> int) \<Rightarrow> observer_pin list \<Rightarrow> pin_stream \<rightharpoonup> int" where
  "heads_after heads ps = foldl (\<lambda>h p. h(pin_stream p \<mapsto> op_checkpoint_sequence p)) heads ps"

lemma check_pins_append:
  "check_pins lib dt n prev heads (ps @ [p]) =
    (case check_pins lib dt n prev heads ps of
       (m, h, None) \<Rightarrow> (case check_pin lib dt (m + 1) h (heads_after heads ps) p of
           Inl e \<Rightarrow> (m, h, Some e) | Inr _ \<Rightarrow> (m + 1, Some (op_hash p), None))
     | r \<Rightarrow> r)"
  by (induction ps arbitrary: n prev heads) (auto simp: heads_after_def split: sum.split option.split prod.split)

lemma heads_after_in:
  "heads_after Map.empty ps k = Some h \<Longrightarrow> \<exists>q \<in> set ps. pin_stream q = k \<and> op_checkpoint_sequence q = h"
  by (induction ps rule: rev_induct) (auto simp: heads_after_def split: if_splits)

lemma foldl_max_ge: "(n :: int) \<in> set (m # ns) \<Longrightarrow> n \<le> foldl max m ns"
proof (induction ns arbitrary: n m)
  case (Cons x ns)
  show ?case
  proof (cases "n \<in> set ns")
    case False
    then have "n \<le> max m x" using Cons.prems by auto
    also have "\<dots> \<le> foldl max (max m x) ns" by (rule Cons.IH) simp
    finally show ?thesis by simp
  qed (use Cons.IH [of n "max m x"] in simp)
qed simp

lemma stream_head_ge:
  assumes "p \<in> set rows"
  shows "\<exists>h. stream_head (pin_stream p) rows = Some h \<and> op_checkpoint_sequence p \<le> h"
proof -
  let ?ns = "map op_checkpoint_sequence (filter (\<lambda>q. pin_stream q = pin_stream p) rows)"
  have m: "op_checkpoint_sequence p \<in> set ?ns" using assms by auto
  then obtain n ns where ns: "?ns = n # ns" by (cases ?ns) auto
  then show ?thesis using m foldl_max_ge [of "op_checkpoint_sequence p" n ns] unfolding stream_head_def ns by simp
qed

text \<open>A statement trusted under some fingerprint is valid under its own.\<close>

lemma trusted_statement_valid:
  assumes "wv_valid (verify_witness_statement lib dt s (Some [v]))"
  shows "wv_valid (verify_witness_statement lib dt s (Some [ws_key_sha256 s]))"
proof -
  have t: "is_sha256_hex (map lower_char v)" "ws_key_sha256 s = map lower_char v"
    "check_statement_signature lib dt s = Inr ()" "statement_hash dt s = ws_sha256 s"
    using assms by (auto simp: verify_witness_statement_def witness_trust_def failed_statement_def Let_def
        split: sum.splits if_splits)
  then have h: "is_sha256_hex (ws_key_sha256 s)" by simp
  show ?thesis using t(3,4) h lower_hex [OF h] by (simp add: verify_witness_statement_def witness_trust_def)
qed

lemma pin_cases:
  assumes "pin lib dt s observer trusted now rows = Inr (rows', p)"
  obtains (old) "rows' = rows" "p \<in> set rows" "pin_stream p = statement_stream observer s"
      "op_checkpoint_sequence p = wp_checkpoint_sequence (ws_payload s)" "same_view p s"
  | (new) "wv_valid (verify_witness_statement lib dt s (Some [ws_key_sha256 s]))" "p = next_pin observer s now rows"
      "rows' = rows @ [p]" "\<forall>q \<in> set rows. pin_stream q = statement_stream observer s \<longrightarrow>
        op_checkpoint_sequence q < wp_checkpoint_sequence (ws_payload s)"
proof -
  have v: "wv_valid (verify_witness_statement lib dt s (Some [map lower_char trusted]))"
    and t: "pin_trusted observer s now rows = Inr (rows', p)"
    using assms by (auto simp: pin_def Let_def split: if_splits)
  let ?k = "statement_stream observer s" and ?n = "wp_checkpoint_sequence (ws_payload s)"
  show thesis
  proof (cases "find (\<lambda>p. pin_stream p = ?k \<and> op_checkpoint_sequence p = ?n) rows")
    case (Some q)
    then have "rows' = rows" "p = q" "same_view q s"
      using t by (auto simp: pin_trusted_def Let_def split: if_splits)
    moreover have "q \<in> set rows" "pin_stream q = ?k" "op_checkpoint_sequence q = ?n"
      using Some by (auto simp: find_Some_iff)
    ultimately show thesis using old by blast
  next
    case None
    then have h: "case stream_head ?k rows of None \<Rightarrow> True | Some h \<Rightarrow> h < ?n"
      and p: "p = next_pin observer s now rows" "rows' = rows @ [p]"
      using t by (auto simp: pin_trusted_def Let_def insert_pin_def split: if_splits option.splits)
    have "op_checkpoint_sequence q < ?n" if "q \<in> set rows" "pin_stream q = ?k" for q
      using stream_head_ge [OF that(1)] h by (auto simp: that(2))
    then show thesis using new trusted_statement_valid [OF v] p by blast
  qed
qed

lemma next_pin_simps [simp]:
  "op_sequence (next_pin observer s now rows) = (if all_pins rows = [] then 1 else op_sequence (last (all_pins rows)) + 1)"
  "op_previous_hash (next_pin observer s now rows) =
    (if all_pins rows = [] then None else Some (op_hash (last (all_pins rows))))"
  "op_statement (next_pin observer s now rows) = s"
  "op_key_sha256 (next_pin observer s now rows) = ws_key_sha256 s"
  "op_checkpoint_sequence (next_pin observer s now rows) = wp_checkpoint_sequence (ws_payload s)"
  "pin_stream (next_pin observer s now rows) = statement_stream observer s"
  "pin_matches (next_pin observer s now rows)"
  "same_view (next_pin observer s now rows) s"
  "op_hash (next_pin observer s now rows) = hash_record (pin_body (next_pin observer s now rows))"
  by (simp_all add: next_pin_def Let_def pin_stream_def statement_stream_def pin_matches_def same_view_def pin_body_def)

lemma check_pin_ok:
  "check_pin lib dt n prev heads p = Inr () \<longleftrightarrow> op_sequence p = n \<and> op_previous_hash p = prev
    \<and> wv_valid (verify_witness_statement lib dt (op_statement p) (Some [op_key_sha256 p])) \<and> pin_matches p
    \<and> (case heads (pin_stream p) of None \<Rightarrow> True | Some h \<Rightarrow> h < op_checkpoint_sequence p)
    \<and> op_hash p = hash_record (pin_body p)"
proof -
  have "op_previous_hash p = prev \<Longrightarrow> p\<lparr>op_previous_hash := prev\<rparr> = p" by simp
  then show ?thesis by (cases "heads (pin_stream p)") (auto simp: check_pin_def)
qed

definition increasing :: "observer_pin list \<Rightarrow> bool" where
  "increasing ps \<longleftrightarrow> sorted_wrt (\<lambda>p q. pin_stream p = pin_stream q \<longrightarrow> op_checkpoint_sequence p < op_checkpoint_sequence q) ps"

definition pin_invariant :: "release_library \<Rightarrow> (datetime \<Rightarrow> string) \<Rightarrow> observer_pin list \<Rightarrow> bool" where
  "pin_invariant lib dt rows \<longleftrightarrow> all_pins rows = rows \<and> increasing rows
     \<and> map op_sequence rows = [1..int (length rows)]
     \<and> check_pins lib dt 0 None Map.empty rows =
         (int (length rows), if rows = [] then None else Some (op_hash (last rows)), None)"

lemma pin_run_invariant: "pin_run lib dt rows \<Longrightarrow> pin_invariant lib dt rows"
proof (induction rule: pin_run.induct)
  case init
  then show ?case by (simp add: pin_invariant_def all_pins_def increasing_def)
next
  case (step rows s observer trusted now rows' p)
  note inv = step.IH [unfolded pin_invariant_def]
  from step.hyps(2) show ?case
  proof (cases rule: pin_cases)
    case old
    then show ?thesis using step.IH by simp
  next
    case new
    have seq: "op_sequence p = int (length rows) + 1"
    proof (cases "rows = []")
      case False
      then have "op_sequence (last rows) = last [1..int (length rows)]" using inv by (metis last_map)
      also have "\<dots> = int (length rows)" using False by (subst upto_rec2) (simp_all add: Suc_le_eq)
      finally show ?thesis using inv False by (simp add: new(2))
    qed (use inv in \<open>simp add: new(2)\<close>)
    have "all_pins rows' = rows'"
      using sort_key_snoc_next [of op_sequence p "\<lambda>_. True" rows] inv by (simp add: all_pins_def new(2,3))
    moreover have "increasing rows'" using inv new(4) by (auto simp: increasing_def new(2,3) sorted_wrt_append)
    moreover have "map op_sequence rows' = [1..int (length rows')]"
      using inv seq by (simp add: new(3) upto_rec2)
    moreover have "check_pin lib dt (int (length rows) + 1) (if rows = [] then None else Some (op_hash (last rows)))
        (heads_after Map.empty rows) p = Inr ()"
    proof -
      have "case heads_after Map.empty rows (pin_stream p) of None \<Rightarrow> True | Some h \<Rightarrow> h < op_checkpoint_sequence p"
        using new(4) by (auto simp: new(2) split: option.split dest!: heads_after_in)
      moreover have "op_previous_hash p = (if rows = [] then None else Some (op_hash (last rows)))" using inv by (simp add: new(2))
      ultimately show ?thesis using seq new(1) by (simp add: check_pin_ok) (simp add: new(2))
    qed
    ultimately show ?thesis using inv by (simp add: pin_invariant_def check_pins_append new(3))
  qed
qed

text \<open>C24. An observer's history never equivocates. Whatever was pinned, the chain verifies in full; under every
  observer, witness key and election the checkpoint numbers strictly increase, so there is one view for each; a further
  statement can only be pinned when it agrees with the pin of its number, if there is one, and earlier pins stay.\<close>

theorem observer_history_consistent:
  assumes "pin_run lib dt rows"
  shows "verify_pin_chain lib dt rows = \<lparr>pc_valid = True, pc_pins_checked = int (length rows),
      pc_head_pin_hash = (if rows = [] then None else Some (op_hash (last rows))), pc_error = None\<rparr>
    \<and> sorted_wrt (\<lambda>p q. pin_stream p = pin_stream q \<longrightarrow> op_checkpoint_sequence p < op_checkpoint_sequence q) (all_pins rows)
    \<and> (case pin lib dt s observer trusted now rows of Inl _ \<Rightarrow> True
       | Inr (rows', p) \<Rightarrow> (rows' = rows \<or> rows' = rows @ [p]) \<and> p \<in> set rows' \<and> same_view p s
           \<and> list_all (\<lambda>q. (pin_stream q = statement_stream observer s
               \<and> op_checkpoint_sequence q = wp_checkpoint_sequence (ws_payload s)) = (q = p)) rows')"
proof -
  note inv = pin_run_invariant [OF assms, unfolded pin_invariant_def increasing_def]
  have "case pin lib dt s observer trusted now rows of Inl _ \<Rightarrow> True
       | Inr (rows', p) \<Rightarrow> (rows' = rows \<or> rows' = rows @ [p]) \<and> p \<in> set rows' \<and> same_view p s
           \<and> list_all (\<lambda>q. (pin_stream q = statement_stream observer s
               \<and> op_checkpoint_sequence q = wp_checkpoint_sequence (ws_payload s)) = (q = p)) rows'"
  proof (cases "pin lib dt s observer trusted now rows")
    case (Inr r)
    obtain rows' p where r: "r = (rows', p)" by (cases r)
    have uniq: "q = q'" if mem: "q \<in> set rows" "q' \<in> set rows"
      and same: "pin_stream q = pin_stream q'" "op_checkpoint_sequence q = op_checkpoint_sequence q'" for q q'
    proof -
      obtain i j where ij: "i < length rows" "j < length rows" "q = rows ! i" "q' = rows ! j"
        using mem by (metis in_set_conv_nth)
      have less: "pin_stream (rows ! a) = pin_stream (rows ! b) \<Longrightarrow> op_checkpoint_sequence (rows ! a) < op_checkpoint_sequence (rows ! b)"
        if "a < b" "b < length rows" for a b
        using sorted_wrt_nth_less [OF _ that] inv by blast
      have "\<not> i < j" "\<not> j < i" using less [of i j] less [of j i] ij same by auto
      then show ?thesis using ij by simp
    qed
    from Inr [unfolded r] show ?thesis
    proof (cases rule: pin_cases)
      case old
      then show ?thesis using uniq Inr r by (auto simp: list_all_iff)
    next
      case new
      then show ?thesis using Inr r by (fastforce simp: list_all_iff)
    qed
  qed simp
  then show ?thesis using inv by (simp add: verify_pin_chain_def)
qed

section \<open>A concrete history\<close>

lemma signed_statement_valid:
  assumes "signatures_ok lib"
  shows "wv_valid (verify_witness_statement lib dt (signed_statement lib dt private p)
    (Some [sha256_bytes (public_bytes lib private)]))"
proof -
  let ?s = "signed_statement lib dt private p"
  have s: "ws_public_key_b64 ?s = b64encode (public_bytes lib private)" "ws_payload ?s = p"
    "ws_key_sha256 ?s = sha256_bytes (public_bytes lib private)"
    "ws_signature_b64 ?s = b64encode (ed_sign lib private (canonical_json_bytes (witness_payload_json dt p)))"
    "ws_sha256 ?s = statement_hash dt ?s"
    by (simp_all add: signed_statement_def Let_def statement_hash_def statement_fields_def)
  have "check_statement_signature lib dt ?s = Inr ()"
    using assms by (simp add: check_statement_signature_def s b64decode_encode load_public_key_def check_signature_def
        signatures_ok_def)
  moreover have "map lower_char (ws_key_sha256 ?s) = ws_key_sha256 ?s" "is_sha256_hex (ws_key_sha256 ?s)"
    by (simp_all add: s sha256_bytes_is_hex lower_hex)
  ultimately show ?thesis
    by (simp add: verify_witness_statement_def witness_trust_def s(5) [symmetric] s(3) [symmetric])
qed

definition demo_payload :: witness_payload where
  "demo_payload = \<lparr>wp_witness_id = ''observer-1'', wp_publication_sha256 = sha256_bytes [1], wp_release_id = ''bp_rel_1'',
     wp_election_id = ''E'', wp_manifest_sha256 = sha256_bytes [2], wp_checkpoint_hash = sha256_bytes [3],
     wp_checkpoint_sequence = 1, wp_key_head_hash = sha256_bytes [4], wp_observed_at = auth_time\<rparr>"

abbreviation demo_statement :: witness_statement where
  "demo_statement \<equiv> signed_statement demo_release_library isoformat [1, 2, 3] demo_payload"

lemma demo_pinned:
  "pin demo_release_library isoformat demo_statement ''ngo'' (sha256_bytes demo_key) auth_time []
    = Inr ([next_pin ''ngo'' demo_statement auth_time []], next_pin ''ngo'' demo_statement auth_time [])"
  using signed_statement_valid [OF demo_signatures_ok, of isoformat "[1, 2, 3]" demo_payload]
  by (simp add: pin_def demo_key_def lower_hex sha256_bytes_is_hex pin_trusted_def Let_def stream_head_def insert_pin_def
      one_byte_spaces_def two_byte_spaces_def three_byte_spaces_def)

theorem observer_history_consistent_witness:
  "\<exists>rows p. pin demo_release_library isoformat demo_statement ''ngo'' (sha256_bytes demo_key) auth_time [] = Inr (rows, p)
    \<and> verify_pin_chain demo_release_library isoformat rows = \<lparr>pc_valid = True, pc_pins_checked = 1,
        pc_head_pin_hash = Some (op_hash p), pc_error = None\<rparr>"
  using observer_history_consistent [OF pin_run.step [OF pin_run.init demo_pinned]] demo_pinned by simp

end
