(* ===== verification/Postgres_Scheduler.thy ===== *)
theory Postgres_Scheduler
  imports Postgres_Time Source_Scheduler
begin

text \<open>
  The class PostgresSourceSchedulerStore of src/ballotproof/postgres_source_control.py over the rows of
  \<open>Source_Scheduler\<close>: the times of reservations are TIMESTAMPTZ columns, so the window is cut by instants, and a
  conflicting insertion is a duplicate instead of an error. The advisory lock of the source serialises the
  transaction.
\<close>

section \<open>\<open>reserve\<close>\<close>

definition loaded_reservation :: "pg_session \<Rightarrow> reservation \<Rightarrow> reservation" where
  "loaded_reservation ses r = r\<lparr>reserved_at := from_column ses (reserved_at r)\<rparr>"

definition pg_window_rows :: "pg_session \<Rightarrow> string \<Rightarrow> datetime \<Rightarrow> scheduler_store \<Rightarrow> reservation list" where
  "pg_window_rows ses src now st = map (loaded_reservation ses) (sort_key (\<lambda>r. instant (reserved_at r))
     (filter (\<lambda>r. re_source_id r = src
       \<and> instant (to_column ses (add_us now (- minute_us))) < instant (reserved_at r)
       \<and> instant (reserved_at r) \<le> instant (to_column ses now)) st))"

text \<open>The rows come with the zone of the session, so the minute is added to the wall clock of that zone. The other times,
  \<open>now\<close> and those of the receipts, have fixed offsets, and comparisons between the two kinds are of instants.\<close>

definition pg_rate_limit_until :: "pg_session \<Rightarrow> source_policy \<Rightarrow> reservation list \<Rightarrow> datetime option" where
  "pg_rate_limit_until ses policy rows =
     (if requests_per_minute policy \<le> int (length rows)
      then Some (zoned_add ses (reserved_at (rows ! nat (int (length rows) - requests_per_minute policy))) minute_us)
      else None)"

text \<open>\<open>ON CONFLICT DO NOTHING RETURNING\<close>: \<open>None\<close> when a row with the key exists.\<close>

definition pg_insert_reservation :: "pg_session \<Rightarrow> reservation \<Rightarrow> scheduler_store \<Rightarrow> scheduler_store option" where
  "pg_insert_reservation ses r st =
     (if list_ex (\<lambda>q. reservation_id q = reservation_id r) st
        \<or> list_ex (\<lambda>q. re_source_id q = re_source_id r \<and> re_request_key q = re_request_key r \<and> re_attempt q = re_attempt r) st
      then None else Some (st @ [r\<lparr>reserved_at := to_column ses (reserved_at r)\<rparr>]))"

definition pg_reserve_slot :: "net_library \<Rightarrow> pg_session \<Rightarrow> policy_snapshot \<Rightarrow> reservation_request \<Rightarrow> datetime option
    \<Rightarrow> datetime \<Rightarrow> string \<Rightarrow> scheduler_store \<Rightarrow> (scheduler_store \<times> reservation_decision) result" where
  "pg_reserve_slot net ses snapshot q backoff now fresh st =
     (let policy = ps_policy snapshot in
      if list_ex (\<lambda>r. re_source_id r = sp_source_id policy \<and> re_request_key r = sq_request_key q
          \<and> re_attempt r = sq_attempt q) st
      then return (st, deny DUPLICATE_RESERVATION)
      else bind_result (blockers now [backoff,
          pg_rate_limit_until ses policy (pg_window_rows ses (sp_source_id policy) now st)]) (\<lambda>bs.
        case bs of
          b # rest \<Rightarrow> return (st, blocked_until backoff (latest_of b rest) now)
        | [] \<Rightarrow>
            (let r = new_reservation net snapshot q now fresh in
             case pg_insert_reservation ses r st of
               None \<Rightarrow> return (st, deny DUPLICATE_RESERVATION)
             | Some st' \<Rightarrow> return (st',
                 \<lparr>allowed = True, block_reason = None, next_allowed_at = None, retry_after_seconds = 0,
                  granted = Some r\<rparr>))))"

definition pg_reserve :: "net_library \<Rightarrow> (rat \<Rightarrow> int) \<Rightarrow> pg_session \<Rightarrow> policy_snapshot \<Rightarrow> reservation_request
    \<Rightarrow> provenance_receipt list \<Rightarrow> datetime \<Rightarrow> string \<Rightarrow> scheduler_store
    \<Rightarrow> (scheduler_store \<times> reservation_decision) result" where
  "pg_reserve net td ses snapshot q rcpts now fresh st =
     (let policy = ps_policy snapshot in
      if sq_policy_version q \<noteq> ps_version snapshot \<or> sq_policy_hash q \<noteq> ps_hash snapshot
      then return (st, deny POLICY_SNAPSHOT_MISMATCH)
      else if access_status policy \<noteq> APPROVED then return (st, deny POLICY_NOT_APPROVED)
      else (case validate_source_request net policy (sq_request_url q) (sq_request_method q) of
          Inl (Violation v) \<Rightarrow> return (st, deny (REQUEST_VIOLATION v))
        | Inl (OtherError e) \<Rightarrow> raise e
        | Inr _ \<Rightarrow>
            if max_attempts policy < sq_attempt q then return (st, deny ATTEMPTS_EXHAUSTED)
            else bind_result (matching_receipts policy q now rcpts) (\<lambda>ms.
              case retry_backoff td policy q ms of
                Inl reason \<Rightarrow> return (st, deny reason)
              | Inr backoff \<Rightarrow> pg_reserve_slot net ses snapshot q backoff now fresh st)))"

definition pg_reservations :: "pg_session \<Rightarrow> scheduler_store \<Rightarrow> string \<Rightarrow> reservation list" where
  "pg_reservations ses st src = map (loaded_reservation ses)
     (sort_key (\<lambda>r. (instant (reserved_at r), reservation_id r)) (filter (\<lambda>r. re_source_id r = src) st))"

section \<open>Times and decisions up to their offset\<close>

definition same_time :: "datetime \<Rightarrow> datetime \<Rightarrow> bool" where
  "same_time a b \<longleftrightarrow> instant a = instant b \<and> (utcoffset a = None \<longleftrightarrow> utcoffset b = None)"

definition in_utc :: "datetime \<Rightarrow> datetime" where
  "in_utc t = utc_of (instant t)"

definition decision_in_utc :: "reservation_decision \<Rightarrow> reservation_decision" where
  "decision_in_utc d = d\<lparr>next_allowed_at := map_option in_utc (next_allowed_at d),
     granted := map_option (\<lambda>r. r\<lparr>reserved_at := in_utc (reserved_at r)\<rparr>) (granted d)\<rparr>"

definition outcome_in_utc :: "(scheduler_store \<times> reservation_decision) result \<Rightarrow> (scheduler_store \<times> reservation_decision) result" where
  "outcome_in_utc x = map_sum id (map_prod id decision_in_utc) x"

lemma same_time_refl [simp]: "same_time t t"
  by (simp add: same_time_def)

lemma same_time_add [intro]: "same_time a b \<Longrightarrow> same_time (add_us a n) (add_us b n)"
  by (simp add: same_time_def)

lemma in_utc_eq: "same_time a b \<Longrightarrow> in_utc a = in_utc b"
  by (simp add: in_utc_def same_time_def)

lemma instant_in_utc [simp]: "instant (in_utc t) = instant t"
  by (simp add: in_utc_def)

lemma utcoffset_in_utc [simp]: "utcoffset (in_utc t) = Some 0"
  by (simp add: in_utc_def utc_of_def)

lemma same_time_utc: "utcoffset t \<noteq> None \<Longrightarrow> same_time t (in_utc t)"
  by (simp add: same_time_def in_utc_def utc_of_def instant_def)

lemma dt_less_same: "same_time a b \<Longrightarrow> same_time c d \<Longrightarrow> dt_less a c = dt_less b d"
  by (auto simp: dt_less_def same_time_def)

lemma dt_le_same: "same_time a b \<Longrightarrow> same_time c d \<Longrightarrow> dt_le a c = dt_le b d"
  by (auto simp: dt_le_def same_time_def)

lemma matching_receipts_same:
  assumes "same_time a b"
  shows "matching_receipts policy q a rs = matching_receipts policy q b rs"
proof -
  have "select_receipts policy q a rs = select_receipts policy q b rs"
    using assms by (induction rs) (simp_all add: dt_le_same [OF same_time_refl assms])
  then show ?thesis by (simp add: matching_receipts_def)
qed

lemma blockers_same:
  assumes "same_time a b" "list_all2 (rel_option same_time) vs ws"
  shows "rel_sum (=) (list_all2 same_time) (blockers a vs) (blockers b ws)"
  using assms(2)
proof (induction vs ws rule: list_all2_induct)
  case (Cons v vs w ws)
  show ?case
  proof (cases v)
    case None
    then show ?thesis using Cons by (auto elim: option.rel_cases)
  next
    case (Some x)
    then obtain y where w: "w = Some y" "same_time x y" using Cons.hyps(1) by (auto elim: option.rel_cases)
    show ?thesis using Cons.IH dt_less_same [OF assms(1) w(2)] w Some
      by (cases "dt_less b y"; cases "blockers a vs"; cases "blockers b ws") auto
  qed
qed simp

lemma latest_of_same:
  assumes "list_all2 same_time as bs" "same_time a b"
  shows "same_time (latest_of a as) (latest_of b bs)"
  using assms
proof (induction as bs arbitrary: a b rule: list_all2_induct)
  case (Cons x xs y ys)
  have "instant a < instant x \<longleftrightarrow> instant b < instant y"
    using Cons.hyps(1) Cons.prems by (simp add: same_time_def)
  then show ?case using Cons by simp
qed simp

lemma blocked_until_same:
  assumes "rel_option same_time v w" "same_time a b" "same_time c d"
  shows "decision_in_utc (blocked_until v a c) = decision_in_utc (blocked_until w b d)"
proof -
  have eq: "instant a = instant b" "instant c = instant d" using assms(2,3) by (simp_all add: same_time_def)
  have "(v \<noteq> None \<and> instant (the v) = instant b) \<longleftrightarrow> (w \<noteq> None \<and> instant (the w) = instant b)"
    using assms(1) by (cases rule: option.rel_cases) (simp_all add: same_time_def)
  then show ?thesis by (simp add: blocked_until_def decision_in_utc_def in_utc_eq [OF assms(2)] eq)
qed

section \<open>The window\<close>

lemma pg_window_rows_eq:
  assumes "stored_before t st" "clock_ok (in_utc now)" "utcoffset now \<noteq> None"
  shows "pg_window_rows ses src now st = map (loaded_reservation ses) (window_rows src (in_utc now) st)"
proof -
  let ?P = "in_window src (instant now)"
  have f: "filter (\<lambda>r. re_source_id r = src
       \<and> instant (to_column ses (add_us now (- minute_us))) < instant (reserved_at r)
       \<and> instant (reserved_at r) \<le> instant (to_column ses now)) st = filter ?P st"
    using assms(3) by (intro filter_cong) (auto simp: in_window_def)
  have "sort_key (\<lambda>r. instant (reserved_at r)) (filter ?P st) = sort_key (\<lambda>r. isoformat (reserved_at r)) (filter ?P st)"
    using assms(1) by (intro sort_key_order_cong) (simp add: stored_before_def list_all_iff isoformat_less)
  moreover have "window_rows src (in_utc now) st = sort_key (\<lambda>r. isoformat (reserved_at r)) (filter ?P st)"
    using window_rows_instants [OF assms(1,2), of src] by (simp add: in_utc_def)
  ultimately show ?thesis by (simp add: pg_window_rows_def f)
qed

lemma rate_limit_until_same:
  assumes "list_all (\<lambda>r. is_utc (reserved_at r) \<and> keeps_offset ses (reserved_at r) minute_us) rows"
    "1 \<le> requests_per_minute policy"
  shows "rel_option same_time (pg_rate_limit_until ses policy (map (loaded_reservation ses) rows)) (rate_limit_until policy rows)"
proof (cases "requests_per_minute policy \<le> int (length rows)")
  case True
  let ?i = "nat (int (length rows) - requests_per_minute policy)"
  have i: "?i < length rows" using True assms(2) by linarith
  then have r: "is_utc (reserved_at (rows ! ?i))" "keeps_offset ses (reserved_at (rows ! ?i)) minute_us"
    using assms(1) by (simp_all add: list_all_iff)
  have "zoned_add ses (reserved_at (loaded_reservation ses (rows ! ?i))) minute_us =
      add_us (from_column ses (reserved_at (rows ! ?i))) minute_us"
    using zoned_add_kept [OF r(2)] by (simp add: loaded_reservation_def minute_us_def us_per_second_def)
  moreover have "same_time (from_column ses (reserved_at (rows ! ?i))) (reserved_at (rows ! ?i))"
    using r(1) by (simp add: same_time_def is_utc_def)
  ultimately show ?thesis using True i by (auto simp: rate_limit_until_def pg_rate_limit_until_def)
qed (simp add: rate_limit_until_def pg_rate_limit_until_def)

section \<open>The store refines the file store at UTC\<close>

lemma new_reservation_at [simp]:
  "reserved_at (new_reservation net snapshot q now fresh) = now"
  "reservation_id (new_reservation net snapshot q now fresh) = ''bp_req_'' @ fresh"
  "re_source_id (new_reservation net snapshot q now fresh) = sp_source_id (ps_policy snapshot)"
  "re_request_key (new_reservation net snapshot q now fresh) = sq_request_key q"
  "re_attempt (new_reservation net snapshot q now fresh) = sq_attempt q"
  "(new_reservation net snapshot q now fresh)\<lparr>reserved_at := t\<rparr> = new_reservation net snapshot q t fresh"
  by (simp_all add: new_reservation_def)

definition steady_minutes :: "pg_session \<Rightarrow> string \<Rightarrow> scheduler_store \<Rightarrow> bool" where
  "steady_minutes ses src st \<longleftrightarrow>
     list_all (\<lambda>r. re_source_id r = src \<longrightarrow> keeps_offset ses (reserved_at r) minute_us) st"

lemma pg_reserve_slot_refines:
  assumes "stored_before t st" "clock_ok (in_utc now)" "utcoffset now \<noteq> None"
    "1 \<le> requests_per_minute (ps_policy snapshot)" "''bp_req_'' @ fresh \<notin> set (map reservation_id st)"
    "steady_minutes ses (sp_source_id (ps_policy snapshot)) st"
  shows "outcome_in_utc (pg_reserve_slot net ses snapshot q backoff now fresh st) =
    outcome_in_utc (reserve_slot net snapshot q backoff (in_utc now) fresh st)"
proof (cases "list_ex (\<lambda>r. re_source_id r = sp_source_id (ps_policy snapshot) \<and> re_request_key r = sq_request_key q
    \<and> re_attempt r = sq_attempt q) st")
  case False
  let ?src = "sp_source_id (ps_policy snapshot)"
  let ?v = "pg_rate_limit_until ses (ps_policy snapshot) (pg_window_rows ses ?src now st)"
  let ?w = "rate_limit_until (ps_policy snapshot) (window_rows ?src (in_utc now) st)"
  have now: "same_time now (in_utc now)" by (rule same_time_utc [OF assms(3)])
  have "list_all (\<lambda>r. is_utc (reserved_at r) \<and> keeps_offset ses (reserved_at r) minute_us) (window_rows ?src (in_utc now) st)"
    using assms(1,6) by (auto simp: list_all_iff window_rows_def stored_before_def steady_minutes_def)
  then have vw: "rel_option same_time ?v ?w"
    unfolding pg_window_rows_eq [OF assms(1-3)] using assms(4) by (rule rate_limit_until_same)
  have "rel_sum (=) (list_all2 same_time) (blockers now [backoff, ?v]) (blockers (in_utc now) [backoff, ?w])"
    using vw by (intro blockers_same now) (simp add: option.rel_refl)
  then show ?thesis
  proof (cases rule: rel_sum.cases)
    case (2 bs cs)
    show ?thesis
    proof (cases bs)
      case Nil
      then have cs: "cs = []" using 2(3) by simp
      have fresh: "\<forall>r \<in> set st. reservation_id r \<noteq> ''bp_req_'' @ fresh" using assms(5) by (metis imageI set_map)
      have "insert_reservation (new_reservation net snapshot q (in_utc now) fresh) st =
          Inr (st @ [new_reservation net snapshot q (in_utc now) fresh])"
        using False fresh by (auto simp: insert_reservation_def list_ex_iff)
      moreover have "pg_insert_reservation ses (new_reservation net snapshot q now fresh) st =
          Some (st @ [new_reservation net snapshot q (in_utc now) fresh])"
        using False fresh assms(3) by (auto simp: pg_insert_reservation_def list_ex_iff in_utc_def)
      ultimately show ?thesis using False 2 Nil cs
        by (simp add: pg_reserve_slot_def reserve_slot_def Let_def outcome_in_utc_def decision_in_utc_def in_utc_def)
    next
      case (Cons b rest)
      then obtain c rest' where cs: "cs = c # rest'" "same_time b c" "list_all2 same_time rest rest'"
        using 2(3) by (auto simp: list_all2_Cons1)
      show ?thesis using False 2 Cons cs
        by (simp add: pg_reserve_slot_def reserve_slot_def Let_def outcome_in_utc_def
            blocked_until_same [OF _ latest_of_same [OF cs(3,2)] now] option.rel_refl)
    qed
  qed (use False in \<open>simp add: pg_reserve_slot_def reserve_slot_def Let_def outcome_in_utc_def\<close>)
qed (simp add: pg_reserve_slot_def reserve_slot_def Let_def outcome_in_utc_def)


text \<open>One o'clock in a zone one hour east of Greenwich.\<close>

definition eastern_clock :: datetime where
  "eastern_clock = \<lparr>wall = 7200 * us_per_second, utcoffset = Some 3600\<rparr>"

lemma eastern_clock_utc: "in_utc eastern_clock = demo_clock 0"
  by (simp add: in_utc_def utc_of_def eastern_clock_def demo_clock_def instant_def us_per_second_def)

text \<open>A zone whose clock is set back from two hours to one hour east of Greenwich at the instant \<open>c\<close>.\<close>

definition autumn_session :: "int \<Rightarrow> pg_session" where
  "autumn_session c = \<lparr>zone_offset = (\<lambda>i. if i < c then 7200 else 3600),
     local_instant = (\<lambda>w. w - (if w < c + 3600 * us_per_second then 7200 else 3600) * us_per_second),
     wall_offset = (\<lambda>w. if w < c + 7200 * us_per_second then 7200 else 3600)\<rparr>"


text \<open>Without the hypothesis on the clock it fails: in the hour that is repeated, the minute after a reservation falls on
  a time that ZoneInfo reads as the first of the two, an hour earlier, so the limit of one request per minute does not
  hold a second request back.\<close>

theorem limit_lost_in_repeated_hour:
  "\<exists>st d. pg_reserve demo_net (\<lambda>x. 0) (autumn_session (instant (demo_clock 0))) demo_policy_snapshot
      (demo_reservation_request ''l'') [] (demo_clock 10) ''1'' [demo_reservation] = Inr (st, d)
    \<and> allowed d \<and> length (filter (in_window ''src'' (instant (demo_clock 10))) st) = 2"
proof -
  let ?ses = "autumn_session (instant (demo_clock 0))"
  have utc: "is_utc (demo_clock s)" for s by (simp add: is_utc_def demo_clock_def)
  have "pg_window_rows ?ses ''src'' (demo_clock 10) [demo_reservation] = [loaded_reservation ?ses demo_reservation]"
    using utc by (simp add: pg_window_rows_def demo_reservation_fields to_column_utc is_utc_def minute_us_def us_per_second_def)
  moreover have "dt_less (demo_clock 10) (zoned_add ?ses (from_column ?ses (demo_clock 0)) minute_us) = Inr False"
    by (simp add: dt_less_def demo_clock_def zoned_add_def from_column_def autumn_session_def Let_def instant_def minute_us_def
        us_per_second_def)
  moreover have "to_column ?ses (demo_clock 10) = demo_clock 10" by (rule to_column_utc [OF utc])
  ultimately show ?thesis
    by (simp add: pg_reserve_def demo_permitted matching_receipts_def retry_backoff_def pg_reserve_slot_def Let_def
        pg_rate_limit_until_def loaded_reservation_def demo_reservation_fields pg_insert_reservation_def in_window_def
        minute_us_def us_per_second_def)
qed

end
