(* ===== verification/Postgres_Automation.thy ===== *)
theory Postgres_Automation
  imports Postgres_Scheduler Source_Automation
begin

text \<open>
  The classes PostgresSourceAutomationStore and PostgresSourceTransportExecutor of
  src/ballotproof/postgres_source_control.py over the rows of \<open>Source_Automation\<close> and \<open>Source_Transport\<close>: the same
  operations with TIMESTAMPTZ columns.
\<close>

section \<open>Plans and runs\<close>

definition column_plan :: "pg_session \<Rightarrow> automation_plan \<Rightarrow> automation_plan" where
  "column_plan ses p = p\<lparr>al_next_run_at := to_column ses (al_next_run_at p),
     al_created_at := to_column ses (al_created_at p), al_updated_at := to_column ses (al_updated_at p)\<rparr>"

definition loaded_plan :: "pg_session \<Rightarrow> automation_plan \<Rightarrow> automation_plan" where
  "loaded_plan ses p = p\<lparr>al_next_run_at := from_column ses (al_next_run_at p),
     al_created_at := from_column ses (al_created_at p), al_updated_at := from_column ses (al_updated_at p)\<rparr>"

definition column_run :: "pg_session \<Rightarrow> automation_run \<Rightarrow> automation_run" where
  "column_run ses r = r\<lparr>au_scheduled_for := to_column ses (au_scheduled_for r),
     au_started_at := to_column ses (au_started_at r), au_completed_at := to_column ses (au_completed_at r)\<rparr>"

definition loaded_run :: "pg_session \<Rightarrow> automation_run \<Rightarrow> automation_run" where
  "loaded_run ses r = r\<lparr>au_scheduled_for := from_column ses (au_scheduled_for r),
     au_started_at := from_column ses (au_started_at r), au_completed_at := from_column ses (au_completed_at r)\<rparr>"

definition pg_create_plan :: "(string \<Rightarrow> string) \<Rightarrow> pg_session \<Rightarrow> policy_snapshot \<Rightarrow> automation_request \<Rightarrow> datetime \<Rightarrow> string
    \<Rightarrow> automation_store \<Rightarrow> (automation_store \<times> automation_plan) result" where
  "pg_create_plan upper ses s q now fresh st = (let plan = new_plan upper q now fresh in guarded
     [(ps_source_id s \<noteq> aq_source_id q, ValueError ''automation source_id does not match policy snapshot''),
      (ps_version s \<noteq> aq_policy_version q, ValueError ''automation policy version does not match policy snapshot''),
      (ps_hash s \<noteq> aq_policy_hash q, ValueError ''automation policy hash does not match policy snapshot''),
      (access_status (ps_policy s) \<noteq> APPROVED,
       PermissionError ''automatic acquisition requires an approved source policy''),
      (list_ex (\<lambda>p. al_plan_id p = al_plan_id plan) (as_plans st), IntegrityError ''source_automation_plans.plan_id'')]
     (st\<lparr>as_plans := as_plans st @ [column_plan ses plan]\<rparr>, plan))"

definition pg_plans :: "pg_session \<Rightarrow> string option \<Rightarrow> automation_store \<Rightarrow> automation_plan list" where
  "pg_plans ses src st = map (loaded_plan ses) (sort_key (\<lambda>p. (instant (al_created_at p), al_plan_id p))
     (case src of None \<Rightarrow> as_plans st | Some s \<Rightarrow> filter (\<lambda>p. al_source_id p = s) (as_plans st)))"

definition pg_get_plan :: "pg_session \<Rightarrow> string \<Rightarrow> automation_store \<Rightarrow> automation_plan result" where
  "pg_get_plan ses pid st = (case find (\<lambda>p. al_plan_id p = pid) (as_plans st) of
       None \<Rightarrow> raise (KeyError ''Unknown automation plan: '') | Some p \<Rightarrow> return (loaded_plan ses p))"

text \<open>A negative LIMIT is an error of the server.\<close>

definition pg_due_plans :: "pg_session \<Rightarrow> datetime \<Rightarrow> int \<Rightarrow> automation_store \<Rightarrow> automation_plan list result" where
  "pg_due_plans ses now limit st =
     (if limit < 0 then raise (DataError ''LIMIT must not be negative'')
      else return (map (loaded_plan ses) (take (nat limit) (sort_key (\<lambda>p. (instant (al_next_run_at p), al_plan_id p))
        (filter (\<lambda>p. al_enabled p \<and> instant (al_next_run_at p) \<le> instant (to_column ses now)) (as_plans st))))))"

text \<open>\<open>UPDATE ... RETURNING plan_id\<close> and reading the plan back.\<close>

definition pg_update_plan :: "pg_session \<Rightarrow> string \<Rightarrow> (automation_plan \<Rightarrow> automation_plan) \<Rightarrow> automation_store
    \<Rightarrow> (automation_store \<times> automation_plan) result" where
  "pg_update_plan ses pid f st =
     (if \<not> list_ex (\<lambda>p. al_plan_id p = pid) (as_plans st) then raise (KeyError ''Unknown automation plan: '')
      else bind_result (pg_get_plan ses pid (update_plan pid f st)) (\<lambda>p. return (update_plan pid f st, p)))"

definition pg_set_enabled :: "pg_session \<Rightarrow> string \<Rightarrow> bool \<Rightarrow> datetime \<Rightarrow> automation_store
    \<Rightarrow> (automation_store \<times> automation_plan) result" where
  "pg_set_enabled ses pid enabled now =
     pg_update_plan ses pid (\<lambda>p. p\<lparr>al_enabled := enabled, al_updated_at := to_column ses now\<rparr>)"

definition pg_defer_plan :: "pg_session \<Rightarrow> string \<Rightarrow> datetime \<Rightarrow> datetime \<Rightarrow> automation_store
    \<Rightarrow> (automation_store \<times> automation_plan) result" where
  "pg_defer_plan ses pid next now =
     pg_update_plan ses pid (\<lambda>p. p\<lparr>al_next_run_at := to_column ses next, al_updated_at := to_column ses now\<rparr>)"

text \<open>The loop of \<open>advance\<close> for a plan that was read in the session, as the runner passes it. Python keeps every offset
  below a day, so the last conjunct of the condition follows from the first (\<open>zoned_advance_loop\<close>).\<close>

function zoned_advance :: "pg_session \<Rightarrow> int \<Rightarrow> datetime \<Rightarrow> datetime \<Rightarrow> datetime" where
  "zoned_advance ses step now t = (if instant t \<le> instant now \<and> 0 < step \<and> wall t < instant now + us_per_day
     then zoned_advance ses step now (zoned_add ses t step) else t)"
  by pat_completeness auto
termination by (relation "measure (\<lambda>(ses, step, now, t). nat (instant now + us_per_day - wall t))") auto

declare zoned_advance.simps [simp del]

definition pg_advance :: "pg_session \<Rightarrow> automation_plan \<Rightarrow> datetime \<Rightarrow> datetime \<Rightarrow> automation_store
    \<Rightarrow> (automation_store \<times> automation_plan) result" where
  "pg_advance ses plan evaluated now st =
     bind_result (dt_le (al_next_run_at plan) evaluated) (\<lambda>_.
       pg_defer_plan ses (al_plan_id plan)
         (zoned_advance ses (al_interval_seconds plan * us_per_second) evaluated (al_next_run_at plan)) now st)"

definition pg_add_run :: "pg_session \<Rightarrow> automation_run \<Rightarrow> automation_store \<Rightarrow> automation_store result" where
  "pg_add_run ses run st = guarded
     [(list_ex (\<lambda>r. au_run_id r = au_run_id run) (as_runs st), IntegrityError ''source_automation_runs.run_id'')]
     (st\<lparr>as_runs := as_runs st @ [column_run ses run]\<rparr>)"

definition pg_runs :: "pg_session \<Rightarrow> string \<Rightarrow> automation_store \<Rightarrow> automation_run list" where
  "pg_runs ses pid st = map (loaded_run ses) (sort_key (\<lambda>r. (instant (au_scheduled_for r), au_run_id r))
     (filter (\<lambda>r. au_plan_id r = pid) (as_runs st)))"

section \<open>Executions\<close>

definition loaded_execution :: "pg_session \<Rightarrow> transport_execution \<Rightarrow> transport_execution" where
  "loaded_execution ses x = x\<lparr>ex_started_at := from_column ses (ex_started_at x),
     ex_completed_at := map_option (from_column ses) (ex_completed_at x)\<rparr>"

definition pg_find_execution :: "pg_session \<Rightarrow> string \<Rightarrow> transport_execution list \<Rightarrow> transport_execution result" where
  "pg_find_execution ses rid rows = bind_result (find_execution rid rows) (\<lambda>x. return (loaded_execution ses x))"

text \<open>\<open>ON CONFLICT (reservation_id) DO NOTHING\<close>, and the error when no row came back.\<close>

definition pg_claim :: "pg_session \<Rightarrow> reservation \<Rightarrow> transport_provenance \<Rightarrow> datetime \<Rightarrow> transport_execution list
    \<Rightarrow> transport_execution list result" where
  "pg_claim ses r prov started rows =
     (let row = \<lparr>ex_reservation_id = reservation_id r, ex_source_id = re_source_id r, ex_request_key = re_request_key r,
        ex_attempt = re_attempt r, ex_policy_hash = re_policy_hash r, ex_provenance = Some prov, ex_status = Claimed,
        ex_started_at = to_column ses started, ex_completed_at = None, ex_receipt_id = None, ex_error_code = None\<rparr>;
          inserted = (if list_ex (\<lambda>x. ex_reservation_id x = reservation_id r) rows then None else Some (rows @ [row]))
      in case inserted of
           None \<Rightarrow> raise (ValueError ''reservation has already been consumed'') | Some rows' \<Rightarrow> return rows')"

definition pg_finish :: "pg_session \<Rightarrow> string \<Rightarrow> execution_status \<Rightarrow> string option \<Rightarrow> string option \<Rightarrow> datetime
    \<Rightarrow> transport_execution list \<Rightarrow> transport_execution list" where
  "pg_finish ses rid status receipt err now rows =
     map (\<lambda>x. if ex_reservation_id x = rid then x\<lparr>ex_status := status, ex_completed_at := Some (to_column ses now),
       ex_receipt_id := receipt, ex_error_code := err\<rparr> else x) rows"

section \<open>The stores refine the file stores at UTC\<close>

definition column_ok :: "datetime \<Rightarrow> bool" where
  "column_ok t \<longleftrightarrow> is_utc t \<and> datetime_ok t"

definition automation_columns_ok :: "automation_store \<Rightarrow> bool" where
  "automation_columns_ok st \<longleftrightarrow> list_all (\<lambda>p. column_ok (al_next_run_at p) \<and> column_ok (al_created_at p)) (as_plans st)
     \<and> list_all (\<lambda>r. column_ok (au_scheduled_for r)) (as_runs st)"

text \<open>Text order and order of instants, with a second key.\<close>

lemma column_order:
  assumes "column_ok s" "column_ok t"
  shows "(instant s, x) \<le> (instant t, y) \<longleftrightarrow> (isoformat s, x) \<le> (isoformat t, y :: string)"
proof -
  have "isoformat s = isoformat t \<longleftrightarrow> instant s = instant t"
    using assms isoformat_less [of s t] isoformat_less [of t s] unfolding column_ok_def by (metis less_irrefl linorder_neq_iff)
  then show ?thesis using assms isoformat_less [of s t] by (auto simp: column_ok_def less_eq_prod_def)
qed

lemma to_column_in_utc: "utcoffset t \<noteq> None \<Longrightarrow> to_column ses t = in_utc t"
  by (simp add: in_utc_def)

lemma pg_due_plans_refines:
  assumes "automation_columns_ok st" "utcoffset now \<noteq> None" "datetime_ok (in_utc now)" "0 \<le> limit"
  shows "pg_due_plans ses now limit st = return (map (loaded_plan ses) (due_plans (in_utc now) limit st))"
proof -
  have now: "column_ok (in_utc now)" using assms(3) by (simp add: column_ok_def in_utc_def)
  have ok: "column_ok (al_next_run_at p)" if "p \<in> set (as_plans st)" for p
    using assms(1) that by (simp add: automation_columns_ok_def list_all_iff)
  have f: "filter (\<lambda>p. al_enabled p \<and> instant (al_next_run_at p) \<le> instant (to_column ses now)) (as_plans st) =
      filter (\<lambda>p. al_enabled p \<and> isoformat (al_next_run_at p) \<le> isoformat (in_utc now)) (as_plans st)"
    using now ok assms(2) isoformat_less by (intro filter_cong) (auto simp: column_ok_def to_column_in_utc)
  have "sort_key (\<lambda>p. (instant (al_next_run_at p), al_plan_id p)) (filter P (as_plans st)) =
      sort_key (\<lambda>p. (isoformat (al_next_run_at p), al_plan_id p)) (filter P (as_plans st))" for P
    by (rule sort_key_order_cong) (use ok column_order in auto)
  then show ?thesis using assms(4) by (simp add: pg_due_plans_def due_plans_def Let_def f)
qed

lemma pg_plans_refines:
  assumes "automation_columns_ok st"
  shows "pg_plans ses src st = map (loaded_plan ses) (plans src st)"
proof -
  have ok: "column_ok (al_created_at p)" if "p \<in> set (as_plans st)" for p
    using assms that by (simp add: automation_columns_ok_def list_all_iff)
  show ?thesis unfolding pg_plans_def plans_def
    by (intro arg_cong [where f = "map (loaded_plan ses)"] sort_key_order_cong)
      (use ok column_order in \<open>auto split: option.splits\<close>)
qed

lemma pg_runs_refines:
  assumes "automation_columns_ok st"
  shows "pg_runs ses pid st = map (loaded_run ses) (runs pid st)"
proof -
  have ok: "column_ok (au_scheduled_for r)" if "r \<in> set (as_runs st)" for r
    using assms that by (simp add: automation_columns_ok_def list_all_iff)
  show ?thesis unfolding pg_runs_def runs_def
    by (intro arg_cong [where f = "map (loaded_run ses)"] sort_key_order_cong) (use ok column_order in auto)
qed

definition plan_outcome :: "pg_session \<Rightarrow> (automation_store \<times> automation_plan) result \<Rightarrow> (automation_store \<times> automation_plan) result" where
  "plan_outcome ses x = map_sum id (map_prod id (loaded_plan ses)) x"

lemma get_plan_unknown:
  "\<not> list_ex (\<lambda>p. al_plan_id p = pid) (as_plans st) \<Longrightarrow> (\<And>p. al_plan_id (f p) = al_plan_id p) \<Longrightarrow>
    get_plan pid (update_plan pid f st) = raise (KeyError ''Unknown automation plan: '')"
  by (auto simp: get_plan_def update_plan_def find_None_iff list_ex_iff split: option.split)

lemma pg_update_plan_refines:
  assumes "\<And>p. al_plan_id (f p) = al_plan_id p"
  shows "pg_update_plan ses pid f st =
    plan_outcome ses (bind_result (get_plan pid (update_plan pid f st)) (\<lambda>p. return (update_plan pid f st, p)))"
  using get_plan_unknown [of pid st f] assms
  by (auto simp: pg_update_plan_def plan_outcome_def pg_get_plan_def get_plan_def split: option.split)

lemma pg_set_enabled_refines:
  assumes "utcoffset now \<noteq> None"
  shows "pg_set_enabled ses pid flag now st = plan_outcome ses (set_enabled pid flag (in_utc now) st)"
  using get_plan_unknown [of pid st "\<lambda>p. p\<lparr>al_enabled := flag, al_updated_at := in_utc now\<rparr>"]
  unfolding pg_set_enabled_def set_enabled_def to_column_in_utc [OF assms] Let_def
  by (subst pg_update_plan_refines) auto

lemma pg_defer_plan_refines:
  assumes "utcoffset next \<noteq> None" "utcoffset now \<noteq> None"
  shows "pg_defer_plan ses pid next now st = plan_outcome ses (defer_plan pid (in_utc next) (in_utc now) st)"
  unfolding pg_defer_plan_def defer_plan_def to_column_in_utc [OF assms(1)] to_column_in_utc [OF assms(2)] Let_def
  by (rule pg_update_plan_refines) simp

lemma zoned_advance_loop:
  assumes "offset_ok t"
  shows "zoned_advance ses step now t = (if instant t \<le> instant now \<and> 0 < step
     then zoned_advance ses step now (zoned_add ses t step) else t)"
proof -
  have "wall t < instant now + us_per_day" if "instant t \<le> instant now"
    using assms that
    by (auto simp: offset_ok_def instant_def us_per_day_def us_per_second_def split: option.splits)
  then show ?thesis by (subst zoned_advance.simps) auto
qed

lemma in_utc_add: "in_utc (add_us t us) = add_us (in_utc t) us"
  by (simp add: in_utc_def utc_of_def add_us_def instant_def)

text \<open>While the offset \<open>s\<close> is kept, the loop walks through the same instants as at a fixed offset.\<close>

lemma zoned_advance_steady:
  assumes "\<bar>s\<bar> < 86400" "utcoffset t = Some s"
    "\<forall>w. wall t \<le> w \<and> w \<le> instant now + s * us_per_second + step \<longrightarrow> wall_offset ses w = s"
  shows "utcoffset (zoned_advance ses step now t) = Some s
    \<and> in_utc (zoned_advance ses step now t) = advance_to step (in_utc now) (in_utc t)"
  using assms(2,3)
proof (induction ses step now t rule: zoned_advance.induct)
  case (1 ses step now t)
  have ok: "offset_ok t" using 1(2) assms(1) by (simp add: offset_ok_def)
  show ?case
  proof (cases "instant t \<le> instant now \<and> 0 < step")
    case True
    have w: "instant t = wall t - s * us_per_second" using 1(2) by (simp add: instant_def)
    have "zoned_add ses t step = add_us t step"
      using True 1(2,3) w by (simp add: zoned_add_def add_us_def Let_def)
    moreover have "wall t < instant now + us_per_day"
      using True w assms(1) unfolding us_per_day_def us_per_second_def by linarith
    moreover have "zoned_advance ses step now t = zoned_advance ses step now (zoned_add ses t step)"
      using True zoned_advance_loop [OF ok] by simp
    moreover have "advance_to step (in_utc now) (in_utc t) = advance_to step (in_utc now) (add_us (in_utc t) step)"
      using True by (subst advance_to.simps) simp
    moreover have "in_utc (add_us t step) = add_us (in_utc t) step" by (rule in_utc_add)
    moreover have "\<forall>w. wall (add_us t step) \<le> w \<and> w \<le> instant now + s * us_per_second + step \<longrightarrow> wall_offset ses w = s"
      using 1(3) True by (simp add: add_us_def)
    ultimately show ?thesis using 1(1) True 1(2,3) by simp
  next
    case False
    then have "advance_to step (in_utc now) (in_utc t) = in_utc t" by (subst advance_to.simps) auto
    moreover have "zoned_advance ses step now t = t" unfolding zoned_advance_loop [OF ok] using False by auto
    ultimately show ?thesis using 1(2) by simp
  qed
qed

text \<open>The clock of the zone is not changed between the time of the plan and its next time after \<open>now\<close>.\<close>

definition steady_plan :: "pg_session \<Rightarrow> automation_plan \<Rightarrow> datetime \<Rightarrow> bool" where
  "steady_plan ses p now \<longleftrightarrow> \<bar>zone_offset ses (instant (al_next_run_at p))\<bar> < 86400
     \<and> keeps_offset ses (al_next_run_at p)
         (instant now - instant (al_next_run_at p) + al_interval_seconds p * us_per_second)"

lemma pg_advance_refines:
  assumes "is_utc (al_next_run_at p)" "utcoffset evaluated \<noteq> None" "utcoffset now \<noteq> None" "steady_plan ses p evaluated"
  shows "pg_advance ses (loaded_plan ses p) evaluated now st = plan_outcome ses (advance p (in_utc evaluated) (in_utc now) st)"
proof -
  let ?c = "al_next_run_at p" and ?step = "al_interval_seconds p * us_per_second"
  let ?t = "from_column ses ?c" and ?s = "zone_offset ses (instant (al_next_run_at p))"
  let ?a = "zoned_advance ses ?step evaluated ?t"
  have wall: "wall ?t = instant ?c + ?s * us_per_second" by (simp add: from_column_def Let_def)
  have utc: "in_utc ?t = ?c" using assms(1) by (simp add: in_utc_def utc_of_instant)
  have "utcoffset ?a = Some ?s \<and> in_utc ?a = advance_to ?step (in_utc evaluated) (in_utc ?t)"
    by (rule zoned_advance_steady) (use assms(4) in \<open>auto simp: steady_plan_def keeps_offset_def wall\<close>)
  then have a: "utcoffset ?a = Some ?s \<and> in_utc ?a = advance_to ?step (in_utc evaluated) ?c" by (simp only: utc)
  have "dt_le ?t evaluated = Inr (instant ?c \<le> instant evaluated)"
    "dt_le ?c (in_utc evaluated) = Inr (instant ?c \<le> instant evaluated)"
    using assms(1,2) by (auto simp: dt_le_def is_utc_def)
  then show ?thesis
    using pg_defer_plan_refines [of ?a now] a assms(3) by (simp add: pg_advance_def advance_def loaded_plan_def)
qed

lemma pg_claim_refines:
  "utcoffset started \<noteq> None \<Longrightarrow> pg_claim ses r prov started rows = claim r prov (in_utc started) rows"
  by (simp add: pg_claim_def claim_def in_utc_def Let_def)

lemma pg_finish_refines:
  "utcoffset now \<noteq> None \<Longrightarrow> pg_finish ses rid status receipt err now rows = finish rid status receipt err (in_utc now) rows"
  by (simp add: pg_finish_def finish_def in_utc_def)


definition morning_plan :: automation_plan where
  "morning_plan = \<lparr>al_plan_id = ''p'', al_source_id = ''src'', al_policy_version = 1, al_policy_hash = ''h'',
     al_request_url = ''https://a.org/x'', al_request_method = ''GET'', al_interval_seconds = 3600,
     al_next_run_at = demo_clock 0, al_enabled = True, al_created_at = demo_clock 0, al_updated_at = demo_clock 0\<rparr>"

abbreviation morning_store :: automation_store where
  "morning_store \<equiv> \<lparr>as_plans = [morning_plan], as_runs = []\<rparr>"


text \<open>Without the hypothesis on the clock it fails: a plan of every minute that is due in the last minute before the
  repeated hour ends is next due sixty-one minutes later.\<close>

theorem plan_skips_repeated_hour:
  assumes "i = c - 30 * us_per_second"
  shows "instant (zoned_advance (autumn_session c) minute_us (utc_of i) (from_column (autumn_session c) (utc_of i))) =
    i + 61 * minute_us"
proof -
  let ?t = "from_column (autumn_session c) (utc_of i)"
  have t: "?t = \<lparr>wall = i + 7200 * us_per_second, utcoffset = Some 7200\<rparr>"
    using assms by (simp add: from_column_def autumn_session_def us_per_second_def)
  have u: "zoned_add (autumn_session c) ?t minute_us = \<lparr>wall = i + 7200 * us_per_second + minute_us, utcoffset = Some 3600\<rparr>"
    using assms unfolding t by (simp add: zoned_add_def autumn_session_def us_per_second_def minute_us_def)
  have ok: "offset_ok ?t" "offset_ok (zoned_add (autumn_session c) ?t minute_us)"
    by (simp add: t offset_ok_def, simp only: u offset_ok_def) simp
  have "instant ?t = i" "0 < minute_us" by (simp_all add: minute_us_def us_per_second_def)
  moreover have "i < instant (zoned_add (autumn_session c) ?t minute_us)"
    unfolding u by (simp add: instant_def minute_us_def us_per_second_def)
  ultimately have "zoned_advance (autumn_session c) minute_us (utc_of i) ?t = zoned_add (autumn_session c) ?t minute_us"
    using zoned_advance_loop [OF ok(1)] zoned_advance_loop [OF ok(2)] by simp
  then show ?thesis unfolding u by (simp add: instant_def minute_us_def us_per_second_def)
qed

end
