(* ===== verification/Postgres_Stores.thy ===== *)
theory Postgres_Stores
  imports Application_Ledger
begin

text \<open>
  src/ballotproof/postgres_evidence_versions.py, postgres_evidence_extractions.py and postgres_registry_store.py: the
  evidence and registry stores over the ledger of application records. A payload is written as the pydantic dump of its
  value and read back by \<open>model_validate\<close>; both, and the JSONB column in between, are the fields of \<open>pg_codec\<close>. A
  transaction is one step. Text columns compare by code point (collation C). \<open>now\<close> is the clock of the database in the
  time zone of the session.
\<close>

section \<open>Columns of a payload\<close>

record pg_codec =
  cd_time :: "datetime \<Rightarrow> string"
  cd_float :: "string \<Rightarrow> string"
  cd_jsonb :: jsonb
  read_version :: "(string \<times> json) list \<Rightarrow> evidence_version result"
  read_attestation :: "(string \<times> json) list \<Rightarrow> signed_attestation result"
  read_extraction :: "(string \<times> json) list \<Rightarrow> extraction_record result"
  read_review :: "(string \<times> json) list \<Rightarrow> extraction_review result"
  read_snapshot :: "(string \<times> json) list \<Rightarrow> registry_snapshot result"

fun json_at :: "string list \<Rightarrow> json \<Rightarrow> json option" where
  "json_at [] v = Some v"
| "json_at (k # ks) v = (case v of
      JObj kvs \<Rightarrow> (case dict_get kvs k of None \<Rightarrow> None | Some w \<Rightarrow> json_at ks w)
    | _ \<Rightarrow> None)"

text \<open>\<open>payload_json->'a'->>'b'\<close> and \<open>CAST(... AS INTEGER)\<close>. The columns the queries use hold text and integers; a column
  of another kind counts as NULL.\<close>

definition text_at :: "string list \<Rightarrow> (string \<times> json) list \<Rightarrow> string option" where
  "text_at path p = (case json_at path (JObj p) of Some (JStr s) \<Rightarrow> Some s | Some (JInt i) \<Rightarrow> Some (int_str i) | _ \<Rightarrow> None)"

definition int_at :: "string list \<Rightarrow> (string \<times> json) list \<Rightarrow> int option" where
  "int_at path p = (case json_at path (JObj p) of Some (JInt i) \<Rightarrow> Some i | _ \<Rightarrow> None)"

text \<open>ORDER BY puts NULL last.\<close>

definition nulls_last :: "'a option \<Rightarrow> 'a list" where
  "nulls_last x = (case x of None \<Rightarrow> [] | Some a \<Rightarrow> [a])"

definition rows_of :: "release_record_type \<Rightarrow> ledger \<Rightarrow> ledger_row list" where
  "rows_of ty st = filter (\<lambda>q. record_type (lg_record q) = ty) (lg_rows st)"

abbreviation row_payload :: "ledger_row \<Rightarrow> (string \<times> json) list" where
  "row_payload q \<equiv> release_payload (lg_record q)"

definition keyed_row :: "release_record_type \<Rightarrow> string \<Rightarrow> ledger \<Rightarrow> ledger_row option" where
  "keyed_row ty key st = find (\<lambda>q. release_key (lg_record q) = key) (rows_of ty st)"

section \<open>Evidence versions\<close>

definition pg_version_fields :: "(datetime \<Rightarrow> string) \<Rightarrow> evidence_version \<Rightarrow> (string \<times> json) list" where
  "pg_version_fields dt r =
     [(''evidence_id'', JStr (evidence_id r)), (''election_id'', JStr (election_id r)),
      (''polling_unit_code'', JStr (ev_polling_unit_code r)), (''document_type'', JStr (ev_document_type r)),
      (''source'', source_json (ev_source r)), (''version'', JInt (version r)),
      (''artifact_sha256'', JStr (artifact_sha256 r)), (''artifact_size_bytes'', JInt (artifact_size_bytes r)),
      (''media_type'', json_opt JStr (evidence_version.media_type r)), (''filename'', json_opt JStr (filename r)),
      (''observed_at'', JStr (dt (observed_at r))), (''stored_at'', JStr (dt (stored_at r))),
      (''previous_record_hash'', json_opt JStr (previous_record_hash r)), (''record_hash'', JStr (record_hash r))]"

definition pg_version_record :: "pg_codec \<Rightarrow> evidence_version \<Rightarrow> release_record" where
  "pg_version_record cd r = \<lparr>record_type = evidence_version_record, release_key = version_key (evidence_id r) (version r),
     release_payload = pg_version_fields (cd_time cd) r\<rparr>"

text \<open>The rows of an evidence id in the order of their versions.\<close>

definition evidence_rows :: "string \<Rightarrow> ledger \<Rightarrow> ledger_row list" where
  "evidence_rows eid st = sort_key (\<lambda>q. (int_at [''version''] (row_payload q) = None, nulls_last (int_at [''version''] (row_payload q))))
     (filter (\<lambda>q. text_at [''evidence_id''] (row_payload q) = Some eid) (rows_of evidence_version_record st))"

definition evidence_row :: "string \<Rightarrow> int \<Rightarrow> ledger \<Rightarrow> ledger_row option" where
  "evidence_row eid v st = find (\<lambda>q. text_at [''evidence_id''] (row_payload q) = Some eid
     \<and> int_at [''version''] (row_payload q) = Some v) (rows_of evidence_version_record st)"

definition pg_previous :: "pg_codec \<Rightarrow> version_args \<Rightarrow> string \<Rightarrow> ledger \<Rightarrow> (int \<times> string option) result" where
  "pg_previous cd a eid st = (let rows = evidence_rows eid st in
     if rows = [] then return (1, None)
     else bind_result (read_version cd (row_payload (last rows))) (\<lambda>p.
       if lg_election_id (last rows) \<noteq> va_election_id a then raise (ValueError ''evidence_id cannot move between elections'')
       else if ev_polling_unit_code p \<noteq> va_polling_unit_code a
       then raise (ValueError ''evidence_id cannot move between polling units'')
       else if ev_document_type p \<noteq> va_document_type a then raise (ValueError ''evidence_id cannot change document type'')
       else return (version p + 1, Some (record_hash p))))"

text \<open>An empty \<open>evidence_id\<close> is replaced like a missing one.\<close>

definition evidence_id_of :: "version_args \<Rightarrow> string \<Rightarrow> string" where
  "evidence_id_of a fresh = (case va_evidence_id a of
       None \<Rightarrow> ''bp_ev_'' @ fresh
     | Some e \<Rightarrow> if e = [] then ''bp_ev_'' @ fresh else e)"

definition pg_append_version :: "pg_codec \<Rightarrow> bool \<Rightarrow> version_args \<Rightarrow> datetime \<Rightarrow> string \<Rightarrow> ledger
    \<Rightarrow> (ledger \<times> evidence_version) result" where
  "pg_append_version cd required a now fresh st = (let eid = evidence_id_of a fresh in
     bind_result (assert_write_enabled required (va_election_id a) st) (\<lambda>_.
     bind_result (pg_previous cd a eid st) (\<lambda>(v, prev).
       let r = version_record a now eid v prev in
       if \<not> evidence_version_fields_ok r then raise field_error
       else bind_result (insert_record (cd_jsonb cd) (va_election_id a) (pg_version_record cd r) st) (\<lambda>st'. return (st', r)))))"

definition pg_get_version :: "pg_codec \<Rightarrow> ledger \<Rightarrow> string \<Rightarrow> int \<Rightarrow> evidence_version result" where
  "pg_get_version cd st eid v = (case evidence_row eid v st of
       None \<Rightarrow> raise (KeyError ''Unknown evidence version: '')
     | Some q \<Rightarrow> read_version cd (row_payload q))"

definition pg_history :: "pg_codec \<Rightarrow> ledger \<Rightarrow> string \<Rightarrow> evidence_version list result" where
  "pg_history cd st eid = map_result (\<lambda>q. read_version cd (row_payload q)) (evidence_rows eid st)"

definition pg_verify_chain :: "pg_codec \<Rightarrow> ledger \<Rightarrow> string \<Rightarrow> chain_verification result" where
  "pg_verify_chain cd st eid = bind_result (pg_history cd st eid) (\<lambda>versions. return
     (case chain_failure None versions of
        Some r \<Rightarrow> \<lparr>cv_evidence_id = eid, cv_valid = False, versions_checked = version r, failure_version = Some (version r)\<rparr>
      | None \<Rightarrow> \<lparr>cv_evidence_id = eid, cv_valid = True, versions_checked = int (length versions), failure_version = None\<rparr>))"

section \<open>Attestations\<close>

definition pg_attestation_record :: "pg_codec \<Rightarrow> signed_attestation \<Rightarrow> release_record result" where
  "pg_attestation_record cd a = bind_result (encode_document (JObj (signed_attestation_fields (cd_time cd) a))) (\<lambda>b.
     return \<lparr>record_type = attestation_record,
       release_key = version_key (ap_evidence_id (sa_payload a)) (ap_evidence_version (sa_payload a)) @ '':sha256:'' @ sha256_bytes b,
       release_payload = signed_attestation_fields (cd_time cd) a\<rparr>)"

definition pg_add_attestation :: "pg_codec \<Rightarrow> bool \<Rightarrow> signed_attestation \<Rightarrow> ledger \<Rightarrow> ledger result" where
  "pg_add_attestation cd required a st =
     (case evidence_row (ap_evidence_id (sa_payload a)) (ap_evidence_version (sa_payload a)) st of
       None \<Rightarrow> raise (KeyError ''Attestation references an unknown evidence version'')
     | Some q \<Rightarrow> bind_result (read_version cd (row_payload q)) (\<lambda>ev.
         bind_result (assert_write_enabled required (election_id ev) st) (\<lambda>_.
           if record_hash ev \<noteq> ap_record_hash (sa_payload a)
           then raise (ValueError ''Attestation record_hash does not match stored evidence'')
           else bind_result (pg_attestation_record cd a) (\<lambda>r. insert_record (cd_jsonb cd) (election_id ev) r st))))"

definition pg_attestations :: "pg_codec \<Rightarrow> ledger \<Rightarrow> string \<Rightarrow> int \<Rightarrow> signed_attestation list result" where
  "pg_attestations cd st eid v = map_result (\<lambda>q. read_attestation cd (row_payload q))
     (sort_key (\<lambda>q. release_key (lg_record q))
       (filter (\<lambda>q. text_at [''payload'', ''evidence_id''] (row_payload q) = Some eid
           \<and> int_at [''payload'', ''evidence_version''] (row_payload q) = Some v) (rows_of attestation_record st)))"

section \<open>Extractions and reviews\<close>

definition pg_get_extraction :: "pg_codec \<Rightarrow> ledger \<Rightarrow> string \<Rightarrow> extraction_record result" where
  "pg_get_extraction cd st xid = (case keyed_row extraction_record_type xid st of
       None \<Rightarrow> raise (KeyError ''Unknown extraction_id: '')
     | Some q \<Rightarrow> read_extraction cd (row_payload q))"

definition pg_check_superseded :: "pg_codec \<Rightarrow> extraction_record \<Rightarrow> ledger \<Rightarrow> unit result" where
  "pg_check_superseded cd args st = (case supersedes_extraction_id args of
       None \<Rightarrow> return ()
     | Some xid \<Rightarrow> bind_result (pg_get_extraction cd st xid) (\<lambda>superseded.
         if ex_evidence_id superseded \<noteq> ex_evidence_id args \<or> ex_evidence_version superseded \<noteq> ex_evidence_version args
         then raise (ValueError ''Superseded extraction must reference the same evidence version'')
         else return ()))"

definition pg_extraction_record :: "pg_codec \<Rightarrow> extraction_record \<Rightarrow> release_record" where
  "pg_extraction_record cd x = \<lparr>record_type = extraction_record_type, release_key = extraction_id x,
     release_payload = extraction_fields (cd_time cd) (cd_float cd) x\<rparr>"

text \<open>The arguments are the fields of the record it stores; its id and \<open>stored_at\<close> are set here.\<close>

definition pg_add_extraction :: "pg_codec \<Rightarrow> bool \<Rightarrow> extraction_record \<Rightarrow> datetime \<Rightarrow> string \<Rightarrow> ledger
    \<Rightarrow> (ledger \<times> extraction_record) result" where
  "pg_add_extraction cd required args now fresh st =
     (case evidence_row (ex_evidence_id args) (ex_evidence_version args) st of
       None \<Rightarrow> raise (KeyError ''Unknown evidence version: '')
     | Some q \<Rightarrow> bind_result (read_version cd (row_payload q)) (\<lambda>ev.
         bind_result (assert_write_enabled required (election_id ev) st) (\<lambda>_.
           if record_hash ev \<noteq> ex_record_hash args
           then raise (ValueError ''Extraction record_hash does not match stored evidence'')
           else bind_result (pg_check_superseded cd args st) (\<lambda>_.
             let x = args\<lparr>extraction_id := ''bp_ex_'' @ fresh, ex_stored_at := now\<rparr> in
             if ex_evidence_version x < 1 \<or> \<not> is_sha256_hex (ex_record_hash x) \<or> ex_fields x = [] then raise field_error
             else bind_result (insert_record (cd_jsonb cd) (election_id ev) (pg_extraction_record cd x) st)
               (\<lambda>st'. return (st', x))))))"

definition stored_order :: "ledger_row \<Rightarrow> bool \<times> string list \<times> string" where
  "stored_order q = (text_at [''stored_at''] (row_payload q) = None, nulls_last (text_at [''stored_at''] (row_payload q)),
     release_key (lg_record q))"

definition pg_extractions :: "pg_codec \<Rightarrow> ledger \<Rightarrow> string \<Rightarrow> int \<Rightarrow> extraction_record list result" where
  "pg_extractions cd st eid v = map_result (\<lambda>q. read_extraction cd (row_payload q))
     (sort_key stored_order (filter (\<lambda>q. text_at [''evidence_id''] (row_payload q) = Some eid
        \<and> int_at [''evidence_version''] (row_payload q) = Some v) (rows_of extraction_record_type st)))"

definition pg_review_record :: "pg_codec \<Rightarrow> extraction_review \<Rightarrow> release_record" where
  "pg_review_record cd v = \<lparr>record_type = extraction_review_record, release_key = review_id v,
     release_payload = review_fields (cd_time cd) v\<rparr>"

text \<open>The review takes the id it was asked for.\<close>

definition pg_add_review :: "pg_codec \<Rightarrow> bool \<Rightarrow> string \<Rightarrow> extraction_review_submission \<Rightarrow> datetime \<Rightarrow> string \<Rightarrow> ledger
    \<Rightarrow> (ledger \<times> extraction_review) result" where
  "pg_add_review cd required xid sub now fresh st = (case keyed_row extraction_record_type xid st of
       None \<Rightarrow> raise (KeyError ''Unknown extraction_id: '')
     | Some q \<Rightarrow> bind_result (read_extraction cd (row_payload q)) (\<lambda>x.
         bind_result (assert_write_enabled required (lg_election_id q) st) (\<lambda>_.
           let known_fields = set (map field_name (ex_fields x));
               reviewed_fields = set (map fr_field_name (rs_fields sub));
               v = (review_record x sub now fresh)\<lparr>rv_extraction_id := xid\<rparr>
           in if sorted_set (reviewed_fields - known_fields) \<noteq> []
              then raise (ValueError ''Review references unknown extracted fields: '')
              else bind_result (insert_record (cd_jsonb cd) (lg_election_id q) (pg_review_record cd v) st)
                (\<lambda>st'. return (st', v)))))"

definition pg_extraction_reviews :: "pg_codec \<Rightarrow> ledger \<Rightarrow> string \<Rightarrow> extraction_review list result" where
  "pg_extraction_reviews cd st xid = map_result (\<lambda>q. read_review cd (row_payload q))
     (sort_key stored_order (filter (\<lambda>q. text_at [''extraction_id''] (row_payload q) = Some xid)
       (rows_of extraction_review_record st)))"

definition pg_bundle_item :: "pg_codec \<Rightarrow> ledger \<Rightarrow> string \<Rightarrow> evidence_bundle_item result" where
  "pg_bundle_item cd st eid =
     bind_result (pg_history cd st eid) (\<lambda>h. let l = last h in
     bind_result (pg_extractions cd st eid (version l)) (\<lambda>xs.
     bind_result (map_result (\<lambda>x. pg_extraction_reviews cd st (extraction_id x)) xs) (\<lambda>vs.
     bind_result (pg_verify_chain cd st eid) (\<lambda>c.
     bind_result (pg_attestations cd st eid (version l)) (\<lambda>as. return
       \<lparr>bi_evidence_id = eid, latest = l, bi_history = h, chain = c, bi_attestations = as, bi_extractions = xs,
        bi_reviews = concat vs\<rparr>)))))"

definition pg_polling_unit_bundle :: "pg_codec \<Rightarrow> ledger \<Rightarrow> string \<Rightarrow> string \<Rightarrow> polling_unit_evidence_bundle result" where
  "pg_polling_unit_bundle cd st el pu =
     bind_result (map_result (pg_bundle_item cd st) (sorted_set (set (concat (map (\<lambda>q. nulls_last (text_at [''evidence_id''] (row_payload q)))
         (filter (\<lambda>q. lg_election_id q = el \<and> text_at [''polling_unit_code''] (row_payload q) = Some pu)
           (rows_of evidence_version_record st))))))) (\<lambda>items. return
       \<lparr>pb_election_id = el, pb_polling_unit_code = pu, evidence = items\<rparr>)"

section \<open>Registry snapshots\<close>

definition pg_snapshot_fields :: "(datetime \<Rightarrow> string) \<Rightarrow> registry_snapshot \<Rightarrow> (string \<times> json) list" where
  "pg_snapshot_fields dt s =
     [(''snapshot_id'', JStr (snapshot_id s)), (''election_id'', JStr (sn_election_id s)), (''version'', JInt (sn_version s)),
      (''payload'', JObj (payload_fields dt (payload s))), (''stored_at'', JStr (dt (sn_stored_at s))),
      (''previous_snapshot_hash'', json_opt JStr (previous_snapshot_hash s)), (''snapshot_hash'', JStr (snapshot_hash s))]"

definition pg_snapshot_record :: "pg_codec \<Rightarrow> registry_snapshot \<Rightarrow> release_record" where
  "pg_snapshot_record cd s = \<lparr>record_type = registry_snapshot_record, release_key = version_key (sn_election_id s) (sn_version s),
     release_payload = pg_snapshot_fields (cd_time cd) s\<rparr>"

definition registry_rows :: "string \<Rightarrow> ledger \<Rightarrow> ledger_row list" where
  "registry_rows el st = sort_key (\<lambda>q. (int_at [''version''] (row_payload q) = None, nulls_last (int_at [''version''] (row_payload q))))
     (filter (\<lambda>q. lg_election_id q = el) (rows_of registry_snapshot_record st))"

text \<open>The snapshot after the previous one, with its hash.\<close>

definition pg_next_snapshot :: "(datetime \<Rightarrow> string) \<Rightarrow> registry_payload \<Rightarrow> datetime \<Rightarrow> string \<Rightarrow> registry_snapshot option
    \<Rightarrow> registry_snapshot" where
  "pg_next_snapshot dt p now fresh prev =
     (let s = \<lparr>snapshot_id = ''bp_reg_'' @ fresh, sn_election_id = rp_election_id p,
            sn_version = (case prev of None \<Rightarrow> 1 | Some q \<Rightarrow> sn_version q + 1), payload = p, sn_stored_at = now,
            previous_snapshot_hash = map_option snapshot_hash prev, snapshot_hash = replicate 64 (CHR ''0'')\<rparr>
      in s\<lparr>snapshot_hash := hash_record (snapshot_body dt s)\<rparr>)"

definition pg_append_snapshot :: "pg_codec \<Rightarrow> bool \<Rightarrow> registry_payload \<Rightarrow> datetime \<Rightarrow> string \<Rightarrow> ledger
    \<Rightarrow> (ledger \<times> registry_snapshot) result" where
  "pg_append_snapshot cd required p now fresh st =
     bind_result (assert_write_enabled required (rp_election_id p) st) (\<lambda>_.
     bind_result (if registry_rows (rp_election_id p) st = [] then return None
       else bind_result (read_snapshot cd (row_payload (last (registry_rows (rp_election_id p) st)))) (\<lambda>s. return (Some s)))
     (\<lambda>prev. let s = pg_next_snapshot (cd_time cd) p now fresh prev in
       if \<not> (1 \<le> sn_version s \<and> opt_all is_sha256_hex (previous_snapshot_hash s)) then raise field_error
       else bind_result (insert_record (cd_jsonb cd) (rp_election_id p) (pg_snapshot_record cd s) st) (\<lambda>st'. return (st', s))))"

definition pg_registry_history :: "pg_codec \<Rightarrow> ledger \<Rightarrow> string \<Rightarrow> registry_snapshot list result" where
  "pg_registry_history cd st el = map_result (\<lambda>q. read_snapshot cd (row_payload q)) (registry_rows el st)"

definition pg_latest_snapshot :: "pg_codec \<Rightarrow> ledger \<Rightarrow> string \<Rightarrow> registry_snapshot result" where
  "pg_latest_snapshot cd st el = bind_result (pg_registry_history cd st el) (\<lambda>h.
     if h = [] then raise (KeyError ''Unknown election_id: '') else return (last h))"

definition pg_verify_registry :: "pg_codec \<Rightarrow> ledger \<Rightarrow> string \<Rightarrow> registry_verification result" where
  "pg_verify_registry cd st el = bind_result (pg_registry_history cd st el) (\<lambda>h. return
     (case snapshot_failure (cd_time cd) None h of
        Some s \<Rightarrow> \<lparr>rv_election_id = el, rv_valid = False, snapshots_checked = sn_version s, rv_failure_version = Some (sn_version s)\<rparr>
      | None \<Rightarrow> \<lparr>rv_election_id = el, rv_valid = True, snapshots_checked = int (length h), rv_failure_version = None\<rparr>))"

end
