(* ===== verification/Postgres_Rows.thy ===== *)
theory Postgres_Rows
  imports Postgres_Stores Postgres_Time
begin

text \<open>
  Rows of the ledger as the PostgreSQL evidence and registry stores read them (src/ballotproof/postgres_evidence_versions.py,
  postgres_evidence_extractions.py, postgres_registry_store.py): what is assumed of JSONB and of pydantic, the histories
  that the rows hold as chained stores like those of \<open>Evidence_Store\<close> and \<open>Registry\<close>, and what it means that the
  references between rows are bound.
\<close>

section \<open>What is assumed of the database and of pydantic\<close>

text \<open>JSONB keeps the members of objects that are text or integers.\<close>

definition jsonb_keeps :: "jsonb \<Rightarrow> bool" where
  "jsonb_keeps jb \<longleftrightarrow> (\<forall>p q path v. jb p = Some q \<longrightarrow> json_at path (JObj p) = Some v \<longrightarrow>
     (\<exists>s. v = JStr s) \<or> (\<exists>i. v = JInt i) \<longrightarrow> json_at path (JObj q) = Some v)"

text \<open>The round trip of a value: \<open>model_validate\<close> of what the column returns for its dump is the value.\<close>

definition version_kept :: "pg_codec \<Rightarrow> evidence_version \<Rightarrow> bool" where
  "version_kept cd r \<longleftrightarrow> (\<forall>p. cd_jsonb cd (pg_version_fields (cd_time cd) r) = Some p \<longrightarrow> read_version cd p = Inr r)"

definition attestation_kept :: "pg_codec \<Rightarrow> signed_attestation \<Rightarrow> bool" where
  "attestation_kept cd a \<longleftrightarrow> (\<forall>p. cd_jsonb cd (signed_attestation_fields (cd_time cd) a) = Some p \<longrightarrow> read_attestation cd p = Inr a)"

definition extraction_kept :: "pg_codec \<Rightarrow> extraction_record \<Rightarrow> bool" where
  "extraction_kept cd x \<longleftrightarrow> (\<forall>p. cd_jsonb cd (extraction_fields (cd_time cd) (cd_float cd) x) = Some p \<longrightarrow> read_extraction cd p = Inr x)"

definition review_kept :: "pg_codec \<Rightarrow> extraction_review \<Rightarrow> bool" where
  "review_kept cd v \<longleftrightarrow> (\<forall>p. cd_jsonb cd (review_fields (cd_time cd) v) = Some p \<longrightarrow> read_review cd p = Inr v)"

definition snapshot_kept :: "pg_codec \<Rightarrow> registry_snapshot \<Rightarrow> bool" where
  "snapshot_kept cd s \<longleftrightarrow> (\<forall>p. cd_jsonb cd (pg_snapshot_fields (cd_time cd) s) = Some p \<longrightarrow> read_snapshot cd p = Inr s)"

lemma kept_text: "jsonb_keeps jb \<Longrightarrow> jb p = Some q \<Longrightarrow> json_at path (JObj p) = Some (JStr s) \<Longrightarrow> text_at path q = Some s"
  by (simp add: jsonb_keeps_def text_at_def)

lemma kept_int: "jsonb_keeps jb \<Longrightarrow> jb p = Some q \<Longrightarrow> json_at path (JObj p) = Some (JInt i) \<Longrightarrow> int_at path q = Some i"
  by (simp add: jsonb_keeps_def int_at_def)

section \<open>Rows after an insertion\<close>

definition row_added :: "jsonb \<Rightarrow> string \<Rightarrow> release_record \<Rightarrow> ledger_row \<Rightarrow> bool" where
  "row_added jb el x q \<longleftrightarrow> lg_election_id q = el \<and> (\<exists>p. jb (release_payload x) = Some p \<and> lg_record q = x\<lparr>release_payload := p\<rparr>)"

definition keys_distinct :: "ledger \<Rightarrow> bool" where
  "keys_distinct st \<longleftrightarrow> distinct (map (\<lambda>q. record_sort_key (lg_record q)) (lg_rows st))"

lemma sort_key_types: "record_sort_key a = record_sort_key b \<longleftrightarrow> record_type a = record_type b \<and> release_key a = release_key b"
  by (auto simp: record_sort_key_def record_type_text_inj)

text \<open>Either the record was there already, or a row is added whose key is new.\<close>

lemma insert_record_cases:
  assumes "insert_record jb el x st = Inr st'"
  obtains (old) q where "st' = st" "q \<in> set (lg_rows st)" "lg_election_id q = el" "record_type (lg_record q) = record_type x"
      "release_key (lg_record q) = release_key x"
  | (new) q where "lg_rows st' = lg_rows st @ [q]" "lg_cutovers st' = lg_cutovers st" "row_added jb el x q"
      "\<forall>q \<in> set (lg_rows st). record_sort_key (lg_record q) \<noteq> record_sort_key x"
proof (rule insert_record_effect [OF assms])
  assume "st' = st"
  moreover obtain d where "record_digest x = Inr d" using accepted_digest [OF assms] by blast
  then obtain q where "q \<in> set (lg_rows st')" "lg_election_id q = el" "record_sort_key (lg_record q) = record_sort_key x"
    using inserted_row [OF assms] by blast
  ultimately show ?thesis using old by (simp add: sort_key_types)
next
  fix stored d
  assume "jb (release_payload x) = Some stored"
    "st' = st\<lparr>lg_rows := lg_rows st @ [\<lparr>lg_election_id = el, lg_record = x\<lparr>release_payload := stored\<rparr>, lg_sha256 = d\<rparr>]\<rparr>"
    "\<forall>q \<in> set (lg_rows st). record_sort_key (lg_record q) \<noteq> record_sort_key x"
  then show ?thesis by (intro new [of "\<lparr>lg_election_id = el, lg_record = x\<lparr>release_payload := stored\<rparr>, lg_sha256 = d\<rparr>"])
    (simp_all add: row_added_def)
qed

lemma row_added_simps:
  "row_added jb el x q \<Longrightarrow> lg_election_id q = el" "row_added jb el x q \<Longrightarrow> record_type (lg_record q) = record_type x"
  "row_added jb el x q \<Longrightarrow> release_key (lg_record q) = release_key x"
  "row_added jb el x q \<Longrightarrow> jb (release_payload x) = Some (row_payload q)"
  by (auto simp: row_added_def)

lemma rows_of_other:
  assumes "insert_record jb el x st = Inr st'" "record_type x \<noteq> ty"
  shows "rows_of ty st' = rows_of ty st"
  using assms(1)
proof (cases rule: insert_record_cases)
  case (new q)
  then show ?thesis using assms(2) by (simp add: rows_of_def row_added_simps(2))
qed simp

lemma insert_keys_distinct: "insert_record jb el x st = Inr st' \<Longrightarrow> keys_distinct st \<Longrightarrow> keys_distinct st'"
  by (erule insert_record_cases) (auto simp: keys_distinct_def row_added_def)

lemma rows_of_native: "activate_native el now st = Inr (st', c) \<Longrightarrow> lg_rows st' = lg_rows st"
  by (auto simp: activate_native_def Let_def split: option.splits if_splits)

lemma rows_of_subset: "q \<in> set (rows_of ty st) \<longleftrightarrow> q \<in> set (lg_rows st) \<and> record_type (lg_record q) = ty"
  by (auto simp: rows_of_def)

section \<open>Sorted rows\<close>

lemma sort_key_map: "sort_key f (map g xs) = map g (sort_key (\<lambda>x. f (g x)) xs)"
proof (induction xs)
  case (Cons x xs)
  have "insort_key f (g y) (map g ys) = map g (insort_key (\<lambda>x. f (g x)) y ys)" for y ys
    by (induction ys) auto
  then show ?case using Cons by simp
qed simp

text \<open>The order of rows by a version column that is not NULL.\<close>

lemma sort_by_version:
  fixes g :: "ledger_row \<Rightarrow> 'a" and ver :: "'a \<Rightarrow> int"
  assumes "\<And>q. q \<in> set qs \<Longrightarrow> int_at [''version''] (row_payload q) = Some (ver (g q))"
  shows "map g (sort_key (\<lambda>q. (int_at [''version''] (row_payload q) = None, nulls_last (int_at [''version''] (row_payload q)))) qs)
    = sort_key ver (map g qs)"
proof -
  have "sort_key (\<lambda>q. (int_at [''version''] (row_payload q) = None, nulls_last (int_at [''version''] (row_payload q)))) qs
      = sort_key (\<lambda>q. ver (g q)) qs"
    by (rule sort_key_order_cong) (use assms in \<open>auto simp: nulls_last_def less_eq_prod_def\<close>)
  then show ?thesis by (simp add: sort_key_map)
qed

section \<open>Evidence versions\<close>

definition version_row :: "pg_codec \<Rightarrow> ledger_row \<Rightarrow> evidence_version \<Rightarrow> bool" where
  "version_row cd q r \<longleftrightarrow> read_version cd (row_payload q) = Inr r \<and> release_key (lg_record q) = version_key (evidence_id r) (version r)
     \<and> lg_election_id q = election_id r \<and> text_at [''evidence_id''] (row_payload q) = Some (evidence_id r)
     \<and> int_at [''version''] (row_payload q) = Some (version r)"

definition version_of :: "pg_codec \<Rightarrow> ledger_row \<Rightarrow> evidence_version" where
  "version_of cd q = projr (read_version cd (row_payload q))"

text \<open>The versions in the ledger, as the rows of an evidence store.\<close>

definition pg_versions :: "pg_codec \<Rightarrow> ledger \<Rightarrow> evidence_version list" where
  "pg_versions cd st = map (version_of cd) (rows_of evidence_version_record st)"

definition pg_evidence :: "pg_codec \<Rightarrow> ledger \<Rightarrow> evidence_store" where
  "pg_evidence cd st = empty_store\<lparr>version_rows := pg_versions cd st\<rparr>"

definition versions_ok :: "pg_codec \<Rightarrow> ledger \<Rightarrow> bool" where
  "versions_ok cd st \<longleftrightarrow> (\<forall>q \<in> set (rows_of evidence_version_record st). version_row cd q (version_of cd q))"

lemma history_of_rows:
  assumes "versions_ok cd st"
  shows "map (version_of cd) (evidence_rows eid st) = history (pg_evidence cd st) eid"
    "pg_history cd st eid = Inr (history (pg_evidence cd st) eid)"
proof -
  let ?qs = "filter (\<lambda>q. text_at [''evidence_id''] (row_payload q) = Some eid) (rows_of evidence_version_record st)"
  have row: "version_row cd q (version_of cd q)" if "q \<in> set ?qs" for q using assms that by (simp add: versions_ok_def)
  have "map (version_of cd) ?qs = filter (\<lambda>r. evidence_id r = eid) (pg_versions cd st)"
  proof -
    have "filter (\<lambda>q. text_at [''evidence_id''] (row_payload q) = Some eid) (rows_of evidence_version_record st)
        = filter (\<lambda>q. evidence_id (version_of cd q) = eid) (rows_of evidence_version_record st)"
      by (rule filter_cong) (use assms in \<open>auto simp: versions_ok_def version_row_def\<close>)
    then show ?thesis by (simp add: pg_versions_def filter_map comp_def)
  qed
  moreover have "map (version_of cd) (evidence_rows eid st) = sort_key version (map (version_of cd) ?qs)"
    unfolding evidence_rows_def by (rule sort_by_version) (use row in \<open>auto simp: version_row_def\<close>)
  ultimately show m: "map (version_of cd) (evidence_rows eid st) = history (pg_evidence cd st) eid"
    by (simp add: history_def pg_evidence_def)
  have "list_all2 (\<lambda>q r. read_version cd (row_payload q) = Inr r) (evidence_rows eid st) (map (version_of cd) (evidence_rows eid st))"
    using row by (simp add: list_all2_map2 list_all2_same evidence_rows_def version_row_def)
  then show "pg_history cd st eid = Inr (history (pg_evidence cd st) eid)" by (simp add: pg_history_def map_result_Inr m)
qed

lemma evidence_rows_subset: "q \<in> set (evidence_rows eid st) \<Longrightarrow> q \<in> set (rows_of evidence_version_record st)"
  by (auto simp: evidence_rows_def)

lemma pg_previous_Inr:
  assumes "pg_previous cd a eid st = Inr (v, prev)" "versions_ok cd st"
  shows "v = (if history (pg_evidence cd st) eid = [] then 1 else version (last (history (pg_evidence cd st) eid)) + 1)"
    "prev = (if history (pg_evidence cd st) eid = [] then None else Some (record_hash (last (history (pg_evidence cd st) eid))))"
    "history (pg_evidence cd st) eid \<noteq> [] \<Longrightarrow> election_id (last (history (pg_evidence cd st) eid)) = va_election_id a
       \<and> ev_polling_unit_code (last (history (pg_evidence cd st) eid)) = va_polling_unit_code a
       \<and> ev_document_type (last (history (pg_evidence cd st) eid)) = va_document_type a"
proof -
  let ?rows = "evidence_rows eid st"
  note h = history_of_rows(1) [OF assms(2), of eid, symmetric]
  show "v = (if history (pg_evidence cd st) eid = [] then 1 else version (last (history (pg_evidence cd st) eid)) + 1)"
    "prev = (if history (pg_evidence cd st) eid = [] then None else Some (record_hash (last (history (pg_evidence cd st) eid))))"
    "history (pg_evidence cd st) eid \<noteq> [] \<Longrightarrow> election_id (last (history (pg_evidence cd st) eid)) = va_election_id a
       \<and> ev_polling_unit_code (last (history (pg_evidence cd st) eid)) = va_polling_unit_code a
       \<and> ev_document_type (last (history (pg_evidence cd st) eid)) = va_document_type a"
  proof (atomize (full), cases "?rows = []")
    case False
    then have "last ?rows \<in> set (rows_of evidence_version_record st)"
      using evidence_rows_subset [of "last ?rows" eid st] by simp
    then have "version_row cd (last ?rows) (version_of cd (last ?rows))" using assms(2) by (simp add: versions_ok_def)
    then show "v = (if history (pg_evidence cd st) eid = [] then 1 else version (last (history (pg_evidence cd st) eid)) + 1) \<and>
      prev = (if history (pg_evidence cd st) eid = [] then None else Some (record_hash (last (history (pg_evidence cd st) eid)))) \<and>
      (history (pg_evidence cd st) eid \<noteq> [] \<longrightarrow> election_id (last (history (pg_evidence cd st) eid)) = va_election_id a
       \<and> ev_polling_unit_code (last (history (pg_evidence cd st) eid)) = va_polling_unit_code a
       \<and> ev_document_type (last (history (pg_evidence cd st) eid)) = va_document_type a)"
      using assms(1) False by (auto simp: pg_previous_def Let_def h last_map version_row_def split: if_splits)
  qed (use assms(1) in \<open>simp add: pg_previous_def h\<close>)
qed

lemma version_record_place [simp]:
  "election_id (version_record a now eid v prev) = va_election_id a"
  "ev_polling_unit_code (version_record a now eid v prev) = va_polling_unit_code a"
  "ev_document_type (version_record a now eid v prev) = va_document_type a"
  by (simp_all add: version_record_def Let_def)

definition pg_appends :: "pg_codec \<Rightarrow> ledger \<Rightarrow> evidence_version \<Rightarrow> ledger \<Rightarrow> bool" where
  "pg_appends cd st r st' \<longleftrightarrow> versions_ok cd st \<and> jsonb_keeps (cd_jsonb cd) \<and> version_kept cd r
     \<and> (\<exists>required a now fresh. pg_append_version cd required a now fresh st = Inr (st', r) \<and> datetime_ok (va_observed_at a)
          \<and> offset_ok (va_observed_at a) \<and> datetime_ok now \<and> offset_ok now)"

lemma pg_appends_row:
  assumes "pg_appends cd st r st'"
  shows "versions_ok cd st'" "pg_versions cd st' = pg_versions cd st @ [r]" "evidence_record_ok r"
    "record_hash r = hash_record (record_hash_body r)"
    "previous_record_hash r = (if history (pg_evidence cd st) (evidence_id r) = [] then None
      else Some (record_hash (last (history (pg_evidence cd st) (evidence_id r)))))"
    "version r = (if history (pg_evidence cd st) (evidence_id r) = [] then 1
      else version (last (history (pg_evidence cd st) (evidence_id r))) + 1)"
    "history (pg_evidence cd st) (evidence_id r) \<noteq> [] \<Longrightarrow>
      election_id r = election_id (last (history (pg_evidence cd st) (evidence_id r)))
      \<and> ev_polling_unit_code r = ev_polling_unit_code (last (history (pg_evidence cd st) (evidence_id r)))
      \<and> ev_document_type r = ev_document_type (last (history (pg_evidence cd st) (evidence_id r)))"
proof -
  note ok = conjunct1 [OF assms [unfolded pg_appends_def]]
  obtain required a now fresh where app: "pg_append_version cd required a now fresh st = Inr (st', r)"
    and times: "datetime_ok (va_observed_at a)" "offset_ok (va_observed_at a)" "datetime_ok now" "offset_ok now"
    and jb: "jsonb_keeps (cd_jsonb cd)" and kept: "version_kept cd r"
    using assms by (auto simp: pg_appends_def)
  let ?eid = "evidence_id_of a fresh" and ?h = "history (pg_evidence cd st)"
  obtain v prev where prev: "pg_previous cd a ?eid st = Inr (v, prev)" and r: "r = version_record a now ?eid v prev"
    and ins: "insert_record (cd_jsonb cd) (va_election_id a) (pg_version_record cd r) st = Inr st'"
    using app by (auto simp: pg_append_version_def Let_def split: if_splits)
  note p = pg_previous_Inr [OF prev ok]
  show "evidence_record_ok r" using times by (simp add: evidence_record_ok_def r)
  show "record_hash r = hash_record (record_hash_body r)" by (simp add: r version_record_hash)
  show links: "previous_record_hash r = (if ?h (evidence_id r) = [] then None else Some (record_hash (last (?h (evidence_id r)))))"
    "version r = (if ?h (evidence_id r) = [] then 1 else version (last (?h (evidence_id r))) + 1)"
    "?h (evidence_id r) \<noteq> [] \<Longrightarrow> election_id r = election_id (last (?h (evidence_id r)))
      \<and> ev_polling_unit_code r = ev_polling_unit_code (last (?h (evidence_id r)))
      \<and> ev_document_type r = ev_document_type (last (?h (evidence_id r)))"
    using p by (simp_all add: r)
  have "versions_ok cd st' \<and> pg_versions cd st' = pg_versions cd st @ [r]"
    using ins
  proof (cases rule: insert_record_cases)
    case (old q)
    then have "q \<in> set (rows_of evidence_version_record st)" "release_key (lg_record q) = version_key (evidence_id r) (version r)"
      by (simp_all add: rows_of_subset pg_version_record_def)
    then have "version_of cd q \<in> set (?h (evidence_id r))" "version (version_of cd q) = version r"
      using ok by (auto simp: versions_ok_def version_row_def version_key_inj history_def pg_evidence_def pg_versions_def)
    then show ?thesis using version_le_last [of "version_of cd q" "pg_evidence cd st" "evidence_id r"] links(2) by (auto split: if_splits)
  next
    case (new q)
    have q: "cd_jsonb cd (pg_version_fields (cd_time cd) r) = Some (row_payload q)" "lg_election_id q = election_id r"
      "record_type (lg_record q) = evidence_version_record" "release_key (lg_record q) = version_key (evidence_id r) (version r)"
      using new(3) row_added_simps [OF new(3)] by (simp_all add: pg_version_record_def r)
    have "version_row cd q r"
      using kept q kept_text [OF jb q(1), of "[''evidence_id'']"] kept_int [OF jb q(1), of "[''version'']"]
      by (simp add: version_row_def version_kept_def pg_version_fields_def)
    then have "version_of cd q = r" "version_row cd q (version_of cd q)" by (simp_all add: version_of_def version_row_def)
    then show ?thesis using new(1) q(3) ok by (simp add: versions_ok_def pg_versions_def rows_of_def)
  qed
  then show "versions_ok cd st'" "pg_versions cd st' = pg_versions cd st @ [r]" by simp_all
qed

interpretation pg_evidence_log: chained_store evidence_record_ok record_hash_body previous_record_hash record_hash chain_failure
    "\<lambda>st. history (pg_evidence cd st)" evidence_id version "pg_appends cd" for cd
proof unfold_locales
  fix st r st' k assume a: "pg_appends cd st r st'"
  let ?h = "history (pg_evidence cd st)"
  have "version q \<le> version r" if q: "q \<in> set (?h (evidence_id r))" for q
    using version_le_last [OF q] pg_appends_row(6) [OF a] q by (auto split: if_splits)
  then show "history (pg_evidence cd st') k = (if k = evidence_id r then ?h k @ [r] else ?h k)"
    using pg_appends_row(2) [OF a] by (intro history_insert) (auto simp: pg_evidence_def)
qed (simp_all add: pg_appends_row)

section \<open>Registry snapshots\<close>

definition snapshot_row :: "pg_codec \<Rightarrow> ledger_row \<Rightarrow> registry_snapshot \<Rightarrow> bool" where
  "snapshot_row cd q s \<longleftrightarrow> read_snapshot cd (row_payload q) = Inr s
     \<and> release_key (lg_record q) = version_key (sn_election_id s) (sn_version s) \<and> lg_election_id q = sn_election_id s
     \<and> int_at [''version''] (row_payload q) = Some (sn_version s)"

definition snapshot_of :: "pg_codec \<Rightarrow> ledger_row \<Rightarrow> registry_snapshot" where
  "snapshot_of cd q = projr (read_snapshot cd (row_payload q))"

definition pg_registry :: "pg_codec \<Rightarrow> ledger \<Rightarrow> registry_store" where
  "pg_registry cd st = \<lparr>snapshot_rows = map (snapshot_of cd) (rows_of registry_snapshot_record st), registry_barrier = None\<rparr>"

definition snapshots_ok :: "pg_codec \<Rightarrow> ledger \<Rightarrow> bool" where
  "snapshots_ok cd st \<longleftrightarrow> (\<forall>q \<in> set (rows_of registry_snapshot_record st). snapshot_row cd q (snapshot_of cd q))"

lemma registry_of_rows:
  assumes "snapshots_ok cd st"
  shows "map (snapshot_of cd) (registry_rows el st) = registry_history (pg_registry cd st) el"
    "pg_registry_history cd st el = Inr (registry_history (pg_registry cd st) el)"
proof -
  let ?qs = "filter (\<lambda>q. lg_election_id q = el) (rows_of registry_snapshot_record st)"
  have row: "snapshot_row cd q (snapshot_of cd q)" if "q \<in> set ?qs" for q using assms that by (simp add: snapshots_ok_def)
  have "filter (\<lambda>q. lg_election_id q = el) (rows_of registry_snapshot_record st)
      = filter (\<lambda>q. sn_election_id (snapshot_of cd q) = el) (rows_of registry_snapshot_record st)"
    by (rule filter_cong) (use assms in \<open>auto simp: snapshots_ok_def snapshot_row_def\<close>)
  then have "map (snapshot_of cd) ?qs = filter (\<lambda>s. sn_election_id s = el) (snapshot_rows (pg_registry cd st))"
    by (simp add: pg_registry_def filter_map comp_def)
  moreover have "map (snapshot_of cd) (registry_rows el st) = sort_key sn_version (map (snapshot_of cd) ?qs)"
    unfolding registry_rows_def by (rule sort_by_version) (use row in \<open>auto simp: snapshot_row_def\<close>)
  ultimately show m: "map (snapshot_of cd) (registry_rows el st) = registry_history (pg_registry cd st) el"
    by (simp add: registry_history_def)
  have "list_all2 (\<lambda>q s. read_snapshot cd (row_payload q) = Inr s) (registry_rows el st) (map (snapshot_of cd) (registry_rows el st))"
    using row by (simp add: list_all2_map2 list_all2_same registry_rows_def snapshot_row_def)
  then show "pg_registry_history cd st el = Inr (registry_history (pg_registry cd st) el)"
    by (simp add: pg_registry_history_def map_result_Inr m)
qed

definition pg_registers :: "pg_codec \<Rightarrow> ledger \<Rightarrow> registry_snapshot \<Rightarrow> ledger \<Rightarrow> bool" where
  "pg_registers cd st s st' \<longleftrightarrow> snapshots_ok cd st \<and> jsonb_keeps (cd_jsonb cd) \<and> time_dump_ok (cd_time cd) \<and> snapshot_kept cd s
     \<and> (\<exists>required p now fresh. pg_append_snapshot cd required p now fresh st = Inr (st', s) \<and> payload_times_ok p
          \<and> datetime_ok now \<and> offset_ok now)"

lemma pg_append_snapshot_Inr:
  assumes "pg_append_snapshot cd required p now fresh st = Inr (st', s)" "snapshots_ok cd st"
  shows "s = next_snapshot (cd_time cd) p now fresh (pg_registry cd st)"
    "insert_record (cd_jsonb cd) (rp_election_id p) (pg_snapshot_record cd s) st = Inr st'"
proof -
  let ?rows = "registry_rows (rp_election_id p) st" and ?h = "registry_history (pg_registry cd st) (rp_election_id p)"
  note h = registry_of_rows(1) [OF assms(2), of "rp_election_id p", symmetric]
  obtain prev where prev: "(if ?rows = [] then return None
       else bind_result (read_snapshot cd (row_payload (last ?rows))) (\<lambda>s. return (Some s))) = Inr prev"
    and s: "s = pg_next_snapshot (cd_time cd) p now fresh prev"
    and ins: "insert_record (cd_jsonb cd) (rp_election_id p) (pg_snapshot_record cd s) st = Inr st'"
    using assms(1) by (auto simp: pg_append_snapshot_def Let_def split: if_splits)
  have "prev = (if ?h = [] then None else Some (last ?h))"
  proof (cases "?rows = []")
    case False
    then have "last ?rows \<in> set ?rows" by simp
    then have "snapshot_row cd (last ?rows) (snapshot_of cd (last ?rows))"
      using assms(2) by (auto simp: snapshots_ok_def registry_rows_def)
    then show ?thesis using prev False by (auto simp: h last_map snapshot_row_def)
  qed (use prev h in simp)
  then show "s = next_snapshot (cd_time cd) p now fresh (pg_registry cd st)"
    by (simp add: s pg_next_snapshot_def next_snapshot_def Let_def snapshot_body_def)
  show "insert_record (cd_jsonb cd) (rp_election_id p) (pg_snapshot_record cd s) st = Inr st'" by (rule ins)
qed

lemma snapshot_le_last: "q \<in> set (registry_history st el) \<Longrightarrow> sn_version q \<le> sn_version (last (registry_history st el))"
  by (rule sorted_le_last) (simp add: registry_history_def)

lemma pg_registers_row:
  assumes "pg_registers cd st s st'"
  shows "snapshots_ok cd st'" "snapshot_rows (pg_registry cd st') = snapshot_rows (pg_registry cd st) @ [s]"
    "snapshot_ok (cd_time cd) s" "snapshot_hash s = hash_record (snapshot_body (cd_time cd) s)"
    "previous_snapshot_hash s = (if registry_history (pg_registry cd st) (sn_election_id s) = [] then None
      else Some (snapshot_hash (last (registry_history (pg_registry cd st) (sn_election_id s)))))"
    "sn_version s = (if registry_history (pg_registry cd st) (sn_election_id s) = [] then 1
      else sn_version (last (registry_history (pg_registry cd st) (sn_election_id s))) + 1)"
proof -
  note ok = conjunct1 [OF assms [unfolded pg_registers_def]]
  obtain required p now fresh where app: "pg_append_snapshot cd required p now fresh st = Inr (st', s)"
    and times: "payload_times_ok p" "datetime_ok now" "offset_ok now"
    and jb: "jsonb_keeps (cd_jsonb cd)" and kept: "snapshot_kept cd s" and dt: "time_dump_ok (cd_time cd)"
    using assms by (auto simp: pg_registers_def)
  note s = pg_append_snapshot_Inr(1) [OF app ok] and ins = pg_append_snapshot_Inr(2) [OF app ok]
  let ?h = "registry_history (pg_registry cd st)"
  show "snapshot_ok (cd_time cd) s" using times dt by (simp add: snapshot_ok_def s)
  show "snapshot_hash s = hash_record (snapshot_body (cd_time cd) s)" by (simp add: s)
  show "previous_snapshot_hash s = (if ?h (sn_election_id s) = [] then None else Some (snapshot_hash (last (?h (sn_election_id s)))))"
    and ver: "sn_version s = (if ?h (sn_election_id s) = [] then 1 else sn_version (last (?h (sn_election_id s))) + 1)"
    by (simp_all add: s)
  have "snapshots_ok cd st' \<and> snapshot_rows (pg_registry cd st') = snapshot_rows (pg_registry cd st) @ [s]"
    using ins
  proof (cases rule: insert_record_cases)
    case (old q)
    then have "q \<in> set (rows_of registry_snapshot_record st)" "release_key (lg_record q) = version_key (sn_election_id s) (sn_version s)"
      by (simp_all add: rows_of_subset pg_snapshot_record_def)
    then have "snapshot_of cd q \<in> set (?h (sn_election_id s))" "sn_version (snapshot_of cd q) = sn_version s"
      using ok by (auto simp: snapshots_ok_def snapshot_row_def version_key_inj registry_history_def pg_registry_def)
    then show ?thesis using snapshot_le_last [of "snapshot_of cd q" "pg_registry cd st" "sn_election_id s"] ver by (auto split: if_splits)
  next
    case (new q)
    have q: "cd_jsonb cd (pg_snapshot_fields (cd_time cd) s) = Some (row_payload q)" "lg_election_id q = sn_election_id s"
      "record_type (lg_record q) = registry_snapshot_record" "release_key (lg_record q) = version_key (sn_election_id s) (sn_version s)"
      using new(3) row_added_simps [OF new(3)] by (simp_all add: pg_snapshot_record_def s)
    have "snapshot_row cd q s"
      using kept q kept_int [OF jb q(1), of "[''version'']"] by (simp add: snapshot_row_def snapshot_kept_def pg_snapshot_fields_def)
    then have "snapshot_of cd q = s" "snapshot_row cd q (snapshot_of cd q)" by (simp_all add: snapshot_of_def snapshot_row_def)
    then show ?thesis using new(1) q(3) ok by (simp add: snapshots_ok_def pg_registry_def rows_of_def)
  qed
  then show "snapshots_ok cd st'" "snapshot_rows (pg_registry cd st') = snapshot_rows (pg_registry cd st) @ [s]" by simp_all
qed

interpretation pg_registry_log: chained_store "snapshot_ok (cd_time cd)" "snapshot_body (cd_time cd)" previous_snapshot_hash
    snapshot_hash "snapshot_failure (cd_time cd)" "\<lambda>st. registry_history (pg_registry cd st)" sn_election_id sn_version
    "pg_registers cd" for cd
proof unfold_locales
  fix st s st' k assume a: "pg_registers cd st s st'"
  let ?h = "registry_history (pg_registry cd st)"
  have "sn_version q \<le> sn_version s" if q: "q \<in> set (?h (sn_election_id s))" for q
    using snapshot_le_last [OF q] pg_registers_row(6) [OF a] q by (auto split: if_splits)
  then show "registry_history (pg_registry cd st') k = (if k = sn_election_id s then ?h k @ [s] else ?h k)"
    using pg_registers_row(2) [OF a] by (auto simp: registry_history_def intro!: sort_key_snoc_max)
qed (simp_all add: pg_registers_row)

section \<open>References\<close>

definition attestation_row :: "pg_codec \<Rightarrow> ledger_row \<Rightarrow> signed_attestation \<Rightarrow> bool" where
  "attestation_row cd q a \<longleftrightarrow> read_attestation cd (row_payload q) = Inr a
     \<and> text_at [''payload'', ''evidence_id''] (row_payload q) = Some (ap_evidence_id (sa_payload a))
     \<and> int_at [''payload'', ''evidence_version''] (row_payload q) = Some (ap_evidence_version (sa_payload a))"

definition extraction_row :: "pg_codec \<Rightarrow> ledger_row \<Rightarrow> extraction_record \<Rightarrow> bool" where
  "extraction_row cd q x \<longleftrightarrow> read_extraction cd (row_payload q) = Inr x \<and> release_key (lg_record q) = extraction_id x
     \<and> text_at [''evidence_id''] (row_payload q) = Some (ex_evidence_id x)
     \<and> int_at [''evidence_version''] (row_payload q) = Some (ex_evidence_version x)"

definition review_row :: "pg_codec \<Rightarrow> ledger_row \<Rightarrow> extraction_review \<Rightarrow> bool" where
  "review_row cd q v \<longleftrightarrow> read_review cd (row_payload q) = Inr v
     \<and> text_at [''extraction_id''] (row_payload q) = Some (rv_extraction_id v)"

definition pg_bound :: "pg_codec \<Rightarrow> ledger \<Rightarrow> string \<Rightarrow> string \<Rightarrow> int \<Rightarrow> string \<Rightarrow> bool" where
  "pg_bound cd st el eid v h \<longleftrightarrow> (\<exists>q \<in> set (rows_of evidence_version_record st). \<exists>r. version_row cd q r \<and> election_id r = el
     \<and> evidence_id r = eid \<and> version r = v \<and> record_hash r = h)"

definition attestation_bound :: "pg_codec \<Rightarrow> ledger \<Rightarrow> ledger_row \<Rightarrow> bool" where
  "attestation_bound cd st q \<longleftrightarrow> (\<exists>a. attestation_row cd q a \<and> pg_bound cd st (lg_election_id q)
     (ap_evidence_id (sa_payload a)) (ap_evidence_version (sa_payload a)) (ap_record_hash (sa_payload a)))"

definition extraction_bound :: "pg_codec \<Rightarrow> ledger \<Rightarrow> ledger_row \<Rightarrow> bool" where
  "extraction_bound cd st q \<longleftrightarrow> (\<exists>x. extraction_row cd q x
     \<and> pg_bound cd st (lg_election_id q) (ex_evidence_id x) (ex_evidence_version x) (ex_record_hash x)
     \<and> (\<forall>xid. supersedes_extraction_id x = Some xid \<longrightarrow> (\<exists>p \<in> set (rows_of extraction_record_type st). \<exists>y. extraction_row cd p y
          \<and> extraction_id y = xid \<and> ex_evidence_id y = ex_evidence_id x \<and> ex_evidence_version y = ex_evidence_version x)))"

definition review_bound :: "pg_codec \<Rightarrow> ledger \<Rightarrow> ledger_row \<Rightarrow> bool" where
  "review_bound cd st q \<longleftrightarrow> (\<exists>v. review_row cd q v \<and> (\<exists>p \<in> set (rows_of extraction_record_type st). \<exists>x. extraction_row cd p x
     \<and> lg_election_id p = lg_election_id q \<and> extraction_id x = rv_extraction_id v \<and> ex_evidence_id x = rv_evidence_id v
     \<and> ex_evidence_version x = rv_evidence_version v \<and> fr_field_name ` set (rv_fields v) \<subseteq> field_name ` set (ex_fields x)))"

definition gate_passed :: "bool \<Rightarrow> ledger \<Rightarrow> bool" where
  "gate_passed required st \<longleftrightarrow> (required \<longrightarrow> (\<forall>q \<in> set (lg_rows st). cutover_of (lg_election_id q) st \<noteq> None))"

definition pg_refs_ok :: "pg_codec \<Rightarrow> ledger \<Rightarrow> bool" where
  "pg_refs_ok cd st \<longleftrightarrow> versions_ok cd st \<and> keys_distinct st
     \<and> (\<forall>q \<in> set (rows_of attestation_record st). attestation_bound cd st q)
     \<and> (\<forall>q \<in> set (rows_of extraction_record_type st). extraction_bound cd st q)
     \<and> (\<forall>q \<in> set (rows_of extraction_review_record st). review_bound cd st q)"

lemma evidence_row_Some:
  assumes "evidence_row eid v st = Some q" "versions_ok cd st" "read_version cd (row_payload q) = Inr r"
  shows "q \<in> set (rows_of evidence_version_record st)" "version_row cd q r" "evidence_id r = eid" "version r = v"
proof -
  have q: "q \<in> set (rows_of evidence_version_record st)" "text_at [''evidence_id''] (row_payload q) = Some eid"
    "int_at [''version''] (row_payload q) = Some v"
    using find_Some_in [OF assms(1) [unfolded evidence_row_def]] by simp_all
  then have "version_row cd q (version_of cd q)" using assms(2) by (simp add: versions_ok_def)
  then show "q \<in> set (rows_of evidence_version_record st)" "version_row cd q r" "evidence_id r = eid" "version r = v"
    using q assms(3) by (simp_all add: version_row_def)
qed

lemma same_key_row:
  assumes "keys_distinct st" "p \<in> set (rows_of ty st)" "q \<in> set (rows_of ty st)" "release_key (lg_record p) = release_key (lg_record q)"
  shows "p = q"
proof -
  have "inj_on (\<lambda>q. record_sort_key (lg_record q)) (set (lg_rows st))" using assms(1) by (simp only: keys_distinct_def distinct_map)
  then show ?thesis by (rule inj_onD) (use assms(2-4) in \<open>simp_all add: rows_of_subset sort_key_types\<close>)
qed

lemma bound_read:
  assumes "pg_bound cd st el eid v h" "versions_ok cd st" "keys_distinct st"
  shows "\<exists>r. pg_get_version cd st eid v = Inr r \<and> evidence_id r = eid \<and> version r = v \<and> record_hash r = h \<and> election_id r = el"
proof -
  obtain p r where p: "p \<in> set (rows_of evidence_version_record st)" "version_row cd p r" "election_id r = el" "evidence_id r = eid"
    "version r = v" "record_hash r = h" using assms(1) by (auto simp: pg_bound_def)
  have "evidence_row eid v st \<noteq> None"
    using p by (auto simp: evidence_row_def find_None_iff version_row_def)
  then obtain q where q: "evidence_row eid v st = Some q" by blast
  then have "q \<in> set (rows_of evidence_version_record st)" by (auto simp: evidence_row_def dest: find_Some_in)
  then have v: "version_row cd q (version_of cd q)" using assms(2) by (simp add: versions_ok_def)
  then have r: "read_version cd (row_payload q) = Inr (version_of cd q)" by (simp add: version_row_def)
  note e = evidence_row_Some [OF q assms(2) r]
  have "p = q" by (rule same_key_row [OF assms(3) p(1) e(1)]) (use p e v in \<open>simp add: version_row_def\<close>)
  then show ?thesis using p q r by (auto simp: pg_get_version_def version_row_def)
qed

lemma keyed_row_read:
  assumes "keys_distinct st" "p \<in> set (rows_of extraction_record_type st)" "extraction_row cd p x"
  shows "pg_get_extraction cd st (extraction_id x) = Inr x"
proof -
  have "keyed_row extraction_record_type (extraction_id x) st \<noteq> None"
    using assms(2,3) by (auto simp: keyed_row_def find_None_iff extraction_row_def)
  then obtain q where q: "keyed_row extraction_record_type (extraction_id x) st = Some q" by blast
  then have "q \<in> set (rows_of extraction_record_type st)" "release_key (lg_record q) = extraction_id x"
    by (auto simp: keyed_row_def dest: find_Some_in)
  then have "p = q" using same_key_row [OF assms(1,2)] assms(3) by (simp add: extraction_row_def)
  then show ?thesis using q assms(3) by (simp add: pg_get_extraction_def extraction_row_def)
qed

lemma keyed_row_Some:
  assumes "keyed_row extraction_record_type xid st = Some q" "read_extraction cd (row_payload q) = Inr x" "pg_refs_ok cd st"
  shows "q \<in> set (rows_of extraction_record_type st) \<and> extraction_row cd q x \<and> extraction_id x = xid"
proof -
  have q: "q \<in> set (rows_of extraction_record_type st)" "release_key (lg_record q) = xid"
    using find_Some_in [OF assms(1) [unfolded keyed_row_def]] by simp_all
  then obtain y where "extraction_row cd q y" using assms(3) by (auto simp: pg_refs_ok_def extraction_bound_def)
  then show ?thesis using q assms(2) by (simp add: extraction_row_def)
qed

text \<open>Rows are never removed, so what is bound stays bound.\<close>

lemma bound_mono:
  assumes "\<And>ty. set (rows_of ty st) \<subseteq> set (rows_of ty st')"
  shows "attestation_bound cd st q \<Longrightarrow> attestation_bound cd st' q" "extraction_bound cd st q \<Longrightarrow> extraction_bound cd st' q"
    "review_bound cd st q \<Longrightarrow> review_bound cd st' q"
proof -
  have b: "pg_bound cd st el eid v h \<Longrightarrow> pg_bound cd st' el eid v h" for el eid v h
    using assms [of evidence_version_record] by (auto simp: pg_bound_def)
  show "attestation_bound cd st q \<Longrightarrow> attestation_bound cd st' q" using b by (auto simp: attestation_bound_def)
  have ext: "\<exists>p \<in> set (rows_of extraction_record_type st'). P p" if "\<exists>p \<in> set (rows_of extraction_record_type st). P p" for P
    using that assms [of extraction_record_type] by blast
  show "extraction_bound cd st' q" if x: "extraction_bound cd st q"
  proof -
    obtain x where "extraction_row cd q x"
      "pg_bound cd st (lg_election_id q) (ex_evidence_id x) (ex_evidence_version x) (ex_record_hash x)"
      "\<forall>xid. supersedes_extraction_id x = Some xid \<longrightarrow> (\<exists>p \<in> set (rows_of extraction_record_type st). \<exists>y. extraction_row cd p y
          \<and> extraction_id y = xid \<and> ex_evidence_id y = ex_evidence_id x \<and> ex_evidence_version y = ex_evidence_version x)"
      using x unfolding extraction_bound_def by blast
    then show ?thesis using b ext unfolding extraction_bound_def by (intro exI [of _ x]) simp
  qed
  show "review_bound cd st' q" if x: "review_bound cd st q"
  proof -
    obtain v where "review_row cd q v" "\<exists>p \<in> set (rows_of extraction_record_type st). \<exists>x. extraction_row cd p x
     \<and> lg_election_id p = lg_election_id q \<and> extraction_id x = rv_extraction_id v \<and> ex_evidence_id x = rv_evidence_id v
     \<and> ex_evidence_version x = rv_evidence_version v \<and> fr_field_name ` set (rv_fields v) \<subseteq> field_name ` set (ex_fields x)"
      using x unfolding review_bound_def by blast
    then show ?thesis using ext unfolding review_bound_def by (intro exI [of _ v]) simp
  qed
qed

text \<open>An insertion keeps the references when its own row is bound.\<close>

lemma refs_insert:
  assumes "insert_record (cd_jsonb cd) el x st = Inr st'" "pg_refs_ok cd st" "versions_ok cd st'"
    "\<And>q. row_added (cd_jsonb cd) el x q \<Longrightarrow> record_type x = attestation_record \<Longrightarrow> attestation_bound cd st q"
    "\<And>q. row_added (cd_jsonb cd) el x q \<Longrightarrow> record_type x = extraction_record_type \<Longrightarrow> extraction_bound cd st q"
    "\<And>q. row_added (cd_jsonb cd) el x q \<Longrightarrow> record_type x = extraction_review_record \<Longrightarrow> review_bound cd st q"
  shows "pg_refs_ok cd st'"
  using assms(1)
proof (cases rule: insert_record_cases)
  case (new q)
  have sub: "set (rows_of ty st) \<subseteq> set (rows_of ty st')" for ty using new(1) by (auto simp: rows_of_def)
  have rows: "rows_of ty st' = rows_of ty st @ (if record_type x = ty then [q] else [])" for ty
    using new(1) row_added_simps(2) [OF new(3)] by (simp add: rows_of_def)
  show ?thesis unfolding pg_refs_ok_def
  proof (intro conjI ballI)
    show "versions_ok cd st'" by (rule assms(3))
    show "keys_distinct st'" using insert_keys_distinct [OF assms(1)] assms(2) by (simp add: pg_refs_ok_def)
    show "attestation_bound cd st' p" if "p \<in> set (rows_of attestation_record st')" for p
      by (rule bound_mono(1) [OF sub]) (use that assms(2) assms(4) [OF new(3)] in \<open>auto simp: rows pg_refs_ok_def split: if_splits\<close>)
    show "extraction_bound cd st' p" if "p \<in> set (rows_of extraction_record_type st')" for p
      by (rule bound_mono(2) [OF sub]) (use that assms(2) assms(5) [OF new(3)] in \<open>auto simp: rows pg_refs_ok_def split: if_splits\<close>)
    show "review_bound cd st' p" if "p \<in> set (rows_of extraction_review_record st')" for p
      by (rule bound_mono(3) [OF sub]) (use that assms(2) assms(6) [OF new(3)] in \<open>auto simp: rows pg_refs_ok_def split: if_splits\<close>)
  qed
qed (use assms(2) in simp)

lemma versions_ok_insert:
  "insert_record jb el x st = Inr st' \<Longrightarrow> record_type x \<noteq> evidence_version_record \<Longrightarrow> versions_ok cd st \<Longrightarrow> versions_ok cd st'"
  by (simp add: versions_ok_def rows_of_other)

end
