(* ===== verification/Postgres_Migration.thy ===== *)
theory Postgres_Migration
  imports Postgres_Rows
begin

text \<open>
  What \<open>migrate_sqlite_election\<close> (src/ballotproof/postgres_cutover.py) does to the rows that the PostgreSQL stores read:
  afterwards the rows of the election are the records collected from the SQLite stores, one for one, so the histories of
  the election are those of the SQLite stores, and all other histories are unchanged.
\<close>

section \<open>The rows of the election are the collected records\<close>

text \<open>A missing evidence database holds nothing.\<close>

definition stored_evidence :: "evidence_store option \<Rightarrow> evidence_store" where
  "stored_evidence store = (case store of None \<Rightarrow> empty_store | Some s \<Rightarrow> s)"

lemma collect_stored:
  "collect_release_records dt fl (Some reg) store el = collect_release_records dt fl (Some reg) (Some (stored_evidence store)) el"
  by (simp add: collect_release_records_def stored_evidence_def version_rows_of_def empty_store_def Let_def split: option.split)

definition migrated :: "string \<Rightarrow> release_record list \<Rightarrow> ledger \<Rightarrow> ledger \<Rightarrow> bool" where
  "migrated el source st st' \<longleftrightarrow> ledger_ok st' \<and> (\<exists>new. lg_rows st' = lg_rows st @ new \<and> (\<forall>q \<in> set new. lg_election_id q = el))
     \<and> (\<forall>x \<in> set source. \<exists>q \<in> set (lg_rows st'). lg_election_id q = el \<and> same_record x (lg_record q))
     \<and> (\<forall>q \<in> set (lg_rows st'). lg_election_id q = el \<longrightarrow> (\<exists>x \<in> set source. same_record x (lg_record q)))"

lemma list_all2_members:
  "list_all2 P xs ys \<Longrightarrow> (\<forall>x \<in> set xs. \<exists>y \<in> set ys. P x y) \<and> (\<forall>y \<in> set ys. \<exists>x \<in> set xs. P x y)"
  by (induction rule: list_all2_induct) auto

lemma insert_records_rows:
  "insert_records jb el rs st = Inr st' \<Longrightarrow> \<exists>new. lg_rows st' = lg_rows st @ new \<and> (\<forall>q \<in> set new. lg_election_id q = el)"
proof (induction rs arbitrary: st)
  case (Cons r rs)
  then obtain s where s: "insert_record jb el r st = Inr s" "insert_records jb el rs s = Inr st'" by (auto simp: bind_result_eq_Inr)
  have rest: "\<exists>new. lg_rows st' = lg_rows s @ new \<and> (\<forall>q \<in> set new. lg_election_id q = el)" by (rule Cons.IH [OF s(2)])
  from s(1) show ?case
  proof (cases rule: insert_record_cases)
    case (new q)
    then show ?thesis using rest row_added_simps(1) [OF new(3)] by auto
  qed (use rest in auto)
qed simp

lemma migration_effect:
  assumes "migrate_sqlite_election dt fl jb (Some reg) store bar el activate now st = Inr (bar', st', report)"
    "ledger_ok st" "jsonb_objects jb" "\<And>x. float_text_ok (fl x)"
    "\<And>source target. collect_release_records dt fl (Some reg) store el = Inr source \<Longrightarrow> records_in el st' = Inr target \<Longrightarrow>
      collision_free {application_bytes source, application_bytes target}"
  obtains source where "collect_release_records dt fl (Some reg) (Some (stored_evidence store)) el = Inr source"
    "migrated el source st st'" "\<And>e c. cutover_of e st = Some c \<Longrightarrow> cutover_of e st' = Some c" "activate \<Longrightarrow> cutover_of el st' \<noteq> None"
proof -
  obtain source where source: "collect_release_records dt fl (Some reg) store el = Inr source"
    and mig: "migrate_records jb el activate now source st = Inr (st', report)"
    using assms(1) by (auto simp: migrate_sqlite_election_def hold_Inr bind_result_eq_Inr)
  note src = collected_sorted [OF source] and pay = collected_payloads [OF source assms(4)]
  from mig obtain digest st1 target c where m: "application_records_sha256 source = Inr digest"
      "insert_records jb el source st = Inr st1" "records_in el st1 = Inr target" "application_records_sha256 target = Inr digest"
      "record_cutover el activate digest now st1 = (st', c)"
    by (rule migrate_records_Inr)
  have st1: "ledger_ok st1" using insert_records_ok [OF m(2) assms(2) pay assms(3)] by blast
  note cut = record_cutover_ok [OF m(5) st1]
  have target: "records_in el st' = Inr target" using m(3) cut(3) by (simp add: records_in_def)
  have sorted: "sort_key record_sort_key target = target"
    "set target = lg_record ` {q \<in> set (lg_rows st'). lg_election_id q = el}"
    using target by (auto simp: records_in_Inr sort_key_id_if_sorted)
  have same: "list_all2 same_record source target"
    using same_digest_same_records [OF m(1,4) pay records_in_payloads [OF m(3) st1] assms(5) [OF source target]] src(2) sorted(1)
    by simp
  have "\<exists>q \<in> set (lg_rows st'). lg_election_id q = el \<and> same_record x (lg_record q)" if "x \<in> set source" for x
    using list_all2_members [OF same] that sorted(2) by fastforce
  moreover have "\<exists>x \<in> set source. same_record x (lg_record q)" if "q \<in> set (lg_rows st')" "lg_election_id q = el" for q
    using list_all2_members [OF same] that sorted(2) by fastforce
  moreover obtain new where "lg_rows st' = lg_rows st @ new" "\<forall>q \<in> set new. lg_election_id q = el"
    using insert_records_rows [OF m(2)] cut(3) by auto
  ultimately have "migrated el source st st'" using cut(1) unfolding migrated_def by blast
  moreover have "cutover_of e st' = Some k" if "cutover_of e st = Some k" for e k
    using cutover_of_grows [OF cut(2)] insert_records_cutovers [OF m(2)] that by simp
  moreover have "collect_release_records dt fl (Some reg) (Some (stored_evidence store)) el = Inr source"
    using source by (simp only: collect_stored [of dt fl reg store el])
  moreover have "cutover_of el st' \<noteq> None" if activate using cut(4,5) that by simp
  ultimately show thesis using that by blast
qed

section \<open>The rows that are read\<close>

text \<open>\<open>model_validate\<close> does not look at the order of members: every document equal to the given one is read as the value.\<close>

definition reads_as :: "((string \<times> json) list \<Rightarrow> 'a result) \<Rightarrow> (string \<times> json) list \<Rightarrow> 'a \<Rightarrow> bool" where
  "reads_as read p v \<longleftrightarrow> (\<forall>q. json_eq (JObj p) (JObj q) \<longrightarrow> read q = Inr v)"

text \<open>The round trip of the SQLite rows: the document collected for a value is read as the value.\<close>

definition sources_kept :: "pg_codec \<Rightarrow> (string \<Rightarrow> string) \<Rightarrow> registry_store \<Rightarrow> evidence_store \<Rightarrow> bool" where
  "sources_kept cd fl reg s \<longleftrightarrow>
     (\<forall>x \<in> set (snapshot_rows reg). reads_as (read_snapshot cd) (snapshot_row_fields (cd_time cd) x) x)
     \<and> (\<forall>r \<in> set (version_rows s). reads_as (read_version cd) (version_row_fields r) r)
     \<and> (\<forall>a \<in> set (attestation_rows s). reads_as (read_attestation cd) (signed_attestation_fields (cd_time cd) a) a)
     \<and> (\<forall>x \<in> set (extraction_rows s). reads_as (read_extraction cd) (extraction_fields (cd_time cd) fl x) x)
     \<and> (\<forall>v \<in> set (review_rows s). reads_as (read_review cd) (review_fields (cd_time cd) v) v)"

lemma json_eq_member: "json_eq (JObj p) (JObj q) \<Longrightarrow> (k, v) \<in> set p \<Longrightarrow> \<exists>w. dict_get q k = Some w \<and> json_eq v w"
  by (force split: option.splits)

lemma json_eq_member_text: "json_eq (JObj p) (JObj q) \<Longrightarrow> (k, JStr t) \<in> set p \<Longrightarrow> text_at [k] q = Some t"
  using json_eq_member [of p q k "JStr t"] by (auto simp: text_at_def)

lemma json_eq_member_int: "json_eq (JObj p) (JObj q) \<Longrightarrow> (k, JInt i) \<in> set p \<Longrightarrow> int_at [k] q = Some i"
  using json_eq_member [of p q k "JInt i"] by (auto simp: int_at_def)

lemma json_eq_inside:
  assumes "json_eq (JObj p) (JObj q)" "(k, JObj p') \<in> set p"
  shows "(l, JStr t) \<in> set p' \<Longrightarrow> text_at [k, l] q = Some t" "(l, JInt i) \<in> set p' \<Longrightarrow> int_at [k, l] q = Some i"
proof -
  obtain w where w: "dict_get q k = Some w" "json_eq (JObj p') w" using json_eq_member [OF assms] by blast
  obtain q' where q': "w = JObj q'" using w(2) by (cases w) simp_all
  show "(l, JStr t) \<in> set p' \<Longrightarrow> text_at [k, l] q = Some t"
    using json_eq_member_text [of p' q' l t] w unfolding q' by (simp add: text_at_def)
  show "(l, JInt i) \<in> set p' \<Longrightarrow> int_at [k, l] q = Some i"
    using json_eq_member_int [of p' q' l i] w unfolding q' by (simp add: int_at_def)
qed

lemma same_version_row:
  assumes "same_record (version_release_record r) (lg_record q)" "lg_election_id q = election_id r"
    "reads_as (read_version cd) (version_row_fields r) r"
  shows "version_row cd q r"
proof -
  have eq: "json_eq (JObj (version_row_fields r)) (JObj (row_payload q))"
    using assms(1) by (simp add: same_record_def version_release_record_def)
  show ?thesis
    using assms json_eq_member_text [OF eq, of "''evidence_id''" "evidence_id r"] json_eq_member_int [OF eq, of "''version''" "version r"] eq
    by (simp add: version_row_def reads_as_def same_record_def version_release_record_def) (simp add: version_row_fields_def)
qed

lemma same_snapshot_row:
  assumes "same_record (snapshot_release_record (cd_time cd) x) (lg_record q)" "lg_election_id q = sn_election_id x"
    "reads_as (read_snapshot cd) (snapshot_row_fields (cd_time cd) x) x"
  shows "snapshot_row cd q x"
proof -
  have eq: "json_eq (JObj (snapshot_row_fields (cd_time cd) x)) (JObj (row_payload q))"
    using assms(1) by (simp add: same_record_def snapshot_release_record_def)
  show ?thesis
    using assms json_eq_member_int [OF eq, of "''version''" "sn_version x"] eq
    by (simp add: snapshot_row_def reads_as_def same_record_def snapshot_release_record_def) (simp add: snapshot_row_fields_def)
qed

lemma same_attestation_row:
  assumes "same_record (attestation_release_record (cd_time cd) (n, a)) (lg_record q)"
    "reads_as (read_attestation cd) (signed_attestation_fields (cd_time cd) a) a"
  shows "attestation_row cd q a"
proof -
  have eq: "json_eq (JObj (signed_attestation_fields (cd_time cd) a)) (JObj (row_payload q))"
    using assms(1) by (simp add: same_record_def attestation_release_record_def)
  obtain p' where p': "attestation_json (cd_time cd) (sa_payload a) = JObj p'"
    "(''evidence_id'', JStr (ap_evidence_id (sa_payload a))) \<in> set p'"
    "(''evidence_version'', JInt (ap_evidence_version (sa_payload a))) \<in> set p'"
    by (simp add: attestation_json_def)
  have "(''payload'', JObj p') \<in> set (signed_attestation_fields (cd_time cd) a)" by (simp add: signed_attestation_fields_def p'(1))
  from json_eq_inside [OF eq this] show ?thesis using assms(2) eq p'(2,3) by (simp add: attestation_row_def reads_as_def)
qed

lemma same_extraction_row:
  assumes "same_record (extraction_release_record (cd_time cd) fl x) (lg_record q)"
    "reads_as (read_extraction cd) (extraction_fields (cd_time cd) fl x) x"
  shows "extraction_row cd q x"
proof -
  have eq: "json_eq (JObj (extraction_fields (cd_time cd) fl x)) (JObj (row_payload q))"
    using assms(1) by (simp add: same_record_def extraction_release_record_def)
  show ?thesis
    using assms json_eq_member_text [OF eq, of "''evidence_id''" "ex_evidence_id x"]
      json_eq_member_int [OF eq, of "''evidence_version''" "ex_evidence_version x"] eq
    by (simp add: extraction_row_def reads_as_def same_record_def extraction_release_record_def) (simp add: extraction_fields_def)
qed

lemma same_review_row:
  assumes "same_record (review_release_record (cd_time cd) v) (lg_record q)"
    "reads_as (read_review cd) (review_fields (cd_time cd) v) v"
  shows "review_row cd q v"
proof -
  have eq: "json_eq (JObj (review_fields (cd_time cd) v)) (JObj (row_payload q))"
    using assms(1) by (simp add: same_record_def review_release_record_def)
  show ?thesis
    using assms json_eq_member_text [OF eq, of "''extraction_id''" "rv_extraction_id v"] eq
    by (simp add: review_row_def reads_as_def) (simp add: review_fields_def)
qed

section \<open>Histories after a migration\<close>

definition same_place :: "evidence_version \<Rightarrow> evidence_version \<Rightarrow> bool" where
  "same_place r q \<longleftrightarrow> election_id r = election_id q \<and> ev_polling_unit_code r = ev_polling_unit_code q
     \<and> ev_document_type r = ev_document_type q"

definition places_ok :: "pg_codec \<Rightarrow> ledger \<Rightarrow> bool" where
  "places_ok cd st \<longleftrightarrow> (\<forall>eid. \<forall>r \<in> set (history (pg_evidence cd st) eid). \<forall>q \<in> set (history (pg_evidence cd st) eid). same_place r q)"

text \<open>The SQLite store lets a later version of an evidence id name another election, polling unit or document type. Here no
  id with a version in the election has done so.\<close>

definition evidence_stays :: "evidence_store \<Rightarrow> string \<Rightarrow> bool" where
  "evidence_stays s el \<longleftrightarrow> (\<forall>r \<in> set (version_rows s). \<forall>q \<in> set (version_rows s).
     evidence_id r = evidence_id q \<longrightarrow> election_id r = el \<longrightarrow> same_place r q)"

definition migrates :: "pg_codec \<Rightarrow> (string \<Rightarrow> string) \<Rightarrow> registry_store \<Rightarrow> evidence_store \<Rightarrow> string \<Rightarrow> ledger \<Rightarrow> ledger \<Rightarrow> bool" where
  "migrates cd fl reg s el st st' \<longleftrightarrow> registry_reachable (cd_time cd) reg \<and> evidence_reachable s \<and> sources_kept cd fl reg s
     \<and> migrated el (all_records (cd_time cd) fl reg s el) st st'"

lemma migrates_old_rows:
  assumes "migrates cd fl reg s el st st'"
  obtains new where "rows_of ty st' = rows_of ty st @ new" "\<forall>q \<in> set new. lg_election_id q = el \<and> record_type (lg_record q) = ty"
proof -
  obtain new where new: "lg_rows st' = lg_rows st @ new" "\<forall>q \<in> set new. lg_election_id q = el"
    using assms by (auto simp: migrates_def migrated_def)
  then show thesis by (intro that [of "filter (\<lambda>q. record_type (lg_record q) = ty) new"]) (auto simp: rows_of_def)
qed

lemma migrates_rows:
  assumes "migrates cd fl reg s el st st'"
  shows "x \<in> set (all_records (cd_time cd) fl reg s el) \<Longrightarrow>
      \<exists>q \<in> set (rows_of (record_type x) st'). lg_election_id q = el \<and> same_record x (lg_record q)"
    "q \<in> set (rows_of ty st') \<Longrightarrow> lg_election_id q = el \<Longrightarrow>
      \<exists>x \<in> set (all_records (cd_time cd) fl reg s el). record_type x = ty \<and> same_record x (lg_record q)"
  using assms by (fastforce simp: migrates_def migrated_def rows_of_subset same_record_def)+

lemma source_records:
  assumes "evidence_reachable s" "x \<in> set (all_records dt fl reg s el)"
  shows "record_type x = registry_snapshot_record \<Longrightarrow> \<exists>y \<in> set (snapshot_rows reg). sn_election_id y = el \<and> x = snapshot_release_record dt y"
    "record_type x = evidence_version_record \<Longrightarrow> \<exists>r \<in> set (version_rows s). election_id r = el \<and> x = version_release_record r"
    "record_type x = attestation_record \<Longrightarrow> \<exists>n. \<exists>a \<in> set (attestation_rows s).
       of_election s el (ap_evidence_id (sa_payload a)) (ap_evidence_version (sa_payload a)) \<and> x = attestation_release_record dt (n, a)"
    "record_type x = extraction_record_type \<Longrightarrow> \<exists>y \<in> set (extraction_rows s).
       of_election s el (ex_evidence_id y) (ex_evidence_version y) \<and> x = extraction_release_record dt fl y"
    "record_type x = extraction_review_record \<Longrightarrow> \<exists>v \<in> set (review_rows s).
       of_election s el (rv_evidence_id v) (rv_evidence_version v) \<and> x = review_release_record dt v"
proof -
  have entry: "a \<in> set (attestation_rows s)" if "(n, a) \<in> set (attestation_entries s)" for n a
    using that by (auto simp: attestation_entries_def dest: set_zip_rightD)
  note x = assms(2) [unfolded all_records_set [OF assms(1)]]
  show "record_type x = registry_snapshot_record \<Longrightarrow> \<exists>y \<in> set (snapshot_rows reg). sn_election_id y = el \<and> x = snapshot_release_record dt y"
    using x by auto
  show "record_type x = evidence_version_record \<Longrightarrow> \<exists>r \<in> set (version_rows s). election_id r = el \<and> x = version_release_record r"
    using x by auto
  show "record_type x = attestation_record \<Longrightarrow> \<exists>n. \<exists>a \<in> set (attestation_rows s).
       of_election s el (ap_evidence_id (sa_payload a)) (ap_evidence_version (sa_payload a)) \<and> x = attestation_release_record dt (n, a)"
    using x entry by auto
  show "record_type x = extraction_record_type \<Longrightarrow> \<exists>y \<in> set (extraction_rows s).
       of_election s el (ex_evidence_id y) (ex_evidence_version y) \<and> x = extraction_release_record dt fl y"
    using x by auto
  show "record_type x = extraction_review_record \<Longrightarrow> \<exists>v \<in> set (review_rows s).
       of_election s el (rv_evidence_id v) (rv_evidence_version v) \<and> x = review_release_record dt v"
    using x by auto
qed

lemma migrated_version_rows:
  assumes "migrates cd fl reg s el st st'"
  shows "q \<in> set (rows_of evidence_version_record st') \<Longrightarrow> lg_election_id q = el \<Longrightarrow>
      \<exists>r \<in> set (version_rows s). election_id r = el \<and> version_row cd q r"
    "r \<in> set (version_rows s) \<Longrightarrow> election_id r = el \<Longrightarrow>
      \<exists>q \<in> set (rows_of evidence_version_record st'). lg_election_id q = el \<and> version_row cd q r"
proof -
  have s: "evidence_reachable s" and kept: "r \<in> set (version_rows s) \<Longrightarrow> reads_as (read_version cd) (version_row_fields r) r" for r
    using assms by (simp_all add: migrates_def sources_kept_def)
  show "\<exists>r \<in> set (version_rows s). election_id r = el \<and> version_row cd q r"
    if q: "q \<in> set (rows_of evidence_version_record st')" "lg_election_id q = el"
  proof -
    obtain x where x: "x \<in> set (all_records (cd_time cd) fl reg s el)" "record_type x = evidence_version_record"
      "same_record x (lg_record q)" using migrates_rows(2) [OF assms q] by blast
    obtain r where "r \<in> set (version_rows s)" "election_id r = el" "x = version_release_record r"
      using source_records(2) [OF s x(1,2)] by blast
    then show ?thesis using same_version_row [of r q] x(3) kept q(2) by auto
  qed
  show "\<exists>q \<in> set (rows_of evidence_version_record st'). lg_election_id q = el \<and> version_row cd q r"
    if "r \<in> set (version_rows s)" "election_id r = el"
  proof -
    have "version_release_record r \<in> set (all_records (cd_time cd) fl reg s el)" using that by (simp add: all_records_set [OF s])
    from migrates_rows(1) [OF assms this] obtain q where "q \<in> set (rows_of evidence_version_record st')" "lg_election_id q = el"
      "same_record (version_release_record r) (lg_record q)" by auto
    then show ?thesis using same_version_row [of r q] kept that by auto
  qed
qed

lemma version_row_of: "version_row cd q r \<Longrightarrow> version_of cd q = r"
  by (simp add: version_row_def version_of_def)

lemma migrated_versions_ok:
  assumes "migrates cd fl reg s el st st'" "versions_ok cd st"
  shows "versions_ok cd st'"
  unfolding versions_ok_def
proof
  fix q assume q: "q \<in> set (rows_of evidence_version_record st')"
  obtain new where new: "rows_of evidence_version_record st' = rows_of evidence_version_record st @ new"
    "\<forall>q \<in> set new. lg_election_id q = el \<and> record_type (lg_record q) = evidence_version_record"
    by (rule migrates_old_rows [OF assms(1)])
  show "version_row cd q (version_of cd q)"
  proof (cases "lg_election_id q = el")
    case True
    then show ?thesis using migrated_version_rows(1) [OF assms(1) q] version_row_of by fastforce
  next
    case False
    then have "q \<in> set (rows_of evidence_version_record st)" using q new by auto
    then show ?thesis using assms(2) by (simp add: versions_ok_def)
  qed
qed

lemma sort_key_unique:
  assumes "set xs = set ys" "distinct (map f xs)" "distinct (map f ys)"
  shows "sort_key f xs = sort_key f ys"
  by (rule map_sorted_distinct_set_unique [of f])
    (use assms in \<open>simp_all add: distinct_map_sort\<close>, simp add: distinct_map)

lemma row_keys:
  assumes "ledger_ok st" "p \<in> set (rows_of ty st)" "q \<in> set (rows_of ty st)" "release_key (lg_record p) = release_key (lg_record q)"
  shows "p = q"
  by (rule same_key_row [OF _ assms(2-4)]) (use assms(1) in \<open>simp add: keys_distinct_def ledger_ok_def\<close>)

lemma distinct_by_row:
  assumes "ledger_ok st" "\<And>p q. p \<in> set qs \<Longrightarrow> q \<in> set qs \<Longrightarrow> f p = f q \<Longrightarrow> release_key (lg_record p) = release_key (lg_record q)"
    "qs = filter P (rows_of ty st)"
  shows "distinct (map f qs)"
proof -
  have "distinct (lg_rows st)" using assms(1) by (auto simp: ledger_ok_def distinct_map)
  then have "distinct qs" by (simp add: assms(3) rows_of_def)
  moreover have "inj_on f (set qs)"
  proof (rule inj_onI)
    fix p q assume p: "p \<in> set qs" and q: "q \<in> set qs" and e: "f p = f q"
    have "p \<in> set (rows_of ty st)" "q \<in> set (rows_of ty st)" using p q unfolding assms(3) by simp_all
    then show "p = q" by (rule row_keys [OF assms(1)]) (rule assms(2) [OF p q e])
  qed
  ultimately show ?thesis by (simp add: distinct_map)
qed

lemma first_version: "map f h = [1..int (length h)] \<Longrightarrow> h \<noteq> [] \<Longrightarrow> \<exists>r \<in> set h. f r = 1"
proof -
  assume m: "map f h = [1..int (length h)]" and "h \<noteq> []"
  then have "1 \<in> set [1..int (length h)]" by (cases h) simp_all
  then show ?thesis unfolding m [symmetric] by auto
qed

lemma history_member: "r \<in> set (history s eid) \<longleftrightarrow> r \<in> set (version_rows s) \<and> evidence_id r = eid"
  by (auto simp: history_def)

lemma pg_history_member:
  "r \<in> set (history (pg_evidence cd st) eid) \<longleftrightarrow> (\<exists>q \<in> set (rows_of evidence_version_record st). r = version_of cd q) \<and> evidence_id r = eid"
  by (auto simp: history_member pg_evidence_def pg_versions_def)

text \<open>No version of an id of the migrated election is filed under another one: both would have a first version.\<close>

lemma migrated_ids_only_there:
  assumes "migrates cd fl reg s el st st'" "versions_ok cd st" "pg_evidence_log.sound cd st" "places_ok cd st" "evidence_stays s el"
    "r \<in> set (version_rows s)" "election_id r = el"
    "q \<in> set (rows_of evidence_version_record st')" "evidence_id (version_of cd q) = evidence_id r"
  shows "lg_election_id q = el"
proof (rule ccontr)
  let ?eid = "evidence_id r" and ?h = "history (pg_evidence cd st)"
  assume other: "lg_election_id q \<noteq> el"
  have ok': "versions_ok cd st'" "ledger_ok st'" using migrated_versions_ok [OF assms(1,2)] assms(1) by (simp_all add: migrates_def migrated_def)
  obtain new where new: "rows_of evidence_version_record st' = rows_of evidence_version_record st @ new"
    "\<forall>q \<in> set new. lg_election_id q = el \<and> record_type (lg_record q) = evidence_version_record"
    by (rule migrates_old_rows [OF assms(1)])
  then have old_q: "q \<in> set (rows_of evidence_version_record st)" using assms(8) other by auto
  then have "version_row cd q (version_of cd q)" using assms(2) by (simp add: versions_ok_def)
  then have q: "version_of cd q \<in> set (?h ?eid)" "election_id (version_of cd q) \<noteq> el"
    using assms(9) other old_q unfolding pg_history_member by (blast, simp add: version_row_def)
  have "?h ?eid \<noteq> []" using q(1) by (cases "?h ?eid") simp_all
  then obtain r1 where r1: "r1 \<in> set (?h ?eid)" "version r1 = 1"
    using first_version [OF pg_evidence_log.sound_history(3) [OF assms(3)], of ?eid] by blast
  from r1(1) obtain q1 where q1: "q1 \<in> set (rows_of evidence_version_record st)" "r1 = version_of cd q1" "evidence_id r1 = ?eid"
    unfolding pg_history_member by blast
  have row1: "version_row cd q1 r1" using assms(2) q1 by (simp add: versions_ok_def)
  have "same_place r1 (version_of cd q)" using assms(4) r1(1) q(1) by (simp add: places_ok_def)
  then have e1: "lg_election_id q1 \<noteq> el" using q(2) row1 by (simp add: same_place_def version_row_def)
  have reach: "evidence_reachable s" using assms(1) by (simp add: migrates_def)
  have "r \<in> set (history s ?eid)" using assms(6) by (simp add: history_member)
  then have "history s ?eid \<noteq> []" by (cases "history s ?eid") simp_all
  moreover have "map version (history s ?eid) = [1..int (length (history s ?eid))]"
    using evidence_log.sound_history(3) reachable_ok [OF reach] by blast
  ultimately obtain r2 where "r2 \<in> set (history s ?eid)" and one: "version r2 = 1" using first_version by blast
  then have r2: "r2 \<in> set (version_rows s)" "evidence_id r2 = ?eid" "version r2 = 1" by (simp_all add: history_member)
  have "same_place r r2" using assms(5-7) r2(1,2) by (simp add: evidence_stays_def)
  then have "election_id r2 = el" using assms(7) by (simp add: same_place_def)
  then obtain q2 where q2: "q2 \<in> set (rows_of evidence_version_record st')" "lg_election_id q2 = el" "version_row cd q2 r2"
    using migrated_version_rows(2) [OF assms(1) r2(1)] by blast
  have old: "q1 \<in> set (rows_of evidence_version_record st')" using new(1) q1(1) by simp
  have "q1 = q2"
    by (rule row_keys [OF ok'(2) old q2(1)]) (use q1(3) r1(2) r2(2,3) row1 q2(3) in \<open>simp add: version_row_def\<close>)
  with e1 q2(2) show False by simp
qed

lemma migrated_history:
  assumes "migrates cd fl reg s el st st'" "versions_ok cd st" "pg_evidence_log.sound cd st" "places_ok cd st" "evidence_stays s el"
  shows "history (pg_evidence cd st') eid =
    (if \<exists>r \<in> set (version_rows s). evidence_id r = eid \<and> election_id r = el then history s eid else history (pg_evidence cd st) eid)"
proof (cases "\<exists>r \<in> set (version_rows s). evidence_id r = eid \<and> election_id r = el")
  case True
  then obtain r where r: "r \<in> set (version_rows s)" "evidence_id r = eid" "election_id r = el" by blast
  have ok': "versions_ok cd st'" "ledger_ok st'" and reach: "evidence_reachable s"
    using migrated_versions_ok [OF assms(1,2)] assms(1) by (simp_all add: migrates_def migrated_def)
  let ?qs = "filter (\<lambda>q. evidence_id (version_of cd q) = eid) (rows_of evidence_version_record st')"
  have versions: "filter (\<lambda>r. evidence_id r = eid) (pg_versions cd st') = map (version_of cd) ?qs"
    by (simp add: pg_versions_def filter_map comp_def)
  have row: "version_row cd q (version_of cd q)" if "q \<in> set ?qs" for q using ok'(1) that by (simp add: versions_ok_def)
  have "sort_key version (filter (\<lambda>r. evidence_id r = eid) (pg_versions cd st')) = sort_key version (filter (\<lambda>r. evidence_id r = eid) (version_rows s))"
  proof (rule sort_key_unique)
    show "set (filter (\<lambda>r. evidence_id r = eid) (pg_versions cd st')) = set (filter (\<lambda>r. evidence_id r = eid) (version_rows s))"
    proof (intro equalityI subsetI)
      fix x assume "x \<in> set (filter (\<lambda>r. evidence_id r = eid) (pg_versions cd st'))"
      then obtain q where q: "q \<in> set (rows_of evidence_version_record st')" "x = version_of cd q" "evidence_id x = eid"
        by (auto simp: pg_versions_def)
      then have "lg_election_id q = el" using migrated_ids_only_there [OF assms r(1,3) q(1)] r(2) by simp
      then obtain y where "y \<in> set (version_rows s)" "version_row cd q y" using migrated_version_rows(1) [OF assms(1) q(1)] by blast
      then show "x \<in> set (filter (\<lambda>r. evidence_id r = eid) (version_rows s))" using q version_row_of by fastforce
    next
      fix x assume x: "x \<in> set (filter (\<lambda>r. evidence_id r = eid) (version_rows s))"
      then have "election_id x = el" using assms(5) r by (auto simp: evidence_stays_def same_place_def)
      then obtain q where "q \<in> set (rows_of evidence_version_record st')" "version_row cd q x"
        using migrated_version_rows(2) [OF assms(1), of x] x by auto
      then show "x \<in> set (filter (\<lambda>r. evidence_id r = eid) (pg_versions cd st'))"
        using x version_row_of by (fastforce simp: pg_versions_def)
    qed
    have "release_key (lg_record p) = release_key (lg_record q)"
      if "p \<in> set ?qs" "q \<in> set ?qs" "version (version_of cd p) = version (version_of cd q)" for p q
      using row that by (auto simp: version_row_def)
    then have "distinct (map (\<lambda>q. version (version_of cd q)) ?qs)" by (intro distinct_by_row [OF ok'(2) _ refl]) blast
    then show "distinct (map version (filter (\<lambda>r. evidence_id r = eid) (pg_versions cd st')))" by (simp add: versions comp_def)
    have "map version (history s eid) = [1..int (length (history s eid))]"
      using evidence_log.sound_history(3) reachable_ok [OF reach] by blast
    then have "distinct (map version (history s eid))" by simp
    then show "distinct (map version (filter (\<lambda>r. evidence_id r = eid) (version_rows s)))" by (simp add: history_def distinct_map_sort)
  qed
  then show ?thesis using True by (simp add: history_def pg_evidence_def)
next
  case False
  obtain new where new: "rows_of evidence_version_record st' = rows_of evidence_version_record st @ new"
    "\<forall>q \<in> set new. lg_election_id q = el \<and> record_type (lg_record q) = evidence_version_record"
    by (rule migrates_old_rows [OF assms(1)])
  have "evidence_id (version_of cd q) \<noteq> eid" if q: "q \<in> set new" for q
  proof -
    have "q \<in> set (rows_of evidence_version_record st')" "lg_election_id q = el" using new q by simp_all
    then obtain r where "r \<in> set (version_rows s)" "election_id r = el" "version_row cd q r"
      using migrated_version_rows(1) [OF assms(1)] by blast
    then show ?thesis using False version_row_of by fastforce
  qed
  then have "filter (\<lambda>r. evidence_id r = eid) (map (version_of cd) new) = []" by (auto simp: filter_empty_conv)
  then have "history (pg_evidence cd st') eid = history (pg_evidence cd st) eid"
    by (simp add: history_def pg_evidence_def pg_versions_def new(1))
  then show ?thesis unfolding if_not_P [OF False] .
qed

lemma migrated_evidence_sound:
  assumes "migrates cd fl reg s el st st'" "versions_ok cd st" "pg_evidence_log.sound cd st" "places_ok cd st" "evidence_stays s el"
  shows "versions_ok cd st' \<and> pg_evidence_log.sound cd st' \<and> places_ok cd st'"
proof -
  have reach: "evidence_log.sound s" using assms(1) reachable_ok by (auto simp: migrates_def)
  note h = migrated_history [OF assms]
  have "pg_evidence_log.sound cd st'"
    unfolding pg_evidence_log.sound_def h using evidence_log.sound_history [OF reach] pg_evidence_log.sound_history [OF assms(3)]
    by (simp only: split: if_split) blast
  moreover have "places_ok cd st'"
    unfolding places_ok_def
  proof (intro allI ballI)
    fix eid r q assume "r \<in> set (history (pg_evidence cd st') eid)" "q \<in> set (history (pg_evidence cd st') eid)"
    then have m: "r \<in> set (if \<exists>r \<in> set (version_rows s). evidence_id r = eid \<and> election_id r = el then history s eid
        else history (pg_evidence cd st) eid)" "q \<in> set (if \<exists>r \<in> set (version_rows s). evidence_id r = eid \<and> election_id r = el
        then history s eid else history (pg_evidence cd st) eid)" by (simp_all only: h)
    show "same_place r q"
    proof (cases "\<exists>r \<in> set (version_rows s). evidence_id r = eid \<and> election_id r = el")
      case True
      then obtain p where p: "p \<in> set (version_rows s)" "evidence_id p = eid" "election_id p = el" by blast
      have "r \<in> set (version_rows s)" "evidence_id r = eid" "q \<in> set (version_rows s)" "evidence_id q = eid"
        using m True by (simp_all add: history_member)
      then have "same_place p r" "same_place p q" using assms(5) p by (simp_all add: evidence_stays_def)
      then show ?thesis by (simp add: same_place_def)
    next
      case False
      then have "r \<in> set (history (pg_evidence cd st) eid)" "q \<in> set (history (pg_evidence cd st) eid)"
        using m unfolding if_not_P [OF False] by blast+
      then show ?thesis using assms(4) unfolding places_ok_def by blast
    qed
  qed
  ultimately show ?thesis using migrated_versions_ok [OF assms(1,2)] by blast
qed

section \<open>Registry snapshots after a migration\<close>

lemma snapshot_row_of: "snapshot_row cd q x \<Longrightarrow> snapshot_of cd q = x"
  by (simp add: snapshot_row_def snapshot_of_def)

lemma migrated_snapshot_rows:
  assumes "migrates cd fl reg s el st st'"
  shows "q \<in> set (rows_of registry_snapshot_record st') \<Longrightarrow> lg_election_id q = el \<Longrightarrow>
      \<exists>x \<in> set (snapshot_rows reg). sn_election_id x = el \<and> snapshot_row cd q x"
    "x \<in> set (snapshot_rows reg) \<Longrightarrow> sn_election_id x = el \<Longrightarrow>
      \<exists>q \<in> set (rows_of registry_snapshot_record st'). lg_election_id q = el \<and> snapshot_row cd q x"
proof -
  have s: "evidence_reachable s"
    and kept: "x \<in> set (snapshot_rows reg) \<Longrightarrow> reads_as (read_snapshot cd) (snapshot_row_fields (cd_time cd) x) x" for x
    using assms by (simp_all add: migrates_def sources_kept_def)
  show "\<exists>x \<in> set (snapshot_rows reg). sn_election_id x = el \<and> snapshot_row cd q x"
    if q: "q \<in> set (rows_of registry_snapshot_record st')" "lg_election_id q = el"
  proof -
    obtain y where y: "y \<in> set (all_records (cd_time cd) fl reg s el)" "record_type y = registry_snapshot_record"
      "same_record y (lg_record q)" using migrates_rows(2) [OF assms q] by blast
    obtain x where "x \<in> set (snapshot_rows reg)" "sn_election_id x = el" "y = snapshot_release_record (cd_time cd) x"
      using source_records(1) [OF s y(1,2)] by blast
    then show ?thesis using same_snapshot_row [of cd x q] y(3) kept q(2) by auto
  qed
  show "\<exists>q \<in> set (rows_of registry_snapshot_record st'). lg_election_id q = el \<and> snapshot_row cd q x"
    if "x \<in> set (snapshot_rows reg)" "sn_election_id x = el"
  proof -
    have "snapshot_release_record (cd_time cd) x \<in> set (all_records (cd_time cd) fl reg s el)"
      using that by (simp add: all_records_set [OF s])
    from migrates_rows(1) [OF assms this] obtain q where "q \<in> set (rows_of registry_snapshot_record st')" "lg_election_id q = el"
      "same_record (snapshot_release_record (cd_time cd) x) (lg_record q)" by auto
    then show ?thesis using same_snapshot_row [of cd x q] kept that by auto
  qed
qed

lemma migrated_snapshots_ok:
  assumes "migrates cd fl reg s el st st'" "snapshots_ok cd st"
  shows "snapshots_ok cd st'"
  unfolding snapshots_ok_def
proof
  fix q assume q: "q \<in> set (rows_of registry_snapshot_record st')"
  obtain new where new: "rows_of registry_snapshot_record st' = rows_of registry_snapshot_record st @ new"
    "\<forall>q \<in> set new. lg_election_id q = el \<and> record_type (lg_record q) = registry_snapshot_record"
    by (rule migrates_old_rows [OF assms(1)])
  show "snapshot_row cd q (snapshot_of cd q)"
  proof (cases "lg_election_id q = el")
    case True
    then show ?thesis using migrated_snapshot_rows(1) [OF assms(1) q] snapshot_row_of by fastforce
  next
    case False
    then have "q \<in> set (rows_of registry_snapshot_record st)" using q new by auto
    then show ?thesis using assms(2) by (simp add: snapshots_ok_def)
  qed
qed

lemma migrated_registry:
  assumes "migrates cd fl reg s el st st'" "snapshots_ok cd st" "time_dump_ok (cd_time cd)"
  shows "registry_history (pg_registry cd st') k = (if k = el then registry_history reg el else registry_history (pg_registry cd st) k)"
proof (cases "k = el")
  case True
  have ok': "snapshots_ok cd st'" "ledger_ok st'" and reach: "registry_reachable (cd_time cd) reg"
    using migrated_snapshots_ok [OF assms(1,2)] assms(1) by (simp_all add: migrates_def migrated_def)
  let ?qs = "filter (\<lambda>q. sn_election_id (snapshot_of cd q) = el) (rows_of registry_snapshot_record st')"
  have snaps: "filter (\<lambda>x. sn_election_id x = el) (snapshot_rows (pg_registry cd st')) = map (snapshot_of cd) ?qs"
    by (simp add: pg_registry_def filter_map comp_def)
  have row: "snapshot_row cd q (snapshot_of cd q)" if "q \<in> set ?qs" for q using ok'(1) that by (simp add: snapshots_ok_def)
  have "sort_key sn_version (filter (\<lambda>x. sn_election_id x = el) (snapshot_rows (pg_registry cd st')))
      = sort_key sn_version (filter (\<lambda>x. sn_election_id x = el) (snapshot_rows reg))"
  proof (rule sort_key_unique)
    show "set (filter (\<lambda>x. sn_election_id x = el) (snapshot_rows (pg_registry cd st'))) = set (filter (\<lambda>x. sn_election_id x = el) (snapshot_rows reg))"
    proof (intro equalityI subsetI)
      fix x assume "x \<in> set (filter (\<lambda>x. sn_election_id x = el) (snapshot_rows (pg_registry cd st')))"
      then obtain q where q: "q \<in> set ?qs" "x = snapshot_of cd q" by (auto simp: snaps)
      then have "lg_election_id q = el" using row by (auto simp: snapshot_row_def)
      then obtain y where "y \<in> set (snapshot_rows reg)" "sn_election_id y = el" "snapshot_row cd q y"
        using migrated_snapshot_rows(1) [OF assms(1), of q] q(1) by auto
      then show "x \<in> set (filter (\<lambda>x. sn_election_id x = el) (snapshot_rows reg))" using q(2) snapshot_row_of by fastforce
    next
      fix x assume x: "x \<in> set (filter (\<lambda>x. sn_election_id x = el) (snapshot_rows reg))"
      then obtain q where "q \<in> set (rows_of registry_snapshot_record st')" "snapshot_row cd q x"
        using migrated_snapshot_rows(2) [OF assms(1), of x] by auto
      then show "x \<in> set (filter (\<lambda>x. sn_election_id x = el) (snapshot_rows (pg_registry cd st')))"
        using x snapshot_row_of by (fastforce simp: snaps)
    qed
    have "release_key (lg_record p) = release_key (lg_record q)"
      if "p \<in> set ?qs" "q \<in> set ?qs" "sn_version (snapshot_of cd p) = sn_version (snapshot_of cd q)" for p q
      using row that by (auto simp: snapshot_row_def)
    then have "distinct (map (\<lambda>q. sn_version (snapshot_of cd q)) ?qs)" by (intro distinct_by_row [OF ok'(2) _ refl]) blast
    then show "distinct (map sn_version (filter (\<lambda>x. sn_election_id x = el) (snapshot_rows (pg_registry cd st'))))"
      by (simp add: snaps comp_def)
    have "map sn_version (registry_history reg el) = [1..int (length (registry_history reg el))]"
      using registry_log.sound_history(3) [OF registry_reachable_sound [OF assms(3) reach]] .
    then have "distinct (map sn_version (registry_history reg el))" by simp
    then show "distinct (map sn_version (filter (\<lambda>x. sn_election_id x = el) (snapshot_rows reg)))"
      by (simp add: registry_history_def distinct_map_sort)
  qed
  then show ?thesis using True by (simp add: registry_history_def)
next
  case False
  obtain new where new: "rows_of registry_snapshot_record st' = rows_of registry_snapshot_record st @ new"
    "\<forall>q \<in> set new. lg_election_id q = el \<and> record_type (lg_record q) = registry_snapshot_record"
    by (rule migrates_old_rows [OF assms(1)])
  have "sn_election_id (snapshot_of cd q) \<noteq> k" if q: "q \<in> set new" for q
  proof -
    have "q \<in> set (rows_of registry_snapshot_record st')" "lg_election_id q = el" using new q by simp_all
    then obtain x where "sn_election_id x = el" "snapshot_row cd q x"
      using migrated_snapshot_rows(1) [OF assms(1)] by blast
    then show ?thesis using False snapshot_row_of by fastforce
  qed
  then have "filter (\<lambda>x. sn_election_id x = k) (map (snapshot_of cd) new) = []" by (auto simp: filter_empty_conv)
  then show ?thesis using False by (simp add: registry_history_def pg_registry_def new(1))
qed

lemma migrated_registry_sound:
  assumes "migrates cd fl reg s el st st'" "snapshots_ok cd st" "pg_registry_log.sound cd st" "time_dump_ok (cd_time cd)"
  shows "snapshots_ok cd st' \<and> pg_registry_log.sound cd st'"
proof -
  have "registry_reachable (cd_time cd) reg" using assms(1) by (simp add: migrates_def)
  note reg = registry_log.sound_history [OF registry_reachable_sound [OF assms(4) this], of el]
  have "pg_registry_log.sound cd st'"
    unfolding pg_registry_log.sound_def migrated_registry [OF assms(1,2,4)] using reg pg_registry_log.sound_history [OF assms(3)]
    by (simp only: split: if_split) blast
  then show ?thesis using migrated_snapshots_ok [OF assms(1,2)] by blast
qed

section \<open>References after a migration\<close>

lemma version_unique:
  "evidence_reachable s \<Longrightarrow> r \<in> set (version_rows s) \<Longrightarrow> q \<in> set (version_rows s) \<Longrightarrow> evidence_id r = evidence_id q \<Longrightarrow>
    version r = version q \<Longrightarrow> r = q"
  using version_rows_distinct [of s] by (auto simp: distinct_map dest: inj_onD)

lemma migrated_bound:
  assumes "migrates cd fl reg s el st st'" "bound_to s eid v h" "of_election s el eid v"
  shows "pg_bound cd st' el eid v h"
proof -
  have reach: "evidence_reachable s" using assms(1) by (simp add: migrates_def)
  obtain r q where r: "r \<in> set (version_rows s)" "evidence_id r = eid" "version r = v" "record_hash r = h"
    and q: "q \<in> set (version_rows s)" "evidence_id q = eid" "version q = v" "election_id q = el"
    using assms(2,3) by (auto simp: bound_to_def of_election_def)
  have "r = q" by (rule version_unique [OF reach r(1) q(1)]) (simp_all add: r q)
  then obtain p where "p \<in> set (rows_of evidence_version_record st')" "version_row cd p r"
    using migrated_version_rows(2) [OF assms(1) r(1)] q(4) by blast
  then show ?thesis using r \<open>r = q\<close> q(4) by (auto simp: pg_bound_def)
qed

lemma migrated_extraction_row:
  assumes "migrates cd fl reg s el st st'" "x \<in> set (extraction_rows s)" "of_election s el (ex_evidence_id x) (ex_evidence_version x)"
  shows "\<exists>q \<in> set (rows_of extraction_record_type st'). lg_election_id q = el \<and> extraction_row cd q x"
proof -
  have s: "evidence_reachable s" and kept: "reads_as (read_extraction cd) (extraction_fields (cd_time cd) fl x) x"
    using assms(1,2) by (simp_all add: migrates_def sources_kept_def)
  have "extraction_release_record (cd_time cd) fl x \<in> set (all_records (cd_time cd) fl reg s el)"
    using assms(2,3) by (simp add: all_records_set [OF s])
  from migrates_rows(1) [OF assms(1) this] obtain q where "q \<in> set (rows_of extraction_record_type st')" "lg_election_id q = el"
    "same_record (extraction_release_record (cd_time cd) fl x) (lg_record q)" by auto
  then show ?thesis using same_extraction_row [OF _ kept] by blast
qed

lemma migrated_refs:
  assumes "migrates cd fl reg s el st st'" "pg_refs_ok cd st"
  shows "pg_refs_ok cd st'"
proof -
  have reach: "evidence_reachable s" and kept: "sources_kept cd fl reg s" and ok': "ledger_ok st'"
    using assms(1) by (simp_all add: migrates_def migrated_def)
  have refs: "a \<in> set (attestation_rows s) \<Longrightarrow> attestation_ok s a" "x \<in> set (extraction_rows s) \<Longrightarrow> extraction_ok s x"
    "v \<in> set (review_rows s) \<Longrightarrow> review_ok s v" for a x v
    using reachable_ok [OF reach] by (simp_all add: references_ok_def list_all_iff)
  have sub: "set (rows_of ty st) \<subseteq> set (rows_of ty st')" for ty
    by (rule migrates_old_rows [OF assms(1), of ty]) auto
  have old: "q \<in> set (rows_of ty st)" if "q \<in> set (rows_of ty st')" "lg_election_id q \<noteq> el" for q ty
    by (rule migrates_old_rows [OF assms(1), of ty]) (use that in auto)
  note src = source_records [OF reach] and rows = migrates_rows(2) [OF assms(1)]
  show ?thesis unfolding pg_refs_ok_def
  proof (intro conjI ballI)
    show "versions_ok cd st'" using migrated_versions_ok [OF assms(1)] assms(2) by (simp add: pg_refs_ok_def)
    show "keys_distinct st'" using ok' by (simp add: keys_distinct_def ledger_ok_def)
  next
    fix q assume q: "q \<in> set (rows_of attestation_record st')"
    show "attestation_bound cd st' q"
    proof (cases "lg_election_id q = el")
      case True
      obtain y where y: "y \<in> set (all_records (cd_time cd) fl reg s el)" "record_type y = attestation_record" "same_record y (lg_record q)"
        using rows [OF q True] by blast
      obtain n a where a: "a \<in> set (attestation_rows s)" "y = attestation_release_record (cd_time cd) (n, a)"
        "of_election s el (ap_evidence_id (sa_payload a)) (ap_evidence_version (sa_payload a))" using src(3) [OF y(1,2)] by blast
      have "attestation_row cd q a"
        by (rule same_attestation_row) (use y(3) a kept in \<open>simp_all add: sources_kept_def\<close>)
      then show ?thesis using migrated_bound [OF assms(1) _ a(3)] refs(1) [OF a(1)] True
        by (auto simp: attestation_bound_def attestation_ok_def)
    next
      case False
      then show ?thesis using bound_mono(1) [OF sub] old [OF q] assms(2) by (simp add: pg_refs_ok_def)
    qed
  next
    fix q assume q: "q \<in> set (rows_of extraction_record_type st')"
    show "extraction_bound cd st' q"
    proof (cases "lg_election_id q = el")
      case True
      obtain y where y: "y \<in> set (all_records (cd_time cd) fl reg s el)" "record_type y = extraction_record_type" "same_record y (lg_record q)"
        using rows [OF q True] by blast
      obtain x where x: "x \<in> set (extraction_rows s)" "y = extraction_release_record (cd_time cd) fl x"
        "of_election s el (ex_evidence_id x) (ex_evidence_version x)" using src(4) [OF y(1,2)] by blast
      have "extraction_row cd q x"
        by (rule same_extraction_row [of cd "fl" x q]) (use y(3) x kept in \<open>simp_all add: sources_kept_def\<close>)
      moreover have "pg_bound cd st' (lg_election_id q) (ex_evidence_id x) (ex_evidence_version x) (ex_record_hash x)"
        using migrated_bound [OF assms(1) _ x(3)] refs(2) [OF x(1)] True by (simp add: extraction_ok_def)
      moreover have "\<exists>p \<in> set (rows_of extraction_record_type st'). \<exists>z. extraction_row cd p z \<and> extraction_id z = xid
          \<and> ex_evidence_id z = ex_evidence_id x \<and> ex_evidence_version z = ex_evidence_version x"
        if super: "supersedes_extraction_id x = Some xid" for xid
      proof -
        obtain z where z: "z \<in> set (extraction_rows s)" "extraction_id z = xid" "ex_evidence_id z = ex_evidence_id x"
          "ex_evidence_version z = ex_evidence_version x" using refs(2) [OF x(1)] super by (auto simp: extraction_ok_def)
        then show ?thesis using migrated_extraction_row [OF assms(1) z(1)] x(3) by auto
      qed
      ultimately show ?thesis unfolding extraction_bound_def by blast
    next
      case False
      then show ?thesis using bound_mono(2) [OF sub] old [OF q] assms(2) by (simp add: pg_refs_ok_def)
    qed
  next
    fix q assume q: "q \<in> set (rows_of extraction_review_record st')"
    show "review_bound cd st' q"
    proof (cases "lg_election_id q = el")
      case True
      obtain y where y: "y \<in> set (all_records (cd_time cd) fl reg s el)" "record_type y = extraction_review_record" "same_record y (lg_record q)"
        using rows [OF q True] by blast
      obtain v where v: "v \<in> set (review_rows s)" "y = review_release_record (cd_time cd) v"
        "of_election s el (rv_evidence_id v) (rv_evidence_version v)" using src(5) [OF y(1,2)] by blast
      have row: "review_row cd q v"
        by (rule same_review_row) (use y(3) v kept in \<open>simp_all add: sources_kept_def\<close>)
      obtain x where x: "x \<in> set (extraction_rows s)" "extraction_id x = rv_extraction_id v" "ex_evidence_id x = rv_evidence_id v"
        "ex_evidence_version x = rv_evidence_version v" "fr_field_name ` set (rv_fields v) \<subseteq> field_name ` set (ex_fields x)"
        using refs(3) [OF v(1)] by (auto simp: review_ok_def)
      obtain p where "p \<in> set (rows_of extraction_record_type st')" "lg_election_id p = el" "extraction_row cd p x"
        using migrated_extraction_row [OF assms(1) x(1)] v(3) x(3,4) by auto
      then show ?thesis using row x(2-5) True unfolding review_bound_def by (intro exI [of _ v]) auto
    next
      case False
      then show ?thesis using bound_mono(3) [OF sub] old [OF q] assms(2) by (simp add: pg_refs_ok_def)
    qed
  qed
qed

section \<open>Queries after a migration\<close>

text \<open>What the queries return for the versions of the migrated election is what the SQLite store returns.\<close>

lemma read_rows_set:
  assumes "\<And>q. q \<in> set qs \<Longrightarrow> \<exists>y \<in> Y. f q = Inr y" "\<And>y. y \<in> Y \<Longrightarrow> \<exists>q \<in> set qs. f q = Inr y"
  shows "\<exists>ys. map_result f qs = Inr ys \<and> set ys = Y"
proof -
  have "\<exists>ys. map_result f qs = Inr ys \<and> set ys = {y. \<exists>q \<in> set qs. f q = Inr y}" using assms(1)
  proof (induction qs)
    case (Cons q qs)
    obtain y where "f q = Inr y" using Cons.prems [of q] by auto
    moreover obtain ys where "map_result f qs = Inr ys" "set ys = {y. \<exists>q \<in> set qs. f q = Inr y}" using Cons by auto
    ultimately show ?case by auto
  qed simp
  moreover have "{y. \<exists>q \<in> set qs. f q = Inr y} = Y" using assms by force
  ultimately show ?thesis by simp
qed

lemma bound_in_migrated:
  assumes "migrates cd fl reg s el st st'" "versions_ok cd st" "pg_evidence_log.sound cd st" "places_ok cd st" "evidence_stays s el"
    "of_election s el eid v" "pg_bound cd st' e eid w h"
  shows "e = el"
proof -
  obtain r where r: "r \<in> set (version_rows s)" "election_id r = el" "evidence_id r = eid" using assms(6) by (auto simp: of_election_def)
  obtain q r' where q: "q \<in> set (rows_of evidence_version_record st')" "version_row cd q r'" "election_id r' = e" "evidence_id r' = eid"
    using assms(7) by (auto simp: pg_bound_def)
  have "lg_election_id q = el"
    by (rule migrated_ids_only_there [OF assms(1-5) r(1,2) q(1)]) (simp add: version_row_of [OF q(2)] q(4) r(3))
  then show ?thesis using q(2,3) by (simp add: version_row_def)
qed

lemma bound_of_election:
  assumes "bound_to s eid v h" "evidence_stays s el" "of_election s el eid w"
  shows "of_election s el eid v"
proof -
  obtain r where r: "r \<in> set (version_rows s)" "evidence_id r = eid" "version r = v" using assms(1) by (auto simp: bound_to_def)
  obtain q where q: "q \<in> set (version_rows s)" "evidence_id q = eid" "election_id q = el" using assms(3) by (auto simp: of_election_def)
  have "same_place q r" using assms(2) r q by (simp add: evidence_stays_def)
  then show ?thesis using r q(3) by (auto simp: of_election_def same_place_def)
qed

lemma migrated_attestations:
  assumes "migrates cd fl reg s el st st'" "versions_ok cd st" "pg_evidence_log.sound cd st" "places_ok cd st" "evidence_stays s el"
    "pg_refs_ok cd st" "of_election s el eid v"
  shows "\<exists>as. pg_attestations cd st' eid v = Inr as \<and> set as = set (attestations s eid v)"
  unfolding pg_attestations_def
proof (rule read_rows_set)
  have reach: "evidence_reachable s" and kept: "\<And>a. a \<in> set (attestation_rows s) \<Longrightarrow>
      reads_as (read_attestation cd) (signed_attestation_fields (cd_time cd) a) a"
    using assms(1) by (simp_all add: migrates_def sources_kept_def)
  fix q assume "q \<in> set (sort_key (\<lambda>q. release_key (lg_record q)) (filter (\<lambda>q. text_at [''payload'', ''evidence_id''] (row_payload q) = Some eid
           \<and> int_at [''payload'', ''evidence_version''] (row_payload q) = Some v) (rows_of attestation_record st')))"
  then have q: "q \<in> set (rows_of attestation_record st')" "text_at [''payload'', ''evidence_id''] (row_payload q) = Some eid"
    "int_at [''payload'', ''evidence_version''] (row_payload q) = Some v" by simp_all
  have "attestation_bound cd st' q" using migrated_refs [OF assms(1,6)] q(1) by (simp add: pg_refs_ok_def)
  then obtain a where a: "attestation_row cd q a" "pg_bound cd st' (lg_election_id q) (ap_evidence_id (sa_payload a))
      (ap_evidence_version (sa_payload a)) (ap_record_hash (sa_payload a))" by (auto simp: attestation_bound_def)
  have id: "ap_evidence_id (sa_payload a) = eid" "ap_evidence_version (sa_payload a) = v" using a(1) q(2,3) by (simp_all add: attestation_row_def)
  have "lg_election_id q = el" using bound_in_migrated [OF assms(1-5,7)] a(2) id by simp
  from migrates_rows(2) [OF assms(1) q(1) this] obtain y where y: "y \<in> set (all_records (cd_time cd) fl reg s el)"
    "record_type y = attestation_record" "same_record y (lg_record q)" by blast
  from source_records(3) [OF reach y(1,2)] obtain n b where b: "b \<in> set (attestation_rows s)"
    "y = attestation_release_record (cd_time cd) (n, b)" by blast
  have "attestation_row cd q b" by (rule same_attestation_row) (use y(3) b kept in simp_all)
  then have "a = b" using a(1) by (simp add: attestation_row_def)
  then show "\<exists>a \<in> set (attestations s eid v). read_attestation cd (row_payload q) = Inr a"
    using a(1) b(1) id by (auto simp: attestations_def attestation_row_def)
next
  have reach: "evidence_reachable s" and kept: "\<And>a. a \<in> set (attestation_rows s) \<Longrightarrow>
      reads_as (read_attestation cd) (signed_attestation_fields (cd_time cd) a) a"
    using assms(1) by (simp_all add: migrates_def sources_kept_def)
  fix a assume "a \<in> set (attestations s eid v)"
  then have a: "a \<in> set (attestation_rows s)" "ap_evidence_id (sa_payload a) = eid" "ap_evidence_version (sa_payload a) = v"
    by (simp_all add: attestations_def)
  then have "a \<in> snd ` set (attestation_entries s)" using attestation_entries_rows(1) [OF reach] by (metis image_set)
  then obtain n where "(n, a) \<in> set (attestation_entries s)" by auto
  then have "attestation_release_record (cd_time cd) (n, a) \<in> set (all_records (cd_time cd) fl reg s el)"
    using a assms(7) by (auto simp: all_records_set [OF reach])
  from migrates_rows(1) [OF assms(1) this] obtain q where q: "q \<in> set (rows_of attestation_record st')"
    "same_record (attestation_release_record (cd_time cd) (n, a)) (lg_record q)" by auto
  have "attestation_row cd q a" by (rule same_attestation_row [OF q(2) kept [OF a(1)]])
  then show "\<exists>q \<in> set (sort_key (\<lambda>q. release_key (lg_record q)) (filter (\<lambda>q. text_at [''payload'', ''evidence_id''] (row_payload q) = Some eid
           \<and> int_at [''payload'', ''evidence_version''] (row_payload q) = Some v) (rows_of attestation_record st'))).
         read_attestation cd (row_payload q) = Inr a"
    using q(1) a(2,3) by (intro bexI [of _ q]) (simp_all add: attestation_row_def)
qed

lemma migrated_extractions:
  assumes "migrates cd fl reg s el st st'" "versions_ok cd st" "pg_evidence_log.sound cd st" "places_ok cd st" "evidence_stays s el"
    "pg_refs_ok cd st" "of_election s el eid v"
  shows "\<exists>xs. pg_extractions cd st' eid v = Inr xs \<and> set xs = set (extractions s eid v)"
  unfolding pg_extractions_def
proof (rule read_rows_set)
  have reach: "evidence_reachable s" and kept: "\<And>x. x \<in> set (extraction_rows s) \<Longrightarrow>
      reads_as (read_extraction cd) (extraction_fields (cd_time cd) fl x) x"
    using assms(1) by (simp_all add: migrates_def sources_kept_def)
  fix q assume "q \<in> set (sort_key stored_order (filter (\<lambda>q. text_at [''evidence_id''] (row_payload q) = Some eid
        \<and> int_at [''evidence_version''] (row_payload q) = Some v) (rows_of extraction_record_type st')))"
  then have q: "q \<in> set (rows_of extraction_record_type st')" "text_at [''evidence_id''] (row_payload q) = Some eid"
    "int_at [''evidence_version''] (row_payload q) = Some v" by simp_all
  have "extraction_bound cd st' q" using migrated_refs [OF assms(1,6)] q(1) by (simp add: pg_refs_ok_def)
  then obtain x where x: "extraction_row cd q x" "pg_bound cd st' (lg_election_id q) (ex_evidence_id x) (ex_evidence_version x) (ex_record_hash x)"
    unfolding extraction_bound_def by blast
  have id: "ex_evidence_id x = eid" "ex_evidence_version x = v" using x(1) q(2,3) by (simp_all add: extraction_row_def)
  have "lg_election_id q = el" using bound_in_migrated [OF assms(1-5,7)] x(2) id by simp
  from migrates_rows(2) [OF assms(1) q(1) this] obtain y where y: "y \<in> set (all_records (cd_time cd) fl reg s el)"
    "record_type y = extraction_record_type" "same_record y (lg_record q)" by blast
  from source_records(4) [OF reach y(1,2)] obtain z where z: "z \<in> set (extraction_rows s)"
    "y = extraction_release_record (cd_time cd) fl z" by blast
  have "extraction_row cd q z" by (rule same_extraction_row [of cd fl z q]) (use y(3) z kept in simp_all)
  then have "x = z" using x(1) by (simp add: extraction_row_def)
  then show "\<exists>x \<in> set (extractions s eid v). read_extraction cd (row_payload q) = Inr x"
    using x(1) z(1) id by (auto simp: extractions_def extraction_row_def)
next
  fix x assume "x \<in> set (extractions s eid v)"
  then have x: "x \<in> set (extraction_rows s)" "ex_evidence_id x = eid" "ex_evidence_version x = v" by (simp_all add: extractions_def)
  then obtain q where q: "q \<in> set (rows_of extraction_record_type st')" "extraction_row cd q x"
    using migrated_extraction_row [OF assms(1) x(1)] assms(7) by auto
  then show "\<exists>q \<in> set (sort_key stored_order (filter (\<lambda>q. text_at [''evidence_id''] (row_payload q) = Some eid
        \<and> int_at [''evidence_version''] (row_payload q) = Some v) (rows_of extraction_record_type st'))).
       read_extraction cd (row_payload q) = Inr x"
    using x(2,3) by (intro bexI [of _ q]) (simp_all add: extraction_row_def)
qed

lemma migrated_reviews:
  assumes "migrates cd fl reg s el st st'" "pg_refs_ok cd st" "x \<in> set (extraction_rows s)"
    "of_election s el (ex_evidence_id x) (ex_evidence_version x)"
  shows "\<exists>vs. pg_extraction_reviews cd st' (extraction_id x) = Inr vs \<and> set vs = set (extraction_reviews s (extraction_id x))"
  unfolding pg_extraction_reviews_def
proof (rule read_rows_set)
  have reach: "evidence_reachable s" and kept: "\<And>v. v \<in> set (review_rows s) \<Longrightarrow> reads_as (read_review cd) (review_fields (cd_time cd) v) v"
    using assms(1) by (simp_all add: migrates_def sources_kept_def)
  fix q assume "q \<in> set (sort_key stored_order (filter (\<lambda>q. text_at [''extraction_id''] (row_payload q) = Some (extraction_id x))
       (rows_of extraction_review_record st')))"
  then have q: "q \<in> set (rows_of extraction_review_record st')" "text_at [''extraction_id''] (row_payload q) = Some (extraction_id x)"
    by simp_all
  have refs: "pg_refs_ok cd st'" by (rule migrated_refs [OF assms(1,2)])
  then have "review_bound cd st' q" using q(1) by (simp add: pg_refs_ok_def)
  then obtain v p y where v: "review_row cd q v" "p \<in> set (rows_of extraction_record_type st')" "extraction_row cd p y"
    "lg_election_id p = lg_election_id q" "extraction_id y = rv_extraction_id v" unfolding review_bound_def by blast
  have id: "rv_extraction_id v = extraction_id x" using v(1) q(2) by (simp add: review_row_def)
  obtain p' where p': "p' \<in> set (rows_of extraction_record_type st')" "lg_election_id p' = el" "extraction_row cd p' x"
    using migrated_extraction_row [OF assms(1,3,4)] by blast
  have "p = p'"
    by (rule same_key_row [OF _ v(2) p'(1)]) (use refs v(3,5) p'(3) id in \<open>simp_all add: pg_refs_ok_def extraction_row_def\<close>)
  then have "lg_election_id q = el" using v(4) p'(2) by simp
  from migrates_rows(2) [OF assms(1) q(1) this] obtain z where z: "z \<in> set (all_records (cd_time cd) fl reg s el)"
    "record_type z = extraction_review_record" "same_record z (lg_record q)" by blast
  from source_records(5) [OF reach z(1,2)] obtain w where w: "w \<in> set (review_rows s)" "z = review_release_record (cd_time cd) w" by blast
  have "review_row cd q w" by (rule same_review_row) (use z(3) w kept in simp_all)
  then have "v = w" using v(1) by (simp add: review_row_def)
  then show "\<exists>v \<in> set (extraction_reviews s (extraction_id x)). read_review cd (row_payload q) = Inr v"
    using v(1) w(1) id by (auto simp: extraction_reviews_def review_row_def)
next
  have reach: "evidence_reachable s" and kept: "\<And>v. v \<in> set (review_rows s) \<Longrightarrow> reads_as (read_review cd) (review_fields (cd_time cd) v) v"
    using assms(1) by (simp_all add: migrates_def sources_kept_def)
  fix v assume "v \<in> set (extraction_reviews s (extraction_id x))"
  then have v: "v \<in> set (review_rows s)" "rv_extraction_id v = extraction_id x" by (simp_all add: extraction_reviews_def)
  have refs: "review_ok s v" "inj_on extraction_id (set (extraction_rows s))"
    using reachable_ok [OF reach] v(1) by (simp_all add: references_ok_def distinct_map list_all_iff)
  then obtain y where y: "y \<in> set (extraction_rows s)" "extraction_id y = rv_extraction_id v" "ex_evidence_id y = rv_evidence_id v"
    "ex_evidence_version y = rv_evidence_version v" by (auto simp: review_ok_def)
  have "y = x" using inj_onD [OF refs(2) _ y(1) assms(3)] y(2) v(2) by simp
  then have "review_release_record (cd_time cd) v \<in> set (all_records (cd_time cd) fl reg s el)"
    using v(1) y(3,4) assms(4) by (simp add: all_records_set [OF reach])
  from migrates_rows(1) [OF assms(1) this] obtain q where q: "q \<in> set (rows_of extraction_review_record st')"
    "same_record (review_release_record (cd_time cd) v) (lg_record q)" by auto
  have "review_row cd q v" by (rule same_review_row [OF q(2) kept [OF v(1)]])
  then show "\<exists>q \<in> set (sort_key stored_order (filter (\<lambda>q. text_at [''extraction_id''] (row_payload q) = Some (extraction_id x))
       (rows_of extraction_review_record st'))). read_review cd (row_payload q) = Inr v"
    using q(1) v(2) by (intro bexI [of _ q]) (simp_all add: review_row_def)
qed

end
