(* ===== verification/Postgres_Evidence.thy ===== *)
theory Postgres_Evidence
  imports Postgres_Migration
begin

text \<open>
  What the PostgreSQL evidence and registry stores keep over every run of the ledger: elections activated natively or
  migrated from the SQLite stores, and then written by the stores.
\<close>

section \<open>Runs\<close>

text \<open>What is assumed of JSONB, of the texts that pydantic prints for times and of those for floats.\<close>

definition codec_ok :: "pg_codec \<Rightarrow> bool" where
  "codec_ok cd \<longleftrightarrow> jsonb_keeps (cd_jsonb cd) \<and> jsonb_objects (cd_jsonb cd) \<and> time_dump_ok (cd_time cd)
     \<and> (\<forall>x. float_text_ok (cd_float cd x))"

text \<open>A migration of an election from SQLite stores in any state they can reach, whose evidence ids stay in one place. That the
  digests of the source and of the target agree means that the records do.\<close>

definition migration_run :: "pg_codec \<Rightarrow> string \<Rightarrow> bool \<Rightarrow> registry_store \<Rightarrow> evidence_store option \<Rightarrow> ledger \<Rightarrow> ledger \<Rightarrow> bool" where
  "migration_run cd el activate reg store st st' \<longleftrightarrow> registry_reachable (cd_time cd) reg \<and> evidence_reachable (stored_evidence store)
     \<and> evidence_stays (stored_evidence store) el \<and> sources_kept cd (cd_float cd) reg (stored_evidence store)
     \<and> (\<exists>bar now bar' report.
          migrate_sqlite_election (cd_time cd) (cd_float cd) (cd_jsonb cd) (Some reg) store bar el activate now st = Inr (bar', st', report))
     \<and> (\<forall>source target. collect_release_records (cd_time cd) (cd_float cd) (Some reg) store el = Inr source \<longrightarrow>
          records_in el st' = Inr target \<longrightarrow> collision_free {application_bytes source, application_bytes target})"

text \<open>\<open>required\<close> is the cutover gate of the stores. \<open>staging\<close> allows migrations that do not activate the election.\<close>

inductive pg_step :: "pg_codec \<Rightarrow> bool \<Rightarrow> bool \<Rightarrow> ledger \<Rightarrow> ledger \<Rightarrow> bool" for cd required staging where
  native: "activate_native el now st = Inr (st', c) \<Longrightarrow> pg_step cd required staging st st'"
| migrate: "migration_run cd el activate reg store st st' \<Longrightarrow> activate \<or> staging \<Longrightarrow> pg_step cd required staging st st'"
| version: "pg_append_version cd required a now fresh st = Inr (st', r) \<Longrightarrow> version_kept cd r \<Longrightarrow>
    datetime_ok (va_observed_at a) \<Longrightarrow> offset_ok (va_observed_at a) \<Longrightarrow> datetime_ok now \<Longrightarrow> offset_ok now \<Longrightarrow>
    pg_step cd required staging st st'"
| attest: "pg_add_attestation cd required a st = Inr st' \<Longrightarrow> attestation_kept cd a \<Longrightarrow> pg_step cd required staging st st'"
| add_ext: "pg_add_extraction cd required args now fresh st = Inr (st', x) \<Longrightarrow> extraction_kept cd x \<Longrightarrow>
    pg_step cd required staging st st'"
| review: "pg_add_review cd required xid sub now fresh st = Inr (st', v) \<Longrightarrow> review_kept cd v \<Longrightarrow>
    pg_step cd required staging st st'"
| snapshot: "pg_append_snapshot cd required p now fresh st = Inr (st', s) \<Longrightarrow> snapshot_kept cd s \<Longrightarrow> payload_times_ok p \<Longrightarrow>
    datetime_ok now \<Longrightarrow> offset_ok now \<Longrightarrow> pg_step cd required staging st st'"

inductive pg_reachable :: "pg_codec \<Rightarrow> bool \<Rightarrow> bool \<Rightarrow> ledger \<Rightarrow> bool" for cd required staging where
  init: "pg_reachable cd required staging empty_ledger"
| step: "pg_reachable cd required staging st \<Longrightarrow> pg_step cd required staging st st' \<Longrightarrow> pg_reachable cd required staging st'"

lemma migrated_cong: "set xs = set ys \<Longrightarrow> migrated el xs st st' \<Longrightarrow> migrated el ys st st'"
  by (simp add: migrated_def)

lemma migration_run_effect:
  assumes "migration_run cd el activate reg store st st'" "ledger_ok st" "codec_ok cd"
  shows "migrates cd (cd_float cd) reg (stored_evidence store) el st st'" "evidence_stays (stored_evidence store) el"
    "cutover_of e st = Some c \<Longrightarrow> cutover_of e st' = Some c" "activate \<Longrightarrow> cutover_of el st' \<noteq> None"
proof -
  obtain bar now bar' report where m:
    "migrate_sqlite_election (cd_time cd) (cd_float cd) (cd_jsonb cd) (Some reg) store bar el activate now st = Inr (bar', st', report)"
    using assms(1) unfolding migration_run_def by blast
  have jb: "jsonb_objects (cd_jsonb cd)" and fl: "\<And>x. float_text_ok (cd_float cd x)" using assms(3) by (simp_all add: codec_ok_def)
  have cf: "collision_free {application_bytes source, application_bytes target}"
    if "collect_release_records (cd_time cd) (cd_float cd) (Some reg) store el = Inr source" "records_in el st' = Inr target" for source target
    using assms(1) that by (simp add: migration_run_def)
  have "\<exists>source. collect_release_records (cd_time cd) (cd_float cd) (Some reg) (Some (stored_evidence store)) el = Inr source
      \<and> migrated el source st st' \<and> (\<forall>e c. cutover_of e st = Some c \<longrightarrow> cutover_of e st' = Some c)
      \<and> (activate \<longrightarrow> cutover_of el st' \<noteq> None)"
    by (rule migration_effect [OF m assms(2) jb fl cf]) (assumption | intro exI conjI allI impI | blast)+
  then obtain source where s: "collect_release_records (cd_time cd) (cd_float cd) (Some reg) (Some (stored_evidence store)) el = Inr source"
    "migrated el source st st'" "\<forall>e c. cutover_of e st = Some c \<longrightarrow> cutover_of e st' = Some c" "activate \<longrightarrow> cutover_of el st' \<noteq> None"
    by blast
  show "migrates cd (cd_float cd) reg (stored_evidence store) el st st'"
    using assms(1) migrated_cong [OF collected_records_sorted(2) [OF s(1)] s(2)] by (simp add: migration_run_def migrates_def)
  show "evidence_stays (stored_evidence store) el" using assms(1) by (simp add: migration_run_def)
  show "cutover_of e st = Some c \<Longrightarrow> cutover_of e st' = Some c" "activate \<Longrightarrow> cutover_of el st' \<noteq> None" using s(3,4) by blast+
qed

section \<open>What a step changes\<close>

lemma native_rows: "activate_native el now st = Inr (st', c) \<Longrightarrow> rows_of ty st' = rows_of ty st"
  by (simp add: rows_of_def rows_of_native)

lemma attestation_insert:
  assumes "pg_add_attestation cd required a st = Inr st'"
  obtains q ev r where "evidence_row (ap_evidence_id (sa_payload a)) (ap_evidence_version (sa_payload a)) st = Some q"
    "read_version cd (row_payload q) = Inr ev" "record_hash ev = ap_record_hash (sa_payload a)"
    "assert_write_enabled required (election_id ev) st \<in> range Inr" "pg_attestation_record cd a = Inr r"
    "insert_record (cd_jsonb cd) (election_id ev) r st = Inr st'"
  using assms by (auto simp: pg_add_attestation_def split: option.splits if_splits)

lemma extraction_insert:
  assumes "pg_add_extraction cd required args now fresh st = Inr (st', x)"
  obtains q ev where "evidence_row (ex_evidence_id x) (ex_evidence_version x) st = Some q"
    "read_version cd (row_payload q) = Inr ev" "record_hash ev = ex_record_hash x"
    "assert_write_enabled required (election_id ev) st \<in> range Inr" "pg_check_superseded cd x st = Inr ()"
    "ex_fields x \<noteq> []" "insert_record (cd_jsonb cd) (election_id ev) (pg_extraction_record cd x) st = Inr st'"
proof -
  have "pg_check_superseded cd (args\<lparr>extraction_id := i, ex_stored_at := now\<rparr>) st = pg_check_superseded cd args st" for i
    by (cases "supersedes_extraction_id args") (simp_all add: pg_check_superseded_def)
  with assms that show ?thesis by (auto simp: pg_add_extraction_def Let_def split: option.splits if_splits)
qed

lemma review_insert:
  assumes "pg_add_review cd required xid sub now fresh st = Inr (st', v)"
  obtains q x where "keyed_row extraction_record_type xid st = Some q" "read_extraction cd (row_payload q) = Inr x"
    "assert_write_enabled required (lg_election_id q) st \<in> range Inr" "rv_extraction_id v = xid"
    "rv_evidence_id v = ex_evidence_id x" "rv_evidence_version v = ex_evidence_version x"
    "fr_field_name ` set (rv_fields v) \<subseteq> field_name ` set (ex_fields x)"
    "insert_record (cd_jsonb cd) (lg_election_id q) (pg_review_record cd v) st = Inr st'"
proof -
  obtain q x where "keyed_row extraction_record_type xid st = Some q" "read_extraction cd (row_payload q) = Inr x"
    using assms by (auto simp: pg_add_review_def split: option.splits)
  with assms that show ?thesis
    by (auto simp: pg_add_review_def Let_def review_record_def sorted_set_Nil split: if_splits)
qed

lemma attestation_type: "pg_attestation_record cd a = Inr r \<Longrightarrow> record_type r = attestation_record"
  by (auto simp: pg_attestation_record_def)

section \<open>Reachable ledgers\<close>

lemma version_insert:
  assumes "pg_append_version cd required a now fresh st = Inr (st', r)"
  shows "assert_write_enabled required (va_election_id a) st \<in> range Inr"
    "insert_record (cd_jsonb cd) (va_election_id a) (pg_version_record cd r) st = Inr st'"
  using assms by (auto simp: pg_append_version_def Let_def split: if_splits)

lemma snapshot_insert:
  assumes "pg_append_snapshot cd required p now fresh st = Inr (st', s)"
  shows "assert_write_enabled required (rp_election_id p) st \<in> range Inr"
    "insert_record (cd_jsonb cd) (rp_election_id p) (pg_snapshot_record cd s) st = Inr st'"
  using assms by (auto simp: pg_append_snapshot_def Let_def split: if_splits)

lemma record_kinds [simp]:
  "record_type (pg_version_record cd r) = evidence_version_record"
  "record_type (pg_extraction_record cd x) = extraction_record_type"
  "record_type (pg_review_record cd v) = extraction_review_record"
  "record_type (pg_snapshot_record cd s) = registry_snapshot_record"
  by (simp_all add: pg_version_record_def pg_extraction_record_def pg_review_record_def pg_snapshot_record_def)

lemma insert_payloads:
  assumes "codec_ok cd"
  shows "payload_ok (pg_version_record cd r)" "payload_ok (pg_extraction_record cd x)" "payload_ok (pg_review_record cd v)"
    "payload_ok (pg_snapshot_record cd s)" "pg_attestation_record cd a = Inr y \<Longrightarrow> payload_ok y"
proof -
  show "payload_ok (pg_version_record cd r)" by (simp add: payload_ok_def pg_version_record_def pg_version_fields_def source_json_def)
  show "payload_ok (pg_extraction_record cd x)"
    using record_payloads(5) [of "cd_float cd" "cd_time cd" x] assms
    by (simp add: codec_ok_def payload_ok_def pg_extraction_record_def extraction_release_record_def)
  show "payload_ok (pg_review_record cd v)"
    using record_payloads(4) [of "cd_time cd" v] by (simp add: payload_ok_def pg_review_record_def review_release_record_def)
  show "payload_ok (pg_snapshot_record cd s)"
    using record_payloads(1) [of "cd_time cd" s]
    by (simp add: payload_ok_def pg_snapshot_record_def snapshot_release_record_def snapshot_row_fields_def pg_snapshot_fields_def)
  show "payload_ok y" if "pg_attestation_record cd a = Inr y"
    using record_payloads(3) [of "cd_time cd" "(0, a)"] that
    by (auto simp: payload_ok_def pg_attestation_record_def attestation_release_record_def)
qed

text \<open>Every step but a cutover and a migration inserts one record of an election that may be written.\<close>

lemma step_inserts:
  assumes "pg_step cd required staging st st'"
  obtains (native) el now c where "activate_native el now st = Inr (st', c)"
  | (migrate) el activate reg store where "migration_run cd el activate reg store st st'" "activate \<or> staging"
  | (insert) el x where "insert_record (cd_jsonb cd) el x st = Inr st'" "assert_write_enabled required el st \<in> range Inr"
      "codec_ok cd \<Longrightarrow> payload_ok x"
      "record_type x = evidence_version_record \<Longrightarrow> codec_ok cd \<Longrightarrow> versions_ok cd st \<Longrightarrow> \<exists>r. pg_appends cd st r st'"
      "record_type x = registry_snapshot_record \<Longrightarrow> codec_ok cd \<Longrightarrow> snapshots_ok cd st \<Longrightarrow> \<exists>s. pg_registers cd st s st'"
  using assms
proof cases
  case (native el now c)
  then show ?thesis using that(1) by blast
next
  case (migrate el activate reg store)
  then show ?thesis using that(2) by blast
next
  case (version a now fresh r)
  have "pg_appends cd st r st'" if "codec_ok cd" "versions_ok cd st"
    using that version unfolding pg_appends_def codec_ok_def by blast
  then show ?thesis by (intro that(3) [OF version_insert(2,1) [OF version(1)]]) (auto intro: insert_payloads)
next
  case (attest a)
  from attest(1) show ?thesis
    by (rule attestation_insert) (rule that(3), auto dest: attestation_type intro: insert_payloads)
next
  case (add_ext args now fresh x)
  from add_ext(1) show ?thesis by (rule extraction_insert) (rule that(3), auto intro: insert_payloads)
next
  case (review xid sub now fresh v)
  from review(1) show ?thesis by (rule review_insert) (rule that(3), auto intro: insert_payloads)
next
  case (snapshot p now fresh s)
  have "pg_registers cd st s st'" if "codec_ok cd" "snapshots_ok cd st"
    using that snapshot unfolding pg_registers_def codec_ok_def by blast
  then show ?thesis by (intro that(3) [OF snapshot_insert(2,1) [OF snapshot(1)]]) (auto intro: insert_payloads)
qed

lemma step_ledger:
  assumes "pg_step cd required staging st st'" "codec_ok cd" "ledger_ok st"
  shows "ledger_ok st'"
  using assms(1)
proof (cases rule: step_inserts)
  case (native el now c)
  then show ?thesis using activate_native_ok assms(3) by blast
next
  case (migrate el activate reg store)
  then show ?thesis using migration_run_effect(1) [OF migrate(1) assms(3,2)] by (simp add: migrates_def migrated_def)
next
  case (insert el x)
  then show ?thesis using insert_record_ok [OF insert(1) assms(3)] assms(2) by (auto simp: codec_ok_def)
qed

lemma reachable_ledger: "pg_reachable cd required staging st \<Longrightarrow> codec_ok cd \<Longrightarrow> ledger_ok st"
  by (induction rule: pg_reachable.induct) (simp add: empty_ledger_ok, blast intro: step_ledger)

lemma appends_places:
  assumes "pg_appends cd st r st'" "places_ok cd st"
  shows "places_ok cd st'"
  unfolding places_ok_def
proof (intro allI ballI)
  fix eid p q
  let ?h = "history (pg_evidence cd st)"
  assume pq: "p \<in> set (history (pg_evidence cd st') eid)" "q \<in> set (history (pg_evidence cd st') eid)"
  have h: "history (pg_evidence cd st') eid = (if eid = evidence_id r then ?h eid @ [r] else ?h eid)"
    using pg_evidence_log.append_history [OF assms(1)] .
  have old: "same_place x y" if "x \<in> set (?h eid)" "y \<in> set (?h eid)" for x y using assms(2) that by (auto simp: places_ok_def)
  have new: "same_place r x" if "x \<in> set (?h eid)" "eid = evidence_id r" for x
  proof -
    have "last (?h eid) \<in> set (?h eid)" using that(1) by (cases "?h eid") auto
    then have "same_place (last (?h eid)) x" using old that(1) by blast
    moreover have "?h (evidence_id r) \<noteq> []" using that by auto
    ultimately show ?thesis using pg_appends_row(7) [OF assms(1)] that(2) by (auto simp: same_place_def)
  qed
  have sym: "same_place x r" if "x \<in> set (?h eid)" "eid = evidence_id r" for x
    using new [OF that] by (simp add: same_place_def)
  have "p \<in> set (?h eid) \<or> eid = evidence_id r \<and> p = r" "q \<in> set (?h eid) \<or> eid = evidence_id r \<and> q = r"
    using pq by (simp_all add: h split: if_splits) blast+
  moreover have "same_place r r" by (simp add: same_place_def)
  ultimately show "same_place p q" using old new sym by blast
qed

definition versions_sound :: "pg_codec \<Rightarrow> ledger \<Rightarrow> bool" where
  "versions_sound cd st \<longleftrightarrow> versions_ok cd st \<and> pg_evidence_log.sound cd st \<and> places_ok cd st"

lemma same_versions_sound:
  assumes "rows_of evidence_version_record st' = rows_of evidence_version_record st" "versions_sound cd st"
  shows "versions_sound cd st'"
proof -
  have "pg_evidence cd st' = pg_evidence cd st" using assms(1) by (simp add: pg_evidence_def pg_versions_def)
  then show ?thesis using assms by (simp add: versions_sound_def versions_ok_def pg_evidence_log.sound_def places_ok_def)
qed

lemma step_versions:
  assumes "pg_step cd required staging st st'" "codec_ok cd" "ledger_ok st" "versions_sound cd st"
  shows "versions_sound cd st'"
  using assms(1)
proof (cases rule: step_inserts)
  case (native el now c)
  then show ?thesis using same_versions_sound [OF native_rows [OF native] assms(4)] by blast
next
  case (migrate el activate reg store)
  then show ?thesis
    using migrated_evidence_sound [OF migration_run_effect(1) [OF migrate(1) assms(3,2)]] migration_run_effect(2) [OF migrate(1) assms(3,2)]
      assms(4) by (simp add: versions_sound_def)
next
  case (insert el x)
  show ?thesis
  proof (cases "record_type x = evidence_version_record")
    case True
    then obtain r where r: "pg_appends cd st r st'" using insert(4) assms(2,4) by (auto simp: versions_sound_def)
    then show ?thesis
      using pg_appends_row(1) [OF r] pg_evidence_log.sound_append [OF _ r] appends_places [OF r] assms(4) by (simp add: versions_sound_def)
  next
    case False
    then show ?thesis using same_versions_sound [OF rows_of_other [OF insert(1)] assms(4)] by blast
  qed
qed

definition snapshots_sound :: "pg_codec \<Rightarrow> ledger \<Rightarrow> bool" where
  "snapshots_sound cd st \<longleftrightarrow> snapshots_ok cd st \<and> pg_registry_log.sound cd st"

lemma same_snapshots_sound:
  assumes "rows_of registry_snapshot_record st' = rows_of registry_snapshot_record st" "snapshots_sound cd st"
  shows "snapshots_sound cd st'"
proof -
  have "pg_registry cd st' = pg_registry cd st" using assms(1) by (simp add: pg_registry_def)
  then show ?thesis using assms by (simp add: snapshots_sound_def snapshots_ok_def pg_registry_log.sound_def)
qed

lemma step_snapshots:
  assumes "pg_step cd required staging st st'" "codec_ok cd" "ledger_ok st" "snapshots_sound cd st"
  shows "snapshots_sound cd st'"
  using assms(1)
proof (cases rule: step_inserts)
  case (native el now c)
  then show ?thesis using same_snapshots_sound [OF native_rows [OF native] assms(4)] by blast
next
  case (migrate el activate reg store)
  then show ?thesis
    using migrated_registry_sound [OF migration_run_effect(1) [OF migrate(1) assms(3,2)]] assms(2,4)
    by (simp add: snapshots_sound_def codec_ok_def)
next
  case (insert el x)
  show ?thesis
  proof (cases "record_type x = registry_snapshot_record")
    case True
    then obtain s where s: "pg_registers cd st s st'" using insert(5) assms(2,4) by (auto simp: snapshots_sound_def)
    then show ?thesis
      using pg_registers_row(1) [OF s] pg_registry_log.sound_append [OF _ s] assms(4) by (simp add: snapshots_sound_def)
  next
    case False
    then show ?thesis using same_snapshots_sound [OF rows_of_other [OF insert(1)] assms(4)] by blast
  qed
qed

lemma reachable_sound:
  "pg_reachable cd required staging st \<Longrightarrow> codec_ok cd \<Longrightarrow> versions_sound cd st \<and> snapshots_sound cd st"
proof (induction rule: pg_reachable.induct)
  case init
  have "history (pg_evidence cd empty_ledger) k = []" "registry_history (pg_registry cd empty_ledger) k = []" for k
    by (simp_all add: history_def pg_evidence_def pg_versions_def registry_history_def pg_registry_def rows_of_def empty_ledger_def)
  then show ?case
    by (simp add: versions_sound_def snapshots_sound_def versions_ok_def snapshots_ok_def rows_of_def empty_ledger_def
        pg_evidence_log.sound_def pg_registry_log.sound_def places_ok_def)
next
  case (step st st')
  then show ?case using step_versions step_snapshots reachable_ledger by blast
qed

lemma attestation_added:
  assumes "row_added (cd_jsonb cd) el r q" "pg_attestation_record cd a = Inr r" "attestation_kept cd a" "jsonb_keeps (cd_jsonb cd)"
  shows "attestation_row cd q a"
proof -
  have p: "cd_jsonb cd (signed_attestation_fields (cd_time cd) a) = Some (row_payload q)"
    using row_added_simps(4) [OF assms(1)] assms(2) by (auto simp: pg_attestation_record_def)
  then show ?thesis
    using assms(3) kept_text [OF assms(4) p, of "[''payload'', ''evidence_id'']"] kept_int [OF assms(4) p, of "[''payload'', ''evidence_version'']"]
    by (simp add: attestation_row_def attestation_kept_def signed_attestation_fields_def attestation_json_def)
qed

lemma extraction_added:
  assumes "row_added (cd_jsonb cd) el (pg_extraction_record cd x) q" "extraction_kept cd x" "jsonb_keeps (cd_jsonb cd)"
  shows "extraction_row cd q x"
proof -
  have p: "cd_jsonb cd (extraction_fields (cd_time cd) (cd_float cd) x) = Some (row_payload q)"
    using row_added_simps(4) [OF assms(1)] by (simp add: pg_extraction_record_def)
  then show ?thesis
    using assms(2) kept_text [OF assms(3) p, of "[''evidence_id'']"] kept_int [OF assms(3) p, of "[''evidence_version'']"]
      row_added_simps(3) [OF assms(1)]
    by (simp add: extraction_row_def extraction_kept_def extraction_fields_def pg_extraction_record_def)
qed

lemma review_added:
  assumes "row_added (cd_jsonb cd) el (pg_review_record cd v) q" "review_kept cd v" "jsonb_keeps (cd_jsonb cd)"
  shows "review_row cd q v"
proof -
  have p: "cd_jsonb cd (review_fields (cd_time cd) v) = Some (row_payload q)"
    using row_added_simps(4) [OF assms(1)] by (simp add: pg_review_record_def)
  then show ?thesis using assms(2) kept_text [OF assms(3) p, of "[''extraction_id'']"]
    by (simp add: review_row_def review_kept_def review_fields_def)
qed

lemma evidence_row_bound:
  assumes "evidence_row eid v st = Some q" "versions_ok cd st" "read_version cd (row_payload q) = Inr r"
  shows "pg_bound cd st (election_id r) eid v (record_hash r)"
  using evidence_row_Some [OF assms] by (auto simp: pg_bound_def)

lemma superseded_row:
  assumes "pg_check_superseded cd x st = Inr ()" "pg_refs_ok cd st" "supersedes_extraction_id x = Some xid"
  shows "\<exists>p \<in> set (rows_of extraction_record_type st). \<exists>y. extraction_row cd p y \<and> extraction_id y = xid
    \<and> ex_evidence_id y = ex_evidence_id x \<and> ex_evidence_version y = ex_evidence_version x"
proof -
  obtain y where y: "pg_get_extraction cd st xid = Inr y" "ex_evidence_id y = ex_evidence_id x"
    "ex_evidence_version y = ex_evidence_version x"
    using assms(1,3) by (auto simp: pg_check_superseded_def split: if_splits)
  then obtain q where "keyed_row extraction_record_type xid st = Some q" "read_extraction cd (row_payload q) = Inr y"
    by (auto simp: pg_get_extraction_def split: option.splits)
  from keyed_row_Some [OF this assms(2)] y(2,3) show ?thesis by blast
qed

lemma step_refs:
  assumes "pg_step cd required staging st st'" "codec_ok cd" "pg_refs_ok cd st" "ledger_ok st" "versions_sound cd st"
  shows "pg_refs_ok cd st'"
proof -
  have ok: "versions_ok cd st" using assms(3) by (simp add: pg_refs_ok_def)
  have ok': "versions_ok cd st'" using step_versions [OF assms(1,2,4,5)] by (simp add: versions_sound_def)
  have jb: "jsonb_keeps (cd_jsonb cd)" using assms(2) by (simp add: codec_ok_def)
  show ?thesis using assms(1)
  proof cases
    case (native el now c)
    have rows: "rows_of ty st' = rows_of ty st" for ty using native_rows [OF native] .
    have "keys_distinct st'" using assms(3) by (simp add: pg_refs_ok_def keys_distinct_def rows_of_native [OF native])
    then show ?thesis using assms(3) by (simp add: pg_refs_ok_def ok' rows bound_mono [of st st'])
  next
    case (migrate el activate reg store)
    show ?thesis by (rule migrated_refs [OF migration_run_effect(1) [OF migrate(1) assms(4,2)] assms(3)])
  next
    case (version a now fresh r)
    show ?thesis by (rule refs_insert [OF version_insert(2) [OF version(1)] assms(3) ok']) auto
  next
    case (attest a)
    from attest(1) show ?thesis
    proof (rule attestation_insert)
      fix q ev r
      assume a: "evidence_row (ap_evidence_id (sa_payload a)) (ap_evidence_version (sa_payload a)) st = Some q"
        "read_version cd (row_payload q) = Inr ev" "record_hash ev = ap_record_hash (sa_payload a)"
        "pg_attestation_record cd a = Inr r" "insert_record (cd_jsonb cd) (election_id ev) r st = Inr st'"
      have "attestation_bound cd st p" if "row_added (cd_jsonb cd) (election_id ev) r p" for p
        using attestation_added [OF that a(4) attest(2) jb] evidence_row_bound [OF a(1) ok a(2)] a(3) row_added_simps(1) [OF that]
        by (auto simp: attestation_bound_def)
      then show ?thesis using attestation_type [OF a(4)] by (intro refs_insert [OF a(5) assms(3) ok']) auto
    qed
  next
    case (add_ext args now fresh x)
    from add_ext(1) show ?thesis
    proof (rule extraction_insert)
      fix q ev
      assume a: "evidence_row (ex_evidence_id x) (ex_evidence_version x) st = Some q"
        "read_version cd (row_payload q) = Inr ev" "record_hash ev = ex_record_hash x" "pg_check_superseded cd x st = Inr ()"
        "insert_record (cd_jsonb cd) (election_id ev) (pg_extraction_record cd x) st = Inr st'"
      have "extraction_bound cd st p" if "row_added (cd_jsonb cd) (election_id ev) (pg_extraction_record cd x) p" for p
        unfolding extraction_bound_def
        using extraction_added [OF that add_ext(2) jb] evidence_row_bound [OF a(1) ok a(2)] a(3) row_added_simps(1) [OF that]
          superseded_row [OF a(4) assms(3)] by (intro exI [of _ x]) simp
      then show ?thesis by (intro refs_insert [OF a(5) assms(3) ok']) auto
    qed
  next
    case (review xid sub now fresh v)
    from review(1) show ?thesis
    proof (rule review_insert)
      fix q x
      assume a: "keyed_row extraction_record_type xid st = Some q" "read_extraction cd (row_payload q) = Inr x"
        "rv_extraction_id v = xid" "rv_evidence_id v = ex_evidence_id x" "rv_evidence_version v = ex_evidence_version x"
        "fr_field_name ` set (rv_fields v) \<subseteq> field_name ` set (ex_fields x)"
        "insert_record (cd_jsonb cd) (lg_election_id q) (pg_review_record cd v) st = Inr st'"
      note k = keyed_row_Some [OF a(1,2) assms(3)]
      have "review_bound cd st p" if "row_added (cd_jsonb cd) (lg_election_id q) (pg_review_record cd v) p" for p
        unfolding review_bound_def
        using review_added [OF that review(2) jb] k a(3-6) row_added_simps(1) [OF that]
        by (intro exI [of _ v] conjI bexI [of _ q] exI [of _ x]) simp_all
      then show ?thesis by (intro refs_insert [OF a(7) assms(3) ok']) auto
    qed
  next
    case (snapshot p now fresh s)
    show ?thesis by (rule refs_insert [OF snapshot_insert(2) [OF snapshot(1)] assms(3) ok']) auto
  qed
qed

lemma reachable_refs:
  assumes "pg_reachable cd required staging st" "codec_ok cd"
  shows "pg_refs_ok cd st"
  using assms(1)
proof induction
  case init
  show ?case by (simp add: pg_refs_ok_def versions_ok_def keys_distinct_def rows_of_def empty_ledger_def)
next
  case (step st st')
  show ?case
    by (rule step_refs [OF step(2) assms(2) step(3) reachable_ledger [OF step(1) assms(2)]])
      (use reachable_sound [OF step(1) assms(2)] in blast)
qed

text \<open>A row gets in only when its election has passed the gate, and cutovers stay.\<close>

lemma native_cutovers: "activate_native el now st = Inr (st', c) \<Longrightarrow> cutover_of e st = Some k \<Longrightarrow> cutover_of e st' = Some k"
  by (auto simp: activate_native_def Let_def cutover_of_def find_append split: option.splits if_splits)

lemma gate_open: "assert_write_enabled True el st \<in> range Inr \<Longrightarrow> cutover_of el st \<noteq> None"
  by (auto simp: assert_write_enabled_def split: option.splits)

lemma reachable_gate:
  "pg_reachable cd True False st \<Longrightarrow> codec_ok cd \<Longrightarrow> \<forall>q \<in> set (lg_rows st). cutover_of (lg_election_id q) st \<noteq> None"
proof (induction rule: pg_reachable.induct)
  case init
  show ?case by (simp add: empty_ledger_def)
next
  case (step st st')
  note IH = step(3) [OF step(4)]
  from step(2) show ?case
  proof (cases rule: step_inserts)
    case (native el now c)
    then show ?thesis using IH native_cutovers [OF native] rows_of_native [OF native] by fastforce
  next
    case (migrate el activate reg store)
    note effect = migration_run_effect [OF migrate(1) reachable_ledger [OF step(1,4)] step(4)]
    obtain new where new: "lg_rows st' = lg_rows st @ new" "\<forall>q \<in> set new. lg_election_id q = el"
      using effect(1) by (auto simp: migrates_def migrated_def)
    have "cutover_of el st' \<noteq> None" using effect(4) migrate(2) by simp
    moreover have "cutover_of (lg_election_id q) st' \<noteq> None" if "q \<in> set (lg_rows st)" for q using IH that effect(3) by fastforce
    ultimately show ?thesis using new by auto
  next
    case (insert el x)
    note gate = gate_open [OF insert(2)]
    from insert(1) show ?thesis
    proof (cases rule: insert_record_cases)
      case (new q)
      then show ?thesis using IH gate row_added_simps(1) [OF new(3)] by (auto simp: cutover_of_def)
    qed (use IH in simp)
  qed
qed

section \<open>What the stores guarantee\<close>

text \<open>C37. For every run of the ledger, with elections activated natively or migrated from SQLite stores in any state they
  can reach, the history of every evidence id can be read and its chain verifies, with the versions 1, 2, ... and all
  of them in one election, polling unit and document type. The runs migrate only elections whose evidence ids never
  changed their election, polling unit or document type in SQLite. Every value that is stored or migrated is read back
  by pydantic and the JSONB column as it was, times can be printed, and documents with the same digest are equal.\<close>

theorem pg_evidence_chain_valid:
  assumes "pg_reachable cd required staging st" "codec_ok cd"
  shows "\<exists>h report. pg_history cd st eid = Inr h \<and> pg_verify_chain cd st eid = Inr report \<and> cv_valid report
    \<and> versions_checked report = int (length h) \<and> map version h = [1..int (length h)]
    \<and> (\<forall>r \<in> set h. \<forall>q \<in> set h. election_id r = election_id q \<and> ev_polling_unit_code r = ev_polling_unit_code q
          \<and> ev_document_type r = ev_document_type q)"
proof -
  have ok: "versions_ok cd st" "pg_evidence_log.sound cd st" "places_ok cd st" using reachable_sound [OF assms] by (simp_all add: versions_sound_def)
  note sound = pg_evidence_log.sound_history [OF ok(2), of eid]
  note h = history_of_rows(2) [OF ok(1), of eid]
  have chain: "pg_verify_chain cd st eid = Inr \<lparr>cv_evidence_id = eid, cv_valid = True,
      versions_checked = int (length (history (pg_evidence cd st) eid)), failure_version = None\<rparr>"
    by (simp add: pg_verify_chain_def h sound(1))
  show ?thesis
  proof (rule exI, rule exI, intro conjI)
    show "pg_history cd st eid = Inr (history (pg_evidence cd st) eid)" by (rule h)
    show "\<forall>r \<in> set (history (pg_evidence cd st) eid). \<forall>q \<in> set (history (pg_evidence cd st) eid). election_id r = election_id q
        \<and> ev_polling_unit_code r = ev_polling_unit_code q \<and> ev_document_type r = ev_document_type q"
      using ok(3) unfolding places_ok_def same_place_def by blast
    show "map version (history (pg_evidence cd st) eid) = [1..int (length (history (pg_evidence cd st) eid))]" by (rule sound(3))
  qed (rule chain, simp_all)
qed

text \<open>C39. For every run of the ledger, with elections activated natively or migrated as for the evidence chains and under
  the same assumptions on stored values, a snapshot that is appended becomes the latest one of its election, the
  chains of all elections verify, and no other snapshot changes. The payload and the clock hold times that Python can
  print.\<close>

theorem pg_registry_chain_valid:
  assumes "pg_reachable cd required staging st" "pg_append_snapshot cd required p now fresh st = Inr (st', s)" "snapshot_kept cd s"
    "payload_times_ok p" "datetime_ok now" "offset_ok now" "codec_ok cd"
  shows "\<exists>h report. pg_registry_history cd st el = Inr h
    \<and> pg_registry_history cd st' el = Inr (h @ (if el = rp_election_id p then [s] else []))
    \<and> pg_latest_snapshot cd st' (rp_election_id p) = Inr s \<and> payload s = p
    \<and> pg_verify_registry cd st' el = Inr report \<and> rv_valid report
    \<and> snapshots_checked report = int (length h) + (if el = rp_election_id p then 1 else 0)"
proof -
  have ok: "snapshots_ok cd st" "pg_registry_log.sound cd st" using reachable_sound [OF assms(1,7)] by (simp_all add: snapshots_sound_def)
  have reg: "pg_registers cd st s st'" using assms(2-7) ok(1) unfolding pg_registers_def codec_ok_def by blast
  note ok' = pg_registers_row(1) [OF reg]
  have id: "sn_election_id s = rp_election_id p" "payload s = p" using pg_append_snapshot_Inr(1) [OF assms(2) ok(1)] by simp_all
  have hist: "registry_history (pg_registry cd st') k = registry_history (pg_registry cd st) k @ (if k = rp_election_id p then [s] else [])" for k
    using pg_registry_log.append_history [OF reg, of k] id(1) by auto
  note sound = pg_registry_log.sound_history [OF pg_registry_log.sound_append [OF ok(2) reg], of el]
  show ?thesis using sound(1) id(2)
    by (simp add: pg_verify_registry_def pg_latest_snapshot_def registry_of_rows(2) [OF ok'] registry_of_rows(2) [OF ok(1)] hist)
qed

lemma map_result_total:
  "(\<And>q. q \<in> set qs \<Longrightarrow> \<exists>y. f q = Inr y) \<Longrightarrow> \<exists>ys. map_result f qs = Inr ys \<and> (\<forall>y \<in> set ys. \<exists>q \<in> set qs. f q = Inr y)"
proof (induction qs)
  case (Cons q qs)
  obtain y where "f q = Inr y" using Cons.prems [of q] by auto
  moreover obtain ys where "map_result f qs = Inr ys" "\<forall>y \<in> set ys. \<exists>q \<in> set qs. f q = Inr y" using Cons by fastforce
  ultimately show ?case by auto
qed simp

text \<open>C38. For every run of the ledger, with elections activated natively or migrated as for the evidence chains and under
  the same assumptions on stored values, each attestation, extraction and review that a query returns can be read and
  belongs to what was asked for: an evidence version with the record hash it names, and a review to an extraction with
  the fields it reviews. With the cutover gate on and every migration activating its election, every record of the
  ledger belongs to an election with a cutover; a migration without activation leaves records of an election that has
  none.\<close>

theorem pg_references_bound:
  assumes "pg_reachable cd required staging st" "codec_ok cd"
  shows "(\<exists>as. pg_attestations cd st eid v = Inr as \<and> (\<forall>a \<in> set as. ap_evidence_id (sa_payload a) = eid
      \<and> ap_evidence_version (sa_payload a) = v
      \<and> (\<exists>r. pg_get_version cd st eid v = Inr r \<and> record_hash r = ap_record_hash (sa_payload a))))
    \<and> (\<exists>xs. pg_extractions cd st eid v = Inr xs \<and> (\<forall>x \<in> set xs. ex_evidence_id x = eid \<and> ex_evidence_version x = v
      \<and> pg_get_extraction cd st (extraction_id x) = Inr x
      \<and> (\<exists>r. pg_get_version cd st eid v = Inr r \<and> record_hash r = ex_record_hash x)))
    \<and> (\<exists>vs. pg_extraction_reviews cd st xid = Inr vs \<and> (\<forall>w \<in> set vs. rv_extraction_id w = xid
      \<and> (\<exists>x. pg_get_extraction cd st xid = Inr x \<and> ex_evidence_id x = rv_evidence_id w \<and> ex_evidence_version x = rv_evidence_version w
          \<and> fr_field_name ` set (rv_fields w) \<subseteq> field_name ` set (ex_fields x))))
    \<and> (required \<and> \<not> staging \<longrightarrow> (\<forall>q \<in> set (lg_rows st). cutover_of (lg_election_id q) st \<noteq> None))"
    (is "?atts \<and> ?exts \<and> ?revs \<and> ?gate")
proof (intro conjI)
  have ok: "versions_ok cd st" "keys_distinct st" and refs: "pg_refs_ok cd st"
    using reachable_refs [OF assms] by (simp_all add: pg_refs_ok_def)
  note read = bound_read [OF _ ok]
  have att: "\<exists>a. attestation_row cd q a \<and> pg_bound cd st (lg_election_id q)
     (ap_evidence_id (sa_payload a)) (ap_evidence_version (sa_payload a)) (ap_record_hash (sa_payload a))"
    if "q \<in> set (rows_of attestation_record st)" for q using refs that by (simp add: pg_refs_ok_def attestation_bound_def)
  have "\<exists>a. read_attestation cd (row_payload q) = Inr a" if "q \<in> set (rows_of attestation_record st)" for q
    using att [OF that] by (auto simp: attestation_row_def)
  then obtain as where as: "pg_attestations cd st eid v = Inr as"
    "\<forall>a \<in> set as. \<exists>q \<in> set (rows_of attestation_record st). text_at [''payload'', ''evidence_id''] (row_payload q) = Some eid
       \<and> int_at [''payload'', ''evidence_version''] (row_payload q) = Some v \<and> read_attestation cd (row_payload q) = Inr a"
    using map_result_total [of "sort_key (\<lambda>q. release_key (lg_record q)) (filter (\<lambda>q. text_at [''payload'', ''evidence_id''] (row_payload q) = Some eid
           \<and> int_at [''payload'', ''evidence_version''] (row_payload q) = Some v) (rows_of attestation_record st))"
        "\<lambda>q. read_attestation cd (row_payload q)"] by (fastforce simp: pg_attestations_def)
  have "ap_evidence_id (sa_payload a) = eid \<and> ap_evidence_version (sa_payload a) = v
      \<and> (\<exists>r. pg_get_version cd st eid v = Inr r \<and> record_hash r = ap_record_hash (sa_payload a))" if mem: "a \<in> set as" for a
  proof -
    obtain q where q: "q \<in> set (rows_of attestation_record st)" "text_at [''payload'', ''evidence_id''] (row_payload q) = Some eid"
      "int_at [''payload'', ''evidence_version''] (row_payload q) = Some v" "read_attestation cd (row_payload q) = Inr a"
      using as(2) mem by blast
    then have "pg_bound cd st (lg_election_id q) eid v (ap_record_hash (sa_payload a))" "ap_evidence_id (sa_payload a) = eid"
      "ap_evidence_version (sa_payload a) = v" using att [OF q(1)] by (auto simp: attestation_row_def)
    then show ?thesis using read by blast
  qed
  with as(1) show ?atts by blast
  have ext: "\<exists>x. extraction_row cd q x \<and> pg_bound cd st (lg_election_id q) (ex_evidence_id x) (ex_evidence_version x) (ex_record_hash x)"
    if "q \<in> set (rows_of extraction_record_type st)" for q using refs that by (auto simp: pg_refs_ok_def extraction_bound_def)
  have "\<exists>x. read_extraction cd (row_payload q) = Inr x" if "q \<in> set (rows_of extraction_record_type st)" for q
    using ext [OF that] by (auto simp: extraction_row_def)
  then obtain xs where xs: "pg_extractions cd st eid v = Inr xs"
    "\<forall>x \<in> set xs. \<exists>q \<in> set (rows_of extraction_record_type st). text_at [''evidence_id''] (row_payload q) = Some eid
       \<and> int_at [''evidence_version''] (row_payload q) = Some v \<and> read_extraction cd (row_payload q) = Inr x"
    using map_result_total [of "sort_key stored_order (filter (\<lambda>q. text_at [''evidence_id''] (row_payload q) = Some eid
        \<and> int_at [''evidence_version''] (row_payload q) = Some v) (rows_of extraction_record_type st))"
        "\<lambda>q. read_extraction cd (row_payload q)"] by (fastforce simp: pg_extractions_def)
  have "ex_evidence_id x = eid \<and> ex_evidence_version x = v \<and> pg_get_extraction cd st (extraction_id x) = Inr x
      \<and> (\<exists>r. pg_get_version cd st eid v = Inr r \<and> record_hash r = ex_record_hash x)" if mem: "x \<in> set xs" for x
  proof -
    obtain q where q: "q \<in> set (rows_of extraction_record_type st)" "text_at [''evidence_id''] (row_payload q) = Some eid"
      "int_at [''evidence_version''] (row_payload q) = Some v" "read_extraction cd (row_payload q) = Inr x"
      using xs(2) mem by blast
    then have x: "extraction_row cd q x" "pg_bound cd st (lg_election_id q) eid v (ex_record_hash x)" "ex_evidence_id x = eid"
      "ex_evidence_version x = v" using ext [OF q(1)] by (auto simp: extraction_row_def)
    from x(2) have "\<exists>r. pg_get_version cd st eid v = Inr r \<and> record_hash r = ex_record_hash x" using read by blast
    then show ?thesis using x(3,4) keyed_row_read [OF ok(2) q(1) x(1)] by simp
  qed
  with xs(1) show ?exts by blast
  have rev: "review_bound cd st q" if "q \<in> set (rows_of extraction_review_record st)" for q using refs that by (simp add: pg_refs_ok_def)
  have "\<exists>w. read_review cd (row_payload q) = Inr w" if "q \<in> set (rows_of extraction_review_record st)" for q
    using rev [OF that] by (auto simp: review_bound_def review_row_def)
  then obtain vs where vs: "pg_extraction_reviews cd st xid = Inr vs"
    "\<forall>w \<in> set vs. \<exists>q \<in> set (rows_of extraction_review_record st). text_at [''extraction_id''] (row_payload q) = Some xid
       \<and> read_review cd (row_payload q) = Inr w"
    using map_result_total [of "sort_key stored_order (filter (\<lambda>q. text_at [''extraction_id''] (row_payload q) = Some xid)
       (rows_of extraction_review_record st))" "\<lambda>q. read_review cd (row_payload q)"] by (fastforce simp: pg_extraction_reviews_def)
  have "rv_extraction_id w = xid \<and> (\<exists>x. pg_get_extraction cd st xid = Inr x \<and> ex_evidence_id x = rv_evidence_id w
      \<and> ex_evidence_version x = rv_evidence_version w \<and> fr_field_name ` set (rv_fields w) \<subseteq> field_name ` set (ex_fields x))"
    if mem: "w \<in> set vs" for w
  proof -
    obtain q where q: "q \<in> set (rows_of extraction_review_record st)" "text_at [''extraction_id''] (row_payload q) = Some xid"
      "read_review cd (row_payload q) = Inr w" using vs(2) mem by blast
    then obtain p x where p: "p \<in> set (rows_of extraction_record_type st)" "extraction_row cd p x" "rv_extraction_id w = xid"
      "extraction_id x = rv_extraction_id w" "ex_evidence_id x = rv_evidence_id w" "ex_evidence_version x = rv_evidence_version w"
      "fr_field_name ` set (rv_fields w) \<subseteq> field_name ` set (ex_fields x)"
      using rev [OF q(1)] by (auto simp: review_bound_def review_row_def)
    have "pg_get_extraction cd st xid = Inr x" using keyed_row_read [OF ok(2) p(1,2)] p(3,4) by simp
    then show ?thesis using p(3,5-7) by blast
  qed
  with vs(1) show ?revs by blast
  show ?gate using reachable_gate assms by (cases required; cases staging) auto
qed

text \<open>C32. Migrating an election into a ledger that any run of the stores has left makes the PostgreSQL stores answer for
  it as the SQLite stores do: its registry history is that of the SQLite registry, the history of each of its evidence
  ids is that of the SQLite store, and the attestations, extractions and reviews of its versions are the same ones.
  The registry history of every other election and the history of every other evidence id stay as they were. The runs
  migrate only elections whose evidence ids never changed their election, polling unit or document type in SQLite.
  Every value that is stored or migrated is read back by pydantic and the JSONB column as it was, times can be
  printed, and documents with the same digest are equal.\<close>

theorem migrated_histories_identical:
  assumes "pg_reachable cd required staging st" "migration_run cd el activate reg store st st'" "codec_ok cd"
    "s = stored_evidence store"
  shows "pg_registry_history cd st' k = (if k = el then Inr (registry_history reg el) else pg_registry_history cd st k)
    \<and> pg_history cd st' eid = (if \<exists>r \<in> set (version_rows s). evidence_id r = eid \<and> election_id r = el
        then Inr (history s eid) else pg_history cd st eid)
    \<and> (of_election s el eid v \<longrightarrow>
        (\<exists>as. pg_attestations cd st' eid v = Inr as \<and> set as = set (attestations s eid v))
        \<and> (\<exists>xs. pg_extractions cd st' eid v = Inr xs \<and> set xs = set (extractions s eid v))
        \<and> (\<forall>x \<in> set (extractions s eid v). \<exists>vs. pg_extraction_reviews cd st' (extraction_id x) = Inr vs
             \<and> set vs = set (extraction_reviews s (extraction_id x))))"
    (is "?registry \<and> ?history \<and> ?queries")
proof -
  have ok: "versions_ok cd st" "pg_evidence_log.sound cd st" "places_ok cd st" "snapshots_ok cd st"
    using reachable_sound [OF assms(1,3)] by (simp_all add: versions_sound_def snapshots_sound_def)
  note run = migration_run_effect [OF assms(2) reachable_ledger [OF assms(1,3)] assms(3)]
  have m: "migrates cd (cd_float cd) reg s el st st'" and stays: "evidence_stays s el" using run(1,2) by (simp_all add: assms(4))
  note refs = reachable_refs [OF assms(1,3)]
  have dt: "time_dump_ok (cd_time cd)" using assms(3) by (simp add: codec_ok_def)
  have ?registry
    using migrated_registry [OF m ok(4) dt, of k] registry_of_rows(2) [OF ok(4)] registry_of_rows(2) [OF migrated_snapshots_ok [OF m ok(4)]]
    by simp
  moreover have ?history
    unfolding history_of_rows(2) [OF ok(1)] history_of_rows(2) [OF migrated_versions_ok [OF m ok(1)]]
      migrated_history [OF m ok(1-3) stays] if_distrib [where f = Inr] by (rule refl)
  moreover have ?queries
  proof (intro impI conjI ballI)
    assume of: "of_election s el eid v"
    show "\<exists>as. pg_attestations cd st' eid v = Inr as \<and> set as = set (attestations s eid v)"
      by (rule migrated_attestations [OF m ok(1-3) stays refs of])
    show "\<exists>xs. pg_extractions cd st' eid v = Inr xs \<and> set xs = set (extractions s eid v)"
      by (rule migrated_extractions [OF m ok(1-3) stays refs of])
    fix x assume "x \<in> set (extractions s eid v)"
    then have "x \<in> set (extraction_rows s)" "of_election s el (ex_evidence_id x) (ex_evidence_version x)"
      using of by (simp_all add: extractions_def)
    then show "\<exists>vs. pg_extraction_reviews cd st' (extraction_id x) = Inr vs \<and> set vs = set (extraction_reviews s (extraction_id x))"
      by (rule migrated_reviews [OF m refs])
  qed
  ultimately show ?thesis by blast
qed

section \<open>A concrete run\<close>

definition run_attestation :: signed_attestation where
  "run_attestation = \<lparr>sa_payload = \<lparr>ap_evidence_id = ''bp_ev_0'', ap_evidence_version = 1, ap_record_hash = record_hash demo_version,
     ap_actor_id = ''a'', ap_statement = reviewed_source, ap_issued_at = demo_now, ap_note = None\<rparr>,
     sa_public_key_b64 = ''k'', sa_signature_b64 = ''s''\<rparr>"

definition run_extraction :: extraction_record where
  "run_extraction = \<lparr>extraction_id = ''bp_ex_0'', ex_evidence_id = ''bp_ev_0'', ex_evidence_version = 1,
     ex_record_hash = record_hash demo_version, ex_status = machine_extracted,
     ex_provenance = \<lparr>engine = ''e'', model_id = ''m'', model_version = None, ep_created_at = demo_now, config_hash = None\<rparr>,
     ex_fields = [\<lparr>field_name = ''f'', raw_value = None, normalized_value = None, confidence = ''0.5'', page = None, bbox = None\<rparr>],
     supersedes_extraction_id = None, ex_stored_at = demo_now\<rparr>"

definition run_submission :: extraction_review_submission where
  "run_submission = \<lparr>reviewer_id = ''r'', rs_fields = [\<lparr>fr_field_name = ''f'', decision = ACCEPT, corrected_value = None, fr_note = None\<rparr>]\<rparr>"

definition run_review :: extraction_review where
  "run_review = review_record run_extraction run_submission demo_now ''0''"

definition run_snapshot :: registry_snapshot where
  "run_snapshot = pg_next_snapshot isoformat demo_payload demo_time ''0'' None"

definition run_codec :: pg_codec where
  "run_codec = \<lparr>cd_time = isoformat, cd_float = (\<lambda>x. ''0.5''), cd_jsonb = Some,
     read_version = (\<lambda>p. if p = pg_version_fields isoformat demo_version then return demo_version else raise field_error),
     read_attestation = (\<lambda>p. if p = signed_attestation_fields isoformat run_attestation then return run_attestation else raise field_error),
     read_extraction = (\<lambda>p. if p = extraction_fields isoformat (\<lambda>x. ''0.5'') run_extraction then return run_extraction else raise field_error),
     read_review = (\<lambda>p. if p = review_fields isoformat run_review then return run_review else raise field_error),
     read_snapshot = (\<lambda>p. if p = pg_snapshot_fields isoformat run_snapshot then return run_snapshot else raise field_error)\<rparr>"

lemma run_kept: "jsonb_keeps (cd_jsonb run_codec)" "version_kept run_codec demo_version" "attestation_kept run_codec run_attestation"
  "extraction_kept run_codec run_extraction" "review_kept run_codec run_review" "snapshot_kept run_codec run_snapshot"
  by (simp_all add: jsonb_keeps_def version_kept_def attestation_kept_def extraction_kept_def review_kept_def snapshot_kept_def run_codec_def)

lemma run_codec_ok: "codec_ok run_codec"
proof -
  have "float_text_ok ''0.5''" by code_simp
  then show ?thesis by (simp add: codec_ok_def run_kept(1)) (simp add: run_codec_def jsonb_objects_def isoformat_dump_ok)
qed

lemma run_codec_fields: "cd_time run_codec = isoformat" "cd_float run_codec = (\<lambda>x. ''0.5'')" "cd_jsonb run_codec = Some"
  "read_version run_codec (pg_version_fields isoformat demo_version) = Inr demo_version"
  "read_extraction run_codec (extraction_fields isoformat (\<lambda>x. ''0.5'') run_extraction) = Inr run_extraction"
  by (simp_all add: run_codec_def)

definition run_cutover :: cutover where
  "run_cutover = \<lparr>co_election_id = ''E'', co_mode = Native_Cutover, co_source_sha256 = None, co_activated_at = demo_now\<rparr>"

definition run_ledger :: "release_record list \<Rightarrow> ledger" where
  "run_ledger rs = \<lparr>lg_rows = map (new_row ''E'') rs, lg_cutovers = [run_cutover]\<rparr>"

lemma run_gate: "assert_write_enabled True ''E'' (run_ledger rs) = Inr (Some run_cutover)"
  by (simp add: assert_write_enabled_def cutover_of_def run_ledger_def run_cutover_def)

lemma run_start: "pg_reachable run_codec True False (run_ledger [])"
proof -
  have "activate_native ''E'' demo_now empty_ledger = Inr (run_ledger [], run_cutover)"
    by (simp add: activate_native_def cutover_of_def empty_ledger_def Let_def run_ledger_def run_cutover_def)
  then show ?thesis using pg_reachable.init pg_reachable.step pg_step.native by blast
qed

lemma run_insert:
  assumes "json_strings_ok (release_record_json r)" "record_sort_key r \<notin> record_sort_key ` set rs"
  shows "insert_record Some ''E'' r (run_ledger rs) = Inr (run_ledger (rs @ [r]))"
  using insert_new_record [of r "run_ledger rs" "''E''"] assms by (auto simp: run_ledger_def image_iff eq_commute)

lemma hash_text: "utf8_text (sha256_bytes b)"
  by (simp add: hex_text_utf8 sha256_bytes_is_hex)

lemma run_texts: "utf8_text (isoformat demo_now)" "utf8_text (isoformat demo_time)" "utf8_text (isoformat \<lparr>wall = 0, utcoffset = Some 3600\<rparr>)"
  "utf8_text (isoformat \<lparr>wall = 9, utcoffset = None\<rparr>)" "utf8_text (isoformat \<lparr>wall = 8, utcoffset = None\<rparr>)" "utf8_text (int_str 1)"
  by code_simp+

lemma demo_version_fields: "evidence_id demo_version = ''bp_ev_0''" "version demo_version = 1" "election_id demo_version = ''E''"
  "ev_polling_unit_code demo_version = ''PU''" "ev_document_type demo_version = ''EC8A''" "previous_record_hash demo_version = None"
  "artifact_sha256 demo_version = sha256_bytes [1]" "evidence_version.media_type demo_version = None" "filename demo_version = None"
  "observed_at demo_version = \<lparr>wall = 0, utcoffset = Some 3600\<rparr>" "stored_at demo_version = demo_now"
  "ev_source demo_version = \<lparr>provider = ''p'', source_type = official_publication, source_url = None\<rparr>"
  "artifact_size_bytes demo_version = 1"
  by (simp_all add: demo_version_def version_record_def Let_def demo_args_def)

lemma demo_version_hash: "record_hash demo_version = hash_record (record_hash_body demo_version)"
  by (simp add: demo_version_def version_record_hash)

lemma run_strings:
  "json_strings_ok (release_record_json (pg_version_record run_codec demo_version))"
  "json_strings_ok (JObj (signed_attestation_fields isoformat run_attestation))"
  "json_strings_ok (release_record_json (pg_extraction_record run_codec run_extraction))"
  "json_strings_ok (release_record_json (pg_review_record run_codec run_review))"
  "json_strings_ok (release_record_json (pg_snapshot_record run_codec run_snapshot))"
proof -
  note facts = run_texts hash_text record_type_ascii demo_version_fields
  note defs = release_record_json_def json_opt_def run_codec_fields utf8_ascii utf8_ascii_Cons version_key_def
  have h: "utf8_text (record_hash demo_version)" by (simp add: demo_version_hash hash_record_def hash_text)
  show "json_strings_ok (release_record_json (pg_version_record run_codec demo_version))"
    using facts h by (simp add: defs pg_version_record_def pg_version_fields_def source_json_def source_type_text_def)
  show "json_strings_ok (JObj (signed_attestation_fields isoformat run_attestation))"
    using facts h by (simp add: defs signed_attestation_fields_def attestation_json_def run_attestation_def statement_text_def)
  show "json_strings_ok (release_record_json (pg_extraction_record run_codec run_extraction))"
    using facts h by (simp add: defs pg_extraction_record_def extraction_fields_def run_extraction_def extraction_provenance_json_def
        extracted_field_json_def extraction_status_text_def)
  show "json_strings_ok (release_record_json (pg_review_record run_codec run_review))"
    using facts by (simp add: defs pg_review_record_def review_fields_def run_review_def review_record_def run_extraction_def
        run_submission_def field_review_json_def review_decision_text_def)
  have "utf8_text (snapshot_hash run_snapshot)" by (simp add: run_snapshot_def pg_next_snapshot_def Let_def hash_record_def hash_text)
  moreover have "sn_election_id run_snapshot = ''E''" "sn_version run_snapshot = 1" "snapshot_id run_snapshot = ''bp_reg_0''"
    "previous_snapshot_hash run_snapshot = None" "payload run_snapshot = demo_payload" "sn_stored_at run_snapshot = demo_time"
    by (simp_all add: run_snapshot_def pg_next_snapshot_def Let_def demo_payload_def)
  ultimately show "json_strings_ok (release_record_json (pg_snapshot_record run_codec run_snapshot))"
    using facts by (simp add: defs pg_snapshot_record_def pg_snapshot_fields_def payload_fields_def registry_source_json_def
        contest_json_def choice_json_def unit_json_def edge_json_def demo_payload_def)
qed

definition run_attestation_record :: release_record where
  "run_attestation_record = \<lparr>record_type = attestation_record,
     release_key = ''bp_ev_0:1:sha256:'' @ sha256_bytes (canonical_json_bytes (JObj (signed_attestation_fields isoformat run_attestation))),
     release_payload = signed_attestation_fields isoformat run_attestation\<rparr>"

definition run_records :: "release_record list" where
  "run_records = [pg_version_record run_codec demo_version, run_attestation_record, pg_extraction_record run_codec run_extraction,
     pg_review_record run_codec run_review]"

lemma run_times: "datetime_ok demo_now" "offset_ok demo_now" "datetime_ok (va_observed_at demo_args)" "offset_ok (va_observed_at demo_args)"
  "datetime_ok demo_time" "offset_ok demo_time"
  by (simp_all add: demo_args_def demo_now_def demo_time_def datetime_ok_def offset_ok_def max_wall_def us_per_day_def us_per_second_def)

lemma run_append: "pg_append_version run_codec True demo_args demo_now ''0'' (run_ledger []) = Inr (run_ledger (take 1 run_records), demo_version)"
proof -
  have "evidence_id_of demo_args ''0'' = ''bp_ev_0''" "va_election_id demo_args = ''E''" by (simp_all add: evidence_id_of_def demo_args_def)
  moreover have "pg_previous run_codec demo_args ''bp_ev_0'' (run_ledger []) = Inr (1, None)"
    by (simp add: pg_previous_def evidence_rows_def rows_of_def run_ledger_def)
  moreover have "evidence_version_fields_ok demo_version"
    by (simp add: evidence_version_fields_ok_def demo_version_fields demo_version_hash hash_record_def sha256_bytes_is_hex)
  ultimately show ?thesis
    using run_gate [of "[]"] run_insert [OF run_strings(1), of "[]"]
    by (simp add: pg_append_version_def Let_def run_codec_fields run_records_def flip: demo_version_def)
qed

lemma run_evidence_row:
  "evidence_row ''bp_ev_0'' 1 (run_ledger (pg_version_record run_codec demo_version # rs))
     = Some (new_row ''E'' (pg_version_record run_codec demo_version))"
  by (simp add: evidence_row_def rows_of_def run_ledger_def text_at_def int_at_def pg_version_record_def pg_version_fields_def
      run_codec_fields demo_version_fields)

lemma run_read_version: "read_version run_codec (release_payload (pg_version_record run_codec demo_version)) = Inr demo_version"
  by (simp add: pg_version_record_def run_codec_fields)

lemma run_attest: "pg_add_attestation run_codec True run_attestation (run_ledger (take 1 run_records)) = Inr (run_ledger (take 2 run_records))"
proof -
  have one: "int_str 1 = ''1''" by code_simp
  have f: "ap_evidence_id (sa_payload run_attestation) = ''bp_ev_0''" "ap_evidence_version (sa_payload run_attestation) = 1"
    "ap_record_hash (sa_payload run_attestation) = record_hash demo_version"
    by (simp_all add: run_attestation_def)
  then have r: "pg_attestation_record run_codec run_attestation = Inr run_attestation_record"
    using run_strings(2) by (simp add: pg_attestation_record_def encode_document_def run_codec_fields run_attestation_record_def
        version_key_def one)
  have "record_sort_key run_attestation_record \<noteq> record_sort_key (pg_version_record run_codec demo_version)"
    by (simp add: sort_key_types run_attestation_record_def)
  moreover have "utf8_text (''bp_ev_0:1:sha256:'' @ sha256_bytes b)" for b
    by (rule utf8_text_append [OF _ hash_text]) (simp add: utf8_ascii)
  then have "json_strings_ok (release_record_json run_attestation_record)"
    using run_strings(2) record_type_ascii by (simp add: release_record_json_def run_attestation_record_def utf8_ascii)
  ultimately show ?thesis
    using run_gate run_insert [of run_attestation_record "[pg_version_record run_codec demo_version]"] r
    by (simp add: pg_add_attestation_def run_records_def run_evidence_row run_read_version demo_version_fields run_codec_fields f
        numeral_2_eq_2)
qed

lemma run_extract: "pg_add_extraction run_codec True run_extraction demo_now ''0'' (run_ledger (take 2 run_records))
    = Inr (run_ledger (take 3 run_records), run_extraction)"
proof -
  have f: "ex_evidence_id run_extraction = ''bp_ev_0''" "ex_evidence_version run_extraction = 1"
    "ex_record_hash run_extraction = record_hash demo_version" "ex_fields run_extraction \<noteq> []" "supersedes_extraction_id run_extraction = None"
    "run_extraction\<lparr>extraction_id := ''bp_ex_0'', ex_stored_at := demo_now\<rparr> = run_extraction"
    by (simp_all add: run_extraction_def)
  have "is_sha256_hex (record_hash demo_version)" by (simp add: demo_version_hash hash_record_def sha256_bytes_is_hex)
  moreover have "record_sort_key (pg_extraction_record run_codec run_extraction) \<notin> record_sort_key ` set (take 2 run_records)"
    by (simp add: run_records_def sort_key_types run_attestation_record_def numeral_2_eq_2)
  from run_insert [OF run_strings(3) this] have
    "insert_record Some ''E'' (pg_extraction_record run_codec run_extraction) (run_ledger (take 2 run_records)) = Inr (run_ledger (take 3 run_records))"
    by (simp add: run_records_def numeral_2_eq_2 numeral_3_eq_3)
  moreover have "evidence_row ''bp_ev_0'' 1 (run_ledger (take 2 run_records)) = Some (new_row ''E'' (pg_version_record run_codec demo_version))"
    by (simp add: run_records_def run_evidence_row)
  ultimately show ?thesis
    using run_gate by (simp add: pg_add_extraction_def run_read_version demo_version_fields run_codec_fields f Let_def pg_check_superseded_def)
qed

lemma run_review: "pg_add_review run_codec True ''bp_ex_0'' run_submission demo_now ''0'' (run_ledger (take 3 run_records))
    = Inr (run_ledger run_records, run_review)"
proof -
  have f: "extraction_id run_extraction = ''bp_ex_0''" "field_name ` set (ex_fields run_extraction) = {''f''}"
    "fr_field_name ` set (rs_fields run_submission) = {''f''}" by (simp_all add: run_extraction_def run_submission_def)
  have v: "run_review\<lparr>rv_extraction_id := ''bp_ex_0''\<rparr> = run_review" by (simp add: run_review_def review_record_def run_extraction_def)
  have "record_sort_key (pg_review_record run_codec run_review) \<notin> record_sort_key ` set (take 3 run_records)"
    by (simp add: run_records_def sort_key_types run_attestation_record_def numeral_3_eq_3)
  from run_insert [OF run_strings(4) this] have
    "insert_record Some ''E'' (pg_review_record run_codec run_review) (run_ledger (take 3 run_records)) = Inr (run_ledger run_records)"
    by (simp add: run_records_def numeral_3_eq_3)
  moreover have "keyed_row extraction_record_type ''bp_ex_0'' (run_ledger (take 3 run_records))
      = Some (new_row ''E'' (pg_extraction_record run_codec run_extraction))"
    by (simp add: run_records_def numeral_3_eq_3 keyed_row_def rows_of_def run_ledger_def run_attestation_record_def)
      (simp add: pg_extraction_record_def f)
  moreover have "read_extraction run_codec (release_payload (pg_extraction_record run_codec run_extraction)) = Inr run_extraction"
    by (simp add: pg_extraction_record_def run_codec_fields)
  ultimately show ?thesis
    using run_gate f v by (simp add: pg_add_review_def run_codec_fields Let_def flip: run_review_def)
qed

lemma run_reachable: "pg_reachable run_codec True False (run_ledger run_records)"
proof -
  have 1: "pg_reachable run_codec True False (run_ledger (take 1 run_records))"
    using pg_reachable.step [OF run_start pg_step.version [OF run_append run_kept(2) run_times(3,4,1,2)]] .
  have 2: "pg_reachable run_codec True False (run_ledger (take 2 run_records))"
    using pg_reachable.step [OF 1 pg_step.attest [OF run_attest run_kept(3)]] .
  have 3: "pg_reachable run_codec True False (run_ledger (take 3 run_records))"
    using pg_reachable.step [OF 2 pg_step.add_ext [OF run_extract run_kept(4)]] .
  show ?thesis using pg_reachable.step [OF 3 pg_step.review [OF run_review run_kept(5)]] .
qed

lemma pg_evidence_chain_valid_witness:
  "\<exists>report. pg_verify_chain run_codec (run_ledger run_records) ''bp_ev_0'' = Inr report \<and> cv_valid report"
  using pg_evidence_chain_valid [OF run_reachable run_codec_ok, of "''bp_ev_0''"] by blast

lemma pg_references_bound_witness:
  "\<exists>xs. pg_extractions run_codec (run_ledger run_records) ''bp_ev_0'' 1 = Inr xs
     \<and> (\<forall>x \<in> set xs. \<exists>r. pg_get_version run_codec (run_ledger run_records) ''bp_ev_0'' 1 = Inr r \<and> record_hash r = ex_record_hash x)"
proof -
  note bound = pg_references_bound [OF run_reachable run_codec_ok, of "''bp_ev_0''" 1 "''bp_ex_0''"]
  from conjunct1 [OF conjunct2 [OF bound]] show ?thesis by (elim exE conjE, intro exI conjI) (assumption, simp)
qed

lemma run_register: "pg_append_snapshot run_codec True demo_payload demo_time ''0'' (run_ledger [])
    = Inr (run_ledger [pg_snapshot_record run_codec run_snapshot], run_snapshot)"
proof -
  have "rp_election_id demo_payload = ''E''" by (simp add: demo_payload_def)
  moreover have "registry_rows ''E'' (run_ledger []) = []" by (simp add: registry_rows_def rows_of_def run_ledger_def)
  moreover have "sn_version run_snapshot = 1" "previous_snapshot_hash run_snapshot = None"
    by (simp_all add: run_snapshot_def pg_next_snapshot_def Let_def)
  ultimately show ?thesis using run_gate run_insert [OF run_strings(5), of "[]"]
    by (simp add: pg_append_snapshot_def Let_def run_codec_fields flip: run_snapshot_def)
qed

lemma pg_registry_chain_valid_witness:
  "pg_latest_snapshot run_codec (run_ledger [pg_snapshot_record run_codec run_snapshot]) ''E'' = Inr run_snapshot"
proof -
  from pg_registry_chain_valid [OF run_start run_register run_kept(6) demo_payload_times run_times(5,6) run_codec_ok, of "''E''"]
  show ?thesis by (auto simp: demo_payload_def)
qed

section \<open>A concrete migration\<close>

definition migration_codec :: pg_codec where
  "migration_codec = run_codec
     \<lparr>read_snapshot := (\<lambda>p. if json_eq (JObj (snapshot_row_fields isoformat demo_snapshot)) (JObj p) then return demo_snapshot else raise field_error),
      read_version := (\<lambda>p. if json_eq (JObj (version_row_fields demo_version)) (JObj p) then return demo_version else raise field_error)\<rparr>"

lemma migration_codec_fields: "cd_time migration_codec = isoformat" "cd_float migration_codec = (\<lambda>x. ''0.5'')"
  "cd_jsonb migration_codec = Some"
  by (simp_all add: migration_codec_def run_codec_def)

lemma migration_codec_ok: "codec_ok migration_codec"
  using run_codec_ok by (simp add: codec_ok_def migration_codec_def)

lemma demo_version_strings: "json_strings_ok (release_record_json (version_release_record demo_version))"
proof -
  have "utf8_text (record_hash demo_version)" by (simp add: demo_version_hash hash_record_def hash_text)
  then show ?thesis
    using run_texts hash_text record_type_ascii demo_version_fields
    by (simp add: release_record_json_def json_opt_def utf8_ascii utf8_ascii_Cons version_key_def version_release_record_def
        version_row_fields_def source_json_def source_type_text_def)
qed

lemma demo_records: "all_records isoformat fl demo_registry demo_store ''E'' =
    [snapshot_release_record isoformat demo_snapshot, version_release_record demo_version]"
proof -
  have rows: "version_rows demo_store = [demo_version]" "attestation_rows demo_store = []" "extraction_rows demo_store = []"
    "attestation_ids demo_store = []" by (simp_all add: demo_store_def empty_store_def)
  then have "version_rows_of demo_store ''E'' = [demo_version]" by (simp add: version_rows_of_def demo_version_fields)
  moreover have "dependent_records isoformat fl demo_store demo_version = []"
    by (simp add: dependent_records_def attestation_table_def attestation_entries_def extractions_def rows)
  ultimately show ?thesis by (simp add: all_records_def demo_registry_history)
qed

lemma demo_migration_run:
  "\<exists>st. migration_run migration_codec ''E'' True demo_registry (Some demo_store) empty_ledger st"
proof -
  let ?source = "sort_key record_sort_key (all_records isoformat (\<lambda>x. ''0.5'') demo_registry demo_store ''E'')"
  have distinct: "distinct (map record_sort_key (all_records isoformat (\<lambda>x. ''0.5'') demo_registry demo_store ''E''))"
    by (rule all_records_distinct [OF isoformat_dump_ok demo_registry_reachable demo_reachable])
  have collect: "collect_release_records isoformat (\<lambda>x. ''0.5'') (Some demo_registry) (Some demo_store) ''E'' = Inr ?source"
    using distinct by (simp add: collect_release_records_def demo_registry_history flip: all_records_def)
      (simp add: all_records_def ordered_records_Inr demo_registry_history)
  have "list_all (\<lambda>r. json_strings_ok (release_record_json r)) ?source"
    by (simp only: list_all_iff set_sort) (simp add: demo_records demo_snapshot_strings demo_version_strings)
  moreover have "distinct (map record_sort_key ?source)"
    using distinct by (simp add: distinct_map)
  moreover have "sort_key record_sort_key ?source = ?source" by (simp add: sort_key_id_if_sorted)
  ultimately obtain st report where m: "migrate_records Some ''E'' True demo_time ?source empty_ledger = Inr (st, report)"
    "records_in ''E'' st = Inr ?source"
    using first_migration by blast
  have mig: "migrate_sqlite_election isoformat (\<lambda>x. ''0.5'') Some (Some demo_registry) (Some demo_store) (Some 0) ''E'' True demo_time empty_ledger
      = Inr (Some 0, st, report)"
    using collect m(1) by (simp add: migrate_sqlite_election_def hold_def)
  have "sources_kept migration_codec (\<lambda>x. ''0.5'') demo_registry demo_store"
    by (simp add: sources_kept_def reads_as_def migration_codec_def run_codec_def demo_registry_def demo_store_def empty_store_def)
  moreover have "evidence_stays demo_store ''E''"
    by (simp add: evidence_stays_def same_place_def demo_store_def empty_store_def)
  ultimately show ?thesis
    using mig collect m(2) demo_registry_reachable demo_reachable
    by (intro exI [of _ st]) (auto simp: migration_run_def migration_codec_fields stored_evidence_def collision_free_def)
qed

lemma migrated_histories_identical_witness:
  "\<exists>st. pg_registry_history migration_codec st ''E'' = Inr [demo_snapshot] \<and> pg_history migration_codec st ''bp_ev_0'' = Inr [demo_version]
     \<and> pg_attestations migration_codec st ''bp_ev_0'' 1 = Inr []"
proof -
  obtain st where m: "migration_run migration_codec ''E'' True demo_registry (Some demo_store) empty_ledger st"
    using demo_migration_run by blast
  have v: "\<exists>r \<in> set (version_rows demo_store). evidence_id r = ''bp_ev_0'' \<and> election_id r = ''E''"
    "of_election demo_store ''E'' ''bp_ev_0'' 1" "attestations demo_store ''bp_ev_0'' 1 = []"
    by (simp_all add: demo_store_def empty_store_def demo_version_fields of_election_def attestations_def)
  have "pg_reachable migration_codec True False empty_ledger" by (rule pg_reachable.init)
  from migrated_histories_identical [OF this m migration_codec_ok refl, of "''E''" "''bp_ev_0''" 1] v
  show ?thesis by (auto simp: stored_evidence_def demo_registry_history demo_history)
qed

end
