(* ===== verification/Postgres_Receipts.thy ===== *)
theory Postgres_Receipts
  imports Object_Storage Source_Capture
begin

text \<open>
  The class PostgresSourceReceiptStore of src/ballotproof/postgres_source_control.py: raw responses go to an immutable
  backend, receipts to a table with their JSON text and a TIMESTAMPTZ column for the order.
\<close>

section \<open>The store\<close>

record 's receipt_store =
  rs_backend :: 's
  rs_receipts :: "provenance_receipt list"

definition receipt_of_raw :: "(string \<Rightarrow> string) \<Rightarrow> (source_policy \<Rightarrow> string) \<Rightarrow> source_policy \<Rightarrow> capture_request
    \<Rightarrow> string option \<Rightarrow> raw_ref \<Rightarrow> datetime \<Rightarrow> string \<Rightarrow> provenance_receipt" where
  "receipt_of_raw upper policy_text policy q snap raw now fresh = (receipt_for upper policy_text policy q snap [] now fresh)
     \<lparr>raw_sha256 := ro_sha256 raw, raw_size_bytes := nat (ro_size_bytes raw)\<rparr>"

text \<open>A capture that raises after the raw object was stored leaves the object.\<close>

definition pg_capture :: "(string \<Rightarrow> byte list \<Rightarrow> 's \<Rightarrow> 's \<times> object_ref result) \<Rightarrow> (string \<Rightarrow> 's \<Rightarrow> byte list result)
    \<Rightarrow> (string \<Rightarrow> string) \<Rightarrow> (source_policy \<Rightarrow> string) \<Rightarrow> byte list list \<Rightarrow> source_policy \<Rightarrow> capture_request \<Rightarrow> string option
    \<Rightarrow> int \<Rightarrow> datetime \<Rightarrow> string \<Rightarrow> 's receipt_store \<Rightarrow> 's receipt_store \<times> (provenance_receipt \<times> string) result" where
  "pg_capture put read upper policy_text stream policy q snap max_bytes now fresh st =
     (case guarded (capture_guards policy q snap) () of
        Inl e \<Rightarrow> (st, raise e)
      | Inr _ \<Rightarrow> (case raw_put_stream put read Source_Object stream (Some (min max_bytes (max_response_bytes policy))) (rs_backend st) of
          (b, Inl e) \<Rightarrow> (st\<lparr>rs_backend := b\<rparr>, raise e)
        | (b, Inr raw) \<Rightarrow> (let r = receipt_of_raw upper policy_text policy q snap raw now fresh in
            if list_ex (\<lambda>x. receipt_id x = receipt_id r) (rs_receipts st)
            then (st\<lparr>rs_backend := b\<rparr>, raise (IntegrityError ''source_receipts.receipt_id''))
            else (st\<lparr>rs_backend := b, rs_receipts := rs_receipts st @ [r]\<rparr>, return (r, ro_path raw)))))"

definition pg_get_receipt :: "string \<Rightarrow> 's receipt_store \<Rightarrow> provenance_receipt result" where
  "pg_get_receipt rid st = (case find (\<lambda>r. receipt_id r = rid) (rs_receipts st) of
       None \<Rightarrow> raise (KeyError ''Unknown receipt_id: '') | Some r \<Rightarrow> return r)"

definition pg_receipts :: "string \<Rightarrow> 's receipt_store \<Rightarrow> provenance_receipt list" where
  "pg_receipts src st = sort_key (\<lambda>r. (instant (rc_stored_at r), receipt_id r))
     (filter (\<lambda>r. rc_source_id r = src) (rs_receipts st))"

section \<open>Receipts are backed by raw objects\<close>

text \<open>Captures, and other writes to the backend.\<close>

inductive receipts_run :: "(string \<Rightarrow> byte list \<Rightarrow> 's \<Rightarrow> 's \<times> object_ref result) \<Rightarrow> (string \<Rightarrow> 's \<Rightarrow> byte list result)
    \<Rightarrow> 's receipt_store \<Rightarrow> bool" for put read where
  start: "receipts_run put read \<lparr>rs_backend = b, rs_receipts = []\<rparr>"
| capture: "receipts_run put read st \<Longrightarrow>
    pg_capture put read upper policy_text stream policy q snap max_bytes now fresh st = (st', res) \<Longrightarrow> receipts_run put read st'"
| other: "receipts_run put read st \<Longrightarrow> put path content (rs_backend st) = (b, res') \<Longrightarrow>
    receipts_run put read (st\<lparr>rs_backend := b\<rparr>)"

definition raw_of :: "provenance_receipt \<Rightarrow> raw_ref" where
  "raw_of r = target_ref Source_Object (raw_sha256 r) (int (raw_size_bytes r))"

definition receipt_stored :: "(string \<Rightarrow> 's \<Rightarrow> byte list result) \<Rightarrow> 's \<Rightarrow> provenance_receipt \<Rightarrow> bool" where
  "receipt_stored read b r \<longleftrightarrow> (\<exists>content. raw_read read (raw_of r) b = Inr content \<and> content \<noteq> []
     \<and> sha256_bytes content = raw_sha256 r \<and> length content = raw_size_bytes r) \<and> rc_policy_status r \<noteq> PROHIBITED"

definition receipts_sound :: "(string \<Rightarrow> 's \<Rightarrow> byte list result) \<Rightarrow> 's receipt_store \<Rightarrow> bool" where
  "receipts_sound read st \<longleftrightarrow> distinct (map receipt_id (rs_receipts st)) \<and> list_all (receipt_stored read (rs_backend st)) (rs_receipts st)"

lemma read_bounded_response:
  "read_bounded (Some m) stream = Inr content \<longleftrightarrow> read_response m stream [] = Inr content \<and> content \<noteq> []"
proof -
  have "gather_blocks (Some m) stream acc = Inr content \<longleftrightarrow> read_response m stream acc = Inr content" for acc
    by (induction stream arbitrary: acc) auto
  then show ?thesis by (auto simp: read_bounded_def)
qed

context immutable_backend
begin

lemma capture_Inr:
  assumes "pg_capture put_object read_object upper policy_text stream policy q snap m now fresh st = (st', Inr (r, path))"
  obtains content where "read_response (min m (max_response_bytes policy)) stream [] = Inr content" "content \<noteq> []"
    "r = receipt_for upper policy_text policy q snap content now fresh" "path = content_path Source_Object (sha256_bytes content)"
    "raw_read read_object (raw_of r) (rs_backend st') = Inr content" "rs_receipts st' = rs_receipts st @ [r]"
    "receipt_id r \<notin> receipt_id ` set (rs_receipts st)" "access_status policy \<noteq> PROHIBITED"
proof -
  let ?put = "raw_put_stream put_object read_object Source_Object stream (Some (min m (max_response_bytes policy))) (rs_backend st)"
  obtain b raw where p: "?put = (b, Inr raw)" and g: "\<forall>(c, e) \<in> set (capture_guards policy q snap). \<not> c"
    and st': "r = receipt_of_raw upper policy_text policy q snap raw now fresh" "path = ro_path raw"
      "st' = st\<lparr>rs_backend := b, rs_receipts := rs_receipts st @ [r]\<rparr>" "\<not> list_ex (\<lambda>x. receipt_id x = receipt_id r) (rs_receipts st)"
    using assms by (auto simp: pg_capture_def Let_def guarded_eq_Inr split: sum.splits prod.splits if_splits)
  obtain content where c: "read_bounded (Some (min m (max_response_bytes policy))) stream = Inr content"
    "raw = target_ref Source_Object (sha256_bytes content) (int (length content))" "raw_read read_object raw b = Inr content"
    by (rule raw_put_Inr [OF p])
  have r: "r = receipt_for upper policy_text policy q snap content now fresh"
    by (simp add: st'(1) c(2) receipt_of_raw_def receipt_for_def target_ref_def)
  have fresh: "receipt_id r \<notin> receipt_id ` set (rs_receipts st)" using st'(4) by (auto simp: list_ex_iff)
  have "raw_of r = raw" by (simp add: raw_of_def r c(2) receipt_for_def)
  then have "raw_read read_object (raw_of r) (rs_backend st') = Inr content" using c(3) st'(3) by simp
  with c(1) show thesis
    by (intro that [of content]) (use r st'(2,3) c(2) g fresh in \<open>simp_all add: read_bounded_response target_ref_def capture_guards_def\<close>)
qed

lemma capture_keeps:
  assumes "pg_capture put_object read_object upper policy_text stream policy q snap m now fresh st = (st', res)"
    "read_object p (rs_backend st) = Inr d"
  shows "read_object p (rs_backend st') = Inr d"
  using assms raw_put_keeps [OF assms(2)]
  by (auto simp: pg_capture_def Let_def split: sum.splits prod.splits if_splits)

lemma stored_keeps:
  assumes "receipt_stored read_object b r" "\<And>p d. read_object p b = Inr d \<Longrightarrow> read_object p b' = Inr d"
  shows "receipt_stored read_object b' r"
  using assms(1) raw_read_keeps [OF _ assms(2)] by (auto simp: receipt_stored_def)

lemma receipts_run_sound: "receipts_run put_object read_object st \<Longrightarrow> receipts_sound read_object st"
proof (induction rule: receipts_run.induct)
  case (capture st upper policy_text stream policy q snap m now fresh st' res)
  have kept: "list_all (receipt_stored read_object (rs_backend st')) (rs_receipts st)"
    using capture.IH stored_keeps [OF _ capture_keeps [OF capture.hyps(2)]] by (auto simp: receipts_sound_def list_all_iff)
  show ?case
  proof (cases res)
    case (Inl e)
    then have "rs_receipts st' = rs_receipts st"
      using capture.hyps(2) by (auto simp: pg_capture_def Let_def split: sum.splits prod.splits if_splits)
    with kept capture.IH show ?thesis by (simp add: receipts_sound_def)
  next
    case (Inr rp)
    obtain r path where rp: "rp = (r, path)" by fastforce
    obtain content where c: "content \<noteq> []" "r = receipt_for upper policy_text policy q snap content now fresh"
      "raw_read read_object (raw_of r) (rs_backend st') = Inr content" "rs_receipts st' = rs_receipts st @ [r]"
      "receipt_id r \<notin> receipt_id ` set (rs_receipts st)" "access_status policy \<noteq> PROHIBITED"
      using capture_Inr [OF capture.hyps(2) [unfolded Inr rp]] by metis
    have "receipt_stored read_object (rs_backend st') r"
      using c(1-3,6) by (simp add: receipt_stored_def)
    then show ?thesis using kept capture.IH c(4,5) by (simp add: receipts_sound_def)
  qed
next
  case (other st path content b res')
  then show ?case using stored_keeps [OF _ put_keeps] by (auto simp: receipts_sound_def list_all_iff)
qed (simp add: receipts_sound_def)

end

lemma sound_get:
  assumes "receipts_sound read st" "r \<in> set (rs_receipts st)"
  shows "pg_get_receipt (receipt_id r) st = Inr r" "receipt_stored read (rs_backend st) r"
proof -
  have "find (\<lambda>x. receipt_id x = receipt_id r) (rs_receipts st) = Some r"
    using assms find_unique_iff [of receipt_id "rs_receipts st" "receipt_id r" "\<lambda>_. True" r] by (simp add: receipts_sound_def)
  then show "pg_get_receipt (receipt_id r) st = Inr r" by (simp add: pg_get_receipt_def)
  show "receipt_stored read (rs_backend st) r" using assms by (simp add: receipts_sound_def list_all_iff)
qed

text \<open>C30. On a filesystem and on any number of mirrored filesystems, whatever is captured and whatever else is written to
  the backend, each receipt of the store has its raw response there: reading the object the receipt names gives a
  non-empty content with exactly its SHA-256 and size. Receipt ids are unique and nothing was captured under a
  prohibited policy.\<close>

theorem receipts_have_raw_objects:
  "(\<forall>st r. receipts_run fs_put read_bytes st \<and> r \<in> set (rs_receipts st) \<longrightarrow>
      receipt_stored read_bytes (rs_backend st) r \<and> pg_get_receipt (receipt_id r) st = Inr r)
   \<and> (\<forall>n ns st r. receipts_run (replicated_put (map fs_replica (n # ns)) (int (Suc (length ns))))
        (replicated_read (map fs_replica (n # ns)) (int (Suc (length ns)))) st \<and> r \<in> set (rs_receipts st) \<longrightarrow>
      receipt_stored (replicated_read (map fs_replica (n # ns)) (int (Suc (length ns)))) (rs_backend st) r
      \<and> pg_get_receipt (receipt_id r) st = Inr r)"
proof (intro conjI allI impI)
  fix st r
  assume "receipts_run fs_put read_bytes st \<and> r \<in> set (rs_receipts st)"
  then show "receipt_stored read_bytes (rs_backend st) r" "pg_get_receipt (receipt_id r) st = Inr r"
    using sound_get [OF filesystem.receipts_run_sound] by blast+
next
  fix n ns st r
  assume "receipts_run (replicated_put (map fs_replica (n # ns)) (int (Suc (length ns))))
        (replicated_read (map fs_replica (n # ns)) (int (Suc (length ns)))) st \<and> r \<in> set (rs_receipts st)"
  then show "receipt_stored (replicated_read (map fs_replica (n # ns)) (int (Suc (length ns)))) (rs_backend st) r"
      "pg_get_receipt (receipt_id r) st = Inr r"
    using sound_get [OF mirrored.receipts_run_sound [of n ns]] by simp_all
qed

lemma receipts_have_raw_objects_witness:
  "\<exists>st r path. pg_capture fs_put read_bytes (\<lambda>s. s) (\<lambda>p. []) [[65]] demo_policy demo_capture_request None 100 demo_time ''0''
      \<lparr>rs_backend = [], rs_receipts = []\<rparr> = (st, Inr (r, path))
    \<and> (\<exists>content. raw_read read_bytes (raw_of r) (rs_backend st) = Inr content \<and> length content = 1)"
proof -
  let ?s = "\<lparr>rs_backend = [], rs_receipts = []\<rparr> :: backend receipt_store"
  let ?cap = "pg_capture fs_put read_bytes (\<lambda>s. s) (\<lambda>p. []) [[65]] demo_policy demo_capture_request None 100 demo_time ''0'' ?s"
  have limits: "max_response_bytes demo_policy = 100" "guarded (capture_guards demo_policy demo_capture_request None) () = Inr ()"
    by (simp_all add: demo_policy_def capture_guards_def demo_capture_request_def)
  have "\<exists>st r path. ?cap = (st, Inr (r, path)) \<and> r = receipt_for (\<lambda>s. s) (\<lambda>p. []) demo_policy demo_capture_request None [65] demo_time ''0''"
    using filesystem.put_returns [OF first_put [of "[65]" Source_Object]]
    by (simp add: pg_capture_def limits raw_put_stream_def read_bounded_def Let_def first_put object_ref_of_def receipt_of_raw_def
        receipt_for_def)
  then obtain st r path where cap: "?cap = (st, Inr (r, path))"
      "r = receipt_for (\<lambda>s. s) (\<lambda>p. []) demo_policy demo_capture_request None [65] demo_time ''0''" by blast
  have run: "receipts_run fs_put read_bytes st" by (rule receipts_run.capture [OF receipts_run.start cap(1)])
  have "r \<in> set (rs_receipts st)"
    using cap(1) by (auto simp: pg_capture_def Let_def limits split: prod.splits sum.splits if_splits)
  then have stored: "receipt_stored read_bytes (rs_backend st) r" using run receipts_have_raw_objects by blast
  have size: "raw_size_bytes r = 1" by (simp add: cap(2) receipt_for_def)
  from stored size cap(1) show ?thesis by (fastforce simp: receipt_stored_def)
qed

end
