(* ===== verification/Postgres_Worker.thy ===== *)
theory Postgres_Worker
  imports Postgres_Receipts Postgres_Automation Postgres_Policy Leases Acquisition_Demo
begin

text \<open>
  src/ballotproof/postgres_worker.py: the stores of a worker process that checks its lease before every write, and the
  executor of the runtime, which gets the receipt store itself, without the check. The check and the write are separate
  transactions.
\<close>

section \<open>The fencing context\<close>

text \<open>The leases and the lease that the context of this process holds.\<close>

type_synonym fencing = "lease_state \<times> fenced_lease option"

definition context_acquire :: "(rat \<Rightarrow> int) \<Rightarrow> nat \<Rightarrow> string \<Rightarrow> rat \<Rightarrow> clock_readings \<Rightarrow> fencing
    \<Rightarrow> (fencing \<times> fenced_lease option) result" where
  "context_acquire iv process worker secs clk fx =
     bind_result (try_acquire iv process worker secs clk (fst fx)) (\<lambda>(leases, got).
       return ((leases, case got of None \<Rightarrow> snd fx | Some l \<Rightarrow> Some l), got))"

definition context_release :: "nat \<Rightarrow> string \<Rightarrow> fencing \<Rightarrow> fencing \<times> bool" where
  "context_release process worker fx =
     (case release_lease process worker (fst fx) of (leases, gone) \<Rightarrow> ((leases, None), gone))"

definition assert_fenced :: "int \<Rightarrow> fencing \<Rightarrow> unit result" where
  "assert_fenced now fx = (case snd fx of
       None \<Rightarrow> raise (PermissionError ''source mutation requires an active fenced worker lease'')
     | Some l \<Rightarrow> assert_current l now (fst fx))"

section \<open>Guarded stores\<close>

text \<open>\<open>chk\<close> is the outcome of the check that precedes the operation.\<close>

definition fenced :: "unit result \<Rightarrow> ('s \<Rightarrow> 's \<times> 'a result) \<Rightarrow> 's \<Rightarrow> 's \<times> 'a result" where
  "fenced chk f s = (case chk of Inl e \<Rightarrow> (s, raise e) | Inr _ \<Rightarrow> f s)"

definition transaction :: "('s \<Rightarrow> ('s \<times> 'a) result) \<Rightarrow> 's \<Rightarrow> 's \<times> 'a result" where
  "transaction f s = (case f s of Inl e \<Rightarrow> (s, raise e) | Inr (s', v) \<Rightarrow> (s', return v))"

definition fenced_reserve :: "unit result \<Rightarrow> net_library \<Rightarrow> (rat \<Rightarrow> int) \<Rightarrow> pg_session \<Rightarrow> policy_snapshot
    \<Rightarrow> reservation_request \<Rightarrow> provenance_receipt list \<Rightarrow> datetime \<Rightarrow> string \<Rightarrow> scheduler_store
    \<Rightarrow> scheduler_store \<times> reservation_decision result" where
  "fenced_reserve chk net td ses s q rcpts now fresh = fenced chk (transaction (pg_reserve net td ses s q rcpts now fresh))"

definition fenced_create_plan :: "unit result \<Rightarrow> (string \<Rightarrow> string) \<Rightarrow> pg_session \<Rightarrow> policy_snapshot \<Rightarrow> automation_request
    \<Rightarrow> datetime \<Rightarrow> string \<Rightarrow> automation_store \<Rightarrow> automation_store \<times> automation_plan result" where
  "fenced_create_plan chk upper ses s q now fresh = fenced chk (transaction (pg_create_plan upper ses s q now fresh))"

definition fenced_set_enabled :: "unit result \<Rightarrow> pg_session \<Rightarrow> string \<Rightarrow> bool \<Rightarrow> datetime
    \<Rightarrow> automation_store \<Rightarrow> automation_store \<times> automation_plan result" where
  "fenced_set_enabled chk ses pid enabled now = fenced chk (transaction (pg_set_enabled ses pid enabled now))"

definition fenced_defer :: "unit result \<Rightarrow> pg_session \<Rightarrow> string \<Rightarrow> datetime \<Rightarrow> datetime
    \<Rightarrow> automation_store \<Rightarrow> automation_store \<times> automation_plan result" where
  "fenced_defer chk ses pid next now = fenced chk (transaction (pg_defer_plan ses pid next now))"

definition fenced_advance :: "unit result \<Rightarrow> pg_session \<Rightarrow> automation_plan \<Rightarrow> datetime \<Rightarrow> datetime
    \<Rightarrow> automation_store \<Rightarrow> automation_store \<times> automation_plan result" where
  "fenced_advance chk ses plan evaluated now = fenced chk (transaction (pg_advance ses plan evaluated now))"

definition fenced_add_run :: "unit result \<Rightarrow> pg_session \<Rightarrow> automation_run
    \<Rightarrow> automation_store \<Rightarrow> automation_store \<times> automation_run result" where
  "fenced_add_run chk ses run =
     fenced chk (transaction (\<lambda>st. bind_result (pg_add_run ses run st) (\<lambda>st'. return (st', run))))"

definition fenced_capture :: "unit result \<Rightarrow> (string \<Rightarrow> byte list \<Rightarrow> 's \<Rightarrow> 's \<times> object_ref result)
    \<Rightarrow> (string \<Rightarrow> 's \<Rightarrow> byte list result) \<Rightarrow> (string \<Rightarrow> string) \<Rightarrow> (source_policy \<Rightarrow> string) \<Rightarrow> byte list list
    \<Rightarrow> source_policy \<Rightarrow> capture_request \<Rightarrow> string option \<Rightarrow> int \<Rightarrow> datetime \<Rightarrow> string
    \<Rightarrow> 's receipt_store \<Rightarrow> 's receipt_store \<times> (provenance_receipt \<times> string) result" where
  "fenced_capture chk put read upper policy_text stream policy q snap max_bytes now fresh =
     fenced chk (pg_capture put read upper policy_text stream policy q snap max_bytes now fresh)"

definition fenced_claim :: "unit result \<Rightarrow> pg_session \<Rightarrow> reservation \<Rightarrow> transport_provenance \<Rightarrow> datetime
    \<Rightarrow> transport_execution list \<Rightarrow> transport_execution list \<times> unit result" where
  "fenced_claim chk ses r prov started =
     fenced chk (transaction (\<lambda>rows. bind_result (pg_claim ses r prov started rows) (\<lambda>rows'. return (rows', ()))))"

definition fenced_finish :: "unit result \<Rightarrow> pg_session \<Rightarrow> string \<Rightarrow> execution_status \<Rightarrow> string option \<Rightarrow> string option
    \<Rightarrow> datetime \<Rightarrow> transport_execution list \<Rightarrow> transport_execution list \<times> unit result" where
  "fenced_finish chk ses rid status receipt err now =
     fenced chk (\<lambda>rows. (pg_finish ses rid status receipt err now rows, return ()))"

section \<open>The executor\<close>

record 's pg_transport =
  px_rows :: "transport_execution list"
  px_receipts :: "'s receipt_store"
  px_sent :: "transport_request list"

text \<open>\<open>_validate_binding\<close> for any policy store.\<close>

definition check_binding :: "net_library \<Rightarrow> policy_snapshot result \<Rightarrow> policy_snapshot \<Rightarrow> reservation \<Rightarrow> policy_snapshot result" where
  "check_binding net found s r =
     (case found of
        Inl (KeyError _) \<Rightarrow> raise (PermissionError ''source policy is missing at transport execution time'')
      | Inl e \<Rightarrow> raise e
      | Inr current \<Rightarrow> bind_result (guarded
          [(access_status (ps_policy current) \<noteq> APPROVED,
            PermissionError ''source policy is not approved for transport execution''),
           (ps_source_id s \<noteq> ps_source_id current \<or> ps_version s \<noteq> ps_version current \<or> ps_hash s \<noteq> ps_hash current,
            PermissionError ''source policy snapshot is no longer current''),
           (re_source_id r \<noteq> sp_source_id (ps_policy current),
            ValueError ''reservation source_id does not match current policy snapshot''),
           (re_policy_version r \<noteq> ps_version current,
            PermissionError ''reservation policy version is no longer current''),
           (re_policy_hash r \<noteq> ps_hash current, PermissionError ''reservation policy hash is no longer current''),
           (max_attempts (ps_policy current) < re_attempt r,
            ValueError ''reservation attempt exceeds source policy max_attempts'')] ())
          (\<lambda>_. case validate_source_request net (ps_policy current) (re_request_url r) (re_request_method r) of
             Inl e \<Rightarrow> raise (request_error_of e) | Inr _ \<Rightarrow> return current))"

definition fenced_prepare :: "unit result \<Rightarrow> net_library \<Rightarrow> pg_session \<Rightarrow> policy_store \<Rightarrow> policy_snapshot \<Rightarrow> reservation
    \<Rightarrow> transport \<Rightarrow> int option \<Rightarrow> datetime \<Rightarrow> 's pg_transport \<Rightarrow> 's pg_transport \<times> prepared result" where
  "fenced_prepare chk net ses policies s r t max_bytes started st =
     (case bind_result (check_binding net (pg_latest_policy (hosts_lib net) ses policies (re_source_id r)) s r) (\<lambda>current.
         bind_result (transport_provenance_of t) (\<lambda>prov. return (current, prov))) of
        Inl e \<Rightarrow> (st, raise e)
      | Inr (current, prov) \<Rightarrow> (case fenced_claim chk ses r prov started (px_rows st) of
          (rows, Inl e) \<Rightarrow> (st\<lparr>px_rows := rows\<rparr>, raise e)
        | (rows, Inr _) \<Rightarrow>
            (let bound = max_response_bytes (ps_policy current);
                 limit = (case max_bytes of None \<Rightarrow> bound | Some m \<Rightarrow> min bound m);
                 q = transport_request_of r current limit
             in (st\<lparr>px_rows := rows\<rparr>,
                 if transport_request_ok q
                 then return \<lparr>pe_reservation = r, pe_snapshot = current, pe_provenance = prov, pe_max_bytes = limit,
                   pe_request = q\<rparr>
                 else raise field_error))))"

text \<open>The outcome is recorded, or the exception of the check takes its place.\<close>

definition settle :: "unit result \<Rightarrow> pg_session \<Rightarrow> string \<Rightarrow> execution_status \<Rightarrow> string option \<Rightarrow> string option \<Rightarrow> datetime
    \<Rightarrow> 's pg_transport \<Rightarrow> 'a result \<Rightarrow> 's pg_transport \<times> 'a result" where
  "settle chk ses rid status receipt err now st res =
     (case fenced_finish chk ses rid status receipt err now (px_rows st) of
        (rows, Inl e) \<Rightarrow> (st\<lparr>px_rows := rows\<rparr>, raise e) | (rows, Inr _) \<Rightarrow> (st\<lparr>px_rows := rows\<rparr>, res))"

definition fenced_conclude :: "unit result \<Rightarrow> (string \<Rightarrow> byte list \<Rightarrow> 's \<Rightarrow> 's \<times> object_ref result)
    \<Rightarrow> (string \<Rightarrow> 's \<Rightarrow> byte list result) \<Rightarrow> (string \<Rightarrow> string) \<Rightarrow> (source_policy \<Rightarrow> string) \<Rightarrow> pg_session \<Rightarrow> prepared
    \<Rightarrow> transport_response result \<Rightarrow> execution_clock \<Rightarrow> 's pg_transport
    \<Rightarrow> 's pg_transport \<times> (provenance_receipt \<times> string) result" where
  "fenced_conclude chk put read upper policy_text ses p answer clk st =
     (let rid = reservation_id (pe_reservation p) in
      case answer of
        Inl e \<Rightarrow> settle chk ses rid Transport_Error None (Some ''transport_exception'') (ec_finished clk) st (raise e)
      | Inr response \<Rightarrow>
          (let q = capture_request_of p (response_head_of response) in
           case (if \<not> capture_request_ok q then (px_receipts st, raise field_error)
             else pg_capture put read upper policy_text (response_stream response) (ps_policy (pe_snapshot p)) q
               (Some (ps_hash (pe_snapshot p))) (pe_max_bytes p) (ec_stored clk) (ec_fresh clk) (px_receipts st)) of
             (rs, Inl e) \<Rightarrow> settle chk ses rid Capture_Error None (Some ''capture_exception'') (ec_finished clk)
               (st\<lparr>px_receipts := rs\<rparr>) (raise e)
           | (rs, Inr captured) \<Rightarrow> settle chk ses rid Completed (Some (receipt_id (fst captured))) None (ec_finished clk)
               (st\<lparr>px_receipts := rs\<rparr>) (return captured)))"

text \<open>\<open>claiming\<close> and \<open>finishing\<close> are the outcomes of the two checks, which may find different leases.\<close>

definition fenced_execute :: "unit result \<Rightarrow> unit result \<Rightarrow> (string \<Rightarrow> byte list \<Rightarrow> 's \<Rightarrow> 's \<times> object_ref result)
    \<Rightarrow> (string \<Rightarrow> 's \<Rightarrow> byte list result) \<Rightarrow> net_library \<Rightarrow> (source_policy \<Rightarrow> string) \<Rightarrow> pg_session \<Rightarrow> policy_store
    \<Rightarrow> policy_snapshot \<Rightarrow> reservation \<Rightarrow> transport \<Rightarrow> int option \<Rightarrow> execution_clock \<Rightarrow> 's pg_transport
    \<Rightarrow> 's pg_transport \<times> (provenance_receipt \<times> string) result" where
  "fenced_execute claiming finishing put read net policy_text ses policies s r t max_bytes clk st =
     (case fenced_prepare claiming net ses policies s r t max_bytes (ec_started clk) st of
        (st1, Inl e) \<Rightarrow> (st1, raise e)
      | (st1, Inr p) \<Rightarrow> fenced_conclude finishing put read (upper_text net) policy_text ses p (ts_send t (pe_request p)) clk
          (st1\<lparr>px_sent := px_sent st1 @ [pe_request p]\<rparr>))"

section \<open>A superseded worker\<close>

lemma check_binding_files: "validate_binding net policies s r = check_binding net (latest_policy (hosts_lib net) policies (re_source_id r)) s r"
  by (simp add: validate_binding_def check_binding_def)

lemma assert_fenced_cases: "assert_fenced now fx = Inr () \<or> (\<exists>m. assert_fenced now fx = Inl (PermissionError m))"
  by (auto simp: assert_fenced_def assert_current_def split: option.splits)

lemma superseded_context:
  assumes "context_acquire iv process worker secs clk fx = Inr ((leases, ctx), Some l)" "acquiring_run iv leases l2"
    "lease_row l2 = Some row" "worker_id row \<noteq> worker" "acquiring_run iv l2 l3"
  shows "\<exists>m. assert_fenced now (l3, ctx) = Inl (PermissionError m)"
proof -
  have "try_acquire iv process worker secs clk (fst fx) = Inr (leases, Some l)" "ctx = Some l"
    using assms(1) by (auto simp: context_acquire_def split: prod.splits)
  then have "assert_fenced now (l3, ctx) \<noteq> Inr ()"
    using superseded_stale [OF _ assms(2-5)] by (simp add: assert_fenced_def)
  with assert_fenced_cases show ?thesis by blast
qed

lemma fenced_refused [simp]: "fenced (Inl e) f s = (s, Inl e)"
  by (simp add: fenced_def)

text \<open>C31. In a run in which leases are only acquired and left to expire, never released: once another worker has got the
  lease, everything that the former holder tries through its guarded stores raises a PermissionError and changes
  nothing: reservations, plans, runs, captures, claims and finished executions; and no execution it starts sends
  anything. (After a release the fencing tokens start again at 1, and a lost lease can become current again.)\<close>

theorem superseded_worker_changes_nothing:
  assumes "context_acquire iv process worker secs clk fx = Inr ((leases, ctx), Some l)" "acquiring_run iv leases l2"
    "lease_row l2 = Some row" "worker_id row \<noteq> worker" "acquiring_run iv l2 l3" "chk = assert_fenced now (l3, ctx)"
  shows "\<exists>m. (\<forall>net td ses s q rcpts now fresh st. fenced_reserve chk net td ses s q rcpts now fresh st = (st, Inl (PermissionError m)))
    \<and> (\<forall>upper ses s q now fresh st. fenced_create_plan chk upper ses s q now fresh st = (st, Inl (PermissionError m)))
    \<and> (\<forall>ses pid flag now st. fenced_set_enabled chk ses pid flag now st = (st, Inl (PermissionError m)))
    \<and> (\<forall>ses pid next now st. fenced_defer chk ses pid next now st = (st, Inl (PermissionError m)))
    \<and> (\<forall>ses plan evaluated now st. fenced_advance chk ses plan evaluated now st = (st, Inl (PermissionError m)))
    \<and> (\<forall>ses run st. fenced_add_run chk ses run st = (st, Inl (PermissionError m)))
    \<and> (\<forall>put read upper policy_text stream policy q snap limit now fresh st.
        fenced_capture chk put read upper policy_text stream policy q snap limit now fresh st = (st, Inl (PermissionError m)))
    \<and> (\<forall>ses r prov started rows. fenced_claim chk ses r prov started rows = (rows, Inl (PermissionError m)))
    \<and> (\<forall>ses rid status receipt err now rows.
        fenced_finish chk ses rid status receipt err now rows = (rows, Inl (PermissionError m)))
    \<and> (\<forall>finishing put read net policy_text ses policies s r t limit clk st.
        \<exists>e. fenced_execute chk finishing put read net policy_text ses policies s r t limit clk st = (st, Inl e))"
proof -
  obtain m where m: "chk = Inl (PermissionError m)" using superseded_context [OF assms(1-5)] assms(6) by blast
  have claim: "fenced_claim chk ses r prov started rows = (rows, Inl (PermissionError m))" for ses r prov started rows
    by (simp add: m fenced_claim_def)
  have prep: "\<exists>e. fenced_prepare chk net ses policies s r t limit now st = (st, Inl e)" for net ses policies s r t limit now st
    by (auto simp: fenced_prepare_def claim split: sum.split prod.split)
  have exec: "\<exists>e. fenced_execute chk finishing put read net policy_text ses policies s r t limit clk st = (st, Inl e)"
    for finishing put read net policy_text ses policies s r t limit clk st
  proof -
    obtain e where "fenced_prepare chk net ses policies s r t limit (ec_started clk) st = (st, Inl e)" using prep by blast
    then show ?thesis by (simp add: fenced_execute_def)
  qed
  show ?thesis
    by (rule exI [of _ m], intro conjI allI claim exec) (simp_all add: m fenced_reserve_def fenced_create_plan_def
      fenced_set_enabled_def fenced_defer_def fenced_advance_def fenced_add_run_def fenced_capture_def fenced_finish_def)
qed

text \<open>The executor stores what it receives without looking at the lease: when the lease is lost between the claim and the
  end of an execution whose response is captured, the receipt and the raw response stay, the execution stays claimed
  for good, and the call raises.\<close>

theorem late_capture_is_kept:
  assumes "fenced_prepare claiming net ses policies s r t limit (ec_started clk) st = (st1, Inr p)"
    "ts_send t (pe_request p) = Inr response" "capture_request_ok (capture_request_of p (response_head_of response))"
    "pg_capture put read (upper_text net) policy_text (response_stream response) (ps_policy (pe_snapshot p))
       (capture_request_of p (response_head_of response)) (Some (ps_hash (pe_snapshot p))) (pe_max_bytes p) (ec_stored clk)
       (ec_fresh clk) (px_receipts st1) = (rs, Inr captured)"
    "finishing = Inl e"
  shows "\<exists>st'. fenced_execute claiming finishing put read net policy_text ses policies s r t limit clk st = (st', Inl e)
    \<and> fst captured \<in> set (rs_receipts (px_receipts st'))
    \<and> (\<exists>x \<in> set (px_rows st'). ex_reservation_id x = reservation_id r \<and> ex_status x = Claimed)
    \<and> (\<forall>prov started rows. set (px_rows st') \<subseteq> set rows \<longrightarrow>
        fenced_claim (Inr ()) ses r prov started rows = (rows, Inl (ValueError ''reservation has already been consumed'')))"
proof -
  have row: "\<exists>x \<in> set (px_rows st1). ex_reservation_id x = reservation_id r \<and> ex_status x = Claimed"
    using assms(1) by (auto simp: fenced_prepare_def fenced_claim_def fenced_def transaction_def pg_claim_def Let_def
        split: sum.splits prod.splits if_splits)
  have "fst captured \<in> set (rs_receipts rs)"
    using assms(4) by (auto simp: pg_capture_def Let_def split: sum.splits prod.splits if_splits)
  moreover have "fenced_execute claiming finishing put read net policy_text ses policies s r t limit clk st
      = (st1\<lparr>px_sent := px_sent st1 @ [pe_request p], px_receipts := rs\<rparr>, Inl e)"
    using assms by (simp add: fenced_execute_def fenced_conclude_def Let_def settle_def fenced_finish_def)
  ultimately show ?thesis using row
    by (fastforce simp: fenced_claim_def fenced_def transaction_def pg_claim_def Let_def list_ex_iff)
qed

section \<open>Two workers\<close>

lemma superseded_worker_changes_nothing_witness:
  "\<exists>m. fenced_set_enabled (assert_fenced 25 (remember 1 (demo_lease ''B'' 2 20) (remember 0 (demo_lease ''A'' 1 0) no_lease),
       Some (demo_lease ''A'' 1 0))) utc_session ''p'' False (demo_clock 25) \<lparr>as_plans = [], as_runs = []\<rparr>
     = (\<lparr>as_plans = [], as_runs = []\<rparr>, Inl (PermissionError m))"
proof -
  let ?l1 = "remember 0 (demo_lease ''A'' 1 0) no_lease"
  let ?l2 = "remember 1 (demo_lease ''B'' 2 20) ?l1"
  have a: "context_acquire (\<lambda>_. 10) 0 ''A'' 10 (demo_readings 0) (no_lease, None)
      = Inr ((?l1, Some (demo_lease ''A'' 1 0)), Some (demo_lease ''A'' 1 0))"
    by (simp add: context_acquire_def demo_acquire_first)
  have b: "acquiring_run (\<lambda>_. 10) ?l1 ?l2" by (rule acquiring_run.acquire [OF acquiring_run.start demo_takeover])
  have c: "lease_row ?l2 = Some (demo_lease ''B'' 2 20)" "worker_id (demo_lease ''B'' 2 20) \<noteq> ''A''"
    by (simp_all add: remember_def demo_lease_def)
  from superseded_worker_changes_nothing [OF a b c acquiring_run.start HOL.refl, of 25] show ?thesis
    by (elim exE conjE) (rule exI, erule allE, erule allE, erule allE, erule allE, erule allE, assumption)
qed

definition late_store :: "backend pg_transport" where
  "late_store = \<lparr>px_rows = [], px_receipts = \<lparr>rs_backend = [], rs_receipts = []\<rparr>, px_sent = []\<rparr>"

lemma late_prepared:
  "\<exists>st p. fenced_prepare (Inr ()) demo_net utc_session [demo_row] demo_current demo_slot demo_transport None
      (ec_started demo_execution_clock) late_store = (st, Inr p) \<and> px_receipts st = px_receipts late_store
     \<and> pe_snapshot p = demo_current \<and> pe_max_bytes p = 100 \<and> pe_reservation p = demo_slot \<and> tp_version (pe_provenance p) = ''unversioned''
     \<and> len_between 1 256 (tp_id (pe_provenance p)) \<and> is_sha256_hex (tp_config_hash (pe_provenance p))
     \<and> tp_kind (pe_provenance p) = Compatibility"
proof -
  have "loaded_policy utc_session demo_row = demo_row"
    by (simp add: loaded_policy_def demo_row_def next_policy_row_def Let_def from_column_def utc_session_def demo_time_def instant_def)
  then have "pg_latest_policy demo_lib utc_session [demo_row] ''src'' = Inr demo_current"
    by (simp add: pg_latest_policy_def policy_rows_def pg_row_to_snapshot_def demo_snapshot_of)
  then have bind: "check_binding demo_net (pg_latest_policy demo_lib utc_session [demo_row] ''src'') demo_current demo_slot = Inr demo_current"
    by (simp add: check_binding_def demo_permitted_current)
  have ok: "transport_request_ok (transport_request_of demo_slot demo_current 100)"
    using demo_row_hash by (simp add: transport_request_ok_def transport_request_of_def)
  have prov: "\<exists>prov. transport_provenance_of demo_transport = Inr prov \<and> tp_version prov = ''unversioned''
     \<and> len_between 1 256 (tp_id prov) \<and> is_sha256_hex (tp_config_hash prov) \<and> tp_kind prov = Compatibility"
    by (simp add: transport_provenance_of_def demo_transport_def len_between_def py_len_def sha256_bytes_is_hex)
  then obtain prov where "transport_provenance_of demo_transport = Inr prov" "tp_version prov = ''unversioned''"
     "len_between 1 256 (tp_id prov)" "is_sha256_hex (tp_config_hash prov)" "tp_kind prov = Compatibility" by blast
  then show ?thesis
    by (simp add: fenced_prepare_def bind fenced_claim_def fenced_def transaction_def pg_claim_def late_store_def ok)
qed

lemma late_capture_is_kept_witness:
  "\<exists>st' r. fenced_execute (Inr ()) (Inl (PermissionError ''stale'')) fs_put read_bytes demo_net (\<lambda>p. []) utc_session [demo_row]
      demo_current demo_slot demo_transport None demo_execution_clock late_store = (st', Inl (PermissionError ''stale''))
    \<and> r \<in> set (rs_receipts (px_receipts st'))"
proof -
  obtain st p where p: "fenced_prepare (Inr ()) demo_net utc_session [demo_row] demo_current demo_slot demo_transport None
      (ec_started demo_execution_clock) late_store = (st, Inr p)" "px_receipts st = px_receipts late_store"
      "pe_snapshot p = demo_current" "pe_max_bytes p = 100" "pe_reservation p = demo_slot"
      "tp_version (pe_provenance p) = ''unversioned''" "len_between 1 256 (tp_id (pe_provenance p))"
      "is_sha256_hex (tp_config_hash (pe_provenance p))" "tp_kind (pe_provenance p) = Compatibility"
    using late_prepared by blast
  let ?h = "\<lparr>rh_status_code = 200, rh_received_at = demo_clock 1, rh_media_type = None, rh_etag = None, rh_last_modified = None\<rparr>"
  have send: "ts_send demo_transport (pe_request p) = Inr (Buffered ?h [1, 2, 3])" by (simp add: demo_transport_def)
  have q: "capture_request_ok (capture_request_of p ?h)"
    using p(5-9) by (simp add: capture_request_ok_def capture_request_of_def Let_def demo_slot_key len_between_def py_len_def
        provenance_kind_text_def)
  have guards: "guarded (capture_guards demo_policy' q' (Some (ps_hash demo_row))) () = Inr ()"
    if "demo_policy' = ps_policy demo_current" "q' = capture_request_of p ?h" for demo_policy' q'
    using p(5) demo_row_hash by (simp add: that capture_guards_def capture_request_of_def Let_def) (simp add: demo_current_def demo_policy_def)
  have bounded: "read_bounded (Some 100) (response_stream (Buffered ?h [1, 2, 3])) = Inr [1, 2, 3]"
    using gather_bytes_reader [of read_size "[]" "[1, 2, 3]" 100] by (simp add: read_bounded_def response_stream_def read_size_def)
  have "\<exists>rs captured. pg_capture fs_put read_bytes (upper_text demo_net) (\<lambda>p. []) (response_stream (Buffered ?h [1, 2, 3]))
      (ps_policy (pe_snapshot p)) (capture_request_of p (response_head_of (Buffered ?h [1, 2, 3]))) (Some (ps_hash (pe_snapshot p)))
      (pe_max_bytes p) (ec_stored demo_execution_clock) (ec_fresh demo_execution_clock) (px_receipts st) = (rs, Inr captured)"
    using filesystem.put_returns [OF first_put [of "[1, 2, 3]" Source_Object]]
    by (simp add: pg_capture_def p(2-4) guards bounded raw_put_stream_def Let_def first_put object_ref_of_def late_store_def)
  then obtain rs captured where cap: "pg_capture fs_put read_bytes (upper_text demo_net) (\<lambda>p. []) (response_stream (Buffered ?h [1, 2, 3]))
      (ps_policy (pe_snapshot p)) (capture_request_of p (response_head_of (Buffered ?h [1, 2, 3]))) (Some (ps_hash (pe_snapshot p)))
      (pe_max_bytes p) (ec_stored demo_execution_clock) (ec_fresh demo_execution_clock) (px_receipts st) = (rs, Inr captured)" by blast
  from late_capture_is_kept [OF p(1) send _ cap HOL.refl] q show ?thesis by fastforce
qed

end
