(* ===== verification/Rate_Limit.thy ===== *)
theory Rate_Limit
  imports Unicode_Text Sha256 Complex_Main
begin

text \<open>
  src/ballotproof/rate_limit.py and edge_security.py: the fixed-window request limiters, the middleware that asks them,
  and the limit on request bodies. \<open>py_int\<close> is \<open>int(text)\<close>, \<open>None\<close> for a ValueError;
  headers are given decoded, by lower-case name. PostgreSQL times are microseconds since the epoch, one reading for
  each \<open>clock_timestamp()\<close>.
\<close>

section \<open>Limiters\<close>

record rate_decision =
  rd_allowed :: bool
  rd_limit :: int
  rd_remaining :: int
  rd_retry_after :: int

text \<open>The counts of the local limiter, by scope and window.\<close>

type_synonym window_counts = "((string \<times> int) \<times> int) list"

definition window_count :: "window_counts \<Rightarrow> string \<times> int \<Rightarrow> int" where
  "window_count counts key = (case map_of counts key of None \<Rightarrow> 0 | Some n \<Rightarrow> n)"

definition make_local_limiter :: "int \<Rightarrow> window_counts result" where
  "make_local_limiter window_seconds = guarded [(window_seconds < 1, ValueError ''window_seconds must be positive'')] []"

definition decision_of :: "int \<Rightarrow> int \<Rightarrow> int \<Rightarrow> rate_decision" where
  "decision_of n limit retry_after = \<lparr>rd_allowed = (n \<le> limit), rd_limit = limit, rd_remaining = max 0 (limit - n),
     rd_retry_after = max 1 retry_after\<rparr>"

definition consume_local :: "int \<Rightarrow> string \<Rightarrow> int \<Rightarrow> int \<Rightarrow> window_counts \<Rightarrow> (window_counts \<times> rate_decision) result" where
  "consume_local window_seconds scope limit now counts =
     (if limit < 1 then raise (ValueError ''rate limit must be positive'')
      else let window = now div window_seconds;
               n = window_count counts (scope, window) + 1;
               counts' = filter (\<lambda>((s, w), m). \<not> w < window - 1) (AList.update (scope, window) n counts)
           in return (counts', decision_of n limit (window_seconds - now mod window_seconds)))"

text \<open>The rows of \<open>api_rate_windows\<close>.\<close>

record rate_row =
  rr_scope_key :: string
  rr_window_started_at :: int
  rr_request_count :: int

definition minute_start :: "int \<Rightarrow> int" where
  "minute_start t = t div 60000000 * 60000000"

text \<open>\<open>int(float(x))\<close> of a non-negative or negative number of microseconds, in seconds.\<close>

definition whole_seconds :: "int \<Rightarrow> int" where
  "whole_seconds us = (if 0 \<le> us then us div 1000000 else - ((- us) div 1000000))"

definition consume_postgres :: "string \<Rightarrow> int \<Rightarrow> int \<Rightarrow> int \<Rightarrow> rate_row list \<Rightarrow> (rate_row list \<times> rate_decision) result" where
  "consume_postgres scope limit now returned rows =
     (if limit < 1 then raise (ValueError ''rate limit must be positive'')
      else let started = minute_start now;
               here = (\<lambda>r. rr_scope_key r = scope \<and> rr_window_started_at r = started);
               n = (case find here rows of None \<Rightarrow> 1 | Some r \<Rightarrow> rr_request_count r + 1);
               rows' = (if list_ex here rows then map (\<lambda>r. if here r then r\<lparr>rr_request_count := n\<rparr> else r) rows
                 else rows @ [\<lparr>rr_scope_key = scope, rr_window_started_at = started, rr_request_count = 1\<rparr>])
           in return (rows', decision_of n limit (whole_seconds (started + 60000000 - returned))))"

definition prune_windows :: "int \<Rightarrow> rate_row list \<Rightarrow> rate_row list \<times> nat" where
  "prune_windows now rows =
     (let old = (\<lambda>r. rr_window_started_at r < now - 86400000000) in (filter (\<lambda>r. \<not> old r) rows, length (filter old rows)))"

definition positive_limit :: "(string \<Rightarrow> int option) \<Rightarrow> string \<Rightarrow> int result" where
  "positive_limit py_int raw = (case py_int raw of
       None \<Rightarrow> raise (RuntimeError '' must be an integer'')
     | Some n \<Rightarrow> if \<not> (1 \<le> n \<and> n \<le> 100000) then raise (RuntimeError '' must be between 1 and 100000'') else return n)"

text \<open>The two settings; an unset variable is its default.\<close>

definition rate_limits :: "(string \<Rightarrow> int option) \<Rightarrow> string option \<Rightarrow> string option \<Rightarrow> (int \<times> int) result" where
  "rate_limits py_int reads writes =
     bind_result (positive_limit py_int (case reads of None \<Rightarrow> ''6000'' | Some s \<Rightarrow> s)) (\<lambda>r.
     bind_result (positive_limit py_int (case writes of None \<Rightarrow> ''1200'' | Some s \<Rightarrow> s)) (\<lambda>w. return (r, w)))"

section \<open>The middleware\<close>

record http_scope =
  hs_is_http :: bool
  hs_headers :: "string dict"
  hs_client :: "string option"
  hs_method :: "string option"

record http_reply =
  hy_status :: int
  hy_headers :: "(string \<times> string) list"
  hy_body :: string

definition scope_method :: "http_scope \<Rightarrow> string" where
  "scope_method sc = ascii_upper (case hs_method sc of None \<Rightarrow> ''GET'' | Some m \<Rightarrow> m)"

definition is_read :: "http_scope \<Rightarrow> bool" where
  "is_read sc = (scope_method sc \<in> {''GET'', ''HEAD'', ''OPTIONS''})"

definition scope_key :: "http_scope \<Rightarrow> string" where
  "scope_key sc =
     (let auth = dict_default [] (hs_headers sc) ''authorization'';
          identity = (if auth \<noteq> [] then ''auth:'' @ sha256_bytes (utf8 auth)
            else ''ip:'' @ sha256_bytes (utf8 (case hs_client sc of None \<Rightarrow> ''unknown'' | Some host \<Rightarrow> host)))
      in (if is_read sc then ''read'' else ''write'') @ '':'' @ identity)"

definition json_reply :: "int \<Rightarrow> string \<Rightarrow> (string \<times> string) list \<Rightarrow> http_reply" where
  "json_reply status body extra = \<lparr>hy_status = status, hy_headers = [(''content-type'', ''application/json''),
     (''content-length'', nat_str (length body))] @ extra, hy_body = body\<rparr>"

text \<open>\<open>None\<close> passes the request on. \<open>consume\<close> is the limiter of the middleware; any exception of it
  makes the service unavailable.\<close>

definition limit_request :: "(string \<Rightarrow> int \<Rightarrow> 's \<Rightarrow> ('s \<times> rate_decision) result) \<Rightarrow> int \<Rightarrow> int \<Rightarrow> http_scope \<Rightarrow> 's
    \<Rightarrow> 's \<times> http_reply option" where
  "limit_request consume reads writes sc st =
     (if \<not> hs_is_http sc then (st, None)
      else (case consume (scope_key sc) (if is_read sc then reads else writes) st of
          Inl e \<Rightarrow> (st, Some (json_reply 503 ''{\"detail\": \"API rate limit service unavailable\"}'' [(''retry-after'', ''5'')]))
        | Inr (st', d) \<Rightarrow>
            (st', if rd_allowed d then None
              else Some (json_reply 429 ''{\"detail\": \"API rate limit exceeded\"}''
                [(''retry-after'', int_str (rd_retry_after d)), (''x-ratelimit-limit'', int_str (rd_limit d)),
                 (''x-ratelimit-remaining'', ''0'')]))))"

section \<open>Request bodies\<close>

definition max_request_body_bytes :: "(string \<Rightarrow> int option) \<Rightarrow> string option \<Rightarrow> int result" where
  "max_request_body_bytes py_int raw = (case py_int (case raw of None \<Rightarrow> int_str (30 * 1024 * 1024) | Some s \<Rightarrow> s) of
       None \<Rightarrow> raise (RuntimeError ''BALLOTPROOF_API_MAX_BODY_BYTES must be an integer'')
     | Some n \<Rightarrow> if \<not> (1024 \<le> n \<and> n \<le> 512 * 1024 * 1024)
         then raise (RuntimeError ''BALLOTPROOF_API_MAX_BODY_BYTES must be between 1 KiB and 512 MiB'') else return n)"

text \<open>What \<open>receive\<close> returns: the body of an \<open>http.request\<close>, or another message.\<close>

datatype asgi_message = Request_Body "byte list" | Other_Message

definition body_size :: "asgi_message \<Rightarrow> int" where
  "body_size m = (case m of Request_Body bs \<Rightarrow> int (length bs) | Other_Message \<Rightarrow> 0)"

text \<open>The messages an application gets that goes on reading, and whether RequestBodyTooLarge was raised.\<close>

fun limited_receive :: "int \<Rightarrow> int \<Rightarrow> asgi_message list \<Rightarrow> asgi_message list \<times> bool" where
  "limited_receive limit observed [] = ([], False)"
| "limited_receive limit observed (Other_Message # ms) =
     (let (got, exceeded) = limited_receive limit observed ms in (Other_Message # got, exceeded))"
| "limited_receive limit observed (Request_Body bs # ms) =
     (let n = observed + int (length bs) in
      if limit < n then ([], True)
      else let (got, exceeded) = limited_receive limit n ms in (Request_Body bs # got, exceeded))"

definition too_large :: "int \<Rightarrow> http_reply" where
  "too_large limit = json_reply 413
     (''{\"detail\": \"Request body exceeds configured API limit\", \"max_body_bytes\": '' @ int_str limit @ ''}'') []"

text \<open>The outcome for an application that reads the messages given: what it gets, and the reply of the middleware when
  it rejects the request.\<close>

definition limit_body :: "(string \<Rightarrow> int option) \<Rightarrow> int \<Rightarrow> http_scope \<Rightarrow> asgi_message list
    \<Rightarrow> asgi_message list \<times> http_reply option" where
  "limit_body py_int limit sc messages =
     (if \<not> hs_is_http sc then (messages, None)
      else (case dict_get (hs_headers sc) ''content-length'' of
          Some text \<Rightarrow> (case py_int text of
              None \<Rightarrow> ([], Some (too_large limit))
            | Some n \<Rightarrow> if limit < n then ([], Some (too_large limit))
                else (case limited_receive limit 0 messages of
                    (got, exceeded) \<Rightarrow> (got, if exceeded then Some (too_large limit) else None)))
        | None \<Rightarrow> (case limited_receive limit 0 messages of
              (got, exceeded) \<Rightarrow> (got, if exceeded then Some (too_large limit) else None))))"

section \<open>What the limits guarantee\<close>

text \<open>Requests as they come in: scope, limit and time.\<close>

type_synonym rate_call = "string \<times> int \<times> int"

fun consume_all :: "int \<Rightarrow> rate_call list \<Rightarrow> window_counts \<Rightarrow> rate_decision list result" where
  "consume_all window_seconds [] counts = return []"
| "consume_all window_seconds ((scope, limit, now) # calls) counts =
     bind_result (consume_local window_seconds scope limit now counts) (\<lambda>(counts', d).
     bind_result (consume_all window_seconds calls counts') (\<lambda>ds. return (d # ds)))"

definition call_key :: "int \<Rightarrow> rate_call \<Rightarrow> string \<times> int" where
  "call_key window_seconds = (\<lambda>(scope, limit, now). (scope, now div window_seconds))"

definition call_time :: "rate_call \<Rightarrow> int" where
  "call_time = (\<lambda>(scope, limit, now). now)"

text \<open>The specification: the number of requests of a scope in a window so far, in the log of all requests.\<close>

definition calls_in :: "int \<Rightarrow> string \<times> int \<Rightarrow> rate_call list \<Rightarrow> int" where
  "calls_in window_seconds key calls = int (length (filter (\<lambda>c. call_key window_seconds c = key) calls))"

definition counts_log :: "int \<Rightarrow> rate_call list \<Rightarrow> int \<Rightarrow> window_counts \<Rightarrow> bool" where
  "counts_log window_seconds past now counts \<longleftrightarrow>
     (\<forall>s w. now div window_seconds - 1 \<le> w \<longrightarrow> window_count counts (s, w) = calls_in window_seconds (s, w) past)"

lemma window_count_filter:
  "window_count (filter (\<lambda>((s, w), n). \<not> w < k) counts) (s, w) = (if w < k then 0 else window_count counts (s, w))"
proof -
  have "map_of (filter (\<lambda>((s, w), n). \<not> w < k) counts) (s, w) = (if w < k then None else map_of counts (s, w))"
    by (induction counts) auto
  then show ?thesis by (simp add: window_count_def)
qed

lemma window_count_update:
  "window_count (AList.update k n counts) k' = (if k' = k then n else window_count counts k')"
  by (simp add: window_count_def update_conv')

lemma consume_local_log:
  assumes "consume_local ws scope limit now counts = Inr (counts', d)" "0 < ws" "t \<le> now" "counts_log ws past t counts"
  shows "counts_log ws (past @ [(scope, limit, now)]) now counts'"
    "d = decision_of (calls_in ws (scope, now div ws) (past @ [(scope, limit, now)])) limit (ws - now mod ws)"
proof -
  have mono: "t div ws \<le> now div ws" using assms(2,3) by (simp add: zdiv_mono1)
  have old: "window_count counts (s, w) = calls_in ws (s, w) past" if "now div ws - 1 \<le> w" for s w
    using assms(4) that mono by (simp add: counts_log_def)
  have snoc: "calls_in ws key (past @ [(scope, limit, now)]) = calls_in ws key past + (if key = (scope, now div ws) then 1 else 0)"
    for key by (auto simp: calls_in_def call_key_def)
  show "d = decision_of (calls_in ws (scope, now div ws) (past @ [(scope, limit, now)])) limit (ws - now mod ws)"
    using assms(1) old [of "now div ws" scope] by (auto simp: consume_local_def Let_def snoc split: if_splits)
  show "counts_log ws (past @ [(scope, limit, now)]) now counts'"
    using assms(1) old by (auto simp: consume_local_def Let_def snoc counts_log_def window_count_filter window_count_update
        split: if_splits)
qed

lemma consume_all_log:
  assumes "consume_all ws calls counts = Inr ds" "0 < ws" "sorted (t # map call_time calls)" "counts_log ws past t counts"
  shows "length ds = length calls \<and> (\<forall>i < length calls. rd_allowed (ds ! i) \<longleftrightarrow>
    calls_in ws (call_key ws (calls ! i)) (past @ take (Suc i) calls) \<le> fst (snd (calls ! i)))"
  using assms
proof (induction calls arbitrary: counts t past ds)
  case (Cons c calls)
  obtain scope limit now where c: "c = (scope, limit, now)" by (cases c)
  obtain counts' d rest where d: "consume_local ws scope limit now counts = Inr (counts', d)"
    "consume_all ws calls counts' = Inr rest" "ds = d # rest"
    using Cons.prems(1) by (auto simp: c)
  have "t \<le> now" "sorted (now # map call_time calls)" using Cons.prems(3) by (auto simp: c call_time_def)
  note log = consume_local_log [OF d(1) Cons.prems(2) this(1) Cons.prems(4)]
  have ih: "length rest = length calls \<and> (\<forall>i < length calls. rd_allowed (rest ! i) \<longleftrightarrow>
    calls_in ws (call_key ws (calls ! i)) ((past @ [c]) @ take (Suc i) calls) \<le> fst (snd (calls ! i)))"
    using Cons.IH [OF d(2) Cons.prems(2) \<open>sorted (now # _)\<close> log(1)] by (simp add: c)
  have first: "rd_allowed d \<longleftrightarrow> calls_in ws (call_key ws c) (past @ [c]) \<le> limit"
    using log(2) by (simp add: decision_of_def c call_key_def)
  show ?case
  proof (intro conjI allI impI)
    show "length ds = length (c # calls)" using ih by (simp add: d(3))
    fix i assume i: "i < length (c # calls)"
    show "rd_allowed (ds ! i) \<longleftrightarrow> calls_in ws (call_key ws ((c # calls) ! i)) (past @ take (Suc i) (c # calls))
        \<le> fst (snd ((c # calls) ! i))"
      using i ih first by (cases i) (simp_all add: d(3) c)
  qed
qed simp

text \<open>Requests are counted exactly: while the clock does not go back, the local limiter allows a request if and only if
  it and the earlier requests of its scope in its window are within the limit, although it drops the counts of old
  windows; so no scope ever gets more than its limit in a window, and none that is within it is refused.\<close>

theorem rate_limiter_counts_window:
  assumes "consume_all ws calls [] = Inr ds" "0 < ws" "sorted (map call_time calls)" "i < length calls"
  shows "length ds = length calls \<and> (rd_allowed (ds ! i) \<longleftrightarrow>
    calls_in ws (call_key ws (calls ! i)) (take (Suc i) calls) \<le> fst (snd (calls ! i)))"
proof -
  have "sorted ((case calls of [] \<Rightarrow> 0 | c # _ \<Rightarrow> call_time c) # map call_time calls)"
    using assms(3) by (cases calls) auto
  from consume_all_log [OF assms(1,2) this, of "[]"] assms(4) show ?thesis
    by (simp add: counts_log_def window_count_def calls_in_def)
qed

lemma rate_limiter_counts_window_witness:
  "\<exists>ds. consume_all 60 [(''a'', 1, 30), (''a'', 1, 45), (''a'', 1, 61)] [] = Inr ds \<and> rd_allowed (ds ! 0)
     \<and> \<not> rd_allowed (ds ! 1) \<and> rd_allowed (ds ! 2)"
proof -
  let ?calls = "[(''a'', 1, 30), (''a'', 1, 45), (''a'', 1, 61)] :: rate_call list"
  obtain ds where ds: "consume_all 60 ?calls [] = Inr ds"
    by (simp add: consume_local_def Let_def)
  have "rd_allowed (ds ! 0) \<and> \<not> rd_allowed (ds ! 1) \<and> rd_allowed (ds ! 2)"
    using rate_limiter_counts_window [OF ds, of 0] rate_limiter_counts_window [OF ds, of 1]
      rate_limiter_counts_window [OF ds, of 2]
    by (simp add: call_time_def calls_in_def call_key_def)
  with ds show ?thesis by blast
qed

lemma body_size_simps [simp]: "body_size (Request_Body bs) = int (length bs)" "body_size Other_Message = 0"
  by (simp_all add: body_size_def)

text \<open>An application never gets more body bytes than the limit, and gets everything when the body is within it.\<close>

lemma limited_receive_bound:
  assumes "limited_receive limit observed ms = (got, exceeded)" "observed \<le> limit"
  shows "observed + sum_list (map body_size got) \<le> limit \<and> (exceeded \<longleftrightarrow> limit < observed + sum_list (map body_size ms))
    \<and> (exceeded \<or> got = ms)"
  using assms
proof (induction limit observed ms arbitrary: got exceeded rule: limited_receive.induct)
  case (2 limit observed ms)
  then show ?case by (cases "limited_receive limit observed ms") auto
next
  case (3 limit observed bs ms)
  have nonneg: "0 \<le> sum_list (map body_size ms)"
    by (rule sum_list_nonneg) (auto simp: body_size_def split: asgi_message.split)
  show ?case
  proof (cases "limit < observed + int (length bs)")
    case True
    then show ?thesis using 3 nonneg by auto
  next
    case False
    then show ?thesis using 3 by (cases "limited_receive limit (observed + int (length bs)) ms") (auto simp: Let_def add.assoc)
  qed
qed simp

end
