(* ===== verification/Reconciliation.thy ===== *)
theory Reconciliation
  imports Evidence_Models
begin

text \<open>
  src/ballotproof/reconciliation.py: \<open>reconcile_totals\<close> compares the candidate totals of two
  sources without treating an absent entry as zero votes.
\<close>

section \<open>\<open>reconcile_totals\<close>\<close>

text \<open>\<open>expected_ids - ids\<close> and \<open>ids - expected_ids\<close>, empty without a universe.\<close>

definition missing_from :: "string list option \<Rightarrow> string set \<Rightarrow> string list" where
  "missing_from expd ids = (case expd of None \<Rightarrow> [] | Some es \<Rightarrow> sorted_set (set es - ids))"

definition unexpected_in :: "string list option \<Rightarrow> string set \<Rightarrow> string list" where
  "unexpected_in expd ids = (case expd of None \<Rightarrow> [] | Some es \<Rightarrow> sorted_set (ids - set es))"

definition comparable_ids :: "reconciliation_request \<Rightarrow> string set" where
  "comparable_ids r =
     (let ids = dict_keys (source_totals r) \<inter> dict_keys (comparison_totals r)
      in case rq_expected_candidate_ids r of None \<Rightarrow> ids | Some es \<Rightarrow> ids \<inter> set es)"

definition total_differences :: "reconciliation_request \<Rightarrow> candidate_difference list" where
  "total_differences r = concat (map (\<lambda>c.
     (let s = the (dict_get (source_totals r) c); k = the (dict_get (comparison_totals r) c)
      in if s = k then []
         else [\<lparr>cd_candidate_id = c, source_votes = s, comparison_votes = k, cd_delta = k - s\<rparr>]))
     (sorted_set (comparable_ids r)))"

definition reconcile_totals :: "reconciliation_request \<Rightarrow> reconciliation_report" where
  "reconcile_totals r =
     (let expd = rq_expected_candidate_ids r;
          source_ids = dict_keys (source_totals r);
          comparison_ids = dict_keys (comparison_totals r);
          missing_source = missing_from expd source_ids;
          missing_comparison = missing_from expd comparison_ids;
          unexpected_source = unexpected_in expd source_ids;
          unexpected_comparison = unexpected_in expd comparison_ids;
          diffs = total_differences r;
          status =
            (if diffs \<noteq> [] \<or> unexpected_source \<noteq> [] \<or> unexpected_comparison \<noteq> [] then FAILED
             else if expd = None \<or> missing_source \<noteq> [] \<or> missing_comparison \<noteq> [] then INCOMPLETE
             else VERIFIED)
      in \<lparr>source_label = rq_source_label r, comparison_label = rq_comparison_label r,
          reconciliation_status = status, matched = is_verified status,
          rr_expected_candidate_ids = expd,
          missing_source_candidate_ids = missing_source,
          missing_comparison_candidate_ids = missing_comparison,
          unexpected_source_candidate_ids = unexpected_source,
          unexpected_comparison_candidate_ids = unexpected_comparison,
          differences = diffs\<rparr>)"

section \<open>When two sources match\<close>

lemma missing_from_Nil [simp]:
  "missing_from expd ids = [] \<longleftrightarrow> (\<forall>es. expd = Some es \<longrightarrow> set es \<subseteq> ids)"
  by (cases expd) (auto simp: missing_from_def)

lemma unexpected_in_Nil:
  "finite ids \<Longrightarrow> unexpected_in expd ids = [] \<longleftrightarrow> (\<forall>es. expd = Some es \<longrightarrow> ids \<subseteq> set es)"
  by (cases expd) (auto simp: unexpected_in_def)

lemma finite_comparable [simp]: "finite (comparable_ids r)"
  by (simp add: comparable_ids_def Let_def split: option.splits)

lemma total_differences_Nil:
  "total_differences r = [] \<longleftrightarrow>
     (\<forall>c \<in> comparable_ids r. dict_get (source_totals r) c = dict_get (comparison_totals r) c)"
proof -
  have "dict_get (source_totals r) c = dict_get (comparison_totals r) c \<longleftrightarrow>
      the (dict_get (source_totals r) c) = the (dict_get (comparison_totals r) c)"
    if "c \<in> comparable_ids r" for c
    using that by (auto simp: comparable_ids_def dict_keys_dom dom_def Let_def split: option.splits)
  then show ?thesis by (auto simp: total_differences_def Let_def)
qed

lemma dict_equal_iff:
  "dict_keys d = dict_keys e \<Longrightarrow>
   (\<forall>c \<in> dict_keys d. dict_get d c = dict_get e c) \<longleftrightarrow> dict_get d = dict_get e"
  by (auto simp: fun_eq_iff dict_keys_dom) (metis domIff)

text \<open>Two sources reconcile as VERIFIED exactly when a candidate universe is given, both cover
  exactly that universe, and they state the same totals: an absent candidate never counts as a
  zero-vote match, and \<open>matched\<close> says the same.\<close>

theorem reconcile_verified_iff:
  "(reconciliation_status (reconcile_totals r) = VERIFIED \<longleftrightarrow>
     (\<exists>ids. rq_expected_candidate_ids r = Some ids \<and> dict_keys (source_totals r) = set ids
        \<and> dict_get (source_totals r) = dict_get (comparison_totals r)))
   \<and> (matched (reconcile_totals r) \<longleftrightarrow> reconciliation_status (reconcile_totals r) = VERIFIED)"
proof -
  have "reconciliation_status (reconcile_totals r) = VERIFIED \<longleftrightarrow>
      (\<exists>ids. rq_expected_candidate_ids r = Some ids \<and> dict_keys (source_totals r) = set ids
        \<and> dict_get (source_totals r) = dict_get (comparison_totals r))" (is "?V \<longleftrightarrow> ?E")
  proof
    assume ?V
    then obtain ids where ids: "rq_expected_candidate_ids r = Some ids"
      and d: "total_differences r = []"
      and k: "dict_keys (source_totals r) = set ids" "dict_keys (comparison_totals r) = set ids"
      by (auto simp: reconcile_totals_def Let_def unexpected_in_Nil split: if_splits)
    then have "\<forall>c \<in> dict_keys (source_totals r).
        dict_get (source_totals r) c = dict_get (comparison_totals r) c"
      by (simp add: total_differences_Nil comparable_ids_def)
    then have "dict_get (source_totals r) = dict_get (comparison_totals r)"
      using dict_equal_iff [of "source_totals r" "comparison_totals r"] k by simp
    with ids k show ?E by blast
  next
    assume ?E
    then obtain ids where ids: "rq_expected_candidate_ids r = Some ids"
      and k: "dict_keys (source_totals r) = set ids"
      and e: "dict_get (source_totals r) = dict_get (comparison_totals r)" by blast
    then have "dict_keys (comparison_totals r) = set ids" by (simp add: dict_keys_dom)
    with ids k e show ?V
      by (simp add: reconcile_totals_def Let_def unexpected_in_Nil total_differences_Nil)
  qed
  then show ?thesis by (simp add: reconcile_totals_def is_verified_def Let_def)
qed

section \<open>Swapping the two sources\<close>

definition swap_request :: "reconciliation_request \<Rightarrow> reconciliation_request" where
  "swap_request r = r\<lparr>rq_source_label := rq_comparison_label r,
     rq_comparison_label := rq_source_label r,
     source_totals := comparison_totals r, comparison_totals := source_totals r\<rparr>"

definition swap_difference :: "candidate_difference \<Rightarrow> candidate_difference" where
  "swap_difference d = d\<lparr>source_votes := comparison_votes d, comparison_votes := source_votes d,
     cd_delta := - cd_delta d\<rparr>"

lemma comparable_swap [simp]: "comparable_ids (swap_request r) = comparable_ids r"
  by (simp add: comparable_ids_def swap_request_def Int_commute)

lemma total_differences_swap:
  "total_differences (swap_request r) = map swap_difference (total_differences r)"
  unfolding total_differences_def comparable_swap map_concat map_map
  by (intro arg_cong [where f = concat] map_cong refl)
    (simp add: swap_request_def swap_difference_def Let_def)

text \<open>No source is authoritative: exchanging the two sources keeps the status, exchanges the
  missing and unexpected candidates, and lists the same differences with opposite sign.\<close>

theorem reconcile_symmetric:
  "reconcile_totals (swap_request r) =
     (let rep = reconcile_totals r in rep\<lparr>
        source_label := comparison_label rep, comparison_label := source_label rep,
        missing_source_candidate_ids := missing_comparison_candidate_ids rep,
        missing_comparison_candidate_ids := missing_source_candidate_ids rep,
        unexpected_source_candidate_ids := unexpected_comparison_candidate_ids rep,
        unexpected_comparison_candidate_ids := unexpected_source_candidate_ids rep,
        differences := map swap_difference (differences rep)\<rparr>)"
  unfolding reconcile_totals_def Let_def total_differences_swap
  by (simp add: swap_request_def conj_disj_distribL disj_commute disj_left_commute)

end
