(* ===== verification/Registry_Replay.thy ===== *)
theory Registry_Replay
  imports Registry Collation
begin

text \<open>
  src/ballotproof/registry_replay.py: a collation edge whose expected units and expected choices are
  not taken from the request but from one registry snapshot, named by its version and its hash.
\<close>

section \<open>Requests and reports\<close>

record registry_replay_request =
  rq_election_id :: string
  rq_registry_version :: int
  rq_snapshot_hash :: string
  rq_contest_id :: "string option"
  rq_office_id :: "string option"
  rq_node_id :: string
  rq_inputs :: "collation_input list"
  rq_declared_totals :: "int dict option"

record registry_replay_report =
  rr_election_id :: string
  rr_registry_version :: int
  rr_snapshot_hash :: string
  rr_jurisdiction_profile :: "profile_binding option"
  rr_contest_id :: "string option"
  rr_office_id :: "string option"
  rr_expected_choice_ids :: "string list"
  rr_source_provider :: string
  rr_source_retrieved_at :: string
  rr_replay :: collation_report

definition request_is_well_formed :: "registry_replay_request \<Rightarrow> registry_replay_request result" where
  "request_is_well_formed r = guarded
     [((rq_contest_id r = None) = (rq_office_id r = None),
       ValueError ''Exactly one of contest_id or office_id is required''),
      (\<not> opt_all (\<lambda>d. \<not> totals_negative d) (rq_declared_totals r),
       ValueError ''declared totals must be non-negative'')] r"

definition make_registry_replay_request :: "registry_replay_request \<Rightarrow> registry_replay_request result" where
  "make_registry_replay_request r =
     (if id128 (rq_election_id r) \<and> 1 \<le> rq_registry_version r \<and> is_sha256_hex (rq_snapshot_hash r)
        \<and> opt_all id128 (rq_contest_id r) \<and> opt_all id128 (rq_office_id r)
        \<and> len_between 1 256 (rq_node_id r)
        \<and> list_all (\<lambda>i. make_collation_input i = Inr i) (rq_inputs r)
        \<and> opt_all dict_ok (rq_declared_totals r)
      then request_is_well_formed r else raise field_error)"

section \<open>The snapshot and its expectations\<close>

definition select_snapshot :: "registry_store \<Rightarrow> registry_replay_request \<Rightarrow> registry_snapshot result" where
  "select_snapshot st r =
     (case filter (\<lambda>s. sn_version s = rq_registry_version r) (registry_history st (rq_election_id r)) of
        [] \<Rightarrow> raise (KeyError ''Unknown registry snapshot: '')
      | s # _ \<Rightarrow>
          if snapshot_hash s \<noteq> rq_snapshot_hash r
          then raise (ValueError ''registry_snapshot_hash does not match the requested registry version'')
          else return s)"

definition contest_choice_ids :: "registry_payload \<Rightarrow> string \<Rightarrow> string list" where
  "contest_choice_ids p contest =
     sort (map rg_choice_id (filter (\<lambda>c. ch_contest_id c = contest) (choices p)))"

definition office_candidate_ids :: "registry_payload \<Rightarrow> string option \<Rightarrow> string list" where
  "office_candidate_ids p office =
     sort (map rc_candidate_id (filter (\<lambda>c. Some (rc_office_id c) = office) (candidates p)))"

definition expected_choice_ids :: "registry_snapshot \<Rightarrow> registry_replay_request \<Rightarrow> string list result" where
  "expected_choice_ids s r =
     (case rq_contest_id r of
        Some contest \<Rightarrow>
          if contest \<notin> set (map rg_contest_id (contests (payload s)))
          then raise (KeyError ''Registry snapshot does not contain contest_id: '')
          else if contest_choice_ids (payload s) contest = []
          then raise (ValueError ''Registry contest has no expected choices'')
          else return (contest_choice_ids (payload s) contest)
      | None \<Rightarrow>
          if rq_office_id r \<notin> Some ` set (map office_id (offices (payload s)))
          then raise (KeyError ''Registry snapshot does not contain office_id: '')
          else if office_candidate_ids (payload s) (rq_office_id r) = []
          then raise (ValueError ''Registry office has no expected candidates'')
          else return (office_candidate_ids (payload s) (rq_office_id r)))"

definition registry_units :: "registry_payload \<Rightarrow> registry_unit dict" where
  "registry_units p = dict_of (map (\<lambda>u. (ru_unit_id u, u)) (units p))"

definition topology_child_ids :: "registry_payload \<Rightarrow> string \<Rightarrow> string list" where
  "topology_child_ids p parent = sort (map edge_child (filter (\<lambda>e. edge_parent e = parent) (topology p)))"

definition registry_collation_request :: "registry_replay_request \<Rightarrow> registry_unit \<Rightarrow> string list
    \<Rightarrow> string list \<Rightarrow> collation_request" where
  "registry_collation_request r unit child_ids choice_ids = \<lparr>cr_level = unit_type unit,
     cr_node_id = rq_node_id r, cr_expected_unit_ids = child_ids,
     cr_expected_candidate_ids = Some choice_ids, inputs = rq_inputs r,
     cr_declared_totals = rq_declared_totals r\<rparr>"

definition replay_from_registry :: "registry_store \<Rightarrow> registry_replay_request
    \<Rightarrow> registry_replay_report result" where
  "replay_from_registry st r =
     bind_result (select_snapshot st r) (\<lambda>s.
     bind_result (expected_choice_ids s r) (\<lambda>choice_ids.
       case dict_get (registry_units (payload s)) (rq_node_id r) of
         None \<Rightarrow> raise (KeyError ''Registry snapshot does not contain node_id: '')
       | Some unit \<Rightarrow>
           (let child_ids = topology_child_ids (payload s) (rq_node_id r) in
            if child_ids = [] then raise (ValueError ''Registry node has no expected child units'')
            else bind_result (make_collation_request (registry_collation_request r unit child_ids choice_ids))
              (\<lambda>q. return \<lparr>rr_election_id = rq_election_id r, rr_registry_version = sn_version s,
                 rr_snapshot_hash = snapshot_hash s,
                 rr_jurisdiction_profile = jurisdiction_profile (payload s),
                 rr_contest_id = rq_contest_id r, rr_office_id = rq_office_id r,
                 rr_expected_choice_ids = choice_ids,
                 rr_source_provider = rs_provider (rp_source (payload s)),
                 rr_source_retrieved_at = isoformat (retrieved_at (rp_source (payload s))),
                 rr_replay = replay_collation q\<rparr>))))"

section \<open>What the registry contributes\<close>

lemma make_registry_replay_request_Inr:
  "make_registry_replay_request q = Inr r \<longleftrightarrow> r = q \<and> id128 (rq_election_id r)
     \<and> 1 \<le> rq_registry_version r \<and> is_sha256_hex (rq_snapshot_hash r)
     \<and> opt_all id128 (rq_contest_id r) \<and> opt_all id128 (rq_office_id r)
     \<and> len_between 1 256 (rq_node_id r) \<and> list_all (\<lambda>i. make_collation_input i = Inr i) (rq_inputs r)
     \<and> opt_all dict_ok (rq_declared_totals r) \<and> (rq_contest_id r = None) \<noteq> (rq_office_id r = None)
     \<and> opt_all (\<lambda>d. \<not> totals_negative d) (rq_declared_totals r)"
  by (auto simp: make_registry_replay_request_def request_is_well_formed_def)

lemma select_snapshot_Inr:
  assumes "select_snapshot st r = Inr s"
  shows "s \<in> set (snapshot_rows st)" "sn_election_id s = rq_election_id r"
    "sn_version s = rq_registry_version r" "snapshot_hash s = rq_snapshot_hash r"
proof -
  obtain rest where m: "filter (\<lambda>s. sn_version s = rq_registry_version r)
      (registry_history st (rq_election_id r)) = s # rest" and h: "snapshot_hash s = rq_snapshot_hash r"
    using assms by (auto simp: select_snapshot_def split: list.splits if_splits)
  have "s \<in> set (filter (\<lambda>s. sn_version s = rq_registry_version r)
      (registry_history st (rq_election_id r)))" unfolding m by simp
  with h show "s \<in> set (snapshot_rows st)" "sn_election_id s = rq_election_id r"
    "sn_version s = rq_registry_version r" "snapshot_hash s = rq_snapshot_hash r"
    by (auto simp: registry_history_def)
qed

text \<open>The choices a request is about, as a set: those of its contest, or of its office.\<close>

definition choice_universe :: "registry_payload \<Rightarrow> registry_replay_request \<Rightarrow> string set" where
  "choice_universe p r = (case rq_contest_id r of
       Some contest \<Rightarrow> rg_choice_id ` {c \<in> set (choices p). ch_contest_id c = contest}
     | None \<Rightarrow> rc_candidate_id ` {c \<in> set (candidates p). Some (rc_office_id c) = rq_office_id r})"

definition child_units :: "registry_payload \<Rightarrow> string \<Rightarrow> string set" where
  "child_units p parent = edge_child ` {e \<in> set (topology p). edge_parent e = parent}"

lemma expected_choice_ids_Inr:
  assumes "expected_choice_ids s r = Inr ids" "make_registry_payload (payload s) = Inr p"
  shows "set ids = choice_universe (payload s) r" "distinct ids" "ids \<noteq> []"
proof -
  have d: "distinct (map rg_choice_id (choices (payload s)))"
    "distinct (map rc_candidate_id (candidates (payload s)))"
    using assms(2) by (auto simp: make_registry_payload_Inr)
  show "set ids = choice_universe (payload s) r" "ids \<noteq> []"
    using assms(1) by (auto simp: expected_choice_ids_def choice_universe_def contest_choice_ids_def
        office_candidate_ids_def split: option.splits if_splits)
  show "distinct ids" using assms(1) d
    by (auto simp: distinct_map_filter expected_choice_ids_def contest_choice_ids_def office_candidate_ids_def
        split: option.splits if_splits)
qed

lemma registry_units_get:
  "dict_get (registry_units p) n = Some u \<Longrightarrow> u \<in> set (units p) \<and> ru_unit_id u = n"
  by (auto simp: registry_units_def dict_get_of dest!: map_of_SomeD)

lemma registry_units_None: "dict_get (registry_units p) n = None \<longleftrightarrow> n \<notin> ru_unit_id ` set (units p)"
  by (auto simp: registry_units_def dict_get_None dict_keys_of image_image)

lemma set_topology_child_ids: "set (topology_child_ids p n) = child_units p n"
  by (auto simp: topology_child_ids_def child_units_def)

lemma replay_from_registry_Inr:
  assumes "replay_from_registry st r = Inr rep"
  obtains s ids u where "select_snapshot st r = Inr s" "expected_choice_ids s r = Inr ids"
    "dict_get (registry_units (payload s)) (rq_node_id r) = Some u"
    "make_collation_request (registry_collation_request r u
       (topology_child_ids (payload s) (rq_node_id r)) ids) =
     Inr (registry_collation_request r u (topology_child_ids (payload s) (rq_node_id r)) ids)"
    "rr_replay rep = replay_collation (registry_collation_request r u
       (topology_child_ids (payload s) (rq_node_id r)) ids)"
    "rr_snapshot_hash rep = snapshot_hash s" "rr_registry_version rep = sn_version s"
    "rr_expected_choice_ids rep = ids" "rr_election_id rep = rq_election_id r"
  using assms by (auto simp: replay_from_registry_def Let_def make_collation_request_Inr
      split: option.splits if_splits)

definition stored_payloads_ok :: "registry_store \<Rightarrow> bool" where
  "stored_payloads_ok st = list_all (\<lambda>s. make_registry_payload (payload s) = Inr (payload s)) (snapshot_rows st)"

text \<open>The declared totals of a request are what the reported totals of the inputs add up to.\<close>

definition declared_adds_up :: "registry_replay_request \<Rightarrow> string set \<Rightarrow> int dict \<Rightarrow> bool" where
  "declared_adds_up r universe d \<longleftrightarrow> dict_keys d = universe \<and> (\<forall>c \<in> universe.
     dict_get d c = Some (\<Sum>i \<leftarrow> rq_inputs r. dict_default 0 (candidate_totals i) c))"

text \<open>A replay against the registry uses the stored snapshot of the election with the version and the
  hash the request names, and nothing the request says can change what is expected: it verifies
  exactly when the inputs are exactly the node's children in that snapshot's topology, each
  reports exactly the choices the snapshot lists for the contest or office, and totals that were
  declared name exactly those choices with exactly the sums of the inputs.\<close>

theorem registry_replay_verified:
  assumes "make_registry_replay_request q = Inr r" "replay_from_registry st r = Inr rep"
    "stored_payloads_ok st"
  shows "list_ex (\<lambda>s. sn_election_id s = rq_election_id r \<and> sn_version s = rq_registry_version r
      \<and> snapshot_hash s = rq_snapshot_hash r
      \<and> rr_snapshot_hash rep = snapshot_hash s \<and> rr_registry_version rep = sn_version s
      \<and> set (rr_expected_choice_ids rep) = choice_universe (payload s) r
      \<and> (collation_status (rr_replay rep) = VERIFIED \<longleftrightarrow>
           unit_id ` set (rq_inputs r) = child_units (payload s) (rq_node_id r)
           \<and> list_all (\<lambda>i. dict_keys (candidate_totals i) = choice_universe (payload s) r) (rq_inputs r)
           \<and> opt_all (declared_adds_up r (choice_universe (payload s) r)) (rq_declared_totals r)))
    (snapshot_rows st)"
proof -
  obtain s ids u where s: "select_snapshot st r = Inr s" and ids: "expected_choice_ids s r = Inr ids"
    and acc: "make_collation_request (registry_collation_request r u
       (topology_child_ids (payload s) (rq_node_id r)) ids) =
      Inr (registry_collation_request r u (topology_child_ids (payload s) (rq_node_id r)) ids)"
    and rep: "rr_replay rep = replay_collation (registry_collation_request r u
       (topology_child_ids (payload s) (rq_node_id r)) ids)"
      "rr_snapshot_hash rep = snapshot_hash s" "rr_registry_version rep = sn_version s"
      "rr_expected_choice_ids rep = ids"
    using replay_from_registry_Inr [OF assms(2)] by metis
  let ?c = "registry_collation_request r u (topology_child_ids (payload s) (rq_node_id r)) ids"
  note sel = select_snapshot_Inr [OF s]
  have ok: "make_registry_payload (payload s) = Inr (payload s)"
    using assms(3) sel by (auto simp: stored_payloads_ok_def list_all_iff)
  note univ = expected_choice_ids_Inr [OF ids ok]
  have fields: "inputs ?c = rq_inputs r" "cr_expected_candidate_ids ?c = Some ids"
    "cr_declared_totals ?c = rq_declared_totals r"
    "set (cr_expected_unit_ids ?c) = child_units (payload s) (rq_node_id r)"
    by (simp_all add: registry_collation_request_def set_topology_child_ids)
  have full: "fully_reported ?c ids \<longleftrightarrow> unit_id ` set (rq_inputs r) = child_units (payload s) (rq_node_id r)
      \<and> list_all (\<lambda>i. dict_keys (candidate_totals i) = choice_universe (payload s) r) (rq_inputs r)"
    by (simp add: fully_reported_def fields univ(1) list_all_iff)
  have "counted_inputs ?c = rq_inputs r" if "fully_reported ?c ids"
    using counted_all [of ?c] that by (simp add: fields fully_reported_def)
  then have "declared_agrees ?c ids d \<longleftrightarrow> declared_adds_up r (choice_universe (payload s) r) d"
    if "fully_reported ?c ids" for d
    using that by (simp add: declared_agrees_def declared_adds_up_def counted_total_def fields univ(1))
  then have "collation_status (rr_replay rep) = VERIFIED \<longleftrightarrow>
      unit_id ` set (rq_inputs r) = child_units (payload s) (rq_node_id r)
      \<and> list_all (\<lambda>i. dict_keys (candidate_totals i) = choice_universe (payload s) r) (rq_inputs r)
      \<and> opt_all (declared_adds_up r (choice_universe (payload s) r)) (rq_declared_totals r)"
    unfolding rep(1) collation_status_verified [OF acc] fields option.inject full [symmetric] conj_assoc [symmetric]
    by (cases "rq_declared_totals r") auto
  then show ?thesis unfolding list_ex_iff using sel rep univ(1) by (intro bexI [of _ s]) auto
qed


section \<open>A concrete replay\<close>

definition demo_replay_request :: registry_replay_request where
  "demo_replay_request = \<lparr>rq_election_id = ''E'', rq_registry_version = 1,
     rq_snapshot_hash = snapshot_hash demo_snapshot, rq_contest_id = Some ''C'', rq_office_id = None,
     rq_node_id = ''W'', rq_inputs = [\<lparr>unit_id = ''p1'', candidate_totals = [(''a'', 7)]\<rparr>],
     rq_declared_totals = Some [(''a'', 7)]\<rparr>"

lemma demo_replay_request_ok: "make_registry_replay_request demo_replay_request = Inr demo_replay_request"
  by (simp add: make_registry_replay_request_Inr demo_replay_request_def make_collation_input_Inr
      len_between_def py_len_def dict_ok_def totals_negative_def demo_snapshot_def)

lemma demo_snapshot_version: "sn_version demo_snapshot = 1"
  by (simp add: demo_snapshot_def registry_history_def empty_registry_def)

lemma demo_snapshot_payload: "payload demo_snapshot = demo_payload"
  by (simp add: demo_snapshot_def)

lemma demo_stored_ok: "stored_payloads_ok demo_registry"
  by (simp add: stored_payloads_ok_def demo_registry_def demo_snapshot_payload demo_payload_ok)

lemma demo_select: "select_snapshot demo_registry demo_replay_request = Inr demo_snapshot"
  by (simp add: select_snapshot_def demo_replay_request_def demo_registry_history demo_snapshot_version)

lemma demo_expected: "expected_choice_ids demo_snapshot demo_replay_request = Inr [''a'']"
  unfolding expected_choice_ids_def demo_snapshot_payload
  by (simp add: demo_replay_request_def demo_payload_def contest_choice_ids_def)

lemma demo_registry_collation_ok:
  "make_collation_request (registry_collation_request demo_replay_request
     \<lparr>ru_unit_id = ''W'', unit_type = ''ward'', unit_name = None, unit_parent = None\<rparr> [''p1''] [''a'']) =
   Inr (registry_collation_request demo_replay_request
     \<lparr>ru_unit_id = ''W'', unit_type = ''ward'', unit_name = None, unit_parent = None\<rparr> [''p1''] [''a''])"
  by (simp add: make_collation_request_Inr registry_collation_request_def demo_replay_request_def
      collation_fields_ok_def make_collation_input_Inr len_between_def py_len_def dict_ok_def totals_negative_def)

lemma demo_replay_runs: "\<exists>rep. replay_from_registry demo_registry demo_replay_request = Inr rep"
proof -
  have u: "dict_get (registry_units demo_payload) (rq_node_id demo_replay_request) =
      Some \<lparr>ru_unit_id = ''W'', unit_type = ''ward'', unit_name = None, unit_parent = None\<rparr>"
    by (simp add: registry_units_def demo_payload_def dict_of_def demo_replay_request_def)
  have c: "topology_child_ids demo_payload (rq_node_id demo_replay_request) = [''p1'']"
    by (simp add: topology_child_ids_def demo_payload_def demo_replay_request_def)
  show ?thesis
    by (simp add: replay_from_registry_def demo_select demo_expected demo_snapshot_payload u c Let_def
        demo_registry_collation_ok)
qed

lemma registry_replay_verified_witness:
  "\<exists>rep. replay_from_registry demo_registry demo_replay_request = Inr rep
     \<and> collation_status (rr_replay rep) = VERIFIED"
proof -
  obtain rep where rep: "replay_from_registry demo_registry demo_replay_request = Inr rep"
    using demo_replay_runs by blast
  have rows: "snapshot_rows demo_registry = [demo_snapshot]" by (simp add: demo_registry_def)
  have "collation_status (rr_replay rep) = VERIFIED"
    using registry_replay_verified [OF demo_replay_request_ok rep demo_stored_ok]
    by (simp add: rows demo_snapshot_payload choice_universe_def child_units_def demo_payload_def
        demo_replay_request_def declared_adds_up_def dict_keys_def dict_default_def Collect_conv_if
        conj_disj_distribL)
  with rep show ?thesis by blast
qed

end
