(* ===== verification/Source_Worker.thy ===== *)
theory Source_Worker
  imports Approved_Acquisition
begin

text \<open>
  src/ballotproof/source_worker.py: the worker process around the automation worker, with its state row, the leader
  lease and the registry of transports. \<open>td\<close> is \<open>timedelta(seconds=x)\<close> in microseconds,
  \<open>load\<close> imports the attribute of a module and makes a transport of it, \<open>class_name\<close> is the
  name of the class of an exception. A run of the worker is given its clock readings; those after the first are equal
  to it when \<open>evaluated_at\<close> is passed.
\<close>

section \<open>Stripping\<close>

fun lstrip_text :: "string \<Rightarrow> string" where
  "lstrip_text (a # b # c # s) =
     (if a \<in> set one_byte_spaces then lstrip_text (b # c # s)
      else if [a, b] \<in> set two_byte_spaces then lstrip_text (c # s)
      else if [a, b, c] \<in> set three_byte_spaces then lstrip_text s else a # b # c # s)"
| "lstrip_text [a, b] = (if a \<in> set one_byte_spaces then lstrip_text [b]
     else if [a, b] \<in> set two_byte_spaces then [] else [a, b])"
| "lstrip_text [a] = (if a \<in> set one_byte_spaces then [] else [a])"
| "lstrip_text [] = []"

text \<open>The same from the end, on the reversed text.\<close>

fun rstrip_reversed :: "string \<Rightarrow> string" where
  "rstrip_reversed (a # b # c # s) =
     (if a \<in> set one_byte_spaces then rstrip_reversed (b # c # s)
      else if [b, a] \<in> set two_byte_spaces then rstrip_reversed (c # s)
      else if [c, b, a] \<in> set three_byte_spaces then rstrip_reversed s else a # b # c # s)"
| "rstrip_reversed [a, b] = (if a \<in> set one_byte_spaces then rstrip_reversed [b]
     else if [b, a] \<in> set two_byte_spaces then [] else [a, b])"
| "rstrip_reversed [a] = (if a \<in> set one_byte_spaces then [] else [a])"
| "rstrip_reversed [] = []"

definition strip_text :: "string \<Rightarrow> string" where
  "strip_text s = rev (rstrip_reversed (rev (lstrip_text s)))"

section \<open>Worker states\<close>

datatype worker_status = Starting | Running | Standby | Stopped | Failed

record worker_info =
  wi_worker_id :: string
  wi_pid :: int
  wi_status :: worker_status
  wi_started_at :: datetime
  wi_heartbeat_at :: datetime
  wi_cycle_started_at :: "datetime option"
  wi_cycle_completed_at :: "datetime option"
  wi_error_code :: "string option"
  wi_sources :: "string list"
  wi_processed_runs :: int

record health_report =
  hr_worker :: worker_info
  hr_evaluated_at :: datetime
  hr_age_seconds :: rat
  hr_stale_after :: rat
  hr_healthy :: bool

record leader_lease =
  ll_worker_id :: string
  ll_acquired_at :: datetime
  ll_expires_at :: datetime

text \<open>The two tables of the database; the leases have one name.\<close>

record worker_db =
  wd_states :: "worker_info list"
  wd_lease :: "leader_lease option"

definition save_state :: "worker_info \<Rightarrow> worker_db \<Rightarrow> worker_db" where
  "save_state s db = db\<lparr>wd_states :=
     (if list_ex (\<lambda>r. wi_worker_id r = wi_worker_id s) (wd_states db)
      then map (\<lambda>r. if wi_worker_id r = wi_worker_id s then s else r) (wd_states db) else wd_states db @ [s])\<rparr>"

definition get_state :: "string \<Rightarrow> worker_db \<Rightarrow> worker_info result" where
  "get_state wid db = (case find (\<lambda>r. wi_worker_id r = wid) (wd_states db) of
       None \<Rightarrow> raise (KeyError ''Unknown source worker: '') | Some r \<Rightarrow> return r)"

definition latest_state :: "worker_db \<Rightarrow> worker_info result" where
  "latest_state db = (if wd_states db = [] then raise (KeyError ''No source worker state has been recorded'')
     else return (last (sort_key (\<lambda>r. (isoformat (wi_heartbeat_at r), wi_worker_id r)) (wd_states db))))"

definition seconds_between :: "datetime \<Rightarrow> datetime \<Rightarrow> rat result" where
  "seconds_between a b = (if (utcoffset a = None) \<noteq> (utcoffset b = None)
     then raise (TypeError ''can't subtract offset-naive and offset-aware datetimes'')
     else return (of_int (instant a - instant b) / of_int us_per_second))"

definition health :: "datetime \<Rightarrow> rat \<Rightarrow> worker_db \<Rightarrow> health_report result" where
  "health now stale_after db =
     (if stale_after \<le> 0 then raise (ValueError ''stale_after_seconds must be positive'')
      else bind_result (latest_state db) (\<lambda>s.
        bind_result (seconds_between now (wi_heartbeat_at s)) (\<lambda>elapsed.
          let age = max 0 elapsed in
          return \<lparr>hr_worker = s, hr_evaluated_at = now, hr_age_seconds = age, hr_stale_after = stale_after,
            hr_healthy = (wi_status s \<in> {Starting, Running, Standby} \<and> age \<le> stale_after)\<rparr>)))"

section \<open>The leader lease\<close>

definition acquire_leader :: "(rat \<Rightarrow> int) \<Rightarrow> string \<Rightarrow> datetime \<Rightarrow> rat \<Rightarrow> worker_db
    \<Rightarrow> (worker_db \<times> leader_lease option) result" where
  "acquire_leader td wid now secs db =
     (if secs \<le> 0 then raise (ValueError ''lease_seconds must be positive'')
      else bind_result
        (case wd_lease db of
           None \<Rightarrow> return (Some now)
         | Some row \<Rightarrow> bind_result (dt_less now (ll_expires_at row)) (\<lambda>active.
             if active \<and> ll_worker_id row \<noteq> wid then return None
             else return (Some (if ll_worker_id row = wid \<and> active then ll_acquired_at row else now))))
        (\<lambda>acquired. case acquired of
           None \<Rightarrow> return (db, None)
         | Some t \<Rightarrow>
             if \<not> id128 wid then raise field_error
             else (let l = \<lparr>ll_worker_id = wid, ll_acquired_at = t, ll_expires_at = add_us now (td secs)\<rparr>
                   in return (db\<lparr>wd_lease := Some l\<rparr>, Some l))))"

definition release_leader :: "string \<Rightarrow> worker_db \<Rightarrow> worker_db \<times> bool" where
  "release_leader wid db = (case wd_lease db of
       None \<Rightarrow> (db, False)
     | Some row \<Rightarrow> if ll_worker_id row = wid then (db\<lparr>wd_lease := None\<rparr>, True) else (db, False))"

definition active_leader :: "datetime \<Rightarrow> worker_db \<Rightarrow> leader_lease option result" where
  "active_leader now db = (case wd_lease db of
       None \<Rightarrow> return None
     | Some row \<Rightarrow> bind_result (dt_le (ll_expires_at row) now) (\<lambda>expired. return (if expired then None else Some row)))"

section \<open>Registered transports\<close>

type_synonym transport_registry = "transport dict"

definition register :: "string \<Rightarrow> transport \<Rightarrow> transport_registry \<Rightarrow> transport_registry result" where
  "register src t reg = (let name = strip_text src in guarded
     [(name = [], ValueError ''transport source_id cannot be empty''),
      (name \<in> dict_keys reg, ValueError ''transport already registered for source: '')]
     (dict_set name t reg))"

definition registered_sources :: "transport_registry \<Rightarrow> string list" where
  "registered_sources reg = sorted_set (dict_keys reg)"

text \<open>\<open>target.rsplit(":", 1)\<close> for a text with a colon.\<close>

definition rsplit_colon :: "string \<Rightarrow> string \<times> string" where
  "rsplit_colon s = (rev (tl (dropWhile (\<lambda>c. c \<noteq> CHR '':'') (rev s))), rev (takeWhile (\<lambda>c. c \<noteq> CHR '':'') (rev s)))"

definition load_transport_spec :: "(string \<Rightarrow> string \<Rightarrow> transport result) \<Rightarrow> string \<Rightarrow> (string \<times> transport) result" where
  "load_transport_spec load spec =
     (let bad = ValueError ''transport spec must use source_id=module:attribute'';
          (source_id, found, target) = partition_at (CHR ''='') spec;
          name = strip_text source_id; (module_name, attribute) = rsplit_colon target
      in if \<not> found then raise bad
         else if name = [] \<or> CHR '':'' \<notin> set target then raise bad
         else if module_name = [] \<or> attribute = [] then raise bad
         else bind_result (load module_name attribute) (\<lambda>t. return (name, t)))"

fun registry_from_specs :: "(string \<Rightarrow> string \<Rightarrow> transport result) \<Rightarrow> string list \<Rightarrow> transport_registry
    \<Rightarrow> transport_registry result" where
  "registry_from_specs load [] reg = return reg"
| "registry_from_specs load (spec # specs) reg = bind_result (load_transport_spec load spec) (\<lambda>(src, t).
     bind_result (register src t reg) (registry_from_specs load specs))"

section \<open>The worker\<close>

record worker_config =
  wc_worker_id :: string
  wc_poll_seconds :: rat
  wc_batch_limit :: int
  wc_lease_seconds :: rat
  wc_registry :: transport_registry
  wc_pid :: int

definition max_batch_limit :: int where
  "max_batch_limit = 20"

definition make_worker :: "worker_config \<Rightarrow> worker_config result" where
  "make_worker cfg = guarded
     [(wc_poll_seconds cfg < 1, ValueError ''poll_seconds must be at least 1 second''),
      (\<not> (1 \<le> wc_batch_limit cfg \<and> wc_batch_limit cfg \<le> max_batch_limit), ValueError ''batch_limit must be between 1 and 20''),
      (wc_lease_seconds cfg < of_int (wc_batch_limit cfg * 120 + 60),
       ValueError ''lease_seconds must cover the worst-case policy timeout window for the batch'')] cfg"

definition worker_state_of :: "worker_config \<Rightarrow> datetime \<Rightarrow> worker_db \<Rightarrow> worker_info result" where
  "worker_state_of cfg now db = (case get_state (wc_worker_id cfg) db of
       Inr s \<Rightarrow> return s
     | Inl _ \<Rightarrow>
         if id128 (wc_worker_id cfg) \<and> 1 \<le> wc_pid cfg
         then return \<lparr>wi_worker_id = wc_worker_id cfg, wi_pid = wc_pid cfg, wi_status = Starting, wi_started_at = now,
           wi_heartbeat_at = now, wi_cycle_started_at = None, wi_cycle_completed_at = None, wi_error_code = None,
           wi_sources = registered_sources (wc_registry cfg), wi_processed_runs = 0\<rparr>
         else raise field_error)"

definition running_state :: "worker_config \<Rightarrow> datetime \<Rightarrow> worker_info \<Rightarrow> worker_info" where
  "running_state cfg now s = s\<lparr>wi_pid := wc_pid cfg, wi_status := Running, wi_heartbeat_at := now,
     wi_cycle_started_at := Some now, wi_error_code := None, wi_sources := registered_sources (wc_registry cfg)\<rparr>"

text \<open>The state at the end of a cycle.\<close>

definition completed_state :: "worker_status \<Rightarrow> datetime \<Rightarrow> worker_info \<Rightarrow> worker_info" where
  "completed_state status now s = s\<lparr>wi_status := status, wi_heartbeat_at := now, wi_cycle_completed_at := Some now\<rparr>"

type_synonym registry_runner = "(string \<Rightarrow> transport option) \<Rightarrow> plan_runner"

definition run_once :: "(rat \<Rightarrow> int) \<Rightarrow> (py_error \<Rightarrow> string) \<Rightarrow> registry_runner \<Rightarrow> worker_config \<Rightarrow> datetime \<Rightarrow> datetime
    \<Rightarrow> (nat \<Rightarrow> run_clock) \<Rightarrow> worker_db \<times> worker_state \<Rightarrow> (worker_db \<times> worker_state) \<times> automation_run list result" where
  "run_once td class_name runner cfg now later clks = (\<lambda>(db, w).
     case worker_state_of cfg now db of
       Inl e \<Rightarrow> ((db, w), raise e)
     | Inr s0 \<Rightarrow>
         (let s = running_state cfg now s0; db1 = save_state s db in
          case acquire_leader td (wc_worker_id cfg) now (wc_lease_seconds cfg) db1 of
            Inl e \<Rightarrow> ((db1, w), raise e)
          | Inr (db2, None) \<Rightarrow> ((save_state (completed_state Standby later s) db2, w), return [])
          | Inr (db2, Some lease) \<Rightarrow>
              (case run_due (runner (dict_get (wc_registry cfg))) now (wc_batch_limit cfg) clks w of
                 (w', Inl e) \<Rightarrow>
                   let failed = (completed_state Failed later s)\<lparr>wi_error_code := Some (class_name e)\<rparr>
                   in ((fst (release_leader (wc_worker_id cfg) (save_state failed db2)), w'), raise e)
               | (w', Inr rs) \<Rightarrow>
                   let finished = (completed_state Running later s)\<lparr>wi_processed_runs := wi_processed_runs s + int (length rs)\<rparr>
                   in ((save_state finished (fst (release_leader (wc_worker_id cfg) db2)), w'), return rs))))"

definition stop_worker :: "worker_config \<Rightarrow> datetime \<Rightarrow> worker_db \<Rightarrow> worker_db \<times> worker_info result" where
  "stop_worker cfg now db =
     (let db' = fst (release_leader (wc_worker_id cfg) db) in
      case worker_state_of cfg now db' of
        Inl e \<Rightarrow> (db', raise e)
      | Inr s \<Rightarrow>
          let stopped = s\<lparr>wi_pid := wc_pid cfg, wi_status := Stopped, wi_heartbeat_at := now,
            wi_sources := registered_sources (wc_registry cfg)\<rparr>
          in (save_state stopped db', return stopped))"

text \<open>The cycles that \<open>run_forever\<close> makes until \<open>stop_when\<close> holds, and the time of the stop.\<close>

fun run_cycles :: "(rat \<Rightarrow> int) \<Rightarrow> (py_error \<Rightarrow> string) \<Rightarrow> registry_runner \<Rightarrow> worker_config
    \<Rightarrow> (datetime \<times> datetime \<times> (nat \<Rightarrow> run_clock)) list \<Rightarrow> datetime \<Rightarrow> worker_db \<times> worker_state
    \<Rightarrow> (worker_db \<times> worker_state) \<times> unit result" where
  "run_cycles td class_name runner cfg [] stop_time (db, w) = (case stop_worker cfg stop_time db of
       (db', Inl e) \<Rightarrow> ((db', w), raise e) | (db', Inr _) \<Rightarrow> ((db', w), return ()))"
| "run_cycles td class_name runner cfg ((now, later, clks) # cycles) stop_time (db, w) =
     (case run_once td class_name runner cfg now later clks (db, w) of
        (st, Inl e) \<Rightarrow> (st, raise e)
      | (st, Inr _) \<Rightarrow> run_cycles td class_name runner cfg cycles stop_time st)"

definition run_worker :: "(rat \<Rightarrow> int) \<Rightarrow> (py_error \<Rightarrow> string) \<Rightarrow> registry_runner \<Rightarrow> worker_config \<Rightarrow> datetime
    \<Rightarrow> (datetime \<times> datetime \<times> (nat \<Rightarrow> run_clock)) list \<Rightarrow> datetime \<Rightarrow> worker_db \<times> worker_state
    \<Rightarrow> (worker_db \<times> worker_state) \<times> unit result" where
  "run_worker td class_name runner cfg started cycles stop_time = (\<lambda>(db, w).
     case worker_state_of cfg started db of
       Inl e \<Rightarrow> ((db, w), raise e)
     | Inr s \<Rightarrow> run_cycles td class_name runner cfg cycles stop_time
         (save_state (s\<lparr>wi_pid := wc_pid cfg, wi_status := Starting, wi_heartbeat_at := started,
            wi_sources := registered_sources (wc_registry cfg)\<rparr>) db, w))"

section \<open>A cycle leads or stands by\<close>

definition other_leads :: "string \<Rightarrow> datetime \<Rightarrow> worker_db \<Rightarrow> bool" where
  "other_leads wid now db \<longleftrightarrow> (case wd_lease db of None \<Rightarrow> False
     | Some row \<Rightarrow> ll_worker_id row \<noteq> wid \<and> dt_less now (ll_expires_at row) = Inr True)"

lemma get_save_state [simp]: "get_state (wi_worker_id s) (save_state s db) = Inr s"
proof -
  have "find (\<lambda>r. wi_worker_id r = wi_worker_id s) (map (\<lambda>r. if wi_worker_id r = wi_worker_id s then s else r) rows) = Some s"
    if "list_ex (\<lambda>r. wi_worker_id r = wi_worker_id s) rows" for rows using that by (induction rows) auto
  moreover have "find (\<lambda>r. wi_worker_id r = wi_worker_id s) (rows @ [s]) = Some s"
    if "\<not> list_ex (\<lambda>r. wi_worker_id r = wi_worker_id s) rows" for rows using that by (induction rows) auto
  ultimately show ?thesis by (simp add: get_state_def save_state_def)
qed

lemma save_state_lease [simp]: "wd_lease (save_state s db) = wd_lease db"
  by (simp add: save_state_def)

lemma worker_state_of_id: "worker_state_of cfg now db = Inr s \<Longrightarrow> wi_worker_id s = wc_worker_id cfg"
  by (auto simp: worker_state_of_def get_state_def split: option.splits if_splits dest: find_Some_in)

lemma state_ids [simp]:
  "wi_worker_id (running_state cfg now s) = wi_worker_id s" "wi_worker_id (completed_state status now s) = wi_worker_id s"
  "wi_processed_runs (running_state cfg now s) = wi_processed_runs s"
  "wi_status (completed_state status now s) = status"
  by (simp_all add: running_state_def completed_state_def)

lemma release_leader_states [simp]: "wd_states (fst (release_leader wid db)) = wd_states db"
  by (simp add: release_leader_def split: option.split)

lemma get_state_release [simp]: "get_state wid (fst (release_leader wid' db)) = get_state wid db"
  by (simp add: get_state_def)

text \<open>What acquiring the lease does.\<close>

lemma acquire_leader_Inr:
  assumes "acquire_leader td wid now secs db = Inr (db', res)"
  shows "if other_leads wid now db then db' = db \<and> res = None
    else \<exists>l. res = Some l \<and> ll_worker_id l = wid \<and> db' = db\<lparr>wd_lease := Some l\<rparr>"
proof (cases "wd_lease db")
  case None
  then show ?thesis using assms by (auto simp: acquire_leader_def other_leads_def Let_def split: if_splits)
next
  case (Some row)
  obtain active where "dt_less now (ll_expires_at row) = Inr active" using assms Some
    by (auto simp: acquire_leader_def split: if_splits)
  then show ?thesis using assms Some
    by (cases active) (auto simp: acquire_leader_def other_leads_def Let_def split: if_splits)
qed

lemma release_own [simp]:
  "ll_worker_id l = wid \<Longrightarrow> wd_lease (fst (release_leader wid (db\<lparr>wd_lease := Some l\<rparr>))) = None"
  "ll_worker_id l = wid \<Longrightarrow> wd_lease (fst (release_leader wid (save_state s (db\<lparr>wd_lease := Some l\<rparr>)))) = None"
  by (simp_all add: release_leader_def)

text \<open>A cycle of a worker runs plans only while no other worker holds the lease, and gives its own lease back whatever
  happens: after a failure the state row says so with the class of the exception, after a success it counts the runs.
  While another worker leads, nothing is run and the lease is left alone.\<close>

theorem run_once_leads_or_stands_by:
  assumes "run_once td class_name runner cfg now later clks (db, w) = ((db', w'), res)"
  shows "if other_leads (wc_worker_id cfg) now db
    then w' = w \<and> wd_lease db' = wd_lease db \<and> (case res of Inl e \<Rightarrow> True
      | Inr rs \<Rightarrow> rs = [] \<and> (\<exists>s. get_state (wc_worker_id cfg) db' = Inr s \<and> wi_status s = Standby))
    else (case res of
        Inl e \<Rightarrow> w' = w \<and> wd_lease db' = wd_lease db
          \<or> wd_lease db' = None \<and> (\<exists>s. get_state (wc_worker_id cfg) db' = Inr s \<and> wi_status s = Failed
              \<and> wi_error_code s = Some (class_name e))
      | Inr rs \<Rightarrow> wd_lease db' = None \<and> run_due (runner (dict_get (wc_registry cfg))) now (wc_batch_limit cfg) clks w = (w', Inr rs)
          \<and> (\<exists>s s'. worker_state_of cfg now db = Inr s \<and> get_state (wc_worker_id cfg) db' = Inr s' \<and> wi_status s' = Running
              \<and> wi_processed_runs s' = wi_processed_runs s + int (length rs)))"
proof (cases "worker_state_of cfg now db")
  case (Inl e)
  then show ?thesis using assms by (auto simp: run_once_def)
next
  case (Inr s0)
  note id = worker_state_of_id [OF Inr]
  let ?s = "running_state cfg now s0"
  let ?db1 = "save_state ?s db"
  have lead: "other_leads (wc_worker_id cfg) now ?db1 = other_leads (wc_worker_id cfg) now db" by (simp add: other_leads_def)
  have get: "get_state (wc_worker_id cfg) (save_state s d) = Inr s" if "wi_worker_id s = wi_worker_id s0" for s d
    using get_save_state [of s d] that id by simp
  show ?thesis
  proof (cases "acquire_leader td (wc_worker_id cfg) now (wc_lease_seconds cfg) ?db1")
    case (Inl e)
    then show ?thesis using assms Inr by (auto simp: run_once_def Let_def)
  next
    case acq: (Inr c)
    obtain db2 l where c: "c = (db2, l)" by (cases c)
    note a = acquire_leader_Inr [OF acq [unfolded c], unfolded lead]
    show ?thesis
    proof (cases "other_leads (wc_worker_id cfg) now db")
      case True
      then show ?thesis using assms Inr acq c a get by (auto simp: run_once_def Let_def)
    next
      case False
      then obtain lease where l: "l = Some lease" "ll_worker_id lease = wc_worker_id cfg"
        "db2 = ?db1\<lparr>wd_lease := Some lease\<rparr>" using a by auto
      obtain w2 r where r: "run_due (runner (dict_get (wc_registry cfg))) now (wc_batch_limit cfg) clks w = (w2, r)" by fastforce
      show ?thesis
      proof (cases r)
        case (Inl e)
        then show ?thesis using assms Inr acq c l r False get by (auto simp: run_once_def Let_def)
      next
        case (Inr rs)
        then show ?thesis using assms \<open>worker_state_of cfg now db = Inr s0\<close> acq c l r False get
          by (auto simp: run_once_def Let_def)
      qed
    qed
  qed
qed

definition standby_config :: worker_config where
  "standby_config = \<lparr>wc_worker_id = ''b'', wc_poll_seconds = 5, wc_batch_limit = 20, wc_lease_seconds = 3600,
     wc_registry = [], wc_pid = 1\<rparr>"

definition led_by_other :: worker_db where
  "led_by_other = \<lparr>wd_states = [], wd_lease = Some \<lparr>ll_worker_id = ''a'', ll_acquired_at = demo_clock 0,
     ll_expires_at = demo_clock 60\<rparr>\<rparr>"

lemma run_once_leads_or_stands_by_witness:
  "\<forall>td class_name runner clks w. \<exists>db' res. run_once td class_name runner standby_config (demo_clock 0) (demo_clock 0) clks (led_by_other, w)
     = ((db', w), res) \<and> wd_lease db' = wd_lease led_by_other"
proof (intro allI)
  fix td class_name runner clks w
  obtain db' w' res where r: "run_once td class_name runner standby_config (demo_clock 0) (demo_clock 0) clks (led_by_other, w)
      = ((db', w'), res)" by (metis surj_pair)
  have "dt_less (demo_clock 0) (demo_clock 60) = Inr True"
    by (simp add: dt_less_def us_per_second_def) (simp add: demo_clock_def)
  then have "other_leads (wc_worker_id standby_config) (demo_clock 0) led_by_other"
    by (simp add: other_leads_def led_by_other_def standby_config_def)
  with run_once_leads_or_stands_by [OF r] r
  show "\<exists>db' res. run_once td class_name runner standby_config (demo_clock 0) (demo_clock 0) clks (led_by_other, w)
     = ((db', w), res) \<and> wd_lease db' = wd_lease led_by_other" by auto
qed

end
