(* ===== verification/Source_Network.thy ===== *)
theory Source_Network
  imports Acquisition_Demo Source_Worker
begin

text \<open>
  src/ballotproof/source_network.py: the HTTPS transport that resolves a host, checks every address and connects to
  one of them. DNS, the connection and the HTTP exchange are the fields of \<open>wire\<close>; what the transport puts on the wire
  is returned with its answer.
\<close>

section \<open>The configuration hash\<close>

text \<open>\<open>ensure_ascii\<close>: every code point beyond ASCII is written with \<open>\u\<close> escapes, as a surrogate pair beyond the basic
  plane.\<close>

definition hex4_text :: "nat \<Rightarrow> string" where
  "hex4_text n = map (\<lambda>k. hex_digit (n div 16 ^ k mod 16)) [3, 2, 1, 0]"

definition escape_code :: "nat \<Rightarrow> string" where
  "escape_code n = (if n < 0x10000 then [CHR 0x5C, CHR ''u''] @ hex4_text n
     else [CHR 0x5C, CHR ''u''] @ hex4_text (0xD800 + (n - 0x10000) div 0x400)
       @ [CHR 0x5C, CHR ''u''] @ hex4_text (0xDC00 + (n - 0x10000) mod 0x400))"

fun ascii_json :: "string \<Rightarrow> string" where
  "ascii_json [] = []"
| "ascii_json (a # s) = (let n = of_char a in
     if n < 0x80 then a # ascii_json s
     else (case s of
         [] \<Rightarrow> []
       | b # s1 \<Rightarrow> if n < 0xE0 then escape_code ((n - 0xC0) * 0x40 + (of_char b - 0x80)) @ ascii_json s1
           else (case s1 of
               [] \<Rightarrow> []
             | c # s2 \<Rightarrow> if n < 0xF0
                 then escape_code (((n - 0xE0) * 0x40 + (of_char b - 0x80)) * 0x40 + (of_char c - 0x80)) @ ascii_json s2
                 else (case s2 of
                     [] \<Rightarrow> []
                   | d # s3 \<Rightarrow> escape_code ((((n - 0xF0) * 0x40 + (of_char b - 0x80)) * 0x40 + (of_char c - 0x80)) * 0x40
                       + (of_char d - 0x80)) @ ascii_json s3))))"

definition transport_config_hash :: "(string \<Rightarrow> string) \<Rightarrow> string \<Rightarrow> string \<Rightarrow> string dict \<Rightarrow> string dict \<Rightarrow> string" where
  "transport_config_hash lower tid vsn headers public_config = sha256_bytes (utf8 (ascii_json (canonical_json_text (JObj
     [(''transport_id'', JStr tid), (''transport_version'', JStr vsn),
      (''header_names'', JArr (map JStr (sort (map (\<lambda>(k, _). lower (strip_text k)) headers)))),
      (''public_config'', JObj (map (\<lambda>(k, v). (k, JStr v)) public_config))]))))"

section \<open>The transport\<close>

record pinned_transport =
  pt_id :: string
  pt_version :: string
  pt_headers :: "string dict"
  pt_config :: "string dict"
  pt_config_hash :: string

definition new_pinned_transport :: "(string \<Rightarrow> string) \<Rightarrow> string \<Rightarrow> string \<Rightarrow> string dict \<Rightarrow> string dict
    \<Rightarrow> pinned_transport result" where
  "new_pinned_transport lower tid vsn headers public_config =
     (if is_blank tid \<or> is_blank vsn then raise (ValueError ''transport_id and transport_version are required'')
      else return \<lparr>pt_id = strip_text tid, pt_version = strip_text vsn, pt_headers = headers, pt_config = public_config,
        pt_config_hash = transport_config_hash lower (strip_text tid) (strip_text vsn) headers public_config\<rparr>)"

record wire_request =
  wr_host :: string
  wr_address :: string
  wr_port :: nat
  wr_timeout :: rat
  wr_target :: string
  wr_headers :: "string dict"

record wire_response =
  ws_status :: int
  ws_content_length :: "string option"
  ws_content_type :: "string option"
  ws_etag :: "string option"
  ws_last_modified :: "string option"
  ws_blocks :: "byte list list"

text \<open>\<open>wn_target\<close> gives the path and the query of a URL, \<open>wn_int\<close> is \<open>int(text)\<close>, None for a ValueError;
  \<open>wn_prepare\<close> builds the connection object, which connects when the request is made.\<close>

record wire =
  wn_target :: "string \<Rightarrow> string \<times> string"
  wn_int :: "string \<Rightarrow> int option"
  wn_resolve :: "string \<Rightarrow> nat \<Rightarrow> string list result"
  wn_prepare :: "string \<Rightarrow> string \<Rightarrow> rat \<Rightarrow> unit result"
  wn_exchange :: "wire_request \<Rightarrow> wire_response result"

text \<open>The guard on the method also tests \<open>follow_redirects is not False\<close>; the request type has no other value than False
  for this field (\<open>Literal[False]\<close>), so \<open>transport_request\<close> leaves it out and the test never fires.\<close>

definition allowed_host :: "net_library \<Rightarrow> transport_request \<Rightarrow> string result" where
  "allowed_host net q = bind_result (urlsplit net (tq_request_url q)) (\<lambda>parsed.
     let host = normalize_source_host (hosts_lib net) (case url_hostname parsed of None \<Rightarrow> [] | Some h \<Rightarrow> h) in
     guarded
       [(lower_text net (url_scheme parsed) \<noteq> ''https''
           \<or> host \<notin> set (map (normalize_source_host (hosts_lib net)) (tq_allowed_hosts q)),
         SourceNetworkError ''request URL is outside the approved HTTPS host policy''),
        (url_username parsed \<noteq> None \<or> url_password parsed \<noteq> None \<or> url_fragment parsed \<noteq> [],
         SourceNetworkError ''request URL contains forbidden credentials or fragment''),
        (url_port parsed = None, ValueError ''invalid port''),
        (url_port parsed \<notin> {Some None, Some (Some 443)},
         SourceNetworkError ''request URL must use the standard HTTPS port''),
        (upper_text net (tq_request_method q) \<noteq> ''GET'',
         SourceNetworkError ''network transport permits GET with redirects disabled only'')] host)"

definition pinned_address :: "net_library \<Rightarrow> wire \<Rightarrow> string \<Rightarrow> string result" where
  "pinned_address net w host = bind_result (wn_resolve w host 443) (\<lambda>found.
     let addresses = map fst (dict_of (map (\<lambda>a. (a, ())) found)) in
     case validate_resolved_addresses net addresses of
       Inl e \<Rightarrow> raise (request_error_of e) | Inr _ \<Rightarrow> return (hd addresses))"

definition wire_request_of :: "wire \<Rightarrow> pinned_transport \<Rightarrow> transport_request \<Rightarrow> string \<Rightarrow> string \<Rightarrow> wire_request" where
  "wire_request_of w t q host address = (case wn_target w (tq_request_url q) of (path, query) \<Rightarrow>
     \<lparr>wr_host = host, wr_address = address, wr_port = 443, wr_timeout = tq_timeout_seconds q,
      wr_target = (if path = [] then ''/'' else path) @ (if query = [] then [] else ''?'' @ query),
      wr_headers = foldl (\<lambda>d (k, v). dict_set k v d)
        [(''Accept-Encoding'', ''identity''), (''User-Agent'', ''BallotProof/'' @ pt_id t @ ''/'' @ pt_version t)] (pt_headers t)\<rparr>)"

definition accept_response :: "wire \<Rightarrow> transport_request \<Rightarrow> datetime \<Rightarrow> wire_response \<Rightarrow> transport_response result" where
  "accept_response w q now r =
     (if 300 \<le> ws_status r \<and> ws_status r \<le> 399
      then raise (SourceNetworkError ''redirect responses are not accepted by this transport'')
      else if (case ws_content_length r of None \<Rightarrow> False | Some text \<Rightarrow> (case wn_int w text of None \<Rightarrow> False
          | Some declared \<Rightarrow> tq_max_bytes q < declared))
      then raise (SourceNetworkError ''declared response size exceeds the approved policy byte limit'')
      else streaming_response \<lparr>rh_status_code = ws_status r, rh_received_at = now, rh_media_type = ws_content_type r,
        rh_etag = ws_etag r, rh_last_modified = ws_last_modified r\<rparr> (ws_blocks r))"

text \<open>The requests made on the wire, and the answer.\<close>

definition pinned_send :: "net_library \<Rightarrow> wire \<Rightarrow> pinned_transport \<Rightarrow> datetime \<Rightarrow> transport_request
    \<Rightarrow> wire_request list \<times> transport_response result" where
  "pinned_send net w t now q =
     (case bind_result (allowed_host net q) (\<lambda>host. bind_result (pinned_address net w host) (\<lambda>address.
         bind_result (wn_prepare w host address (tq_timeout_seconds q)) (\<lambda>_. return (wire_request_of w t q host address)))) of
        Inl e \<Rightarrow> ([], raise e)
      | Inr r \<Rightarrow> ([r], bind_result (wn_exchange w r) (accept_response w q now)))"

definition as_transport :: "net_library \<Rightarrow> wire \<Rightarrow> pinned_transport \<Rightarrow> datetime \<Rightarrow> transport" where
  "as_transport net w t now = \<lparr>ts_id = Some (pt_id t), ts_version = Some (pt_version t),
     ts_config_hash = Some (pt_config_hash t), ts_identity = ''ballotproof.source_network.PinnedHTTPSStreamingTransport'',
     ts_send = (\<lambda>q. snd (pinned_send net w t now q))\<rparr>"

section \<open>Where requests go\<close>

lemma allowed_host_Inr:
  assumes "allowed_host net q = Inr host"
  shows "host \<in> normalize_source_host (hosts_lib net) ` set (tq_allowed_hosts q)" "upper_text net (tq_request_method q) = ''GET''"
    "\<exists>parsed. urlsplit net (tq_request_url q) = Inr parsed \<and> lower_text net (url_scheme parsed) = ''https''
       \<and> url_username parsed = None \<and> url_password parsed = None \<and> url_fragment parsed = []"
  using assms by (auto simp: allowed_host_def Let_def split: if_splits)

lemma pinned_address_Inr:
  assumes "pinned_address net w host = Inr address"
  shows "\<exists>found. wn_resolve w host 443 = Inr found \<and> address \<in> set found \<and> (\<forall>a \<in> set found. ip_is_global net a = Some True)"
proof -
  obtain found where f: "wn_resolve w host 443 = Inr found" using assms by (auto simp: pinned_address_def)
  let ?as = "map fst (dict_of (map (\<lambda>a. (a, ())) found))"
  have same: "set ?as = set found" using dict_keys_of [of "map (\<lambda>a. (a, ())) found"] by (simp add: dict_keys_def)
  have "validate_resolved_addresses net ?as = Inr ()" "address = hd ?as"
    using assms f by (auto simp: pinned_address_def Let_def split: sum.splits)
  then have "?as \<noteq> []" "\<forall>a \<in> set ?as. ip_is_global net a = Some True" "address = hd ?as"
    by (auto simp: validate_resolved_addresses_def check_addresses_ok list_all_iff split: if_splits)
  then show ?thesis using f hd_in_set [of ?as] unfolding same by auto
qed

lemma streaming_response_Inr: "streaming_response h blocks = Inr r \<Longrightarrow> r = Streaming h blocks"
  by (auto simp: streaming_response_def split: if_splits)

text \<open>C40. For a request that a policy permits the pinned transport makes at most one request on the wire, and none when it
  refuses: to port 443 of an address that the resolver gave for a host of the policy, all of whose addresses are
  globally routable, under the name of this host. It never follows a redirect, and a response it returns is that of
  this one exchange, no redirect, and declares no size above the byte limit of the policy.\<close>

theorem pinned_requests_confined:
  assumes "pinned_send net w t now q = (trace, answer)" "permits_request net s q"
  shows "trace = [] \<and> (\<exists>e. answer = Inl e)
    \<or> (\<exists>r found. trace = [r] \<and> wr_port r = 443
        \<and> wr_host r \<in> normalize_source_host (hosts_lib net) ` set (allowed_hosts (ps_policy s))
        \<and> wn_resolve w (wr_host r) 443 = Inr found \<and> wr_address r \<in> set found \<and> (\<forall>a \<in> set found. ip_is_global net a = Some True)
        \<and> (\<forall>response. answer = Inr response \<longrightarrow> (\<exists>h got. response = Streaming h (ws_blocks got) \<and> wn_exchange w r = Inr got
             \<and> rh_status_code h = ws_status got \<and> \<not> (300 \<le> ws_status got \<and> ws_status got \<le> 399)
             \<and> (\<forall>text declared. ws_content_length got = Some text \<and> wn_int w text = Some declared \<longrightarrow>
                 declared \<le> max_response_bytes (ps_policy s)))))"
proof -
  let ?made = "bind_result (allowed_host net q) (\<lambda>host. bind_result (pinned_address net w host) (\<lambda>address.
         bind_result (wn_prepare w host address (tq_timeout_seconds q)) (\<lambda>_. return (wire_request_of w t q host address))))"
  show ?thesis
  proof (cases ?made)
    case (Inl e)
    then show ?thesis using assms(1) by (auto simp: pinned_send_def)
  next
    case (Inr r)
    obtain host address where h: "allowed_host net q = Inr host" "pinned_address net w host = Inr address"
        "r = wire_request_of w t q host address"
      using Inr by auto
    have r: "wr_port r = 443" "wr_host r = host" "wr_address r = address"
      by (simp_all add: h(3) wire_request_of_def split: prod.split)
    have limits: "tq_allowed_hosts q = allowed_hosts (ps_policy s)" "tq_max_bytes q \<le> max_response_bytes (ps_policy s)"
      using assms(2) by (simp_all add: permits_request_def)
    have trace: "trace = [r]" "answer = bind_result (wn_exchange w r) (accept_response w q now)"
      using assms(1) Inr by (simp_all add: pinned_send_def)
    have answered: "\<exists>h got. response = Streaming h (ws_blocks got) \<and> wn_exchange w r = Inr got
             \<and> rh_status_code h = ws_status got \<and> \<not> (300 \<le> ws_status got \<and> ws_status got \<le> 399)
             \<and> (\<forall>text declared. ws_content_length got = Some text \<and> wn_int w text = Some declared \<longrightarrow>
                 declared \<le> max_response_bytes (ps_policy s))" if a: "answer = Inr response" for response
    proof -
      obtain got where g: "wn_exchange w r = Inr got" "accept_response w q now got = Inr response" using a trace(2) by auto
      then show ?thesis using limits(2)
        by (fastforce simp: accept_response_def split: if_splits option.splits dest: streaming_response_Inr)
    qed
    from allowed_host_Inr(1) [OF h(1)] pinned_address_Inr [OF h(2)] show ?thesis
      using trace(1) r limits(1) answered by auto
  qed
qed

section \<open>A request over the wire\<close>

definition wire_net :: net_library where
  "wire_net = demo_net\<lparr>ip_is_global := (\<lambda>a. if a = ''9.9.9.9'' then Some True else None)\<rparr>"

definition demo_wire :: wire where
  "demo_wire = \<lparr>wn_target = (\<lambda>u. (''/x'', [])), wn_int = (\<lambda>s. Some 2), wn_resolve = (\<lambda>h p. Inr [''9.9.9.9'']),
     wn_prepare = (\<lambda>h a t. Inr ()), wn_exchange = (\<lambda>r. Inr \<lparr>ws_status = 200, ws_content_length = Some ''2'',
       ws_content_type = None, ws_etag = None, ws_last_modified = None, ws_blocks = [[1, 2]]\<rparr>)\<rparr>"

lemma pinned_requests_confined_witness:
  "\<exists>t r response. pinned_send wire_net demo_wire t (demo_clock 0) (transport_request_of demo_slot demo_current 100)
     = ([r], Inr response) \<and> wr_address r = ''9.9.9.9'' \<and> (\<exists>h. response = Streaming h [[1, 2]])"
proof -
  let ?q = "transport_request_of demo_slot demo_current 100"
  obtain t where t: "new_pinned_transport (\<lambda>s. s) ''t'' ''1'' [] [] = Inr t"
    by (simp add: new_pinned_transport_def one_byte_spaces_def two_byte_spaces_def three_byte_spaces_def)
  have net: "urlsplit wire_net u = Inr \<lparr>url_scheme = ''https'', url_username = None, url_password = None, url_fragment = [],
       url_port = Some None, url_hostname = Some ''a.org''\<rparr>" "hosts_lib wire_net = demo_lib" "upper_text wire_net s = s"
      "lower_text wire_net s = s" "ip_is_global wire_net a = (if a = ''9.9.9.9'' then Some True else None)" for u s a
    by (simp_all add: wire_net_def demo_net_def)
  have host: "normalize_source_host demo_lib ''a.org'' = ''a.org''"
    by (simp add: normalize_source_host_def demo_lib_def rstrip_char_def)
  have hosts: "allowed_hosts (ps_policy demo_current) = [''a.org'']" by (simp add: demo_current_def)
  have permits: "permits_request wire_net demo_current ?q"
    by (simp add: permits_request_def transport_request_of_def request_permitted_def net host hosts)
  have a: "allowed_host wire_net ?q = Inr ''a.org''"
    by (simp add: allowed_host_def transport_request_of_def net host hosts)
  have b: "pinned_address wire_net demo_wire ''a.org'' = Inr ''9.9.9.9''"
    by (simp add: pinned_address_def demo_wire_def dict_of_def validate_resolved_addresses_def net)
  obtain r response where s: "pinned_send wire_net demo_wire t (demo_clock 0) ?q = ([r], Inr response)"
    by (simp add: pinned_send_def a b) (simp add: demo_wire_def accept_response_def streaming_response_def transport_request_of_def)
  from pinned_requests_confined [OF s permits] show ?thesis using s by (auto simp: demo_wire_def)
qed

end
