(* ===== verification/Source_Adapters.thy ===== *)
theory Source_Adapters
  imports Source_Network
begin

text \<open>
  src/ballotproof/sources: the adapters of the INEC IReV portal and of the IEC API of South Africa. Both ship a policy
  that needs review.
\<close>

section \<open>INEC IReV\<close>

definition irev_source_id :: string where
  "irev_source_id = ''inec-irev''"

definition irev_host :: string where
  "irev_host = ''irev.inecnigeria.org''"

definition irev_base_url :: string where
  "irev_base_url = ''https://irev.inecnigeria.org/''"

record irev_manifest =
  im_source_id :: string
  im_provider :: string
  im_base_url :: string
  im_transport_enabled :: bool
  im_fixture_only :: bool
  im_notes :: string

definition irev_adapter_manifest :: irev_manifest where
  "irev_adapter_manifest = \<lparr>im_source_id = irev_source_id, im_provider = ''Independent National Electoral Commission'',
     im_base_url = irev_base_url, im_transport_enabled = False, im_fixture_only = True,
     im_notes = ''Fixture-only contract. No hidden/private IReV endpoint paths are encoded. ''
       @ ''Live transport remains disabled pending documented access, terms, authentication, ''
       @ ''and rate-limit review.''\<rparr>"

definition irev_default_policy :: "host_library \<Rightarrow> source_policy result" where
  "irev_default_policy hosts = make_source_policy hosts
     \<lparr>sp_source_id = irev_source_id, sp_provider = ''Independent National Electoral Commission'',
      base_url = Some irev_base_url, allowed_hosts = [], access_status = REVIEW_REQUIRED, terms_reviewed_at = None,
      terms_reference = None, requests_per_minute = 1, max_attempts = 1, backoff_seconds = 30,
      request_timeout_seconds = 20, max_response_bytes = 50 * 1024 * 1024,
      retry_status_codes = [408, 425, 429, 500, 502, 503, 504], capture_raw_response = True,
      policy_notes = Some (''IReV is a public result-viewing portal, but live automated access is not approved ''
        @ ''until IReV-specific terms, authentication expectations, and rate limits are ''
        @ ''documented and reviewed.'')\<rparr>"

definition validate_irev_url :: "net_library \<Rightarrow> string \<Rightarrow> string result" where
  "validate_irev_url net url = bind_result (urlsplit net url) (\<lambda>parsed.
     if url_scheme parsed \<noteq> ''https'' \<or> url_hostname parsed \<noteq> Some irev_host
     then raise (ValueError ''IReV adapter accepts only https://irev.inecnigeria.org URLs'') else return url)"

definition build_reservation_request :: "net_library \<Rightarrow> policy_snapshot \<Rightarrow> string \<Rightarrow> string \<Rightarrow> int
    \<Rightarrow> reservation_request result" where
  "build_reservation_request net s request_key request_url attempt =
     bind_result (validate_irev_url net request_url) (\<lambda>_.
       if sp_source_id (ps_policy s) \<noteq> irev_source_id
       then raise (ValueError ''source policy snapshot is not for INEC IReV'')
       else let q = \<lparr>sq_policy_version = ps_version s, sq_policy_hash = ps_hash s, sq_request_key = request_key,
           sq_request_url = request_url, sq_request_method = ''GET'', sq_attempt = attempt\<rparr> in
         if reservation_request_ok q then return q else raise field_error)"

definition capture_fixture :: "net_library \<Rightarrow> (source_policy \<Rightarrow> string) \<Rightarrow> byte list \<Rightarrow> source_policy \<Rightarrow> capture_request
    \<Rightarrow> string option \<Rightarrow> datetime \<Rightarrow> string \<Rightarrow> capture_store \<Rightarrow> capture_store \<times> captured_response result" where
  "capture_fixture net policy_text body policy q snap now fresh cs =
     (if sp_source_id policy \<noteq> irev_source_id then (cs, raise (ValueError ''source policy is not for INEC IReV''))
      else case validate_irev_url net (cq_request_url q) of
        Inl e \<Rightarrow> (cs, raise e)
      | Inr _ \<Rightarrow> capture (upper_text net) policy_text (bytes_reader read_size body) policy q snap (50 * 1024 * 1024) now fresh cs)"

section \<open>IEC South Africa\<close>

definition iec_source_id :: string where
  "iec_source_id = ''iec-south-africa-api''"

definition iec_host :: string where
  "iec_host = ''api.elections.org.za''"

definition iec_terms_url :: string where
  "iec_terms_url = ''https://api.elections.org.za/media/API_TERMS_OF_USE.htm''"

record iec_manifest =
  cm_source_id :: string
  cm_provider :: string
  cm_base_url :: string
  cm_live_capable :: bool
  cm_transport_enabled_by_default :: bool
  cm_retention_permission_required :: bool
  cm_notes :: string

definition iec_adapter_manifest :: iec_manifest where
  "iec_adapter_manifest = \<lparr>cm_source_id = iec_source_id, cm_provider = ''Electoral Commission of South Africa'',
     cm_base_url = ''https://api.elections.org.za/'', cm_live_capable = True, cm_transport_enabled_by_default = False,
     cm_retention_permission_required = True,
     cm_notes = ''The official IEC API is intended for third-party retrieval and requires assigned ''
       @ ''credentials, but its API terms restrict permanent copies/caching unless separately ''
       @ ''permitted. BallotProof therefore ships the adapter disabled until an operator records ''
       @ ''permission compatible with immutable raw-response preservation.''\<rparr>"

definition iec_default_policy :: "host_library \<Rightarrow> source_policy result" where
  "iec_default_policy hosts = make_source_policy hosts
     \<lparr>sp_source_id = iec_source_id, sp_provider = ''Electoral Commission of South Africa'',
      base_url = Some ''https://api.elections.org.za/'', allowed_hosts = [iec_host], access_status = REVIEW_REQUIRED,
      terms_reviewed_at = None, terms_reference = Some iec_terms_url, requests_per_minute = 100, max_attempts = 1,
      backoff_seconds = 30, request_timeout_seconds = 20, max_response_bytes = 25 * 1024 * 1024,
      retry_status_codes = [408, 425, 429, 500, 502, 503, 504], capture_raw_response = True,
      policy_notes = Some (''Official API documentation permits credentialed third-party API access and currently ''
        @ ''states a 10,000 requests/hour limit. Raw-response preservation remains unapproved ''
        @ ''until permanent-copy/cache permission is explicitly established for BallotProof.'')\<rparr>"

text \<open>\<open>model_copy\<close> does not validate.\<close>

definition iec_approved_policy :: "host_library \<Rightarrow> datetime \<Rightarrow> string \<Rightarrow> source_policy result" where
  "iec_approved_policy hosts reviewed reference =
     (if is_blank reference then raise (ValueError ''retention_permission_reference is required for IEC approval'')
      else bind_result (iec_default_policy hosts) (\<lambda>p. return (p
        \<lparr>access_status := APPROVED, terms_reviewed_at := Some reviewed,
         terms_reference := Some (iec_terms_url @ ''; retention_permission='' @ strip_text reference),
         policy_notes := Some (''IEC API access approved only after operator review confirmed credentials, current ''
           @ ''rate limits, and permission compatible with immutable raw-response preservation.'')\<rparr>)))"

text \<open>The arguments are the environment variables for the permission and the authorization, empty when unset.\<close>

definition iec_build_transport :: "(string \<Rightarrow> string) \<Rightarrow> string \<Rightarrow> string \<Rightarrow> pinned_transport result" where
  "iec_build_transport lower retention secret =
     (if lower (strip_text retention) \<noteq> ''confirmed''
      then raise (PermissionError ''IEC transport requires BALLOTPROOF_IEC_RETENTION_PERMISSION=confirmed'')
      else if is_blank secret then raise (PermissionError ''IEC transport requires BALLOTPROOF_IEC_AUTHORIZATION'')
      else new_pinned_transport lower ''ballotproof-iec-za-https'' ''2''
        [(''Accept'', ''application/json''), (''Authorization'', strip_text secret)]
        [(''source_id'', iec_source_id), (''approved_host'', iec_host)])"

section \<open>Nothing is sent before a review\<close>

lemma make_source_policy_status:
  assumes "make_source_policy hosts p = Inr q"
  shows "access_status q = access_status p"
proof -
  have "access_status q = access_status (p\<lparr>allowed_hosts := allowed_hosts q\<rparr>)"
    by (rule arg_cong [OF make_source_policy_Inr(1) [OF assms]])
  then show ?thesis by simp
qed

text \<open>As long as the policy that an adapter ships is the latest for a source, every execution for this source is
  refused before anything is claimed or sent, whatever the transport and the reservation. The approved policy of
  the IEC adapter differs from the one it ships in the status, the review and the texts only.\<close>

theorem adapters_send_nothing_by_default:
  assumes "irev_default_policy (hosts_lib net) = Inr p \<or> iec_default_policy (hosts_lib net) = Inr p"
    "latest_policy (hosts_lib net) policies (re_source_id r) = Inr current" "ps_policy current = p"
  shows "execute net policy_text policies s r t max_bytes clk st
      = (st, Inl (PermissionError ''source policy is not approved for transport execution''))
    \<and> (\<forall>reviewed reference q. iec_approved_policy hosts reviewed reference = Inr q \<longrightarrow> (\<exists>d. iec_default_policy hosts = Inr d
        \<and> q = d\<lparr>access_status := APPROVED, terms_reviewed_at := Some reviewed, terms_reference := terms_reference q,
            policy_notes := policy_notes q\<rparr>))"
proof (intro conjI allI impI)
  have "access_status p = REVIEW_REQUIRED"
    using assms(1) by (auto simp: irev_default_policy_def iec_default_policy_def dest: make_source_policy_status)
  then show "execute net policy_text policies s r t max_bytes clk st
      = (st, Inl (PermissionError ''source policy is not approved for transport execution''))"
    using assms(2,3) by (simp add: execute_def prepare_def validate_binding_def)
  fix reviewed reference q
  assume "iec_approved_policy hosts reviewed reference = Inr q"
  then show "\<exists>d. iec_default_policy hosts = Inr d
        \<and> q = d\<lparr>access_status := APPROVED, terms_reviewed_at := Some reviewed, terms_reference := terms_reference q,
            policy_notes := policy_notes q\<rparr>"
    by (auto simp: iec_approved_policy_def split: if_splits)
qed

definition adapter_net :: net_library where
  "adapter_net = demo_net\<lparr>hosts_lib := demo_lib\<lparr>url_host := (\<lambda>u. Some (takeWhile (\<lambda>c. c \<noteq> CHR ''/'') (drop 8 u)))\<rparr>\<rparr>"

lemma adapter_hosts: "hosts_lib adapter_net = demo_lib\<lparr>url_host := (\<lambda>u. Some (takeWhile (\<lambda>c. c \<noteq> CHR ''/'') (drop 8 u)))\<rparr>"
  by (simp add: adapter_net_def)

lemma irev_policy_made:
  "\<exists>p. irev_default_policy (hosts_lib adapter_net) = Inr p \<and> make_source_policy (hosts_lib adapter_net) p = Inr p"
proof -
  have host: "normalize_policy_host (hosts_lib adapter_net) irev_host = Inr irev_host"
    by (simp add: normalize_policy_host_def adapter_hosts demo_lib_def irev_host_def rstrip_char_def)
  have url: "url_host (hosts_lib adapter_net) irev_base_url = Some irev_host"
    by (simp add: adapter_hosts irev_base_url_def irev_host_def)
  show ?thesis
    by (simp add: irev_default_policy_def make_source_policy_def policy_fields_ok_def validate_policy_def normalized_hosts_def
        hosts_with_base_def url host dict_of_def len_between_def py_len_def irev_source_id_def)
qed

lemma adapters_send_nothing_by_default_witness:
  "\<exists>row r. re_source_id r = irev_source_id \<and> execute adapter_net (\<lambda>p. []) [row] row r demo_transport None demo_execution_clock empty_transport
     = (empty_transport, Inl (PermissionError ''source policy is not approved for transport execution''))"
proof -
  obtain p where p: "irev_default_policy (hosts_lib adapter_net) = Inr p" "make_source_policy (hosts_lib adapter_net) p = Inr p"
    using irev_policy_made by blast
  define row where "row = demo_row\<lparr>ps_source_id := irev_source_id, ps_policy := p\<rparr>"
  have "row_to_snapshot (hosts_lib adapter_net) row = Inr row"
    using p(2) demo_row_hash by (simp add: row_to_snapshot_def row_def)
  then have "latest_policy (hosts_lib adapter_net) [row] (re_source_id (demo_slot\<lparr>re_source_id := irev_source_id\<rparr>)) = Inr row"
    by (simp add: latest_policy_def policy_history_def policy_rows_def row_def)
  from adapters_send_nothing_by_default [OF disjI1 [OF p(1)] this] show ?thesis
    by (intro exI [of _ row] exI [of _ "demo_slot\<lparr>re_source_id := irev_source_id\<rparr>"]) (simp add: row_def)
qed

end
