(* ===== verification/Validation.thy ===== *)
theory Validation
  imports Evidence_Models
begin

text \<open>
  src/ballotproof/validation.py (\<open>validate_result_sheet\<close>) and
  src/ballotproof/result_protocol.py (the jurisdiction-neutral \<open>validate_result_record\<close> and the
  translation of a legacy sheet): deterministic consistency and sufficiency checks of one result.
\<close>

section \<open>\<open>validate_result_sheet\<close>\<close>

abbreviation report_if :: "bool \<Rightarrow> 'f \<Rightarrow> 'f list" where
  "report_if c f \<equiv> (if c then [f] else [])"

text \<open>The three values compared by a check, when all of them are given.\<close>

fun given2 :: "(int \<Rightarrow> int \<Rightarrow> 'f list) \<Rightarrow> int option \<Rightarrow> int option \<Rightarrow> 'f list" where
  "given2 f (Some a) (Some b) = f a b"
| "given2 f _ _ = []"

fun given3 :: "(int \<Rightarrow> int \<Rightarrow> int \<Rightarrow> 'f list) \<Rightarrow> int option \<Rightarrow> int option \<Rightarrow> int option \<Rightarrow> 'f list" where
  "given3 f (Some a) (Some b) (Some c) = f a b c"
| "given3 f _ _ _ = []"

definition candidate_vote_sum :: "result_sheet \<Rightarrow> int" where
  "candidate_vote_sum s = (\<Sum>v \<leftarrow> candidate_votes s. votes v)"

definition finding :: "string \<Rightarrow> severity \<Rightarrow> string \<Rightarrow> finding_value option \<Rightarrow> finding_value option
    \<Rightarrow> validation_finding" where
  "finding c s m obs expd =
     \<lparr>code = c, severity = s, message = m, observed = obs, expected = expd\<rparr>"

definition sheet_findings :: "result_sheet \<Rightarrow> validation_finding list" where
  "sheet_findings sheet =
    (let observed_candidate_ids = set (map candidate_id (candidate_votes sheet)) in
     report_if (candidate_votes sheet = [])
       (finding ''NO_CANDIDATE_VOTES'' WARNING ''No candidate vote entries were supplied.'' None None)
     @ (case expected_candidate_ids sheet of
          None \<Rightarrow>
            [finding ''CANDIDATE_UNIVERSE_NOT_PROVIDED'' WARNING
              ''Expected candidate IDs were not supplied, so candidate coverage cannot be verified.''
              None None]
        | Some expected_ids \<Rightarrow>
            (let missing = sorted_set (set expected_ids - observed_candidate_ids);
                 unexpected = sorted_set (observed_candidate_ids - set expected_ids)
             in report_if (missing \<noteq> [])
                  (finding ''CANDIDATE_TOTALS_INCOMPLETE'' WARNING
                    ''Expected candidate vote entries are missing.''
                    (Some (FStr (join '', '' missing)))
                    (Some (FStr ''all expected candidate IDs'')))
                @ report_if (unexpected \<noteq> [])
                  (finding ''UNEXPECTED_CANDIDATE_IDS'' ERROR
                    ''Candidate vote entries fall outside the expected candidate universe.''
                    (Some (FStr (join '', '' unexpected)))
                    (Some (FStr (join '', '' expected_ids))))))
     @ (case valid_votes sheet of
          None \<Rightarrow>
            [finding ''VALID_VOTES_NOT_PROVIDED'' WARNING
              ''Valid-vote total is missing, so candidate totals cannot be reconciled.'' None None]
        | Some valid \<Rightarrow>
            report_if (candidate_vote_sum sheet \<noteq> valid)
              (finding ''CANDIDATE_TOTAL_MISMATCH'' ERROR
                ''Sum of candidate votes does not equal the stated valid-vote total.''
                (Some (FInt (candidate_vote_sum sheet))) (Some (FInt valid))))
     @ given2 (\<lambda>registered accredited. report_if (accredited > registered)
         (finding ''ACCREDITED_EXCEEDS_REGISTERED'' ERROR ''Accredited voters exceed registered voters.''
           (Some (FInt accredited)) (Some (FStr (''<= '' @ int_str registered)))))
         (registered_voters sheet) (accredited_voters sheet)
     @ given3 (\<lambda>accredited valid rejected. report_if (valid + rejected > accredited)
         (finding ''BALLOT_TOTAL_EXCEEDS_ACCREDITED'' ERROR
           ''Valid plus rejected ballots exceed accredited voters.''
           (Some (FInt (valid + rejected))) (Some (FStr (''<= '' @ int_str accredited)))))
         (accredited_voters sheet) (valid_votes sheet) (rejected_votes sheet)
     @ given3 (\<lambda>cast valid rejected. report_if (cast \<noteq> valid + rejected)
         (finding ''VOTES_CAST_MISMATCH'' ERROR ''Votes cast do not equal valid plus rejected ballots.''
           (Some (FInt cast)) (Some (FInt (valid + rejected)))))
         (votes_cast sheet) (valid_votes sheet) (rejected_votes sheet))"

definition findings_status :: "validation_finding list \<Rightarrow> evidence_status" where
  "findings_status findings =
     (if list_ex (\<lambda>f. severity f = ERROR) findings then FAILED
      else if list_ex (\<lambda>f. severity f = WARNING) findings then INCOMPLETE
      else VERIFIED)"

definition validate_result_sheet :: "result_sheet \<Rightarrow> validation_report" where
  "validate_result_sheet sheet =
     (let findings = sheet_findings sheet; status = findings_status findings
      in \<lparr>report_polling_unit_code = polling_unit_code sheet, report_status = status,
          report_passed = is_verified status,
          report_candidate_vote_sum = candidate_vote_sum sheet, report_findings = findings\<rparr>)"

section \<open>The jurisdiction-neutral protocol\<close>

record choice_total =
  choice_id :: string
  choice_name :: "string option"
  choice_votes :: int

record result_record =
  result_unit_id :: string
  contest_id :: string
  evidence_type :: string
  registered_electors :: "int option"
  participating_electors :: "int option"
  rec_valid_votes :: "int option"
  rec_rejected_votes :: "int option"
  ballots_cast :: "int option"
  expected_choice_ids :: "string list option"
  choice_totals :: "choice_total list"

definition choice_total_ok :: "choice_total \<Rightarrow> bool" where
  "choice_total_ok t = (len_between 1 128 (choice_id t)
     \<and> opt_all (\<lambda>n. py_len n \<le> 256) (choice_name t) \<and> non_negative (choice_votes t))"

definition result_record_fields_ok :: "result_record \<Rightarrow> bool" where
  "result_record_fields_ok r = (len_between 1 256 (result_unit_id r)
     \<and> len_between 1 128 (contest_id r) \<and> len_between 1 128 (evidence_type r)
     \<and> opt_all non_negative (registered_electors r) \<and> opt_all non_negative (participating_electors r)
     \<and> opt_all non_negative (rec_valid_votes r) \<and> opt_all non_negative (rec_rejected_votes r)
     \<and> opt_all non_negative (ballots_cast r) \<and> opt_all (\<lambda>ids. ids \<noteq> []) (expected_choice_ids r)
     \<and> list_all choice_total_ok (choice_totals r))"

definition choices_are_unique :: "result_record \<Rightarrow> result_record result" where
  "choices_are_unique r = guarded
     [(\<not> distinct (map choice_id (choice_totals r)),
       ValueError ''choice_id values must be unique within a result record''),
      (\<not> opt_all distinct (expected_choice_ids r),
       ValueError ''expected_choice_ids must be unique'')] r"

definition make_result_record :: "result_record \<Rightarrow> result_record result" where
  "make_result_record r =
     (if result_record_fields_ok r then choices_are_unique r else raise field_error)"

text \<open>The neutral finding carries its severity as text.\<close>

record result_validation_finding =
  rcode :: string
  rseverity :: string
  rmessage :: string
  robserved :: "finding_value option"
  rexpected :: "finding_value option"

record result_validation_report =
  rep_result_unit_id :: string
  rep_contest_id :: string
  rep_status :: evidence_status
  rep_passed :: bool
  choice_vote_sum :: int
  rep_findings :: "result_validation_finding list"

definition rfinding :: "string \<Rightarrow> string \<Rightarrow> string \<Rightarrow> finding_value option \<Rightarrow> finding_value option
    \<Rightarrow> result_validation_finding" where
  "rfinding c s m obs expd =
     \<lparr>rcode = c, rseverity = s, rmessage = m, robserved = obs, rexpected = expd\<rparr>"

definition choice_sum :: "result_record \<Rightarrow> int" where
  "choice_sum r = (\<Sum>t \<leftarrow> choice_totals r. choice_votes t)"

definition record_findings :: "result_record \<Rightarrow> result_validation_finding list" where
  "record_findings r =
    (let observed_choice_ids = set (map choice_id (choice_totals r)) in
     report_if (choice_totals r = [])
       (rfinding ''NO_CHOICE_TOTALS'' ''warning'' ''No choice totals were supplied.'' None None)
     @ (case expected_choice_ids r of
          None \<Rightarrow>
            [rfinding ''CHOICE_UNIVERSE_NOT_PROVIDED'' ''warning''
              ''Expected choice IDs were not supplied, so result coverage cannot be verified.''
              None None]
        | Some expected_ids \<Rightarrow>
            (let missing = sorted_set (set expected_ids - observed_choice_ids);
                 unexpected = sorted_set (observed_choice_ids - set expected_ids)
             in report_if (missing \<noteq> [])
                  (rfinding ''CHOICE_TOTALS_INCOMPLETE'' ''warning'' ''Expected choice totals are missing.''
                    (Some (FStr (join '', '' missing))) (Some (FStr ''all expected choice IDs'')))
                @ report_if (unexpected \<noteq> [])
                  (rfinding ''UNEXPECTED_CHOICE_IDS'' ''error''
                    ''Choice totals fall outside the expected choice universe.''
                    (Some (FStr (join '', '' unexpected)))
                    (Some (FStr (join '', '' expected_ids))))))
     @ (case rec_valid_votes r of
          None \<Rightarrow>
            [rfinding ''VALID_VOTES_NOT_PROVIDED'' ''warning''
              ''Valid-vote total is missing, so choice totals cannot be reconciled.'' None None]
        | Some valid \<Rightarrow>
            report_if (choice_sum r \<noteq> valid)
              (rfinding ''CHOICE_TOTAL_MISMATCH'' ''error''
                ''Sum of choice totals does not equal the stated valid-vote total.''
                (Some (FInt (choice_sum r))) (Some (FInt valid))))
     @ given2 (\<lambda>registered participating. report_if (participating > registered)
         (rfinding ''PARTICIPATING_EXCEEDS_REGISTERED'' ''error''
           ''Participating electors exceed registered electors.''
           (Some (FInt participating)) (Some (FStr (''<= '' @ int_str registered)))))
         (registered_electors r) (participating_electors r)
     @ given3 (\<lambda>participating valid rejected. report_if (valid + rejected > participating)
         (rfinding ''BALLOT_TOTAL_EXCEEDS_PARTICIPATING'' ''error''
           ''Valid plus rejected ballots exceed participating electors.''
           (Some (FInt (valid + rejected))) (Some (FStr (''<= '' @ int_str participating)))))
         (participating_electors r) (rec_valid_votes r) (rec_rejected_votes r)
     @ given3 (\<lambda>cast valid rejected. report_if (cast \<noteq> valid + rejected)
         (rfinding ''BALLOTS_CAST_MISMATCH'' ''error'' ''Ballots cast do not equal valid plus rejected ballots.''
           (Some (FInt cast)) (Some (FInt (valid + rejected)))))
         (ballots_cast r) (rec_valid_votes r) (rec_rejected_votes r))"

definition severities_status :: "string set \<Rightarrow> evidence_status" where
  "severities_status severities =
     (if ''error'' \<in> severities then FAILED
      else if ''warning'' \<in> severities then INCOMPLETE
      else VERIFIED)"

definition validate_result_record :: "result_record \<Rightarrow> result_validation_report" where
  "validate_result_record r =
     (let findings = record_findings r; status = severities_status (set (map rseverity findings))
      in \<lparr>rep_result_unit_id = result_unit_id r, rep_contest_id = contest_id r,
          rep_status = status, rep_passed = is_verified status,
          choice_vote_sum = choice_sum r, rep_findings = findings\<rparr>)"

definition legacy_record :: "result_sheet \<Rightarrow> string \<Rightarrow> result_record" where
  "legacy_record sheet contest =
     \<lparr>result_unit_id = polling_unit_code sheet, contest_id = contest,
      evidence_type = document_type_text (document_type sheet),
      registered_electors = registered_voters sheet,
      participating_electors = accredited_voters sheet,
      rec_valid_votes = valid_votes sheet, rec_rejected_votes = rejected_votes sheet,
      ballots_cast = votes_cast sheet, expected_choice_ids = expected_candidate_ids sheet,
      choice_totals = map (\<lambda>entry. \<lparr>choice_id = candidate_id entry,
        choice_name = candidate_name entry, choice_votes = votes entry\<rparr>) (candidate_votes sheet)\<rparr>"

definition result_record_from_legacy_sheet :: "result_sheet \<Rightarrow> string \<Rightarrow> result_record result" where
  "result_record_from_legacy_sheet sheet contest = make_result_record (legacy_record sheet contest)"

section \<open>What a status says about a sheet\<close>

text \<open>The sheet contradicts itself or its candidate universe.\<close>

definition sheet_inconsistent :: "result_sheet \<Rightarrow> bool" where
  "sheet_inconsistent s \<longleftrightarrow>
     (\<exists>ids. expected_candidate_ids s = Some ids \<and> \<not> set (map candidate_id (candidate_votes s)) \<subseteq> set ids)
     \<or> (\<exists>v. valid_votes s = Some v \<and> candidate_vote_sum s \<noteq> v)
     \<or> (\<exists>r a. registered_voters s = Some r \<and> accredited_voters s = Some a \<and> r < a)
     \<or> (\<exists>a v j. accredited_voters s = Some a \<and> valid_votes s = Some v \<and> rejected_votes s = Some j
          \<and> a < v + j)
     \<or> (\<exists>c v j. votes_cast s = Some c \<and> valid_votes s = Some v \<and> rejected_votes s = Some j
          \<and> c \<noteq> v + j)"

text \<open>The sheet carries what the checks need.\<close>

definition sheet_sufficient :: "result_sheet \<Rightarrow> bool" where
  "sheet_sufficient s \<longleftrightarrow> candidate_votes s \<noteq> [] \<and> valid_votes s \<noteq> None
     \<and> (\<exists>ids. expected_candidate_ids s = Some ids \<and> set ids \<subseteq> set (map candidate_id (candidate_votes s)))"

lemma list_ex_report_if [simp]: "list_ex P (report_if c f) \<longleftrightarrow> c \<and> P f"
  by simp

lemma list_ex_given2:
  "list_ex P (given2 f x y) \<longleftrightarrow> (\<exists>a b. x = Some a \<and> y = Some b \<and> list_ex P (f a b))"
  by (cases x; cases y) auto

lemma list_ex_given3:
  "list_ex P (given3 f x y z) \<longleftrightarrow>
     (\<exists>a b c. x = Some a \<and> y = Some b \<and> z = Some c \<and> list_ex P (f a b c))"
  by (cases x; cases y; cases z) auto

lemma finding_severity [simp]: "severity (finding c s m obs expd) = s"
  by (simp add: finding_def)

lemma sheet_findings_error:
  "list_ex (\<lambda>f. severity f = ERROR) (sheet_findings s) \<longleftrightarrow> sheet_inconsistent s"
  by (auto simp: sheet_findings_def sheet_inconsistent_def Let_def list_ex_given2 list_ex_given3
      split: option.splits)

lemma sheet_findings_warning:
  "list_ex (\<lambda>f. severity f = WARNING) (sheet_findings s) \<longleftrightarrow> \<not> sheet_sufficient s"
  by (auto simp: sheet_findings_def sheet_sufficient_def Let_def list_ex_given2 list_ex_given3
      split: option.splits)

lemma validate_status:
  "report_status (validate_result_sheet s) =
     (if sheet_inconsistent s then FAILED else if sheet_sufficient s then VERIFIED else INCOMPLETE)"
  by (simp add: validate_result_sheet_def findings_status_def Let_def sheet_findings_error
      sheet_findings_warning)

lemma findings_status_verified:
  "list_all (\<lambda>f. severity f = ERROR \<or> severity f = WARNING) fs \<Longrightarrow>
   findings_status fs = VERIFIED \<longleftrightarrow> fs = []"
  by (cases fs) (auto simp: findings_status_def)

lemma sheet_findings_severities:
  "list_all (\<lambda>f. severity f = ERROR \<or> severity f = WARNING) (sheet_findings s)"
proof -
  have "list_all P (given2 f x y) \<longleftrightarrow> (\<forall>a b. x = Some a \<longrightarrow> y = Some b \<longrightarrow> list_all P (f a b))"
    for P :: "validation_finding \<Rightarrow> bool" and f x y by (cases x; cases y) auto
  moreover have "list_all P (given3 f x y z) \<longleftrightarrow>
      (\<forall>a b c. x = Some a \<longrightarrow> y = Some b \<longrightarrow> z = Some c \<longrightarrow> list_all P (f a b c))"
    for P :: "validation_finding \<Rightarrow> bool" and f x y z by (cases x; cases y; cases z) auto
  ultimately show ?thesis
    by (auto simp: sheet_findings_def Let_def split: option.splits)
qed

text \<open>The status of a validated result sheet is decided by the arithmetic of the sheet alone: it
  is FAILED exactly when two stated numbers contradict each other or a candidate lies outside the
  expected universe, VERIFIED exactly when nothing contradicts and the universe, the candidate
  votes and the valid-vote total are all present and complete, INCOMPLETE otherwise; and a sheet
  passes exactly when no finding is reported.\<close>

theorem validate_result_sheet_status:
  "report_status (validate_result_sheet s) =
     (if sheet_inconsistent s then FAILED else if sheet_sufficient s then VERIFIED else INCOMPLETE)
   \<and> (report_passed (validate_result_sheet s) \<longleftrightarrow> report_findings (validate_result_sheet s) = [])"
  using validate_status [of s] findings_status_verified [OF sheet_findings_severities, of s]
  by (simp add: validate_result_sheet_def is_verified_def Let_def)

section \<open>The neutral protocol agrees with the legacy checks\<close>

definition severity_text :: "severity \<Rightarrow> string" where
  "severity_text s = (case s of INFO \<Rightarrow> ''info'' | WARNING \<Rightarrow> ''warning'' | ERROR \<Rightarrow> ''error'')"

text \<open>What the two kinds of finding have in common: the severity and the observed value.\<close>

definition same_findings :: "result_validation_finding list \<Rightarrow> validation_finding list \<Rightarrow> bool" where
  "same_findings rs fs \<longleftrightarrow>
     map (\<lambda>f. (rseverity f, robserved f)) rs = map (\<lambda>f. (severity_text (severity f), observed f)) fs"

lemma same_findings_append:
  "same_findings rs fs \<Longrightarrow> same_findings rs' fs' \<Longrightarrow> same_findings (rs @ rs') (fs @ fs')"
  by (simp add: same_findings_def)

lemma same_findings_if:
  "severity_text s' = s \<Longrightarrow> same_findings (report_if c (rfinding k s m obs e)) (report_if c (finding k' s' m' obs e'))"
  by (simp add: same_findings_def rfinding_def finding_def)

lemma same_findings_one:
  "severity_text s' = s \<Longrightarrow> same_findings [rfinding k s m obs e] [finding k' s' m' obs e']"
  by (simp add: same_findings_def rfinding_def finding_def)

lemma same_findings_given2:
  "(\<And>a b. same_findings (f a b) (g a b)) \<Longrightarrow> same_findings (given2 f x y) (given2 g x y)"
  by (cases x; cases y) (auto simp: same_findings_def)

lemma same_findings_given3:
  "(\<And>a b c. same_findings (f a b c) (g a b c)) \<Longrightarrow> same_findings (given3 f x y z) (given3 g x y z)"
  by (cases x; cases y; cases z) (auto simp: same_findings_def)

lemmas same_findings_rules =
  same_findings_append same_findings_if same_findings_one same_findings_given2 same_findings_given3

lemma severity_text_simps [simp]:
  "severity_text INFO = ''info''" "severity_text WARNING = ''warning''"
  "severity_text ERROR = ''error''"
  by (simp_all add: severity_text_def)

lemma severities_status_same:
  assumes "same_findings rs fs"
  shows "severities_status (set (map rseverity rs)) = findings_status fs"
proof -
  have "map rseverity rs = map (\<lambda>f. severity_text (severity f)) fs"
    using arg_cong [OF assms [unfolded same_findings_def], of "map fst"] by (simp add: o_def)
  moreover have "severity_text s = ''error'' \<longleftrightarrow> s = ERROR" "severity_text s = ''warning'' \<longleftrightarrow> s = WARNING"
    for s by (cases s; simp)+
  ultimately have "''error'' \<in> set (map rseverity rs) \<longleftrightarrow> list_ex (\<lambda>f. severity f = ERROR) fs"
    "''warning'' \<in> set (map rseverity rs) \<longleftrightarrow> list_ex (\<lambda>f. severity f = WARNING) fs"
    by (auto simp: list_ex_iff image_iff) metis+
  then show ?thesis by (simp add: severities_status_def findings_status_def)
qed

lemma legacy_record_ok:
  assumes "make_result_sheet sheet = Inr s" "len_between 1 128 contest"
  shows "result_record_from_legacy_sheet s contest = Inr (legacy_record s contest)"
proof -
  have ok: "result_sheet_fields_ok s" "distinct (map candidate_id (candidate_votes s))"
    "opt_all distinct (expected_candidate_ids s)"
    using assms(1) by (auto simp: make_result_sheet_Inr)
  have "len_between 1 128 (document_type_text (document_type s))"
    by (cases "document_type s") (simp_all add: document_type_text_def len_between_def py_len_def)
  moreover have "len_between 1 256 (polling_unit_code s)"
    using ok(1) by (simp add: result_sheet_fields_ok_def len_between_def)
  moreover have "list_all choice_total_ok (choice_totals (legacy_record s contest))"
    using ok(1) by (simp add: result_sheet_fields_ok_def legacy_record_def list_all_iff
        choice_total_ok_def candidate_vote_ok_def)
  ultimately have "result_record_fields_ok (legacy_record s contest)"
    using ok(1) assms(2)
    by (simp add: result_record_fields_ok_def result_sheet_fields_ok_def legacy_record_def)
  with ok(2,3) show ?thesis
    by (simp add: result_record_from_legacy_sheet_def make_result_record_def choices_are_unique_def
        legacy_record_def o_def)
qed

text \<open>C1. A valid legacy sheet always translates into a valid neutral record, and the neutral
  validator reaches the same status, the same vote sum and, finding by finding, the same severity
  and observed value as the legacy validator.\<close>

theorem legacy_and_neutral_validation_agree:
  assumes "make_result_sheet sheet = Inr s" "len_between 1 128 contest"
  shows "\<exists>r. result_record_from_legacy_sheet s contest = Inr r
    \<and> rep_status (validate_result_record r) = report_status (validate_result_sheet s)
    \<and> rep_passed (validate_result_record r) = report_passed (validate_result_sheet s)
    \<and> choice_vote_sum (validate_result_record r) = report_candidate_vote_sum (validate_result_sheet s)
    \<and> same_findings (rep_findings (validate_result_record r)) (report_findings (validate_result_sheet s))"
proof -
  define r where "r = legacy_record s contest"
  have r: "result_record_from_legacy_sheet s contest = Inr r"
    using legacy_record_ok [OF assms] r_def by simp
  note fields = r_def [unfolded legacy_record_def]
  have sum: "choice_sum r = candidate_vote_sum s"
    by (simp add: choice_sum_def candidate_vote_sum_def fields o_def)
  have r_fields: "registered_electors r = registered_voters s"
    "participating_electors r = accredited_voters s" "rec_valid_votes r = valid_votes s"
    "rec_rejected_votes r = rejected_votes s" "ballots_cast r = votes_cast s"
    "expected_choice_ids r = expected_candidate_ids s"
    "choice_totals r = [] \<longleftrightarrow> candidate_votes s = []"
    "set (map choice_id (choice_totals r)) = set (map candidate_id (candidate_votes s))"
    by (simp_all add: fields image_image)
  have same: "same_findings (record_findings r) (sheet_findings s)"
    unfolding record_findings_def sheet_findings_def sum Let_def r_fields
    by (cases "expected_candidate_ids s"; cases "valid_votes s"; simp only: option.case;
        intro same_findings_rules severity_text_simps)
  show ?thesis
    using r same sum severities_status_same [OF same]
    by (auto simp: validate_result_record_def validate_result_sheet_def Let_def)
qed

definition demo_sheet :: result_sheet where
  "demo_sheet = \<lparr>polling_unit_code = ''PU-1'', document_type = EC8A, registered_voters = Some 100,
     accredited_voters = Some 60, valid_votes = Some 50, rejected_votes = Some 5, votes_cast = Some 54,
     expected_candidate_ids = Some [''a'', ''b''],
     candidate_votes = [\<lparr>candidate_id = ''a'', candidate_name = None, votes = 30\<rparr>,
       \<lparr>candidate_id = ''b'', candidate_name = Some ''B'', votes = 20\<rparr>]\<rparr>"

lemma demo_sheet_valid: "make_result_sheet demo_sheet = Inr demo_sheet"
  by (simp add: make_result_sheet_Inr demo_sheet_def result_sheet_fields_ok_def len_between_def
      py_len_def candidate_vote_ok_def)

lemma legacy_and_neutral_validation_agree_witness:
  "\<exists>r. result_record_from_legacy_sheet demo_sheet ''c1'' = Inr r
    \<and> rep_status (validate_result_record r) = report_status (validate_result_sheet demo_sheet)
    \<and> rep_passed (validate_result_record r) = report_passed (validate_result_sheet demo_sheet)
    \<and> choice_vote_sum (validate_result_record r) = report_candidate_vote_sum (validate_result_sheet demo_sheet)
    \<and> same_findings (rep_findings (validate_result_record r)) (report_findings (validate_result_sheet demo_sheet))"
  by (rule legacy_and_neutral_validation_agree [OF demo_sheet_valid])
    (simp add: len_between_def py_len_def)

end
