(* ===== verification/Spec2Isabelle.thy ===== *)
theory Spec2Isabelle
  imports Acquisition_Demo Aggregation Application_Ledger Approved_Acquisition Attestations Auth
    Auth_Access Auth_Audit Authentication Base64 Canonical_Json Collation Collation_Graph
    Csv_Text Datetime Enrolled_Approval Evidence_Models Evidence_Store Governance
    Governance_Chain Hash_Chain Json_Reader Json_Roundtrip Jurisdiction Leases Merkle
    Object_Storage Observer_Pins Postgres_Automation Postgres_Evidence Postgres_Migration
    Postgres_Policy Postgres_Receipts Postgres_Rows Postgres_Scheduler Postgres_Stores
    Postgres_Time Postgres_Worker Prelude Publication Publication_Demo Publication_Verify
    Rate_Limit Raw_Objects Reconciliation Registry Registry_Replay Release_Demo
    Release_Exports Release_Files Release_Publish Release_Records Release_Trust
    Semantic_Release Semantics Sha256 Source_Adapters Source_Approval Source_Automation
    Source_Capture Source_Network Source_Policy Source_Scheduler Source_Security
    Source_Transport Source_Worker Unicode_Text Validation Witness Write_Barrier
begin

text \<open>
  A verification library for BallotProof (src/src/ballotproof): evidence of election results is stored, validated,
  replayed against a registry, released with signatures and Merkle roots, published under governance, and fetched
  from official sources under reviewed policies.

  \<^bold>\<open>Conventions.\<close> A str is the list of its UTF-8 bytes, an int an \<open>int\<close>, a float field its text or an exact rational, a dict
  with string keys an association list in insertion order, a dataclass or pydantic model a record with a predicate for
  its field constraints, an enum a datatype. A datetime is a wall-clock number of microseconds with an optional offset
  (\<open>Datetime\<close>, with \<open>isoformat\<close> concretely). Exceptions are values of \<open>py_error\<close> with their class and the constant part of
  the message; an operation that can raise after it has changed something returns a state and a result. A database
  table is the list of its rows in insertion order, ORDER BY a stable sort, a violated UNIQUE or PRIMARY KEY an
  IntegrityError, and a transaction is atomic. Clock readings, uuid4, random bytes and the environment are arguments.
  Executable definitions throughout; SHA-256, canonical JSON, base64, CSV and the JSON reader are computed, not assumed.

  \<^bold>\<open>Foundations.\<close> \<open>Prelude\<close> holds the errors, dictionaries, decimal printing, sorting and the list lemmas all theories share.
  \<open>Sha256\<close> (hashing.py) and \<open>Canonical_Json\<close> (provenance.py) define the record hash and show that canonical bytes determine a
  document up to key order; \<open>collision_free\<close> is the assumption under which hashes identify documents. \<open>Json_Reader\<close>,
  \<open>Json_Roundtrip\<close>, \<open>Csv_Text\<close>, \<open>Base64\<close>, \<open>Unicode_Text\<close> are the parsers and printers the code uses of the standard library, with
  their round trips. \<open>Hash_Chain\<close> is the locale of an append-only chain of hashed records, interpreted in every store that
  keeps one.

  \<^bold>\<open>Results.\<close> \<open>Evidence_Models\<close> (models.py), \<open>Validation\<close> (validation.py, result_protocol.py), \<open>Reconciliation\<close> (reconciliation.py),
  \<open>Collation\<close> (collation.py), \<open>Aggregation\<close> (aggregation_protocol.py), \<open>Collation_Graph\<close> (collation_graph.py), \<open>Registry\<close> (registry.py),
  \<open>Registry_Replay\<close> (registry_replay.py), \<open>Jurisdiction\<close> (jurisdiction.py, jurisdiction_profiles.py). The verdicts of each
  validator and replay are characterised exactly: VERIFIED if and only if everything expected is there and the sums
  agree; the graph search accepts exactly the acyclic graphs and the replay of a graph whose requests the collation accepts
  (\<open>replayable\<close>) always resolves.

  \<^bold>\<open>Evidence and releases.\<close> \<open>Evidence_Store\<close> (storage.py) and \<open>Attestations\<close> (attestations.py, extraction_adapters.py): hash chains
  verify after any operations and detect tampering, references stay bound, and the ids of attestation rows skip those
  that ignored duplicates used up. \<open>Write_Barrier\<close>, \<open>Merkle\<close>, \<open>Release_Records\<close>, \<open>Release_Files\<close>,
  \<open>Release_Exports\<close>, \<open>Release_Publish\<close>, \<open>Release_Trust\<close> (write_barrier.py, releases.py), \<open>Semantics\<close>, \<open>Semantic_Release\<close>
  (release_semantics.py, release_v023.py): the records collected for an election are complete; for records that every format can
  carry (\<open>exportable\<close>) a built release verifies and the exports read back; a verified one is bound to its manifest, the mirror is immutable, inclusion proofs are complete and sound. \<open>Release_Demo\<close> has the concrete release of the
  witnesses.

  \<^bold>\<open>Governance and publication.\<close> \<open>Governance\<close>, \<open>Governance_Chain\<close> (release_governance.py), \<open>Publication\<close>, \<open>Publication_Verify\<close>,
  \<open>Witness\<close> (release_publication.py), \<open>Observer_Pins\<close> (observer_pins.py): key log and checkpoint chains verify after any run of a
  clock that moves forward, published releases verify, equivocations are found, pins are consistent.

  \<^bold>\<open>Access.\<close> \<open>Auth\<close>, \<open>Auth_Audit\<close>, \<open>Auth_Access\<close> (auth.py), \<open>Authentication\<close> (auth_middleware.py), \<open>Rate_Limit\<close> (rate_limit.py,
  edge_security.py): the audit log determines access, tokens work until revoked, writes without a grant are denied.

  \<^bold>\<open>Acquisition.\<close> \<open>Source_Policy\<close>, \<open>Source_Capture\<close> (source_policy.py, source_ingestion.py), \<open>Source_Security\<close> (source_security.py),
  \<open>Source_Scheduler\<close> (source_scheduler.py), \<open>Source_Approval\<close>, \<open>Approved_Acquisition\<close> (source_approval.py), \<open>Source_Transport\<close>
  (source_transport.py), \<open>Source_Automation\<close> (source_automation.py), \<open>Source_Worker\<close> (source_worker.py), \<open>Leases\<close> (postgres_leases.py),
  \<open>Source_Network\<close> (source_network.py), \<open>Source_Adapters\<close> (sources/). A policy is appended to a chain and approved by signed
  events; the scheduler grants slots within rate and backoff; the executor claims, sends and captures each reservation
  once; plans move on; a worker runs only under its lease. The steps of different processes are clauses of inductive
  runs, and the theorems hold for every interleaving. \<open>Acquisition_Demo\<close> has one source for the witnesses.

  \<^bold>\<open>PostgreSQL and object storage.\<close> \<open>Postgres_Time\<close> models TIMESTAMPTZ columns: an instant, read as a datetime in the ZoneInfo of
  the session (\<open>pg_session\<close>), to which timedeltas are added on the wall clock (\<open>zoned_add\<close>). \<open>Postgres_Policy\<close>, \<open>Postgres_Scheduler\<close>, \<open>Postgres_Automation\<close>, \<open>Postgres_Receipts\<close>, \<open>Enrolled_Approval\<close>
  (postgres_source_control.py, source_approval_auth.py) are shown to refine the file stores operation by operation, and the
  places where they do not are stated: the policy chain only verifies in a UTC session, and rate limits and plans follow
  those of the file stores only while the clock of the zone is not changed (\<open>steady_minutes\<close>, \<open>steady_plan\<close>, with
  \<open>limit_lost_in_repeated_hour\<close> and \<open>plan_skips_repeated_hour\<close> for what happens otherwise). \<open>Postgres_Worker\<close>
  (postgres_worker.py) adds the fencing checks: they stop a former holder as long as no lease is released, except for a
  capture whose execution was claimed before (\<open>late_capture_is_kept\<close>). \<open>Raw_Objects\<close> (raw_object_storage.py, legacy_object_migration.py) states the
  contract of an immutable backend as the locale \<open>immutable_backend\<close>, proves raw storage and migration in it, and interprets
  it on the filesystem backend of \<open>Publication\<close>; \<open>Object_Storage\<close> (object_storage.py) interprets it on mirrored backends and
  models the S3 backend over a client of which \<open>s3_faithful\<close> states the documented behaviour.
  \<open>Application_Ledger\<close> (postgres_application_shared.py, postgres_application_db.py, postgres_cutover.py) is the table of
  application records with its cutovers: records are never lost or changed, and a migrated election is identical to its
  SQLite source. \<open>Postgres_Stores\<close> (postgres_evidence_versions.py, postgres_evidence_extractions.py,
  postgres_registry_store.py) has the evidence and registry stores over it, with the pydantic dump and the JSONB column as
  the parameters \<open>pg_codec\<close>; \<open>Postgres_Rows\<close> shows that their histories are chained stores again, \<open>Postgres_Migration\<close> that a
  migrated election reads as in SQLite, and \<open>Postgres_Evidence\<close> has the runs of the ledger, with native activation and
  migration, over which chains verify and references stay bound, for values that survive their round trip through the
  column (\<open>version_kept\<close>, \<open>sources_kept\<close>) and evidence ids that stayed in one place in SQLite (\<open>evidence_stays\<close>).

  \<^bold>\<open>Bounds and fuel.\<close> The JSON scanner takes fuel \<open>2 * length + 2\<close>, which every nesting of a text of that length needs less of;
  integers beyond 4300 digits and CSV fields beyond 131072 characters raise as in Python. The graph search and the
  rounds of the replay carry measures (unvisited nodes, unresolved nodes), \<open>bytes_reader\<close> and the scanners the length of
  their input. The put loop of S3 has two attempts.

  \<^bold>\<open>Parameters.\<close> Ed25519, Parquet and pydantic's reading of signed documents (\<open>release_library\<close>, \<open>semantic_reader\<close>,
  \<open>publication_reader\<close>), pydantic's text of datetimes and floats, URL types, idna, case mapping and ipaddress (\<open>host_library\<close>,
  \<open>net_library\<close>), scrypt, the network (\<open>wire\<close>), the S3 client (\<open>s3_client\<close>), server time zones (\<open>pg_session\<close>). Hypotheses on them are
  named (\<open>library_ok\<close>, \<open>signatures_ok\<close>, \<open>s3_faithful\<close>, \<open>float_dump_ok\<close>) and each has a concrete instance in a witness.

  \<^bold>\<open>Not modelled.\<close> The FastAPI applications and command lines (api.py, auth_api.py, source_api.py, production_api.py,
  publication_api.py, cli.py, publication_cli.py, postgres_cli.py), which parse requests and call the operations above;
  connection pools, table creation and environment wiring (postgres_db.py, postgres_runtime.py, production_stores.py) are
  driver and database calls. The artifacts and releases of the PostgreSQL stores (postgres_artifacts.py,
  postgres_release*.py, postgres_publication_v2.py) repeat operations of the file stores and are not modelled.
  Symbolic links, names the operating system refuses, fsync, crashes between two databases and Python's recursion limit
  are outside the model.
\<close>

end
